(* ===== verification/Kokoro_Prelude.thy ===== *)
theory Kokoro_Prelude
  imports Main "HOL-Library.Char_ord" "HOL-Library.List_Lexorder" "HOL-Library.Multiset"
    "HOL-Library.Word"
begin

text \<open>
  What the components share: the collections of simplification rules, the error values that
  stand for Go's \<open>error\<close> results, the script of operating-system outcomes that stands for the
  environment, files that hold a marshalled value, and the functions of Go's packages
  \<open>strings\<close>, \<open>strconv\<close> and \<open>sort\<close> that the sources call. A Go string is a list of bytes, so it is
  a \<open>string\<close> (a list of 8-bit characters) here.
\<close>

named_theorems go_string_simps \<open>rules for the functions of Go's package strings\<close>
named_theorems io_simps \<open>rules for scripts of operating-system outcomes\<close>

section \<open>Errors, outcomes of system calls, files\<close>

text \<open>
  \<open>Plain m\<close> is \<open>errors.New\<close> or \<open>fmt.Errorf\<close> without verbs, \<open>Plainf m as\<close> is \<open>fmt.Errorf\<close> whose
  verbs print the strings \<open>as\<close>, \<open>Wrapped m e\<close> wraps \<open>e\<close> with \<open>%w\<close>, \<open>HTTPError s m\<close> is
  \<open>httphelper.HTTPError\<close>, \<open>HTTPErrorOf s e\<close> is one whose message is made from \<open>e.Error()\<close>, \<open>SysErr\<close> is an error of the operating system and \<open>Joined es\<close> is
  \<open>errors.Join\<close> of at least one error.
\<close>

datatype err =
    Plain string
  | Plainf string "string list"
  | Wrapped string err
  | HTTPError nat string
  | HTTPErrorOf nat err
  | SysErr
  | Joined "err list"

type_synonym 'a res = "err + 'a"

text \<open>
  A system call succeeds (\<open>Done\<close>), fails without effect (\<open>Fails\<close>) or fails after its effect or
  part of it took place (\<open>Partial\<close>). Every component reads these outcomes from a script in its
  state; a script that has run out lets every call succeed. Theorems quantify over all scripts.
\<close>

datatype io = Done | Fails | Partial

fun next_io :: "io list \<Rightarrow> io \<times> io list" where
  "next_io [] = (Done, [])"
| "next_io (x # xs) = (x, xs)"

text \<open>\<open>run_ios n\<close> is a sequence of \<open>n\<close> calls that stops at the first one that fails.\<close>

fun run_ios :: "nat \<Rightarrow> io list \<Rightarrow> bool \<times> io list" where
  "run_ios 0 xs = (True, xs)"
| "run_ios (Suc n) xs =
     (case next_io xs of (r, xs') \<Rightarrow> if r = Done then run_ios n xs' else (False, xs'))"

text \<open>
  A file that holds one value written by \<open>json.Marshal\<close>: \<open>Garbage\<close> is content that
  \<open>json.Unmarshal\<close> rejects.
\<close>

datatype 'a store = Absent | Garbage | Stored 'a

text \<open>\<open>errors.Join\<close> drops nil errors and is nil when nothing is left.\<close>

definition errors_Join :: "err option list \<Rightarrow> err option" where
  "errors_Join es =
     (let xs = List.map_filter (\<lambda>e. e) es in if xs = [] then None else Some (Joined xs))"

text \<open>Times and durations are integers, in nanoseconds.\<close>

definition second :: int where "second = 1000000000"

section \<open>Bytes, case mapping and white space\<close>

definition byte_val :: "char \<Rightarrow> nat" where
  "byte_val c = of_char c"

definition is_ascii :: "string \<Rightarrow> bool" where
  "is_ascii s = list_all (\<lambda>c. byte_val c < 128) s"

definition ascii_lower :: "char \<Rightarrow> char" where
  "ascii_lower c = (if 65 \<le> byte_val c \<and> byte_val c \<le> 90 then char_of (byte_val c + 32) else c)"

definition ascii_upper :: "char \<Rightarrow> char" where
  "ascii_upper c = (if 97 \<le> byte_val c \<and> byte_val c \<le> 122 then char_of (byte_val c - 32) else c)"

text \<open>
  Go maps case with the Unicode tables. On ASCII strings the result is computed here; the tables
  for other strings are a parameter of every definition that maps case.
\<close>

record unicode =
  uni_lower :: "string \<Rightarrow> string"
  uni_upper :: "string \<Rightarrow> string"
  uni_fold :: "string \<Rightarrow> string \<Rightarrow> bool"

definition strings_ToLower :: "unicode \<Rightarrow> string \<Rightarrow> string" where
  "strings_ToLower u s = (if is_ascii s then map ascii_lower s else uni_lower u s)"

definition strings_ToUpper :: "unicode \<Rightarrow> string \<Rightarrow> string" where
  "strings_ToUpper u s = (if is_ascii s then map ascii_upper s else uni_upper u s)"

definition strings_EqualFold :: "unicode \<Rightarrow> string \<Rightarrow> string \<Rightarrow> bool" where
  "strings_EqualFold u s t =
     (if is_ascii s \<and> is_ascii t then map ascii_lower s = map ascii_lower t else uni_fold u s t)"

text \<open>A concrete table for evaluation: bytes outside ASCII are left as they are.\<close>

definition ascii_only :: unicode where
  "ascii_only = \<lparr>uni_lower = map ascii_lower, uni_upper = map ascii_upper,
     uni_fold = (\<lambda>s t. map ascii_lower s = map ascii_lower t)\<rparr>"

text \<open>The UTF-8 encodings of the code points with Unicode's White Space property.\<close>

definition space_runes :: "string list" where
  "space_runes =
     map (\<lambda>n. [char_of n]) [9, 10, 11, 12, 13, 32 :: nat] @
     map (map char_of)
       ([[0xC2, 0x85], [0xC2, 0xA0], [0xE1, 0x9A, 0x80]] @
        map (\<lambda>n. [0xE2, 0x80, n]) ([0x80..<0x8B] @ [0xA8, 0xA9, 0xAF]) @
        [[0xE2, 0x81, 0x9F], [0xE3, 0x80, 0x80 :: nat]])"

function strip :: "string list \<Rightarrow> string \<Rightarrow> string" where
  "strip encs s =
     (case find (\<lambda>e. e \<noteq> [] \<and> take (length e) s = e) encs of
        None \<Rightarrow> s
      | Some e \<Rightarrow> strip encs (drop (length e) s))"
  by pat_completeness auto
termination
proof (relation "measure (\<lambda>(encs, s). length s)", simp, goal_cases)
  case (1 encs s e)
  then have "e \<noteq> []" "take (length e) s = e"
    by (auto simp: find_Some_iff)
  then have "s \<noteq> []" by auto
  with \<open>e \<noteq> []\<close> show ?case by simp
qed

declare strip.simps [simp del]

definition trim_space :: "string \<Rightarrow> string" where
  "trim_space s = rev (strip (map rev space_runes) (rev (strip space_runes s)))"

definition has_prefix :: "string \<Rightarrow> string \<Rightarrow> bool" where
  "has_prefix s p = (take (length p) s = p)"

definition has_suffix :: "string \<Rightarrow> string \<Rightarrow> bool" where
  "has_suffix s p = (length p \<le> length s \<and> drop (length s - length p) s = p)"

fun strings_Contains :: "string \<Rightarrow> string \<Rightarrow> bool" where
  "strings_Contains [] p = (p = [])"
| "strings_Contains (c # s) p = (has_prefix (c # s) p \<or> strings_Contains s p)"

text \<open>\<open>strings.ContainsAny\<close> and \<open>strings.ContainsRune\<close> for sets of ASCII characters.\<close>

definition contains_any :: "string \<Rightarrow> string \<Rightarrow> bool" where
  "contains_any s cs = list_ex (\<lambda>c. c \<in> set cs) s"

text \<open>\<open>strings.Split\<close> at a one-byte separator.\<close>

fun split_at :: "char \<Rightarrow> string \<Rightarrow> string list" where
  "split_at c [] = [[]]"
| "split_at c (x # s) =
     (if x = c then [] # split_at c s
      else (case split_at c s of [] \<Rightarrow> [[x]] | p # ps \<Rightarrow> (x # p) # ps))"

fun strings_Join :: "string list \<Rightarrow> string \<Rightarrow> string" where
  "strings_Join [] sep = []"
| "strings_Join [s] sep = s"
| "strings_Join (s # t # ss) sep = s @ sep @ strings_Join (t # ss) sep"

text \<open>\<open>strings.Cut\<close> at a one-byte separator: before, after, found.\<close>

definition strings_Cut :: "string \<Rightarrow> char \<Rightarrow> string \<times> string \<times> bool" where
  "strings_Cut s c =
     (if c \<in> set s then (takeWhile (\<lambda>x. x \<noteq> c) s, tl (dropWhile (\<lambda>x. x \<noteq> c) s), True)
      else (s, [], False))"

section \<open>Decimal numbers (strconv)\<close>

definition is_digit :: "char \<Rightarrow> bool" where
  "is_digit c = (48 \<le> byte_val c \<and> byte_val c \<le> 57)"

definition digit_val :: "char \<Rightarrow> nat" where
  "digit_val c = byte_val c - 48"

definition digits_val :: "string \<Rightarrow> nat" where
  "digits_val s = foldl (\<lambda>n c. 10 * n + digit_val c) 0 s"

text \<open>\<open>strconv.ParseUint(s, 10, bits)\<close>: digits only, and the value fits.\<close>

definition parse_uint :: "nat \<Rightarrow> string \<Rightarrow> nat option" where
  "parse_uint bits s =
     (if s \<noteq> [] \<and> list_all is_digit s \<and> digits_val s < 2 ^ bits then Some (digits_val s) else None)"

text \<open>\<open>strconv.ParseInt(s, 10, bits)\<close>: an optional sign before the digits.\<close>

definition parse_int :: "nat \<Rightarrow> string \<Rightarrow> int option" where
  "parse_int bits s =
     (let (neg, ds) = (case s of [] \<Rightarrow> (False, [])
                       | c # r \<Rightarrow> if c = CHR ''-'' then (True, r)
                                 else if c = CHR ''+'' then (False, r) else (False, s))
      in if ds \<noteq> [] \<and> list_all is_digit ds then
           (if neg then (if digits_val ds \<le> 2 ^ (bits - 1) then Some (- int (digits_val ds)) else None)
            else (if digits_val ds < 2 ^ (bits - 1) then Some (int (digits_val ds)) else None))
         else None)"

text \<open>\<open>strconv.Itoa\<close> and \<open>strconv.FormatUint(n, 10)\<close> on natural numbers.\<close>

fun format_nat :: "nat \<Rightarrow> string" where
  "format_nat n =
     (if n < 10 then [char_of (48 + n)] else format_nat (n div 10) @ [char_of (48 + n mod 10)])"

definition format_int :: "int \<Rightarrow> string" where
  "format_int i = (if i < 0 then CHR ''-'' # format_nat (nat (- i)) else format_nat (nat i))"

text \<open>\<open>e.Error()\<close>, up to the wording of the operating system's own errors.\<close>

fun err_text :: "err \<Rightarrow> string" where
  "err_text (Plain m) = m"
| "err_text (Plainf m args) = m @ '': '' @ strings_Join args '' ''"
| "err_text (Wrapped m e) = m @ '': '' @ err_text e"
| "err_text (HTTPError s m) = m"
| "err_text (HTTPErrorOf s e) = err_text e"
| "err_text SysErr = ''system error''"
| "err_text (Joined es) = strings_Join (map err_text es) [CHR 0x0A]"

declare format_nat.simps [simp del]

section \<open>Paths\<close>

text \<open>\<open>path.Clean\<close>: the elements of the path one by one, with the result so far reversed.\<close>

fun clean_elems :: "bool \<Rightarrow> string list \<Rightarrow> string list \<Rightarrow> string list" where
  "clean_elems rooted acc [] = rev acc"
| "clean_elems rooted acc (e # es) =
     (if e = [] \<or> e = ''.'' then clean_elems rooted acc es
      else if e = ''..'' then
        (case acc of
           [] \<Rightarrow> clean_elems rooted (if rooted then [] else [''..'']) es
         | a # acc' \<Rightarrow> if a = ''..'' then clean_elems rooted (''..'' # acc) es else clean_elems rooted acc' es)
      else clean_elems rooted (e # acc) es)"

definition path_Clean :: "string \<Rightarrow> string" where
  "path_Clean p =
     (if p = [] then ''.''
      else (let rooted = (hd p = CHR ''/'');
                s = strings_Join (clean_elems rooted [] (split_at CHR ''/'' p)) ''/''
            in if rooted then CHR ''/'' # s else if s = [] then ''.'' else s))"

definition path_Base :: "string \<Rightarrow> string" where
  "path_Base p =
     (if p = [] then ''.''
      else (let q = rev (dropWhile (\<lambda>c. c = CHR ''/'') (rev p));
                b = rev (takeWhile (\<lambda>c. c \<noteq> CHR ''/'') (rev q))
            in if b = [] then ''/'' else b))"

text \<open>\<open>filepath.Dir\<close>, \<open>filepath.IsAbs\<close> and \<open>filepath.Abs\<close> on Unix; \<open>cwd\<close> is the working directory, if it can be read.\<close>

definition path_Dir :: "string \<Rightarrow> string" where
  "path_Dir p = path_Clean (rev (dropWhile (\<lambda>c. c \<noteq> CHR ''/'') (rev p)))"

definition path_IsAbs :: "string \<Rightarrow> bool" where
  "path_IsAbs p = has_prefix p ''/''"

definition path_Abs :: "string option \<Rightarrow> string \<Rightarrow> string res" where
  "path_Abs cwd p =
     (if path_IsAbs p then Inr (path_Clean p)
      else (case cwd of None \<Rightarrow> Inl SysErr | Some d \<Rightarrow> Inr (path_Clean (d @ ''/'' @ p))))"

section \<open>Lemmas\<close>

lemma run_ios_Nil [simp]: "run_ios n [] = (True, [])"
  by (induction n) simp_all

lemma next_io_Nil [io_simps]: "next_io [] = (Done, [])" by simp

lemma errors_Join_None_iff: "errors_Join es = None \<longleftrightarrow> (\<forall>e \<in> set es. e = None)"
  by (auto simp: errors_Join_def Let_def map_filter_def filter_empty_conv)

subsection \<open>White space\<close>

lemma strip_suffix: "\<exists>p. s = p @ strip encs s"
proof (induction encs s rule: strip.induct)
  case (1 encs s)
  show ?case
  proof (cases "find (\<lambda>e. e \<noteq> [] \<and> take (length e) s = e) encs")
    case None
    then show ?thesis by (simp add: strip.simps [of encs s])
  next
    case (Some e)
    from "1" [OF Some] obtain p where "drop (length e) s = p @ strip encs (drop (length e) s)" ..
    then have "s = (take (length e) s @ p) @ strip encs (drop (length e) s)"
      by (metis append.assoc append_take_drop_id)
    moreover have "strip encs s = strip encs (drop (length e) s)"
      using Some by (simp add: strip.simps [of encs s])
    ultimately show ?thesis by metis
  qed
qed

lemma strip_clean: "find (\<lambda>e. e \<noteq> [] \<and> take (length e) (strip encs s) = e) encs = None"
proof (induction encs s rule: strip.induct)
  case (1 encs s)
  then show ?case
    by (cases "find (\<lambda>e. e \<noteq> [] \<and> take (length e) s = e) encs")
       (simp_all add: strip.simps [of encs s])
qed

lemma strip_idem [go_string_simps]: "strip encs (strip encs s) = strip encs s"
  by (subst strip.simps) (simp add: strip_clean)

lemma strip_Nil [go_string_simps]: "strip encs [] = []"
proof -
  obtain p where "[] = p @ strip encs []" using strip_suffix by blast
  then show ?thesis by simp
qed

lemma trim_space_subset: "set (trim_space s) \<subseteq> set s"
proof -
  obtain p where p: "s = p @ strip space_runes s" using strip_suffix by blast
  let ?t = "rev (strip space_runes s)"
  obtain q where q: "?t = q @ strip (map rev space_runes) ?t" using strip_suffix by blast
  have "set (strip (map rev space_runes) ?t) \<subseteq> set ?t" by (subst (2) q) auto
  also have "\<dots> \<subseteq> set s" by (subst (2) p) auto
  finally show ?thesis by (simp add: trim_space_def)
qed

lemma strip_prefix_clean:
  assumes "find (\<lambda>e. e \<noteq> [] \<and> take (length e) (t @ p) = e) encs = None"
  shows "strip encs t = t"
proof -
  have "take (length e) (t @ p) = e" if "take (length e) t = e" for e :: string
  proof -
    have "length e \<le> length t" using that by (metis length_take min.cobounded1 min_def)
    with that show ?thesis by simp
  qed
  with assms have "find (\<lambda>e. e \<noteq> [] \<and> take (length e) t = e) encs = None"
    by (auto simp: find_None_iff)
  then show ?thesis by (simp add: strip.simps [of encs t])
qed

lemma trim_space_idem [go_string_simps, simp]: "trim_space (trim_space s) = trim_space s"
proof -
  let ?l = "strip space_runes s"
  let ?r = "strip (map rev space_runes) (rev ?l)"
  obtain p where "rev ?l = p @ ?r" using strip_suffix by blast
  then have "?l = rev ?r @ rev p" by (metis rev_append rev_rev_ident)
  then have "strip space_runes (rev ?r) = rev ?r"
    using strip_clean [of space_runes s] strip_prefix_clean [of "rev ?r" "rev p"] by simp
  then show ?thesis by (simp add: trim_space_def strip_idem)
qed

lemma trim_space_Nil [go_string_simps, simp]: "trim_space [] = []"
  by (simp add: trim_space_def strip_Nil)

text \<open>A string whose characters are all visible ASCII is left alone.\<close>

definition visible :: "char \<Rightarrow> bool" where
  "visible c = (33 \<le> byte_val c \<and> byte_val c < 128)"

lemma space_rune_not_visible: "e \<in> set space_runes \<Longrightarrow> \<exists>c \<in> set e. \<not> visible c"
  by (auto simp: space_runes_def visible_def byte_val_def)

text \<open>Visible characters are never stripped.\<close>

lemma strip_keeps:
  assumes "\<And>e. e \<in> set encs \<Longrightarrow> \<forall>c \<in> set e. \<not> visible c" "visible c" "c \<in> set s"
  shows "c \<in> set (strip encs s)"
  using assms
proof (induction encs s rule: strip.induct)
  case (1 encs s)
  show ?case
  proof (cases "find (\<lambda>e. e \<noteq> [] \<and> take (length e) s = e) encs")
    case None
    then show ?thesis using "1.prems" by (simp add: strip.simps [of encs s])
  next
    case (Some e)
    then have e: "e \<in> set encs" "take (length e) s = e" by (auto simp: find_Some_iff)
    have "c \<notin> set (take (length e) s)" using "1.prems" e by auto
    then have "c \<in> set (drop (length e) s)" using "1.prems"(3) by (metis Un_iff append_take_drop_id set_append)
    then show ?thesis using "1.IH" [OF Some "1.prems"(1,2)] Some by (simp add: strip.simps [of encs s])
  qed
qed

lemma trim_space_keeps: "visible c \<Longrightarrow> c \<in> set s \<Longrightarrow> c \<in> set (trim_space s)"
proof -
  assume c: "visible c" "c \<in> set s"
  have r: "\<forall>c \<in> set e. \<not> visible c" if "e \<in> set space_runes" for e
    using that by (auto simp: space_runes_def visible_def byte_val_def)
  then have "c \<in> set (rev (strip space_runes s))" using strip_keeps [OF _ c, of space_runes] by simp
  moreover have "\<forall>c \<in> set e. \<not> visible c" if "e \<in> set (map rev space_runes)" for e using r that by auto
  ultimately show ?thesis using strip_keeps [OF _ c(1), of "map rev space_runes"] by (simp add: trim_space_def)
qed

lemma strip_visible:
  assumes "list_all visible s" and "\<And>e. e \<in> set encs \<Longrightarrow> \<exists>c \<in> set e. \<not> visible c"
  shows "strip encs s = s"
proof -
  have "take (length e) s \<noteq> e" if e: "e \<in> set encs" for e
  proof
    assume t: "take (length e) s = e"
    obtain c where "c \<in> set e" "\<not> visible c" using assms(2) e by blast
    moreover from this t have "c \<in> set s" by (metis in_set_takeD)
    ultimately show False using assms(1) by (auto simp: list_all_iff)
  qed
  then have "find (\<lambda>e. e \<noteq> [] \<and> take (length e) s = e) encs = None"
    by (auto simp: find_None_iff)
  then show ?thesis by (simp add: strip.simps [of encs s])
qed

lemma trim_space_visible [go_string_simps]:
  assumes "list_all visible s"
  shows "trim_space s = s"
proof -
  have r: "list_all visible (rev s)" using assms by (simp add: list_all_iff)
  have "strip space_runes s = s"
    using assms space_rune_not_visible by (rule strip_visible)
  moreover have "strip (map rev space_runes) (rev s) = rev s"
    using r by (rule strip_visible) (use space_rune_not_visible in auto)
  ultimately show ?thesis by (simp add: trim_space_def)
qed

subsection \<open>Splitting and joining\<close>

lemma split_at_ne [simp]: "split_at c s \<noteq> []"
  by (cases s) (auto split: list.splits)

lemma split_at_no_sep: "p \<in> set (split_at c s) \<Longrightarrow> c \<notin> set p"
proof (induction s arbitrary: p)
  case Nil
  then show ?case by simp
next
  case (Cons x s)
  then show ?case
    by (cases "split_at c s") (auto split: if_splits)
qed

lemma split_at_single: "c \<notin> set s \<Longrightarrow> split_at c s = [s]"
  by (induction s) auto

lemma split_at_append: "c \<notin> set s \<Longrightarrow> split_at c (s @ c # t) = s # split_at c t"
  by (induction s) auto

lemma split_at_Join:
  "ss \<noteq> [] \<Longrightarrow> \<forall>s \<in> set ss. c \<notin> set s \<Longrightarrow> split_at c (strings_Join ss [c]) = ss"
proof (induction ss rule: induct_list012)
  case (3 s t ss)
  then show ?case by (simp add: split_at_append)
qed (auto simp: split_at_single)

lemma strings_Join_inj:
  assumes "strings_Join ss [c] = strings_Join ts [c]" "ss \<noteq> []" "ts \<noteq> []"
    and "\<forall>s \<in> set ss. c \<notin> set s" "\<forall>t \<in> set ts. c \<notin> set t"
  shows "ss = ts"
  using assms by (metis split_at_Join)

lemma strings_Join_split: "strings_Join (split_at c s) [c] = s"
proof (induction s)
  case Nil
  then show ?case by simp
next
  case (Cons x s)
  show ?case
  proof (cases "split_at c s")
    case Nil
    then show ?thesis by simp
  next
    case (Cons p ps)
    with Cons.IH show ?thesis by (cases ps) auto
  qed
qed

lemma set_strings_Join: "set (strings_Join ss sep) \<subseteq> \<Union> (set ` set ss) \<union> set sep"
  by (induction ss sep rule: strings_Join.induct) auto

subsection \<open>Decimal numbers\<close>

lemma format_nat_ne [simp]: "format_nat n \<noteq> []"
  by (subst format_nat.simps) simp

lemma byte_val_char_of [simp]: "n < 256 \<Longrightarrow> byte_val (char_of n) = n"
  by (simp add: byte_val_def)

lemma format_nat_digits: "list_all is_digit (format_nat n)"
proof (induction n rule: format_nat.induct)
  case (1 n)
  have "is_digit (char_of (48 + n mod 10))" "n < 10 \<Longrightarrow> is_digit (char_of (48 + n))"
    by (auto simp: is_digit_def)
  with "1" show ?case
    by (subst format_nat.simps) auto
qed

lemma digits_val_snoc: "digits_val (s @ [c]) = 10 * digits_val s + digit_val c"
  by (simp add: digits_val_def)

lemma digits_val_format_nat [simp]: "digits_val (format_nat n) = n"
proof (induction n rule: format_nat.induct)
  case (1 n)
  show ?case
  proof (cases "n < 10")
    case True
    then show ?thesis
      by (subst format_nat.simps) (simp add: digits_val_def digit_val_def)
  next
    case False
    with "1" show ?thesis
      by (subst format_nat.simps) (simp add: digits_val_snoc digit_val_def)
  qed
qed

lemma parse_uint_format_nat [simp]: "n < 2 ^ bits \<Longrightarrow> parse_uint bits (format_nat n) = Some n"
  by (simp add: parse_uint_def format_nat_digits)

lemma parse_uint_bound: "parse_uint bits s = Some n \<Longrightarrow> n < 2 ^ bits"
  by (auto simp: parse_uint_def split: if_splits)

lemma digit_visible: "is_digit c \<Longrightarrow> visible c"
  by (simp add: is_digit_def visible_def)

lemma trim_space_format_nat [simp]: "trim_space (format_nat n) = format_nat n"
  by (rule trim_space_visible) (use format_nat_digits [of n] digit_visible in \<open>auto simp: list_all_iff\<close>)

text \<open>Appending to a list that keeps its last elements only.\<close>

lemma drop_last_snoc:
  "(let ys = drop (length xs - n) xs @ [e] in if n < length ys then drop (length ys - n) ys else ys) =
     drop (Suc (length xs) - n) (xs @ [e])"
proof (cases "length xs < n")
  case True
  then show ?thesis by (simp add: Let_def)
next
  case False
  then have "Suc (length xs) - n = length xs - n + 1" by simp
  then show ?thesis using False by (cases n) (simp_all add: Let_def)
qed

end
