(* ===== verification/Linux_Plan.thy ===== *)
theory Linux_Plan
  imports Kokoro_Prelude
begin

text \<open>
  The firewall plan of the Linux router (\<open>processrouter/linux_plan.go\<close>): the iptables and ip commands
  that mark, redirect and block the traffic of the routing groups, and the commands that undo them.
\<close>

section \<open>Definitions\<close>

datatype cgroup_mode = linuxCgroupV2 | linuxCgroupV1

definition DNSPort :: int where "DNSPort = 7892"

definition linuxRoutingMark :: string where "linuxRoutingMark = ''0x4b42''"
definition linuxRoutingTable :: string where "linuxRoutingTable = ''20269''"
definition linuxRulePriority :: string where "linuxRulePriority = ''10900''"
definition linuxOutputChain :: string where "linuxOutputChain = ''KOKOROBOX_OUT''"
definition linuxInputChain :: string where "linuxInputChain = ''KOKOROBOX_PRE''"
definition linuxDNSChain :: string where "linuxDNSChain = ''KOKOROBOX_DNS''"
definition linuxBlockChain :: string where "linuxBlockChain = ''KOKOROBOX_BLOCK''"
definition linuxGuardChain :: string where "linuxGuardChain = ''KOKOROBOX_GUARD''"

definition linuxRoutingGroups :: "string list" where
  "linuxRoutingGroups =
     [''proxy-tcp'', ''proxy-udp'', ''proxy-both'', ''direct-tcp'', ''direct-udp'', ''direct-both'',
      ''block-tcp'', ''block-udp'', ''block-both'']"

text \<open>A missing key of the Go map reads as the empty string.\<close>

definition linuxNetClsClassIDs :: "string \<Rightarrow> string" where
  "linuxNetClsClassIDs grp =
     (case map_of [(''proxy-tcp'', ''0x100001''), (''proxy-udp'', ''0x100002''), (''proxy-both'', ''0x100003''),
        (''direct-tcp'', ''0x100011''), (''direct-udp'', ''0x100012''), (''direct-both'', ''0x100013''),
        (''block-tcp'', ''0x100021''), (''block-udp'', ''0x100022''), (''block-both'', ''0x100023'')] grp of
        None \<Rightarrow> [] | Some c \<Rightarrow> c)"

record linux_command =
  lc_Name :: string
  lc_Args :: "string list"

definition linuxRoutingGroup :: "string \<Rightarrow> string \<Rightarrow> string" where
  "linuxRoutingGroup action protocol = action @ ''-'' @ protocol"

definition linuxCgroupMatch :: "cgroup_mode \<Rightarrow> string \<Rightarrow> string list" where
  "linuxCgroupMatch mode grp =
     (if mode = linuxCgroupV2 then [''-m'', ''cgroup'', ''--path'', ''kokorobox-app-routing/'' @ grp]
      else [''-m'', ''cgroup'', ''--cgroup'', linuxNetClsClassIDs grp])"

definition appendLinuxCommand :: "linux_command list \<Rightarrow> string \<Rightarrow> string list \<Rightarrow> linux_command list" where
  "appendLinuxCommand plan name args = plan @ [\<lparr>lc_Name = name, lc_Args = args\<rparr>]"

definition linuxProtocols :: "string \<Rightarrow> string list" where
  "linuxProtocols grp =
     (if length grp \<ge> 4 \<and> drop (length grp - 4) grp = ''both'' then [''tcp'', ''udp'']
      else if length grp \<ge> 3 \<and> drop (length grp - 3) grp = ''tcp'' then [''tcp'']
      else [''udp''])"

definition validateLinuxRoutingGroup :: "string \<Rightarrow> err option" where
  "validateLinuxRoutingGroup grp =
     (if grp \<in> set linuxRoutingGroups then None else Some (Plainf ''unsupported Linux routing group'' [grp]))"

definition cmd :: "string \<Rightarrow> string list \<Rightarrow> linux_command" where
  "cmd name args = \<lparr>lc_Name = name, lc_Args = args\<rparr>"

subsection \<open>Cleanup\<close>

definition cleanup_items :: "(string \<times> string \<times> string) list" where
  "cleanup_items =
     [(''mangle'', ''OUTPUT'', linuxOutputChain), (''mangle'', ''PREROUTING'', linuxInputChain),
      (''nat'', ''OUTPUT'', linuxDNSChain), (''filter'', ''OUTPUT'', linuxBlockChain), (''filter'', ''INPUT'', linuxGuardChain)]"

definition cleanup_tables :: "string \<Rightarrow> linux_command list" where
  "cleanup_tables binary =
     concat (map (\<lambda>(table, parent, chain).
       [cmd binary [''-t'', table, ''-D'', parent, ''-j'', chain],
        cmd binary [''-t'', table, ''-F'', chain],
        cmd binary [''-t'', table, ''-X'', chain]]) cleanup_items)"

definition rule_args :: "string \<Rightarrow> string \<Rightarrow> string list" where
  "rule_args family action =
     [family, ''rule'', action, ''priority'', linuxRulePriority, ''fwmark'', linuxRoutingMark @ ''/0xffffffff'',
      ''lookup'', linuxRoutingTable]"

definition route_args :: "string \<Rightarrow> string \<Rightarrow> string \<Rightarrow> string list" where
  "route_args family action net =
     [family, ''route'', action, ''local'', net, ''dev'', ''lo'', ''table'', linuxRoutingTable]"

definition buildLinuxFirewallCleanup :: "linux_command list" where
  "buildLinuxFirewallCleanup =
     cleanup_tables ''iptables'' @ cleanup_tables ''ip6tables'' @
     [cmd ''ip'' (rule_args ''-4'' ''del''), cmd ''ip'' (rule_args ''-6'' ''del''),
      cmd ''ip'' (route_args ''-4'' ''del'' ''0.0.0.0/0''), cmd ''ip'' (route_args ''-6'' ''del'' ''::/0'')]"

subsection \<open>Setup\<close>

definition setup_chains :: "string \<Rightarrow> int \<Rightarrow> bool \<Rightarrow> linux_command list" where
  "setup_chains binary proxyPort proxyUDPDNS =
     [cmd binary [''-t'', ''mangle'', ''-N'', linuxOutputChain],
      cmd binary [''-t'', ''mangle'', ''-N'', linuxInputChain],
      cmd binary [''-t'', ''filter'', ''-N'', linuxBlockChain],
      cmd binary [''-t'', ''filter'', ''-N'', linuxGuardChain],
      cmd binary [''-t'', ''mangle'', ''-A'', ''OUTPUT'', ''-j'', linuxOutputChain],
      cmd binary [''-t'', ''mangle'', ''-A'', ''PREROUTING'', ''-j'', linuxInputChain],
      cmd binary [''-t'', ''filter'', ''-A'', ''OUTPUT'', ''-j'', linuxBlockChain],
      cmd binary [''-t'', ''filter'', ''-A'', ''INPUT'', ''-j'', linuxGuardChain]] @
     map (\<lambda>protocol. cmd binary [''-t'', ''filter'', ''-A'', linuxGuardChain, ''!'', ''-i'', ''lo'', ''-p'', protocol,
            ''--dport'', format_int proxyPort, ''-j'', ''DROP'']) [''tcp'', ''udp''] @
     (if proxyUDPDNS then
        [cmd binary [''-t'', ''nat'', ''-N'', linuxDNSChain],
         cmd binary [''-t'', ''nat'', ''-A'', ''OUTPUT'', ''-j'', linuxDNSChain]]
      else [])"

definition protected_targets :: "string \<Rightarrow> string list" where
  "protected_targets binary =
     (if binary = ''ip6tables'' then [''::1/128'', ''fe80::/10'', ''ff00::/8'']
      else [''127.0.0.0/8'', ''169.254.0.0/16'', ''224.0.0.0/4''])"

definition proxy_rules :: "cgroup_mode \<Rightarrow> bool \<Rightarrow> string \<Rightarrow> string \<Rightarrow> string \<Rightarrow> linux_command list" where
  "proxy_rules mode proxyUDPDNS binary grp protocol =
     (let match0 = linuxCgroupMatch mode grp in
      (if proxyUDPDNS then
         [cmd binary ([''-t'', ''nat'', ''-A'', linuxDNSChain] @ match0 @
            [''-p'', protocol, ''--dport'', ''53'', ''-j'', ''REDIRECT'', ''--to-ports'', format_int DNSPort])]
       else []) @
      map (\<lambda>target. cmd binary ([''-t'', ''mangle'', ''-A'', linuxOutputChain] @ match0 @
             [''-p'', protocol, ''-d'', target, ''-j'', ''RETURN''])) (protected_targets binary) @
      [cmd binary ([''-t'', ''mangle'', ''-A'', linuxOutputChain] @ match0 @
         [''-p'', protocol, ''-j'', ''MARK'', ''--set-mark'', linuxRoutingMark])])"

definition block_rule :: "cgroup_mode \<Rightarrow> string \<Rightarrow> string \<Rightarrow> string \<Rightarrow> linux_command" where
  "block_rule mode binary grp protocol =
     cmd binary ([''-t'', ''filter'', ''-A'', linuxBlockChain] @ linuxCgroupMatch mode grp @
       [''-p'', protocol, ''-j'', ''DROP''])"

definition setup_rest :: "cgroup_mode \<Rightarrow> int \<Rightarrow> bool \<Rightarrow> string \<Rightarrow> linux_command list" where
  "setup_rest mode proxyPort proxyUDPDNS binary =
     concat (map (\<lambda>grp. concat (map (proxy_rules mode proxyUDPDNS binary grp) (linuxProtocols grp)))
       [''proxy-tcp'', ''proxy-udp'', ''proxy-both'']) @
     concat (map (\<lambda>grp. map (block_rule mode binary grp) (linuxProtocols grp))
       [''block-tcp'', ''block-udp'', ''block-both'']) @
     map (\<lambda>protocol. cmd binary [''-t'', ''mangle'', ''-A'', linuxInputChain, ''-m'', ''mark'', ''--mark'', linuxRoutingMark,
            ''-p'', protocol, ''-j'', ''TPROXY'', ''--on-port'', format_int proxyPort,
            ''--tproxy-mark'', linuxRoutingMark @ ''/0xffffffff'']) [''tcp'', ''udp'']"

definition setup_binary :: "cgroup_mode \<Rightarrow> int \<Rightarrow> bool \<Rightarrow> string \<Rightarrow> linux_command list" where
  "setup_binary mode proxyPort proxyUDPDNS binary =
     setup_chains binary proxyPort proxyUDPDNS @ setup_rest mode proxyPort proxyUDPDNS binary"

definition setup_only :: "cgroup_mode \<Rightarrow> int \<Rightarrow> bool \<Rightarrow> linux_command list" where
  "setup_only mode proxyPort proxyUDPDNS =
     setup_binary mode proxyPort proxyUDPDNS ''iptables'' @ setup_binary mode proxyPort proxyUDPDNS ''ip6tables'' @
     [cmd ''ip'' (route_args ''-4'' ''replace'' ''0.0.0.0/0''), cmd ''ip'' (route_args ''-6'' ''replace'' ''::/0''),
      cmd ''ip'' (rule_args ''-4'' ''add''), cmd ''ip'' (rule_args ''-6'' ''add'')]"

definition buildLinuxFirewallSetup :: "cgroup_mode \<Rightarrow> int \<Rightarrow> bool \<Rightarrow> linux_command list" where
  "buildLinuxFirewallSetup mode proxyPort proxyUDPDNS = buildLinuxFirewallCleanup @ setup_only mode proxyPort proxyUDPDNS"

subsection \<open>What a command creates and what one removes\<close>

text \<open>
  The objects of the plan: a chain of a table, a jump from a built-in chain, a policy route and a
  policy rule. Rules inside a chain of the plan go when the chain is flushed.
\<close>

datatype fw_object =
    Chain string string string
  | Jump string string string string
  | InChain string string string
  | Route string string
  | PolicyRule string

definition builtin :: "string list" where "builtin = [''OUTPUT'', ''PREROUTING'', ''INPUT'']"

fun creates_args :: "string \<Rightarrow> string list \<Rightarrow> fw_object option" where
  "creates_args b (t # tab # op # c # r) =
     (if b = ''ip'' then
        (if tab = ''route'' \<and> op = ''replace'' then Some (Route t (hd r))
         else if tab = ''rule'' \<and> op = ''add'' then Some (PolicyRule t) else None)
      else if op = ''-N'' then Some (Chain b tab c)
      else if op = ''-A'' then (if c \<in> set builtin then Some (Jump b tab c (last r)) else Some (InChain b tab c))
      else None)"
| "creates_args b _ = None"

fun removes_args :: "string \<Rightarrow> string list \<Rightarrow> fw_object option" where
  "removes_args b (t # tab # op # c # r) =
     (if b = ''ip'' then
        (if tab = ''route'' \<and> op = ''del'' then Some (Route t (hd r))
         else if tab = ''rule'' \<and> op = ''del'' then Some (PolicyRule t) else None)
      else if op = ''-X'' then Some (Chain b tab c)
      else if op = ''-F'' then Some (InChain b tab c)
      else if op = ''-D'' then Some (Jump b tab c (last r))
      else None)"
| "removes_args b _ = None"

definition creates :: "linux_command \<Rightarrow> fw_object option" where "creates c = creates_args (lc_Name c) (lc_Args c)"
definition removes :: "linux_command \<Rightarrow> fw_object option" where "removes c = removes_args (lc_Name c) (lc_Args c)"

section \<open>Lemmas\<close>

lemmas chain_names = linuxOutputChain_def linuxInputChain_def linuxDNSChain_def linuxBlockChain_def linuxGuardChain_def

lemma linuxProtocols_groups:
  "linuxProtocols ''proxy-tcp'' = [''tcp'']" "linuxProtocols ''proxy-udp'' = [''udp'']"
  "linuxProtocols ''proxy-both'' = [''tcp'', ''udp'']" "linuxProtocols ''block-tcp'' = [''tcp'']"
  "linuxProtocols ''block-udp'' = [''udp'']" "linuxProtocols ''block-both'' = [''tcp'', ''udp'']"
  by (simp_all add: linuxProtocols_def)

text \<open>The objects that cleanup removes.\<close>

definition owned :: "fw_object set" where
  "owned = {ob. \<exists>c \<in> set buildLinuxFirewallCleanup. removes c = Some ob}"

lemma owned_tables:
  assumes "b \<in> {''iptables'', ''ip6tables''}" and "(tab, parent, chain) \<in> set cleanup_items"
  shows "Chain b tab chain \<in> owned" "Jump b tab parent chain \<in> owned" "InChain b tab chain \<in> owned"
proof -
  have sub: "set (cleanup_tables b) \<subseteq> set buildLinuxFirewallCleanup"
    using assms(1) by (auto simp: buildLinuxFirewallCleanup_def)
  have c: "cmd b [''-t'', tab, ''-X'', chain] \<in> set (cleanup_tables b)"
      "cmd b [''-t'', tab, ''-D'', parent, ''-j'', chain] \<in> set (cleanup_tables b)"
      "cmd b [''-t'', tab, ''-F'', chain] \<in> set (cleanup_tables b)"
    using assms(2) by (force simp: cleanup_tables_def)+
  have ne: "b \<noteq> ''ip''" using assms(1) by auto
  show "Chain b tab chain \<in> owned" "Jump b tab parent chain \<in> owned" "InChain b tab chain \<in> owned"
    using c sub ne by (auto simp: owned_def removes_def cmd_def intro: bexI [rotated])
qed

lemma owned_ip:
  "Route ''-4'' ''0.0.0.0/0'' \<in> owned" "Route ''-6'' ''::/0'' \<in> owned" "PolicyRule ''-4'' \<in> owned" "PolicyRule ''-6'' \<in> owned"
  by (simp_all add: owned_def buildLinuxFirewallCleanup_def removes_def cmd_def rule_args_def route_args_def bex_Un)

lemma creates_table:
  "b \<noteq> ''ip'' \<Longrightarrow> creates (cmd b [''-t'', tab, ''-N'', c]) = Some (Chain b tab c)"
  "b \<noteq> ''ip'' \<Longrightarrow> c \<notin> set builtin \<Longrightarrow> creates (cmd b (''-t'' # tab # ''-A'' # c # r)) = Some (InChain b tab c)"
  "b \<noteq> ''ip'' \<Longrightarrow> c \<in> set builtin \<Longrightarrow> creates (cmd b [''-t'', tab, ''-A'', c, ''-j'', d]) = Some (Jump b tab c d)"
  by (simp_all add: creates_def cmd_def)

lemma not_builtin:
  "linuxOutputChain \<notin> set builtin" "linuxInputChain \<notin> set builtin" "linuxDNSChain \<notin> set builtin"
  "linuxBlockChain \<notin> set builtin" "linuxGuardChain \<notin> set builtin"
  "''OUTPUT'' \<in> set builtin" "''PREROUTING'' \<in> set builtin" "''INPUT'' \<in> set builtin"
  by (simp_all add: chain_names builtin_def)

lemma in_items:
  "(''mangle'', ''OUTPUT'', linuxOutputChain) \<in> set cleanup_items" "(''mangle'', ''PREROUTING'', linuxInputChain) \<in> set cleanup_items"
  "(''nat'', ''OUTPUT'', linuxDNSChain) \<in> set cleanup_items" "(''filter'', ''OUTPUT'', linuxBlockChain) \<in> set cleanup_items"
  "(''filter'', ''INPUT'', linuxGuardChain) \<in> set cleanup_items"
  by (simp_all add: cleanup_items_def)

lemma setup_rest_cases:
  assumes "c \<in> set (setup_rest mode port dns b)"
  obtains g p where "c \<in> set (proxy_rules mode dns b g p)" | g p where "c = block_rule mode b g p"
  | r where "c = cmd b (''-t'' # ''mangle'' # ''-A'' # linuxInputChain # r)"
  using assms by (auto simp: setup_rest_def)

lemma setup_binary_owned:
  assumes b: "b \<in> {''iptables'', ''ip6tables''}" and c: "c \<in> set (setup_binary mode port dns b)"
  shows "\<exists>ob. creates c = Some ob \<and> ob \<in> owned"
proof -
  have ne: "b \<noteq> ''ip''" using b by auto
  note own = owned_tables [OF b in_items(1)] owned_tables [OF b in_items(2)] owned_tables [OF b in_items(3)]
    owned_tables [OF b in_items(4)] owned_tables [OF b in_items(5)]
  note cr = creates_table [OF ne] not_builtin own
  have 1: "\<exists>ob. creates c = Some ob \<and> ob \<in> owned" if "c \<in> set (setup_chains b port dns)"
    using that cr by (auto simp: setup_chains_def split: if_splits)
  have 2: "\<exists>ob. creates c = Some ob \<and> ob \<in> owned" if "c \<in> set (proxy_rules mode dns b g p)" for g p
    using that cr by (auto simp: proxy_rules_def Let_def split: if_splits)
  have 3: "\<exists>ob. creates c = Some ob \<and> ob \<in> owned" if "c = block_rule mode b g p" for g p
    using that cr by (auto simp: block_rule_def)
  have 4: "\<exists>ob. creates c = Some ob \<and> ob \<in> owned"
    if "c = cmd b (''-t'' # ''mangle'' # ''-A'' # linuxInputChain # r)" for r
    using that cr by auto
  show ?thesis
    using c 1 2 3 4 by (auto simp: setup_binary_def elim!: setup_rest_cases)
qed

text \<open>In the order of the commands a chain exists before a rule is appended to it or a jump leads to it.\<close>

fun ordered_from :: "fw_object list \<Rightarrow> linux_command list \<Rightarrow> bool" where
  "ordered_from seen [] = True"
| "ordered_from seen (c # cs) =
     ((case creates c of
         Some (InChain b tab ch) \<Rightarrow> Chain b tab ch \<in> set seen
       | Some (Jump b tab parent ch) \<Rightarrow> Chain b tab ch \<in> set seen
       | _ \<Rightarrow> True) \<and>
      ordered_from (case creates c of Some ob \<Rightarrow> ob # seen | None \<Rightarrow> seen) cs)"

lemma ordered_from_append:
  "ordered_from seen (xs @ ys) \<longleftrightarrow>
     ordered_from seen xs \<and> ordered_from (rev (List.map_filter creates xs) @ seen) ys"
  by (induction seen xs rule: ordered_from.induct) (auto simp: map_filter_simps split: option.split)

text \<open>The chains a command relies on.\<close>

definition needs :: "linux_command \<Rightarrow> fw_object option" where
  "needs c = (case creates c of
      Some (InChain b tab ch) \<Rightarrow> Some (Chain b tab ch)
    | Some (Jump b tab parent ch) \<Rightarrow> Some (Chain b tab ch)
    | _ \<Rightarrow> None)"

lemma ordered_from_needs: "\<forall>c \<in> set cs. set_option (needs c) \<subseteq> set seen \<Longrightarrow> ordered_from seen cs"
  by (induction cs arbitrary: seen) (auto simp: needs_def subset_iff split: option.splits fw_object.splits)

lemma needs_table:
  "b \<noteq> ''ip'' \<Longrightarrow> c \<notin> set builtin \<Longrightarrow> needs (cmd b (''-t'' # tab # ''-A'' # c # r)) = Some (Chain b tab c)"
  by (simp add: needs_def creates_table)

lemma setup_binary_ordered:
  assumes b: "b \<in> {''iptables'', ''ip6tables''}"
  shows "ordered_from seen (setup_binary mode port dns b)"
proof -
  have ne: "b \<noteq> ''ip''" using b by auto
  let ?seen = "rev (List.map_filter creates (setup_chains b port dns)) @ seen"
  have chains: "ordered_from seen (setup_chains b port dns)"
    using ne by (simp add: setup_chains_def creates_table not_builtin)
  have have_chains: "Chain b ''mangle'' linuxOutputChain \<in> set ?seen" "Chain b ''mangle'' linuxInputChain \<in> set ?seen"
      "Chain b ''filter'' linuxBlockChain \<in> set ?seen" "dns \<Longrightarrow> Chain b ''nat'' linuxDNSChain \<in> set ?seen"
    using ne by (simp_all add: setup_chains_def creates_table not_builtin map_filter_simps)
  define S where "S = set ?seen"
  note nd = needs_table [OF ne] not_builtin have_chains [folded S_def]
  have 2: "set_option (needs c) \<subseteq> S" if "c \<in> set (proxy_rules mode dns b g p)" for c g p
    using that nd by (auto simp: proxy_rules_def Let_def split: if_splits)
  have 3: "set_option (needs c) \<subseteq> S" if "c = block_rule mode b g p" for c g p
    using that nd by (auto simp: block_rule_def)
  have 4: "set_option (needs c) \<subseteq> S" if "c = cmd b (''-t'' # ''mangle'' # ''-A'' # linuxInputChain # r)" for c r
    using that nd by auto
  have "set_option (needs c) \<subseteq> S" if "c \<in> set (setup_rest mode port dns b)" for c
    using that 2 3 4 by (elim setup_rest_cases) simp_all
  then have "ordered_from ?seen (setup_rest mode port dns b)"
    unfolding S_def by (intro ordered_from_needs) blast
  with chains show ?thesis unfolding setup_binary_def by (simp only: ordered_from_append)
qed

section \<open>Properties\<close>


text \<open>
  The plan is well ordered: no command appends to a chain or jumps to a chain before the plan has
  created it, for either family, in either cgroup mode, for any port and with or without DNS.
\<close>

theorem setup_well_ordered:
  "ordered_from [] (drop (length buildLinuxFirewallCleanup) (buildLinuxFirewallSetup mode port dns))"
proof -
  have ip: "ordered_from seen [cmd ''ip'' (route_args ''-4'' ''replace'' ''0.0.0.0/0''), cmd ''ip'' (route_args ''-6'' ''replace'' ''::/0''),
      cmd ''ip'' (rule_args ''-4'' ''add''), cmd ''ip'' (rule_args ''-6'' ''add'')]" for seen
    by (simp add: creates_def cmd_def route_args_def rule_args_def)
  show ?thesis
    using setup_binary_ordered [of "''iptables''"] setup_binary_ordered [of "''ip6tables''"] ip
    by (simp add: buildLinuxFirewallSetup_def setup_only_def ordered_from_append del: ordered_from.simps)
qed

text \<open>
  The plan covers the routing groups: for both families and every protocol of a group, traffic of
  the proxy groups is marked for the transparent proxy and traffic of the block groups is dropped.
\<close>

theorem plan_covers_groups:
  "list_all (\<lambda>b. list_all (\<lambda>g. list_all (\<lambda>p.
       cmd b ([''-t'', ''mangle'', ''-A'', linuxOutputChain] @ linuxCgroupMatch mode g @ [''-p'', p, ''-j'', ''MARK'', ''--set-mark'', linuxRoutingMark])
         \<in> set (buildLinuxFirewallSetup mode port dns)) (linuxProtocols g)) [''proxy-tcp'', ''proxy-udp'', ''proxy-both'']) [''iptables'', ''ip6tables''] \<and>
   list_all (\<lambda>b. list_all (\<lambda>g. list_all (\<lambda>p.
       cmd b ([''-t'', ''filter'', ''-A'', linuxBlockChain] @ linuxCgroupMatch mode g @ [''-p'', p, ''-j'', ''DROP''])
         \<in> set (buildLinuxFirewallSetup mode port dns)) (linuxProtocols g)) [''block-tcp'', ''block-udp'', ''block-both'']) [''iptables'', ''ip6tables'']"
proof -
  have mark: "cmd b ([''-t'', ''mangle'', ''-A'', linuxOutputChain] @ linuxCgroupMatch mode g @ [''-p'', p, ''-j'', ''MARK'', ''--set-mark'', linuxRoutingMark])
      \<in> set (proxy_rules mode dns b g p)" for b g p
    by (simp add: proxy_rules_def Let_def)
  have sub: "set (proxy_rules mode dns b g p) \<subseteq> set (setup_binary mode port dns b)"
    if "g \<in> set [''proxy-tcp'', ''proxy-udp'', ''proxy-both'']" "p \<in> set (linuxProtocols g)" for b g p
    using that by (auto simp: setup_binary_def setup_rest_def)
  have drop: "block_rule mode b g p \<in> set (setup_binary mode port dns b)"
    if "g \<in> set [''block-tcp'', ''block-udp'', ''block-both'']" "p \<in> set (linuxProtocols g)" for b g p
    using that by (auto simp: setup_binary_def setup_rest_def)
  have all: "set (setup_binary mode port dns b) \<subseteq> set (buildLinuxFirewallSetup mode port dns)"
    if "b \<in> set [''iptables'', ''ip6tables'']" for b
    using that by (auto simp: buildLinuxFirewallSetup_def setup_only_def)
  show ?thesis
    unfolding list_all_iff using mark sub drop all unfolding block_rule_def by blast
qed

end
