(* ===== verification/Router_Rules.thy ===== *)
theory Router_Rules
  imports Kokoro_Prelude
begin

text \<open>
  The rules of the process router (\<open>processrouter/types.go\<close>): validation and normalisation of the
  client's rules, the wildcard matcher that protects the product's own processes, and the command
  sent to the native router. \<open>runtime.GOOS\<close> and the Unicode case tables are arguments.
\<close>

section \<open>Definitions\<close>

subsection \<open>Data\<close>

definition ProtocolVersion :: int where "ProtocolVersion = 1"
definition WindowsProxyPort :: int where "WindowsProxyPort = 7891"
definition LinuxProxyPort :: int where "LinuxProxyPort = 7894"
definition maxRules :: nat where "maxRules = 256"
definition maxPathBytes :: nat where "maxPathBytes = 1023"
definition matchExecutablePath :: string where "matchExecutablePath = ''executable_path''"
definition matchProcessName :: string where "matchProcessName = ''process_name''"

definition validProtocols :: "string list" where "validProtocols = [''tcp'', ''udp'', ''both'']"
definition validActions :: "string list" where "validActions = [''proxy'', ''direct'', ''block'']"

definition protectedNames :: "string list" where
  "protectedNames =
     [''kokorobox.exe'', ''mihomo.exe'', ''mihomo-alpha.exe'', ''kokorobox-service.exe'', ''sparkle-service.exe'',
      ''kokorobox-process-router.exe'', ''crashpad_handler.exe'', ''elevate.exe'', ''kokorobox'', ''mihomo'',
      ''mihomo-alpha'', ''kokorobox-service'', ''crashpad_handler'', ''chrome_crashpad_handler'']"

record rule =
  r_ID :: string
  r_MatchKind :: string
  r_ExecutablePath :: string
  r_ExecutableName :: string
  r_Protocol :: string
  r_Action :: string
  r_Enabled :: bool
  r_Priority :: int

record rules_request =
  rr_Version :: int
  rr_Platform :: string
  rr_ProxyPort :: int
  rr_FailClosed :: bool
  rr_ProxyUDPDNS :: bool
  rr_DiagnosticLogging :: bool
  rr_Rules :: "rule list"

record router_rule =
  nr_ProcessPattern :: string
  nr_MatchKind :: string
  nr_Protocol :: string
  nr_Action :: string
  nr_Enabled :: bool
  nr_Priority :: int

record router_proxy =
  np_Host :: string
  np_Port :: int

record router_command =
  nc_Version :: int
  nc_Command :: string
  nc_Proxy :: router_proxy
  nc_FailClosed :: bool
  nc_ProxyUDPDNS :: bool
  nc_DiagnosticLogging :: bool
  nc_Rules :: "router_rule list"

subsection \<open>Paths\<close>

definition isASCIIAlpha :: "char \<Rightarrow> bool" where
  "isASCIIAlpha c =
     (let n = byte_val c in 97 \<le> n \<and> n \<le> 122 \<or> 65 \<le> n \<and> n \<le> 90)"

definition windowsBaseName :: "string \<Rightarrow> string" where
  "windowsBaseName value = rev (takeWhile (\<lambda>c. c \<noteq> CHR 0x5C) (rev value))"

definition validLinuxExecutablePath :: "string \<Rightarrow> bool" where
  "validLinuxExecutablePath value =
     (if value = [] \<or> length value > maxPathBytes \<or> CHR 0x00 \<in> set value then False
      else if \<not> has_prefix value ''/'' \<or> path_Clean value \<noteq> value \<or> value = ''/'' then False
      else \<not> contains_any value [CHR ''*'', CHR ''?'', CHR '';'', CHR '','', CHR 0x0D, CHR 0x0A])"

definition validLinuxProcessName :: "string \<Rightarrow> bool" where
  "validLinuxProcessName value =
     (if value = [] \<or> value = ''.'' \<or> value = ''..'' \<or> length value > 255 then False
      else \<not> list_ex (\<lambda>c. byte_val c < 32 \<or> byte_val c = 127 \<or> c \<in> set ''/*?;,'') value)"

definition validWindowsExecutablePattern :: "unicode \<Rightarrow> string \<Rightarrow> bool" where
  "validWindowsExecutablePattern U value =
     (if value = [] \<or> length value > maxPathBytes \<or> CHR 0x00 \<in> set value then False
      else if contains_any value [CHR ''?'', CHR '';'', CHR '','', CHR 0x22] \<or> strings_Contains value ''/'' then False
      else if has_prefix value [CHR 0x5C, CHR 0x5C, CHR ''?'', CHR 0x5C] \<or>
              has_prefix value [CHR 0x5C, CHR 0x5C, CHR ''.'', CHR 0x5C] then False
      else if list_ex (\<lambda>c. byte_val c < 32) value then False
      else if \<not> has_suffix (strings_ToLower U value) ''.exe'' then False
      else if CHR 0x5C \<notin> set value then \<not> contains_any value ''<>:|'' \<and> value \<noteq> ''.exe''
      else
        (let drivePath = length value > 3 \<and> isASCIIAlpha (value ! 0) \<and> value ! 1 = CHR '':'' \<and> value ! 2 = CHR 0x5C;
             uncPath = length value > 4 \<and> has_prefix value [CHR 0x5C, CHR 0x5C]
         in if \<not> drivePath \<and> \<not> uncPath then False
            else
              (let pathBody = (if uncPath then drop 2 value else drop 3 value);
                   minimumSegments = (if uncPath then 3 else 1);
                   segments = split_at CHR 0x5C pathBody
               in if length segments < minimumSegments then False
                  else list_all (\<lambda>s. \<not> (s = [] \<or> s = ''.'' \<or> s = ''..'' \<or> has_suffix s ''.'' \<or> has_suffix s '' '' \<or>
                          contains_any s [CHR ''<'', CHR ''>'', CHR '':'', CHR 0x22, CHR ''|''])) segments)))"

subsection \<open>Protected processes\<close>

text \<open>
  The loop of \<open>wildcardMatches\<close>: the indexes into pattern and value, and the last star with the
  value index it was tried at. The result \<open>None\<close> would be a loop that does not end.
\<close>

partial_function (option) wildcard_loop ::
  "string \<Rightarrow> string \<Rightarrow> nat \<Rightarrow> nat \<Rightarrow> (nat \<times> nat) option \<Rightarrow> bool option" where
  "wildcard_loop pattern value patternIndex valueIndex star =
     (if valueIndex < length value then
        (if patternIndex < length pattern \<and> pattern ! patternIndex = value ! valueIndex
         then wildcard_loop pattern value (patternIndex + 1) (valueIndex + 1) star
         else if patternIndex < length pattern \<and> pattern ! patternIndex = CHR ''*''
         then wildcard_loop pattern value (patternIndex + 1) valueIndex (Some (patternIndex, valueIndex))
         else (case star of
             None \<Rightarrow> Some False
           | Some (starIndex, starValueIndex) \<Rightarrow>
               wildcard_loop pattern value (starIndex + 1) (starValueIndex + 1) (Some (starIndex, starValueIndex + 1))))
      else Some (dropWhile (\<lambda>c. c = CHR ''*'') (drop patternIndex pattern) = []))"

declare wildcard_loop.simps [code]

definition wildcardMatches :: "unicode \<Rightarrow> string \<Rightarrow> string \<Rightarrow> bool" where
  "wildcardMatches U pattern0 value0 =
     (wildcard_loop (strings_ToLower U pattern0) (strings_ToLower U value0) 0 0 None = Some True)"

definition isProtectedProcess :: "unicode \<Rightarrow> string \<Rightarrow> bool" where
  "isProtectedProcess U name =
     (let normalized = strings_ToLower U name in
      normalized \<in> set protectedNames \<or>
      (has_prefix normalized ''kokorobox-desktop-windows-'' \<and> has_suffix normalized ''-setup.exe''))"

definition isProtectedProcessPattern :: "unicode \<Rightarrow> string \<Rightarrow> bool" where
  "isProtectedProcessPattern U pattern0 =
     (list_ex (wildcardMatches U pattern0) protectedNames \<or>
      wildcardMatches U pattern0 ''kokorobox-desktop-windows-2.0.0-x64-setup.exe'')"

subsection \<open>Validation and normalisation\<close>

text \<open>The platform part of \<open>validateRule\<close>: an error or the name that is checked below it.\<close>

definition rule_name :: "unicode \<Rightarrow> rule \<Rightarrow> string \<Rightarrow> string res" where
  "rule_name U r platform =
     (if platform = ''linux'' then
        (if r_MatchKind r = matchExecutablePath then
           (if \<not> validLinuxExecutablePath (r_ExecutablePath r)
            then Inl (Plain ''executable_path must be an absolute canonical Linux executable path'')
            else Inr (path_Base (r_ExecutablePath r)))
         else if r_MatchKind r = matchProcessName then
           (if \<not> validLinuxProcessName (r_ExecutableName r)
            then Inl (Plain ''executable_name must contain a valid Linux process name'')
            else if r_ExecutablePath r \<noteq> [] \<and> \<not> validLinuxExecutablePath (r_ExecutablePath r)
            then Inl (Plain ''executable_path must be empty or an absolute canonical Linux executable path'')
            else if r_ExecutablePath r \<noteq> [] \<and> path_Base (r_ExecutablePath r) \<noteq> r_ExecutableName r
            then Inl (Plain ''executable_name does not match executable_path'')
            else Inr (r_ExecutableName r))
         else Inl (Plain ''unsupported Linux match_kind''))
      else
        (if r_MatchKind r \<noteq> matchExecutablePath then Inl (Plain ''Windows rules require executable_path matching'')
         else if \<not> validWindowsExecutablePattern U (r_ExecutablePath r)
         then Inl (Plain ''executable_path must be a Windows .exe filename or absolute path pattern'')
         else Inr (windowsBaseName (r_ExecutablePath r))))"

definition validateRule :: "unicode \<Rightarrow> rule \<Rightarrow> string \<Rightarrow> err option" where
  "validateRule U r platform =
     (if r_ID r = [] \<or> length (r_ID r) > 128 then Some (Plain ''invalid rule ID'')
      else (case rule_name U r platform of
          Inl e \<Rightarrow> Some e
        | Inr name \<Rightarrow>
            if r_MatchKind r = matchExecutablePath \<and> (name = [] \<or> \<not> strings_EqualFold U name (r_ExecutableName r))
            then Some (Plain ''executable_name does not match executable_path'')
            else if isProtectedProcessPattern U name then Some (Plainf ''cannot be intercepted'' [name])
            else if r_Protocol r \<notin> set validProtocols then Some (Plain ''protocol must be tcp, udp, or both'')
            else if r_Action r \<notin> set validActions then Some (Plain ''action must be proxy, direct, or block'')
            else if r_Priority r < 1 \<or> r_Priority r > int maxRules then Some (Plain ''priority is out of range'')
            else None))"

definition rule_identifier :: "rule \<Rightarrow> string" where
  "rule_identifier r = (if r_MatchKind r = matchProcessName then r_ExecutableName r else r_ExecutablePath r)"

definition rule_pathKey :: "unicode \<Rightarrow> string \<Rightarrow> rule \<Rightarrow> string" where
  "rule_pathKey U platform r =
     (let pathKey = r_MatchKind r @ [CHR 0x00] @ rule_identifier r
      in if platform = ''windows'' then strings_ToLower U pathKey else pathKey)"

text \<open>The loop of \<open>normalizeRulesRequest\<close> with its three sets, the byte count and the index.\<close>

fun normalize_loop ::
  "unicode \<Rightarrow> string \<Rightarrow> nat \<Rightarrow> string list \<Rightarrow> string list \<Rightarrow> int list \<Rightarrow> nat \<Rightarrow> rule list \<Rightarrow> rule list res" where
  "normalize_loop U platform index ids paths priorities totalPathBytes [] = Inr []"
| "normalize_loop U platform index ids paths priorities totalPathBytes (r0 # rs) =
     (let r = (if r_MatchKind r0 = [] then r0\<lparr>r_MatchKind := matchExecutablePath\<rparr> else r0);
          pathKey = rule_pathKey U platform r;
          totalPathBytes' = totalPathBytes + length (rule_identifier r) + 1
      in case validateRule U r platform of
           Some e \<Rightarrow> Inl (Wrapped (''invalid rule '' @ format_nat (index + 1)) e)
         | None \<Rightarrow>
             if r_ID r \<in> set ids then Inl (Plain ''rule IDs must be unique'')
             else if pathKey \<in> set paths then Inl (Plain ''executable paths must be unique'')
             else if r_Priority r \<in> set priorities then Inl (Plain ''rule priorities must be unique'')
             else if totalPathBytes' > 30000 then Inl (Plain ''application routing paths are too large'')
             else (case normalize_loop U platform (index + 1) (r_ID r # ids) (pathKey # paths)
                          (r_Priority r # priorities) totalPathBytes' rs of
                 Inl e \<Rightarrow> Inl e
               | Inr rs' \<Rightarrow> Inr (r\<lparr>r_Priority := int index + 1\<rparr> # rs')))"

definition default_platform :: "string \<Rightarrow> string \<Rightarrow> string" where
  "default_platform goos platform =
     (if platform = [] then (if goos \<noteq> ''windows'' \<and> goos \<noteq> ''linux'' then ''windows'' else goos) else platform)"

definition normalizeRulesRequest :: "unicode \<Rightarrow> string \<Rightarrow> rules_request \<Rightarrow> rules_request res" where
  "normalizeRulesRequest U goos request0 =
     (if rr_Version request0 \<noteq> ProtocolVersion then Inl (Plain ''unsupported process router version'')
      else
        (let request = request0\<lparr>rr_Platform := default_platform goos (rr_Platform request0)\<rparr>
         in if rr_Platform request \<noteq> ''windows'' \<and> rr_Platform request \<noteq> ''linux''
            then Inl (Plainf ''unsupported process router platform'' [rr_Platform request])
            else
              (let expectedPort = (if rr_Platform request = ''linux'' then LinuxProxyPort else WindowsProxyPort)
               in if rr_ProxyPort request \<noteq> expectedPort then Inl (Plainf ''proxy port must be'' [rr_Platform request])
                  else if \<not> rr_FailClosed request then Inl (Plain ''fail_closed must be true'')
                  else if length (rr_Rules request) > maxRules
                  then Inl (Plain ''process routing supports at most 256 rules'')
                  else
                    (case normalize_loop U (rr_Platform request) 0 [] [] [] 0 (sort_key r_Priority (rr_Rules request)) of
                       Inl e \<Rightarrow> Inl e
                     | Inr rules \<Rightarrow> Inr (request\<lparr>rr_Rules := rules\<rparr>)))))"

subsection \<open>The command for the native router\<close>

definition native_rule :: "unicode \<Rightarrow> bool \<Rightarrow> rule \<Rightarrow> router_rule" where
  "native_rule U proxyAvailable r =
     \<lparr>nr_ProcessPattern = (if r_MatchKind r = matchProcessName then r_ExecutableName r else r_ExecutablePath r),
      nr_MatchKind = (if r_MatchKind r = matchProcessName then matchProcessName else []),
      nr_Protocol = strings_ToUpper U (r_Protocol r),
      nr_Action = (if r_Action r = ''proxy'' \<and> \<not> proxyAvailable then ''BLOCK'' else strings_ToUpper U (r_Action r)),
      nr_Enabled = r_Enabled r, nr_Priority = r_Priority r\<rparr>"

definition buildRouterCommand :: "unicode \<Rightarrow> rules_request \<Rightarrow> bool \<Rightarrow> router_command" where
  "buildRouterCommand U request proxyAvailable =
     \<lparr>nc_Version = ProtocolVersion, nc_Command = ''replace_rules'',
      nc_Proxy = \<lparr>np_Host = ''127.0.0.1'', np_Port = rr_ProxyPort request\<rparr>,
      nc_FailClosed = True, nc_ProxyUDPDNS = rr_ProxyUDPDNS request,
      nc_DiagnosticLogging = rr_DiagnosticLogging request,
      nc_Rules = map (native_rule U proxyAvailable) (rr_Rules request)\<rparr>"

definition hasProxyRules :: "rules_request \<Rightarrow> bool" where
  "hasProxyRules request = list_ex (\<lambda>r. r_Enabled r \<and> r_Action r = ''proxy'') (rr_Rules request)"

definition hasEnabledRules :: "rules_request \<Rightarrow> bool" where
  "hasEnabledRules request = list_ex r_Enabled (rr_Rules request)"

definition protectedRuleCount :: "rules_request \<Rightarrow> nat" where
  "protectedRuleCount request =
     length (filter (\<lambda>r. r_Enabled r \<and> r_Action r = ''proxy'') (rr_Rules request))"

text \<open>The meaning of a pattern: a star stands for any text, every other character for itself.\<close>

fun glob :: "string \<Rightarrow> string \<Rightarrow> bool" where
  "glob [] v = (v = [])"
| "glob (c # p) v =
     (if c = CHR ''*'' then list_ex (\<lambda>i. glob p (drop i v)) [0..<Suc (length v)]
      else (case v of [] \<Rightarrow> False | d # v' \<Rightarrow> c = d \<and> glob p v'))"

section \<open>Lemmas\<close>

subsection \<open>The wildcard loop computes the meaning of the pattern\<close>

lemma glob_star: "glob (CHR ''*'' # p) v \<longleftrightarrow> (\<exists>i \<le> length v. glob p (drop i v))"
  by (auto simp: list_ex_iff less_Suc_eq_le simp del: upt_Suc)

declare glob.simps(2) [simp del]

lemma glob_lit_Cons: "c \<noteq> CHR ''*'' \<Longrightarrow> glob (c # p) (d # v) \<longleftrightarrow> c = d \<and> glob p v"
  by (simp add: glob.simps(2))

lemma glob_star_Cons: "glob (CHR ''*'' # p) (d # v) \<longleftrightarrow> glob p (d # v) \<or> glob (CHR ''*'' # p) v"
proof -
  have "(\<exists>i \<le> Suc n. P i) \<longleftrightarrow> P 0 \<or> (\<exists>i \<le> n. P (Suc i))" for P and n :: nat
    by (metis Suc_le_mono le0 not0_implies_Suc)
  then show ?thesis by (simp add: glob_star)
qed

lemma glob_lit: "CHR ''*'' \<notin> set q \<Longrightarrow> glob (q @ p) v \<longleftrightarrow> (\<exists>w. v = q @ w \<and> glob p w)"
proof (induction q arbitrary: v)
  case (Cons c q)
  then show ?case by (cases v) (auto simp: glob.simps(2))
qed simp

lemma glob_Nil: "glob p [] \<longleftrightarrow> dropWhile (\<lambda>c. c = CHR ''*'') p = []"
  by (induction p) (auto simp: glob.simps(2))

lemma glob_star_drop: "glob (CHR ''*'' # p) (drop i v) \<Longrightarrow> glob (CHR ''*'' # p) v"
proof (induction i arbitrary: v)
  case (Suc i)
  then show ?case by (cases v) (auto simp: glob_star_Cons)
qed simp

text \<open>A literal piece after a star may be matched at its first occurrence.\<close>

lemma glob_star_lit:
  assumes "CHR ''*'' \<notin> set q"
  shows "glob (CHR ''*'' # q @ CHR ''*'' # p) (q @ v) \<longleftrightarrow> glob (CHR ''*'' # p) v"
proof
  assume "glob (CHR ''*'' # q @ CHR ''*'' # p) (q @ v)"
  then obtain i w where w: "drop i (q @ v) = q @ w" "glob (CHR ''*'' # p) w"
    using assms by (auto simp: glob_star glob_lit)
  then have "w = drop (i + length q) (q @ v)" by (metis append_eq_conv_conj drop_drop add.commute)
  then show "glob (CHR ''*'' # p) v" using w(2) glob_star_drop by auto
next
  assume "glob (CHR ''*'' # p) v"
  then have "glob (q @ CHR ''*'' # p) (q @ v)" using assms by (auto simp: glob_lit)
  then show "glob (CHR ''*'' # q @ CHR ''*'' # p) (q @ v)" by (auto simp: glob_star intro: exI [of _ 0])
qed

lemma glob_star_lit_end:
  assumes "CHR ''*'' \<notin> set q"
  shows "glob (CHR ''*'' # q @ p) q \<longleftrightarrow> glob p []"
proof
  assume "glob (CHR ''*'' # q @ p) q"
  then obtain i w where w: "drop i q = q @ w" "glob p w" using assms by (auto simp: glob_star glob_lit)
  have "length q - i = length q + length w" using w(1) by (metis length_append length_drop)
  then show "glob p []" using w(2) by (cases w) auto
next
  assume "glob p []"
  then have "glob (q @ p) q" using assms by (auto simp: glob_lit)
  then show "glob (CHR ''*'' # q @ p) q" by (auto simp: glob_star intro: exI [of _ 0])
qed

text \<open>
  What the loop keeps: since the last star was met, the literal text \<open>q\<close> was consumed in the
  pattern and in the value.
\<close>

definition star_inv :: "string \<Rightarrow> string \<Rightarrow> nat \<Rightarrow> nat \<Rightarrow> (nat \<times> nat) option \<Rightarrow> bool" where
  "star_inv pat val pi vi star \<longleftrightarrow> pi \<le> length pat \<and> vi \<le> length val \<and>
     (case star of None \<Rightarrow> True
      | Some (si, sv) \<Rightarrow>
          \<exists>q. drop si pat = CHR ''*'' # q @ drop pi pat \<and> drop sv val = q @ drop vi val \<and>
              pi = si + 1 + length q \<and> vi = sv + length q)"

definition star_goal :: "string \<Rightarrow> string \<Rightarrow> nat \<Rightarrow> nat \<Rightarrow> (nat \<times> nat) option \<Rightarrow> bool" where
  "star_goal pat val pi vi star =
     (case star of None \<Rightarrow> glob (drop pi pat) (drop vi val) | Some (si, sv) \<Rightarrow> glob (drop si pat) (drop sv val))"

definition star_rank :: "string \<Rightarrow> string \<Rightarrow> nat \<times> nat \<times> (nat \<times> nat) option \<Rightarrow> nat \<times> nat \<times> nat" where
  "star_rank pat val = (\<lambda>(pi, vi, star). case star of
      None \<Rightarrow> (length val - vi, length pat + 1 - pi, length val - vi)
    | Some (si, sv) \<Rightarrow> (length val - sv, length pat - si, length val - vi))"

lemma drop_Cons_nth: "i < length xs \<Longrightarrow> drop i xs = xs ! i # drop (Suc i) xs"
  by (rule Cons_nth_drop_Suc [symmetric])

lemma star_step_match:
  assumes "star_inv pat val pi vi star" and "CHR ''*'' \<notin> set val"
    and "vi < length val" and "pi < length pat" and "pat ! pi = val ! vi"
  shows "star_inv pat val (pi + 1) (vi + 1) star \<and> star_goal pat val (pi + 1) (vi + 1) star = star_goal pat val pi vi star"
proof (cases star)
  case None
  have "val ! vi \<noteq> CHR ''*''" using assms(2,3) nth_mem by metis
  then show ?thesis
    using None assms by (simp add: star_inv_def star_goal_def drop_Cons_nth [of pi] drop_Cons_nth [of vi] glob_lit_Cons)
next
  case (Some sp)
  obtain si sv where sp: "sp = (si, sv)" by (cases sp)
  with Some assms(1) obtain q where q: "drop si pat = CHR ''*'' # q @ drop pi pat" "drop sv val = q @ drop vi val"
      "pi = si + 1 + length q" "vi = sv + length q" by (auto simp: star_inv_def)
  have "star_inv pat val (pi + 1) (vi + 1) star"
    using q assms(3-5) Some sp drop_Cons_nth [OF assms(4)] drop_Cons_nth [OF assms(3)] unfolding star_inv_def
    by (auto intro!: exI [of _ "q @ [val ! vi]"])
  then show ?thesis using Some by (simp add: star_goal_def)
qed

lemma star_step_star:
  assumes "star_inv pat val pi vi star" and "CHR ''*'' \<notin> set val"
    and "pi < length pat" and "pat ! pi = CHR ''*''"
  shows "star_inv pat val (pi + 1) vi (Some (pi, vi)) \<and>
         star_goal pat val (pi + 1) vi (Some (pi, vi)) = star_goal pat val pi vi star"
proof -
  have d: "drop pi pat = CHR ''*'' # drop (Suc pi) pat" using assms(3,4) by (simp add: drop_Cons_nth)
  have "star_inv pat val (pi + 1) vi (Some (pi, vi))"
    using assms(1,3) d by (simp add: star_inv_def)
  moreover have "glob (drop pi pat) (drop vi val) = star_goal pat val pi vi star"
  proof (cases star)
    case (Some sp)
    obtain si sv where sp: "sp = (si, sv)" by (cases sp)
    with Some assms(1) obtain q where q: "drop si pat = CHR ''*'' # q @ drop pi pat" "drop sv val = q @ drop vi val"
      by (auto simp: star_inv_def)
    have "CHR ''*'' \<notin> set q" using q(2) assms(2) by (metis Un_iff in_set_dropD set_append)
    from glob_star_lit [OF this] show ?thesis using q d Some sp by (simp add: star_goal_def)
  qed (simp add: star_goal_def)
  ultimately show ?thesis by (simp add: star_goal_def)
qed

lemma star_step_retry:
  assumes "star_inv pat val pi vi (Some (si, sv))" and "CHR ''*'' \<notin> set val" and "vi < length val"
    and "\<not> glob (drop pi pat) (drop vi val)"
  shows "star_inv pat val (si + 1) (sv + 1) (Some (si, sv + 1)) \<and>
         star_goal pat val (si + 1) (sv + 1) (Some (si, sv + 1)) = star_goal pat val pi vi (Some (si, sv))"
proof -
  obtain q where q: "drop si pat = CHR ''*'' # q @ drop pi pat" "drop sv val = q @ drop vi val"
      "pi = si + 1 + length q" "vi = sv + length q" "pi \<le> length pat"
    using assms(1) by (auto simp: star_inv_def)
  have si: "drop (Suc si) pat = q @ drop pi pat" using q(1) by (metis drop_Suc list.sel(3) tl_drop)
  have sv: "drop sv val = val ! sv # drop (Suc sv) val" using q(4) assms(3) by (simp add: drop_Cons_nth)
  have "CHR ''*'' \<notin> set q" using q(2) assms(2) by (metis Un_iff in_set_dropD set_append)
  then have "\<not> glob (drop (Suc si) pat) (drop sv val)"
    using assms(4) q(2) si by (simp add: glob_lit)
  then have "glob (drop si pat) (drop sv val) = glob (drop si pat) (drop (Suc sv) val)"
    using q(1) si sv by (simp add: glob_star_Cons)
  moreover have "star_inv pat val (si + 1) (sv + 1) (Some (si, sv + 1))"
    using q assms(3) si by (simp add: star_inv_def)
  ultimately show ?thesis by (simp add: star_goal_def)
qed

lemma wildcard_loop_glob:
  assumes "CHR ''*'' \<notin> set val" and "star_inv pat val pi vi star"
  shows "wildcard_loop pat val pi vi star = Some (star_goal pat val pi vi star)"
  using assms(2)
proof (induction "star_rank pat val (pi, vi, star)" arbitrary: pi vi star
    rule: wf_induct_rule [OF wf_lex_prod [OF wf_less_than wf_lex_prod [OF wf_less_than wf_less_than]]])
  case 1
  note rec = "1.hyps" and inv = "1.prems"
  show ?case
  proof (cases "vi < length val")
    case False
    then have v: "vi = length val" using inv by (simp add: star_inv_def)
    have "star_goal pat val pi vi star = glob (drop pi pat) []"
    proof (cases star)
      case (Some sp)
      obtain si sv where sp: "sp = (si, sv)" by (cases sp)
      with Some inv v obtain q where q: "drop si pat = CHR ''*'' # q @ drop pi pat" "drop sv val = q"
        by (auto simp: star_inv_def)
      have "CHR ''*'' \<notin> set q" using q(2) assms(1) by (metis in_set_dropD)
      then show ?thesis using q Some sp by (simp add: star_goal_def glob_star_lit_end)
    qed (simp add: star_goal_def v)
    then show ?thesis using v by (subst wildcard_loop.simps) (simp add: glob_Nil)
  next
    case True
    consider (match) "pi < length pat" "pat ! pi = val ! vi"
      | (star) "pi < length pat" "pat ! pi \<noteq> val ! vi" "pat ! pi = CHR ''*''"
      | (miss) "\<not> (pi < length pat \<and> (pat ! pi = val ! vi \<or> pat ! pi = CHR ''*''))" by blast
    then show ?thesis
    proof cases
      case match
      note st = star_step_match [OF inv assms(1) True match]
      have "wildcard_loop pat val (pi + 1) (vi + 1) star = Some (star_goal pat val (pi + 1) (vi + 1) star)"
        by (rule rec) (use st True match in \<open>auto simp: star_rank_def split: option.splits\<close>)
      then show ?thesis using st True match by (subst wildcard_loop.simps) simp
    next
      case star
      note st = star_step_star [OF inv assms(1) star(1,3)]
      have "wildcard_loop pat val (pi + 1) vi (Some (pi, vi)) = Some (star_goal pat val (pi + 1) vi (Some (pi, vi)))"
        by (rule rec) (use st inv True star in \<open>auto simp: star_rank_def star_inv_def split: option.splits\<close>)
      then show ?thesis using st True star by (subst wildcard_loop.simps) simp
    next
      case miss
      have no: "\<not> glob (drop pi pat) (drop vi val)"
        using miss True by (cases "pi < length pat") (auto simp: drop_Cons_nth glob_lit_Cons)
      show ?thesis
      proof (cases star)
        case None
        with no miss True show ?thesis by (subst wildcard_loop.simps) (auto simp: star_goal_def)
      next
        case (Some sp)
        obtain si sv where sp: "sp = (si, sv)" by (cases sp)
        note st = star_step_retry [OF inv [unfolded Some sp] assms(1) True no]
        have "wildcard_loop pat val (si + 1) (sv + 1) (Some (si, sv + 1)) =
            Some (star_goal pat val (si + 1) (sv + 1) (Some (si, sv + 1)))"
          by (rule rec) (use st inv Some sp True in \<open>auto simp: star_rank_def star_inv_def\<close>)
        then show ?thesis using st miss True Some sp by (subst wildcard_loop.simps) auto
      qed
    qed
  qed
qed

lemma wildcardMatches_glob:
  assumes "CHR ''*'' \<notin> set (strings_ToLower U value0)"
  shows "wildcardMatches U pattern0 value0 \<longleftrightarrow> glob (strings_ToLower U pattern0) (strings_ToLower U value0)"
  using wildcard_loop_glob [OF assms, of "strings_ToLower U pattern0" 0 0 None]
  by (simp add: wildcardMatches_def star_inv_def star_goal_def)

subsection \<open>Validation and normalisation\<close>

abbreviation default_kind :: "rule \<Rightarrow> rule" where
  "default_kind r \<equiv> (if r_MatchKind r = [] then r\<lparr>r_MatchKind := matchExecutablePath\<rparr> else r)"

text \<open>The rules a successful loop returns: kinds filled in, priorities from the position.\<close>

fun renumber :: "nat \<Rightarrow> rule list \<Rightarrow> rule list" where
  "renumber i [] = []"
| "renumber i (r # rs) = (default_kind r)\<lparr>r_Priority := int i + 1\<rparr> # renumber (i + 1) rs"

lemma rule_name_priority [simp]: "rule_name U (r\<lparr>r_Priority := x\<rparr>) pl = rule_name U r pl"
  by (simp add: rule_name_def)

lemma validateRule_priority:
  "validateRule U r pl = None \<Longrightarrow> 1 \<le> x \<Longrightarrow> x \<le> int maxRules \<Longrightarrow> validateRule U (r\<lparr>r_Priority := x\<rparr>) pl = None"
  by (auto simp: validateRule_def split: sum.splits if_splits)

lemma validateRule_kind: "validateRule U r pl = None \<Longrightarrow> r_MatchKind r \<noteq> []"
  by (auto simp: validateRule_def rule_name_def matchExecutablePath_def matchProcessName_def split: if_splits)

lemma rule_pathKey_priority [simp]:
  "rule_pathKey U pl (r\<lparr>r_Priority := x\<rparr>) = rule_pathKey U pl r" "rule_identifier (r\<lparr>r_Priority := x\<rparr>) = rule_identifier r"
  by (simp_all add: rule_pathKey_def rule_identifier_def Let_def)

lemma normalize_loop_ConsE:
  assumes "normalize_loop U pl i ids paths prios tot (r0 # rs) = Inr rs'"
  obtains rs'' where "validateRule U (default_kind r0) pl = None" and "r_ID r0 \<notin> set ids"
    and "rule_pathKey U pl (default_kind r0) \<notin> set paths" and "r_Priority r0 \<notin> set prios"
    and "tot + length (rule_identifier (default_kind r0)) + 1 \<le> 30000"
    and "normalize_loop U pl (i + 1) (r_ID r0 # ids) (rule_pathKey U pl (default_kind r0) # paths) (r_Priority r0 # prios)
           (tot + length (rule_identifier (default_kind r0)) + 1) rs = Inr rs''"
    and "rs' = (default_kind r0)\<lparr>r_Priority := int i + 1\<rparr> # rs''"
  using assms
  by (auto simp: Let_def simp del: One_nat_def split: option.splits if_splits sum.splits)

declare normalize_loop.simps(2) [simp del]

lemma normalize_loop_renumber:
  "normalize_loop U pl i ids paths prios tot rs = Inr rs' \<Longrightarrow> rs' = renumber i rs"
proof (induction rs arbitrary: i ids paths prios tot rs')
  case (Cons r rs)
  from Cons.prems show ?case by (rule normalize_loop_ConsE) (use Cons.IH in auto)
qed simp

lemma normalize_loop_valid:
  assumes "normalize_loop U pl i ids paths prios tot rs = Inr rs'" and "i + length rs \<le> maxRules"
  shows "(\<forall>r \<in> set rs'. validateRule U r pl = None) \<and>
         distinct (map r_ID rs') \<and> set (map r_ID rs') \<inter> set ids = {} \<and>
         distinct (map (rule_pathKey U pl) rs') \<and> set (map (rule_pathKey U pl) rs') \<inter> set paths = {} \<and>
         tot + sum_list (map (\<lambda>r. length (rule_identifier r) + 1) rs') \<le> max tot 30000"
  using assms
proof (induction rs arbitrary: i ids paths prios tot rs')
  case (Cons r0 rs)
  from Cons.prems(1) show ?case
  proof (rule normalize_loop_ConsE)
    fix rs''
    let ?r = "default_kind r0"
    assume v: "validateRule U ?r pl = None" and new: "r_ID r0 \<notin> set ids" "rule_pathKey U pl ?r \<notin> set paths"
      and tot: "tot + length (rule_identifier ?r) + 1 \<le> 30000"
      and rec: "normalize_loop U pl (i + 1) (r_ID r0 # ids) (rule_pathKey U pl ?r # paths) (r_Priority r0 # prios)
           (tot + length (rule_identifier ?r) + 1) rs = Inr rs''"
      and rs': "rs' = ?r\<lparr>r_Priority := int i + 1\<rparr> # rs''"
    have IH: "(\<forall>r \<in> set rs''. validateRule U r pl = None) \<and>
         distinct (map r_ID rs'') \<and> set (map r_ID rs'') \<inter> set (r_ID r0 # ids) = {} \<and>
         distinct (map (rule_pathKey U pl) rs'') \<and> set (map (rule_pathKey U pl) rs'') \<inter> set (rule_pathKey U pl ?r # paths) = {} \<and>
         tot + length (rule_identifier ?r) + 1 + sum_list (map (\<lambda>r. length (rule_identifier r) + 1) rs'') \<le>
           max (tot + length (rule_identifier ?r) + 1) 30000"
      using Cons.IH [OF rec] Cons.prems(2) by simp
    have "validateRule U (?r\<lparr>r_Priority := int i + 1\<rparr>) pl = None"
      using validateRule_priority [OF v, of "int i + 1"] Cons.prems(2) by simp
    moreover have "r_ID (?r\<lparr>r_Priority := int i + 1\<rparr>) = r_ID r0" by simp
    ultimately show ?thesis using IH new tot unfolding rs' by (auto simp del: if_split)
  qed
qed simp

lemma normalize_loop_again:
  assumes "normalize_loop U pl i ids paths prios tot rs = Inr rs'" and "i + length rs \<le> maxRules"
    and "\<forall>x \<in> set prios'. x \<le> int i"
  shows "normalize_loop U pl i ids paths prios' tot rs' = Inr rs'"
  using assms
proof (induction rs arbitrary: i ids paths prios tot rs' prios')
  case (Cons r0 rs)
  from Cons.prems(1) show ?case
  proof (rule normalize_loop_ConsE)
    fix rs''
    let ?r = "default_kind r0"
    let ?r' = "?r\<lparr>r_Priority := int i + 1\<rparr>"
    assume v: "validateRule U ?r pl = None" and new: "r_ID r0 \<notin> set ids" "rule_pathKey U pl ?r \<notin> set paths"
      and tot: "tot + length (rule_identifier ?r) + 1 \<le> 30000"
      and rec: "normalize_loop U pl (i + 1) (r_ID r0 # ids) (rule_pathKey U pl ?r # paths) (r_Priority r0 # prios)
           (tot + length (rule_identifier ?r) + 1) rs = Inr rs''"
      and rs': "rs' = ?r' # rs''"
    have IH: "normalize_loop U pl (i + 1) (r_ID r0 # ids) (rule_pathKey U pl ?r # paths) ((int i + 1) # prios')
           (tot + length (rule_identifier ?r) + 1) rs'' = Inr rs''"
    proof (rule Cons.IH [OF rec])
      show "i + 1 + length rs \<le> maxRules" using Cons.prems(2) by simp
      show "\<forall>x \<in> set ((int i + 1) # prios'). x \<le> int (i + 1)" using Cons.prems(3) by fastforce
    qed
    have v': "validateRule U ?r' pl = None"
      using validateRule_priority [OF v, of "int i + 1"] Cons.prems(2) by simp
    have k: "default_kind ?r' = ?r'" using validateRule_kind [OF v'] by (simp only: if_False)
    have p: "int i + 1 \<notin> set prios'" using Cons.prems(3) by force
    have "r_ID ?r' = r_ID r0" "r_Priority ?r' = int i + 1" by simp_all
    then show ?thesis
      unfolding rs' normalize_loop.simps(2) Let_def k
      using v' new tot IH p by (simp del: if_split)
  qed
qed simp

lemma renumber_priorities: "map r_Priority (renumber i rs) = map (\<lambda>k. int k + 1) [i..<i + length rs]"
  by (induction i rs rule: renumber.induct) (simp_all add: upt_rec)

lemma sorted_renumber: "sort_key r_Priority (renumber i rs) = renumber i rs"
  by (rule sort_key_id_if_sorted) (simp add: renumber_priorities sorted_map)

lemma length_renumber [simp]: "length (renumber i rs) = length rs"
  by (induction i rs rule: renumber.induct) simp_all

lemma normalizeRulesRequest_Inr:
  assumes "normalizeRulesRequest U goos rq = Inr n"
  obtains rules where "rr_Version rq = 1" and "default_platform goos (rr_Platform rq) \<in> {''windows'', ''linux''}"
    and "rr_ProxyPort rq = (if default_platform goos (rr_Platform rq) = ''linux'' then LinuxProxyPort else WindowsProxyPort)"
    and "rr_FailClosed rq" and "length (rr_Rules rq) \<le> maxRules"
    and "normalize_loop U (default_platform goos (rr_Platform rq)) 0 [] [] [] 0 (sort_key r_Priority (rr_Rules rq)) = Inr rules"
    and "n = rq\<lparr>rr_Platform := default_platform goos (rr_Platform rq), rr_Rules := rules\<rparr>"
  using assms
  by (auto simp: normalizeRulesRequest_def Let_def ProtocolVersion_def split: if_splits sum.splits)

lemma normalize_again:
  assumes "normalizeRulesRequest U goos rq = Inr n"
  shows "normalizeRulesRequest U goos' n = Inr n"
proof -
  let ?pl = "default_platform goos (rr_Platform rq)"
  from assms obtain rules where n: "rr_Version rq = 1" "?pl \<in> {''windows'', ''linux''}"
      "rr_ProxyPort rq = (if ?pl = ''linux'' then LinuxProxyPort else WindowsProxyPort)"
      "rr_FailClosed rq" "length (rr_Rules rq) \<le> maxRules"
      "normalize_loop U ?pl 0 [] [] [] 0 (sort_key r_Priority (rr_Rules rq)) = Inr rules"
      "n = rq\<lparr>rr_Platform := ?pl, rr_Rules := rules\<rparr>"
    by (rule normalizeRulesRequest_Inr)
  have rules: "rules = renumber 0 (sort_key r_Priority (rr_Rules rq))" by (rule normalize_loop_renumber [OF n(6)])
  have pl: "default_platform goos' ?pl = ?pl" using n(2) by (auto simp: default_platform_def)
  have again: "normalize_loop U ?pl 0 [] [] [] 0 (sort_key r_Priority rules) = Inr rules"
    using normalize_loop_again [OF n(6), of "[]"] n(5) sorted_renumber unfolding rules by simp
  have "length rules \<le> maxRules" using n(5) by (simp add: rules)
  then show ?thesis using n(1-4,7) pl again by (auto simp: normalizeRulesRequest_def Let_def ProtocolVersion_def)
qed

text \<open>Names in lower-case ASCII are their own lower-case form.\<close>

definition lower_name :: "string \<Rightarrow> bool" where
  "lower_name s = list_all (\<lambda>c. byte_val c < 128 \<and> \<not> (65 \<le> byte_val c \<and> byte_val c \<le> 90) \<and> c \<noteq> CHR ''*'') s"

lemma lower_name_lower: "lower_name s \<Longrightarrow> strings_ToLower U s = s \<and> CHR ''*'' \<notin> set s"
proof -
  assume "lower_name s"
  then have *: "\<forall>c \<in> set s. byte_val c < 128 \<and> \<not> (65 \<le> byte_val c \<and> byte_val c \<le> 90) \<and> c \<noteq> CHR ''*''"
    unfolding lower_name_def list_all_iff .
  then have "map ascii_lower s = s" by (intro map_idI) (auto simp: ascii_lower_def)
  with * show ?thesis by (auto simp: strings_ToLower_def is_ascii_def list_all_iff)
qed

lemma protectedNames_lower: "list_all lower_name protectedNames"
  by code_simp

definition toy_rule :: rule where
  "toy_rule = \<lparr>r_ID = ''a'', r_MatchKind = [], r_ExecutablePath = ''/usr/bin/curl'', r_ExecutableName = ''curl'',
     r_Protocol = ''both'', r_Action = ''proxy'', r_Enabled = True, r_Priority = 7\<rparr>"

definition toy_rules :: rules_request where
  "toy_rules = \<lparr>rr_Version = 1, rr_Platform = [], rr_ProxyPort = 7894, rr_FailClosed = True, rr_ProxyUDPDNS = True,
     rr_DiagnosticLogging = False, rr_Rules = [toy_rule]\<rparr>"

definition toy_normal :: rules_request where
  "toy_normal = toy_rules\<lparr>rr_Platform := ''linux'',
     rr_Rules := [toy_rule\<lparr>r_MatchKind := matchExecutablePath, r_Priority := 1\<rparr>]\<rparr>"

lemma toy_rules_normal: "normalizeRulesRequest ascii_only ''linux'' toy_rules = Inr toy_normal"
  by code_simp

section \<open>Properties\<close>

text \<open>
  C15. The wildcard matcher ends on every input and computes the meaning of its pattern: for a value
  without a star it answers whether the value is in the language of the pattern, where a star stands
  for any text, both compared in lower case.
\<close>

theorem wildcardMatches_correct:
  assumes "CHR ''*'' \<notin> set (strings_ToLower U value0)"
  shows "wildcard_loop (strings_ToLower U pattern0) (strings_ToLower U value0) 0 0 None =
           Some (glob (strings_ToLower U pattern0) (strings_ToLower U value0)) \<and>
         (wildcardMatches U pattern0 value0 \<longleftrightarrow> glob (strings_ToLower U pattern0) (strings_ToLower U value0))"
  using wildcard_loop_glob [OF assms, of "strings_ToLower U pattern0" 0 0 None] wildcardMatches_glob [OF assms]
  by (simp add: star_inv_def star_goal_def)

theorem wildcardMatches_correct_witness:
  "wildcardMatches ascii_only ''K*o*.exe'' ''kokorobox.exe'' \<longleftrightarrow>
     glob (strings_ToLower ascii_only ''K*o*.exe'') (strings_ToLower ascii_only ''kokorobox.exe'')"
proof -
  have "CHR ''*'' \<notin> set (strings_ToLower ascii_only ''kokorobox.exe'')" by code_simp
  from wildcardMatches_correct [OF this] show ?thesis by blast
qed



text \<open>
  C32. What a client's rules become: the rules in the order of their priorities, the missing match kind
  filled in, priorities renumbered from one; all of them valid for the platform, with distinct ids and
  distinct path keys, at most 256 and at most 30000 bytes of patterns, for the fixed port of the
  platform and with fail closed.
\<close>

theorem normalizeRulesRequest_normal:
  assumes "normalizeRulesRequest U goos rq = Inr n"
  shows "rr_Rules n = renumber 0 (sort_key r_Priority (rr_Rules rq)) \<and> length (rr_Rules n) \<le> maxRules \<and>
     list_all (\<lambda>r. validateRule U r (rr_Platform n) = None) (rr_Rules n) \<and> distinct (map r_ID (rr_Rules n)) \<and>
     distinct (map (rule_pathKey U (rr_Platform n)) (rr_Rules n)) \<and>
     sum_list (map (\<lambda>r. length (rule_identifier r) + 1) (rr_Rules n)) \<le> 30000 \<and>
     rr_FailClosed n \<and> rr_ProxyPort n = (if rr_Platform n = ''linux'' then LinuxProxyPort else WindowsProxyPort)"
proof -
  from assms obtain rules where n: "rr_ProxyPort rq = (if default_platform goos (rr_Platform rq) = ''linux'' then LinuxProxyPort else WindowsProxyPort)"
      "rr_FailClosed rq" "length (rr_Rules rq) \<le> maxRules"
      "normalize_loop U (default_platform goos (rr_Platform rq)) 0 [] [] [] 0 (sort_key r_Priority (rr_Rules rq)) = Inr rules"
      "n = rq\<lparr>rr_Platform := default_platform goos (rr_Platform rq), rr_Rules := rules\<rparr>"
    by (rule normalizeRulesRequest_Inr)
  have "rules = renumber 0 (sort_key r_Priority (rr_Rules rq))" by (rule normalize_loop_renumber [OF n(4)])
  moreover have "length rules \<le> maxRules" using n(3) by (simp add: calculation)
  ultimately show ?thesis
    using normalize_loop_valid [OF n(4)] n by (simp add: list_all_iff)
qed

theorem normalizeRulesRequest_normal_witness: "rr_Rules toy_normal = renumber 0 [toy_rule]"
  using normalizeRulesRequest_normal [OF toy_rules_normal] by (simp add: toy_rules_def)

text \<open>
  Normalisation is idempotent on every platform: rules that were accepted and saved are accepted
  again at the next start, unchanged.
\<close>

theorem normalizeRulesRequest_idem:
  assumes "normalizeRulesRequest U goos rq = Inr n"
  shows "normalizeRulesRequest U goos' n = Inr n"
  using assms by (rule normalize_again)

theorem normalizeRulesRequest_idem_witness: "normalizeRulesRequest ascii_only ''windows'' toy_normal = Inr toy_normal"
  by (rule normalizeRulesRequest_idem [OF toy_rules_normal])

text \<open>
  C17. The native router never falls back to a direct connection: in the command built from normalised
  rules an application that is to be proxied is proxied when the proxy answers and blocked when it
  does not, the other actions are passed on, the rules keep their order, and fail closed is set.
\<close>

theorem buildRouterCommand_fail_closed:
  assumes "normalizeRulesRequest U goos rq = Inr n"
  shows "nc_FailClosed (buildRouterCommand U n available) \<and>
     map nr_Action (nc_Rules (buildRouterCommand U n available)) =
       map (\<lambda>r. if r_Action r = ''proxy'' then (if available then ''PROXY'' else ''BLOCK'')
                else if r_Action r = ''direct'' then ''DIRECT'' else ''BLOCK'') (rr_Rules n) \<and>
     map nr_ProcessPattern (nc_Rules (buildRouterCommand U n available)) = map rule_identifier (rr_Rules n)"
proof -
  from assms obtain rules where n: "length (rr_Rules rq) \<le> maxRules"
      "normalize_loop U (default_platform goos (rr_Platform rq)) 0 [] [] [] 0 (sort_key r_Priority (rr_Rules rq)) = Inr rules"
      "n = rq\<lparr>rr_Platform := default_platform goos (rr_Platform rq), rr_Rules := rules\<rparr>"
    by (rule normalizeRulesRequest_Inr)
  have valid: "\<forall>r \<in> set rules. r_Action r \<in> set validActions"
    using normalize_loop_valid [OF n(2)] n(1)
    by (fastforce simp: validateRule_def split: if_splits sum.splits)
  have up: "strings_ToUpper U ''proxy'' = ''PROXY''" "strings_ToUpper U ''direct'' = ''DIRECT''"
      "strings_ToUpper U ''block'' = ''BLOCK''"
    by (simp_all add: strings_ToUpper_def is_ascii_def ascii_upper_def byte_val_def char_of_def bit_0)
  show ?thesis
    using valid up n(3)
    by (auto simp: buildRouterCommand_def native_rule_def validActions_def rule_identifier_def)
qed

theorem buildRouterCommand_fail_closed_witness:
  "map nr_Action (nc_Rules (buildRouterCommand ascii_only toy_normal False)) = [''BLOCK'']"
  using buildRouterCommand_fail_closed [OF toy_rules_normal, of False] by (simp add: toy_normal_def toy_rule_def)

end
