(* ===== verification/Router_Diagnostics.thy ===== *)
theory Router_Diagnostics
  imports Kokoro_Prelude
begin

text \<open>
  The diagnostic log of the process router (\<open>processrouter/diagnostics.go\<close>): a bounded list of
  messages with increasing ids, and the level of a message of the native router. UTF-8 as Go's
  package \<open>unicode/utf8\<close> reads it is written out. The time stamp is an argument; \<open>dg_log\<close> is what
  was written to the service log.
\<close>

section \<open>Definitions\<close>

subsection \<open>UTF-8\<close>

definition cont :: "char \<Rightarrow> bool" where
  "cont c = (0x80 \<le> byte_val c \<and> byte_val c \<le> 0xBF)"

definition byte_in :: "nat \<Rightarrow> nat \<Rightarrow> char \<Rightarrow> bool" where
  "byte_in lo hi c = (lo \<le> byte_val c \<and> byte_val c \<le> hi)"

text \<open>The bounds of the second byte, which depend on the first.\<close>

definition second_byte :: "char \<Rightarrow> char \<Rightarrow> bool" where
  "second_byte a b =
     (let n = byte_val a in
      if n = 0xE0 then byte_in 0xA0 0xBF b
      else if n = 0xED then byte_in 0x80 0x9F b
      else if n = 0xF0 then byte_in 0x90 0xBF b
      else if n = 0xF4 then byte_in 0x80 0x8F b
      else cont b)"

text \<open>The length of the encoding a text starts with; 0 when it starts with none.\<close>

fun rune_len :: "string \<Rightarrow> nat" where
  "rune_len [] = 0"
| "rune_len (a # s) =
     (let n = byte_val a in
      if n < 0x80 then 1
      else if 0xC2 \<le> n \<and> n \<le> 0xDF then
        (case s of b # _ \<Rightarrow> if cont b then 2 else 0 | _ \<Rightarrow> 0)
      else if 0xE0 \<le> n \<and> n \<le> 0xEF then
        (case s of b # c # _ \<Rightarrow> if second_byte a b \<and> cont c then 3 else 0 | _ \<Rightarrow> 0)
      else if 0xF0 \<le> n \<and> n \<le> 0xF4 then
        (case s of b # c # d # _ \<Rightarrow> if second_byte a b \<and> cont c \<and> cont d then 4 else 0 | _ \<Rightarrow> 0)
      else 0)"

function utf8_valid :: "string \<Rightarrow> bool" where
  "utf8_valid s =
     (if s = [] then True else if rune_len s = 0 then False else utf8_valid (drop (rune_len s) s))"
  by pat_completeness auto
termination by (relation "measure length") (auto simp: neq_Nil_conv)

declare utf8_valid.simps [simp del]

text \<open>\<open>strings.ToValidUTF8\<close>: every run of invalid bytes becomes one replacement.\<close>

function to_valid :: "string \<Rightarrow> bool \<Rightarrow> string \<Rightarrow> string" where
  "to_valid repl invalid s =
     (if s = [] then []
      else if rune_len s = 0 then (if invalid then [] else repl) @ to_valid repl True (tl s)
      else take (rune_len s) s @ to_valid repl False (drop (rune_len s) s))"
  by pat_completeness auto
termination by (relation "measure (\<lambda>(r, i, s). length s)") (auto simp: neq_Nil_conv)

declare to_valid.simps [simp del]

definition strings_ToValidUTF8 :: "string \<Rightarrow> string \<Rightarrow> string" where
  "strings_ToValidUTF8 s repl = to_valid repl False s"

definition replacement :: string where
  "replacement = [char_of (0xEF :: nat), char_of (0xBF :: nat), char_of (0xBD :: nat)]"

subsection \<open>The log\<close>

record diagnostic_entry =
  de_ID :: "64 word"
  de_Time :: string
  de_Message :: string
  de_Level :: string

record diagnostics =
  dg_nextID :: "64 word"
  dg_entries :: "diagnostic_entry list"
  dg_log :: "(string \<times> string) list"

definition maxDiagnosticEntries :: nat where "maxDiagnosticEntries = 1000"

text \<open>The loop that shortens a message cut in the middle of an encoding.\<close>

function cut_valid :: "string \<Rightarrow> string" where
  "cut_valid m = (if utf8_valid m then m else cut_valid (butlast m))"
  by pat_completeness auto
termination
proof (relation "measure length")
  fix m assume "\<not> utf8_valid m"
  then have "m \<noteq> []" by (auto simp: utf8_valid.simps [of "[]"])
  then show "(butlast m, m) \<in> measure length" by simp
qed simp

declare cut_valid.simps [simp del]

definition clean_message :: "string \<Rightarrow> string" where
  "clean_message message =
     (let m = strings_ToValidUTF8 (trim_space message) replacement
      in if length m > 4096 then cut_valid (take 4096 m) else m)"

definition recordDiagnosticAt :: "string \<Rightarrow> string \<Rightarrow> string \<Rightarrow> diagnostics \<Rightarrow> diagnostics" where
  "recordDiagnosticAt now level message d =
     (if strings_ToValidUTF8 (trim_space message) replacement = [] then d
      else
        (let i = dg_nextID d + 1;
             es = dg_entries d @ [\<lparr>de_ID = i, de_Time = now, de_Message = clean_message message, de_Level = level\<rparr>]
         in d\<lparr>dg_nextID := i,
              dg_entries := (if length es > maxDiagnosticEntries then drop (length es - maxDiagnosticEntries) es else es)\<rparr>))"

definition recordDiagnostic :: "string \<Rightarrow> string \<Rightarrow> diagnostics \<Rightarrow> diagnostics" where
  "recordDiagnostic now message = recordDiagnosticAt now ''info'' message"

definition trim_prefix :: "string \<Rightarrow> string \<Rightarrow> string" where
  "trim_prefix s p = (if has_prefix s p then drop (length p) s else s)"

text \<open>\<open>strings.Index(s, ": ")\<close> as the text behind its first occurrence.\<close>

fun after_colon :: "string \<Rightarrow> string option" where
  "after_colon [] = None"
| "after_colon (c # s) =
     (if c = CHR '':'' \<and> has_prefix s '' '' then Some (tl s) else after_colon s)"

definition nativeDiagnosticLevel :: "unicode \<Rightarrow> string \<Rightarrow> string" where
  "nativeDiagnosticLevel U message =
     (let text0 = strings_ToLower U (trim_space message);
          starts = (\<lambda>t ps. list_ex (has_prefix t) ps)
      in if has_prefix text0 ''diagnostic route '' then ''info''
         else
           (let t = trim_prefix text0 ''diagnostic engine=''
            in if starts t [''level=error'', ''[error]'', ''error:'', ''fatal:'', ''[udp relay error]''] then ''error''
               else if starts t [''level=warn'', ''[warn]'', ''[warning]'', ''warning:'', ''warn:''] then ''warning''
               else if starts t [''[pid]'', ''[packet]'', ''level=debug''] then ''debug''
               else if starts t [''added rule id:'', ''deleted rule id:'', ''updated rule id:'', ''enabled rule id:'',
                                 ''disabled rule id:'', ''moved rule id '', ''rule: ''] then ''debug''
               else if starts t [''failed to '', ''invalid ''] then ''error''
               else
                 (let status =
                        (if has_prefix t ''['' then
                           (case strings_Cut t CHR '']'' of (_, r, found) \<Rightarrow> if found then trim_space r else t)
                         else (case after_colon t of Some r \<Rightarrow> r | None \<Rightarrow> t))
                  in if starts status [''failed to '', ''invalid '', ''connect failed'', ''no-auth negotiation failed'']
                     then ''error''
                     else if starts t [''wsastartup failed'', ''socket creation failed'', ''bind failed'', ''listen failed'',
                                       ''memory allocation failed'', ''ipv6 listen failed''] then ''error''
                     else ''info'')))"

definition recordNativeDiagnostic :: "unicode \<Rightarrow> string \<Rightarrow> string \<Rightarrow> diagnostics \<Rightarrow> diagnostics" where
  "recordNativeDiagnostic U now message d =
     (if trim_space message = [] then d
      else
        (let level = nativeDiagnosticLevel U message;
             d' = recordDiagnosticAt now level message d
         in d'\<lparr>dg_log := dg_log d' @ [(level, ''Native process router: '' @ message)]\<rparr>))"

definition DiagnosticLogs :: "diagnostics \<Rightarrow> diagnostic_entry list" where
  "DiagnosticLogs d = dg_entries d"

definition ClearDiagnosticLogs :: "diagnostics \<Rightarrow> diagnostics" where
  "ClearDiagnosticLogs d = d\<lparr>dg_entries := []\<rparr>"

text \<open>The log before any message, and a sequence of messages.\<close>

definition no_diagnostics :: diagnostics where
  "no_diagnostics = \<lparr>dg_nextID = 0, dg_entries = [], dg_log = []\<rparr>"

fun record_all :: "(string \<times> string \<times> string) list \<Rightarrow> diagnostics \<Rightarrow> diagnostics" where
  "record_all [] d = d"
| "record_all ((now, level, m) # ms) d = record_all ms (recordDiagnosticAt now level m d)"

section \<open>Lemmas\<close>

lemma rune_len_le: "rune_len s \<le> length s"
  by (cases s) (auto simp: Let_def split: list.splits)

lemma rune_len_le_4: "rune_len s \<le> 4"
  by (cases s) (auto simp: Let_def split: list.splits)

lemma rune_len_cases:
  assumes "rune_len s \<noteq> 0"
  obtains (one) a r where "s = a # r" and "byte_val a < 0x80"
  | (two) a b r where "s = a # b # r" and "0xC2 \<le> byte_val a" and "byte_val a \<le> 0xDF" and "cont b"
  | (three) a b c r where "s = a # b # c # r" and "0xE0 \<le> byte_val a" and "byte_val a \<le> 0xEF"
      and "second_byte a b" and "cont c"
  | (four) a b c d r where "s = a # b # c # d # r" and "0xF0 \<le> byte_val a" and "byte_val a \<le> 0xF4"
      and "second_byte a b" and "cont c" and "cont d"
proof (cases s)
  case (Cons a r)
  then show ?thesis
    using assms that by (auto simp: Let_def split: list.splits if_splits)
qed (use assms in simp)

lemma rune_len_prefix:
  assumes "rune_len s \<noteq> 0"
  shows "rune_len (take (rune_len s) s @ t) = rune_len s"
  using assms by (cases rule: rune_len_cases) simp_all

text \<open>Cutting a valid text anywhere and going back at most three bytes gives a valid text.\<close>

lemma utf8_valid_append:
  "utf8_valid s \<Longrightarrow> utf8_valid t \<Longrightarrow> utf8_valid (s @ t)"
proof (induction s rule: utf8_valid.induct)
  case (1 s)
  show ?case
  proof (cases "s = []")
    case False
    then have r: "rune_len s \<noteq> 0" "utf8_valid (drop (rune_len s) s)"
      using "1.prems"(1) utf8_valid.simps [of s] by (auto split: if_splits)
    have "s @ t = take (rune_len s) s @ (drop (rune_len s) s @ t)" by simp
    then have "rune_len (s @ t) = rune_len s" using rune_len_prefix [OF r(1)] by metis
    moreover have "utf8_valid (drop (rune_len s) s @ t)" using "1.IH" [OF False r(1,2)] "1.prems"(2) by blast
    ultimately show ?thesis
      using r False rune_len_le [of s] by (subst utf8_valid.simps) simp
  qed (simp add: "1.prems"(2))
qed

lemma utf8_valid_rune: "rune_len s \<noteq> 0 \<Longrightarrow> utf8_valid (take (rune_len s) s)"
  using rune_len_prefix [of s "[]"] rune_len_le [of s]
  by (subst utf8_valid.simps) (auto simp: utf8_valid.simps [of "[]"])

lemma utf8_valid_take:
  assumes "utf8_valid s" and "n \<le> length s"
  shows "\<exists>k \<le> 3. k \<le> n \<and> utf8_valid (take (n - k) s)"
  using assms
proof (induction s arbitrary: n rule: utf8_valid.induct)
  case (1 s)
  let ?k = "rune_len s"
  show ?case
  proof (cases "s = [] \<or> n < ?k")
    case True
    then have "n \<le> 3" using "1.prems"(2) rune_len_le_4 [of s] by auto
    then show ?thesis by (intro exI [of _ n]) (simp add: utf8_valid.simps [of "[]"])
  next
    case False
    then have r: "?k \<noteq> 0" "utf8_valid (drop ?k s)"
      using "1.prems"(1) utf8_valid.simps [of s] by (auto split: if_splits)
    obtain j where j: "j \<le> 3" "j \<le> n - ?k" "utf8_valid (take (n - ?k - j) (drop ?k s))"
    proof -
      have "\<exists>k \<le> 3. k \<le> n - ?k \<and> utf8_valid (take (n - ?k - k) (drop ?k s))"
        using "1.IH" [OF _ r(1) r(2), of "n - ?k"] False "1.prems"(2) by simp
      then show thesis using that by blast
    qed
    have "?k \<le> n" using False by simp
    then have "n - j = ?k + (n - ?k - j)" using j(2) by linarith
    then have "take (n - j) s = take ?k s @ take (n - ?k - j) (drop ?k s)" by (metis take_add)
    then have "utf8_valid (take (n - j) s)" using utf8_valid_append [OF utf8_valid_rune [OF r(1)] j(3)] by simp
    then show ?thesis using j by (intro exI [of _ j]) auto
  qed
qed

lemma cut_valid_take:
  "\<exists>k. cut_valid m = take (length m - k) m \<and> utf8_valid (cut_valid m) \<and>
       (\<forall>j. utf8_valid (take (length m - j) m) \<longrightarrow> k \<le> j)"
proof (induction m rule: cut_valid.induct)
  case (1 m)
  show ?case
  proof (cases "utf8_valid m")
    case True
    then show ?thesis by (intro exI [of _ 0]) (simp add: cut_valid.simps [of m])
  next
    case False
    then have ne: "m \<noteq> []" by (auto simp: utf8_valid.simps [of "[]"])
    obtain k where k: "cut_valid (butlast m) = take (length (butlast m) - k) (butlast m)" "utf8_valid (cut_valid (butlast m))"
        "\<forall>j. utf8_valid (take (length (butlast m) - j) (butlast m)) \<longrightarrow> k \<le> j" using "1.IH" [OF False] by blast
    have t: "take (length (butlast m) - j) (butlast m) = take (length m - Suc j) m" for j
      by (simp add: butlast_conv_take min_def)
    have "Suc k \<le> j" if "utf8_valid (take (length m - j) m)" for j
      using that False k(3) t by (cases j) (auto simp: t [symmetric])
    then show ?thesis
      using k(1,2) False t [of k] by (intro exI [of _ "Suc k"]) (simp add: cut_valid.simps [of m])
  qed
qed

lemma utf8_valid_replacement: "utf8_valid replacement"
  by (subst utf8_valid.simps, subst utf8_valid.simps) (simp add: replacement_def Let_def second_byte_def cont_def)

lemma to_valid_valid: "utf8_valid repl \<Longrightarrow> utf8_valid (to_valid repl bad s)"
proof (induction repl bad s rule: to_valid.induct)
  case (1 repl bad s)
  consider "s = []" | "s \<noteq> []" "rune_len s = 0" | "s \<noteq> []" "rune_len s \<noteq> 0" by blast
  then show ?case
  proof cases
    case 1
    then show ?thesis by (simp add: to_valid.simps [of repl bad "[]"] utf8_valid.simps [of "[]"])
  next
    case 2
    with "1.IH"(1) "1.prems" show ?thesis
      by (subst to_valid.simps) (auto intro: utf8_valid_append)
  next
    case 3
    with "1.IH"(2) "1.prems" show ?thesis
      by (subst to_valid.simps) (auto intro: utf8_valid_append utf8_valid_rune)
  qed
qed

lemma clean_message_ok:
  assumes "strings_ToValidUTF8 (trim_space m) replacement \<noteq> []"
  shows "utf8_valid (clean_message m) \<and> length (clean_message m) \<le> 4096 \<and> clean_message m \<noteq> []"
proof -
  let ?m = "strings_ToValidUTF8 (trim_space m) replacement"
  have v: "utf8_valid ?m" unfolding strings_ToValidUTF8_def by (rule to_valid_valid [OF utf8_valid_replacement])
  show ?thesis
  proof (cases "length ?m > 4096")
    case True
    obtain k where k: "cut_valid (take 4096 ?m) = take (length (take 4096 ?m) - k) (take 4096 ?m)"
        "utf8_valid (cut_valid (take 4096 ?m))" "\<forall>j. utf8_valid (take (length (take 4096 ?m) - j) (take 4096 ?m)) \<longrightarrow> k \<le> j"
      using cut_valid_take by blast
    obtain j where j: "j \<le> 3" "utf8_valid (take (4096 - j) ?m)" using utf8_valid_take [OF v, of 4096] True by auto
    have l: "length (take 4096 ?m) = 4096" using True by simp
    have "take (4096 - j) (take 4096 ?m) = take (4096 - j) ?m" by (simp add: min_def)
    with k(3) j(2) l have "k \<le> j" by metis
    then have "length (cut_valid (take 4096 ?m)) \<ge> 4093" using k(1) j(1) l True by simp
    then have "cut_valid (take 4096 ?m) \<noteq> []" by auto
    then show ?thesis using k True by (simp add: clean_message_def Let_def)
  qed (use v assms in \<open>simp add: clean_message_def Let_def\<close>)
qed

text \<open>The unbounded log: every message that is not blank, as it is stored, numbered from one.\<close>

definition full_log :: "(string \<times> string \<times> string) list \<Rightarrow> diagnostic_entry list" where
  "full_log ms =
     (let kept = filter (\<lambda>(now, level, m). strings_ToValidUTF8 (trim_space m) replacement \<noteq> []) ms
      in map (\<lambda>(i, now, level, m). \<lparr>de_ID = word_of_nat i, de_Time = now, de_Message = clean_message m, de_Level = level\<rparr>)
           (enumerate 1 kept))"

lemma full_log_snoc:
  "full_log (ms @ [(now, level, m)]) =
     (if strings_ToValidUTF8 (trim_space m) replacement = [] then full_log ms
      else full_log ms @ [\<lparr>de_ID = word_of_nat (Suc (length (full_log ms))), de_Time = now, de_Message = clean_message m, de_Level = level\<rparr>])"
  by (simp add: full_log_def Let_def enumerate_append_eq)

lemma record_all_append: "record_all (xs @ ys) d = record_all ys (record_all xs d)"
  by (induction xs d rule: record_all.induct) simp_all

lemma record_all_full:
  "dg_nextID (record_all ms no_diagnostics) = word_of_nat (length (full_log ms)) \<and>
   dg_entries (record_all ms no_diagnostics) = drop (length (full_log ms) - maxDiagnosticEntries) (full_log ms)"
proof (induction ms rule: rev_induct)
  case Nil
  then show ?case by (simp add: no_diagnostics_def full_log_def)
next
  case (snoc x ms)
  obtain now level m where x: "x = (now, level, m)" by (cases x)
  let ?d = "record_all ms no_diagnostics"
  show ?case
  proof (cases "strings_ToValidUTF8 (trim_space m) replacement = []")
    case True
    then show ?thesis using snoc by (simp add: x record_all_append recordDiagnosticAt_def full_log_snoc)
  next
    case False
    let ?e = "\<lparr>de_ID = word_of_nat (Suc (length (full_log ms))), de_Time = now, de_Message = clean_message m, de_Level = level\<rparr>"
    have i: "dg_nextID ?d + 1 = word_of_nat (Suc (length (full_log ms)))" using snoc by (simp add: add.commute)
    have e: "dg_entries ?d = drop (length (full_log ms) - maxDiagnosticEntries) (full_log ms)" using snoc by blast
    have f: "full_log (ms @ [x]) = full_log ms @ [?e]" using False by (simp add: x full_log_snoc)
    have "dg_entries (record_all (ms @ [x]) no_diagnostics) =
        (let ys = dg_entries ?d @ [?e] in if maxDiagnosticEntries < length ys then drop (length ys - maxDiagnosticEntries) ys else ys)"
      using False unfolding x record_all_append by (simp only: record_all.simps recordDiagnosticAt_def i if_False Let_def) simp
    moreover have "dg_nextID (record_all (ms @ [x]) no_diagnostics) = word_of_nat (Suc (length (full_log ms)))"
      using False unfolding x record_all_append by (simp only: record_all.simps recordDiagnosticAt_def i if_False Let_def) simp
    ultimately show ?thesis unfolding f e drop_last_snoc by simp
  qed
qed

lemma full_log_messages:
  assumes "e \<in> set (full_log ms)"
  shows "utf8_valid (de_Message e) \<and> length (de_Message e) \<le> 4096 \<and> de_Message e \<noteq> []"
proof -
  let ?kept = "filter (\<lambda>(now, level, m). strings_ToValidUTF8 (trim_space m) replacement \<noteq> []) ms"
  have "e \<in> (\<lambda>(i, now, level, m). \<lparr>de_ID = word_of_nat i, de_Time = now, de_Message = clean_message m, de_Level = level\<rparr>) `
      set (enumerate 1 ?kept)" using assms by (simp only: full_log_def Let_def set_map)
  then obtain i now level m where "(i, now, level, m) \<in> set (enumerate 1 ?kept)" "de_Message e = clean_message m"
    by force
  then have "snd (i, now, level, m) \<in> set (map snd (enumerate 1 ?kept))" unfolding set_map by (intro imageI)
  then have "(now, level, m) \<in> set ?kept" by simp
  then have "strings_ToValidUTF8 (trim_space m) replacement \<noteq> []" by simp
  from clean_message_ok [OF this] show ?thesis using \<open>de_Message e = clean_message m\<close> by simp
qed

section \<open>Properties\<close>

text \<open>
  The diagnostic log is the end of the full log: after any sequence of messages it holds the last
  thousand of those that are not blank, in order and with their consecutive numbers, and each stored
  message is valid UTF-8, is not empty and has at most 4096 bytes.
\<close>

theorem diagnostics_last_thousand:
  "DiagnosticLogs (record_all ms no_diagnostics) = drop (length (full_log ms) - 1000) (full_log ms) \<and>
   list_all (\<lambda>e. utf8_valid (de_Message e) \<and> length (de_Message e) \<le> 4096 \<and> de_Message e \<noteq> [])
     (DiagnosticLogs (record_all ms no_diagnostics))"
  using record_all_full [of ms] full_log_messages [of _ ms]
  by (auto simp: DiagnosticLogs_def maxDiagnosticEntries_def list_all_iff dest: in_set_dropD)

end
