(* ===== verification/Router_Manager.thy ===== *)
theory Router_Manager
  imports Router_Rules Router_Diagnostics
begin

text \<open>
  The manager of the process router (\<open>processrouter/manager.go\<close>, \<open>process.go\<close>, \<open>proxy_health.go\<close>,
  \<open>integrity.go\<close>): a state machine that keeps a native router process, its firewall and its rules in
  step with what the client asked for and with the health of the proxy. The mutex makes operations
  atomic, so they are functions on the record \<open>manager\<close>; \<open>now\<close> is the clock of a call. What the
  outside answers is read from scripts in the state: \<open>m_io\<close> for files, the firewall controller and the
  start and stop of the process, \<open>m_probes\<close> for the proxy, \<open>m_replies\<close> for the native router.
\<close>

section \<open>Definitions\<close>

datatype router_state = StateStopped | StateStarting | StateRunning | StateBlocked | StateError

record persisted_config =
  pc_Version :: int
  pc_Enabled :: bool
  pc_Rules :: rules_request

text \<open>
  A native process as its interface shows it; \<open>nt_command\<close> is the last command it acknowledged.
\<close>

record native_process =
  nt_PID :: int
  nt_Alive :: bool
  nt_FirewallReady :: bool
  nt_Backend :: string
  nt_command :: "router_command option"

text \<open>What arrives while \<open>sendRules\<close> waits; a list that ends stands for the timeout.\<close>

record router_event =
  ev_Version :: int
  ev_Event :: string
  ev_Message :: string

datatype channel = Event router_event | Closed

text \<open>The answers of the proxy to a probe, in the order in which \<open>probeMihomo\<close> asks for them.\<close>

record probe_answer =
  pa_dial :: bool
  pa_deadline :: bool
  pa_written :: "nat option"
  pa_response :: "(nat \<times> nat) option"

text \<open>The files next to the native router: the manifest, and the digest of each file.\<close>

definition processRouterFiles :: "string list" where
  "processRouterFiles = [''kokorobox-process-router.exe'', ''ProxyBridgeCore.dll'', ''WinDivert.dll'', ''WinDivert64.sys'']"

record integrity_manifest =
  im_Version :: int
  im_SHA256 :: "string \<rightharpoonup> string"

record router_bundle =
  bu_manifest :: "integrity_manifest store"
  bu_sha256 :: "string \<rightharpoonup> string"

record manager =
  m_GOOS :: string
  m_GOARCH :: string
  m_bundle :: router_bundle
  m_firewallReady :: bool
  m_firewallCleaned :: bool
  m_lastFirewallCheck :: "int option"
  m_process :: "native_process option"
  m_rules :: rules_request
  m_desired :: bool
  m_generation :: "64 word"
  m_activePolicy :: string
  m_state :: router_state
  m_mihomoReady :: bool
  m_lastError :: "err option"
  m_lastContact :: "int option"
  m_monitoring :: bool
  m_restored :: bool
  m_configFile :: "persisted_config store"
  m_diagnostics :: diagnostics
  m_io :: "io list"
  m_probes :: "probe_answer list"
  m_replies :: "(bool \<times> channel list) list"

definition firewallProbeInterval :: int where "firewallProbeInterval = 30 * second"
definition clientLease :: int where "clientLease = 20 * second"

definition ErrUnsupported :: err where
  "ErrUnsupported = Plain ''process router is only supported on Windows x64 and Linux x64/arm64''"

definition Supported :: "manager \<Rightarrow> bool" where
  "Supported m =
     (m_GOOS m = ''windows'' \<and> m_GOARCH m = ''amd64'' \<or>
      m_GOOS m = ''linux'' \<and> (m_GOARCH m = ''amd64'' \<or> m_GOARCH m = ''arm64''))"

definition defaultPlatform :: "string \<Rightarrow> string" where
  "defaultPlatform goos = (if goos = ''linux'' then ''linux'' else ''windows'')"

definition defaultProxyPort :: "string \<Rightarrow> int" where
  "defaultProxyPort goos = (if goos = ''linux'' then LinuxProxyPort else WindowsProxyPort)"

definition empty_rules :: "string \<Rightarrow> rules_request" where
  "empty_rules goos =
     \<lparr>rr_Version = ProtocolVersion, rr_Platform = defaultPlatform goos, rr_ProxyPort = defaultProxyPort goos,
      rr_FailClosed = True, rr_ProxyUDPDNS = False, rr_DiagnosticLogging = False, rr_Rules = []\<rparr>"

definition newManager ::
  "string \<Rightarrow> string \<Rightarrow> router_bundle \<Rightarrow> persisted_config store \<Rightarrow> io list \<Rightarrow> probe_answer list \<Rightarrow> (bool \<times> channel list) list \<Rightarrow> manager" where
  "newManager goos goarch b config ios probes replies =
     \<lparr>m_GOOS = goos, m_GOARCH = goarch, m_bundle = b, m_firewallReady = False, m_firewallCleaned = False,
      m_lastFirewallCheck = None, m_process = None, m_rules = empty_rules goos, m_desired = False,
      m_generation = 0, m_activePolicy = [], m_state = StateStopped, m_mihomoReady = False, m_lastError = None,
      m_lastContact = None, m_monitoring = False, m_restored = False, m_configFile = config,
      m_diagnostics = no_diagnostics, m_io = ios, m_probes = probes, m_replies = replies\<rparr>"

text \<open>One call of the outside world: the outcome, and the state with the script advanced.\<close>

definition call :: "manager \<Rightarrow> bool \<times> manager" where
  "call m = (case next_io (m_io m) of (r, ios) \<Rightarrow> (r = Done, m\<lparr>m_io := ios\<rparr>))"

definition sys_error :: "bool \<Rightarrow> err option" where
  "sys_error ok = (if ok then None else Some SysErr)"

subsection \<open>The native router and the proxy\<close>

text \<open>The loop of \<open>sendRules\<close> over the events of the process.\<close>

fun await_ack :: "channel list \<Rightarrow> err option" where
  "await_ack [] = Some (Plain ''process router command timed out'')"
| "await_ack (Closed # _) = Some (Plain ''process router stopped before acknowledging rules'')"
| "await_ack (Event e # evs) =
     (if ev_Version e \<noteq> ProtocolVersion then Some (Plain ''unsupported native router protocol version'')
      else if ev_Event e = ''rules_replaced'' then None
      else if ev_Event e = ''error'' then
        Some (Plain (if ev_Message e = [] then ''native router rejected rules'' else ev_Message e))
      else await_ack evs)"

definition sendRules :: "router_command \<Rightarrow> native_process \<Rightarrow> bool \<times> channel list \<Rightarrow> err option \<times> native_process" where
  "sendRules command p reply =
     (case reply of (sent, evs) \<Rightarrow>
        if \<not> sent then (Some SysErr, p)
        else (case await_ack evs of
            None \<Rightarrow> (None, p\<lparr>nt_command := Some command\<rparr>)
          | Some e \<Rightarrow> (Some e, p)))"

definition acknowledged :: "bool \<times> channel list" where
  "acknowledged = (True, [Event \<lparr>ev_Version = ProtocolVersion, ev_Event = ''rules_replaced'', ev_Message = []\<rparr>])"

definition next_reply :: "manager \<Rightarrow> (bool \<times> channel list) \<times> manager" where
  "next_reply m = (case m_replies m of [] \<Rightarrow> (acknowledged, m) | r # rs \<Rightarrow> (r, m\<lparr>m_replies := rs\<rparr>))"

definition probeMihomo :: "probe_answer \<Rightarrow> bool \<Rightarrow> err option" where
  "probeMihomo a requireSOCKS =
     (if \<not> pa_dial a then Some (Wrapped ''connect to proxy'' SysErr)
      else if \<not> requireSOCKS then None
      else if \<not> pa_deadline a then Some (Wrapped ''set SOCKS5 handshake deadline'' SysErr)
      else (case pa_written a of
          None \<Rightarrow> Some (Wrapped ''write SOCKS5 greeting'' SysErr)
        | Some written \<Rightarrow>
            if written \<noteq> 3 then Some (Wrapped ''write SOCKS5 greeting'' (Plain ''short write''))
            else (case pa_response a of
                None \<Rightarrow> Some (Wrapped ''read SOCKS5 greeting response'' SysErr)
              | Some (r0, r1) \<Rightarrow>
                  if r0 \<noteq> 5 \<or> r1 \<noteq> 0 then Some (Plain ''SOCKS5 greeting rejected'') else None)))"

definition healthy :: probe_answer where
  "healthy = \<lparr>pa_dial = True, pa_deadline = True, pa_written = Some 3, pa_response = Some (5, 0)\<rparr>"

definition next_probe :: "manager \<Rightarrow> probe_answer \<times> manager" where
  "next_probe m = (case m_probes m of [] \<Rightarrow> (healthy, m) | a # as \<Rightarrow> (a, m\<lparr>m_probes := as\<rparr>))"

text \<open>
  \<open>verifyProcessRouterIntegrity\<close>, with the answers of \<open>fileSHA256\<close> (\<open>None\<close> is an error) and the
  decoded manifest as the bundle.
\<close>

fun verify_files :: "(string \<rightharpoonup> string) \<Rightarrow> (string \<rightharpoonup> string) \<Rightarrow> string list \<Rightarrow> err option" where
  "verify_files sums digest [] = None"
| "verify_files sums digest (name # names) =
     (let expected = (case sums name of None \<Rightarrow> [] | Some s \<Rightarrow> s)
      in if length expected \<noteq> 64 then Some (Plainf ''missing process router checksum'' [name])
         else (case digest name of
             None \<Rightarrow> Some (Wrapped ''open process router component'' SysErr)
           | Some actual \<Rightarrow>
               if actual \<noteq> expected then Some (Plainf ''process router checksum mismatch'' [name])
               else verify_files sums digest names))"

definition verifyProcessRouterIntegrity :: "string \<Rightarrow> router_bundle \<Rightarrow> err option" where
  "verifyProcessRouterIntegrity goos b =
     (if goos \<noteq> ''windows'' then None
      else (case bu_manifest b of
          Absent \<Rightarrow> Some (Wrapped ''read process router manifest'' SysErr)
        | Garbage \<Rightarrow> Some (Wrapped ''decode process router manifest'' SysErr)
        | Stored manifest \<Rightarrow>
            if im_Version manifest \<noteq> ProtocolVersion then Some (Plain ''unsupported process router manifest version'')
            else verify_files (im_SHA256 manifest) (bu_sha256 b) processRouterFiles))"

definition startNativeProcess :: "manager \<Rightarrow> native_process res \<times> manager" where
  "startNativeProcess m =
     (case call m of (ok, m') \<Rightarrow>
        (if ok then Inr \<lparr>nt_PID = 1, nt_Alive = True, nt_FirewallReady = False, nt_Backend = m_GOOS m, nt_command = None\<rparr>
         else Inl SysErr, m'))"

subsection \<open>Parts of the operations\<close>

definition stopProcessLocked :: "manager \<Rightarrow> err option \<times> manager" where
  "stopProcessLocked m =
     (case m_process m of
        None \<Rightarrow> (None, m)
      | Some _ \<Rightarrow> (case call (m\<lparr>m_process := None, m_activePolicy := []\<rparr>) of (ok, m') \<Rightarrow> (sys_error ok, m')))"

definition ensureFirewallLocked :: "bool \<Rightarrow> int \<Rightarrow> manager \<Rightarrow> err option \<times> manager" where
  "ensureFirewallLocked force now m0 =
     (if \<not> force \<and> m_firewallReady m0 \<and>
         (case m_lastFirewallCheck m0 of None \<Rightarrow> False | Some t \<Rightarrow> now - t < firewallProbeInterval)
      then (None, m0)
      else (case call (m0\<lparr>m_lastFirewallCheck := Some now\<rparr>) of (ok1, m1) \<Rightarrow>
          if ok1 then (None, m1\<lparr>m_firewallReady := True\<rparr>)
          else (case call m1 of (ok2, m2) \<Rightarrow>
              if \<not> ok2 then (Some SysErr, m2\<lparr>m_firewallReady := False\<rparr>)
              else (case call m2 of (ok3, m3) \<Rightarrow>
                  if \<not> ok3 then (Some SysErr, m3\<lparr>m_firewallReady := False\<rparr>)
                  else (None, m3\<lparr>m_firewallReady := True, m_firewallCleaned := False\<rparr>)))))"

definition removeFirewallLocked :: "manager \<Rightarrow> err option \<times> manager" where
  "removeFirewallLocked m =
     (if m_firewallCleaned m then (None, m)
      else (case call (m\<lparr>m_firewallReady := False, m_lastFirewallCheck := None\<rparr>) of (ok, m') \<Rightarrow>
          if ok then (None, m'\<lparr>m_firewallCleaned := True\<rparr>) else (Some SysErr, m')))"

definition setErrorLocked :: "err \<Rightarrow> manager \<Rightarrow> manager" where
  "setErrorLocked e m = m\<lparr>m_state := StateError, m_mihomoReady := False, m_lastError := Some e\<rparr>"

definition leaseActiveLocked :: "int \<Rightarrow> manager \<Rightarrow> bool" where
  "leaseActiveLocked now m = (case m_lastContact m of None \<Rightarrow> False | Some t \<Rightarrow> now - t \<le> clientLease)"

text \<open>
  \<open>persistLocked\<close>: make the directory, write a temporary file, rename it over the configuration; a
  failed rename leaves the old file.
\<close>

definition persistLocked :: "manager \<Rightarrow> err option \<times> manager" where
  "persistLocked m =
     (case run_ios 3 (m_io m) of
        (True, ios) \<Rightarrow>
          (None, m\<lparr>m_io := ios,
             m_configFile := Stored \<lparr>pc_Version = ProtocolVersion, pc_Enabled = m_desired m, pc_Rules = m_rules m\<rparr>\<rparr>)
      | (False, ios) \<Rightarrow> (Some SysErr, m\<lparr>m_io := ios\<rparr>))"

text \<open>The error \<open>Inl None\<close> is \<open>os.ErrNotExist\<close>.\<close>

definition loadLocked :: "unicode \<Rightarrow> manager \<Rightarrow> (err option + unit) \<times> manager" where
  "loadLocked U m0 =
     (case call m0 of (ok, m) \<Rightarrow>
        if \<not> ok then (Inl (Some SysErr), m)
        else (case m_configFile m of
            Absent \<Rightarrow> (Inl None, m)
          | Garbage \<Rightarrow> (Inl (Some (Wrapped ''decode process router configuration'' SysErr)), m)
          | Stored persisted \<Rightarrow>
              if pc_Version persisted \<noteq> ProtocolVersion
              then (Inl (Some (Plain ''unsupported persisted process router version'')), m)
              else (case normalizeRulesRequest U (m_GOOS m) (pc_Rules persisted) of
                  Inl e \<Rightarrow> (Inl (Some (Wrapped ''validate persisted process router configuration'' e)), m)
                | Inr rules \<Rightarrow>
                    (Inr (), m\<lparr>m_rules := rules, m_desired := pc_Enabled persisted, m_generation := m_generation m + 1\<rparr>))))"

definition record_and_log :: "string \<Rightarrow> string \<Rightarrow> manager \<Rightarrow> manager" where
  "record_and_log level message m =
     (let d = recordDiagnosticAt [] level message (m_diagnostics m)
      in m\<lparr>m_diagnostics := d\<lparr>dg_log := dg_log d @ [(level, message)]\<rparr>\<rparr>)"

definition updateProxyHealthLocked :: "bool \<Rightarrow> err option \<Rightarrow> manager \<Rightarrow> manager" where
  "updateProxyHealthLocked requiresProxy probeErr m =
     (let wasBlocked = (m_state m = StateBlocked);
          m1 = m\<lparr>m_mihomoReady := (requiresProxy \<and> probeErr = None), m_lastError := None\<rparr>
      in case (requiresProxy, probeErr) of
           (True, Some e) \<Rightarrow>
             (let lastError = Wrapped (''Proxy health check failed at 127.0.0.1:'' @ format_int (rr_ProxyPort (m_rules m))) e;
                  m2 = m1\<lparr>m_state := StateBlocked, m_lastError := Some lastError\<rparr>
              in if wasBlocked then m2
                 else record_and_log ''warning'' (err_text lastError @ ''; proxy rules are blocked to prevent direct fallback'') m2)
         | _ \<Rightarrow>
             (let m2 = m1\<lparr>m_state := StateRunning\<rparr>
              in if wasBlocked \<and> requiresProxy
                 then record_and_log ''info'' (''Proxy health check recovered at 127.0.0.1:'' @ format_int (rr_ProxyPort (m_rules m))
                        @ ''; proxy rules restored'') m2
                 else m2))"

definition policy_of :: "64 word \<Rightarrow> bool \<Rightarrow> string" where
  "policy_of generation available = format_nat (unat generation) @ '':'' @ (if available then ''true'' else ''false'')"

subsection \<open>Operations\<close>

definition reconcile_start :: "int \<Rightarrow> manager \<Rightarrow> err option \<times> manager" where
  "reconcile_start now m0 =
     (let m1 = (case m_process m0 of
                  Some p \<Rightarrow> if nt_Alive p then m0 else m0\<lparr>m_process := None, m_activePolicy := []\<rparr>
                | None \<Rightarrow> m0);
          m2 = (if m_process m1 = None then m1\<lparr>m_state := StateStarting\<rparr> else m1)
      in case (if m_process m1 = None then verifyProcessRouterIntegrity (m_GOOS m1) (m_bundle m1) else None) of
           Some e \<Rightarrow> (Some e, setErrorLocked e m2)
         | None \<Rightarrow>
             (case ensureFirewallLocked (m_process m2 = None) now m2 of
                (Some e, m3) \<Rightarrow>
                  (case stopProcessLocked m3 of (stopErr, m4) \<Rightarrow>
                     (let wrapped = Wrapped ''application-routing firewall is unavailable'' e
                      in (errors_Join [Some wrapped, stopErr], setErrorLocked wrapped m4)))
              | (None, m3) \<Rightarrow>
                  if m_process m3 = None then
                    (case startNativeProcess m3 of
                       (Inl e, m4) \<Rightarrow>
                         (case removeFirewallLocked m4 of (firewallErr, m5) \<Rightarrow>
                            (let combined = Joined (e # (case firewallErr of None \<Rightarrow> [] | Some f \<Rightarrow> [f]))
                             in (Some combined, setErrorLocked combined m5)))
                     | (Inr p, m4) \<Rightarrow> (None, m4\<lparr>m_process := Some p, m_activePolicy := []\<rparr>))
                  else (None, m3)))"

definition probe_proxy :: "manager \<Rightarrow> err option \<times> manager" where
  "probe_proxy m =
     (if hasProxyRules (m_rules m)
      then (case next_probe m of (a, m') \<Rightarrow> (probeMihomo a (rr_Platform (m_rules m) = ''windows''), m'))
      else (None, m))"

definition apply_policy :: "unicode \<Rightarrow> native_process \<Rightarrow> err option \<Rightarrow> manager \<Rightarrow> err option \<times> manager" where
  "apply_policy U p probeErr m1 =
     (let requiresProxy = hasProxyRules (m_rules m1);
          available = (probeErr = None);
          policy = policy_of (m_generation m1) available
      in if policy = m_activePolicy m1 then (None, updateProxyHealthLocked requiresProxy probeErr m1)
         else (case next_reply m1 of (reply, m2) \<Rightarrow>
             (case sendRules (buildRouterCommand U (m_rules m2) available) p reply of
                (Some e, p') \<Rightarrow>
                  (case stopProcessLocked (m2\<lparr>m_process := Some p'\<rparr>) of (stopErr, m3) \<Rightarrow>
                   case removeFirewallLocked m3 of (firewallErr, m4) \<Rightarrow>
                     (let combined = Joined (e # List.map_filter (\<lambda>x. x) [stopErr, firewallErr])
                      in (Some combined, setErrorLocked combined m4)))
              | (None, p') \<Rightarrow>
                  (None, updateProxyHealthLocked requiresProxy probeErr
                           (m2\<lparr>m_process := Some p', m_activePolicy := policy\<rparr>)))))"

definition reconcile_policy :: "unicode \<Rightarrow> manager \<Rightarrow> err option \<times> manager" where
  "reconcile_policy U m =
     (case m_process m of
        None \<Rightarrow> (None, m)
      | Some p \<Rightarrow> (case probe_proxy m of (probeErr, m1) \<Rightarrow> apply_policy U p probeErr m1))"

definition Reconcile :: "unicode \<Rightarrow> int \<Rightarrow> manager \<Rightarrow> err option \<times> manager" where
  "Reconcile U now m =
     (if \<not> m_desired m then (None, m)
      else if \<not> leaseActiveLocked now m then
        (case stopProcessLocked (m\<lparr>m_state := StateStopped, m_mihomoReady := False, m_lastError := None\<rparr>) of
           (stopErr, m1) \<Rightarrow> (case removeFirewallLocked m1 of (firewallErr, m2) \<Rightarrow> (errors_Join [stopErr, firewallErr], m2)))
      else if \<not> Supported m then (Some ErrUnsupported, setErrorLocked ErrUnsupported m)
      else (case reconcile_start now m of
          (Some e, m1) \<Rightarrow> (Some e, m1)
        | (None, m1) \<Rightarrow> reconcile_policy U m1))"

definition ReplaceRules :: "unicode \<Rightarrow> int \<Rightarrow> rules_request \<Rightarrow> manager \<Rightarrow> err option \<times> manager" where
  "ReplaceRules U now request m =
     (case normalizeRulesRequest U (m_GOOS m) request of
        Inl e \<Rightarrow> (Some (Wrapped ''validation'' e), m)
      | Inr normalized \<Rightarrow>
          (case persistLocked (m\<lparr>m_rules := normalized, m_lastContact := Some now, m_generation := m_generation m + 1,
                                 m_activePolicy := []\<rparr>) of
             (Some e, m1) \<Rightarrow> (Some e, m1)
           | (None, m1) \<Rightarrow> if m_desired m1 then Reconcile U now m1 else (None, m1)))"

definition Enable :: "unicode \<Rightarrow> int \<Rightarrow> manager \<Rightarrow> err option \<times> manager" where
  "Enable U now m =
     (if \<not> Supported m then (Some ErrUnsupported, m)
      else if \<not> hasEnabledRules (m_rules m)
      then (Some (Wrapped ''validation'' (Plain ''cannot start process router without an enabled rule'')), m)
      else (case persistLocked (m\<lparr>m_desired := True, m_firewallCleaned := False, m_lastContact := Some now\<rparr>) of
          (Some e, m1) \<Rightarrow> (Some e, m1)
        | (None, m1) \<Rightarrow> Reconcile U now m1))"

definition Disable :: "manager \<Rightarrow> err option \<times> manager" where
  "Disable m =
     (case persistLocked (m\<lparr>m_desired := False, m_activePolicy := [], m_state := StateStopped, m_mihomoReady := False,
                            m_lastError := None\<rparr>) of
        (persistErr, m1) \<Rightarrow>
          (case stopProcessLocked m1 of (stopErr, m2) \<Rightarrow>
             (case removeFirewallLocked m2 of (firewallErr, m3) \<Rightarrow>
                (errors_Join [persistErr, stopErr, firewallErr], m3))))"

definition Cleanup :: "manager \<Rightarrow> err option \<times> manager" where
  "Cleanup m =
     (case stopProcessLocked (m\<lparr>m_desired := False, m_rules := empty_rules (m_GOOS m), m_generation := m_generation m + 1,
                                m_activePolicy := [], m_state := StateStopped, m_mihomoReady := False, m_lastError := None\<rparr>) of
        (stopErr, m1) \<Rightarrow>
          (case removeFirewallLocked m1 of (firewallErr, m2) \<Rightarrow>
             (case call m2 of (ok, m3) \<Rightarrow>
                (errors_Join [stopErr, firewallErr, sys_error ok], if ok then m3\<lparr>m_configFile := Absent\<rparr> else m3))))"

definition RepairFirewall :: "int \<Rightarrow> manager \<Rightarrow> err option \<times> manager" where
  "RepairFirewall now m0 =
     (if \<not> Supported m0 then (Some ErrUnsupported, m0)
      else (case verifyProcessRouterIntegrity (m_GOOS m0) (m_bundle m0) of
          Some e \<Rightarrow> (Some e, m0\<lparr>m_lastContact := Some now\<rparr>)
        | None \<Rightarrow>
            (case ensureFirewallLocked True now (m0\<lparr>m_lastContact := Some now\<rparr>) of
               (None, m2) \<Rightarrow> (None, m2)
             | (Some e, m2) \<Rightarrow>
                 (let wrapped = Wrapped ''application-routing firewall repair failed'' e
                  in if m_desired m2
                     then (case stopProcessLocked m2 of (stopErr, m3) \<Rightarrow>
                             (errors_Join [Some wrapped, stopErr], setErrorLocked wrapped m3))
                     else (Some wrapped, m2)))))"

definition Close :: "manager \<Rightarrow> err option \<times> manager" where
  "Close m0 =
     (let m = m0\<lparr>m_monitoring := False\<rparr>;
          wasActive = (m_desired m \<or> m_process m \<noteq> None \<or> m_firewallReady m)
      in case stopProcessLocked m of (stopErr, m1) \<Rightarrow>
           if \<not> wasActive then (stopErr, m1)
           else (case removeFirewallLocked m1 of (firewallErr, m2) \<Rightarrow> (errors_Join [stopErr, firewallErr], m2)))"

definition RenewLease :: "int \<Rightarrow> manager \<Rightarrow> manager" where
  "RenewLease now m = (if m_desired m then m\<lparr>m_lastContact := Some now\<rparr> else m)"

text \<open>
  \<open>Restore\<close>: the once-guarded part starts the monitor, hardens the directory (here two calls, after
  which an absent file is not an error) and loads; then the manager reconciles when it is desired.
\<close>

definition Restore :: "unicode \<Rightarrow> int \<Rightarrow> manager \<Rightarrow> err option \<times> manager" where
  "Restore U now m0 =
     (case (if m_restored m0 then (None, m0)
            else
              (let m = m0\<lparr>m_restored := True, m_monitoring := True\<rparr>
               in case run_ios 2 (m_io m) of
                    (False, ios) \<Rightarrow> (Some (Wrapped ''harden process router paths'' SysErr), m\<lparr>m_io := ios\<rparr>)
                  | (True, ios) \<Rightarrow>
                      (case loadLocked U (m\<lparr>m_io := ios\<rparr>) of
                         (Inl (Some e), m1) \<Rightarrow> (Some e, m1)
                       | (_, m1) \<Rightarrow> (None, m1)))) of
        (Some e, m1) \<Rightarrow> (Some e, m1)
      | (None, m1) \<Rightarrow> if m_desired m1 then Reconcile U now m1 else (None, m1))"

record status =
  st_Version :: int
  st_Supported :: bool
  st_State :: router_state
  st_Generation :: "64 word"
  st_MihomoAvailable :: bool
  st_FirewallReady :: bool
  st_ProtectedApplicationCount :: nat
  st_Backend :: string
  st_ProxyPort :: int
  st_RouterPID :: int
  st_LastError :: "err option"

definition Status :: "manager \<Rightarrow> status" where
  "Status m =
     (let alive = (case m_process m of Some p \<Rightarrow> nt_Alive p | None \<Rightarrow> False)
      in \<lparr>st_Version = ProtocolVersion, st_Supported = Supported m, st_State = m_state m,
          st_Generation = m_generation m, st_MihomoAvailable = m_mihomoReady m,
          st_FirewallReady = (if alive then nt_FirewallReady (the (m_process m)) else m_firewallReady m),
          st_ProtectedApplicationCount = protectedRuleCount (m_rules m),
          st_Backend = (if alive then nt_Backend (the (m_process m)) else []),
          st_ProxyPort = (if hasProxyRules (m_rules m) then rr_ProxyPort (m_rules m) else 0),
          st_RouterPID = (if alive then nt_PID (the (m_process m)) else 0),
          st_LastError = m_lastError m\<rparr>)"

section \<open>Lemmas\<close>

subsection \<open>The policy text\<close>

lemma colon_not_digit: "\<not> is_digit CHR '':''"
  by (simp add: is_digit_def byte_val_def)

lemma policy_of_inj: "policy_of g b = policy_of g' b' \<longleftrightarrow> g = g' \<and> b = b'"
proof
  assume eq: "policy_of g b = policy_of g' b'"
  have tw: "takeWhile (\<lambda>c. c \<noteq> CHR '':'') (format_nat n @ '':'' @ r) = format_nat n" for n r
  proof -
    have "\<forall>c \<in> set (format_nat n). c \<noteq> CHR '':''"
      using format_nat_digits [of n] colon_not_digit by (auto simp: list_all_iff)
    then show ?thesis by (simp add: takeWhile_append2)
  qed
  from eq have "format_nat (unat g) = format_nat (unat g')" unfolding policy_of_def using tw by metis
  then have "unat g = unat g'" by (metis digits_val_format_nat)
  then have g: "g = g'" by (simp add: unsigned_word_eqI)
  with eq show "g = g' \<and> b = b'" by (auto simp: policy_of_def split: if_splits)
qed simp

lemma policy_of_ne [simp]: "policy_of g b \<noteq> []" "[] \<noteq> policy_of g b"
  by (simp_all add: policy_of_def)

subsection \<open>What the parts change\<close>

lemma call_eq: "call m = (fst (next_io (m_io m)) = Done, m\<lparr>m_io := snd (next_io (m_io m))\<rparr>)"
  by (simp add: call_def case_prod_unfold)

lemma stop_keeps [simp]:
  "m_GOOS (snd (stopProcessLocked m)) = m_GOOS m"
  "m_GOARCH (snd (stopProcessLocked m)) = m_GOARCH m"
  "m_bundle (snd (stopProcessLocked m)) = m_bundle m"
  "m_firewallReady (snd (stopProcessLocked m)) = m_firewallReady m"
  "m_firewallCleaned (snd (stopProcessLocked m)) = m_firewallCleaned m"
  "m_lastFirewallCheck (snd (stopProcessLocked m)) = m_lastFirewallCheck m"
  "m_rules (snd (stopProcessLocked m)) = m_rules m"
  "m_desired (snd (stopProcessLocked m)) = m_desired m"
  "m_generation (snd (stopProcessLocked m)) = m_generation m"
  "m_state (snd (stopProcessLocked m)) = m_state m"
  "m_mihomoReady (snd (stopProcessLocked m)) = m_mihomoReady m"
  "m_lastError (snd (stopProcessLocked m)) = m_lastError m"
  "m_lastContact (snd (stopProcessLocked m)) = m_lastContact m"
  "m_monitoring (snd (stopProcessLocked m)) = m_monitoring m"
  "m_restored (snd (stopProcessLocked m)) = m_restored m"
  "m_configFile (snd (stopProcessLocked m)) = m_configFile m"
  "m_diagnostics (snd (stopProcessLocked m)) = m_diagnostics m"
  "m_probes (snd (stopProcessLocked m)) = m_probes m"
  "m_replies (snd (stopProcessLocked m)) = m_replies m"
  "m_process (snd (stopProcessLocked m)) = None"
  "m_activePolicy (snd (stopProcessLocked m)) = (if m_process m = None then m_activePolicy m else [])"
  by (simp_all add: stopProcessLocked_def call_eq split: option.split)

lemma remove_keeps [simp]:
  "m_GOOS (snd (removeFirewallLocked m)) = m_GOOS m"
  "m_GOARCH (snd (removeFirewallLocked m)) = m_GOARCH m"
  "m_bundle (snd (removeFirewallLocked m)) = m_bundle m"
  "m_process (snd (removeFirewallLocked m)) = m_process m"
  "m_rules (snd (removeFirewallLocked m)) = m_rules m"
  "m_desired (snd (removeFirewallLocked m)) = m_desired m"
  "m_generation (snd (removeFirewallLocked m)) = m_generation m"
  "m_activePolicy (snd (removeFirewallLocked m)) = m_activePolicy m"
  "m_state (snd (removeFirewallLocked m)) = m_state m"
  "m_mihomoReady (snd (removeFirewallLocked m)) = m_mihomoReady m"
  "m_lastError (snd (removeFirewallLocked m)) = m_lastError m"
  "m_lastContact (snd (removeFirewallLocked m)) = m_lastContact m"
  "m_monitoring (snd (removeFirewallLocked m)) = m_monitoring m"
  "m_restored (snd (removeFirewallLocked m)) = m_restored m"
  "m_configFile (snd (removeFirewallLocked m)) = m_configFile m"
  "m_diagnostics (snd (removeFirewallLocked m)) = m_diagnostics m"
  "m_probes (snd (removeFirewallLocked m)) = m_probes m"
  "m_replies (snd (removeFirewallLocked m)) = m_replies m"
  "m_firewallReady (snd (removeFirewallLocked m)) = (m_firewallCleaned m \<and> m_firewallReady m)"
  by (simp_all add: removeFirewallLocked_def call_eq)

lemma remove_cleaned: "fst (removeFirewallLocked m) = None \<longleftrightarrow> m_firewallCleaned (snd (removeFirewallLocked m))"
  by (simp add: removeFirewallLocked_def call_eq)

lemma ensure_keeps [simp]:
  "m_GOOS (snd (ensureFirewallLocked force now m)) = m_GOOS m"
  "m_GOARCH (snd (ensureFirewallLocked force now m)) = m_GOARCH m"
  "m_bundle (snd (ensureFirewallLocked force now m)) = m_bundle m"
  "m_process (snd (ensureFirewallLocked force now m)) = m_process m"
  "m_rules (snd (ensureFirewallLocked force now m)) = m_rules m"
  "m_desired (snd (ensureFirewallLocked force now m)) = m_desired m"
  "m_generation (snd (ensureFirewallLocked force now m)) = m_generation m"
  "m_activePolicy (snd (ensureFirewallLocked force now m)) = m_activePolicy m"
  "m_state (snd (ensureFirewallLocked force now m)) = m_state m"
  "m_mihomoReady (snd (ensureFirewallLocked force now m)) = m_mihomoReady m"
  "m_lastError (snd (ensureFirewallLocked force now m)) = m_lastError m"
  "m_lastContact (snd (ensureFirewallLocked force now m)) = m_lastContact m"
  "m_monitoring (snd (ensureFirewallLocked force now m)) = m_monitoring m"
  "m_restored (snd (ensureFirewallLocked force now m)) = m_restored m"
  "m_configFile (snd (ensureFirewallLocked force now m)) = m_configFile m"
  "m_diagnostics (snd (ensureFirewallLocked force now m)) = m_diagnostics m"
  "m_probes (snd (ensureFirewallLocked force now m)) = m_probes m"
  "m_replies (snd (ensureFirewallLocked force now m)) = m_replies m"
  "m_firewallReady (snd (ensureFirewallLocked force now m)) = (fst (ensureFirewallLocked force now m) = None)"
  by (simp_all add: ensureFirewallLocked_def call_eq)

lemma persist_keeps [simp]:
  "m_GOOS (snd (persistLocked m)) = m_GOOS m"
  "m_GOARCH (snd (persistLocked m)) = m_GOARCH m"
  "m_bundle (snd (persistLocked m)) = m_bundle m"
  "m_firewallReady (snd (persistLocked m)) = m_firewallReady m"
  "m_firewallCleaned (snd (persistLocked m)) = m_firewallCleaned m"
  "m_lastFirewallCheck (snd (persistLocked m)) = m_lastFirewallCheck m"
  "m_process (snd (persistLocked m)) = m_process m"
  "m_rules (snd (persistLocked m)) = m_rules m"
  "m_desired (snd (persistLocked m)) = m_desired m"
  "m_generation (snd (persistLocked m)) = m_generation m"
  "m_activePolicy (snd (persistLocked m)) = m_activePolicy m"
  "m_state (snd (persistLocked m)) = m_state m"
  "m_mihomoReady (snd (persistLocked m)) = m_mihomoReady m"
  "m_lastError (snd (persistLocked m)) = m_lastError m"
  "m_lastContact (snd (persistLocked m)) = m_lastContact m"
  "m_monitoring (snd (persistLocked m)) = m_monitoring m"
  "m_restored (snd (persistLocked m)) = m_restored m"
  "m_diagnostics (snd (persistLocked m)) = m_diagnostics m"
  "m_probes (snd (persistLocked m)) = m_probes m"
  "m_replies (snd (persistLocked m)) = m_replies m"
  "m_configFile (snd (persistLocked m)) =
     (if fst (persistLocked m) = None
      then Stored \<lparr>pc_Version = ProtocolVersion, pc_Enabled = m_desired m, pc_Rules = m_rules m\<rparr> else m_configFile m)"
  by (simp_all add: persistLocked_def split: prod.split bool.split)

lemma update_keeps [simp]:
  "m_GOOS (updateProxyHealthLocked req err m) = m_GOOS m"
  "m_GOARCH (updateProxyHealthLocked req err m) = m_GOARCH m"
  "m_bundle (updateProxyHealthLocked req err m) = m_bundle m"
  "m_firewallReady (updateProxyHealthLocked req err m) = m_firewallReady m"
  "m_firewallCleaned (updateProxyHealthLocked req err m) = m_firewallCleaned m"
  "m_lastFirewallCheck (updateProxyHealthLocked req err m) = m_lastFirewallCheck m"
  "m_process (updateProxyHealthLocked req err m) = m_process m"
  "m_rules (updateProxyHealthLocked req err m) = m_rules m"
  "m_desired (updateProxyHealthLocked req err m) = m_desired m"
  "m_generation (updateProxyHealthLocked req err m) = m_generation m"
  "m_activePolicy (updateProxyHealthLocked req err m) = m_activePolicy m"
  "m_lastContact (updateProxyHealthLocked req err m) = m_lastContact m"
  "m_monitoring (updateProxyHealthLocked req err m) = m_monitoring m"
  "m_restored (updateProxyHealthLocked req err m) = m_restored m"
  "m_configFile (updateProxyHealthLocked req err m) = m_configFile m"
  "m_io (updateProxyHealthLocked req err m) = m_io m"
  "m_probes (updateProxyHealthLocked req err m) = m_probes m"
  "m_replies (updateProxyHealthLocked req err m) = m_replies m"
  "m_state (updateProxyHealthLocked req err m) = (if req \<and> err \<noteq> None then StateBlocked else StateRunning)"
  by (simp_all add: updateProxyHealthLocked_def record_and_log_def Let_def split: bool.split option.split)

lemma setError_keeps [simp]:
  "m_GOOS (setErrorLocked e m) = m_GOOS m"
  "m_GOARCH (setErrorLocked e m) = m_GOARCH m"
  "m_bundle (setErrorLocked e m) = m_bundle m"
  "m_firewallReady (setErrorLocked e m) = m_firewallReady m"
  "m_firewallCleaned (setErrorLocked e m) = m_firewallCleaned m"
  "m_lastFirewallCheck (setErrorLocked e m) = m_lastFirewallCheck m"
  "m_process (setErrorLocked e m) = m_process m"
  "m_rules (setErrorLocked e m) = m_rules m"
  "m_desired (setErrorLocked e m) = m_desired m"
  "m_generation (setErrorLocked e m) = m_generation m"
  "m_activePolicy (setErrorLocked e m) = m_activePolicy m"
  "m_lastContact (setErrorLocked e m) = m_lastContact m"
  "m_monitoring (setErrorLocked e m) = m_monitoring m"
  "m_restored (setErrorLocked e m) = m_restored m"
  "m_configFile (setErrorLocked e m) = m_configFile m"
  "m_diagnostics (setErrorLocked e m) = m_diagnostics m"
  "m_io (setErrorLocked e m) = m_io m"
  "m_probes (setErrorLocked e m) = m_probes m"
  "m_replies (setErrorLocked e m) = m_replies m"
  "m_state (setErrorLocked e m) = StateError"
  by (simp_all add: setErrorLocked_def)

lemma start_keeps [simp]:
  "m_GOOS (snd (startNativeProcess m)) = m_GOOS m"
  "m_GOARCH (snd (startNativeProcess m)) = m_GOARCH m"
  "m_bundle (snd (startNativeProcess m)) = m_bundle m"
  "m_firewallReady (snd (startNativeProcess m)) = m_firewallReady m"
  "m_firewallCleaned (snd (startNativeProcess m)) = m_firewallCleaned m"
  "m_lastFirewallCheck (snd (startNativeProcess m)) = m_lastFirewallCheck m"
  "m_process (snd (startNativeProcess m)) = m_process m"
  "m_rules (snd (startNativeProcess m)) = m_rules m"
  "m_desired (snd (startNativeProcess m)) = m_desired m"
  "m_generation (snd (startNativeProcess m)) = m_generation m"
  "m_activePolicy (snd (startNativeProcess m)) = m_activePolicy m"
  "m_state (snd (startNativeProcess m)) = m_state m"
  "m_mihomoReady (snd (startNativeProcess m)) = m_mihomoReady m"
  "m_lastError (snd (startNativeProcess m)) = m_lastError m"
  "m_lastContact (snd (startNativeProcess m)) = m_lastContact m"
  "m_monitoring (snd (startNativeProcess m)) = m_monitoring m"
  "m_restored (snd (startNativeProcess m)) = m_restored m"
  "m_configFile (snd (startNativeProcess m)) = m_configFile m"
  "m_diagnostics (snd (startNativeProcess m)) = m_diagnostics m"
  "m_probes (snd (startNativeProcess m)) = m_probes m"
  "m_replies (snd (startNativeProcess m)) = m_replies m"
  by (simp_all add: startNativeProcess_def call_eq)

lemma next_probe_keeps [simp]:
  "m_GOOS (snd (next_probe m)) = m_GOOS m"
  "m_GOARCH (snd (next_probe m)) = m_GOARCH m"
  "m_bundle (snd (next_probe m)) = m_bundle m"
  "m_firewallReady (snd (next_probe m)) = m_firewallReady m"
  "m_firewallCleaned (snd (next_probe m)) = m_firewallCleaned m"
  "m_lastFirewallCheck (snd (next_probe m)) = m_lastFirewallCheck m"
  "m_process (snd (next_probe m)) = m_process m"
  "m_rules (snd (next_probe m)) = m_rules m"
  "m_desired (snd (next_probe m)) = m_desired m"
  "m_generation (snd (next_probe m)) = m_generation m"
  "m_activePolicy (snd (next_probe m)) = m_activePolicy m"
  "m_state (snd (next_probe m)) = m_state m"
  "m_mihomoReady (snd (next_probe m)) = m_mihomoReady m"
  "m_lastError (snd (next_probe m)) = m_lastError m"
  "m_lastContact (snd (next_probe m)) = m_lastContact m"
  "m_monitoring (snd (next_probe m)) = m_monitoring m"
  "m_restored (snd (next_probe m)) = m_restored m"
  "m_configFile (snd (next_probe m)) = m_configFile m"
  "m_diagnostics (snd (next_probe m)) = m_diagnostics m"
  "m_io (snd (next_probe m)) = m_io m"
  "m_replies (snd (next_probe m)) = m_replies m"
  by (simp_all add: next_probe_def split: list.split)

lemma next_reply_keeps [simp]:
  "m_GOOS (snd (next_reply m)) = m_GOOS m"
  "m_GOARCH (snd (next_reply m)) = m_GOARCH m"
  "m_bundle (snd (next_reply m)) = m_bundle m"
  "m_firewallReady (snd (next_reply m)) = m_firewallReady m"
  "m_firewallCleaned (snd (next_reply m)) = m_firewallCleaned m"
  "m_lastFirewallCheck (snd (next_reply m)) = m_lastFirewallCheck m"
  "m_process (snd (next_reply m)) = m_process m"
  "m_rules (snd (next_reply m)) = m_rules m"
  "m_desired (snd (next_reply m)) = m_desired m"
  "m_generation (snd (next_reply m)) = m_generation m"
  "m_activePolicy (snd (next_reply m)) = m_activePolicy m"
  "m_state (snd (next_reply m)) = m_state m"
  "m_mihomoReady (snd (next_reply m)) = m_mihomoReady m"
  "m_lastError (snd (next_reply m)) = m_lastError m"
  "m_lastContact (snd (next_reply m)) = m_lastContact m"
  "m_monitoring (snd (next_reply m)) = m_monitoring m"
  "m_restored (snd (next_reply m)) = m_restored m"
  "m_configFile (snd (next_reply m)) = m_configFile m"
  "m_diagnostics (snd (next_reply m)) = m_diagnostics m"
  "m_io (snd (next_reply m)) = m_io m"
  "m_probes (snd (next_reply m)) = m_probes m"
  by (simp_all add: next_reply_def split: list.split)

subsection \<open>The invariant\<close>

text \<open>
  The active policy is empty or stands for a command: when it names the current generation, the native
  process has acknowledged the command built from the current rules and the named availability.
\<close>

definition policy_inv :: "unicode \<Rightarrow> manager \<Rightarrow> bool" where
  "policy_inv U m \<longleftrightarrow>
     (m_activePolicy m = [] \<or>
      (\<exists>p g b. m_process m = Some p \<and> m_activePolicy m = policy_of g b \<and>
         (g = m_generation m \<longrightarrow> nt_command p = Some (buildRouterCommand U (m_rules m) b))))"

text \<open>
  A manager that reports running or blocked has a process, a firewall and a client that wants it, and
  the process acknowledged normalised rules, with the proxy or with every proxy rule blocked.
\<close>

definition normal_rules :: "unicode \<Rightarrow> string \<Rightarrow> rules_request \<Rightarrow> bool" where
  "normal_rules U goos rs \<longleftrightarrow> normalizeRulesRequest U goos rs = Inr rs"

definition running_inv :: "unicode \<Rightarrow> manager \<Rightarrow> bool" where
  "running_inv U m \<longleftrightarrow>
     (m_state m \<in> {StateRunning, StateBlocked} \<longrightarrow>
        m_desired m \<and> m_firewallReady m \<and>
        (\<exists>p rs. m_process m = Some p \<and> normal_rules U (m_GOOS m) rs \<and>
           nt_command p = Some (buildRouterCommand U rs (m_state m = StateRunning))))"

definition m_inv :: "unicode \<Rightarrow> manager \<Rightarrow> bool" where
  "m_inv U m \<longleftrightarrow>
     policy_inv U m \<and> running_inv U m \<and> normal_rules U (m_GOOS m) (m_rules m) \<and>
     (\<not> m_desired m \<longrightarrow> m_state m = StateStopped \<and> m_process m = None)"

lemma policy_inv_no_process: "policy_inv U m \<Longrightarrow> m_process m = None \<Longrightarrow> m_activePolicy m = []"
  by (auto simp: policy_inv_def)

text \<open>What the first half of \<open>Reconcile\<close> gives the second.\<close>

lemma reconcile_start_keeps [simp]:
  "m_GOOS (snd (reconcile_start now m)) = m_GOOS m" "m_rules (snd (reconcile_start now m)) = m_rules m"
  "m_desired (snd (reconcile_start now m)) = m_desired m" "m_generation (snd (reconcile_start now m)) = m_generation m"
  "m_probes (snd (reconcile_start now m)) = m_probes m" "m_configFile (snd (reconcile_start now m)) = m_configFile m"
  by (auto simp: reconcile_start_def Let_def case_prod_unfold split: option.split sum.split)

lemma reconcile_start_error:
  assumes "policy_inv U m" and "fst (reconcile_start now m) \<noteq> None"
  shows "m_state (snd (reconcile_start now m)) = StateError \<and> m_process (snd (reconcile_start now m)) = None \<and>
         m_activePolicy (snd (reconcile_start now m)) = []"
  using assms policy_inv_no_process [OF assms(1)]
  by (auto simp: reconcile_start_def Let_def case_prod_unfold split: option.splits sum.splits if_splits)

lemma reconcile_start_ok:
  assumes "policy_inv U m" and "fst (reconcile_start now m) = None"
  shows "m_firewallReady (snd (reconcile_start now m)) \<and>
     (\<exists>p. m_process (snd (reconcile_start now m)) = Some p \<and> nt_Alive p \<and>
        (m_process m = Some p \<and> m_activePolicy (snd (reconcile_start now m)) = m_activePolicy m \<or>
         m_activePolicy (snd (reconcile_start now m)) = [] \<and> verifyProcessRouterIntegrity (m_GOOS m) (m_bundle m) = None))"
  using assms policy_inv_no_process [OF assms(1)]
  by (auto simp: reconcile_start_def startNativeProcess_def call_eq errors_Join_def Let_def case_prod_unfold
           split: option.splits sum.splits if_splits)

lemma policy_inv_cong:
  "m_process a = m_process b \<Longrightarrow> m_activePolicy a = m_activePolicy b \<Longrightarrow> m_generation a = m_generation b \<Longrightarrow>
   m_rules a = m_rules b \<Longrightarrow> policy_inv U a = policy_inv U b"
  by (simp add: policy_inv_def)

lemma reconcile_start_policy_inv:
  assumes "policy_inv U m" and "fst (reconcile_start now m) = None"
  shows "policy_inv U (snd (reconcile_start now m))"
  using reconcile_start_ok [OF assms] policy_inv_cong [of "snd (reconcile_start now m)" m U] assms(1)
  by (elim conjE exE disjE) (simp_all, simp add: policy_inv_def)

text \<open>The probe the second half relies on: none is made when no enabled rule needs the proxy.\<close>

abbreviation proxy_answers :: "manager \<Rightarrow> bool" where
  "proxy_answers m \<equiv> (fst (probe_proxy m) = None)"

lemma probe_proxy_keeps [simp]:
  "m_GOOS (snd (probe_proxy m)) = m_GOOS m"
  "m_rules (snd (probe_proxy m)) = m_rules m"
  "m_desired (snd (probe_proxy m)) = m_desired m"
  "m_generation (snd (probe_proxy m)) = m_generation m"
  "m_configFile (snd (probe_proxy m)) = m_configFile m"
  "m_bundle (snd (probe_proxy m)) = m_bundle m"
  "m_lastContact (snd (probe_proxy m)) = m_lastContact m"
  "m_process (snd (probe_proxy m)) = m_process m" "m_activePolicy (snd (probe_proxy m)) = m_activePolicy m"
  "m_firewallReady (snd (probe_proxy m)) = m_firewallReady m" "m_state (snd (probe_proxy m)) = m_state m"
  by (simp_all add: probe_proxy_def case_prod_unfold)

lemma probe_proxy_needed: "fst (probe_proxy m) \<noteq> None \<Longrightarrow> hasProxyRules (m_rules m)"
  by (simp add: probe_proxy_def split: if_splits)

lemma apply_policy_keeps [simp]:
  "m_GOOS (snd (apply_policy U p e m)) = m_GOOS m"
  "m_rules (snd (apply_policy U p e m)) = m_rules m"
  "m_desired (snd (apply_policy U p e m)) = m_desired m"
  "m_generation (snd (apply_policy U p e m)) = m_generation m"
  "m_configFile (snd (apply_policy U p e m)) = m_configFile m"
  "m_bundle (snd (apply_policy U p e m)) = m_bundle m"
  "m_lastContact (snd (apply_policy U p e m)) = m_lastContact m"
  by (simp_all add: apply_policy_def Let_def case_prod_unfold split: option.split)

lemma apply_policy_error:
  assumes "fst (apply_policy U p e m) \<noteq> None"
  shows "m_state (snd (apply_policy U p e m)) = StateError \<and> m_process (snd (apply_policy U p e m)) = None \<and>
         m_activePolicy (snd (apply_policy U p e m)) = []"
  using assms by (simp add: apply_policy_def Let_def case_prod_unfold split: option.splits if_splits)

lemma sendRules_ok: "fst (sendRules c p r) = None \<Longrightarrow> snd (sendRules c p r) = p\<lparr>nt_command := Some c\<rparr>"
  by (simp add: sendRules_def split: prod.splits if_splits option.splits)

lemma apply_policy_ok:
  assumes "m_process m = Some p" and "policy_inv U m" and "fst (apply_policy U p e m) = None"
    and "e \<noteq> None \<Longrightarrow> hasProxyRules (m_rules m)"
  shows "m_firewallReady (snd (apply_policy U p e m)) = m_firewallReady m \<and>
     m_activePolicy (snd (apply_policy U p e m)) = policy_of (m_generation m) (e = None) \<and>
     m_state (snd (apply_policy U p e m)) = (if e = None then StateRunning else StateBlocked) \<and>
     (\<exists>q. m_process (snd (apply_policy U p e m)) = Some q \<and> nt_Alive q = nt_Alive p \<and>
        nt_command q = Some (buildRouterCommand U (m_rules m) (e = None)))"
proof (cases "policy_of (m_generation m) (e = None) = m_activePolicy m")
  case True
  then obtain g b where "policy_of g b = policy_of (m_generation m) (e = None)"
      "g = m_generation m \<longrightarrow> nt_command p = Some (buildRouterCommand U (m_rules m) b)"
    using assms(1,2) by (auto simp: policy_inv_def)
  then have "nt_command p = Some (buildRouterCommand U (m_rules m) (e = None))" by (auto simp: policy_of_inj)
  then show ?thesis using True assms(1,4) by (auto simp: apply_policy_def Let_def)
next
  case False
  have "fst (sendRules (buildRouterCommand U (m_rules m) (e = None)) p (fst (next_reply m))) = None"
    using assms(3) False by (simp add: apply_policy_def Let_def case_prod_unfold split: option.splits)
  with sendRules_ok [OF this] False assms(4) show ?thesis
    by (auto simp: apply_policy_def Let_def case_prod_unfold)
qed

lemma reconcile_policy_keeps [simp]:
  "m_GOOS (snd (reconcile_policy U m)) = m_GOOS m"
  "m_rules (snd (reconcile_policy U m)) = m_rules m"
  "m_desired (snd (reconcile_policy U m)) = m_desired m"
  "m_generation (snd (reconcile_policy U m)) = m_generation m"
  "m_configFile (snd (reconcile_policy U m)) = m_configFile m"
  "m_bundle (snd (reconcile_policy U m)) = m_bundle m"
  "m_lastContact (snd (reconcile_policy U m)) = m_lastContact m"
  by (simp_all add: reconcile_policy_def case_prod_unfold split: option.split)

lemma reconcile_policy_error:
  assumes "m_process m = Some p" and "fst (reconcile_policy U m) \<noteq> None"
  shows "m_state (snd (reconcile_policy U m)) = StateError \<and> m_process (snd (reconcile_policy U m)) = None \<and>
         m_activePolicy (snd (reconcile_policy U m)) = []"
  using assms apply_policy_error by (simp add: reconcile_policy_def case_prod_unfold)

lemma reconcile_policy_ok:
  assumes "m_process m = Some p" and "policy_inv U m" and "fst (reconcile_policy U m) = None"
  shows "m_firewallReady (snd (reconcile_policy U m)) = m_firewallReady m \<and>
     m_activePolicy (snd (reconcile_policy U m)) = policy_of (m_generation m) (proxy_answers m) \<and>
     m_state (snd (reconcile_policy U m)) = (if proxy_answers m then StateRunning else StateBlocked) \<and>
     (\<exists>q. m_process (snd (reconcile_policy U m)) = Some q \<and> nt_Alive q = nt_Alive p \<and>
        nt_command q = Some (buildRouterCommand U (m_rules m) (proxy_answers m)))"
proof -
  let ?m1 = "snd (probe_proxy m)"
  have eq: "reconcile_policy U m = apply_policy U p (fst (probe_proxy m)) ?m1"
    using assms(1) by (simp add: reconcile_policy_def case_prod_unfold)
  have "policy_inv U ?m1" using assms(2) by (simp add: policy_inv_def)
  then show ?thesis
    using apply_policy_ok [of ?m1 p U "fst (probe_proxy m)"] assms(1,3) probe_proxy_needed [of m] unfolding eq by simp
qed

lemma Reconcile_expired:
  assumes "m_desired m" and "\<not> leaseActiveLocked now m"
  shows "m_process (snd (Reconcile U now m)) = None \<and> m_state (snd (Reconcile U now m)) = StateStopped \<and>
     m_activePolicy (snd (Reconcile U now m)) = (if m_process m = None then m_activePolicy m else []) \<and>
     m_GOOS (snd (Reconcile U now m)) = m_GOOS m \<and> m_rules (snd (Reconcile U now m)) = m_rules m \<and>
     m_desired (snd (Reconcile U now m)) = m_desired m \<and> m_configFile (snd (Reconcile U now m)) = m_configFile m"
  using assms by (simp add: Reconcile_def case_prod_unfold)

lemma Reconcile_inv:
  assumes inv: "m_inv U m"
  shows "m_inv U (snd (Reconcile U now m))"
proof -
  note i = inv [unfolded m_inv_def]
  consider (idle) "\<not> m_desired m" | (expired) "m_desired m" "\<not> leaseActiveLocked now m"
    | (unsupported) "m_desired m" "leaseActiveLocked now m" "\<not> Supported m"
    | (active) "m_desired m" "leaseActiveLocked now m" "Supported m" by blast
  then show ?thesis
  proof cases
    case idle
    then show ?thesis using inv by (simp add: Reconcile_def)
  next
    case expired
    note ex = Reconcile_expired [OF expired, of U]
    have "m_activePolicy (snd (Reconcile U now m)) = []" using ex i policy_inv_no_process [of U m] by simp
    then show ?thesis using ex i expired unfolding m_inv_def policy_inv_def running_inv_def by simp
  next
    case unsupported
    then show ?thesis using i by (simp add: Reconcile_def m_inv_def policy_inv_def running_inv_def)
  next
    case active
    let ?m1 = "snd (reconcile_start now m)"
    show ?thesis
    proof (cases "fst (reconcile_start now m)")
      case (Some e)
      then have "Reconcile U now m = (Some e, ?m1)" using active by (simp add: Reconcile_def case_prod_unfold)
      then show ?thesis
        using i reconcile_start_error [of U m now] Some active(1) by (simp add: m_inv_def policy_inv_def running_inv_def)
    next
      case None
      then have eq: "Reconcile U now m = reconcile_policy U ?m1" using active by (simp add: Reconcile_def case_prod_unfold)
      obtain p where p: "m_firewallReady ?m1" "m_process ?m1 = Some p" "policy_inv U ?m1"
        using reconcile_start_ok [of U m now] reconcile_start_policy_inv [of U m now] i None by blast
      show ?thesis
      proof (cases "fst (reconcile_policy U ?m1)")
        case (Some e)
        then show ?thesis
          using i reconcile_policy_error [OF p(2), of U] active(1) unfolding eq
          by (simp add: m_inv_def policy_inv_def running_inv_def)
      next
        case None
        note ok = reconcile_policy_ok [OF p(2,3) None]
        then obtain q where q: "m_process (snd (reconcile_policy U ?m1)) = Some q"
            "nt_command q = Some (buildRouterCommand U (m_rules m) (proxy_answers ?m1))" by auto
        have "policy_inv U (snd (reconcile_policy U ?m1))"
          unfolding policy_inv_def using ok q by (intro disjI2 exI [of _ q]) auto
        moreover have "running_inv U (snd (reconcile_policy U ?m1))"
          unfolding running_inv_def using ok q i p(1) active(1) by (cases "proxy_answers ?m1") auto
        ultimately show ?thesis using i active(1) unfolding eq m_inv_def by simp
      qed
    qed
  qed
qed

subsection \<open>Reachable states\<close>

text \<open>
  The manager after start-up, then any sequence of calls at any times, ticks of the monitor and deaths
  of the native process. \<open>Close\<close> ends the life of a manager and is not among them.
\<close>

inductive m_reach :: "unicode \<Rightarrow> manager \<Rightarrow> bool" for U where
  start: "m_reach U (snd (Restore U now (newManager goos goarch b config ios probes replies)))"
| rules: "m_reach U m \<Longrightarrow> m_reach U (snd (ReplaceRules U now request m))"
| enable: "m_reach U m \<Longrightarrow> m_reach U (snd (Enable U now m))"
| disable: "m_reach U m \<Longrightarrow> m_reach U (snd (Disable m))"
| cleanup: "m_reach U m \<Longrightarrow> m_reach U (snd (Cleanup m))"
| repair: "m_reach U m \<Longrightarrow> m_reach U (snd (RepairFirewall now m))"
| renew: "m_reach U m \<Longrightarrow> m_reach U (RenewLease now m)"
| tick: "m_reach U m \<Longrightarrow> m_reach U (snd (Reconcile U now m))"
| died: "m_reach U m \<Longrightarrow> m_process m = Some p \<Longrightarrow> m_reach U (m\<lparr>m_process := Some (p\<lparr>nt_Alive := False\<rparr>)\<rparr>)"

lemma running_inv_cong:
  "m_process a = m_process b \<Longrightarrow> m_state a = m_state b \<Longrightarrow> m_desired a = m_desired b \<Longrightarrow>
   m_firewallReady a = m_firewallReady b \<Longrightarrow> m_GOOS a = m_GOOS b \<Longrightarrow> running_inv U a = running_inv U b"
  by (simp add: running_inv_def)

lemma m_inv_stopped:
  assumes "m_process m = None" and "m_state m \<in> {StateStopped, StateError}" and "m_activePolicy m = []"
    and "normal_rules U (m_GOOS m) (m_rules m)" and "m_desired m \<or> m_state m = StateStopped"
  shows "m_inv U m"
  using assms by (auto simp: m_inv_def policy_inv_def running_inv_def)

lemma empty_rules_normal: "normal_rules U goos (empty_rules goos)"
  by (simp add: normal_rules_def empty_rules_def normalizeRulesRequest_def default_platform_def defaultPlatform_def
      defaultProxyPort_def Let_def maxRules_def)

lemma ReplaceRules_inv:
  assumes inv: "m_inv U m"
  shows "m_inv U (snd (ReplaceRules U now request m))"
proof (cases "normalizeRulesRequest U (m_GOOS m) request")
  case (Inl e)
  then show ?thesis using inv by (simp add: ReplaceRules_def)
next
  case (Inr n)
  have n: "normal_rules U (m_GOOS m) n" unfolding normal_rules_def by (rule normalize_again [OF Inr])
  let ?m0 = "m\<lparr>m_rules := n, m_lastContact := Some now, m_generation := m_generation m + 1, m_activePolicy := []\<rparr>"
  let ?m1 = "snd (persistLocked ?m0)"
  have "running_inv U ?m1" using inv running_inv_cong [of ?m1 m U] by (simp add: m_inv_def)
  then have 1: "m_inv U ?m1" using inv n by (simp add: m_inv_def policy_inv_def)
  have "snd (ReplaceRules U now request m) \<in> {?m1, snd (Reconcile U now ?m1)}"
    using Inr by (simp add: ReplaceRules_def case_prod_unfold split: option.split)
  then show ?thesis using 1 Reconcile_inv [OF 1, of now] by auto
qed

lemma Enable_inv:
  assumes inv: "m_inv U m"
  shows "m_inv U (snd (Enable U now m))"
proof -
  let ?m1 = "snd (persistLocked (m\<lparr>m_desired := True, m_firewallCleaned := False, m_lastContact := Some now\<rparr>))"
  have p: "policy_inv U ?m1" using inv policy_inv_cong [of ?m1 m U] by (simp add: m_inv_def)
  have "running_inv U ?m1"
  proof (cases "m_desired m")
    case True
    then show ?thesis using inv running_inv_cong [of ?m1 m U] by (simp add: m_inv_def)
  qed (use inv in \<open>simp add: m_inv_def running_inv_def\<close>)
  with p have 1: "m_inv U ?m1" using inv by (simp add: m_inv_def)
  have "snd (Enable U now m) \<in> {m, ?m1, snd (Reconcile U now ?m1)}"
    by (simp add: Enable_def case_prod_unfold split: option.split)
  then show ?thesis using inv 1 Reconcile_inv [OF 1, of now] by auto
qed

lemma Disable_stops:
  "m_process (snd (Disable m)) = None \<and> m_state (snd (Disable m)) = StateStopped \<and> \<not> m_desired (snd (Disable m)) \<and>
   m_activePolicy (snd (Disable m)) = [] \<and> m_rules (snd (Disable m)) = m_rules m \<and> m_GOOS (snd (Disable m)) = m_GOOS m"
  by (simp add: Disable_def case_prod_unfold)

lemma RepairFirewall_inv:
  assumes inv: "m_inv U m"
  shows "m_inv U (snd (RepairFirewall now m))"
proof -
  note i = inv [unfolded m_inv_def]
  let ?m0 = "m\<lparr>m_lastContact := Some now\<rparr>"
  let ?m1 = "snd (ensureFirewallLocked True now ?m0)"
  have 0: "m_inv U ?m0"
    using i policy_inv_cong [of ?m0 m U] running_inv_cong [of ?m0 m U] by (simp add: m_inv_def)
  have p: "policy_inv U ?m1" using i policy_inv_cong [of ?m1 m U] by simp
  show ?thesis
  proof (cases "fst (ensureFirewallLocked True now ?m0)")
    case None
    have "running_inv U m" using i by blast
    with None have "running_inv U ?m1" unfolding running_inv_def ensure_keeps by auto
    with p i have "m_inv U ?m1" by (simp add: m_inv_def)
    with None 0 inv show ?thesis by (simp add: RepairFirewall_def case_prod_unfold split: option.split)
  next
    case (Some e)
    let ?w = "Wrapped ''application-routing firewall repair failed'' e"
    have "m_inv U (setErrorLocked ?w (snd (stopProcessLocked ?m1)))" if "m_desired m"
    proof (rule m_inv_stopped)
      show "normal_rules U (m_GOOS (setErrorLocked ?w (snd (stopProcessLocked ?m1))))
          (m_rules (setErrorLocked ?w (snd (stopProcessLocked ?m1))))" using i by simp
      have "m_process m = None \<Longrightarrow> m_activePolicy m = []" using i policy_inv_no_process by blast
      then show "m_activePolicy (setErrorLocked ?w (snd (stopProcessLocked ?m1))) = []" by simp
    qed (simp_all add: that)
    moreover have "m_inv U ?m1" if "\<not> m_desired m"
      using i that p by (simp add: m_inv_def running_inv_def)
    ultimately show ?thesis
      using Some 0 inv by (simp add: RepairFirewall_def case_prod_unfold Let_def split: option.split)
  qed
qed

lemma loadLocked_fresh:
  assumes "m_process m = None" and "m_state m = StateStopped" and "m_activePolicy m = []"
    and "normal_rules U (m_GOOS m) (m_rules m)"
  shows "m_inv U (snd (loadLocked U m))"
proof -
  have "normal_rules U (m_GOOS m) n" if "normalizeRulesRequest U (m_GOOS m) r = Inr n" for r n
    unfolding normal_rules_def by (rule normalize_again [OF that])
  then show ?thesis
    using assms by (intro m_inv_stopped) (auto simp: loadLocked_def call_eq split: store.split sum.split)
qed

lemma Restore_inv: "m_inv U (snd (Restore U now (newManager goos goarch b config ios probes replies)))"
proof -
  let ?n = "newManager goos goarch b config ios probes replies"
  let ?m = "?n\<lparr>m_restored := True, m_monitoring := True\<rparr>"
  let ?m1 = "?m\<lparr>m_io := snd (run_ios 2 ios)\<rparr>"
  let ?l = "snd (loadLocked U ?m1)"
  have fresh: "m_inv U ?m1"
    by (rule m_inv_stopped) (simp_all add: newManager_def empty_rules_normal)
  have l: "m_inv U ?l"
    by (rule loadLocked_fresh) (simp_all add: newManager_def empty_rules_normal)
  have "snd (Restore U now ?n) \<in> {?m1, ?l, snd (Reconcile U now ?l)}"
    by (auto simp: Restore_def newManager_def Let_def case_prod_unfold split: bool.split sum.split option.split)
  then show ?thesis using fresh l Reconcile_inv [OF l, of now] by auto
qed

lemma m_reach_inv: "m_reach U m \<Longrightarrow> m_inv U m"
proof (induction rule: m_reach.induct)
  case (disable m)
  then show ?case using Disable_stops [of m] by (intro m_inv_stopped) (auto simp: m_inv_def)
next
  case (cleanup m)
  show ?case
    by (rule m_inv_stopped) (simp_all add: Cleanup_def case_prod_unfold call_eq empty_rules_normal)
next
  case (renew m now)
  then show ?case
    using policy_inv_cong [of "RenewLease now m" m U] running_inv_cong [of "RenewLease now m" m U]
    by (simp add: m_inv_def RenewLease_def)
next
  case (died m p)
  then have "policy_inv U (m\<lparr>m_process := Some (p\<lparr>nt_Alive := False\<rparr>)\<rparr>)"
    "running_inv U (m\<lparr>m_process := Some (p\<lparr>nt_Alive := False\<rparr>)\<rparr>)"
    by (auto simp: m_inv_def policy_inv_def running_inv_def)
  then show ?case using died by (simp add: m_inv_def)
qed (simp_all add: Restore_inv ReplaceRules_inv Enable_inv RepairFirewall_inv Reconcile_inv)

lemma Reconcile_keeps [simp]:
  "m_GOOS (snd (Reconcile U now m)) = m_GOOS m" "m_rules (snd (Reconcile U now m)) = m_rules m"
  "m_desired (snd (Reconcile U now m)) = m_desired m" "m_configFile (snd (Reconcile U now m)) = m_configFile m"
  by (simp_all add: Reconcile_def case_prod_unfold split: option.split)

text \<open>A concrete manager on Linux that starts from a saved, enabled configuration.\<close>

definition toy_config :: persisted_config where
  "toy_config = \<lparr>pc_Version = 1, pc_Enabled = True, pc_Rules = toy_normal\<rparr>"

definition toy_manager :: "probe_answer list \<Rightarrow> manager" where
  "toy_manager probes = RenewLease 1 (snd (Restore ascii_only 0 (newManager ''linux'' ''amd64''
     \<lparr>bu_manifest = Absent, bu_sha256 = Map.empty\<rparr> (Stored toy_config) [] probes [])))"

lemma toy_again: "normalizeRulesRequest ascii_only ''linux'' toy_normal = Inr toy_normal"
  by (rule normalize_again [OF toy_rules_normal])

lemma toy_manager_eq:
  "toy_manager probes = (newManager ''linux'' ''amd64'' \<lparr>bu_manifest = Absent, bu_sha256 = Map.empty\<rparr> (Stored toy_config) [] probes [])
     \<lparr>m_rules := toy_normal, m_desired := True, m_generation := 1, m_lastContact := Some 1, m_monitoring := True, m_restored := True, m_firewallCleaned := True\<rparr>"
  by (simp add: toy_manager_def RenewLease_def Restore_def newManager_def Let_def loadLocked_def call_eq toy_config_def
      ProtocolVersion_def toy_again Reconcile_def leaseActiveLocked_def stopProcessLocked_def removeFirewallLocked_def
      numeral_2_eq_2)

lemmas manager_eval = toy_manager_eq newManager_def Reconcile_def leaseActiveLocked_def clientLease_def second_def Supported_def
  reconcile_start_def Let_def verifyProcessRouterIntegrity_def ensureFirewallLocked_def call_eq startNativeProcess_def
  reconcile_policy_def probe_proxy_def next_probe_def probeMihomo_def healthy_def apply_policy_def next_reply_def acknowledged_def
  sendRules_def updateProxyHealthLocked_def record_and_log_def ProtocolVersion_def

lemma toy_proxy: "hasProxyRules toy_normal" by (simp add: hasProxyRules_def toy_normal_def toy_rule_def)

lemma toy_blocked: "m_state (snd (Reconcile ascii_only 2 (toy_manager [healthy\<lparr>pa_dial := False\<rparr>]))) = StateBlocked"
  by (simp add: manager_eval toy_proxy)
lemma toy_running: "fst (Reconcile ascii_only 2 (toy_manager [])) = None"
  by (simp add: manager_eval toy_proxy)

lemma toy_manager_reach: "m_reach ascii_only (toy_manager probes)"
  unfolding toy_manager_def by (intro m_reach.renew m_reach.start)

text \<open>
  Once a lease has expired, a firewall check that succeeds at once (on Linux it always does) leaves the
  mark that the firewall was cleaned, and \<open>Disable\<close> then leaves it reported as ready.
\<close>

lemma disable_reports_firewall:
  "m_firewallReady (snd (Disable (snd (Reconcile ascii_only 2 (toy_manager [])))))"
  by (simp add: manager_eval toy_proxy Disable_def persistLocked_def stopProcessLocked_def removeFirewallLocked_def
      numeral_3_eq_3)

section \<open>Properties\<close>



text \<open>
  No direct fallback: whenever a reachable manager reports that it is blocked, no rule of the
  command that the native process acknowledged last sends traffic to the proxy, and rules to be
  proxied are blocked, none of them direct.
\<close>

theorem blocked_means_blocked:
  assumes "m_reach U m" and "m_state m = StateBlocked"
  shows "\<exists>p c rs. m_process m = Some p \<and> nt_command p = Some c \<and> c = buildRouterCommand U rs False \<and>
     nc_FailClosed c \<and>
     list_all2 (\<lambda>r n. nr_Action n = (if r_Action r = ''proxy'' then ''BLOCK'' else strings_ToUpper U (r_Action r)))
       (rr_Rules rs) (nc_Rules c)"
proof -
  have "m_inv U m" using assms m_reach_inv by blast
  then obtain p rs where "m_process m = Some p" "nt_command p = Some (buildRouterCommand U rs False)"
    using assms(2) by (auto simp: m_inv_def running_inv_def)
  moreover have "list_all2 (\<lambda>r n. nr_Action n = (if r_Action r = ''proxy'' then ''BLOCK'' else strings_ToUpper U (r_Action r)))
      (rr_Rules rs) (nc_Rules (buildRouterCommand U rs False))"
    by (simp add: buildRouterCommand_def native_rule_def list_all2_conv_all_nth)
  ultimately show ?thesis by (auto simp: buildRouterCommand_def)
qed

theorem blocked_means_blocked_witness:
  "\<exists>p c rs. m_process (snd (Reconcile ascii_only 2 (toy_manager [healthy\<lparr>pa_dial := False\<rparr>]))) = Some p \<and>
     nt_command p = Some c \<and> c = buildRouterCommand ascii_only rs False \<and> nc_FailClosed c"
  using blocked_means_blocked [OF m_reach.tick [OF toy_manager_reach] toy_blocked] by blast

text \<open>
  What a successful reconciliation with a living client establishes: a living process with a ready
  firewall, which has acknowledged exactly the command for the current rules and for what the probe of
  the proxy answered; the manager reports running when the proxy answers or is not needed, else
  blocked; and a process that was started for it comes from a bundle that passed its integrity check.
\<close>

theorem Reconcile_establishes:
  assumes "m_reach U m" and "m_desired m" and "leaseActiveLocked now m" and "Reconcile U now m = (None, m')"
  shows "m_firewallReady m' \<and> m_rules m' = m_rules m \<and>
     m_state m' = (if proxy_answers (snd (reconcile_start now m)) then StateRunning else StateBlocked) \<and>
     (\<exists>p. m_process m' = Some p \<and> nt_Alive p \<and>
        nt_command p = Some (buildRouterCommand U (m_rules m) (proxy_answers (snd (reconcile_start now m))))) \<and>
     (m_process m = None \<longrightarrow> verifyProcessRouterIntegrity (m_GOOS m) (m_bundle m) = None)"
proof -
  have inv: "policy_inv U m" using assms m_reach_inv by (auto simp: m_inv_def)
  have ok: "fst (reconcile_start now m) = None" and eq: "reconcile_policy U (snd (reconcile_start now m)) = (None, m')"
    using assms(2-4) by (auto simp: Reconcile_def case_prod_unfold split: if_splits option.splits)
  note inv1 = reconcile_start_policy_inv [OF inv ok]
  obtain p where p: "m_firewallReady (snd (reconcile_start now m))" "m_process (snd (reconcile_start now m)) = Some p"
      "nt_Alive p" "m_process m = None \<Longrightarrow> verifyProcessRouterIntegrity (m_GOOS m) (m_bundle m) = None"
    using reconcile_start_ok [OF inv ok] by auto
  have "m_rules m' = m_rules m" using reconcile_policy_keeps(2) [of U "snd (reconcile_start now m)"] eq by simp
  then show ?thesis using reconcile_policy_ok [OF p(2) inv1] eq p by auto
qed

theorem Reconcile_establishes_witness:
  "m_firewallReady (snd (Reconcile ascii_only 2 (toy_manager []))) \<and>
   (\<exists>p. m_process (snd (Reconcile ascii_only 2 (toy_manager []))) = Some p \<and> nt_Alive p)"
proof -
  have "Reconcile ascii_only 2 (toy_manager []) = (None, snd (Reconcile ascii_only 2 (toy_manager [])))"
    using toy_running by (simp add: prod_eq_iff)
  from Reconcile_establishes [OF toy_manager_reach _ _ this] show ?thesis
    by (auto simp: toy_manager_eq leaseActiveLocked_def clientLease_def second_def newManager_def)
qed

text \<open>
  A client that is gone for more than twenty seconds loses its router: the next reconciliation
  stops the native process and reports stopped, and keeps the rules and the wish, so that the client
  finds them when it comes back.
\<close>

theorem lease_expiry_stops:
  assumes "m_desired m" and "\<forall>t. m_lastContact m = Some t \<longrightarrow> now - t > 20 * second"
  shows "m_process (snd (Reconcile U now m)) = None \<and> m_state (snd (Reconcile U now m)) = StateStopped \<and>
     m_rules (snd (Reconcile U now m)) = m_rules m \<and> m_desired (snd (Reconcile U now m))"
proof -
  have "\<not> leaseActiveLocked now m"
    using assms(2) by (auto simp: leaseActiveLocked_def clientLease_def split: option.splits)
  from Reconcile_expired [OF assms(1) this] assms(1) show ?thesis by simp
qed

theorem lease_expiry_stops_witness:
  "m_process (snd (Reconcile ascii_only (2 + 20 * second) (toy_manager []))) = None"
  using lease_expiry_stops [of "toy_manager []" "2 + 20 * second" ascii_only] by (simp add: toy_manager_eq)

text \<open>
  Stopping always stops: after \<open>Disable\<close> there is no native process, nothing is wanted and the
  manager reports stopped, even when the file could not be written or the process or the firewall did
  not obey; when no error is reported the saved configuration is disabled and holds the rules.
\<close>

theorem Disable_always_stops:
  "m_process (snd (Disable m)) = None \<and> m_state (snd (Disable m)) = StateStopped \<and> \<not> m_desired (snd (Disable m)) \<and>
   (fst (Disable m) \<noteq> None \<or>
    m_configFile (snd (Disable m)) = Stored \<lparr>pc_Version = ProtocolVersion, pc_Enabled = False, pc_Rules = m_rules m\<rparr>)"
  using Disable_stops [of m] by (auto simp: Disable_def case_prod_unfold errors_Join_None_iff)

theorem Disable_always_stops_witness:
  "m_configFile (snd (Disable (toy_manager []))) = Stored \<lparr>pc_Version = ProtocolVersion, pc_Enabled = False, pc_Rules = toy_normal\<rparr>"
proof -
  have "fst (Disable (toy_manager [])) = None" and "m_rules (toy_manager []) = toy_normal"
    by (simp_all add: toy_manager_eq newManager_def Disable_def persistLocked_def eval_nat_numeral stopProcessLocked_def
        removeFirewallLocked_def errors_Join_None_iff)
  then show ?thesis using Disable_always_stops [of "toy_manager []"] by simp
qed

text \<open>
  Accepted rules survive a restart: when \<open>ReplaceRules\<close> reports no error, a new manager that is
  restored from the saved file has exactly these rules and the same wish.
\<close>

theorem ReplaceRules_restart:
  assumes "ReplaceRules U now request m = (None, m')"
  shows "normalizeRulesRequest U (m_GOOS m) request = Inr (m_rules m') \<and>
     m_rules (snd (Restore U t (newManager (m_GOOS m) goarch b (m_configFile m') [] probes replies))) = m_rules m' \<and>
     m_desired (snd (Restore U t (newManager (m_GOOS m) goarch b (m_configFile m') [] probes replies))) = m_desired m'"
proof -
  obtain n where n: "normalizeRulesRequest U (m_GOOS m) request = Inr n"
    using assms by (auto simp: ReplaceRules_def split: sum.splits)
  let ?p = "persistLocked (m\<lparr>m_rules := n, m_lastContact := Some now, m_generation := m_generation m + 1, m_activePolicy := []\<rparr>)"
  have p: "fst ?p = None" "m' = snd ?p \<or> m' = snd (Reconcile U now (snd ?p))"
    using assms n by (auto simp: ReplaceRules_def case_prod_unfold split: option.splits if_splits)
  have m': "m_rules m' = n" "m_desired m' = m_desired m"
      "m_configFile m' = Stored \<lparr>pc_Version = ProtocolVersion, pc_Enabled = m_desired m, pc_Rules = n\<rparr>"
    using p by auto
  have again: "normalizeRulesRequest U (m_GOOS m) n = Inr n" by (rule normalize_again [OF n])
  show ?thesis
    using n m' again by (simp add: Restore_def newManager_def Let_def loadLocked_def call_eq numeral_2_eq_2)
qed

theorem ReplaceRules_restart_witness:
  "\<exists>m'. ReplaceRules ascii_only 2 toy_rules (toy_manager []) = (None, m') \<and> m_rules m' = toy_normal"
proof -
  let ?r = "ReplaceRules ascii_only 2 toy_rules (toy_manager [])"
  have "fst ?r = None"
    by (simp add: ReplaceRules_def manager_eval toy_rules_normal toy_proxy persistLocked_def numeral_3_eq_3)
  then have r: "?r = (None, snd ?r)" by (simp add: prod_eq_iff)
  from ReplaceRules_restart [OF r] have "m_rules (snd ?r) = toy_normal"
    using toy_rules_normal by (simp add: toy_manager_eq newManager_def)
  with r show ?thesis by blast
qed

end
