(* ===== verification/Linux_Process.thy ===== *)
theory Linux_Process
  imports Linux_Plan Router_Manager "HOL-Library.AList"
begin

text \<open>
  The native router on Linux (\<open>processrouter/process_linux.go\<close>): it installs the firewall plan and
  moves the processes that the rules name into the cgroup of their routing group, remembering where
  each came from. The kernel's side is a list of processes with the \<open>cgroup.procs\<close> file each one is
  in; \<open>lp_io\<close> is the script of outcomes and \<open>lp_ran\<close> the commands that were run.
\<close>

section \<open>Definitions\<close>

record cgroup_controller =
  cc_mode :: cgroup_mode
  cc_mountPoint :: string
  cc_managedRoot :: string
  cc_mountedV1 :: bool

record linux_snapshot =
  ls_pid :: int
  ls_executablePath :: string
  ls_executableName :: string

record linux_target =
  lt_matchKind :: string
  lt_pattern :: string
  lt_group :: string

record linux_process =
  lp_controller :: cgroup_controller
  lp_events :: "router_event list"
  lp_closed :: bool
  lp_alive :: bool
  lp_firewallReady :: bool
  lp_proxyUDPDNS :: bool
  lp_diagnosticLogging :: bool
  lp_proxyPort :: int
  lp_targets :: "linux_target list"
  lp_assigned :: "(int \<times> string) list"
  lp_original :: "int \<rightharpoonup> string"
  lp_world :: "(int \<times> string) list"
  lp_parent :: "int \<rightharpoonup> int"
  lp_diagnostics :: diagnostics
  lp_ran :: "linux_command list"
  lp_io :: "io list"

definition lp_call :: "linux_process \<Rightarrow> bool \<times> linux_process" where
  "lp_call p = (case next_io (lp_io p) of (r, ios) \<Rightarrow> (r = Done, p\<lparr>lp_io := ios\<rparr>))"

subsection \<open>Cgroups\<close>

definition group_procs :: "cgroup_controller \<Rightarrow> string \<Rightarrow> string" where
  "group_procs c grp = cc_managedRoot c @ ''/'' @ grp @ ''/cgroup.procs''"

definition root_procs :: "cgroup_controller \<Rightarrow> string" where
  "root_procs c = cc_mountPoint c @ ''/cgroup.procs''"

definition processExists :: "linux_process \<Rightarrow> int \<Rightarrow> bool" where
  "processExists p pid = (pid \<in> fst ` set (lp_world p))"

text \<open>Writing a process id into a \<open>cgroup.procs\<close> file moves the process there.\<close>

definition write_procs :: "int \<Rightarrow> string \<Rightarrow> linux_process \<Rightarrow> linux_process" where
  "write_procs pid path p =
     p\<lparr>lp_world := map (\<lambda>(q, f). if q = pid then (q, path) else (q, f)) (lp_world p)\<rparr>"

definition move :: "int \<Rightarrow> string \<Rightarrow> linux_process \<Rightarrow> err option \<times> linux_process" where
  "move pid grp p =
     (case validateLinuxRoutingGroup grp of
        Some e \<Rightarrow> (Some e, p)
      | None \<Rightarrow>
          (case lp_call p of (ok, p') \<Rightarrow>
             if ok then (None, write_procs pid (group_procs (lp_controller p) grp) p')
             else (Some (Wrapped ''move process'' SysErr), p')))"

text \<open>\<open>processCgroup\<close>: the file a process is in, or an error when \<open>/proc\<close> cannot be read.\<close>

definition processCgroup :: "int \<Rightarrow> linux_process \<Rightarrow> string res \<times> linux_process" where
  "processCgroup pid p =
     (case lp_call p of (ok, p') \<Rightarrow>
        (if \<not> ok then Inl SysErr
         else (case map_of (lp_world p) pid of None \<Rightarrow> Inl SysErr | Some f \<Rightarrow> Inr f), p'))"

definition inheritedOriginalCgroup :: "linux_process \<Rightarrow> int \<Rightarrow> string" where
  "inheritedOriginalCgroup p pid =
     (case lp_parent p pid of
        None \<Rightarrow> root_procs (lp_controller p)
      | Some parentPID \<Rightarrow>
          (case lp_original p parentPID of
             Some f \<Rightarrow> if f \<noteq> [] then f else root_procs (lp_controller p)
           | None \<Rightarrow> root_procs (lp_controller p)))"

definition restoreProcessLocked :: "int \<Rightarrow> linux_process \<Rightarrow> err option \<times> linux_process" where
  "restoreProcessLocked pid p =
     (let target = (case lp_original p pid of None \<Rightarrow> [] | Some f \<Rightarrow> f);
          p1 = p\<lparr>lp_assigned := AList.delete pid (lp_assigned p), lp_original := (lp_original p)(pid := None)\<rparr>
      in if target = [] \<or> \<not> processExists p pid then (None, p1)
         else (case lp_call p1 of (ok, p2) \<Rightarrow>
             if ok then (None, write_procs pid target p2) else (Some (Wrapped ''restore process'' SysErr), p2)))"

fun restore_pids :: "int list \<Rightarrow> linux_process \<Rightarrow> err list \<times> linux_process" where
  "restore_pids [] p = ([], p)"
| "restore_pids (pid # pids) p =
     (case restoreProcessLocked pid p of (e, p1) \<Rightarrow>
        (case restore_pids pids p1 of (es, p2) \<Rightarrow> ((case e of None \<Rightarrow> es | Some x \<Rightarrow> x # es), p2)))"

definition restoreAllLocked :: "linux_process \<Rightarrow> err list \<times> linux_process" where
  "restoreAllLocked p = restore_pids (map fst (lp_assigned p)) p"

subsection \<open>Scanning\<close>

fun target_group :: "linux_target list \<Rightarrow> linux_snapshot \<Rightarrow> string option" where
  "target_group [] pr = None"
| "target_group (t # ts) pr =
     (if lt_matchKind t = matchProcessName
      then (if lt_pattern t = ls_executableName pr then Some (lt_group t) else target_group ts pr)
      else if lt_pattern t = ls_executablePath pr then Some (lt_group t) else target_group ts pr)"

definition targetGroup :: "linux_process \<Rightarrow> linux_snapshot \<Rightarrow> string option" where
  "targetGroup p pr = target_group (lp_targets p) pr"

text \<open>Remembering where a process comes from, before it is moved for the first time.\<close>

definition track :: "int \<Rightarrow> linux_process \<Rightarrow> err option \<times> linux_process" where
  "track pid p =
     (if lp_original p pid \<noteq> None then (None, p)
      else (case processCgroup pid p of
          (Inl e, p1) \<Rightarrow> (Some e, p1)
        | (Inr original, p1) \<Rightarrow>
            (let original' = (if has_prefix original (cc_managedRoot (lp_controller p) @ ''/'')
                              then inheritedOriginalCgroup p1 pid else original)
             in (None, p1\<lparr>lp_original := (lp_original p1)(pid \<mapsto> original')\<rparr>))))"

text \<open>One process of the snapshot: the errors and whether it counts as seen.\<close>

definition scan_one :: "string \<Rightarrow> linux_snapshot \<Rightarrow> linux_process \<Rightarrow> err option \<times> bool \<times> linux_process" where
  "scan_one now pr p =
     (let pid = ls_pid pr
      in case targetGroup p pr of
           None \<Rightarrow>
             if map_of (lp_assigned p) pid \<noteq> None
             then (case restoreProcessLocked pid p of (e, p') \<Rightarrow> (e, False, p'))
             else (None, False, p)
         | Some grp \<Rightarrow>
             if map_of (lp_assigned p) pid = Some grp then (None, True, p)
             else (case track pid p of
                 (Some e, p1) \<Rightarrow> (Some e, True, p1)
               | (None, p1) \<Rightarrow>
                   (case move pid grp p1 of
                      (Some e, p2) \<Rightarrow> (Some e, True, p2)
                    | (None, p2) \<Rightarrow>
                        (let p3 = p2\<lparr>lp_assigned := AList.update pid grp (lp_assigned p2)\<rparr>
                         in (None, True,
                             if lp_diagnosticLogging p3
                             then p3\<lparr>lp_diagnostics := recordDiagnostic now
                                       (''process='' @ ls_executablePath pr @ '' pid='' @ format_int pid @ '' result='' @ grp)
                                       (lp_diagnostics p3)\<rparr>
                             else p3)))))"

fun scan_loop :: "string \<Rightarrow> linux_snapshot list \<Rightarrow> linux_process \<Rightarrow> err list \<times> int list \<times> linux_process" where
  "scan_loop now [] p = ([], [], p)"
| "scan_loop now (pr # prs) p =
     (case scan_one now pr p of (e, seen, p1) \<Rightarrow>
        (case scan_loop now prs p1 of (es, pids, p2) \<Rightarrow>
           ((case e of None \<Rightarrow> es | Some x \<Rightarrow> x # es), (if seen then ls_pid pr # pids else pids), p2)))"

definition applyProcessSnapshotLocked :: "string \<Rightarrow> linux_snapshot list \<Rightarrow> linux_process \<Rightarrow> err list \<times> linux_process" where
  "applyProcessSnapshotLocked now snapshot p =
     (case scan_loop now snapshot p of (es, seen, p1) \<Rightarrow>
        (let gone = filter (\<lambda>pid. pid \<notin> set seen \<and> \<not> processExists p1 pid) (map fst (lp_assigned p1))
         in (es, p1\<lparr>lp_assigned := filter (\<lambda>(pid, _). pid \<notin> set gone) (lp_assigned p1),
                    lp_original := (\<lambda>pid. if pid \<in> set gone then None else lp_original p1 pid)\<rparr>)))"

subsection \<open>Commands\<close>

definition runLinuxCommand :: "linux_command \<Rightarrow> linux_process \<Rightarrow> err option \<times> linux_process" where
  "runLinuxCommand c p =
     (case lp_call p of (ok, p') \<Rightarrow> (if ok then None else Some SysErr, p'\<lparr>lp_ran := lp_ran p' @ [c]\<rparr>))"

fun runLinuxPlan :: "linux_command list \<Rightarrow> bool \<Rightarrow> linux_process \<Rightarrow> err option \<times> linux_process" where
  "runLinuxPlan [] ignoreErrors p = (None, p)"
| "runLinuxPlan (c # cs) ignoreErrors p =
     (case runLinuxCommand c p of
        (Some e, p') \<Rightarrow> if ignoreErrors then runLinuxPlan cs ignoreErrors p' else (Some (Joined [e]), p')
      | (None, p') \<Rightarrow> runLinuxPlan cs ignoreErrors p')"

definition rebuildFirewallLocked :: "int \<Rightarrow> bool \<Rightarrow> linux_process \<Rightarrow> err option \<times> linux_process" where
  "rebuildFirewallLocked proxyPort proxyUDPDNS p =
     (let cleanup = buildLinuxFirewallCleanup;
          plan = buildLinuxFirewallSetup (cc_mode (lp_controller p)) proxyPort proxyUDPDNS;
          p1 = snd (runLinuxPlan cleanup True p)
      in case runLinuxPlan (drop (length cleanup) plan) False p1 of
           (Some e, p2) \<Rightarrow>
             (Some (Wrapped ''install Linux application-routing firewall'' e),
              (snd (runLinuxPlan cleanup True p2))\<lparr>lp_firewallReady := False\<rparr>)
         | (None, p2) \<Rightarrow> (None, p2\<lparr>lp_firewallReady := True, lp_proxyPort := proxyPort, lp_proxyUDPDNS := proxyUDPDNS\<rparr>))"

definition emitLocked :: "string \<Rightarrow> string \<Rightarrow> linux_process \<Rightarrow> linux_process" where
  "emitLocked event message p =
     (if length (lp_events p) < 16
      then p\<lparr>lp_events := lp_events p @ [\<lparr>ev_Version = ProtocolVersion, ev_Event = event, ev_Message = message\<rparr>]\<rparr>
      else p)"

fun build_targets :: "unicode \<Rightarrow> router_rule list \<Rightarrow> linux_target list res" where
  "build_targets U [] = Inr []"
| "build_targets U (r # rs) =
     (if \<not> nr_Enabled r then build_targets U rs
      else
        (let grp = linuxRoutingGroup (strings_ToLower U (nr_Action r)) (strings_ToLower U (nr_Protocol r))
         in case validateLinuxRoutingGroup grp of
              Some e \<Rightarrow> Inl e
            | None \<Rightarrow>
                (case build_targets U rs of
                   Inl e \<Rightarrow> Inl e
                 | Inr ts \<Rightarrow> Inr (\<lparr>lt_matchKind = nr_MatchKind r, lt_pattern = nr_ProcessPattern r, lt_group = grp\<rparr> # ts))))"

text \<open>The argument \<open>snapshot\<close> is the answer of \<open>snapshotLinuxProcesses\<close>, \<open>None\<close> an error.\<close>

definition Send :: "unicode \<Rightarrow> string \<Rightarrow> linux_snapshot list option \<Rightarrow> router_command \<Rightarrow> linux_process \<Rightarrow> err option \<times> linux_process" where
  "Send U now snapshot command p0 =
     (if nc_Version command \<noteq> ProtocolVersion \<or> nc_Command command \<noteq> ''replace_rules'' \<or> \<not> nc_FailClosed command
      then (Some (Plain ''invalid Linux process router command''), p0)
      else if np_Host (nc_Proxy command) \<noteq> ''127.0.0.1'' \<or> np_Port (nc_Proxy command) \<noteq> LinuxProxyPort
      then (Some (Plain ''Linux TProxy listener must be 127.0.0.1:7894''), p0)
      else if \<not> lp_alive p0 then (Some (Plain ''Linux process router is not running''), p0)
      else
        (case (if \<not> lp_firewallReady p0 \<or> lp_proxyUDPDNS p0 \<noteq> nc_ProxyUDPDNS command \<or> lp_proxyPort p0 \<noteq> np_Port (nc_Proxy command)
               then rebuildFirewallLocked (np_Port (nc_Proxy command)) (nc_ProxyUDPDNS command) p0
               else (None, p0)) of
           (Some e, p1) \<Rightarrow> (Some e, emitLocked ''error'' (err_text e) p1)
         | (None, p1) \<Rightarrow>
             (case build_targets U (nc_Rules command) of
                Inl e \<Rightarrow> (Some e, p1)
              | Inr targets \<Rightarrow>
                  (let p2 = p1\<lparr>lp_targets := targets, lp_diagnosticLogging := nc_DiagnosticLogging command\<rparr>
                   in case (case snapshot of None \<Rightarrow> ([SysErr], p2) | Some prs \<Rightarrow> applyProcessSnapshotLocked now prs p2) of
                        (es, p3) \<Rightarrow>
                          (None, emitLocked ''rules_replaced'' []
                             (if es \<noteq> [] \<and> nc_DiagnosticLogging command
                              then p3\<lparr>lp_diagnostics := recordDiagnosticAt now ''error''
                                        (''Linux process scan failed: '' @ err_text (Joined es)) (lp_diagnostics p3)\<rparr>
                              else p3))))))"

text \<open>One tick of \<open>monitorProcesses\<close>.\<close>

definition monitor_tick :: "string \<Rightarrow> linux_snapshot list option \<Rightarrow> linux_process \<Rightarrow> linux_process" where
  "monitor_tick now snapshot p =
     (case snapshot of
        None \<Rightarrow> p\<lparr>lp_diagnostics := recordDiagnosticAt now ''error'' ''Linux process scan failed: system error'' (lp_diagnostics p)\<rparr>
      | Some prs \<Rightarrow>
          if \<not> lp_alive p then p
          else (case applyProcessSnapshotLocked now prs p of (es, p1) \<Rightarrow>
              if es = [] then p1
              else p1\<lparr>lp_diagnostics := recordDiagnosticAt now ''error''
                        (''Linux process scan failed: '' @ err_text (Joined es)) (lp_diagnostics p1)\<rparr>))"

text \<open>
  \<open>cleanup\<close> of the controller: per group, the processes that are still in it go to the root of the
  mount, then the directory is removed; at last the managed root and a private mount.
\<close>

fun write_all :: "int list \<Rightarrow> string \<Rightarrow> linux_process \<Rightarrow> err list \<times> linux_process" where
  "write_all [] path p = ([], p)"
| "write_all (pid # pids) path p =
     (case lp_call p of (ok, p1) \<Rightarrow>
        (case write_all pids path (if ok then write_procs pid path p1 else p1) of (es, p2) \<Rightarrow>
           (if ok then es else SysErr # es, p2)))"

definition restoreUntrackedProcesses :: "string \<Rightarrow> linux_process \<Rightarrow> err list \<times> linux_process" where
  "restoreUntrackedProcesses grp p =
     (case lp_call p of (ok, p1) \<Rightarrow>
        if \<not> ok then ([SysErr], p1)
        else write_all (map fst (filter (\<lambda>(pid, f). f = group_procs (lp_controller p) grp) (lp_world p1)))
               (root_procs (lp_controller p)) p1)"

fun cleanup_groups :: "string list \<Rightarrow> linux_process \<Rightarrow> err list \<times> linux_process" where
  "cleanup_groups [] p = ([], p)"
| "cleanup_groups (g # gs) p =
     (case restoreUntrackedProcesses g p of (es1, p1) \<Rightarrow>
        (case lp_call p1 of (ok, p2) \<Rightarrow>
           (case cleanup_groups gs p2 of (es2, p3) \<Rightarrow> (es1 @ (if ok then [] else [SysErr]) @ es2, p3))))"

definition cleanup :: "linux_process \<Rightarrow> err list \<times> linux_process" where
  "cleanup p =
     (case cleanup_groups (rev linuxRoutingGroups) p of (es1, p1) \<Rightarrow>
        (case lp_call p1 of (ok, p2) \<Rightarrow>
           (if cc_mountedV1 (lp_controller p2)
            then (case runLinuxCommand (cmd ''umount'' [cc_mountPoint (lp_controller p2)]) p2 of
                    (e, p3) \<Rightarrow> (es1 @ (if ok then [] else [SysErr]) @ (case e of None \<Rightarrow> [] | Some x \<Rightarrow> [x]), p3))
            else (es1 @ (if ok then [] else [SysErr]), p2))))"

definition Stop :: "linux_process \<Rightarrow> err option \<times> linux_process" where
  "Stop p =
     (if \<not> lp_alive p then (None, p)
      else
        (case lp_call (p\<lparr>lp_alive := False\<rparr>) of (waited, p1) \<Rightarrow>
           (case restoreAllLocked p1 of (es1, p2) \<Rightarrow>
              (case runLinuxPlan buildLinuxFirewallCleanup True p2 of (e2, p3) \<Rightarrow>
                 (case cleanup (p3\<lparr>lp_firewallReady := False\<rparr>) of (es4, p4) \<Rightarrow>
                    (errors_Join ((if waited then None else Some (Plain ''context deadline exceeded'')) #
                                  map Some es1 @ e2 # map Some es4),
                     p4\<lparr>lp_closed := True\<rparr>))))))"

definition startNativeProcess_linux :: "cgroup_controller \<Rightarrow> (int \<times> string) list \<Rightarrow> (int \<rightharpoonup> int) \<Rightarrow> io list \<Rightarrow> linux_process" where
  "startNativeProcess_linux c procs parents ios =
     \<lparr>lp_controller = c, lp_events = [], lp_closed = False, lp_alive = True, lp_firewallReady = False,
      lp_proxyUDPDNS = False, lp_diagnosticLogging = False, lp_proxyPort = 0, lp_targets = [], lp_assigned = [],
      lp_original = Map.empty, lp_world = procs, lp_parent = parents, lp_diagnostics = no_diagnostics,
      lp_ran = [], lp_io = ios\<rparr>"

section \<open>Lemmas\<close>

lemma lp_call_eq: "lp_call p = (fst (next_io (lp_io p)) = Done, p\<lparr>lp_io := snd (next_io (lp_io p))\<rparr>)"
  by (simp add: lp_call_def case_prod_unfold)

lemma lp_call_succeeds: "lp_io p = [] \<Longrightarrow> lp_call p = (True, p)"
  by (simp add: lp_call_eq)

lemma write_procs_keeps [simp]:
  "lp_controller (write_procs pid f p) = lp_controller p"
  "lp_events (write_procs pid f p) = lp_events p"
  "lp_closed (write_procs pid f p) = lp_closed p"
  "lp_alive (write_procs pid f p) = lp_alive p"
  "lp_firewallReady (write_procs pid f p) = lp_firewallReady p"
  "lp_proxyUDPDNS (write_procs pid f p) = lp_proxyUDPDNS p"
  "lp_diagnosticLogging (write_procs pid f p) = lp_diagnosticLogging p"
  "lp_proxyPort (write_procs pid f p) = lp_proxyPort p"
  "lp_targets (write_procs pid f p) = lp_targets p"
  "lp_assigned (write_procs pid f p) = lp_assigned p"
  "lp_original (write_procs pid f p) = lp_original p"
  "lp_parent (write_procs pid f p) = lp_parent p"
  "lp_diagnostics (write_procs pid f p) = lp_diagnostics p"
  "lp_ran (write_procs pid f p) = lp_ran p"
  "lp_io (write_procs pid f p) = lp_io p"
  by (simp_all add: write_procs_def)

lemma write_procs_map_fst [simp]: "map fst (lp_world (write_procs pid f p)) = map fst (lp_world p)"
  by (simp add: write_procs_def case_prod_unfold if_distrib [of fst] cong: if_cong)

lemma write_procs_pids [simp]: "fst ` set (lp_world (write_procs pid f p)) = fst ` set (lp_world p)"
  by (metis write_procs_map_fst set_map)

lemma processExists_write [simp]: "processExists (write_procs pid f p) q = processExists p q"
  by (simp add: processExists_def)

lemma map_of_write_procs:
  "map_of (lp_world (write_procs pid f p)) q =
     (if q = pid \<and> processExists p pid then Some f else map_of (lp_world p) q)"
proof -
  have "map_of (map (\<lambda>(q, g). if q = pid then (q, f) else (q, g)) w) q =
      (if q = pid \<and> pid \<in> fst ` set w then Some f else map_of w q)" for w
    by (induction w) force+
  then show ?thesis by (simp add: write_procs_def processExists_def)
qed

text \<open>
  What the router keeps: every assigned process has a place to go back to, which is outside the
  managed cgroups, and assignments and targets name routing groups.
\<close>

definition controller_ok :: "cgroup_controller \<Rightarrow> bool" where
  "controller_ok c \<longleftrightarrow> \<not> has_prefix (root_procs c) (cc_managedRoot c @ ''/'')"

definition lp_inv :: "linux_process \<Rightarrow> bool" where
  "lp_inv p \<longleftrightarrow>
     controller_ok (lp_controller p) \<and> distinct (map fst (lp_assigned p)) \<and>
     (\<forall>(pid, g) \<in> set (lp_assigned p). lp_original p pid \<noteq> None \<and> g \<in> set linuxRoutingGroups) \<and>
     (\<forall>t \<in> set (lp_targets p). lt_group t \<in> set linuxRoutingGroups) \<and>
     (\<forall>pid f. lp_original p pid = Some f \<longrightarrow> f \<noteq> [] \<and> \<not> has_prefix f (cc_managedRoot (lp_controller p) @ ''/'')) \<and>
     distinct (map fst (lp_world p)) \<and> (\<forall>(pid, f) \<in> set (lp_world p). f \<noteq> [])"

lemma lp_inv_cong:
  assumes "lp_inv p" and "lp_controller q = lp_controller p" and "lp_assigned q = lp_assigned p"
    and "lp_original q = lp_original p" and "lp_targets q = lp_targets p" and "lp_world q = lp_world p"
  shows "lp_inv q"
  using assms by (simp add: lp_inv_def)

lemma target_group_valid:
  "target_group ts pr = Some g \<Longrightarrow> \<forall>t \<in> set ts. lt_group t \<in> set linuxRoutingGroups \<Longrightarrow> g \<in> set linuxRoutingGroups"
  by (induction ts) (auto split: if_splits)

lemma root_procs_ne [simp]: "root_procs c \<noteq> []" "group_procs c g \<noteq> []"
  by (simp_all add: root_procs_def group_procs_def)

lemma write_procs_inv: "lp_inv p \<Longrightarrow> f \<noteq> [] \<Longrightarrow> lp_inv (write_procs pid f p)"
proof -
  assume i: "lp_inv p" and f: "f \<noteq> []"
  have "\<forall>(q, g) \<in> set (lp_world (write_procs pid f p)). g \<noteq> []"
    using i f by (force simp: write_procs_def lp_inv_def split: if_splits)
  then show ?thesis using i write_procs_map_fst [of pid f p] unfolding lp_inv_def by simp
qed

lemma io_inv [simp]: "lp_inv (p\<lparr>lp_io := ios\<rparr>) = lp_inv p" "lp_inv (p\<lparr>lp_diagnostics := d\<rparr>) = lp_inv p"
  "lp_inv (p\<lparr>lp_ran := cs\<rparr>) = lp_inv p"
  by (simp_all add: lp_inv_def)

lemma restoreProcessLocked_inv: "lp_inv p \<Longrightarrow> lp_inv (snd (restoreProcessLocked pid p))"
proof -
  assume i: "lp_inv p"
  let ?p1 = "p\<lparr>lp_assigned := AList.delete pid (lp_assigned p), lp_original := (lp_original p)(pid := None)\<rparr>"
  have "lp_inv ?p1"
    using i by (auto simp: lp_inv_def AList.delete_eq distinct_map inj_on_def split: if_splits)
  then show ?thesis
    by (auto simp: restoreProcessLocked_def Let_def lp_call_eq intro: write_procs_inv split: option.splits)
qed

lemma track_inv: "lp_inv p \<Longrightarrow> lp_inv (snd (track pid p))"
proof -
  assume i: "lp_inv p"
  have inh: "inheritedOriginalCgroup p pid \<noteq> [] \<and> \<not> has_prefix (inheritedOriginalCgroup p pid) (cc_managedRoot (lp_controller p) @ ''/'')"
    using i by (auto simp: inheritedOriginalCgroup_def lp_inv_def controller_ok_def split: option.splits)
  have w: "map_of (lp_world p) pid = Some f \<Longrightarrow> f \<noteq> []" for f using i by (auto simp: lp_inv_def dest: map_of_SomeD)
  have io: "inheritedOriginalCgroup (p\<lparr>lp_io := ios\<rparr>) pid = inheritedOriginalCgroup p pid" for ios
    by (simp add: inheritedOriginalCgroup_def split: option.split)
  have upd: "lp_inv (p\<lparr>lp_io := ios, lp_original := (lp_original p)(pid \<mapsto> f)\<rparr>)"
    if "f \<noteq> []" "\<not> has_prefix f (cc_managedRoot (lp_controller p) @ ''/'')" for ios f
    using i that by (auto simp: lp_inv_def)
  show ?thesis
    using i upd inh w by (auto simp: track_def processCgroup_def lp_call_eq io Let_def split: option.splits)
qed

lemma track_tracked: "fst (track pid p) = None \<Longrightarrow> lp_original (snd (track pid p)) pid \<noteq> None"
  by (auto simp: track_def processCgroup_def lp_call_eq Let_def split: option.splits if_splits)

lemma track_keeps [simp]:
  "lp_controller (snd (track pid p)) = lp_controller p"
  "lp_events (snd (track pid p)) = lp_events p"
  "lp_closed (snd (track pid p)) = lp_closed p"
  "lp_alive (snd (track pid p)) = lp_alive p"
  "lp_firewallReady (snd (track pid p)) = lp_firewallReady p"
  "lp_proxyUDPDNS (snd (track pid p)) = lp_proxyUDPDNS p"
  "lp_diagnosticLogging (snd (track pid p)) = lp_diagnosticLogging p"
  "lp_proxyPort (snd (track pid p)) = lp_proxyPort p"
  "lp_targets (snd (track pid p)) = lp_targets p"
  "lp_assigned (snd (track pid p)) = lp_assigned p"
  "lp_world (snd (track pid p)) = lp_world p"
  "lp_parent (snd (track pid p)) = lp_parent p"
  "lp_diagnostics (snd (track pid p)) = lp_diagnostics p"
  "lp_ran (snd (track pid p)) = lp_ran p"
  by (simp_all add: track_def processCgroup_def lp_call_eq Let_def split: option.split)

lemma move_keeps [simp]:
  "lp_controller (snd (move pid g p)) = lp_controller p"
  "lp_events (snd (move pid g p)) = lp_events p"
  "lp_closed (snd (move pid g p)) = lp_closed p"
  "lp_alive (snd (move pid g p)) = lp_alive p"
  "lp_firewallReady (snd (move pid g p)) = lp_firewallReady p"
  "lp_proxyUDPDNS (snd (move pid g p)) = lp_proxyUDPDNS p"
  "lp_diagnosticLogging (snd (move pid g p)) = lp_diagnosticLogging p"
  "lp_proxyPort (snd (move pid g p)) = lp_proxyPort p"
  "lp_targets (snd (move pid g p)) = lp_targets p"
  "lp_assigned (snd (move pid g p)) = lp_assigned p"
  "lp_original (snd (move pid g p)) = lp_original p"
  "lp_parent (snd (move pid g p)) = lp_parent p"
  "lp_diagnostics (snd (move pid g p)) = lp_diagnostics p"
  "lp_ran (snd (move pid g p)) = lp_ran p"
  by (simp_all add: move_def lp_call_eq split: option.split)

lemma move_inv: "lp_inv p \<Longrightarrow> lp_inv (snd (move pid g p))"
  by (auto simp: move_def lp_call_eq intro: write_procs_inv split: option.splits)

lemma set_AList_update: "x \<in> set (AList.update k v xs) \<Longrightarrow> x = (k, v) \<or> x \<in> set xs"
  by (induction xs) (auto split: if_splits)

lemma assign_inv:
  assumes "lp_inv p" and "lp_original p pid \<noteq> None" and "g \<in> set linuxRoutingGroups"
  shows "lp_inv (p\<lparr>lp_assigned := AList.update pid g (lp_assigned p)\<rparr>)"
  using assms unfolding lp_inv_def
  by (auto simp: distinct_update dest!: set_AList_update)

lemma targetGroup_valid: "lp_inv p \<Longrightarrow> targetGroup p pr = Some g \<Longrightarrow> g \<in> set linuxRoutingGroups"
  unfolding targetGroup_def by (rule target_group_valid) (auto simp: lp_inv_def)

lemma scan_one_inv: "lp_inv p \<Longrightarrow> lp_inv (snd (snd (scan_one now pr p)))"
proof -
  assume i: "lp_inv p"
  show ?thesis
  proof (cases "targetGroup p pr")
    case None
    then show ?thesis using i restoreProcessLocked_inv by (simp add: scan_one_def Let_def case_prod_unfold)
  next
    case (Some g)
    let ?p1 = "snd (track (ls_pid pr) p)"
    let ?p2 = "snd (move (ls_pid pr) g ?p1)"
    have i1: "lp_inv ?p1" using i by (rule track_inv)
    have i2: "lp_inv ?p2" using i1 by (rule move_inv)
    have i3: "lp_inv (?p2\<lparr>lp_assigned := AList.update (ls_pid pr) g (lp_assigned ?p2)\<rparr>)"
      if "fst (track (ls_pid pr) p) = None"
      using i2 track_tracked [OF that] targetGroup_valid [OF i Some] by (intro assign_inv) simp_all
    show ?thesis
      using Some i i1 i2 i3 by (simp add: scan_one_def Let_def case_prod_unfold split: option.split)
  qed
qed

lemma scan_loop_inv: "lp_inv p \<Longrightarrow> lp_inv (snd (snd (scan_loop now prs p)))"
proof (induction prs arbitrary: p)
  case (Cons pr prs)
  then show ?case using scan_one_inv [of p now pr] by (simp add: case_prod_unfold)
qed simp

lemma apply_inv: "lp_inv p \<Longrightarrow> lp_inv (snd (applyProcessSnapshotLocked now prs p))"
proof -
  assume "lp_inv p"
  then have i: "lp_inv (snd (snd (scan_loop now prs p)))" by (rule scan_loop_inv)
  show ?thesis
    using i unfolding applyProcessSnapshotLocked_def Let_def case_prod_unfold snd_conv lp_inv_def
    by (auto simp: distinct_map_filter image_iff)
qed

lemma run_keeps [simp]:
  "lp_controller (snd (runLinuxCommand c p)) = lp_controller p"
  "lp_events (snd (runLinuxCommand c p)) = lp_events p"
  "lp_closed (snd (runLinuxCommand c p)) = lp_closed p"
  "lp_alive (snd (runLinuxCommand c p)) = lp_alive p"
  "lp_firewallReady (snd (runLinuxCommand c p)) = lp_firewallReady p"
  "lp_proxyUDPDNS (snd (runLinuxCommand c p)) = lp_proxyUDPDNS p"
  "lp_diagnosticLogging (snd (runLinuxCommand c p)) = lp_diagnosticLogging p"
  "lp_proxyPort (snd (runLinuxCommand c p)) = lp_proxyPort p"
  "lp_targets (snd (runLinuxCommand c p)) = lp_targets p"
  "lp_assigned (snd (runLinuxCommand c p)) = lp_assigned p"
  "lp_original (snd (runLinuxCommand c p)) = lp_original p"
  "lp_world (snd (runLinuxCommand c p)) = lp_world p"
  "lp_parent (snd (runLinuxCommand c p)) = lp_parent p"
  "lp_diagnostics (snd (runLinuxCommand c p)) = lp_diagnostics p"
  by (simp_all add: runLinuxCommand_def lp_call_eq)

lemma plan_keeps [simp]:
  "lp_controller (snd (runLinuxPlan cs ign p)) = lp_controller p"
  "lp_events (snd (runLinuxPlan cs ign p)) = lp_events p"
  "lp_closed (snd (runLinuxPlan cs ign p)) = lp_closed p"
  "lp_alive (snd (runLinuxPlan cs ign p)) = lp_alive p"
  "lp_firewallReady (snd (runLinuxPlan cs ign p)) = lp_firewallReady p"
  "lp_proxyUDPDNS (snd (runLinuxPlan cs ign p)) = lp_proxyUDPDNS p"
  "lp_diagnosticLogging (snd (runLinuxPlan cs ign p)) = lp_diagnosticLogging p"
  "lp_proxyPort (snd (runLinuxPlan cs ign p)) = lp_proxyPort p"
  "lp_targets (snd (runLinuxPlan cs ign p)) = lp_targets p"
  "lp_assigned (snd (runLinuxPlan cs ign p)) = lp_assigned p"
  "lp_original (snd (runLinuxPlan cs ign p)) = lp_original p"
  "lp_world (snd (runLinuxPlan cs ign p)) = lp_world p"
  "lp_parent (snd (runLinuxPlan cs ign p)) = lp_parent p"
  "lp_diagnostics (snd (runLinuxPlan cs ign p)) = lp_diagnostics p"
  by (induction cs arbitrary: p) (cases ign; simp add: case_prod_unfold split: option.split)+

lemma rebuild_keeps [simp]:
  "lp_controller (snd (rebuildFirewallLocked port dns p)) = lp_controller p"
  "lp_events (snd (rebuildFirewallLocked port dns p)) = lp_events p"
  "lp_closed (snd (rebuildFirewallLocked port dns p)) = lp_closed p"
  "lp_alive (snd (rebuildFirewallLocked port dns p)) = lp_alive p"
  "lp_diagnosticLogging (snd (rebuildFirewallLocked port dns p)) = lp_diagnosticLogging p"
  "lp_targets (snd (rebuildFirewallLocked port dns p)) = lp_targets p"
  "lp_assigned (snd (rebuildFirewallLocked port dns p)) = lp_assigned p"
  "lp_original (snd (rebuildFirewallLocked port dns p)) = lp_original p"
  "lp_world (snd (rebuildFirewallLocked port dns p)) = lp_world p"
  "lp_parent (snd (rebuildFirewallLocked port dns p)) = lp_parent p"
  "lp_diagnostics (snd (rebuildFirewallLocked port dns p)) = lp_diagnostics p"
  by (simp_all add: rebuildFirewallLocked_def Let_def case_prod_unfold split: option.split)

lemma emit_keeps [simp]:
  "lp_controller (emitLocked ev msg p) = lp_controller p"
  "lp_closed (emitLocked ev msg p) = lp_closed p"
  "lp_alive (emitLocked ev msg p) = lp_alive p"
  "lp_firewallReady (emitLocked ev msg p) = lp_firewallReady p"
  "lp_proxyUDPDNS (emitLocked ev msg p) = lp_proxyUDPDNS p"
  "lp_diagnosticLogging (emitLocked ev msg p) = lp_diagnosticLogging p"
  "lp_proxyPort (emitLocked ev msg p) = lp_proxyPort p"
  "lp_targets (emitLocked ev msg p) = lp_targets p"
  "lp_assigned (emitLocked ev msg p) = lp_assigned p"
  "lp_original (emitLocked ev msg p) = lp_original p"
  "lp_world (emitLocked ev msg p) = lp_world p"
  "lp_parent (emitLocked ev msg p) = lp_parent p"
  "lp_diagnostics (emitLocked ev msg p) = lp_diagnostics p"
  "lp_ran (emitLocked ev msg p) = lp_ran p"
  "lp_io (emitLocked ev msg p) = lp_io p"
  by (simp_all add: emitLocked_def)

lemma build_targets_valid: "build_targets U rs = Inr ts \<Longrightarrow> t \<in> set ts \<Longrightarrow> lt_group t \<in> set linuxRoutingGroups"
  by (induction rs arbitrary: ts)
    (auto simp: Let_def validateLinuxRoutingGroup_def split: if_splits sum.splits)

lemma Send_inv: "lp_inv p \<Longrightarrow> lp_inv (snd (Send U now snapshot command p))"
proof -
  assume i: "lp_inv p"
  let ?need = "\<not> lp_firewallReady p \<or> lp_proxyUDPDNS p \<noteq> nc_ProxyUDPDNS command \<or> lp_proxyPort p \<noteq> np_Port (nc_Proxy command)"
  define b where "b = (if ?need then rebuildFirewallLocked (np_Port (nc_Proxy command)) (nc_ProxyUDPDNS command) p else (None, p))"
  have b: "lp_inv (snd b)" by (rule lp_inv_cong [OF i]) (simp_all add: b_def)
  have e: "lp_inv (emitLocked ev msg q)" if "lp_inv q" for ev msg q by (rule lp_inv_cong [OF that]) simp_all
  have t: "lp_inv ((snd b)\<lparr>lp_targets := ts, lp_diagnosticLogging := d\<rparr>)" if "build_targets U (nc_Rules command) = Inr ts" for ts d
    using b build_targets_valid [OF that] by (simp add: lp_inv_def)
  show ?thesis
    unfolding Send_def b_def [symmetric]
    using i b e t apply_inv by (simp add: case_prod_unfold Let_def split: option.split sum.split)
qed

lemma monitor_tick_inv: "lp_inv p \<Longrightarrow> lp_inv (monitor_tick now snapshot p)"
  using apply_inv by (simp add: monitor_tick_def case_prod_unfold split: option.split)

subsection \<open>When every call succeeds\<close>

lemma restore_pids_all:
  assumes "lp_io p = []" and "distinct pids"
  shows "fst (restore_pids pids p) = [] \<and> lp_io (snd (restore_pids pids p)) = [] \<and>
     lp_controller (snd (restore_pids pids p)) = lp_controller p \<and>
     lp_assigned (snd (restore_pids pids p)) = filter (\<lambda>(q, _). q \<notin> set pids) (lp_assigned p) \<and>
     lp_alive (snd (restore_pids pids p)) = lp_alive p \<and>
     lp_world (snd (restore_pids pids p)) =
       map (\<lambda>(q, f). (q, if q \<in> set pids then (case lp_original p q of Some t \<Rightarrow> if t = [] then f else t | None \<Rightarrow> f) else f)) (lp_world p)"
  using assms
proof (induction pids arbitrary: p)
  case Nil
  then show ?case by (simp add: case_prod_unfold)
next
  case (Cons pid pids)
  let ?p1 = "snd (restoreProcessLocked pid p)"
  have 1: "fst (restoreProcessLocked pid p) = None" "lp_io ?p1 = []" "lp_controller ?p1 = lp_controller p"
      "lp_assigned ?p1 = filter (\<lambda>(q, _). pid \<noteq> q) (lp_assigned p)" "lp_original ?p1 = (lp_original p)(pid := None)"
      "lp_alive ?p1 = lp_alive p"
    using Cons.prems(1)
    by (simp_all add: restoreProcessLocked_def Let_def lp_call_succeeds AList.delete_eq case_prod_unfold)
  have w: "lp_world ?p1 = map (\<lambda>(q, f). (q, if q = pid then (case lp_original p q of Some t \<Rightarrow> if t = [] then f else t | None \<Rightarrow> f) else f)) (lp_world p)"
    using Cons.prems(1)
    by (auto simp: restoreProcessLocked_def Let_def lp_call_succeeds write_procs_def processExists_def rev_image_eqI
             split: option.splits if_splits intro!: map_idI [symmetric])
  have IH: "fst (restore_pids pids ?p1) = [] \<and> lp_io (snd (restore_pids pids ?p1)) = [] \<and>
     lp_controller (snd (restore_pids pids ?p1)) = lp_controller ?p1 \<and>
     lp_assigned (snd (restore_pids pids ?p1)) = filter (\<lambda>(q, _). q \<notin> set pids) (lp_assigned ?p1) \<and>
     lp_alive (snd (restore_pids pids ?p1)) = lp_alive ?p1 \<and>
     lp_world (snd (restore_pids pids ?p1)) =
       map (\<lambda>(q, f). (q, if q \<in> set pids then (case lp_original ?p1 q of Some t \<Rightarrow> if t = [] then f else t | None \<Rightarrow> f) else f)) (lp_world ?p1)"
    using Cons.IH [OF 1(2)] Cons.prems(2) by simp
  have "filter (\<lambda>(q, _). q \<notin> set pids) (filter (\<lambda>(q, _). pid \<noteq> q) (lp_assigned p)) =
      filter (\<lambda>(q, _). q \<notin> set (pid # pids)) (lp_assigned p)"
    by (auto simp: case_prod_unfold intro: filter_cong)
  moreover have "map (\<lambda>(q, f). (q, if q \<in> set pids then (case lp_original ?p1 q of Some t \<Rightarrow> if t = [] then f else t | None \<Rightarrow> f) else f)) (lp_world ?p1) =
      map (\<lambda>(q, f). (q, if q \<in> set (pid # pids) then (case lp_original p q of Some t \<Rightarrow> if t = [] then f else t | None \<Rightarrow> f) else f)) (lp_world p)"
    unfolding w 1(5) using Cons.prems(2) by (auto split: option.splits)
  ultimately show ?case using IH 1 by (simp add: case_prod_unfold)
qed

lemma plan_io: "lp_io p = [] \<Longrightarrow> fst (runLinuxPlan cs ign p) = None \<and> lp_io (snd (runLinuxPlan cs ign p)) = []"
  by (induction cs arbitrary: p) (simp_all add: runLinuxCommand_def lp_call_succeeds)

lemma write_all_ok:
  assumes "lp_io p = []"
  shows "fst (write_all pids path p) = [] \<and> lp_io (snd (write_all pids path p)) = [] \<and>
     lp_controller (snd (write_all pids path p)) = lp_controller p \<and>
     lp_assigned (snd (write_all pids path p)) = lp_assigned p \<and> lp_alive (snd (write_all pids path p)) = lp_alive p \<and>
     lp_world (snd (write_all pids path p)) = map (\<lambda>(q, f). (q, if q \<in> set pids then path else f)) (lp_world p)"
  using assms
proof (induction pids arbitrary: p)
  case (Cons pid pids)
  have "lp_io (write_procs pid path p) = []" using Cons.prems by simp
  from Cons.IH [OF this] show ?case
    using Cons.prems by (auto simp: lp_call_succeeds case_prod_unfold write_procs_def)
qed (simp add: case_prod_unfold)

lemma group_procs_managed: "has_prefix (group_procs c g) (cc_managedRoot c @ ''/'')"
  by (simp add: has_prefix_def group_procs_def)

lemma root_not_group: "controller_ok c \<Longrightarrow> root_procs c \<noteq> group_procs c g"
  using group_procs_managed [of c g] by (metis controller_ok_def)

lemma restoreUntracked_ok:
  assumes "lp_io p = []" and "distinct (map fst (lp_world p))"
  shows "fst (restoreUntrackedProcesses g p) = [] \<and> lp_io (snd (restoreUntrackedProcesses g p)) = [] \<and>
     lp_controller (snd (restoreUntrackedProcesses g p)) = lp_controller p \<and>
     lp_assigned (snd (restoreUntrackedProcesses g p)) = lp_assigned p \<and>
     lp_world (snd (restoreUntrackedProcesses g p)) =
       map (\<lambda>(q, f). (q, if f = group_procs (lp_controller p) g then root_procs (lp_controller p) else f)) (lp_world p)"
proof -
  let ?in = "\<lambda>(pid, f). f = group_procs (lp_controller p) g"
  have iff: "q \<in> set (map fst (filter ?in (lp_world p))) \<longleftrightarrow> f = group_procs (lp_controller p) g" if "(q, f) \<in> set (lp_world p)" for q f
    using that assms(2) by (force simp: distinct_map inj_on_def)
  have "map (\<lambda>(q, f). (q, if q \<in> set (map fst (filter ?in (lp_world p))) then root_procs (lp_controller p) else f)) (lp_world p) =
      map (\<lambda>(q, f). (q, if f = group_procs (lp_controller p) g then root_procs (lp_controller p) else f)) (lp_world p)"
    using iff by (intro map_cong refl) (auto simp del: set_map)
  then show ?thesis
    using write_all_ok [OF assms(1), of "map fst (filter ?in (lp_world p))" "root_procs (lp_controller p)"]
    by (simp add: restoreUntrackedProcesses_def lp_call_succeeds [OF assms(1)] del: set_map)
qed

lemma cleanup_groups_ok:
  assumes "lp_io p = []" and "distinct (map fst (lp_world p))" and "controller_ok (lp_controller p)"
  shows "fst (cleanup_groups gs p) = [] \<and> lp_io (snd (cleanup_groups gs p)) = [] \<and>
     lp_controller (snd (cleanup_groups gs p)) = lp_controller p \<and>
     lp_assigned (snd (cleanup_groups gs p)) = lp_assigned p \<and>
     lp_world (snd (cleanup_groups gs p)) =
       map (\<lambda>(q, f). (q, if f \<in> group_procs (lp_controller p) ` set gs then root_procs (lp_controller p) else f)) (lp_world p)"
  using assms
proof (induction gs arbitrary: p)
  case Nil
  then show ?case by (simp add: case_prod_unfold)
next
  case (Cons g gs)
  let ?p1 = "snd (restoreUntrackedProcesses g p)"
  note 1 = restoreUntracked_ok [OF Cons.prems(1,2), of g]
  have d: "distinct (map fst (lp_world ?p1))" using 1 Cons.prems(2) by (simp add: case_prod_unfold comp_def)
  have IH: "fst (cleanup_groups gs ?p1) = [] \<and> lp_io (snd (cleanup_groups gs ?p1)) = [] \<and>
     lp_controller (snd (cleanup_groups gs ?p1)) = lp_controller ?p1 \<and> lp_assigned (snd (cleanup_groups gs ?p1)) = lp_assigned ?p1 \<and>
     lp_world (snd (cleanup_groups gs ?p1)) =
       map (\<lambda>(q, f). (q, if f \<in> group_procs (lp_controller ?p1) ` set gs then root_procs (lp_controller ?p1) else f)) (lp_world ?p1)"
    using Cons.IH [OF _ d] 1 Cons.prems(3) by simp
  show ?case
    using 1 IH root_not_group [OF Cons.prems(3)]
    by (auto simp: lp_call_succeeds case_prod_unfold)
qed

lemma cleanup_ok:
  assumes "lp_io p = []" and "distinct (map fst (lp_world p))" and "controller_ok (lp_controller p)"
  shows "fst (cleanup p) = [] \<and> lp_assigned (snd (cleanup p)) = lp_assigned p \<and> lp_alive (snd (cleanup p)) = lp_alive (snd (cleanup p)) \<and>
     lp_world (snd (cleanup p)) =
       map (\<lambda>(q, f). (q, if f \<in> group_procs (lp_controller p) ` set linuxRoutingGroups then root_procs (lp_controller p) else f)) (lp_world p)"
  using cleanup_groups_ok [OF assms, of "rev linuxRoutingGroups"]
  by (simp add: cleanup_def lp_call_succeeds runLinuxCommand_def case_prod_unfold)

text \<open>Where a process ends up when the router stops.\<close>

definition home :: "linux_process \<Rightarrow> int \<Rightarrow> string \<Rightarrow> string" where
  "home p pid f =
     (if pid \<in> fst ` set (lp_assigned p) then the (lp_original p pid)
      else if f \<in> group_procs (lp_controller p) ` set linuxRoutingGroups then root_procs (lp_controller p) else f)"

lemma Stop_world:
  assumes inv: "lp_inv p" and io: "lp_io p = []" and alive: "lp_alive p"
  shows "fst (Stop p) = None \<and> lp_assigned (snd (Stop p)) = [] \<and>
     lp_world (snd (Stop p)) = map (\<lambda>(q, f). (q, home p q f)) (lp_world p)"
proof -
  let ?c = "lp_controller p"
  let ?pids = "map fst (lp_assigned p)"
  let ?p1 = "p\<lparr>lp_alive := False\<rparr>"
  let ?p2 = "snd (restoreAllLocked ?p1)"
  let ?p3 = "snd (runLinuxPlan buildLinuxFirewallCleanup True ?p2)"
  let ?p3' = "?p3\<lparr>lp_firewallReady := False\<rparr>"
  have d: "distinct ?pids" "distinct (map fst (lp_world p))" "controller_ok ?c" using inv by (auto simp: lp_inv_def)
  have r: "fst (restoreAllLocked ?p1) = []" "lp_io ?p2 = []" "lp_controller ?p2 = ?c"
      "lp_assigned ?p2 = filter (\<lambda>(q, _). q \<notin> set ?pids) (lp_assigned p)"
      "lp_world ?p2 = map (\<lambda>(q, f). (q, if q \<in> set ?pids then (case lp_original p q of Some t \<Rightarrow> if t = [] then f else t | None \<Rightarrow> f) else f)) (lp_world p)"
    using restore_pids_all [of ?p1 ?pids] io d(1) by (simp_all add: restoreAllLocked_def cong: if_cong)
  have a: "lp_assigned ?p2 = []" unfolding r(4) by (force simp: filter_empty_conv)
  have i3: "lp_io ?p3' = []" using plan_io [OF r(2), of buildLinuxFirewallCleanup True] by simp
  have e3: "fst (runLinuxPlan buildLinuxFirewallCleanup True ?p2) = None" using plan_io [OF r(2)] by blast
  have w3: "lp_world ?p3' = lp_world ?p2" "lp_controller ?p3' = ?c" "lp_assigned ?p3' = []" using r(3) a by simp_all
  have d3: "distinct (map fst (lp_world ?p3'))" unfolding w3 r(5) using d(2) by (simp add: case_prod_unfold comp_def)
  note cl = cleanup_ok [OF i3 d3, unfolded w3, OF d(3)]
  have orig: "\<exists>t. lp_original p q = Some t \<and> t \<noteq> [] \<and> t \<notin> group_procs ?c ` set linuxRoutingGroups" if "q \<in> set ?pids" for q
  proof -
    obtain g where "(q, g) \<in> set (lp_assigned p)" using \<open>q \<in> set ?pids\<close> by auto
    then obtain t where "lp_original p q = Some t" using inv by (fastforce simp: lp_inv_def)
    moreover from this have "t \<noteq> []" "\<not> has_prefix t (cc_managedRoot ?c @ ''/'')" using inv by (auto simp: lp_inv_def)
    ultimately show ?thesis using group_procs_managed [of ?c] by auto
  qed
  let ?G = "group_procs ?c ` set linuxRoutingGroups"
  let ?returned = "\<lambda>q f. if q \<in> set ?pids then (case lp_original p q of Some t \<Rightarrow> if t = [] then f else t | None \<Rightarrow> f) else f"
  have point: "(if ?returned q f \<in> ?G then root_procs ?c else ?returned q f) = home p q f" for q f
  proof (cases "q \<in> set ?pids")
    case True
    from orig [OF True] True show ?thesis by (auto simp: home_def)
  qed (simp add: home_def)
  have "lp_world (snd (cleanup ?p3')) = map (\<lambda>(q, f). (q, if f \<in> ?G then root_procs ?c else f)) (map (\<lambda>(q, f). (q, ?returned q f)) (lp_world p))"
    using cl unfolding r(5) by blast
  then have "lp_world (snd (cleanup ?p3')) = map (\<lambda>(q, f). (q, home p q f)) (lp_world p)"
    by (simp only: map_map comp_def case_prod_unfold fst_conv snd_conv point)
  moreover have "Stop p = (None, (snd (cleanup ?p3'))\<lparr>lp_closed := True\<rparr>)"
    using alive io r(1) e3 cl
    by (simp add: Stop_def lp_call_succeeds case_prod_unfold errors_Join_def map_filter_simps)
  ultimately show ?thesis using cl by simp
qed

subsection \<open>Scanning when every call succeeds\<close>

lemma restoreProcessLocked_ok:
  "lp_io p = [] \<Longrightarrow> fst (restoreProcessLocked pid p) = None \<and> lp_io (snd (restoreProcessLocked pid p)) = [] \<and>
     lp_targets (snd (restoreProcessLocked pid p)) = lp_targets p \<and>
     lp_controller (snd (restoreProcessLocked pid p)) = lp_controller p \<and>
     lp_assigned (snd (restoreProcessLocked pid p)) = AList.delete pid (lp_assigned p) \<and>
     (\<forall>q. processExists (snd (restoreProcessLocked pid p)) q = processExists p q)"
  by (auto simp: restoreProcessLocked_def Let_def lp_call_succeeds processExists_def [of "_\<lparr>lp_assigned := _\<rparr>"]
           processExists_def [of "_\<lparr>lp_assigned := _, lp_original := _\<rparr>"] processExists_def split: option.splits)

lemma track_ok:
  "lp_io p = [] \<Longrightarrow> processExists p pid \<Longrightarrow> fst (track pid p) = None \<and> lp_io (snd (track pid p)) = []"
  by (auto simp: track_def processCgroup_def lp_call_succeeds processExists_def Let_def map_of_eq_None_iff split: option.splits)

lemma move_ok:
  "lp_io p = [] \<Longrightarrow> g \<in> set linuxRoutingGroups \<Longrightarrow>
     move pid g p = (None, write_procs pid (group_procs (lp_controller p) g) p)"
  by (simp add: move_def validateLinuxRoutingGroup_def lp_call_succeeds)

lemma scan_one_ok:
  assumes inv: "lp_inv p" and io: "lp_io p = []" and ex: "processExists p (ls_pid pr)"
  shows "fst (scan_one now pr p) = None \<and> lp_io (snd (snd (scan_one now pr p))) = [] \<and>
     lp_targets (snd (snd (scan_one now pr p))) = lp_targets p \<and>
     lp_controller (snd (snd (scan_one now pr p))) = lp_controller p \<and>
     (\<forall>q. processExists (snd (snd (scan_one now pr p))) q = processExists p q) \<and>
     map_of (lp_assigned (snd (snd (scan_one now pr p)))) (ls_pid pr) = targetGroup p pr \<and>
     (\<forall>q. q \<noteq> ls_pid pr \<longrightarrow> map_of (lp_assigned (snd (snd (scan_one now pr p)))) q = map_of (lp_assigned p) q)"
proof (cases "targetGroup p pr")
  case None
  then show ?thesis
    using restoreProcessLocked_ok [OF io, of "ls_pid pr"] io
    by (auto simp: scan_one_def Let_def case_prod_unfold delete_conv)
next
  case (Some g)
  let ?p1 = "snd (track (ls_pid pr) p)"
  have g: "g \<in> set linuxRoutingGroups" by (rule targetGroup_valid [OF inv Some])
  have t: "fst (track (ls_pid pr) p) = None" "lp_io ?p1 = []" using track_ok [OF io ex] by auto
  note m = move_ok [OF t(2) g, of "ls_pid pr"]
  have same: "processExists ?p1 q = processExists p q" for q by (simp add: processExists_def)
  show ?thesis
  proof (cases "map_of (lp_assigned p) (ls_pid pr) = Some g")
    case True
    then show ?thesis using Some io by (simp add: scan_one_def Let_def)
  next
    case False
    have ex': "processExists (q\<lparr>lp_assigned := a\<rparr>) r = processExists q r"
        "processExists (q\<lparr>lp_assigned := a, lp_diagnostics := d\<rparr>) r = processExists q r" for q a d r
      by (simp_all add: processExists_def)
    show ?thesis
      using Some False t m same ex'
      by (simp add: scan_one_def Let_def case_prod_unfold update_conv')
  qed
qed

lemma scan_loop_ok:
  assumes "lp_inv p" and "lp_io p = []" and "\<forall>pr \<in> set prs. processExists p (ls_pid pr)" and "distinct (map ls_pid prs)"
  shows "fst (scan_loop now prs p) = [] \<and>
     (\<forall>pr \<in> set prs. map_of (lp_assigned (snd (snd (scan_loop now prs p)))) (ls_pid pr) = targetGroup p pr) \<and>
     (\<forall>q. processExists (snd (snd (scan_loop now prs p))) q = processExists p q) \<and>
     (\<forall>q. q \<notin> ls_pid ` set prs \<longrightarrow> map_of (lp_assigned (snd (snd (scan_loop now prs p)))) q = map_of (lp_assigned p) q)"
  using assms
proof (induction prs arbitrary: p)
  case (Cons pr prs)
  let ?p1 = "snd (snd (scan_one now pr p))"
  note 1 = scan_one_ok [OF Cons.prems(1,2), of pr now]
  have ex: "processExists p (ls_pid pr)" using Cons.prems(3) by simp
  have tg: "targetGroup ?p1 x = targetGroup p x" for x using 1 [OF ex] by (simp add: targetGroup_def)
  have IH: "fst (scan_loop now prs ?p1) = [] \<and>
     (\<forall>x \<in> set prs. map_of (lp_assigned (snd (snd (scan_loop now prs ?p1)))) (ls_pid x) = targetGroup ?p1 x) \<and>
     (\<forall>q. processExists (snd (snd (scan_loop now prs ?p1))) q = processExists ?p1 q) \<and>
     (\<forall>q. q \<notin> ls_pid ` set prs \<longrightarrow> map_of (lp_assigned (snd (snd (scan_loop now prs ?p1)))) q = map_of (lp_assigned ?p1) q)"
    using Cons.IH [OF scan_one_inv [OF Cons.prems(1)], of now pr] 1 [OF ex] Cons.prems(3,4) by auto
  have "ls_pid pr \<notin> ls_pid ` set prs" using Cons.prems(4) by auto
  then show ?case using IH 1 [OF ex] tg by (auto simp: case_prod_unfold)
qed simp

lemma map_of_filter_keys: "pid \<notin> G \<Longrightarrow> map_of (filter (\<lambda>(q, _). q \<notin> G) xs) pid = map_of xs pid"
  by (induction xs) auto

lemma plan_ran_all: "lp_ran (snd (runLinuxPlan cs True p)) = lp_ran p @ cs"
  by (induction cs arbitrary: p) (simp_all add: runLinuxCommand_def lp_call_eq case_prod_unfold split: option.split)

lemma next_io_tl: "snd (next_io xs) = tl xs"
  by (cases xs) simp_all

lemma plan_drops_io: "lp_io (snd (runLinuxPlan cs True p)) = drop (length cs) (lp_io p)"
  by (induction cs arbitrary: p)
    (simp_all add: runLinuxCommand_def lp_call_eq case_prod_unfold next_io_tl drop_Suc split: option.split)

lemma cleanup_length: "length buildLinuxFirewallCleanup = 34"
  by (simp add: buildLinuxFirewallCleanup_def cleanup_tables_def cleanup_items_def)

lemma plan_first_fails: "lp_io p = Fails # ios \<Longrightarrow> fst (runLinuxPlan (c # cs) False p) \<noteq> None"
  by (simp add: runLinuxCommand_def lp_call_eq)

lemma rebuild_fails_iff:
  "fst (rebuildFirewallLocked port dns p) = None \<longleftrightarrow>
     fst (runLinuxPlan (setup_only (cc_mode (lp_controller p)) port dns) False
       (snd (runLinuxPlan buildLinuxFirewallCleanup True p))) = None"
  by (simp add: rebuildFirewallLocked_def buildLinuxFirewallSetup_def Let_def case_prod_unfold split: option.split)

lemma plan_ran_prefix: "\<exists>k. lp_ran (snd (runLinuxPlan cs False p)) = lp_ran p @ take k cs \<and>
    (fst (runLinuxPlan cs False p) = None \<longrightarrow> k = length cs)"
proof (induction cs arbitrary: p)
  case (Cons c cs)
  let ?p1 = "snd (runLinuxCommand c p)"
  have r: "lp_ran ?p1 = lp_ran p @ [c]" by (simp add: runLinuxCommand_def lp_call_eq)
  show ?case
  proof (cases "fst (runLinuxCommand c p)")
    case None
    obtain k where "lp_ran (snd (runLinuxPlan cs False ?p1)) = lp_ran ?p1 @ take k cs"
        "fst (runLinuxPlan cs False ?p1) = None \<longrightarrow> k = length cs" using Cons by blast
    then show ?thesis using None r by (intro exI [of _ "Suc k"]) (simp add: case_prod_unfold)
  next
    case (Some e)
    then show ?thesis using r by (intro exI [of _ 1]) (simp add: case_prod_unfold)
  qed
qed simp

subsection \<open>Reachable states\<close>

text \<open>Commands and scans in any order; the rest of the system starts, ends and moves processes at will.\<close>

inductive lp_reach :: "unicode \<Rightarrow> linux_process \<Rightarrow> bool" for U where
  start: "controller_ok c \<Longrightarrow> distinct (map fst procs) \<Longrightarrow> \<forall>(pid, f) \<in> set procs. f \<noteq> [] \<Longrightarrow>
     lp_reach U (startNativeProcess_linux c procs parents ios)"
| send: "lp_reach U p \<Longrightarrow> lp_reach U (snd (Send U now snapshot command p))"
| tick: "lp_reach U p \<Longrightarrow> lp_reach U (monitor_tick now snapshot p)"
| environment: "lp_reach U p \<Longrightarrow> distinct (map fst procs) \<Longrightarrow> \<forall>(pid, f) \<in> set procs. f \<noteq> [] \<Longrightarrow>
     lp_reach U (p\<lparr>lp_world := procs, lp_parent := parents\<rparr>)"

lemma lp_reach_inv: "lp_reach U p \<Longrightarrow> lp_inv p"
proof (induction rule: lp_reach.induct)
  case (start c procs parents ios)
  then show ?case by (simp add: lp_inv_def startNativeProcess_linux_def)
next
  case (environment p procs parents)
  then show ?case by (simp add: lp_inv_def)
qed (simp_all add: Send_inv monitor_tick_inv)

definition toy_controller :: cgroup_controller where
  "toy_controller = \<lparr>cc_mode = linuxCgroupV2, cc_mountPoint = ''/c'', cc_managedRoot = ''/c/k'', cc_mountedV1 = False\<rparr>"

definition toy_command :: router_command where
  "toy_command = \<lparr>nc_Version = 1, nc_Command = ''replace_rules'', nc_Proxy = \<lparr>np_Host = ''127.0.0.1'', np_Port = 7894\<rparr>,
     nc_FailClosed = True, nc_ProxyUDPDNS = False, nc_DiagnosticLogging = False,
     nc_Rules = [\<lparr>nr_ProcessPattern = ''/b/curl'', nr_MatchKind = [], nr_Protocol = ''TCP'', nr_Action = ''BLOCK'', nr_Enabled = True, nr_Priority = 1\<rparr>]\<rparr>"

definition toy_linux :: linux_process where
  "toy_linux = (startNativeProcess_linux toy_controller [(7, ''/c/u/cgroup.procs'')] Map.empty [])
     \<lparr>lp_targets := [\<lparr>lt_matchKind = [], lt_pattern = ''/b/curl'', lt_group = ''block-tcp''\<rparr>], lp_firewallReady := True, lp_proxyPort := 7894\<rparr>"

section \<open>Properties\<close>

text \<open>
  C20. The invariant of the Linux router: whatever commands and scans ran, whatever calls failed and
  whatever processes came, went or were moved, every assigned process has a recorded place to go back
  to, none of these places lies in the managed cgroups, and assignments name routing groups.
\<close>

theorem linux_router_invariant:
  assumes "lp_reach U p"
  shows "lp_inv p"
  using assms by (rule lp_reach_inv)

theorem linux_router_invariant_witness:
  "lp_inv (monitor_tick [] (Some [\<lparr>ls_pid = 7, ls_executablePath = ''/b/curl'', ls_executableName = ''curl''\<rparr>])
     (snd (Send ascii_only [] None toy_command (startNativeProcess_linux toy_controller [(7, ''/c/u/cgroup.procs'')] Map.empty [Done, Fails]))))"
  by (rule linux_router_invariant [where U = ascii_only], rule lp_reach.tick, rule lp_reach.send, rule lp_reach.start)
    (simp_all add: controller_ok_def toy_controller_def root_procs_def has_prefix_def)

text \<open>
  A scan puts every process where its rule says: when the calls succeed, each process of the
  snapshot is assigned to the group of the first rule that names it, and to none when no rule does.
\<close>

theorem scan_assigns:
  assumes "lp_inv p" and "lp_io p = []" and "\<forall>pr \<in> set prs. processExists p (ls_pid pr)" and "distinct (map ls_pid prs)"
  shows "fst (applyProcessSnapshotLocked now prs p) = [] \<and>
     (\<forall>pr \<in> set prs. map_of (lp_assigned (snd (applyProcessSnapshotLocked now prs p))) (ls_pid pr) = targetGroup p pr)"
proof -
  let ?p1 = "snd (snd (scan_loop now prs p))"
  let ?G = "{pid \<in> fst ` set (lp_assigned ?p1). pid \<notin> set (fst (snd (scan_loop now prs p))) \<and> \<not> processExists ?p1 pid}"
  note ok = scan_loop_ok [OF assms, of now]
  have a: "lp_assigned (snd (applyProcessSnapshotLocked now prs p)) = filter (\<lambda>(q, _). q \<notin> ?G) (lp_assigned ?p1)"
    by (auto simp: applyProcessSnapshotLocked_def Let_def case_prod_unfold intro!: filter_cong)
  have "map_of (lp_assigned (snd (applyProcessSnapshotLocked now prs p))) (ls_pid pr) = targetGroup p pr" if "pr \<in> set prs" for pr
  proof -
    have "ls_pid pr \<notin> ?G" using ok assms(3) that by auto
    then have "map_of (filter (\<lambda>(q, _). q \<notin> ?G) (lp_assigned ?p1)) (ls_pid pr) = map_of (lp_assigned ?p1) (ls_pid pr)"
      by (rule map_of_filter_keys)
    moreover have "map_of (lp_assigned ?p1) (ls_pid pr) = targetGroup p pr" using ok that by blast
    ultimately show ?thesis unfolding a by (rule trans)
  qed
  then show ?thesis using ok by (simp add: applyProcessSnapshotLocked_def Let_def case_prod_unfold)
qed

theorem scan_assigns_witness:
  "map_of (lp_assigned (snd (applyProcessSnapshotLocked []
     [\<lparr>ls_pid = 7, ls_executablePath = ''/b/curl'', ls_executableName = ''curl''\<rparr>] toy_linux))) 7 = Some ''block-tcp''"
proof -
  let ?prs = "[\<lparr>ls_pid = 7, ls_executablePath = ''/b/curl'', ls_executableName = ''curl''\<rparr>]"
  have "lp_inv toy_linux"
    by (simp add: lp_inv_def toy_linux_def startNativeProcess_linux_def toy_controller_def controller_ok_def
        root_procs_def has_prefix_def linuxRoutingGroups_def)
  from scan_assigns [OF this, of ?prs "[]"] show ?thesis
    by (simp add: toy_linux_def startNativeProcess_linux_def processExists_def targetGroup_def matchProcessName_def)
qed

text \<open>
  Stopping gives every process back: when the calls succeed, \<open>Stop\<close> leaves each assigned process
  that still exists in the cgroup it came from, moves any other process out of the managed cgroups,
  leaves all others alone, and forgets every assignment.
\<close>

theorem Stop_restores:
  assumes "lp_reach U p" and "lp_io p = []" and "lp_alive p"
  shows "fst (Stop p) = None \<and> lp_assigned (snd (Stop p)) = [] \<and>
     lp_world (snd (Stop p)) = map (\<lambda>(q, f). (q, home p q f)) (lp_world p) \<and>
     list_all (\<lambda>(q, f). f \<notin> group_procs (lp_controller p) ` set linuxRoutingGroups) (lp_world (snd (Stop p)))"
proof -
  have inv: "lp_inv p" using assms(1) by (rule lp_reach_inv)
  have "home p q f \<notin> group_procs (lp_controller p) ` set linuxRoutingGroups" for q f
  proof (cases "q \<in> fst ` set (lp_assigned p)")
    case True
    then obtain g where "(q, g) \<in> set (lp_assigned p)" by auto
    then obtain t where t: "lp_original p q = Some t" using inv by (fastforce simp: lp_inv_def)
    then have "\<not> has_prefix t (cc_managedRoot (lp_controller p) @ ''/'')" using inv by (auto simp: lp_inv_def)
    then show ?thesis using True t group_procs_managed [of "lp_controller p"] by (auto simp: home_def)
  next
    case False
    then show ?thesis using root_not_group inv by (auto simp: home_def lp_inv_def)
  qed
  then show ?thesis using Stop_world [OF inv assms(2,3)] by (auto simp: list_all_iff)
qed

theorem Stop_restores_witness:
  "lp_world (snd (Stop (startNativeProcess_linux toy_controller [(7, ''/c/k/block-tcp/cgroup.procs'')] Map.empty []))) =
     [(7, ''/c/cgroup.procs'')]"
proof -
  let ?p = "startNativeProcess_linux toy_controller [(7, ''/c/k/block-tcp/cgroup.procs'')] Map.empty []"
  have "lp_reach ascii_only ?p"
    by (rule lp_reach.start) (simp_all add: controller_ok_def toy_controller_def root_procs_def has_prefix_def)
  from Stop_restores [OF this] show ?thesis
    by (simp add: startNativeProcess_linux_def home_def toy_controller_def group_procs_def root_procs_def linuxRoutingGroups_def)
qed

text \<open>
  A firewall that cannot be installed is taken down again: when a command of the setup fails, the
  whole cleanup plan runs after the commands that did run, and the firewall is not reported as ready.
\<close>

theorem rebuild_failure_cleans:
  assumes "fst (rebuildFirewallLocked port dns p) \<noteq> None"
  shows "\<not> lp_firewallReady (snd (rebuildFirewallLocked port dns p)) \<and>
     (\<exists>k. lp_ran (snd (rebuildFirewallLocked port dns p)) =
        lp_ran p @ buildLinuxFirewallCleanup @ take k (setup_only (cc_mode (lp_controller p)) port dns) @ buildLinuxFirewallCleanup)"
proof -
  let ?p1 = "snd (runLinuxPlan buildLinuxFirewallCleanup True p)"
  let ?plan = "setup_only (cc_mode (lp_controller p)) port dns"
  obtain k where "lp_ran (snd (runLinuxPlan ?plan False ?p1)) = lp_ran ?p1 @ take k ?plan"
    using plan_ran_prefix by blast
  then show ?thesis
    using assms
    by (auto simp: rebuildFirewallLocked_def buildLinuxFirewallSetup_def Let_def case_prod_unfold plan_ran_all split: option.splits)
qed

theorem rebuild_failure_cleans_witness:
  "\<not> lp_firewallReady (snd (rebuildFirewallLocked 7894 True
     (startNativeProcess_linux toy_controller [] Map.empty (replicate 34 Done @ [Fails]))))"
proof -
  let ?p = "startNativeProcess_linux toy_controller [] Map.empty (replicate 34 Done @ [Fails])"
  let ?p1 = "snd (runLinuxPlan buildLinuxFirewallCleanup True ?p)"
  have "lp_io ?p1 = [Fails]" by (simp add: plan_drops_io cleanup_length startNativeProcess_linux_def)
  then have "fst (runLinuxPlan (setup_only m port dns) False ?p1) \<noteq> None" for m port dns
    using plan_first_fails by (simp add: setup_only_def setup_binary_def setup_chains_def del: runLinuxPlan.simps)
  then have "fst (rebuildFirewallLocked 7894 True ?p) \<noteq> None"
    by (simp add: rebuild_fails_iff)
  from rebuild_failure_cleans [OF this] show ?thesis by blast
qed

end
