(* ===== verification/Core_Launch.thy ===== *)
theory Core_Launch
  imports Kokoro_Prelude "HOL-Library.AList"
begin

text \<open>
  How the proxy core is launched (\<open>core/launch.go\<close>, with \<open>core/security/binary_unix.go\<close>,
  \<open>core/controller/endpoint_unix.go\<close>, \<open>core/startup_notify_unix.go\<close>, \<open>core/startup_notify_command_unix.go\<close>,
  \<open>core/file_access.go\<close> and \<open>identity\<close>): the launch profile that a client sends, its normalisation and its
  file, and the session that is prepared from it: the executable with safe permissions, the private
  controller endpoint, the start-up hook, the arguments and the environment. The platform is Unix.
\<close>

section \<open>Definitions\<close>

text \<open>
  A Go map is an association list with distinct keys, in the order in which the runtime iterates it.
  \<open>Stat\<close> knows four answers.
\<close>

type_synonym go_map = "(string \<times> string) list"

datatype stat_answer = NotExist | StatFails | Directory | Regular

record launch_profile =
  lp_CorePath :: string
  lp_Mode :: string
  lp_Args :: "string list"
  lp_SafePaths :: "string list"
  lp_Env :: go_map
  lp_Priority :: string
  lp_LogPath :: string
  lp_SaveLogs :: "bool option"
  lp_MaxLogFileSizeMB :: int

record launch_patch =
  pa_Mode :: "string option"
  pa_LogPath :: "string option"
  pa_SaveLogs :: "bool option"
  pa_MaxLogFileSizeMB :: "int option"

definition CoreRunModeAuto :: string where "CoreRunModeAuto = ''auto''"
definition CoreRunModeSandbox :: string where "CoreRunModeSandbox = ''sandbox''"
definition CoreRunModeDirect :: string where "CoreRunModeDirect = ''direct''"

definition zero_profile :: launch_profile where
  "zero_profile = \<lparr>lp_CorePath = [], lp_Mode = [], lp_Args = [], lp_SafePaths = [], lp_Env = [], lp_Priority = [], lp_LogPath = [],
     lp_SaveLogs = None, lp_MaxLogFileSizeMB = 0\<rparr>"

text \<open>
  The machine as the launch code sees it: the environment of the service, the working directory, the
  answers of \<open>Stat\<close>, the permission bits, the file of the profile, and the temporary directories that
  exist, by number.
\<close>

record launch_world =
  lw_env :: "string \<Rightarrow> string option"
  lw_cwd :: "string option"
  lw_stat :: "string \<Rightarrow> stat_answer"
  lw_perm :: "string \<Rightarrow> 32 word"
  lw_executable :: string
  lw_profile :: "launch_profile store"
  lw_dirs :: "nat list"
  lw_nextDir :: nat
  lw_io :: "io list"

definition lw_call :: "launch_world \<Rightarrow> io \<times> launch_world" where
  "lw_call w = (case next_io (lw_io w) of (r, ios) \<Rightarrow> (r, w\<lparr>lw_io := ios\<rparr>))"

definition os_Getenv :: "launch_world \<Rightarrow> string \<Rightarrow> string" where
  "os_Getenv w k = (case lw_env w k of None \<Rightarrow> [] | Some v \<Rightarrow> v)"

definition identity_Environment :: "launch_world \<Rightarrow> string \<Rightarrow> string \<Rightarrow> string" where
  "identity_Environment w currentName legacyName =
     (if os_Getenv w currentName \<noteq> [] then os_Getenv w currentName else os_Getenv w legacyName)"

subsection \<open>Arguments\<close>

definition coreArgName :: "string \<Rightarrow> string \<times> bool" where
  "coreArgName arg =
     (if \<not> has_prefix arg ''-'' \<or> arg = ''-'' then ([], False)
      else let trimmed = dropWhile (\<lambda>c. c = CHR ''-'') arg in
           if trimmed = [] then ([], False)
           else (case strings_Cut trimmed (CHR ''='') of (name, _, _) \<Rightarrow> (name, name \<noteq> [])))"

fun validateCoreArgs_from :: "nat \<Rightarrow> string list \<Rightarrow> err option" where
  "validateCoreArgs_from i [] = None"
| "validateCoreArgs_from i (arg # args) =
     (if arg = [] then Some (Plainf ''Launch argument is empty'' [format_nat i])
      else if arg = ''--'' then Some (Plain ''-- would truncate service-managed launch arguments and cannot be supplied by the client'')
      else (case coreArgName arg of (name, ok) \<Rightarrow>
          if \<not> ok then validateCoreArgs_from (Suc i) args
          else if name = ''post-up'' \<or> name = ''post-down'' then Some (Plainf ''managed by the service and cannot be supplied by the client'' [name])
          else if name = ''t'' \<or> name = ''v'' then Some (Plainf ''not a runtime launch argument'' [name])
          else validateCoreArgs_from (Suc i) args))"

definition validateCoreArgs :: "string list \<Rightarrow> err option" where
  "validateCoreArgs args = validateCoreArgs_from 0 args"

definition isControllerArg :: "string \<Rightarrow> bool" where
  "isControllerArg arg =
     (case coreArgName arg of (name, ok) \<Rightarrow> ok \<and> (name = ''ext-ctl'' \<or> name = ''ext-ctl-pipe'' \<or> name = ''ext-ctl-unix''))"

fun stripControllerArgs :: "string list \<Rightarrow> string list" where
  "stripControllerArgs [] = []"
| "stripControllerArgs [arg] = (if isControllerArg arg then [] else [arg])"
| "stripControllerArgs (arg # next # args) =
     (if isControllerArg arg then
        (if CHR ''='' \<notin> set arg then stripControllerArgs args else stripControllerArgs (next # args))
      else arg # stripControllerArgs (next # args))"

fun workingDir_loop :: "string \<Rightarrow> string list \<Rightarrow> string" where
  "workingDir_loop wd [] = wd"
| "workingDir_loop wd [arg] = (if has_prefix arg ''-d='' then drop 3 arg else wd)"
| "workingDir_loop wd (arg # next # args) =
     (if arg = ''-d'' then workingDir_loop next args
      else if has_prefix arg ''-d='' then workingDir_loop (drop 3 arg) (next # args)
      else workingDir_loop wd (next # args))"

definition resolveLaunchWorkingDir :: "string option \<Rightarrow> string \<Rightarrow> string list \<Rightarrow> string res" where
  "resolveLaunchWorkingDir cwd corePath args =
     (let workingDir = trim_space (workingDir_loop (path_Dir corePath) args) in
      if workingDir = [] then Inl (Plain ''Core working directory cannot be empty'')
      else if \<not> path_IsAbs workingDir then
        (case path_Abs cwd workingDir of
           Inl e \<Rightarrow> Inl (Wrapped ''Failed to resolve core working directory'' e)
         | Inr absPath \<Rightarrow> Inr (path_Clean absPath))
      else Inr (path_Clean workingDir))"

subsection \<open>The profile\<close>

definition isZeroLaunchProfile :: "launch_profile \<Rightarrow> bool" where
  "isZeroLaunchProfile p =
     (lp_CorePath p = [] \<and> (lp_Mode p = [] \<or> lp_Mode p = CoreRunModeAuto) \<and> lp_Priority p = [] \<and> lp_LogPath p = [] \<and>
      lp_SaveLogs p = None \<and> lp_MaxLogFileSizeMB p = 0 \<and> lp_Args p = [] \<and> lp_SafePaths p = [] \<and> lp_Env p = [])"

text \<open>\<open>int\<close> has 64 bits here, and \<open>int64(mb) * 1024 * 1024\<close> wraps around.\<close>

definition maxLogFileSizeBytes :: "int \<Rightarrow> int" where
  "maxLogFileSizeBytes mb = sint (word_of_int ((if mb \<le> 0 then 20 else mb) * 1024 * 1024) :: 64 word)"

definition resolveCoreExecutablePath :: "launch_world \<Rightarrow> string \<Rightarrow> bool \<Rightarrow> string res" where
  "resolveCoreExecutablePath w rawPath allowEnv =
     (let path0 = trim_space rawPath;
          path = (if path0 = [] \<and> allowEnv then trim_space (identity_Environment w ''KOKOROBOX_CORE_PATH'' ''SPARKLE_CORE_PATH'') else path0)
      in if path = [] then Inl (Plain ''Core path is not configured'')
         else (case (if path_IsAbs path then Inr path else path_Abs (lw_cwd w) path) of
             Inl e \<Rightarrow> Inl (Wrapped ''Failed to resolve core path'' e)
           | Inr p \<Rightarrow>
               (case lw_stat w p of
                  Regular \<Rightarrow> Inr p
                | Directory \<Rightarrow> Inl (Plainf ''Core path points to a directory, not an executable'' [p])
                | StatFails \<Rightarrow> Inl (Wrapped ''Failed to check core path'' SysErr)
                | NotExist \<Rightarrow> Inl (Plainf ''Core executable does not exist'' [p]))))"

fun normalize_safe_paths :: "string option \<Rightarrow> string list \<Rightarrow> string list res" where
  "normalize_safe_paths cwd [] = Inr []"
| "normalize_safe_paths cwd (p # ps) =
     (let t = trim_space p in
      if t = [] then normalize_safe_paths cwd ps
      else (case path_Abs cwd t of
          Inl e \<Rightarrow> Inl (Wrapped ''Failed to resolve trusted path'' e)
        | Inr a \<Rightarrow> (case normalize_safe_paths cwd ps of Inl e \<Rightarrow> Inl e | Inr as \<Rightarrow> Inr (a # as))))"

fun normalize_env :: "go_map \<Rightarrow> go_map \<Rightarrow> go_map res" where
  "normalize_env acc [] = Inr acc"
| "normalize_env acc ((k, v) # m) =
     (let key = trim_space k in
      if key = [] then Inl (Plain ''Environment variable name cannot be empty'') else normalize_env (AList.update key v acc) m)"

definition normalize_mode :: "unicode \<Rightarrow> string \<Rightarrow> string res" where
  "normalize_mode U mode =
     (let m = strings_ToLower U (trim_space mode); m' = (if m = [] then CoreRunModeAuto else m) in
      if m' \<in> {CoreRunModeAuto, CoreRunModeSandbox, CoreRunModeDirect} then Inr m' else Inl (Plain ''mode must be auto, sandbox, or direct''))"

definition normalize_log_path :: "string option \<Rightarrow> string \<Rightarrow> string res" where
  "normalize_log_path cwd path =
     (let t = trim_space path in
      if t = [] then Inr [] else (case path_Abs cwd t of Inl e \<Rightarrow> Inl (Wrapped ''Failed to resolve core log path'' e) | Inr a \<Rightarrow> Inr a))"

definition normalizeLaunchProfile :: "unicode \<Rightarrow> launch_world \<Rightarrow> launch_profile \<Rightarrow> launch_profile res" where
  "normalizeLaunchProfile U w p =
     (case normalize_mode U (lp_Mode p) of
        Inl e \<Rightarrow> Inl e
      | Inr mode \<Rightarrow>
          (case validateCoreArgs (lp_Args p) of
             Some e \<Rightarrow> Inl e
           | None \<Rightarrow>
               (case normalize_safe_paths (lw_cwd w) (lp_SafePaths p) of
                  Inl e \<Rightarrow> Inl e
                | Inr safePaths \<Rightarrow>
                    (case normalize_env [] (lp_Env p) of
                       Inl e \<Rightarrow> Inl e
                     | Inr env \<Rightarrow>
                         (case normalize_log_path (lw_cwd w) (lp_LogPath p) of
                            Inl e \<Rightarrow> Inl e
                          | Inr logPath \<Rightarrow>
                              let normalized = \<lparr>lp_CorePath = trim_space (lp_CorePath p), lp_Mode = mode, lp_Args = lp_Args p, lp_SafePaths = safePaths,
                                    lp_Env = env, lp_Priority = trim_space (lp_Priority p), lp_LogPath = logPath, lp_SaveLogs = lp_SaveLogs p,
                                    lp_MaxLogFileSizeMB = lp_MaxLogFileSizeMB p\<rparr>
                              in if isZeroLaunchProfile normalized then Inr normalized
                                 else if lp_CorePath normalized = [] then Inl (Plain ''core_path cannot be empty'')
                                 else (case resolveCoreExecutablePath w (lp_CorePath normalized) False of
                                     Inl e \<Rightarrow> Inl e
                                   | Inr corePath \<Rightarrow> Inr (normalized\<lparr>lp_CorePath := corePath\<rparr>)))))))"

definition LoadLaunchProfile :: "unicode \<Rightarrow> launch_world \<Rightarrow> launch_profile res \<times> launch_world" where
  "LoadLaunchProfile U w =
     (if lw_profile w = Absent then (Inr (zero_profile\<lparr>lp_Mode := CoreRunModeAuto\<rparr>), w)
      else (case lw_call w of (out, w1) \<Rightarrow>
          if out \<noteq> Done then (Inl (Wrapped ''Failed to read core launch configuration'' SysErr), w1)
          else (case lw_profile w of
              Stored p \<Rightarrow> (normalizeLaunchProfile U w1 p, w1)
            | _ \<Rightarrow> (Inl (Wrapped ''Failed to parse core launch configuration'' SysErr), w1))))"

text \<open>The directory is created; a temporary file is created, given its permissions, written, synced, closed and renamed.\<close>

definition SaveLaunchProfile :: "unicode \<Rightarrow> launch_profile \<Rightarrow> launch_world \<Rightarrow> err option \<times> launch_world" where
  "SaveLaunchProfile U p w =
     (case normalizeLaunchProfile U w p of
        Inl e \<Rightarrow> (Some e, w)
      | Inr normalized \<Rightarrow>
          if isZeroLaunchProfile normalized then
            (if lw_profile w = Absent then (None, w)
             else (case lw_call w of (out, w1) \<Rightarrow>
                 if out = Done then (None, w1\<lparr>lw_profile := Absent\<rparr>)
                 else (Some (Wrapped ''Failed to clean up core launch configuration'' SysErr), w1)))
          else (case lw_call w of (out1, w1) \<Rightarrow>
              if out1 \<noteq> Done then (Some (Wrapped ''Failed to create core configuration directory'' SysErr), w1)
              else (case lw_call w1 of (out2, w2) \<Rightarrow>
                  if out2 \<noteq> Done then (Some (Wrapped ''Failed to save core launch configuration'' SysErr), w2)
                  else (case run_ios 5 (lw_io w2) of
                      (False, ios) \<Rightarrow> (Some SysErr, w2\<lparr>lw_io := ios\<rparr>)
                    | (True, ios) \<Rightarrow> (None, w2\<lparr>lw_profile := Stored normalized, lw_io := ios\<rparr>)))))"

definition apply_patch :: "launch_patch \<Rightarrow> launch_profile \<Rightarrow> launch_profile" where
  "apply_patch patch p =
     (let p1 = (case pa_Mode patch of None \<Rightarrow> p | Some m \<Rightarrow> p\<lparr>lp_Mode := m\<rparr>);
          p2 = (case pa_LogPath patch of None \<Rightarrow> p1 | Some l \<Rightarrow> p1\<lparr>lp_LogPath := l\<rparr>);
          p3 = (case pa_SaveLogs patch of None \<Rightarrow> p2 | Some b \<Rightarrow> p2\<lparr>lp_SaveLogs := Some b\<rparr>)
      in case pa_MaxLogFileSizeMB patch of None \<Rightarrow> p3 | Some n \<Rightarrow> p3\<lparr>lp_MaxLogFileSizeMB := n\<rparr>)"

definition PatchLaunchProfile :: "unicode \<Rightarrow> launch_patch \<Rightarrow> launch_world \<Rightarrow> launch_profile res \<times> launch_world" where
  "PatchLaunchProfile U patch w =
     (case LoadLaunchProfile U w of
        (Inl e, w1) \<Rightarrow> (Inl e, w1)
      | (Inr p, w1) \<Rightarrow>
          (case SaveLaunchProfile U (apply_patch patch p) w1 of
             (Some e, w2) \<Rightarrow> (Inl e, w2)
           | (None, w2) \<Rightarrow> LoadLaunchProfile U w2))"

definition resolveLaunchProfile :: "unicode \<Rightarrow> launch_profile option \<Rightarrow> launch_world \<Rightarrow> launch_profile res \<times> launch_world" where
  "resolveLaunchProfile U profileOverride w =
     (case profileOverride of
        Some p \<Rightarrow> (normalizeLaunchProfile U w p, w)
      | None \<Rightarrow> LoadLaunchProfile U w)"

subsection \<open>The executable\<close>

definition removeGroupAndOtherWrite :: "string \<Rightarrow> launch_world \<Rightarrow> err option \<times> launch_world" where
  "removeGroupAndOtherWrite path w =
     (case lw_call w of (out, w1) \<Rightarrow>
        if out \<noteq> Done then (Some SysErr, w1)
        else if and (lw_perm w1 path) 0x12 = 0 then (None, w1)
        else (case lw_call w1 of (out2, w2) \<Rightarrow>
            if out2 \<noteq> Done then (Some SysErr, w2)
            else (None, w2\<lparr>lw_perm := (lw_perm w2)(path := and (lw_perm w1 path) (not 0x12))\<rparr>)))"

definition SecureBinary :: "string \<Rightarrow> launch_world \<Rightarrow> err option \<times> launch_world" where
  "SecureBinary corePath w =
     (if identity_Environment w ''KOKOROBOX_SKIP_CORE_ACL_HARDENING'' ''SPARKLE_SKIP_CORE_ACL_HARDENING'' = ''1'' then (None, w)
      else (case removeGroupAndOtherWrite (path_Dir corePath) w of
          (Some e, w1) \<Rightarrow> (Some (Wrapped ''Failed to secure core directory permissions'' e), w1)
        | (None, w1) \<Rightarrow>
            (case removeGroupAndOtherWrite corePath w1 of
               (Some e, w2) \<Rightarrow> (Some (Wrapped ''Failed to secure core file permissions'' e), w2)
             | (None, w2) \<Rightarrow> (None, w2))))"

definition PrepareBinary :: "string \<Rightarrow> launch_world \<Rightarrow> string res \<times> launch_world" where
  "PrepareBinary corePath w =
     (case SecureBinary corePath w of
        (Some e, w1) \<Rightarrow> (Inl e, w1)
      | (None, w1) \<Rightarrow> (Inr corePath, w1))"

subsection \<open>Temporary directories\<close>

definition mkdir_temp :: "launch_world \<Rightarrow> nat option \<times> launch_world" where
  "mkdir_temp w =
     (case lw_call w of (out, w1) \<Rightarrow>
        if out \<noteq> Done then (None, w1)
        else (Some (lw_nextDir w1), w1\<lparr>lw_dirs := lw_dirs w1 @ [lw_nextDir w1], lw_nextDir := lw_nextDir w1 + 1\<rparr>))"

definition remove_dir :: "nat \<Rightarrow> launch_world \<Rightarrow> launch_world" where
  "remove_dir d w = w\<lparr>lw_dirs := filter (\<lambda>x. x \<noteq> d) (lw_dirs w)\<rparr>"

definition dir_name :: "string \<Rightarrow> nat \<Rightarrow> string" where
  "dir_name prefix d = ''/tmp/'' @ prefix @ format_nat d"

text \<open>A call that gives up the directory \<open>d\<close> when it fails.\<close>

definition or_remove :: "nat \<Rightarrow> string \<Rightarrow> launch_world \<Rightarrow> err option \<times> launch_world" where
  "or_remove d message w =
     (case lw_call w of (out, w1) \<Rightarrow> if out = Done then (None, w1) else (Some (Wrapped message SysErr), remove_dir d w1))"

definition CreatePrivateEndpoint :: "launch_world \<Rightarrow> (string \<times> string \<times> nat) res \<times> launch_world" where
  "CreatePrivateEndpoint w =
     (case mkdir_temp w of
        (None, w1) \<Rightarrow> (Inl (Wrapped ''Failed to create core controller directory'' SysErr), w1)
      | (Some d, w1) \<Rightarrow>
          (case or_remove d ''Failed to set core controller directory permissions'' w1 of
             (Some e, w2) \<Rightarrow> (Inl e, w2)
           | (None, w2) \<Rightarrow> (Inr (''unix'', dir_name ''kokorobox-mihomo-controller-'' d @ ''/controller.sock'', d), w2)))"

definition configureManagedController :: "string list \<Rightarrow> launch_world \<Rightarrow> (string list \<times> string \<times> string \<times> nat) res \<times> launch_world" where
  "configureManagedController args w =
     (case CreatePrivateEndpoint w of
        (Inl e, w1) \<Rightarrow> (Inl e, w1)
      | (Inr (net, addr, d), w1) \<Rightarrow>
          let filteredArgs = stripControllerArgs args in
          if net = ''pipe'' then (Inr (''-ext-ctl-pipe'' # addr # filteredArgs, net, addr, d), w1)
          else if net = ''unix'' then (Inr (''-ext-ctl-unix'' # addr # filteredArgs, net, addr, d), w1)
          else (Inl (Plainf ''Unsupported core controller network'' [net]), remove_dir d w1))"

subsection \<open>The start-up hook\<close>

definition startupNotifyModeEnv :: string where "startupNotifyModeEnv = ''KOKOROBOX_CORE_STARTUP_NOTIFY''"
definition startupNotifyNetworkEnv :: string where "startupNotifyNetworkEnv = ''KOKOROBOX_CORE_STARTUP_NOTIFY_NETWORK''"
definition startupNotifyAddressEnv :: string where "startupNotifyAddressEnv = ''KOKOROBOX_CORE_STARTUP_NOTIFY_ADDRESS''"
definition startupNotifyTokenEnv :: string where "startupNotifyTokenEnv = ''KOKOROBOX_CORE_STARTUP_NOTIFY_TOKEN''"

definition startupNotificationEnv :: "string \<Rightarrow> string \<Rightarrow> string \<Rightarrow> go_map" where
  "startupNotificationEnv network address token =
     [(startupNotifyModeEnv, ''1''), (startupNotifyNetworkEnv, network), (startupNotifyAddressEnv, address), (startupNotifyTokenEnv, token)]"

text \<open>\<open>strings.ReplaceAll\<close> of the single quote.\<close>

definition shellQuote :: "string \<Rightarrow> string" where
  "shellQuote v = [CHR 0x27] @ concat (map (\<lambda>c. if c = CHR 0x27 then [CHR 0x27, CHR 0x5C, CHR 0x27, CHR 0x27] else [c]) v) @ [CHR 0x27]"

definition noopShellCommand :: string where "noopShellCommand = ''true''"

record startup_hook =
  sh_upFile :: string
  sh_postUpCommand :: string
  sh_postDownCommand :: string
  sh_env :: go_map
  sh_dir :: nat

text \<open>\<open>token\<close> is the random token. Closing the listener and removing the directory are one step.\<close>

definition createNativeStartupHook :: "string \<Rightarrow> launch_world \<Rightarrow> startup_hook res \<times> launch_world" where
  "createNativeStartupHook token w =
     (case mkdir_temp w of
        (None, w1) \<Rightarrow> (Inl (Wrapped ''Failed to create core startup notification directory'' SysErr), w1)
      | (Some d, w1) \<Rightarrow>
          (case or_remove d ''Failed to set core startup notification directory permissions'' w1 of
             (Some e, w2) \<Rightarrow> (Inl e, w2)
           | (None, w2) \<Rightarrow>
               (case or_remove d ''Failed to create core startup notification Unix socket'' w2 of
                  (Some e, w3) \<Rightarrow> (Inl e, w3)
                | (None, w3) \<Rightarrow>
                    (case or_remove d ''Failed to set core startup notification Unix socket permissions'' w3 of
                       (Some e, w4) \<Rightarrow> (Inl e, w4)
                     | (None, w4) \<Rightarrow>
                         (case or_remove d ''Failed to read service executable path'' w4 of
                            (Some e, w5) \<Rightarrow> (Inl e, w5)
                          | (None, w5) \<Rightarrow>
                              let socketPath = dir_name ''kokorobox-core-notify-'' d @ ''/'' @ token @ ''.sock'' in
                              (Inr \<lparr>sh_upFile = socketPath, sh_postUpCommand = shellQuote (lw_executable w5), sh_postDownCommand = noopShellCommand,
                                    sh_env = startupNotificationEnv ''unix'' socketPath token, sh_dir = d\<rparr>, w5))))))"

definition createCoreStartupHook :: "string \<Rightarrow> launch_world \<Rightarrow> startup_hook res \<times> launch_world" where
  "createCoreStartupHook token w =
     (case lw_call w of (out, w1) \<Rightarrow>
        if out \<noteq> Done then (Inl (Wrapped ''Failed to generate startup hook token'' SysErr), w1)
        else createNativeStartupHook token w1)"

subsection \<open>The environment\<close>

definition forced_env :: "launch_profile \<Rightarrow> go_map" where
  "forced_env p =
     [(''SAFE_PATHS'', strings_Join (lp_SafePaths p) '':''), (''SKIP_SAFE_PATH_CHECK'', ''false''), (''CLASH_CONFIG_STRING'', []),
      (''CLASH_HOME_DIR'', []), (''CLASH_CONFIG_FILE'', []), (''CLASH_OVERRIDE_EXTERNAL_UI_DIR'', []),
      (''CLASH_OVERRIDE_EXTERNAL_CONTROLLER'', []), (''CLASH_OVERRIDE_EXTERNAL_CONTROLLER_UNIX'', []),
      (''CLASH_OVERRIDE_EXTERNAL_CONTROLLER_PIPE'', []), (''CLASH_OVERRIDE_SECRET'', []), (''CLASH_POST_UP'', []), (''CLASH_POST_DOWN'', [])]"

definition maps_Copy :: "go_map \<Rightarrow> go_map \<Rightarrow> go_map" where
  "maps_Copy dst src = fold (\<lambda>(k, v) m. AList.update k v m) src dst"

definition ensureEssentialEnv :: "launch_world \<Rightarrow> go_map \<Rightarrow> go_map" where
  "ensureEssentialEnv w m =
     (if map_of m ''PATH'' \<noteq> None then m
      else (case lw_env w ''PATH'' of None \<Rightarrow> m | Some v \<Rightarrow> AList.update ''PATH'' v m))"

definition buildLaunchEnv :: "launch_world \<Rightarrow> launch_profile \<Rightarrow> go_map \<Rightarrow> string list" where
  "buildLaunchEnv w p managed =
     (let envMap = maps_Copy (maps_Copy (ensureEssentialEnv w (maps_Copy [] (lp_Env p))) (forced_env p)) managed
      in map (\<lambda>(k, v). k @ ''='' @ v) envMap)"

subsection \<open>The session\<close>

record file_access =
  fa_groupID :: "32 word"
  fa_ok :: bool

record launch_session =
  se_sourcePath :: string
  se_executablePath :: string
  se_workingDir :: string
  se_args :: "string list"
  se_env :: "string list"
  se_hookUpFile :: string
  se_cpuPriority :: string
  se_logPath :: string
  se_saveLogs :: bool
  se_maxLogBytes :: int
  se_fileAccess :: file_access
  se_controllerNet :: string
  se_controllerAddr :: string
  se_profile :: launch_profile
  se_dirs :: "nat list"

definition session_cleanup :: "launch_session \<Rightarrow> launch_world \<Rightarrow> launch_world" where
  "session_cleanup se w = fold remove_dir (se_dirs se) w"

definition prepareLaunchSession ::
  "unicode \<Rightarrow> string \<Rightarrow> launch_profile option \<Rightarrow> file_access \<Rightarrow> launch_world \<Rightarrow> launch_session res \<times> launch_world" where
  "prepareLaunchSession U token profileOverride access w =
     (case resolveLaunchProfile U profileOverride w of
        (Inl e, w1) \<Rightarrow> (Inl e, w1)
      | (Inr profile0, w1) \<Rightarrow>
          (case resolveCoreExecutablePath w1 (lp_CorePath profile0) True of
             Inl e \<Rightarrow> (Inl e, w1)
           | Inr corePath \<Rightarrow>
               let profile = profile0\<lparr>lp_CorePath := corePath\<rparr> in
               (case PrepareBinary corePath w1 of
                  (Inl e, w2) \<Rightarrow> (Inl e, w2)
                | (Inr executablePath, w2) \<Rightarrow>
                    (case createCoreStartupHook token w2 of
                       (Inl e, w3) \<Rightarrow> (Inl e, w3)
                     | (Inr hook, w3) \<Rightarrow>
                         (case configureManagedController (lp_Args profile) w3 of
                            (Inl e, w4) \<Rightarrow> (Inl e, remove_dir (sh_dir hook) w4)
                          | (Inr (args0, net, addr, d), w4) \<Rightarrow>
                              let args = [''-post-up'', sh_postUpCommand hook, ''-post-down'', sh_postDownCommand hook] @ args0 in
                              (case resolveLaunchWorkingDir (lw_cwd w4) corePath args of
                                 Inl e \<Rightarrow> (Inl e, remove_dir d (remove_dir (sh_dir hook) w4))
                               | Inr workingDir \<Rightarrow>
                                   (Inr \<lparr>se_sourcePath = corePath, se_executablePath = executablePath, se_workingDir = workingDir, se_args = args,
                                         se_env = buildLaunchEnv w4 profile (sh_env hook), se_hookUpFile = sh_upFile hook, se_cpuPriority = lp_Priority profile,
                                         se_logPath = lp_LogPath profile, se_saveLogs = (case lp_SaveLogs profile of None \<Rightarrow> True | Some b \<Rightarrow> b),
                                         se_maxLogBytes = maxLogFileSizeBytes (lp_MaxLogFileSizeMB profile), se_fileAccess = access,
                                         se_controllerNet = net, se_controllerAddr = addr, se_profile = profile, se_dirs = [d, sh_dir hook]\<rparr>, w4)))))))"

section \<open>Lemmas\<close>

subsection \<open>Arguments\<close>

lemma strip_args: "a \<in> set (stripControllerArgs args) \<Longrightarrow> a \<in> set args \<and> \<not> isControllerArg a"
  by (induction args rule: stripControllerArgs.induct) (auto split: if_splits)

definition client_arg_ok :: "string \<Rightarrow> bool" where
  "client_arg_ok a = (a \<noteq> [] \<and> a \<noteq> ''--'' \<and> \<not> (snd (coreArgName a) \<and> fst (coreArgName a) \<in> {''post-up'', ''post-down'', ''t'', ''v''}))"

lemma validate_from_ok: "validateCoreArgs_from i args = None \<longleftrightarrow> list_all client_arg_ok args"
proof (induction args arbitrary: i)
  case (Cons a args)
  then show ?case by (cases "coreArgName a") (simp add: client_arg_ok_def)
qed simp

lemma validate_ok: "validateCoreArgs args = None \<longleftrightarrow> list_all client_arg_ok args"
  by (simp add: validateCoreArgs_def validate_from_ok)

subsection \<open>Paths\<close>

definition plain_elem :: "string \<Rightarrow> bool" where
  "plain_elem e = (e \<noteq> [] \<and> e \<noteq> ''.'' \<and> e \<noteq> ''..'' \<and> CHR ''/'' \<notin> set e)"

lemma clean_elems_plain:
  "list_all plain_elem acc \<Longrightarrow> (\<forall>e \<in> set es. CHR ''/'' \<notin> set e) \<Longrightarrow> list_all plain_elem (clean_elems True acc es)"
proof (induction es arbitrary: acc)
  case (Cons e es)
  then show ?case by (cases acc) (auto simp: plain_elem_def)
qed (simp add: list_all_iff)

lemma clean_elems_id: "list_all plain_elem es \<Longrightarrow> clean_elems True acc es = rev acc @ es"
  by (induction es arbitrary: acc) (auto simp: plain_elem_def)

lemma clean_rooted:
  assumes "path_IsAbs p"
  obtains es where "path_Clean p = CHR ''/'' # strings_Join es ''/''" "list_all plain_elem es"
proof
  have p: "p \<noteq> []" "hd p = CHR ''/''" using assms by (cases p; simp add: path_IsAbs_def has_prefix_def)+
  let ?es = "clean_elems True [] (split_at CHR ''/'' p)"
  show "path_Clean p = CHR ''/'' # strings_Join ?es ''/''" using p by (simp add: path_Clean_def)
  show "list_all plain_elem ?es" by (rule clean_elems_plain) (auto dest: split_at_no_sep)
qed

lemma clean_of_plain:
  assumes "list_all plain_elem es"
  shows "path_Clean (CHR ''/'' # strings_Join es ''/'') = CHR ''/'' # strings_Join es ''/''"
proof (cases "es = []")
  case True
  then show ?thesis by (simp add: path_Clean_def)
next
  case False
  have "split_at CHR ''/'' (strings_Join es ''/'') = es"
    using False assms by (intro split_at_Join) (auto simp: list_all_iff plain_elem_def)
  then show ?thesis using clean_elems_id [OF assms, of "[]"] by (simp add: path_Clean_def)
qed

lemma clean_idem: "path_IsAbs p \<Longrightarrow> path_Clean (path_Clean p) = path_Clean p"
  using clean_of_plain by (metis clean_rooted)

lemma clean_abs: "path_IsAbs p \<Longrightarrow> path_IsAbs (path_Clean p)"
  by (erule clean_rooted) (simp add: path_IsAbs_def has_prefix_def)

text \<open>The working directory is an absolute path.\<close>

definition good_cwd :: "launch_world \<Rightarrow> bool" where
  "good_cwd w = (\<forall>d. lw_cwd w = Some d \<longrightarrow> path_IsAbs d)"

lemma abs_of_abs:
  assumes "path_Abs cwd p = Inr a" "\<forall>d. cwd = Some d \<longrightarrow> path_IsAbs d"
  shows "path_IsAbs a \<and> path_Abs cwd' a = Inr a"
proof -
  have "path_IsAbs d \<Longrightarrow> path_IsAbs (d @ ''/'' @ q)" for d q
    by (cases d) (auto simp: path_IsAbs_def has_prefix_def)
  then show ?thesis using assms clean_abs clean_idem
    by (auto simp: path_Abs_def split: if_splits option.splits)
qed

subsection \<open>Environments\<close>

definition env_name :: "string \<Rightarrow> string" where
  "env_name e = fst (strings_Cut e (CHR ''=''))"

lemma env_name_entry: "CHR ''='' \<notin> set k \<Longrightarrow> env_name (k @ ''='' @ v) = k"
  by (simp add: env_name_def strings_Cut_def takeWhile_append)

lemma entries_of:
  assumes "distinct (map fst m)" "\<And>x. x \<in> set m \<Longrightarrow> CHR ''='' \<notin> set (fst x)"
  shows "filter (\<lambda>e. env_name e = k) (map (\<lambda>(k, v). k @ ''='' @ v) m) = (case map_of m k of None \<Rightarrow> [] | Some v \<Rightarrow> [k @ ''='' @ v])"
  using assms
proof (induction m)
  case (Cons x m)
  obtain a b where x: "x = (a, b)" by fastforce
  have a: "CHR ''='' \<notin> set a" using Cons.prems(2) [of x] x by simp
  have "map_of m a = None" using Cons.prems(1) x by (auto simp: map_of_eq_None_iff)
  then show ?case using Cons x env_name_entry [OF a, of b] by (auto split: option.split)
qed simp

lemma copy_distinct: "distinct (map fst dst) \<Longrightarrow> distinct (map fst (maps_Copy dst src))"
  unfolding maps_Copy_def by (induction src arbitrary: dst) (auto simp: distinct_update)

lemma update_keys: "fst ` set (AList.update k v m) = insert k (fst ` set m)"
  by (induction m) auto

lemma copy_keys: "fst ` set (maps_Copy dst src) = fst ` set dst \<union> fst ` set src"
  unfolding maps_Copy_def by (induction src arbitrary: dst) (simp_all add: case_prod_unfold update_keys)

lemma copy_map_of: "distinct (map fst src) \<Longrightarrow> map_of (maps_Copy dst src) = map_of dst ++ map_of src"
proof -
  have "map_of (maps_Copy dst src) = fold (\<lambda>(k, v) f. f(k \<mapsto> v)) src (map_of dst)"
    unfolding maps_Copy_def by (induction src arbitrary: dst) (auto simp: update_conv')
  moreover have "distinct (map fst src) \<Longrightarrow> fold (\<lambda>(k, v) f. f(k \<mapsto> v)) src g = g ++ map_of src" for g
  proof (induction src arbitrary: g)
    case (Cons x src)
    obtain a b where x: "x = (a, b)" by fastforce
    have "map_of src a = None" using Cons.prems x by (auto simp: map_of_eq_None_iff)
    then show ?case using Cons x by (auto simp: map_add_def fun_eq_iff split: option.split)
  qed simp
  ultimately show "distinct (map fst src) \<Longrightarrow> ?thesis" by simp
qed

lemma normalize_env_distinct: "normalize_env acc m = Inr r \<Longrightarrow> distinct (map fst acc) \<Longrightarrow> distinct (map fst r)"
  by (induction acc m rule: normalize_env.induct) (auto simp: Let_def distinct_update split: if_splits)

lemma update_fresh: "k \<notin> fst ` set m \<Longrightarrow> AList.update k v m = m @ [(k, v)]"
  by (induction m) auto

lemma normalize_env_id:
  assumes "distinct (map fst (acc @ m))" "\<forall>k \<in> fst ` set m. trim_space k = k \<and> k \<noteq> []"
  shows "normalize_env acc m = Inr (acc @ m)"
  using assms
proof (induction m arbitrary: acc)
  case (Cons x m)
  obtain k v where x: "x = (k, v)" by fastforce
  have "k \<notin> fst ` set acc" using Cons.prems(1) x by auto
  then show ?case using Cons.IH [of "acc @ [(k, v)]"] Cons.prems x by (simp add: update_fresh Let_def)
qed simp

lemma normalize_env_trimmed:
  "normalize_env acc m = Inr r \<Longrightarrow> x \<in> fst ` set r \<Longrightarrow> x \<in> fst ` set acc \<or> (\<exists>k. x = trim_space k \<and> x \<noteq> [])"
proof (induction acc m rule: normalize_env.induct)
  case (2 acc k v m)
  then have ne: "trim_space k \<noteq> []" and "normalize_env (AList.update (trim_space k) v acc) m = Inr r"
    by (auto simp: Let_def split: if_splits)
  with 2 have "x \<in> fst ` set (AList.update (trim_space k) v acc) \<or> (\<exists>k. x = trim_space k \<and> x \<noteq> [])" by simp
  then show ?case using ne by (auto simp: update_keys)
qed simp

definition plain_keys :: "launch_profile \<Rightarrow> bool" where
  "plain_keys p = (\<forall>k \<in> fst ` set (lp_Env p). CHR ''='' \<notin> set k)"

lemma essential_keys: "fst ` set (ensureEssentialEnv w m) \<subseteq> insert ''PATH'' (fst ` set m)"
  by (auto simp: ensureEssentialEnv_def update_keys split: option.split)

lemma essential_distinct: "distinct (map fst m) \<Longrightarrow> distinct (map fst (ensureEssentialEnv w m))"
  by (simp add: ensureEssentialEnv_def distinct_update split: option.split)

lemma forced_distinct: "distinct (map fst (forced_env p))"
  by (simp add: forced_env_def)

lemma forced_keys: "k \<in> fst ` set (forced_env p) \<Longrightarrow> CHR ''='' \<notin> set k"
  by (auto simp: forced_env_def image_iff)

lemma notification_keys:
  "fst ` set (startupNotificationEnv n a t) = {startupNotifyModeEnv, startupNotifyNetworkEnv, startupNotifyAddressEnv, startupNotifyTokenEnv}"
  "distinct (map fst (startupNotificationEnv n a t))"
  by (simp_all add: startupNotificationEnv_def startupNotifyModeEnv_def startupNotifyNetworkEnv_def startupNotifyAddressEnv_def startupNotifyTokenEnv_def)

lemma notify_plain: "k \<in> fst ` set (startupNotificationEnv n a t) \<Longrightarrow> CHR ''='' \<notin> set k"
  unfolding notification_keys(1)
  by (auto simp: startupNotifyModeEnv_def startupNotifyNetworkEnv_def startupNotifyAddressEnv_def startupNotifyTokenEnv_def)

lemma forced_not_managed: "k \<in> fst ` set (forced_env p) \<Longrightarrow> k \<notin> fst ` set (startupNotificationEnv n a t)"
  unfolding notification_keys(1)
  by (auto simp: forced_env_def startupNotifyModeEnv_def startupNotifyNetworkEnv_def startupNotifyAddressEnv_def startupNotifyTokenEnv_def)

lemma launch_env_entries:
  assumes "plain_keys p" "distinct (map fst managed)" "\<And>k. k \<in> fst ` set managed \<Longrightarrow> CHR ''='' \<notin> set k"
  shows "(\<forall>(k, v) \<in> set managed. filter (\<lambda>e. env_name e = k) (buildLaunchEnv w p managed) = [k @ ''='' @ v]) \<and>
    (\<forall>(k, v) \<in> set (forced_env p). k \<notin> fst ` set managed \<longrightarrow> filter (\<lambda>e. env_name e = k) (buildLaunchEnv w p managed) = [k @ ''='' @ v])"
proof -
  let ?base = "ensureEssentialEnv w (maps_Copy [] (lp_Env p))"
  let ?mid = "maps_Copy ?base (forced_env p)" and ?full = "maps_Copy (maps_Copy (ensureEssentialEnv w (maps_Copy [] (lp_Env p))) (forced_env p)) managed"
  have d: "distinct (map fst ?full)" by (intro copy_distinct essential_distinct) simp
  have e0: "fst ` set ?base \<subseteq> insert ''PATH'' (fst ` set (lp_Env p))"
    using essential_keys [of w "maps_Copy [] (lp_Env p)"] by (simp add: copy_keys)
  have k: "CHR ''='' \<notin> set (fst x)" if "x \<in> set ?full" for x
  proof -
    have "fst x \<in> fst ` set ?full" using that by simp
    then have "fst x \<in> insert ''PATH'' (fst ` set (lp_Env p)) \<union> fst ` set (forced_env p) \<union> fst ` set managed"
      using e0 unfolding copy_keys by blast
    then show ?thesis using assms(1,3) forced_keys [of "fst x" p] unfolding plain_keys_def by fastforce
  qed
  have f: "filter (\<lambda>e. env_name e = k) (buildLaunchEnv w p managed) = (case map_of ?full k of None \<Rightarrow> [] | Some v \<Rightarrow> [k @ ''='' @ v])" for k
    using entries_of [OF d k, of k] by (simp add: buildLaunchEnv_def Let_def)
  have m: "map_of ?full k = (map_of ?base ++ map_of (forced_env p) ++ map_of managed) k" for k
    using copy_map_of [OF assms(2), of ?mid] copy_map_of [OF forced_distinct, of ?base p] by simp
  have 1: "filter (\<lambda>e. env_name e = k) (buildLaunchEnv w p managed) = [k @ ''='' @ v]" if "(k, v) \<in> set managed" for k v
    using map_of_is_SomeI [OF assms(2) that] by (simp add: f m)
  have 2: "filter (\<lambda>e. env_name e = k) (buildLaunchEnv w p managed) = [k @ ''='' @ v]"
    if "(k, v) \<in> set (forced_env p)" "k \<notin> fst ` set managed" for k v
  proof -
    have "map_of managed k = None" using that(2) by (simp add: map_of_eq_None_iff)
    then show ?thesis using map_of_is_SomeI [OF forced_distinct that(1)] by (simp add: f m map_add_def)
  qed
  show ?thesis using 1 2 by auto
qed

subsection \<open>Normal profiles\<close>

lemma normalize_safe_abs:
  "normalize_safe_paths cwd ps = Inr r \<Longrightarrow> \<forall>d. cwd = Some d \<longrightarrow> path_IsAbs d \<Longrightarrow> \<forall>a \<in> set r. path_IsAbs a \<and> path_Abs cwd' a = Inr a"
proof (induction ps arbitrary: r)
  case (Cons p ps)
  then show ?case using abs_of_abs [of cwd "trim_space p"]
    by (fastforce simp: Let_def split: if_splits sum.splits)
qed simp

lemma normalize_safe_id:
  "\<forall>a \<in> set r. path_IsAbs a \<and> path_Abs cwd a = Inr a \<and> trim_space a = a \<Longrightarrow> normalize_safe_paths cwd r = Inr r"
proof (induction r)
  case (Cons a r)
  moreover have "a \<noteq> []" using Cons.prems by (auto simp: path_IsAbs_def has_prefix_def)
  ultimately show ?case by (simp add: Let_def)
qed simp

lemma normal_args: "normalizeLaunchProfile U w p = Inr n \<Longrightarrow> lp_Args n = lp_Args p \<and> list_all client_arg_ok (lp_Args n)"
  by (auto simp: normalizeLaunchProfile_def Let_def validate_ok split: sum.splits option.splits if_splits)

lemma normal_env: "normalizeLaunchProfile U w p = Inr n \<Longrightarrow> normalize_env [] (lp_Env p) = Inr (lp_Env n)"
  by (auto simp: normalizeLaunchProfile_def Let_def split: sum.splits option.splits if_splits)

lemma load_normal:
  assumes "LoadLaunchProfile U w = (Inr n, w')"
  shows "list_all client_arg_ok (lp_Args n)"
  using assms normal_args by (fastforce simp: LoadLaunchProfile_def zero_profile_def split: prod.splits if_splits store.splits)

subsection \<open>Temporary directories\<close>

definition dirs_ok :: "launch_world \<Rightarrow> bool" where
  "dirs_ok w = (\<forall>d \<in> set (lw_dirs w). d < lw_nextDir w)"

lemma lw_call_fields [simp]:
  "lw_dirs (snd (lw_call w)) = lw_dirs w" "lw_nextDir (snd (lw_call w)) = lw_nextDir w" "lw_perm (snd (lw_call w)) = lw_perm w"
  "lw_profile (snd (lw_call w)) = lw_profile w" "lw_env (snd (lw_call w)) = lw_env w" "lw_cwd (snd (lw_call w)) = lw_cwd w"
  "lw_stat (snd (lw_call w)) = lw_stat w"
  by (simp_all add: lw_call_def case_prod_unfold)

lemma filter_fresh: "dirs_ok w \<Longrightarrow> filter (\<lambda>x. x \<noteq> lw_nextDir w) (lw_dirs w) = lw_dirs w"
  by (auto simp: dirs_ok_def filter_id_conv)

text \<open>What a step that makes a directory does: on failure nothing, on success one new directory.\<close>

definition adds_dir :: "launch_world \<Rightarrow> nat option \<Rightarrow> launch_world \<Rightarrow> bool" where
  "adds_dir w d w' =
     (case d of None \<Rightarrow> lw_dirs w' = lw_dirs w \<and> dirs_ok w'
      | Some n \<Rightarrow> lw_dirs w' = lw_dirs w @ [n] \<and> n \<notin> set (lw_dirs w) \<and> dirs_ok w')"

lemma mkdir_adds: "dirs_ok w \<Longrightarrow> adds_dir w (fst (mkdir_temp w)) (snd (mkdir_temp w))"
  by (auto simp: mkdir_temp_def case_prod_unfold adds_dir_def dirs_ok_def less_Suc_eq)

lemma or_remove_adds:
  assumes "adds_dir w (Some d) w1"
  shows "adds_dir w (if fst (or_remove d m w1) = None then Some d else None) (snd (or_remove d m w1))"
  using assms by (auto simp: or_remove_def case_prod_unfold adds_dir_def dirs_ok_def remove_dir_def filter_id_conv)

lemma endpoint_adds:
  assumes "dirs_ok w"
  shows "case CreatePrivateEndpoint w of (Inl e, w') \<Rightarrow> adds_dir w None w' | (Inr (n, a, d), w') \<Rightarrow> adds_dir w (Some d) w' \<and> n = ''unix''"
proof (cases "fst (mkdir_temp w)")
  case None
  then show ?thesis using mkdir_adds [OF assms] by (simp add: CreatePrivateEndpoint_def case_prod_unfold)
next
  case (Some d)
  have "adds_dir w (Some d) (snd (mkdir_temp w))" using mkdir_adds [OF assms] Some by simp
  from or_remove_adds [OF this, of "''Failed to set core controller directory permissions''"] Some show ?thesis
    by (auto simp: CreatePrivateEndpoint_def case_prod_unfold split: option.splits)
qed

lemma controller_adds:
  assumes "dirs_ok w"
  shows "case configureManagedController args w of (Inl e, w') \<Rightarrow> adds_dir w None w'
    | (Inr (as, n, a, d), w') \<Rightarrow> adds_dir w (Some d) w' \<and> as = ''-ext-ctl-unix'' # a # stripControllerArgs args"
proof -
  obtain r w1 where c: "CreatePrivateEndpoint w = (r, w1)" by fastforce
  note e = endpoint_adds [OF assms, unfolded c]
  show ?thesis
  proof (cases r)
    case (Inl x)
    then show ?thesis using e by (simp add: configureManagedController_def c)
  next
    case (Inr t)
    then show ?thesis using e by (cases t) (simp add: configureManagedController_def c)
  qed
qed

lemma hook_adds:
  assumes "dirs_ok w"
  shows "case createCoreStartupHook token w of (Inl e, w') \<Rightarrow> adds_dir w None w'
    | (Inr h, w') \<Rightarrow> adds_dir w (Some (sh_dir h)) w' \<and> sh_postDownCommand h = ''true'' \<and> sh_postUpCommand h = shellQuote (lw_executable w') \<and>
        (\<exists>a. sh_env h = startupNotificationEnv ''unix'' a token)"
proof -
  have ok: "dirs_ok (snd (lw_call w))" using assms by (simp add: dirs_ok_def)
  let ?m = "mkdir_temp (snd (lw_call w))"
  show ?thesis
  proof (cases "fst (lw_call w) = Done \<and> fst ?m \<noteq> None")
    case False
    then show ?thesis using mkdir_adds [OF ok] ok
      by (auto simp: createCoreStartupHook_def createNativeStartupHook_def case_prod_unfold adds_dir_def split: option.splits)
  next
    case True
    then obtain d where d: "fst ?m = Some d" by blast
    have a1: "adds_dir w (Some d) (snd ?m)" using mkdir_adds [OF ok] d by (simp add: adds_dir_def)
    let ?r1 = "or_remove d ''Failed to set core startup notification directory permissions'' (snd ?m)"
    let ?r2 = "or_remove d ''Failed to create core startup notification Unix socket'' (snd ?r1)"
    let ?r3 = "or_remove d ''Failed to set core startup notification Unix socket permissions'' (snd ?r2)"
    let ?r4 = "or_remove d ''Failed to read service executable path'' (snd ?r3)"
    have b1: "adds_dir w (if fst ?r1 = None then Some d else None) (snd ?r1)" using or_remove_adds [OF a1] .
    have b2: "fst ?r1 = None \<Longrightarrow> adds_dir w (if fst ?r2 = None then Some d else None) (snd ?r2)" using b1 by (intro or_remove_adds) simp
    have b3: "fst ?r1 = None \<Longrightarrow> fst ?r2 = None \<Longrightarrow> adds_dir w (if fst ?r3 = None then Some d else None) (snd ?r3)"
      using b2 by (intro or_remove_adds) simp
    have b4: "fst ?r1 = None \<Longrightarrow> fst ?r2 = None \<Longrightarrow> fst ?r3 = None \<Longrightarrow> adds_dir w (if fst ?r4 = None then Some d else None) (snd ?r4)"
      using b3 by (intro or_remove_adds) simp
    show ?thesis using True d b1 b2 b3 b4
      by (auto simp: createCoreStartupHook_def createNativeStartupHook_def case_prod_unfold Let_def noopShellCommand_def split: option.splits)
  qed
qed

lemma perm_fields [simp]:
  "lw_dirs (snd (removeGroupAndOtherWrite p w)) = lw_dirs w" "lw_nextDir (snd (removeGroupAndOtherWrite p w)) = lw_nextDir w"
  by (simp_all add: removeGroupAndOtherWrite_def case_prod_unfold)

lemma secure_fields [simp]:
  "lw_dirs (snd (SecureBinary p w)) = lw_dirs w" "lw_nextDir (snd (SecureBinary p w)) = lw_nextDir w"
  by (simp_all add: SecureBinary_def case_prod_unfold split: option.split)

lemma prepare_fields [simp]:
  "lw_dirs (snd (PrepareBinary p w)) = lw_dirs w" "lw_nextDir (snd (PrepareBinary p w)) = lw_nextDir w"
  by (simp_all add: PrepareBinary_def case_prod_unfold split: option.split)

lemma load_fields [simp]: "lw_dirs (snd (LoadLaunchProfile U w)) = lw_dirs w" "lw_nextDir (snd (LoadLaunchProfile U w)) = lw_nextDir w"
  by (simp_all add: LoadLaunchProfile_def case_prod_unfold split: store.split)

lemma resolve_fields [simp]:
  "lw_dirs (snd (resolveLaunchProfile U p w)) = lw_dirs w" "lw_nextDir (snd (resolveLaunchProfile U p w)) = lw_nextDir w"
  by (simp_all add: resolveLaunchProfile_def split: option.split)

subsection \<open>Sessions\<close>

lemma prepare_cases:
  assumes "prepareLaunchSession U token po access w = (Inr se, w')"
  obtains profile0 w1 corePath w2 hook w3 args0 net addr d wd where
    "resolveLaunchProfile U po w = (Inr profile0, w1)" "resolveCoreExecutablePath w1 (lp_CorePath profile0) True = Inr corePath"
    "PrepareBinary corePath w1 = (Inr corePath, w2)" "createCoreStartupHook token w2 = (Inr hook, w3)"
    "configureManagedController (lp_Args profile0) w3 = (Inr (args0, net, addr, d), w')"
    "se_args se = [''-post-up'', sh_postUpCommand hook, ''-post-down'', sh_postDownCommand hook] @ args0"
    "se_env se = buildLaunchEnv w' (profile0\<lparr>lp_CorePath := corePath\<rparr>) (sh_env hook)" "se_dirs se = [d, sh_dir hook]"
    "se_executablePath se = corePath" "se_controllerAddr se = addr" "se_profile se = profile0\<lparr>lp_CorePath := corePath\<rparr>"
proof -
  obtain r1 w1 where 1: "resolveLaunchProfile U po w = (r1, w1)" by fastforce
  with assms obtain profile0 where p: "r1 = Inr profile0" by (cases r1) (simp_all add: prepareLaunchSession_def)
  obtain corePath where c: "resolveCoreExecutablePath w1 (lp_CorePath profile0) True = Inr corePath"
    using assms 1 p by (cases "resolveCoreExecutablePath w1 (lp_CorePath profile0) True") (simp_all add: prepareLaunchSession_def)
  obtain r2 w2 where 2: "PrepareBinary corePath w1 = (r2, w2)" by fastforce
  with assms 1 p c obtain x where x: "r2 = Inr x" by (cases r2) (simp_all add: prepareLaunchSession_def Let_def)
  have xc: "x = corePath" using 2 x by (auto simp: PrepareBinary_def split: prod.splits option.splits)
  obtain r3 w3 where 3: "createCoreStartupHook token w2 = (r3, w3)" by fastforce
  with assms 1 p c 2 x obtain hook where h: "r3 = Inr hook" by (cases r3) (simp_all add: prepareLaunchSession_def Let_def)
  obtain r4 w4 where 4: "configureManagedController (lp_Args profile0) w3 = (r4, w4)" by fastforce
  with assms 1 p c 2 x 3 h obtain t where t: "r4 = Inr t" by (cases r4) (simp_all add: prepareLaunchSession_def Let_def)
  obtain args0 net addr d where q: "t = (args0, net, addr, d)" by (cases t) auto
  show ?thesis
    by (rule that [of profile0 w1 corePath w2 hook w3 args0 net addr d])
      (use assms 1 p c 2 x xc 3 h 4 t q in \<open>auto simp: prepareLaunchSession_def Let_def split: sum.splits\<close>)
qed

lemma prepare_error:
  assumes "fst (prepareLaunchSession U token po access w) = Inl e" "dirs_ok w"
  shows "lw_dirs (snd (prepareLaunchSession U token po access w)) = lw_dirs w"
proof -
  obtain r1 w1 where 1: "resolveLaunchProfile U po w = (r1, w1)" by fastforce
  have w1: "lw_dirs w1 = lw_dirs w" "lw_nextDir w1 = lw_nextDir w" using resolve_fields [of U po w] 1 by simp_all
  show ?thesis
  proof (cases "\<exists>profile0 corePath. r1 = Inr profile0 \<and> resolveCoreExecutablePath w1 (lp_CorePath profile0) True = Inr corePath")
    case False
    then show ?thesis using 1 w1 by (cases r1) (auto simp: prepareLaunchSession_def split: sum.split)
  next
    case True
    then obtain profile0 corePath where p: "r1 = Inr profile0" and c: "resolveCoreExecutablePath w1 (lp_CorePath profile0) True = Inr corePath" by blast
    obtain r2 w2 where 2: "PrepareBinary corePath w1 = (r2, w2)" by fastforce
    have w2: "lw_dirs w2 = lw_dirs w" "dirs_ok w2"
      using prepare_fields [of corePath w1] 2 w1 assms(2) by (simp_all add: dirs_ok_def)
    obtain r3 w3 where 3: "createCoreStartupHook token w2 = (r3, w3)" by fastforce
    show ?thesis
    proof (cases "\<exists>x hook. r2 = Inr x \<and> r3 = Inr hook")
      case False
      then show ?thesis using 1 p c 2 3 w2 hook_adds [OF w2(2), of token]
        by (cases r2; cases r3) (auto simp: prepareLaunchSession_def Let_def adds_dir_def)
    next
      case True
      then obtain x hook where h: "r2 = Inr x" "r3 = Inr hook" by blast
      have w3: "lw_dirs w3 = lw_dirs w @ [sh_dir hook]" "sh_dir hook \<notin> set (lw_dirs w)" "dirs_ok w3"
        using hook_adds [OF w2(2), of token] 3 h w2(1) by (simp_all add: adds_dir_def)
      obtain r4 w4 where 4: "configureManagedController (lp_Args profile0) w3 = (r4, w4)" by fastforce
      show ?thesis
      proof (cases r4)
        case (Inl e)
        then show ?thesis using 1 p c 2 3 h 4 w3 controller_adds [OF w3(3), of "lp_Args profile0"]
          by (simp add: prepareLaunchSession_def Let_def adds_dir_def remove_dir_def filter_id_conv) blast
      next
        case (Inr t)
        obtain args0 net addr d where q: "t = (args0, net, addr, d)" by (cases t) auto
        have w4: "lw_dirs w4 = lw_dirs w @ [sh_dir hook, d]" "d \<notin> set (lw_dirs w3)"
          using controller_adds [OF w3(3), of "lp_Args profile0"] 4 Inr q w3(1) by (simp_all add: adds_dir_def)
        have "filter (\<lambda>x. x \<noteq> d) (filter (\<lambda>x. x \<noteq> sh_dir hook) (lw_dirs w4)) = lw_dirs w"
          using w3 w4 by (auto simp: filter_id_conv)
        then show ?thesis using assms(1) 1 p c 2 3 h 4 Inr q
          by (auto simp: prepareLaunchSession_def Let_def remove_dir_def split: sum.splits)
      qed
    qed
  qed
qed

lemma prepare_session:
  assumes "prepareLaunchSession U token po access w = (Inr se, w')" "dirs_ok w"
  shows "lw_dirs w' = lw_dirs w @ rev (se_dirs se) \<and> lw_dirs (session_cleanup se w') = lw_dirs w \<and> dirs_ok w'"
proof -
  from assms(1) obtain profile0 w1 corePath w2 hook w3 args0 net addr d where
    r: "resolveLaunchProfile U po w = (Inr profile0, w1)" "PrepareBinary corePath w1 = (Inr corePath, w2)" "createCoreStartupHook token w2 = (Inr hook, w3)"
    "configureManagedController (lp_Args profile0) w3 = (Inr (args0, net, addr, d), w')" "se_dirs se = [d, sh_dir hook]"
    by (elim prepare_cases)
  have w2: "lw_dirs w2 = lw_dirs w" "dirs_ok w2"
    using resolve_fields [of U po w] prepare_fields [of corePath w1] r assms(2) by (simp_all add: dirs_ok_def)
  have w3: "lw_dirs w3 = lw_dirs w @ [sh_dir hook]" "sh_dir hook \<notin> set (lw_dirs w)" "dirs_ok w3"
    using hook_adds [OF w2(2), of token] r(3) w2(1) by (simp_all add: adds_dir_def)
  have w4: "lw_dirs w' = lw_dirs w @ [sh_dir hook, d]" "d \<notin> set (lw_dirs w3)" "dirs_ok w'"
    using controller_adds [OF w3(3), of "lp_Args profile0"] r(4) w3(1) by (simp_all add: adds_dir_def)
  then show ?thesis using w3 r(5) by (auto simp: session_cleanup_def remove_dir_def filter_id_conv)
qed

lemma resolve_args:
  assumes "resolveLaunchProfile U po w = (Inr p, w')"
  shows "list_all client_arg_ok (lp_Args p)"
  using assms normal_args load_normal by (cases po) (auto simp: resolveLaunchProfile_def)

text \<open>The names of the flags that belong to the service.\<close>

definition service_flags :: "string list" where
  "service_flags = [''post-up'', ''post-down'', ''ext-ctl'', ''ext-ctl-pipe'', ''ext-ctl-unix'', ''t'', ''v'']"

lemma session_args:
  assumes "prepareLaunchSession U token po access w = (Inr se, w')" "dirs_ok w"
  shows "\<exists>up rest. se_args se = [''-post-up'', up, ''-post-down'', ''true'', ''-ext-ctl-unix'', se_controllerAddr se] @ rest \<and>
    (\<forall>a \<in> set rest. a \<noteq> [] \<and> a \<noteq> ''--'' \<and> \<not> (snd (coreArgName a) \<and> fst (coreArgName a) \<in> set service_flags) \<and> a \<in> set (lp_Args (se_profile se)))"
proof -
  from assms(1) obtain profile0 w1 corePath w2 hook w3 args0 net addr d where
    r: "resolveLaunchProfile U po w = (Inr profile0, w1)" "PrepareBinary corePath w1 = (Inr corePath, w2)" "createCoreStartupHook token w2 = (Inr hook, w3)"
    "configureManagedController (lp_Args profile0) w3 = (Inr (args0, net, addr, d), w')"
    and se: "se_args se = [''-post-up'', sh_postUpCommand hook, ''-post-down'', sh_postDownCommand hook] @ args0" "se_controllerAddr se = addr"
    "se_profile se = profile0\<lparr>lp_CorePath := corePath\<rparr>"
    by (elim prepare_cases)
  have w2: "dirs_ok w2"
    using resolve_fields [of U po w] prepare_fields [of corePath w1] r assms(2) by (simp add: dirs_ok_def)
  have w3: "sh_postDownCommand hook = ''true''" "dirs_ok w3"
    using hook_adds [OF w2, of token] r(3) by (simp_all add: adds_dir_def)
  have "args0 = ''-ext-ctl-unix'' # addr # stripControllerArgs (lp_Args profile0)"
    using controller_adds [OF w3(2), of "lp_Args profile0"] r(4) by simp
  moreover have "a \<noteq> [] \<and> a \<noteq> ''--'' \<and> \<not> (snd (coreArgName a) \<and> fst (coreArgName a) \<in> set service_flags) \<and> a \<in> set (lp_Args profile0)"
    if "a \<in> set (stripControllerArgs (lp_Args profile0))" for a
    using strip_args [OF that] resolve_args [OF r(1)]
    by (auto simp: list_all_iff client_arg_ok_def isControllerArg_def service_flags_def split: prod.splits)
  ultimately show ?thesis using se w3(1) by auto
qed

lemma run_modes: "normalize_mode U m = Inr m' \<Longrightarrow> normalize_mode U m' = Inr m'"
proof -
  have t: "trim_space ''auto'' = ''auto''" "trim_space ''sandbox'' = ''sandbox''" "trim_space ''direct'' = ''direct''"
    by (rule trim_space_visible, simp add: visible_def byte_val_def)+
  assume "normalize_mode U m = Inr m'"
  then have "m' \<in> {''auto'', ''sandbox'', ''direct''}"
    by (auto simp: normalize_mode_def Let_def CoreRunModeAuto_def CoreRunModeSandbox_def CoreRunModeDirect_def split: if_splits)
  then show ?thesis
    by (auto simp: normalize_mode_def Let_def t strings_ToLower_def is_ascii_def ascii_lower_def byte_val_def CoreRunModeAuto_def CoreRunModeSandbox_def
        CoreRunModeDirect_def)
qed

lemma normal_log_path:
  assumes "normalize_log_path cwd p = Inr l" "\<forall>d. cwd = Some d \<longrightarrow> path_IsAbs d" "trim_space l = l"
  shows "normalize_log_path cwd l = Inr l"
proof (cases "trim_space p = []")
  case True
  then show ?thesis using assms(1) by (auto simp: normalize_log_path_def Let_def)
next
  case False
  then have "path_Abs cwd (trim_space p) = Inr l" using assms(1) by (auto simp: normalize_log_path_def Let_def split: sum.splits)
  from abs_of_abs [OF this assms(2), of cwd] show ?thesis using assms(3) by (simp add: normalize_log_path_def Let_def)
qed

lemma resolved_core:
  assumes "resolveCoreExecutablePath w raw b = Inr cp" "good_cwd w"
  shows "path_IsAbs cp \<and> lw_stat w cp = Regular"
proof -
  define path where "path = (if trim_space raw = [] \<and> b then trim_space (identity_Environment w ''KOKOROBOX_CORE_PATH'' ''SPARKLE_CORE_PATH'') else trim_space raw)"
  have "(path_IsAbs path \<and> cp = path \<or> path_Abs (lw_cwd w) path = Inr cp) \<and> lw_stat w cp = Regular"
    using assms(1) by (auto simp: resolveCoreExecutablePath_def Let_def path_def split: if_splits sum.splits stat_answer.splits)
  then show ?thesis using abs_of_abs [of "lw_cwd w" path cp] assms(2) by (auto simp: good_cwd_def)
qed

definition trimmed_profile :: "launch_profile \<Rightarrow> bool" where
  "trimmed_profile n = (trim_space (lp_CorePath n) = lp_CorePath n \<and> trim_space (lp_LogPath n) = lp_LogPath n \<and>
     (\<forall>a \<in> set (lp_SafePaths n). trim_space a = a))"

lemma normal_idem:
  assumes n: "normalizeLaunchProfile U w p = Inr n" and cwd: "good_cwd w" and t: "trimmed_profile n"
    and same: "lw_cwd w2 = lw_cwd w" "lw_stat w2 = lw_stat w"
  shows "normalizeLaunchProfile U w2 n = Inr n"
proof -
  from n obtain m where m: "normalize_mode U (lp_Mode p) = Inr m" "lp_Mode n = m"
    by (auto simp: normalizeLaunchProfile_def Let_def split: sum.splits option.splits if_splits)
  have s: "normalize_safe_paths (lw_cwd w) (lp_SafePaths p) = Inr (lp_SafePaths n)"
    using n by (auto simp: normalizeLaunchProfile_def Let_def split: sum.splits option.splits if_splits)
  have l: "normalize_log_path (lw_cwd w) (lp_LogPath p) = Inr (lp_LogPath n)" "lp_Priority n = trim_space (lp_Priority p)"
    using n by (auto simp: normalizeLaunchProfile_def Let_def split: sum.splits option.splits if_splits)
  have c: "isZeroLaunchProfile n \<and> lp_CorePath n = [] \<or> resolveCoreExecutablePath w (trim_space (lp_CorePath p)) False = Inr (lp_CorePath n)"
    using n by (auto simp: normalizeLaunchProfile_def Let_def isZeroLaunchProfile_def split: sum.splits option.splits if_splits)
  have "normalize_safe_paths (lw_cwd w) (lp_SafePaths n) = Inr (lp_SafePaths n)"
    using normalize_safe_abs [OF s] cwd t unfolding good_cwd_def trimmed_profile_def by (intro normalize_safe_id) blast
  moreover have "normalize_log_path (lw_cwd w) (lp_LogPath n) = Inr (lp_LogPath n)"
    using normal_log_path [OF l(1)] cwd t by (simp add: good_cwd_def trimmed_profile_def)
  moreover have "normalize_env [] (lp_Env n) = Inr (lp_Env n)"
  proof -
    have "trim_space x = x \<and> x \<noteq> []" if "x \<in> fst ` set (lp_Env n)" for x
      using normalize_env_trimmed [OF normal_env [OF n] that] trim_space_idem by auto
    then show ?thesis using normalize_env_distinct [OF normal_env [OF n]] normalize_env_id [of "[]" "lp_Env n"] by simp
  qed
  moreover have "validateCoreArgs (lp_Args n) = None" using normal_args [OF n] by (auto simp: validate_ok)
  moreover have "isZeroLaunchProfile n \<or> lp_CorePath n \<noteq> [] \<and> resolveCoreExecutablePath w2 (lp_CorePath n) False = Inr (lp_CorePath n)"
    using c
  proof
    assume "resolveCoreExecutablePath w (trim_space (lp_CorePath p)) False = Inr (lp_CorePath n)"
    from resolved_core [OF this cwd] show ?thesis
      using t same by (auto simp: resolveCoreExecutablePath_def trimmed_profile_def path_IsAbs_def has_prefix_def Let_def)
  qed simp
  moreover have "trim_space (lp_Priority n) = lp_Priority n" by (simp add: l(2))
  ultimately show ?thesis using run_modes [OF m(1)] m(2) t same(1)
    by (cases n) (auto simp: normalizeLaunchProfile_def trimmed_profile_def Let_def)
qed

lemma save_stored:
  assumes "SaveLaunchProfile U p w = (None, w')" "normalizeLaunchProfile U w p = Inr n"
  shows "lw_profile w' = (if isZeroLaunchProfile n then Absent else Stored n) \<and> lw_cwd w' = lw_cwd w \<and> lw_stat w' = lw_stat w"
  using assms by (auto simp: SaveLaunchProfile_def lw_call_def case_prod_unfold split: if_splits bool.splits prod.splits)

lemma secured:
  assumes "removeGroupAndOtherWrite p w = (None, w')"
  shows "and (lw_perm w' p) 0x12 = 0 \<and> (\<forall>q. and (lw_perm w q) 0x12 = 0 \<longrightarrow> and (lw_perm w' q) 0x12 = 0) \<and> lw_env w' = lw_env w"
proof -
  have "and (and x (not 0x12)) 0x12 = (0 :: 32 word)" for x by (simp add: and.assoc and.left_commute)
  then show ?thesis using assms by (auto simp: removeGroupAndOtherWrite_def lw_call_def case_prod_unfold split: if_splits)
qed

text \<open>When the calls succeed a session is prepared.\<close>

lemma lw_call_good: "lw_io w = [] \<Longrightarrow> lw_call w = (Done, w)"
  by (simp add: lw_call_def)

lemma secure_good: "lw_io w = [] \<Longrightarrow> fst (PrepareBinary p w) = Inr p \<and> lw_io (snd (PrepareBinary p w)) = []"
  by (simp add: PrepareBinary_def SecureBinary_def removeGroupAndOtherWrite_def lw_call_good split: prod.split)

lemma hook_good:
  "lw_io w = [] \<Longrightarrow> \<exists>h w'. createCoreStartupHook token w = (Inr h, w') \<and> lw_io w' = [] \<and> sh_postUpCommand h = shellQuote (lw_executable w') \<and> sh_postDownCommand h = ''true''"
  by (simp add: createCoreStartupHook_def createNativeStartupHook_def mkdir_temp_def or_remove_def lw_call_good Let_def noopShellCommand_def)

lemma controller_good:
  "lw_io w = [] \<Longrightarrow> \<exists>a d w'. configureManagedController args w = (Inr (''-ext-ctl-unix'' # (''/tmp/'' @ a) # stripControllerArgs args, ''unix'', ''/tmp/'' @ a, d), w') \<and> lw_io w' = []"
  by (simp add: configureManagedController_def CreatePrivateEndpoint_def mkdir_temp_def or_remove_def lw_call_good Let_def dir_name_def)

lemma prepared_good:
  assumes "lw_io w1 = []" "resolveLaunchProfile U po w = (Inr n, w1)" "resolveCoreExecutablePath w1 (lp_CorePath n) True = Inr cp"
    and "\<And>cwd e a. \<exists>wd. resolveLaunchWorkingDir cwd cp
      (''-post-up'' # shellQuote e # ''-post-down'' # ''true'' # ''-ext-ctl-unix'' # (''/tmp/'' @ a) # stripControllerArgs (lp_Args n)) = Inr wd"
  shows "\<exists>se w'. prepareLaunchSession U token po access w = (Inr se, w') \<and> se_profile se = n\<lparr>lp_CorePath := cp\<rparr> \<and> lw_io w' = []"
proof -
  obtain w2 where 2: "PrepareBinary cp w1 = (Inr cp, w2)" "lw_io w2 = []" using secure_good [OF assms(1), of cp] by (cases "PrepareBinary cp w1") auto
  obtain h w3 where 3: "createCoreStartupHook token w2 = (Inr h, w3)" "lw_io w3 = []" "sh_postUpCommand h = shellQuote (lw_executable w3)"
    "sh_postDownCommand h = ''true''" using hook_good [OF 2(2), of token] by blast
  obtain a d w4 where 4: "configureManagedController (lp_Args n) w3 = (Inr (''-ext-ctl-unix'' # (''/tmp/'' @ a) # stripControllerArgs (lp_Args n), ''unix'', ''/tmp/'' @ a, d), w4)" "lw_io w4 = []"
    using controller_good [OF 3(2), of "lp_Args n"] by blast
  obtain wd where "resolveLaunchWorkingDir (lw_cwd w4) cp (''-post-up'' # shellQuote (lw_executable w3) # ''-post-down'' # ''true'' # ''-ext-ctl-unix'' #
      (''/tmp/'' @ a) # stripControllerArgs (lp_Args n)) = Inr wd" using assms(4) by blast
  then show ?thesis using assms(2,3) 2 3 4 by (simp add: prepareLaunchSession_def Let_def)
qed

section \<open>An example\<close>

definition toy_launch_world :: launch_world where
  "toy_launch_world = \<lparr>lw_env = Map.empty, lw_cwd = Some ''/'', lw_stat = (\<lambda>_. Regular), lw_perm = (\<lambda>_. 0x1FF), lw_executable = ''/s'',
     lw_profile = Absent, lw_dirs = [], lw_nextDir = 0, lw_io = []\<rparr>"

lemma toy_calls [simp]: "lw_io toy_launch_world = []" "lw_stat toy_launch_world = (\<lambda>_. Regular)" "lw_dirs toy_launch_world = []"
  by (simp_all add: toy_launch_world_def)

definition toy_profile :: launch_profile where
  "toy_profile = zero_profile\<lparr>lp_CorePath := ''/m'', lp_Args := [''-d'', ''/e'', ''-ext-ctl'', ''x''], lp_Env := [(''CLASH_POST_UP'', ''evil'')]\<rparr>"

lemma toy_trims [simp]: "trim_space ''/m'' = ''/m''" "trim_space ''/e'' = ''/e''" "trim_space ''CLASH_POST_UP'' = ''CLASH_POST_UP''"
  by (rule trim_space_visible, simp add: visible_def byte_val_def)+

lemma toy_normal: "normalizeLaunchProfile ascii_only w toy_profile = Inr (toy_profile\<lparr>lp_Mode := ''auto''\<rparr>)" if "lw_stat w = (\<lambda>_. Regular)"
  using that
  by (simp add: normalizeLaunchProfile_def toy_profile_def zero_profile_def normalize_mode_def strings_ToLower_def is_ascii_def CoreRunModeAuto_def Let_def
      validateCoreArgs_def coreArgName_def has_prefix_def strings_Cut_def normalize_log_path_def isZeroLaunchProfile_def resolveCoreExecutablePath_def path_IsAbs_def)

definition toy_session :: "launch_session res \<times> launch_world" where
  "toy_session = prepareLaunchSession ascii_only ''t'' (Some toy_profile) \<lparr>fa_groupID = 0, fa_ok = False\<rparr> toy_launch_world"

lemma toy_resolves:
  assumes "lw_stat w = (\<lambda>_. Regular)"
  shows "resolveLaunchProfile ascii_only (Some toy_profile) w = (Inr (toy_profile\<lparr>lp_Mode := ''auto''\<rparr>), w)"
    "lw_io w = [] \<Longrightarrow> lw_profile w = Stored toy_profile \<Longrightarrow> resolveLaunchProfile ascii_only None w = (Inr (toy_profile\<lparr>lp_Mode := ''auto''\<rparr>), w)"
  by (simp_all add: resolveLaunchProfile_def LoadLaunchProfile_def lw_call_good toy_normal [OF assms])

lemma toy_prepares:
  assumes "lw_io w = []" "lw_stat w = (\<lambda>_. Regular)" "resolveLaunchProfile ascii_only po w = (Inr (toy_profile\<lparr>lp_Mode := ''auto''\<rparr>), w)"
  shows "\<exists>se w'. prepareLaunchSession ascii_only token po access w = (Inr se, w') \<and> se_profile se = toy_profile\<lparr>lp_Mode := ''auto''\<rparr> \<and> lw_io w' = []"
proof -
  let ?n = "toy_profile\<lparr>lp_Mode := ''auto''\<rparr>"
  note n = assms(3)
  have c: "resolveCoreExecutablePath w (lp_CorePath ?n) True = Inr ''/m''" "lp_CorePath ?n = ''/m''"
    by (simp_all add: resolveCoreExecutablePath_def path_IsAbs_def has_prefix_def assms(2) toy_profile_def)
  have s: "stripControllerArgs (lp_Args ?n) = [''-d'', ''/e'']"
    by (simp add: toy_profile_def isControllerArg_def coreArgName_def has_prefix_def strings_Cut_def)
  have "resolveLaunchWorkingDir cwd ''/m'' (''-post-up'' # shellQuote e # ''-post-down'' # ''true'' # ''-ext-ctl-unix'' # (''/tmp/'' @ a) # [''-d'', ''/e'']) = Inr ''/e''" for cwd e a
    by (simp add: resolveLaunchWorkingDir_def has_prefix_def shellQuote_def path_IsAbs_def path_Clean_def)
  then show ?thesis
    using prepared_good [OF assms(1) n c(1)] s by (fastforce simp: c(2))
qed

lemma toy_prepared: "\<exists>se w'. toy_session = (Inr se, w') \<and> se_profile se = toy_profile\<lparr>lp_Mode := ''auto''\<rparr>"
  using toy_prepares [OF toy_calls(1,2) toy_resolves(1) [OF toy_calls(2)], of "''t''" "\<lparr>fa_groupID = 0, fa_ok = False\<rparr>"] by (auto simp: toy_session_def)

text \<open>
  The names of the client's variables are not checked for the equals sign, so an entry of the environment
  can carry the name of a variable that the service forces to be empty.
\<close>

lemma env_name_smuggled:
  "\<exists>e \<in> set (buildLaunchEnv toy_launch_world (zero_profile\<lparr>lp_Env := [(''CLASH_POST_UP=evil'', [])]\<rparr>) []). env_name e = ''CLASH_POST_UP'' \<and> e = ''CLASH_POST_UP=evil=''"
  by (simp add: buildLaunchEnv_def maps_Copy_def forced_env_def ensureEssentialEnv_def toy_launch_world_def zero_profile_def env_name_def strings_Cut_def)

section \<open>Properties\<close>

text \<open>
  The service keeps its own flags: whatever arguments the client puts in its profile, the core is
  started with the hooks and the controller endpoint of the service, and none of the client's arguments
  that follow is empty, ends the flags, or names one of the flags that belong to the service.
\<close>

theorem launch_args_managed:
  assumes "prepareLaunchSession U token po access w = (Inr se, w')" "dirs_ok w"
  shows "\<exists>up rest. se_args se = [''-post-up'', up, ''-post-down'', ''true'', ''-ext-ctl-unix'', se_controllerAddr se] @ rest \<and>
    (\<forall>a \<in> set rest. a \<noteq> [] \<and> a \<noteq> ''--'' \<and> \<not> (snd (coreArgName a) \<and> fst (coreArgName a) \<in> set service_flags) \<and> a \<in> set (lp_Args (se_profile se)))"
  using session_args [OF assms] .

theorem launch_args_managed_witness:
  "\<exists>se w' up rest. toy_session = (Inr se, w') \<and> se_args se = [''-post-up'', up, ''-post-down'', ''true'', ''-ext-ctl-unix'', se_controllerAddr se] @ rest"
proof -
  obtain se w' where s: "toy_session = (Inr se, w')" using toy_prepared by blast
  have "dirs_ok toy_launch_world" by (simp add: dirs_ok_def toy_launch_world_def)
  from launch_args_managed [OF s [unfolded toy_session_def] this] s show ?thesis by blast
qed

text \<open>
  The service forces its variables: when no name in the profile's environment has an equals sign, the
  environment of the core has exactly one entry for each variable that the service sets, with the
  service's value, whatever the client asked for.
\<close>

theorem launch_env_forced:
  assumes "prepareLaunchSession U token po access w = (Inr se, w')" "dirs_ok w" "plain_keys (se_profile se)"
  shows "\<forall>(k, v) \<in> set (forced_env (se_profile se)). filter (\<lambda>e. env_name e = k) (se_env se) = [k @ ''='' @ v]"
proof -
  from assms(1) obtain profile0 w1 corePath w2 hook w3 args0 net addr d where
    r: "resolveLaunchProfile U po w = (Inr profile0, w1)" "PrepareBinary corePath w1 = (Inr corePath, w2)" "createCoreStartupHook token w2 = (Inr hook, w3)"
    and e: "se_env se = buildLaunchEnv w' (profile0\<lparr>lp_CorePath := corePath\<rparr>) (sh_env hook)" "se_profile se = profile0\<lparr>lp_CorePath := corePath\<rparr>"
    by (elim prepare_cases)
  have "dirs_ok w2" using resolve_fields [of U po w] prepare_fields [of corePath w1] r assms(2) by (simp add: dirs_ok_def)
  from hook_adds [OF this, of token] r(3) obtain a where h: "sh_env hook = startupNotificationEnv ''unix'' a token" by auto
  have "\<forall>(k, v) \<in> set (forced_env (se_profile se)). k \<notin> fst ` set (sh_env hook) \<longrightarrow> filter (\<lambda>e. env_name e = k) (se_env se) = [k @ ''='' @ v]"
    using launch_env_entries [OF assms(3), of "sh_env hook" w'] notification_keys(2) notify_plain unfolding e h by blast
  moreover have "fst x \<notin> fst ` set (sh_env hook)" if "x \<in> set (forced_env (se_profile se))" for x
    using forced_not_managed [of "fst x" "se_profile se"] that unfolding h by blast
  ultimately show ?thesis by fastforce
qed

theorem launch_env_forced_witness:
  "\<exists>se w'. toy_session = (Inr se, w') \<and> filter (\<lambda>e. env_name e = ''CLASH_POST_UP'') (se_env se) = [''CLASH_POST_UP='']"
proof -
  obtain se w' where s: "toy_session = (Inr se, w')" "se_profile se = toy_profile\<lparr>lp_Mode := ''auto''\<rparr>" using toy_prepared by blast
  have "dirs_ok toy_launch_world" by (simp add: dirs_ok_def toy_launch_world_def)
  moreover have "plain_keys (se_profile se)" by (simp add: s(2) plain_keys_def toy_profile_def)
  ultimately have "\<forall>(k, v) \<in> set (forced_env (se_profile se)). filter (\<lambda>e. env_name e = k) (se_env se) = [k @ ''='' @ v]"
    by (rule launch_env_forced [OF s(1) [unfolded toy_session_def]])
  moreover have "(''CLASH_POST_UP'', []) \<in> set (forced_env (se_profile se))" by (simp add: forced_env_def)
  ultimately have "filter (\<lambda>e. env_name e = ''CLASH_POST_UP'') (se_env se) = [''CLASH_POST_UP'' @ ''='' @ []]" by blast
  then have "filter (\<lambda>e. env_name e = ''CLASH_POST_UP'') (se_env se) = [''CLASH_POST_UP='']" by simp
  then show ?thesis using s(1) by blast
qed

text \<open>
  Nothing is left behind: a session that cannot be prepared, at whatever call, leaves no temporary
  directory, and the clean-up of one that was prepared removes exactly its directories.
\<close>

theorem launch_session_no_leak:
  assumes "dirs_ok w"
  shows "case prepareLaunchSession U token po access w of
      (Inl e, w') \<Rightarrow> lw_dirs w' = lw_dirs w
    | (Inr se, w') \<Rightarrow> lw_dirs w' = lw_dirs w @ rev (se_dirs se) \<and> lw_dirs (session_cleanup se w') = lw_dirs w"
  using prepare_error [OF _ assms, of U token po access] prepare_session [OF _ assms, of U token po access] by (auto split: prod.split sum.split)

theorem launch_session_no_leak_witness:
  "\<exists>se w'. toy_session = (Inr se, w') \<and> lw_dirs (session_cleanup se w') = []"
proof -
  obtain se w' where s: "toy_session = (Inr se, w')" using toy_prepared by blast
  have "dirs_ok toy_launch_world" by (simp add: dirs_ok_def toy_launch_world_def)
  from launch_session_no_leak [OF this, of ascii_only "''t''" "Some toy_profile" "\<lparr>fa_groupID = 0, fa_ok = False\<rparr>"] s show ?thesis
    by (auto simp: toy_session_def toy_launch_world_def)
qed

text \<open>
  A saved profile is loaded back as it was normalised, when the working directory is absolute and the
  resolved paths have no white space at their ends.
\<close>

theorem launch_profile_roundtrip:
  assumes "SaveLaunchProfile U p w = (None, w')" "normalizeLaunchProfile U w p = Inr n"
    and "good_cwd w" "trimmed_profile n" "fst (next_io (lw_io w')) = Done"
  shows "fst (LoadLaunchProfile U w') = Inr n"
proof -
  note s = save_stored [OF assms(1,2)]
  have i: "normalizeLaunchProfile U (snd (lw_call w')) n = Inr n" using s by (intro normal_idem [OF assms(2-4)]) simp_all
  have "isZeroLaunchProfile n \<Longrightarrow> n = zero_profile\<lparr>lp_Mode := CoreRunModeAuto\<rparr>"
  proof -
    assume z: "isZeroLaunchProfile n"
    have "lp_Mode n \<noteq> []" using assms(2)
      by (auto simp: normalizeLaunchProfile_def normalize_mode_def Let_def CoreRunModeAuto_def CoreRunModeSandbox_def CoreRunModeDirect_def
          split: sum.splits option.splits if_splits)
    then show ?thesis using z by (cases n) (simp add: isZeroLaunchProfile_def zero_profile_def)
  qed
  then show ?thesis using s i assms(5)
    by (cases "isZeroLaunchProfile n") (simp_all add: LoadLaunchProfile_def case_prod_unfold lw_call_def)
qed

theorem launch_profile_roundtrip_witness:
  "fst (LoadLaunchProfile ascii_only (snd (SaveLaunchProfile ascii_only toy_profile toy_launch_world))) = Inr (toy_profile\<lparr>lp_Mode := ''auto''\<rparr>)"
proof -
  have n: "normalizeLaunchProfile ascii_only toy_launch_world toy_profile = Inr (toy_profile\<lparr>lp_Mode := ''auto''\<rparr>)"
    by (rule toy_normal) (simp add: toy_launch_world_def)
  have "\<not> isZeroLaunchProfile (toy_profile\<lparr>lp_Mode := ''auto''\<rparr>)" by (simp add: isZeroLaunchProfile_def toy_profile_def)
  then have s: "SaveLaunchProfile ascii_only toy_profile toy_launch_world = (None, toy_launch_world\<lparr>lw_profile := Stored (toy_profile\<lparr>lp_Mode := ''auto''\<rparr>)\<rparr>)"
    by (simp add: SaveLaunchProfile_def n lw_call_good toy_calls)
  show ?thesis
    by (simp add: s, rule launch_profile_roundtrip [OF s n])
      (simp_all add: good_cwd_def toy_launch_world_def path_IsAbs_def has_prefix_def trimmed_profile_def toy_profile_def zero_profile_def)
qed

text \<open>
  The executable that is started cannot be replaced by another user: unless hardening is switched off
  in the service's own environment, a prepared executable and its directory are writable for neither
  group nor others.
\<close>

theorem prepared_binary_protected:
  assumes "PrepareBinary p w = (Inr q, w')"
    and "identity_Environment w ''KOKOROBOX_SKIP_CORE_ACL_HARDENING'' ''SPARKLE_SKIP_CORE_ACL_HARDENING'' \<noteq> ''1''"
  shows "q = p \<and> and (lw_perm w' p) 0x12 = 0 \<and> and (lw_perm w' (path_Dir p)) 0x12 = 0"
proof -
  obtain e1 w1 where 1: "removeGroupAndOtherWrite (path_Dir p) w = (e1, w1)" by fastforce
  obtain e2 w2 where 2: "removeGroupAndOtherWrite p w1 = (e2, w2)" by fastforce
  have "e1 = None" "e2 = None" "w2 = w'" "q = p"
    using assms 1 2 by (auto simp: PrepareBinary_def SecureBinary_def split: option.splits)
  then show ?thesis using secured [of "path_Dir p" w w1] secured [of p w1 w2] 1 2 by simp
qed

theorem prepared_binary_protected_witness: "and (lw_perm (snd (PrepareBinary ''/m'' toy_launch_world)) ''/m'') 0x12 = 0"
proof -
  have "PrepareBinary ''/m'' toy_launch_world = (Inr ''/m'', snd (PrepareBinary ''/m'' toy_launch_world))"
    using secure_good [of toy_launch_world "''/m''"] by (simp add: toy_launch_world_def prod_eq_iff)
  from prepared_binary_protected [OF this] show ?thesis
    by (simp add: identity_Environment_def os_Getenv_def toy_launch_world_def)
qed

end
