(* ===== verification/Core_Sandbox.thy ===== *)
theory Core_Sandbox
  imports Core_Launch
begin

text \<open>
  The chroot sandbox of the core on Linux (\<open>core/sandbox/sandbox_linux.go\<close>): the plan of bind mounts, how it is
  carried out and undone in the re-executed child (\<open>reexec_linux.go\<close>), and the removal of stale roots. The
  mount table is a list of mount points. The outcome of each system call that changes something comes from
  a script of result codes; a call on a path that is not a mount point answers \<open>EINVAL\<close> as the kernel does.
\<close>

section \<open>Definitions\<close>

subsection \<open>Paths\<close>

definition path_Join :: "string \<Rightarrow> string \<Rightarrow> string" where
  "path_Join a b = (if a = [] \<and> b = [] then [] else if a = [] then path_Clean b else if b = [] then path_Clean a else path_Clean (a @ ''/'' @ b))"

definition path_elems :: "string \<Rightarrow> string list" where
  "path_elems p = filter (\<lambda>e. e \<noteq> []) (split_at (CHR ''/'') p)"

fun drop_common :: "string list \<Rightarrow> string list \<Rightarrow> string list \<times> string list" where
  "drop_common (x # xs) (y # ys) = (if x = y then drop_common xs ys else (x # xs, y # ys))"
| "drop_common xs ys = (xs, ys)"

text \<open>\<open>filepath.Rel\<close>; the loop over the bytes compares the elements of the two paths.\<close>

definition path_Rel :: "string \<Rightarrow> string \<Rightarrow> string option" where
  "path_Rel basepath targpath =
     (let b = path_Clean basepath; t = path_Clean targpath; b' = (if b = ''.'' then [] else b) in
      if t = b then Some ''.''
      else if path_IsAbs b' \<noteq> path_IsAbs t then None
      else (case drop_common (path_elems b') (path_elems t) of (rb, rt) \<Rightarrow>
          if rb \<noteq> [] \<and> rt \<noteq> [] \<and> hd rb = ''..'' then None
          else Some (strings_Join (replicate (length rb) ''..'' @ rt) ''/'')))"

definition pathWithin :: "string \<Rightarrow> string \<Rightarrow> bool" where
  "pathWithin path root =
     (if path = root then True
      else (case path_Rel root path of None \<Rightarrow> False | Some rel \<Rightarrow> rel \<noteq> ''..'' \<and> \<not> has_prefix rel ''../''))"

text \<open>\<open>strings.Count\<close> of the separator.\<close>

definition depth :: "string \<Rightarrow> nat" where
  "depth p = length (filter (\<lambda>c. c = CHR ''/'') p)"

subsection \<open>The plan\<close>

record sandbox_config =
  sc_ExecutablePath :: string
  sc_Args :: "string list"
  sc_Env :: "string list"
  sc_WorkingDir :: string
  sc_ReadOnlyPaths :: "string list"
  sc_WritablePaths :: "string list"
  sc_WritableDirs :: "string list"

record sandbox_mount =
  mt_source :: string
  mt_target :: string
  mt_readOnly :: bool
  mt_isFile :: bool
  mt_proc :: bool

text \<open>What the plan reads of the file system: \<open>os.Stat\<close>, \<open>filepath.EvalSymlinks\<close>, the working directory.\<close>

record sandbox_fs =
  sf_cwd :: "string option"
  sf_stat :: "string \<Rightarrow> stat_answer"
  sf_eval :: "string \<Rightarrow> string res"

datatype sandbox_error = ConfigError err | OtherError err

fun IsConfigError :: "sandbox_error \<Rightarrow> bool" where
  "IsConfigError (ConfigError _) = True"
| "IsConfigError (OtherError _) = False"

definition normalizeSandboxPath :: "sandbox_fs \<Rightarrow> string \<Rightarrow> string res" where
  "normalizeSandboxPath fs path =
     (if trim_space path = [] then Inl (Plain ''Path cannot be empty'')
      else if path_IsAbs path then Inr (path_Clean path)
      else (case path_Abs (sf_cwd fs) path of Inl e \<Rightarrow> Inl e | Inr p \<Rightarrow> Inr (path_Clean p)))"

definition sandboxDirForPath :: "sandbox_fs \<Rightarrow> string \<Rightarrow> string res" where
  "sandboxDirForPath fs path =
     (case normalizeSandboxPath fs path of
        Inl e \<Rightarrow> Inl e
      | Inr p \<Rightarrow> (case sf_stat fs p of Directory \<Rightarrow> Inr p | Regular \<Rightarrow> Inr (path_Dir p) | _ \<Rightarrow> Inl SysErr))"

definition writableSandboxDir :: "sandbox_fs \<Rightarrow> string \<Rightarrow> string res" where
  "writableSandboxDir fs path =
     (case normalizeSandboxPath fs path of
        Inl e \<Rightarrow> Inl e
      | Inr p \<Rightarrow> (case sf_stat fs p of Directory \<Rightarrow> Inr (path_Clean p) | Regular \<Rightarrow> Inr (path_Clean (path_Dir p)) | _ \<Rightarrow> Inl SysErr))"

definition addMount :: "sandbox_fs \<Rightarrow> string \<Rightarrow> bool \<Rightarrow> bool \<Rightarrow> sandbox_mount list res" where
  "addMount fs source readOnly isFile =
     (case normalizeSandboxPath fs source of
        Inl e \<Rightarrow> Inl e
      | Inr p \<Rightarrow>
          if sf_stat fs p \<in> {NotExist, StatFails} then Inl SysErr
          else Inr [\<lparr>mt_source = p, mt_target = p, mt_readOnly = readOnly, mt_isFile = isFile, mt_proc = False\<rparr>])"

definition addMountIfExists :: "sandbox_fs \<Rightarrow> string \<Rightarrow> bool \<Rightarrow> bool \<Rightarrow> sandbox_mount list res" where
  "addMountIfExists fs source readOnly isFile = (if sf_stat fs source = NotExist then Inr [] else addMount fs source readOnly isFile)"

text \<open>\<open>addReadOnlyPath\<close> and \<open>addWritablePath\<close> differ in the flag only.\<close>

definition addPath :: "sandbox_fs \<Rightarrow> bool \<Rightarrow> string \<Rightarrow> sandbox_mount list res" where
  "addPath fs readOnly path =
     (case normalizeSandboxPath fs path of
        Inl e \<Rightarrow> Inl e
      | Inr p \<Rightarrow> (case sf_stat fs p of Directory \<Rightarrow> addMount fs p readOnly False | Regular \<Rightarrow> addMount fs p readOnly True | _ \<Rightarrow> Inl SysErr))"

definition addWritableDir :: "sandbox_fs \<Rightarrow> string \<Rightarrow> sandbox_mount list res" where
  "addWritableDir fs path = (case writableSandboxDir fs path of Inl e \<Rightarrow> Inl e | Inr p \<Rightarrow> addMount fs p False False)"

text \<open>The mounts of a list of steps, or the first error.\<close>

fun collect :: "('e + 'a list) list \<Rightarrow> 'e + 'a list" where
  "collect [] = Inr []"
| "collect (Inl e # rs) = Inl e"
| "collect (Inr ms # rs) = (case collect rs of Inl e \<Rightarrow> Inl e | Inr ns \<Rightarrow> Inr (ms @ ns))"

definition other :: "'a res \<Rightarrow> sandbox_error + 'a" where
  "other r = (case r of Inl e \<Rightarrow> Inl (OtherError e) | Inr x \<Rightarrow> Inr x)"

definition system_dirs :: "string list" where
  "system_dirs = [''/bin'', ''/sbin'', ''/usr'', ''/lib'', ''/lib64'', ''/etc'', ''/sys'', ''/nix/store'',
     ''/run/systemd/resolve'', ''/run/resolvconf'', ''/run/current-system'', ''/run/booted-system'', ''/run/wrappers'']"

definition sandbox_devices :: "string list" where
  "sandbox_devices = [''/dev/null'', ''/dev/zero'', ''/dev/random'', ''/dev/urandom'', ''/dev/net/tun'']"

text \<open>The directory of the executable, and the one its real path is in.\<close>

definition core_mounts :: "sandbox_fs \<Rightarrow> sandbox_config \<Rightarrow> (string \<times> sandbox_mount list) res" where
  "core_mounts fs config =
     (case sandboxDirForPath fs (sc_ExecutablePath config) of
        Inl e \<Rightarrow> Inl e
      | Inr coreDir \<Rightarrow>
          (case addMount fs coreDir (pathWithin coreDir ''/nix/store'') False of
             Inl e \<Rightarrow> Inl e
           | Inr ms \<Rightarrow>
               (case sf_eval fs (sc_ExecutablePath config) of
                  Inl e \<Rightarrow> Inl (Wrapped ''Failed to resolve core executable real path'' e)
                | Inr resolved \<Rightarrow>
                    (case sandboxDirForPath fs resolved of
                       Inl e \<Rightarrow> Inl e
                     | Inr resolvedDir \<Rightarrow>
                         if resolvedDir = coreDir then Inr (coreDir, ms)
                         else (case addMount fs resolvedDir (pathWithin resolvedDir ''/nix/store'') False of
                             Inl e \<Rightarrow> Inl e
                           | Inr ns \<Rightarrow> Inr (coreDir, ms @ ns))))))"

definition workdir_mounts :: "sandbox_fs \<Rightarrow> string \<Rightarrow> string \<Rightarrow> sandbox_mount list res" where
  "workdir_mounts fs coreDir workingDir =
     (case sandboxDirForPath fs workingDir of Inl e \<Rightarrow> Inl e | Inr d \<Rightarrow> if d = coreDir then Inr [] else addMount fs d True False)"

definition trusted_mounts :: "sandbox_fs \<Rightarrow> string \<Rightarrow> sandbox_error + sandbox_mount list" where
  "trusted_mounts fs path =
     (case addPath fs False path of Inl e \<Rightarrow> Inl (ConfigError (Wrapped (''Failed to map trusted path '' @ path) e)) | Inr ms \<Rightarrow> Inr ms)"

definition merge_mount :: "sandbox_mount \<Rightarrow> sandbox_mount \<Rightarrow> sandbox_mount" where
  "merge_mount x m =
     x\<lparr>mt_readOnly := mt_readOnly x \<and> mt_readOnly m, mt_isFile := mt_isFile x \<or> mt_isFile m, mt_proc := mt_proc x \<or> mt_proc m,
       mt_source := (if mt_source x = [] then mt_source m else mt_source x)\<rparr>"

fun insert_mount :: "sandbox_mount \<Rightarrow> sandbox_mount list \<Rightarrow> sandbox_mount list" where
  "insert_mount m [] = [m]"
| "insert_mount m (x # xs) = (if mt_target x = mt_target m then merge_mount x m # xs else x # insert_mount m xs)"

definition clean_mount :: "sandbox_mount \<Rightarrow> sandbox_mount" where
  "clean_mount m = m\<lparr>mt_target := path_Clean (mt_target m), mt_source := (if mt_source m \<noteq> [] then path_Clean (mt_source m) else [])\<rparr>"

definition compactSandboxMounts :: "sandbox_mount list \<Rightarrow> sandbox_mount list" where
  "compactSandboxMounts mounts =
     sort_key (\<lambda>m. depth (mt_target m))
       (fold (\<lambda>m. insert_mount (clean_mount m)) (filter (\<lambda>m. mt_target m \<noteq> []) mounts) [])"

definition proc_mount :: sandbox_mount where
  "proc_mount = \<lparr>mt_source = [], mt_target = ''/proc'', mt_readOnly = False, mt_isFile = False, mt_proc = True\<rparr>"

definition sandboxMounts :: "sandbox_fs \<Rightarrow> sandbox_config \<Rightarrow> sandbox_error + sandbox_mount list" where
  "sandboxMounts fs config =
     (if \<exists>p \<in> set (sc_WritablePaths config). path_Clean p = ''/''
      then Inr [\<lparr>mt_source = ''/'', mt_target = ''/'', mt_readOnly = False, mt_isFile = False, mt_proc = False\<rparr>]
      else
        (case collect (map (\<lambda>d. addMountIfExists fs d True False) system_dirs @ [addMount fs ''/run/xtables.lock'' False True]) of
           Inl e \<Rightarrow> Inl (OtherError e)
         | Inr ms1 \<Rightarrow>
             (case core_mounts fs config of
                Inl e \<Rightarrow> Inl (OtherError e)
              | Inr (coreDir, ms2) \<Rightarrow>
                  (case collect (map (\<lambda>p. other (addPath fs True p)) (sc_ReadOnlyPaths config) @
                                 [other (workdir_mounts fs coreDir (sc_WorkingDir config))] @
                                 map (trusted_mounts fs) (sc_WritablePaths config) @
                                 map (\<lambda>p. other (addWritableDir fs p)) (sc_WritableDirs config) @
                                 [Inr [proc_mount]] @
                                 map (\<lambda>d. other (addMountIfExists fs d False True)) sandbox_devices) of
                     Inl e \<Rightarrow> Inl e
                   | Inr ms3 \<Rightarrow> Inr (compactSandboxMounts (ms1 @ ms2 @ ms3))))))"

definition sandboxTarget :: "string \<Rightarrow> string \<Rightarrow> string" where
  "sandboxTarget root target = path_Join root (let t = path_Clean target in if has_prefix t ''/'' then drop 1 t else t)"

subsection \<open>System calls\<close>

datatype sys_result = SysOk | EINVAL | ENOENT | EEXIST | EOther

datatype lstat_answer = LNotExist | LFails | LInfo bool bool bool nat

text \<open>
  The state of the sandbox code: the mount table (newest first), the directories of sandboxes that exist, the
  mount points that were still in place when a root was removed recursively, how many files of sandbox
  commands are open, and the script. \<open>LInfo\<close> says
  whether the path is a directory, whether it is a symbolic link, whether it belongs to the effective user,
  and its permissions.
\<close>

record sandbox_world =
  sb_fs :: sandbox_fs
  sb_tempDir :: string
  sb_lstat :: "string \<Rightarrow> lstat_answer"
  sb_mounts :: "string list"
  sb_roots :: "string list"
  sb_wiped :: "string list"
  sb_open :: int
  sb_ios :: "sys_result list"

definition sys_call :: "sandbox_world \<Rightarrow> sys_result \<times> sandbox_world" where
  "sys_call w = (case sb_ios w of [] \<Rightarrow> (SysOk, w) | r # rs \<Rightarrow> (r, w\<lparr>sb_ios := rs\<rparr>))"

definition sys_error :: "string \<Rightarrow> sys_result \<Rightarrow> err option" where
  "sys_error m r = (if r = SysOk then None else Some (Wrapped m SysErr))"

text \<open>A sequence of calls that stops at the first error.\<close>

fun sys_calls :: "nat \<Rightarrow> sandbox_world \<Rightarrow> sys_result \<times> sandbox_world" where
  "sys_calls 0 w = (SysOk, w)"
| "sys_calls (Suc n) w = (case sys_call w of (r, w1) \<Rightarrow> if r = SysOk then sys_calls n w1 else (r, w1))"

definition mount_call :: "string \<Rightarrow> sandbox_world \<Rightarrow> sys_result \<times> sandbox_world" where
  "mount_call p w = (case sys_call w of (r, w1) \<Rightarrow> (r, if r = SysOk then w1\<lparr>sb_mounts := p # sb_mounts w1\<rparr> else w1))"

definition on_mount :: "string \<Rightarrow> sandbox_world \<Rightarrow> sys_result \<times> sandbox_world" where
  "on_mount p w = (if p \<in> set (sb_mounts w) then sys_call w else (EINVAL, w))"

definition unmount_call :: "string \<Rightarrow> sandbox_world \<Rightarrow> sys_result \<times> sandbox_world" where
  "unmount_call p w = (case on_mount p w of (r, w1) \<Rightarrow> (r, if r = SysOk then w1\<lparr>sb_mounts := remove1 p (sb_mounts w1)\<rparr> else w1))"

definition makeSandboxMountPrivate :: "string \<Rightarrow> sandbox_world \<Rightarrow> sys_result \<times> sandbox_world" where
  "makeSandboxMountPrivate p w = (case on_mount p w of (r, w1) \<Rightarrow> if r = EINVAL then on_mount p w1 else (r, w1))"

text \<open>\<open>os.RemoveAll\<close> works on what is mounted below the root as well.\<close>

definition remove_root :: "string \<Rightarrow> sandbox_world \<Rightarrow> sys_result \<times> sandbox_world" where
  "remove_root root w =
     (case sys_call w of (r, w1) \<Rightarrow>
        (r, w1\<lparr>sb_wiped := sb_wiped w1 @ filter (\<lambda>p. pathWithin p root) (sb_mounts w1),
              sb_roots := (if r = SysOk then removeAll root (sb_roots w1) else sb_roots w1)\<rparr>))"

subsection \<open>The mount points under a root\<close>

definition unescape_pair :: "string \<Rightarrow> char option" where
  "unescape_pair s =
     (if has_prefix s (CHR 0x5C # ''040'') then Some (CHR '' '') else if has_prefix s (CHR 0x5C # ''011'') then Some (CHR 0x09)
      else if has_prefix s (CHR 0x5C # ''012'') then Some (CHR 0x0A) else if has_prefix s (CHR 0x5C # ''134'') then Some (CHR 0x5C) else None)"

fun unescapeMountInfoPath :: "string \<Rightarrow> string" where
  "unescapeMountInfoPath [] = []"
| "unescapeMountInfoPath (c # s) = (case unescape_pair (c # s) of Some d \<Rightarrow> d # unescapeMountInfoPath (drop 3 s) | None \<Rightarrow> c # unescapeMountInfoPath s)"

text \<open>What the kernel writes for a mount point: these four characters are written in octal.\<close>

definition escape_char :: "char \<Rightarrow> string" where
  "escape_char c = (if c = CHR '' '' then CHR 0x5C # ''040'' else if c = CHR 0x09 then CHR 0x5C # ''011''
     else if c = CHR 0x0A then CHR 0x5C # ''012'' else if c = CHR 0x5C then CHR 0x5C # ''134'' else [c])"

definition linuxMountPointsUnder :: "string \<Rightarrow> sandbox_world \<Rightarrow> string list" where
  "linuxMountPointsUnder root w =
     sort_key (\<lambda>p. - int (depth p))
       (filter (\<lambda>p. pathWithin p (path_Clean root))
         (map (\<lambda>p. path_Clean (unescapeMountInfoPath (concat (map escape_char p)))) (rev (sb_mounts w))))"

subsection \<open>Carrying out the plan\<close>

definition mountKernelFilesystem :: "string \<Rightarrow> sandbox_world \<Rightarrow> err option \<times> sandbox_world" where
  "mountKernelFilesystem target w =
     (case sys_call w of (r, w1) \<Rightarrow>
        if r \<noteq> SysOk then (Some SysErr, w1)
        else (case mount_call target w1 of (r2, w2) \<Rightarrow>
            if r2 \<noteq> SysOk then (sys_error (''Failed to mount '' @ target) r2, w2)
            else (case makeSandboxMountPrivate target w2 of (r3, w3) \<Rightarrow>
                if r3 \<noteq> SysOk then (sys_error (''Failed to isolate sandbox mount '' @ target) r3, snd (unmount_call target w3))
                else (None, w3))))"

fun remount_all :: "string list \<Rightarrow> sandbox_world \<Rightarrow> err option \<times> sandbox_world" where
  "remount_all [] w = (None, w)"
| "remount_all (p # ps) w = (case on_mount p w of (r, w1) \<Rightarrow> if r \<noteq> SysOk then (sys_error (''Failed to remount '' @ p @ '' read-only'') r, w1) else remount_all ps w1)"

definition makeSandboxMountTreeReadOnly :: "string \<Rightarrow> sandbox_world \<Rightarrow> err option \<times> sandbox_world" where
  "makeSandboxMountTreeReadOnly target w =
     (let ps = linuxMountPointsUnder target w in remount_all (if ps = [] then [target] else ps) w)"

text \<open>The directory or the file that is mounted on is made first: one call for a directory, two for a file.\<close>

definition mountIntoSandbox :: "string \<Rightarrow> sandbox_mount \<Rightarrow> sandbox_world \<Rightarrow> err option \<times> sandbox_world" where
  "mountIntoSandbox target m w =
     (if mt_proc m then mountKernelFilesystem target w
      else (case sys_calls (if mt_isFile m then 2 else 1) w of (r, w1) \<Rightarrow>
          if r \<noteq> SysOk then (Some SysErr, w1)
          else (case mount_call target w1 of (r2, w2) \<Rightarrow>
              if r2 \<noteq> SysOk then (sys_error (''Failed to map sandbox path '' @ mt_source m) r2, w2)
              else (case makeSandboxMountPrivate target w2 of (r3, w3) \<Rightarrow>
                  if r3 \<noteq> SysOk then (sys_error (''Failed to isolate sandbox mount '' @ mt_target m) r3, snd (unmount_call target w3))
                  else if mt_readOnly m then
                    (case on_mount target w3 of (r4, w4) \<Rightarrow>
                       if r4 = SysOk then (None, w4)
                       else (case makeSandboxMountTreeReadOnly target w4 of
                           (None, w5) \<Rightarrow> (None, w5)
                         | (Some e, w5) \<Rightarrow> (Some (Wrapped ''Failed to make sandbox mount recursively read-only'' e), snd (unmount_call target w5))))
                  else (None, w3)))))"

definition mountSandboxRoot :: "string \<Rightarrow> sandbox_world \<Rightarrow> err option \<times> sandbox_world" where
  "mountSandboxRoot root w =
     (case mount_call root w of (r, w1) \<Rightarrow>
        if r \<noteq> SysOk then (sys_error ''Failed to initialize core sandbox root'' r, w1)
        else (case makeSandboxMountPrivate root w1 of (r2, w2) \<Rightarrow>
            if r2 \<noteq> SysOk then (sys_error ''Failed to isolate core sandbox root'' r2, snd (unmount_call root w2)) else (None, w2)))"

text \<open>Four calls, and a symbolic link that may be there already.\<close>

definition prepareLinuxSandboxStaticLayout :: "sandbox_world \<Rightarrow> err option \<times> sandbox_world" where
  "prepareLinuxSandboxStaticLayout w =
     (case sys_calls 4 w of (r, w1) \<Rightarrow>
        if r \<noteq> SysOk then (Some SysErr, w1)
        else (case sys_call w1 of (r2, w2) \<Rightarrow> (if r2 \<in> {SysOk, EEXIST} then None else Some SysErr, w2)))"

definition keep_err :: "err option \<Rightarrow> sys_result \<Rightarrow> sys_result set \<Rightarrow> string \<Rightarrow> err option" where
  "keep_err e r ignored m = (if r = SysOk \<or> r \<in> ignored \<or> e \<noteq> None then e else Some (Wrapped m SysErr))"

text \<open>
  One mount point is taken down. \<open>ignored\<close> are the result codes of the unmount that are not reported; those of
  the call before it are the same everywhere.
\<close>

definition take_down :: "sys_result set \<Rightarrow> string \<Rightarrow> err option \<times> sandbox_world \<Rightarrow> err option \<times> sandbox_world" where
  "take_down ignored p s =
     (case s of (e, w) \<Rightarrow>
        (case makeSandboxMountPrivate p w of (r, w1) \<Rightarrow>
           if r \<noteq> SysOk then (keep_err e r {EINVAL, ENOENT} (''Failed to isolate sandbox mount '' @ p), w1)
           else (case unmount_call p w1 of (r2, w2) \<Rightarrow> (keep_err e r2 ignored (''Failed to unmount sandbox mount '' @ p), w2))))"

definition cleanup_mounted :: "string \<Rightarrow> string list \<Rightarrow> sandbox_world \<Rightarrow> err option \<times> sandbox_world" where
  "cleanup_mounted root mounted w =
     (case take_down {EINVAL, ENOENT} root (fold (take_down {}) (rev mounted) (None, w)) of (e, w1) \<Rightarrow>
        (case remove_root root w1 of (r, w2) \<Rightarrow> (keep_err e r {} ''Failed to clean up core sandbox directory'', w2)))"

definition own_dir :: "lstat_answer \<Rightarrow> bool" where
  "own_dir a = (case a of LInfo isDir symlink owner perm \<Rightarrow> isDir \<and> \<not> symlink \<and> owner \<and> perm = 0x1C0 | _ \<Rightarrow> False)"

definition cleanupLinuxSandboxRoot :: "string \<Rightarrow> sandbox_world \<Rightarrow> err option \<times> sandbox_world" where
  "cleanupLinuxSandboxRoot root w =
     (case sb_lstat w root of
        LNotExist \<Rightarrow> (None, w)
      | LFails \<Rightarrow> (Some (Wrapped ''Failed to read stale core sandbox directory'' SysErr), w)
      | LInfo isDir symlink owner perm \<Rightarrow>
          if \<not> own_dir (LInfo isDir symlink owner perm) then (None, w)
          else (case fold (take_down {EINVAL, ENOENT}) (linuxMountPointsUnder root w) (None, w) of (e, w1) \<Rightarrow>
              (case remove_root root w1 of (r, w2) \<Rightarrow> (keep_err e r {} ''Failed to clean up stale core sandbox directory'', w2))))"

definition sandboxRootPrefix :: string where "sandboxRootPrefix = ''kokorobox-core-sandbox-''"

text \<open>
  The owner of a root is in its name. \<open>stat\<close> gives the contents of \<open>/proc/<pid>/stat\<close>; what follows the last
  parenthesis there is ASCII, so \<open>strings.Fields\<close> separates at the ASCII spaces.
\<close>

fun ascii_fields :: "string \<Rightarrow> string \<Rightarrow> string list" where
  "ascii_fields acc [] = (if acc = [] then [] else [rev acc])"
| "ascii_fields acc (c # s) =
     (if c \<in> {CHR '' '', CHR 0x09, CHR 0x0A, CHR 0x0B, CHR 0x0C, CHR 0x0D} then (if acc = [] then ascii_fields [] s else rev acc # ascii_fields [] s)
      else ascii_fields (c # acc) s)"

definition linuxProcessStartTime :: "(int \<Rightarrow> string option) \<Rightarrow> int \<Rightarrow> string res" where
  "linuxProcessStartTime stat pid =
     (case stat pid of
        None \<Rightarrow> Inl SysErr
      | Some d \<Rightarrow>
          if CHR '')'' \<notin> set d then Inl (Plain ''Invalid process status format'')
          else (let fields = ascii_fields [] (rev (takeWhile (\<lambda>c. c \<noteq> CHR '')'') (rev d))) in
                if length fields \<le> 19 then Inl (Plain ''Insufficient process status fields'') else Inr (fields ! 19)))"

definition strings_TrimPrefix :: "string \<Rightarrow> string \<Rightarrow> string" where
  "strings_TrimPrefix s p = (if has_prefix s p then drop (length p) s else s)"

definition sandboxRootOwnerActive :: "(int \<Rightarrow> string option) \<Rightarrow> string \<Rightarrow> bool" where
  "sandboxRootOwnerActive stat root =
     (case strings_Cut (strings_TrimPrefix (path_Base root) sandboxRootPrefix) (CHR ''-'') of (pidValue, rest, ok) \<Rightarrow>
        if \<not> ok then False
        else (case strings_Cut rest (CHR ''-'') of (startTime, _, ok2) \<Rightarrow>
            if \<not> ok2 then False
            else (case parse_int 64 pidValue of
                None \<Rightarrow> False
              | Some pid \<Rightarrow> if pid \<le> 0 then False else linuxProcessStartTime stat pid = Inr startTime)))"

definition cleanupStaleLinuxSandboxRoots :: "(int \<Rightarrow> string option) \<Rightarrow> string list option \<Rightarrow> sandbox_world \<Rightarrow> sandbox_world" where
  "cleanupStaleLinuxSandboxRoots stat roots w =
     (case roots of
        None \<Rightarrow> w
      | Some rs \<Rightarrow> fold (\<lambda>root w. if sandboxRootOwnerActive stat root then w else snd (cleanupLinuxSandboxRoot root w)) rs w)"

definition sandboxRootTemplate :: "(int \<Rightarrow> string option) \<Rightarrow> nat \<Rightarrow> string res" where
  "sandboxRootTemplate stat self =
     (case linuxProcessStartTime stat (int self) of
        Inl e \<Rightarrow> Inl (Wrapped ''Failed to read service process start time'' e)
      | Inr startTime \<Rightarrow> Inr (sandboxRootPrefix @ format_nat self @ ''-'' @ startTime @ ''-''))"

text \<open>\<open>rnd\<close> is what \<open>os.MkdirTemp\<close> puts for the star.\<close>

definition createSandboxRoot :: "(int \<Rightarrow> string option) \<Rightarrow> nat \<Rightarrow> string list option \<Rightarrow> string \<Rightarrow> sandbox_world \<Rightarrow> string res \<times> sandbox_world" where
  "createSandboxRoot stat self roots rnd w =
     (let w0 = cleanupStaleLinuxSandboxRoots stat roots w in
      case sandboxRootTemplate stat self of
        Inl e \<Rightarrow> (Inl e, w0)
      | Inr template \<Rightarrow>
          (case sys_call w0 of (r, w1) \<Rightarrow>
             if r \<noteq> SysOk then (Inl (Wrapped ''Failed to create core sandbox directory'' SysErr), w1)
             else (let root = path_Join (sb_tempDir w1) (template @ rnd) in
                   (Inr root, w1\<lparr>sb_roots := sb_roots w1 @ [root], sb_lstat := (sb_lstat w1)(root := LInfo True False True 0x1C0)\<rparr>))))"

definition validateSandboxRoot :: "string \<Rightarrow> sandbox_world \<Rightarrow> err option" where
  "validateSandboxRoot root0 w =
     (let root = path_Clean root0 in
      if path_Dir root \<noteq> path_Clean (sb_tempDir w) \<or> \<not> has_prefix (path_Base root) sandboxRootPrefix
      then Some (Plain (''Untrusted core sandbox directory: '' @ root))
      else (case sb_lstat w root of
          LInfo isDir symlink owner perm \<Rightarrow>
            if own_dir (LInfo isDir symlink owner perm) then None else Some (Plain (''Invalid core sandbox directory permissions: '' @ root))
        | _ \<Rightarrow> Some (Wrapped ''Failed to read core sandbox directory'' SysErr)))"

definition ensureXTablesLock :: "sandbox_world \<Rightarrow> err option \<times> sandbox_world" where
  "ensureXTablesLock w =
     (case sys_calls 2 w of (r, w1) \<Rightarrow> (sys_error ''Failed to prepare shared iptables lock'' r, w1))"

fun mount_all :: "string \<Rightarrow> string list \<Rightarrow> sandbox_mount list \<Rightarrow> sandbox_world \<Rightarrow> err option \<times> sandbox_world" where
  "mount_all root mounted [] w = (None, w)"
| "mount_all root mounted (m # ms) w =
     (let target = sandboxTarget root (mt_target m) in
      case mountIntoSandbox target m w of
        (Some e, w1) \<Rightarrow> (Some e, snd (cleanup_mounted root mounted w1))
      | (None, w1) \<Rightarrow> mount_all root (mounted @ [target]) ms w1)"

definition sandbox_err :: "sandbox_error \<Rightarrow> err" where
  "sandbox_err e = (case e of ConfigError x \<Rightarrow> x | OtherError x \<Rightarrow> x)"

definition prepareRoot :: "sandbox_config \<Rightarrow> string \<Rightarrow> sandbox_world \<Rightarrow> err option \<times> sandbox_world" where
  "prepareRoot config root w =
     (case validateSandboxRoot root w of
        Some e \<Rightarrow> (Some e, w)
      | None \<Rightarrow>
          (case ensureXTablesLock w of
             (Some e, w1) \<Rightarrow> (Some e, w1)
           | (None, w1) \<Rightarrow>
               (case sandboxMounts (sb_fs w1) config of
                  Inl e \<Rightarrow> (Some (sandbox_err e), w1)
                | Inr mounts \<Rightarrow>
                    (case mountSandboxRoot root w1 of
                       (Some e, w2) \<Rightarrow> (Some e, w2)
                     | (None, w2) \<Rightarrow>
                         (case prepareLinuxSandboxStaticLayout w2 of
                            (Some e, w3) \<Rightarrow> (Some e, snd (cleanupLinuxSandboxRoot root w3))
                          | (None, w3) \<Rightarrow> mount_all root [] mounts w3)))))"

section \<open>The plan\<close>

lemma insert_targets: "mt_target ` set (insert_mount m xs) = insert (mt_target m) (mt_target ` set xs)"
  by (induction xs) (auto simp: merge_mount_def)

lemma insert_distinct: "distinct (map mt_target xs) \<Longrightarrow> distinct (map mt_target (insert_mount m xs))"
proof (induction xs)
  case (Cons x xs)
  then have "mt_target x \<noteq> mt_target m \<Longrightarrow> mt_target x \<notin> mt_target ` set (insert_mount m xs)" by (auto simp: insert_targets)
  then show ?case using Cons by (auto simp: merge_mount_def)
qed simp

text \<open>The flags of a target after all requests for it were merged.\<close>

definition read_only_at :: "string \<Rightarrow> sandbox_mount list \<Rightarrow> bool option" where
  "read_only_at t ms = map_option mt_readOnly (find (\<lambda>m. mt_target m = t) ms)"

lemma insert_read_only:
  "read_only_at t (insert_mount m xs) =
     (if mt_target m = t then Some (mt_readOnly m \<and> (case read_only_at t xs of None \<Rightarrow> True | Some b \<Rightarrow> b)) else read_only_at t xs)"
  by (induction xs) (auto simp: read_only_at_def merge_mount_def split: option.split)

definition requests :: "string \<Rightarrow> sandbox_mount list \<Rightarrow> sandbox_mount list" where
  "requests t ms = filter (\<lambda>m. mt_target m = t) ms"

definition all_read_only :: "sandbox_mount list \<Rightarrow> bool option" where
  "all_read_only ms = (if ms = [] then None else Some (\<forall>m \<in> set ms. mt_readOnly m))"

lemma fold_read_only:
  "read_only_at t (fold insert_mount ms xs) =
     (if requests t ms = [] then read_only_at t xs
      else Some ((\<forall>m \<in> set (requests t ms). mt_readOnly m) \<and> (case read_only_at t xs of None \<Rightarrow> True | Some b \<Rightarrow> b)))"
  by (induction ms arbitrary: xs) (auto simp: requests_def insert_read_only)

lemma fold_distinct: "distinct (map mt_target xs) \<Longrightarrow> distinct (map mt_target (fold insert_mount ms xs))"
  by (induction ms arbitrary: xs) (simp_all add: insert_distinct)

lemma find_distinct: "distinct (map mt_target xs) \<Longrightarrow> m \<in> set xs \<Longrightarrow> find (\<lambda>x. mt_target x = mt_target m) xs = Some m"
  by (induction xs) (auto simp: image_iff)

text \<open>The requests, cleaned.\<close>

definition cleaned :: "sandbox_mount list \<Rightarrow> sandbox_mount list" where
  "cleaned ms = map clean_mount (filter (\<lambda>m. mt_target m \<noteq> []) ms)"

lemma compact_alt: "compactSandboxMounts ms = sort_key (\<lambda>m. depth (mt_target m)) (fold insert_mount (cleaned ms) [])"
  by (simp add: compactSandboxMounts_def cleaned_def fold_map comp_def)

lemma compact_distinct: "distinct (map mt_target (compactSandboxMounts ms))"
proof -
  have "mset (map mt_target (compactSandboxMounts ms)) = mset (map mt_target (fold insert_mount (cleaned ms) []))"
    by (simp add: compact_alt)
  then show ?thesis using fold_distinct [of "[]" "cleaned ms"] by (metis distinct.simps(1) list.simps(8) mset_eq_imp_distinct_iff)
qed

lemma compact_read_only:
  assumes "m \<in> set (compactSandboxMounts ms)"
  shows "requests (mt_target m) (cleaned ms) \<noteq> [] \<and> mt_readOnly m = (\<forall>x \<in> set (requests (mt_target m) (cleaned ms)). mt_readOnly x)"
proof -
  let ?r = "fold insert_mount (cleaned ms) []"
  have "m \<in> set ?r" using assms by (simp add: compact_alt)
  then have "read_only_at (mt_target m) ?r = Some (mt_readOnly m)"
    using find_distinct [OF fold_distinct, of "[]" m "cleaned ms"] by (simp add: read_only_at_def)
  then show ?thesis using fold_read_only [of "mt_target m" "cleaned ms" "[]"] by (auto simp: read_only_at_def split: if_splits)
qed

lemma compact_targets: "mt_target ` set (compactSandboxMounts ms) = mt_target ` set (cleaned ms)"
proof -
  have "mt_target ` set (fold insert_mount xs ys) = mt_target ` set xs \<union> mt_target ` set ys" for xs ys
    by (induction xs arbitrary: ys) (auto simp: insert_targets)
  from this [of "cleaned ms" "[]"] show ?thesis by (simp add: compact_alt)
qed

lemma compact_complete: "x \<in> set (cleaned ms) \<Longrightarrow> \<exists>m \<in> set (compactSandboxMounts ms). mt_target m = mt_target x"
  using compact_targets [of ms] by (metis image_iff)

lemma depth_below: "depth (a @ ''/'' @ rest) = depth a + 1 + depth rest"
  by (simp add: depth_def)

lemma compact_order:
  assumes "i < j" "j < length (compactSandboxMounts ms)"
  shows "mt_target (compactSandboxMounts ms ! i) \<noteq> mt_target (compactSandboxMounts ms ! j) @ ''/'' @ rest"
proof
  let ?r = "compactSandboxMounts ms"
  assume "mt_target (?r ! i) = mt_target (?r ! j) @ ''/'' @ rest"
  then have "depth (mt_target (?r ! j)) < depth (mt_target (?r ! i))" by (simp only: depth_below)
  moreover have "sorted (map (\<lambda>m. depth (mt_target m)) ?r)" by (simp add: compact_alt)
  then have "depth (mt_target (?r ! i)) \<le> depth (mt_target (?r ! j))" using assms by (simp add: sorted_iff_nth_mono_less)
  ultimately show False by simp
qed

text \<open>
  The root directory counts as deep as the directories in it, so a request for it is carried out after
  theirs and hides them: a core whose directory is the root runs without isolation.
\<close>

lemma root_mounted_last:
  "map mt_target (compactSandboxMounts
     [\<lparr>mt_source = ''/usr'', mt_target = ''/usr'', mt_readOnly = True, mt_isFile = False, mt_proc = False\<rparr>,
      \<lparr>mt_source = ''/'', mt_target = ''/'', mt_readOnly = False, mt_isFile = False, mt_proc = False\<rparr>]) = [''/usr'', ''/'']"
  by (simp add: compactSandboxMounts_def clean_mount_def path_Clean_def has_prefix_def depth_def)

text \<open>The places that a plan may make writable.\<close>

definition writable_places :: "sandbox_fs \<Rightarrow> sandbox_config \<Rightarrow> string list" where
  "writable_places fs config =
     [''/run/xtables.lock'', ''/proc''] @ sandbox_devices @
     filter (\<lambda>d. \<not> pathWithin d ''/nix/store'')
       (concat (map (\<lambda>r. case r of Inl _ \<Rightarrow> [] | Inr d \<Rightarrow> [d])
         [sandboxDirForPath fs (sc_ExecutablePath config), case sf_eval fs (sc_ExecutablePath config) of Inl e \<Rightarrow> Inl e | Inr p \<Rightarrow> sandboxDirForPath fs p])) @
     concat (map (\<lambda>p. case normalizeSandboxPath fs p of Inl _ \<Rightarrow> [] | Inr d \<Rightarrow> [d]) (sc_WritablePaths config)) @
     concat (map (\<lambda>p. case writableSandboxDir fs p of Inl _ \<Rightarrow> [] | Inr d \<Rightarrow> [d]) (sc_WritableDirs config))"

text \<open>What one step of the plan may add: read-only mounts, and writable ones at a given place. The targets are clean.\<close>

definition adds :: "string set \<Rightarrow> ('e + sandbox_mount list) \<Rightarrow> bool" where
  "adds places r = (case r of Inl _ \<Rightarrow> True | Inr ms \<Rightarrow> \<forall>m \<in> set ms. mt_target m = path_Clean (mt_target m) \<and> (mt_readOnly m \<or> mt_target m \<in> places))"

lemma collect_adds: "\<forall>r \<in> set rs. adds places r \<Longrightarrow> adds places (collect rs)"
  by (induction rs rule: collect.induct) (auto simp: adds_def split: sum.splits)

lemma adds_mono: "adds A r \<Longrightarrow> A \<subseteq> B \<Longrightarrow> adds B r"
  by (auto simp: adds_def split: sum.splits)

lemma adds_other [simp]: "adds A (other r) = adds A r"
  by (simp add: adds_def other_def split: sum.split)

definition cwd_ok :: "sandbox_fs \<Rightarrow> bool" where
  "cwd_ok fs = (\<forall>d. sf_cwd fs = Some d \<longrightarrow> path_IsAbs d)"

definition clean_path :: "string \<Rightarrow> bool" where
  "clean_path p = (path_IsAbs p \<and> path_Clean p = p)"

lemma normalize_clean: "normalizeSandboxPath fs p = Inr q \<Longrightarrow> cwd_ok fs \<Longrightarrow> clean_path q"
  using clean_abs clean_idem abs_of_abs [of "sf_cwd fs" p]
  by (fastforce simp: normalizeSandboxPath_def cwd_ok_def clean_path_def split: if_splits sum.splits)

lemma normalize_kept: "clean_path q \<Longrightarrow> normalizeSandboxPath fs q = Inr r \<Longrightarrow> r = q"
  by (auto simp: normalizeSandboxPath_def clean_path_def split: if_splits)

lemma dir_clean: "path_IsAbs p \<Longrightarrow> clean_path (path_Dir p)"
proof -
  assume "path_IsAbs p"
  then obtain q where p: "p = CHR ''/'' # q" by (cases p) (auto simp: path_IsAbs_def has_prefix_def)
  have "rev (dropWhile (\<lambda>c. c \<noteq> CHR ''/'') (rev p)) = CHR ''/'' # rev (dropWhile (\<lambda>c. c \<noteq> CHR ''/'') (rev q)) \<or>
    rev (dropWhile (\<lambda>c. c \<noteq> CHR ''/'') (rev p)) = ''/''" unfolding p by (simp add: dropWhile_append)
  then have "path_IsAbs (rev (dropWhile (\<lambda>c. c \<noteq> CHR ''/'') (rev p)))" by (auto simp: path_IsAbs_def has_prefix_def)
  then show ?thesis by (simp add: path_Dir_def clean_path_def clean_abs clean_idem)
qed

lemma dirFor_clean: "sandboxDirForPath fs p = Inr d \<Longrightarrow> cwd_ok fs \<Longrightarrow> clean_path d"
  using normalize_clean dir_clean by (auto simp: sandboxDirForPath_def clean_path_def split: sum.splits stat_answer.splits)

lemma writableDir_clean: "writableSandboxDir fs p = Inr d \<Longrightarrow> cwd_ok fs \<Longrightarrow> clean_path d"
  using normalize_clean dir_clean by (auto simp: writableSandboxDir_def clean_path_def split: sum.splits stat_answer.splits)

lemma adds_mount:
  assumes "cwd_ok fs" "\<And>q. normalizeSandboxPath fs p = Inr q \<Longrightarrow> readOnly \<or> q \<in> A"
  shows "adds A (addMount fs p readOnly isFile)"
  using normalize_clean [OF _ assms(1), of p] assms(2) by (auto simp: addMount_def adds_def clean_path_def split: sum.split)

lemma adds_clean_mount: "cwd_ok fs \<Longrightarrow> clean_path d \<Longrightarrow> readOnly \<or> d \<in> A \<Longrightarrow> adds A (addMount fs d readOnly isFile)"
  using normalize_kept by (blast intro: adds_mount)

lemma adds_exists: "cwd_ok fs \<Longrightarrow> clean_path d \<Longrightarrow> readOnly \<or> d \<in> A \<Longrightarrow> adds A (addMountIfExists fs d readOnly isFile)"
  using adds_clean_mount by (simp add: addMountIfExists_def adds_def)

lemma adds_path:
  assumes "cwd_ok fs" "\<And>q. normalizeSandboxPath fs p = Inr q \<Longrightarrow> readOnly \<or> q \<in> A"
  shows "adds A (addPath fs readOnly p)"
proof (cases "normalizeSandboxPath fs p")
  case (Inr q)
  have "adds A (addMount fs q readOnly f)" for f using adds_clean_mount [OF assms(1) normalize_clean [OF Inr assms(1)]] assms(2) Inr by blast
  then show ?thesis using Inr by (auto simp: addPath_def adds_def split: stat_answer.split)
qed (simp add: addPath_def adds_def)

lemma adds_trusted: "adds A (addPath fs False p) \<Longrightarrow> adds A (trusted_mounts fs p)"
  by (auto simp: trusted_mounts_def adds_def split: sum.split)

lemma adds_writableDir:
  assumes "cwd_ok fs" "\<And>d. writableSandboxDir fs p = Inr d \<Longrightarrow> d \<in> A"
  shows "adds A (addWritableDir fs p)"
  using adds_clean_mount [OF assms(1) writableDir_clean [OF _ assms(1)], of p _ False A] assms(2)
  by (auto simp: addWritableDir_def split: sum.split) (simp add: adds_def)

lemma adds_workdir: "cwd_ok fs \<Longrightarrow> adds A (workdir_mounts fs coreDir wd)"
  using adds_clean_mount [of fs _ True A False] dirFor_clean [of fs wd] by (auto simp: workdir_mounts_def split: sum.split) (auto simp: adds_def)

lemma adds_core:
  assumes "cwd_ok fs" "core_mounts fs config = Inr (coreDir, ms)"
  shows "adds (set (writable_places fs config)) (Inr ms :: sandbox_error + sandbox_mount list)"
proof -
  let ?A = "set (writable_places fs config)"
  obtain ms1 resolved resolvedDir where d: "sandboxDirForPath fs (sc_ExecutablePath config) = Inr coreDir"
    "addMount fs coreDir (pathWithin coreDir ''/nix/store'') False = Inr ms1"
    and r: "sf_eval fs (sc_ExecutablePath config) = Inr resolved" "sandboxDirForPath fs resolved = Inr resolvedDir"
    and m: "if resolvedDir = coreDir then ms = ms1 else \<exists>ms2. addMount fs resolvedDir (pathWithin resolvedDir ''/nix/store'') False = Inr ms2 \<and> ms = ms1 @ ms2"
    using assms(2) by (auto simp: core_mounts_def split: sum.splits if_splits)
  have "pathWithin coreDir ''/nix/store'' \<or> coreDir \<in> ?A" "pathWithin resolvedDir ''/nix/store'' \<or> resolvedDir \<in> ?A"
    using d(1) r by (auto simp: writable_places_def)
  then have "adds ?A (addMount fs coreDir (pathWithin coreDir ''/nix/store'') False)" "adds ?A (addMount fs resolvedDir (pathWithin resolvedDir ''/nix/store'') False)"
    using adds_clean_mount [OF assms(1)] dirFor_clean [OF _ assms(1)] d(1) r(2) by blast+
  then show ?thesis using d(2) m by (auto simp: adds_def split: if_splits)
qed

lemma system_clean: "d \<in> set system_dirs \<Longrightarrow> clean_path d" "clean_path ''/run/xtables.lock''"
  by (auto simp: system_dirs_def clean_path_def path_IsAbs_def has_prefix_def path_Clean_def)

lemma device_clean: "d \<in> set sandbox_devices \<Longrightarrow> clean_path d"
  by (auto simp: sandbox_devices_def clean_path_def path_IsAbs_def has_prefix_def path_Clean_def)

lemma plan_adds:
  assumes "cwd_ok fs" "sandboxMounts fs config = Inr ms" "\<forall>p \<in> set (sc_WritablePaths config). path_Clean p \<noteq> ''/''"
  obtains reqs where "ms = compactSandboxMounts reqs" "adds (set (writable_places fs config)) (Inr reqs :: sandbox_error + sandbox_mount list)"
    "\<forall>d \<in> set system_dirs. sf_stat fs d \<noteq> NotExist \<longrightarrow> (\<exists>m \<in> set reqs. mt_target m = d)"
proof -
  let ?A = "set (writable_places fs config)"
  let ?r1 = "collect (map (\<lambda>d. addMountIfExists fs d True False) system_dirs @ [addMount fs ''/run/xtables.lock'' False True])"
  obtain ms1 coreDir ms2 where 1: "?r1 = Inr ms1" and 2: "core_mounts fs config = Inr (coreDir, ms2)"
    using assms(2,3) by (auto simp: sandboxMounts_def split: sum.splits if_splits)
  let ?rs = "map (\<lambda>p. other (addPath fs True p)) (sc_ReadOnlyPaths config) @ [other (workdir_mounts fs coreDir (sc_WorkingDir config))] @
    map (trusted_mounts fs) (sc_WritablePaths config) @ map (\<lambda>p. other (addWritableDir fs p)) (sc_WritableDirs config) @
    [Inr [proc_mount]] @ map (\<lambda>d. other (addMountIfExists fs d False True)) sandbox_devices"
  obtain ms3 where 3: "collect ?rs = Inr ms3" and ms: "ms = compactSandboxMounts (ms1 @ ms2 @ ms3)"
    using assms(2,3) 1 2 by (auto simp: sandboxMounts_def split: sum.splits if_splits)
  have a1: "adds ?A ?r1"
    using adds_exists [OF assms(1) system_clean(1), of _ True ?A False] adds_clean_mount [OF assms(1) system_clean(2), of False ?A True]
    by (intro collect_adds) (auto simp: writable_places_def)
  have t: "adds ?A (trusted_mounts fs p)" if "p \<in> set (sc_WritablePaths config)" for p
    using that by (intro adds_trusted adds_path [OF assms(1)]) (force simp: writable_places_def)
  have d: "adds ?A (addWritableDir fs p)" if "p \<in> set (sc_WritableDirs config)" for p
    using that by (intro adds_writableDir [OF assms(1)]) (force simp: writable_places_def)
  have v: "adds ?A (addMountIfExists fs d False True)" if "d \<in> set sandbox_devices" for d
    using that by (intro adds_exists [OF assms(1) device_clean]) (simp_all add: writable_places_def)
  have p: "adds ?A (Inr [proc_mount] :: sandbox_error + sandbox_mount list)"
    by (simp add: adds_def proc_mount_def writable_places_def path_Clean_def)
  have "adds ?A (addPath fs True p)" "adds ?A (workdir_mounts fs coreDir wd)" for p wd
    by (auto intro: adds_path adds_workdir assms(1))
  then have a3: "adds ?A (collect ?rs)" using t d v p by (intro collect_adds) auto
  have s: "\<exists>m \<in> set ms1. mt_target m = d" if dir: "d \<in> set system_dirs" "sf_stat fs d \<noteq> NotExist" for d
  proof -
    have in_collect: "\<exists>ns. r = Inr ns \<and> set ns \<subseteq> set xs" if "collect rs = Inr xs" "r \<in> set rs" for r xs and rs :: "(err + sandbox_mount list) list"
      using that by (induction rs arbitrary: xs rule: collect.induct) (fastforce split: sum.splits)+
    obtain ns where ns: "addMountIfExists fs d True False = Inr ns" "set ns \<subseteq> set ms1" using in_collect [OF 1, of "addMountIfExists fs d True False"] dir(1) by auto
    then have am: "addMount fs d True False = Inr ns" using dir(2) by (simp add: addMountIfExists_def)
    then obtain q where q: "normalizeSandboxPath fs d = Inr q" by (cases "normalizeSandboxPath fs d") (simp_all add: addMount_def)
    have "q = d" using normalize_kept [OF system_clean(1) [OF dir(1)] q] .
    then have "ns = [\<lparr>mt_source = d, mt_target = d, mt_readOnly = True, mt_isFile = False, mt_proc = False\<rparr>]"
      using am q by (simp add: addMount_def split: if_splits)
    then show ?thesis using ns(2) by force
  qed
  show ?thesis
  proof (rule that [OF ms])
    show "adds ?A (Inr (ms1 @ ms2 @ ms3) :: sandbox_error + sandbox_mount list)" using a1 1 adds_core [OF assms(1) 2] a3 3 by (auto simp: adds_def)
    show "\<forall>d \<in> set system_dirs. sf_stat fs d \<noteq> NotExist \<longrightarrow> (\<exists>m \<in> set (ms1 @ ms2 @ ms3). mt_target m = d)" using s by fastforce
  qed
qed

lemma plan_writable:
  assumes "cwd_ok fs" "sandboxMounts fs config = Inr ms" "\<forall>p \<in> set (sc_WritablePaths config). path_Clean p \<noteq> ''/''" "m \<in> set ms" "\<not> mt_readOnly m"
  shows "mt_target m \<in> set (writable_places fs config)"
proof -
  from plan_adds [OF assms(1-3)] obtain reqs where r: "ms = compactSandboxMounts reqs"
    and a: "adds (set (writable_places fs config)) (Inr reqs :: sandbox_error + sandbox_mount list)" by blast
  from compact_read_only [of m reqs] assms(4,5) r obtain x where x: "x \<in> set (cleaned reqs)" "mt_target x = mt_target m" "\<not> mt_readOnly x"
    by (auto simp: requests_def)
  then obtain y where "y \<in> set reqs" "mt_target x = path_Clean (mt_target y)" "mt_readOnly x = mt_readOnly y" by (auto simp: cleaned_def clean_mount_def)
  then show ?thesis using a x by (auto simp: adds_def)
qed

lemma plan_system:
  assumes "cwd_ok fs" "sandboxMounts fs config = Inr ms" "\<forall>p \<in> set (sc_WritablePaths config). path_Clean p \<noteq> ''/''"
    and "d \<in> set system_dirs" "sf_stat fs d \<noteq> NotExist" "d \<notin> set (writable_places fs config)"
  shows "\<exists>m \<in> set ms. mt_target m = d \<and> mt_readOnly m"
proof -
  obtain reqs where r: "ms = compactSandboxMounts reqs"
    and s: "\<forall>d \<in> set system_dirs. sf_stat fs d \<noteq> NotExist \<longrightarrow> (\<exists>m \<in> set reqs. mt_target m = d)"
    by (rule plan_adds [OF assms(1-3)])
  then obtain y where y: "y \<in> set reqs" "mt_target y = d" using assms(4,5) by blast
  have c: "path_Clean d = d" "d \<noteq> []" using system_clean(1) [OF assms(4)] by (auto simp: clean_path_def path_IsAbs_def has_prefix_def)
  have "clean_mount y \<in> set (cleaned reqs)" "mt_target (clean_mount y) = d" using y c by (auto simp: cleaned_def) (simp add: clean_mount_def)
  then obtain m where "m \<in> set ms" "mt_target m = d" using compact_complete r by metis
  then show ?thesis using plan_writable [OF assms(1-3)] assms(6) by blast
qed

section \<open>Mounting\<close>

definition all_ok :: "sandbox_world \<Rightarrow> bool" where
  "all_ok w = (\<forall>r \<in> set (sb_ios w). r = SysOk)"

definition one_failure :: "sandbox_world \<Rightarrow> bool" where
  "one_failure w = (length (filter (\<lambda>r. r \<noteq> SysOk) (sb_ios w)) \<le> 1)"

lemma all_ok_one: "all_ok w \<Longrightarrow> one_failure w"
  by (simp add: all_ok_def one_failure_def filter_False)

text \<open>What a call leaves alone.\<close>

definition same_sandbox :: "sandbox_world \<Rightarrow> sandbox_world \<Rightarrow> bool" where
  "same_sandbox w w' = (sb_mounts w' = sb_mounts w \<and> sb_wiped w' = sb_wiped w \<and> sb_lstat w' = sb_lstat w \<and> sb_fs w' = sb_fs w)"

lemma sys_call_same: "same_sandbox w (snd (sys_call w))"
  by (simp add: same_sandbox_def sys_call_def split: list.split)

lemma sys_call_one:
  assumes "one_failure w" "sys_call w = (r, w1)"
  shows "one_failure w1 \<and> (r \<noteq> SysOk \<longrightarrow> all_ok w1)"
proof (cases "sb_ios w")
  case (Cons x xs)
  have r: "r = x" "w1 = w\<lparr>sb_ios := xs\<rparr>" using assms(2) Cons by (simp_all add: sys_call_def)
  show ?thesis
  proof (cases "x = SysOk")
    case False
    then have "filter (\<lambda>r. r \<noteq> SysOk) xs = []" using assms(1) Cons by (simp add: one_failure_def)
    then have "all_ok w1" by (simp add: r all_ok_def filter_empty_conv)
    then show ?thesis by (simp add: all_ok_one)
  qed (use assms(1) Cons r in \<open>simp add: one_failure_def\<close>)
qed (use assms in \<open>simp add: sys_call_def one_failure_def split: list.splits\<close>)

lemma sys_call_ok: "all_ok w \<Longrightarrow> fst (sys_call w) = SysOk \<and> all_ok (snd (sys_call w))"
  by (simp add: sys_call_def all_ok_def split: list.split)

lemma same_sandbox_trans [trans]: "same_sandbox w w1 \<Longrightarrow> same_sandbox w1 w2 \<Longrightarrow> same_sandbox w w2"
  by (simp add: same_sandbox_def)

lemma same_sandbox_refl [simp, intro]: "same_sandbox w w"
  by (simp add: same_sandbox_def)

text \<open>
  A step under at most one failing call: if it reports an error, the failure is behind it; either way it
  changes the mounts as said.
\<close>

definition step_ok :: "('r \<Rightarrow> bool) \<Rightarrow> string list \<Rightarrow> sandbox_world \<Rightarrow> 'r \<times> sandbox_world \<Rightarrow> bool" where
  "step_ok bad added w s = (case s of (r, w1) \<Rightarrow>
     one_failure w1 \<and> sb_wiped w1 = sb_wiped w \<and> sb_lstat w1 = sb_lstat w \<and> sb_fs w1 = sb_fs w \<and>
     (if bad r then all_ok w1 \<and> sb_mounts w1 = sb_mounts w else sb_mounts w1 = added @ sb_mounts w))"

lemma step_sys: "one_failure w \<Longrightarrow> step_ok (\<lambda>r. r \<noteq> SysOk) [] w (sys_call w)"
  using sys_call_one [of w] sys_call_same [of w] by (auto simp: step_ok_def same_sandbox_def split: prod.split)

lemma step_syss: "one_failure w \<Longrightarrow> step_ok (\<lambda>r. r \<noteq> SysOk) [] w (sys_calls n w)"
proof (induction n arbitrary: w)
  case (Suc n)
  obtain r w1 where s: "sys_call w = (r, w1)" by fastforce
  have 1: "step_ok (\<lambda>r. r \<noteq> SysOk) [] w (r, w1)" using step_sys [OF Suc.prems] s by simp
  then have "one_failure w1" by (simp add: step_ok_def)
  from Suc.IH [OF this] have "step_ok (\<lambda>r. r \<noteq> SysOk) [] w1 (sys_calls n w1)" .
  then show ?case using 1 s by (auto simp: step_ok_def split: prod.splits if_splits)
qed (simp add: step_ok_def)

lemma step_mount: "one_failure w \<Longrightarrow> step_ok (\<lambda>r. r \<noteq> SysOk) [p] w (mount_call p w)"
  using step_sys [of w] by (auto simp: step_ok_def mount_call_def one_failure_def all_ok_def split: prod.splits if_splits)

lemma step_on: "one_failure w \<Longrightarrow> p \<in> set (sb_mounts w) \<Longrightarrow> step_ok (\<lambda>r. r \<noteq> SysOk) [] w (on_mount p w)"
  using step_sys [of w] by (simp add: on_mount_def)

lemma step_private: "one_failure w \<Longrightarrow> p \<in> set (sb_mounts w) \<Longrightarrow> step_ok (\<lambda>r. r \<noteq> SysOk) [] w (makeSandboxMountPrivate p w)"
proof -
  assume a: "one_failure w" "p \<in> set (sb_mounts w)"
  obtain r w1 where s: "on_mount p w = (r, w1)" by fastforce
  have 1: "step_ok (\<lambda>r. r \<noteq> SysOk) [] w (r, w1)" using step_on [OF a] s by simp
  then have m: "sb_mounts w1 = sb_mounts w" "one_failure w1" by (auto simp: step_ok_def split: if_splits)
  have "step_ok (\<lambda>r. r \<noteq> SysOk) [] w1 (on_mount p w1)" using step_on [OF m(2)] a(2) m(1) by simp
  then show ?thesis using 1 s m by (auto simp: makeSandboxMountPrivate_def step_ok_def split: prod.splits if_splits)
qed

lemma unmount_ok:
  assumes "all_ok w" "p \<in> set (sb_mounts w)"
  shows "all_ok (snd (unmount_call p w)) \<and> sb_mounts (snd (unmount_call p w)) = remove1 p (sb_mounts w) \<and> sb_wiped (snd (unmount_call p w)) = sb_wiped w \<and>
    sb_lstat (snd (unmount_call p w)) = sb_lstat w \<and> sb_fs (snd (unmount_call p w)) = sb_fs w \<and> fst (unmount_call p w) = SysOk"
  using assms sys_call_ok [OF assms(1)] sys_call_same [of w]
  by (simp add: unmount_call_def on_mount_def case_prod_unfold same_sandbox_def all_ok_def)

lemma remount_ok: "all_ok w \<Longrightarrow> same_sandbox w (snd (remount_all ps w)) \<and> all_ok (snd (remount_all ps w))"
proof (induction ps arbitrary: w)
  case (Cons p ps)
  obtain r w1 where s: "on_mount p w = (r, w1)" by fastforce
  have "all_ok w1" "same_sandbox w w1" using s sys_call_ok [OF Cons.prems] sys_call_same [of w] Cons.prems by (auto simp: on_mount_def split: if_splits)
  then show ?case using Cons.IH [of w1] s same_sandbox_trans by auto
qed simp

text \<open>A mount that does not come about is not left half done.\<close>

lemma isolate_step:
  assumes "one_failure w2" "sb_mounts w2 = p # sb_mounts w" "sb_wiped w2 = sb_wiped w" "sb_lstat w2 = sb_lstat w" "sb_fs w2 = sb_fs w"
  shows "step_ok (\<lambda>e. e \<noteq> None) [p] w
    (case makeSandboxMountPrivate p w2 of (r3, w3) \<Rightarrow> if r3 \<noteq> SysOk then (sys_error m r3, snd (unmount_call p w3)) else (None, w3))"
proof -
  obtain r3 w3 where s: "makeSandboxMountPrivate p w2 = (r3, w3)" by fastforce
  have 1: "step_ok (\<lambda>r. r \<noteq> SysOk) [] w2 (r3, w3)" using step_private [OF assms(1), of p] assms(2) s by simp
  show ?thesis
  proof (cases "r3 = SysOk")
    case False
    then have "all_ok w3" "sb_mounts w3 = p # sb_mounts w" "sb_wiped w3 = sb_wiped w" "sb_lstat w3 = sb_lstat w" "sb_fs w3 = sb_fs w"
      using 1 assms by (simp_all add: step_ok_def)
    then show ?thesis using unmount_ok [of w3 p] s False by (simp add: step_ok_def all_ok_one sys_error_def)
  qed (use 1 assms s in \<open>simp add: step_ok_def\<close>)
qed

lemma kernel_step:
  assumes "one_failure w"
  shows "step_ok (\<lambda>e. e \<noteq> None) [p] w (mountKernelFilesystem p w)"
proof -
  obtain r w1 where 1: "sys_call w = (r, w1)" by fastforce
  obtain r2 w2 where 2: "mount_call p w1 = (r2, w2)" by fastforce
  have s1: "step_ok (\<lambda>r. r \<noteq> SysOk) [] w (r, w1)" using step_sys [OF assms] 1 by simp
  then have "one_failure w1" by (simp add: step_ok_def)
  from step_mount [OF this, of p] have s2: "step_ok (\<lambda>r. r \<noteq> SysOk) [p] w1 (r2, w2)" using 2 by simp
  show ?thesis
  proof (cases "r = SysOk \<and> r2 = SysOk")
    case True
    then show ?thesis using isolate_step [of w2 p w "''Failed to isolate sandbox mount '' @ p"] s1 s2 1 2 by (simp add: mountKernelFilesystem_def step_ok_def)
  next
    case False
    then show ?thesis using s1 s2 1 2 by (auto simp: mountKernelFilesystem_def step_ok_def sys_error_def)
  qed
qed

lemma read_only_step:
  assumes "one_failure w3" "sb_mounts w3 = p # sb_mounts w" "sb_wiped w3 = sb_wiped w" "sb_lstat w3 = sb_lstat w" "sb_fs w3 = sb_fs w"
  shows "step_ok (\<lambda>e. e \<noteq> None) [p] w
    (case on_mount p w3 of (r4, w4) \<Rightarrow>
       if r4 = SysOk then (None, w4)
       else (case makeSandboxMountTreeReadOnly p w4 of (None, w5) \<Rightarrow> (None, w5) | (Some e, w5) \<Rightarrow> (Some (Wrapped m e), snd (unmount_call p w5))))"
proof -
  obtain r4 w4 where 4: "on_mount p w3 = (r4, w4)" by fastforce
  have s: "step_ok (\<lambda>r. r \<noteq> SysOk) [] w3 (r4, w4)" using step_on [OF assms(1), of p] assms(2) 4 by simp
  obtain e w5 where 5: "makeSandboxMountTreeReadOnly p w4 = (e, w5)" by fastforce
  show ?thesis
  proof (cases "r4 = SysOk")
    case False
    then have w4: "all_ok w4" "same_sandbox w3 w4" using s by (simp_all add: step_ok_def same_sandbox_def)
    then have w5: "all_ok w5" "same_sandbox w4 w5"
      using remount_ok [OF w4(1)] 5 unfolding makeSandboxMountTreeReadOnly_def by (metis snd_conv)+
    then have "sb_mounts w5 = p # sb_mounts w" "sb_wiped w5 = sb_wiped w" "sb_lstat w5 = sb_lstat w" "sb_fs w5 = sb_fs w"
      using w4(2) assms by (simp_all add: same_sandbox_def)
    then show ?thesis using w5(1) unmount_ok [of w5 p] 4 5 False by (cases e) (simp_all add: step_ok_def all_ok_one)
  qed (use s assms 4 in \<open>simp add: step_ok_def\<close>)
qed

lemma mountInto_step:
  assumes "one_failure w"
  shows "step_ok (\<lambda>e. e \<noteq> None) [p] w (mountIntoSandbox p m w)"
proof (cases "mt_proc m")
  case False
  let ?n = "if mt_isFile m then 2 else 1 :: nat"
  obtain r w1 where 1: "sys_calls ?n w = (r, w1)" by fastforce
  obtain r2 w2 where 2: "mount_call p w1 = (r2, w2)" by fastforce
  obtain r3 w3 where 3: "makeSandboxMountPrivate p w2 = (r3, w3)" by fastforce
  have s1: "step_ok (\<lambda>r. r \<noteq> SysOk) [] w (r, w1)" using step_syss [OF assms, of ?n] 1 by simp
  then have "one_failure w1" by (simp add: step_ok_def)
  from step_mount [OF this, of p] have s2: "step_ok (\<lambda>r. r \<noteq> SysOk) [p] w1 (r2, w2)" using 2 by simp
  show ?thesis
  proof (cases "r = SysOk \<and> r2 = SysOk")
    case True
    then have w2: "one_failure w2" "sb_mounts w2 = p # sb_mounts w" "sb_wiped w2 = sb_wiped w" "sb_lstat w2 = sb_lstat w" "sb_fs w2 = sb_fs w"
      using s1 s2 by (simp_all add: step_ok_def)
    show ?thesis
    proof (cases "r3 = SysOk")
      case ok: True
      have "step_ok (\<lambda>r. r \<noteq> SysOk) [] w2 (r3, w3)" using step_private [OF w2(1), of p] w2(2) 3 by simp
      then have "one_failure w3" "sb_mounts w3 = p # sb_mounts w" "sb_wiped w3 = sb_wiped w" "sb_lstat w3 = sb_lstat w" "sb_fs w3 = sb_fs w"
        using ok w2 by (simp_all add: step_ok_def)
      then show ?thesis using read_only_step [of w3 p w "''Failed to make sandbox mount recursively read-only''"] True ok False 1 2 3
        by (cases "mt_readOnly m") (simp_all add: mountIntoSandbox_def step_ok_def)
    next
      case bad: False
      then show ?thesis using isolate_step [OF w2, of "''Failed to isolate sandbox mount '' @ mt_target m"] True False 1 2 3
        by (simp add: mountIntoSandbox_def)
    qed
  next
    case bad: False
    then show ?thesis using s1 s2 1 2 False by (auto simp: mountIntoSandbox_def step_ok_def sys_error_def)
  qed
qed (use kernel_step [OF assms] in \<open>simp add: mountIntoSandbox_def\<close>)

text \<open>Taking mount points down when every call succeeds.\<close>

lemma take_down_ok:
  assumes "all_ok w" "p \<in> set (sb_mounts w)"
  shows "\<exists>w1. take_down ig p (e, w) = (e, w1) \<and> all_ok w1 \<and> sb_mounts w1 = remove1 p (sb_mounts w) \<and> sb_wiped w1 = sb_wiped w \<and> sb_lstat w1 = sb_lstat w \<and> sb_fs w1 = sb_fs w"
proof -
  obtain r w1 where 1: "makeSandboxMountPrivate p w = (r, w1)" by fastforce
  have "r = SysOk" "all_ok w1" "same_sandbox w w1"
    using 1 sys_call_ok [OF assms(1)] sys_call_same [of w] assms(2)
    by (auto simp: makeSandboxMountPrivate_def on_mount_def split: prod.splits if_splits)
  then show ?thesis using unmount_ok [of w1 p] assms 1
    by (simp add: take_down_def case_prod_unfold keep_err_def same_sandbox_def prod_eq_iff)
qed

lemma take_downs_ok:
  assumes "all_ok w" "mset ps \<subseteq># mset (sb_mounts w)"
  shows "\<exists>w1. fold (take_down ig) ps (e, w) = (e, w1) \<and> all_ok w1 \<and> mset (sb_mounts w1) = mset (sb_mounts w) - mset ps \<and> sb_wiped w1 = sb_wiped w \<and> sb_lstat w1 = sb_lstat w \<and> sb_fs w1 = sb_fs w"
  using assms
proof (induction ps arbitrary: w)
  case (Cons p ps)
  have "p \<in># mset (sb_mounts w)" using Cons.prems(2) by (metis in_multiset_in_set insert_subset_eq_iff mset.simps(2))
  then have "p \<in> set (sb_mounts w)" by simp
  from take_down_ok [OF Cons.prems(1) this, of ig e] obtain w1 where w1: "take_down ig p (e, w) = (e, w1)" "all_ok w1"
    "sb_mounts w1 = remove1 p (sb_mounts w)" "sb_wiped w1 = sb_wiped w" "sb_lstat w1 = sb_lstat w" "sb_fs w1 = sb_fs w" by blast
  have "mset ps \<subseteq># mset (sb_mounts w1)" using Cons.prems(2) w1(3) by (simp add: insert_subset_eq_iff)
  from Cons.IH [OF w1(2) this] w1 show ?case by (simp add: mset_remove1)
qed simp

text \<open>A root under which nothing is mounted yet; mount points are clean paths.\<close>

definition fresh_root :: "string \<Rightarrow> string list \<Rightarrow> bool" where
  "fresh_root root old = (path_Clean root = root \<and> (\<forall>p \<in> set old. path_Clean p = p \<and> \<not> pathWithin p root))"

definition undone :: "sandbox_world \<Rightarrow> sandbox_world \<Rightarrow> bool" where
  "undone w w' = (mset (sb_mounts w') = mset (sb_mounts w) \<and> sb_wiped w' = sb_wiped w)"

lemma remove_root_wiped:
  assumes "\<forall>p \<in> set (sb_mounts w). \<not> pathWithin p root"
  shows "sb_mounts (snd (remove_root root w)) = sb_mounts w \<and> sb_wiped (snd (remove_root root w)) = sb_wiped w"
proof -
  have "filter (\<lambda>p. pathWithin p root) (sb_mounts w) = []" using assms by (simp add: filter_empty_conv)
  then show ?thesis using sys_call_same [of w] by (simp add: remove_root_def case_prod_unfold same_sandbox_def)
qed

lemma fresh_remove:
  assumes "mset (sb_mounts w) = mset old" "fresh_root root old"
  shows "mset (sb_mounts (snd (remove_root root w))) = mset old \<and> sb_wiped (snd (remove_root root w)) = sb_wiped w"
proof -
  have "set (sb_mounts w) = set old" using assms(1) by (rule mset_eq_setD)
  then show ?thesis using remove_root_wiped [of w root] assms by (auto simp: fresh_root_def)
qed

lemma cleanup_undoes:
  assumes "all_ok w" "mset (sb_mounts w) = mset mounted + {#root#} + mset old" "fresh_root root old"
  shows "mset (sb_mounts (snd (cleanup_mounted root mounted w))) = mset old \<and> sb_wiped (snd (cleanup_mounted root mounted w)) = sb_wiped w"
proof -
  have "mset (rev mounted) \<subseteq># mset (sb_mounts w)" using assms(2) by simp
  from take_downs_ok [OF assms(1) this, of "{}" None] obtain w1 where 1: "fold (take_down {}) (rev mounted) (None, w) = (None, w1)" "all_ok w1"
    "mset (sb_mounts w1) = mset (sb_mounts w) - mset (rev mounted)" "sb_wiped w1 = sb_wiped w" by blast
  have m1: "mset (sb_mounts w1) = {#root#} + mset old" using 1(3) assms(2) by simp
  then have "root \<in> set (sb_mounts w1)" by (metis in_multiset_in_set multi_member_this union_commute union_mset_add_mset_left)
  from take_down_ok [OF 1(2) this, of "{EINVAL, ENOENT}" None] obtain w2 where 2: "take_down {EINVAL, ENOENT} root (None, w1) = (None, w2)" "all_ok w2"
    "sb_mounts w2 = remove1 root (sb_mounts w1)" "sb_wiped w2 = sb_wiped w1" by blast
  have "mset (sb_mounts w2) = mset old" using 2(3) m1 by simp
  from fresh_remove [OF this assms(3)] show ?thesis using 1 2 by (simp add: cleanup_mounted_def case_prod_unfold)
qed

lemma mount_all_undone:
  assumes "one_failure w" "mset (sb_mounts w) = mset mounted + {#root#} + mset old" "fresh_root root old" "fst (mount_all root mounted ms w) = Some e"
  shows "mset (sb_mounts (snd (mount_all root mounted ms w))) = mset old \<and> sb_wiped (snd (mount_all root mounted ms w)) = sb_wiped w"
  using assms(1,2,4)
proof (induction ms arbitrary: mounted w)
  case (Cons m ms)
  let ?t = "sandboxTarget root (mt_target m)"
  obtain r w1 where 1: "mountIntoSandbox ?t m w = (r, w1)" by fastforce
  have s: "step_ok (\<lambda>e. e \<noteq> None) [?t] w (r, w1)" using mountInto_step [OF Cons.prems(1), of ?t m] 1 by simp
  show ?case
  proof (cases r)
    case None
    then have "one_failure w1" "mset (sb_mounts w1) = mset (mounted @ [?t]) + {#root#} + mset old" "sb_wiped w1 = sb_wiped w"
      using s Cons.prems(2) by (simp_all add: step_ok_def)
    with Cons.IH [of w1 "mounted @ [?t]"] Cons.prems(3) 1 None show ?thesis by (simp add: Let_def)
  next
    case (Some x)
    then have "all_ok w1" "mset (sb_mounts w1) = mset mounted + {#root#} + mset old" "sb_wiped w1 = sb_wiped w"
      using s Cons.prems(2) by (simp_all add: step_ok_def)
    with cleanup_undoes [OF _ _ assms(3), of w1 mounted] 1 Some show ?thesis by (simp add: Let_def)
  qed
qed simp

subsection \<open>The mount points under a root\<close>

lemma unescape_escape: "unescapeMountInfoPath (concat (map escape_char p)) = p"
proof (induction p)
  case (Cons c p)
  have n: "unescape_pair (c # s) = None" if "c \<noteq> CHR 0x5C" for s using that by (simp add: unescape_pair_def has_prefix_def)
  show ?case
  proof (cases "c \<in> {CHR '' '', CHR 0x09, CHR 0x0A, CHR 0x5C}")
    case True
    then show ?thesis using Cons.IH by (auto simp: escape_char_def unescape_pair_def has_prefix_def)
  next
    case False
    then have "escape_char c = [c]" by (simp add: escape_char_def)
    then show ?thesis using n [of "concat (map escape_char p)"] False Cons.IH by simp
  qed
qed simp

lemma points_under: "\<forall>p \<in> set (sb_mounts w). path_Clean p = p \<Longrightarrow> mset (linuxMountPointsUnder root w) = filter_mset (\<lambda>p. pathWithin p (path_Clean root)) (mset (sb_mounts w))"
proof -
  assume "\<forall>p \<in> set (sb_mounts w). path_Clean p = p"
  then have "map (\<lambda>p. path_Clean (unescapeMountInfoPath (concat (map escape_char p)))) (rev (sb_mounts w)) = rev (sb_mounts w)"
    by (auto simp: unescape_escape intro!: map_idI)
  then show ?thesis by (simp add: linuxMountPointsUnder_def mset_filter)
qed

lemma own_dir_info: "own_dir a \<Longrightarrow> a = LInfo True False True 0x1C0"
  by (cases a) (simp_all add: own_dir_def)

lemma stale_undoes:
  assumes "all_ok w" "mset (sb_mounts w) = {#root#} + mset old" "fresh_root root old" "own_dir (sb_lstat w root)"
  shows "mset (sb_mounts (snd (cleanupLinuxSandboxRoot root w))) = mset old \<and> sb_wiped (snd (cleanupLinuxSandboxRoot root w)) = sb_wiped w"
proof -
  have set: "set (sb_mounts w) = insert root (set old)" using assms(2) by (metis add_mset_add_single mset.simps(2) mset_eq_setD list.simps(15) union_commute)
  then have "\<forall>p \<in> set (sb_mounts w). path_Clean p = p" using assms(3) by (simp add: fresh_root_def)
  from points_under [OF this, of root] have "mset (linuxMountPointsUnder root w) = filter_mset (\<lambda>p. pathWithin p root) ({#root#} + mset old)"
    using assms(2,3) by (simp add: fresh_root_def)
  also have "\<dots> = {#root#}" using assms(3) by (simp add: fresh_root_def pathWithin_def filter_mset_eq_conv)
  finally have p: "linuxMountPointsUnder root w = [root]" by simp
  have "root \<in> set (sb_mounts w)" using set by simp
  from take_down_ok [OF assms(1) this, of "{EINVAL, ENOENT}" None] obtain w1 where 1: "take_down {EINVAL, ENOENT} root (None, w) = (None, w1)" "all_ok w1"
    "sb_mounts w1 = remove1 root (sb_mounts w)" "sb_wiped w1 = sb_wiped w" by blast
  have "mset (sb_mounts w1) = mset old" using 1(3) assms(2) by simp
  from fresh_remove [OF this assms(3)] own_dir_info [OF assms(4)] show ?thesis using 1 p assms(4)
    by (auto simp: cleanupLinuxSandboxRoot_def case_prod_unfold)
qed

subsection \<open>The whole root\<close>

lemma root_step:
  assumes "one_failure w"
  shows "step_ok (\<lambda>e. e \<noteq> None) [root] w (mountSandboxRoot root w)"
proof -
  obtain r w1 where 1: "mount_call root w = (r, w1)" by fastforce
  have s: "step_ok (\<lambda>r. r \<noteq> SysOk) [root] w (r, w1)" using step_mount [OF assms, of root] 1 by simp
  show ?thesis
  proof (cases "r = SysOk")
    case True
    then show ?thesis using isolate_step [of w1 root w "''Failed to isolate core sandbox root''"] s 1 by (simp add: mountSandboxRoot_def step_ok_def)
  qed (use s 1 in \<open>simp add: mountSandboxRoot_def step_ok_def sys_error_def\<close>)
qed

lemma layout_step:
  assumes "one_failure w"
  shows "step_ok (\<lambda>e. e \<noteq> None) [] w (prepareLinuxSandboxStaticLayout w)"
proof -
  obtain r w1 where 1: "sys_calls 4 w = (r, w1)" by fastforce
  obtain r2 w2 where 2: "sys_call w1 = (r2, w2)" by fastforce
  have s1: "step_ok (\<lambda>r. r \<noteq> SysOk) [] w (r, w1)" using step_syss [OF assms, of 4] 1 by simp
  then have "one_failure w1" by (simp add: step_ok_def)
  from step_sys [OF this] have "step_ok (\<lambda>r. r \<noteq> SysOk) [] w1 (r2, w2)" using 2 by simp
  then show ?thesis using s1 1 2 by (auto simp: prepareLinuxSandboxStaticLayout_def step_ok_def)
qed

lemma valid_root: "validateSandboxRoot root w = None \<Longrightarrow> path_Clean root = root \<Longrightarrow> own_dir (sb_lstat w root)"
  by (auto simp: validateSandboxRoot_def Let_def split: if_splits lstat_answer.splits)

lemma prepare_undone:
  assumes "one_failure w" "fresh_root root (sb_mounts w)" "fst (prepareRoot config root w) = Some e"
  shows "undone w (snd (prepareRoot config root w))"
proof (cases "validateSandboxRoot root w")
  case None
  have own: "own_dir (sb_lstat w root)" using valid_root [OF None] assms(2) by (simp add: fresh_root_def)
  obtain r w0 where 0: "sys_calls 2 w = (r, w0)" by fastforce
  have s0: "step_ok (\<lambda>r. r \<noteq> SysOk) [] w (r, w0)" using step_syss [OF assms(1), of 2] 0 by simp
  then have w0: "one_failure w0" "sb_mounts w0 = sb_mounts w" "sb_wiped w0 = sb_wiped w" "sb_lstat w0 = sb_lstat w" by (simp_all add: step_ok_def split: if_splits)
  have x: "ensureXTablesLock w = (sys_error ''Failed to prepare shared iptables lock'' r, w0)" using 0 by (simp add: ensureXTablesLock_def)
  show ?thesis
  proof (cases "r = SysOk \<and> (\<exists>ms. sandboxMounts (sb_fs w0) config = Inr ms)")
    case False
    then show ?thesis using None x w0 by (auto simp: prepareRoot_def undone_def sys_error_def split: sum.split)
  next
    case True
    then obtain ms where ms: "sandboxMounts (sb_fs w0) config = Inr ms" and ok: "sys_error ''Failed to prepare shared iptables lock'' r = None" by (auto simp: sys_error_def)
    obtain r1 w1 where 1: "mountSandboxRoot root w0 = (r1, w1)" by fastforce
    have s1: "step_ok (\<lambda>e. e \<noteq> None) [root] w0 (r1, w1)" using root_step [OF w0(1), of root] 1 by simp
    show ?thesis
    proof (cases r1)
      case (Some x1)
      then show ?thesis using None x ok ms 1 s1 w0 by (simp add: prepareRoot_def undone_def step_ok_def)
    next
      case r1: None
      have w1: "one_failure w1" "sb_mounts w1 = root # sb_mounts w" "sb_wiped w1 = sb_wiped w" "sb_lstat w1 = sb_lstat w"
        using s1 r1 w0 by (simp_all add: step_ok_def)
      obtain r2 w2 where 2: "prepareLinuxSandboxStaticLayout w1 = (r2, w2)" by fastforce
      have s2: "step_ok (\<lambda>e. e \<noteq> None) [] w1 (r2, w2)" using layout_step [OF w1(1)] 2 by simp
      then have w2: "one_failure w2" "mset (sb_mounts w2) = {#root#} + mset (sb_mounts w)" "sb_wiped w2 = sb_wiped w" "sb_lstat w2 = sb_lstat w"
        using w1 by (auto simp: step_ok_def split: if_splits)
      have eq: "prepareRoot config root w = (case r2 of Some e \<Rightarrow> (Some e, snd (cleanupLinuxSandboxRoot root w2)) | None \<Rightarrow> mount_all root [] ms w2)"
        using None x ok ms 1 r1 2 by (cases r2) (simp_all add: prepareRoot_def)
      show ?thesis
      proof (cases r2)
        case (Some x2)
        then have "all_ok w2" using s2 by (simp add: step_ok_def)
        from stale_undoes [OF this w2(2) assms(2)] own show ?thesis using Some eq w2 by (simp add: undone_def)
      next
        case r2: None
        then show ?thesis using mount_all_undone [OF w2(1), of "[]" root "sb_mounts w" ms e] assms(2,3) eq w2 by (simp add: undone_def)
      qed
    qed
  qed
qed (simp add: prepareRoot_def undone_def)

text \<open>Success, whatever the calls answered on the way: every mount of the plan is there, in the order of the plan.\<close>

lemma sys_calls_same: "same_sandbox w (snd (sys_calls n w))"
proof (induction n arbitrary: w)
  case (Suc n)
  then show ?case using sys_call_same [of w] same_sandbox_trans [OF sys_call_same Suc.IH] by (simp add: case_prod_unfold)
qed simp

lemma on_same: "same_sandbox w (snd (on_mount p w))"
  using sys_call_same by (simp add: on_mount_def)

lemma private_same: "same_sandbox w (snd (makeSandboxMountPrivate p w))"
  using on_same [of w p] same_sandbox_trans [OF on_same on_same] by (simp add: makeSandboxMountPrivate_def case_prod_unfold)

lemma remounts_same: "same_sandbox w (snd (remount_all ps w))"
proof (induction ps arbitrary: w)
  case (Cons p ps)
  then show ?case using on_same [of w p] same_sandbox_trans [OF on_same Cons.IH] by (simp add: case_prod_unfold)
qed simp

lemma mount_call_mounts: "fst (mount_call p w) = SysOk \<Longrightarrow> sb_mounts (snd (mount_call p w)) = p # sb_mounts w"
  using sys_call_same [of w] by (simp add: mount_call_def case_prod_unfold same_sandbox_def)

lemma mounted_one:
  assumes "mountIntoSandbox p m w = (None, w')"
  shows "sb_mounts w' = p # sb_mounts w"
proof (cases "mt_proc m")
  case True
  then show ?thesis using assms sys_call_same [of w] mount_call_mounts [of p "snd (sys_call w)"] private_same [of "snd (mount_call p (snd (sys_call w)))" p]
    by (auto simp: mountIntoSandbox_def mountKernelFilesystem_def sys_error_def same_sandbox_def split: prod.splits if_splits)
next
  case False
  let ?w1 = "snd (sys_calls (if mt_isFile m then 2 else 1) w)"
  let ?w2 = "snd (mount_call p ?w1)"
  let ?w3 = "snd (makeSandboxMountPrivate p ?w2)"
  have "same_sandbox ?w3 (snd (makeSandboxMountTreeReadOnly p (snd (on_mount p ?w3))))"
    using same_sandbox_trans [OF on_same remounts_same] by (simp add: makeSandboxMountTreeReadOnly_def Let_def)
  then have "sb_mounts w' = sb_mounts ?w2 \<and> fst (mount_call p ?w1) = SysOk"
    using assms False private_same [of ?w2 p] on_same [of ?w3 p]
    by (auto simp: mountIntoSandbox_def sys_error_def same_sandbox_def case_prod_unfold split: if_splits option.splits prod.splits)
  then show ?thesis using mount_call_mounts [of p ?w1] sys_calls_same [of w "if mt_isFile m then 2 else 1"] by (simp add: same_sandbox_def)
qed

lemma mounted_all:
  "mount_all root mounted ms w = (None, w') \<Longrightarrow> sb_mounts w' = rev (map (\<lambda>m. sandboxTarget root (mt_target m)) ms) @ sb_mounts w"
proof (induction root mounted ms w rule: mount_all.induct)
  case (2 root mounted m ms w)
  then show ?case using mounted_one [of "sandboxTarget root (mt_target m)" m w] by (auto simp: Let_def split: prod.splits option.splits)
qed simp

subsection \<open>The owner of a root\<close>

lemma cut_at: "CHR ''-'' \<notin> set a \<Longrightarrow> strings_Cut (a @ CHR ''-'' # b) (CHR ''-'') = (a, b, True)"
proof -
  assume "CHR ''-'' \<notin> set a"
  then have "\<And>x. x \<in> set a \<Longrightarrow> x \<noteq> CHR ''-''" by auto
  then show ?thesis by (simp add: strings_Cut_def takeWhile_append2 dropWhile_append2)
qed

lemma base_of: "CHR ''/'' \<notin> set n \<Longrightarrow> n \<noteq> [] \<Longrightarrow> path_Base (d @ ''/'' @ n) = n"
proof -
  assume n: "CHR ''/'' \<notin> set n" "n \<noteq> []"
  then have "dropWhile (\<lambda>c. c = CHR ''/'') (rev (d @ ''/'' @ n)) = rev (d @ ''/'' @ n)"
    by (cases "rev n") (auto dest: arg_cong [of _ _ set])
  moreover have "takeWhile (\<lambda>c. c \<noteq> CHR ''/'') (rev n @ CHR ''/'' # rev d) = rev n" using n(1) by (subst takeWhile_append2) auto
  ultimately show ?thesis using n by (simp add: path_Base_def Let_def)
qed

lemma dash_not_digit: "list_all is_digit s \<Longrightarrow> CHR ''-'' \<notin> set s \<and> CHR ''/'' \<notin> set s \<and> CHR ''+'' \<notin> set s"
  by (auto simp: list_all_iff is_digit_def byte_val_def)

lemma parse_int_format: "0 < n \<Longrightarrow> n < 2 ^ 63 \<Longrightarrow> parse_int 64 (format_nat n) = Some (int n)"
proof -
  assume n: "0 < n" "n < 2 ^ 63"
  have d: "list_all is_digit (format_nat n)" by (rule format_nat_digits)
  obtain c r where c: "format_nat n = c # r" using format_nat_ne [of n] by (cases "format_nat n") auto
  have "c \<noteq> CHR ''-''" "c \<noteq> CHR ''+''" using dash_not_digit [OF d] c by auto
  moreover have "digits_val (c # r) = n" using digits_val_format_nat [of n] c by simp
  ultimately show ?thesis using d n c by (simp add: parse_int_def)
qed

lemma owner_of:
  assumes "0 < pid" "pid < 2 ^ 63" "list_all is_digit startTime" "CHR ''/'' \<notin> set rnd"
  shows "sandboxRootOwnerActive stat (d @ ''/'' @ sandboxRootPrefix @ format_nat pid @ ''-'' @ startTime @ ''-'' @ rnd) =
    (linuxProcessStartTime stat (int pid) = Inr startTime)"
proof -
  let ?rest = "format_nat pid @ ''-'' @ startTime @ ''-'' @ rnd"
  have n: "CHR ''/'' \<notin> set (sandboxRootPrefix @ ?rest)" "sandboxRootPrefix @ ?rest \<noteq> []"
    using dash_not_digit [OF format_nat_digits, of pid] dash_not_digit [OF assms(3)] assms(4) by (auto simp: sandboxRootPrefix_def)
  have "strings_TrimPrefix (sandboxRootPrefix @ ?rest) sandboxRootPrefix = ?rest" by (simp add: strings_TrimPrefix_def has_prefix_def)
  then have t: "strings_TrimPrefix (path_Base (d @ ''/'' @ sandboxRootPrefix @ ?rest)) sandboxRootPrefix = ?rest" using base_of [OF n, of d] by simp
  have "strings_Cut ?rest (CHR ''-'') = (format_nat pid, startTime @ ''-'' @ rnd, True)"
    using cut_at [of "format_nat pid" "startTime @ ''-'' @ rnd"] dash_not_digit [OF format_nat_digits, of pid] by simp
  moreover have "strings_Cut (startTime @ ''-'' @ rnd) (CHR ''-'') = (startTime, rnd, True)" using cut_at [of startTime rnd] dash_not_digit [OF assms(3)] by simp
  ultimately show ?thesis using t parse_int_format [OF assms(1,2)] assms(1) by (simp add: sandboxRootOwnerActive_def)
qed

section \<open>An example\<close>

definition toy_sandbox_fs :: sandbox_fs where
  "toy_sandbox_fs = \<lparr>sf_cwd = Some ''/'',
     sf_stat = (\<lambda>p. if p \<in> {''/run/xtables.lock'', ''/c/m''} then Regular else if p \<in> {''/c'', ''/usr'', ''/t''} then Directory else NotExist),
     sf_eval = Inr\<rparr>"

definition toy_sandbox_config :: "string list \<Rightarrow> sandbox_config" where
  "toy_sandbox_config trusted = \<lparr>sc_ExecutablePath = ''/c/m'', sc_Args = [], sc_Env = [], sc_WorkingDir = ''/c'', sc_ReadOnlyPaths = [], sc_WritablePaths = trusted, sc_WritableDirs = []\<rparr>"

definition toy_sandbox :: "sys_result list \<Rightarrow> sandbox_world" where
  "toy_sandbox ios = \<lparr>sb_fs = toy_sandbox_fs, sb_tempDir = ''/tmp'', sb_lstat = (\<lambda>_. LInfo True False True 0x1C0), sb_mounts = [''/''], sb_roots = [], sb_wiped = [], sb_open = 0, sb_ios = ios\<rparr>"

lemma toy_sandbox_trims [simp]: "trim_space ''/run/xtables.lock'' = ''/run/xtables.lock''" "trim_space ''/c/m'' = ''/c/m''" "trim_space ''/c'' = ''/c''"
  "trim_space ''/usr'' = ''/usr''" "trim_space ''/t'' = ''/t''"
  by (rule trim_space_visible, simp add: visible_def byte_val_def)+

lemma toy_normalized [simp]:
  "normalizeSandboxPath toy_sandbox_fs ''/run/xtables.lock'' = Inr ''/run/xtables.lock''" "normalizeSandboxPath toy_sandbox_fs ''/c/m'' = Inr ''/c/m''"
  "normalizeSandboxPath toy_sandbox_fs ''/c'' = Inr ''/c''" "normalizeSandboxPath toy_sandbox_fs ''/usr'' = Inr ''/usr''" "normalizeSandboxPath toy_sandbox_fs ''/t'' = Inr ''/t''"
  by (simp_all add: normalizeSandboxPath_def path_IsAbs_def has_prefix_def path_Clean_def)

lemma toy_dirs: "sandboxDirForPath toy_sandbox_fs ''/c/m'' = Inr ''/c''" "sandboxDirForPath toy_sandbox_fs ''/c'' = Inr ''/c''"
  by (simp_all add: sandboxDirForPath_def) (simp_all add: toy_sandbox_fs_def path_Dir_def path_Clean_def)

lemma toy_plan: "sandboxMounts toy_sandbox_fs (toy_sandbox_config [''/t'']) =
  Inr [\<lparr>mt_source = ''/usr'', mt_target = ''/usr'', mt_readOnly = True, mt_isFile = False, mt_proc = False\<rparr>,
       \<lparr>mt_source = ''/c'', mt_target = ''/c'', mt_readOnly = False, mt_isFile = False, mt_proc = False\<rparr>,
       \<lparr>mt_source = ''/t'', mt_target = ''/t'', mt_readOnly = False, mt_isFile = False, mt_proc = False\<rparr>,
       proc_mount,
       \<lparr>mt_source = ''/run/xtables.lock'', mt_target = ''/run/xtables.lock'', mt_readOnly = False, mt_isFile = True, mt_proc = False\<rparr>]"
proof -
  let ?fs = toy_sandbox_fs
  have s: "sf_stat ?fs ''/run/xtables.lock'' = Regular" "sf_stat ?fs ''/c'' = Directory" "sf_stat ?fs ''/usr'' = Directory" "sf_stat ?fs ''/t'' = Directory"
    by (simp_all add: toy_sandbox_fs_def)
  have m: "addMount ?fs ''/run/xtables.lock'' False True = Inr [\<lparr>mt_source = ''/run/xtables.lock'', mt_target = ''/run/xtables.lock'', mt_readOnly = False, mt_isFile = True, mt_proc = False\<rparr>]"
    "addMount ?fs ''/c'' ro False = Inr [\<lparr>mt_source = ''/c'', mt_target = ''/c'', mt_readOnly = ro, mt_isFile = False, mt_proc = False\<rparr>]"
    "addMount ?fs ''/usr'' True False = Inr [\<lparr>mt_source = ''/usr'', mt_target = ''/usr'', mt_readOnly = True, mt_isFile = False, mt_proc = False\<rparr>]"
    "addMount ?fs ''/t'' False False = Inr [\<lparr>mt_source = ''/t'', mt_target = ''/t'', mt_readOnly = False, mt_isFile = False, mt_proc = False\<rparr>]" for ro
    by (simp_all add: addMount_def s)
  have e: "addMountIfExists ?fs d ro f = (if d = ''/usr'' then addMount ?fs ''/usr'' ro f else Inr [])" if "d \<in> set (system_dirs @ sandbox_devices)" for d ro f
    using that by (auto simp: addMountIfExists_def toy_sandbox_fs_def system_dirs_def sandbox_devices_def)
  have 1: "collect (map (\<lambda>d. addMountIfExists ?fs d True False) system_dirs @ [addMount ?fs ''/run/xtables.lock'' False True]) =
      Inr [\<lparr>mt_source = ''/usr'', mt_target = ''/usr'', mt_readOnly = True, mt_isFile = False, mt_proc = False\<rparr>,
           \<lparr>mt_source = ''/run/xtables.lock'', mt_target = ''/run/xtables.lock'', mt_readOnly = False, mt_isFile = True, mt_proc = False\<rparr>]"
    using e by (simp add: system_dirs_def m)
  have 2: "core_mounts ?fs (toy_sandbox_config [''/t'']) = Inr (''/c'', [\<lparr>mt_source = ''/c'', mt_target = ''/c'', mt_readOnly = False, mt_isFile = False, mt_proc = False\<rparr>])"
  proof -
    have "sf_eval ?fs p = Inr p" for p by (simp add: toy_sandbox_fs_def)
    moreover have "\<not> pathWithin ''/c'' ''/nix/store''"
      by (simp add: pathWithin_def path_Rel_def path_Clean_def path_IsAbs_def has_prefix_def path_elems_def)
    ultimately show ?thesis by (simp add: core_mounts_def toy_sandbox_config_def toy_dirs m(2))
  qed
  have 3: "map (\<lambda>d. other (addMountIfExists ?fs d False True)) sandbox_devices = map (\<lambda>d. Inr []) sandbox_devices"
    using e by (auto simp: other_def sandbox_devices_def)
  show ?thesis
    unfolding sandboxMounts_def 1 2 3
    by (simp add: toy_sandbox_config_def workdir_mounts_def toy_dirs other_def trusted_mounts_def addPath_def s m sandbox_devices_def path_Clean_def)
      (simp add: compactSandboxMounts_def clean_mount_def path_Clean_def proc_mount_def depth_def)
qed

text \<open>
  A mount point that cannot be taken down does not stop the removal of the root: what is mounted there is
  removed with it.
\<close>

lemma removal_reaches_mounts:
  "sb_wiped (snd (cleanup_mounted ''/r'' [''/r/t''] ((toy_sandbox [SysOk, EOther])\<lparr>sb_mounts := [''/r/t'', ''/r'', ''/'']\<rparr>))) = [''/r/t'']"
  by (simp add: cleanup_mounted_def take_down_def makeSandboxMountPrivate_def on_mount_def sys_call_def unmount_call_def remove_root_def toy_sandbox_def
      keep_err_def pathWithin_def path_Rel_def path_Clean_def path_IsAbs_def has_prefix_def path_elems_def)

section \<open>Properties\<close>

text \<open>
  C26. What the core can write to: unless a trusted path is the root directory, every mount of the plan that
  is not read-only is at one of the places the configuration asks for (the executable's own directories
  outside the Nix store, the trusted paths, the writable directories), the lock of iptables, the process
  file system or one of five devices; and every system directory that is at none of these is mapped
  read-only.
\<close>

theorem sandbox_writable_only:
  assumes "cwd_ok fs" "sandboxMounts fs config = Inr ms" "\<forall>p \<in> set (sc_WritablePaths config). path_Clean p \<noteq> ''/''"
  shows "(\<forall>m \<in> set ms. \<not> mt_readOnly m \<longrightarrow> mt_target m \<in> set (writable_places fs config)) \<and>
    (\<forall>d \<in> set system_dirs. sf_stat fs d \<noteq> NotExist \<longrightarrow> d \<notin> set (writable_places fs config) \<longrightarrow> (\<exists>m \<in> set ms. mt_target m = d \<and> mt_readOnly m))"
  using plan_writable [OF assms] plan_system [OF assms] by blast

theorem sandbox_writable_only_witness:
  "\<exists>ms. sandboxMounts toy_sandbox_fs (toy_sandbox_config [''/t'']) = Inr ms \<and>
     (\<forall>m \<in> set ms. \<not> mt_readOnly m \<longrightarrow> mt_target m \<in> set (writable_places toy_sandbox_fs (toy_sandbox_config [''/t''])))"
proof -
  have c: "cwd_ok toy_sandbox_fs" by (simp add: cwd_ok_def toy_sandbox_fs_def path_IsAbs_def has_prefix_def)
  have t: "\<forall>p \<in> set (sc_WritablePaths (toy_sandbox_config [''/t''])). path_Clean p \<noteq> ''/''" by (simp add: toy_sandbox_config_def path_Clean_def)
  show ?thesis by (intro exI conjI) (rule toy_plan, rule conjunct1 [OF sandbox_writable_only [OF c toy_plan t]])
qed

text \<open>
  Mounts that ask for the same place are merged: the plan has one mount for each place that was asked
  for, which is read-only exactly when every request for it was, and no mount comes after one below it.
\<close>

theorem sandbox_mounts_merged:
  shows "distinct (map mt_target (compactSandboxMounts ms)) \<and>
    mt_target ` set (compactSandboxMounts ms) = (path_Clean \<circ> mt_target) ` {m \<in> set ms. mt_target m \<noteq> []} \<and>
    (\<forall>m \<in> set (compactSandboxMounts ms). mt_readOnly m = (\<forall>r \<in> {r \<in> set ms. mt_target r \<noteq> [] \<and> path_Clean (mt_target r) = mt_target m}. mt_readOnly r)) \<and>
    (\<forall>i j rest. i < j \<longrightarrow> j < length (compactSandboxMounts ms) \<longrightarrow>
       mt_target (compactSandboxMounts ms ! i) \<noteq> mt_target (compactSandboxMounts ms ! j) @ ''/'' @ rest)"
proof -
  have c: "set (requests t (cleaned ms)) = clean_mount ` {r \<in> set ms. mt_target r \<noteq> [] \<and> path_Clean (mt_target r) = t}" for t
    by (auto simp: requests_def cleaned_def clean_mount_def)
  have "mt_readOnly m = (\<forall>r \<in> {r \<in> set ms. mt_target r \<noteq> [] \<and> path_Clean (mt_target r) = mt_target m}. mt_readOnly r)"
    if "m \<in> set (compactSandboxMounts ms)" for m
    using compact_read_only [OF that] unfolding c by (simp add: clean_mount_def)
  moreover have "mt_target ` set (compactSandboxMounts ms) = (path_Clean \<circ> mt_target) ` {m \<in> set ms. mt_target m \<noteq> []}"
    using compact_targets [of ms] by (simp add: cleaned_def image_image clean_mount_def comp_def)
  ultimately show ?thesis using compact_distinct [of ms] compact_order [of _ _ ms] by simp
qed

theorem sandbox_mounts_merged_witness:
  "distinct (map mt_target (compactSandboxMounts [proc_mount, proc_mount]))"
  using sandbox_mounts_merged [of "[proc_mount, proc_mount]"] by blast

text \<open>
  A root that cannot be prepared is taken down again: when any one call fails, at whatever point, and
  preparing the root reports an error, the mounts are as they were before, and nothing that was mounted
  below the root was removed with it.
\<close>

theorem sandbox_failure_undone:
  assumes "one_failure w" "fresh_root root (sb_mounts w)" "prepareRoot config root w = (Some e, w')"
  shows "mset (sb_mounts w') = mset (sb_mounts w) \<and> sb_wiped w' = sb_wiped w"
  using prepare_undone [OF assms(1,2), of config e] assms(3) by (simp add: undone_def)

theorem sandbox_failure_undone_witness:
  "\<exists>e w'. prepareRoot (toy_sandbox_config [''/'']) ''/tmp/kokorobox-core-sandbox-1'' (toy_sandbox (replicate 10 SysOk @ [EOther])) = (Some e, w') \<and> sb_wiped w' = []"
proof -
  let ?w = "toy_sandbox (replicate 10 SysOk @ [EOther])"
  let ?r = "''/tmp/kokorobox-core-sandbox-1''"
  have 1: "one_failure ?w" by (simp add: one_failure_def toy_sandbox_def eval_nat_numeral)
  have 2: "fresh_root ?r (sb_mounts ?w)"
    by (simp add: fresh_root_def toy_sandbox_def path_Clean_def pathWithin_def path_Rel_def path_IsAbs_def has_prefix_def path_elems_def)
  have "fst (prepareRoot (toy_sandbox_config [''/'']) ?r ?w) \<noteq> None"
    by (simp add: prepareRoot_def validateSandboxRoot_def toy_sandbox_def path_Clean_def path_Dir_def path_Base_def Let_def sandboxRootPrefix_def has_prefix_def own_dir_def
        ensureXTablesLock_def sys_call_def sys_error_def eval_nat_numeral sandboxMounts_def toy_sandbox_config_def mountSandboxRoot_def mount_call_def
        makeSandboxMountPrivate_def on_mount_def prepareLinuxSandboxStaticLayout_def mountIntoSandbox_def)
  then obtain e w' where p: "prepareRoot (toy_sandbox_config [''/'']) ?r ?w = (Some e, w')" by (cases "prepareRoot (toy_sandbox_config [''/'']) ?r ?w") auto
  from sandbox_failure_undone [OF 1 2 p] have "sb_wiped w' = []" by (simp add: toy_sandbox_def)
  then show ?thesis using p by blast
qed

text \<open>
  Stale roots are told from live ones: the directory that a process makes for its sandbox is taken for
  active exactly as long as a process with its number has the start time that is in the name.
\<close>

theorem sandbox_owner_active:
  assumes "0 < pid" "pid < 2 ^ 63" "list_all is_digit startTime" "CHR ''/'' \<notin> set rnd"
  shows "sandboxRootOwnerActive stat (dir @ ''/'' @ sandboxRootPrefix @ format_nat pid @ ''-'' @ startTime @ ''-'' @ rnd) =
    (linuxProcessStartTime stat (int pid) = Inr startTime)"
  using owner_of [OF assms] .

theorem sandbox_owner_active_witness:
  "\<not> sandboxRootOwnerActive (\<lambda>_. None) (''/tmp'' @ ''/'' @ sandboxRootPrefix @ format_nat 7 @ ''-'' @ ''42'' @ ''-'' @ ''9'')"
  using sandbox_owner_active [of 7 "''42''" "''9''" "\<lambda>_. None" "''/tmp''"] by (simp add: is_digit_def byte_val_def linuxProcessStartTime_def)

end
