(* ===== verification/Auth_Query.thy ===== *)
theory Auth_Query
  imports Kokoro_Prelude
begin

text \<open>
  \<open>canonicalizeQuery\<close> of \<open>route/auth/middleware.go\<close> with the functions of \<open>net/url\<close> it calls
  (\<open>ParseQuery\<close>, \<open>QueryUnescape\<close>, \<open>QueryEscape\<close>). The canonical query is part of the text a client
  signs, so it has to determine the parameters the handlers see.
\<close>

section \<open>Definitions\<close>

definition unhex :: "char \<Rightarrow> nat option" where
  "unhex c =
     (let n = byte_val c in
      if 48 \<le> n \<and> n \<le> 57 then Some (n - 48)
      else if 97 \<le> n \<and> n \<le> 102 then Some (n - 87)
      else if 65 \<le> n \<and> n \<le> 70 then Some (n - 55)
      else None)"

definition upperhex :: "nat \<Rightarrow> char" where
  "upperhex n = (if n < 10 then char_of (48 + n) else char_of (55 + n))"

fun query_unescape :: "string \<Rightarrow> string option" where
  "query_unescape [] = Some []"
| "query_unescape (c # s) =
     (if c = CHR ''%'' then
        (case s of
           a # b # r \<Rightarrow>
             (case (unhex a, unhex b) of
                (Some x, Some y) \<Rightarrow> map_option (\<lambda>t. char_of (16 * x + y) # t) (query_unescape r)
              | _ \<Rightarrow> None)
         | _ \<Rightarrow> None)
      else map_option (\<lambda>t. (if c = CHR ''+'' then CHR '' '' else c) # t) (query_unescape s))"

definition unreserved :: "char \<Rightarrow> bool" where
  "unreserved c =
     (let n = byte_val c in
      (97 \<le> n \<and> n \<le> 122) \<or> (65 \<le> n \<and> n \<le> 90) \<or> (48 \<le> n \<and> n \<le> 57) \<or> c \<in> set ''-_.~'')"

definition escape_char :: "char \<Rightarrow> string" where
  "escape_char c =
     (if unreserved c then [c]
      else if c = CHR '' '' then ''+''
      else [CHR ''%'', upperhex (byte_val c div 16), upperhex (byte_val c mod 16)])"

definition query_escape :: "string \<Rightarrow> string" where
  "query_escape s = concat (map escape_char s)"

text \<open>One part between ampersands: an error, nothing, or a key and a value.\<close>

definition query_part :: "string \<Rightarrow> ((string \<times> string) option) option" where
  "query_part p =
     (if CHR '';'' \<in> set p then None
      else if p = [] then Some None
      else (case strings_Cut p (CHR ''='') of (k, v, _) \<Rightarrow>
        (case (query_unescape k, query_unescape v) of
           (Some k', Some v') \<Rightarrow> Some (Some (k', v'))
         | _ \<Rightarrow> None)))"

fun query_parts :: "string list \<Rightarrow> (string \<times> string) list option" where
  "query_parts [] = Some []"
| "query_parts (p # ps) =
     (case (query_part p, query_parts ps) of
        (Some None, Some kvs) \<Rightarrow> Some kvs
      | (Some (Some kv), Some kvs) \<Rightarrow> Some (kv # kvs)
      | _ \<Rightarrow> None)"

text \<open>\<open>url.ParseQuery\<close>; the pairs are in the order of the query, as in each list of the map.\<close>

definition parse_query :: "string \<Rightarrow> (string \<times> string) list option" where
  "parse_query q = query_parts (split_at (CHR ''&'') q)"

text \<open>The pairs in the order in which \<open>canonicalizeQuery\<close> writes them.\<close>

definition sorted_pairs :: "(string \<times> string) list \<Rightarrow> (string \<times> string) list" where
  "sorted_pairs kvs =
     concat (map (\<lambda>k. map (Pair k) (sort (map snd (filter (\<lambda>kv. fst kv = k) kvs))))
       (sort (remdups (map fst kvs))))"

definition write_pair :: "string \<times> string \<Rightarrow> string" where
  "write_pair kv = query_escape (fst kv) @ ''='' @ query_escape (snd kv)"

definition canonical_pairs :: "(string \<times> string) list \<Rightarrow> string" where
  "canonical_pairs kvs = strings_Join (map write_pair (sorted_pairs kvs)) ''&''"

definition canonicalizeQuery :: "string \<Rightarrow> string res" where
  "canonicalizeQuery rawQuery =
     (if rawQuery = [] then Inr []
      else (case parse_query rawQuery of
              None \<Rightarrow> Inl (Plain ''invalid query'')
            | Some values \<Rightarrow> Inr (canonical_pairs values)))"

section \<open>Lemmas\<close>

subsection \<open>Escaping\<close>

lemma unhex_upperhex [simp]: "n < 16 \<Longrightarrow> unhex (upperhex n) = Some n"
  by (auto simp: unhex_def upperhex_def Let_def)

lemma char_of_byte_val [simp]: "char_of (byte_val c) = c"
  by (simp add: byte_val_def)

lemma byte_val_lt [simp]: "byte_val c < 256"
  unfolding byte_val_def using of_char_mod_256 [of c, where 'a = nat] mod_less_divisor [of 256 "of_char c"]
  by presburger

lemma byte_val_split: "char_of (16 * (byte_val c div 16) + byte_val c mod 16) = c"
  by (simp add: mult.commute [of 16])

lemma query_unescape_escape_char [simp]:
  "query_unescape (escape_char c @ s) = map_option ((#) c) (query_unescape s)"
proof (cases "unreserved c")
  case True
  then have "c \<noteq> CHR ''%''" "c \<noteq> CHR ''+''" by (auto simp: unreserved_def byte_val_def)
  with True show ?thesis by (simp add: escape_char_def)
next
  case False
  have "byte_val c div 16 < 16" using byte_val_lt [of c] by linarith
  with False show ?thesis by (auto simp: escape_char_def byte_val_split)
qed

lemma query_unescape_escape [simp]: "query_unescape (query_escape s) = Some s"
  by (induction s) (simp_all add: query_escape_def)

text \<open>Escaped text has none of the characters that structure a query.\<close>

lemma byte_val_upperhex: "n < 16 \<Longrightarrow> byte_val (upperhex n) = (if n < 10 then 48 + n else 55 + n)"
  by (simp add: upperhex_def)

lemma upperhex_safe: "n < 16 \<Longrightarrow> upperhex n \<notin> set ''&=;''"
  using byte_val_upperhex [of n] by (auto simp: byte_val_def split: if_splits)

lemma escape_char_safe: "set (escape_char c) \<inter> set ''&=;'' = {}"
proof -
  have "byte_val c div 16 < 16" using byte_val_lt [of c] by linarith
  then have "upperhex (byte_val c div 16) \<notin> set ''&=;''" "upperhex (byte_val c mod 16) \<notin> set ''&=;''"
    using upperhex_safe by auto
  then show ?thesis by (auto simp: escape_char_def unreserved_def byte_val_def)
qed

lemma query_escape_safe: "c \<in> set (query_escape s) \<Longrightarrow> c \<notin> set ''&=;''"
  using escape_char_safe by (fastforce simp: query_escape_def)

subsection \<open>Reading a written query\<close>

lemma strings_Cut_append: "c \<notin> set k \<Longrightarrow> strings_Cut (k @ c # v) c = (k, v, True)"
  by (auto simp: strings_Cut_def takeWhile_append dropWhile_append)

lemma query_part_write_pair [simp]: "query_part (write_pair kv) = Some (Some kv)"
proof -
  have "CHR '';'' \<notin> set (write_pair kv)"
    using query_escape_safe [of "CHR '';''"] by (auto simp: write_pair_def)
  moreover have "CHR ''='' \<notin> set (query_escape (fst kv))"
    using query_escape_safe [of "CHR ''=''"] by auto
  then have "strings_Cut (write_pair kv) (CHR ''='') = (query_escape (fst kv), query_escape (snd kv), True)"
    by (simp add: write_pair_def strings_Cut_append)
  ultimately show ?thesis by (simp add: query_part_def) (simp add: write_pair_def)
qed

lemma query_parts_write_pairs: "query_parts (map write_pair kvs) = Some kvs"
  by (induction kvs) auto

lemma parse_query_write_pairs: "parse_query (strings_Join (map write_pair kvs) ''&'') = Some kvs"
proof (cases "kvs = []")
  case True
  then show ?thesis by (simp add: parse_query_def query_part_def)
next
  case False
  have "\<forall>s \<in> set (map write_pair kvs). CHR ''&'' \<notin> set s"
    using query_escape_safe [of "CHR ''&''"] by (auto simp: write_pair_def)
  with False have "split_at (CHR ''&'') (strings_Join (map write_pair kvs) ''&'') = map write_pair kvs"
    using split_at_Join [of "map write_pair kvs" "CHR ''&''"] by simp
  then show ?thesis by (simp add: parse_query_def query_parts_write_pairs)
qed

lemma parse_query_canonical_pairs: "parse_query (canonical_pairs kvs) = Some (sorted_pairs kvs)"
  by (simp add: canonical_pairs_def parse_query_write_pairs)

subsection \<open>Sorting\<close>

lemma mset_by_keys:
  "distinct ks \<Longrightarrow>
   mset (concat (map (\<lambda>k. filter (\<lambda>kv. fst kv = k) kvs) ks)) = filter_mset (\<lambda>kv. fst kv \<in> set ks) (mset kvs)"
proof (induction ks)
  case (Cons k ks)
  have "filter_mset (\<lambda>kv. fst kv \<in> set (k # ks)) (mset kvs) =
        filter_mset (\<lambda>kv. fst kv = k) (mset kvs) + filter_mset (\<lambda>kv. fst kv \<in> set ks) (mset kvs)"
    using Cons.prems by (induction kvs) auto
  with Cons show ?case by simp
qed simp

lemma mset_pair_sort: "mset (map (Pair k) (sort (map snd (filter (\<lambda>kv. fst kv = k) kvs)))) = mset (filter (\<lambda>kv. fst kv = k) kvs)"
  by (induction kvs) auto

lemma mset_sorted_pairs [simp]: "mset (sorted_pairs kvs) = mset kvs"
proof -
  have "mset (concat (map (\<lambda>k. map (Pair k) (sort (map snd (filter (\<lambda>kv. fst kv = k) kvs)))) ks)) =
        mset (concat (map (\<lambda>k. filter (\<lambda>kv. fst kv = k) kvs) ks))" for ks
    by (induction ks) (simp_all add: mset_pair_sort del: mset_map mset_filter)
  moreover have "filter_mset (\<lambda>kv. fst kv \<in> set (sort (remdups (map fst kvs)))) (mset kvs) = mset kvs"
    by (auto simp: filter_mset_eq_conv image_iff)
  ultimately show ?thesis by (simp add: sorted_pairs_def mset_by_keys)
qed

lemma sort_remdups: "sort (remdups xs) = sorted_list_of_set (set xs)"
  by (rule sorted_distinct_set_unique) auto

lemma sorted_pairs_cong:
  assumes "mset kvs = mset kvs'"
  shows "sorted_pairs kvs = sorted_pairs kvs'"
proof -
  have "set (map fst kvs) = set (map fst kvs')"
    using mset_eq_setD [OF assms] by simp
  moreover have "sort (map snd (filter (\<lambda>kv. fst kv = k) kvs)) = sort (map snd (filter (\<lambda>kv. fst kv = k) kvs'))" for k
    by (rule properties_for_sort) (simp_all add: assms mset_map mset_filter)
  ultimately show ?thesis by (simp add: sorted_pairs_def sort_remdups)
qed

section \<open>Properties\<close>

text \<open>
  The canonical query stands for the parameters and nothing else: two queries that parse have
  the same canonical form exactly when they carry the same key and value pairs, counted with
  multiplicity, in any order and spelling.
\<close>

theorem canonical_pairs_complete:
  "canonical_pairs kvs = canonical_pairs kvs' \<longleftrightarrow> mset kvs = mset kvs'"
proof
  assume "canonical_pairs kvs = canonical_pairs kvs'"
  then have "sorted_pairs kvs = sorted_pairs kvs'"
    using parse_query_canonical_pairs by (metis option.inject)
  then show "mset kvs = mset kvs'" by (metis mset_sorted_pairs)
next
  assume "mset kvs = mset kvs'"
  then show "canonical_pairs kvs = canonical_pairs kvs'"
    unfolding canonical_pairs_def by (metis sorted_pairs_cong)
qed

text \<open>
  Canonicalisation is idempotent: the canonical form of a query is accepted and is its own
  canonical form, so signing it again gives the same text.
\<close>

theorem canonicalizeQuery_idem:
  assumes "canonicalizeQuery q = Inr c"
  shows "canonicalizeQuery c = Inr c"
proof (cases "c = []")
  case False
  then obtain kvs where "c = canonical_pairs kvs"
    using assms by (auto simp: canonicalizeQuery_def split: if_splits option.splits)
  moreover have "canonical_pairs (sorted_pairs kvs) = canonical_pairs kvs"
    unfolding canonical_pairs_def by (metis sorted_pairs_cong mset_sorted_pairs)
  ultimately show ?thesis
    using False by (simp add: canonicalizeQuery_def parse_query_canonical_pairs)
qed (simp add: canonicalizeQuery_def)

theorem canonicalizeQuery_idem_witness:
  "canonicalizeQuery ''b=2&a=%20x&&a=+'' = Inr ''a=+&a=+x&b=2'' \<and>
   canonicalizeQuery ''a=+&a=+x&b=2'' = Inr ''a=+&a=+x&b=2''"
proof -
  have *: "canonicalizeQuery ''b=2&a=%20x&&a=+'' = Inr ''a=+&a=+x&b=2''" by code_simp
  with canonicalizeQuery_idem [OF *] show ?thesis by simp
qed

end
