(* ===== verification/Linux_Cgroup.thy ===== *)
theory Linux_Cgroup
  imports Linux_Process Core_Sandbox Auth_Query
begin

text \<open>
  The rest of \<open>processrouter/process_linux.go\<close>: what is read from \<open>/proc\<close>, which commands of the system are trusted, and
  how the cgroups of the router are found, set up and taken down again. \<open>Linux_Process\<close> works with the processes and their
  cgroups; here these are parsed from the text that the kernel shows.
\<close>

section \<open>Definitions\<close>

subsection \<open>Text of the kernel\<close>

text \<open>
  \<open>bufio.Scanner\<close> with its default buffer: the lines without their ends, up to one that does not fit, and whether there
  is such a line.
\<close>

definition MaxScanTokenSize :: nat where "MaxScanTokenSize = 64 * 1024"

definition drop_cr :: "string \<Rightarrow> string" where
  "drop_cr l = (if l \<noteq> [] \<and> last l = CHR 0x0D then butlast l else l)"

definition scanner_lines :: "string \<Rightarrow> string list \<times> bool" where
  "scanner_lines s =
     (let ls = split_at (CHR 0x0A) s;
          ls' = (if last ls = [] then butlast ls else ls)
      in (map drop_cr (takeWhile (\<lambda>l. length l < MaxScanTokenSize) ls'), list_ex (\<lambda>l. MaxScanTokenSize \<le> length l) ls'))"

text \<open>\<open>strings.Fields\<close> of ASCII text, and \<open>strings.SplitN\<close> into at most \<open>n\<close> parts.\<close>

definition strings_Fields :: "string \<Rightarrow> string list" where "strings_Fields s = ascii_fields [] s"

fun split_n :: "nat \<Rightarrow> char \<Rightarrow> string \<Rightarrow> string list" where
  "split_n 0 c s = [s]"
| "split_n (Suc n) c s =
     (case strings_Cut s c of (before, after, found) \<Rightarrow> if found then before # split_n n c after else [s])"

definition containsController :: "string \<Rightarrow> string \<Rightarrow> bool" where
  "containsController list target = (target \<in> set (split_at (CHR '','') list))"

definition filepath_Join :: "string list \<Rightarrow> string" where
  "filepath_Join es = (let es' = filter (\<lambda>e. e \<noteq> []) es in if es' = [] then [] else path_Clean (strings_Join es' ''/''))"

text \<open>\<open>/proc/<pid>/cgroup\<close>: the file of the process in the hierarchy of the controller.\<close>

definition cgroup_line :: "cgroup_controller \<Rightarrow> string \<Rightarrow> string option" where
  "cgroup_line c l =
     (case split_n 2 (CHR '':'') l of
        [hier, controllers, path] \<Rightarrow>
          if cc_mode c = linuxCgroupV2 \<and> hier = ''0'' \<and> controllers = [] \<or> cc_mode c = linuxCgroupV1 \<and> containsController controllers ''net_cls''
          then Some (filepath_Join [cc_mountPoint c, strings_TrimPrefix path ''/'', ''cgroup.procs'']) else None
      | _ \<Rightarrow> None)"

definition read_cgroup :: "cgroup_controller \<Rightarrow> string option \<Rightarrow> string res" where
  "read_cgroup c content =
     (case content of
        None \<Rightarrow> Inl SysErr
      | Some s \<Rightarrow>
          (case List.map_filter (cgroup_line c) (fst (scanner_lines s)) of
             f # _ \<Rightarrow> Inr f
           | [] \<Rightarrow> if snd (scanner_lines s) then Inl SysErr else Inl (Plain ''process has no cgroup membership'')))"

text \<open>\<open>/proc/<pid>/status\<close>: the parent.\<close>

definition read_ppid :: "string option \<Rightarrow> int option" where
  "read_ppid content =
     (case content of
        None \<Rightarrow> None
      | Some s \<Rightarrow>
          (case filter (\<lambda>fs. length fs = 2 \<and> hd fs = ''PPid:'') (map strings_Fields (fst (scanner_lines s))) of
             [] \<Rightarrow> None
           | fs # _ \<Rightarrow> parse_int 64 (fs ! 1)))"

text \<open>An entry of \<open>/proc\<close>: its name, whether it is a directory, and what its link \<open>exe\<close> shows.\<close>

record proc_entry =
  pe_name :: string
  pe_dir :: bool
  pe_exe :: "string option"

definition snapshot_entry :: "int \<Rightarrow> proc_entry \<Rightarrow> linux_snapshot option" where
  "snapshot_entry self e =
     (if \<not> pe_dir e then None
      else (case parse_int 64 (pe_name e) of
          None \<Rightarrow> None
        | Some pid \<Rightarrow>
            if pid \<le> 1 \<or> pid = self then None
            else (case pe_exe e of
                None \<Rightarrow> None
              | Some path \<Rightarrow>
                  if has_suffix path '' (deleted)'' then None
                  else Some \<lparr>ls_pid = pid, ls_executablePath = path, ls_executableName = path_Base path\<rparr>)))"

definition snapshotLinuxProcesses :: "int \<Rightarrow> proc_entry list option \<Rightarrow> linux_snapshot list option" where
  "snapshotLinuxProcesses self entries = map_option (List.map_filter (snapshot_entry self)) entries"

definition scanProcessesLocked :: "string \<Rightarrow> int \<Rightarrow> proc_entry list option \<Rightarrow> linux_process \<Rightarrow> err list \<times> linux_process" where
  "scanProcessesLocked now self entries p =
     (case snapshotLinuxProcesses self entries of None \<Rightarrow> ([SysErr], p) | Some prs \<Rightarrow> applyProcessSnapshotLocked now prs p)"

text \<open>\<open>/proc/mounts\<close>: the first mount of the controller. Only the escape of the space is undone.\<close>

fun unescape_space :: "string \<Rightarrow> string" where
  "unescape_space [] = []"
| "unescape_space (c # s) = (if has_prefix (c # s) ([CHR 0x5C] @ ''040'') then CHR '' '' # unescape_space (drop 3 s) else c # unescape_space s)"

definition net_cls_line :: "string \<Rightarrow> string option" where
  "net_cls_line l =
     (let fields = strings_Fields l in
      if length fields < 4 \<or> fields ! 2 \<noteq> ''cgroup'' \<or> \<not> containsController (fields ! 3) ''net_cls'' then None
      else Some (unescape_space (fields ! 1)))"

definition findNetClsMount :: "string option \<Rightarrow> string res" where
  "findNetClsMount content =
     (case content of
        None \<Rightarrow> Inl SysErr
      | Some s \<Rightarrow>
          (case List.map_filter net_cls_line (fst (scanner_lines s)) of
             p # _ \<Rightarrow> Inr p
           | [] \<Rightarrow> if snd (scanner_lines s) then Inl SysErr else Inr []))"

subsection \<open>Trusted commands\<close>

text \<open>The lookup of a command, the file behind its links, and the owner, the permissions and the kind of a file.\<close>

record file_info =
  fi_uid :: "32 word"
  fi_perm :: nat
  fi_regular :: bool
  fi_dir :: bool
  fi_link :: bool

record command_fs =
  cf_look :: "string \<Rightarrow> string option"
  cf_eval :: "string \<Rightarrow> string option"
  cf_stat :: "string \<Rightarrow> file_info option"

definition others_write :: "nat \<Rightarrow> bool" where
  "others_write perm = (perm div 2 mod 2 = 1 \<or> perm div 16 mod 2 = 1)"

definition secureLinuxCommand :: "command_fs \<Rightarrow> string \<Rightarrow> string res" where
  "secureLinuxCommand F name =
     (case cf_look F name of
        None \<Rightarrow> Inl (Plainf ''required Linux command was not found'' [name])
      | Some found \<Rightarrow>
          (case cf_eval F found of
             None \<Rightarrow> Inl SysErr
           | Some path \<Rightarrow>
               (case cf_stat F path of
                  None \<Rightarrow> Inl SysErr
                | Some info \<Rightarrow>
                    if fi_uid info \<noteq> 0 \<or> others_write (fi_perm info) \<or> \<not> fi_regular info
                    then Inl (Plainf ''refusing unsafe Linux command path'' [path]) else Inr path)))"

text \<open>\<open>hardenProcessRouterPaths\<close>: the answer of \<open>Lstat\<close>, and the outcome of \<open>Chmod\<close>. The result has the new permissions.\<close>

definition hardenProcessRouterPaths :: "file_info option \<Rightarrow> io \<Rightarrow> err option \<times> file_info option" where
  "hardenProcessRouterPaths info out =
     (case info of
        None \<Rightarrow> (Some SysErr, info)
      | Some i \<Rightarrow>
          if \<not> fi_dir i \<or> fi_link i then (Some (Plain ''Linux process-router config path must be a real directory''), info)
          else if fi_uid i \<noteq> 0 then (Some (Plain ''Linux process-router config directory must be owned by root''), info)
          else (if out = Done then None else Some (Wrapped ''harden Linux process-router config directory'' SysErr),
                if out = Fails then info else Some (i\<lparr>fi_perm := 448\<rparr>)))"

subsection \<open>Setting up the cgroups\<close>

text \<open>
  The directories and class identifiers in the cgroup file systems, the mounts that the service has made, the
  processes with the file they are in, and the commands that ran: the file that was executed, the name it was
  called by, and its arguments. \<open>cw_failed\<close> records the removals and the mount commands that were reported as failed.
\<close>

datatype cgroup_change = Rmdir string | MountCommand string | UmountCommand string

record cgroup_world =
  cw_fs :: command_fs
  cw_help :: string
  cw_procMounts :: "string option"
  cw_v2 :: bool
  cw_dirs :: "string list"
  cw_classids :: "string \<rightharpoonup> string"
  cw_mounted :: "string list"
  cw_procs :: "(int \<times> string) list"
  cw_ran :: "(string \<times> string \<times> string list) list"
  cw_failed :: "cgroup_change list"
  cw_io :: "io list"

definition cw_call :: "cgroup_world \<Rightarrow> io \<times> cgroup_world" where
  "cw_call w = (case next_io (cw_io w) of (out, ios) \<Rightarrow> (out, w\<lparr>cw_io := ios\<rparr>))"

text \<open>A command runs only from a trusted file; the answer is the outcome, or the reason why it did not run.\<close>

definition run_command :: "string \<Rightarrow> string list \<Rightarrow> cgroup_world \<Rightarrow> io res \<times> cgroup_world" where
  "run_command name args w =
     (case secureLinuxCommand (cw_fs w) name of
        Inl e \<Rightarrow> (Inl e, w)
      | Inr path \<Rightarrow> (case cw_call w of (out, w1) \<Rightarrow> (Inr out, w1\<lparr>cw_ran := cw_ran w1 @ [(path, name, args)]\<rparr>)))"

definition supportsLinuxCgroupMatcher :: "string \<Rightarrow> cgroup_world \<Rightarrow> bool \<times> cgroup_world" where
  "supportsLinuxCgroupMatcher opt w =
     (case run_command ''iptables'' [''-m'', ''cgroup'', ''--help''] w of
        (Inl e, w1) \<Rightarrow> (False, w1)
      | (Inr out, w1) \<Rightarrow> (strings_Contains (cw_help w1) opt, w1))"

definition mkdir_all :: "string \<Rightarrow> cgroup_world \<Rightarrow> bool \<times> cgroup_world" where
  "mkdir_all d w =
     (case cw_call w of (out, w1) \<Rightarrow>
        (out = Done, if out = Fails \<or> d \<in> set (cw_dirs w1) then w1 else w1\<lparr>cw_dirs := d # cw_dirs w1\<rparr>))"

definition group_dir :: "cgroup_controller \<Rightarrow> string \<Rightarrow> string" where
  "group_dir c grp = cc_managedRoot c @ ''/'' @ grp"

fun setup_groups :: "cgroup_controller \<Rightarrow> string list \<Rightarrow> cgroup_world \<Rightarrow> err option \<times> cgroup_world" where
  "setup_groups c [] w = (None, w)"
| "setup_groups c (g # gs) w =
     (case mkdir_all (group_dir c g) w of
        (False, w1) \<Rightarrow> (Some (Wrapped (''create Linux application-routing cgroup '' @ g) SysErr), w1)
      | (True, w1) \<Rightarrow>
          if cc_mode c = linuxCgroupV1 then
            (case cw_call w1 of (out, w2) \<Rightarrow>
               let w3 = (if out = Fails then w2 else w2\<lparr>cw_classids := (cw_classids w2)(group_dir c g \<mapsto> linuxNetClsClassIDs g)\<rparr>)
               in if out \<noteq> Done then (Some (Wrapped (''set Linux net_cls classid for '' @ g) SysErr), w3) else setup_groups c gs w3)
          else setup_groups c gs w1)"

definition controller_setup :: "cgroup_controller \<Rightarrow> cgroup_world \<Rightarrow> err option \<times> cgroup_world" where
  "controller_setup c w =
     (case mkdir_all (cc_managedRoot c) w of
        (False, w1) \<Rightarrow> (Some (Wrapped ''create Linux application-routing cgroup'' SysErr), w1)
      | (True, w1) \<Rightarrow> setup_groups c linuxRoutingGroups w1)"

text \<open>Taking a group down: its processes go to the root of the mount; a cgroup with processes cannot be removed.\<close>

fun move_out :: "int list \<Rightarrow> string \<Rightarrow> cgroup_world \<Rightarrow> err list \<times> cgroup_world" where
  "move_out [] target w = ([], w)"
| "move_out (pid # pids) target w =
     (case cw_call w of (out, w1) \<Rightarrow>
        (case move_out pids target (if out = Fails then w1 else w1\<lparr>cw_procs := map (\<lambda>(q, f). (q, if q = pid then target else f)) (cw_procs w1)\<rparr>) of
           (es, w2) \<Rightarrow> (if out = Done then es else SysErr # es, w2)))"

definition empty_group :: "cgroup_controller \<Rightarrow> string \<Rightarrow> cgroup_world \<Rightarrow> err list \<times> cgroup_world" where
  "empty_group c g w =
     (if group_dir c g \<notin> set (cw_dirs w) then ([], w)
      else (case cw_call w of (out, w1) \<Rightarrow>
          if out \<noteq> Done then ([SysErr], w1)
          else move_out (map fst (filter (\<lambda>(q, f). f = group_procs c g) (cw_procs w1))) (root_procs c) w1))"

definition remove_cgroup :: "string \<Rightarrow> bool \<Rightarrow> cgroup_world \<Rightarrow> err list \<times> cgroup_world" where
  "remove_cgroup d busy w =
     (if d \<notin> set (cw_dirs w) then ([], w)
      else (case cw_call w of (out, w1) \<Rightarrow>
          if out = Done \<and> \<not> busy then ([], w1\<lparr>cw_dirs := removeAll d (cw_dirs w1)\<rparr>)
          else ([SysErr], w1\<lparr>cw_failed := Rmdir d # cw_failed w1\<rparr>)))"

fun remove_groups :: "cgroup_controller \<Rightarrow> string list \<Rightarrow> cgroup_world \<Rightarrow> err list \<times> cgroup_world" where
  "remove_groups c [] w = ([], w)"
| "remove_groups c (g # gs) w =
     (case empty_group c g w of (es1, w1) \<Rightarrow>
        (case remove_cgroup (group_dir c g) (list_ex (\<lambda>(q, f). f = group_procs c g) (cw_procs w1)) w1 of (es2, w2) \<Rightarrow>
           (case remove_groups c gs w2 of (es3, w3) \<Rightarrow> (es1 @ es2 @ es3, w3))))"

definition controller_cleanup :: "cgroup_controller \<Rightarrow> cgroup_world \<Rightarrow> err list \<times> cgroup_world" where
  "controller_cleanup c w =
     (case remove_groups c (rev linuxRoutingGroups) w of (es1, w1) \<Rightarrow>
        (case remove_cgroup (cc_managedRoot c) (list_ex (\<lambda>g. group_dir c g \<in> set (cw_dirs w1)) linuxRoutingGroups) w1 of (es2, w2) \<Rightarrow>
           if cc_mountedV1 c then
             (case run_command ''umount'' [cc_mountPoint c] w2 of
                (Inr Done, w3) \<Rightarrow> (es1 @ es2, w3\<lparr>cw_mounted := removeAll (cc_mountPoint c) (cw_mounted w3)\<rparr>)
              | (_, w3) \<Rightarrow> (es1 @ es2 @ [SysErr], w3\<lparr>cw_failed := UmountCommand (cc_mountPoint c) # cw_failed w3\<rparr>))
           else (es1 @ es2, w2)))"

definition linuxCgroupV2Root :: string where "linuxCgroupV2Root = ''/sys/fs/cgroup''"
definition linuxPrivateCgroupDir :: string where "linuxPrivateCgroupDir = ''/run/kokorobox/cgroup/net_cls''"
definition linuxCgroupName :: string where "linuxCgroupName = ''kokorobox-app-routing''"

definition controller_at :: "cgroup_mode \<Rightarrow> string \<Rightarrow> bool \<Rightarrow> cgroup_controller" where
  "controller_at mode mount mounted = \<lparr>cc_mode = mode, cc_mountPoint = mount, cc_managedRoot = filepath_Join [mount, linuxCgroupName], cc_mountedV1 = mounted\<rparr>"

text \<open>The mount that is there, or a private one: its mount point and whether it was made here.\<close>

definition net_cls_mount :: "cgroup_world \<Rightarrow> (string \<times> bool) res \<times> cgroup_world" where
  "net_cls_mount w =
     (case findNetClsMount (cw_procMounts w) of
        Inl e \<Rightarrow> (Inl e, w)
      | Inr mountPoint \<Rightarrow>
          if mountPoint \<noteq> [] then (Inr (mountPoint, False), w)
          else (case cw_call w of (out, w1) \<Rightarrow>
              if out \<noteq> Done then (Inl SysErr, w1)
              else (case run_command ''mount'' [''-t'', ''cgroup'', ''-o'', ''net_cls'', ''net_cls'', linuxPrivateCgroupDir] w1 of
                  (Inl e, w2) \<Rightarrow> (Inl (Wrapped ''mount cgroup v1 net_cls'' e), w2)
                | (Inr out2, w2) \<Rightarrow>
                    let w3 = (if out2 = Fails then w2 else w2\<lparr>cw_mounted := linuxPrivateCgroupDir # cw_mounted w2\<rparr>)
                    in if out2 = Done then (Inr (linuxPrivateCgroupDir, True), w3)
                       else (Inl (Wrapped ''mount cgroup v1 net_cls'' SysErr), w3\<lparr>cw_failed := MountCommand linuxPrivateCgroupDir # cw_failed w3\<rparr>))))"

definition createLinuxCgroupV1Controller :: "cgroup_world \<Rightarrow> cgroup_controller res \<times> cgroup_world" where
  "createLinuxCgroupV1Controller w =
     (case net_cls_mount w of
        (Inl e, w1) \<Rightarrow> (Inl e, w1)
      | (Inr (mountPoint, mounted), w1) \<Rightarrow>
          (case supportsLinuxCgroupMatcher ''--cgroup'' w1 of
             (False, w2) \<Rightarrow>
               (Inl (Plain ''xt_cgroup does not support cgroup v1 classid matching''),
                if \<not> mounted then w2
                else (case run_command ''umount'' [mountPoint] w2 of
                    (Inr Done, w3) \<Rightarrow> w3\<lparr>cw_mounted := removeAll mountPoint (cw_mounted w3)\<rparr>
                  | (_, w3) \<Rightarrow> w3\<lparr>cw_failed := UmountCommand mountPoint # cw_failed w3\<rparr>))
           | (True, w2) \<Rightarrow>
               (let c = controller_at linuxCgroupV1 mountPoint mounted in
                case controller_setup c w2 of
                  (Some e, w3) \<Rightarrow> (Inl e, snd (controller_cleanup c w3))
                | (None, w3) \<Rightarrow> (Inr c, w3))))"

text \<open>The attempt with version 2: the controller, or that it is not to be had.\<close>

definition create_v2 :: "cgroup_world \<Rightarrow> cgroup_controller option \<times> cgroup_world" where
  "create_v2 w =
     (if \<not> cw_v2 w then (None, w)
      else (case supportsLinuxCgroupMatcher ''--path'' w of
          (False, w1) \<Rightarrow> (None, w1)
        | (True, w1) \<Rightarrow>
            (let c = controller_at linuxCgroupV2 linuxCgroupV2Root False in
             case controller_setup c w1 of
               (None, w2) \<Rightarrow> (Some c, w2)
             | (Some e, w2) \<Rightarrow> (None, snd (controller_cleanup c w2)))))"

definition createLinuxCgroupController :: "cgroup_world \<Rightarrow> cgroup_controller res \<times> cgroup_world" where
  "createLinuxCgroupController w =
     (case create_v2 w of
        (Some c, w1) \<Rightarrow> (Inr c, w1)
      | (None, w1) \<Rightarrow>
          (case createLinuxCgroupV1Controller w1 of
             (Inl e, w2) \<Rightarrow> (Inl (Wrapped ''cgroup v2 unavailable; cgroup v1 net_cls fallback failed'' e), w2)
           | (Inr c, w2) \<Rightarrow> (Inr c, w2)))"

text \<open>\<open>startNativeProcess\<close> up to the new process: \<open>uid\<close> is the effective user.\<close>

definition start_controller :: "nat \<Rightarrow> cgroup_world \<Rightarrow> cgroup_controller res \<times> cgroup_world" where
  "start_controller uid w =
     (if uid \<noteq> 0 then (Inl (Plain ''Linux application routing requires the root KokoroBox Service''), w)
      else (case List.map_filter (\<lambda>n. case secureLinuxCommand (cw_fs w) n of Inl e \<Rightarrow> Some e | Inr _ \<Rightarrow> None) [''ip'', ''iptables'', ''ip6tables''] of
          e # _ \<Rightarrow> (Inl e, w)
        | [] \<Rightarrow> createLinuxCgroupController w))"

section \<open>Lemmas\<close>

text \<open>
  What every step of the set-up and of the clean-up respects: a preorder on the worlds that allows the effects on the
  cgroup file systems and the commands that the router runs.
\<close>

definition router_calls :: "(string \<times> string list) set" where
  "router_calls = {(''iptables'', [''-m'', ''cgroup'', ''--help'']), (''mount'', [''-t'', ''cgroup'', ''-o'', ''net_cls'', ''net_cls'', linuxPrivateCgroupDir])}
     \<union> range (\<lambda>m. (''umount'', [m]))"

locale cgroup_steps =
  fixes R :: "cgroup_world \<Rightarrow> cgroup_world \<Rightarrow> bool"
  assumes refl: "R w w"
    and trans: "R u v \<Longrightarrow> R v w \<Longrightarrow> R u w"
    and io: "R w (w\<lparr>cw_io := ios\<rparr>)"
    and run: "(name, args) \<in> router_calls \<Longrightarrow> R w (snd (run_command name args w))"
    and dirs: "R w (w\<lparr>cw_dirs := ds\<rparr>)"
    and ids: "R w (w\<lparr>cw_classids := ids\<rparr>)"
    and mounted: "R w (w\<lparr>cw_mounted := ms\<rparr>)"
    and procs: "R w (w\<lparr>cw_procs := map (\<lambda>(q, f). (q, if q = pid then target else f)) (cw_procs w)\<rparr>)"
    and failed: "R w (w\<lparr>cw_failed := x # cw_failed w\<rparr>)"
begin

lemma call_step: "cw_call w = (out, w') \<Longrightarrow> R w w'"
  using io [of w] by (auto simp: cw_call_def split: prod.splits)

lemma run_step: "run_command name args w = (r, w') \<Longrightarrow> (name, args) \<in> router_calls \<Longrightarrow> R w w'"
  using run [of name args w] by simp

lemma mkdir_step: "mkdir_all d w = (ok, w') \<Longrightarrow> R w w'"
  by (auto simp: mkdir_all_def split: prod.splits if_splits intro: trans [OF call_step dirs] call_step)

lemma groups_step: "setup_groups c gs w = (e, w') \<Longrightarrow> R w w'"
proof (induction c gs w arbitrary: e w' rule: setup_groups.induct)
  case (1 c w)
  then show ?case by (simp add: refl)
next
  case (2 c g gs w)
  obtain ok w1 where m: "mkdir_all (group_dir c g) w = (ok, w1)" by fastforce
  obtain out w2 where k: "cw_call w1 = (out, w2)" by fastforce
  have s: "R w w1" "R w w2" "R w (w2\<lparr>cw_classids := ids\<rparr>)" for ids
    using mkdir_step [OF m] call_step [OF k] trans ids by blast+
  consider "\<not> ok" | "ok" "cc_mode c \<noteq> linuxCgroupV1" | "ok" "cc_mode c = linuxCgroupV1" "out \<noteq> Done" | "ok" "cc_mode c = linuxCgroupV1" "out = Done" by blast
  then show ?case
  proof cases
    case 1
    then show ?thesis using "2.prems" s by (simp add: m)
  next
    case 2
    then have "setup_groups c gs w1 = (e, w')" using "2.prems" by (simp add: m)
    then show ?thesis using "2.IH"(2) m 2 s trans by metis
  next
    case 3
    then show ?thesis using "2.prems" s by (auto simp: m k Let_def split: if_splits)
  next
    case 4
    then have "setup_groups c gs (w2\<lparr>cw_classids := (cw_classids w2)(group_dir c g \<mapsto> linuxNetClsClassIDs g)\<rparr>) = (e, w')" using "2.prems" by (simp add: m k)
    moreover have "\<not> out \<noteq> Done" using 4 by simp
    ultimately show ?thesis using "2.IH"(1) [OF m [symmetric] _ 4(2) k [symmetric] HOL.refl] 4 s(3) trans by fastforce
  qed
qed

lemma setup_step: "controller_setup c w = (e, w') \<Longrightarrow> R w w'"
  by (auto simp: controller_setup_def split: prod.splits bool.splits intro: trans [OF mkdir_step groups_step] mkdir_step)

lemma move_out_step: "move_out pids target w = (es, w') \<Longrightarrow> R w w'"
proof (induction pids target w arbitrary: es w' rule: move_out.induct)
  case (2 pid pids target w)
  obtain out w1 where k: "cw_call w = (out, w1)" by fastforce
  have "R w (if out = Fails then w1 else w1\<lparr>cw_procs := map (\<lambda>(q, f). (q, if q = pid then target else f)) (cw_procs w1)\<rparr>)"
    by (simp add: call_step [OF k] trans [OF call_step [OF k] procs])
  then show ?case using "2.prems" "2.IH" [OF k [symmetric]] by (auto simp: k split: prod.splits intro: trans)
qed (simp add: refl)

lemma empty_step: "empty_group c g w = (es, w') \<Longrightarrow> R w w'"
  by (auto simp: empty_group_def refl split: prod.splits if_splits intro: trans [OF call_step move_out_step] call_step)

lemma remove_step: "remove_cgroup d busy w = (es, w') \<Longrightarrow> R w w'"
  by (auto simp: remove_cgroup_def refl split: prod.splits if_splits intro: trans [OF call_step dirs] trans [OF call_step failed])

lemma remove_groups_step: "remove_groups c gs w = (es, w') \<Longrightarrow> R w w'"
proof (induction c gs w arbitrary: es w' rule: remove_groups.induct)
  case (2 c g gs w)
  obtain es1 w1 where e: "empty_group c g w = (es1, w1)" by fastforce
  obtain es2 w2 where d: "remove_cgroup (group_dir c g) (list_ex (\<lambda>(q, f). f = group_procs c g) (cw_procs w1)) w1 = (es2, w2)" by fastforce
  obtain es3 w3 where r: "remove_groups c gs w2 = (es3, w3)" by fastforce
  have "R w2 w3" using "2.IH" e d r by metis
  then have "R w w3" using empty_step [OF e] remove_step [OF d] trans by blast
  then show ?case using "2.prems" by (simp add: e d r)
qed (simp add: refl)

lemma umount_step: "run_command ''umount'' [m] w = (r, w') \<Longrightarrow> R w w'"
  by (rule run_step) (auto simp: router_calls_def)

lemma cleanup_step: "controller_cleanup c w = (es, w') \<Longrightarrow> R w w'"
proof -
  assume c: "controller_cleanup c w = (es, w')"
  obtain es1 w1 where g: "remove_groups c (rev linuxRoutingGroups) w = (es1, w1)" by fastforce
  obtain es2 w2 where d: "remove_cgroup (cc_managedRoot c) (list_ex (\<lambda>g. group_dir c g \<in> set (cw_dirs w1)) linuxRoutingGroups) w1 = (es2, w2)" by fastforce
  obtain r w3 where u: "run_command ''umount'' [cc_mountPoint c] w2 = (r, w3)" by fastforce
  have s: "R w w2" "R w2 w3" using trans [OF remove_groups_step [OF g] remove_step [OF d]] umount_step [OF u] by auto
  show ?thesis using c s
    by (auto simp: controller_cleanup_def g d u split: if_splits sum.splits io.splits intro: trans mounted failed trans [OF trans mounted] trans [OF trans failed])
qed

lemma matcher_step: "supportsLinuxCgroupMatcher opt w = (ok, w') \<Longrightarrow> R w w'"
  by (auto simp: supportsLinuxCgroupMatcher_def router_calls_def split: prod.splits sum.splits intro: run_step)

lemma net_cls_step: "net_cls_mount w = (r, w') \<Longrightarrow> R w w'"
proof -
  assume n: "net_cls_mount w = (r, w')"
  obtain out w1 where k: "cw_call w = (out, w1)" by fastforce
  obtain r2 w2 where u: "run_command ''mount'' [''-t'', ''cgroup'', ''-o'', ''net_cls'', ''net_cls'', linuxPrivateCgroupDir] w1 = (r2, w2)" by fastforce
  have s: "R w w" "R w w1" "R w w2"
    by (rule refl call_step [OF k] trans [OF call_step [OF k] run_step [OF u]] | simp add: router_calls_def)+
  have m: "R w (w2\<lparr>cw_mounted := ms\<rparr>)" "R w (w2\<lparr>cw_mounted := ms, cw_failed := x # cw_failed w2\<rparr>)" "R w (w2\<lparr>cw_failed := x # cw_failed w2\<rparr>)" for ms x
    using trans [OF trans [OF s(3) mounted] failed] by (auto intro: trans [OF s(3) mounted] trans [OF s(3) failed])
  show ?thesis using n s m by (auto simp: net_cls_mount_def k u Let_def split: if_splits sum.splits)
qed

lemma create_v1_step: "createLinuxCgroupV1Controller w = (r, w') \<Longrightarrow> R w w'"
proof -
  assume c: "createLinuxCgroupV1Controller w = (r, w')"
  obtain r1 w1 where n: "net_cls_mount w = (r1, w1)" by fastforce
  obtain ok w2 where m: "supportsLinuxCgroupMatcher ''--cgroup'' w1 = (ok, w2)" by fastforce
  have s: "R w w1" "R w w2" using net_cls_step [OF n] matcher_step [OF m] trans by blast+
  have u: "R w w3" "R w (w3\<lparr>cw_mounted := ms\<rparr>)" "R w (w3\<lparr>cw_failed := x # cw_failed w3\<rparr>)" if "run_command ''umount'' [mp] w2 = (r3, w3)" for mp r3 w3 ms x
    using trans [OF s(2) umount_step [OF that]] by (auto intro: trans mounted failed)
  have p: "R w w3" if "controller_setup cc w2 = (e, w3)" for cc e w3 using trans [OF s(2) setup_step [OF that]] .
  have q: "R w (snd (controller_cleanup cc w3))" if "controller_setup cc w2 = (e, w3)" for cc e w3
    using trans [OF p [OF that] cleanup_step] by (cases "controller_cleanup cc w3") simp
  show ?thesis
    using c s u p q by (auto simp: createLinuxCgroupV1Controller_def n m Let_def split: sum.splits prod.splits bool.splits if_splits option.splits io.splits)
qed

lemma create_v2_step: "create_v2 w = (r, w') \<Longrightarrow> R w w'"
proof -
  assume c: "create_v2 w = (r, w')"
  obtain ok w1 where m: "supportsLinuxCgroupMatcher ''--path'' w = (ok, w1)" by fastforce
  have p: "R w w2" if "controller_setup cc w1 = (e, w2)" for cc e w2 using trans [OF matcher_step [OF m] setup_step [OF that]] .
  have q: "R w (snd (controller_cleanup cc w2))" if "controller_setup cc w1 = (e, w2)" for cc e w2
    using trans [OF p [OF that] cleanup_step] by (cases "controller_cleanup cc w2") simp
  show ?thesis using c p q matcher_step [OF m] refl
    by (auto simp: create_v2_def m Let_def split: if_splits prod.splits bool.splits option.splits)
qed

lemma create_step: "createLinuxCgroupController w = (r, w') \<Longrightarrow> R w w'"
  by (auto simp: createLinuxCgroupController_def split: prod.splits option.splits sum.splits
      intro: create_v2_step trans [OF create_v2_step create_v1_step])

lemma start_step: "start_controller uid w = (r, w') \<Longrightarrow> R w w'"
  by (auto simp: start_controller_def refl split: if_splits list.splits intro: create_step)

end

text \<open>A command ran from a file that only root can change, and it is one of the commands of the router.\<close>

definition trusted_file :: "command_fs \<Rightarrow> string \<Rightarrow> bool" where
  "trusted_file F path \<longleftrightarrow> (\<exists>i. cf_stat F path = Some i \<and> fi_uid i = 0 \<and> fi_regular i \<and> \<not> others_write (fi_perm i))"

lemma secure_trusted: "secureLinuxCommand F name = Inr path \<Longrightarrow> trusted_file F path"
  by (auto simp: secureLinuxCommand_def trusted_file_def split: option.splits if_splits)

definition runs_trusted :: "cgroup_world \<Rightarrow> cgroup_world \<Rightarrow> bool" where
  "runs_trusted w w' \<longleftrightarrow> cw_fs w' = cw_fs w \<and>
     (\<exists>ran. cw_ran w' = cw_ran w @ ran \<and> (\<forall>(path, call) \<in> set ran. trusted_file (cw_fs w) path \<and> call \<in> router_calls))"

lemma run_trusted: "(name, args) \<in> router_calls \<Longrightarrow> runs_trusted w (snd (run_command name args w))"
  by (auto simp: run_command_def runs_trusted_def cw_call_def split: sum.splits prod.splits dest: secure_trusted)

lemma runs_trusted_trans: "runs_trusted u v \<Longrightarrow> runs_trusted v w \<Longrightarrow> runs_trusted u w"
  by (fastforce simp: runs_trusted_def)

interpretation trusted: cgroup_steps runs_trusted
proof unfold_locales
  fix u v w
  assume "runs_trusted u v" "runs_trusted v w"
  then show "runs_trusted u w" by (rule runs_trusted_trans)
qed (simp_all add: run_trusted, simp_all add: runs_trusted_def)

text \<open>What a step leaves alone: the files, the kernel's answers, which processes there are, and the failures so far.\<close>

definition same_system :: "cgroup_world \<Rightarrow> cgroup_world \<Rightarrow> bool" where
  "same_system w w' \<longleftrightarrow> cw_help w' = cw_help w \<and> cw_procMounts w' = cw_procMounts w \<and> cw_v2 w' = cw_v2 w \<and>
     map fst (cw_procs w') = map fst (cw_procs w) \<and> set (cw_failed w) \<subseteq> set (cw_failed w')"

lemma run_same: "same_system w (snd (run_command name args w))"
  by (auto simp: run_command_def same_system_def cw_call_def split: sum.splits prod.splits)

interpretation same: cgroup_steps same_system
proof unfold_locales
  fix name args w
  show "same_system w (snd (run_command name args w))" by (rule run_same)
next
  fix w pid target
  show "same_system w (w\<lparr>cw_procs := map (\<lambda>(q, f). (q, if q = pid then target else f)) (cw_procs w)\<rparr>)"
    by (simp add: same_system_def case_prod_unfold comp_def)
qed (auto simp: same_system_def)

subsection \<open>Directories\<close>

definition managed :: "cgroup_controller \<Rightarrow> string set" where
  "managed c = insert (cc_managedRoot c) (group_dir c ` set linuxRoutingGroups)"

lemma call_dirs: "cw_call w = (out, w') \<Longrightarrow> cw_dirs w' = cw_dirs w \<and> cw_classids w' = cw_classids w \<and> cw_mounted w' = cw_mounted w"
  by (auto simp: cw_call_def split: prod.splits)

lemma run_dirs: "run_command name args w = (r, w') \<Longrightarrow> cw_dirs w' = cw_dirs w \<and> cw_classids w' = cw_classids w \<and> cw_mounted w' = cw_mounted w"
  by (auto simp: run_command_def split: sum.splits prod.splits dest: call_dirs)

lemma matcher_dirs: "supportsLinuxCgroupMatcher opt w = (ok, w') \<Longrightarrow> cw_dirs w' = cw_dirs w \<and> cw_classids w' = cw_classids w \<and> cw_mounted w' = cw_mounted w"
  by (auto simp: supportsLinuxCgroupMatcher_def split: sum.splits prod.splits dest: run_dirs)

lemma mkdir_dirs:
  assumes "mkdir_all d w = (ok, w')"
  shows "set (cw_dirs w) \<subseteq> set (cw_dirs w')" "set (cw_dirs w') \<subseteq> insert d (set (cw_dirs w))" "ok \<Longrightarrow> d \<in> set (cw_dirs w')"
    "cw_classids w' = cw_classids w" "cw_mounted w' = cw_mounted w"
  using assms by (auto simp: mkdir_all_def split: prod.splits if_splits dest: call_dirs)

lemma setup_groups_Cons:
  assumes "setup_groups c (g # gs) w = (e, w')"
  obtains (stop) "e \<noteq> None" "set (cw_dirs w) \<subseteq> set (cw_dirs w')" "set (cw_dirs w') \<subseteq> insert (group_dir c g) (set (cw_dirs w))" "cw_mounted w' = cw_mounted w"
  | (go) w1 where "setup_groups c gs w1 = (e, w')" "set (cw_dirs w1) = insert (group_dir c g) (set (cw_dirs w))" "cw_mounted w1 = cw_mounted w"
      "cw_classids w1 = (if cc_mode c = linuxCgroupV1 then (cw_classids w)(group_dir c g \<mapsto> linuxNetClsClassIDs g) else cw_classids w)"
proof -
  obtain ok w1 where m: "mkdir_all (group_dir c g) w = (ok, w1)" by fastforce
  obtain out w2 where k: "cw_call w1 = (out, w2)" by fastforce
  note d = mkdir_dirs [OF m] call_dirs [OF k]
  consider "\<not> ok" | "ok" "cc_mode c \<noteq> linuxCgroupV1" | "ok" "cc_mode c = linuxCgroupV1" "out \<noteq> Done" | "ok" "cc_mode c = linuxCgroupV1" "out = Done" by blast
  then show ?thesis
  proof cases
    case 1
    then show ?thesis using assms d by (intro stop) (auto simp: m)
  next
    case 2
    then show ?thesis using assms d go [of w1] by (simp add: m subset_antisym)
  next
    case 3
    then show ?thesis using assms d by (intro stop) (auto simp: m k split: if_splits)
  next
    case 4
    then show ?thesis using assms d go [of "w2\<lparr>cw_classids := (cw_classids w2)(group_dir c g \<mapsto> linuxNetClsClassIDs g)\<rparr>"]
      by (simp add: m k subset_antisym)
  qed
qed

lemma setup_groups_dirs:
  "setup_groups c gs w = (e, w') \<Longrightarrow>
     set (cw_dirs w) \<subseteq> set (cw_dirs w') \<and> set (cw_dirs w') \<subseteq> group_dir c ` set gs \<union> set (cw_dirs w) \<and> cw_mounted w' = cw_mounted w"
proof (induction gs arbitrary: w)
  case (Cons g gs)
  from Cons.prems show ?case
  proof (cases rule: setup_groups_Cons)
    case (go w1)
    then show ?thesis using Cons.IH [OF go(1)] by auto
  qed auto
qed simp

lemma setup_dirs:
  assumes "controller_setup c w = (e, w')"
  shows "set (cw_dirs w') \<subseteq> managed c \<union> set (cw_dirs w)" "cw_mounted w' = cw_mounted w"
proof -
  obtain ok w1 where m: "mkdir_all (cc_managedRoot c) w = (ok, w1)" by fastforce
  have "set (cw_dirs w') \<subseteq> managed c \<union> set (cw_dirs w) \<and> cw_mounted w' = cw_mounted w"
    using assms mkdir_dirs [OF m] setup_groups_dirs [of c linuxRoutingGroups w1 e w']
    by (cases ok) (auto simp: controller_setup_def managed_def m)
  then show "set (cw_dirs w') \<subseteq> managed c \<union> set (cw_dirs w)" "cw_mounted w' = cw_mounted w" by blast+
qed

lemma setup_groups_ready:
  "setup_groups c gs w = (None, w') \<Longrightarrow> distinct gs \<Longrightarrow>
    (\<forall>g \<in> set gs. group_dir c g \<in> set (cw_dirs w') \<and> (cc_mode c = linuxCgroupV1 \<longrightarrow> cw_classids w' (group_dir c g) = Some (linuxNetClsClassIDs g))) \<and>
    (\<forall>d. d \<notin> group_dir c ` set gs \<longrightarrow> cw_classids w' d = cw_classids w d)"
proof (induction gs arbitrary: w)
  case (Cons g gs)
  have g: "group_dir c g \<notin> group_dir c ` set gs" using Cons.prems by (auto simp: group_dir_def)
  from Cons.prems(1) show ?case
  proof (cases rule: setup_groups_Cons)
    case (go w1)
    then have IH: "\<forall>g \<in> set gs. group_dir c g \<in> set (cw_dirs w') \<and> (cc_mode c = linuxCgroupV1 \<longrightarrow> cw_classids w' (group_dir c g) = Some (linuxNetClsClassIDs g))"
      "\<forall>d. d \<notin> group_dir c ` set gs \<longrightarrow> cw_classids w' d = cw_classids w1 d" using Cons.IH [OF go(1)] Cons.prems by auto
    show ?thesis using IH g go setup_groups_dirs [OF go(1)] by auto
  qed simp
qed simp

lemma groups_distinct: "distinct linuxRoutingGroups"
  by (simp add: linuxRoutingGroups_def)

lemma setup_ready:
  assumes "controller_setup c w = (None, w')" "g \<in> set linuxRoutingGroups"
  shows "group_dir c g \<in> set (cw_dirs w')" "cc_mode c = linuxCgroupV1 \<Longrightarrow> cw_classids w' (group_dir c g) = Some (linuxNetClsClassIDs g)"
  using assms setup_groups_ready [OF _ groups_distinct] by (auto simp: controller_setup_def split: prod.splits bool.splits)

text \<open>The clean-up: a directory of the router that is still there is one whose removal was reported as failed.\<close>

lemma move_out_dirs: "move_out pids target w = (es, w') \<Longrightarrow> cw_dirs w' = cw_dirs w \<and> cw_mounted w' = cw_mounted w"
proof (induction pids target w arbitrary: es w' rule: move_out.induct)
  case (2 pid pids target w)
  obtain out w1 where k: "cw_call w = (out, w1)" by fastforce
  show ?case using "2.prems" "2.IH" [OF k [symmetric]] call_dirs [OF k] by (auto simp: k split: prod.splits if_splits)
qed simp

lemma empty_dirs: "empty_group c g w = (es, w') \<Longrightarrow> cw_dirs w' = cw_dirs w \<and> cw_mounted w' = cw_mounted w"
  by (auto simp: empty_group_def split: prod.splits if_splits dest!: call_dirs move_out_dirs)

lemma remove_cgroup_dirs:
  assumes "remove_cgroup d busy w = (es, w')"
  shows "set (cw_dirs w') \<subseteq> set (cw_dirs w) \<and> (d \<in> set (cw_dirs w') \<longrightarrow> Rmdir d \<in> set (cw_failed w')) \<and> cw_mounted w' = cw_mounted w \<and>
    set (cw_dirs w) \<subseteq> insert d (set (cw_dirs w'))"
  using assms by (auto simp: remove_cgroup_def split: prod.splits if_splits dest: call_dirs)

lemma remove_groups_dirs:
  "remove_groups c gs w = (es, w') \<Longrightarrow> set (cw_dirs w') \<subseteq> set (cw_dirs w) \<and> cw_mounted w' = cw_mounted w \<and>
     (\<forall>g \<in> set gs. group_dir c g \<in> set (cw_dirs w') \<longrightarrow> Rmdir (group_dir c g) \<in> set (cw_failed w'))"
proof (induction gs arbitrary: w es)
  case (Cons g gs)
  obtain es1 w1 where e: "empty_group c g w = (es1, w1)" by fastforce
  obtain es2 w2 where d: "remove_cgroup (group_dir c g) (list_ex (\<lambda>(q, f). f = group_procs c g) (cw_procs w1)) w1 = (es2, w2)" by fastforce
  obtain es3 where r: "remove_groups c gs w2 = (es3, w')" using Cons.prems by (auto simp: e d split: prod.splits)
  have "set (cw_failed w2) \<subseteq> set (cw_failed w')" using same.remove_groups_step [OF r] by (simp add: same_system_def)
  then show ?case using Cons.IH [OF r] empty_dirs [OF e] remove_cgroup_dirs [OF d] by auto
qed simp

lemma cgroup_cleanup_dirs:
  assumes "controller_cleanup c w = (es, w')"
  shows "set (cw_dirs w') \<subseteq> set (cw_dirs w)" "d \<in> managed c \<Longrightarrow> d \<in> set (cw_dirs w') \<Longrightarrow> Rmdir d \<in> set (cw_failed w')"
    "set (cw_mounted w') \<subseteq> set (cw_mounted w)"
    "cc_mountedV1 c \<Longrightarrow> cc_mountPoint c \<in> set (cw_mounted w') \<Longrightarrow> UmountCommand (cc_mountPoint c) \<in> set (cw_failed w')"
proof -
  obtain es1 w1 where g: "remove_groups c (rev linuxRoutingGroups) w = (es1, w1)" by fastforce
  obtain es2 w2 where r: "remove_cgroup (cc_managedRoot c) (list_ex (\<lambda>g. group_dir c g \<in> set (cw_dirs w1)) linuxRoutingGroups) w1 = (es2, w2)" by fastforce
  obtain r3 w3 where u: "run_command ''umount'' [cc_mountPoint c] w2 = (r3, w3)" by fastforce
  have f: "set (cw_failed w1) \<subseteq> set (cw_failed w2)" "set (cw_failed w2) \<subseteq> set (cw_failed w3)"
    using same.remove_step [OF r] same.umount_step [OF u] by (simp_all add: same_system_def)
  note d = remove_groups_dirs [OF g] remove_cgroup_dirs [OF r] run_dirs [OF u]
  have w2: "set (cw_dirs w2) \<subseteq> set (cw_dirs w)" "d \<in> managed c \<Longrightarrow> d \<in> set (cw_dirs w2) \<Longrightarrow> Rmdir d \<in> set (cw_failed w2)" for d
    using d f by (auto simp: managed_def)
  have w': "w' = (if \<not> cc_mountedV1 c then w2 else if r3 = Inr Done then w3\<lparr>cw_mounted := removeAll (cc_mountPoint c) (cw_mounted w3)\<rparr>
      else w3\<lparr>cw_failed := UmountCommand (cc_mountPoint c) # cw_failed w3\<rparr>)"
    using assms by (auto simp: controller_cleanup_def g r u split: if_splits sum.splits io.splits)
  show "set (cw_dirs w') \<subseteq> set (cw_dirs w)" "d \<in> managed c \<Longrightarrow> d \<in> set (cw_dirs w') \<Longrightarrow> Rmdir d \<in> set (cw_failed w')"
    "set (cw_mounted w') \<subseteq> set (cw_mounted w)"
    "cc_mountedV1 c \<Longrightarrow> cc_mountPoint c \<in> set (cw_mounted w') \<Longrightarrow> UmountCommand (cc_mountPoint c) \<in> set (cw_failed w')"
    using w2 d f by (auto simp: w' split: if_splits)
qed

text \<open>When no call fails, the set-up succeeds.\<close>

lemma mkdir_succeeds: "cw_io w = [] \<Longrightarrow> fst (mkdir_all d w) \<and> cw_io (snd (mkdir_all d w)) = []"
  by (simp add: mkdir_all_def cw_call_def)

lemma setup_groups_succeeds: "cw_io w = [] \<Longrightarrow> \<exists>w'. setup_groups c gs w = (None, w')"
proof (induction gs arbitrary: w)
  case (Cons g gs)
  obtain w1 where m: "mkdir_all (group_dir c g) w = (True, w1)" "cw_io w1 = []"
    using mkdir_succeeds [OF Cons.prems, of "group_dir c g"] by (cases "mkdir_all (group_dir c g) w") auto
  then show ?case using Cons.IH by (simp add: cw_call_def)
qed simp

lemma setup_succeeds: "cw_io w = [] \<Longrightarrow> \<exists>w'. controller_setup c w = (None, w')"
  using mkdir_succeeds [of w "cc_managedRoot c"] setup_groups_succeeds
  by (cases "mkdir_all (cc_managedRoot c) w") (auto simp: controller_setup_def)

subsection \<open>Creation\<close>

text \<open>Nothing of an attempt is left but what could not be removed.\<close>

definition left_over :: "cgroup_world \<Rightarrow> cgroup_world \<Rightarrow> bool" where
  "left_over w w' \<longleftrightarrow> (\<forall>d \<in> set (cw_dirs w'). d \<in> set (cw_dirs w) \<or> Rmdir d \<in> set (cw_failed w')) \<and>
     (\<forall>m \<in> set (cw_mounted w'). m \<in> set (cw_mounted w) \<or> MountCommand m \<in> set (cw_failed w') \<or> UmountCommand m \<in> set (cw_failed w'))"

lemma left_over_trans:
  assumes "left_over u v" "left_over v w" "same_system v w"
  shows "left_over u w"
  using assms unfolding left_over_def same_system_def by blast

lemma left_over_same: "cw_dirs w' = cw_dirs w \<Longrightarrow> cw_mounted w' = cw_mounted w \<Longrightarrow> left_over w w'"
  by (simp add: left_over_def)

lemma undone:
  assumes "controller_setup c w1 = (e, w2)" "cw_dirs w1 = cw_dirs w"
    and "set (cw_mounted w1) \<subseteq> (if cc_mountedV1 c then {cc_mountPoint c} else {}) \<union> set (cw_mounted w)"
  shows "left_over w (snd (controller_cleanup c w2))"
proof -
  obtain es w3 where k: "controller_cleanup c w2 = (es, w3)" by fastforce
  show ?thesis using assms(2,3) setup_dirs [OF assms(1)] cgroup_cleanup_dirs [OF k] by (auto simp: left_over_def k split: if_splits)
qed

lemma net_cls_mounts:
  assumes "net_cls_mount w = (r, w')"
  shows "cw_dirs w' = cw_dirs w" "r = Inr (mp, False) \<Longrightarrow> cw_mounted w' = cw_mounted w \<and> findNetClsMount (cw_procMounts w) = Inr mp \<and> mp \<noteq> []"
    "r = Inr (mp, True) \<Longrightarrow> mp = linuxPrivateCgroupDir \<and> cw_mounted w' = mp # cw_mounted w" "r = Inl e \<Longrightarrow> left_over w w'"
proof -
  obtain out w1 where k: "cw_call w = (out, w1)" by fastforce
  obtain r2 w2 where u: "run_command ''mount'' [''-t'', ''cgroup'', ''-o'', ''net_cls'', ''net_cls'', linuxPrivateCgroupDir] w1 = (r2, w2)" by fastforce
  note d = call_dirs [OF k] run_dirs [OF u]
  show "cw_dirs w' = cw_dirs w" "r = Inr (mp, False) \<Longrightarrow> cw_mounted w' = cw_mounted w \<and> findNetClsMount (cw_procMounts w) = Inr mp \<and> mp \<noteq> []"
    "r = Inr (mp, True) \<Longrightarrow> mp = linuxPrivateCgroupDir \<and> cw_mounted w' = mp # cw_mounted w" "r = Inl e \<Longrightarrow> left_over w w'"
    using assms d by (auto simp: net_cls_mount_def left_over_def k u Let_def split: sum.splits if_splits)
qed

lemma create_v1_left_over:
  assumes "createLinuxCgroupV1Controller w = (Inl e, w')"
  shows "left_over w w'"
proof -
  obtain r1 w1 where n: "net_cls_mount w = (r1, w1)" by fastforce
  show ?thesis
  proof (cases r1)
    case (Inl e1)
    then show ?thesis using assms net_cls_mounts(4) [OF n] by (simp add: createLinuxCgroupV1Controller_def n)
  next
    case (Inr mm)
    then obtain mp mounted where r: "r1 = Inr (mp, mounted)" by (cases mm) simp
    obtain ok w2 where m: "supportsLinuxCgroupMatcher ''--cgroup'' w1 = (ok, w2)" by fastforce
    obtain r3 w3 where u: "run_command ''umount'' [mp] w2 = (r3, w3)" by fastforce
    have d: "cw_dirs w2 = cw_dirs w" "set (cw_mounted w2) \<subseteq> (if mounted then {mp} else {}) \<union> set (cw_mounted w)"
      using net_cls_mounts(1-3) [OF n] matcher_dirs [OF m] r by (cases mounted; auto)+
    note u' = run_dirs [OF u]
    have undo: "left_over w (snd (controller_cleanup c w4))" if "controller_setup c w2 = (Some e, w4)" "c = controller_at linuxCgroupV1 mp mounted" for c w4 e
      by (rule undone [OF that(1) d(1)]) (use d(2) that(2) in \<open>cases mounted; simp add: controller_at_def\<close>)
    show ?thesis
    proof (cases ok)
      case True
      then show ?thesis using assms undo by (auto simp: createLinuxCgroupV1Controller_def n r m Let_def split: prod.splits option.splits)
    next
      case False
      then show ?thesis using assms d u'
        by (auto simp: createLinuxCgroupV1Controller_def n r m u left_over_def split: if_splits sum.splits io.splits)
    qed
  qed
qed

lemma create_v2_left_over:
  assumes "create_v2 w = (None, w')"
  shows "left_over w w'"
proof -
  obtain ok w1 where m: "supportsLinuxCgroupMatcher ''--path'' w = (ok, w1)" by fastforce
  have undo: "left_over w (snd (controller_cleanup c w2))" if "controller_setup c w1 = (Some e, w2)" "\<not> cc_mountedV1 c" for c w2 e
    using undone [OF that(1)] matcher_dirs [OF m] that(2) by simp
  show ?thesis using assms undo left_over_same [of w' w] matcher_dirs [OF m]
    by (auto simp: create_v2_def m controller_at_def Let_def split: if_splits bool.splits prod.splits option.splits)
qed

lemma start_left_over:
  assumes "start_controller uid w = (Inl e, w')"
  shows "left_over w w'"
proof (cases "w' = w")
  case False
  then have c: "createLinuxCgroupController w = (Inl e, w')" using assms by (auto simp: start_controller_def split: if_splits list.splits)
  obtain r1 w1 where v2: "create_v2 w = (r1, w1)" by fastforce
  obtain r2 w2 where v1: "createLinuxCgroupV1Controller w1 = (r2, w2)" by fastforce
  have "r1 = None" "w2 = w'" "\<exists>e. r2 = Inl e" using c by (auto simp: createLinuxCgroupController_def v2 v1 split: option.splits sum.splits)
  then show ?thesis
    using left_over_trans [OF create_v2_left_over create_v1_left_over same.create_v1_step] v1 v2 by metis
qed (simp add: left_over_def)

text \<open>What a controller that was created can be relied on for.\<close>

definition controller_ready :: "cgroup_controller \<Rightarrow> cgroup_world \<Rightarrow> bool" where
  "controller_ready c w \<longleftrightarrow>
     list_all (\<lambda>g. group_dir c g \<in> set (cw_dirs w) \<and> (cc_mode c = linuxCgroupV1 \<longrightarrow> cw_classids w (group_dir c g) = Some (linuxNetClsClassIDs g))) linuxRoutingGroups \<and>
     strings_Contains (cw_help w) (if cc_mode c = linuxCgroupV2 then ''--path'' else ''--cgroup'') \<and>
     (cc_mountedV1 c \<longrightarrow> cc_mountPoint c \<in> set (cw_mounted w))"

lemma matcher_help: "supportsLinuxCgroupMatcher opt w = (True, w') \<Longrightarrow> strings_Contains (cw_help w') opt"
  by (auto simp: supportsLinuxCgroupMatcher_def split: prod.splits sum.splits)

lemma setup_controller_ready:
  assumes "controller_setup c w = (None, w')" "strings_Contains (cw_help w) (if cc_mode c = linuxCgroupV2 then ''--path'' else ''--cgroup'')"
    and "cc_mountedV1 c \<Longrightarrow> cc_mountPoint c \<in> set (cw_mounted w)"
  shows "controller_ready c w'"
  using assms(2,3) setup_ready [OF assms(1)] setup_dirs(2) [OF assms(1)] same.setup_step [OF assms(1)]
  by (auto simp: controller_ready_def list_all_iff same_system_def)

lemma create_v2_ready:
  assumes "create_v2 w = (Some c, w')"
  shows "c = controller_at linuxCgroupV2 linuxCgroupV2Root False \<and> cw_v2 w \<and> controller_ready c w'"
proof -
  let ?c = "controller_at linuxCgroupV2 linuxCgroupV2Root False"
  obtain w1 where m: "supportsLinuxCgroupMatcher ''--path'' w = (True, w1)" "cw_v2 w" "controller_setup ?c w1 = (None, w')" "c = ?c"
    using assms by (auto simp: create_v2_def Let_def split: prod.splits bool.splits if_splits option.splits)
  then show ?thesis using setup_controller_ready [OF m(3)] matcher_help [OF m(1)] by (simp add: controller_at_def)
qed

lemma create_v1_ready:
  assumes "createLinuxCgroupV1Controller w = (Inr c, w')"
  obtains mp mounted where "c = controller_at linuxCgroupV1 mp mounted" "controller_ready c w'"
    "if mounted then mp = linuxPrivateCgroupDir else findNetClsMount (cw_procMounts w) = Inr mp \<and> mp \<noteq> []"
proof -
  obtain mp mounted w1 w2 where n: "net_cls_mount w = (Inr (mp, mounted), w1)" "supportsLinuxCgroupMatcher ''--cgroup'' w1 = (True, w2)"
    "controller_setup (controller_at linuxCgroupV1 mp mounted) w2 = (None, w')" "c = controller_at linuxCgroupV1 mp mounted"
    using assms by (auto simp: createLinuxCgroupV1Controller_def Let_def split: prod.splits bool.splits sum.splits option.splits)
  have "controller_ready c w'" unfolding n(4)
    using setup_controller_ready [OF n(3)] matcher_help [OF n(2)] matcher_dirs [OF n(2)] net_cls_mounts(3) [OF n(1)] by (cases mounted) (simp_all add: controller_at_def)
  then show ?thesis using that n(4) net_cls_mounts(2,3) [OF n(1)] by (cases mounted) auto
qed

lemma start_ready:
  assumes "start_controller uid w = (Inr c, w')"
  obtains (v2) "uid = 0" "c = controller_at linuxCgroupV2 linuxCgroupV2Root False" "cw_v2 w" "controller_ready c w'"
  | (v1) mp mounted where "uid = 0" "c = controller_at linuxCgroupV1 mp mounted" "controller_ready c w'"
    "if mounted then mp = linuxPrivateCgroupDir else findNetClsMount (cw_procMounts w) = Inr mp \<and> mp \<noteq> []"
proof -
  have c: "createLinuxCgroupController w = (Inr c, w')" "uid = 0" using assms by (auto simp: start_controller_def split: if_splits list.splits)
  obtain r1 w1 where k: "create_v2 w = (r1, w1)" by fastforce
  show ?thesis
  proof (cases r1)
    case None
    then have "createLinuxCgroupV1Controller w1 = (Inr c, w')" using c by (auto simp: createLinuxCgroupController_def k split: prod.splits sum.splits)
    moreover have "cw_procMounts w1 = cw_procMounts w" using same.create_v2_step [OF k] by (simp add: same_system_def)
    ultimately show ?thesis by (elim create_v1_ready) (rule v1 [OF c(2)], assumption, assumption, simp split: if_splits)
  next
    case (Some c1)
    then have "create_v2 w = (Some c, w')" using c(1) by (simp add: createLinuxCgroupController_def k)
    from create_v2_ready [OF this] show ?thesis using v2 [OF c(2)] by blast
  qed
qed

text \<open>The root of the router under a clean absolute mount point, and that the file of the root is not below it.\<close>

definition kernel_mount :: "string \<Rightarrow> bool" where
  "kernel_mount m \<longleftrightarrow> path_IsAbs m \<and> path_Clean m = m"

lemma managed_root:
  assumes "kernel_mount m"
  shows "cc_managedRoot (controller_at mode m mounted) = (if m = ''/'' then [] else m) @ ''/'' @ linuxCgroupName"
proof -
  obtain es where es: "m = CHR ''/'' # strings_Join es ''/''" "list_all plain_elem es"
    using assms clean_rooted unfolding kernel_mount_def by metis
  show ?thesis
  proof (cases es)
    case Nil
    then show ?thesis using es by (simp add: controller_at_def filepath_Join_def linuxCgroupName_def path_Clean_def)
  next
    case (Cons a as)
    have j: "strings_Join (a # as) ''/'' @ ''/'' @ n = strings_Join ((a # as) @ [n]) ''/''" for n by (induction as arbitrary: a) auto
    have p: "list_all plain_elem ((a # as) @ [linuxCgroupName])" using es(2) Cons by (simp add: plain_elem_def linuxCgroupName_def)
    have ne: "strings_Join es ''/'' \<noteq> []" using es(2) Cons by (cases as) (auto simp: plain_elem_def)
    have "path_Clean (m @ ''/'' @ linuxCgroupName) = m @ ''/'' @ linuxCgroupName"
      unfolding es(1) Cons append_Cons [of "CHR ''/''" "strings_Join (a # as) ''/''"] j by (rule clean_of_plain [OF p])
    then show ?thesis using ne es(1) by (simp add: controller_at_def filepath_Join_def linuxCgroupName_def)
  qed
qed

lemma prefix_differs: "has_prefix (m @ x # s) (m @ y # t) \<longleftrightarrow> x = y \<and> has_prefix s t"
  by (induction m) (auto simp: has_prefix_def)

lemma controller_at_ok: "kernel_mount m \<Longrightarrow> controller_ok (controller_at mode m mounted)"
proof -
  assume m: "kernel_mount m"
  have r: "root_procs (controller_at mode m mounted) = m @ ''/cgroup.procs''" by (simp add: root_procs_def controller_at_def)
  show ?thesis unfolding controller_ok_def r managed_root [OF m]
    using prefix_differs [of "m @ ''/''" "CHR ''c''" "''group.procs''" "CHR ''k''" "''okorobox-app-routing/''"]
    by (auto simp: linuxCgroupName_def has_prefix_def)
qed

lemma start_ok:
  assumes "start_controller uid w = (Inr c, w')" and "\<And>mp. findNetClsMount (cw_procMounts w) = Inr mp \<Longrightarrow> mp \<noteq> [] \<Longrightarrow> kernel_mount mp"
  shows "controller_ok c"
proof -
  have k: "kernel_mount linuxCgroupV2Root" "kernel_mount linuxPrivateCgroupDir"
    by (simp_all add: kernel_mount_def linuxCgroupV2Root_def linuxPrivateCgroupDir_def path_IsAbs_def has_prefix_def path_Clean_def)
  from assms(1) show ?thesis
    by (cases rule: start_ready) (use k assms(2) in \<open>auto intro: controller_at_ok split: if_splits\<close>)
qed

subsection \<open>The text of the kernel\<close>

text \<open>The lines of a text that ends each of them.\<close>

definition unlines :: "string list \<Rightarrow> string" where
  "unlines ls = concat (map (\<lambda>l. l @ [CHR 0x0A]) ls)"

definition short_line :: "string \<Rightarrow> bool" where
  "short_line l \<longleftrightarrow> CHR 0x0A \<notin> set l \<and> (l \<noteq> [] \<longrightarrow> last l \<noteq> CHR 0x0D) \<and> length l < MaxScanTokenSize"

lemma split_unlines: "\<forall>l \<in> set ls. CHR 0x0A \<notin> set l \<Longrightarrow> split_at (CHR 0x0A) (unlines ls) = ls @ [[]]"
  by (induction ls) (simp_all add: unlines_def split_at_append)

lemma scan_unlines:
  assumes "list_all short_line ls"
  shows "scanner_lines (unlines ls) = (ls, False)"
proof -
  have s: "split_at (CHR 0x0A) (unlines ls) = ls @ [[]]"
    by (rule split_unlines) (use assms in \<open>auto simp: list_all_iff short_line_def\<close>)
  have t: "takeWhile (\<lambda>l. length l < MaxScanTokenSize) ls = ls" and x: "\<not> list_ex (\<lambda>l. MaxScanTokenSize \<le> length l) ls"
    using assms by (fastforce simp: list_all_iff list_ex_iff short_line_def takeWhile_eq_all_conv)+
  have d: "map drop_cr ls = ls"
    using assms by (intro map_idI) (auto simp: list_all_iff short_line_def drop_cr_def)
  show ?thesis using x by (simp add: scanner_lines_def s t d)
qed

text \<open>A line of \<open>/proc/<pid>/cgroup\<close>: the number of the hierarchy, its controllers, and the path of the process in it.\<close>

type_synonym cgroup_entry = "string \<times> string list \<times> string"

fun show_entry :: "cgroup_entry \<Rightarrow> string" where
  "show_entry (hier, controllers, path) = hier @ '':'' @ strings_Join controllers '','' @ '':'' @ path"

fun cgroup_entry_ok :: "cgroup_entry \<Rightarrow> bool" where
  "cgroup_entry_ok (hier, controllers, path) \<longleftrightarrow> CHR '':'' \<notin> set hier \<and> (\<forall>k \<in> set controllers. k \<noteq> [] \<and> CHR '':'' \<notin> set k \<and> CHR '','' \<notin> set k) \<and>
     short_line (show_entry (hier, controllers, path))"

text \<open>The hierarchy a controller works in: the unified one, or the one with \<open>net_cls\<close>.\<close>

fun entry_of :: "cgroup_controller \<Rightarrow> cgroup_entry \<Rightarrow> bool" where
  "entry_of c (hier, controllers, path) \<longleftrightarrow>
     (case cc_mode c of linuxCgroupV2 \<Rightarrow> hier = ''0'' \<and> controllers = [] | linuxCgroupV1 \<Rightarrow> ''net_cls'' \<in> set controllers)"

lemma join_chars: "x \<in> set (strings_Join ks [s]) \<Longrightarrow> x = s \<or> (\<exists>k \<in> set ks. x \<in> set k)"
  using set_strings_Join [of ks "[s]"] by auto

lemma join_Nil: "\<forall>k \<in> set ks. k \<noteq> [] \<Longrightarrow> strings_Join ks s = [] \<longleftrightarrow> ks = []"
  by (induction ks s rule: strings_Join.induct) auto

lemma contains_joined: "\<forall>k \<in> set ks. CHR '','' \<notin> set k \<Longrightarrow> t \<noteq> [] \<Longrightarrow> containsController (strings_Join ks '','') t \<longleftrightarrow> t \<in> set ks"
  by (cases "ks = []") (simp_all add: containsController_def split_at_Join)

lemma cgroup_line_shown:
  assumes "cgroup_entry_ok e"
  shows "cgroup_line c (show_entry e) = (if entry_of c e then Some (filepath_Join [cc_mountPoint c, strings_TrimPrefix (snd (snd e)) ''/'', ''cgroup.procs'']) else None)"
proof -
  obtain h ks path where e: "e = (h, ks, path)" by (cases e)
  have h: "CHR '':'' \<notin> set h" and k: "\<forall>k \<in> set ks. k \<noteq> [] \<and> CHR '':'' \<notin> set k \<and> CHR '','' \<notin> set k" using assms by (auto simp: e)
  have j: "CHR '':'' \<notin> set (strings_Join ks '','')" using k by (auto dest!: join_chars)
  have "split_n 2 (CHR '':'') (show_entry e) = [h, strings_Join ks '','', path]"
    using strings_Cut_append [OF h, of "strings_Join ks '','' @ '':'' @ path"] strings_Cut_append [OF j, of path]
    by (simp add: e numeral_2_eq_2)
  moreover have "strings_Join ks '','' = [] \<longleftrightarrow> ks = []" using k by (intro join_Nil) blast
  moreover have "containsController (strings_Join ks '','') ''net_cls'' \<longleftrightarrow> ''net_cls'' \<in> set ks" using k by (intro contains_joined) auto
  ultimately show ?thesis by (cases "cc_mode c") (simp_all add: cgroup_line_def e)
qed

lemma find_filtered: "find P xs = (case filter P xs of [] \<Rightarrow> None | x # _ \<Rightarrow> Some x)"
  by (induction xs) auto

lemma membership_shown:
  assumes "list_all cgroup_entry_ok es"
  shows "read_cgroup c (Some (unlines (map show_entry es))) =
    (case find (entry_of c) es of
       Some (hier, controllers, path) \<Rightarrow> Inr (filepath_Join [cc_mountPoint c, strings_TrimPrefix path ''/'', ''cgroup.procs''])
     | None \<Rightarrow> Inl (Plain ''process has no cgroup membership''))"
proof -
  have s: "scanner_lines (unlines (map show_entry es)) = (map show_entry es, False)"
    by (rule scan_unlines) (use assms in \<open>auto simp: list_all_iff\<close>)
  have "List.map_filter (cgroup_line c) (map show_entry es) = map (\<lambda>e. filepath_Join [cc_mountPoint c, strings_TrimPrefix (snd (snd e)) ''/'', ''cgroup.procs'']) (filter (entry_of c) es)"
    using assms by (induction es) (simp_all add: List.map_filter_simps cgroup_line_shown)
  then show ?thesis
    by (cases "filter (entry_of c) es") (auto simp: read_cgroup_def s find_filtered split: prod.splits)
qed

text \<open>The parent in \<open>/proc/<pid>/status\<close>: a line \<open>PPid:\<close>, a tabulator and the number.\<close>

definition blank :: "char \<Rightarrow> bool" where
  "blank x \<longleftrightarrow> x \<in> {CHR '' '', CHR 0x09, CHR 0x0A, CHR 0x0B, CHR 0x0C, CHR 0x0D}"

lemma fields_blank: "ascii_fields acc (x # s) = (if blank x then (if acc = [] then ascii_fields [] s else rev acc # ascii_fields [] s) else ascii_fields (x # acc) s)"
  by (simp add: blank_def)

lemma fields_word: "list_all (Not \<circ> blank) u \<Longrightarrow> ascii_fields acc (u @ s) = ascii_fields (rev u @ acc) s"
  by (induction u arbitrary: acc) (simp_all add: fields_blank del: ascii_fields.simps(2))

lemma fields_two:
  assumes "list_all (Not \<circ> blank) u" "list_all (Not \<circ> blank) v" "u \<noteq> []" "v \<noteq> []"
  shows "strings_Fields (u @ CHR 0x09 # v) = [u, v]"
  using fields_word [OF assms(1), of "[]" "CHR 0x09 # v"] fields_word [OF assms(2), of "[]" "[]"] assms(3,4)
  by (simp add: strings_Fields_def)

lemma read_parent:
  assumes "list_all short_line (before @ after)" and "\<forall>l \<in> set before. length (strings_Fields l) \<noteq> 2 \<or> hd (strings_Fields l) \<noteq> ''PPid:''"
    and "0 < n" "n < 2 ^ 63" "length (format_nat n) < 60000"
  shows "read_ppid (Some (unlines (before @ (''PPid:'' @ CHR 0x09 # format_nat n) # after))) = Some (int n)"
proof -
  let ?l = "''PPid:'' @ CHR 0x09 # format_nat n"
  have d: "list_all is_digit (format_nat n)" by (rule format_nat_digits)
  have b: "list_all (Not \<circ> blank) (format_nat n)" using d by (auto simp: list_all_iff is_digit_def byte_val_def blank_def)
  have f: "strings_Fields ?l = [''PPid:'', format_nat n]" by (rule fields_two [OF _ b]) (simp_all add: blank_def format_nat_ne)
  have "CHR 0x0A \<notin> set (format_nat n)" "last (format_nat n) \<noteq> CHR 0x0D"
    using b last_in_set [OF format_nat_ne [of n]] by (auto simp: list_all_iff blank_def)
  then have "short_line ?l" using assms(5) format_nat_ne [of n] by (simp add: short_line_def MaxScanTokenSize_def)
  then have s: "scanner_lines (unlines (before @ ?l # after)) = (before @ ?l # after, False)" by (intro scan_unlines) (use assms(1) in simp)
  have "filter (\<lambda>fs. length fs = 2 \<and> hd fs = ''PPid:'') (map strings_Fields before) = []" using assms(2) by (auto simp: filter_empty_conv)
  then show ?thesis using parse_int_format [OF assms(3,4)] by (simp only: read_ppid_def s option.case fst_conv map_append filter_append list.map f) simp
qed

text \<open>The path that the kernel shows is put below the mount point.\<close>

lemma join_app: "xs \<noteq> [] \<Longrightarrow> ys \<noteq> [] \<Longrightarrow> strings_Join (xs @ ys) s = strings_Join xs s @ s @ strings_Join ys s"
proof (induction xs s rule: strings_Join.induct)
  case (2 x s)
  then show ?case by (cases ys) auto
qed auto

lemma join_below:
  assumes "kernel_mount m" "m \<noteq> ''/''" "kernel_mount path"
  shows "filepath_Join [m, strings_TrimPrefix path ''/'', ''cgroup.procs''] = m @ (if path = ''/'' then [] else path) @ ''/cgroup.procs''"
proof -
  obtain as where as: "m = CHR ''/'' # strings_Join as ''/''" "list_all plain_elem as" "as \<noteq> []"
    using assms(1,2) clean_rooted [of m] unfolding kernel_mount_def by (metis strings_Join.simps(1))
  obtain bs where bs: "path = CHR ''/'' # strings_Join bs ''/''" "list_all plain_elem bs"
    using assms(3) clean_rooted [of path] unfolding kernel_mount_def by metis
  have t: "strings_TrimPrefix path ''/'' = strings_Join bs ''/''" by (simp add: bs strings_TrimPrefix_def has_prefix_def)
  have ne: "strings_Join bs ''/'' = [] \<longleftrightarrow> bs = []" using bs(2) by (intro join_Nil) (auto simp: list_all_iff plain_elem_def)
  have "filter (\<lambda>e. e \<noteq> []) [m, strings_TrimPrefix path ''/'', ''cgroup.procs''] = (if bs = [] then [m, ''cgroup.procs''] else [m, strings_Join bs ''/'', ''cgroup.procs''])"
    using ne by (simp add: t as(1))
  moreover have "strings_Join (if bs = [] then [m, ''cgroup.procs''] else [m, strings_Join bs ''/'', ''cgroup.procs'']) ''/'' = CHR ''/'' # strings_Join (as @ bs @ [''cgroup.procs'']) ''/''"
    by (simp add: join_app as(1,3))
  moreover have "list_all plain_elem (as @ bs @ [''cgroup.procs''])" using as bs by (simp add: plain_elem_def)
  ultimately have "filepath_Join [m, strings_TrimPrefix path ''/'', ''cgroup.procs''] = CHR ''/'' # strings_Join (as @ bs @ [''cgroup.procs'']) ''/''"
    by (simp add: filepath_Join_def clean_of_plain Let_def split: if_splits)
  then show ?thesis using ne by (simp add: join_app as(1,3) bs(1))
qed

lemma prefix_dir:
  assumes "path \<noteq> []" "CHR ''/'' \<notin> set (tl n)" "n \<noteq> []"
  shows "has_prefix (path @ CHR ''/'' # s) (n @ ''/'') \<longleftrightarrow> path = n \<or> has_prefix path (n @ ''/'')"
proof
  assume h: "has_prefix (path @ CHR ''/'' # s) (n @ ''/'')"
  show "path = n \<or> has_prefix path (n @ ''/'')"
  proof (cases "length path \<le> length n")
    case False
    then show ?thesis using h by (simp add: has_prefix_def)
  next
    case True
    obtain t where t: "path @ CHR ''/'' # s = n @ CHR ''/'' # t"
      using h unfolding has_prefix_def by (metis append_take_drop_id append.assoc append_Cons append_Nil)
    show ?thesis
    proof (cases "length path = length n")
      case False
      with True have l: "0 < length path" "length path < length n" using assms(1) by auto
      then have "n ! length path = CHR ''/''" using t by (metis append_Cons nth_append nth_append_length)
      then have "tl n ! (length path - 1) = CHR ''/''" using l by (cases n) (auto simp: nth_Cons')
      moreover have "length path - 1 < length (tl n)" using l by (cases path; cases n) auto
      ultimately show ?thesis using assms(2) nth_mem by metis
    qed (use t in simp)
  qed
next
  assume "path = n \<or> has_prefix path (n @ ''/'')"
  then show "has_prefix (path @ CHR ''/'' # s) (n @ ''/'')"
  proof
    assume h: "has_prefix path (n @ ''/'')"
    then have "length (take (Suc (length n)) path) = Suc (length n)" by (simp add: has_prefix_def)
    then show ?thesis using h by (simp add: has_prefix_def)
  qed (simp add: has_prefix_def)
qed

lemma managed_prefix:
  assumes "kernel_mount path"
  shows "has_prefix (m @ (if path = ''/'' then [] else path) @ ''/cgroup.procs'') (m @ ''/'' @ linuxCgroupName @ ''/'') \<longleftrightarrow>
    path = ''/'' @ linuxCgroupName \<or> has_prefix path (''/'' @ linuxCgroupName @ ''/'')"
proof -
  have a: "has_prefix (m @ s) (m @ t) \<longleftrightarrow> has_prefix s t" for s t :: string by (simp add: has_prefix_def)
  have "path \<noteq> []" using assms by (auto simp: kernel_mount_def path_IsAbs_def has_prefix_def)
  from prefix_dir [OF this, of "''/'' @ linuxCgroupName" "''cgroup.procs''"] show ?thesis
    unfolding a by (auto simp: has_prefix_def linuxCgroupName_def)
qed

text \<open>Scanning: only the processes of the snapshot are moved.\<close>

definition home_of :: "int \<Rightarrow> linux_process \<Rightarrow> (int \<times> string) list" where
  "home_of q p = filter (\<lambda>(r, _). r = q) (lp_world p)"

lemma home_write: "q \<noteq> pid \<Longrightarrow> home_of q (write_procs pid f p) = home_of q p"
proof -
  assume "q \<noteq> pid"
  then have "filter (\<lambda>(r, _). r = q) (map (\<lambda>(r, g). if r = pid then (r, f) else (r, g)) xs) = filter (\<lambda>(r, _). r = q) xs" for xs
    by (induction xs) (auto split: if_splits)
  then show ?thesis by (simp add: home_of_def write_procs_def)
qed

lemma home_keep: "home_of q (p\<lparr>lp_assigned := a\<rparr>) = home_of q p" "home_of q (p\<lparr>lp_original := b\<rparr>) = home_of q p"
  "home_of q (p\<lparr>lp_io := c\<rparr>) = home_of q p" "home_of q (p\<lparr>lp_diagnostics := d\<rparr>) = home_of q p"
  by (simp_all add: home_of_def)

lemma home_restore: "q \<noteq> pid \<Longrightarrow> home_of q (snd (restoreProcessLocked pid p)) = home_of q p"
  by (simp add: restoreProcessLocked_def Let_def lp_call_eq home_write home_keep)

lemma home_track: "home_of q (snd (track pid p)) = home_of q p"
  by (simp add: track_def processCgroup_def lp_call_eq Let_def home_keep split: sum.splits option.splits)

lemma home_move: "q \<noteq> pid \<Longrightarrow> home_of q (snd (move pid g p)) = home_of q p"
  by (simp add: move_def lp_call_eq home_write home_keep split: option.splits)

lemma home_scan_one: "q \<noteq> ls_pid pr \<Longrightarrow> home_of q (snd (snd (scan_one now pr p))) = home_of q p"
  using home_restore [of q "ls_pid pr" p] home_track [of q "ls_pid pr" p] home_move [of q "ls_pid pr"]
  by (auto simp: scan_one_def Let_def home_keep split: option.splits prod.splits) (metis snd_conv)+

lemma home_scan: "q \<notin> ls_pid ` set prs \<Longrightarrow> home_of q (snd (snd (scan_loop now prs p))) = home_of q p"
  by (induction prs arbitrary: p) (auto simp: case_prod_unfold home_scan_one)

lemma home_apply: "q \<notin> ls_pid ` set prs \<Longrightarrow> home_of q (snd (applyProcessSnapshotLocked now prs p)) = home_of q p"
  using home_scan [of q prs now p] by (simp add: applyProcessSnapshotLocked_def Let_def case_prod_unfold home_keep home_of_def)

lemma snapshot_entry_some:
  assumes "snapshot_entry self e = Some pr"
  shows "pe_dir e \<and> parse_int 64 (pe_name e) = Some (ls_pid pr) \<and> 1 < ls_pid pr \<and> ls_pid pr \<noteq> self \<and>
    pe_exe e = Some (ls_executablePath pr) \<and> \<not> has_suffix (ls_executablePath pr) '' (deleted)''"
  using assms by (cases "parse_int 64 (pe_name e)"; cases "pe_exe e") (auto simp: snapshot_entry_def split: if_splits)

lemma snapshot_in: "pr \<in> set (List.map_filter (snapshot_entry self) es) \<longleftrightarrow> (\<exists>e \<in> set es. snapshot_entry self e = Some pr)"
  by (induction es) (auto simp: List.map_filter_simps split: option.splits)

section \<open>An example\<close>

text \<open>A system with trusted tools, both matchers, and no mount of \<open>net_cls\<close>.\<close>

definition toy_tools :: command_fs where
  "toy_tools = \<lparr>cf_look = (\<lambda>n. Some (''/sbin/'' @ n)), cf_eval = Some,
     cf_stat = (\<lambda>p. Some \<lparr>fi_uid = 0, fi_perm = 493, fi_regular = True, fi_dir = False, fi_link = False\<rparr>)\<rparr>"

definition toy_cgroups :: "bool \<Rightarrow> io list \<Rightarrow> cgroup_world" where
  "toy_cgroups v2 ios = \<lparr>cw_fs = toy_tools, cw_help = ''--path --cgroup'', cw_procMounts = Some [], cw_v2 = v2, cw_dirs = [],
     cw_classids = Map.empty, cw_mounted = [], cw_procs = [(7, ''/c/cgroup.procs'')], cw_ran = [], cw_failed = [], cw_io = ios\<rparr>"

lemma toy_secure: "secureLinuxCommand toy_tools n = Inr (''/sbin/'' @ n)"
  by (simp add: secureLinuxCommand_def toy_tools_def others_write_def)

lemma toy_fs: "cw_fs (toy_cgroups v2 ios) = toy_tools"
  by (simp add: toy_cgroups_def)

lemma toy_start_v2: "fst (start_controller 0 (toy_cgroups True [])) = Inr (controller_at linuxCgroupV2 linuxCgroupV2Root False)"
proof -
  let ?c = "controller_at linuxCgroupV2 linuxCgroupV2Root False"
  obtain w1 where m: "supportsLinuxCgroupMatcher ''--path'' (toy_cgroups True []) = (True, w1)" "cw_io w1 = []"
    by (simp add: supportsLinuxCgroupMatcher_def run_command_def cw_call_def toy_cgroups_def toy_secure has_prefix_def)
  obtain w2 where "controller_setup ?c w1 = (None, w2)" using setup_succeeds [OF m(2)] by blast
  then have "create_v2 (toy_cgroups True []) = (Some ?c, w2)" using m(1) by (simp add: create_v2_def) (simp add: toy_cgroups_def)
  then show ?thesis
    by (simp add: start_controller_def createLinuxCgroupController_def List.map_filter_simps toy_fs toy_secure)
qed

text \<open>The first directory of version 1 cannot be made: the mount is undone.\<close>

lemma toy_start_fails: "\<exists>e. fst (start_controller 0 (toy_cgroups False [Done, Done, Done, Fails])) = Inl e"
  by (simp add: start_controller_def toy_cgroups_def toy_secure List.map_filter_simps createLinuxCgroupController_def create_v2_def createLinuxCgroupV1Controller_def
      net_cls_mount_def findNetClsMount_def scanner_lines_def supportsLinuxCgroupMatcher_def
      run_command_def cw_call_def has_prefix_def controller_setup_def mkdir_all_def Let_def)

text \<open>Of the escapes of \<open>/proc/mounts\<close> only the space is undone: a mount point with a backslash is not found under its name.\<close>

lemma mount_escape_kept:
  "findNetClsMount (Some (unlines [''n /a'' @ [CHR 0x5C] @ ''134b cgroup rw,net_cls 0 0''])) = Inr (''/a'' @ [CHR 0x5C] @ ''134b'')"
proof -
  let ?l = "''n /a'' @ [CHR 0x5C] @ ''134b cgroup rw,net_cls 0 0''"
  have "net_cls_line ?l = Some (''/a'' @ [CHR 0x5C] @ ''134b'')"
    by (simp add: net_cls_line_def strings_Fields_def containsController_def has_prefix_def)
  moreover have "scanner_lines (unlines [?l]) = ([?l], False)" by (rule scan_unlines) (simp add: short_line_def MaxScanTokenSize_def)
  ultimately show ?thesis by (simp add: findNetClsMount_def List.map_filter_simps)
qed

section \<open>Properties\<close>

text \<open>
  C22. Trusted commands: whatever the kernel answers and whatever fails while the router is set up, every command that was
  run was executed from a regular file that belongs to root and that nobody else may write, and it is the query for the matcher, the
  mount of \<open>net_cls\<close> or an unmount; without the rights of root nothing is done at all.
\<close>

theorem router_runs_trusted:
  assumes "start_controller uid w = (r, w')"
  shows "\<exists>ran. cw_ran w' = cw_ran w @ ran \<and>
     list_all (\<lambda>(path, call). call \<in> router_calls \<and>
       (case cf_stat (cw_fs w) path of None \<Rightarrow> False | Some i \<Rightarrow> fi_uid i = 0 \<and> fi_regular i \<and> \<not> others_write (fi_perm i))) ran \<and>
     (uid \<noteq> 0 \<longrightarrow> w' = w)"
proof -
  from trusted.start_step [OF assms] obtain ran where "cw_ran w' = cw_ran w @ ran"
    "\<forall>(path, call) \<in> set ran. trusted_file (cw_fs w) path \<and> call \<in> router_calls" by (auto simp: runs_trusted_def)
  then show ?thesis using assms
    by (intro exI [of _ ran]) (fastforce simp: list_all_iff trusted_file_def start_controller_def)
qed

theorem router_runs_trusted_witness:
  "snd (start_controller 1000 (toy_cgroups True [])) = toy_cgroups True []"
  using router_runs_trusted [of 1000 "toy_cgroups True []", OF prod.collapse [symmetric]] by auto



text \<open>
  A router that was set up can be used: the cgroup of every routing group exists, with version 1 it carries the class
  identifier that the firewall plan matches, the matcher of the chosen version is supported, and the router starts
  in a state that is reachable for the invariant, when mount points are shown as clean absolute paths.
\<close>

theorem router_start_ready:
  assumes "start_controller uid w = (Inr c, w')" and "\<And>mp. findNetClsMount (cw_procMounts w) = Inr mp \<Longrightarrow> mp \<noteq> [] \<Longrightarrow> kernel_mount mp"
    and "distinct (map fst procs)" and "\<forall>(pid, f) \<in> set procs. f \<noteq> []"
  shows "uid = 0 \<and> controller_ready c w' \<and> lp_reach U (startNativeProcess_linux c procs parents ios)"
proof -
  have "uid = 0 \<and> controller_ready c w'" using assms(1) by (cases rule: start_ready) auto
  moreover have "lp_reach U (startNativeProcess_linux c procs parents ios)" by (rule lp_reach.start [OF start_ok [OF assms(1,2)] assms(3,4)])
  ultimately show ?thesis by simp
qed

theorem router_start_ready_witness:
  "\<exists>c w'. start_controller 0 (toy_cgroups True []) = (Inr c, w') \<and> controller_ready c w' \<and> lp_reach ascii_only (startNativeProcess_linux c [(7, ''/c'')] Map.empty [])"
proof -
  let ?r = "start_controller 0 (toy_cgroups True [])"
  have s: "?r = (Inr (controller_at linuxCgroupV2 linuxCgroupV2Root False), snd ?r)" using toy_start_v2 by (simp add: prod_eq_iff)
  have "findNetClsMount (cw_procMounts (toy_cgroups True [])) = Inr []" by (simp add: toy_cgroups_def findNetClsMount_def scanner_lines_def)
  then show ?thesis using router_start_ready [OF s, of "[(7, ''/c'')]" ascii_only Map.empty "[]"] s by auto
qed

text \<open>
  The membership of a process is read as the kernel wrote it: of the lines of \<open>/proc/<pid>/cgroup\<close> the one of the
  hierarchy of the controller counts, its path is put below the mount point, and the result is taken to be a cgroup of the router exactly when
  the path is the one of the router or lies below it.
\<close>

theorem membership_read:
  assumes "list_all cgroup_entry_ok es" and "find (entry_of c) es = Some (hier, controllers, path)"
    and "c = controller_at mode m mounted" and "kernel_mount m" "m \<noteq> ''/''" "kernel_mount path"
  shows "\<exists>f. read_cgroup c (Some (unlines (map show_entry es))) = Inr f \<and>
     f = m @ (if path = ''/'' then [] else path) @ ''/cgroup.procs'' \<and>
     (has_prefix f (cc_managedRoot c @ ''/'') \<longleftrightarrow> path = ''/'' @ linuxCgroupName \<or> has_prefix path (''/'' @ linuxCgroupName @ ''/''))"
proof -
  have m: "cc_mountPoint c = m" "cc_managedRoot c = m @ ''/'' @ linuxCgroupName"
    using managed_root [OF assms(4)] assms(3,5) by (simp_all add: controller_at_def)
  have "read_cgroup c (Some (unlines (map show_entry es))) = Inr (m @ (if path = ''/'' then [] else path) @ ''/cgroup.procs'')"
    unfolding membership_shown [OF assms(1)] assms(2) using join_below [OF assms(4-6)] by (simp add: m(1))
  then show ?thesis using managed_prefix [OF assms(6), of m] by (simp add: m(2))
qed

theorem membership_read_witness:
  "read_cgroup (controller_at linuxCgroupV2 ''/c'' False) (Some (unlines [''1:net_cls:/'', ''0::/u''])) = Inr ''/c/u/cgroup.procs''"
proof -
  let ?c = "controller_at linuxCgroupV2 ''/c'' False" and ?es = "[(''1'', [''net_cls''], ''/''), (''0'', [], ''/u'')]"
  have k: "kernel_mount ''/c''" "kernel_mount ''/u''" by (simp_all add: kernel_mount_def path_IsAbs_def has_prefix_def path_Clean_def)
  have "list_all cgroup_entry_ok ?es" by (simp add: short_line_def MaxScanTokenSize_def)
  moreover have "find (entry_of ?c) ?es = Some (''0'', [], ''/u'')" by (simp add: controller_at_def)
  ultimately show ?thesis using membership_read [of ?es ?c "''0''" "[]" "''/u''" linuxCgroupV2 "''/c''" False] k by simp
qed

text \<open>
  A scan leaves the others alone: the first process, the service itself, kernel threads and processes whose program was
  deleted are never moved, whatever the rules say and whatever fails; only a process with a directory in \<open>/proc\<close> can be.
\<close>

theorem scan_leaves_others:
  assumes "q \<le> 1 \<or> q = self \<or> \<not> (\<exists>e \<in> set es. pe_dir e \<and> parse_int 64 (pe_name e) = Some q \<and>
     (\<exists>path. pe_exe e = Some path \<and> \<not> has_suffix path '' (deleted)''))"
  shows "home_of q (snd (scanProcessesLocked now self (Some es) p)) = home_of q p"
proof -
  have "q \<notin> ls_pid ` set (List.map_filter (snapshot_entry self) es)"
    using assms by (fastforce simp: snapshot_in dest: snapshot_entry_some)
  then show ?thesis using home_apply by (simp add: scanProcessesLocked_def snapshotLinuxProcesses_def)
qed

theorem scan_leaves_others_witness:
  "home_of 7 (snd (scanProcessesLocked [] 7 (Some [\<lparr>pe_name = ''7'', pe_dir = True, pe_exe = Some ''/b/curl''\<rparr>]) toy_linux)) = [(7, ''/c/u/cgroup.procs'')]"
  using scan_leaves_others [of 7 7 "[\<lparr>pe_name = ''7'', pe_dir = True, pe_exe = Some ''/b/curl''\<rparr>]" "[]" toy_linux]
  by (simp add: home_of_def toy_linux_def startNativeProcess_linux_def)

text \<open>
  The configuration directory is safe when it is accepted: a success of \<open>hardenProcessRouterPaths\<close> means a directory that is no link,
  belongs to root and is now open to root alone; anything else is refused and left as it was.
\<close>

theorem harden_safe:
  "(case hardenProcessRouterPaths info out of
      (None, Some i) \<Rightarrow> fi_dir i \<and> \<not> fi_link i \<and> fi_uid i = 0 \<and> fi_perm i = 448 \<and> out = Done
    | (None, None) \<Rightarrow> False
    | (Some e, info') \<Rightarrow> out = Done \<longrightarrow> info' = info \<and> (case info of None \<Rightarrow> True | Some i \<Rightarrow> \<not> fi_dir i \<or> fi_link i \<or> fi_uid i \<noteq> 0))"
  by (cases out) (auto simp: hardenProcessRouterPaths_def split: option.splits)

theorem harden_safe_witness:
  "hardenProcessRouterPaths (Some \<lparr>fi_uid = 0, fi_perm = 493, fi_regular = False, fi_dir = True, fi_link = True\<rparr>) Done =
     (Some (Plain ''Linux process-router config path must be a real directory''), Some \<lparr>fi_uid = 0, fi_perm = 493, fi_regular = False, fi_dir = True, fi_link = True\<rparr>)"
  using harden_safe [of Done "Some \<lparr>fi_uid = 0, fi_perm = 493, fi_regular = False, fi_dir = True, fi_link = True\<rparr>"]
  by (simp add: hardenProcessRouterPaths_def)

end
