(* ===== verification/Core_Log.thy ===== *)
theory Core_Log
  imports Core_Launch "HOL-Library.Sublist"
begin

text \<open>
  The log file of the core (\<open>core/log_writer.go\<close>, \<open>core/file_access_unix.go\<close>): what the core prints is
  appended to a file that is cut back to its end when it grows beyond a limit. Nobody else writes the
  file; the service runs as root. \<open>lg_disk\<close> are the contents of files by path.
\<close>

section \<open>Definitions\<close>

record log_settings =
  ls_path :: string
  ls_saveLogs :: bool
  ls_maxBytes :: int
  ls_access :: file_access

record log_writer =
  lg_file :: bool
  lg_path :: string
  lg_saveLogs :: bool
  lg_maxBytes :: int
  lg_access :: file_access
  lg_closed :: bool
  lg_lastError :: string
  lg_disk :: "string \<Rightarrow> string"
  lg_io :: "io list"

definition newBoundedLogWriter :: "(string \<Rightarrow> string) \<Rightarrow> io list \<Rightarrow> log_settings \<Rightarrow> log_writer" where
  "newBoundedLogWriter disk ios settings =
     \<lparr>lg_file = False, lg_path = ls_path settings, lg_saveLogs = ls_saveLogs settings, lg_maxBytes = ls_maxBytes settings,
      lg_access = ls_access settings, lg_closed = False, lg_lastError = [], lg_disk = disk, lg_io = ios\<rparr>"

definition coreLogSettingsFromProfile :: "launch_profile \<Rightarrow> file_access \<Rightarrow> log_settings" where
  "coreLogSettingsFromProfile p access =
     \<lparr>ls_path = lp_LogPath p, ls_saveLogs = (case lp_SaveLogs p of None \<Rightarrow> True | Some b \<Rightarrow> b),
      ls_maxBytes = maxLogFileSizeBytes (lp_MaxLogFileSizeMB p), ls_access = access\<rparr>"

definition lg_call :: "log_writer \<Rightarrow> io \<times> log_writer" where
  "lg_call w = (case next_io (lg_io w) of (r, ios) \<Rightarrow> (r, w\<lparr>lg_io := ios\<rparr>))"

definition lg_calls :: "nat \<Rightarrow> log_writer \<Rightarrow> bool \<times> log_writer" where
  "lg_calls n w = (case run_ios n (lg_io w) of (ok, ios) \<Rightarrow> (ok, w\<lparr>lg_io := ios\<rparr>))"

text \<open>Creating the directory and, for a group, changing its owner, reading and changing its mode.\<close>

definition ensureCoreLogDir :: "log_writer \<Rightarrow> err option \<times> log_writer" where
  "ensureCoreLogDir w = (case lg_calls (if fa_ok (lg_access w) then 4 else 1) w of (ok, w1) \<Rightarrow> (if ok then None else Some SysErr, w1))"

definition applyCoreLogFileAccess :: "log_writer \<Rightarrow> err option \<times> log_writer" where
  "applyCoreLogFileAccess w =
     (if \<not> fa_ok (lg_access w) then (None, w)
      else (case lg_calls 3 w of (ok, w1) \<Rightarrow> (if ok then None else Some SysErr, w1)))"

definition closeFileLocked :: "log_writer \<Rightarrow> err option \<times> log_writer" where
  "closeFileLocked w =
     (if \<not> lg_file w then (None, w)
      else (case lg_call w of (out, w1) \<Rightarrow> (if out = Done then None else Some SysErr, w1\<lparr>lg_file := False\<rparr>)))"

definition reportErrorLocked :: "err \<Rightarrow> log_writer \<Rightarrow> log_writer" where
  "reportErrorLocked e w = (if err_text e = lg_lastError w then w else w\<lparr>lg_lastError := err_text e\<rparr>)"

subsection \<open>Cutting back\<close>

text \<open>
  \<open>int64(float64(maxBytes) * 0.7)\<close>: conversion and product are rounded to 53 significant bits, to
  nearest and ties to even; the constant is \<open>6305039478318694 / 2 ^ 53\<close>.
\<close>

fun bit_len :: "nat \<Rightarrow> nat" where
  "bit_len n = (if n = 0 then 0 else Suc (bit_len (n div 2)))"

declare bit_len.simps [simp del]

definition round_float64 :: "nat \<Rightarrow> nat" where
  "round_float64 n =
     (let k = bit_len n - 53; q = n div 2 ^ k; r = n mod 2 ^ k in
      if k = 0 then n
      else (if r > 2 ^ (k - 1) \<or> (r = 2 ^ (k - 1) \<and> odd q) then q + 1 else q) * 2 ^ k)"

definition trim_target :: "int \<Rightarrow> int" where
  "trim_target maxBytes = max (int (round_float64 (round_float64 (nat maxBytes) * 6305039478318694) div 2 ^ 53)) 1"

text \<open>The end of the file from the first line break on, unless that is its last byte.\<close>

definition log_tail :: "nat \<Rightarrow> string \<Rightarrow> string" where
  "log_tail n s =
     (let content = drop (length s - n) s; i = length (takeWhile (\<lambda>c. c \<noteq> CHR 0x0A) content) in
      if i < length content - 1 then drop (i + 1) content else content)"

definition readLogTail :: "nat \<Rightarrow> int \<Rightarrow> log_writer \<Rightarrow> string res \<times> log_writer" where
  "readLogTail fileSize targetBytes w =
     (if int fileSize \<le> targetBytes then
        (case lg_call w of (out, w1) \<Rightarrow>
           if out = Done then (Inr (lg_disk w (lg_path w)), w1) else (Inl (Wrapped ''Failed to read core log file'' SysErr), w1))
      else
        (case lg_call w of (out, w1) \<Rightarrow>
           if out \<noteq> Done then (Inl (Wrapped ''Failed to open core log file'' SysErr), w1)
           else (case lg_call w1 of (out2, w2) \<Rightarrow>
               if out2 \<noteq> Done then (Inl (Wrapped ''Failed to read core log file tail'' SysErr), w2)
               else (Inr (log_tail (nat targetBytes) (lg_disk w (lg_path w))), w2))))"

definition reopenLocked :: "log_writer \<Rightarrow> err option \<times> log_writer" where
  "reopenLocked w =
     (case lg_call w of (out, w1) \<Rightarrow>
        if out \<noteq> Done then (Some (Wrapped ''Failed to reopen core log file'' SysErr), w1)
        else (case applyCoreLogFileAccess w1 of
            (Some e, w2) \<Rightarrow> (Some e, w2)
          | (None, w2) \<Rightarrow> (None, w2\<lparr>lg_file := True\<rparr>)))"

definition put_file :: "string \<Rightarrow> log_writer \<Rightarrow> log_writer" where
  "put_file content w = w\<lparr>lg_disk := (lg_disk w)(lg_path w := content)\<rparr>"

definition enforceLimitLocked :: "log_writer \<Rightarrow> err option \<times> log_writer" where
  "enforceLimitLocked w =
     (if lg_maxBytes w \<le> 0 \<or> \<not> lg_file w then (None, w)
      else (case lg_call w of (out, w1) \<Rightarrow>
          if out \<noteq> Done then (Some (Wrapped ''Failed to check core log size'' SysErr), w1)
          else let size0 = length (lg_disk w1 (lg_path w1)) in
            if int size0 \<le> lg_maxBytes w1 then (None, w1)
            else (case lg_call w1 of (out2, w2) \<Rightarrow>
                let w3 = w2\<lparr>lg_file := False\<rparr> in
                if out2 \<noteq> Done then (Some (Wrapped ''Failed to close core log file'' SysErr), w3)
                else (case readLogTail size0 (trim_target (lg_maxBytes w3)) w3 of
                    (Inl e, w4) \<Rightarrow> (Some e, snd (reopenLocked w4))
                  | (Inr content, w4) \<Rightarrow>
                      (case lg_call w4 of (out5, w5) \<Rightarrow>
                         let w6 = (if out5 = Fails then w5 else put_file content w5) in
                         if out5 \<noteq> Done then (Some (Wrapped ''Failed to truncate core log file'' SysErr), snd (reopenLocked w6))
                         else (case applyCoreLogFileAccess w6 of
                             (Some e, w7) \<Rightarrow> (Some e, snd (reopenLocked w7))
                           | (None, w7) \<Rightarrow> reopenLocked w7))))))"

subsection \<open>Writing\<close>

definition ensureOpenLocked :: "log_writer \<Rightarrow> err option \<times> log_writer" where
  "ensureOpenLocked w =
     (if lg_file w then (None, w)
      else (case ensureCoreLogDir w of
          (Some e, w1) \<Rightarrow> (Some (Wrapped ''Failed to create core log directory'' e), w1)
        | (None, w1) \<Rightarrow>
            (case lg_call w1 of (out, w2) \<Rightarrow>
               if out \<noteq> Done then (Some (Wrapped ''Failed to open core log file'' SysErr), w2)
               else (case applyCoreLogFileAccess w2 of
                   (Some e, w3) \<Rightarrow> (Some e, w3)
                 | (None, w3) \<Rightarrow> enforceLimitLocked (w3\<lparr>lg_file := True\<rparr>)))))"

text \<open>\<open>w.reportErrorLocked(errors.Join(err, w.closeFileLocked()))\<close>.\<close>

definition report_and_close :: "err \<Rightarrow> log_writer \<Rightarrow> log_writer" where
  "report_and_close e w =
     (case closeFileLocked w of (ce, w1) \<Rightarrow>
        case errors_Join [Some e, ce] of None \<Rightarrow> w1 | Some je \<Rightarrow> reportErrorLocked je w1)"

definition log_Write :: "string \<Rightarrow> log_writer \<Rightarrow> log_writer" where
  "log_Write p w =
     (if lg_closed w \<or> p = [] \<or> \<not> lg_saveLogs w \<or> lg_path w = [] then w
      else (case ensureOpenLocked w of
          (Some e, w1) \<Rightarrow> reportErrorLocked e w1
        | (None, w1) \<Rightarrow>
            (case lg_call w1 of (out, w2) \<Rightarrow>
               let w3 = (if out = Fails then w2 else put_file (lg_disk w2 (lg_path w2) @ p) w2) in
               if out \<noteq> Done then report_and_close SysErr w3
               else (case enforceLimitLocked w3 of
                   (Some e, w4) \<Rightarrow> report_and_close e w4
                 | (None, w4) \<Rightarrow> w4))))"

definition log_Update :: "log_settings \<Rightarrow> log_writer \<Rightarrow> log_writer" where
  "log_Update settings w =
     (if lg_closed w then w
      else
        let w1 = (if lg_path w \<noteq> ls_path settings \<or> \<not> ls_saveLogs settings then
                    (case closeFileLocked w of (None, v) \<Rightarrow> v | (Some e, v) \<Rightarrow> reportErrorLocked e v)
                  else w);
            w2 = w1\<lparr>lg_path := ls_path settings, lg_saveLogs := ls_saveLogs settings, lg_maxBytes := ls_maxBytes settings,
                    lg_access := ls_access settings, lg_lastError := []\<rparr>
        in if lg_saveLogs w2 \<and> lg_path w2 \<noteq> [] then
             (case ensureOpenLocked w2 of
                (Some e, w3) \<Rightarrow> reportErrorLocked e w3
              | (None, w3) \<Rightarrow>
                  (case enforceLimitLocked w3 of
                     (Some e, w4) \<Rightarrow> report_and_close e w4
                   | (None, w4) \<Rightarrow> w4))
           else w2)"

definition log_Close :: "log_writer \<Rightarrow> err option \<times> log_writer" where
  "log_Close w = closeFileLocked (w\<lparr>lg_closed := True\<rparr>)"

section \<open>Lemmas\<close>

subsection \<open>The target\<close>

lemma bit_len_bound: "0 < n \<Longrightarrow> 2 ^ (bit_len n - 1) \<le> n"
proof (induction n rule: bit_len.induct)
  case (1 n)
  show ?case
  proof (cases "n div 2 = 0")
    case True
    then have "n = 1" using 1 by linarith
    then show ?thesis using bit_len.simps [of 1] bit_len.simps [of 0] by simp
  next
    case False
    then have "2 ^ (bit_len (n div 2) - 1) \<le> n div 2" using 1 by simp
    moreover have "bit_len (n div 2) \<noteq> 0" using False by (simp add: bit_len.simps [of "n div 2"])
    ultimately have "2 ^ bit_len (n div 2) \<le> n"
      by (cases "bit_len (n div 2)") auto
    then show ?thesis using 1 by (simp add: bit_len.simps [of n])
  qed
qed

lemma round_bound: "round_float64 n * 2 ^ 53 \<le> n * (2 ^ 53 + 1)"
proof (cases "bit_len n - 53 = 0")
  case True
  then have "round_float64 n = n" by (simp only: round_float64_def Let_def if_True simp_thms)
  then show ?thesis by (simp only: mult_le_mono2 le_add1)
next
  case False
  define k where "k = bit_len n - 53"
  have k: "0 < k" "bit_len n - 1 = 52 + k" using False by (auto simp: k_def)
  have n: "0 < n" using False bit_len.simps [of 0] by (cases "n = 0") auto
  have b: "2 ^ (k - 1) * 2 ^ 53 \<le> n"
  proof -
    have "k - 1 + 53 = 52 + k" using k(1) by simp
    then have "(2 :: nat) ^ (k - 1) * 2 ^ 53 = 2 ^ (52 + k)" by (metis power_add)
    then show ?thesis using bit_len_bound [OF n] k(2) by simp
  qed
  have r: "round_float64 n \<le> n + 2 ^ (k - 1)"
  proof -
    let ?q = "n div 2 ^ k" and ?r = "n mod 2 ^ k"
    have q: "?q * 2 ^ k + ?r = n" by (rule div_mult_mod_eq)
    have h: "(2 :: nat) ^ k = 2 ^ (k - 1) + 2 ^ (k - 1)" using k(1) by (cases k) auto
    have "round_float64 n \<le> (if ?r \<ge> 2 ^ (k - 1) then ?q + 1 else ?q) * 2 ^ k"
      using k(1) by (auto simp: round_float64_def Let_def k_def)
    also have "\<dots> \<le> n + 2 ^ (k - 1)" using q h by (auto simp: algebra_simps)
    finally show ?thesis .
  qed
  have "round_float64 n * 2 ^ 53 \<le> (n + 2 ^ (k - 1)) * 2 ^ 53" using r by (rule mult_le_mono1)
  also have "\<dots> = n * 2 ^ 53 + 2 ^ (k - 1) * 2 ^ 53" by (simp add: algebra_simps)
  also have "\<dots> \<le> n * (2 ^ 53 + 1)" using b by (simp add: algebra_simps)
  finally show ?thesis .
qed

lemma trim_target_bounds: "0 < m \<Longrightarrow> 1 \<le> trim_target m \<and> trim_target m \<le> m"
proof -
  assume m: "0 < m"
  define c :: nat where "c = 6305039478318694"
  define x where "x = round_float64 (nat m)"
  define y where "y = round_float64 (x * c)"
  have x: "x * 2 ^ 53 \<le> nat m * (2 ^ 53 + 1)" unfolding x_def by (rule round_bound)
  have y: "y * 2 ^ 53 \<le> x * c * (2 ^ 53 + 1)" unfolding y_def by (rule round_bound)
  have "y * 2 ^ 53 * 2 ^ 53 \<le> x * c * (2 ^ 53 + 1) * 2 ^ 53" using y by (rule mult_le_mono1)
  also have "\<dots> = (x * 2 ^ 53) * (c * (2 ^ 53 + 1))" by (simp add: ac_simps)
  also have "\<dots> \<le> nat m * (2 ^ 53 + 1) * (c * (2 ^ 53 + 1))" using x by (rule mult_le_mono1)
  also have "\<dots> = nat m * ((2 ^ 53 + 1) * (c * (2 ^ 53 + 1)))" by (simp add: ac_simps)
  also have "\<dots> \<le> nat m * (2 ^ 53 * 2 ^ 53 * 2 ^ 53)" by (rule mult_le_mono2) (simp add: c_def)
  finally have "y \<le> nat m * 2 ^ 53" by simp
  then have "y div 2 ^ 53 \<le> nat m * 2 ^ 53 div 2 ^ 53" by (rule div_le_mono)
  then have "y div 2 ^ 53 \<le> nat m" by simp
  then have "int (y div 2 ^ 53) \<le> m" using m by linarith
  then show ?thesis using m by (simp add: trim_target_def y_def x_def c_def)
qed

subsection \<open>What happens to the file\<close>

lemma log_tail_suffix: "suffix (log_tail n s) s"
  by (auto simp: log_tail_def Let_def intro: suffix_drop suffix_order.trans)

lemma log_tail_length: "length (log_tail n s) \<le> n"
  by (auto simp: log_tail_def Let_def)

text \<open>The settings and the other files stay.\<close>

definition same_log :: "log_writer \<Rightarrow> log_writer \<Rightarrow> bool" where
  "same_log w v = (lg_path v = lg_path w \<and> lg_saveLogs v = lg_saveLogs w \<and> lg_maxBytes v = lg_maxBytes w \<and> lg_access v = lg_access w \<and>
     lg_closed v = lg_closed w \<and> (\<forall>q. q \<noteq> lg_path w \<longrightarrow> lg_disk v q = lg_disk w q))"

lemma same_log_refl [simp]: "same_log w w" by (simp add: same_log_def)
lemma same_log_trans: "same_log u v \<Longrightarrow> same_log v w \<Longrightarrow> same_log u w" by (simp add: same_log_def)

text \<open>\<open>keeps w v\<close>: the file is as it was; \<open>cuts w v\<close>: it is the end of what it was.\<close>

definition keeps :: "log_writer \<Rightarrow> log_writer \<Rightarrow> bool" where
  "keeps w v = (same_log w v \<and> lg_disk v = lg_disk w)"

definition cuts :: "log_writer \<Rightarrow> log_writer \<Rightarrow> bool" where
  "cuts w v = (same_log w v \<and> suffix (lg_disk v (lg_path w)) (lg_disk w (lg_path w)))"

lemma keeps_refl [simp]: "keeps w w" by (simp add: keeps_def)
lemma keeps_trans: "keeps u v \<Longrightarrow> keeps v w \<Longrightarrow> keeps u w" by (auto simp: keeps_def intro: same_log_trans)
lemma keeps_cuts: "keeps w v \<Longrightarrow> cuts w v" by (auto simp: keeps_def cuts_def)
lemma cuts_trans: "cuts u v \<Longrightarrow> cuts v w \<Longrightarrow> cuts u w"
  by (auto simp: cuts_def intro: same_log_trans) (auto simp: same_log_def intro: suffix_order.trans)

lemma keeps_call: "keeps w (snd (lg_call w))" "keeps w (snd (lg_calls n w))" "keeps w (w\<lparr>lg_file := b\<rparr>)"
  by (simp_all add: lg_call_def lg_calls_def case_prod_unfold keeps_def same_log_def)

lemma keeps_access: "keeps w (snd (applyCoreLogFileAccess w))" "keeps w (snd (ensureCoreLogDir w))"
  using keeps_call by (simp_all add: applyCoreLogFileAccess_def ensureCoreLogDir_def case_prod_unfold)

lemma keeps_close: "keeps w (snd (closeFileLocked w))"
  using keeps_trans [OF keeps_call(1) keeps_call(3), of w] by (simp add: closeFileLocked_def case_prod_unfold)

lemma keeps_report: "keeps w (reportErrorLocked e w)"
  by (simp add: reportErrorLocked_def keeps_def same_log_def)

lemma keeps_report_close: "keeps w (report_and_close e w)"
  using keeps_close [of w] keeps_trans [OF keeps_close keeps_report]
  by (simp add: report_and_close_def case_prod_unfold split: option.split)

lemma keeps_reopen: "keeps w (snd (reopenLocked w))"
proof -
  have "keeps w (snd (applyCoreLogFileAccess (snd (lg_call w))))" by (rule keeps_trans [OF keeps_call(1) keeps_access(1)])
  moreover then have "keeps w ((snd (applyCoreLogFileAccess (snd (lg_call w))))\<lparr>lg_file := True\<rparr>)" by (rule keeps_trans [OF _ keeps_call(3)])
  ultimately show ?thesis using keeps_call(1) [of w] by (simp add: reopenLocked_def case_prod_unfold split: option.split)
qed

lemma keeps_read: "keeps w (snd (readLogTail n t w))"
  using keeps_call(1) [of w] keeps_trans [OF keeps_call(1) keeps_call(1), of w] by (simp add: readLogTail_def case_prod_unfold)

lemma read_tail:
  assumes "fst (readLogTail n t w) = Inr c"
  shows "suffix c (lg_disk w (lg_path w))"
  using assms log_tail_suffix by (auto simp: readLogTail_def case_prod_unfold split: if_splits)

lemma cuts_put: "suffix c (lg_disk w (lg_path w)) \<Longrightarrow> cuts w (put_file c w)"
  by (simp add: cuts_def put_file_def same_log_def)

lemma cuts_enforce: "cuts w (snd (enforceLimitLocked w))"
proof -
  let ?w1 = "snd (lg_call w)"
  let ?w3 = "(snd (lg_call ?w1))\<lparr>lg_file := False\<rparr>"
  let ?r = "readLogTail (length (lg_disk ?w1 (lg_path ?w1))) (trim_target (lg_maxBytes ?w3)) ?w3"
  let ?w5 = "snd (lg_call (snd ?r))"
  have k1: "keeps w ?w1" by (rule keeps_call)
  have k3: "keeps w ?w3" using keeps_trans [OF keeps_trans [OF k1 keeps_call(1)] keeps_call(3)] .
  have k4: "keeps w (snd ?r)" using keeps_trans [OF k3 keeps_read] .
  have k5: "keeps w ?w5" using keeps_trans [OF k4 keeps_call(1)] .
  have e: "cuts w (snd (reopenLocked (snd ?r)))" "cuts w (snd (reopenLocked ?w5))"
    using keeps_trans [OF k4 keeps_reopen] keeps_trans [OF k5 keeps_reopen] keeps_cuts by blast+
  have p: "cuts w (put_file c ?w5)" if "fst ?r = Inr c" for c
  proof -
    have "lg_disk ?w5 (lg_path ?w5) = lg_disk ?w3 (lg_path ?w3)" using k3 k5 by (simp add: keeps_def same_log_def)
    then have "cuts ?w5 (put_file c ?w5)" using read_tail [OF that] by (intro cuts_put) simp
    then show ?thesis using cuts_trans [OF keeps_cuts [OF k5]] by blast
  qed
  have q: "cuts w (snd (reopenLocked v))" "cuts w (snd (reopenLocked (snd (applyCoreLogFileAccess v))))" if "cuts w v" for v
    using cuts_trans [OF that keeps_cuts [OF keeps_reopen]] cuts_trans [OF that keeps_cuts [OF keeps_trans [OF keeps_access(1) keeps_reopen]]] by blast+
  show ?thesis
    using keeps_cuts [OF k1] keeps_cuts [OF k3] e p q keeps_cuts [of w w]
    by (auto simp: enforceLimitLocked_def case_prod_unfold Let_def split: sum.split option.split)
qed

lemma cuts_open: "cuts w (snd (ensureOpenLocked w))"
proof -
  let ?d = "snd (ensureCoreLogDir w)" let ?o = "snd (lg_call ?d)" let ?a = "snd (applyCoreLogFileAccess ?o)"
  have k: "keeps w ?d" "keeps w ?o" "keeps w ?a" "keeps w (?a\<lparr>lg_file := True\<rparr>)"
    using keeps_access keeps_call keeps_trans by meson+
  have "cuts w (snd (enforceLimitLocked (?a\<lparr>lg_file := True\<rparr>)))" by (rule cuts_trans [OF keeps_cuts [OF k(4)] cuts_enforce])
  then show ?thesis using k [THEN keeps_cuts] keeps_cuts [of w w]
    by (auto simp: ensureOpenLocked_def case_prod_unfold split: option.split)
qed

text \<open>What a write can do to the file, whatever calls fail.\<close>

lemma write_effect:
  "same_log w (log_Write p w) \<and>
   (suffix (lg_disk (log_Write p w) (lg_path w)) (lg_disk w (lg_path w)) \<or>
    suffix (lg_disk (log_Write p w) (lg_path w)) (lg_disk w (lg_path w) @ p))"
proof (cases "lg_closed w \<or> p = [] \<or> \<not> lg_saveLogs w \<or> lg_path w = []")
  case True
  then show ?thesis by (auto simp: log_Write_def)
next
  case active: False
  obtain e1 w1 where 1: "ensureOpenLocked w = (e1, w1)" by fastforce
  have c1: "cuts w w1" using cuts_open [of w] 1 by simp
  show ?thesis
  proof (cases e1)
    case (Some e)
    have "cuts w (reportErrorLocked e w1)" using cuts_trans [OF c1 keeps_cuts [OF keeps_report]] .
    then show ?thesis using active 1 Some by (auto simp: log_Write_def cuts_def)
  next
    case None
    let ?w2 = "snd (lg_call w1)"
    have c2: "cuts w ?w2" using cuts_trans [OF c1 keeps_cuts [OF keeps_call(1)]] .
    let ?put = "put_file (lg_disk ?w2 (lg_path ?w2) @ p) ?w2"
    have grown: "same_log w v \<and> suffix (lg_disk v (lg_path w)) (lg_disk w (lg_path w) @ p)" if "cuts ?put v" for v
    proof -
      have "lg_path ?w2 = lg_path w" "suffix (lg_disk ?w2 (lg_path w)) (lg_disk w (lg_path w))" "same_log w ?w2" using c2 by (auto simp: cuts_def same_log_def)
      then have "suffix (lg_disk ?put (lg_path w)) (lg_disk w (lg_path w) @ p)" "same_log w ?put" by (auto simp: put_file_def same_log_def)
      then show ?thesis using that by (auto simp: cuts_def same_log_def put_file_def intro: suffix_order.trans)
    qed
    have f: "cuts w (report_and_close SysErr ?w2)" using cuts_trans [OF c2 keeps_cuts [OF keeps_report_close]] .
    have g1: "cuts ?put (report_and_close SysErr ?put)" using keeps_cuts [OF keeps_report_close] .
    have g2: "cuts ?put (snd (enforceLimitLocked ?put))" by (rule cuts_enforce)
    have g3: "cuts ?put (report_and_close e (snd (enforceLimitLocked ?put)))" for e using cuts_trans [OF g2 keeps_cuts [OF keeps_report_close]] .
    show ?thesis
    proof (cases "fst (lg_call w1)")
      case Done
      then show ?thesis using active 1 None grown [OF g2] grown [OF g3]
        by (auto simp: log_Write_def case_prod_unfold Let_def split: option.split)
    next
      case Fails
      then show ?thesis using active 1 None f by (simp add: log_Write_def case_prod_unfold cuts_def)
    next
      case Partial
      then show ?thesis using active 1 None grown [OF g1] by (simp add: log_Write_def case_prod_unfold)
    qed
  qed
qed

subsection \<open>When the calls succeed\<close>

lemma access_good: "lg_io w = [] \<Longrightarrow> applyCoreLogFileAccess w = (None, w)" "lg_io w = [] \<Longrightarrow> ensureCoreLogDir w = (None, w)"
  "lg_io w = [] \<Longrightarrow> lg_call w = (Done, w)"
  by (simp_all add: applyCoreLogFileAccess_def ensureCoreLogDir_def lg_calls_def lg_call_def)

lemma reopen_good: "lg_io w = [] \<Longrightarrow> reopenLocked w = (None, w\<lparr>lg_file := True\<rparr>)"
  by (simp add: reopenLocked_def access_good)

lemma enforce_good:
  assumes "lg_io w = []" "lg_file w" "0 < lg_maxBytes w"
  shows "enforceLimitLocked w =
    (None, if int (length (lg_disk w (lg_path w))) \<le> lg_maxBytes w then w
           else put_file (log_tail (nat (trim_target (lg_maxBytes w))) (lg_disk w (lg_path w))) w)"
proof (cases "int (length (lg_disk w (lg_path w))) \<le> lg_maxBytes w")
  case True
  then show ?thesis using assms by (simp add: enforceLimitLocked_def access_good)
next
  case False
  have "\<not> int (length (lg_disk w (lg_path w))) \<le> trim_target (lg_maxBytes w)"
    using False trim_target_bounds [OF assms(3)] by linarith
  then have "readLogTail (length (lg_disk w (lg_path w))) (trim_target (lg_maxBytes w)) (w\<lparr>lg_file := False\<rparr>) =
      (Inr (log_tail (nat (trim_target (lg_maxBytes w))) (lg_disk w (lg_path w))), w\<lparr>lg_file := False\<rparr>)"
    using assms(1) by (simp add: readLogTail_def access_good)
  then show ?thesis using assms False by (simp add: enforceLimitLocked_def access_good reopen_good put_file_def Let_def)
qed

lemma enforced_size:
  assumes "lg_io w = []" "lg_file w" "0 < lg_maxBytes w"
  shows "int (length (lg_disk (snd (enforceLimitLocked w)) (lg_path w))) \<le> lg_maxBytes w"
  using enforce_good [OF assms] trim_target_bounds [OF assms(3)]
    log_tail_length [of "nat (trim_target (lg_maxBytes w))" "lg_disk w (lg_path w)"]
  by (auto simp: put_file_def)

lemma open_good:
  assumes "lg_io w = []" "0 < lg_maxBytes w"
  shows "\<exists>v. ensureOpenLocked w = (None, v) \<and> lg_io v = [] \<and> lg_file v"
proof (cases "lg_file w")
  case False
  have "enforceLimitLocked (w\<lparr>lg_file := True\<rparr>) = (None, snd (enforceLimitLocked (w\<lparr>lg_file := True\<rparr>)))"
    "lg_io (snd (enforceLimitLocked (w\<lparr>lg_file := True\<rparr>))) = []" "lg_file (snd (enforceLimitLocked (w\<lparr>lg_file := True\<rparr>)))"
    using enforce_good [of "w\<lparr>lg_file := True\<rparr>"] assms by (simp_all add: put_file_def)
  then have "\<exists>v. enforceLimitLocked (w\<lparr>lg_file := True\<rparr>) = (None, v) \<and> lg_io v = [] \<and> lg_file v" by blast
  then show ?thesis using False assms by (simp add: ensureOpenLocked_def access_good)
qed (simp add: ensureOpenLocked_def assms)

lemma write_size:
  assumes "lg_io w = []" "0 < lg_maxBytes w" "\<not> lg_closed w" "lg_saveLogs w" "lg_path w \<noteq> []" "p \<noteq> []"
  shows "int (length (lg_disk (log_Write p w) (lg_path w))) \<le> lg_maxBytes w \<and> lg_io (log_Write p w) = []"
proof -
  obtain v where v: "ensureOpenLocked w = (None, v)" "lg_io v = []" "lg_file v" using open_good [OF assms(1,2)] by blast
  have s: "lg_path v = lg_path w" "lg_maxBytes v = lg_maxBytes w" using cuts_open [of w] v(1) by (auto simp: cuts_def same_log_def)
  let ?u = "put_file (lg_disk v (lg_path v) @ p) v"
  have u: "lg_io ?u = []" "lg_file ?u" "0 < lg_maxBytes ?u" "lg_path ?u = lg_path w" "lg_maxBytes ?u = lg_maxBytes w"
    using v s assms(2) by (simp_all add: put_file_def)
  have "log_Write p w = snd (enforceLimitLocked ?u)"
    using assms v enforce_good [OF u(1-3)] by (simp add: log_Write_def access_good)
  then show ?thesis using enforced_size [OF u(1-3)] enforce_good [OF u(1-3)] u by (auto simp: put_file_def)
qed

section \<open>Properties\<close>

text \<open>
  The log is bounded and never damaged. Whatever calls fail, a write leaves in the file the end of
  what it held, or of that followed by what was written, and touches no other file; and when the calls
  succeed, the file is within its limit afterwards.
\<close>

theorem core_log_bounded:
  "(\<forall>q. q \<noteq> lg_path w \<longrightarrow> lg_disk (log_Write p w) q = lg_disk w q) \<and>
   (suffix (lg_disk (log_Write p w) (lg_path w)) (lg_disk w (lg_path w)) \<or>
    suffix (lg_disk (log_Write p w) (lg_path w)) (lg_disk w (lg_path w) @ p)) \<and>
   (lg_io w = [] \<and> 0 < lg_maxBytes w \<and> \<not> lg_closed w \<and> lg_saveLogs w \<and> lg_path w \<noteq> [] \<and> p \<noteq> [] \<longrightarrow>
      int (length (lg_disk (log_Write p w) (lg_path w))) \<le> lg_maxBytes w)"
  using write_effect [of w p] write_size [of w p] by (auto simp: same_log_def)

definition toy_log :: log_writer where
  "toy_log = newBoundedLogWriter (\<lambda>_. ''0123'') []
     \<lparr>ls_path = ''/l'', ls_saveLogs = True, ls_maxBytes = 5, ls_access = \<lparr>fa_groupID = 0, fa_ok = False\<rparr>\<rparr>"

theorem core_log_bounded_witness: "length (lg_disk (log_Write ''4567'' toy_log) ''/l'') \<le> 5"
  using core_log_bounded [of toy_log "''4567''"] by (simp add: toy_log_def newBoundedLogWriter_def)

end
