(* ===== verification/Core_Output.thy ===== *)
theory Core_Output
  imports Kokoro_Prelude
begin

text \<open>
  What the service makes of the output of the core (\<open>core/manager.go\<close>): the bounded copy of the error
  output, the watcher that finds fatal messages while the core starts, and the watcher that turns log
  lines into events. Output comes in chunks of any size.
\<close>

section \<open>Definitions\<close>

definition startupBufferLimit :: nat where "startupBufferLimit = 128 * 1024"
definition startupLineLimit :: nat where "startupLineLimit = 16 * 1024"
definition fatalIndicator :: string where "fatalIndicator = ''level=fatal''"

subsection \<open>Bounded buffer\<close>

record output_buffer =
  ob_buf :: string
  ob_limit :: nat

definition newBoundedOutputBuffer :: "int \<Rightarrow> output_buffer" where
  "newBoundedOutputBuffer limit = \<lparr>ob_buf = [], ob_limit = (if limit \<le> 0 then startupBufferLimit else nat limit)\<rparr>"

definition last_bytes :: "nat \<Rightarrow> string \<Rightarrow> string" where
  "last_bytes n s = drop (length s - n) s"

definition buffer_Write :: "string \<Rightarrow> output_buffer \<Rightarrow> output_buffer" where
  "buffer_Write p b =
     (let buf = ob_buf b @ p in
      if length buf > ob_limit b then b\<lparr>ob_buf := drop (length buf - ob_limit b) buf\<rparr> else b\<lparr>ob_buf := buf\<rparr>)"

subsection \<open>Lines\<close>

text \<open>\<open>strings.ReplaceAll(s, CR LF, LF)\<close>.\<close>

fun replace_crlf :: "string \<Rightarrow> string" where
  "replace_crlf [] = []"
| "replace_crlf [c] = [c]"
| "replace_crlf (c # d # s) = (if c = CHR 0x0D \<and> d = CHR 0x0A then CHR 0x0A # replace_crlf s else c # replace_crlf (d # s))"

text \<open>
  The complete lines of the buffered rest and the new chunk, and the new rest. \<open>strings.Split\<close> of a text
  that ends in a line feed has an empty last piece, which the watchers look at too.
\<close>

definition feed_lines :: "string \<Rightarrow> string \<Rightarrow> string list \<times> string" where
  "feed_lines lineBuffer p =
     (let combined = lineBuffer @ replace_crlf p; lines = split_at (CHR 0x0A) combined in
      if has_suffix combined [CHR 0x0A] then (lines, [])
      else (butlast lines, last_bytes startupLineLimit (last lines)))"

subsection \<open>Fatal messages\<close>

text \<open>\<open>strings.Index\<close> and \<open>strings.Cut\<close> for a longer separator.\<close>

fun strings_Index :: "string \<Rightarrow> string \<Rightarrow> nat option" where
  "strings_Index [] p = (if p = [] then Some 0 else None)"
| "strings_Index (c # s) p = (if has_prefix (c # s) p then Some 0 else map_option Suc (strings_Index s p))"

definition cut_after :: "string \<Rightarrow> string \<Rightarrow> string option" where
  "cut_after s p = map_option (\<lambda>i. drop (i + length p) s) (strings_Index s p)"

definition extractFatalError :: "string \<Rightarrow> err" where
  "extractFatalError output =
     (case cut_after output ''level=fatal msg='' of
        Some after \<Rightarrow> Plainf ''Failed to start core process'' [trim_space after]
      | None \<Rightarrow> Plain ''Failed to start core process: fatal error detected'')"

definition startupFatalLineError :: "unicode \<Rightarrow> string \<Rightarrow> err option" where
  "startupFatalLineError U line =
     (let lower = strings_ToLower U line in
      if strings_Contains lower fatalIndicator then Some (extractFatalError line)
      else if strings_Contains line ''External controller pipe listen error'' \<or> strings_Contains line ''External controller unix listen error'' \<or>
              strings_Contains line ''External controller listen error''
      then Some (Plainf ''Controller listen failed'' [trim_space line])
      else if strings_Contains line ''Start TUN listening error''
      then Some (Plainf ''Virtual network adapter failed to start'' [trim_space line])
      else if strings_Contains lower ''start '' \<and> (strings_Contains lower '' server error'' \<or> strings_Contains lower '' listening error'')
      then Some (Plainf ''Core listener failed to start'' [trim_space line])
      else None)"

text \<open>\<open>sw_fatal\<close> is the channel of one place.\<close>

record startup_watcher =
  sw_lineBuffer :: string
  sw_fatal :: "err option"
  sw_reported :: bool

definition newStartupLogWatcher :: startup_watcher where
  "newStartupLogWatcher = \<lparr>sw_lineBuffer = [], sw_fatal = None, sw_reported = False\<rparr>"

definition reportFatal :: "err option \<Rightarrow> startup_watcher \<Rightarrow> startup_watcher" where
  "reportFatal e w = (if e = None \<or> sw_reported w then w else w\<lparr>sw_reported := True, sw_fatal := e\<rparr>)"

definition watcher_Write :: "unicode \<Rightarrow> string \<Rightarrow> startup_watcher \<Rightarrow> startup_watcher" where
  "watcher_Write U p w =
     (case feed_lines (sw_lineBuffer w) p of (lines, rest) \<Rightarrow>
        let w1 = fold (\<lambda>l. reportFatal (startupFatalLineError U l)) lines (w\<lparr>sw_lineBuffer := rest\<rparr>)
        in if rest \<noteq> [] then reportFatal (startupFatalLineError U rest) w1 else w1)"

subsection \<open>Events from log lines\<close>

record log_event =
  le_Message :: string
  le_Data :: "(string \<times> string) list"

definition url_end :: "string \<Rightarrow> string" where
  "url_end url = takeWhile (\<lambda>c. c \<notin> set [CHR '' '', CHR 0x09, CHR 0x22, CHR 0x27, CHR ''<'', CHR ''>'']) url"

definition parseTailscaleAuthCoreLogEvent :: "string \<Rightarrow> log_event option" where
  "parseTailscaleAuthCoreLogEvent line =
     (let marker = '') To start this tsnet server, restart with TS_AUTHKEY set, or go to: '' in
      case cut_after line ''[Tailscale]('' of
        None \<Rightarrow> None
      | Some rest \<Rightarrow>
          (case strings_Index rest marker of
             None \<Rightarrow> None
           | Some markerIndex \<Rightarrow>
               if markerIndex = 0 then None
               else let name = take markerIndex rest; url = url_end (trim_space (drop (markerIndex + length marker) rest))
                    in if name = [] \<or> (\<not> has_prefix url ''http://'' \<and> \<not> has_prefix url ''https://'') then None
                       else Some \<lparr>le_Message = ''tailscale_auth'', le_Data = [(''name'', name), (''url'', url)]\<rparr>))"

definition parseTailscaleAuthDoneCoreLogEvent :: "string \<Rightarrow> log_event option" where
  "parseTailscaleAuthDoneCoreLogEvent line =
     (case cut_after line ''[Tailscale]('' of
        None \<Rightarrow> None
      | Some rest \<Rightarrow>
          (case strings_Index rest '') AuthLoop: state is Starting; done'' of
             None \<Rightarrow> None
           | Some markerIndex \<Rightarrow>
               if markerIndex = 0 then None
               else Some \<lparr>le_Message = ''tailscale_auth_done'', le_Data = [(''name'', take markerIndex rest)]\<rparr>))"

text \<open>The events that a line gives rise to.\<close>

definition publishCoreLogEvent :: "string \<Rightarrow> log_event list" where
  "publishCoreLogEvent line0 =
     (let line = trim_space line0 in
      if line = [] then []
      else List.map_filter (\<lambda>parse. parse line) [parseTailscaleAuthCoreLogEvent, parseTailscaleAuthDoneCoreLogEvent])"

record event_watcher =
  ew_lineBuffer :: string
  ew_active :: bool

definition event_Write :: "string \<Rightarrow> event_watcher \<Rightarrow> log_event list \<times> event_watcher" where
  "event_Write p w =
     (if \<not> ew_active w then ([], w)
      else (case feed_lines (ew_lineBuffer w) p of (lines, rest) \<Rightarrow> (concat (map publishCoreLogEvent lines), w\<lparr>ew_lineBuffer := rest\<rparr>)))"

definition event_Stop :: "event_watcher \<Rightarrow> log_event list \<times> event_watcher" where
  "event_Stop w =
     (if \<not> ew_active w then ([], w) else (publishCoreLogEvent (ew_lineBuffer w), w\<lparr>ew_active := False, ew_lineBuffer := []\<rparr>))"

section \<open>Lemmas\<close>

lemma last_bytes_append: "last_bytes n (last_bytes n s @ t) = last_bytes n (s @ t)"
  by (cases "n \<le> length s") (simp_all add: last_bytes_def add.commute)

lemma write_last: "ob_buf (buffer_Write p b) = last_bytes (ob_limit b) (ob_buf b @ p)" "ob_limit (buffer_Write p b) = ob_limit b"
  by (simp_all add: buffer_Write_def last_bytes_def Let_def)

lemma writes_last:
  "ob_buf (fold buffer_Write ps b) = last_bytes (ob_limit b) (ob_buf b @ concat ps) \<and> ob_limit (fold buffer_Write ps b) = ob_limit b"
  if "length (ob_buf b) \<le> ob_limit b"
  using that
proof (induction ps arbitrary: b)
  case Nil
  then show ?case by (simp add: last_bytes_def)
next
  case (Cons p ps)
  have "length (ob_buf (buffer_Write p b)) \<le> ob_limit (buffer_Write p b)" by (simp add: write_last last_bytes_def)
  from Cons.IH [OF this] show ?case by (simp add: write_last last_bytes_append)
qed

lemma crlf_id: "CHR 0x0D \<notin> set s \<Longrightarrow> replace_crlf s = s"
  by (induction s rule: replace_crlf.induct) auto

lemma split_snoc: "split_at c (s @ t) = butlast (split_at c s) @ split_at c (last (split_at c s) @ t)"
proof (induction s)
  case (Cons x s)
  then show ?case by (cases "split_at c s") (auto split: list.split)
qed simp

lemma suffix_last: "has_suffix s [c] \<longleftrightarrow> s \<noteq> [] \<and> last s = c"
  by (cases s rule: rev_cases) (simp_all add: has_suffix_def)

lemma split_last_Nil: "last (split_at c s) = [] \<longleftrightarrow> s = [] \<or> last s = c"
proof (cases s rule: rev_cases)
  case (snoc t x)
  let ?l = "last (split_at c t)"
  have "c \<notin> set ?l" using split_at_no_sep [of ?l c t] by simp
  then have "last (split_at c (?l @ [x])) = [] \<longleftrightarrow> x = c"
    using split_at_append [of c ?l "[]"] split_at_single [of c "?l @ [x]"] by (cases "x = c") auto
  then show ?thesis using snoc split_snoc [of c t "[x]"] by simp
qed simp

text \<open>
  Feeding a text in chunks: the complete lines that are delivered are those of the text, up to empty
  lines, and the rest is its last, unfinished line.
\<close>

abbreviation lf :: char where "lf \<equiv> CHR 0x0A"

lemma feed_step:
  assumes "CHR 0x0D \<notin> set p" "\<forall>l \<in> set (split_at lf (T @ p)). length l \<le> startupLineLimit"
    and "feed_lines (last (split_at lf T)) p = (ls, rest)"
  shows "rest = last (split_at lf (T @ p))"
    "filter (\<lambda>l. l \<noteq> []) (butlast (split_at lf (T @ p))) = filter (\<lambda>l. l \<noteq> []) (butlast (split_at lf T)) @ filter (\<lambda>l. l \<noteq> []) ls"
proof -
  let ?c = "last (split_at lf T) @ p"
  have s: "split_at lf (T @ p) = butlast (split_at lf T) @ split_at lf ?c" by (rule split_snoc)
  have l: "last (split_at lf (T @ p)) = last (split_at lf ?c)" "butlast (split_at lf (T @ p)) = butlast (split_at lf T) @ butlast (split_at lf ?c)"
    using s by (simp_all add: butlast_append)
  have "length (last (split_at lf ?c)) \<le> startupLineLimit" using assms(2) l(1) by (metis last_in_set split_at_ne)
  then have k: "last_bytes startupLineLimit (last (split_at lf ?c)) = last (split_at lf ?c)" by (simp add: last_bytes_def)
  have f: "feed_lines (last (split_at lf T)) p =
      (if has_suffix ?c [lf] then (split_at lf ?c, []) else (butlast (split_at lf ?c), last (split_at lf ?c)))"
    using k crlf_id [OF assms(1)] by (simp add: feed_lines_def Let_def)
  have e: "last (split_at lf ?c) = []" "filter (\<lambda>l. l \<noteq> []) (split_at lf ?c) = filter (\<lambda>l. l \<noteq> []) (butlast (split_at lf ?c))" if "has_suffix ?c [lf]"
  proof -
    show e: "last (split_at lf ?c) = []" using that suffix_last [of ?c lf] split_last_Nil [of lf ?c] by blast
    show "filter (\<lambda>l. l \<noteq> []) (split_at lf ?c) = filter (\<lambda>l. l \<noteq> []) (butlast (split_at lf ?c))"
    proof -
      have "split_at lf ?c = butlast (split_at lf ?c) @ [[]]" using e append_butlast_last_id [OF split_at_ne [of lf ?c]] by simp
      then have "filter (\<lambda>l. l \<noteq> []) (split_at lf ?c) = filter (\<lambda>l. l \<noteq> []) (butlast (split_at lf ?c) @ [[]])" by (rule arg_cong)
      then show ?thesis by simp
    qed
  qed
  show "rest = last (split_at lf (T @ p))" using assms(3) f e l(1) by (auto split: if_splits)
  show "filter (\<lambda>l. l \<noteq> []) (butlast (split_at lf (T @ p))) = filter (\<lambda>l. l \<noteq> []) (butlast (split_at lf T)) @ filter (\<lambda>l. l \<noteq> []) ls"
    using assms(3) f e l(2) by (auto split: if_splits)
qed

lemma split_prefix: "c \<notin> set l \<Longrightarrow> split_at c (l @ p) = (l @ hd (split_at c p)) # tl (split_at c p)"
proof (induction l)
  case (Cons x l)
  then show ?case by (cases "split_at c p") auto
qed (simp add: list.collapse)

lemma in_split_last: "x \<in> set (split_at c s) \<Longrightarrow> x \<in> set (butlast (split_at c s)) \<or> x = last (split_at c s)"
  by (cases "split_at c s" rule: rev_cases) auto

lemma lines_of_prefix:
  assumes "\<forall>l \<in> set (split_at lf (T @ p)). length l \<le> n"
  shows "\<forall>l \<in> set (split_at lf T). length l \<le> n"
proof
  fix l assume "l \<in> set (split_at lf T)"
  then have "l \<in> set (butlast (split_at lf T)) \<or> l = last (split_at lf T)" by (rule in_split_last)
  moreover have "length (last (split_at lf T)) \<le> n"
  proof -
    let ?l = "last (split_at lf T)"
    have "lf \<notin> set ?l" using split_at_no_sep [of ?l lf T] by simp
    then have "?l @ hd (split_at lf p) \<in> set (split_at lf (T @ p))" using split_prefix [of lf ?l p] split_snoc [of lf T p] by simp
    then show ?thesis using assms by fastforce
  qed
  ultimately show "length l \<le> n" using assms split_snoc [of lf T p] by auto
qed

lemma fatal_Nil: "startupFatalLineError U [] = None"
  by (simp add: startupFatalLineError_def strings_ToLower_def is_ascii_def fatalIndicator_def)

lemma report_lines:
  "sw_reported (fold (\<lambda>l. reportFatal (startupFatalLineError U l)) ls w) \<longleftrightarrow> sw_reported w \<or> (\<exists>l \<in> set ls. startupFatalLineError U l \<noteq> None)"
  "sw_lineBuffer (fold (\<lambda>l. reportFatal (startupFatalLineError U l)) ls w) = sw_lineBuffer w"
  by (induction ls arbitrary: w) (auto simp: reportFatal_def)

lemma report_source: "sw_fatal (reportFatal (startupFatalLineError U l) w) \<in> insert (sw_fatal w) (range (startupFatalLineError U))"
  by (auto simp: reportFatal_def)

lemma report_lines_source:
  "sw_fatal (fold (\<lambda>l. reportFatal (startupFatalLineError U l)) ls w) \<in> insert (sw_fatal w) (range (startupFatalLineError U))"
proof (induction ls arbitrary: w)
  case (Cons l ls)
  show ?case using Cons.IH [of "reportFatal (startupFatalLineError U l) w"] report_source [of U l w] by auto
qed simp

lemma write_source: "sw_fatal (watcher_Write U p w) \<in> insert (sw_fatal w) (range (startupFatalLineError U))"
  using report_source [of U "snd (feed_lines (sw_lineBuffer w) p)"
      "fold (\<lambda>l. reportFatal (startupFatalLineError U l)) (fst (feed_lines (sw_lineBuffer w) p)) (w\<lparr>sw_lineBuffer := snd (feed_lines (sw_lineBuffer w) p)\<rparr>)"]
    report_lines_source [of U "fst (feed_lines (sw_lineBuffer w) p)" "w\<lparr>sw_lineBuffer := snd (feed_lines (sw_lineBuffer w) p)\<rparr>"]
  by (auto simp: watcher_Write_def case_prod_unfold Let_def)

lemma writes_source: "sw_fatal (fold (watcher_Write U) ps w) \<in> insert (sw_fatal w) (range (startupFatalLineError U))"
proof (induction ps arbitrary: w)
  case (Cons p ps)
  show ?case using Cons.IH [of "watcher_Write U p w"] write_source [of U p w] by auto
qed simp

definition watched :: "unicode \<Rightarrow> string \<Rightarrow> startup_watcher \<Rightarrow> bool" where
  "watched U T w = (sw_lineBuffer w = last (split_at lf T) \<and>
     ((\<exists>l \<in> set (split_at lf T). startupFatalLineError U l \<noteq> None) \<longrightarrow> sw_reported w))"

lemma watched_step:
  assumes "watched U T w" "CHR 0x0D \<notin> set p" "\<forall>l \<in> set (split_at lf (T @ p)). length l \<le> startupLineLimit"
  shows "watched U (T @ p) (watcher_Write U p w)"
proof -
  obtain ls rest where f: "feed_lines (last (split_at lf T)) p = (ls, rest)" by fastforce
  note st = feed_step [OF assms(2,3) f]
  let ?w1 = "fold (\<lambda>l. reportFatal (startupFatalLineError U l)) ls (w\<lparr>sw_lineBuffer := rest\<rparr>)"
  have w: "watcher_Write U p w = (if rest \<noteq> [] then reportFatal (startupFatalLineError U rest) ?w1 else ?w1)"
    using assms(1) f by (simp add: watcher_Write_def watched_def)
  have b: "sw_lineBuffer (watcher_Write U p w) = rest" by (simp add: w reportFatal_def report_lines)
  have "sw_reported (watcher_Write U p w)" if "l \<in> set (split_at lf (T @ p))" "startupFatalLineError U l \<noteq> None" for l
  proof -
    have "l \<noteq> []" using that(2) fatal_Nil by auto
    from in_split_last [OF that(1)] consider "l = rest" | "l \<in> set (filter (\<lambda>l. l \<noteq> []) (butlast (split_at lf (T @ p))))" using st(1) \<open>l \<noteq> []\<close> by auto
    then show ?thesis
    proof cases
      case 1
      then show ?thesis using that(2) \<open>l \<noteq> []\<close> by (auto simp: w reportFatal_def)
    next
      case 2
      then have "l \<in> set (butlast (split_at lf T)) \<or> l \<in> set ls" unfolding st(2) by auto
      then have "sw_reported ?w1" using assms(1) that(2) in_set_butlastD by (fastforce simp: report_lines watched_def)
      then show ?thesis by (auto simp: w reportFatal_def)
    qed
  qed
  then show ?thesis using b st(1) by (auto simp: watched_def)
qed

lemma watched_all:
  assumes "\<forall>p \<in> set ps. CHR 0x0D \<notin> set p" "\<forall>l \<in> set (split_at lf (T @ concat ps)). length l \<le> startupLineLimit" "watched U T w"
  shows "watched U (T @ concat ps) (fold (watcher_Write U) ps w)"
  using assms
proof (induction ps arbitrary: T w)
  case (Cons p ps)
  have "\<forall>l \<in> set (split_at lf (T @ p)). length l \<le> startupLineLimit"
    using lines_of_prefix [of "T @ p" "concat ps"] Cons.prems(2) by simp
  then have "watched U (T @ p) (watcher_Write U p w)" using Cons.prems by (intro watched_step) simp_all
  then show ?case using Cons.IH [of "T @ p" "watcher_Write U p w"] Cons.prems by simp
qed simp

section \<open>Properties\<close>

text \<open>
  The error output that is kept is the end of what the core wrote, at most the limit, however the
  output was cut into chunks.
\<close>

theorem output_buffer_last:
  "ob_buf (fold buffer_Write ps (newBoundedOutputBuffer limit)) =
     last_bytes (if limit \<le> 0 then startupBufferLimit else nat limit) (concat ps)"
  using writes_last [of "newBoundedOutputBuffer limit" ps] by (simp add: newBoundedOutputBuffer_def)

text \<open>
  A fatal message is found however the output is cut into chunks: when the lines are within the limit
  and have no carriage return, a line that says that the core cannot start, finished or not, has been
  reported, and what is reported is the error of a fatal line.
\<close>

theorem startup_fatal_seen:
  assumes "\<forall>p \<in> set ps. CHR 0x0D \<notin> set p" "\<forall>l \<in> set (split_at lf (concat ps)). length l \<le> startupLineLimit"
    and "l \<in> set (split_at lf (concat ps))" "startupFatalLineError U l \<noteq> None"
  shows "sw_reported (fold (watcher_Write U) ps newStartupLogWatcher) \<and>
    (\<forall>e. sw_fatal (fold (watcher_Write U) ps newStartupLogWatcher) = Some e \<longrightarrow> (\<exists>l'. startupFatalLineError U l' = Some e))"
proof -
  have "watched U [] newStartupLogWatcher" by (simp add: watched_def newStartupLogWatcher_def fatal_Nil)
  then have "sw_reported (fold (watcher_Write U) ps newStartupLogWatcher)"
    using watched_all [of ps "[]" U newStartupLogWatcher] assms by (auto simp: watched_def)
  then show ?thesis using writes_source [of U ps newStartupLogWatcher] by (auto simp: newStartupLogWatcher_def)
qed

theorem startup_fatal_seen_witness:
  "sw_reported (fold (watcher_Write ascii_only) [''ok'', [lf], ''level=fa'', ''tal''] newStartupLogWatcher)"
proof -
  have "startupFatalLineError ascii_only ''level=fatal'' \<noteq> None"
    by (simp add: startupFatalLineError_def strings_ToLower_def is_ascii_def byte_val_def ascii_lower_def fatalIndicator_def has_prefix_def)
  then show ?thesis
    using startup_fatal_seen [of "[''ok'', [lf], ''level=fa'', ''tal'']" "''level=fatal''" ascii_only] by (simp add: startupLineLimit_def)
qed

end
