(* ===== verification/Core_Launcher.thy ===== *)
theory Core_Launcher
  imports Core_Sandbox
begin

text \<open>
  How the core's process is started on Linux: the command that re-executes the service in its own mount
  namespace and waits for the exec (\<open>core/sandbox/command_linux.go\<close>, \<open>reexec_linux.go\<close>, \<open>probe_linux.go\<close>), and the
  launchers that choose between the sandbox and a direct start (\<open>core/launcher.go\<close>, \<open>core/launcher_linux*.go\<close>).
\<close>

section \<open>Definitions\<close>

subsection \<open>The sandbox command\<close>

text \<open>
  A command: its root, which of its three files are open, and the results of the two operations that run once.
\<close>

record sandbox_command =
  sx_root :: string
  sx_configFile :: bool
  sx_statusReader :: bool
  sx_statusWriter :: bool
  sx_await :: "err option option"
  sx_cleanup :: "err option option"

text \<open>
  What a start meets outside: the effective user, the process table, the process's own number, the roots that are
  there, the random part of a name, and what the status pipe and the probed process answer.
\<close>

datatype exec_status = ReadFails | Reported string | NoAnswer

record launch_input =
  li_euid :: nat
  li_stat :: "int \<Rightarrow> string option"
  li_self :: nat
  li_roots :: "string list option"
  li_random :: string
  li_status :: exec_status
  li_probeStatus :: exec_status

fun check_paths :: "sandbox_fs \<Rightarrow> string list \<Rightarrow> sandbox_error option" where
  "check_paths fs [] = None"
| "check_paths fs (p # ps) =
     (if trim_space p = [] then Some (ConfigError (Plain ''Failed to map trusted path: path cannot be empty''))
      else (case normalizeSandboxPath fs p of
          Inl e \<Rightarrow> Some (ConfigError (Wrapped ''Failed to map trusted path'' e))
        | Inr q \<Rightarrow> if sf_stat fs q \<in> {NotExist, StatFails} then Some (ConfigError (Wrapped (''Failed to map trusted path '' @ q) SysErr)) else check_paths fs ps))"

definition validateWritablePaths :: "sandbox_fs \<Rightarrow> string list \<Rightarrow> sandbox_error option" where
  "validateWritablePaths fs paths = check_paths fs paths"

text \<open>The file is made, hidden, written and rewound; every failure after it was made closes it.\<close>

definition createReexecConfigFile :: "sandbox_world \<Rightarrow> err option \<times> sandbox_world" where
  "createReexecConfigFile w =
     (case sys_call w of (r, w1) \<Rightarrow>
        if r \<noteq> SysOk then (Some (Wrapped ''Failed to create core sandbox re-exec configuration'' SysErr), w1)
        else (case sys_call (w1\<lparr>sb_open := sb_open w1 + 1\<rparr>) of (r2, w2) \<Rightarrow>
            if r2 \<noteq> SysOk then (Some (Wrapped ''Failed to hide core sandbox re-exec configuration'' SysErr), w2\<lparr>sb_open := sb_open w2 - 1\<rparr>)
            else (case sys_calls 2 w2 of (r3, w3) \<Rightarrow>
                if r3 \<noteq> SysOk then (Some (Wrapped ''Failed to write core sandbox re-exec configuration'' SysErr), w3\<lparr>sb_open := sb_open w3 - 1\<rparr>)
                else (None, w3))))"

definition NewCommand :: "launch_input \<Rightarrow> sandbox_config \<Rightarrow> sandbox_world \<Rightarrow> (sandbox_error + sandbox_command) \<times> sandbox_world" where
  "NewCommand inp config w =
     (if li_euid inp \<noteq> 0 then (Inl (OtherError (Plain ''Core sandbox requires root privileges'')), w)
      else (case validateWritablePaths (sb_fs w) (sc_WritablePaths config) of
          Some e \<Rightarrow> (Inl e, w)
        | None \<Rightarrow>
            (case createSandboxRoot (li_stat inp) (li_self inp) (li_roots inp) (li_random inp) w of
               (Inl e, w1) \<Rightarrow> (Inl (OtherError e), w1)
             | (Inr root, w1) \<Rightarrow>
                 (case createReexecConfigFile w1 of
                    (Some e, w2) \<Rightarrow> (Inl (OtherError e), snd (cleanupLinuxSandboxRoot root w2))
                  | (None, w2) \<Rightarrow>
                      (case sys_call w2 of (r3, w3) \<Rightarrow>
                         if r3 \<noteq> SysOk
                         then (Inl (OtherError (Wrapped ''Failed to create core sandbox status pipe'' SysErr)),
                               snd (cleanupLinuxSandboxRoot root (w3\<lparr>sb_open := sb_open w3 - 1\<rparr>)))
                         else (case sys_call (w3\<lparr>sb_open := sb_open w3 + 2\<rparr>) of (r4, w4) \<Rightarrow>
                             if r4 \<noteq> SysOk
                             then (Inl (OtherError (Wrapped ''Failed to read service executable path'' SysErr)),
                                   snd (cleanupLinuxSandboxRoot root (w4\<lparr>sb_open := sb_open w4 - 3\<rparr>)))
                             else (Inr \<lparr>sx_root = root, sx_configFile = True, sx_statusReader = True, sx_statusWriter = True, sx_await = None, sx_cleanup = None\<rparr>, w4)))))))"

definition closeParentWriters :: "sandbox_command \<Rightarrow> sandbox_world \<Rightarrow> sandbox_command \<times> sandbox_world" where
  "closeParentWriters c w =
     (c\<lparr>sx_configFile := False, sx_statusWriter := False\<rparr>,
      w\<lparr>sb_open := sb_open w - of_bool (sx_configFile c) - of_bool (sx_statusWriter c)\<rparr>)"

definition exec_error :: "exec_status \<Rightarrow> err option" where
  "exec_error s =
     (case s of
        ReadFails \<Rightarrow> Some (Wrapped ''Failed to read core sandbox startup status'' SysErr)
      | Reported m \<Rightarrow> if trim_space m \<noteq> [] then Some (Plain (trim_space m)) else None
      | NoAnswer \<Rightarrow> Some (Plain ''Timed out while waiting for core sandbox exec''))"

definition AwaitExec :: "exec_status \<Rightarrow> sandbox_command \<Rightarrow> sandbox_world \<Rightarrow> err option \<times> sandbox_command \<times> sandbox_world" where
  "AwaitExec status c w =
     (case sx_await c of
        Some r \<Rightarrow> (r, c, w)
      | None \<Rightarrow>
          (case closeParentWriters c w of (c1, w1) \<Rightarrow>
             if \<not> sx_statusReader c1
             then (let r = Some (Plain ''Core sandbox status pipe is unavailable'') in (r, c1\<lparr>sx_await := Some r\<rparr>, w1))
             else (let r = exec_error status in (r, c1\<lparr>sx_statusReader := False, sx_await := Some r\<rparr>, w1\<lparr>sb_open := sb_open w1 - 1\<rparr>))))"

definition Command_Cleanup :: "sandbox_command \<Rightarrow> sandbox_world \<Rightarrow> err option \<times> sandbox_command \<times> sandbox_world" where
  "Command_Cleanup c w =
     (case sx_cleanup c of
        Some r \<Rightarrow> (r, c, w)
      | None \<Rightarrow>
          (case closeParentWriters c w of (c1, w1) \<Rightarrow>
             let w2 = w1\<lparr>sb_open := sb_open w1 - of_bool (sx_statusReader c1)\<rparr> in
             (case cleanupLinuxSandboxRoot (sx_root c1) w2 of (r, w3) \<Rightarrow> (r, c1\<lparr>sx_statusReader := False, sx_cleanup := Some r\<rparr>, w3))))"

subsection \<open>The re-executed child\<close>

definition reexecModeEnv :: string where "reexecModeEnv = ''KOKOROBOX_CORE_SANDBOX_REEXEC''"

definition legacyReexecModeEnv :: string where "legacyReexecModeEnv = ''SPARKLE_CORE_SANDBOX_REEXEC''"

definition reexecEnvironment :: "string list \<Rightarrow> string list" where
  "reexecEnvironment environ =
     filter (\<lambda>item. fst (strings_Cut item (CHR ''='')) \<noteq> reexecModeEnv \<and> fst (strings_Cut item (CHR ''='')) \<noteq> legacyReexecModeEnv) environ @ [reexecModeEnv @ ''=1'']"

text \<open>
  The child reads the configuration (two calls), builds the root, enters it, changes to the working directory
  and execs; it only comes back with an error.
\<close>

definition runReexec :: "sandbox_config \<Rightarrow> string \<Rightarrow> sandbox_world \<Rightarrow> err option \<times> sandbox_world" where
  "runReexec config root w =
     (case sys_calls 2 w of (r, w1) \<Rightarrow>
        if r \<noteq> SysOk then (Some (Wrapped ''Failed to read core sandbox re-exec configuration'' SysErr), w1)
        else (case prepareRoot config root w1 of
            (Some e, w2) \<Rightarrow> (Some e, w2)
          | (None, w2) \<Rightarrow>
              (case sys_call w2 of (r3, w3) \<Rightarrow>
                 if r3 \<noteq> SysOk then (Some (Wrapped ''Failed to enter core sandbox'' SysErr), snd (cleanupLinuxSandboxRoot root w3))
                 else (case sys_call w3 of (r4, w4) \<Rightarrow>
                     if r4 \<noteq> SysOk then (Some (Wrapped (''Failed to change core working directory to '' @ sc_WorkingDir config) SysErr), w4)
                     else (case sys_call w4 of (r5, w5) \<Rightarrow> (if r5 = SysOk then None else Some SysErr, w5))))))"

text \<open>What the parent reads: the pipe closes at the exec, or holds the message.\<close>

definition reexec_status :: "err option \<Rightarrow> exec_status" where
  "reexec_status r = Reported (case r of None \<Rightarrow> [] | Some e \<Rightarrow> ''Core sandbox re-exec failed: '' @ err_text e)"

subsection \<open>Starting\<close>

datatype core_kind = Direct | Sandboxed

record core_command =
  cc_kind :: core_kind
  cc_sandbox :: "sandbox_command option"
  cc_startFallback :: bool

record launcher_world =
  la_sandbox :: sandbox_world
  la_running :: "core_kind list"
  la_probe :: "err option option"

definition la_call :: "launcher_world \<Rightarrow> sys_result \<times> launcher_world" where
  "la_call w = (case sys_call (la_sandbox w) of (r, s) \<Rightarrow> (r, w\<lparr>la_sandbox := s\<rparr>))"

definition command_cleanupNow :: "core_command \<Rightarrow> launcher_world \<Rightarrow> core_command \<times> launcher_world" where
  "command_cleanupNow c w =
     (case cc_sandbox c of
        None \<Rightarrow> (c, w)
      | Some x \<Rightarrow> (case Command_Cleanup x (la_sandbox w) of (_, _, s) \<Rightarrow> (c\<lparr>cc_sandbox := None\<rparr>, w\<lparr>la_sandbox := s\<rparr>)))"

text \<open>\<open>cmd.Start\<close> and, for a sandboxed command, the wait for the exec; a process that did not get there is killed.\<close>

definition startAttempt :: "exec_status \<Rightarrow> core_command \<Rightarrow> launcher_world \<Rightarrow> err option \<times> core_command \<times> launcher_world" where
  "startAttempt status c w =
     (case la_call w of (r, w1) \<Rightarrow>
        if r \<noteq> SysOk then (Some SysErr, c, w1)
        else (case cc_sandbox c of
            None \<Rightarrow> (None, c, w1\<lparr>la_running := la_running w1 @ [cc_kind c]\<rparr>)
          | Some x \<Rightarrow>
              (case AwaitExec status x (la_sandbox w1) of (e, x', s) \<Rightarrow>
                 (e, c\<lparr>cc_sandbox := Some x'\<rparr>, w1\<lparr>la_sandbox := s, la_running := la_running w1 @ (if e = None then [cc_kind c] else [])\<rparr>))))"

definition direct_command :: core_command where
  "direct_command = \<lparr>cc_kind = Direct, cc_sandbox = None, cc_startFallback = False\<rparr>"

definition command_start :: "exec_status \<Rightarrow> core_command \<Rightarrow> launcher_world \<Rightarrow> err option \<times> core_command \<times> launcher_world" where
  "command_start status c w =
     (case startAttempt status c w of
        (None, c1, w1) \<Rightarrow> (None, c1, w1)
      | (Some e, c1, w1) \<Rightarrow>
          (case command_cleanupNow c1 w1 of (c2, w2) \<Rightarrow>
             if \<not> cc_startFallback c2 then (Some e, c2, w2)
             else (case startAttempt status direct_command w2 of
                 (None, c3, w3) \<Rightarrow> (None, c3, w3)
               | (Some e2, c3, w3) \<Rightarrow>
                   (Some (Wrapped (''Sandbox launch failed: '' @ err_text e @ ''; direct launch failed'') e2), fst (command_cleanupNow c3 w3), snd (command_cleanupNow c3 w3)))))"

subsection \<open>Launchers\<close>

datatype core_launcher = DirectLauncher | SandboxLauncher | AutoLauncher

definition sandboxDisabled :: "unicode \<Rightarrow> launch_world \<Rightarrow> bool" where
  "sandboxDisabled U lw =
     (let v = trim_space (identity_Environment lw ''KOKOROBOX_CORE_DISABLE_LINUX_SANDBOX'' ''SPARKLE_CORE_DISABLE_LINUX_SANDBOX'') in
      v = ''1'' \<or> strings_EqualFold U v ''true'' \<or> strings_EqualFold U v ''yes'')"

definition newCoreLauncher :: "unicode \<Rightarrow> launch_world \<Rightarrow> string \<Rightarrow> core_launcher" where
  "newCoreLauncher U lw mode =
     (if sandboxDisabled U lw then DirectLauncher
      else if mode = CoreRunModeDirect then DirectLauncher
      else if mode = CoreRunModeSandbox then SandboxLauncher
      else AutoLauncher)"

fun writableDirsFromCoreArgs :: "string list \<Rightarrow> string list" where
  "writableDirsFromCoreArgs [] = []"
| "writableDirsFromCoreArgs [arg] = (if has_prefix arg ''-d='' \<and> arg \<noteq> ''-d='' then [drop 3 arg]
     else if has_prefix arg ''-ext-ctl-unix='' \<and> arg \<noteq> ''-ext-ctl-unix='' then [path_Dir (drop 14 arg)] else [])"
| "writableDirsFromCoreArgs (arg # a2 # args) =
     (if arg = ''-d'' then (if a2 = [] then [] else [a2]) @ writableDirsFromCoreArgs args
      else if arg = ''-ext-ctl-unix'' then (if a2 = [] then [] else [path_Dir a2]) @ writableDirsFromCoreArgs args
      else writableDirsFromCoreArgs [arg] @ writableDirsFromCoreArgs (a2 # args))"

definition session_config :: "string \<Rightarrow> launch_session \<Rightarrow> sandbox_config" where
  "session_config serviceExecutable se =
     \<lparr>sc_ExecutablePath = se_executablePath se, sc_Args = se_args se, sc_Env = se_env se, sc_WorkingDir = se_workingDir se,
      sc_ReadOnlyPaths = [serviceExecutable], sc_WritablePaths = lp_SafePaths (se_profile se),
      sc_WritableDirs = writableDirsFromCoreArgs (se_args se) @ (if se_hookUpFile se \<noteq> [] then [path_Dir (se_hookUpFile se)] else [])\<rparr>"

definition sandbox_Command :: "launch_input \<Rightarrow> string \<Rightarrow> launch_session \<Rightarrow> launcher_world \<Rightarrow> (sandbox_error + core_command) \<times> launcher_world" where
  "sandbox_Command inp serviceExecutable se w =
     (case la_call w of (r, w1) \<Rightarrow>
        if r \<noteq> SysOk then (Inl (OtherError (Wrapped ''Failed to read service executable path'' SysErr)), w1)
        else (case NewCommand inp (session_config serviceExecutable se) (la_sandbox w1) of
            (Inl e, s) \<Rightarrow> (Inl e, w1\<lparr>la_sandbox := s\<rparr>)
          | (Inr x, s) \<Rightarrow> (Inr \<lparr>cc_kind = Sandboxed, cc_sandbox = Some x, cc_startFallback = False\<rparr>, w1\<lparr>la_sandbox := s\<rparr>)))"

text \<open>
  The probe starts the service itself in a sandbox and waits for it; \<open>sys_call\<close> answers for the executable, the start
  and the wait.
\<close>

definition runProbe :: "launch_input \<Rightarrow> string \<Rightarrow> launcher_world \<Rightarrow> err option \<times> launcher_world" where
  "runProbe inp serviceExecutable w =
     (if li_euid inp \<noteq> 0 then (Some (Plain ''Root privileges are required''), w)
      else (case la_call w of (r, w1) \<Rightarrow>
          if r \<noteq> SysOk then (Some (Wrapped ''Failed to read service executable path'' SysErr), w1)
          else (case NewCommand inp \<lparr>sc_ExecutablePath = serviceExecutable, sc_Args = [''--help''], sc_Env = [], sc_WorkingDir = path_Dir serviceExecutable,
                  sc_ReadOnlyPaths = [], sc_WritablePaths = [], sc_WritableDirs = []\<rparr> (la_sandbox w1) of
              (Inl e, s) \<Rightarrow> (Some (sandbox_err e), w1\<lparr>la_sandbox := s\<rparr>)
            | (Inr x, s) \<Rightarrow>
                (case sys_call s of (r2, s2) \<Rightarrow>
                   if r2 \<noteq> SysOk then (Some (Wrapped ''chroot or namespace probe failed'' SysErr), w1\<lparr>la_sandbox := snd (snd (Command_Cleanup x s2))\<rparr>)
                   else (case AwaitExec (li_probeStatus inp) x s2 of
                       (Some e, x', s3) \<Rightarrow> (Some (Wrapped ''Sandbox re-exec probe failed'' e), w1\<lparr>la_sandbox := snd (snd (Command_Cleanup x' s3))\<rparr>)
                     | (None, x', s3) \<Rightarrow>
                         (case sys_call s3 of (r4, s4) \<Rightarrow>
                            (if r4 \<noteq> SysOk then Some (Wrapped ''chroot or namespace probe failed'' SysErr) else fst (Command_Cleanup x' s4),
                             w1\<lparr>la_sandbox := snd (snd (Command_Cleanup x' s4))\<rparr>)))))))"

definition Probe :: "launch_input \<Rightarrow> string \<Rightarrow> launcher_world \<Rightarrow> err option \<times> launcher_world" where
  "Probe inp serviceExecutable w =
     (case la_probe w of
        Some r \<Rightarrow> (r, w)
      | None \<Rightarrow> (case runProbe inp serviceExecutable w of (r, w1) \<Rightarrow> (r, w1\<lparr>la_probe := Some r\<rparr>)))"

definition launcher_Command :: "core_launcher \<Rightarrow> launch_input \<Rightarrow> string \<Rightarrow> launch_session \<Rightarrow> launcher_world \<Rightarrow> (sandbox_error + core_command) \<times> launcher_world" where
  "launcher_Command l inp serviceExecutable se w =
     (case l of
        DirectLauncher \<Rightarrow> (Inr direct_command, w)
      | SandboxLauncher \<Rightarrow> sandbox_Command inp serviceExecutable se w
      | AutoLauncher \<Rightarrow>
          (case Probe inp serviceExecutable w of
             (Some e, w1) \<Rightarrow> (Inr direct_command, w1)
           | (None, w1) \<Rightarrow>
               (case sandbox_Command inp serviceExecutable se w1 of
                  (Inl e, w2) \<Rightarrow> if IsConfigError e then (Inl e, w2) else (Inr direct_command, w2)
                | (Inr c, w2) \<Rightarrow> (Inr (c\<lparr>cc_startFallback := True\<rparr>), w2))))"

section \<open>Files and processes\<close>

lemma open_call [simp]: "sb_open (snd (sys_call w)) = sb_open w"
  by (simp add: sys_call_def split: list.split)

lemma open_calls [simp]: "sb_open (snd (sys_calls n w)) = sb_open w"
  by (induction n arbitrary: w) (simp_all add: case_prod_unfold)

lemma open_on [simp]: "sb_open (snd (on_mount p w)) = sb_open w"
  by (simp add: on_mount_def)

lemma open_private [simp]: "sb_open (snd (makeSandboxMountPrivate p w)) = sb_open w"
  by (simp add: makeSandboxMountPrivate_def case_prod_unfold)

lemma open_unmount [simp]: "sb_open (snd (unmount_call p w)) = sb_open w"
  by (simp add: unmount_call_def case_prod_unfold)

lemma open_take_down [simp]: "sb_open (snd (take_down ig p s)) = sb_open (snd s)"
  by (simp add: take_down_def case_prod_unfold)

lemma open_take_downs [simp]: "sb_open (snd (fold (take_down ig) ps s)) = sb_open (snd s)"
  by (induction ps arbitrary: s) simp_all

lemma open_remove [simp]: "sb_open (snd (remove_root r w)) = sb_open w"
  by (simp add: remove_root_def case_prod_unfold)

lemma open_cleanup [simp]: "sb_open (snd (cleanupLinuxSandboxRoot r w)) = sb_open w"
  by (simp add: cleanupLinuxSandboxRoot_def case_prod_unfold split: lstat_answer.split)

lemma open_stale [simp]: "sb_open (cleanupStaleLinuxSandboxRoots stat roots w) = sb_open w"
proof -
  have "sb_open (fold (\<lambda>root w. if sandboxRootOwnerActive stat root then w else snd (cleanupLinuxSandboxRoot root w)) rs w) = sb_open w" for rs w
    by (induction rs arbitrary: w) simp_all
  then show ?thesis by (simp add: cleanupStaleLinuxSandboxRoots_def split: option.split)
qed

lemma open_create [simp]: "sb_open (snd (createSandboxRoot stat self roots rnd w)) = sb_open w"
  by (simp add: createSandboxRoot_def Let_def case_prod_unfold split: sum.split)

lemma open_config: "sb_open (snd (createReexecConfigFile w)) = sb_open w + (if fst (createReexecConfigFile w) = None then 1 else 0)"
  by (simp add: createReexecConfigFile_def case_prod_unfold)

text \<open>The files that a command holds open.\<close>

definition files :: "sandbox_command \<Rightarrow> int" where
  "files c = of_bool (sx_configFile c) + of_bool (sx_statusReader c) + of_bool (sx_statusWriter c)"

lemma new_command_files:
  "case NewCommand inp config w of (Inl e, w') \<Rightarrow> sb_open w' = sb_open w | (Inr c, w') \<Rightarrow> sb_open w' = sb_open w + files c \<and> sx_cleanup c = None"
proof -
  obtain r1 w1 where 1: "createSandboxRoot (li_stat inp) (li_self inp) (li_roots inp) (li_random inp) w = (r1, w1)" by fastforce
  obtain r2 w2 where 2: "createReexecConfigFile w1 = (r2, w2)" by fastforce
  obtain r3 w3 where 3: "sys_call w2 = (r3, w3)" by fastforce
  obtain r4 w4 where 4: "sys_call (w3\<lparr>sb_open := sb_open w3 + 2\<rparr>) = (r4, w4)" by fastforce
  have o: "sb_open w1 = sb_open w" "sb_open w2 = sb_open w1 + (if r2 = None then 1 else 0)" "sb_open w3 = sb_open w2" "sb_open w4 = sb_open w3 + 2"
    using open_create [of "li_stat inp" "li_self inp" "li_roots inp" "li_random inp" w, unfolded 1] open_config [of w1, unfolded 2] open_call [of w2, unfolded 3]
      open_call [of "w3\<lparr>sb_open := sb_open w3 + 2\<rparr>", unfolded 4] by simp_all
  show ?thesis
    by (cases "validateWritablePaths (sb_fs w) (sc_WritablePaths config)"; cases r1; cases r2; simp add: NewCommand_def 1 2 3 4 files_def; use o in simp)
qed

lemma await_files:
  assumes "AwaitExec status c w = (e, c', w')"
  shows "sb_open w' - files c' = sb_open w - files c \<and> sx_cleanup c' = sx_cleanup c"
  using assms by (auto simp: AwaitExec_def closeParentWriters_def files_def Let_def split: option.splits if_splits)

lemma cleanup_files: "sx_cleanup c = None \<Longrightarrow> sb_open (snd (snd (Command_Cleanup c w))) = sb_open w - files c"
  by (simp add: Command_Cleanup_def closeParentWriters_def files_def Let_def case_prod_unfold)

text \<open>The same for the command of a launcher.\<close>

definition command_files :: "core_command \<Rightarrow> int" where
  "command_files c = (case cc_sandbox c of None \<Rightarrow> 0 | Some x \<Rightarrow> files x)"

definition command_ok :: "core_command \<Rightarrow> bool" where
  "command_ok c = (\<forall>x. cc_sandbox c = Some x \<longrightarrow> sx_cleanup x = None)"

definition la_open :: "launcher_world \<Rightarrow> int" where
  "la_open w = sb_open (la_sandbox w)"

lemma la_call_same [simp]: "la_open (snd (la_call w)) = la_open w" "la_running (snd (la_call w)) = la_running w"
  by (simp_all add: la_call_def la_open_def case_prod_unfold)

lemma cleanupNow_files:
  assumes "command_ok c" "command_cleanupNow c w = (c', w')"
  shows "la_open w' = la_open w - command_files c \<and> la_running w' = la_running w \<and> cc_sandbox c' = None \<and> cc_startFallback c' = cc_startFallback c"
  using assms cleanup_files [of _ "la_sandbox w"]
  by (auto simp: command_cleanupNow_def command_files_def la_open_def command_ok_def case_prod_unfold split: option.splits)

lemma attempt_files:
  assumes "command_ok c" "startAttempt status c w = (e, c', w')"
  shows "la_open w' - command_files c' = la_open w - command_files c \<and> command_ok c' \<and> cc_kind c' = cc_kind c \<and> cc_startFallback c' = cc_startFallback c \<and>
    la_running w' = la_running w @ (if e = None then [cc_kind c] else []) \<and> (cc_sandbox c' = None) = (cc_sandbox c = None)"
proof -
  obtain r w1 where 1: "la_call w = (r, w1)" by fastforce
  have w1: "la_open w1 = la_open w" "la_running w1 = la_running w" using la_call_same [of w] 1 by simp_all
  show ?thesis
  proof (cases "r = SysOk")
    case True
    show ?thesis
    proof (cases "cc_sandbox c")
      case (Some x)
      obtain e1 x1 s1 where a: "AwaitExec status x (la_sandbox w1) = (e1, x1, s1)" by (metis prod_cases3)
      from await_files [OF a] show ?thesis using assms True 1 w1 Some a
        by (auto simp: startAttempt_def command_files_def command_ok_def la_open_def)
    qed (use assms True 1 w1 in \<open>auto simp: startAttempt_def command_files_def command_ok_def la_open_def\<close>)
  qed (use assms 1 w1 in \<open>auto simp: startAttempt_def\<close>)
qed

lemma start_files:
  assumes "command_ok c" "command_start status c w = (e, c', w')"
  shows "(if e = None then la_open w' - command_files c' = la_open w - command_files c \<and> la_running w' = la_running w @ [cc_kind c'] \<and> command_ok c'
     else la_open w' = la_open w - command_files c \<and> la_running w' = la_running w) \<and>
    (e = None \<longrightarrow> \<not> cc_startFallback c \<longrightarrow> cc_kind c' = cc_kind c)"
proof -
  obtain e1 c1 w1 where 1: "startAttempt status c w = (e1, c1, w1)" by (metis prod_cases3)
  note a1 = attempt_files [OF assms(1) 1]
  show ?thesis
  proof (cases e1)
    case None
    then show ?thesis using assms(2) 1 a1 by (simp add: command_start_def)
  next
    case (Some x)
    obtain c2 w2 where 2: "command_cleanupNow c1 w1 = (c2, w2)" by fastforce
    have a2: "la_open w2 = la_open w1 - command_files c1" "la_running w2 = la_running w1" "cc_startFallback c2 = cc_startFallback c"
      using cleanupNow_files [OF _ 2] a1 by simp_all
    show ?thesis
    proof (cases "cc_startFallback c")
      case False
      then show ?thesis using assms(2) 1 2 a1 a2 Some by (auto simp: command_start_def)
    next
      case True
      obtain e3 c3 w3 where 3: "startAttempt status direct_command w2 = (e3, c3, w3)" by (metis prod_cases3)
      have d: "command_ok direct_command" "command_files direct_command = 0" "cc_kind direct_command = Direct" by (simp_all add: direct_command_def command_ok_def command_files_def)
      note a3 = attempt_files [OF d(1) 3]
      have n: "cc_sandbox c3 = None" using a3 by (simp add: direct_command_def)
      then have z: "command_files c3 = 0" "command_cleanupNow c3 w3 = (c3, w3)" by (simp_all add: command_files_def command_cleanupNow_def)
      show ?thesis
        using assms(2) 1 2 3 a1 a2 a3 d z Some True by (cases e3) (auto simp: command_start_def)
    qed
  qed
qed

lemma sandbox_Command_files:
  assumes "sandbox_Command inp ex se w = (r, w')"
  shows "la_running w' = la_running w \<and> la_probe w' = la_probe w \<and>
    (case r of Inl e \<Rightarrow> la_open w' = la_open w
     | Inr c \<Rightarrow> la_open w' = la_open w + command_files c \<and> command_ok c \<and> cc_kind c = Sandboxed \<and> cc_sandbox c \<noteq> None \<and> \<not> cc_startFallback c)"
proof -
  obtain r1 w1 where 1: "la_call w = (r1, w1)" by fastforce
  have w1: "la_open w1 = la_open w" "la_running w1 = la_running w" "la_probe w1 = la_probe w"
    using la_call_same [of w] 1 by (auto simp: la_call_def split: prod.splits)
  obtain r2 s where 2: "NewCommand inp (session_config ex se) (la_sandbox w1) = (r2, s)" by fastforce
  have "case r2 of Inl e \<Rightarrow> sb_open s = la_open w1 | Inr c \<Rightarrow> sb_open s = la_open w1 + files c \<and> sx_cleanup c = None"
    using new_command_files [where inp = inp and config = "session_config ex se" and w = "la_sandbox w1", unfolded 2] by (cases r2) (simp_all add: la_open_def)
  then show ?thesis using assms 1 2 w1
    by (auto simp: sandbox_Command_def la_open_def command_files_def command_ok_def split: if_splits sum.splits)
qed

lemma probe_files:
  assumes "runProbe inp ex w = (r, w')"
  shows "la_open w' = la_open w \<and> la_running w' = la_running w"
proof -
  obtain r1 w1 where 1: "la_call w = (r1, w1)" by fastforce
  have w1: "la_open w1 = la_open w" "la_running w1 = la_running w" using la_call_same [of w] 1 by simp_all
  let ?c = "\<lparr>sc_ExecutablePath = ex, sc_Args = [''--help''], sc_Env = [], sc_WorkingDir = path_Dir ex, sc_ReadOnlyPaths = [], sc_WritablePaths = [], sc_WritableDirs = []\<rparr>"
  obtain r2 s where 2: "NewCommand inp ?c (la_sandbox w1) = (r2, s)" by fastforce
  note n = new_command_files [where inp = inp and config = ?c and w = "la_sandbox w1", unfolded 2]
  show ?thesis
  proof (cases r2)
    case (Inl e)
    then show ?thesis using assms 1 2 w1 n by (auto simp: runProbe_def la_open_def split: if_splits)
  next
    case (Inr x)
    then have x: "sb_open s = la_open w + files x" "sx_cleanup x = None" using n w1 by (simp_all add: la_open_def)
    obtain r3 s3 where 3: "sys_call s = (r3, s3)" by fastforce
    have s3: "sb_open s3 = sb_open s" using open_call [of s] 3 by simp
    obtain e x4 s4 where 4: "AwaitExec (li_probeStatus inp) x s3 = (e, x4, s4)" by (metis prod_cases3)
    note a = await_files [OF 4]
    obtain r5 s5 where 5: "sys_call s4 = (r5, s5)" by fastforce
    have s5: "sb_open s5 = sb_open s4" using open_call [of s4] 5 by simp
    have "sb_open (snd (snd (Command_Cleanup x s3))) = la_open w" "sb_open (snd (snd (Command_Cleanup x4 s4))) = la_open w" "sb_open (snd (snd (Command_Cleanup x4 s5))) = la_open w"
      using cleanup_files [of x s3] cleanup_files [of x4 s4] cleanup_files [of x4 s5] a x s3 s5 by simp_all
    then show ?thesis using assms 1 2 3 4 5 Inr w1 by (cases e) (auto simp: runProbe_def la_open_def split: if_splits)
  qed
qed

lemma launcher_files:
  assumes "launcher_Command l inp ex se w = (r, w')"
  shows "la_running w' = la_running w \<and>
    (case r of Inl e \<Rightarrow> la_open w' = la_open w \<and> (l = AutoLauncher \<longrightarrow> IsConfigError e)
     | Inr c \<Rightarrow> la_open w' = la_open w + command_files c \<and> command_ok c \<and> (l = SandboxLauncher \<longrightarrow> cc_kind c = Sandboxed \<and> cc_sandbox c \<noteq> None \<and> \<not> cc_startFallback c))"
proof -
  have d: "command_files direct_command = 0" "command_ok direct_command" by (simp_all add: command_files_def command_ok_def direct_command_def)
  show ?thesis
  proof (cases l)
    case DirectLauncher
    then show ?thesis using assms d by (auto simp: launcher_Command_def)
  next
    case SandboxLauncher
    then show ?thesis using assms sandbox_Command_files [of inp ex se w r w'] by (auto simp: launcher_Command_def split: sum.splits)
  next
    case AutoLauncher
    obtain e w1 where 1: "Probe inp ex w = (e, w1)" by fastforce
    have w1: "la_open w1 = la_open w" "la_running w1 = la_running w"
      using 1 probe_files [of inp ex w] by (auto simp: Probe_def la_open_def split: option.splits prod.splits)
    obtain r2 w2 where 2: "sandbox_Command inp ex se w1 = (r2, w2)" by fastforce
    note s = sandbox_Command_files [OF 2]
    show ?thesis using assms AutoLauncher 1 2 w1 s d
      by (auto simp: launcher_Command_def command_files_def command_ok_def split: option.splits sum.splits if_splits)
  qed
qed

lemma exec_error_none: "exec_error (reexec_status r) = None \<longleftrightarrow> r = None"
proof (cases r)
  case (Some e)
  have "CHR ''C'' \<in> set (trim_space (''Core sandbox re-exec failed: '' @ err_text e))"
    by (rule trim_space_keeps) (simp_all add: visible_def byte_val_def)
  then have "trim_space (''Core sandbox re-exec failed: '' @ err_text e) \<noteq> []" by (metis empty_iff empty_set)
  then show ?thesis using Some by (simp add: reexec_status_def exec_error_def)
qed (simp add: reexec_status_def exec_error_def)

lemma started_sandboxed:
  assumes "launcher_Command SandboxLauncher inp ex se w = (Inr c, w1)" "command_start status c w1 = (None, c', w2)"
  shows "la_running w2 = la_running w @ [Sandboxed] \<and> exec_error status = None"
proof -
  note l = launcher_files [OF assms(1)]
  then have c: "command_ok c" "cc_kind c = Sandboxed" "\<not> cc_startFallback c" "la_running w1 = la_running w" by simp_all
  from l obtain x where x: "cc_sandbox c = Some x" by auto
  have "sx_await x = None"
  proof -
    have "sandbox_Command inp ex se w = (Inr c, w1)" using assms(1) by (simp add: launcher_Command_def)
    then show ?thesis using x by (auto simp: sandbox_Command_def NewCommand_def split: prod.splits sum.splits if_splits option.splits)
  qed
  moreover have "sx_statusReader x"
  proof -
    have "sandbox_Command inp ex se w = (Inr c, w1)" using assms(1) by (simp add: launcher_Command_def)
    then show ?thesis using x by (auto simp: sandbox_Command_def NewCommand_def split: prod.splits sum.splits if_splits option.splits)
  qed
  moreover have "fst (startAttempt status c w1) = None"
  proof -
    obtain e1 c2 w3 where 1: "startAttempt status c w1 = (e1, c2, w3)" by (metis prod_cases3)
    obtain c4 w4 where 2: "command_cleanupNow c2 w3 = (c4, w4)" by fastforce
    have "\<not> cc_startFallback c4" using attempt_files [OF c(1) 1] cleanupNow_files [OF _ 2] c(3) by simp
    then show ?thesis using assms(2) 1 2 by (cases e1) (simp_all add: command_start_def)
  qed
  ultimately have "exec_error status = None"
    using x by (auto simp: startAttempt_def AwaitExec_def closeParentWriters_def Let_def split: prod.splits if_splits)
  then show ?thesis using start_files [OF c(1) assms(2)] c by simp
qed

section \<open>An example\<close>

definition toy_launch_input :: "exec_status \<Rightarrow> launch_input" where
  "toy_launch_input s = \<lparr>li_euid = 0, li_stat = (\<lambda>_. Some ''1 (s) S 3 4 5 6 7 8 9 10 11 12 13 14 15 16 17 18 19 20 21 22''), li_self = 1, li_roots = None,
     li_random = ''9'', li_status = s, li_probeStatus = s\<rparr>"

definition toy_launcher :: launcher_world where
  "toy_launcher = \<lparr>la_sandbox = toy_sandbox [], la_running = [], la_probe = None\<rparr>"

definition empty_session :: launch_session where
  "empty_session = \<lparr>se_sourcePath = [], se_executablePath = [], se_workingDir = [], se_args = [], se_env = [], se_hookUpFile = [], se_cpuPriority = [], se_logPath = [],
     se_saveLogs = False, se_maxLogBytes = 0, se_fileAccess = \<lparr>fa_groupID = 0, fa_ok = False\<rparr>, se_controllerNet = [], se_controllerAddr = [], se_profile = zero_profile, se_dirs = []\<rparr>"

lemma call_nil: "sb_ios w = [] \<Longrightarrow> sys_call w = (SysOk, w)"
  by (simp add: sys_call_def)

lemma calls_nil: "sb_ios w = [] \<Longrightarrow> sys_calls n w = (SysOk, w)"
  by (induction n) (simp_all add: call_nil)

lemma new_command_good:
  assumes "li_euid inp = 0" "validateWritablePaths (sb_fs w) (sc_WritablePaths config) = None" "sb_ios w1 = []"
    and "createSandboxRoot (li_stat inp) (li_self inp) (li_roots inp) (li_random inp) w = (Inr root, w1)"
  shows "\<exists>w2. NewCommand inp config w =
    (Inr \<lparr>sx_root = root, sx_configFile = True, sx_statusReader = True, sx_statusWriter = True, sx_await = None, sx_cleanup = None\<rparr>, w2) \<and> sb_ios w2 = []"
  using assms by (simp add: NewCommand_def createReexecConfigFile_def call_nil calls_nil)

lemma toy_root: "\<exists>root w1. createSandboxRoot (li_stat (toy_launch_input s)) 1 None r (toy_sandbox []) = (Inr root, w1) \<and> sb_ios w1 = []"
proof -
  have "sandboxRootTemplate (li_stat (toy_launch_input s)) 1 = Inr (sandboxRootPrefix @ format_nat 1 @ ''-'' @ ''21'' @ ''-'')"
    by (simp add: sandboxRootTemplate_def linuxProcessStartTime_def toy_launch_input_def eval_nat_numeral)
  moreover have "sb_ios (toy_sandbox []) = []" by (simp add: toy_sandbox_def)
  ultimately show ?thesis unfolding createSandboxRoot_def by (simp add: cleanupStaleLinuxSandboxRoots_def call_nil Let_def)
qed

lemma toy_sandboxed:
  "\<exists>c w1 c' w2. launcher_Command SandboxLauncher (toy_launch_input (Reported [])) ''/s'' empty_session toy_launcher = (Inr c, w1) \<and>
     command_start (Reported []) c w1 = (None, c', w2) \<and> cc_sandbox c' \<noteq> None"
proof -
  let ?i = "toy_launch_input (Reported [])"
  have v: "validateWritablePaths fs (sc_WritablePaths (session_config x empty_session)) = None" for fs x
    by (simp add: validateWritablePaths_def session_config_def empty_session_def zero_profile_def)
  have i: "li_euid ?i = 0" "li_self ?i = 1" "li_roots ?i = None" by (simp_all add: toy_launch_input_def)
  obtain root w1 where "createSandboxRoot (li_stat ?i) 1 None (li_random ?i) (toy_sandbox []) = (Inr root, w1)" "sb_ios w1 = []" using toy_root by blast
  with new_command_good [OF i(1) v] i obtain w2 where n: "NewCommand ?i (session_config ''/s'' empty_session) (toy_sandbox []) =
    (Inr \<lparr>sx_root = root, sx_configFile = True, sx_statusReader = True, sx_statusWriter = True, sx_await = None, sx_cleanup = None\<rparr>, w2)" "sb_ios w2 = []" by metis
  have "sb_ios (toy_sandbox []) = []" by (simp add: toy_sandbox_def)
  then have "launcher_Command SandboxLauncher ?i ''/s'' empty_session toy_launcher =
    (Inr \<lparr>cc_kind = Sandboxed, cc_sandbox = Some \<lparr>sx_root = root, sx_configFile = True, sx_statusReader = True, sx_statusWriter = True, sx_await = None, sx_cleanup = None\<rparr>,
       cc_startFallback = False\<rparr>, toy_launcher\<lparr>la_sandbox := w2\<rparr>)"
    using n by (simp add: launcher_Command_def sandbox_Command_def la_call_def toy_launcher_def call_nil)
  then show ?thesis using n(2)
    by (simp add: command_start_def startAttempt_def la_call_def call_nil AwaitExec_def closeParentWriters_def exec_error_def Let_def)
qed

section \<open>Properties\<close>


lemma toy_reexec: "fst (runReexec (toy_sandbox_config [''/'']) ''/tmp/kokorobox-core-sandbox-1'' (toy_sandbox [])) = None"
proof -
  let ?r = "''/tmp/kokorobox-core-sandbox-1''" and ?w = "toy_sandbox []"
  have n: "sb_ios ?w = []" "sb_mounts ?w = [''/'']" by (simp_all add: toy_sandbox_def)
  have v: "validateSandboxRoot ?r ?w = None"
    by (simp add: validateSandboxRoot_def toy_sandbox_def path_Clean_def path_Dir_def path_Base_def Let_def sandboxRootPrefix_def has_prefix_def own_dir_def)
  have m: "sandboxMounts fs (toy_sandbox_config [''/'']) = Inr [\<lparr>mt_source = ''/'', mt_target = ''/'', mt_readOnly = False, mt_isFile = False, mt_proc = False\<rparr>]" for fs
    by (simp add: sandboxMounts_def toy_sandbox_config_def path_Clean_def)
  show ?thesis
    by (simp add: runReexec_def prepareRoot_def v m n ensureXTablesLock_def call_nil calls_nil sys_error_def mountSandboxRoot_def mount_call_def
        makeSandboxMountPrivate_def on_mount_def prepareLinuxSandboxStaticLayout_def mountIntoSandbox_def Let_def)
qed




end
