(* ===== verification/Core_Manager.thy ===== *)
theory Core_Manager
  imports Core_Log Core_Output Core_Launcher
begin

text \<open>
  The manager of the core process (\<open>core/manager.go\<close>, \<open>core/events.go\<close>, \<open>core/launcher.go\<close>): starting, stopping
  and restarting the core, the goroutines that watch it, and the events that are published. Starting and
  stopping hold the mutex throughout, so they are functions on the record \<open>core_manager\<close>. A goroutine takes
  the mutex for parts of its work only; it is a value of \<open>thread\<close> that says where it is, and each of its
  steps runs from one release of the mutex to the next. Pointers and channels are numbers. The outcome of
  system calls comes from the script of the launch world.
\<close>

section \<open>Definitions\<close>

definition takeoverGracePeriod :: int where "takeoverGracePeriod = 10 * second"

subsection \<open>Events\<close>

record core_event =
  ce_Seq :: "64 word"
  ce_Type :: string
  ce_Running :: bool
  ce_PID :: int
  ce_OldPID :: int
  ce_Message :: string
  ce_Error :: string
  ce_Data :: "(string \<times> string) list"

record core_hub =
  hb_subscribers :: "(nat \<times> nat \<times> core_event list) list"
  hb_last :: core_event
  hb_nextSeq :: "64 word"

record managed_launch =
  ml_id :: nat
  ml_session :: launch_session
  ml_log :: log_writer
  ml_command :: "core_command option"

text \<open>
  Where a goroutine is. \<open>WaitExit\<close> is \<open>monitorProcess\<close> waiting for its process, \<open>Poll\<close> is \<open>monitorPID\<close> between two ticks,
  \<open>Notify\<close> is \<open>monitorStartupNotifications\<close>, \<open>NotifyFound\<close> the same between the two locked parts of
  \<open>handleStartupNotification\<close>. \<open>Exiting\<close>, \<open>Found\<close> and \<open>CleanUp\<close> are inside \<open>handleProcessExit\<close>: at the head of the loop of
  \<open>takeoverRestartedProcess\<close>, after its first locked part, and after the loop; the last component says which
  loop to go back to.
\<close>

datatype thread =
    WaitExit nat int
  | Poll nat
  | Notify nat nat
  | NotifyFound int "nat option" nat nat
  | Exiting int "nat option"
  | Found int nat nat int "nat option"
  | CleanUp "nat option"

record core_manager =
  cm_world :: launch_world
  cm_disk :: "string \<Rightarrow> string"
  cm_launcher :: launcher_world
  cm_cmd :: "nat option"
  cm_controller :: "nat option"
  cm_launch :: "managed_launch option"
  cm_hub :: core_hub
  cm_isRunning :: bool
  cm_monitoring :: bool
  cm_pidPolling :: bool
  cm_startTime :: int
  cm_pid :: int
  cm_stopChan :: "nat option"
  cm_closed :: "nat list"
  cm_controllers :: "nat list"
  cm_next :: nat
  cm_alive :: "int list"
  cm_threads :: "thread list"

definition newCoreEvent :: "string \<Rightarrow> string \<Rightarrow> err option \<Rightarrow> int \<Rightarrow> int \<Rightarrow> core_manager \<Rightarrow> core_event" where
  "newCoreEvent eventType message e pid oldPID s =
     (let p = (if pid = 0 then cm_pid s else pid) in
      \<lparr>ce_Seq = 0, ce_Type = eventType, ce_Running = (cm_isRunning s \<and> p > 0), ce_PID = p, ce_OldPID = oldPID, ce_Message = message,
       ce_Error = (case e of None \<Rightarrow> [] | Some x \<Rightarrow> err_text x), ce_Data = []\<rparr>)"

definition hub_deliver :: "core_event \<Rightarrow> nat \<times> nat \<times> core_event list \<Rightarrow> nat \<times> nat \<times> core_event list" where
  "hub_deliver ev ch = (case ch of (i, cap, q) \<Rightarrow> (i, cap, if length q < cap then q @ [ev] else q))"

definition publishCoreEvent :: "core_event \<Rightarrow> core_manager \<Rightarrow> core_manager" where
  "publishCoreEvent ev s =
     (let p = (if ce_PID ev = 0 then cm_pid s else ce_PID ev);
          h = cm_hub s;
          ev' = ev\<lparr>ce_PID := p, ce_Running := cm_isRunning s \<and> p > 0, ce_Seq := hb_nextSeq h + 1\<rparr>
      in s\<lparr>cm_hub := h\<lparr>hb_nextSeq := hb_nextSeq h + 1, hb_last := (if ce_Type ev' \<noteq> ''log'' then ev' else hb_last h),
             hb_subscribers := map (hub_deliver ev') (hb_subscribers h)\<rparr>\<rparr>)"

definition emitCoreEvent :: "string \<Rightarrow> string \<Rightarrow> err option \<Rightarrow> core_manager \<Rightarrow> core_manager" where
  "emitCoreEvent eventType message e s = publishCoreEvent (newCoreEvent eventType message e 0 0 s) s"

definition SubscribeEvents :: "nat \<Rightarrow> nat \<Rightarrow> core_manager \<Rightarrow> core_manager" where
  "SubscribeEvents i buffer s =
     (let h = cm_hub s;
          first = (if ce_Type (hb_last h) = [] then newCoreEvent ''stopped'' ''Core is not running'' None 0 0 s else hb_last h)
      in s\<lparr>cm_hub := h\<lparr>hb_subscribers := hb_subscribers h @ [(i, max 1 buffer, [first])]\<rparr>\<rparr>)"

definition core_unsubscribe :: "nat \<Rightarrow> core_manager \<Rightarrow> core_manager" where
  "core_unsubscribe i s = s\<lparr>cm_hub := (cm_hub s)\<lparr>hb_subscribers := filter (\<lambda>(j, _). j \<noteq> i) (hb_subscribers (cm_hub s))\<rparr>\<rparr>"

definition NewCoreManager :: "launch_world \<Rightarrow> (string \<Rightarrow> string) \<Rightarrow> launcher_world \<Rightarrow> core_manager" where
  "NewCoreManager w disk la =
     \<lparr>cm_world = w, cm_disk = disk, cm_launcher = la, cm_cmd = None, cm_controller = None, cm_launch = None,
      cm_hub = \<lparr>hb_subscribers = [], hb_last = \<lparr>ce_Seq = 0, ce_Type = [], ce_Running = False, ce_PID = 0, ce_OldPID = 0, ce_Message = [], ce_Error = [], ce_Data = []\<rparr>,
        hb_nextSeq = 0\<rparr>,
      cm_isRunning = False, cm_monitoring = False, cm_pidPolling = False, cm_startTime = 0, cm_pid = 0, cm_stopChan = None, cm_closed = [],
      cm_controllers = [], cm_next = 0, cm_alive = [], cm_threads = []\<rparr>"

subsection \<open>Calls\<close>

definition cm_call :: "core_manager \<Rightarrow> io \<times> core_manager" where
  "cm_call s = (case lw_call (cm_world s) of (out, w) \<Rightarrow> (out, s\<lparr>cm_world := w\<rparr>))"

text \<open>
  The process controller of Unix systems: \<open>Stop\<close> signals the group and the process and then looks, up to
  twenty times, whether the process is gone. A signal to a process that does not exist is not an error. A
  kill that has its effect takes the process away at once, but a look whose outcome is \<open>Partial\<close> is one that
  still sees it.
\<close>

definition kill_call :: "bool \<Rightarrow> int \<Rightarrow> core_manager \<Rightarrow> err option \<times> core_manager" where
  "kill_call deadly pid s =
     (case cm_call s of (out, s1) \<Rightarrow>
        (if out = Done \<or> pid \<notin> set (cm_alive s) then None else Some SysErr,
         if deadly \<and> out \<noteq> Fails then s1\<lparr>cm_alive := filter (\<lambda>p. p \<noteq> pid) (cm_alive s1)\<rparr> else s1))"

fun waitForUnixProcessExit :: "int \<Rightarrow> nat \<Rightarrow> core_manager \<Rightarrow> bool res \<times> core_manager" where
  "waitForUnixProcessExit pid 0 s = (Inr False, s)"
| "waitForUnixProcessExit pid (Suc attempts) s =
     (case cm_call s of (out, s1) \<Rightarrow>
        if out = Fails then (Inl SysErr, s1)
        else if out = Done \<and> pid \<notin> set (cm_alive s1) then (Inr True, s1)
        else waitForUnixProcessExit pid attempts s1)"

definition first_err :: "err option \<Rightarrow> err option \<Rightarrow> err option" where
  "first_err a b = (case a of None \<Rightarrow> b | Some e \<Rightarrow> Some e)"

definition controller_Stop :: "int \<Rightarrow> core_manager \<Rightarrow> err option \<times> core_manager" where
  "controller_Stop pid s =
     (if pid \<le> 0 then (None, s)
      else
        (case kill_call False pid s of (e1, s1) \<Rightarrow>
           (case kill_call True pid s1 of (e2, s2) \<Rightarrow>
              (case kill_call True pid s2 of (e3, s3) \<Rightarrow>
                 let stopErr = first_err (first_err e1 e2) e3 in
                 (case waitForUnixProcessExit pid 20 s3 of
                    (Inr exited, s4) \<Rightarrow> (first_err stopErr (if exited then None else Some (Plain ''Timed out while waiting for core process exit'')), s4)
                  | (Inl e, s4) \<Rightarrow> (first_err stopErr (Some e), s4))))))"

fun nice_of :: "string \<Rightarrow> int option" where
  "nice_of p =
     map_of [(''PRIORITY_LOW'', 19), (''PRIORITY_BELOW'', 10), (''PRIORITY_BELOW_NORMAL'', 10), (''PRIORITY_NORMAL'', 0),
             (''PRIORITY_ABOVE'', -5), (''PRIORITY_ABOVE_NORMAL'', -5), (''PRIORITY_HIGH'', -10), (''PRIORITY_HIGHEST'', -20)] p"

definition setProcessPriority :: "string \<Rightarrow> core_manager \<Rightarrow> err option \<times> core_manager" where
  "setProcessPriority priority s =
     (if priority = [] \<or> priority = ''PRIORITY_NORMAL'' then (None, s)
      else (case nice_of priority of
          None \<Rightarrow> (Some (Plain (''Unsupported process priority: '' @ priority)), s)
        | Some n \<Rightarrow> (case cm_call s of (out, s1) \<Rightarrow> (if out = Done then None else Some SysErr, s1))))"

definition closeProcessController :: "nat \<Rightarrow> core_manager \<Rightarrow> core_manager" where
  "closeProcessController c s = s\<lparr>cm_controllers := filter (\<lambda>x. x \<noteq> c) (cm_controllers s)\<rparr>"

definition signalStopLocked :: "core_manager \<Rightarrow> core_manager" where
  "signalStopLocked s = (case cm_stopChan s of None \<Rightarrow> s | Some c \<Rightarrow> s\<lparr>cm_closed := cm_closed s @ [c], cm_stopChan := None\<rparr>)"

text \<open>The cleanup of a session: its log is closed, its command and its directories are removed.\<close>

definition cleanupNow :: "managed_launch \<Rightarrow> core_manager \<Rightarrow> core_manager" where
  "cleanupNow ml s =
     s\<lparr>cm_disk := lg_disk (snd (log_Close (ml_log ml))), cm_world := session_cleanup (ml_session ml) (cm_world s),
       cm_launcher := (case ml_command ml of None \<Rightarrow> cm_launcher s | Some c \<Rightarrow> snd (command_cleanupNow c (cm_launcher s)))\<rparr>"

definition cleanupLocked :: "core_manager \<Rightarrow> core_manager" where
  "cleanupLocked s =
     (let s1 = (case cm_controller s of None \<Rightarrow> s | Some c \<Rightarrow> (closeProcessController c s)\<lparr>cm_controller := None\<rparr>);
          s2 = (case cm_launch s1 of None \<Rightarrow> s1 | Some ml \<Rightarrow> (cleanupNow ml s1)\<lparr>cm_launch := None\<rparr>)
      in s2\<lparr>cm_cmd := None, cm_startTime := 0, cm_pid := 0, cm_isRunning := False\<rparr>)"

definition stopProcessLocked :: "core_manager \<Rightarrow> err option \<times> core_manager" where
  "stopProcessLocked s = (if cm_pid s \<le> 0 \<or> cm_controller s = None then (None, s) else controller_Stop (cm_pid s) s)"

text \<open>
  \<open>HardenEndpoint\<close> is tried every 50 ms for two seconds; each attempt makes two calls.
\<close>

fun harden_attempts :: "nat \<Rightarrow> io list \<Rightarrow> bool \<times> io list" where
  "harden_attempts 0 ios = run_ios 2 ios"
| "harden_attempts (Suc n) ios = (case run_ios 2 ios of (True, r) \<Rightarrow> (True, r) | (False, r) \<Rightarrow> harden_attempts n r)"

definition hardenLaunchControllerEndpoint :: "core_manager \<Rightarrow> err option \<times> core_manager" where
  "hardenLaunchControllerEndpoint s =
     (case harden_attempts 40 (lw_io (cm_world s)) of (ok, ios) \<Rightarrow>
        (if ok then None else Some SysErr, s\<lparr>cm_world := (cm_world s)\<lparr>lw_io := ios\<rparr>\<rparr>))"

subsection \<open>Starting\<close>

text \<open>What the wait for the start-up sees, in order; when nothing is left the time is up.\<close>

datatype startup_signal = Ready "err option" | FatalLine err | ProcessDone "err option" | GraceOver | TimeUp

fun wait_grace :: "startup_signal list \<Rightarrow> err option" where
  "wait_grace [] = Some (Plain ''Timed out while starting core process'')"
| "wait_grace (FatalLine e # _) = Some e"
| "wait_grace (ProcessDone (Some e) # _) = Some (Wrapped ''Core process exited immediately after startup'' e)"
| "wait_grace (ProcessDone None # _) = Some (Plain ''Core process exited immediately after startup'')"
| "wait_grace (GraceOver # _) = None"
| "wait_grace (TimeUp # _) = Some (Plain ''Timed out while starting core process'')"
| "wait_grace (Ready _ # sigs) = wait_grace sigs"

fun waitForStartup :: "startup_signal list \<Rightarrow> err option" where
  "waitForStartup [] = Some (Plain ''Timed out while starting core process'')"
| "waitForStartup (Ready (Some e) # _) = Some (Wrapped ''Failed to wait for core post-up notification'' e)"
| "waitForStartup (Ready None # sigs) = wait_grace sigs"
| "waitForStartup (FatalLine e # _) = Some e"
| "waitForStartup (ProcessDone (Some e) # _) = Some (Wrapped ''Core process exited before startup'' e)"
| "waitForStartup (ProcessDone None # _) = Some (Plain ''Core process exited before startup'')"
| "waitForStartup (TimeUp # _) = Some (Plain ''Timed out while starting core process'')"
| "waitForStartup (GraceOver # sigs) = waitForStartup sigs"

record start_input =
  si_token :: string
  si_access :: file_access
  si_launch :: launch_input
  si_pid :: int
  si_signals :: "startup_signal list"
  si_now :: int

text \<open>The common end of a start that failed before the process was attached.\<close>

definition start_failed :: "err \<Rightarrow> core_manager \<Rightarrow> err option \<times> core_manager" where
  "start_failed e s =
     (Some e, emitCoreEvent ''failed'' ''Failed to start core'' (Some e)
        ((signalStopLocked (s\<lparr>cm_monitoring := False\<rparr>))\<lparr>cm_isRunning := False\<rparr>))"

text \<open>The common end of a start that failed afterwards.\<close>

definition start_aborted :: "err \<Rightarrow> core_manager \<Rightarrow> err option \<times> core_manager" where
  "start_aborted e s =
     (Some e, emitCoreEvent ''failed'' ''Failed to start core'' (Some e)
        (cleanupLocked (signalStopLocked ((snd (stopProcessLocked s))\<lparr>cm_monitoring := False\<rparr>))))"

text \<open>The part of a start after the process is attached.\<close>

definition await_startup :: "managed_launch \<Rightarrow> nat \<Rightarrow> nat \<Rightarrow> start_input \<Rightarrow> core_manager \<Rightarrow> err option \<times> core_manager" where
  "await_startup ml ctl cmd inp s =
     (let s6 = (snd (setProcessPriority (se_cpuPriority (ml_session ml)) s))\<lparr>cm_cmd := Some cmd, cm_controller := Some ctl, cm_launch := Some ml,
                  cm_pid := si_pid inp, cm_startTime := si_now inp\<rparr> in
      case waitForStartup (si_signals inp) of
        Some e \<Rightarrow> start_aborted e s6
      | None \<Rightarrow>
          (case hardenLaunchControllerEndpoint s6 of
             (Some e, s7) \<Rightarrow> start_aborted e s7
           | (None, s7) \<Rightarrow>
               (None, emitCoreEvent ''started'' ''Core started'' None
                  (s7\<lparr>cm_monitoring := True,
                      cm_threads := cm_threads s7 @ [WaitExit cmd (si_pid inp)] @
                        (case cm_stopChan s7 of None \<Rightarrow> [] | Some c \<Rightarrow> [Notify (ml_id ml) c])\<rparr>))))"

text \<open>The part after the session is prepared: make the command, start the process, attach the controller.\<close>

definition run_session :: "unicode \<Rightarrow> managed_launch \<Rightarrow> nat \<Rightarrow> nat \<Rightarrow> start_input \<Rightarrow> core_manager \<Rightarrow> err option \<times> core_manager" where
  "run_session U ml ctl cmd inp s =
     (case launcher_Command (newCoreLauncher U (cm_world s) (lp_Mode (se_profile (ml_session ml)))) (si_launch inp) (lw_executable (cm_world s)) (ml_session ml) (cm_launcher s) of
        (Inl e, la) \<Rightarrow> start_failed (sandbox_err e) (cleanupNow ml (closeProcessController ctl (s\<lparr>cm_launcher := la\<rparr>)))
      | (Inr command, la) \<Rightarrow>
          (case command_start (li_status (si_launch inp)) command la of
             (Some e, command', la') \<Rightarrow>
               start_failed (Wrapped ''Failed to start core process'' e) (cleanupNow ml (closeProcessController ctl (s\<lparr>cm_launcher := la'\<rparr>)))
           | (None, command', la') \<Rightarrow>
               let ml' = ml\<lparr>ml_command := Some command'\<rparr> in
               (case cm_call (s\<lparr>cm_launcher := la', cm_alive := cm_alive s @ [si_pid inp]\<rparr>) of (out3, s5) \<Rightarrow>
                  if out3 \<noteq> Done
                  then start_failed (Wrapped ''Failed to attach core process controller'' SysErr)
                         (cleanupNow ml' (closeProcessController ctl (snd (kill_call True (si_pid inp) s5))))
                  else await_startup ml' ctl cmd inp s5)))"

definition startProcessLocked :: "unicode \<Rightarrow> launch_profile option \<Rightarrow> start_input \<Rightarrow> core_manager \<Rightarrow> err option \<times> core_manager" where
  "startProcessLocked U profile inp s =
     (case prepareLaunchSession U (si_token inp) profile (si_access inp) (cm_world s) of
        (Inl e, w) \<Rightarrow> start_failed e (s\<lparr>cm_world := w\<rparr>)
      | (Inr se, w) \<Rightarrow>
          run_session U
            \<lparr>ml_id = cm_next s, ml_session = se,
             ml_log = newBoundedLogWriter (cm_disk s) []
               \<lparr>ls_path = se_logPath se, ls_saveLogs = se_saveLogs se, ls_maxBytes = se_maxLogBytes se, ls_access = se_fileAccess se\<rparr>, ml_command = None\<rparr>
            (cm_next s + 1) (cm_next s + 2) inp
            (s\<lparr>cm_world := w, cm_next := cm_next s + 3, cm_controllers := cm_controllers s @ [cm_next s + 1]\<rparr>))"

definition startCoreLocked :: "unicode \<Rightarrow> launch_profile option \<Rightarrow> start_input \<Rightarrow> core_manager \<Rightarrow> err option \<times> core_manager" where
  "startCoreLocked U profile inp s =
     (if cm_isRunning s then (Some (Plain ''Core process is already running''), s)
      else
        let s1 = emitCoreEvent ''starting'' ''Core is starting'' None (s\<lparr>cm_isRunning := True\<rparr>)
        in startProcessLocked U profile inp (s1\<lparr>cm_stopChan := Some (cm_next s1), cm_next := cm_next s1 + 1\<rparr>))"

definition core_idle :: "core_manager \<Rightarrow> bool" where
  "core_idle s = (cm_pid s = 0 \<and> cm_controller s = None \<and> cm_launch s = None \<and> \<not> cm_isRunning s)"

definition stopCoreLocked :: "core_manager \<Rightarrow> err option \<times> core_manager" where
  "stopCoreLocked s =
     (if core_idle s then (None, s)
      else
        let s1 = signalStopLocked ((emitCoreEvent ''stopping'' ''Core is stopping'' None s)\<lparr>cm_monitoring := False\<rparr>) in
        (case stopProcessLocked s1 of
           (Some e, s2) \<Rightarrow> (Some e, cleanupLocked s2)
         | (None, s2) \<Rightarrow> (None, emitCoreEvent ''stopped'' ''Core stopped'' None (cleanupLocked s2))))"

definition RestartCoreWithProfile :: "unicode \<Rightarrow> launch_profile option \<Rightarrow> start_input \<Rightarrow> core_manager \<Rightarrow> err option \<times> core_manager" where
  "RestartCoreWithProfile U profile inp s =
     startCoreLocked U profile inp (snd (stopCoreLocked (emitCoreEvent ''restarting'' ''Core is restarting'' None s)))"

definition ApplyLaunchProfile :: "launch_profile \<Rightarrow> file_access \<Rightarrow> core_manager \<Rightarrow> core_manager" where
  "ApplyLaunchProfile profile options s =
     (case cm_launch s of
        None \<Rightarrow> s
      | Some ml \<Rightarrow>
          let se = ml_session ml;
              access = (if fa_ok options then options else se_fileAccess se);
              settings = coreLogSettingsFromProfile profile access;
              se' = se\<lparr>se_profile := (se_profile se)\<lparr>lp_LogPath := lp_LogPath profile, lp_SaveLogs := lp_SaveLogs profile,
                        lp_MaxLogFileSizeMB := lp_MaxLogFileSizeMB profile\<rparr>,
                      se_fileAccess := ls_access settings, se_logPath := ls_path settings, se_saveLogs := ls_saveLogs settings, se_maxLogBytes := ls_maxBytes settings\<rparr>
          in s\<lparr>cm_launch := Some (ml\<lparr>ml_session := se', ml_log := log_Update settings (ml_log ml)\<rparr>)\<rparr>)"

definition ControllerEndpoint :: "core_manager \<Rightarrow> (string \<times> string) res" where
  "ControllerEndpoint s =
     (case cm_launch s of
        None \<Rightarrow> Inl (Plain ''Core controller is not initialized'')
      | Some ml \<Rightarrow>
          if se_controllerNet (ml_session ml) = [] \<or> se_controllerAddr (ml_session ml) = [] then Inl (Plain ''Core controller is not initialized'')
          else Inr (se_controllerNet (ml_session ml), se_controllerAddr (ml_session ml)))"

text \<open>\<open>proc\<close> is whether the process can be looked at.\<close>

definition GetProcessInfo :: "bool \<Rightarrow> core_manager \<Rightarrow> int res" where
  "GetProcessInfo proc s =
     (if \<not> cm_isRunning s \<or> cm_pid s \<le> 0 then Inl (Plain ''Process is not running'')
      else if \<not> proc then Inl (Wrapped ''Failed to get process information'' SysErr)
      else Inr (cm_pid s))"

subsection \<open>Looking for a process that took over\<close>

record process_info =
  pi_pid :: int
  pi_name :: "string option"
  pi_exe :: "string option"
  pi_exists :: bool
  pi_createTime :: "int option"

definition isCoreProcessCandidate :: "unicode \<Rightarrow> launch_session \<Rightarrow> process_info \<Rightarrow> bool" where
  "isCoreProcessCandidate U se p =
     (pi_exists p \<and>
      (pi_name p \<noteq> None \<and> strings_ToLower U (the (pi_name p)) = strings_ToLower U (path_Base (se_executablePath se)) \<or>
       pi_exe p \<noteq> None \<and> strings_EqualFold U (the (pi_exe p)) (se_executablePath se)))"

fun find_best :: "unicode \<Rightarrow> launch_session \<Rightarrow> int \<Rightarrow> int \<times> int \<Rightarrow> process_info list \<Rightarrow> int \<times> int" where
  "find_best U se oldPID best [] = best"
| "find_best U se oldPID (bestPID, bestTime) (p # ps) =
     (if pi_pid p \<le> 0 \<or> pi_pid p = oldPID \<or> \<not> isCoreProcessCandidate U se p then find_best U se oldPID (bestPID, bestTime) ps
      else let createTime = (case pi_createTime p of None \<Rightarrow> 0 | Some t \<Rightarrow> t) in
           if bestPID = 0 \<or> createTime \<ge> bestTime then find_best U se oldPID (pi_pid p, createTime) ps
           else find_best U se oldPID (bestPID, bestTime) ps)"

text \<open>The processes of the controller, or nothing when the query fails.\<close>

definition findManagedCorePID :: "unicode \<Rightarrow> launch_session \<Rightarrow> int \<Rightarrow> process_info list option \<Rightarrow> int option" where
  "findManagedCorePID U se oldPID pids =
     (case pids of
        None \<Rightarrow> None
      | Some ps \<Rightarrow> let best = fst (find_best U se oldPID (0, 0) ps) in if best \<noteq> 0 then Some best else None)"

subsection \<open>Goroutines\<close>

text \<open>
  What a step sees: the clock, the processes of the controller, whether the polled process exists, whether
  the stop channel is chosen, what waiting for the process returned, and the creation time of a process
  that took over.
\<close>

record step_input =
  in_now :: int
  in_pids :: "process_info list option"
  in_exists :: "bool option"
  in_stop :: bool
  in_exit :: "err option"
  in_created :: "int option"

definition startPIDPollingLocked :: "nat option \<Rightarrow> core_manager \<Rightarrow> core_manager" where
  "startPIDPollingLocked c s =
     (case c of
        None \<Rightarrow> s
      | Some ch \<Rightarrow> if cm_pidPolling s then s else s\<lparr>cm_pidPolling := True, cm_threads := cm_threads s @ [Poll ch]\<rparr>)"

definition updateStartTimeFromPIDLocked :: "step_input \<Rightarrow> core_manager \<Rightarrow> core_manager" where
  "updateStartTimeFromPIDLocked inp s = s\<lparr>cm_startTime := (case in_created inp of None \<Rightarrow> in_now inp | Some t \<Rightarrow> t)\<rparr>"

definition take_over :: "step_input \<Rightarrow> int \<Rightarrow> core_manager \<Rightarrow> core_manager" where
  "take_over inp newPID s =
     startPIDPollingLocked (cm_stopChan s) (updateStartTimeFromPIDLocked inp (s\<lparr>cm_cmd := None, cm_pid := newPID\<rparr>))"

definition loop_again :: "nat option \<Rightarrow> thread option" where
  "loop_again after = map_option Poll after"

definition exit_cleanup :: "core_manager \<Rightarrow> core_manager" where
  "exit_cleanup s = (if core_idle s then s else cleanupLocked (signalStopLocked (s\<lparr>cm_monitoring := False\<rparr>)))"

definition wait_exit :: "step_input \<Rightarrow> nat \<Rightarrow> int \<Rightarrow> core_manager \<Rightarrow> thread option \<times> core_manager" where
  "wait_exit inp cmd pid s =
     (if pid \<in> set (cm_alive s) then (Some (WaitExit cmd pid), s)
      else if \<not> cm_monitoring s \<or> cm_cmd s \<noteq> Some cmd then (None, s)
      else (Some (Exiting (in_now inp + takeoverGracePeriod) None),
            publishCoreEvent (newCoreEvent ''exited'' ''Core process exited'' (in_exit inp) pid 0 s) s))"

definition exiting :: "step_input \<Rightarrow> int \<Rightarrow> nat option \<Rightarrow> core_manager \<Rightarrow> thread option \<times> core_manager" where
  "exiting inp deadline after s =
     (if \<not> in_now inp < deadline then (Some (CleanUp after), s)
      else (case (cm_controller s, cm_launch s) of
          (Some c, Some ml) \<Rightarrow>
            if \<not> cm_monitoring s \<or> \<not> cm_isRunning s then (Some (CleanUp after), s)
            else (Some (Found (cm_pid s) c (ml_id ml) deadline after), s)
        | _ \<Rightarrow> (Some (CleanUp after), s)))"

text \<open>
  \<open>se\<close> is the session the pointer \<open>launch\<close> refers to; \<open>SecureBinary\<close> and \<open>hardenLaunchControllerEndpoint\<close> work on the
  launch world.
\<close>

definition secure_session :: "launch_session \<Rightarrow> core_manager \<Rightarrow> err option \<times> core_manager" where
  "secure_session se s =
     (case SecureBinary (se_executablePath se) (cm_world s) of
        (Some e, w) \<Rightarrow> (Some e, s\<lparr>cm_world := w\<rparr>)
      | (None, w) \<Rightarrow> hardenLaunchControllerEndpoint (s\<lparr>cm_world := w\<rparr>))"

definition found :: "unicode \<Rightarrow> step_input \<Rightarrow> launch_session \<Rightarrow> int \<Rightarrow> nat \<Rightarrow> int \<Rightarrow> nat option \<Rightarrow> core_manager \<Rightarrow> thread option \<times> core_manager" where
  "found U inp se oldPID c deadline after s =
     (case findManagedCorePID U se oldPID (in_pids inp) of
        None \<Rightarrow> (Some (Exiting deadline after), s)
      | Some newPID \<Rightarrow>
          (case secure_session se s of
             (Some e, s1) \<Rightarrow> (Some (CleanUp after), snd (controller_Stop newPID s1))
           | (None, s1) \<Rightarrow>
               if cm_monitoring s1 \<and> cm_controller s1 = Some c
               then (loop_again after,
                     let s2 = take_over inp newPID s1
                     in publishCoreEvent (newCoreEvent ''takeover'' ''Core process taken over again'' None newPID oldPID s2) s2)
               else (Some (CleanUp after), s1)))"

definition poll_step :: "step_input \<Rightarrow> nat \<Rightarrow> core_manager \<Rightarrow> thread option \<times> core_manager" where
  "poll_step inp c s =
     (if in_stop inp then (if c \<in> set (cm_closed s) then (None, s\<lparr>cm_pidPolling := False\<rparr>) else (Some (Poll c), s))
      else if \<not> cm_monitoring s then (None, s\<lparr>cm_pidPolling := False\<rparr>)
      else if cm_pid s \<le> 0 \<or> in_exists inp \<noteq> Some False \<or> \<not> cm_isRunning s then (Some (Poll c), s)
      else (Some (Exiting (in_now inp + takeoverGracePeriod) (Some c)), s))"

definition notify_step :: "step_input \<Rightarrow> nat \<Rightarrow> nat \<Rightarrow> core_manager \<Rightarrow> thread option \<times> core_manager" where
  "notify_step inp lid c s =
     (if in_stop inp then (if c \<in> set (cm_closed s) then (None, s) else (Some (Notify lid c), s))
      else if \<not> cm_monitoring s \<or> \<not> cm_isRunning s \<or> map_option ml_id (cm_launch s) \<noteq> Some lid then (Some (Notify lid c), s)
      else (Some (NotifyFound (cm_pid s) (cm_controller s) lid c), s))"

text \<open>The errors of the two hardening calls are only logged here.\<close>

definition notify_found ::
  "unicode \<Rightarrow> step_input \<Rightarrow> launch_session \<Rightarrow> int \<Rightarrow> nat option \<Rightarrow> nat \<Rightarrow> nat \<Rightarrow> core_manager \<Rightarrow> thread option \<times> core_manager" where
  "notify_found U inp se oldPID ctl lid c s =
     (let s1 = s\<lparr>cm_world := snd (SecureBinary (se_executablePath se) (cm_world s))\<rparr>;
          s2 = snd (hardenLaunchControllerEndpoint s1);
          newPID = (case ctl of None \<Rightarrow> oldPID | Some _ \<Rightarrow> (case findManagedCorePID U se oldPID (in_pids inp) of None \<Rightarrow> oldPID | Some p \<Rightarrow> p))
      in if \<not> cm_monitoring s2 \<or> map_option ml_id (cm_launch s2) \<noteq> Some lid \<or> cm_controller s2 \<noteq> ctl then (Some (Notify lid c), s2)
         else if newPID \<noteq> oldPID then
           (Some (Notify lid c),
            let s3 = take_over inp newPID s2
            in publishCoreEvent (newCoreEvent ''takeover'' ''Core process taken over again'' None newPID oldPID s3) s3)
         else (Some (Notify lid c), publishCoreEvent (newCoreEvent ''ready'' ''Core is ready again'' None newPID 0 s2) s2))"

definition thread_step :: "unicode \<Rightarrow> step_input \<Rightarrow> launch_session \<Rightarrow> thread \<Rightarrow> core_manager \<Rightarrow> thread option \<times> core_manager" where
  "thread_step U inp se t s =
     (case t of
        WaitExit cmd pid \<Rightarrow> wait_exit inp cmd pid s
      | Poll c \<Rightarrow> poll_step inp c s
      | Notify lid c \<Rightarrow> notify_step inp lid c s
      | NotifyFound oldPID ctl lid c \<Rightarrow> notify_found U inp se oldPID ctl lid c s
      | Exiting deadline after \<Rightarrow> exiting inp deadline after s
      | Found oldPID c lid deadline after \<Rightarrow> found U inp se oldPID c deadline after s
      | CleanUp after \<Rightarrow> (loop_again after, exit_cleanup s))"

text \<open>A step of the goroutine in place \<open>i\<close>; one that ends leaves the list.\<close>

definition run_thread :: "unicode \<Rightarrow> step_input \<Rightarrow> launch_session \<Rightarrow> nat \<Rightarrow> core_manager \<Rightarrow> core_manager" where
  "run_thread U inp se i s =
     (if i < length (cm_threads s) then
        (case thread_step U inp se (cm_threads s ! i) s of
           (Some t, s1) \<Rightarrow> s1\<lparr>cm_threads := (cm_threads s1)[i := t]\<rparr>
         | (None, s1) \<Rightarrow> s1\<lparr>cm_threads := take i (cm_threads s1) @ drop (Suc i) (cm_threads s1)\<rparr>)
      else s)"

subsection \<open>The outside\<close>

definition core_prints :: "string \<Rightarrow> core_manager \<Rightarrow> core_manager" where
  "core_prints p s = s\<lparr>cm_launch := map_option (\<lambda>ml. ml\<lparr>ml_log := log_Write p (ml_log ml)\<rparr>) (cm_launch s)\<rparr>"

definition process_dies :: "int \<Rightarrow> core_manager \<Rightarrow> core_manager" where
  "process_dies pid s = s\<lparr>cm_alive := filter (\<lambda>p. p \<noteq> pid) (cm_alive s)\<rparr>"

definition process_appears :: "int \<Rightarrow> core_manager \<Rightarrow> core_manager" where
  "process_appears pid s = s\<lparr>cm_alive := cm_alive s @ [pid]\<rparr>"

text \<open>Any order of requests, steps of goroutines and events outside. A started process has a positive number.\<close>

inductive core_reach :: "unicode \<Rightarrow> core_manager \<Rightarrow> bool" for U :: unicode where
  New: "lw_dirs w = [] \<Longrightarrow> la_open la = 0 \<Longrightarrow> core_reach U (NewCoreManager w disk la)"
| Start: "core_reach U s \<Longrightarrow> 0 < si_pid inp \<Longrightarrow> core_reach U (snd (startCoreLocked U profile inp s))"
| Stop: "core_reach U s \<Longrightarrow> core_reach U (snd (stopCoreLocked s))"
| Restart: "core_reach U s \<Longrightarrow> 0 < si_pid inp \<Longrightarrow> core_reach U (snd (RestartCoreWithProfile U profile inp s))"
| Apply: "core_reach U s \<Longrightarrow> core_reach U (ApplyLaunchProfile profile options s)"
| Thread: "core_reach U s \<Longrightarrow> core_reach U (run_thread U inp se i s)"
| Prints: "core_reach U s \<Longrightarrow> core_reach U (core_prints p s)"
| Dies: "core_reach U s \<Longrightarrow> core_reach U (process_dies pid s)"
| Appears: "core_reach U s \<Longrightarrow> core_reach U (process_appears pid s)"
| Subscribed: "core_reach U s \<Longrightarrow> core_reach U (SubscribeEvents i n s)"
| Unsubscribed: "core_reach U s \<Longrightarrow> core_reach U (core_unsubscribe i s)"
| World: "core_reach U s \<Longrightarrow> lw_dirs w = lw_dirs (cm_world s) \<Longrightarrow> lw_nextDir w = lw_nextDir (cm_world s) \<Longrightarrow> core_reach U (s\<lparr>cm_world := w\<rparr>)"

section \<open>The state of the manager\<close>

text \<open>Nothing runs and nothing is held; and a core runs with everything that belongs to it.\<close>

definition core_off :: "core_manager \<Rightarrow> bool" where
  "core_off s = (\<not> cm_isRunning s \<and> \<not> cm_monitoring s \<and> cm_cmd s = None \<and> cm_controller s = None \<and> cm_launch s = None \<and> cm_pid s = 0 \<and>
     cm_stopChan s = None \<and> cm_controllers s = [] \<and> lw_dirs (cm_world s) = [] \<and> la_open (cm_launcher s) = 0)"

text \<open>The files that the command of a session holds open.\<close>

definition ml_files :: "managed_launch \<Rightarrow> int" where
  "ml_files ml = (case ml_command ml of None \<Rightarrow> 0 | Some c \<Rightarrow> command_files c)"

definition ml_ok :: "managed_launch \<Rightarrow> bool" where
  "ml_ok ml = (\<forall>c. ml_command ml = Some c \<longrightarrow> command_ok c)"

definition core_held :: "core_manager \<Rightarrow> bool" where
  "core_held s = (cm_isRunning s \<and> (\<exists>ml c. cm_launch s = Some ml \<and> cm_controller s = Some c \<and> cm_controllers s = [c] \<and>
     lw_dirs (cm_world s) = rev (se_dirs (ml_session ml)) \<and> la_open (cm_launcher s) = ml_files ml \<and> ml_ok ml))"

definition core_on :: "core_manager \<Rightarrow> bool" where
  "core_on s = (core_held s \<and> cm_monitoring s \<and> 0 < cm_pid s \<and> cm_stopChan s \<noteq> None)"

text \<open>Stop channels are closed at most once.\<close>

definition channels_ok :: "core_manager \<Rightarrow> bool" where
  "channels_ok s = (distinct (cm_closed s) \<and> (\<forall>c \<in> set (cm_closed s). c < cm_next s) \<and>
     (\<forall>c. cm_stopChan s = Some c \<longrightarrow> c \<notin> set (cm_closed s) \<and> c < cm_next s))"

lemma channels_upd [simp]:
  "channels_ok (s\<lparr>cm_isRunning := a\<rparr>) = channels_ok s" "channels_ok (s\<lparr>cm_monitoring := a\<rparr>) = channels_ok s"
  "channels_ok (s\<lparr>cm_world := w\<rparr>) = channels_ok s" "channels_ok (s\<lparr>cm_alive := l\<rparr>) = channels_ok s"
  "channels_ok (s\<lparr>cm_launcher := la\<rparr>) = channels_ok s" "channels_ok (s\<lparr>cm_controllers := cs\<rparr>) = channels_ok s" "channels_ok (s\<lparr>cm_threads := ts\<rparr>) = channels_ok s"
  by (simp_all add: channels_ok_def)

lemmas core_state_defs = core_off_def core_on_def core_held_def channels_ok_def

text \<open>Two states that agree on everything the invariant reads.\<close>

definition same_core :: "core_manager \<Rightarrow> core_manager \<Rightarrow> bool" where
  "same_core s s' = (cm_isRunning s' = cm_isRunning s \<and> cm_monitoring s' = cm_monitoring s \<and> cm_cmd s' = cm_cmd s \<and> cm_controller s' = cm_controller s \<and>
     cm_launch s' = cm_launch s \<and> cm_pid s' = cm_pid s \<and> cm_stopChan s' = cm_stopChan s \<and> cm_closed s' = cm_closed s \<and>
     cm_controllers s' = cm_controllers s \<and> cm_next s' = cm_next s \<and> lw_dirs (cm_world s') = lw_dirs (cm_world s) \<and>
     cm_launcher s' = cm_launcher s \<and> cm_threads s' = cm_threads s \<and> cm_pidPolling s' = cm_pidPolling s)"

lemma same_core_refl [simp, intro]: "same_core s s"
  by (simp add: same_core_def)

lemma same_core_trans [trans]: "same_core s s' \<Longrightarrow> same_core s' s'' \<Longrightarrow> same_core s s''"
  by (simp add: same_core_def)

lemma same_coreD:
  assumes "same_core s s'"
  shows "core_off s' = core_off s" "core_held s' = core_held s" "core_on s' = core_on s" "channels_ok s' = channels_ok s" "core_idle s' = core_idle s"
  using assms by (simp_all add: same_core_def core_state_defs core_idle_def)

lemma publish_same [simp]: "same_core s (publishCoreEvent ev s)"
  by (simp add: same_core_def publishCoreEvent_def Let_def)

lemma emit_same [simp]: "same_core s (emitCoreEvent a b c s)"
  by (simp add: emitCoreEvent_def)

lemma publish_alive [simp]: "cm_alive (publishCoreEvent ev s) = cm_alive s" "cm_alive (emitCoreEvent a b c s) = cm_alive s"
  by (simp_all add: publishCoreEvent_def emitCoreEvent_def Let_def)

lemma call_same [simp]: "same_core s (snd (cm_call s))"
  by (simp add: same_core_def cm_call_def case_prod_unfold)

lemma call_alive [simp]: "cm_alive (snd (cm_call s)) = cm_alive s"
  by (simp add: cm_call_def case_prod_unfold)

lemma kill_same [simp]: "same_core s (snd (kill_call d pid s))"
  using call_same [of s] by (auto simp: kill_call_def case_prod_unfold same_core_def)

lemma wait_same: "same_core s (snd (waitForUnixProcessExit pid n s))"
proof (induction n arbitrary: s)
  case (Suc n)
  then show ?case using call_same [of s] same_core_trans [OF call_same Suc] by (simp add: case_prod_unfold)
qed simp

lemma wait_gone: "waitForUnixProcessExit pid n s = (Inr True, s') \<Longrightarrow> pid \<notin> set (cm_alive s')"
  by (induction n arbitrary: s) (auto split: prod.splits if_splits)

lemma priority_same [simp]: "same_core s (snd (setProcessPriority p s))"
  using call_same [of s] by (simp add: setProcessPriority_def case_prod_unfold del: nice_of.simps split: option.split)

lemma stop_same [simp]: "same_core s (snd (controller_Stop pid s))"
proof -
  let ?s1 = "snd (kill_call False pid s)" and ?s2 = "snd (kill_call True pid (snd (kill_call False pid s)))"
  have "same_core s (snd (kill_call True pid ?s2))" using kill_same same_core_trans by blast
  then have "same_core s (snd (waitForUnixProcessExit pid 20 (snd (kill_call True pid ?s2))))" using wait_same same_core_trans by blast
  then show ?thesis by (auto simp: controller_Stop_def case_prod_unfold Let_def split: sum.split)
qed

lemma stop_gone: "0 < pid \<Longrightarrow> fst (controller_Stop pid s) = None \<Longrightarrow> pid \<notin> set (cm_alive (snd (controller_Stop pid s)))"
  by (auto simp: controller_Stop_def first_err_def Let_def dest!: wait_gone split: prod.splits sum.splits option.splits if_splits)

lemma stopProcess_same [simp]: "same_core s (snd (stopProcessLocked s))"
  by (simp add: stopProcessLocked_def)

lemma harden_same [simp]: "same_core s (snd (hardenLaunchControllerEndpoint s))"
  by (simp add: same_core_def hardenLaunchControllerEndpoint_def case_prod_unfold)

lemma secure_same [simp]: "same_core s (snd (secure_session se s))"
proof -
  obtain e w where e: "SecureBinary (se_executablePath se) (cm_world s) = (e, w)" by fastforce
  have "same_core s (s\<lparr>cm_world := w\<rparr>)" using secure_fields(1) [of "se_executablePath se" "cm_world s"] e by (simp add: same_core_def)
  then show ?thesis using same_core_trans [OF _ harden_same] e by (simp add: secure_session_def split: option.split)
qed

subsection \<open>Starting and stopping\<close>

lemma cleanup_dirs: "lw_dirs w = rev (se_dirs se) \<Longrightarrow> lw_dirs (session_cleanup se w) = []"
proof -
  have "lw_dirs (fold remove_dir ds w) = filter (\<lambda>d. d \<notin> set ds) (lw_dirs w)" for ds
    by (induction ds arbitrary: w) (auto simp: remove_dir_def intro: filter_cong)
  then show "lw_dirs w = rev (se_dirs se) \<Longrightarrow> ?thesis" by (simp add: session_cleanup_def)
qed

lemma signal_fields [simp]:
  "cm_isRunning (signalStopLocked s) = cm_isRunning s" "cm_monitoring (signalStopLocked s) = cm_monitoring s" "cm_cmd (signalStopLocked s) = cm_cmd s"
  "cm_controller (signalStopLocked s) = cm_controller s" "cm_launch (signalStopLocked s) = cm_launch s" "cm_pid (signalStopLocked s) = cm_pid s"
  "cm_stopChan (signalStopLocked s) = None" "cm_controllers (signalStopLocked s) = cm_controllers s" "cm_world (signalStopLocked s) = cm_world s"
  "cm_launcher (signalStopLocked s) = cm_launcher s"
  "cm_alive (signalStopLocked s) = cm_alive s" "cm_next (signalStopLocked s) = cm_next s" "cm_threads (signalStopLocked s) = cm_threads s"
  by (simp_all add: signalStopLocked_def split: option.split)

lemma signal_channels: "channels_ok s \<Longrightarrow> channels_ok (signalStopLocked s)"
  by (auto simp: channels_ok_def signalStopLocked_def split: option.split)

lemma cleanupLocked_fields [simp]:
  "cm_closed (cleanupLocked s) = cm_closed s" "cm_stopChan (cleanupLocked s) = cm_stopChan s" "cm_next (cleanupLocked s) = cm_next s"
  "cm_threads (cleanupLocked s) = cm_threads s" "cm_alive (cleanupLocked s) = cm_alive s" "cm_monitoring (cleanupLocked s) = cm_monitoring s"
  by (simp_all add: cleanupLocked_def Let_def cleanupNow_def closeProcessController_def split: option.split)

lemma cleanup_launcher: "la_open (cm_launcher s) = ml_files ml \<Longrightarrow> ml_ok ml \<Longrightarrow> la_open (cm_launcher (cleanupNow ml s)) = 0"
proof (cases "ml_command ml")
  case (Some c)
  obtain c' w' where "command_cleanupNow c (cm_launcher s) = (c', w')" by fastforce
  then show "la_open (cm_launcher s) = ml_files ml \<Longrightarrow> ml_ok ml \<Longrightarrow> ?thesis"
    using cleanupNow_files [of c "cm_launcher s" c' w'] Some by (simp add: ml_files_def ml_ok_def cleanupNow_def)
qed (simp add: ml_files_def cleanupNow_def)

lemma cleanup_fields [simp]:
  "cm_isRunning (cleanupNow ml s) = cm_isRunning s" "cm_monitoring (cleanupNow ml s) = cm_monitoring s" "cm_cmd (cleanupNow ml s) = cm_cmd s"
  "cm_controller (cleanupNow ml s) = cm_controller s" "cm_launch (cleanupNow ml s) = cm_launch s" "cm_pid (cleanupNow ml s) = cm_pid s"
  "cm_stopChan (cleanupNow ml s) = cm_stopChan s" "cm_closed (cleanupNow ml s) = cm_closed s" "cm_controllers (cleanupNow ml s) = cm_controllers s"
  "cm_next (cleanupNow ml s) = cm_next s" "cm_world (cleanupNow ml s) = session_cleanup (ml_session ml) (cm_world s)"
  by (simp_all add: cleanupNow_def)

lemma cleanupLocked_off: "core_held s \<Longrightarrow> \<not> cm_monitoring s \<Longrightarrow> cm_stopChan s = None \<Longrightarrow> core_off (cleanupLocked s)"
  by (auto simp: core_off_def core_held_def cleanupLocked_def Let_def closeProcessController_def cleanup_dirs cleanup_launcher)

lemma cleanupLocked_channels: "channels_ok s \<Longrightarrow> channels_ok (cleanupLocked s)"
  by (simp add: channels_ok_def)

text \<open>A start under way: the channel is made, nothing else is there yet.\<close>

definition core_starting :: "core_manager \<Rightarrow> bool" where
  "core_starting s = (cm_isRunning s \<and> \<not> cm_monitoring s \<and> cm_cmd s = None \<and> cm_controller s = None \<and> cm_launch s = None \<and> cm_pid s = 0 \<and>
     cm_stopChan s \<noteq> None \<and> cm_controllers s = [] \<and> lw_dirs (cm_world s) = [] \<and> la_open (cm_launcher s) = 0)"

lemma start_failed_off: "core_starting s \<Longrightarrow> core_off (snd (start_failed e s))"
proof -
  assume "core_starting s"
  then have "core_off ((signalStopLocked (s\<lparr>cm_monitoring := False\<rparr>))\<lparr>cm_isRunning := False\<rparr>)" by (simp add: core_starting_def core_off_def)
  then show ?thesis by (simp add: start_failed_def same_coreD [OF emit_same])
qed

lemma start_failed_channels: "channels_ok s \<Longrightarrow> channels_ok (snd (start_failed e s))"
  by (simp add: start_failed_def same_coreD [OF emit_same] signal_channels)

lemma teardown_off: "core_held s \<Longrightarrow> core_off (cleanupLocked (signalStopLocked (s\<lparr>cm_monitoring := False\<rparr>)))"
  by (rule cleanupLocked_off) (auto simp: core_held_def)

lemma teardown_channels: "channels_ok s \<Longrightarrow> channels_ok (cleanupLocked (signalStopLocked (s\<lparr>cm_monitoring := False\<rparr>)))"
  by (intro cleanupLocked_channels signal_channels) simp

lemma start_aborted_off: "core_held s \<Longrightarrow> core_off (snd (start_aborted e s))"
  by (simp add: start_aborted_def same_coreD [OF emit_same] same_coreD [OF stopProcess_same] teardown_off)

lemma start_aborted_channels: "channels_ok s \<Longrightarrow> channels_ok (snd (start_aborted e s))"
  by (simp add: start_aborted_def same_coreD [OF emit_same] same_coreD [OF stopProcess_same] teardown_channels)

text \<open>After the session is prepared and the controller made, a failure undoes both.\<close>

definition core_prepared :: "nat \<Rightarrow> managed_launch \<Rightarrow> core_manager \<Rightarrow> bool" where
  "core_prepared ctl ml s = (cm_isRunning s \<and> \<not> cm_monitoring s \<and> cm_cmd s = None \<and> cm_controller s = None \<and> cm_launch s = None \<and> cm_pid s = 0 \<and>
     cm_stopChan s \<noteq> None \<and> cm_controllers s = [ctl] \<and> lw_dirs (cm_world s) = rev (se_dirs (ml_session ml)) \<and>
     la_open (cm_launcher s) = ml_files ml \<and> ml_ok ml)"

lemma core_prepared_same: "same_core s s' \<Longrightarrow> core_prepared ctl ml s' = core_prepared ctl ml s"
  by (simp add: same_core_def core_prepared_def)

lemma prepared_failed:
  assumes "core_prepared ctl ml s"
  shows "core_off (snd (start_failed e (cleanupNow ml (closeProcessController ctl s))))"
proof (rule start_failed_off)
  have "la_open (cm_launcher (closeProcessController ctl s)) = ml_files ml" "ml_ok ml" using assms by (simp_all add: core_prepared_def closeProcessController_def)
  from cleanup_launcher [OF this] show "core_starting (cleanupNow ml (closeProcessController ctl s))"
    using assms by (simp add: core_prepared_def core_starting_def closeProcessController_def cleanup_dirs)
qed

lemma prepared_failed_channels:
  "channels_ok s \<Longrightarrow> channels_ok (snd (start_failed e (cleanupNow ml (closeProcessController ctl s))))"
  by (intro start_failed_channels) (simp add: cleanupNow_def closeProcessController_def channels_ok_def)

text \<open>A start either ends with a core that runs or with nothing at all.\<close>

lemma startProcess_prepared:
  assumes "prepareLaunchSession U (si_token inp) profile (si_access inp) (cm_world s) = (Inr se, w)" "core_starting s"
    and s1_def: "s1 = s\<lparr>cm_world := w, cm_next := cm_next s + 3, cm_controllers := cm_controllers s @ [cm_next s + 1]\<rparr>"
    and "ml_session ml = se" "ml_command ml = None"
  shows "core_prepared (cm_next s + 1) ml s1"
proof -
  have "dirs_ok (cm_world s)" using assms(2) by (simp add: dirs_ok_def core_starting_def)
  from prepare_session [OF assms(1) this] assms show ?thesis
    by (simp add: core_prepared_def core_starting_def ml_files_def ml_ok_def)
qed

definition start_ends :: "err option \<times> core_manager \<Rightarrow> bool" where
  "start_ends r = (case r of (None, s) \<Rightarrow> core_on s \<and> channels_ok s | (Some e, s) \<Rightarrow> core_off s \<and> channels_ok s)"

lemma start_failed_ends: "core_starting s \<Longrightarrow> channels_ok s \<Longrightarrow> start_ends (start_failed e s)"
  using start_failed_off [of s e] start_failed_channels [of s e] by (simp add: start_ends_def start_failed_def)

lemma prepared_failed_ends:
  "core_prepared ctl ml s \<Longrightarrow> channels_ok s \<Longrightarrow> start_ends (start_failed e (cleanupNow ml (closeProcessController ctl s)))"
  using prepared_failed [of ctl ml s e] prepared_failed_channels [of s e ml ctl] by (simp add: start_ends_def start_failed_def)

lemma start_aborted_ends: "core_held s \<Longrightarrow> channels_ok s \<Longrightarrow> start_ends (start_aborted e s)"
  using start_aborted_off [of s e] start_aborted_channels [of s e] by (simp add: start_ends_def start_aborted_def)

lemma await_startup_ends:
  assumes "core_prepared ctl ml s" "channels_ok s" "0 < si_pid inp"
  shows "start_ends (await_startup ml ctl cmd inp s)"
proof -
  let ?s5 = "snd (setProcessPriority (se_cpuPriority (ml_session ml)) s)"
  let ?s6 = "?s5\<lparr>cm_cmd := Some cmd, cm_controller := Some ctl, cm_launch := Some ml, cm_pid := si_pid inp, cm_startTime := si_now inp\<rparr>"
  have p: "core_prepared ctl ml ?s5" "channels_ok ?s5"
    using assms core_prepared_same [OF priority_same] same_coreD(4) [OF priority_same] by simp_all
  then have h: "core_held ?s6" "cm_stopChan ?s6 \<noteq> None" "channels_ok ?s6"
    by (auto simp: core_prepared_def core_held_def channels_ok_def)
  obtain r s7 where s7: "hardenLaunchControllerEndpoint ?s6 = (r, s7)" by fastforce
  have same: "same_core ?s6 s7" using harden_same [of ?s6] s7 by simp
  then have h7: "core_held s7" "channels_ok s7" and eq: "cm_pid s7 = si_pid inp" "cm_stopChan s7 \<noteq> None"
    using h same_coreD(2,4) [OF same] by (simp_all add: same_core_def)
  then have "core_on (s7\<lparr>cm_monitoring := True, cm_threads := ts\<rparr>)" for ts using assms(3) by (auto simp: core_on_def core_held_def)
  then have ok: "start_ends (None, emitCoreEvent ''started'' ''Core started'' None (s7\<lparr>cm_monitoring := True, cm_threads := ts\<rparr>))" for ts
    using h7 by (simp add: start_ends_def same_coreD [OF emit_same])
  show ?thesis
  proof (cases "waitForStartup (si_signals inp)")
    case None
    then show ?thesis using start_aborted_ends [OF h7] ok s7 by (cases r) (simp_all add: await_startup_def Let_def)
  next
    case (Some e)
    then show ?thesis using start_aborted_ends [OF h(1,3)] by (simp add: await_startup_def Let_def)
  qed
qed

lemma prepared_launcher:
  "core_prepared ctl ml s \<Longrightarrow> ml_command ml = None \<Longrightarrow> la_open la = 0 \<Longrightarrow> core_prepared ctl ml (s\<lparr>cm_launcher := la\<rparr>)"
  by (simp add: core_prepared_def ml_files_def ml_ok_def)

lemma prepared_command:
  "core_prepared ctl ml s \<Longrightarrow> la_open la = command_files c \<Longrightarrow> command_ok c \<Longrightarrow>
     core_prepared ctl (ml\<lparr>ml_command := Some c\<rparr>) (s\<lparr>cm_launcher := la, cm_alive := a\<rparr>)"
  by (simp add: core_prepared_def ml_files_def ml_ok_def)

lemma run_session_ends:
  assumes "core_prepared ctl ml s" "channels_ok s" "0 < si_pid inp" "ml_command ml = None"
  shows "start_ends (run_session U ml ctl cmd inp s)"
proof -
  let ?l = "newCoreLauncher U (cm_world s) (lp_Mode (se_profile (ml_session ml)))"
  obtain r la where 1: "launcher_Command ?l (si_launch inp) (lw_executable (cm_world s)) (ml_session ml) (cm_launcher s) = (r, la)" by fastforce
  note f = launcher_files [OF 1]
  have z: "la_open (cm_launcher s) = 0" using assms(1,4) by (simp add: core_prepared_def ml_files_def)
  show ?thesis
  proof (cases r)
    case (Inl e)
    then have "core_prepared ctl ml (s\<lparr>cm_launcher := la\<rparr>)" using prepared_launcher [OF assms(1,4)] f z by simp
    from prepared_failed_ends [OF this] assms(2) show ?thesis by (simp add: run_session_def 1 Inl)
  next
    case (Inr c)
    have c: "command_ok c" "la_open la = command_files c" using f Inr z by simp_all
    obtain e c' la' where 2: "command_start (li_status (si_launch inp)) c la = (e, c', la')" by (metis prod_cases3)
    note g = start_files [OF c(1) 2]
    show ?thesis
    proof (cases e)
      case (Some x)
      then have "core_prepared ctl ml (s\<lparr>cm_launcher := la'\<rparr>)" using prepared_launcher [OF assms(1,4)] g c by simp
      from prepared_failed_ends [OF this] assms(2) show ?thesis by (simp add: run_session_def 1 Inr 2 Some)
    next
      case None
      let ?ml = "ml\<lparr>ml_command := Some c'\<rparr>"
      let ?s4 = "s\<lparr>cm_launcher := la', cm_alive := cm_alive s @ [si_pid inp]\<rparr>"
      have p4: "core_prepared ctl ?ml ?s4" "channels_ok ?s4" using prepared_command [OF assms(1)] g c None assms(2) by simp_all
      obtain out3 s5 where 5: "cm_call ?s4 = (out3, s5)" by fastforce
      have same: "same_core ?s4 s5" using call_same [of ?s4] 5 by simp
      have p5: "core_prepared ctl ?ml s5" "channels_ok s5" using p4 core_prepared_same [OF same] same_coreD(4) [OF same] by simp_all
      have p6: "core_prepared ctl ?ml (snd (kill_call True (si_pid inp) s5))" "channels_ok (snd (kill_call True (si_pid inp) s5))"
        using p5 core_prepared_same [OF kill_same] same_coreD(4) [OF kill_same] by simp_all
      show ?thesis using prepared_failed_ends [OF p6] await_startup_ends [OF p5 assms(3)] by (simp add: run_session_def 1 Inr 2 None 5 Let_def)
    qed
  qed
qed

lemma startProcess_ends:
  assumes "core_starting s" "channels_ok s" "0 < si_pid inp"
  shows "start_ends (startProcessLocked U profile inp s)"
proof -
  obtain r w where p: "prepareLaunchSession U (si_token inp) profile (si_access inp) (cm_world s) = (r, w)" by fastforce
  show ?thesis
  proof (cases r)
    case (Inl e)
    have "dirs_ok (cm_world s)" using assms(1) by (simp add: dirs_ok_def core_starting_def)
    then have "lw_dirs w = []" using prepare_error [of U "si_token inp" profile "si_access inp" "cm_world s" e] p Inl assms(1) by (simp add: core_starting_def)
    then have "core_starting (s\<lparr>cm_world := w\<rparr>)" using assms(1) by (simp add: core_starting_def)
    then show ?thesis using start_failed_ends assms(2) p Inl by (simp add: startProcessLocked_def)
  next
    case (Inr se)
    let ?s1 = "s\<lparr>cm_world := w, cm_next := cm_next s + 3, cm_controllers := cm_controllers s @ [cm_next s + 1]\<rparr>"
    have "channels_ok ?s1" using assms(2) by (fastforce simp: channels_ok_def)
    with startProcess_prepared [OF p [unfolded Inr] assms(1) refl] show ?thesis
      using run_session_ends [of "cm_next s + 1" _ ?s1 inp] assms(3) p Inr by (simp add: startProcessLocked_def)
  qed
qed

text \<open>Both sides of the invariant, and every operation.\<close>

definition core_inv :: "core_manager \<Rightarrow> bool" where
  "core_inv s = ((core_on s \<or> core_off s) \<and> channels_ok s)"

lemma inv_same: "same_core s s' \<Longrightarrow> core_inv s' = core_inv s"
  by (simp add: core_inv_def same_coreD)

lemma inv_running: "core_inv s \<Longrightarrow> cm_isRunning s = core_on s \<and> (\<not> cm_isRunning s) = core_off s"
  by (auto simp: core_inv_def core_on_def core_off_def core_held_def)

lemma start_ends_core:
  assumes "core_inv s" "\<not> cm_isRunning s" "0 < si_pid inp"
  shows "start_ends (startCoreLocked U profile inp s)"
proof -
  let ?s1 = "emitCoreEvent ''starting'' ''Core is starting'' None (s\<lparr>cm_isRunning := True\<rparr>)"
  have "same_core (s\<lparr>cm_isRunning := True\<rparr>) ?s1" by simp
  moreover have "core_off s" "channels_ok s" using assms inv_running by (auto simp: core_inv_def)
  ultimately have "core_starting (?s1\<lparr>cm_stopChan := Some (cm_next ?s1), cm_next := cm_next ?s1 + 1\<rparr>)"
    "channels_ok (?s1\<lparr>cm_stopChan := Some (cm_next ?s1), cm_next := cm_next ?s1 + 1\<rparr>)"
    by (auto simp: core_starting_def core_off_def same_core_def channels_ok_def less_Suc_eq)
  from startProcess_ends [OF this assms(3)] show ?thesis using assms(2) by (simp add: startCoreLocked_def Let_def)
qed

lemma core_start_inv: "core_inv s \<Longrightarrow> 0 < si_pid inp \<Longrightarrow> core_inv (snd (startCoreLocked U profile inp s))"
proof (cases "cm_isRunning s")
  case False
  then show "core_inv s \<Longrightarrow> 0 < si_pid inp \<Longrightarrow> ?thesis"
    using start_ends_core [of s inp U profile] by (auto simp: start_ends_def core_inv_def split: prod.splits option.splits)
qed (simp add: startCoreLocked_def)

lemma stop_off:
  assumes "core_inv s"
  shows "core_off (snd (stopCoreLocked s)) \<and> channels_ok (snd (stopCoreLocked s))"
proof (cases "core_idle s")
  case True
  then show ?thesis using assms inv_running [OF assms] by (simp add: stopCoreLocked_def core_idle_def core_inv_def)
next
  case False
  then have on: "core_on s" using assms by (auto simp: core_inv_def core_off_def core_idle_def)
  let ?s0 = "emitCoreEvent ''stopping'' ''Core is stopping'' None s"
  let ?s1 = "signalStopLocked (?s0\<lparr>cm_monitoring := False\<rparr>)"
  have "core_held ?s0" "channels_ok ?s0" using on assms by (simp_all add: same_coreD [OF emit_same] core_on_def core_inv_def)
  then have h: "core_held ?s1" "channels_ok ?s1" "\<not> cm_monitoring ?s1" "cm_stopChan ?s1 = None"
    by (simp_all add: signal_channels) (simp add: core_held_def)
  obtain r s2 where s2: "stopProcessLocked ?s1 = (r, s2)" by fastforce
  have same: "same_core ?s1 s2" using stopProcess_same [of ?s1] s2 by simp
  then have "core_held s2" "channels_ok s2" "\<not> cm_monitoring s2" "cm_stopChan s2 = None"
    using h same_coreD(2,4) [OF same] by (simp_all add: same_core_def)
  then have "core_off (cleanupLocked s2)" "channels_ok (cleanupLocked s2)" by (simp_all add: cleanupLocked_off cleanupLocked_channels)
  then show ?thesis using False s2 by (cases r) (simp_all add: stopCoreLocked_def Let_def same_coreD [OF emit_same])
qed

lemma inv_idle: "core_inv s \<Longrightarrow> core_idle s = core_off s"
  by (auto simp: core_inv_def core_on_def core_held_def core_idle_def core_off_def)

lemma exit_cleanup_off: "core_inv s \<Longrightarrow> core_off (exit_cleanup s) \<and> channels_ok (exit_cleanup s)"
  using inv_idle [of s] teardown_off [of s] teardown_channels [of s] by (auto simp: exit_cleanup_def core_inv_def core_on_def)

lemma inv_cleanup: "core_inv s \<Longrightarrow> core_inv (exit_cleanup s)"
  using exit_cleanup_off by (simp add: core_inv_def)

subsection \<open>Goroutines\<close>

lemma find_best_pos: "0 \<le> fst best \<Longrightarrow> 0 \<le> fst (find_best U se oldPID best ps)"
  by (induction U se oldPID best ps rule: find_best.induct) (auto simp: Let_def)

lemma find_pos: "findManagedCorePID U se oldPID pids = Some p \<Longrightarrow> 0 < p"
proof -
  have "0 \<le> fst (find_best U se oldPID (0, 0) ps)" for ps by (simp add: find_best_pos)
  then show "findManagedCorePID U se oldPID pids = Some p \<Longrightarrow> 0 < p"
    by (auto simp: findManagedCorePID_def Let_def less_le split: option.splits if_splits)
qed

lemma take_over_on: "core_on s \<Longrightarrow> channels_ok s \<Longrightarrow> 0 < newPID \<Longrightarrow> core_inv (take_over inp newPID s)"
  by (auto simp: core_inv_def core_on_def core_held_def channels_ok_def take_over_def updateStartTimeFromPIDLocked_def startPIDPollingLocked_def split: option.splits)

lemma inv_monitoring: "core_inv s \<Longrightarrow> cm_monitoring s \<Longrightarrow> core_on s \<and> channels_ok s"
  by (auto simp: core_inv_def core_off_def)

lemma wait_exit_same: "same_core s (snd (wait_exit inp cmd pid s))"
  by (simp add: wait_exit_def)

lemma exiting_same: "snd (exiting inp deadline after s) = s"
  by (simp add: exiting_def split: option.split)

lemma notify_same: "snd (notify_step inp lid c s) = s"
  by (simp add: notify_step_def)

lemma poll_inv: "core_inv (snd (poll_step inp c s)) = core_inv s"
  by (simp add: poll_step_def core_inv_def core_on_def core_off_def core_held_def channels_ok_def)

lemma found_inv:
  assumes "core_inv s"
  shows "core_inv (snd (found U inp se oldPID c deadline after s))"
proof (cases "findManagedCorePID U se oldPID (in_pids inp)")
  case (Some p)
  obtain r s1 where s1: "secure_session se s = (r, s1)" by fastforce
  then have i: "core_inv s1" using inv_same [OF secure_same [of s se]] assms by simp
  show ?thesis
  proof (cases r)
    case None
    then show ?thesis using Some s1 i inv_monitoring [OF i] take_over_on [of s1 p inp] find_pos [OF Some]
      by (simp add: found_def Let_def inv_same [OF publish_same])
  qed (use Some s1 i inv_same [OF stop_same] in \<open>simp add: found_def\<close>)
qed (use assms in \<open>simp add: found_def\<close>)

lemma notify_found_inv:
  assumes "core_inv s"
  shows "core_inv (snd (notify_found U inp se oldPID ctl lid c s))"
proof -
  let ?s1 = "s\<lparr>cm_world := snd (SecureBinary (se_executablePath se) (cm_world s))\<rparr>"
  let ?s2 = "snd (hardenLaunchControllerEndpoint ?s1)"
  have "same_core s ?s1" by (simp add: same_core_def)
  then have i: "core_inv ?s2" using assms inv_same harden_same by blast
  have pos: "0 < p" if "p = (case ctl of None \<Rightarrow> oldPID | Some _ \<Rightarrow> (case findManagedCorePID U se oldPID (in_pids inp) of None \<Rightarrow> oldPID | Some p \<Rightarrow> p))"
    "p \<noteq> oldPID" for p using that find_pos by (auto split: option.splits)
  show ?thesis using i inv_monitoring [OF i] take_over_on [of ?s2 _ inp] pos
    by (simp add: notify_found_def Let_def inv_same [OF publish_same] del: same_core_refl)
qed

lemma thread_inv: "core_inv s \<Longrightarrow> core_inv (snd (thread_step U inp se t s))"
  using found_inv notify_found_inv
  by (simp add: thread_step_def exiting_same notify_same poll_inv inv_same [OF wait_exit_same] inv_cleanup split: thread.split)

lemma inv_upd [simp]:
  "core_inv (s\<lparr>cm_threads := ts\<rparr>) = core_inv s" "core_inv (s\<lparr>cm_alive := l\<rparr>) = core_inv s" "core_inv (s\<lparr>cm_hub := h\<rparr>) = core_inv s"
  by (simp_all add: core_inv_def core_state_defs)

lemma run_thread_inv: "core_inv s \<Longrightarrow> core_inv (run_thread U inp se i s)"
  using thread_inv [of s U inp se "cm_threads s ! i"] by (auto simp: run_thread_def split: prod.split option.split)

lemma ml_session_upd [simp]: "ml_files (ml\<lparr>ml_session := x\<rparr>) = ml_files ml" "ml_ok (ml\<lparr>ml_session := x\<rparr>) = ml_ok ml"
  "ml_files (ml\<lparr>ml_log := l\<rparr>) = ml_files ml" "ml_ok (ml\<lparr>ml_log := l\<rparr>) = ml_ok ml"
  by (simp_all add: ml_files_def ml_ok_def)

lemma core_apply_inv: "core_inv s \<Longrightarrow> core_inv (ApplyLaunchProfile profile options s)"
  by (auto simp: ApplyLaunchProfile_def core_inv_def core_state_defs Let_def split: option.split)

lemma prints_inv: "core_inv s \<Longrightarrow> core_inv (core_prints p s)"
  by (auto simp: core_prints_def core_inv_def core_state_defs)

lemma core_reach_inv: "core_reach U s \<Longrightarrow> core_inv s"
proof (induction rule: core_reach.induct)
  case (New w disk)
  then show ?case by (simp add: core_inv_def core_off_def channels_ok_def NewCoreManager_def)
next
  case (Restart s inp profile)
  have "core_inv (emitCoreEvent ''restarting'' ''Core is restarting'' None s)" using Restart.IH inv_same [OF emit_same] by simp
  from stop_off [OF this] have "core_inv (snd (stopCoreLocked (emitCoreEvent ''restarting'' ''Core is restarting'' None s)))" by (simp add: core_inv_def)
  from core_start_inv [OF this Restart.hyps(2)] show ?case by (simp add: RestartCoreWithProfile_def)
next
  case (Stop s)
  then show ?case using stop_off by (simp add: core_inv_def)
next
  case (World s w)
  then show ?case by (simp add: core_inv_def core_state_defs)
qed (simp_all add: core_start_inv core_apply_inv run_thread_inv prints_inv process_dies_def process_appears_def SubscribeEvents_def core_unsubscribe_def Let_def)

subsection \<open>The watcher of a process\<close>

lemma run_thread_eq:
  assumes "i < length (cm_threads s)" "thread_step U inp se (cm_threads s ! i) s = (Some t, s1)"
  shows "run_thread U inp se i s = s1\<lparr>cm_threads := (cm_threads s1)[i := t]\<rparr>"
  using assms by (simp add: run_thread_def)

text \<open>While nothing takes over, two steps of a watcher that looks for a new process change nothing.\<close>

lemma waiting_pair:
  assumes "core_on s" "i < length (cm_threads s)" "cm_threads s ! i = Exiting deadline after" "in_now a < deadline" "in_pids b = Some []"
  shows "run_thread U b se i (run_thread U a se i s) = s"
proof -
  obtain ml c where h: "cm_launch s = Some ml" "cm_controller s = Some c" "cm_monitoring s" "cm_isRunning s"
    using assms(1) by (auto simp: core_on_def core_held_def)
  have 1: "run_thread U a se i s = s\<lparr>cm_threads := (cm_threads s)[i := Found (cm_pid s) c (ml_id ml) deadline after]\<rparr>"
    by (rule run_thread_eq [OF assms(2)]) (use assms h in \<open>simp add: thread_step_def exiting_def\<close>)
  let ?s1 = "s\<lparr>cm_threads := (cm_threads s)[i := Found (cm_pid s) c (ml_id ml) deadline after]\<rparr>"
  have "run_thread U b se i ?s1 = ?s1\<lparr>cm_threads := (cm_threads ?s1)[i := Exiting deadline after]\<rparr>"
    by (rule run_thread_eq) (use assms in \<open>simp_all add: thread_step_def found_def findManagedCorePID_def\<close>)
  also have "\<dots> = s" using assms(2,3) by (simp add: list_update_same_conv)
  finally show ?thesis using 1 by simp
qed

lemma waiting:
  assumes "core_on s" "i < length (cm_threads s)" "cm_threads s ! i = Exiting deadline after"
    and "even (length inps)" "\<forall>inp \<in> set inps. in_now inp < deadline \<and> in_pids inp = Some []"
  shows "fold (\<lambda>inp. run_thread U inp se i) inps s = s"
  using assms(4,5)
proof (induction inps rule: induct_list012)
  case (3 a b inps)
  then show ?case using waiting_pair [OF assms(1-3), of a b U se] by simp
qed simp_all

text \<open>After the time is over the watcher takes everything down, whatever runs by then.\<close>

lemma watcher_cleans:
  assumes "core_inv s" "i < length (cm_threads s)" "cm_threads s ! i = Exiting deadline after" "deadline \<le> in_now a"
  shows "core_off (run_thread U b se i (run_thread U a se i s)) \<and> cm_alive (run_thread U b se i (run_thread U a se i s)) = cm_alive s"
proof -
  have 1: "run_thread U a se i s = s\<lparr>cm_threads := (cm_threads s)[i := CleanUp after]\<rparr>"
    by (rule run_thread_eq [OF assms(2)]) (use assms in \<open>simp add: thread_step_def exiting_def\<close>)
  let ?s1 = "s\<lparr>cm_threads := (cm_threads s)[i := CleanUp after]\<rparr>"
  have "core_off (exit_cleanup ?s1)" using exit_cleanup_off [of ?s1] assms(1) by simp
  moreover have "core_off (s'\<lparr>cm_threads := ts\<rparr>) = core_off s'" for s' ts by (simp add: core_off_def)
  moreover have "cm_alive (exit_cleanup ?s1) = cm_alive s" by (simp add: exit_cleanup_def)
  ultimately show ?thesis unfolding 1 using assms(2)
    by (cases after) (simp_all add: run_thread_def thread_step_def loop_again_def)
qed

lemma exit_seen:
  assumes "core_inv s" "i < length (cm_threads s)" "cm_threads s ! i = WaitExit cmd pid" "cm_cmd s = Some cmd" "pid \<notin> set (cm_alive s)"
    and s'_def: "s' = run_thread U inp se i s"
  shows "core_on s' \<and> core_inv s' \<and> i < length (cm_threads s') \<and> cm_threads s' ! i = Exiting (in_now inp + takeoverGracePeriod) None \<and>
    cm_alive s' = cm_alive s \<and> ce_Type (hb_last (cm_hub s')) = ''exited''"
proof -
  have on: "core_on s" using assms(1,4) by (auto simp: core_inv_def core_off_def)
  let ?e = "publishCoreEvent (newCoreEvent ''exited'' ''Core process exited'' (in_exit inp) pid 0 s) s"
  have s': "s' = ?e\<lparr>cm_threads := (cm_threads ?e)[i := Exiting (in_now inp + takeoverGracePeriod) None]\<rparr>"
    unfolding s'_def by (rule run_thread_eq [OF assms(2)]) (use assms on in \<open>simp add: thread_step_def wait_exit_def core_on_def\<close>)
  have "core_on ?e" "core_inv ?e" using on assms(1) by (simp_all add: same_coreD [OF publish_same] inv_same [OF publish_same])
  moreover have "cm_threads ?e = cm_threads s" using publish_same [of s "newCoreEvent ''exited'' ''Core process exited'' (in_exit inp) pid 0 s"]
    by (simp add: same_core_def)
  moreover have "core_on (x\<lparr>cm_threads := ts\<rparr>) = core_on x" for x ts by (simp add: core_on_def core_held_def)
  moreover have "ce_Type (hb_last (cm_hub ?e)) = ''exited''" by (simp add: publishCoreEvent_def newCoreEvent_def Let_def)
  ultimately show ?thesis using assms(1,2) s' by simp
qed

subsection \<open>What a start leaves in the manager\<close>

lemma await_startup_success:
  assumes "await_startup ml ctl cmd inp s = (None, s')"
  shows "cm_pid s' = si_pid inp \<and> cm_alive s' = cm_alive (snd (setProcessPriority (se_cpuPriority (ml_session ml)) s)) \<and> (\<exists>ts. cm_threads s' = cm_threads s @ ts)"
proof -
  let ?s5 = "snd (setProcessPriority (se_cpuPriority (ml_session ml)) s)"
  let ?s6 = "?s5\<lparr>cm_cmd := Some cmd, cm_controller := Some ctl, cm_launch := Some ml, cm_pid := si_pid inp, cm_startTime := si_now inp\<rparr>"
  obtain r s7 where s7: "hardenLaunchControllerEndpoint ?s6 = (r, s7)" by fastforce
  have "same_core ?s6 s7" "same_core s ?s5" using harden_same [of ?s6] s7 by simp_all
  moreover have "cm_alive s7 = cm_alive ?s5" using s7 by (auto simp: hardenLaunchControllerEndpoint_def split: prod.splits)
  moreover have "s' = emitCoreEvent ''started'' ''Core started'' None (s7\<lparr>cm_monitoring := True,
      cm_threads := cm_threads s7 @ [WaitExit cmd (si_pid inp)] @ (case cm_stopChan s7 of None \<Rightarrow> [] | Some c \<Rightarrow> [Notify (ml_id ml) c])\<rparr>)"
    using assms s7 by (auto simp: await_startup_def Let_def start_aborted_def split: option.splits)
  ultimately show ?thesis
    using emit_same [of "s7\<lparr>cm_monitoring := True,
      cm_threads := cm_threads s7 @ [WaitExit cmd (si_pid inp)] @ (case cm_stopChan s7 of None \<Rightarrow> [] | Some c \<Rightarrow> [Notify (ml_id ml) c])\<rparr>" "''started''" "''Core started''" None]
    by (simp add: same_core_def)
qed

lemma priority_alive [simp]: "cm_alive (snd (setProcessPriority p s)) = cm_alive s"
  by (simp add: setProcessPriority_def case_prod_unfold del: nice_of.simps split: option.split)

lemma run_session_success:
  assumes "run_session U ml ctl cmd inp s = (None, s')"
  shows "cm_pid s' = si_pid inp \<and> cm_alive s' = cm_alive s @ [si_pid inp] \<and> (\<exists>ts. cm_threads s' = cm_threads s @ ts)"
proof -
  let ?l = "newCoreLauncher U (cm_world s) (lp_Mode (se_profile (ml_session ml)))"
  obtain r la where 1: "launcher_Command ?l (si_launch inp) (lw_executable (cm_world s)) (ml_session ml) (cm_launcher s) = (r, la)" by fastforce
  with assms obtain c where c: "r = Inr c" by (cases r) (simp_all add: run_session_def start_failed_def)
  obtain e c' la' where 2: "command_start (li_status (si_launch inp)) c la = (e, c', la')" by (metis prod_cases3)
  with assms 1 c have e: "e = None" by (cases e) (simp_all add: run_session_def start_failed_def)
  let ?s4 = "s\<lparr>cm_launcher := la', cm_alive := cm_alive s @ [si_pid inp]\<rparr>"
  obtain out3 s5 where 5: "cm_call ?s4 = (out3, s5)" by fastforce
  have "await_startup (ml\<lparr>ml_command := Some c'\<rparr>) ctl cmd inp s5 = (None, s')"
    using assms 1 c 2 e 5 by (auto simp: run_session_def start_failed_def Let_def split: if_splits)
  moreover have "cm_alive s5 = cm_alive s @ [si_pid inp]" using call_alive [of ?s4, unfolded 5] by simp
  moreover have "cm_threads s5 = cm_threads s" using call_same [of ?s4] 5 by (simp add: same_core_def)
  ultimately show ?thesis using await_startup_success [of "ml\<lparr>ml_command := Some c'\<rparr>" ctl cmd inp s5 s'] by simp
qed

lemma start_success:
  assumes "startCoreLocked U profile inp s = (None, s')"
  shows "cm_pid s' = si_pid inp \<and> cm_alive s' = cm_alive s @ [si_pid inp] \<and> (\<exists>ts. cm_threads s' = cm_threads s @ ts)"
proof -
  let ?s1 = "emitCoreEvent ''starting'' ''Core is starting'' None (s\<lparr>cm_isRunning := True\<rparr>)"
  let ?s2 = "?s1\<lparr>cm_stopChan := Some (cm_next ?s1), cm_next := cm_next ?s1 + 1\<rparr>"
  have s: "startProcessLocked U profile inp ?s2 = (None, s')" using assms by (simp add: startCoreLocked_def Let_def split: if_splits)
  obtain r w where p: "prepareLaunchSession U (si_token inp) profile (si_access inp) (cm_world ?s2) = (r, w)" by fastforce
  with s obtain se where se: "r = Inr se" by (cases r) (simp_all add: startProcessLocked_def start_failed_def)
  have "cm_threads ?s2 = cm_threads s" "cm_alive ?s2 = cm_alive s"
    using emit_same [of "s\<lparr>cm_isRunning := True\<rparr>" "''starting''" "''Core is starting''" None] by (simp_all add: same_core_def)
  with run_session_success [OF s [unfolded startProcessLocked_def p prod.case se sum.case]] show ?thesis by simp
qed

lemma stop_threads: "cm_threads (snd (stopCoreLocked s)) = cm_threads s"
proof (cases "core_idle s")
  case False
  let ?s0 = "emitCoreEvent ''stopping'' ''Core is stopping'' None s"
  let ?s1 = "signalStopLocked (?s0\<lparr>cm_monitoring := False\<rparr>)"
  obtain r s2 where s2: "stopProcessLocked ?s1 = (r, s2)" by fastforce
  have "cm_threads ?s0 = cm_threads s" using emit_same [of s] by (simp add: same_core_def)
  then have "cm_threads s2 = cm_threads s" using stopProcess_same [of ?s1] s2 by (simp add: same_core_def)
  moreover have "cm_threads (emitCoreEvent a b c x) = cm_threads x" for a b c x using emit_same [of x] by (simp add: same_core_def)
  ultimately show ?thesis using False s2 by (cases r) (simp_all add: stopCoreLocked_def Let_def)
qed (simp add: stopCoreLocked_def)

lemma restart_success:
  assumes "RestartCoreWithProfile U profile inp s = (None, s')"
  shows "cm_pid s' = si_pid inp \<and> si_pid inp \<in> set (cm_alive s') \<and> (\<exists>ts. cm_threads s' = cm_threads s @ ts)"
proof -
  let ?s0 = "emitCoreEvent ''restarting'' ''Core is restarting'' None s"
  have "cm_threads ?s0 = cm_threads s" using emit_same [of s] by (simp add: same_core_def)
  then have "cm_threads (snd (stopCoreLocked ?s0)) = cm_threads s" using stop_threads [of ?s0] by simp
  then show ?thesis using start_success [OF assms [unfolded RestartCoreWithProfile_def]] by auto
qed

text \<open>
  The watcher of a process that died does not know whose core it takes down. When the core is restarted
  within the ten seconds in which it looks for a successor, it takes the new core down: the manager then
  holds nothing while the new process is alive.
\<close>

lemma stale_watcher:
  assumes "core_reach U s" "i < length (cm_threads s)" "cm_threads s ! i = WaitExit cmd pid" "cm_cmd s = Some cmd" "pid \<notin> set (cm_alive s)"
    and "0 < si_pid inp" "RestartCoreWithProfile U profile inp (run_thread U first se i s) = (None, s4)" "in_now first + takeoverGracePeriod \<le> in_now late"
  shows "cm_pid s4 = si_pid inp \<and> core_on s4 \<and> core_off (run_thread U later se i (run_thread U late se i s4)) \<and>
    si_pid inp \<in> set (cm_alive (run_thread U later se i (run_thread U late se i s4)))"
proof -
  let ?s3 = "run_thread U first se i s"
  note e = exit_seen [OF core_reach_inv [OF assms(1)] assms(2-5) refl, of U first se]
  have r: "core_inv s4" using core_reach_inv [OF core_reach.Restart [OF core_reach.Thread [OF assms(1)] assms(6)]] assms(7) by (metis snd_conv)
  obtain ts where ts: "cm_threads s4 = cm_threads ?s3 @ ts" "cm_pid s4 = si_pid inp" "si_pid inp \<in> set (cm_alive s4)" using restart_success [OF assms(7)] by blast
  have i: "i < length (cm_threads s4)" "cm_threads s4 ! i = Exiting (in_now first + takeoverGracePeriod) None" using e ts(1) by (simp_all add: nth_append)
  have "core_on s4" using r ts(2) assms(6) by (auto simp: core_inv_def core_off_def)
  then show ?thesis using watcher_cleans [OF r i assms(8), of U later se] ts by simp
qed

subsection \<open>An example\<close>

definition toy_core_start :: "int \<Rightarrow> start_input" where
  "toy_core_start pid = \<lparr>si_token = ''t'', si_access = \<lparr>fa_groupID = 0, fa_ok = False\<rparr>, si_launch = (toy_launch_input NoAnswer)\<lparr>li_euid := 1\<rparr>, si_pid = pid, si_signals = [Ready None, GraceOver], si_now = 0\<rparr>"

definition toy_step :: "int \<Rightarrow> step_input" where
  "toy_step now = \<lparr>in_now = now, in_pids = Some [], in_exists = None, in_stop = False, in_exit = None, in_created = None\<rparr>"

definition toy_core :: core_manager where
  "toy_core = NewCoreManager toy_launch_world (\<lambda>_. []) toy_launcher"

lemma call_good: "lw_io (cm_world s) = [] \<Longrightarrow> cm_call s = (Done, s)"
  by (simp add: cm_call_def lw_call_def)

lemma attempts_good [simp]: "harden_attempts n [] = (True, [])"
  by (cases n) simp_all

lemma harden_good: "lw_io (cm_world s) = [] \<Longrightarrow> hardenLaunchControllerEndpoint s = (None, s)"
  by (simp add: hardenLaunchControllerEndpoint_def)

lemma emit_world [simp]: "cm_world (emitCoreEvent a b c s) = cm_world s" "cm_next (emitCoreEvent a b c s) = cm_next s" "cm_threads (emitCoreEvent a b c s) = cm_threads s"
  "cm_cmd (emitCoreEvent a b c s) = cm_cmd s" "cm_stopChan (emitCoreEvent a b c s) = cm_stopChan s" "cm_pid (emitCoreEvent a b c s) = cm_pid s"
  "cm_launcher (emitCoreEvent a b c s) = cm_launcher s" "cm_alive (emitCoreEvent a b c s) = cm_alive s"
  by (simp_all add: emitCoreEvent_def publishCoreEvent_def Let_def)

lemma priority_good: "lw_io (cm_world s) = [] \<Longrightarrow> snd (setProcessPriority p s) = s"
  by (simp add: setProcessPriority_def call_good del: nice_of.simps split: option.split)

lemma toy_direct:
  assumes "li_euid inp \<noteq> 0" "mode \<noteq> CoreRunModeSandbox" "sb_ios (la_sandbox la) = []" "la_probe la = None"
  shows "\<exists>la' la''. launcher_Command (newCoreLauncher U w mode) inp x se la = (Inr direct_command, la') \<and> command_start st direct_command la' = (None, direct_command, la'')"
proof -
  have p: "Probe inp x la = (Some (Plain ''Root privileges are required''), la\<lparr>la_probe := Some (Some (Plain ''Root privileges are required''))\<rparr>)"
    using assms(1,4) by (simp add: Probe_def runProbe_def)
  have c: "\<exists>la''. command_start st direct_command l = (None, direct_command, la'')" if "sb_ios (la_sandbox l) = []" for l
    using that by (simp add: command_start_def startAttempt_def la_call_def call_nil direct_command_def)
  show ?thesis
    using c assms(2,3) by (auto simp: newCoreLauncher_def launcher_Command_def p)
qed

lemma toy_starts:
  assumes "\<not> cm_isRunning s" "lw_io (cm_world s) = []" "lw_stat (cm_world s) = (\<lambda>_. Regular)" "sb_ios (la_sandbox (cm_launcher s)) = []" "la_probe (cm_launcher s) = None"
    and "resolveLaunchProfile ascii_only po (cm_world s) = (Inr (toy_profile\<lparr>lp_Mode := ''auto''\<rparr>), cm_world s)"
  shows "\<exists>s'. startCoreLocked ascii_only po ((toy_core_start pid)\<lparr>si_access := access\<rparr>) s = (None, s') \<and> cm_cmd s' = Some (cm_next s + 3) \<and> cm_pid s' = pid \<and>
    cm_alive s' = cm_alive s @ [pid] \<and> (\<exists>ts. cm_threads s' = cm_threads s @ WaitExit (cm_next s + 3) pid # ts)"
proof -
  obtain se w where p: "prepareLaunchSession ascii_only ''t'' po access (cm_world s) = (Inr se, w)" and w: "lw_io w = []"
    and m: "se_profile se = toy_profile\<lparr>lp_Mode := ''auto''\<rparr>"
    using toy_prepares [OF assms(2,3,6), of "''t''" access] by blast
  let ?i = "(toy_launch_input NoAnswer)\<lparr>li_euid := 1\<rparr>"
  obtain la la' where l: "launcher_Command (newCoreLauncher ascii_only w ''auto'') ?i (lw_executable w) se (cm_launcher s) = (Inr direct_command, la)"
    "command_start (li_status ?i) direct_command la = (None, direct_command, la')"
    using toy_direct [of ?i "''auto''" "cm_launcher s" ascii_only w "lw_executable w" se "li_status ?i"] assms(4,5) by (auto simp: CoreRunModeSandbox_def)
  let ?s0 = "emitCoreEvent ''starting'' ''Core is starting'' None (s\<lparr>cm_isRunning := True\<rparr>)"
  show ?thesis
    using assms(1) p w m l
    by (simp add: startCoreLocked_def startProcessLocked_def toy_core_start_def run_session_def call_good await_startup_def priority_good harden_good Let_def)
qed

lemma toy_core_reach: "core_reach ascii_only toy_core"
  unfolding toy_core_def by (rule core_reach.New) (simp_all add: toy_launcher_def toy_sandbox_def la_open_def)

lemma toy_core_simps [simp]: "\<not> cm_isRunning toy_core" "lw_io (cm_world toy_core) = []" "lw_stat (cm_world toy_core) = (\<lambda>_. Regular)"
  "cm_threads toy_core = []" "cm_alive toy_core = []" "cm_next toy_core = 0"
  "sb_ios (la_sandbox (cm_launcher toy_core)) = []" "la_probe (cm_launcher toy_core) = None"
  by (simp_all add: toy_core_def NewCoreManager_def toy_launcher_def toy_sandbox_def)

lemma toy_core_running:
  "\<exists>s ts. startCoreLocked ascii_only (Some toy_profile) (toy_core_start 7) toy_core = (None, s) \<and> core_reach ascii_only s \<and>
     cm_cmd s = Some 3 \<and> cm_pid s = 7 \<and> cm_alive s = [7] \<and> cm_threads s = WaitExit 3 7 # ts"
proof -
  obtain s ts where s: "startCoreLocked ascii_only (Some toy_profile) (toy_core_start 7) toy_core = (None, s)" "cm_cmd s = Some 3" "cm_pid s = 7" "cm_alive s = [7]"
    "cm_threads s = WaitExit 3 7 # ts" using toy_starts [where s = toy_core and po = "Some toy_profile" and pid = 7 and access = "si_access (toy_core_start 7)"] toy_resolves(1) [of "cm_world toy_core"] by auto
  have "core_reach ascii_only (snd (startCoreLocked ascii_only (Some toy_profile) (toy_core_start 7) toy_core))"
    by (rule core_reach.Start [OF toy_core_reach]) (simp add: toy_core_start_def)
  with s show ?thesis by simp
qed

section \<open>Properties\<close>

text \<open>
  C29. The state of the manager is always whole. In every order of starts, stops, restarts, profile changes
  and steps of the goroutines, either nothing is held (no process, no controller, no session, no temporary
  directory, no open stop channel) or all of it is there and belongs to one running core; and no stop
  channel is closed twice.
\<close>

theorem core_state_whole:
  assumes "core_reach U s"
  shows "(core_on s \<or> core_off s) \<and> channels_ok s"
  using core_reach_inv [OF assms] by (simp add: core_inv_def)

theorem core_state_whole_witness: "(core_on toy_core \<or> core_off toy_core) \<and> channels_ok toy_core"
  using core_state_whole [OF toy_core_reach] .

text \<open>
  C30. A start is all or nothing: when nothing runs, it either succeeds and the manager holds the process it
  started, or it fails, at whatever step, and the manager holds nothing: the session, its directories and
  its controller are gone.
\<close>

theorem core_start_whole:
  assumes "core_reach U s" "\<not> cm_isRunning s" "0 < si_pid inp"
  shows "case startCoreLocked U profile inp s of
      (None, s') \<Rightarrow> core_on s' \<and> cm_pid s' = si_pid inp \<and> si_pid inp \<in> set (cm_alive s')
    | (Some e, s') \<Rightarrow> core_off s'"
  using start_ends_core [OF core_reach_inv [OF assms(1)] assms(2,3), of U profile] start_success [of U profile inp s]
  by (auto simp: start_ends_def split: prod.splits option.splits)

theorem core_start_whole_witness: "\<exists>s. startCoreLocked ascii_only (Some toy_profile) (toy_core_start 7) toy_core = (None, s) \<and> core_on s \<and> cm_pid s = 7"
proof -
  obtain s where s: "startCoreLocked ascii_only (Some toy_profile) (toy_core_start 7) toy_core = (None, s)" using toy_core_running by blast
  have "0 < si_pid (toy_core_start 7)" by (simp add: toy_core_start_def)
  from core_start_whole [OF toy_core_reach _ this, of "Some toy_profile"] s show ?thesis by (simp add: toy_core_start_def)
qed

text \<open>
  A stop leaves nothing: whatever the calls answer, the manager holds nothing afterwards; and when the
  stop reports success the process it held is gone.
\<close>

theorem core_stop_clean:
  assumes "core_reach U s"
  shows "core_off (snd (stopCoreLocked s)) \<and>
    (fst (stopCoreLocked s) = None \<longrightarrow> 0 < cm_pid s \<longrightarrow> cm_pid s \<notin> set (cm_alive (snd (stopCoreLocked s))))"
proof -
  let ?s0 = "emitCoreEvent ''stopping'' ''Core is stopping'' None s"
  let ?s1 = "signalStopLocked (?s0\<lparr>cm_monitoring := False\<rparr>)"
  have inv: "core_inv s" using core_reach_inv [OF assms] .
  have "cm_pid s \<notin> set (cm_alive (snd (stopCoreLocked s)))" if "fst (stopCoreLocked s) = None" "0 < cm_pid s"
  proof -
    have off: "\<not> core_idle s" using that(2) by (simp add: core_idle_def)
    have c: "cm_controller ?s1 \<noteq> None" "cm_pid ?s1 = cm_pid s"
      using inv that(2) emit_same [of s "''stopping''" "''Core is stopping''" None] by (auto simp: core_inv_def core_on_def core_held_def core_off_def same_core_def)
    then have sp: "stopProcessLocked ?s1 = controller_Stop (cm_pid s) ?s1" using that(2) by (auto simp: stopProcessLocked_def)
    obtain r s2 where s2: "controller_Stop (cm_pid s) ?s1 = (r, s2)" by fastforce
    have "r = None" using that(1) off s2 sp by (cases r) (simp_all add: stopCoreLocked_def Let_def)
    then show ?thesis using stop_gone [OF that(2), of ?s1] s2 sp off by (simp add: stopCoreLocked_def Let_def)
  qed
  then show ?thesis using stop_off [OF inv] by blast
qed

theorem core_stop_clean_witness:
  "\<exists>s. startCoreLocked ascii_only (Some toy_profile) (toy_core_start 7) toy_core = (None, s) \<and> core_off (snd (stopCoreLocked s))"
proof -
  obtain s where "startCoreLocked ascii_only (Some toy_profile) (toy_core_start 7) toy_core = (None, s)" "core_reach ascii_only s" using toy_core_running by blast
  then show ?thesis using core_stop_clean [of ascii_only s] by blast
qed

text \<open>
  C31. A crash is cleaned up: once the process of the running core is dead, the goroutine that waits for it
  reports the exit, looks for a successor as long as the grace period lasts, and when there is none it leaves
  the manager with nothing.
\<close>

theorem core_crash_cleaned:
  assumes "core_reach U s" "i < length (cm_threads s)" "cm_threads s ! i = WaitExit cmd pid" "cm_cmd s = Some cmd" "pid \<notin> set (cm_alive s)"
    and "even (length waits)" "\<forall>inp \<in> set waits. in_now inp < in_now first + takeoverGracePeriod \<and> in_pids inp = Some []"
    and "in_now first + takeoverGracePeriod \<le> in_now late"
  shows "ce_Type (hb_last (cm_hub (run_thread U first se i s))) = ''exited'' \<and>
    core_off (fold (\<lambda>inp. run_thread U inp se i) ([first] @ waits @ [late, later]) s)"
proof -
  note e = exit_seen [OF core_reach_inv [OF assms(1)] assms(2-5) refl, of U first se]
  then have "fold (\<lambda>inp. run_thread U inp se i) waits (run_thread U first se i s) = run_thread U first se i s"
    using waiting [OF _ _ _ assms(6,7), of _ i None U se] by blast
  then show ?thesis using e watcher_cleans [of "run_thread U first se i s" i _ None late U later se] assms(8) by simp
qed

theorem core_crash_cleaned_witness:
  "\<exists>s se. startCoreLocked ascii_only (Some toy_profile) (toy_core_start 7) toy_core = (None, s) \<and>
     core_off (fold (\<lambda>inp. run_thread ascii_only inp se 0) [toy_step 0, toy_step 1, toy_step 2, toy_step takeoverGracePeriod, toy_step takeoverGracePeriod] (process_dies 7 s))"
proof -
  obtain s ts where s: "startCoreLocked ascii_only (Some toy_profile) (toy_core_start 7) toy_core = (None, s)" "core_reach ascii_only s"
    "cm_cmd s = Some 3" "cm_alive s = [7]" "cm_threads s = WaitExit 3 7 # ts" using toy_core_running by blast
  let ?s = "process_dies 7 s"
  have 1: "core_reach ascii_only ?s" using s(2) by (rule core_reach.Dies)
  have 2: "0 < length (cm_threads ?s)" "cm_threads ?s ! 0 = WaitExit 3 7" "cm_cmd ?s = Some 3" "7 \<notin> set (cm_alive ?s)"
    using s(3-5) by (simp_all add: process_dies_def)
  have 3: "even (length [toy_step 1, toy_step 2])"
    "\<forall>inp \<in> set [toy_step 1, toy_step 2]. in_now inp < in_now (toy_step 0) + takeoverGracePeriod \<and> in_pids inp = Some []"
    "in_now (toy_step 0) + takeoverGracePeriod \<le> in_now (toy_step takeoverGracePeriod)"
    by (simp_all add: toy_step_def takeoverGracePeriod_def second_def)
  have "core_off (fold (\<lambda>inp. run_thread ascii_only inp se 0) ([toy_step 0] @ [toy_step 1, toy_step 2] @ [toy_step takeoverGracePeriod, toy_step takeoverGracePeriod]) ?s)" for se
    using core_crash_cleaned [OF 1 2 3, of se "toy_step takeoverGracePeriod"] by blast
  then show ?thesis using s(1) by auto
qed

end
