(* ===== verification/Core_Validation.thy ===== *)
theory Core_Validation
  imports Core_Manager
begin

text \<open>
  Checking a configuration without running it (\<open>core/profile_validation.go\<close>): the checks of the request, the command
  \<open>mihomo -t\<close> under the launcher of the running core, its bounded output, and the verdict.
\<close>

section \<open>Definitions\<close>

definition validationOutputLimit :: nat where "validationOutputLimit = 256 * 1024"

record validation_request =
  vr_Executable :: string
  vr_ConfigPath :: string
  vr_WorkDir :: string
  vr_SafePaths :: "string list"

record validation_result =
  vr_Outcome :: string
  vr_Output :: string

subsection \<open>Output\<close>

record validation_output =
  vo_bytes :: string
  vo_overflow :: bool

definition validation_Write :: "string \<Rightarrow> validation_output \<Rightarrow> validation_output" where
  "validation_Write data w =
     (let room = validationOutputLimit - length (vo_bytes w) in
      if length data > room then w\<lparr>vo_bytes := vo_bytes w @ take room data, vo_overflow := True\<rparr>
      else w\<lparr>vo_bytes := vo_bytes w @ data\<rparr>)"

subsection \<open>The run\<close>

text \<open>
  How the process ends: with an exit code, or with an error of the wait itself. \<open>vi_chunks\<close> is what it writes before it ends
  or is killed; \<open>vi_before\<close> is whether the request was already given up, \<open>vi_late\<close> whether the ten seconds were over or the
  request given up when the process had ended.
\<close>

datatype wait_result = Exit nat | WaitError

record validation_input =
  vi_before :: bool
  vi_late :: bool
  vi_chunks :: "string list"
  vi_wait :: wait_result
  vi_launch :: launch_input

definition validation_verdict :: "validation_input \<Rightarrow> validation_output \<Rightarrow> err + validation_result" where
  "validation_verdict inp w =
     (let result = \<lparr>vr_Outcome = ''valid'', vr_Output = vo_bytes w\<rparr> in
      if vo_overflow w then Inr (result\<lparr>vr_Outcome := ''output-limit''\<rparr>)
      else if vi_late inp then Inr (result\<lparr>vr_Outcome := ''timeout''\<rparr>)
      else (case vi_wait inp of
          WaitError \<Rightarrow> Inl SysErr
        | Exit 0 \<Rightarrow> Inr result
        | Exit _ \<Rightarrow> Inr (result\<lparr>vr_Outcome := ''invalid''\<rparr>)))"

definition runProfileValidation :: "validation_input \<Rightarrow> core_command \<Rightarrow> launcher_world \<Rightarrow> (err + validation_result) \<times> launcher_world" where
  "runProfileValidation inp command la =
     (if vi_before inp then (Inl (Plain ''context canceled''), snd (command_cleanupNow command la))
      else (case command_start (li_status (vi_launch inp)) command la of
          (Some e, command', la1) \<Rightarrow> (Inl e, snd (command_cleanupNow command' la1))
        | (None, command', la1) \<Rightarrow>
            (validation_verdict inp (fold validation_Write (vi_chunks inp) \<lparr>vo_bytes = [], vo_overflow = False\<rparr>),
             snd (command_cleanupNow command' (la1\<lparr>la_running := butlast (la_running la1)\<rparr>)))))"

subsection \<open>The request\<close>

definition bad_path :: "string \<Rightarrow> bool" where
  "bad_path path = (\<not> path_IsAbs path \<or> contains_any path [char_of (0 :: nat)])"

definition mihomo_names :: "string list" where
  "mihomo_names = [''mihomo'', ''mihomo-alpha'', ''mihomo.exe'', ''mihomo-alpha.exe'']"

text \<open>The staged executable and the mode: those of the running core when it is the same program.\<close>

definition staged_core :: "sandbox_fs \<Rightarrow> string \<Rightarrow> core_manager \<Rightarrow> string \<times> string" where
  "staged_core fs executable s =
     (case cm_launch s of
        None \<Rightarrow> ([], CoreRunModeAuto)
      | Some ml \<Rightarrow>
          let source = (case sf_eval fs (se_sourcePath (ml_session ml)) of Inl _ \<Rightarrow> [] | Inr p \<Rightarrow> p) in
          if source = executable then (se_executablePath (ml_session ml), lp_Mode (se_profile (ml_session ml)))
          else ([], CoreRunModeAuto))"

definition validation_session :: "launch_world \<Rightarrow> validation_request \<Rightarrow> string \<Rightarrow> string \<Rightarrow> string \<Rightarrow> launch_session" where
  "validation_session w request executable staged mode =
     (let profile = zero_profile\<lparr>lp_CorePath := executable, lp_Mode := mode, lp_SafePaths := vr_SafePaths request\<rparr> in
      \<lparr>se_sourcePath = executable, se_executablePath = staged, se_workingDir = vr_WorkDir request,
       se_args = [''-t'', ''-f'', vr_ConfigPath request, ''-d'', vr_WorkDir request], se_env = buildLaunchEnv w profile [], se_hookUpFile = [], se_cpuPriority = [],
       se_logPath = [], se_saveLogs = False, se_maxLogBytes = 0, se_fileAccess = \<lparr>fa_groupID = 0, fa_ok = False\<rparr>, se_controllerNet = [], se_controllerAddr = [],
       se_profile = profile, se_dirs = []\<rparr>)"

definition validation_launch :: "unicode \<Rightarrow> validation_input \<Rightarrow> launch_session \<Rightarrow> core_manager \<Rightarrow> (err + validation_result) \<times> core_manager" where
  "validation_launch U inp se s =
     (case launcher_Command (newCoreLauncher U (cm_world s) (lp_Mode (se_profile se))) (vi_launch inp) (lw_executable (cm_world s)) se (cm_launcher s) of
        (Inl e, la) \<Rightarrow> (Inl (sandbox_err e), s\<lparr>cm_launcher := la\<rparr>)
      | (Inr command, la) \<Rightarrow> (case runProfileValidation inp command la of (r, la') \<Rightarrow> (r, s\<lparr>cm_launcher := la'\<rparr>)))"

definition ValidateProfile :: "unicode \<Rightarrow> validation_input \<Rightarrow> validation_request \<Rightarrow> core_manager \<Rightarrow> (err + validation_result) \<times> core_manager" where
  "ValidateProfile U inp request s =
     (let fs = sb_fs (la_sandbox (cm_launcher s)) in
      if list_ex bad_path ([vr_Executable request, vr_ConfigPath request, vr_WorkDir request] @ vr_SafePaths request)
      then (Inl (Plain ''validation paths must be absolute''), s)
      else if length (vr_SafePaths request) > 64 then (Inl (Plain ''too many trusted paths''), s)
      else (case sf_eval fs (vr_Executable request) of
          Inl e \<Rightarrow> (Inl e, s)
        | Inr executable \<Rightarrow>
            if strings_ToLower U (path_Base executable) \<notin> set mihomo_names then (Inl (Plain ''validation executable must be Mihomo''), s)
            else if sf_stat fs (vr_ConfigPath request) \<noteq> Regular then (Inl (Plain ''invalid validation config''), s)
            else if sf_stat fs (vr_WorkDir request) \<noteq> Directory then (Inl (Plain ''invalid validation working directory''), s)
            else (case staged_core fs executable s of (staged, mode) \<Rightarrow>
                if staged \<noteq> [] then validation_launch U inp (validation_session (cm_world s) request executable staged mode) s
                else (case PrepareBinary executable (cm_world s) of
                    (Inl e, w) \<Rightarrow> (Inl e, s\<lparr>cm_world := w\<rparr>)
                  | (Inr staged', w) \<Rightarrow> validation_launch U inp (validation_session w request executable staged' mode) (s\<lparr>cm_world := w\<rparr>)))))"

section \<open>Lemmas\<close>

lemma write_take:
  assumes "length (vo_bytes w) \<le> validationOutputLimit" "vo_overflow w \<longrightarrow> length (vo_bytes w) = validationOutputLimit"
  shows "vo_bytes (fold validation_Write cs w) = take validationOutputLimit (vo_bytes w @ concat cs) \<and>
    vo_overflow (fold validation_Write cs w) = (vo_overflow w \<or> validationOutputLimit < length (vo_bytes w) + length (concat cs))"
  using assms
proof (induction cs arbitrary: w)
  case (Cons c cs)
  let ?w = "validation_Write c w"
  have w: "vo_bytes ?w = take validationOutputLimit (vo_bytes w @ c)" "vo_overflow ?w = (vo_overflow w \<or> validationOutputLimit < length (vo_bytes w) + length c)"
    using Cons.prems by (auto simp: validation_Write_def Let_def)
  have "length (vo_bytes ?w) \<le> validationOutputLimit" "vo_overflow ?w \<longrightarrow> length (vo_bytes ?w) = validationOutputLimit" using w Cons.prems by auto
  from Cons.IH [OF this] show ?case using w Cons.prems by (auto simp: min_def)
qed simp

lemma validation_output:
  "fold validation_Write cs \<lparr>vo_bytes = [], vo_overflow = False\<rparr> = \<lparr>vo_bytes = take validationOutputLimit (concat cs), vo_overflow = validationOutputLimit < length (concat cs)\<rparr>"
  using write_take [of "\<lparr>vo_bytes = [], vo_overflow = False\<rparr>" cs] by (simp add: validation_output.equality)

lemma cleanup_none: "cc_sandbox (fst (command_cleanupNow c w)) = None"
  by (simp add: command_cleanupNow_def case_prod_unfold split: option.split)

lemma start_failed_clean: "command_start status c w = (Some e, c', w') \<Longrightarrow> cc_sandbox c' = None"
  using cleanup_none by (auto simp: command_start_def split: prod.splits option.splits if_splits) (metis cleanup_none fst_conv)+

lemma run_open:
  assumes "command_ok command" "la_open la = n + command_files command"
  shows "la_open (snd (runProfileValidation inp command la)) = n \<and> la_running (snd (runProfileValidation inp command la)) = la_running la"
proof -
  obtain c0 la0 where c: "command_cleanupNow command la = (c0, la0)" by fastforce
  obtain e command' la1 where 1: "command_start (li_status (vi_launch inp)) command la = (e, command', la1)" by (metis prod_cases3)
  note f = start_files [OF assms(1) 1]
  show ?thesis
  proof (cases e)
    case None
    let ?la = "la1\<lparr>la_running := butlast (la_running la1)\<rparr>"
    obtain c2 la2 where 2: "command_cleanupNow command' ?la = (c2, la2)" by fastforce
    have "command_ok command'" "la_open ?la - command_files command' = n" "la_running ?la = la_running la" using f None assms(2) by (simp_all add: la_open_def)
    then show ?thesis using cleanupNow_files [OF _ 2] cleanupNow_files [OF assms(1) c] 1 2 c None assms(2) by (auto simp: runProfileValidation_def)
  next
    case (Some x)
    have "command_cleanupNow command' la1 = (command', la1)" using start_failed_clean [OF 1 [unfolded Some]] by (simp add: command_cleanupNow_def)
    then show ?thesis using f cleanupNow_files [OF assms(1) c] 1 c Some assms(2) by (auto simp: runProfileValidation_def)
  qed
qed

lemma launch_clean:
  "la_open (cm_launcher (snd (validation_launch U inp se s))) = la_open (cm_launcher s) \<and> la_running (cm_launcher (snd (validation_launch U inp se s))) = la_running (cm_launcher s) \<and>
   (\<exists>la. snd (validation_launch U inp se s) = s\<lparr>cm_launcher := la\<rparr>)"
proof -
  obtain r la where 1: "launcher_Command (newCoreLauncher U (cm_world s) (lp_Mode (se_profile se))) (vi_launch inp) (lw_executable (cm_world s)) se (cm_launcher s) = (r, la)" by fastforce
  note l = launcher_files [OF 1]
  show ?thesis
  proof (cases r)
    case (Inr command)
    then show ?thesis using l run_open [of command la "la_open (cm_launcher s)" inp] 1 by (auto simp: validation_launch_def split: prod.split)
  qed (use 1 l in \<open>auto simp: validation_launch_def\<close>)
qed

lemma protect_profile [simp]: "lw_profile (snd (removeGroupAndOtherWrite p w)) = lw_profile w"
  by (simp add: removeGroupAndOtherWrite_def case_prod_unfold Let_def)

lemma prepare_profile: "lw_profile (snd (PrepareBinary p w)) = lw_profile w"
  by (simp add: PrepareBinary_def SecureBinary_def case_prod_unfold split: option.split)

text \<open>What of the manager a validation leaves alone.\<close>

definition undisturbed :: "core_manager \<Rightarrow> core_manager \<Rightarrow> bool" where
  "undisturbed s s' = (\<exists>w la. s' = s\<lparr>cm_world := w, cm_launcher := la\<rparr> \<and> lw_profile w = lw_profile (cm_world s) \<and> lw_dirs w = lw_dirs (cm_world s) \<and>
     la_open la = la_open (cm_launcher s) \<and> la_running la = la_running (cm_launcher s))"

lemma undisturbed_refl: "undisturbed s s"
  unfolding undisturbed_def by (intro exI [of _ "cm_world s"] exI [of _ "cm_launcher s"]) simp

lemma launch_undisturbed:
  assumes "lw_profile w = lw_profile (cm_world s)" "lw_dirs w = lw_dirs (cm_world s)"
  shows "undisturbed s (snd (validation_launch U inp se (s\<lparr>cm_world := w\<rparr>)))"
proof -
  obtain la where "snd (validation_launch U inp se (s\<lparr>cm_world := w\<rparr>)) = (s\<lparr>cm_world := w\<rparr>)\<lparr>cm_launcher := la\<rparr>"
    using launch_clean [of U inp se "s\<lparr>cm_world := w\<rparr>"] by blast
  then show ?thesis using launch_clean [of U inp se "s\<lparr>cm_world := w\<rparr>"] assms
    unfolding undisturbed_def by (intro exI [of _ w] exI [of _ la]) simp
qed

section \<open>Properties\<close>

text \<open>
  A validation disturbs nothing: whatever the request, whichever calls fail and however the process ends, the running core, its
  session and the stored launch profile stay as they are, and every file, root and process of the validation is gone.
\<close>

theorem validation_undisturbed:
  "undisturbed s (snd (ValidateProfile U inp request s))"
proof -
  have w: "undisturbed s (s\<lparr>cm_world := w\<rparr>)" if "lw_profile w = lw_profile (cm_world s)" "lw_dirs w = lw_dirs (cm_world s)" for w
    unfolding undisturbed_def using that by (intro exI [of _ w] exI [of _ "cm_launcher s"]) simp
  have l: "undisturbed s (snd (validation_launch U inp se s))" for se using launch_undisturbed [of "cm_world s" s U inp se] by simp
  have p: "undisturbed s (s\<lparr>cm_world := w\<rparr>)" "undisturbed s (snd (validation_launch U inp se (s\<lparr>cm_world := w\<rparr>)))"
    if "PrepareBinary e (cm_world s) = (r, w)" for e r w se
    using w launch_undisturbed prepare_profile [of e "cm_world s"] prepare_fields(1) [of e "cm_world s"] that by simp_all
  show ?thesis
    by (simp add: ValidateProfile_def Let_def undisturbed_refl l split: sum.split prod.split) (simp add: p)
qed

text \<open>
  The verdict is honest: the answer holds the start of what the program wrote, up to the limit; it says valid exactly when the
  program ended by itself with code zero, in time and within the limit; and only a program with a name of
  Mihomo, on a regular file and in a directory that exist, is ever run.
\<close>

theorem validation_verdict_sound:
  assumes "fst (ValidateProfile U inp request s) = Inr r"
  shows "vr_Output r = take validationOutputLimit (concat (vi_chunks inp)) \<and>
    (vr_Outcome r = ''valid'') = (vi_wait inp = Exit 0 \<and> \<not> vi_late inp \<and> length (concat (vi_chunks inp)) \<le> validationOutputLimit) \<and>
    (\<exists>executable. sf_eval (sb_fs (la_sandbox (cm_launcher s))) (vr_Executable request) = Inr executable \<and> strings_ToLower U (path_Base executable) \<in> set mihomo_names) \<and>
    sf_stat (sb_fs (la_sandbox (cm_launcher s))) (vr_ConfigPath request) = Regular \<and> sf_stat (sb_fs (la_sandbox (cm_launcher s))) (vr_WorkDir request) = Directory"
proof -
  have v: "vr_Output r = take validationOutputLimit (concat (vi_chunks inp)) \<and>
    (vr_Outcome r = ''valid'') = (vi_wait inp = Exit 0 \<and> \<not> vi_late inp \<and> length (concat (vi_chunks inp)) \<le> validationOutputLimit)"
    if "fst (validation_launch U inp se t) = Inr r" for se t
    using that by (auto simp: validation_launch_def runProfileValidation_def validation_output validation_verdict_def Let_def
        split: prod.splits sum.splits if_splits option.splits wait_result.splits nat.splits)
  show ?thesis using assms v by (auto simp: ValidateProfile_def Let_def split: sum.splits if_splits prod.splits)
qed

definition toy_validator :: core_manager where
  "toy_validator = toy_core\<lparr>cm_launcher := toy_launcher\<lparr>la_sandbox := (toy_sandbox [])\<lparr>sb_fs :=
     \<lparr>sf_cwd = None, sf_stat = (\<lambda>p. if p = ''/c'' then Regular else Directory), sf_eval = Inr\<rparr>\<rparr>\<rparr>\<rparr>"

definition toy_validation :: validation_input where
  "toy_validation = \<lparr>vi_before = False, vi_late = False, vi_chunks = [''o'', ''k''], vi_wait = Exit 0, vi_launch = (toy_launch_input NoAnswer)\<lparr>li_euid := 1\<rparr>\<rparr>"

definition toy_question :: validation_request where
  "toy_question = \<lparr>vr_Executable = ''/mihomo'', vr_ConfigPath = ''/c'', vr_WorkDir = ''/w'', vr_SafePaths = []\<rparr>"

lemma toy_validated: "fst (ValidateProfile ascii_only toy_validation toy_question toy_validator) = Inr \<lparr>vr_Outcome = ''valid'', vr_Output = ''ok''\<rparr>"
proof -
  have v: "fst (validation_launch ascii_only toy_validation (validation_session w toy_question e st CoreRunModeAuto) (toy_validator\<lparr>cm_world := w\<rparr>)) =
    Inr \<lparr>vr_Outcome = ''valid'', vr_Output = ''ok''\<rparr>" for w e st
  proof -
    obtain la la' where "launcher_Command (newCoreLauncher ascii_only w CoreRunModeAuto) (vi_launch toy_validation) (lw_executable w)
        (validation_session w toy_question e st CoreRunModeAuto) (cm_launcher toy_validator) = (Inr direct_command, la)"
      "command_start (li_status (vi_launch toy_validation)) direct_command la = (None, direct_command, la')"
      using toy_direct [of "vi_launch toy_validation" CoreRunModeAuto "cm_launcher toy_validator" ascii_only w "lw_executable w"
          "validation_session w toy_question e st CoreRunModeAuto" "li_status (vi_launch toy_validation)"]
      by (auto simp: toy_validation_def toy_validator_def toy_launcher_def toy_sandbox_def CoreRunModeAuto_def CoreRunModeSandbox_def)
    then show ?thesis
      by (simp add: validation_launch_def validation_session_def Let_def runProfileValidation_def)
        (simp add: toy_validation_def validation_verdict_def validation_Write_def validationOutputLimit_def)
  qed
  have c: "lw_io (cm_world toy_validator) = []" by (simp add: toy_validator_def)
  have r: "\<exists>w'. removeGroupAndOtherWrite q w = (None, w') \<and> lw_io w' = []" if "lw_io w = []" for q w
    using that by (simp add: removeGroupAndOtherWrite_def lw_call_good)
  obtain w1 where w1: "removeGroupAndOtherWrite (path_Dir ''/mihomo'') (cm_world toy_validator) = (None, w1)" "lw_io w1 = []" using r c by blast
  obtain w2 where w2: "removeGroupAndOtherWrite ''/mihomo'' w1 = (None, w2)" using r w1(2) by blast
  have "PrepareBinary ''/mihomo'' (cm_world toy_validator) \<in> {(Inr ''/mihomo'', cm_world toy_validator), (Inr ''/mihomo'', w2)}"
    using w1(1) w2 by (simp add: PrepareBinary_def SecureBinary_def)
  then obtain w where w: "PrepareBinary ''/mihomo'' (cm_world toy_validator) = (Inr ''/mihomo'', w)" by blast
  have n: "strings_ToLower ascii_only (path_Base ''/mihomo'') \<in> set mihomo_names"
    by (simp add: strings_ToLower_def path_Base_def is_ascii_def ascii_lower_def byte_val_def mihomo_names_def Let_def)
  have s: "sb_fs (la_sandbox (cm_launcher toy_validator)) = \<lparr>sf_cwd = None, sf_stat = (\<lambda>p. if p = ''/c'' then Regular else Directory), sf_eval = Inr\<rparr>" "cm_launch toy_validator = None"
    by (simp_all add: toy_validator_def toy_core_def NewCoreManager_def)
  have b: "\<not> list_ex bad_path [''/mihomo'', ''/c'', ''/w'']"
    by (simp add: bad_path_def path_IsAbs_def has_prefix_def contains_any_def char_of_def)
  show ?thesis using v [of w] n w b
    by (simp add: ValidateProfile_def Let_def s staged_core_def toy_question_def)
qed

theorem validation_verdict_sound_witness:
  "(vr_Outcome \<lparr>vr_Outcome = ''valid'', vr_Output = ''ok''\<rparr> = ''valid'') =
     (vi_wait toy_validation = Exit 0 \<and> \<not> vi_late toy_validation \<and> length (concat (vi_chunks toy_validation)) \<le> validationOutputLimit)"
  using validation_verdict_sound [OF toy_validated] by blast

end
