(* ===== verification/Win_Firewall.thy ===== *)
theory Win_Firewall
  imports Kokoro_Prelude
begin

text \<open>
  The rules of the Windows firewall: the policy that keeps the rules of the service in order
  (\<open>internal/winfirewall/policy.go\<close>), the store it works on (\<open>com_windows.go\<close>), and its two users, the process
  router (\<open>processrouter/firewall_windows.go\<close>) and the core (\<open>core/firewall/firewall_windows.go\<close>). The collection of
  the system is a list of rules; what its \<open>Remove\<close> takes out is a parameter, every call takes its outcome from a
  script.
\<close>

unbundle bit_operations_syntax

section \<open>Definitions\<close>

subsection \<open>Rules\<close>

record fw_rule =
  fr_Name :: string
  fr_Group :: string
  fr_Description :: string
  fr_Application :: string
  fr_Service :: string
  fr_Protocol :: "32 word"
  fr_LocalPorts :: string
  fr_RemotePorts :: string
  fr_LocalAddresses :: string
  fr_RemoteAddresses :: string
  fr_Direction :: "32 word"
  fr_Action :: "32 word"
  fr_Profiles :: "32 word"
  fr_InterfaceTypes :: string
  fr_EdgeTraversal :: bool
  fr_Enabled :: bool

definition AllProfiles :: "32 word" where "AllProfiles = 0x7fffffff"

datatype fw_mode = Ensure | Check | Remove | OtherMode int

definition Inbound :: "string \<Rightarrow> string \<Rightarrow> string \<Rightarrow> 32 word \<Rightarrow> string \<Rightarrow> fw_rule" where
  "Inbound name grp application protocol ports =
     \<lparr>fr_Name = name, fr_Group = grp, fr_Description = [], fr_Application = application, fr_Service = [], fr_Protocol = protocol,
      fr_LocalPorts = ports, fr_RemotePorts = ''*'', fr_LocalAddresses = ''*'', fr_RemoteAddresses = ''*'', fr_Direction = 1, fr_Action = 1,
      fr_Profiles = AllProfiles, fr_InterfaceTypes = ''All'', fr_EdgeTraversal = False, fr_Enabled = True\<rparr>"

text \<open>What is compared: names and paths without their case, and all profiles in either spelling.\<close>

definition rule_key :: "unicode \<Rightarrow> fw_rule \<Rightarrow> fw_rule" where
  "rule_key U a =
     a\<lparr>fr_Name := strings_ToLower U (fr_Name a), fr_Group := strings_ToLower U (fr_Group a), fr_Application := strings_ToLower U (fr_Application a),
       fr_InterfaceTypes := strings_ToLower U (fr_InterfaceTypes a), fr_Profiles := (if fr_Profiles a AND 7 = 7 then AllProfiles else fr_Profiles a)\<rparr>"

definition sameRule :: "unicode \<Rightarrow> fw_rule \<Rightarrow> fw_rule \<Rightarrow> bool" where
  "sameRule U a b = (rule_key U a = rule_key U b)"

definition matching :: "unicode \<Rightarrow> fw_rule list \<Rightarrow> string \<Rightarrow> fw_rule list" where
  "matching U rules name = filter (\<lambda>rule. strings_EqualFold U (fr_Name rule) name) rules"

subsection \<open>The store\<close>

text \<open>The collection, the state of the local policy, and the outcomes of the calls.\<close>

record fw_store =
  fs_rules :: "fw_rule list"
  fs_modify :: int
  fs_ios :: "io list"

definition fs_calls :: "nat \<Rightarrow> fw_store \<Rightarrow> bool \<times> fw_store" where
  "fs_calls n s = (case run_ios n (fs_ios s) of (ok, ios) \<Rightarrow> (ok, s\<lparr>fs_ios := ios\<rparr>))"

definition zero_rule :: fw_rule where
  "zero_rule = \<lparr>fr_Name = [], fr_Group = [], fr_Description = [], fr_Application = [], fr_Service = [], fr_Protocol = 0, fr_LocalPorts = [], fr_RemotePorts = [],
     fr_LocalAddresses = [], fr_RemoteAddresses = [], fr_Direction = 0, fr_Action = 0, fr_Profiles = 0, fr_InterfaceTypes = [], fr_EdgeTraversal = False, fr_Enabled = False\<rparr>"

text \<open>\<open>readRule\<close> reads two properties of a rule, or all sixteen.\<close>

definition readRule :: "fw_rule \<Rightarrow> bool \<Rightarrow> fw_store \<Rightarrow> fw_rule res \<times> fw_store" where
  "readRule object full s =
     (case fs_calls (if full then 16 else 2) s of (ok, s1) \<Rightarrow>
        (if \<not> ok then Inl SysErr
         else if full then Inr object
         else Inr (zero_rule\<lparr>fr_Name := fr_Name object, fr_Group := fr_Group object\<rparr>), s1))"

definition readItem :: "unicode \<Rightarrow> string \<Rightarrow> fw_rule list \<Rightarrow> fw_rule \<Rightarrow> fw_store \<Rightarrow> fw_rule res \<times> fw_store" where
  "readItem U grp desired object s =
     (case readRule object False s of
        (Inl e, s1) \<Rightarrow> (Inl e, s1)
      | (Inr identity, s1) \<Rightarrow>
          if \<not> strings_EqualFold U (fr_Group identity) grp \<or> \<not> list_ex (\<lambda>want. strings_EqualFold U (fr_Name identity) (fr_Name want)) desired
          then (Inr identity, s1)
          else (case fs_calls 1 s1 of (ok, s2) \<Rightarrow>
              if \<not> ok then (Inl SysErr, s2)
              else if fr_Protocol object \<noteq> 6 \<and> fr_Protocol object \<noteq> 17 then (Inr (identity\<lparr>fr_Protocol := fr_Protocol object\<rparr>), s2)
              else readRule object True s2))"

text \<open>The enumerator is asked for one rule at a time, and once more at the end.\<close>

fun list_items :: "unicode \<Rightarrow> string \<Rightarrow> fw_rule list \<Rightarrow> fw_rule list \<Rightarrow> fw_store \<Rightarrow> fw_rule list res \<times> fw_store" where
  "list_items U grp desired [] s = (case fs_calls 1 s of (ok, s1) \<Rightarrow> (if ok then Inr [] else Inl SysErr, s1))"
| "list_items U grp desired (r # rs) s =
     (case fs_calls 1 s of (ok, s1) \<Rightarrow>
        if \<not> ok then (Inl SysErr, s1)
        else (case readItem U grp desired r s1 of
            (Inl e, s2) \<Rightarrow> (Inl e, s2)
          | (Inr x, s2) \<Rightarrow> (case list_items U grp desired rs s2 of (Inl e, s3) \<Rightarrow> (Inl e, s3) | (Inr xs, s3) \<Rightarrow> (Inr (x # xs), s3))))"

definition List :: "unicode \<Rightarrow> string \<Rightarrow> fw_rule list \<Rightarrow> fw_store \<Rightarrow> fw_rule list res \<times> fw_store" where
  "List U grp desired s =
     (case fs_calls 2 s of (ok, s1) \<Rightarrow> if \<not> ok then (Inl SysErr, s1) else list_items U grp desired (fs_rules s1) s1)"

definition Modifiable :: "fw_store \<Rightarrow> err option \<times> fw_store" where
  "Modifiable s =
     (case fs_calls 1 s of (ok, s1) \<Rightarrow>
        (if \<not> ok then Some SysErr
         else if fs_modify s1 \<noteq> 0 then Some (Plain ''Windows Firewall policy prevents local inbound exceptions; check administrator policy'')
         else None, s1))"

text \<open>
  A new object takes two calls and fifteen properties; the name of the service is not among them. The last call
  puts it into the collection.
\<close>

definition Add :: "fw_rule \<Rightarrow> fw_store \<Rightarrow> err option \<times> fw_store" where
  "Add spec s =
     (case fs_calls 17 s of (ok, s1) \<Rightarrow>
        if \<not> ok then (Some SysErr, s1)
        else (case next_io (fs_ios s1) of (out, ios) \<Rightarrow>
            (if out = Done then None else Some (Wrapped (''add firewall rule '' @ fr_Name spec) SysErr),
             s1\<lparr>fs_ios := ios, fs_rules := (if out = Fails then fs_rules s1 else fs_rules s1 @ [spec\<lparr>fr_Service := []\<rparr>])\<rparr>)))"

definition Delete :: "(string \<Rightarrow> fw_rule list \<Rightarrow> fw_rule list) \<Rightarrow> string \<Rightarrow> fw_store \<Rightarrow> err option \<times> fw_store" where
  "Delete remove name s =
     (case next_io (fs_ios s) of (out, ios) \<Rightarrow>
        (if out = Done then None else Some (Wrapped (''remove firewall rule '' @ name) SysErr),
         s\<lparr>fs_ios := ios, fs_rules := (if out = Fails then fs_rules s else remove name (fs_rules s))\<rparr>))"

subsection \<open>Reconciliation\<close>

definition first_foreign :: "unicode \<Rightarrow> string \<Rightarrow> fw_rule list \<Rightarrow> fw_rule option" where
  "first_foreign U grp rules = find (\<lambda>rule. \<not> strings_EqualFold U (fr_Group rule) grp) rules"

definition foreign_error :: "fw_rule \<Rightarrow> err" where
  "foreign_error rule = Plainf ''firewall rule %q belongs to another group'' [fr_Name rule]"

fun preflight :: "unicode \<Rightarrow> string \<Rightarrow> bool \<Rightarrow> fw_rule list \<Rightarrow> fw_rule list \<Rightarrow> err option" where
  "preflight U grp repairDuplicates rules [] = None"
| "preflight U grp repairDuplicates rules (want # desired) =
     (let found = matching U rules (fr_Name want) in
      case first_foreign U grp found of
        Some rule \<Rightarrow> Some (foreign_error rule)
      | None \<Rightarrow>
          if 1 < length found \<and> \<not> repairDuplicates then Some (Plainf ''duplicate reserved firewall rule %q'' [fr_Name want])
          else preflight U grp repairDuplicates rules desired)"

fun removal_check :: "unicode \<Rightarrow> string \<Rightarrow> fw_rule list \<Rightarrow> fw_rule list \<Rightarrow> err option" where
  "removal_check U grp rules [] = None"
| "removal_check U grp rules (rule # rs) =
     (case (if strings_EqualFold U (fr_Group rule) grp then first_foreign U grp (matching U rules (fr_Name rule)) else None) of
        Some other \<Rightarrow> Some (foreign_error rule)
      | None \<Rightarrow> removal_check U grp rules rs)"

fun delete_all :: "(string \<Rightarrow> fw_rule list \<Rightarrow> fw_rule list) \<Rightarrow> fw_rule list \<Rightarrow> fw_store \<Rightarrow> err option \<times> fw_store" where
  "delete_all remove [] s = (None, s)"
| "delete_all remove (rule # rs) s =
     (case Delete remove (fr_Name rule) s of
        (Some e, s1) \<Rightarrow> (Some e, s1)
      | (None, s1) \<Rightarrow> delete_all remove rs s1)"

fun ensure_rules :: "unicode \<Rightarrow> (string \<Rightarrow> fw_rule list \<Rightarrow> fw_rule list) \<Rightarrow> fw_mode \<Rightarrow> fw_rule list \<Rightarrow> fw_rule list \<Rightarrow> fw_store \<Rightarrow> err option \<times> fw_store" where
  "ensure_rules U remove mode rules [] s = (None, s)"
| "ensure_rules U remove mode rules (want # desired) s =
     (let found = matching U rules (fr_Name want) in
      if length found = 1 \<and> sameRule U (hd found) want then ensure_rules U remove mode rules desired s
      else if mode = Check then (Some (Plainf ''firewall rule %q is missing or invalid'' [fr_Name want]), s)
      else (case delete_all remove found s of
          (Some e, s1) \<Rightarrow> (Some e, s1)
        | (None, s1) \<Rightarrow>
            (case Add want s1 of
               (Some e, s2) \<Rightarrow> (Some e, s2)
             | (None, s2) \<Rightarrow> ensure_rules U remove mode rules desired s2)))"

fun verify_rules :: "unicode \<Rightarrow> fw_rule list \<Rightarrow> fw_rule list \<Rightarrow> err option" where
  "verify_rules U actual [] = None"
| "verify_rules U actual (want # desired) =
     (let found = matching U actual (fr_Name want) in
      if length found \<noteq> 1 \<or> \<not> sameRule U (hd found) want then Some (Plainf ''failed to verify firewall rule %q'' [fr_Name want])
      else verify_rules U actual desired)"

definition remove_rules :: "unicode \<Rightarrow> (string \<Rightarrow> fw_rule list \<Rightarrow> fw_rule list) \<Rightarrow> string \<Rightarrow> fw_rule list \<Rightarrow> fw_rule list \<Rightarrow> fw_store \<Rightarrow> err option \<times> fw_store" where
  "remove_rules U remove grp desired rules s =
     (case delete_all remove (filter (\<lambda>rule. strings_EqualFold U (fr_Group rule) grp) rules) s of
        (Some e, s1) \<Rightarrow> (Some e, s1)
      | (None, s1) \<Rightarrow>
          (case List U grp desired s1 of
             (Inl e, s2) \<Rightarrow> (Some e, s2)
           | (Inr remaining, s2) \<Rightarrow>
               (case find (\<lambda>rule. strings_EqualFold U (fr_Group rule) grp) remaining of
                  Some rule \<Rightarrow> (Some (Plainf ''firewall rule %q was not removed'' [fr_Name rule]), s2)
                | None \<Rightarrow> (None, s2))))"

definition fw_reconcile :: "unicode \<Rightarrow> (string \<Rightarrow> fw_rule list \<Rightarrow> fw_rule list) \<Rightarrow> string \<Rightarrow> fw_rule list \<Rightarrow> fw_mode \<Rightarrow> bool \<Rightarrow> fw_store \<Rightarrow> err option \<times> fw_store" where
  "fw_reconcile U remove grp desired mode repairDuplicates s =
     (if mode \<notin> {Ensure, Check, Remove} then (Some (Plain ''invalid firewall operation''), s)
      else (case List U grp desired s of
          (Inl e, s1) \<Rightarrow> (Some e, s1)
        | (Inr rules, s1) \<Rightarrow>
            (case preflight U grp repairDuplicates rules desired of
               Some e \<Rightarrow> (Some e, s1)
             | None \<Rightarrow>
                 (case (if mode = Remove then removal_check U grp rules rules else None) of
                    Some e \<Rightarrow> (Some e, s1)
                  | None \<Rightarrow>
                      (case (if mode \<noteq> Check then Modifiable s1 else (None, s1)) of
                         (Some e, s2) \<Rightarrow> (Some e, s2)
                       | (None, s2) \<Rightarrow>
                           if mode = Remove then remove_rules U remove grp desired rules s2
                           else (case ensure_rules U remove mode rules desired s2 of
                               (Some e, s3) \<Rightarrow> (Some e, s3)
                             | (None, s3) \<Rightarrow>
                                 (case List U grp desired s3 of
                                    (Inl e, s4) \<Rightarrow> (Some e, s4)
                                  | (Inr actual, s4) \<Rightarrow> (verify_rules U actual desired, s4))))))))"

text \<open>\<open>Apply\<close> first sets up COM and gets the policy and its rules.\<close>

definition fw_Apply :: "unicode \<Rightarrow> (string \<Rightarrow> fw_rule list \<Rightarrow> fw_rule list) \<Rightarrow> string \<Rightarrow> fw_rule list \<Rightarrow> fw_mode \<Rightarrow> bool \<Rightarrow> fw_store \<Rightarrow> err option \<times> fw_store" where
  "fw_Apply U remove grp desired mode repairDuplicates s =
     (case fs_calls 4 s of (ok, s1) \<Rightarrow>
        if \<not> ok then (Some SysErr, s1) else fw_reconcile U remove grp desired mode repairDuplicates s1)"

subsection \<open>The rules of the service\<close>

definition FirewallRuleGroup :: string where "FirewallRuleGroup = ''KokoroBox Application Routing''"
definition coreRuleGroup :: string where "coreRuleGroup = ''KokoroBox Service Core''"

definition routerFirewallRules :: "string \<Rightarrow> fw_rule list" where
  "routerFirewallRules binaryPath =
     [Inbound ''KokoroBox Application Routing TCP Relay'' FirewallRuleGroup binaryPath 6 (format_nat 34010),
      Inbound ''KokoroBox Application Routing UDP Relay'' FirewallRuleGroup binaryPath 17 (format_nat 34011)]"

definition coreRules :: "string \<Rightarrow> fw_rule list" where
  "coreRules executable =
     map (\<lambda>r. r\<lparr>fr_Description := ''Inbound proxy connections to the service-managed KokoroBox core. Mihomo controls LAN access.''\<rparr>)
       [Inbound (coreRuleGroup @ '' TCP'') coreRuleGroup executable 6 ''*'', Inbound (coreRuleGroup @ '' UDP'') coreRuleGroup executable 17 ''*'']"

definition applyFirewall :: "unicode \<Rightarrow> (string \<Rightarrow> fw_rule list \<Rightarrow> fw_rule list) \<Rightarrow> fw_mode \<Rightarrow> string \<Rightarrow> fw_store \<Rightarrow> err option \<times> fw_store" where
  "applyFirewall U remove mode binaryPath s =
     (case fw_Apply U remove FirewallRuleGroup (routerFirewallRules binaryPath) mode True s of
        (Some e, s1) \<Rightarrow> (Some (Wrapped ''manage application-routing firewall rules'' e), s1)
      | (None, s1) \<Rightarrow> (None, s1))"

section \<open>Lemmas\<close>

text \<open>What a listing shows of a rule.\<close>

definition shown :: "unicode \<Rightarrow> string \<Rightarrow> fw_rule list \<Rightarrow> fw_rule \<Rightarrow> fw_rule" where
  "shown U grp desired r =
     (let identity = zero_rule\<lparr>fr_Name := fr_Name r, fr_Group := fr_Group r\<rparr> in
      if \<not> strings_EqualFold U (fr_Group r) grp \<or> \<not> list_ex (\<lambda>want. strings_EqualFold U (fr_Name r) (fr_Name want)) desired then identity
      else if fr_Protocol r \<noteq> 6 \<and> fr_Protocol r \<noteq> 17 then identity\<lparr>fr_Protocol := fr_Protocol r\<rparr>
      else r)"

lemma shown_name [simp]: "fr_Name (shown U grp desired r) = fr_Name r" "fr_Group (shown U grp desired r) = fr_Group r"
  by (simp_all add: shown_def Let_def zero_rule_def)

lemma shown_whole: "fr_Protocol (shown U grp desired r) = 6 \<or> fr_Protocol (shown U grp desired r) = 17 \<Longrightarrow> shown U grp desired r = r"
  by (auto simp: shown_def Let_def zero_rule_def split: if_splits)

lemma calls_keep [simp]: "fs_rules (snd (fs_calls n s)) = fs_rules s" "fs_modify (snd (fs_calls n s)) = fs_modify s"
  by (simp_all add: fs_calls_def split: prod.split)

lemma calls_good: "fs_ios s = [] \<Longrightarrow> fs_calls n s = (True, s)"
  by (simp add: fs_calls_def)

lemma read_keeps [simp]: "fs_rules (snd (readRule r full s)) = fs_rules s" "fs_modify (snd (readRule r full s)) = fs_modify s"
  by (simp_all add: readRule_def case_prod_unfold)

lemma item_keeps [simp]: "fs_rules (snd (readItem U grp desired r s)) = fs_rules s" "fs_modify (snd (readItem U grp desired r s)) = fs_modify s"
  by (simp_all add: readItem_def case_prod_unfold split: sum.split)

lemma items_keep [simp]: "fs_rules (snd (list_items U grp desired rs s)) = fs_rules s" "fs_modify (snd (list_items U grp desired rs s)) = fs_modify s"
  by (induction rs arbitrary: s) (simp_all add: case_prod_unfold split: sum.split)

lemma list_keeps [simp]: "fs_rules (snd (List U grp desired s)) = fs_rules s" "fs_modify (snd (List U grp desired s)) = fs_modify s"
  by (simp_all add: List_def case_prod_unfold)

lemma modifiable_keeps [simp]: "fs_rules (snd (Modifiable s)) = fs_rules s" "fs_modify (snd (Modifiable s)) = fs_modify s"
  by (simp_all add: Modifiable_def case_prod_unfold)

lemma read_shown: "fst (readItem U grp desired r s) = Inr x \<Longrightarrow> x = shown U grp desired r"
  by (auto simp: readItem_def readRule_def shown_def Let_def case_prod_unfold zero_rule_def split: sum.splits if_splits)

lemma items_shown: "fst (list_items U grp desired rs s) = Inr xs \<Longrightarrow> xs = map (shown U grp desired) rs"
proof (induction rs arbitrary: s xs)
  case (Cons r rs)
  then show ?case using read_shown by (fastforce simp: case_prod_unfold split: sum.splits if_splits)
qed (auto simp: case_prod_unfold split: if_splits)

lemma list_shown: "fst (List U grp desired s) = Inr xs \<Longrightarrow> xs = map (shown U grp desired) (fs_rules s)"
  by (auto simp: List_def case_prod_unfold dest!: items_shown split: if_splits)

lemma matching_shown: "matching U (map (shown U grp desired) rs) n = map (shown U grp desired) (matching U rs n)"
  by (simp add: matching_def filter_map o_def)

subsection \<open>Rules of others\<close>

text \<open>
  What is relied on of the collection: \<open>Remove\<close> takes out rules of the name it is given, and nothing else. Names are
  compared by an equivalence.
\<close>

definition by_name :: "unicode \<Rightarrow> (string \<Rightarrow> fw_rule list \<Rightarrow> fw_rule list) \<Rightarrow> bool" where
  "by_name U remove = (\<forall>n rs. set (remove n rs) \<subseteq> set rs \<and>
     filter (\<lambda>r. \<not> strings_EqualFold U (fr_Name r) n) (remove n rs) = filter (\<lambda>r. \<not> strings_EqualFold U (fr_Name r) n) rs)"

definition foreign :: "unicode \<Rightarrow> string \<Rightarrow> fw_rule list \<Rightarrow> fw_rule list" where
  "foreign U grp rs = filter (\<lambda>r. \<not> strings_EqualFold U (fr_Group r) grp) rs"

text \<open>No rule of another group has this name.\<close>

definition free :: "unicode \<Rightarrow> string \<Rightarrow> fw_rule list \<Rightarrow> string \<Rightarrow> bool" where
  "free U grp rs n = (\<forall>r \<in> set (foreign U grp rs). \<not> strings_EqualFold U (fr_Name r) n)"

lemma filter_of_filter: "(\<And>x. x \<in> set xs \<Longrightarrow> P x \<Longrightarrow> Q x) \<Longrightarrow> filter P (filter Q xs) = filter P xs"
  by (induction xs) auto

lemma remove_foreign:
  assumes "by_name U remove" "free U grp rs n"
  shows "foreign U grp (remove n rs) = foreign U grp rs"
proof -
  let ?P = "\<lambda>r. \<not> strings_EqualFold U (fr_Group r) grp" and ?Q = "\<lambda>r. \<not> strings_EqualFold U (fr_Name r) n"
  have s: "set (remove n rs) \<subseteq> set rs" "filter ?Q (remove n rs) = filter ?Q rs" using assms(1) by (auto simp: by_name_def)
  have q: "?Q r" if "r \<in> set rs" "?P r" for r using assms(2) that by (auto simp: free_def foreign_def)
  have "filter ?P (filter ?Q (remove n rs)) = filter ?P (remove n rs)" "filter ?P (filter ?Q rs) = filter ?P rs"
    using q s(1) by (blast intro: filter_of_filter)+
  then show ?thesis by (simp add: foreign_def s(2))
qed

lemma free_foreign: "foreign U grp rs' = foreign U grp rs \<Longrightarrow> free U grp rs' n = free U grp rs n"
  by (simp add: free_def)

lemma delete_foreign: "by_name U remove \<Longrightarrow> free U grp (fs_rules s) n \<Longrightarrow> foreign U grp (fs_rules (snd (Delete remove n s))) = foreign U grp (fs_rules s)"
  by (simp add: Delete_def remove_foreign split: prod.split)

lemma deletes_foreign:
  assumes "by_name U remove" "\<forall>r \<in> set rs. free U grp (fs_rules s) (fr_Name r)"
  shows "foreign U grp (fs_rules (snd (delete_all remove rs s))) = foreign U grp (fs_rules s)"
  using assms(2)
proof (induction rs arbitrary: s)
  case (Cons r rs)
  have d: "foreign U grp (fs_rules (snd (Delete remove (fr_Name r) s))) = foreign U grp (fs_rules s)" using delete_foreign [OF assms(1)] Cons.prems by simp
  then show ?case using Cons free_foreign [OF d] by (auto split: prod.split option.split)
qed simp

lemma add_foreign: "strings_EqualFold U (fr_Group want) grp \<Longrightarrow> foreign U grp (fs_rules (snd (Add want s))) = foreign U grp (fs_rules s)"
proof -
  obtain ok s1 where c: "fs_calls 17 s = (ok, s1)" by fastforce
  then have "fs_rules s1 = fs_rules s" using calls_keep(1) [of 17 s] by simp
  then show "strings_EqualFold U (fr_Group want) grp \<Longrightarrow> ?thesis" by (simp add: Add_def c foreign_def split: prod.split)
qed

lemma free_fold: "transp (strings_EqualFold U) \<Longrightarrow> strings_EqualFold U n m \<Longrightarrow> free U grp rs m \<Longrightarrow> free U grp rs n"
  by (auto simp: free_def dest: transpD)

lemma ensure_foreign:
  assumes "by_name U remove" "transp (strings_EqualFold U)"
    and "\<forall>want \<in> set desired. strings_EqualFold U (fr_Group want) grp \<and> free U grp (fs_rules s) (fr_Name want)"
  shows "foreign U grp (fs_rules (snd (ensure_rules U remove mode rules desired s))) = foreign U grp (fs_rules s)"
  using assms(3)
proof (induction desired arbitrary: s)
  case (Cons want desired)
  let ?found = "matching U rules (fr_Name want)"
  obtain r1 s1 where d: "delete_all remove ?found s = (r1, s1)" by fastforce
  obtain r2 s2 where a: "Add want s1 = (r2, s2)" by fastforce
  have "\<forall>r \<in> set ?found. free U grp (fs_rules s) (fr_Name r)"
    using Cons.prems free_fold [OF assms(2)] by (auto simp: matching_def)
  then have f1: "foreign U grp (fs_rules s1) = foreign U grp (fs_rules s)" using deletes_foreign [OF assms(1), of ?found] d by (metis snd_conv)
  have f2: "foreign U grp (fs_rules s2) = foreign U grp (fs_rules s)" using add_foreign [of U want grp s1] Cons.prems a f1 by simp
  have "foreign U grp (fs_rules (snd (ensure_rules U remove mode rules desired s2))) = foreign U grp (fs_rules s)"
    using Cons.IH [of s2] Cons.prems f2 free_foreign [OF f2] by simp
  then show ?case using Cons.IH [of s] Cons.prems f1 f2 d a by (simp add: Let_def split: option.split)
qed simp

lemma foreign_shown: "map fr_Name (foreign U grp (map (shown U grp' desired) rs)) = map fr_Name (foreign U grp rs)"
  by (simp add: foreign_def filter_map o_def)

lemma free_shown: "free U grp (map (shown U grp' desired) rs) n = free U grp rs n"
  by (auto simp: free_def foreign_def)

lemma none_foreign: "first_foreign U grp (matching U rs n) = None \<Longrightarrow> free U grp rs n"
  by (auto simp: first_foreign_def find_None_iff free_def foreign_def matching_def)

lemma preflight_free: "preflight U grp rep rules desired = None \<Longrightarrow> want \<in> set desired \<Longrightarrow> free U grp rules (fr_Name want)"
  by (induction desired) (auto simp: Let_def none_foreign split: option.splits if_splits)

lemma removal_free: "removal_check U grp rules rs = None \<Longrightarrow> r \<in> set rs \<Longrightarrow> strings_EqualFold U (fr_Group r) grp \<Longrightarrow> free U grp rules (fr_Name r)"
  by (induction rs) (auto simp: none_foreign split: option.splits if_splits)

lemma remove_rules_foreign:
  assumes "by_name U remove" "\<forall>r \<in> set rules. strings_EqualFold U (fr_Group r) grp \<longrightarrow> free U grp (fs_rules s) (fr_Name r)"
  shows "foreign U grp (fs_rules (snd (remove_rules U remove grp desired rules s))) = foreign U grp (fs_rules s)"
proof -
  let ?own = "filter (\<lambda>rule. strings_EqualFold U (fr_Group rule) grp) rules"
  obtain r1 s1 where d: "delete_all remove ?own s = (r1, s1)" by fastforce
  moreover have "\<forall>r \<in> set ?own. free U grp (fs_rules s) (fr_Name r)" using assms(2) by simp
  ultimately have "foreign U grp (fs_rules s1) = foreign U grp (fs_rules s)" using deletes_foreign [OF assms(1), of ?own] by (metis snd_conv)
  moreover obtain r2 s2 where l: "List U grp desired s1 = (r2, s2)" by fastforce
  then have "fs_rules s2 = fs_rules s1" using list_keeps(1) [of U grp desired s1] by simp
  ultimately show ?thesis by (simp add: remove_rules_def d l split: option.split sum.split)
qed

text \<open>What a run did, by how far it came.\<close>

lemma reconcile_cases:
  assumes "fw_reconcile U remove grp desired mode rep s = (r, s')"
  shows "fs_rules s' = fs_rules s \<and> r \<noteq> None \<or>
    (\<exists>s2. fs_rules s2 = fs_rules s \<and> (\<forall>want \<in> set desired. free U grp (fs_rules s) (fr_Name want)) \<and>
      (mode = Remove \<and> (\<forall>x \<in> set (fs_rules s). strings_EqualFold U (fr_Group x) grp \<longrightarrow> free U grp (fs_rules s) (fr_Name x)) \<and>
         remove_rules U remove grp desired (map (shown U grp desired) (fs_rules s)) s2 = (r, s') \<or>
       mode \<in> {Ensure, Check} \<and>
         (\<exists>r3 s3. ensure_rules U remove mode (map (shown U grp desired) (fs_rules s)) desired s2 = (r3, s3) \<and>
            (r3 \<noteq> None \<and> r = r3 \<and> s' = s3 \<or> r3 = None \<and> fs_rules s' = fs_rules s3 \<and> (r = None \<longrightarrow> verify_rules U (map (shown U grp desired) (fs_rules s')) desired = None)))))"
proof -
  obtain l s1 where l: "List U grp desired s = (l, s1)" by fastforce
  have k1: "fs_rules s1 = fs_rules s" using list_keeps(1) [of U grp desired s] l by simp
  let ?m = "if mode \<noteq> Check then Modifiable s1 else (None, s1)"
  obtain m s2 where m: "?m = (m, s2)" by fastforce
  have "fs_rules (snd ?m) = fs_rules s" by (simp add: k1)
  then have k2: "fs_rules s2 = fs_rules s" unfolding m by simp
  let ?go = "mode \<in> {Ensure, Check, Remove} \<and> (\<exists>rules. l = Inr rules \<and> preflight U grp rep rules desired = None \<and> (mode = Remove \<longrightarrow> removal_check U grp rules rules = None)) \<and> m = None"
  show ?thesis
  proof (cases ?go)
    case False
    have "fs_rules s' = fs_rules s \<and> r \<noteq> None"
      using assms False k1 k2 unfolding fw_reconcile_def l m prod.case by (auto dest: sym split: sum.splits option.splits if_splits)
    then show ?thesis by blast
  next
    case True
    then obtain rules where r: "l = Inr rules" "preflight U grp rep rules desired = None" "mode = Remove \<longrightarrow> removal_check U grp rules rules = None" by blast
    have rules: "rules = map (shown U grp desired) (fs_rules s)" using list_shown [of U grp desired s rules] l r(1) by simp
    have free: "\<forall>want \<in> set desired. free U grp (fs_rules s) (fr_Name want)" using preflight_free [OF r(2)] by (simp add: rules free_shown)
    show ?thesis
    proof (cases "mode = Remove")
      case True
      have "\<forall>x \<in> set (fs_rules s). strings_EqualFold U (fr_Group x) grp \<longrightarrow> free U grp (fs_rules s) (fr_Name x)"
      proof clarify
        fix x assume "x \<in> set (fs_rules s)" "strings_EqualFold U (fr_Group x) grp"
        then show "free U grp (fs_rules s) (fr_Name x)"
          using removal_free [of U grp rules rules "shown U grp desired x"] r(3) True by (simp add: rules free_shown)
      qed
      moreover have "remove_rules U remove grp desired rules s2 = (r, s')" using assms \<open>?go\<close> True l m r by (simp add: fw_reconcile_def)
      ultimately show ?thesis using k2 free True rules by blast
    next
      case False
      obtain r3 s3 where e: "ensure_rules U remove mode rules desired s2 = (r3, s3)" by fastforce
      obtain l4 s4 where l4: "List U grp desired s3 = (l4, s4)" by fastforce
      have k4: "fs_rules s4 = fs_rules s3" using list_keeps(1) [of U grp desired s3] l4 by simp
      have sh: "x = map (shown U grp desired) (fs_rules s3)" if "l4 = Inr x" for x using list_shown [of U grp desired s3 x] l4 that by simp
      have mode: "mode \<in> {Ensure, Check}" using \<open>?go\<close> False by auto
      have run: "(case ensure_rules U remove mode rules desired s2 of (Some e, s3) \<Rightarrow> (Some e, s3) | (None, s3) \<Rightarrow>
          (case List U grp desired s3 of (Inl e, s4) \<Rightarrow> (Some e, s4) | (Inr actual, s4) \<Rightarrow> (verify_rules U actual desired, s4))) = (r, s')"
        using assms \<open>?go\<close> False mode unfolding fw_reconcile_def l m prod.case r sum.case by auto
      have "r3 \<noteq> None \<and> r = r3 \<and> s' = s3 \<or> r3 = None \<and> fs_rules s' = fs_rules s3 \<and> (r = None \<longrightarrow> verify_rules U (map (shown U grp desired) (fs_rules s')) desired = None)"
        using run k4 sh by (auto simp: e l4 split: option.splits sum.splits)
      then show ?thesis using k2 free mode e rules by blast
    qed
  qed
qed

lemma reconcile_foreign:
  assumes "by_name U remove" "transp (strings_EqualFold U)" "\<forall>want \<in> set desired. strings_EqualFold U (fr_Group want) grp"
  shows "foreign U grp (fs_rules (snd (fw_reconcile U remove grp desired mode rep s))) = foreign U grp (fs_rules s)"
proof -
  obtain r s' where rec: "fw_reconcile U remove grp desired mode rep s = (r, s')" by fastforce
  have r: "foreign U grp (fs_rules s') = foreign U grp (fs_rules s)" if "fs_rules s2 = fs_rules s"
    "\<forall>x \<in> set (fs_rules s). strings_EqualFold U (fr_Group x) grp \<longrightarrow> free U grp (fs_rules s) (fr_Name x)"
    "remove_rules U remove grp desired (map (shown U grp desired) (fs_rules s)) s2 = (r, s')" for s2
    using remove_rules_foreign [OF assms(1), of "map (shown U grp desired) (fs_rules s)" grp s2 desired] that by simp
  have e: "foreign U grp (fs_rules s3) = foreign U grp (fs_rules s)" if "fs_rules s2 = fs_rules s" "\<forall>want \<in> set desired. free U grp (fs_rules s) (fr_Name want)"
    "ensure_rules U remove mode (map (shown U grp desired) (fs_rules s)) desired s2 = (r3, s3)" for s2 r3 s3
    using ensure_foreign [OF assms(1,2), of desired grp s2 mode "map (shown U grp desired) (fs_rules s)"] that assms(3) by simp
  have "foreign U grp (fs_rules s') = foreign U grp (fs_rules s)" using reconcile_cases [OF rec] r e by fastforce
  then show ?thesis using rec by simp
qed

text \<open>What a verified rule is.\<close>

lemma rule_key_protocol: "fr_Protocol (rule_key U a) = fr_Protocol a"
  by (simp add: rule_key_def)

lemma verify_shown:
  assumes "verify_rules U (map (shown U grp desired) rs) wanted = None" "want \<in> set wanted" "fr_Protocol want \<in> {6, 17}"
  shows "\<exists>r. matching U rs (fr_Name want) = [r] \<and> sameRule U r want"
proof -
  have "length (matching U (map (shown U grp desired) rs) (fr_Name want)) = 1 \<and> sameRule U (hd (matching U (map (shown U grp desired) rs) (fr_Name want))) want"
    using assms(1,2) by (induction wanted) (auto simp: Let_def split: if_splits)
  then obtain r where r: "matching U rs (fr_Name want) = [r]" "sameRule U (shown U grp desired r) want"
    by (auto simp: matching_shown length_Suc_conv)
  have "fr_Protocol (shown U grp desired r) = fr_Protocol want" using r(2) unfolding sameRule_def by (metis rule_key_protocol)
  then show ?thesis using r shown_whole [of U grp desired r] assms(3) by simp
qed

lemma check_keeps: "ensure_rules U remove Check rules desired s = (r, s') \<Longrightarrow> s' = s"
  by (induction desired) (auto simp: Let_def split: if_splits)

lemma remove_clears:
  assumes "remove_rules U remove grp desired rules s = (None, s')"
  shows "\<forall>r \<in> set (fs_rules s'). \<not> strings_EqualFold U (fr_Group r) grp"
proof -
  obtain s1 remaining where l: "List U grp desired s1 = (Inr remaining, s')" "find (\<lambda>rule. strings_EqualFold U (fr_Group rule) grp) remaining = None"
    using assms by (auto simp: remove_rules_def split: prod.splits option.splits sum.splits)
  have "fs_rules s' = fs_rules s1" using list_keeps(1) [of U grp desired s1] l(1) by simp
  then show ?thesis using list_shown [of U grp desired s1 remaining] l by (auto simp: find_None_iff)
qed

subsection \<open>Repair\<close>

text \<open>\<open>Remove\<close> takes out one rule of the name, as the store of the repository's tests does.\<close>

definition one_gone :: "unicode \<Rightarrow> (string \<Rightarrow> fw_rule list \<Rightarrow> fw_rule list) \<Rightarrow> bool" where
  "one_gone U remove = (\<forall>n rs. length (matching U (remove n rs) n) = length (matching U rs n) - 1)"

definition distinct_names :: "unicode \<Rightarrow> fw_rule list \<Rightarrow> bool" where
  "distinct_names U rs = sorted_wrt (\<lambda>a b. \<not> strings_EqualFold U (fr_Name a) (fr_Name b)) rs"

lemma matching_fold: "equivp (strings_EqualFold U) \<Longrightarrow> strings_EqualFold U n m \<Longrightarrow> matching U rs n = matching U rs m"
  by (simp add: matching_def equivp_def)

lemma remove_other:
  assumes "by_name U remove" "equivp (strings_EqualFold U)" "\<not> strings_EqualFold U n m"
  shows "matching U (remove n rs) m = matching U rs m"
proof -
  let ?Q = "\<lambda>r. \<not> strings_EqualFold U (fr_Name r) n"
  have "matching U xs m = matching U (filter ?Q xs) m" for xs
    unfolding matching_def using assms(2,3) by (intro filter_of_filter [symmetric]) (metis equivp_def)
  then show ?thesis using assms(1) unfolding by_name_def by metis
qed

lemma delete_good: "fs_ios s = [] \<Longrightarrow> Delete remove n s = (None, s\<lparr>fs_rules := remove n (fs_rules s)\<rparr>)"
  by (simp add: Delete_def)

lemma deletes_good:
  assumes "by_name U remove" "one_gone U remove" "equivp (strings_EqualFold U)" "fs_ios s = []" "\<forall>x \<in> set xs. strings_EqualFold U (fr_Name x) n"
  shows "\<exists>s'. delete_all remove xs s = (None, s') \<and> fs_ios s' = [] \<and> length (matching U (fs_rules s') n) = length (matching U (fs_rules s) n) - length xs \<and>
    (\<forall>m. \<not> strings_EqualFold U n m \<longrightarrow> matching U (fs_rules s') m = matching U (fs_rules s) m)"
  using assms(4,5)
proof (induction xs arbitrary: s)
  case (Cons x xs)
  let ?s = "s\<lparr>fs_rules := remove (fr_Name x) (fs_rules s)\<rparr>"
  have x: "strings_EqualFold U (fr_Name x) n" using Cons.prems by simp
  from Cons.IH [of ?s] Cons.prems obtain s' where s': "delete_all remove xs ?s = (None, s')" "fs_ios s' = []"
    "length (matching U (fs_rules s') n) = length (matching U (fs_rules ?s) n) - length xs" "\<forall>m. \<not> strings_EqualFold U n m \<longrightarrow> matching U (fs_rules s') m = matching U (fs_rules ?s) m" by auto
  have "length (matching U (fs_rules ?s) n) = length (matching U (fs_rules s) n) - 1"
    using assms(2) matching_fold [OF assms(3) x] by (simp add: one_gone_def) (metis One_nat_def)
  moreover have "matching U (fs_rules ?s) m = matching U (fs_rules s) m" if "\<not> strings_EqualFold U n m" for m
  proof -
    have "\<not> strings_EqualFold U (fr_Name x) m" using that x assms(3) by (metis equivp_symp equivp_transp)
    then show ?thesis using remove_other [OF assms(1,3)] by simp
  qed
  ultimately show ?case using s' Cons.prems(1) by (simp add: delete_good)
qed simp

lemma ensure_good:
  assumes "by_name U remove" "one_gone U remove" "equivp (strings_EqualFold U)"
    and "fs_ios s = []" "distinct_names U desired" "\<forall>w \<in> set desired. sh w = w \<and> fr_Service w = []" "\<forall>x. fr_Name (sh x) = fr_Name x"
    and "\<forall>w \<in> set desired. matching U rules (fr_Name w) = map sh (matching U (fs_rules s) (fr_Name w))"
  shows "\<exists>s'. ensure_rules U remove Ensure rules desired s = (None, s') \<and> fs_ios s' = [] \<and>
    (\<forall>w \<in> set desired. \<exists>x. matching U (fs_rules s') (fr_Name w) = [x] \<and> sameRule U (sh x) w) \<and>
    (\<forall>n. (\<forall>w \<in> set desired. \<not> strings_EqualFold U (fr_Name w) n) \<longrightarrow> matching U (fs_rules s') n = matching U (fs_rules s) n)"
  using assms(4-6,8)
proof (induction desired arbitrary: s)
  case (Cons w ws)
  let ?n = "fr_Name w" and ?found = "matching U rules (fr_Name w)"
  have refl: "strings_EqualFold U x x" and symm: "strings_EqualFold U x y \<Longrightarrow> strings_EqualFold U y x" for x y
    using assms(3) by (auto intro: equivp_reflp equivp_symp)
  have ws: "\<forall>v \<in> set ws. \<not> strings_EqualFold U ?n (fr_Name v)" "distinct_names U ws" using Cons.prems(2) by (auto simp: distinct_names_def)
  have step: "\<exists>s1. ensure_rules U remove Ensure rules (w # ws) s = ensure_rules U remove Ensure rules ws s1 \<and> fs_ios s1 = [] \<and>
     (\<exists>x. matching U (fs_rules s1) ?n = [x] \<and> sameRule U (sh x) w) \<and> (\<forall>m. \<not> strings_EqualFold U ?n m \<longrightarrow> matching U (fs_rules s1) m = matching U (fs_rules s) m)"
  proof (cases "length ?found = 1 \<and> sameRule U (hd ?found) w")
    case True
    then have "\<exists>x. matching U (fs_rules s) ?n = [x] \<and> sameRule U (sh x) w" using Cons.prems(4) by (auto simp: length_Suc_conv)
    then show ?thesis using True Cons.prems(1) by (auto simp: Let_def)
  next
    case False
    obtain s1 where s1: "delete_all remove ?found s = (None, s1)" "fs_ios s1 = []" "matching U (fs_rules s1) ?n = []"
      "\<forall>m. \<not> strings_EqualFold U ?n m \<longrightarrow> matching U (fs_rules s1) m = matching U (fs_rules s) m"
      using deletes_good [OF assms(1-3) Cons.prems(1), of ?found ?n] Cons.prems(4) assms(7) by (auto simp: matching_def)
    have a: "Add w s1 = (None, s1\<lparr>fs_rules := fs_rules s1 @ [w]\<rparr>)" using s1(2) Cons.prems(3) by (simp add: Add_def calls_good)
    have "matching U (fs_rules s1 @ [w]) ?n = [w]" "sameRule U (sh w) w" using s1(3) refl Cons.prems(3) by (simp_all add: matching_def sameRule_def)
    moreover have "\<forall>m. \<not> strings_EqualFold U ?n m \<longrightarrow> matching U (fs_rules s1 @ [w]) m = matching U (fs_rules s) m" using s1(4) by (simp add: matching_def)
    moreover have "ensure_rules U remove Ensure rules (w # ws) s = ensure_rules U remove Ensure rules ws (s1\<lparr>fs_rules := fs_rules s1 @ [w]\<rparr>)"
      using False s1(1) a by (auto simp: Let_def)
    ultimately show ?thesis using s1(2) by (intro exI [of _ "s1\<lparr>fs_rules := fs_rules s1 @ [w]\<rparr>"]) simp
  qed
  then obtain s1 where s1: "ensure_rules U remove Ensure rules (w # ws) s = ensure_rules U remove Ensure rules ws s1" "fs_ios s1 = []"
    "\<exists>x. matching U (fs_rules s1) ?n = [x] \<and> sameRule U (sh x) w" "\<forall>m. \<not> strings_EqualFold U ?n m \<longrightarrow> matching U (fs_rules s1) m = matching U (fs_rules s) m" by blast
  from Cons.IH [of s1] s1(2,4) ws Cons.prems(3,4) obtain s' where s': "ensure_rules U remove Ensure rules ws s1 = (None, s')" "fs_ios s' = []"
    "\<forall>w \<in> set ws. \<exists>x. matching U (fs_rules s') (fr_Name w) = [x] \<and> sameRule U (sh x) w"
    "\<forall>n. (\<forall>w \<in> set ws. \<not> strings_EqualFold U (fr_Name w) n) \<longrightarrow> matching U (fs_rules s') n = matching U (fs_rules s1) n" by auto
  have "matching U (fs_rules s') ?n = matching U (fs_rules s1) ?n" using s'(4) ws(1) symm by blast
  then show ?case using s1 s' by simp
qed simp

lemma item_good: "fs_ios s = [] \<Longrightarrow> readItem U grp desired r s = (Inr (shown U grp desired r), s)"
  by (simp add: readItem_def readRule_def calls_good shown_def zero_rule_def Let_def)

lemma list_good: "fs_ios s = [] \<Longrightarrow> List U grp desired s = (Inr (map (shown U grp desired) (fs_rules s)), s)"
proof -
  assume s: "fs_ios s = []"
  have "list_items U grp desired rs s = (Inr (map (shown U grp desired) rs), s)" for rs
    by (induction rs) (simp_all add: calls_good s item_good)
  then show ?thesis using s by (simp add: List_def calls_good)
qed

lemma free_none: "free U grp rs n \<Longrightarrow> first_foreign U grp (matching U rs n) = None"
  by (auto simp: first_foreign_def find_None_iff free_def foreign_def matching_def)

lemma preflight_good: "\<forall>w \<in> set desired. free U grp rules (fr_Name w) \<Longrightarrow> preflight U grp True rules desired = None"
  by (induction desired) (simp_all add: Let_def free_none)

lemma verify_good: "\<forall>w \<in> set desired. \<exists>x. matching U actual (fr_Name w) = [x] \<and> sameRule U x w \<Longrightarrow> verify_rules U actual desired = None"
  by (induction desired) (auto simp: Let_def)

text \<open>The store of the repository's tests.\<close>

fun memory_remove :: "unicode \<Rightarrow> string \<Rightarrow> fw_rule list \<Rightarrow> fw_rule list" where
  "memory_remove U n [] = []"
| "memory_remove U n (r # rs) = (if strings_EqualFold U (fr_Name r) n then rs else r # memory_remove U n rs)"

lemma memory_by_name: "by_name U (memory_remove U)"
proof -
  have "set (memory_remove U n rs) \<subseteq> set rs \<and>
    filter (\<lambda>r. \<not> strings_EqualFold U (fr_Name r) n) (memory_remove U n rs) = filter (\<lambda>r. \<not> strings_EqualFold U (fr_Name r) n) rs" for n rs
    by (induction rs) auto
  then show ?thesis by (simp add: by_name_def)
qed

lemma memory_one_gone: "one_gone U (memory_remove U)"
proof -
  have "length (matching U (memory_remove U n rs) n) = length (matching U rs n) - 1" for n rs
    by (induction rs) (auto simp: matching_def length_greater_0_conv [symmetric] simp del: length_greater_0_conv)
  then show ?thesis by (simp add: one_gone_def)
qed

lemma ascii_equivp: "equivp (strings_EqualFold ascii_only)"
proof -
  have "strings_EqualFold ascii_only s t = (map ascii_lower s = map ascii_lower t)" for s t
    by (simp add: strings_EqualFold_def ascii_only_def)
  then show ?thesis by (auto intro!: equivpI reflpI sympI transpI)
qed

text \<open>An example: a rule of somebody else, and a doubled stale rule of the service.\<close>

definition toy_wanted :: "fw_rule list" where
  "toy_wanted = [Inbound ''t'' ''g'' ''a'' 6 ''1'', Inbound ''u'' ''g'' ''a'' 17 ''2'']"

definition toy_foreign :: fw_rule where "toy_foreign = Inbound ''x'' ''h'' ''b'' 6 ''3''"

definition toy_store :: "io list \<Rightarrow> fw_store" where
  "toy_store ios = \<lparr>fs_rules = [Inbound ''T'' ''g'' ''old'' 6 ''1'', toy_foreign, Inbound ''t'' ''G'' ''old'' 6 ''1''], fs_modify = 0, fs_ios = ios\<rparr>"

lemma toy_fold: "strings_EqualFold ascii_only s t = (map ascii_lower s = map ascii_lower t)"
  by (simp add: strings_EqualFold_def ascii_only_def)

lemma toy_names: "distinct_names ascii_only toy_wanted" "\<forall>w \<in> set toy_wanted. free ascii_only ''g'' (fs_rules (toy_store ios)) (fr_Name w)"
  "\<forall>w \<in> set toy_wanted. strings_EqualFold ascii_only (fr_Group w) ''g'' \<and> fr_Protocol w \<in> {6, 17} \<and> fr_Service w = []"
  by (simp_all add: distinct_names_def toy_wanted_def Inbound_def toy_fold free_def foreign_def toy_store_def toy_foreign_def ascii_lower_def byte_val_def char_of_def bit_0)

lemma toy_others: "foreign ascii_only ''g'' (fs_rules (toy_store ios)) = [toy_foreign]"
  by (simp add: foreign_def toy_store_def toy_foreign_def Inbound_def toy_fold ascii_lower_def byte_val_def char_of_def bit_0)

lemma ascii_transp: "transp (strings_EqualFold ascii_only)"
  using ascii_equivp by (rule equivp_imp_transp)

section \<open>Properties\<close>

text \<open>
  C34. Rules of others are never touched: in every mode and whichever calls fail, with or without effect, the rules
  of other groups stay as they are, in place and content.
\<close>

theorem firewall_foreign_kept:
  assumes "by_name U remove" "transp (strings_EqualFold U)" "\<forall>want \<in> set desired. strings_EqualFold U (fr_Group want) grp"
  shows "foreign U grp (fs_rules (snd (fw_Apply U remove grp desired mode rep s))) = foreign U grp (fs_rules s)"
proof -
  obtain ok s1 where c: "fs_calls 4 s = (ok, s1)" by fastforce
  then have "fs_rules s1 = fs_rules s" using calls_keep(1) [of 4 s] by simp
  then show ?thesis using reconcile_foreign [OF assms, of mode rep s1] by (simp add: fw_Apply_def c)
qed

theorem firewall_foreign_kept_witness:
  "foreign ascii_only ''g'' (fs_rules (snd (fw_Apply ascii_only (memory_remove ascii_only) ''g'' toy_wanted Remove True (toy_store [Done, Done, Done, Done, Partial])))) = [toy_foreign]"
  using firewall_foreign_kept [OF memory_by_name ascii_transp, of toy_wanted "''g''" Remove True "toy_store [Done, Done, Done, Done, Partial]"] toy_names(3)
  by (simp add: toy_others)

text \<open>
  Success means what it says. When rules are ensured or checked without an error, each of them is there exactly
  once, with the scope it should have; a check changes nothing, however it ends; and when the rules are
  removed without an error, no rule of the group is left.
\<close>

theorem firewall_success_sound:
  assumes "fw_reconcile U remove grp desired mode rep s = (r, s')"
  shows "(mode = Check \<longrightarrow> fs_rules s' = fs_rules s) \<and>
    (r = None \<and> mode \<noteq> Remove \<longrightarrow> (\<forall>want \<in> set desired. fr_Protocol want \<in> {6, 17} \<longrightarrow> (\<exists>x. matching U (fs_rules s') (fr_Name want) = [x] \<and> sameRule U x want))) \<and>
    (r = None \<and> mode = Remove \<longrightarrow> foreign U grp (fs_rules s') = fs_rules s')"
proof -
  note c = reconcile_cases [OF assms]
  have "mode = Check \<longrightarrow> fs_rules s' = fs_rules s" using c check_keeps by fastforce
  moreover have "r = None \<and> mode \<noteq> Remove \<longrightarrow> verify_rules U (map (shown U grp desired) (fs_rules s')) desired = None" using c by auto
  moreover have "r = None \<and> mode = Remove \<longrightarrow> (\<forall>x \<in> set (fs_rules s'). \<not> strings_EqualFold U (fr_Group x) grp)" using c remove_clears by blast
  ultimately show ?thesis using verify_shown [of U grp desired "fs_rules s'" desired] by (auto simp: foreign_def)
qed

theorem firewall_success_sound_witness:
  "\<exists>s'. fw_reconcile ascii_only (memory_remove ascii_only) ''g'' toy_wanted Remove True (toy_store []) = (None, s') \<and> foreign ascii_only ''g'' (fs_rules s') = fs_rules s'"
proof -
  have "fst (fw_reconcile ascii_only (memory_remove ascii_only) ''g'' toy_wanted Remove True (toy_store [])) = None"
    by code_simp
  then obtain s' where s: "fw_reconcile ascii_only (memory_remove ascii_only) ''g'' toy_wanted Remove True (toy_store []) = (None, s')" by (metis prod.collapse)
  from firewall_success_sound [OF s] show ?thesis using s by blast
qed

text \<open>
  Rules are repaired. Whatever rules of the group there are, stale, doubled or missing, as long as no other group
  uses the reserved names and the calls succeed, one run puts every rule in place exactly once and reports
  success.
\<close>

theorem firewall_repairs:
  assumes "by_name U remove" "one_gone U remove" "equivp (strings_EqualFold U)"
    and "fs_ios s = []" "fs_modify s = 0" "distinct_names U desired" "\<forall>w \<in> set desired. free U grp (fs_rules s) (fr_Name w)"
    and "\<forall>w \<in> set desired. strings_EqualFold U (fr_Group w) grp \<and> fr_Protocol w \<in> {6, 17} \<and> fr_Service w = []"
  shows "\<exists>s'. fw_reconcile U remove grp desired Ensure True s = (None, s') \<and>
    (\<forall>want \<in> set desired. \<exists>x. matching U (fs_rules s') (fr_Name want) = [x] \<and> sameRule U x want)"
proof -
  let ?sh = "shown U grp desired"
  have reserved: "list_ex (\<lambda>v. strings_EqualFold U (fr_Name w) (fr_Name v)) desired" if "w \<in> set desired" for w
    using that equivp_reflp [OF assms(3), of "fr_Name w"] by (auto simp: list_ex_iff)
  then have sh: "\<forall>w \<in> set desired. ?sh w = w \<and> fr_Service w = []" using assms(8) by (auto simp: shown_def Let_def)
  have m: "\<forall>w \<in> set desired. matching U (map ?sh (fs_rules s)) (fr_Name w) = map ?sh (matching U (fs_rules s) (fr_Name w))" by (simp add: matching_shown)
  have nm: "\<forall>x. fr_Name (?sh x) = fr_Name x" by simp
  from ensure_good [OF assms(1-4,6) sh nm m] obtain s' where s': "ensure_rules U remove Ensure (map ?sh (fs_rules s)) desired s = (None, s')" "fs_ios s' = []"
    "\<forall>w \<in> set desired. \<exists>x. matching U (fs_rules s') (fr_Name w) = [x] \<and> sameRule U (?sh x) w" by blast
  have "\<forall>w \<in> set desired. \<exists>x. matching U (map ?sh (fs_rules s')) (fr_Name w) = [x] \<and> sameRule U x w"
  proof
    fix w assume "w \<in> set desired"
    with s'(3) obtain x where "matching U (fs_rules s') (fr_Name w) = [x]" "sameRule U (?sh x) w" by blast
    then show "\<exists>x. matching U (map ?sh (fs_rules s')) (fr_Name w) = [x] \<and> sameRule U x w" by (simp add: matching_shown)
  qed
  from verify_good [OF this] have v: "verify_rules U (map ?sh (fs_rules s')) desired = None" .
  have "\<forall>w \<in> set desired. free U grp (map ?sh (fs_rules s)) (fr_Name w)" using assms(7) by (simp add: free_shown)
  from preflight_good [OF this] have "fw_reconcile U remove grp desired Ensure True s = (None, s')"
    using s'(1,2) v assms(4,5) by (simp add: fw_reconcile_def list_good Modifiable_def calls_good)
  then show ?thesis using verify_shown [OF v] assms(8) by blast
qed

theorem firewall_repairs_witness:
  "\<exists>s'. fw_reconcile ascii_only (memory_remove ascii_only) ''g'' toy_wanted Ensure True (toy_store []) = (None, s') \<and>
    (\<forall>want \<in> set toy_wanted. \<exists>x. matching ascii_only (fs_rules s') (fr_Name want) = [x] \<and> sameRule ascii_only x want)"
  by (rule firewall_repairs [OF memory_by_name memory_one_gone ascii_equivp _ _ toy_names]) (simp_all add: toy_store_def)

end
