(* ===== verification/Auth_Keys.thy ===== *)
theory Auth_Keys
  imports Auth_Query
begin

text \<open>
  The key manager of \<open>route/auth/auth.go\<close>: the ring of the current and the previous client key,
  the operating-system user bound to the service, and their files. Base64, SHA-256, PEM, PKIX and
  Ed25519 are parameters (the record \<open>crypto\<close>); \<open>km_io\<close> is the script of system-call outcomes.
  The mutex makes each operation atomic, so operations are state transformers.
\<close>

section \<open>Definitions\<close>

record 'k crypto =
  b64_decode :: "string \<Rightarrow> string option"
  b64_encode :: "string \<Rightarrow> string"
  sha256_hex :: "string \<Rightarrow> string"
  pem_decode :: "string \<Rightarrow> string option"
  parse_pkix :: "string \<Rightarrow> 'k option option"
  ed25519_verify :: "'k \<Rightarrow> string \<Rightarrow> string \<Rightarrow> bool"

text \<open>\<open>parse_pkix\<close> answers \<open>Some None\<close> for a key that parses but is not an Ed25519 key.\<close>

record authorized_principal =
  ap_Type :: string
  ap_Value :: string

record stored_public_key =
  spk_KeyID :: string
  spk_PublicKey :: string

record key_ring =
  kr_Current :: "stored_public_key option"
  kr_Previous :: "stored_public_key option"

record 'k key_manager =
  km_publicKeys :: "string \<rightharpoonup> 'k"
  km_currentKey :: "stored_public_key option"
  km_previousKey :: "stored_public_key option"
  km_authorizedPrincipal :: "authorized_principal option"
  km_keyRingFile :: "key_ring store"
  km_legacyKeyFile :: "string option"
  km_principalFile :: "authorized_principal store"
  km_io :: "io list"

definition ErrAlreadyInitialized :: err where
  "ErrAlreadyInitialized = Plain ''service authentication is already initialized''"

text \<open>\<open>&KeyManager{}\<close> of \<open>GetKeyManager\<close>, over the files the directory holds.\<close>

definition GetKeyManager ::
  "key_ring store \<Rightarrow> string option \<Rightarrow> authorized_principal store \<Rightarrow> io list \<Rightarrow> 'k key_manager" where
  "GetKeyManager ring legacy prin ios =
     \<lparr>km_publicKeys = Map.empty, km_currentKey = None, km_previousKey = None,
      km_authorizedPrincipal = None, km_keyRingFile = ring, km_legacyKeyFile = legacy,
      km_principalFile = prin, km_io = ios\<rparr>"

definition key_id_char :: "char \<Rightarrow> bool" where
  "key_id_char c =
     (let n = byte_val c in
      (97 \<le> n \<and> n \<le> 122) \<or> (65 \<le> n \<and> n \<le> 90) \<or> (48 \<le> n \<and> n \<le> 57) \<or> c \<in> set ''-_.'')"

definition validateKeyID :: "string \<Rightarrow> string res" where
  "validateKeyID keyID =
     (let normalized = trim_space keyID in
      if normalized = [] then Inl (Plain ''Key ID cannot be empty'')
      else if length normalized > 128 then Inl (Plain ''Key ID is too long'')
      else if \<not> list_all key_id_char normalized then Inl (Plain ''Invalid key ID format'')
      else Inr normalized)"

definition computeKeyID :: "'k crypto \<Rightarrow> string \<Rightarrow> string res" where
  "computeKeyID C pubKeyBase64 =
     (case b64_decode C (trim_space pubKeyBase64) of
        None \<Rightarrow> Inl (Wrapped ''Failed to decode public key Base64'' SysErr)
      | Some keyBytes \<Rightarrow> Inr (sha256_hex C keyBytes))"

definition parsePublicKey :: "'k crypto \<Rightarrow> string \<Rightarrow> (string \<times> 'k) res" where
  "parsePublicKey C pubKeyBase64 =
     (let normalized = trim_space pubKeyBase64 in
      if normalized = [] then Inl (Plain ''Public key cannot be empty'')
      else (case b64_decode C normalized of
          None \<Rightarrow> Inl (Wrapped ''Failed to decode public key Base64'' SysErr)
        | Some pubKeyBytes \<Rightarrow>
            (case parse_pkix C pubKeyBytes of
               None \<Rightarrow> Inl (Wrapped ''Failed to parse public key'' SysErr)
             | Some None \<Rightarrow> Inl (Plain ''Public key is not an Ed25519 key'')
             | Some (Some edPub) \<Rightarrow> Inr (normalized, edPub))))"

definition sameStoredPublicKey :: "stored_public_key option \<Rightarrow> stored_public_key option \<Rightarrow> bool" where
  "sameStoredPublicKey left right =
     (case (left, right) of
        (Some l, Some r) \<Rightarrow> spk_KeyID l = spk_KeyID r \<and> spk_PublicKey l = spk_PublicKey r
      | _ \<Rightarrow> left = None \<and> right = None)"

definition normalizeStoredPublicKey ::
  "'k crypto \<Rightarrow> stored_public_key option \<Rightarrow> stored_public_key option res" where
  "normalizeStoredPublicKey C stored =
     (case stored of
        None \<Rightarrow> Inr None
      | Some st \<Rightarrow>
          (case parsePublicKey C (spk_PublicKey st) of
             Inl e \<Rightarrow> Inl e
           | Inr (normalizedPublicKey, _) \<Rightarrow>
               (case computeKeyID C normalizedPublicKey of
                  Inl e \<Rightarrow> Inl e
                | Inr computedKeyID \<Rightarrow>
                    (let keyID = trim_space (spk_KeyID st) in
                     if keyID = [] then
                       Inr (Some \<lparr>spk_KeyID = computedKeyID, spk_PublicKey = normalizedPublicKey\<rparr>)
                     else (case validateKeyID keyID of
                         Inl e \<Rightarrow> Inl e
                       | Inr keyID' \<Rightarrow>
                           if keyID' \<noteq> computedKeyID then Inl (Plain ''Key ID does not match public key'')
                           else Inr (Some \<lparr>spk_KeyID = keyID', spk_PublicKey = normalizedPublicKey\<rparr>))))))"

text \<open>The map \<open>refreshPublicKeysLocked\<close> builds; it is stored only when both keys parse.\<close>

definition ring_keys ::
  "'k crypto \<Rightarrow> stored_public_key option \<Rightarrow> stored_public_key option \<Rightarrow> (string \<rightharpoonup> 'k) res" where
  "ring_keys C cur prev =
     (case (case cur of None \<Rightarrow> Inr Map.empty
            | Some c \<Rightarrow> (case parsePublicKey C (spk_PublicKey c) of
                 Inl e \<Rightarrow> Inl e | Inr (_, k) \<Rightarrow> Inr [spk_KeyID c \<mapsto> k])) of
        Inl e \<Rightarrow> Inl e
      | Inr keys \<Rightarrow>
          (case prev of None \<Rightarrow> Inr keys
           | Some p \<Rightarrow> (case parsePublicKey C (spk_PublicKey p) of
                Inl e \<Rightarrow> Inl e | Inr (_, k) \<Rightarrow> Inr (keys(spk_KeyID p \<mapsto> k)))))"

definition refreshPublicKeysLocked :: "'k crypto \<Rightarrow> 'k key_manager \<Rightarrow> err option \<times> 'k key_manager" where
  "refreshPublicKeysLocked C km =
     (case ring_keys C (km_currentKey km) (km_previousKey km) of
        Inl e \<Rightarrow> (Some e, km)
      | Inr keys \<Rightarrow> (None, km\<lparr>km_publicKeys := keys\<rparr>))"

text \<open>\<open>os.WriteFile\<close> truncates before it writes: a failure can leave a broken file.\<close>

definition write_file :: "'a store \<Rightarrow> 'a \<Rightarrow> io list \<Rightarrow> bool \<times> 'a store \<times> io list" where
  "write_file old v ios =
     (case next_io ios of
        (Done, r) \<Rightarrow> (True, Stored v, r)
      | (Fails, r) \<Rightarrow> (False, old, r)
      | (Partial, r) \<Rightarrow> (False, Garbage, r))"

definition savePublicKeysLocked :: "'k key_manager \<Rightarrow> err option \<times> 'k key_manager" where
  "savePublicKeysLocked km =
     (case write_file (km_keyRingFile km)
             \<lparr>kr_Current = km_currentKey km, kr_Previous = km_previousKey km\<rparr> (km_io km) of
        (ok, f, r) \<Rightarrow>
          (if ok then None else Some (Wrapped ''Failed to save public key'' SysErr),
           km\<lparr>km_keyRingFile := f, km_io := r\<rparr>))"

definition loadLegacyPublicKeyLocked ::
  "'k crypto \<Rightarrow> 'k key_manager \<Rightarrow> stored_public_key res \<times> 'k key_manager" where
  "loadLegacyPublicKeyLocked C km0 =
     (case next_io (km_io km0) of (o1, r) \<Rightarrow>
      let km = km0\<lparr>km_io := r\<rparr> in
      if o1 \<noteq> Done then (Inl (Wrapped ''Failed to read public key file'' SysErr), km)
      else (case km_legacyKeyFile km of
          None \<Rightarrow> (Inl (Plain ''Public key file does not exist (service is not initialized)''), km)
        | Some pubKeyPEM \<Rightarrow>
            (case pem_decode C pubKeyPEM of
               None \<Rightarrow> (Inl (Plain ''Invalid PEM format''), km)
             | Some bytes \<Rightarrow>
                 (case parse_pkix C bytes of
                    None \<Rightarrow> (Inl (Wrapped ''Failed to parse public key'' SysErr), km)
                  | Some _ \<Rightarrow>
                      (let publicKey = b64_encode C bytes in
                       case computeKeyID C publicKey of
                         Inl e \<Rightarrow> (Inl e, km)
                       | Inr keyID \<Rightarrow> (Inr \<lparr>spk_KeyID = keyID, spk_PublicKey = publicKey\<rparr>, km))))))"

definition loadPublicKeys :: "'k crypto \<Rightarrow> 'k key_manager \<Rightarrow> err option \<times> 'k key_manager" where
  "loadPublicKeys C km0 =
     (case next_io (km_io km0) of (o1, r) \<Rightarrow>
      let km = km0\<lparr>km_io := r\<rparr> in
      if o1 \<noteq> Done then (Some (Wrapped ''Failed to read public key file'' SysErr), km)
      else (case km_keyRingFile km of
          Garbage \<Rightarrow> (Some (Wrapped ''Failed to parse public key'' SysErr), km)
        | Stored ring \<Rightarrow>
            (case normalizeStoredPublicKey C (kr_Current ring) of
               Inl e \<Rightarrow> (Some e, km)
             | Inr None \<Rightarrow> (Some (Plain ''Current public key does not exist (service is not initialized)''), km)
             | Inr (Some currentKey) \<Rightarrow>
                 (case normalizeStoredPublicKey C (kr_Previous ring) of
                    Inl e \<Rightarrow> (Some e, km)
                  | Inr previousKey \<Rightarrow>
                      refreshPublicKeysLocked C
                        (km\<lparr>km_currentKey := Some currentKey,
                            km_previousKey :=
                              (if sameStoredPublicKey (Some currentKey) previousKey then None else previousKey)\<rparr>)))
        | Absent \<Rightarrow>
            (case loadLegacyPublicKeyLocked C km of
               (Inl e, km') \<Rightarrow> (Some e, km')
             | (Inr legacyKey, km') \<Rightarrow>
                 refreshPublicKeysLocked C (km'\<lparr>km_currentKey := Some legacyKey, km_previousKey := None\<rparr>))))"

definition SetPublicKey :: "'k crypto \<Rightarrow> string \<Rightarrow> 'k key_manager \<Rightarrow> bool res \<times> 'k key_manager" where
  "SetPublicKey C pubKeyBase64 km =
     (case parsePublicKey C pubKeyBase64 of
        Inl e \<Rightarrow> (Inl e, km)
      | Inr (normalizedPublicKey, _) \<Rightarrow>
        (case computeKeyID C normalizedPublicKey of
           Inl e \<Rightarrow> (Inl e, km)
         | Inr keyID \<Rightarrow>
           (let nextCurrentKey = Some \<lparr>spk_KeyID = keyID, spk_PublicKey = normalizedPublicKey\<rparr> in
            if sameStoredPublicKey (km_currentKey km) nextCurrentKey then (Inr False, km)
            else
              (let previousCurrentKey = km_currentKey km;
                   previousPreviousKey = km_previousKey km;
                   km1 = km\<lparr>km_currentKey := nextCurrentKey,
                            km_previousKey :=
                              (if previousCurrentKey \<noteq> None \<and> \<not> sameStoredPublicKey previousCurrentKey nextCurrentKey
                               then previousCurrentKey else None)\<rparr>;
                   rollback = (\<lambda>k. snd (refreshPublicKeysLocked C
                       (k\<lparr>km_currentKey := previousCurrentKey, km_previousKey := previousPreviousKey\<rparr>)))
               in case refreshPublicKeysLocked C km1 of
                    (Some e, km2) \<Rightarrow> (Inl e, rollback km2)
                  | (None, km2) \<Rightarrow>
                      (case savePublicKeysLocked km2 of
                         (Some e, km3) \<Rightarrow> (Inl e, rollback km3)
                       | (None, km3) \<Rightarrow> (Inr True, km3))))))"

text \<open>
  \<open>writeBootstrapFile\<close>: create, chmod, write, sync and close a temporary file, then \<open>os.Link\<close>,
  which is atomic and fails when the target exists.
\<close>

definition writeBootstrapFile :: "'a store \<Rightarrow> 'a \<Rightarrow> io list \<Rightarrow> bool \<times> 'a store \<times> io list" where
  "writeBootstrapFile old v ios =
     (case run_ios 5 ios of
        (False, r) \<Rightarrow> (False, old, r)
      | (True, r) \<Rightarrow>
          (case next_io r of (o1, r') \<Rightarrow>
             if o1 = Done \<and> old = Absent then (True, Stored v, r') else (False, old, r')))"

definition validateAuthorizedPrincipal :: "authorized_principal \<Rightarrow> authorized_principal res" where
  "validateAuthorizedPrincipal prin =
     (let p = \<lparr>ap_Type = trim_space (ap_Type prin), ap_Value = trim_space (ap_Value prin)\<rparr> in
      if ap_Type p = ''uid'' then
        (if ap_Value p = [] then Inl (Plain ''UID cannot be empty'')
         else if parse_uint 32 (ap_Value p) = None then Inl (Wrapped ''Invalid UID format'' SysErr)
         else Inr p)
      else if ap_Type p = ''sid'' then
        (if ap_Value p = [] then Inl (Plain ''SID cannot be empty'')
         else if \<not> has_prefix (ap_Value p) ''S-'' then Inl (Plain ''Invalid SID format'')
         else Inr p)
      else Inl (Plainf ''Unsupported authorized principal type'' [ap_Type p]))"

text \<open>\<open>os.Lstat\<close> answers "does not exist" only when the call succeeds and the file is absent.\<close>

definition BootstrapPublicKeyForUID ::
  "'k crypto \<Rightarrow> string \<Rightarrow> 32 word \<Rightarrow> 'k key_manager \<Rightarrow> err option \<times> 'k key_manager" where
  "BootstrapPublicKeyForUID C pubKeyBase64 uid km =
     (case parsePublicKey C pubKeyBase64 of
        Inl e \<Rightarrow> (Some e, km)
      | Inr (normalizedPublicKey, parsedPublicKey) \<Rightarrow>
        (case computeKeyID C normalizedPublicKey of
           Inl e \<Rightarrow> (Some e, km)
         | Inr keyID \<Rightarrow>
           (case validateAuthorizedPrincipal \<lparr>ap_Type = ''uid'', ap_Value = format_nat (unat uid)\<rparr> of
              Inl e \<Rightarrow> (Some e, km)
            | Inr prin \<Rightarrow>
              (let currentKey = \<lparr>spk_KeyID = keyID, spk_PublicKey = normalizedPublicKey\<rparr> in
               if km_currentKey km \<noteq> None \<or> km_authorizedPrincipal km \<noteq> None then (Some ErrAlreadyInitialized, km)
               else (case next_io (km_io km) of (o1, r1) \<Rightarrow>
                 if \<not> (o1 = Done \<and> km_keyRingFile km = Absent) then
                   (Some (Plain ''bootstrap public key state already exists''), km\<lparr>km_io := r1\<rparr>)
                 else (case next_io r1 of (o2, r2) \<Rightarrow>
                   if \<not> (o2 = Done \<and> km_principalFile km = Absent) then
                     (Some (Plain ''bootstrap principal state already exists''), km\<lparr>km_io := r2\<rparr>)
                   else (case writeBootstrapFile (km_keyRingFile km)
                                 \<lparr>kr_Current = Some currentKey, kr_Previous = None\<rparr> r2 of
                     (False, f1, r3) \<Rightarrow>
                       (Some (Wrapped ''save bootstrap public key'' SysErr), km\<lparr>km_keyRingFile := f1, km_io := r3\<rparr>)
                   | (True, f1, r3) \<Rightarrow>
                       (case writeBootstrapFile (km_principalFile km) prin r3 of
                          (False, f2, r4) \<Rightarrow>
                            (case next_io r4 of (o5, r5) \<Rightarrow>
                               (Some (Wrapped ''save bootstrap principal'' SysErr),
                                km\<lparr>km_keyRingFile := (if o5 = Done then Absent else f1),
                                   km_principalFile := f2, km_io := r5\<rparr>))
                        | (True, f2, r4) \<Rightarrow>
                            (None, km\<lparr>km_currentKey := Some currentKey, km_previousKey := None,
                                      km_publicKeys := [keyID \<mapsto> parsedPublicKey],
                                      km_authorizedPrincipal := Some prin,
                                      km_keyRingFile := f1, km_principalFile := f2, km_io := r4\<rparr>)))))))))"

definition sameAuthorizedPrincipal :: "authorized_principal option \<Rightarrow> authorized_principal option \<Rightarrow> bool" where
  "sameAuthorizedPrincipal left right =
     (case (left, right) of
        (Some l, Some r) \<Rightarrow> ap_Type l = ap_Type r \<and> ap_Value l = ap_Value r
      | _ \<Rightarrow> left = None \<and> right = None)"

definition setAuthorizedPrincipal ::
  "authorized_principal \<Rightarrow> 'k key_manager \<Rightarrow> bool res \<times> 'k key_manager" where
  "setAuthorizedPrincipal prin0 km =
     (case validateAuthorizedPrincipal prin0 of
        Inl e \<Rightarrow> (Inl e, km)
      | Inr prin \<Rightarrow>
          if sameAuthorizedPrincipal (km_authorizedPrincipal km) (Some prin) then (Inr False, km)
          else (case write_file (km_principalFile km) prin (km_io km) of
              (False, f, r) \<Rightarrow>
                (Inl (Wrapped ''Failed to save authorized principal'' SysErr), km\<lparr>km_principalFile := f, km_io := r\<rparr>)
            | (True, f, r) \<Rightarrow>
                (Inr True, km\<lparr>km_principalFile := f, km_io := r, km_authorizedPrincipal := Some prin\<rparr>)))"

definition SetAuthorizedUID :: "32 word \<Rightarrow> 'k key_manager \<Rightarrow> bool res \<times> 'k key_manager" where
  "SetAuthorizedUID uid = setAuthorizedPrincipal \<lparr>ap_Type = ''uid'', ap_Value = format_nat (unat uid)\<rparr>"

definition SetAuthorizedSID :: "string \<Rightarrow> 'k key_manager \<Rightarrow> bool res \<times> 'k key_manager" where
  "SetAuthorizedSID sid = setAuthorizedPrincipal \<lparr>ap_Type = ''sid'', ap_Value = trim_space sid\<rparr>"

definition loadAuthorizedPrincipal :: "'k key_manager \<Rightarrow> err option \<times> 'k key_manager" where
  "loadAuthorizedPrincipal km0 =
     (case next_io (km_io km0) of (o1, r) \<Rightarrow>
      let km = km0\<lparr>km_io := r\<rparr> in
      if o1 \<noteq> Done then (Some (Wrapped ''Failed to read authorized principal file'' SysErr), km)
      else (case km_principalFile km of
          Absent \<Rightarrow> (Some (Plain ''Authorized principal file does not exist (requestor identity is not bound)''), km)
        | Garbage \<Rightarrow> (Some (Wrapped ''Failed to parse authorized principal'' SysErr), km)
        | Stored prin0 \<Rightarrow>
            (case validateAuthorizedPrincipal prin0 of
               Inl e \<Rightarrow> (Some e, km)
             | Inr prin \<Rightarrow> (None, km\<lparr>km_authorizedPrincipal := Some prin\<rparr>))))"

definition InitKeyManager :: "'k crypto \<Rightarrow> 'k key_manager \<Rightarrow> err option \<times> 'k key_manager" where
  "InitKeyManager C km0 =
     (case next_io (km_io km0) of (o1, r) \<Rightarrow>
      let km = km0\<lparr>km_io := r\<rparr> in
      if o1 \<noteq> Done then (Some (Wrapped ''Failed to create key directory'' SysErr), km)
      else (case loadPublicKeys C km of (e1, km1) \<Rightarrow>
            case loadAuthorizedPrincipal km1 of (e2, km2) \<Rightarrow>
              (errors_Join [e1, e2], km2)))"

definition VerifySignature :: "'k crypto \<Rightarrow> 'k key_manager \<Rightarrow> string \<Rightarrow> string \<Rightarrow> string \<Rightarrow> err option" where
  "VerifySignature C km keyID message signature =
     (case validateKeyID keyID of
        Inl e \<Rightarrow> Some e
      | Inr normalizedKeyID \<Rightarrow>
          (case km_publicKeys km normalizedKeyID of
             None \<Rightarrow> Some (Plain ''Key ID is not registered'')
           | Some publicKey \<Rightarrow>
               (case b64_decode C signature of
                  None \<Rightarrow> Some (Wrapped ''Failed to decode signature'' SysErr)
                | Some sig \<Rightarrow>
                    if \<not> ed25519_verify C publicKey message sig
                    then Some (Plain ''Signature verification failed'') else None)))"

definition IsInitialized :: "'k key_manager \<Rightarrow> bool" where
  "IsInitialized km = (case km_currentKey km of None \<Rightarrow> False | Some c \<Rightarrow> spk_KeyID c \<noteq> [])"

definition HasAuthorizedPrincipal :: "'k key_manager \<Rightarrow> bool" where
  "HasAuthorizedPrincipal km = (km_authorizedPrincipal km \<noteq> None)"

definition GetAuthorizedSID :: "'k key_manager \<Rightarrow> string option" where
  "GetAuthorizedSID km =
     (case km_authorizedPrincipal km of
        None \<Rightarrow> None
      | Some p \<Rightarrow> if ap_Type p \<noteq> ''sid'' then None else Some (ap_Value p))"

definition GetAuthorizedUID :: "'k key_manager \<Rightarrow> 32 word option" where
  "GetAuthorizedUID km =
     (case km_authorizedPrincipal km of
        None \<Rightarrow> None
      | Some p \<Rightarrow> if ap_Type p \<noteq> ''uid'' then None else map_option word_of_nat (parse_uint 32 (ap_Value p)))"

text \<open>
  The argument \<open>rp\<close> is the answer of the platform's \<open>getRequestPrincipal\<close>: an error, no identity,
  or a type and a value.
\<close>

definition VerifyRequestPrincipal :: "'k key_manager \<Rightarrow> (string \<times> string) option res \<Rightarrow> err option" where
  "VerifyRequestPrincipal km rp =
     (case km_authorizedPrincipal km of
        None \<Rightarrow> None
      | Some prin \<Rightarrow>
          (case rp of
             Inl e \<Rightarrow> Some e
           | Inr None \<Rightarrow> Some (Plain ''Request does not carry a recognizable local identity'')
           | Inr (Some (requestType, requestValue)) \<Rightarrow>
               if requestType \<noteq> ap_Type prin then Some (Plain ''Requestor identity type does not match'')
               else if requestValue \<noteq> ap_Value prin then Some (Plain ''Requestor identity does not match'')
               else None))"

text \<open>\<open>getRequestPrincipal\<close> on Linux: the user of the socket's peer, when the kernel gave one.\<close>

definition getRequestPrincipal_linux :: "32 word option \<Rightarrow> (string \<times> string) option res" where
  "getRequestPrincipal_linux peerUID =
     (case peerUID of None \<Rightarrow> Inr None | Some uid \<Rightarrow> Inr (Some (''uid'', format_nat (unat uid))))"

section \<open>Lemmas\<close>

text \<open>What is documented of the primitives and used below.\<close>

definition crypto_ok :: "'k crypto \<Rightarrow> bool" where
  "crypto_ok C \<longleftrightarrow>
     (\<forall>b. length (sha256_hex C b) = 64 \<and> list_all key_id_char (sha256_hex C b)) \<and>
     (\<forall>b. list_all visible (b64_encode C b) \<and> b64_decode C (b64_encode C b) = Some b) \<and>
     (\<forall>b. b64_encode C b = [] \<longleftrightarrow> b = []) \<and> parse_pkix C [] = None"

definition key_wf :: "'k crypto \<Rightarrow> stored_public_key \<Rightarrow> bool" where
  "key_wf C k \<longleftrightarrow>
     (\<exists>p. parsePublicKey C (spk_PublicKey k) = Inr (spk_PublicKey k, p)) \<and>
     computeKeyID C (spk_PublicKey k) = Inr (spk_KeyID k)"

text \<open>
  The invariant of the key manager: registered keys are the parsed texts of the current and the
  previous key under the digest of their bytes; the bound user is in normal form.
\<close>

definition km_inv :: "'k crypto \<Rightarrow> 'k key_manager \<Rightarrow> bool" where
  "km_inv C km \<longleftrightarrow>
     (\<forall>k. km_currentKey km = Some k \<longrightarrow> key_wf C k) \<and>
     (\<forall>k. km_previousKey km = Some k \<longrightarrow> key_wf C k) \<and>
     (km_currentKey km = None \<longrightarrow> km_previousKey km = None) \<and>
     (km_previousKey km \<noteq> None \<longrightarrow> \<not> sameStoredPublicKey (km_currentKey km) (km_previousKey km)) \<and>
     ring_keys C (km_currentKey km) (km_previousKey km) = Inr (km_publicKeys km) \<and>
     (\<forall>p. km_authorizedPrincipal km = Some p \<longrightarrow> validateAuthorizedPrincipal p = Inr p)"

lemma key_id_char_visible: "key_id_char c \<Longrightarrow> visible c"
  by (auto simp: key_id_char_def visible_def Let_def byte_val_def)

lemma sameStoredPublicKey_iff [simp]:
  "sameStoredPublicKey (Some l) (Some r) \<longleftrightarrow> l = r"
  "\<not> sameStoredPublicKey None (Some r)" "\<not> sameStoredPublicKey (Some l) None"
  by (auto simp: sameStoredPublicKey_def)

lemma parsePublicKey_normal:
  "parsePublicKey C s = Inr (n, p) \<Longrightarrow> n = trim_space s \<and> parsePublicKey C n = Inr (n, p)"
  by (auto simp: parsePublicKey_def Let_def split: if_splits option.splits)

lemma parsePublicKey_computeKeyID: "parsePublicKey C s = Inr (n, p) \<Longrightarrow> \<exists>i. computeKeyID C n = Inr i"
  by (auto simp: parsePublicKey_def computeKeyID_def Let_def split: if_splits option.splits)

lemma computeKeyID_valid:
  assumes "crypto_ok C" and "computeKeyID C s = Inr i"
  shows "validateKeyID i = Inr i" and "i \<noteq> []" and "trim_space i = i"
proof -
  from assms have i: "length i = 64" "list_all key_id_char i"
    by (auto simp: computeKeyID_def crypto_ok_def split: option.splits)
  then show t: "trim_space i = i"
    by (intro trim_space_visible) (auto simp: list_all_iff key_id_char_visible)
  from i show "i \<noteq> []" by auto
  from i t show "validateKeyID i = Inr i" by (auto simp: validateKeyID_def Let_def)
qed

lemma validateKeyID_trim: "validateKeyID s = Inr i \<Longrightarrow> i = trim_space s"
  by (auto simp: validateKeyID_def Let_def split: if_splits)

lemma normalizeStoredPublicKey_wf:
  "normalizeStoredPublicKey C st = Inr (Some k) \<Longrightarrow> key_wf C k"
  using parsePublicKey_normal [THEN conjunct2]
  by (fastforce simp: normalizeStoredPublicKey_def key_wf_def Let_def
           split: option.splits sum.splits if_splits)

lemma normalizeStoredPublicKey_id:
  assumes "crypto_ok C" and "key_wf C k"
  shows "normalizeStoredPublicKey C (Some k) = Inr (Some k)"
  using assms(2) computeKeyID_valid [OF assms(1)]
  by (auto simp: normalizeStoredPublicKey_def key_wf_def Let_def)

lemma ring_keys_wf:
  assumes "\<And>k. cur = Some k \<Longrightarrow> key_wf C k" and "\<And>k. prev = Some k \<Longrightarrow> key_wf C k"
  shows "\<exists>m. ring_keys C cur prev = Inr m"
  using assms by (auto simp: ring_keys_def key_wf_def split: option.splits)

lemma refreshPublicKeysLocked_wf:
  assumes "\<And>k. km_currentKey km = Some k \<Longrightarrow> key_wf C k"
    and "\<And>k. km_previousKey km = Some k \<Longrightarrow> key_wf C k"
  obtains m where "ring_keys C (km_currentKey km) (km_previousKey km) = Inr m"
    and "refreshPublicKeysLocked C km = (None, km\<lparr>km_publicKeys := m\<rparr>)"
  using ring_keys_wf [OF assms, of "km_currentKey km" "km_previousKey km"]
  by (auto simp: refreshPublicKeysLocked_def)

lemma refresh_same:
  assumes "ring_keys C (km_currentKey km) (km_previousKey km) = Inr (km_publicKeys km)"
  shows "refreshPublicKeysLocked C km = (None, km)"
  using assms by (simp add: refreshPublicKeysLocked_def)

subsection \<open>Installing a key\<close>

text \<open>The three outcomes of \<open>SetPublicKey\<close> on a state that satisfies the invariant.\<close>

lemma SetPublicKey_cases:
  assumes inv: "km_inv C km"
  obtains (Bad) e where "parsePublicKey C s = Inl e" and "SetPublicKey C s km = (Inl e, km)"
  | (Same) k p where "parsePublicKey C s = Inr (spk_PublicKey k, p)" and "key_wf C k"
      and "km_currentKey km = Some k" and "SetPublicKey C s km = (Inr False, km)"
  | (Failed) e f r where "SetPublicKey C s km = (Inl e, km\<lparr>km_keyRingFile := f, km_io := r\<rparr>)"
      and "f = km_keyRingFile km \<or> f = Garbage"
  | (Changed) k p m r where "parsePublicKey C s = Inr (spk_PublicKey k, p)" and "key_wf C k"
      and "km_currentKey km \<noteq> Some k" and "ring_keys C (Some k) (km_currentKey km) = Inr m"
      and "SetPublicKey C s km =
             (Inr True, km\<lparr>km_currentKey := Some k, km_previousKey := km_currentKey km, km_publicKeys := m,
                km_keyRingFile := Stored \<lparr>kr_Current = Some k, kr_Previous = km_currentKey km\<rparr>, km_io := r\<rparr>)"
proof (cases "parsePublicKey C s")
  case (Inl e)
  then show ?thesis by (intro Bad) (auto simp: SetPublicKey_def)
next
  case (Inr np)
  obtain n p where p: "parsePublicKey C s = Inr (n, p)" using Inr by (cases np) auto
  obtain i where i: "computeKeyID C n = Inr i" using parsePublicKey_computeKeyID [OF p] ..
  define k where "k = \<lparr>spk_KeyID = i, spk_PublicKey = n\<rparr>"
  have wf: "key_wf C k" using parsePublicKey_normal [OF p] i by (auto simp: key_wf_def k_def)
  show ?thesis
  proof (cases "km_currentKey km = Some k")
    case True
    with p i wf show ?thesis by (intro Same [of k p]) (auto simp: SetPublicKey_def k_def)
  next
    case False
    let ?km1 = "km\<lparr>km_currentKey := Some k, km_previousKey := km_currentKey km\<rparr>"
    have ns: "\<not> sameStoredPublicKey (km_currentKey km) (Some k)"
      using False by (cases "km_currentKey km") auto
    obtain m where m: "ring_keys C (Some k) (km_currentKey km) = Inr m"
        "refreshPublicKeysLocked C ?km1 = (None, ?km1\<lparr>km_publicKeys := m\<rparr>)"
      using refreshPublicKeysLocked_wf [of ?km1 C] wf inv by (auto simp: km_inv_def)
    let ?km2 = "?km1\<lparr>km_publicKeys := m\<rparr>"
    obtain ok f r where w: "write_file (km_keyRingFile km)
        \<lparr>kr_Current = Some k, kr_Previous = km_currentKey km\<rparr> (km_io km) = (ok, f, r)"
      by (metis prod_cases3)
    have prev: "(if km_currentKey km \<noteq> None \<and> \<not> sameStoredPublicKey (km_currentKey km) (Some k)
        then km_currentKey km else None) = km_currentKey km" using ns by auto
    have undone: "snd (refreshPublicKeysLocked C
        (km\<lparr>km_publicKeys := m, km_keyRingFile := f, km_io := r\<rparr>)) = km\<lparr>km_keyRingFile := f, km_io := r\<rparr>"
      using inv by (simp add: refreshPublicKeysLocked_def km_inv_def)
    have set: "SetPublicKey C s km =
        (if ok then (Inr True, ?km2\<lparr>km_keyRingFile := f, km_io := r\<rparr>)
         else (Inl (Wrapped ''Failed to save public key'' SysErr), km\<lparr>km_keyRingFile := f, km_io := r\<rparr>))"
      using p i ns m(2) prev w undone
      by (simp add: SetPublicKey_def Let_def savePublicKeysLocked_def k_def [symmetric])
    have wf_out: "ok \<Longrightarrow> f = Stored \<lparr>kr_Current = Some k, kr_Previous = km_currentKey km\<rparr>"
      "\<not> ok \<Longrightarrow> f = km_keyRingFile km \<or> f = Garbage"
      using w by (auto simp: write_file_def split: prod.splits io.splits)
    show ?thesis
    proof (cases ok)
      case True
      with p wf False m(1) set wf_out show ?thesis by (intro Changed [of k p m r]) (auto simp: k_def)
    next
      case notok: False
      with set wf_out show ?thesis by (intro Failed) auto
    qed
  qed
qed

lemma SetPublicKey_inv:
  assumes inv: "km_inv C km"
  shows "km_inv C (snd (SetPublicKey C s km))"
proof (cases rule: SetPublicKey_cases [OF inv, of s, case_names Bad Same Failed Changed])
  case (Changed k p m r)
  then have "\<not> sameStoredPublicKey (Some k) (km_currentKey km)"
    by (cases "km_currentKey km") auto
  with Changed inv show ?thesis by (auto simp: km_inv_def)
qed (use inv in \<open>auto simp: km_inv_def\<close>)

subsection \<open>Loading\<close>

lemma trim_kinds [simp]: "trim_space ''uid'' = ''uid''" "trim_space ''sid'' = ''sid''"
  by (rule trim_space_visible, simp add: visible_def byte_val_def)+

lemma validateAuthorizedPrincipal_normal:
  "validateAuthorizedPrincipal p = Inr q \<Longrightarrow> validateAuthorizedPrincipal q = Inr q"
  by (auto simp: validateAuthorizedPrincipal_def Let_def split: if_splits)

lemma loadPublicKeys_inv:
  assumes ok: "crypto_ok C" and load: "loadPublicKeys C km = (None, km')"
    and prin: "\<forall>p. km_authorizedPrincipal km = Some p \<longrightarrow> validateAuthorizedPrincipal p = Inr p"
  shows "km_inv C km' \<and> IsInitialized km'"
proof (cases "km_keyRingFile km")
  case (Stored ring)
  then obtain c q where n: "normalizeStoredPublicKey C (kr_Current ring) = Inr (Some c)"
      "normalizeStoredPublicKey C (kr_Previous ring) = Inr q"
      "refreshPublicKeysLocked C (km\<lparr>km_io := snd (next_io (km_io km)), km_currentKey := Some c,
         km_previousKey := (if sameStoredPublicKey (Some c) q then None else q)\<rparr>) = (None, km')"
    using load by (auto simp: loadPublicKeys_def Let_def split: prod.splits if_splits sum.splits option.splits)
  have "key_wf C c" using n(1) by (rule normalizeStoredPublicKey_wf)
  moreover have "\<And>k. q = Some k \<Longrightarrow> key_wf C k" using n(2) normalizeStoredPublicKey_wf by blast
  moreover have "spk_KeyID c \<noteq> []"
    using \<open>key_wf C c\<close> computeKeyID_valid(2) [OF ok] by (auto simp: key_wf_def)
  ultimately show ?thesis
    using n(3) prin by (auto simp: km_inv_def IsInitialized_def refreshPublicKeysLocked_def split: sum.splits if_splits)
next
  case Absent
  let ?km = "km\<lparr>km_io := snd (next_io (km_io km))\<rparr>"
  obtain k km1 where l: "loadLegacyPublicKeyLocked C ?km = (Inr k, km1)"
      "refreshPublicKeysLocked C (km1\<lparr>km_currentKey := Some k, km_previousKey := None\<rparr>) = (None, km')"
    using load Absent by (auto simp: loadPublicKeys_def Let_def split: prod.splits if_splits sum.splits)
  have p1: "km_authorizedPrincipal km1 = km_authorizedPrincipal km"
    using l(1) by (auto simp: loadLegacyPublicKeyLocked_def Let_def split: prod.splits if_splits option.splits sum.splits)
  have k: "computeKeyID C (spk_PublicKey k) = Inr (spk_KeyID k)" "list_all visible (spk_PublicKey k)"
    using l(1) ok
    by (auto simp: loadLegacyPublicKeyLocked_def Let_def crypto_ok_def split: prod.splits if_splits option.splits sum.splits)
  obtain m where m: "ring_keys C (Some k) None = Inr m"
      "km' = km1\<lparr>km_currentKey := Some k, km_previousKey := None, km_publicKeys := m\<rparr>"
    using l(2) by (auto simp: refreshPublicKeysLocked_def split: sum.splits)
  then obtain n p where p: "parsePublicKey C (spk_PublicKey k) = Inr (n, p)"
    by (auto simp: ring_keys_def split: sum.splits)
  then have "n = spk_PublicKey k"
    using parsePublicKey_normal trim_space_visible [OF k(2)] by fastforce
  with p have "key_wf C k" using k(1) by (auto simp: key_wf_def)
  with m p1 prin computeKeyID_valid(2) [OF ok k(1)] show ?thesis
    by (auto simp: km_inv_def IsInitialized_def)
next
  case Garbage
  with load show ?thesis by (auto simp: loadPublicKeys_def Let_def split: prod.splits if_splits)
qed

text \<open>Loading a ring that was saved from a state with the invariant gives that state's keys back.\<close>

lemma loadPublicKeys_saved:
  assumes ok: "crypto_ok C" and inv: "km_inv C km" and cur: "km_currentKey km = Some c"
    and saved: "km_keyRingFile km0 = Stored \<lparr>kr_Current = km_currentKey km, kr_Previous = km_previousKey km\<rparr>"
    and io: "km_io km0 = []"
  shows "loadPublicKeys C km0 =
     (None, km0\<lparr>km_currentKey := km_currentKey km, km_previousKey := km_previousKey km, km_publicKeys := km_publicKeys km\<rparr>)"
proof -
  have c: "normalizeStoredPublicKey C (Some c) = Inr (Some c)"
    using inv cur normalizeStoredPublicKey_id [OF ok] by (auto simp: km_inv_def)
  have p: "normalizeStoredPublicKey C (km_previousKey km) = Inr (km_previousKey km)"
    using inv normalizeStoredPublicKey_id [OF ok]
    by (cases "km_previousKey km") (auto simp: km_inv_def normalizeStoredPublicKey_def)
  have s: "(if sameStoredPublicKey (Some c) (km_previousKey km) then None else km_previousKey km) = km_previousKey km"
    using inv cur by (cases "km_previousKey km") (auto simp: km_inv_def)
  show ?thesis
    using inv cur saved io c p s
    by (simp add: loadPublicKeys_def Let_def refreshPublicKeysLocked_def km_inv_def)
qed

subsection \<open>Bootstrap and the bound user\<close>

lemma validate_uid [simp]:
  "validateAuthorizedPrincipal \<lparr>ap_Type = ''uid'', ap_Value = format_nat (unat (uid :: 32 word))\<rparr> =
     Inr \<lparr>ap_Type = ''uid'', ap_Value = format_nat (unat uid)\<rparr>"
proof -
  have "unat uid < 2 ^ 32" using unsigned_less [of uid] by simp
  then show ?thesis by (simp add: validateAuthorizedPrincipal_def)
qed

lemma writeBootstrapFile_cases:
  "writeBootstrapFile old v ios = (ok, f, r) \<Longrightarrow>
     (ok \<longrightarrow> old = Absent \<and> f = Stored v) \<and> (\<not> ok \<longrightarrow> f = old)"
  by (auto simp: writeBootstrapFile_def split: prod.splits bool.splits if_splits)

lemma BootstrapPublicKeyForUID_error:
  assumes "BootstrapPublicKeyForUID C s uid km = (Some e, km')"
  shows "km_publicKeys km' = km_publicKeys km \<and> km_currentKey km' = km_currentKey km \<and>
         km_previousKey km' = km_previousKey km \<and> km_authorizedPrincipal km' = km_authorizedPrincipal km \<and>
         km_principalFile km' = km_principalFile km \<and>
         (km_keyRingFile km \<noteq> Absent \<longrightarrow> km_keyRingFile km' = km_keyRingFile km)"
  using assms
  by (auto simp: BootstrapPublicKeyForUID_def Let_def dest!: writeBootstrapFile_cases
           split: sum.splits prod.splits if_splits bool.splits)

lemma BootstrapPublicKeyForUID_ok:
  assumes "BootstrapPublicKeyForUID C s uid km = (None, km')"
  obtains n p i r where "parsePublicKey C s = Inr (n, p)" and "computeKeyID C n = Inr i"
    and "km_currentKey km = None" and "km_authorizedPrincipal km = None"
    and "km_keyRingFile km = Absent" and "km_principalFile km = Absent"
    and "km' = km\<lparr>km_currentKey := Some \<lparr>spk_KeyID = i, spk_PublicKey = n\<rparr>, km_previousKey := None,
           km_publicKeys := [i \<mapsto> p],
           km_authorizedPrincipal := Some \<lparr>ap_Type = ''uid'', ap_Value = format_nat (unat uid)\<rparr>,
           km_keyRingFile := Stored \<lparr>kr_Current = Some \<lparr>spk_KeyID = i, spk_PublicKey = n\<rparr>, kr_Previous = None\<rparr>,
           km_principalFile := Stored \<lparr>ap_Type = ''uid'', ap_Value = format_nat (unat uid)\<rparr>, km_io := r\<rparr>"
  using assms
  by (auto simp: BootstrapPublicKeyForUID_def Let_def dest!: writeBootstrapFile_cases
           split: sum.splits prod.splits if_splits bool.splits)

lemma BootstrapPublicKeyForUID_inv:
  assumes inv: "km_inv C km"
  shows "km_inv C (snd (BootstrapPublicKeyForUID C s uid km))"
proof (cases "BootstrapPublicKeyForUID C s uid km")
  case (Pair r km')
  show ?thesis
  proof (cases r)
    case None
    with Pair have "BootstrapPublicKeyForUID C s uid km = (None, km')" by simp
    from BootstrapPublicKeyForUID_ok [OF this] show ?thesis
    proof cases
      case (1 n p i r')
      then have "key_wf C \<lparr>spk_KeyID = i, spk_PublicKey = n\<rparr>"
        using parsePublicKey_normal by (fastforce simp: key_wf_def)
      moreover have "ring_keys C (Some \<lparr>spk_KeyID = i, spk_PublicKey = n\<rparr>) None = Inr [i \<mapsto> p]"
        using parsePublicKey_normal [OF 1(1), THEN conjunct2] by (simp add: ring_keys_def)
      ultimately show ?thesis using 1 Pair by (simp add: km_inv_def)
    qed
  next
    case (Some e)
    with Pair BootstrapPublicKeyForUID_error [of C s uid km e km'] inv show ?thesis
      by (simp add: km_inv_def)
  qed
qed

lemma setAuthorizedPrincipal_inv:
  assumes "km_inv C km"
  shows "km_inv C (snd (setAuthorizedPrincipal p km))"
  using assms validateAuthorizedPrincipal_normal
  by (auto simp: setAuthorizedPrincipal_def km_inv_def split: sum.splits prod.splits if_splits bool.splits)

lemma loadAuthorizedPrincipal_inv:
  assumes "km_inv C km"
  shows "km_inv C (snd (loadAuthorizedPrincipal km))"
  using assms validateAuthorizedPrincipal_normal
  by (auto simp: loadAuthorizedPrincipal_def km_inv_def Let_def split: sum.splits prod.splits if_splits store.splits)


subsection \<open>Reachable states\<close>

text \<open>
  The states of the key manager: start-up over any files and any system-call outcomes, then any
  sequence of operations, whatever they answer. \<open>legacy_ok\<close> excludes a legacy file with a key of
  another algorithm, which \<open>loadPublicKeys\<close> installs before it reports the error.
\<close>

definition legacy_ok :: "'k crypto \<Rightarrow> string option \<Rightarrow> bool" where
  "legacy_ok C legacy \<longleftrightarrow>
     (\<forall>pem bytes. legacy = Some pem \<longrightarrow> pem_decode C pem = Some bytes \<longrightarrow> parse_pkix C bytes \<noteq> Some None)"

inductive km_reach :: "'k crypto \<Rightarrow> 'k key_manager \<Rightarrow> bool" for C where
  start: "legacy_ok C legacy \<Longrightarrow> km_reach C (snd (InitKeyManager C (GetKeyManager ring legacy prin ios)))"
| rotate: "km_reach C km \<Longrightarrow> km_reach C (snd (SetPublicKey C s km))"
| bootstrap: "km_reach C km \<Longrightarrow> km_reach C (snd (BootstrapPublicKeyForUID C s uid km))"
| bind_uid: "km_reach C km \<Longrightarrow> km_reach C (snd (SetAuthorizedUID uid km))"
| bind_sid: "km_reach C km \<Longrightarrow> km_reach C (snd (SetAuthorizedSID sid km))"
| reload: "km_reach C km \<Longrightarrow> km_reach C (snd (loadAuthorizedPrincipal km))"

lemma loadPublicKeys_error_inv:
  assumes ok: "crypto_ok C" and load: "loadPublicKeys C km = (Some e, km')"
    and inv: "km_inv C km" and leg: "legacy_ok C (km_legacyKeyFile km)"
  shows "km_inv C km'"
proof -
  have upd: "km_inv C (km\<lparr>km_io := r\<rparr>)" for r using inv by (simp add: km_inv_def)
  have ring: False
    if n: "normalizeStoredPublicKey C a = Inr (Some c)" "normalizeStoredPublicKey C b = Inr q"
      and r: "refreshPublicKeysLocked C (k\<lparr>km_currentKey := Some c,
        km_previousKey := if sameStoredPublicKey (Some c) q then None else q\<rparr>) = (Some e, km')" for a b c q k
    using normalizeStoredPublicKey_wf [OF n(1)] normalizeStoredPublicKey_wf [of C b] n(2) r
      ring_keys_wf [of "Some c" C "if sameStoredPublicKey (Some c) q then None else q"]
    by (auto simp: refreshPublicKeysLocked_def split: sum.splits if_splits)
  have legacy: False
    if l: "loadLegacyPublicKeyLocked C k = (Inr c, k1)" "km_legacyKeyFile k = km_legacyKeyFile km"
      and r: "refreshPublicKeysLocked C (k1\<lparr>km_currentKey := Some c, km_previousKey := None\<rparr>) = (Some e, km')" for k c k1
  proof -
    obtain b y where b: "spk_PublicKey c = b64_encode C b" "parse_pkix C b = Some (Some y)"
      using l leg
      by (auto simp: loadLegacyPublicKeyLocked_def legacy_ok_def Let_def
               split: prod.splits if_splits option.splits sum.splits)
    have "b64_encode C b \<noteq> []" using ok b(2) by (auto simp: crypto_ok_def)
    moreover have "trim_space (b64_encode C b) = b64_encode C b" "b64_decode C (b64_encode C b) = Some b"
      using ok trim_space_visible by (auto simp: crypto_ok_def)
    ultimately have "parsePublicKey C (spk_PublicKey c) = Inr (b64_encode C b, y)"
      using b by (simp add: parsePublicKey_def)
    then show False using r by (simp add: refreshPublicKeysLocked_def ring_keys_def)
  qed
  have read: "km_inv C k1" if "loadLegacyPublicKeyLocked C k = (Inl x, k1)" "km_inv C k" for k k1 x
  proof -
    have "\<exists>r. k1 = k\<lparr>km_io := r\<rparr>"
      using that(1) by (auto simp: loadLegacyPublicKeyLocked_def Let_def split: prod.splits if_splits option.splits sum.splits)
    then show ?thesis using that(2) by (auto simp: km_inv_def)
  qed
  show ?thesis
  proof (cases "fst (next_io (km_io km)) = Done")
    case False
    with load upd show ?thesis by (auto simp: loadPublicKeys_def Let_def split: prod.splits)
  next
    case True
    let ?k = "km\<lparr>km_io := snd (next_io (km_io km))\<rparr>"
    show ?thesis
    proof (cases "km_keyRingFile km")
      case Garbage
      with True load upd show ?thesis by (auto simp: loadPublicKeys_def Let_def split: prod.splits)
    next
      case (Stored ks)
      with True load upd [of "snd (next_io (km_io km))"]
      show ?thesis
        by (auto simp: loadPublicKeys_def Let_def case_prod_unfold split: sum.splits option.splits
                 intro: ring [THEN FalseE])
    next
      case Absent
      obtain r k1 where l: "loadLegacyPublicKeyLocked C ?k = (r, k1)" by fastforce
      with Absent True load
      have "case r of Inl x \<Rightarrow> k1 = km' | Inr c \<Rightarrow>
          refreshPublicKeysLocked C (k1\<lparr>km_currentKey := Some c, km_previousKey := None\<rparr>) = (Some e, km')"
        by (auto simp: loadPublicKeys_def Let_def case_prod_unfold split: sum.splits)
      with l legacy [of ?k _ k1] read [OF _ upd, of "snd (next_io (km_io km))"]
      show ?thesis by (cases r) auto
    qed
  qed
qed

lemma InitKeyManager_inv:
  assumes ok: "crypto_ok C" and leg: "legacy_ok C legacy"
  shows "km_inv C (snd (InitKeyManager C (GetKeyManager ring legacy prin ios)))"
proof -
  let ?k = "GetKeyManager ring legacy prin ios :: 'a key_manager"
  let ?k0 = "?k\<lparr>km_io := snd (next_io ios)\<rparr>"
  have fresh: "km_inv C ?k0" "km_legacyKeyFile ?k0 = legacy"
    by (simp_all add: GetKeyManager_def km_inv_def ring_keys_def)
  obtain e1 k1 where l: "loadPublicKeys C ?k0 = (e1, k1)" by fastforce
  have "km_inv C k1"
  proof (cases e1)
    case None
    then show ?thesis
      using l loadPublicKeys_inv [OF ok, of ?k0 k1] by (simp add: GetKeyManager_def)
  next
    case (Some e)
    then show ?thesis using l loadPublicKeys_error_inv [OF ok, of ?k0] fresh leg by auto
  qed
  then show ?thesis
    using loadAuthorizedPrincipal_inv [of C k1] l fresh
    by (cases "fst (next_io ios) = Done") (simp_all add: InitKeyManager_def Let_def GetKeyManager_def case_prod_unfold)
qed

lemma km_reach_inv: "km_reach C km \<Longrightarrow> crypto_ok C \<Longrightarrow> km_inv C km"
  by (induction rule: km_reach.induct)
    (simp_all add: InitKeyManager_inv SetPublicKey_inv BootstrapPublicKeyForUID_inv setAuthorizedPrincipal_inv
      loadAuthorizedPrincipal_inv SetAuthorizedUID_def SetAuthorizedSID_def)

lemma ring_keys_Some:
  assumes "ring_keys C cur prev = Inr m" and "m i = Some p"
  shows "\<exists>k n. (cur = Some k \<or> prev = Some k) \<and> spk_KeyID k = i \<and> parsePublicKey C (spk_PublicKey k) = Inr (n, p)"
  using assms by (auto simp: ring_keys_def split: option.splits sum.splits if_splits) blast+

lemma VerifySignature_None:
  assumes "VerifySignature C km keyID message signature = None"
  obtains p sig where "km_publicKeys km (trim_space keyID) = Some p"
    and "b64_decode C signature = Some sig" and "ed25519_verify C p message sig"
  using assms
  by (auto simp: VerifySignature_def dest!: validateKeyID_trim split: sum.splits option.splits if_splits)

lemma ring_keys_dom:
  assumes "ring_keys C (Some k) prev = Inr m"
  shows "dom m = insert (spk_KeyID k) (case prev of None \<Rightarrow> {} | Some q \<Rightarrow> {spk_KeyID q})"
  using assms by (auto simp: ring_keys_def split: option.splits sum.splits if_splits)

text \<open>
  A concrete instance of the primitives, on which the hypotheses of the properties are evaluated:
  the encoding is percent escaping, a key is its own bytes, a signature is the key and the message.
\<close>

definition toy_crypto :: "string crypto" where
  "toy_crypto =
     \<lparr>b64_decode = query_unescape, b64_encode = query_escape,
      sha256_hex = (\<lambda>b. replicate 64 (if b = ''A'' then CHR ''a'' else if b = ''B'' then CHR ''b'' else CHR ''c'')),
      pem_decode = Some,
      parse_pkix = (\<lambda>b. if b = [] then None else if b = ''rsa'' then Some None else Some (Some b)),
      ed25519_verify = (\<lambda>k m s. s = k @ m)\<rparr>"

lemma query_escape_visible: "c \<in> set (query_escape b) \<Longrightarrow> visible c"
proof -
  have u: "unreserved c \<Longrightarrow> visible c" for c
    by (auto simp: unreserved_def visible_def byte_val_def Let_def)
  have h: "n < 16 \<Longrightarrow> visible (upperhex n)" for n
    by (simp add: visible_def byte_val_upperhex)
  have d: "byte_val c div 16 < 16" for c using byte_val_lt [of c] by (simp only: less_mult_imp_div_less)
  have "visible x" if "x \<in> set (escape_char c)" for x c
    using that u h d by (auto simp: escape_char_def visible_def [of "CHR ''+''"] visible_def [of "CHR ''%''"]
        byte_val_def [of "CHR ''+''"] byte_val_def [of "CHR ''%''"] split: if_splits)
  then show "c \<in> set (query_escape b) \<Longrightarrow> visible c" by (auto simp: query_escape_def)
qed

lemma query_escape_eq_Nil [simp]: "query_escape b = [] \<longleftrightarrow> b = []"
  by (cases b) (auto simp: query_escape_def escape_char_def)

lemma toy_crypto_ok: "crypto_ok toy_crypto"
  by (auto simp: crypto_ok_def toy_crypto_def query_escape_visible key_id_char_def byte_val_def list_all_iff)

definition toy_km :: "string key_manager" where
  "toy_km = snd (SetPublicKey toy_crypto ''A'' (snd (InitKeyManager toy_crypto (GetKeyManager Absent None Absent []))))"

lemma toy_km_reach: "km_reach toy_crypto toy_km"
  unfolding toy_km_def by (intro km_reach.rotate km_reach.start) (simp add: legacy_ok_def)

lemma toy_keys [simp]:
  "parsePublicKey toy_crypto ''A'' = Inr (''A'', ''A'')" "computeKeyID toy_crypto ''A'' = Inr (replicate 64 CHR ''a'')"
  "parsePublicKey toy_crypto ''B'' = Inr (''B'', ''B'')" "computeKeyID toy_crypto ''B'' = Inr (replicate 64 CHR ''b'')"
  "parsePublicKey toy_crypto ''D'' = Inr (''D'', ''D'')" "computeKeyID toy_crypto ''D'' = Inr (replicate 64 CHR ''c'')"
  using trim_space_visible [of "''A''"] trim_space_visible [of "''B''"] trim_space_visible [of "''D''"]
  by (simp_all add: parsePublicKey_def computeKeyID_def Let_def toy_crypto_def visible_def byte_val_def)

lemma toy_ids [simp]:
  "validateKeyID (replicate 64 CHR ''a'') = Inr (replicate 64 CHR ''a'')"
  "trim_space (replicate 64 CHR ''a'') = replicate 64 CHR ''a''"
  using computeKeyID_valid [OF toy_crypto_ok, of "''A''"] by simp_all

lemma replicate_64_eq [simp]: "replicate 64 (c :: char) = replicate 64 d \<longleftrightarrow> c = d"
  by (simp add: replicate_eq_replicate)

lemma toy_km_eq:
  "toy_km = \<lparr>km_publicKeys = [replicate 64 CHR ''a'' \<mapsto> ''A''],
     km_currentKey = Some \<lparr>spk_KeyID = replicate 64 CHR ''a'', spk_PublicKey = ''A''\<rparr>, km_previousKey = None,
     km_authorizedPrincipal = None,
     km_keyRingFile = Stored \<lparr>kr_Current = Some \<lparr>spk_KeyID = replicate 64 CHR ''a'', spk_PublicKey = ''A''\<rparr>, kr_Previous = None\<rparr>,
     km_legacyKeyFile = None, km_principalFile = Absent, km_io = []\<rparr>"
  by (simp add: toy_km_def InitKeyManager_def GetKeyManager_def loadPublicKeys_def loadLegacyPublicKeyLocked_def
      loadAuthorizedPrincipal_def SetPublicKey_def refreshPublicKeysLocked_def ring_keys_def
      savePublicKeysLocked_def write_file_def Let_def)

text \<open>What \<open>legacy_ok\<close> leaves out: the error is reported, yet the service counts as initialised, with no key.\<close>

lemma legacy_other_algorithm:
  "let (e, km) = InitKeyManager toy_crypto (GetKeyManager Absent (Some ''rsa'') Absent [])
   in e \<noteq> None \<and> IsInitialized km \<and> km_publicKeys km = Map.empty"
  using trim_space_visible [of "query_escape ''rsa''"] query_escape_visible [of _ "''rsa''"]
  by (simp add: InitKeyManager_def GetKeyManager_def loadPublicKeys_def loadLegacyPublicKeyLocked_def
      loadAuthorizedPrincipal_def refreshPublicKeysLocked_def ring_keys_def Let_def parsePublicKey_def computeKeyID_def
      toy_crypto_def list_all_iff errors_Join_def IsInitialized_def map_filter_simps)

lemmas toy_eval = toy_km_eq SetPublicKey_def refreshPublicKeysLocked_def ring_keys_def savePublicKeysLocked_def
  write_file_def Let_def

section \<open>Properties\<close>



text \<open>
  C11. A signature is accepted only under a key of the ring: the request's key id is the digest of
  the current or the previous key, and the signature is valid under that key for exactly that
  message.
\<close>

theorem VerifySignature_sound:
  assumes "crypto_ok C" and "km_reach C km" and "VerifySignature C km keyID message signature = None"
  shows "\<exists>k p sig. (km_currentKey km = Some k \<or> km_previousKey km = Some k) \<and>
           computeKeyID C (spk_PublicKey k) = Inr (trim_space keyID) \<and>
           parsePublicKey C (spk_PublicKey k) = Inr (spk_PublicKey k, p) \<and>
           b64_decode C signature = Some sig \<and> ed25519_verify C p message sig"
proof -
  have inv: "km_inv C km" using assms km_reach_inv by blast
  obtain p sig where p: "km_publicKeys km (trim_space keyID) = Some p" "b64_decode C signature = Some sig"
      "ed25519_verify C p message sig"
    using assms(3) by (rule VerifySignature_None)
  have ring: "ring_keys C (km_currentKey km) (km_previousKey km) = Inr (km_publicKeys km)"
    using inv by (simp add: km_inv_def)
  obtain k n where k: "km_currentKey km = Some k \<or> km_previousKey km = Some k" "spk_KeyID k = trim_space keyID"
      "parsePublicKey C (spk_PublicKey k) = Inr (n, p)"
    using ring_keys_Some [OF ring p(1)] by blast
  moreover have "key_wf C k" using inv k(1) by (auto simp: km_inv_def)
  ultimately show ?thesis using p by (auto simp: key_wf_def)
qed

theorem VerifySignature_sound_witness:
  "VerifySignature toy_crypto toy_km (replicate 64 CHR ''a'') ''hello'' ''Ahello'' = None \<and>
   (\<exists>k p sig. (km_currentKey toy_km = Some k \<or> km_previousKey toy_km = Some k) \<and>
      computeKeyID toy_crypto (spk_PublicKey k) = Inr (trim_space (replicate 64 CHR ''a'')) \<and>
      parsePublicKey toy_crypto (spk_PublicKey k) = Inr (spk_PublicKey k, p) \<and>
      b64_decode toy_crypto ''Ahello'' = Some sig \<and> ed25519_verify toy_crypto p ''hello'' sig)"
proof -
  have v: "VerifySignature toy_crypto toy_km (replicate 64 CHR ''a'') ''hello'' ''Ahello'' = None"
    by (simp add: VerifySignature_def toy_km_eq) (simp add: toy_crypto_def)
  then show ?thesis using VerifySignature_sound [OF toy_crypto_ok toy_km_reach v] by simp
qed

text \<open>
  Installing a key either changes nothing in memory (an error, or the key that is already
  current), or registers exactly the new key and the one it replaces, and saves that ring.
\<close>

theorem SetPublicKey_outcomes:
  assumes "crypto_ok C" and "km_reach C km"
  shows "case SetPublicKey C s km of
      (Inl e, km') \<Rightarrow> \<exists>f r. km' = km\<lparr>km_keyRingFile := f, km_io := r\<rparr> \<and> f \<in> {km_keyRingFile km, Garbage}
    | (Inr False, km') \<Rightarrow> km' = km \<and> map_option spk_PublicKey (km_currentKey km) = Some (trim_space s)
    | (Inr True, km') \<Rightarrow>
        (\<exists>k. km_currentKey km' = Some k \<and> spk_PublicKey k = trim_space s \<and> computeKeyID C s = Inr (spk_KeyID k) \<and>
             dom (km_publicKeys km') = insert (spk_KeyID k) (spk_KeyID ` set_option (km_currentKey km))) \<and>
        km_previousKey km' = km_currentKey km \<and>
        km_keyRingFile km' = Stored \<lparr>kr_Current = km_currentKey km', kr_Previous = km_previousKey km'\<rparr> \<and>
        km_authorizedPrincipal km' = km_authorizedPrincipal km"
proof -
  have inv: "km_inv C km" using assms km_reach_inv by blast
  have id: "computeKeyID C s = Inr (spk_KeyID k) \<and> spk_PublicKey k = trim_space s"
    if "parsePublicKey C s = Inr (spk_PublicKey k, p)" "key_wf C k" for k p
    using parsePublicKey_normal [OF that(1)] that(2) by (auto simp: key_wf_def computeKeyID_def)
  show ?thesis
  proof (cases rule: SetPublicKey_cases [OF inv, of s, case_names Bad Same Failed Changed])
    case (Bad e)
    then show ?thesis by (auto intro!: exI [of _ "km_keyRingFile km"] exI [of _ "km_io km"])
  next
    case (Failed e f r)
    then show ?thesis by auto
  next
    case (Same k p)
    with id [OF Same(1,2)] show ?thesis by simp
  next
    case (Changed k p m r)
    with id [OF Changed(1,2)] ring_keys_dom [OF Changed(4)] show ?thesis
      by (auto split: option.splits)
  qed
qed

theorem SetPublicKey_outcomes_witness:
  "\<exists>km'. SetPublicKey toy_crypto ''B'' toy_km = (Inr True, km') \<and>
     dom (km_publicKeys km') = {replicate 64 CHR ''b'', replicate 64 CHR ''a''}"
proof -
  have f: "fst (SetPublicKey toy_crypto ''B'' toy_km) = Inr True" by (simp add: toy_eval)
  have c: "map_option spk_KeyID (km_currentKey toy_km) = Some (replicate 64 CHR ''a'')" by (simp add: toy_km_eq)
  show ?thesis
    using SetPublicKey_outcomes [OF toy_crypto_ok toy_km_reach, of "''B''"] f c
    by (auto split: prod.splits)
qed

text \<open>
  Two rotations revoke a key: after two keys have been installed, every key id that is not the
  id of one of them is refused, whatever it signed.
\<close>

theorem rotation_revokes:
  assumes "crypto_ok C" and "km_reach C km"
    and "SetPublicKey C a km = (Inr True, km1)" and "SetPublicKey C b km1 = (Inr True, km2)"
    and "computeKeyID C a \<noteq> Inr (trim_space keyID)" and "computeKeyID C b \<noteq> Inr (trim_space keyID)"
  shows "VerifySignature C km2 keyID message signature \<noteq> None"
proof -
  have r: "km_reach C km1" "km_inv C km" "km_inv C km1"
    using assms km_reach.rotate [OF assms(2), of a] km_reach_inv by (metis snd_conv)+
  have id: "computeKeyID C s = Inr (spk_KeyID k)"
    if "parsePublicKey C s = Inr (spk_PublicKey k, p)" "key_wf C k" for k p s
    using parsePublicKey_normal [OF that(1)] that(2) by (auto simp: key_wf_def computeKeyID_def)
  obtain k1 where k1: "km_currentKey km1 = Some k1" "computeKeyID C a = Inr (spk_KeyID k1)"
    by (rule SetPublicKey_cases [OF r(2), of a]) (use assms(3) id in auto)
  obtain k2 m where k2: "computeKeyID C b = Inr (spk_KeyID k2)" "km_publicKeys km2 = m"
      "ring_keys C (Some k2) (Some k1) = Inr m"
    by (rule SetPublicKey_cases [OF r(3), of b]) (use assms(4) id k1 in auto)
  have "trim_space keyID \<notin> dom m"
    using ring_keys_dom [OF k2(3)] k1 k2 assms(5,6) by auto
  then show ?thesis using k2(2) by (auto elim!: VerifySignature_None)
qed

theorem rotation_revokes_witness:
  "\<exists>km1 km2. SetPublicKey toy_crypto ''B'' toy_km = (Inr True, km1) \<and>
     SetPublicKey toy_crypto ''D'' km1 = (Inr True, km2) \<and>
     VerifySignature toy_crypto km2 (replicate 64 CHR ''a'') ''hello'' ''Ahello'' \<noteq> None"
proof -
  let ?s1 = "SetPublicKey toy_crypto ''B'' toy_km"
  let ?s2 = "SetPublicKey toy_crypto ''D'' (snd ?s1)"
  have s: "?s1 = (Inr True, snd ?s1)" by (rule prod_eqI) (simp_all add: toy_eval)
  have s2: "?s2 = (Inr True, snd ?s2)" by (rule prod_eqI) (simp_all add: toy_eval)
  have i: "computeKeyID toy_crypto ''B'' \<noteq> Inr (trim_space (replicate 64 CHR ''a''))"
    "computeKeyID toy_crypto ''D'' \<noteq> Inr (trim_space (replicate 64 CHR ''a''))" by simp_all
  show ?thesis using rotation_revokes [OF toy_crypto_ok toy_km_reach s s2 i] s s2 by blast
qed

text \<open>
  A restart gives the keys back: after a key was installed, a fresh key manager that loads the
  saved ring has the same current, previous and registered keys.
\<close>

theorem SetPublicKey_restart:
  assumes "crypto_ok C" and "km_reach C km" and "SetPublicKey C s km = (Inr True, km')"
  shows "loadPublicKeys C (GetKeyManager (km_keyRingFile km') legacy prin []) =
     (None, (GetKeyManager (km_keyRingFile km') legacy prin [])
        \<lparr>km_currentKey := km_currentKey km', km_previousKey := km_previousKey km', km_publicKeys := km_publicKeys km'\<rparr>)"
proof -
  have inv: "km_inv C km" using assms km_reach_inv by blast
  then have inv': "km_inv C km'" using SetPublicKey_inv assms(3) by (metis snd_conv)
  have "km_currentKey km' \<noteq> None \<and> km_keyRingFile km' = Stored \<lparr>kr_Current = km_currentKey km', kr_Previous = km_previousKey km'\<rparr>"
    by (rule SetPublicKey_cases [OF inv, of s]) (use assms(3) in auto)
  then show ?thesis
    using loadPublicKeys_saved [OF assms(1) inv'] by (auto simp: GetKeyManager_def)
qed

theorem SetPublicKey_restart_witness:
  "\<exists>km' km''. SetPublicKey toy_crypto ''B'' toy_km = (Inr True, km') \<and>
     loadPublicKeys toy_crypto (GetKeyManager (km_keyRingFile km') None Absent []) = (None, km'') \<and>
     km_publicKeys km'' = km_publicKeys km'"
proof -
  let ?s1 = "SetPublicKey toy_crypto ''B'' toy_km"
  have s: "?s1 = (Inr True, snd ?s1)" by (rule prod_eqI) (simp_all add: toy_eval)
  show ?thesis using SetPublicKey_restart [OF toy_crypto_ok toy_km_reach s, of None Absent] s by auto
qed

text \<open>
  First-time pairing is all or nothing and never overwrites: an error leaves the keys, the bound
  user and any file that existed as they were (at most a new ring remains when its removal failed);
  success is possible only when neither file nor any key or user was there, and gives exactly the
  offered key and user, in memory and on disk.
\<close>

theorem BootstrapPublicKeyForUID_all_or_nothing:
  "case BootstrapPublicKeyForUID C s uid km of
     (Some e, km') \<Rightarrow>
       km_publicKeys km' = km_publicKeys km \<and> km_currentKey km' = km_currentKey km \<and>
       km_previousKey km' = km_previousKey km \<and> km_authorizedPrincipal km' = km_authorizedPrincipal km \<and>
       km_principalFile km' = km_principalFile km \<and> km_keyRingFile km \<in> {km_keyRingFile km', Absent}
   | (None, km') \<Rightarrow>
       km_currentKey km = None \<and> km_authorizedPrincipal km = None \<and>
       km_keyRingFile km = Absent \<and> km_principalFile km = Absent \<and>
       map_option spk_PublicKey (km_currentKey km') = Some (trim_space s) \<and> km_previousKey km' = None \<and>
       km_keyRingFile km' = Stored \<lparr>kr_Current = km_currentKey km', kr_Previous = None\<rparr> \<and>
       GetAuthorizedUID km' = Some uid \<and>
       km_principalFile km' = Stored \<lparr>ap_Type = ''uid'', ap_Value = format_nat (unat uid)\<rparr>"
proof (cases "BootstrapPublicKeyForUID C s uid km")
  case (Pair r km')
  show ?thesis
  proof (cases r)
    case None
    with Pair have "BootstrapPublicKeyForUID C s uid km = (None, km')" by simp
    then show ?thesis
    proof (rule BootstrapPublicKeyForUID_ok)
      fix n p i r'
      assume "parsePublicKey C s = Inr (n, p)"
      from parsePublicKey_normal [OF this] have "n = trim_space s" ..
      moreover have "unat uid < 2 ^ 32" using unsigned_less [of uid] by simp
      moreover assume "km_currentKey km = None" "km_authorizedPrincipal km = None" "km_keyRingFile km = Absent"
        "km_principalFile km = Absent"
        "km' = km\<lparr>km_currentKey := Some \<lparr>spk_KeyID = i, spk_PublicKey = n\<rparr>, km_previousKey := None,
           km_publicKeys := [i \<mapsto> p],
           km_authorizedPrincipal := Some \<lparr>ap_Type = ''uid'', ap_Value = format_nat (unat uid)\<rparr>,
           km_keyRingFile := Stored \<lparr>kr_Current = Some \<lparr>spk_KeyID = i, spk_PublicKey = n\<rparr>, kr_Previous = None\<rparr>,
           km_principalFile := Stored \<lparr>ap_Type = ''uid'', ap_Value = format_nat (unat uid)\<rparr>, km_io := r'\<rparr>"
      ultimately show ?thesis
        using Pair None by (simp add: GetAuthorizedUID_def)
    qed
  next
    case (Some e)
    with Pair BootstrapPublicKeyForUID_error [of C s uid km e km'] show ?thesis by auto
  qed
qed

text \<open>
  Binding a Linux user binds exactly that user: after a successful \<open>SetAuthorizedUID\<close> a request
  passes the check of its peer if and only if the kernel reported that user for the socket.
\<close>

theorem SetAuthorizedUID_binds:
  assumes "fst (SetAuthorizedUID uid km) = Inr changed"
  shows "VerifyRequestPrincipal (snd (SetAuthorizedUID uid km)) (getRequestPrincipal_linux peer) = None
           \<longleftrightarrow> peer = Some uid"
proof -
  have "km_authorizedPrincipal (snd (SetAuthorizedUID uid km)) =
          Some \<lparr>ap_Type = ''uid'', ap_Value = format_nat (unat uid)\<rparr>"
    using assms
    by (auto simp: SetAuthorizedUID_def setAuthorizedPrincipal_def sameAuthorizedPrincipal_def
             split: prod.splits bool.splits if_splits option.splits)
  moreover have "format_nat (unat u) = format_nat (unat uid) \<longleftrightarrow> u = uid" for u
    by (metis digits_val_format_nat unsigned_word_eqI)
  ultimately show ?thesis
    by (auto simp: VerifyRequestPrincipal_def getRequestPrincipal_linux_def split: option.splits)
qed

theorem SetAuthorizedUID_binds_witness:
  "VerifyRequestPrincipal (snd (SetAuthorizedUID 1000 toy_km)) (getRequestPrincipal_linux (Some 1000)) = None \<and>
   VerifyRequestPrincipal (snd (SetAuthorizedUID 1000 toy_km)) (getRequestPrincipal_linux (Some 1001)) \<noteq> None"
proof -
  have "fst (SetAuthorizedUID 1000 toy_km) = Inr True"
    using validate_uid [of 1000]
    by (simp add: SetAuthorizedUID_def setAuthorizedPrincipal_def toy_km_eq sameAuthorizedPrincipal_def write_file_def
        del: validate_uid)
  from SetAuthorizedUID_binds [OF this, of "Some 1000"] SetAuthorizedUID_binds [OF this, of "Some 1001"]
  show ?thesis by simp
qed

end
