(* ===== verification/Service_Boot.thy ===== *)
theory Service_Boot
  imports Auth_Keys
begin

text \<open>
  How the service comes to listen, and the first pairing: the data directory (\<open>identity/identity.go\<close>), the
  socket or pipe with its permissions, the servers and their end (\<open>route/server.go\<close>), the identity of the peer
  (\<open>route/pipectx\<close>) and the one-time pairing on macOS (\<open>route/bootstrap\<close>). Every system call takes its outcome from a
  script.
\<close>

section \<open>Definitions\<close>

subsection \<open>The data directory\<close>

definition env_value :: "(string \<rightharpoonup> string) \<Rightarrow> string \<Rightarrow> string" where
  "env_value env n = (case env n of None \<Rightarrow> [] | Some v \<Rightarrow> v)"

definition Environment :: "(string \<rightharpoonup> string) \<Rightarrow> string \<Rightarrow> string \<Rightarrow> string" where
  "Environment env currentName legacyName = (if env_value env currentName \<noteq> [] then env_value env currentName else env_value env legacyName)"

definition ConfigDirectoryOverride :: "(string \<rightharpoonup> string) \<Rightarrow> string" where
  "ConfigDirectoryOverride env = Environment env ''KOKOROBOX_CONFIG_DIR'' ''SPARKLE_CONFIG_DIR''"

definition GetConfigDir :: "string \<Rightarrow> (string \<rightharpoonup> string) \<Rightarrow> string" where
  "GetConfigDir goos env =
     (if ConfigDirectoryOverride env \<noteq> [] then ConfigDirectoryOverride env
      else if goos = ''windows'' then ''C:'' @ [char_of (92 :: nat)] @ ''ProgramData''
      else if goos = ''darwin'' then ''/var/root/Library/Application Support''
      else ''/root/.config'')"

text \<open>What is at a path is a value of an arbitrary type: only its place matters here.\<close>

record 'd data_root =
  dr_tree :: "string \<rightharpoonup> 'd"
  dr_io :: "io list"

definition dr_call :: "'d data_root \<Rightarrow> io \<times> 'd data_root" where
  "dr_call d = (case next_io (dr_io d) of (out, ios) \<Rightarrow> (out, d\<lparr>dr_io := ios\<rparr>))"

definition ConfigDirectoryName :: string where "ConfigDirectoryName = ''KokoroBox''"

definition current_dir :: "string \<Rightarrow> string" where "current_dir root = root @ ''/'' @ ConfigDirectoryName"
definition legacy_dir :: "string \<Rightarrow> string" where "legacy_dir root = root @ ''/sparkle''"

definition DataDirectory :: "string \<Rightarrow> 'd data_root \<Rightarrow> string res \<times> 'd data_root" where
  "DataDirectory root d =
     (case dr_call d of (out, d1) \<Rightarrow>
        if out \<noteq> Done then (Inl (Wrapped ''inspect KokoroBox service data directory'' SysErr), d1)
        else if dr_tree d (current_dir root) \<noteq> None then (Inr (current_dir root), d1)
        else (case dr_call d1 of (out2, d2) \<Rightarrow>
            if out2 \<noteq> Done then (Inl (Wrapped ''inspect legacy service data directory'' SysErr), d2)
            else if dr_tree d (legacy_dir root) = None then (Inr (current_dir root), d2)
            else (case dr_call d2 of (out3, d3) \<Rightarrow>
                let d4 = (if out3 = Fails then d3
                          else d3\<lparr>dr_tree := (dr_tree d)(legacy_dir root := None, current_dir root := dr_tree d (legacy_dir root))\<rparr>)
                in (if out3 = Done then Inr (current_dir root) else Inl (Wrapped ''migrate legacy service data directory'' SysErr), d4))))"

subsection \<open>Sockets and servers\<close>

text \<open>
  A socket is a file with an owner and a mode. A server that serves has a listener: its number, its
  address, and on Windows the access list of its pipe. \<open>sn_newMode\<close> is the mode a new socket gets from the umask.
\<close>

record socket_file =
  sf_owner :: "32 word"
  sf_mode :: nat

record listener =
  li_id :: nat
  li_addr :: string
  li_sddl :: string

record service_net =
  sn_goos :: string
  sn_dirs :: "string list"
  sn_files :: "string \<rightharpoonup> socket_file"
  sn_newMode :: nat
  sn_listeners :: "listener list"
  sn_unix :: "nat option"
  sn_pipe :: "nat option"
  sn_next :: nat
  sn_io :: "io list"

definition net_call :: "service_net \<Rightarrow> io \<times> service_net" where
  "net_call n = (case next_io (sn_io n) of (out, ios) \<Rightarrow> (out, n\<lparr>sn_io := ios\<rparr>))"

definition private_mode :: nat where "private_mode = 384"
definition open_mode :: nat where "open_mode = 438"

text \<open>The decimal values of 0o600 and 0o666. Closing a listener removes the file of its socket.\<close>

definition close_listener :: "nat \<Rightarrow> service_net \<Rightarrow> service_net" where
  "close_listener i n =
     n\<lparr>sn_listeners := filter (\<lambda>l. li_id l \<noteq> i) (sn_listeners n),
       sn_files := (\<lambda>p. if p \<in> li_addr ` set (filter (\<lambda>l. li_id l = i) (sn_listeners n)) then None else sn_files n p)\<rparr>"

definition os_Chown :: "string \<Rightarrow> 32 word \<Rightarrow> service_net \<Rightarrow> err option \<times> service_net" where
  "os_Chown p uid n =
     (case net_call n of (out, n1) \<Rightarrow>
        (if out = Done then None else Some SysErr,
         if out = Fails then n1 else n1\<lparr>sn_files := (sn_files n)(p := map_option (\<lambda>f. f\<lparr>sf_owner := uid\<rparr>) (sn_files n p))\<rparr>))"

definition os_Chmod :: "string \<Rightarrow> nat \<Rightarrow> service_net \<Rightarrow> err option \<times> service_net" where
  "os_Chmod p m n =
     (case net_call n of (out, n1) \<Rightarrow>
        (if out = Done then None else Some SysErr,
         if out = Fails then n1 else n1\<lparr>sn_files := (sn_files n)(p := map_option (\<lambda>f. f\<lparr>sf_mode := m\<rparr>) (sn_files n p))\<rparr>))"

text \<open>\<open>Shutdown\<close> closes the listener in any case; \<open>Partial\<close> is its deadline, with connections still open.\<close>

definition shutdownServer :: "nat \<Rightarrow> service_net \<Rightarrow> err option \<times> service_net" where
  "shutdownServer i n =
     (case net_call (close_listener i n) of (out, n1) \<Rightarrow>
        if out = Done then (None, n1)
        else (case net_call n1 of (out2, n2) \<Rightarrow>
            (if out2 \<noteq> Done then Some (Joined [SysErr, SysErr]) else if out = Partial then None else Some SysErr, n2)))"

fun shutdown_all :: "nat list \<Rightarrow> service_net \<Rightarrow> err list \<times> service_net" where
  "shutdown_all [] n = ([], n)"
| "shutdown_all (i # is) n =
     (case shutdownServer i n of (e, n1) \<Rightarrow>
        (case shutdown_all is n1 of (es, n2) \<Rightarrow>
           ((case e of None \<Rightarrow> es | Some x \<Rightarrow> Wrapped ''Failed to close service listener'' x # es), n2)))"

definition opt_list :: "'a option \<Rightarrow> 'a list" where
  "opt_list x = (case x of None \<Rightarrow> [] | Some y \<Rightarrow> [y])"

definition closeServers :: "service_net \<Rightarrow> err option \<times> service_net" where
  "closeServers n =
     (case shutdown_all (opt_list (sn_unix n) @ opt_list (sn_pipe n)) (n\<lparr>sn_unix := None, sn_pipe := None\<rparr>) of
        (es, n1) \<Rightarrow> (errors_Join (map Some es), n1))"

definition ensureDirExists :: "string \<Rightarrow> service_net \<Rightarrow> err option \<times> service_net" where
  "ensureDirExists dir n =
     (case net_call n of (out, n1) \<Rightarrow>
        if out \<noteq> Done \<or> dir \<in> set (sn_dirs n) then (None, n1)
        else (case net_call n1 of (out2, n2) \<Rightarrow>
            (if out2 = Done then None else Some (Wrapped ''Failed to create directory'' SysErr),
             if out2 = Fails then n2 else n2\<lparr>sn_dirs := dir # sn_dirs n2\<rparr>)))"

definition net_Listen :: "string \<Rightarrow> string \<Rightarrow> service_net \<Rightarrow> nat res \<times> service_net" where
  "net_Listen addr sddl n =
     (case net_call n of (out, n1) \<Rightarrow>
        if out \<noteq> Done \<or> sn_files n addr \<noteq> None then (Inl SysErr, n1)
        else (Inr (sn_next n),
          n1\<lparr>sn_next := sn_next n + 1, sn_listeners := \<lparr>li_id = sn_next n, li_addr = addr, li_sddl = sddl\<rparr> # sn_listeners n,
             sn_files := (if sddl = [] then (sn_files n)(addr \<mapsto> \<lparr>sf_owner = 0, sf_mode = sn_newMode n\<rparr>) else sn_files n)\<rparr>))"

text \<open>The permissions of a new socket, for the bound user of the system, if there is one.\<close>

definition socket_permissions :: "32 word option \<Rightarrow> string \<Rightarrow> service_net \<Rightarrow> err option \<times> service_net" where
  "socket_permissions bound addr n =
     (case bound of
        Some uid \<Rightarrow>
          (case os_Chown addr uid n of
             (Some e, n1) \<Rightarrow> (Some (Wrapped ''Failed to set Unix socket owner'' e), n1)
           | (None, n1) \<Rightarrow>
               (case os_Chmod addr private_mode n1 of
                  (Some e, n2) \<Rightarrow> (Some (Wrapped ''Failed to set Unix socket permissions'' e), n2)
                | (None, n2) \<Rightarrow> (None, n2)))
      | None \<Rightarrow>
          if sn_goos n = ''darwin'' then
            (case os_Chmod addr open_mode n of
               (Some e, n1) \<Rightarrow> (Some (Wrapped ''Failed to set bootstrap Unix socket permissions'' e), n1)
             | (None, n1) \<Rightarrow> (None, n1))
          else
            (case os_Chmod addr private_mode n of
               (Some e, n1) \<Rightarrow> (Some (Wrapped ''Failed to set Unix socket permissions'' e), n1)
             | (None, n1) \<Rightarrow> (None, n1)))"

text \<open>No error means that the server serves, which it does until it is shut down.\<close>

definition StartUnix :: "32 word option \<Rightarrow> string \<Rightarrow> service_net \<Rightarrow> err option \<times> service_net" where
  "StartUnix bound addr n =
     (case net_Listen addr [] n of
        (Inl e, n1) \<Rightarrow> (Some (Wrapped ''Unix socket listen error'' e), n1)
      | (Inr i, n1) \<Rightarrow>
          (case socket_permissions bound addr n1 of
             (Some e, n2) \<Rightarrow> (Some e, close_listener i n2)
           | (None, n2) \<Rightarrow> (None, n2\<lparr>sn_unix := Some i\<rparr>)))"

definition DefaultNamedPipeSDDL :: string where "DefaultNamedPipeSDDL = ''D:PAI(A;OICI;GWGR;;;BU)(A;OICI;GWGR;;;SY)''"

definition pipe_sddl :: "string option \<Rightarrow> string" where
  "pipe_sddl sid = (case sid of None \<Rightarrow> [] | Some s \<Rightarrow> ''D:PAI(A;OICI;GWGR;;;'' @ s @ '')(A;OICI;GWGR;;;SY)'')"

definition ListenNamedPipe :: "(string \<rightharpoonup> string) \<Rightarrow> string \<Rightarrow> string \<Rightarrow> service_net \<Rightarrow> nat res \<times> service_net" where
  "ListenNamedPipe env path sddl n =
     (let sddl1 = (if env_value env ''LISTEN_NAMEDPIPE_SDDL'' \<noteq> [] then env_value env ''LISTEN_NAMEDPIPE_SDDL'' else sddl);
          sddl2 = (if sddl1 = [] then DefaultNamedPipeSDDL else sddl1)
      in case net_call n of (out, n1) \<Rightarrow> if out \<noteq> Done then (Inl SysErr, n1) else net_Listen path sddl2 n1)"

definition StartPipe :: "(string \<rightharpoonup> string) \<Rightarrow> string option \<Rightarrow> string \<Rightarrow> service_net \<Rightarrow> err option \<times> service_net" where
  "StartPipe env sid addr n =
     (case ListenNamedPipe env addr (pipe_sddl sid) n of
        (Inl e, n1) \<Rightarrow> (Some (Wrapped ''Pipe listen error'' e), n1)
      | (Inr i, n1) \<Rightarrow> (None, n1\<lparr>sn_pipe := Some i\<rparr>))"

definition unlink_socket :: "string \<Rightarrow> service_net \<Rightarrow> err option \<times> service_net" where
  "unlink_socket addr n =
     (case net_call n of (out, n1) \<Rightarrow>
        (if out = Done then None else Some (Wrapped ''Unlink error'' SysErr),
         if out = Fails then n1 else n1\<lparr>sn_files := (sn_files n)(addr := None)\<rparr>))"

definition startServer :: "string \<Rightarrow> (string \<Rightarrow> service_net \<Rightarrow> err option \<times> service_net) \<Rightarrow> service_net \<Rightarrow> err option \<times> service_net" where
  "startServer addr startFunc n =
     (case closeServers n of
        (Some e, n1) \<Rightarrow> (Some e, n1)
      | (None, n1) \<Rightarrow>
          if addr = [] then (None, n1)
          else (case (if sn_goos n1 = ''windows'' then (None, n1)
                      else (case ensureDirExists (path_Dir addr) n1 of
                          (Some e, n2) \<Rightarrow> (Some e, n2)
                        | (None, n2) \<Rightarrow> unlink_socket addr n2)) of
              (Some e, n3) \<Rightarrow> (Some e, n3)
            | (None, n3) \<Rightarrow> startFunc addr n3))"

subsection \<open>Who is at the other end\<close>

text \<open>
  What the kernel says about the peer of a connection; each part is nothing when its call fails. The token
  of macOS has eight words.
\<close>

record linux_peer =
  up_PID :: int
  up_UID :: "32 word"
  up_GID :: "32 word"

definition getUnixPeerInfo :: "bool \<Rightarrow> linux_peer option \<Rightarrow> linux_peer option" where
  "getUnixPeerInfo sysconn ucred =
     (if \<not> sysconn then None
      else (case ucred of None \<Rightarrow> None | Some info \<Rightarrow> if up_PID info > 0 then Some info else None))"

record darwin_peer =
  dp_PID :: int
  dp_UID :: "32 word"
  dp_GID :: "32 word"
  dp_HasGID :: bool
  dp_AuditToken :: "32 word list"

record darwin_socket =
  ds_sysconn :: bool
  ds_cred :: "(32 word \<times> 32 word list) option"
  ds_pid :: "int option"
  ds_token :: "32 word list option"

definition getDarwinPeerInfo :: "darwin_socket \<Rightarrow> darwin_peer option" where
  "getDarwinPeerInfo c =
     (if \<not> ds_sysconn c then None
      else (case ds_cred c of
          None \<Rightarrow> None
        | Some (uid, groups) \<Rightarrow>
            (case ds_pid c of
               None \<Rightarrow> None
             | Some pid \<Rightarrow>
                 if pid \<le> 0 then None
                 else (case ds_token c of
                     None \<Rightarrow> None
                   | Some token \<Rightarrow>
                       if length token \<noteq> 8 then None
                       else Some \<lparr>dp_PID = pid, dp_UID = uid, dp_GID = (if groups = [] then 0 else hd groups), dp_HasGID = (groups \<noteq> []), dp_AuditToken = token\<rparr>))))"

subsection \<open>The signature of the peer\<close>

text \<open>
  Security.framework: whether it loads, whether its objects can be made, and its answers. \<open>se_guest\<close> is the code
  that runs under a token, \<open>se_validity\<close> checks it against the text of a requirement. \<open>verifyKokoroBoxProcess\<close> also says which
  objects it made and which it released.
\<close>

datatype cf_object = AuditData | Attributes | GuestCode | RequirementString | Requirement

record 'g security =
  se_load :: "err option"
  se_create :: "cf_object \<Rightarrow> bool"
  se_guest :: "32 word list \<Rightarrow> 'g option"
  se_compile :: "string \<Rightarrow> bool"
  se_validity :: "'g \<Rightarrow> nat \<Rightarrow> string \<Rightarrow> bool"

definition kSecCSStrictValidate :: nat where "kSecCSStrictValidate = 2 ^ 4"

definition quoted :: "string \<Rightarrow> string" where "quoted s = [char_of (34 :: nat)] @ s @ [char_of (34 :: nat)]"

definition requirementText :: string where
  "requirementText =
     ''anchor apple generic and identifier '' @ quoted ''com.amamiyakokoro.app'' @ '' and certificate leaf[subject.OU] = '' @ quoted ''755TNLRN92'' @
     '' and ! entitlement['' @ quoted ''com.apple.security.get-task-allow'' @ ''] exists''"

definition verifyKokoroBoxProcess :: "'g security \<Rightarrow> 32 word list \<Rightarrow> err option \<times> cf_object list \<times> cf_object list" where
  "verifyKokoroBoxProcess S token =
     (if se_load S \<noteq> None then (se_load S, [], [])
      else if \<not> se_create S AuditData then (Some (Plain ''create bootstrap audit token data''), [], [])
      else if \<not> se_create S Attributes then (Some (Plain ''create bootstrap code attributes''), [AuditData], [AuditData])
      else (case se_guest S token of
          None \<Rightarrow> (Some (Plain ''resolve bootstrap client code''), [AuditData, Attributes], [Attributes, AuditData])
        | Some guest \<Rightarrow>
            if \<not> se_create S RequirementString
            then (Some (Plain ''create bootstrap code requirement''), [AuditData, Attributes, GuestCode], [GuestCode, Attributes, AuditData])
            else if \<not> se_compile S requirementText
            then (Some (Plain ''compile bootstrap code requirement''), [AuditData, Attributes, GuestCode, RequirementString],
                  [RequirementString, GuestCode, Attributes, AuditData])
            else (if se_validity S guest kSecCSStrictValidate requirementText then None else Some (Plain ''bootstrap client signature rejected''),
                  [AuditData, Attributes, GuestCode, RequirementString, Requirement], [Requirement, RequirementString, GuestCode, Attributes, AuditData])))"

definition verifyDarwinPeer :: "'g security \<Rightarrow> darwin_peer option \<Rightarrow> 32 word res" where
  "verifyDarwinPeer S peer =
     (case peer of
        None \<Rightarrow> Inl (Plain ''bootstrap request has no kernel peer identity'')
      | Some p \<Rightarrow>
          if dp_PID p \<le> 0 then Inl (Plain ''bootstrap request has no kernel peer identity'')
          else (case fst (verifyKokoroBoxProcess S (dp_AuditToken p)) of Some e \<Rightarrow> Inl e | None \<Rightarrow> Inr (dp_UID p)))"

subsection \<open>Pairing\<close>

record 'k boot_state =
  bo_keys :: "'k key_manager"
  bo_net :: service_net

definition maxBootstrapBodyBytes :: nat where "maxBootstrapBodyBytes = 16 * 1024"

definition restrict_socket :: "string \<Rightarrow> 32 word \<Rightarrow> service_net \<Rightarrow> err option \<times> service_net" where
  "restrict_socket addr uid n =
     (case os_Chown addr uid n of
        (Some e, n1) \<Rightarrow> (Some (Wrapped ''restrict bootstrap socket owner'' e), n1)
      | (None, n1) \<Rightarrow>
          (case os_Chmod addr private_mode n1 of
             (Some e, n2) \<Rightarrow> (Some (Wrapped ''restrict bootstrap socket permissions'' e), n2)
           | (None, n2) \<Rightarrow> (None, n2)))"

text \<open>
  \<open>decode\<close> reads the key from the part of the body that the size limit lets through; its second argument says whether
  more follows. No error means the answer of success.
\<close>

definition bootstrap_handler ::
  "'k crypto \<Rightarrow> (string \<Rightarrow> bool \<Rightarrow> string res) \<Rightarrow> 'g security \<Rightarrow> darwin_peer option \<Rightarrow> string \<Rightarrow> string \<Rightarrow> 'k boot_state \<Rightarrow> err option \<times> 'k boot_state" where
  "bootstrap_handler C decode S peer addr body st =
     (case verifyDarwinPeer S peer of
        Inl e \<Rightarrow> (Some (HTTPError 403 ''Bootstrap client verification failed''), st)
      | Inr uid \<Rightarrow>
          (case decode (take maxBootstrapBodyBytes body) (maxBootstrapBodyBytes < length body) of
             Inl e \<Rightarrow> (Some (HTTPError 400 ''Invalid bootstrap request''), st)
           | Inr key \<Rightarrow>
               (case BootstrapPublicKeyForUID C key uid (bo_keys st) of
                  (Some e, km) \<Rightarrow>
                    (Some (if e = ErrAlreadyInitialized then HTTPError 409 ''Service authentication is already initialized'' else HTTPErrorOf 400 e),
                     st\<lparr>bo_keys := km\<rparr>)
                | (None, km) \<Rightarrow>
                    (case restrict_socket addr uid (bo_net st) of (e, n) \<Rightarrow> (e, st\<lparr>bo_keys := km, bo_net := n\<rparr>)))))"

text \<open>
  Runs of the service from its start: the socket is opened for the user who is bound at that time, requests to
  pair come in, and the servers are closed.
\<close>

inductive boot_reach :: "'k crypto \<Rightarrow> 'g security \<Rightarrow> string \<Rightarrow> 'k boot_state \<Rightarrow> bool" for C :: "'k crypto" and S :: "'g security" and addr :: string where
  Boot: "sn_listeners n = [] \<Longrightarrow> sn_unix n = None \<Longrightarrow> sn_pipe n = None \<Longrightarrow> boot_reach C S addr \<lparr>bo_keys = snd (InitKeyManager C km), bo_net = n\<rparr>"
| Listen: "boot_reach C S addr st \<Longrightarrow>
    boot_reach C S addr (st\<lparr>bo_net := snd (startServer addr (StartUnix (GetAuthorizedUID (bo_keys st))) (bo_net st))\<rparr>)"
| Pair: "boot_reach C S addr st \<Longrightarrow> boot_reach C S addr (snd (bootstrap_handler C decode S peer addr body st))"
| Close_servers: "boot_reach C S addr st \<Longrightarrow> boot_reach C S addr (st\<lparr>bo_net := snd (closeServers (bo_net st))\<rparr>)"
| Script: "boot_reach C S addr st \<Longrightarrow> boot_reach C S addr (st\<lparr>bo_net := (bo_net st)\<lparr>sn_io := ios\<rparr>, bo_keys := (bo_keys st)\<lparr>km_io := ios'\<rparr>\<rparr>)"

section \<open>Lemmas\<close>


subsection \<open>The data directory\<close>

lemma dr_call_eq: "dr_call d = (fst (next_io (dr_io d)), d\<lparr>dr_io := snd (next_io (dr_io d))\<rparr>)"
  by (simp add: dr_call_def case_prod_unfold)

lemma dirs_differ: "current_dir root \<noteq> legacy_dir root"
  by (simp add: current_dir_def legacy_dir_def ConfigDirectoryName_def)

subsection \<open>Servers\<close>

lemma net_call_eq: "net_call n = (fst (next_io (sn_io n)), n\<lparr>sn_io := snd (next_io (sn_io n))\<rparr>)"
  by (simp add: net_call_def case_prod_unfold)

lemma close_listener_fields [simp]:
  "sn_listeners (close_listener i n) = filter (\<lambda>l. li_id l \<noteq> i) (sn_listeners n)" "sn_goos (close_listener i n) = sn_goos n"
  "sn_unix (close_listener i n) = sn_unix n" "sn_pipe (close_listener i n) = sn_pipe n" "sn_next (close_listener i n) = sn_next n"
  by (simp_all add: close_listener_def)

lemma shutdownServer_fields [simp]:
  "sn_listeners (snd (shutdownServer i n)) = filter (\<lambda>l. li_id l \<noteq> i) (sn_listeners n)" "sn_goos (snd (shutdownServer i n)) = sn_goos n"
  "sn_unix (snd (shutdownServer i n)) = sn_unix n" "sn_pipe (snd (shutdownServer i n)) = sn_pipe n" "sn_next (snd (shutdownServer i n)) = sn_next n"
  "sn_files (snd (shutdownServer i n)) = sn_files (close_listener i n)"
  by (simp_all add: shutdownServer_def net_call_eq)

lemma shutdown_all_fields:
  "sn_listeners (snd (shutdown_all is n)) = filter (\<lambda>l. li_id l \<notin> set is) (sn_listeners n)"
  "sn_goos (snd (shutdown_all is n)) = sn_goos n" "sn_unix (snd (shutdown_all is n)) = sn_unix n"
  "sn_pipe (snd (shutdown_all is n)) = sn_pipe n" "sn_next (snd (shutdown_all is n)) = sn_next n"
proof (induction "is" arbitrary: n)
  case (Cons i "is")
  {
    case 1
    show ?case using Cons.IH(1) [of "snd (shutdownServer i n)"] by (simp add: case_prod_unfold conj_commute)
  next
    case 2
    show ?case using Cons.IH(2) [of "snd (shutdownServer i n)"] by (simp add: case_prod_unfold)
  next
    case 3
    show ?case using Cons.IH(3) [of "snd (shutdownServer i n)"] by (simp add: case_prod_unfold)
  next
    case 4
    show ?case using Cons.IH(4) [of "snd (shutdownServer i n)"] by (simp add: case_prod_unfold)
  next
    case 5
    show ?case using Cons.IH(5) [of "snd (shutdownServer i n)"] by (simp add: case_prod_unfold)
  }
qed simp_all

lemma set_opt_list [simp]: "set (opt_list x) = set_option x"
  by (cases x) (simp_all add: opt_list_def)

lemma closeServers_fields [simp]:
  "sn_listeners (snd (closeServers n)) = filter (\<lambda>l. sn_unix n \<noteq> Some (li_id l) \<and> sn_pipe n \<noteq> Some (li_id l)) (sn_listeners n)"
  "sn_goos (snd (closeServers n)) = sn_goos n" "sn_unix (snd (closeServers n)) = None" "sn_pipe (snd (closeServers n)) = None"
  "sn_next (snd (closeServers n)) = sn_next n"
  by (simp_all add: closeServers_def case_prod_unfold shutdown_all_fields)

subsection \<open>The permissions of the socket\<close>

text \<open>
  Every listener is the registered one, and while it is there its file is private to its owner, or open to all on a
  machine where the pairing takes place over it.
\<close>

definition private_file :: "string \<Rightarrow> 32 word option \<Rightarrow> socket_file \<Rightarrow> bool" where
  "private_file goos bound f =
     ((sf_mode f = private_mode \<or> goos = ''darwin'' \<and> sf_mode f = open_mode) \<and> (sf_owner f = 0 \<or> bound = Some (sf_owner f)))"

definition net_ok :: "string \<Rightarrow> 32 word option \<Rightarrow> service_net \<Rightarrow> bool" where
  "net_ok addr bound n =
     ((\<forall>l \<in> set (sn_listeners n). sn_unix n = Some (li_id l) \<and> li_addr l = addr) \<and>
      (\<forall>f. sn_listeners n \<noteq> [] \<longrightarrow> sn_files n addr = Some f \<longrightarrow> private_file (sn_goos n) bound f))"

lemma net_ok_empty: "sn_listeners n = [] \<Longrightarrow> net_ok addr bound n"
  by (simp add: net_ok_def)

lemma net_ok_closed:
  assumes "net_ok addr bound n"
  shows "sn_listeners (snd (closeServers n)) = []"
  using assms by (auto simp: net_ok_def filter_empty_conv)

lemma ensureDirExists_fields [simp]:
  "sn_listeners (snd (ensureDirExists dir n)) = sn_listeners n" "sn_goos (snd (ensureDirExists dir n)) = sn_goos n"
  by (simp_all add: ensureDirExists_def net_call_eq)

lemma unlink_socket_fields [simp]:
  "sn_listeners (snd (unlink_socket addr n)) = sn_listeners n" "sn_goos (snd (unlink_socket addr n)) = sn_goos n"
  by (simp_all add: unlink_socket_def net_call_eq)

lemma chown_fields [simp]:
  "sn_listeners (snd (os_Chown p u n)) = sn_listeners n" "sn_goos (snd (os_Chown p u n)) = sn_goos n" "sn_unix (snd (os_Chown p u n)) = sn_unix n"
  "sn_listeners (snd (os_Chmod p m n)) = sn_listeners n" "sn_goos (snd (os_Chmod p m n)) = sn_goos n" "sn_unix (snd (os_Chmod p m n)) = sn_unix n"
  by (simp_all add: os_Chown_def os_Chmod_def net_call_eq)

lemma chown_file:
  "sn_files (snd (os_Chown p u n)) p = sn_files n p \<or> sn_files (snd (os_Chown p u n)) p = map_option (\<lambda>f. f\<lparr>sf_owner := u\<rparr>) (sn_files n p)"
  "fst (os_Chown p u n) = None \<Longrightarrow> sn_files (snd (os_Chown p u n)) p = map_option (\<lambda>f. f\<lparr>sf_owner := u\<rparr>) (sn_files n p)"
  by (auto simp: os_Chown_def net_call_eq split: if_splits)

lemma chmod_file:
  "sn_files (snd (os_Chmod p m n)) p = sn_files n p \<or> sn_files (snd (os_Chmod p m n)) p = map_option (\<lambda>f. f\<lparr>sf_mode := m\<rparr>) (sn_files n p)"
  "fst (os_Chmod p m n) = None \<Longrightarrow> sn_files (snd (os_Chmod p m n)) p = map_option (\<lambda>f. f\<lparr>sf_mode := m\<rparr>) (sn_files n p)"
  by (auto simp: os_Chmod_def net_call_eq split: if_splits)


lemma socket_permissions_fields [simp]:
  "sn_listeners (snd (socket_permissions bound addr n)) = sn_listeners n" "sn_goos (snd (socket_permissions bound addr n)) = sn_goos n"
  "sn_unix (snd (socket_permissions bound addr n)) = sn_unix n"
  by (simp_all add: socket_permissions_def case_prod_unfold split: option.split)

lemma socket_permissions_private:
  assumes "fst (socket_permissions bound addr n) = None" "sn_files n addr = Some f" "sf_owner f = 0"
  shows "\<exists>f'. sn_files (snd (socket_permissions bound addr n)) addr = Some f' \<and>
    sf_mode f' = (if bound = None \<and> sn_goos n = ''darwin'' then open_mode else private_mode) \<and> sf_owner f' = (case bound of None \<Rightarrow> 0 | Some u \<Rightarrow> u)"
  using assms chown_file(2) [of addr "the bound" n] chmod_file(2) [of addr private_mode "snd (os_Chown addr (the bound) n)"]
    chmod_file(2) [of addr private_mode n] chmod_file(2) [of addr open_mode n]
  by (auto simp: socket_permissions_def case_prod_unfold split: option.splits if_splits)

lemma StartUnix_ok:
  assumes "fst (StartUnix bound addr n) = None"
  shows "\<exists>f l. sn_files (snd (StartUnix bound addr n)) addr = Some f \<and> sn_listeners (snd (StartUnix bound addr n)) = l # sn_listeners n \<and>
    sn_unix (snd (StartUnix bound addr n)) = Some (li_id l) \<and> li_addr l = addr \<and> sn_goos (snd (StartUnix bound addr n)) = sn_goos n \<and>
    sf_mode f = (if bound = None \<and> sn_goos n = ''darwin'' then open_mode else private_mode) \<and> sf_owner f = (case bound of None \<Rightarrow> 0 | Some u \<Rightarrow> u)"
proof -
  obtain r n1 where l: "net_Listen addr [] n = (r, n1)" by (rule prod.exhaust)
  then obtain i where i: "r = Inr i" using assms by (cases r) (auto simp: StartUnix_def)
  obtain e n2 where p: "socket_permissions bound addr n1 = (e, n2)" by (rule prod.exhaust)
  have e: "e = None" using assms by (cases e) (simp_all add: StartUnix_def l i p)
  have f: "sn_files n1 addr = Some \<lparr>sf_owner = 0, sf_mode = sn_newMode n\<rparr>" "sn_listeners n1 = \<lparr>li_id = i, li_addr = addr, li_sddl = []\<rparr> # sn_listeners n" "sn_goos n1 = sn_goos n"
    using l i by (auto simp: net_Listen_def net_call_eq split: if_splits)
  have "sn_listeners n2 = sn_listeners n1" "sn_goos n2 = sn_goos n1" using socket_permissions_fields [of bound addr n1] p by simp_all
  then show ?thesis
    using socket_permissions_private [of bound addr n1, unfolded p, OF _ f(1)] f e by (simp add: StartUnix_def l i p split: option.split)
qed

lemma StartUnix_failed:
  assumes "fst (StartUnix bound addr n) \<noteq> None" "sn_listeners n = []"
  shows "sn_listeners (snd (StartUnix bound addr n)) = []"
proof -
  obtain r n1 where l: "net_Listen addr [] n = (r, n1)" by (rule prod.exhaust)
  show ?thesis
  proof (cases r)
    case (Inl e)
    then show ?thesis using l assms(2) by (auto simp: StartUnix_def net_Listen_def net_call_eq split: if_splits)
  next
    case (Inr i)
    then have "sn_listeners n1 = [\<lparr>li_id = i, li_addr = addr, li_sddl = []\<rparr>]"
      using l assms(2) by (auto simp: net_Listen_def net_call_eq split: if_splits)
    moreover obtain e n2 where p: "socket_permissions bound addr n1 = (e, n2)" by (rule prod.exhaust)
    moreover have "sn_listeners n2 = sn_listeners n1" using socket_permissions_fields(1) [of bound addr n1] p by simp
    moreover have "e \<noteq> None" using assms(1) l Inr p by (cases e) (auto simp: StartUnix_def)
    ultimately show ?thesis using l Inr by (auto simp: StartUnix_def)
  qed
qed

lemma StartUnix_net_ok:
  assumes "sn_listeners n = []"
  shows "net_ok addr bound (snd (StartUnix bound addr n))"
proof (cases "fst (StartUnix bound addr n)")
  case None
  from StartUnix_ok [OF None] assms show ?thesis by (auto simp: net_ok_def private_file_def split: option.splits if_splits)
next
  case (Some e)
  then show ?thesis using StartUnix_failed [of bound addr n] assms by (simp add: net_ok_empty)
qed

lemma startServer_cases:
  obtains (Early) n1 where "startServer addr start n = (fst (startServer addr start n), n1)" "sn_listeners n1 = sn_listeners (snd (closeServers n))" "sn_goos n1 = sn_goos n"
  | (Started) n1 where "startServer addr start n = start addr n1" "sn_listeners n1 = sn_listeners (snd (closeServers n))" "sn_goos n1 = sn_goos n" "addr \<noteq> []"
proof -
  obtain r n1 where c: "closeServers n = (r, n1)" by (rule prod.exhaust)
  have g: "sn_goos n1 = sn_goos n" using closeServers_fields(2) [of n] c by simp
  show ?thesis
  proof (cases "r = None \<and> addr \<noteq> []")
    case False
    then have "startServer addr start n = (fst (startServer addr start n), n1)" using c by (cases r) (auto simp: startServer_def)
    with that(1) c g show ?thesis by simp
  next
    case True
    obtain q n3 where q: "(if sn_goos n1 = ''windows'' then (None, n1) else (case ensureDirExists (path_Dir addr) n1 of
                          (Some e, n2) \<Rightarrow> (Some e, n2) | (None, n2) \<Rightarrow> unlink_socket addr n2)) = (q, n3)" by (rule prod.exhaust)
    have "n3 = (if sn_goos n1 = ''windows'' then n1 else (case fst (ensureDirExists (path_Dir addr) n1) of
         Some e \<Rightarrow> snd (ensureDirExists (path_Dir addr) n1) | None \<Rightarrow> snd (unlink_socket addr (snd (ensureDirExists (path_Dir addr) n1)))))"
      using q by (auto split: if_splits option.splits prod.splits)
    then have n3: "sn_listeners n3 = sn_listeners n1" "sn_goos n3 = sn_goos n1" by (simp_all split: option.split)
    have s: "startServer addr start n = (case q of Some e \<Rightarrow> (Some e, n3) | None \<Rightarrow> start addr n3)"
      unfolding startServer_def c using True q by (simp split: option.split)
    show ?thesis
    proof (cases q)
      case None
      then show ?thesis using that(2) [of n3] s n3 c g True by simp
    next
      case (Some e)
      then show ?thesis using that(1) [of n3] s n3 c g True by simp
    qed
  qed
qed

lemma startServer_net_ok:
  assumes "net_ok addr bound' n"
  shows "net_ok addr bound (snd (startServer addr (StartUnix bound) n))"
proof (rule startServer_cases [of addr "StartUnix bound" n])
  fix n1
  assume "startServer addr (StartUnix bound) n = (fst (startServer addr (StartUnix bound) n), n1)" "sn_listeners n1 = sn_listeners (snd (closeServers n))"
  then show ?thesis using net_ok_closed [OF assms] by (metis net_ok_empty snd_conv)
next
  fix n1
  assume "startServer addr (StartUnix bound) n = StartUnix bound addr n1" "sn_listeners n1 = sn_listeners (snd (closeServers n))"
  then show ?thesis using net_ok_closed [OF assms] StartUnix_net_ok [of n1 addr bound] by simp
qed


subsection \<open>Pairing\<close>

lemma restrict_fields [simp]:
  "sn_listeners (snd (restrict_socket addr u n)) = sn_listeners n" "sn_goos (snd (restrict_socket addr u n)) = sn_goos n"
  "sn_unix (snd (restrict_socket addr u n)) = sn_unix n"
  by (simp_all add: restrict_socket_def case_prod_unfold split: option.split)

lemma restrict_file:
  assumes "sn_files (snd (restrict_socket addr u n)) addr = Some f'"
  shows "\<exists>f. sn_files n addr = Some f \<and> sf_owner f' \<in> {sf_owner f, u} \<and> sf_mode f' \<in> {sf_mode f, private_mode}"
  using assms chown_file(1) [of addr u n] chmod_file(1) [of addr private_mode "snd (os_Chown addr u n)"]
  by (cases "sn_files n addr") (auto simp: restrict_socket_def case_prod_unfold split: option.splits)

lemma restrict_done:
  assumes "fst (restrict_socket addr u n) = None" "sn_files n addr = Some f"
  shows "sn_files (snd (restrict_socket addr u n)) addr = Some (f\<lparr>sf_owner := u, sf_mode := private_mode\<rparr>)"
  using assms chown_file(2) [of addr u n] chmod_file(2) [of addr private_mode "snd (os_Chown addr u n)"]
  by (auto simp: restrict_socket_def case_prod_unfold split: option.splits)

lemma restrict_net_ok:
  assumes "net_ok addr None n"
  shows "net_ok addr (Some u) (snd (restrict_socket addr u n))"
proof -
  have "private_file (sn_goos n) (Some u) f'" if f: "sn_files (snd (restrict_socket addr u n)) addr = Some f'" "sn_listeners n \<noteq> []" for f'
    using restrict_file [OF f(1)] assms f(2) by (fastforce simp: net_ok_def private_file_def)
  then show ?thesis using assms by (auto simp: net_ok_def)
qed

lemma BootstrapPublicKey_bound:
  assumes "BootstrapPublicKeyForUID C s uid km = (r, km')"
  shows "if r = None then GetAuthorizedUID km = None \<and> GetAuthorizedUID km' = Some uid else GetAuthorizedUID km' = GetAuthorizedUID km"
proof (cases r)
  case None
  then show ?thesis using BootstrapPublicKeyForUID_all_or_nothing [where C = C and s = s and uid = uid and km = km] assms by (simp add: GetAuthorizedUID_def)
next
  case (Some e)
  then show ?thesis using BootstrapPublicKeyForUID_error [of C s uid km e km'] assms by (simp add: GetAuthorizedUID_def)
qed

lemma handler_net_ok:
  assumes "net_ok addr (GetAuthorizedUID (bo_keys st)) (bo_net st)"
  shows "net_ok addr (GetAuthorizedUID (bo_keys (snd (bootstrap_handler C decode S peer addr body st)))) (bo_net (snd (bootstrap_handler C decode S peer addr body st)))"
proof -
  have "net_ok addr (GetAuthorizedUID km) (bo_net st)" if "BootstrapPublicKeyForUID C key uid (bo_keys st) = (Some e, km)" for key uid e km
    using BootstrapPublicKey_bound [OF that] assms by simp
  moreover have "net_ok addr (GetAuthorizedUID km) n"
    if "BootstrapPublicKeyForUID C key uid (bo_keys st) = (None, km)" "restrict_socket addr uid (bo_net st) = (e, n)" for key uid km e n
    using BootstrapPublicKey_bound [OF that(1)] assms restrict_net_ok [of addr "bo_net st" uid] that(2) by simp
  ultimately show ?thesis
    using assms by (auto simp: bootstrap_handler_def split: sum.split prod.split option.split)
qed

lemma boot_net_ok: "boot_reach C S addr st \<Longrightarrow> net_ok addr (GetAuthorizedUID (bo_keys st)) (bo_net st)"
proof (induction rule: boot_reach.induct)
  case (Boot n km)
  then show ?case by (simp add: net_ok_empty)
next
  case (Listen st)
  then show ?case using startServer_net_ok by simp
next
  case (Pair st decode peer body)
  show ?case using Pair.IH by (rule handler_net_ok)
next
  case (Close_servers st)
  then show ?case using net_ok_closed by (simp add: net_ok_empty)
next
  case (Script st ios ios')
  then show ?case by (simp add: net_ok_def GetAuthorizedUID_def)
qed

lemma verify_ok_iff:
  "fst (verifyKokoroBoxProcess S token) = None \<longleftrightarrow>
     se_load S = None \<and> se_create S AuditData \<and> se_create S Attributes \<and> se_create S RequirementString \<and> se_compile S requirementText \<and>
     (\<exists>g. se_guest S token = Some g \<and> se_validity S g kSecCSStrictValidate requirementText)"
  by (simp add: verifyKokoroBoxProcess_def split: option.split)

lemma verifyDarwinPeer_ok:
  assumes "verifyDarwinPeer S peer = Inr uid"
  obtains p g where "peer = Some p" "0 < dp_PID p" "dp_UID p = uid" "se_guest S (dp_AuditToken p) = Some g" "se_validity S g kSecCSStrictValidate requirementText"
  using assms verify_ok_iff [of S "dp_AuditToken (the peer)"] by (auto simp: verifyDarwinPeer_def split: option.splits if_splits)

lemma handler_ok:
  assumes "fst (bootstrap_handler C decode S peer addr body st) = None"
  obtains uid key km n where "verifyDarwinPeer S peer = Inr uid"
    "decode (take maxBootstrapBodyBytes body) (maxBootstrapBodyBytes < length body) = Inr key"
    "BootstrapPublicKeyForUID C key uid (bo_keys st) = (None, km)" "restrict_socket addr uid (bo_net st) = (None, n)"
    "snd (bootstrap_handler C decode S peer addr body st) = st\<lparr>bo_keys := km, bo_net := n\<rparr>"
proof -
  from assms obtain uid where v: "verifyDarwinPeer S peer = Inr uid"
    by (cases "verifyDarwinPeer S peer") (auto simp: bootstrap_handler_def)
  with assms obtain key where d: "decode (take maxBootstrapBodyBytes body) (maxBootstrapBodyBytes < length body) = Inr key"
    by (cases "decode (take maxBootstrapBodyBytes body) (maxBootstrapBodyBytes < length body)") (auto simp: bootstrap_handler_def)
  obtain r km where b: "BootstrapPublicKeyForUID C key uid (bo_keys st) = (r, km)" by (rule prod.exhaust)
  have r: "r = None" using assms v d b by (cases r) (auto simp: bootstrap_handler_def)
  obtain e n where n: "restrict_socket addr uid (bo_net st) = (e, n)" by (rule prod.exhaust)
  show ?thesis using that [OF v d] assms v d b r n by (auto simp: bootstrap_handler_def)
qed


section \<open>A small example\<close>

text \<open>A paired user, and an unpaired macOS service whose client is signed as required.\<close>

definition toy_net :: "string \<Rightarrow> service_net" where
  "toy_net goos = \<lparr>sn_goos = goos, sn_dirs = [], sn_files = Map.empty, sn_newMode = 493, sn_listeners = [], sn_unix = None, sn_pipe = None, sn_next = 0, sn_io = []\<rparr>"

definition toy_signed :: "nat security" where
  "toy_signed = \<lparr>se_load = None, se_create = (\<lambda>_. True), se_guest = (\<lambda>_. Some 0), se_compile = (\<lambda>_. True), se_validity = (\<lambda>_ f t. f = kSecCSStrictValidate \<and> t = requirementText)\<rparr>"

definition toy_client :: darwin_peer where
  "toy_client = \<lparr>dp_PID = 7, dp_UID = 501, dp_GID = 20, dp_HasGID = True, dp_AuditToken = replicate 8 0\<rparr>"

definition toy_boot :: "string boot_state" where
  "toy_boot = \<lparr>bo_keys = snd (InitKeyManager toy_crypto (GetKeyManager Absent None Absent [])), bo_net = toy_net ''darwin''\<rparr>"

definition toy_listening :: "string boot_state" where
  "toy_listening = toy_boot\<lparr>bo_net := snd (startServer ''s'' (StartUnix (GetAuthorizedUID (bo_keys toy_boot))) (bo_net toy_boot))\<rparr>"

definition toy_pair :: "err option \<times> string boot_state" where
  "toy_pair = bootstrap_handler toy_crypto (\<lambda>b more. Inr b) toy_signed (Some toy_client) ''s'' ''A'' toy_listening"

lemma toy_boot_keys: "bo_keys toy_boot = GetKeyManager Absent None Absent []"
  by (simp add: toy_boot_def InitKeyManager_def GetKeyManager_def loadPublicKeys_def loadLegacyPublicKeyLocked_def loadAuthorizedPrincipal_def
      refreshPublicKeysLocked_def ring_keys_def Let_def)

lemma toy_closed: "closeServers (toy_net g) = (None, toy_net g)"
  by (simp add: closeServers_def toy_net_def opt_list_def errors_Join_def map_filter_simps)

lemma toy_listening_net:
  "bo_net toy_listening =
     (toy_net ''darwin'')\<lparr>sn_dirs := [path_Dir ''s''], sn_files := [''s'' \<mapsto> \<lparr>sf_owner = 0, sf_mode = open_mode\<rparr>],
       sn_listeners := [\<lparr>li_id = 0, li_addr = ''s'', li_sddl = []\<rparr>], sn_unix := Some 0, sn_next := 1\<rparr>"
proof -
  have b: "GetAuthorizedUID (bo_keys toy_boot) = None" by (simp add: toy_boot_keys GetKeyManager_def GetAuthorizedUID_def)
  have n: "bo_net toy_boot = toy_net ''darwin''" by (simp add: toy_boot_def)
  have c: "startServer ''s'' (StartUnix None) (toy_net ''darwin'') =
      (case ensureDirExists (path_Dir ''s'') (toy_net ''darwin'') of (Some e, n2) \<Rightarrow> (Some e, n2)
       | (None, n2) \<Rightarrow> (case unlink_socket ''s'' n2 of (Some e, n3) \<Rightarrow> (Some e, n3) | (None, n3) \<Rightarrow> StartUnix None ''s'' n3))"
    unfolding startServer_def toy_closed by (simp add: toy_net_def split: prod.split option.split)
  show ?thesis unfolding toy_listening_def b n c
    by (simp add: toy_net_def ensureDirExists_def unlink_socket_def StartUnix_def net_Listen_def socket_permissions_def os_Chmod_def net_call_def)
qed

lemma toy_listening_keys: "bo_keys toy_listening = GetKeyManager Absent None Absent []"
  by (simp add: toy_listening_def toy_boot_keys)

lemma toy_boot_reach: "boot_reach toy_crypto toy_signed ''s'' toy_listening"
  unfolding toy_listening_def by (rule boot_reach.Listen) (simp add: toy_boot_def boot_reach.Boot toy_net_def)

lemma toy_uid: "validateAuthorizedPrincipal \<lparr>ap_Type = ''uid'', ap_Value = format_nat 501\<rparr> = Inr \<lparr>ap_Type = ''uid'', ap_Value = format_nat 501\<rparr>"
  using validate_uid [of 501] by simp

lemma toy_paired: "fst toy_pair = None"
  by (simp add: toy_uid toy_pair_def bootstrap_handler_def verifyDarwinPeer_def verifyKokoroBoxProcess_def toy_signed_def toy_client_def
      maxBootstrapBodyBytes_def toy_listening_keys GetKeyManager_def BootstrapPublicKeyForUID_def writeBootstrapFile_def Let_def
      restrict_socket_def os_Chown_def os_Chmod_def net_call_def toy_listening_net toy_net_def)

lemma toy_pair_bound: "km_authorizedPrincipal (bo_keys (snd toy_pair)) \<noteq> None"
proof (rule handler_ok [OF toy_paired [unfolded toy_pair_def]])
  fix uid key km n
  assume "BootstrapPublicKeyForUID toy_crypto key uid (bo_keys toy_listening) = (None, km)"
    and "snd (bootstrap_handler toy_crypto (\<lambda>b more. Inr b) toy_signed (Some toy_client) ''s'' ''A'' toy_listening) = toy_listening\<lparr>bo_keys := km, bo_net := n\<rparr>"
  then have "GetAuthorizedUID (bo_keys (snd toy_pair)) = Some uid" using BootstrapPublicKey_bound by (fastforce simp: toy_pair_def)
  then show ?thesis by (cases "km_authorizedPrincipal (bo_keys (snd toy_pair))") (simp_all add: GetAuthorizedUID_def)
qed

section \<open>Properties\<close>



text \<open>
  C6. Pairing is for the signed client only, and closes the door behind it. A request to pair succeeds only for a
  process that the kernel names and whose code meets the requirement of the product under strict
  validation, and only while nothing was paired, in memory or on disk. Then the key is the one in the
  request, the bound user is the one of the process, and the socket is private to that user.
\<close>

theorem bootstrap_pairs:
  assumes "fst (bootstrap_handler C decode S peer addr body st) = None" and "sn_files (bo_net st) addr = Some f"
  shows "\<exists>p g key. peer = Some p \<and> 0 < dp_PID p \<and> se_guest S (dp_AuditToken p) = Some g \<and> se_validity S g kSecCSStrictValidate requirementText \<and>
    km_currentKey (bo_keys st) = None \<and> km_authorizedPrincipal (bo_keys st) = None \<and> km_keyRingFile (bo_keys st) = Absent \<and> km_principalFile (bo_keys st) = Absent \<and>
    decode (take maxBootstrapBodyBytes body) (maxBootstrapBodyBytes < length body) = Inr key \<and>
    (let st' = snd (bootstrap_handler C decode S peer addr body st) in
      map_option spk_PublicKey (km_currentKey (bo_keys st')) = Some (trim_space key) \<and> GetAuthorizedUID (bo_keys st') = Some (dp_UID p) \<and>
      sn_files (bo_net st') addr = Some \<lparr>sf_owner = dp_UID p, sf_mode = private_mode\<rparr>)"
proof (rule handler_ok [OF assms(1)])
  fix uid key km n
  assume v: "verifyDarwinPeer S peer = Inr uid" and d: "decode (take maxBootstrapBodyBytes body) (maxBootstrapBodyBytes < length body) = Inr key"
    and b: "BootstrapPublicKeyForUID C key uid (bo_keys st) = (None, km)" and n: "restrict_socket addr uid (bo_net st) = (None, n)"
    and st: "snd (bootstrap_handler C decode S peer addr body st) = st\<lparr>bo_keys := km, bo_net := n\<rparr>"
  obtain p g where "peer = Some p" "0 < dp_PID p" "dp_UID p = uid" "se_guest S (dp_AuditToken p) = Some g" "se_validity S g kSecCSStrictValidate requirementText"
    using v by (rule verifyDarwinPeer_ok)
  moreover have "sn_files n addr = Some (f\<lparr>sf_owner := uid, sf_mode := private_mode\<rparr>)" using restrict_done [of addr uid "bo_net st" f] n assms(2) by simp
  ultimately show ?thesis
    using BootstrapPublicKeyForUID_all_or_nothing [where C = C and s = key and uid = uid and km = "bo_keys st"] b d st by (auto simp: Let_def)
qed

theorem bootstrap_pairs_witness:
  "GetAuthorizedUID (bo_keys (snd toy_pair)) = Some 501 \<and> sn_files (bo_net (snd toy_pair)) ''s'' = Some \<lparr>sf_owner = 501, sf_mode = private_mode\<rparr>"
proof -
  have "sn_files (bo_net toy_listening) ''s'' = Some \<lparr>sf_owner = 0, sf_mode = open_mode\<rparr>" by (simp add: toy_listening_net)
  from bootstrap_pairs [OF toy_paired [unfolded toy_pair_def] this] show ?thesis by (auto simp: toy_pair_def Let_def toy_client_def)
qed

text \<open>
  Pairing happens once: when a key or a user is there, every request to pair is refused, and changes
  nothing, neither the keys nor the socket.
\<close>

theorem bootstrap_once:
  assumes "km_currentKey (bo_keys st) \<noteq> None \<or> km_authorizedPrincipal (bo_keys st) \<noteq> None"
  shows "fst (bootstrap_handler C decode S peer addr body st) \<noteq> None \<and> snd (bootstrap_handler C decode S peer addr body st) = st"
proof -
  have b: "fst (BootstrapPublicKeyForUID C key uid (bo_keys st)) \<noteq> None \<and> snd (BootstrapPublicKeyForUID C key uid (bo_keys st)) = bo_keys st" for key uid
    using assms by (simp add: BootstrapPublicKeyForUID_def Let_def split: sum.split prod.split)
  have "\<exists>e. BootstrapPublicKeyForUID C key uid (bo_keys st) = (Some e, bo_keys st)" for key uid
    using b [of key uid] by (cases "BootstrapPublicKeyForUID C key uid (bo_keys st)") auto
  then obtain e where e: "BootstrapPublicKeyForUID C key uid (bo_keys st) = (Some (e key uid), bo_keys st)" for key uid by metis
  show ?thesis by (simp add: bootstrap_handler_def e split: sum.split)
qed

theorem bootstrap_once_witness: "snd (bootstrap_handler toy_crypto (\<lambda>b more. Inr b) toy_signed (Some toy_client) ''s'' ''B'' (snd toy_pair)) = snd toy_pair"
  using bootstrap_once [of "snd toy_pair"] toy_pair_bound by blast

text \<open>
  The check of the peer's signature succeeds exactly when the frameworks load and the code under the
  peer's token meets the requirement; on every path each object that was made is released once, in the
  opposite order.
\<close>

theorem verify_sound_and_clean:
  "(fst (verifyKokoroBoxProcess S token) = None \<longleftrightarrow>
      se_load S = None \<and> se_create S AuditData \<and> se_create S Attributes \<and> se_create S RequirementString \<and> se_compile S requirementText \<and>
      (\<exists>g. se_guest S token = Some g \<and> se_validity S g kSecCSStrictValidate requirementText)) \<and>
   snd (snd (verifyKokoroBoxProcess S token)) = rev (fst (snd (verifyKokoroBoxProcess S token)))"
  using verify_ok_iff [of S token] by (simp add: verifyKokoroBoxProcess_def split: option.split)

text \<open>
  An upgrade never loses or merges data: a data directory that is there is left as it is; the legacy
  directory is moved only when there is none, as a whole; without an error the answer is the current
  directory, and it holds what the service had.
\<close>

theorem data_directory_kept:
  "case DataDirectory root d of (r, d') \<Rightarrow>
     (dr_tree d' = dr_tree d \<or>
      dr_tree d (current_dir root) = None \<and> dr_tree d (legacy_dir root) \<noteq> None \<and>
      dr_tree d' = (dr_tree d)(legacy_dir root := None, current_dir root := dr_tree d (legacy_dir root))) \<and>
     (case r of Inl e \<Rightarrow> True
      | Inr p \<Rightarrow> p = current_dir root \<and>
          dr_tree d' p = (case dr_tree d (current_dir root) of Some c \<Rightarrow> Some c | None \<Rightarrow> dr_tree d (legacy_dir root)))"
  using dirs_differ [of root] by (auto simp: DataDirectory_def dr_call_eq Let_def split: option.splits)

end
