(* ===== verification/Service_Staging.thy ===== *)
theory Service_Staging
  imports Service_Boot Router_Manager "HOL-Library.AList"
begin

text \<open>
  The copies of the executable that the service runs from: the run-time copy that the service makes of itself on Linux
  before it starts (\<open>cmd/service_runtime_linux.go\<close>), and the protected copy of the service and its router that the
  installation on Windows makes (\<open>cmd/service_install_windows.go\<close>). SHA-256 and the decoding of JSON are arguments.
  The source of a copy can belong to a user who changes it meanwhile, so every read of it is an argument of its own.
\<close>

section \<open>Definitions\<close>

subsection \<open>The run-time copy on Linux\<close>

text \<open>One reading of the source: whether it opens, what \<open>Stat\<close> says of it, the bytes read, and whether all of them were.\<close>

record source_view =
  sx_open :: bool
  sx_info :: "(bool \<times> nat) option"
  sx_bytes :: string
  sx_complete :: bool

record staged_file =
  cp_data :: string
  cp_mode :: nat

record run_fs =
  rf_dirs :: "string set"
  rf_files :: "string \<rightharpoonup> staged_file"
  rf_io :: "io list"

definition rf_call :: "run_fs \<Rightarrow> io \<times> run_fs" where
  "rf_call fs = (case next_io (rf_io fs) of (out, ios) \<Rightarrow> (out, fs\<lparr>rf_io := ios\<rparr>))"

definition hashFile :: "(string \<Rightarrow> string) \<Rightarrow> source_view \<Rightarrow> (string \<times> nat) res" where
  "hashFile sha v =
     (if \<not> sx_open v then Inl (Wrapped ''Failed to open service binary'' SysErr)
      else (case sx_info v of
          None \<Rightarrow> Inl (Wrapped ''Failed to read service binary information'' SysErr)
        | Some (isDir, mode) \<Rightarrow>
            if isDir then Inl (Plain ''Service path points to a directory, not an executable'')
            else if \<not> sx_complete v then Inl (Wrapped ''Failed to compute service binary digest'' SysErr)
            else Inr (take 16 (sha (sx_bytes v)), mode mod 512)))"

text \<open>The paths: \<open>source\<close> is the path of a file, so that its base is one element.\<close>

definition runtime_dir_of :: "string \<Rightarrow> string" where
  "runtime_dir_of hash = ''/run/kokorobox/service/'' @ hash"

definition runtime_target :: "string \<Rightarrow> string \<Rightarrow> string" where
  "runtime_target hash source = runtime_dir_of hash @ ''/'' @ path_Base source"

definition temp_prefix :: string where "temp_prefix = ''.kokorobox-service-''"

definition runtime_temp :: "string \<Rightarrow> string \<Rightarrow> string" where
  "runtime_temp hash random = runtime_dir_of hash @ ''/'' @ temp_prefix @ random"

text \<open>What a copy has written: a failure leaves nothing or a part of it.\<close>

definition written :: "io \<Rightarrow> string \<Rightarrow> string" where
  "written out data = (if out = Done then data else if out = Fails then [] else butlast data)"

text \<open>
  From \<open>os.Open\<close> to \<open>os.Rename\<close>: the input is closed, the mode set and the copy closed whether or not the copying
  failed, and the first error counts.
\<close>

definition fill_copy :: "source_view \<Rightarrow> nat \<Rightarrow> string \<Rightarrow> string \<Rightarrow> run_fs \<Rightarrow> string res \<times> run_fs" where
  "fill_copy v mode tmpPath target fs =
     (if \<not> sx_open v then (Inl (Wrapped ''Failed to open service binary'' SysErr), fs)
      else (case rf_call fs of (copied, fs1) \<Rightarrow> case rf_call fs1 of (closedInput, fs2) \<Rightarrow>
        case rf_call fs2 of (chmodded, fs3) \<Rightarrow> case rf_call fs3 of (closedTmp, fs4) \<Rightarrow>
        let fs5 = fs4\<lparr>rf_files := (rf_files fs4)(tmpPath \<mapsto>
               \<lparr>cp_data = written copied (sx_bytes v), cp_mode = (if chmodded = Fails then 384 else or mode 320)\<rparr>)\<rparr> in
        if copied \<noteq> Done \<or> \<not> sx_complete v then (Inl (Wrapped ''Failed to copy service binary'' SysErr), fs5)
        else if closedInput \<noteq> Done then (Inl (Wrapped ''Failed to close service binary'' SysErr), fs5)
        else if chmodded \<noteq> Done then (Inl (Wrapped ''Failed to set service runtime copy permissions'' SysErr), fs5)
        else if closedTmp \<noteq> Done then (Inl (Wrapped ''Failed to close service runtime copy'' SysErr), fs5)
        else (case rf_call fs5 of (renamed, fs6) \<Rightarrow>
            let fs7 = (if renamed = Fails then fs6
                       else fs6\<lparr>rf_files := (rf_files fs6)(target := rf_files fs6 tmpPath, tmpPath := None)\<rparr>)
            in (if renamed = Done then Inr target else Inl (Wrapped ''Failed to publish service runtime copy'' SysErr), fs7))))"

text \<open>The deferred \<open>os.Remove\<close>, whose error is dropped.\<close>

definition remove_temp :: "string \<Rightarrow> run_fs \<Rightarrow> run_fs" where
  "remove_temp tmpPath fs =
     (case rf_call fs of (out, fs1) \<Rightarrow>
        if out = Fails then fs1 else fs1\<lparr>rf_files := (rf_files fs1)(tmpPath := None)\<rparr>)"

text \<open>\<open>random\<close> is the name that \<open>os.CreateTemp\<close> chose; the file is created exclusively, with mode 0600.\<close>

definition stageServiceExecutable ::
  "(string \<Rightarrow> string) \<Rightarrow> source_view \<Rightarrow> source_view \<Rightarrow> string \<Rightarrow> string \<Rightarrow> run_fs \<Rightarrow> string res \<times> run_fs" where
  "stageServiceExecutable sha v1 v2 source random fs =
     (case hashFile sha v1 of
        Inl e \<Rightarrow> (Inl e, fs)
      | Inr (hash, mode) \<Rightarrow>
          (let target = runtime_target hash source; tmpPath = runtime_temp hash random in
           case rf_call fs of (o1, fs1) \<Rightarrow>
           let fs2 = (if o1 = Fails then fs1 else fs1\<lparr>rf_dirs := insert (runtime_dir_of hash) (rf_dirs fs1)\<rparr>) in
           if o1 \<noteq> Done then (Inl (Wrapped ''Failed to create service runtime directory'' SysErr), fs2)
           else (case rf_call fs2 of (o2, fs3) \<Rightarrow>
             if o2 \<noteq> Done then (Inl (Wrapped ''Failed to check service runtime copy'' SysErr), fs3)
             else if rf_files fs3 target \<noteq> None then (Inr target, fs3)
             else (case rf_call fs3 of (o3, fs4) \<Rightarrow>
               if o3 \<noteq> Done \<or> rf_files fs4 tmpPath \<noteq> None then (Inl (Wrapped ''Failed to create service runtime copy'' SysErr), fs4)
               else (case fill_copy v2 mode tmpPath target (fs4\<lparr>rf_files := (rf_files fs4)(tmpPath \<mapsto> \<lparr>cp_data = [], cp_mode = 384\<rparr>)\<rparr>) of
                   (r, fs5) \<Rightarrow> (r, remove_temp tmpPath fs5))))))"

subsection \<open>Executing the copy\<close>

text \<open>
  The environment is the list that the kernel hands over. Go's \<open>os.Getenv\<close> answers with the first entry of a name, and
  \<open>os.Environ\<close> leaves the later ones out; \<open>syscall.Exec\<close> hands the list over as it is.
\<close>

type_synonym environ = "(string \<times> string) list"

definition exec_Getenv :: "environ \<Rightarrow> string \<rightharpoonup> string" where "exec_Getenv env = map_of env"
definition os_Environ :: "environ \<Rightarrow> environ" where "os_Environ env = AList.clearjunk env"

definition serviceRuntimeExecEnv :: string where "serviceRuntimeExecEnv = ''KOKOROBOX_SERVICE_RUNTIME_EXEC''"
definition legacyServiceRuntimeExecEnv :: string where "legacyServiceRuntimeExecEnv = ''SPARKLE_SERVICE_RUNTIME_EXEC''"

datatype runtime_start = Continue | Abort err | Exec string environ

text \<open>\<open>exe\<close> is the answer of \<open>os.Executable\<close>; a call of \<open>syscall.Exec\<close> that succeeds does not return.\<close>

definition ensureServiceRuntimeExecutable ::
  "(string \<Rightarrow> string) \<Rightarrow> string option \<Rightarrow> source_view \<Rightarrow> source_view \<Rightarrow> string \<Rightarrow> environ \<Rightarrow> run_fs \<Rightarrow> runtime_start \<times> run_fs" where
  "ensureServiceRuntimeExecutable sha exe v1 v2 random env fs =
     (if Environment (exec_Getenv env) serviceRuntimeExecEnv legacyServiceRuntimeExecEnv = ''1'' then (Continue, fs)
      else (case exe of
          None \<Rightarrow> (Abort (Wrapped ''Failed to read service executable path'' SysErr), fs)
        | Some executable \<Rightarrow>
            (case stageServiceExecutable sha v1 v2 executable random fs of
               (Inl e, fs1) \<Rightarrow> (Abort e, fs1)
             | (Inr target, fs1) \<Rightarrow>
                 (case rf_call fs1 of (out, fs2) \<Rightarrow>
                    (if out = Done then Exec target (os_Environ env @ [(serviceRuntimeExecEnv, ''1'')]) else Abort SysErr, fs2)))))"

text \<open>The images that follow one another, each the copy of the one before: at most \<open>n\<close> of them.\<close>

fun exec_chain :: "(string \<Rightarrow> string) \<Rightarrow> source_view \<Rightarrow> nat \<Rightarrow> string \<Rightarrow> environ \<Rightarrow> run_fs \<Rightarrow> runtime_start \<times> run_fs" where
  "exec_chain sha v 0 exe env fs = (Exec exe env, fs)"
| "exec_chain sha v (Suc n) exe env fs =
     (case ensureServiceRuntimeExecutable sha (Some exe) v v [] env fs of
        (Exec target env', fs') \<Rightarrow> exec_chain sha v n target env' fs'
      | r \<Rightarrow> r)"

subsection \<open>The protected copy on Windows\<close>

text \<open>
  A directory of the run-time root: the executable of the service and, when there is one, the directory of the router.
  The root maps the name of a directory to it; \<open>rr_temp\<close> is the directory under construction.
\<close>

record runtime_dir =
  rd_service :: "string option"
  rd_router :: "(string \<rightharpoonup> string) option"

record runtime_root =
  rr_dirs :: "string \<rightharpoonup> runtime_dir"
  rr_temp :: "runtime_dir option"
  rr_io :: "io list"

definition rr_call :: "runtime_root \<Rightarrow> io \<times> runtime_root" where
  "rr_call rr = (case next_io (rr_io rr) of (out, ios) \<Rightarrow> (out, rr\<lparr>rr_io := ios\<rparr>))"

text \<open>\<open>decode\<close> is the decoding of the manifest.\<close>

definition bundle_of :: "(string \<Rightarrow> string) \<Rightarrow> (string \<Rightarrow> integrity_manifest store) \<Rightarrow> (string \<rightharpoonup> string) option \<Rightarrow> router_bundle" where
  "bundle_of sha decode dir =
     (case dir of
        None \<Rightarrow> \<lparr>bu_manifest = Absent, bu_sha256 = Map.empty\<rparr>
      | Some d \<Rightarrow> \<lparr>bu_manifest = (case d ''manifest.json'' of None \<Rightarrow> Absent | Some c \<Rightarrow> decode c), bu_sha256 = map_option sha \<circ> d\<rparr>)"

definition VerifyIntegrity :: "(string \<Rightarrow> string) \<Rightarrow> (string \<Rightarrow> integrity_manifest store) \<Rightarrow> (string \<rightharpoonup> string) option \<Rightarrow> err option" where
  "VerifyIntegrity sha decode dir = verifyProcessRouterIntegrity ''windows'' (bundle_of sha decode dir)"

definition RuntimeBundleFiles :: "string list" where
  "RuntimeBundleFiles = ''manifest.json'' # processRouterFiles"

definition executableSHA256 :: "(string \<Rightarrow> string) \<Rightarrow> string option \<Rightarrow> string res" where
  "executableSHA256 sha content = (case content of None \<Rightarrow> Inl SysErr | Some c \<Rightarrow> Inr (sha c))"

definition validateStagedService ::
  "(string \<Rightarrow> string) \<Rightarrow> (string \<Rightarrow> integrity_manifest store) \<Rightarrow> runtime_dir \<Rightarrow> string \<Rightarrow> bool \<Rightarrow> err option" where
  "validateStagedService sha decode d expectedServiceHash withRouter =
     (case executableSHA256 sha (rd_service d) of
        Inl e \<Rightarrow> Some (Wrapped ''hash staged service executable'' e)
      | Inr serviceHash \<Rightarrow>
          if serviceHash \<noteq> expectedServiceHash then Some (Plain ''staged service executable has an unexpected digest'')
          else if withRouter then map_option (Wrapped ''verify staged process-router bundle'') (VerifyIntegrity sha decode (rd_router d))
          else None)"

text \<open>\<open>copyRuntimeFile\<close>: what is at the target afterwards; the target is created exclusively.\<close>

definition copyRuntimeFile :: "string option \<Rightarrow> string option \<Rightarrow> io list \<Rightarrow> err option \<times> string option \<times> io list" where
  "copyRuntimeFile source old ios =
     (case source of
        None \<Rightarrow> (Some SysErr, old, ios)
      | Some data \<Rightarrow>
          (case next_io ios of (created, r1) \<Rightarrow>
             if created \<noteq> Done \<or> old \<noteq> None then (Some SysErr, old, r1)
             else (case next_io r1 of (copied, r2) \<Rightarrow> case next_io r2 of (closedInput, r3) \<Rightarrow>
               case next_io r3 of (synced, r4) \<Rightarrow> case next_io r4 of (closedOutput, r5) \<Rightarrow>
               (if copied \<noteq> Done \<or> closedInput \<noteq> Done \<or> synced \<noteq> Done \<or> closedOutput \<noteq> Done then Some SysErr else None,
                Some (written copied data), r5))))"

fun copy_components :: "string list \<Rightarrow> (string \<rightharpoonup> string) \<Rightarrow> (string \<rightharpoonup> string) \<Rightarrow> io list \<Rightarrow> err option \<times> (string \<rightharpoonup> string) \<times> io list" where
  "copy_components [] from to ios = (None, to, ios)"
| "copy_components (name # names) from to ios =
     (case copyRuntimeFile (from name) (to name) ios of (e, content, r) \<Rightarrow>
        let to' = to(name := content) in
        if e \<noteq> None then (map_option (Wrapped (''stage process-router component '' @ name)) e, to', r)
        else copy_components names from to' r)"

text \<open>The source directory as it is found by one step; \<open>is_statFails\<close> is an error of \<open>Stat\<close> other than its absence.\<close>

record install_source =
  is_service :: "string option"
  is_router :: "(string \<rightharpoonup> string) option"
  is_statFails :: bool

text \<open>The digest of the manifest of the source's router, empty without a router.\<close>

definition source_router :: "(string \<Rightarrow> string) \<Rightarrow> (string \<Rightarrow> integrity_manifest store) \<Rightarrow> (nat \<Rightarrow> install_source) \<Rightarrow> string res" where
  "source_router sha decode src =
     (if is_statFails (src 1) then Inl (Wrapped ''inspect source process-router bundle'' SysErr)
      else if is_router (src 1) = None then Inr []
      else (case VerifyIntegrity sha decode (is_router (src 2)) of
          Some e \<Rightarrow> Inl (Wrapped ''verify source process-router bundle'' e)
        | None \<Rightarrow>
            (case executableSHA256 sha (case is_router (src 3) of None \<Rightarrow> None | Some d \<Rightarrow> d ''manifest.json'') of
               Inl e \<Rightarrow> Inl (Wrapped ''hash process-router manifest'' e)
             | Inr routerManifestHash \<Rightarrow> Inr routerManifestHash)))"

text \<open>The copies into the temporary directory.\<close>

definition fill_runtime :: "install_source \<Rightarrow> bool \<Rightarrow> runtime_root \<Rightarrow> err option \<times> runtime_root" where
  "fill_runtime src withRouter rr =
     (case copyRuntimeFile (is_service src) None (rr_io rr) of (e, content, r) \<Rightarrow>
        let rr1 = rr\<lparr>rr_temp := Some \<lparr>rd_service = content, rd_router = None\<rparr>, rr_io := r\<rparr> in
        if e \<noteq> None then (map_option (Wrapped ''stage service executable'') e, rr1)
        else if \<not> withRouter then (None, rr1)
        else (case rr_call rr1 of (made, rr2) \<Rightarrow>
            if made \<noteq> Done then (Some (Wrapped ''create staged process-router directory'' SysErr), rr2)
            else (case copy_components RuntimeBundleFiles (case is_router src of None \<Rightarrow> Map.empty | Some d \<Rightarrow> d) Map.empty (rr_io rr2) of
                (e2, d, r2) \<Rightarrow> (e2, rr2\<lparr>rr_temp := Some \<lparr>rd_service = content, rd_router = Some d\<rparr>, rr_io := r2\<rparr>))))"

text \<open>
  \<open>os.Rename\<close> to the final name. When it fails another installation may have put a directory there, \<open>rival\<close>, which
  is accepted if it is valid.
\<close>

definition publish_runtime ::
  "(string \<Rightarrow> string) \<Rightarrow> (string \<Rightarrow> integrity_manifest store) \<Rightarrow> string \<Rightarrow> string \<Rightarrow> bool \<Rightarrow> runtime_dir option \<Rightarrow> runtime_root \<Rightarrow> err option \<times> runtime_root" where
  "publish_runtime sha decode bundleID sourceHash withRouter rival rr =
     (case rr_call rr of (renamed, rr1) \<Rightarrow>
        if renamed = Done then (None, rr1\<lparr>rr_dirs := (rr_dirs rr1)(bundleID := rr_temp rr1), rr_temp := None\<rparr>)
        else (let rr2 = (if renamed = Partial then rr1\<lparr>rr_dirs := (rr_dirs rr1)(bundleID := rr_temp rr1), rr_temp := None\<rparr>
                         else rr1\<lparr>rr_dirs := (rr_dirs rr1)(bundleID := rival)\<rparr>)
              in case rr_call rr2 of (stated, rr3) \<Rightarrow>
                case rr_dirs rr3 bundleID of
                  None \<Rightarrow> (Some (Wrapped ''publish protected service runtime'' SysErr), rr3)
                | Some d \<Rightarrow>
                    if stated \<noteq> Done then (Some (Wrapped ''publish protected service runtime'' SysErr), rr3)
                    else (validateStagedService sha decode d sourceHash withRouter, rr3)))"

text \<open>The deferred \<open>os.RemoveAll\<close> of the temporary directory.\<close>

definition remove_runtime_temp :: "runtime_root \<Rightarrow> runtime_root" where
  "remove_runtime_temp rr = (case rr_call rr of (out, rr1) \<Rightarrow> if out = Done then rr1\<lparr>rr_temp := None\<rparr> else rr1)"

definition bundle_id :: "(string \<Rightarrow> string) \<Rightarrow> string \<Rightarrow> string \<Rightarrow> string" where
  "bundle_id sha sourceHash routerManifestHash = take 16 (sha (sourceHash @ [CHR 0x0A] @ routerManifestHash))"

definition backslash :: string where "backslash = [char_of (92 :: nat)]"

definition windows_target :: "string \<Rightarrow> string \<Rightarrow> string" where
  "windows_target programFiles bundleID =
     strings_Join [programFiles, ''KokoroBox Service'', ''runtime'', bundleID, ''kokorobox-service.exe''] backslash"

definition prepareServiceInstallExecutable ::
  "(string \<Rightarrow> string) \<Rightarrow> (string \<Rightarrow> integrity_manifest store) \<Rightarrow> string option \<Rightarrow> (nat \<Rightarrow> install_source) \<Rightarrow> runtime_dir option \<Rightarrow>
   runtime_root \<Rightarrow> string res \<times> runtime_root" where
  "prepareServiceInstallExecutable sha decode programFiles src rival rr =
     (case programFiles of
        None \<Rightarrow> (Inl (Wrapped ''resolve Program Files directory'' SysErr), rr)
      | Some pf \<Rightarrow>
        (case executableSHA256 sha (is_service (src 0)) of
           Inl e \<Rightarrow> (Inl (Wrapped ''hash service executable'' e), rr)
         | Inr sourceHash \<Rightarrow>
           (case source_router sha decode src of
              Inl e \<Rightarrow> (Inl e, rr)
            | Inr routerManifestHash \<Rightarrow>
              (let bundleID = bundle_id sha sourceHash routerManifestHash; target = windows_target pf bundleID;
                   withRouter = (routerManifestHash \<noteq> []) in
               case rr_call rr of (o1, rr1) \<Rightarrow>
               if o1 \<noteq> Done then (Inl (Wrapped ''inspect protected service runtime'' SysErr), rr1)
               else (case rr_dirs rr1 bundleID of
                   Some d \<Rightarrow> (case validateStagedService sha decode d sourceHash withRouter of Some e \<Rightarrow> Inl e | None \<Rightarrow> Inr target, rr1)
                 | None \<Rightarrow>
                   (case rr_call rr1 of (o2, rr2) \<Rightarrow>
                    if o2 \<noteq> Done then (Inl (Wrapped ''create protected service runtime root'' SysErr), rr2)
                    else (case rr_call rr2 of (o3, rr3) \<Rightarrow>
                      if o3 \<noteq> Done then (Inl (Wrapped ''create temporary service runtime'' SysErr), rr3)
                      else (case fill_runtime (src 4) withRouter (rr3\<lparr>rr_temp := Some \<lparr>rd_service = None, rd_router = None\<rparr>\<rparr>) of
                          (Some e, rr4) \<Rightarrow> (Inl e, remove_runtime_temp rr4)
                        | (None, rr4) \<Rightarrow>
                          (case validateStagedService sha decode (the (rr_temp rr4)) sourceHash withRouter of
                             Some e \<Rightarrow> (Inl e, remove_runtime_temp rr4)
                           | None \<Rightarrow>
                             (case publish_runtime sha decode bundleID sourceHash withRouter rival rr4 of
                                (Some e, rr5) \<Rightarrow> (Inl e, remove_runtime_temp rr5)
                              | (None, rr5) \<Rightarrow> (Inr target, remove_runtime_temp rr5)))))))))))"

section \<open>Lemmas\<close>

subsection \<open>The run-time copy\<close>

lemma rf_call_keeps [simp]: "rf_files (snd (rf_call fs)) = rf_files fs" "rf_dirs (snd (rf_call fs)) = rf_dirs fs"
  by (simp_all add: rf_call_def split: prod.splits)

definition published :: "source_view \<Rightarrow> nat \<Rightarrow> staged_file" where
  "published v mode = \<lparr>cp_data = sx_bytes v, cp_mode = or mode 320\<rparr>"

lemma fill_copy_effect:
  assumes "fill_copy v mode tmp target fs = (r, fs')" and "tmp \<noteq> target"
  shows "(\<forall>p. p \<noteq> tmp \<longrightarrow> p \<noteq> target \<longrightarrow> rf_files fs' p = rf_files fs p) \<and>
     (rf_files fs' target = rf_files fs target \<or> rf_files fs' target = Some (published v mode) \<and> sx_complete v) \<and>
     (\<forall>t. r = Inr t \<longrightarrow> t = target \<and> sx_complete v \<and> rf_files fs' target = Some (published v mode) \<and> rf_files fs' tmp = None)"
  using assms
  by (auto simp: fill_copy_def Let_def case_prod_unfold published_def written_def split: if_splits)

lemma remove_temp_effect: "p \<noteq> tmp \<Longrightarrow> rf_files (remove_temp tmp fs) p = rf_files fs p"
  "rf_files fs tmp = None \<Longrightarrow> rf_files (remove_temp tmp fs) tmp = None"
  by (auto simp: remove_temp_def case_prod_unfold)

text \<open>The last element of a path, when it has no separator.\<close>

lemma last_element:
  assumes "a @ ''/'' @ n = b @ ''/'' @ m" and "CHR ''/'' \<notin> set n" and "CHR ''/'' \<notin> set m"
  shows "a = b \<and> n = m"
proof -
  have n: "takeWhile (\<lambda>c. c \<noteq> CHR ''/'') (rev (x @ ''/'' @ y)) = rev y" if "CHR ''/'' \<notin> set y" for x y
    using that by (simp add: takeWhile_append2 takeWhile_append)
  have "rev n = rev m" by (simp only: n [OF assms(2), of a, symmetric] n [OF assms(3), of b, symmetric] assms(1))
  then show ?thesis using assms(1) by simp
qed

lemma path_Base_no_slash: "path_Base p = ''/'' \<or> CHR ''/'' \<notin> set (path_Base p)"
  by (auto simp: path_Base_def Let_def dest: set_takeWhileD)

definition plain_name :: "string \<Rightarrow> bool" where
  "plain_name n \<longleftrightarrow> CHR ''/'' \<notin> set n \<and> \<not> has_prefix n temp_prefix"

lemma has_prefix_append: "has_prefix (p @ s) p"
  by (simp add: has_prefix_def)

lemma target_not_temp:
  assumes "plain_name (path_Base source)" and "CHR ''/'' \<notin> set random"
  shows "runtime_temp h random \<noteq> runtime_target h' source"
proof
  assume "runtime_temp h random = runtime_target h' source"
  then have "temp_prefix @ random = path_Base source"
    using last_element [of "runtime_dir_of h" "temp_prefix @ random" "runtime_dir_of h'" "path_Base source"] assms
    by (auto simp: runtime_temp_def runtime_target_def plain_name_def temp_prefix_def)
  then show False using assms(1) has_prefix_append [of temp_prefix random] by (simp add: plain_name_def)
qed

lemma stage_cases:
  assumes "stageServiceExecutable sha v1 v2 source random fs = (r, fs')" and "hashFile sha v1 = Inr (h, mode)"
  obtains (Kept) "rf_files fs' = rf_files fs" and "\<And>t. r = Inr t \<Longrightarrow> t = runtime_target h source \<and> rf_files fs t \<noteq> None"
  | (Copied) fs3 fs5 where "rf_files fs (runtime_target h source) = None" and "rf_files fs3 = rf_files fs" and
      "fill_copy v2 mode (runtime_temp h random) (runtime_target h source)
         (fs3\<lparr>rf_files := (rf_files fs)(runtime_temp h random \<mapsto> \<lparr>cp_data = [], cp_mode = 384\<rparr>)\<rparr>) = (r, fs5)" and
      "fs' = remove_temp (runtime_temp h random) fs5"
proof -
  let ?tmp = "runtime_temp h random" and ?target = "runtime_target h source"
  have files: "rf_call x = (a, y) \<Longrightarrow> rf_files y = rf_files x" for x a y using rf_call_keeps(1) [of x] by simp
  have "rf_files fs' = rf_files fs \<and> (\<forall>t. r = Inr t \<longrightarrow> t = ?target \<and> rf_files fs t \<noteq> None) \<or>
    (\<exists>fs3 fs5. rf_files fs ?target = None \<and> rf_files fs3 = rf_files fs \<and>
       fill_copy v2 mode ?tmp ?target (fs3\<lparr>rf_files := (rf_files fs)(?tmp \<mapsto> \<lparr>cp_data = [], cp_mode = 384\<rparr>)\<rparr>) = (r, fs5) \<and>
       fs' = remove_temp ?tmp fs5)"
    using assms by (auto simp: stageServiceExecutable_def Let_def split: prod.splits if_splits dest!: files) blast+
  then show thesis using Kept Copied by blast
qed

lemma stage_effect:
  assumes stage: "stageServiceExecutable sha v1 v2 source random fs = (r, fs')"
    and names: "plain_name (path_Base source)" "CHR ''/'' \<notin> set random" and hash: "hashFile sha v1 = Inr (h, mode)"
  shows "(\<forall>p. p \<noteq> runtime_temp h random \<longrightarrow> p \<noteq> runtime_target h source \<longrightarrow> rf_files fs' p = rf_files fs p) \<and>
     (rf_files fs' (runtime_target h source) = rf_files fs (runtime_target h source) \<or>
      rf_files fs (runtime_target h source) = None \<and> rf_files fs' (runtime_target h source) = Some (published v2 mode) \<and> sx_complete v2) \<and>
     (\<forall>t. r = Inr t \<longrightarrow> t = runtime_target h source \<and> rf_files fs' t \<noteq> None \<and>
        (rf_files fs t = None \<longrightarrow> rf_files fs' t = Some (published v2 mode) \<and> rf_files fs' (runtime_temp h random) = None))"
  using stage hash
proof (cases rule: stage_cases)
  case Copied
  have ne: "runtime_temp h random \<noteq> runtime_target h source" by (rule target_not_temp [OF names])
  show ?thesis using fill_copy_effect [OF Copied(3) ne] ne Copied(1,4) by (auto simp: remove_temp_effect)
qed auto

text \<open>
  The invariant of the directory: what stands under a digest has that digest. Files under construction are left out.
\<close>

definition content_addressed :: "(string \<Rightarrow> string) \<Rightarrow> run_fs \<Rightarrow> bool" where
  "content_addressed sha fs \<longleftrightarrow>
     (\<forall>h n f. plain_name n \<longrightarrow> rf_files fs (runtime_dir_of h @ ''/'' @ n) = Some f \<longrightarrow> take 16 (sha (cp_data f)) = h)"

lemma hashFile_Inr: "hashFile sha v = Inr (h, mode) \<Longrightarrow> h = take 16 (sha (sx_bytes v)) \<and> sx_complete v \<and> sx_open v"
  by (auto simp: hashFile_def split: if_splits option.splits prod.splits)

lemma runtime_paths_eq:
  assumes "runtime_dir_of h @ ''/'' @ n = runtime_dir_of h' @ ''/'' @ m" and "plain_name n" and "CHR ''/'' \<notin> set m"
  shows "h = h' \<and> n = m"
  using last_element [OF assms(1)] assms(2,3) by (auto simp: plain_name_def runtime_dir_of_def)

lemma stage_content_addressed:
  assumes inv: "content_addressed sha fs" and same: "sx_bytes v1 = sx_bytes v2"
    and names: "plain_name (path_Base source)" "CHR ''/'' \<notin> set random"
    and stage: "stageServiceExecutable sha v1 v2 source random fs = (r, fs')"
  shows "content_addressed sha fs'"
proof (cases "hashFile sha v1")
  case (Inl e)
  then show ?thesis using stage inv by (simp add: stageServiceExecutable_def)
next
  case (Inr hm)
  then obtain h mode where hash: "hashFile sha v1 = Inr (h, mode)" by (cases hm) auto
  show ?thesis unfolding content_addressed_def
  proof (intro allI impI)
    fix h' n f assume n: "plain_name n" and f: "rf_files fs' (runtime_dir_of h' @ ''/'' @ n) = Some f"
    have t: "runtime_dir_of h' @ ''/'' @ n \<noteq> runtime_temp h random"
    proof
      assume "runtime_dir_of h' @ ''/'' @ n = runtime_temp h random"
      then have "n = temp_prefix @ random"
        using runtime_paths_eq [of h' n h "temp_prefix @ random"] n names(2) by (auto simp: runtime_temp_def temp_prefix_def)
      then show False using n has_prefix_append [of temp_prefix random] by (simp add: plain_name_def)
    qed
    show "take 16 (sha (cp_data f)) = h'"
    proof (cases "runtime_dir_of h' @ ''/'' @ n = runtime_target h source")
      case True
      then have h: "h' = h"
        using runtime_paths_eq [of h' n h "path_Base source"] n names(1) by (auto simp: runtime_target_def plain_name_def)
      show ?thesis
      proof (cases "rf_files fs (runtime_dir_of h' @ ''/'' @ n) = Some f")
        case True
        then show ?thesis using inv n by (auto simp: content_addressed_def)
      next
        case False
        then have "f = published v2 mode" using stage_effect [OF stage names hash] f True
          by (auto simp: \<open>runtime_dir_of h' @ ''/'' @ n = runtime_target h source\<close>)
        then show ?thesis using h same hashFile_Inr [OF hash] by (simp add: published_def)
      qed
    next
      case False
      then have "rf_files fs (runtime_dir_of h' @ ''/'' @ n) = Some f"
        using stage_effect [OF stage names hash] f t by auto
      then show ?thesis using inv n by (auto simp: content_addressed_def)
    qed
  qed
qed

text \<open>The states of the directory after a boot, with a source that stays the same while it is copied.\<close>

inductive runtime_reach :: "(string \<Rightarrow> string) \<Rightarrow> run_fs \<Rightarrow> bool" for sha where
  boot: "rf_files fs = Map.empty \<Longrightarrow> runtime_reach sha fs"
| stage: "runtime_reach sha fs \<Longrightarrow> sx_bytes v1 = sx_bytes v2 \<Longrightarrow> plain_name (path_Base source) \<Longrightarrow> CHR ''/'' \<notin> set random \<Longrightarrow>
     runtime_reach sha (snd (stageServiceExecutable sha v1 v2 source random fs))"

lemma runtime_reach_addressed: "runtime_reach sha fs \<Longrightarrow> content_addressed sha fs"
proof (induction rule: runtime_reach.induct)
  case (stage fs v1 v2 source random)
  then show ?case using stage_content_addressed [OF stage.IH stage.hyps(2-4) prod.collapse [symmetric]] by simp
qed (simp add: content_addressed_def)

subsection \<open>Executing the copy\<close>

lemma Getenv_Environ [simp]: "exec_Getenv (os_Environ env) = exec_Getenv env"
  by (simp add: exec_Getenv_def os_Environ_def map_of_clearjunk)

lemma Getenv_appended: "exec_Getenv (env @ [(k, v)]) n = (case exec_Getenv env n of Some x \<Rightarrow> Some x | None \<Rightarrow> if n = k then Some v else None)"
  by (auto simp: exec_Getenv_def map_add_def split: option.splits)

definition marked :: "environ \<Rightarrow> bool" where
  "marked env \<longleftrightarrow> Environment (exec_Getenv env) serviceRuntimeExecEnv legacyServiceRuntimeExecEnv = ''1''"

text \<open>After an \<open>Exec\<close> the mark is seen exactly if the variable was not set before.\<close>

lemma marked_after:
  assumes "\<not> marked env"
  shows "marked (os_Environ env @ [(serviceRuntimeExecEnv, ''1'')]) \<longleftrightarrow> exec_Getenv env serviceRuntimeExecEnv = None"
proof -
  have ne: "serviceRuntimeExecEnv \<noteq> legacyServiceRuntimeExecEnv" by (simp add: serviceRuntimeExecEnv_def legacyServiceRuntimeExecEnv_def)
  show ?thesis using assms ne
    by (auto simp: marked_def Environment_def env_value_def Getenv_appended split: option.splits if_splits)
qed

lemma set_stays: "exec_Getenv env n \<noteq> None \<Longrightarrow> exec_Getenv (os_Environ env @ xs) n \<noteq> None"
  by (auto simp: exec_Getenv_def os_Environ_def map_of_clearjunk map_add_def split: option.splits)

text \<open>A source that can be read and copied, with calls that succeed.\<close>

definition stageable :: "(string \<Rightarrow> string) \<Rightarrow> source_view \<Rightarrow> run_fs \<Rightarrow> bool" where
  "stageable sha v fs \<longleftrightarrow> rf_io fs = [] \<and> sx_open v \<and> sx_complete v \<and> (\<exists>mode. sx_info v = Some (False, mode)) \<and>
     rf_files fs (runtime_temp (take 16 (sha (sx_bytes v))) []) = None"

lemma rf_call_clean: "rf_io fs = [] \<Longrightarrow> rf_call fs = (Done, fs)"
  by (cases fs) (simp add: rf_call_def)

lemma stage_clean:
  assumes "stageable sha v fs" and "plain_name (path_Base source)"
  shows "\<exists>fs'. stageServiceExecutable sha v v source [] fs = (Inr (runtime_target (take 16 (sha (sx_bytes v))) source), fs') \<and> stageable sha v fs'"
proof -
  let ?h = "take 16 (sha (sx_bytes v))"
  obtain mode where "sx_info v = Some (False, mode)" using assms(1) by (auto simp: stageable_def)
  then have h: "hashFile sha v = Inr (?h, mode mod 512)" using assms(1) by (simp add: hashFile_def stageable_def)
  have ne: "runtime_temp ?h [] \<noteq> runtime_target ?h source" using target_not_temp [OF assms(2), of "[]"] by simp
  show ?thesis
  proof (cases "rf_files fs (runtime_target ?h source)")
    case None
    then show ?thesis using assms(1) ne
      by (simp add: stageServiceExecutable_def h Let_def rf_call_clean fill_copy_def remove_temp_def stageable_def)
  next
    case (Some f)
    then show ?thesis using assms(1) by (simp add: stageServiceExecutable_def h Let_def rf_call_clean stageable_def)
  qed
qed

lemma ensure_stageable:
  assumes "stageable sha v fs" and "\<not> marked env" and "plain_name (path_Base exe)"
  obtains fs' where "stageable sha v fs'" and "ensureServiceRuntimeExecutable sha (Some exe) v v [] env fs =
     (Exec (runtime_target (take 16 (sha (sx_bytes v))) exe) (os_Environ env @ [(serviceRuntimeExecEnv, ''1'')]), fs')"
proof -
  obtain fs' where "stageServiceExecutable sha v v exe [] fs = (Inr (runtime_target (take 16 (sha (sx_bytes v))) exe), fs')" "stageable sha v fs'"
    using stage_clean [OF assms(1,3)] by blast
  then show thesis using assms(2) by (intro that [of fs']) (simp_all add: ensureServiceRuntimeExecutable_def marked_def rf_call_clean stageable_def)
qed

lemma path_Base_target:
  assumes "plain_name (path_Base exe)" "path_Base exe \<noteq> []"
  shows "path_Base (runtime_target h exe) = path_Base exe"
proof -
  let ?n = "path_Base exe"
  have ns: "CHR ''/'' \<notin> set ?n" using assms(1) by (simp add: plain_name_def)
  have h: "hd (rev ?n) \<noteq> CHR ''/''" using ns assms(2) by (metis hd_in_set rev_is_Nil_conv set_rev)
  have d: "dropWhile (\<lambda>c. c = CHR ''/'') (rev (x @ ''/'' @ ?n)) = rev (x @ ''/'' @ ?n)" for x
    using h assms(2) by (cases "rev ?n") auto
  have t: "takeWhile (\<lambda>c. c \<noteq> CHR ''/'') (rev (x @ ''/'' @ ?n)) = rev ?n" for x
    using ns by (simp add: takeWhile_append)
  have "path_Base (x @ ''/'' @ ?n) = ?n" for x
    using assms(2) unfolding path_Base_def [of "x @ ''/'' @ ?n"] Let_def d rev_rev_ident t by simp
  then show ?thesis by (simp only: runtime_target_def)
qed

lemma exec_chain_loops:
  assumes "stageable sha v fs" and "\<not> marked env" and "exec_Getenv env serviceRuntimeExecEnv \<noteq> None"
    and "plain_name (path_Base exe)" and "path_Base exe \<noteq> []"
  shows "\<exists>exe' env' fs'. exec_chain sha v n exe env fs = (Exec exe' env', fs')"
  using assms
proof (induction n arbitrary: exe env fs)
  case (Suc n)
  let ?env = "os_Environ env @ [(serviceRuntimeExecEnv, ''1'')]" and ?t = "runtime_target (take 16 (sha (sx_bytes v))) exe"
  obtain fs' where e: "stageable sha v fs'" "ensureServiceRuntimeExecutable sha (Some exe) v v [] env fs = (Exec ?t ?env, fs')"
    by (rule ensure_stageable [OF Suc.prems(1,2,4)])
  have "\<not> marked ?env" "exec_Getenv ?env serviceRuntimeExecEnv \<noteq> None"
    using marked_after [OF Suc.prems(2)] Suc.prems(3) set_stays by auto
  moreover have "path_Base ?t = path_Base exe" by (rule path_Base_target [OF Suc.prems(4,5)])
  ultimately show ?case using Suc.IH [OF e(1), of ?env ?t] e(2) Suc.prems(4,5) by simp
qed simp

lemma exec_chain_ends:
  assumes "stageable sha v fs" and "marked env \<or> exec_Getenv env serviceRuntimeExecEnv = None" and "plain_name (path_Base exe)"
  shows "fst (exec_chain sha v 2 exe env fs) = Continue"
proof (cases "marked env")
  case True
  then show ?thesis by (simp add: numeral_2_eq_2 ensureServiceRuntimeExecutable_def marked_def)
next
  case False
  let ?env = "os_Environ env @ [(serviceRuntimeExecEnv, ''1'')]"
  obtain fs' where "ensureServiceRuntimeExecutable sha (Some exe) v v [] env fs =
      (Exec (runtime_target (take 16 (sha (sx_bytes v))) exe) ?env, fs')"
    using ensure_stageable [OF assms(1) False assms(3)] by blast
  moreover have "marked ?env" using marked_after [OF False] assms(2) False by simp
  ultimately show ?thesis by (simp add: numeral_2_eq_2 ensureServiceRuntimeExecutable_def marked_def)
qed

subsection \<open>The protected copy\<close>

lemma rr_call_keeps [simp]: "rr_dirs (snd (rr_call rr)) = rr_dirs rr" "rr_temp (snd (rr_call rr)) = rr_temp rr"
  by (simp_all add: rr_call_def split: prod.splits)

lemma rr_call_eq: "rr_call rr = (out, rr') \<Longrightarrow> rr_dirs rr' = rr_dirs rr \<and> rr_temp rr' = rr_temp rr"
  using rr_call_keeps [of rr] by simp

lemma validate_None:
  "validateStagedService sha decode d h withRouter = None \<longleftrightarrow>
     map_option sha (rd_service d) = Some h \<and> (withRouter \<longrightarrow> VerifyIntegrity sha decode (rd_router d) = None)"
  by (auto simp: validateStagedService_def executableSHA256_def split: option.splits)

lemma fill_runtime_effect:
  assumes "fill_runtime src withRouter rr = (e, rr')"
  shows "rr_dirs rr' = rr_dirs rr \<and> rr_temp rr' \<noteq> None"
  using assms by (auto simp: fill_runtime_def Let_def split: prod.splits if_splits dest!: rr_call_eq)

lemma remove_runtime_temp_keeps [simp]: "rr_dirs (remove_runtime_temp rr) = rr_dirs rr"
  by (auto simp: remove_runtime_temp_def dest!: rr_call_eq split: prod.splits)

lemma remove_runtime_temp_none: "rr_temp rr = None \<Longrightarrow> rr_temp (remove_runtime_temp rr) = None"
  by (auto simp: remove_runtime_temp_def dest!: rr_call_eq split: prod.splits)

lemma publish_effect:
  assumes p: "publish_runtime sha decode i h withRouter rival rr = (e, rr')"
    and t: "rr_temp rr = Some d" "validateStagedService sha decode d h withRouter = None"
  shows "(\<forall>j. j \<noteq> i \<longrightarrow> rr_dirs rr' j = rr_dirs rr j) \<and>
    (e = None \<longrightarrow> (\<exists>d'. rr_dirs rr' i = Some d' \<and> validateStagedService sha decode d' h withRouter = None))"
  using assms by (auto simp: publish_runtime_def Let_def split: prod.splits if_splits option.splits dest!: rr_call_eq)

lemma source_router_some:
  assumes "source_router sha decode src = Inr m" and "is_router (src 1) \<noteq> None" and "\<And>c. sha c \<noteq> []"
  shows "m \<noteq> [] \<and> VerifyIntegrity sha decode (is_router (src 2)) = None \<and>
     (\<exists>d c. is_router (src 3) = Some d \<and> d ''manifest.json'' = Some c \<and> m = sha c)"
  using assms by (auto simp: source_router_def executableSHA256_def split: if_splits option.splits sum.splits)

text \<open>The ways through \<open>prepareServiceInstallExecutable\<close> once the source has been read.\<close>

lemma prepare_paths:
  assumes p: "prepareServiceInstallExecutable sha decode (Some q) src rival rr = (r, rr')"
    and i: "executableSHA256 sha (is_service (src 0)) = Inr h" "source_router sha decode src = Inr m" "i = bundle_id sha h m"
  obtains (Failed) e where "r = Inl e" and "rr_dirs rr' = rr_dirs rr"
  | (Found) d where "rr_dirs rr i = Some d" and "rr_dirs rr' = rr_dirs rr" and "r = Inr (windows_target q i)"
      and "validateStagedService sha decode d h (m \<noteq> []) = None"
  | (Filled) rr4 d e rr5 where "rr_dirs rr i = None" and "rr_dirs rr4 = rr_dirs rr" and "rr_temp rr4 = Some d"
      and "validateStagedService sha decode d h (m \<noteq> []) = None" and "publish_runtime sha decode i h (m \<noteq> []) rival rr4 = (e, rr5)"
      and "rr' = remove_runtime_temp rr5" and "r = (case e of None \<Rightarrow> Inr (windows_target q i) | Some e \<Rightarrow> Inl e)"
proof -
  let ?valid = "\<lambda>d. validateStagedService sha decode d h (m \<noteq> [])"
  obtain o1 rr1 where c1: "rr_call rr = (o1, rr1)" by fastforce
  obtain o2 rr2 where c2: "rr_call rr1 = (o2, rr2)" by fastforce
  obtain o3 rr3 where c3: "rr_call rr2 = (o3, rr3)" by fastforce
  obtain e4 rr4 where c4: "fill_runtime (src 4) (m \<noteq> []) (rr3\<lparr>rr_temp := Some \<lparr>rd_service = None, rd_router = None\<rparr>\<rparr>) = (e4, rr4)" by fastforce
  obtain d where d: "rr_temp rr4 = Some d" "rr_dirs rr4 = rr_dirs rr3" using fill_runtime_effect [OF c4] by auto
  obtain e5 rr5 where c5: "publish_runtime sha decode i h (m \<noteq> []) rival rr4 = (e5, rr5)" by fastforce
  note dirs = rr_call_eq [OF c1] rr_call_eq [OF c2] rr_call_eq [OF c3]
  note run = p [unfolded prepareServiceInstallExecutable_def i(1,2) Let_def, simplified, folded i(3), unfolded c1, simplified]
  consider "o1 \<noteq> Done" | x where "o1 = Done" "rr_dirs rr i = Some x" | "o1 = Done" "rr_dirs rr i = None" by (cases "rr_dirs rr i") auto
  then show thesis
  proof cases
    case 1
    then show thesis using run dirs by (intro Failed) auto
  next
    case 2
    then show thesis using run dirs Found Failed by (auto split: option.splits)
  next
    case 3
    note run3 = run [unfolded 3, simplified, unfolded dirs [THEN conjunct1] 3, simplified, unfolded c2, simplified]
    show thesis
    proof (cases "o2 = Done \<and> o3 = Done \<and> e4 = None \<and> ?valid d = None")
      case True
      then have "(r, rr') = (case e5 of None \<Rightarrow> Inr (windows_target q i) | Some e \<Rightarrow> Inl e, remove_runtime_temp rr5)"
        using run3 d by (auto simp: c3 c4 c5 split: option.splits)
      then show thesis using True 3 d dirs c5 by (intro Filled [of rr4 d e5 rr5]) auto
    next
      case False
      then show thesis using run3 d dirs by (auto simp: c3 c4 split: if_splits option.splits intro!: Failed)
    qed
  qed
qed

lemma prepare_effect:
  assumes p: "prepareServiceInstallExecutable sha decode pf src rival rr = (r, rr')"
    and i: "executableSHA256 sha (is_service (src 0)) = Inr h" "source_router sha decode src = Inr m"
  shows "(\<forall>j. j \<noteq> bundle_id sha h m \<or> rr_dirs rr j \<noteq> None \<longrightarrow> rr_dirs rr' j = rr_dirs rr j) \<and>
    (\<forall>t. r = Inr t \<longrightarrow> (\<exists>q d. pf = Some q \<and> t = windows_target q (bundle_id sha h m) \<and> rr_dirs rr' (bundle_id sha h m) = Some d \<and>
       validateStagedService sha decode d h (m \<noteq> []) = None))"
proof (cases pf)
  case None
  then show ?thesis using p by (auto simp: prepareServiceInstallExecutable_def)
next
  case (Some q)
  show ?thesis using p [unfolded Some] i HOL.refl [of "bundle_id sha h m"]
  proof (cases rule: prepare_paths)
    case (Filled rr4 d e rr5)
    then show ?thesis using publish_effect [OF Filled(5,3,4)] Some by (auto split: option.splits)
  qed (use Some in auto)
qed

lemma prepare_early:
  assumes "prepareServiceInstallExecutable sha decode pf src rival rr = (r, rr')"
    and "\<And>h m. \<not> (executableSHA256 sha (is_service (src 0)) = Inr h \<and> source_router sha decode src = Inr m)"
  shows "rr' = rr \<and> (\<exists>e. r = Inl e)"
  using assms by (auto simp: prepareServiceInstallExecutable_def split: option.splits sum.splits) metis

lemma prepared_directory:
  assumes "prepareServiceInstallExecutable sha decode pf src rival rr = (Inr t, rr')" and "\<And>c. sha c \<noteq> []"
  shows "\<exists>q i d. pf = Some q \<and> t = windows_target q i \<and> rr_dirs rr' i = Some d \<and>
        rd_service d \<noteq> None \<and> map_option sha (rd_service d) = map_option sha (is_service (src 0)) \<and>
        (is_router (src 1) \<noteq> None \<longrightarrow> VerifyIntegrity sha decode (rd_router d) = None \<and> VerifyIntegrity sha decode (is_router (src 2)) = None)"
proof -
  obtain h m where i: "executableSHA256 sha (is_service (src 0)) = Inr h" "source_router sha decode src = Inr m"
    using prepare_early [OF assms(1)] by blast
  have h: "map_option sha (is_service (src 0)) = Some h" using i(1) by (auto simp: executableSHA256_def split: option.splits)
  note router = source_router_some [OF i(2) _ assms(2)]
  obtain q d where q: "pf = Some q" "t = windows_target q (bundle_id sha h m)" "rr_dirs rr' (bundle_id sha h m) = Some d"
      "validateStagedService sha decode d h (m \<noteq> []) = None"
    using prepare_effect [OF assms(1) i] by blast
  have "rd_service d \<noteq> None" "map_option sha (rd_service d) = map_option sha (is_service (src 0))"
    using q(4) h by (auto simp: validate_None)
  moreover have "is_router (src 1) \<noteq> None \<longrightarrow> VerifyIntegrity sha decode (rd_router d) = None \<and> VerifyIntegrity sha decode (is_router (src 2)) = None"
    using router q(4) by (simp add: validate_None)
  ultimately show ?thesis using q(1-3) by blast
qed

lemma prepare_keeps:
  assumes "prepareServiceInstallExecutable sha decode pf src rival rr = (r, rr')" and "rr_dirs rr i = Some d"
  shows "rr_dirs rr' i = Some d"
proof (cases "\<exists>h m. executableSHA256 sha (is_service (src 0)) = Inr h \<and> source_router sha decode src = Inr m")
  case True
  then show ?thesis using prepare_effect [OF assms(1)] assms(2) by (metis option.distinct(1))
next
  case False
  then have "rr' = rr" using prepare_early [OF assms(1)] by blast
  then show ?thesis using assms(2) by simp
qed

subsection \<open>Values for the examples\<close>

definition toy_sha :: "string \<Rightarrow> string" where "toy_sha s = replicate 64 (case s of [] \<Rightarrow> CHR ''0'' | c # _ \<Rightarrow> c)"

definition toy_view :: "string \<Rightarrow> source_view" where
  "toy_view data = \<lparr>sx_open = True, sx_info = Some (False, 0), sx_bytes = data, sx_complete = True\<rparr>"

definition toy_run :: run_fs where "toy_run = \<lparr>rf_dirs = {}, rf_files = Map.empty, rf_io = []\<rparr>"

definition toy_decode :: "string \<Rightarrow> integrity_manifest store" where
  "toy_decode c = Stored \<lparr>im_Version = ProtocolVersion, im_SHA256 = (\<lambda>n. Some (toy_sha c))\<rparr>"

definition toy_source :: "string \<Rightarrow> install_source" where
  "toy_source c = \<lparr>is_service = Some ''S'', is_router = Some (\<lambda>n. Some c), is_statFails = False\<rparr>"

definition toy_root :: runtime_root where "toy_root = \<lparr>rr_dirs = Map.empty, rr_temp = None, rr_io = []\<rparr>"

lemma toy_base [simp]: "path_Base ''/a'' = ''a''" "plain_name ''a''"
  by (simp_all add: path_Base_def plain_name_def has_prefix_def temp_prefix_def)

lemma toy_stageable: "stageable toy_sha (toy_view ''A'') toy_run"
  by (simp add: stageable_def toy_view_def toy_run_def)

lemmas toy_staging = toy_view_def toy_run_def toy_sha_def stageServiceExecutable_def hashFile_def Let_def rf_call_def fill_copy_def
  remove_temp_def runtime_target_def runtime_temp_def runtime_dir_of_def written_def temp_prefix_def

text \<open>
  The source is hashed and then opened again to be copied, and a copy that is there already is not looked at: a source
  that changes in between is published under the digest of the earlier one, and every later start from the unchanged
  source executes it.
\<close>

lemma stale_copy_kept:
  "let (r1, fs1) = stageServiceExecutable toy_sha (toy_view ''A'') (toy_view ''B'') ''/a'' [] toy_run;
       (r2, fs2) = stageServiceExecutable toy_sha (toy_view ''A'') (toy_view ''A'') ''/a'' [] fs1
   in r1 = r2 \<and> (\<exists>t f. r2 = Inr t \<and> rf_files fs2 t = Some f \<and> cp_data f = ''B'')"
  by (simp add: toy_staging)

definition toy_bundle :: "string \<Rightarrow> string \<rightharpoonup> string" where
  "toy_bundle c = [''manifest.json'' \<mapsto> c, ''kokorobox-process-router.exe'' \<mapsto> c, ''ProxyBridgeCore.dll'' \<mapsto> c,
     ''WinDivert.dll'' \<mapsto> c, ''WinDivert64.sys'' \<mapsto> c]"

lemma toy_verify:
  "VerifyIntegrity toy_sha toy_decode (Some (\<lambda>n. Some c)) = None" "VerifyIntegrity toy_sha toy_decode (Some (toy_bundle c)) = None"
  by (simp_all add: VerifyIntegrity_def bundle_of_def verifyProcessRouterIntegrity_def toy_decode_def processRouterFiles_def toy_sha_def toy_bundle_def)

lemma toy_prepare:
  "prepareServiceInstallExecutable toy_sha toy_decode (Some ''C:'') (\<lambda>k. if k = 4 then toy_source c else toy_source ''A'') None toy_root =
     (Inr (windows_target ''C:'' (bundle_id toy_sha (toy_sha ''S'') (toy_sha ''A''))),
      toy_root\<lparr>rr_dirs := [bundle_id toy_sha (toy_sha ''S'') (toy_sha ''A'') \<mapsto> \<lparr>rd_service = Some ''S'', rd_router = Some (toy_bundle c)\<rparr>]\<rparr>)"
proof -
  have fill: "fill_runtime (toy_source c) True (toy_root\<lparr>rr_temp := Some \<lparr>rd_service = None, rd_router = None\<rparr>\<rparr>) =
      (None, toy_root\<lparr>rr_temp := Some \<lparr>rd_service = Some ''S'', rd_router = Some (toy_bundle c)\<rparr>\<rparr>)"
    by (simp add: fill_runtime_def toy_source_def toy_root_def rr_call_def Let_def copyRuntimeFile_def RuntimeBundleFiles_def
        processRouterFiles_def written_def toy_bundle_def)
  have m: "source_router toy_sha toy_decode (\<lambda>k. if k = 4 then toy_source c else toy_source ''A'') = Inr (toy_sha ''A'')"
    by (simp add: source_router_def toy_source_def toy_verify executableSHA256_def)
  have s: "executableSHA256 toy_sha (is_service (toy_source x)) = Inr (toy_sha ''S'')" for x
    by (simp add: executableSHA256_def toy_source_def)
  have ne: "toy_sha ''A'' \<noteq> []" by (simp add: toy_sha_def)
  have call: "rr_call toy_root = (Done, toy_root)" by (simp add: rr_call_def toy_root_def)
  have v: "validateStagedService toy_sha toy_decode \<lparr>rd_service = Some ''S'', rd_router = Some (toy_bundle c)\<rparr> (toy_sha ''S'') True = None"
    by (simp add: validate_None toy_verify)
  have dirs: "rr_dirs toy_root = Map.empty" by (simp add: toy_root_def)
  show ?thesis
    unfolding prepareServiceInstallExecutable_def m
    by (simp add: s ne call dirs fill v publish_runtime_def remove_runtime_temp_def) (simp add: toy_root_def rr_call_def Let_def remove_runtime_temp_def)
qed

text \<open>
  The digest of the manifest in the name of the directory is that of the source's manifest when it was hashed; the
  copied manifest is not compared with it. A bundle that was exchanged before the copy is staged, since it is only
  checked against its own manifest.
\<close>

lemma swapped_router_staged:
  "let src = (\<lambda>k. if k = 4 then toy_source ''X'' else toy_source ''A'');
       (r, rr) = prepareServiceInstallExecutable toy_sha toy_decode (Some ''C:'') src None toy_root
   in (\<exists>t. r = Inr t) \<and>
      (\<exists>d b. rr_dirs rr (bundle_id toy_sha (toy_sha ''S'') (toy_sha ''A'')) = Some d \<and> rd_router d = Some b \<and> b ''manifest.json'' = Some ''X'')"
  by (simp only: Let_def toy_prepare) (simp add: toy_bundle_def)

section \<open>Properties\<close>

text \<open>
  When the source does not change while it is copied, the file that the service executes has the digest
  of the source, whether it was copied now or found from an earlier start, whichever system calls failed; and no other
  copy is changed.
\<close>

theorem linux_staging_sound:
  assumes "runtime_reach sha fs" and "sx_bytes v1 = sx_bytes v2" and "plain_name (path_Base source)" and "CHR ''/'' \<notin> set random"
    and "stageServiceExecutable sha v1 v2 source random fs = (Inr t, fs')"
  shows "(\<exists>f. rf_files fs' t = Some f \<and> take 16 (sha (cp_data f)) = take 16 (sha (sx_bytes v1))) \<and>
     (\<forall>h n. plain_name n \<and> runtime_dir_of h @ ''/'' @ n \<noteq> t \<longrightarrow>
        rf_files fs' (runtime_dir_of h @ ''/'' @ n) = rf_files fs (runtime_dir_of h @ ''/'' @ n))"
proof -
  obtain h mode where hash: "hashFile sha v1 = Inr (h, mode)"
    using assms(5) by (auto simp: stageServiceExecutable_def split: sum.splits)
  note eff = stage_effect [OF assms(5) assms(3,4) hash]
  have t: "t = runtime_target h source" using eff by blast
  obtain f where f: "rf_files fs' t = Some f" using eff by blast
  have "content_addressed sha fs'"
    by (rule stage_content_addressed [OF runtime_reach_addressed [OF assms(1)] assms(2-5)])
  then have "take 16 (sha (cp_data f)) = h"
    using f assms(3) by (auto simp: content_addressed_def t runtime_target_def)
  moreover have "runtime_dir_of h' @ ''/'' @ n \<noteq> runtime_temp h random" if n: "plain_name n" for h' n
    using runtime_paths_eq [of h' n h "temp_prefix @ random"] n assms(4) has_prefix_append [of temp_prefix random]
    by (auto simp: runtime_temp_def temp_prefix_def plain_name_def)
  ultimately show ?thesis using f hashFile_Inr [OF hash] eff t by auto
qed

theorem linux_staging_sound_witness:
  "runtime_reach toy_sha toy_run \<and>
   (\<exists>t fs' f. stageServiceExecutable toy_sha (toy_view ''A'') (toy_view ''A'') ''/a'' [] toy_run = (Inr t, fs') \<and>
      rf_files fs' t = Some f \<and> take 16 (toy_sha (cp_data f)) = take 16 (toy_sha ''A''))"
proof -
  have r: "runtime_reach toy_sha toy_run" by (rule runtime_reach.boot) (simp add: toy_run_def)
  obtain t fs' where s: "stageServiceExecutable toy_sha (toy_view ''A'') (toy_view ''A'') ''/a'' [] toy_run = (Inr t, fs')"
    using stage_clean [OF toy_stageable, of "''/a''"] by auto
  show ?thesis using linux_staging_sound [OF r _ _ _ s] r s by (auto simp: toy_view_def)
qed

text \<open>
  The service executes its copy at most once before it goes on, unless the variable that marks the copy
  is set to something else beforehand: then the entry that is appended is not the first one of that name, no image sees
  it, and the images execute their copies for ever.
\<close>

theorem runtime_exec_ends:
  assumes "stageable sha v fs" and "plain_name (path_Base exe)" and "path_Base exe \<noteq> []"
  shows "(if marked env \<or> exec_Getenv env serviceRuntimeExecEnv = None then fst (exec_chain sha v 2 exe env fs) = Continue
     else (\<forall>n. \<exists>exe' env'. fst (exec_chain sha v n exe env fs) = Exec exe' env'))"
  using exec_chain_ends [OF assms(1) _ assms(2)] exec_chain_loops [OF assms(1) _ _ assms(2,3)] by (metis fst_conv)

theorem runtime_exec_ends_witness:
  "fst (exec_chain toy_sha (toy_view ''A'') 2 ''/a'' [] toy_run) = Continue \<and>
   (\<forall>n. \<exists>exe' env'. fst (exec_chain toy_sha (toy_view ''A'') n ''/a'' [(serviceRuntimeExecEnv, ''0'')] toy_run) = Exec exe' env')"
  using runtime_exec_ends [OF toy_stageable, of "''/a''" "[]"]
    runtime_exec_ends [OF toy_stageable, of "''/a''" "[(serviceRuntimeExecEnv, ''0'')]"]
  by (simp add: exec_Getenv_def marked_def Environment_def env_value_def)

text \<open>
  A successful preparation leaves a directory whose service has the digest of the source's service
  when it was hashed and, if there was a router, whose router passes the integrity check, whatever is changed in the
  source meanwhile, whichever system calls fail and whoever installs at the same time; and in every case directories
  that were there before, from which a service may be running, are kept as they were.
\<close>

theorem windows_staging_sound:
  assumes "prepareServiceInstallExecutable sha decode pf src rival rr = (r, rr')" and "\<And>c. sha c \<noteq> []"
  shows "(\<forall>i d. rr_dirs rr i = Some d \<longrightarrow> rr_dirs rr' i = Some d) \<and>
     (\<forall>t. r = Inr t \<longrightarrow> (\<exists>q i d. pf = Some q \<and> t = windows_target q i \<and> rr_dirs rr' i = Some d \<and>
        rd_service d \<noteq> None \<and> map_option sha (rd_service d) = map_option sha (is_service (src 0)) \<and>
        (is_router (src 1) \<noteq> None \<longrightarrow> VerifyIntegrity sha decode (rd_router d) = None \<and> VerifyIntegrity sha decode (is_router (src 2)) = None)))"
  using prepare_keeps [OF assms(1)] prepared_directory [of sha decode pf src rival rr _ rr', OF _ assms(2)] assms(1) by blast

theorem windows_staging_sound_witness:
  "\<exists>t rr' q i d. prepareServiceInstallExecutable toy_sha toy_decode (Some ''C:'') (\<lambda>k. toy_source ''A'') None toy_root = (Inr t, rr') \<and>
     t = windows_target q i \<and> rr_dirs rr' i = Some d \<and> VerifyIntegrity toy_sha toy_decode (rd_router d) = None"
proof -
  obtain t rr' where p: "prepareServiceInstallExecutable toy_sha toy_decode (Some ''C:'') (\<lambda>k. toy_source ''A'') None toy_root = (Inr t, rr')"
    using toy_prepare [of "''A''"] by simp
  have "toy_sha c \<noteq> []" for c by (simp add: toy_sha_def)
  from windows_staging_sound [OF p this] obtain q i d where "t = windows_target q i" "rr_dirs rr' i = Some d" "VerifyIntegrity toy_sha toy_decode (rd_router d) = None"
    by (auto simp: toy_source_def)
  with p show ?thesis by blast
qed

end
