(* ===== verification/Auth_Nonce.thy ===== *)
theory Auth_Nonce
  imports Kokoro_Prelude
begin

text \<open>
  The nonce store of \<open>route/auth/middleware.go\<close>, which rejects replayed requests. Times are
  integers (nanoseconds). The locale \<open>replay_guard\<close> is what the authentication of a request
  relies on; the store is interpreted in it below.
\<close>

section \<open>Definitions\<close>

record nonce_entry =
  ne_key :: string
  ne_expiresAt :: int

record nonce_store =
  ns_ttl :: int
  ns_seen :: "string \<rightharpoonup> int"
  ns_order :: "nonce_entry list"

definition newNonceStore :: "int \<Rightarrow> nonce_store" where
  "newNonceStore ttl = \<lparr>ns_ttl = ttl, ns_seen = Map.empty, ns_order = []\<rparr>"

text \<open>The loop of \<open>evictExpiredLocked\<close>: what is left of \<open>order\<close>, and \<open>seen\<close>.\<close>

fun evict_loop ::
  "int \<Rightarrow> nonce_entry list \<Rightarrow> (string \<rightharpoonup> int) \<Rightarrow> nonce_entry list \<times> (string \<rightharpoonup> int)" where
  "evict_loop now [] sn = ([], sn)"
| "evict_loop now (e # es) sn =
     (if ne_expiresAt e > now then (e # es, sn)
      else evict_loop now es
             (if sn (ne_key e) = Some (ne_expiresAt e) then sn(ne_key e := None) else sn))"

definition evictExpiredLocked :: "nonce_store \<Rightarrow> int \<Rightarrow> nonce_store" where
  "evictExpiredLocked s now =
     (case evict_loop now (ns_order s) (ns_seen s) of
        (ord, sn) \<Rightarrow> s\<lparr>ns_order := ord, ns_seen := sn\<rparr>)"

definition Remember :: "nonce_store \<Rightarrow> string \<Rightarrow> int \<Rightarrow> bool \<times> nonce_store" where
  "Remember s0 key now =
     (let s = evictExpiredLocked s0 now
      in if (case ns_seen s key of None \<Rightarrow> False | Some expiresAt \<Rightarrow> expiresAt > now) then (False, s)
         else (let expiresAt = now + ns_ttl s
               in (True, s\<lparr>ns_seen := (ns_seen s)(key \<mapsto> expiresAt),
                           ns_order := ns_order s @ [\<lparr>ne_key = key, ne_expiresAt = expiresAt\<rparr>]\<rparr>)))"

text \<open>A sequence of calls and their answers.\<close>

fun remember_all ::
  "('s \<Rightarrow> string \<Rightarrow> int \<Rightarrow> bool \<times> 's) \<Rightarrow> 's \<Rightarrow> (string \<times> int) list \<Rightarrow> bool list \<times> 's" where
  "remember_all rem s [] = ([], s)"
| "remember_all rem s ((k, t) # cs) =
     (case rem s k t of (b, s') \<Rightarrow>
        (case remember_all rem s' cs of (bs, s'') \<Rightarrow> (b # bs, s'')))"

text \<open>
  The specification of the store: the accepted calls so far; a call is accepted when no accepted
  call for the same key is less than the time to live before it.
\<close>

definition spec_remember ::
  "int \<Rightarrow> (string \<times> int) list \<Rightarrow> string \<Rightarrow> int \<Rightarrow> bool \<times> (string \<times> int) list" where
  "spec_remember ttl h k t =
     (if list_ex (\<lambda>(k', t0). k' = k \<and> t < t0 + ttl) h then (False, h) else (True, (k, t) # h))"

text \<open>What a store holds between calls whose times do not go back; \<open>now\<close> is the last one.\<close>

definition nonce_inv :: "int \<Rightarrow> nonce_store \<Rightarrow> bool" where
  "nonce_inv now s \<longleftrightarrow>
     sorted (map ne_expiresAt (ns_order s)) \<and> distinct (map ne_key (ns_order s)) \<and>
     (\<forall>e \<in> set (ns_order s). ne_expiresAt e \<le> now + ns_ttl s) \<and>
     ns_seen s = map_of (map (\<lambda>e. (ne_key e, ne_expiresAt e)) (ns_order s))"

section \<open>The interface: a guard against replays\<close>

locale replay_guard =
  fixes rem :: "'s \<Rightarrow> string \<Rightarrow> int \<Rightarrow> bool \<times> 's"
    and until :: "'s \<Rightarrow> string \<Rightarrow> int option"
    and window :: "'s \<Rightarrow> int"
  assumes rem_iff: "fst (rem s k t) \<longleftrightarrow> (\<forall>e. until s k = Some e \<longrightarrow> e \<le> t)"
    and rem_blocks: "fst (rem s k t) \<Longrightarrow> until (snd (rem s k t)) k = Some (t + window s)"
    and rem_keeps: "until s k = Some e \<Longrightarrow> t < e \<Longrightarrow> until (snd (rem s k' t)) k = Some e"
    and rem_window: "window (snd (rem s k t)) = window s"
begin

text \<open>As long as every call comes before a key's time, the key stays blocked.\<close>

lemma blocked_run:
  assumes "until s k = Some e" and "\<forall>(k', t) \<in> set cs. t < e"
  shows "until (snd (remember_all rem s cs)) k = Some e \<and>
         (\<forall>i < length cs. fst (cs ! i) = k \<longrightarrow> \<not> fst (remember_all rem s cs) ! i)"
  using assms
proof (induction cs arbitrary: s)
  case Nil
  then show ?case by simp
next
  case (Cons c cs)
  obtain k' t where c: "c = (k', t)" by (cases c)
  obtain b s' where r: "rem s k' t = (b, s')" by (cases "rem s k' t")
  obtain bs s'' where a: "remember_all rem s' cs = (bs, s'')" by (cases "remember_all rem s' cs")
  have t: "t < e" using Cons.prems(2) c by auto
  have "until s' k = Some e" using rem_keeps [OF Cons.prems(1) t, of k'] r by simp
  from Cons.IH [OF this] Cons.prems(2) a
  have IH: "until s'' k = Some e" "\<forall>i < length cs. fst (cs ! i) = k \<longrightarrow> \<not> bs ! i" by auto
  moreover have "k' = k \<Longrightarrow> \<not> b"
    using rem_iff [of s k t] Cons.prems(1) t r by auto
  ultimately show ?case
    by (auto simp: c r a nth_Cons split: nat.splits)
qed

text \<open>After a call was accepted, the same key is refused until the window has passed.\<close>

lemma no_replay:
  assumes "fst (rem s k t)" and "\<forall>(k', t') \<in> set cs. t' < t + window s" and "t' < t + window s"
  shows "\<not> fst (rem (snd (remember_all rem (snd (rem s k t)) cs)) k t')"
proof -
  have "until (snd (remember_all rem (snd (rem s k t)) cs)) k = Some (t + window s)"
    using blocked_run [OF rem_blocks [OF assms(1)] assms(2)] by blast
  then show ?thesis using assms(3) rem_iff by auto
qed

end

section \<open>Lemmas\<close>

lemma remember_all_Cons:
  "fst (remember_all rem s ((k, t) # cs)) = fst (rem s k t) # fst (remember_all rem (snd (rem s k t)) cs)"
  "snd (remember_all rem s ((k, t) # cs)) = snd (remember_all rem (snd (rem s k t)) cs)"
  by (simp_all split: prod.splits)

declare remember_all.simps(2) [simp del]

lemma evict_loop_keeps:
  "sn k = Some e \<Longrightarrow> now < e \<Longrightarrow> snd (evict_loop now es sn) k = Some e"
proof (induction now es sn rule: evict_loop.induct)
  case (2 now x es sn)
  then show ?case by (cases "k = ne_key x") auto
qed simp

lemma evict_loop_shrinks:
  "snd (evict_loop now es sn) k = Some e \<Longrightarrow> sn k = Some e"
  by (induction now es sn rule: evict_loop.induct) (auto split: if_splits)

lemma evictExpiredLocked_ttl [simp]: "ns_ttl (evictExpiredLocked s now) = ns_ttl s"
  by (simp add: evictExpiredLocked_def split: prod.splits)

lemma evictExpiredLocked_seen:
  "ns_seen (evictExpiredLocked s now) = snd (evict_loop now (ns_order s) (ns_seen s))"
  by (simp add: evictExpiredLocked_def split: prod.splits)

lemma evictExpiredLocked_order:
  "ns_order (evictExpiredLocked s now) = fst (evict_loop now (ns_order s) (ns_seen s))"
  by (simp add: evictExpiredLocked_def split: prod.splits)

lemma evictExpiredLocked_live:
  "t \<le> t' \<Longrightarrow> (ns_seen (evictExpiredLocked s t) k = Some e \<and> t' < e) \<longleftrightarrow> (ns_seen s k = Some e \<and> t' < e)"
  using evict_loop_keeps [of "ns_seen s" k e t "ns_order s"]
    evict_loop_shrinks [of t "ns_order s" "ns_seen s" k e]
  by (auto simp: evictExpiredLocked_seen)

lemma Remember_iff: "fst (Remember s k t) \<longleftrightarrow> (\<forall>e. ns_seen s k = Some e \<longrightarrow> e \<le> t)"
proof -
  have "fst (Remember s k t) \<longleftrightarrow> \<not> (\<exists>e. ns_seen (evictExpiredLocked s t) k = Some e \<and> t < e)"
    by (auto simp: Remember_def Let_def split: option.splits)
  also have "\<dots> \<longleftrightarrow> \<not> (\<exists>e. ns_seen s k = Some e \<and> t < e)"
    by (simp only: evictExpiredLocked_live [OF order.refl])
  finally show ?thesis by (auto simp: not_less)
qed

lemma Remember_ttl [simp]: "ns_ttl (snd (Remember s k t)) = ns_ttl s"
  by (simp add: Remember_def Let_def)

lemma Remember_seen_hit: "fst (Remember s k t) \<Longrightarrow> ns_seen (snd (Remember s k t)) k = Some (t + ns_ttl s)"
  by (auto simp: Remember_def Let_def split: if_splits)

lemma Remember_seen_keep:
  assumes "ns_seen s k = Some e" and "t < e"
  shows "ns_seen (snd (Remember s k' t)) k = Some e"
proof -
  have "ns_seen (evictExpiredLocked s t) k = Some e"
    using assms by (simp add: evictExpiredLocked_seen evict_loop_keeps)
  with assms show ?thesis by (auto simp: Remember_def Let_def)
qed

interpretation nonces: replay_guard Remember ns_seen ns_ttl
  by unfold_locales (simp_all add: Remember_iff Remember_seen_hit Remember_seen_keep)

subsection \<open>Agreement with the specification\<close>

text \<open>The simulation relation: store and history block the same keys from \<open>now\<close> on.\<close>

definition nonce_sim :: "int \<Rightarrow> nonce_store \<Rightarrow> (string \<times> int) list \<Rightarrow> bool" where
  "nonce_sim now s h \<longleftrightarrow>
     (\<forall>k t. now \<le> t \<longrightarrow>
        ((\<exists>e. ns_seen s k = Some e \<and> t < e) \<longleftrightarrow> (\<exists>(k', t0) \<in> set h. k' = k \<and> t < t0 + ns_ttl s)))"

lemma Remember_seen_other:
  assumes "k' \<noteq> k" and "t \<le> t'"
  shows "(\<exists>e. ns_seen (snd (Remember s k t)) k' = Some e \<and> t' < e) \<longleftrightarrow> (\<exists>e. ns_seen s k' = Some e \<and> t' < e)"
proof -
  have "ns_seen (snd (Remember s k t)) k' = ns_seen (evictExpiredLocked s t) k'"
    using assms(1) by (auto simp: Remember_def Let_def)
  then show ?thesis by (simp only: evictExpiredLocked_live [OF assms(2)])
qed

lemma Remember_spec_step:
  assumes sim: "nonce_sim now s h" and t: "now \<le> t"
  shows "fst (Remember s k t) = fst (spec_remember (ns_ttl s) h k t)"
    and "0 \<le> ns_ttl s \<Longrightarrow> nonce_sim t (snd (Remember s k t)) (snd (spec_remember (ns_ttl s) h k t))"
proof -
  have blocked: "(\<exists>e. ns_seen s k = Some e \<and> t < e) \<longleftrightarrow> list_ex (\<lambda>(k', t0). k' = k \<and> t < t0 + ns_ttl s) h"
    using sim t by (auto simp: nonce_sim_def list_ex_iff)
  then show same: "fst (Remember s k t) = fst (spec_remember (ns_ttl s) h k t)"
    by (auto simp: Remember_iff spec_remember_def not_less)
  assume ttl: "0 \<le> ns_ttl s"
  let ?s' = "snd (Remember s k t)" and ?h' = "snd (spec_remember (ns_ttl s) h k t)"
  show "nonce_sim t ?s' ?h'"
    unfolding nonce_sim_def
  proof (intro allI impI)
    fix k' t' assume t': "t \<le> t'"
    have old: "(\<exists>e. ns_seen s k' = Some e \<and> t' < e) \<longleftrightarrow> (\<exists>(q, t0) \<in> set h. q = k' \<and> t' < t0 + ns_ttl s)"
      using sim t t' by (auto simp: nonce_sim_def)
    show "(\<exists>e. ns_seen ?s' k' = Some e \<and> t' < e) \<longleftrightarrow>
          (\<exists>(q, t0) \<in> set ?h'. q = k' \<and> t' < t0 + ns_ttl ?s')"
    proof (cases "k' = k")
      case False
      then have "(\<exists>(q, t0) \<in> set ?h'. q = k' \<and> t' < t0 + ns_ttl s) \<longleftrightarrow>
                 (\<exists>(q, t0) \<in> set h. q = k' \<and> t' < t0 + ns_ttl s)"
        by (auto simp: spec_remember_def)
      with old Remember_seen_other [OF False t', of s] show ?thesis by simp
    next
      case True
      show ?thesis
      proof (cases "fst (Remember s k t)")
        case hit: True
        then have "\<forall>(q, t0) \<in> set h. q = k \<longrightarrow> t0 + ns_ttl s \<le> t"
          using same by (auto simp: spec_remember_def list_ex_iff split: if_splits)
        moreover have "?h' = (k, t) # h"
          using hit same by (auto simp: spec_remember_def split: if_splits)
        ultimately show ?thesis
          using Remember_seen_hit [OF hit] True t' by fastforce
      next
        case miss: False
        then obtain e where e: "ns_seen s k = Some e" "t < e"
          by (auto simp: Remember_iff not_le)
        have "ns_seen ?s' k = Some e" using Remember_seen_keep [OF e] .
        moreover have "?h' = h"
          using miss same by (auto simp: spec_remember_def split: if_splits)
        ultimately show ?thesis using old True e by auto
      qed
    qed
  qed
qed

lemma remember_all_spec:
  assumes "nonce_sim now s h" and "sorted (now # map snd cs)" and "0 \<le> ns_ttl s"
  shows "fst (remember_all Remember s cs) = fst (remember_all (spec_remember (ns_ttl s)) h cs)"
  using assms
proof (induction cs arbitrary: now s h)
  case Nil
  then show ?case by simp
next
  case (Cons c cs)
  obtain k t where c: "c = (k, t)" by (cases c)
  have t: "now \<le> t" "sorted (t # map snd cs)" using Cons.prems(2) c by auto
  note step = Remember_spec_step [OF Cons.prems(1) t(1), of k]
  have "ns_ttl (snd (Remember s k t)) = ns_ttl s" by simp
  with Cons.IH [OF step(2) [OF Cons.prems(3)] t(2)] Cons.prems(3) step(1)
  show ?case by (simp add: c remember_all_Cons)
qed

subsection \<open>The invariant\<close>

lemma map_of_fst_map: "map_of (map (\<lambda>e. (f e, g e)) es) k = Some v \<Longrightarrow> \<exists>e \<in> set es. f e = k \<and> g e = v"
  by (induction es) (auto split: if_splits)

lemma evict_loop_sorted:
  assumes "sorted (map ne_expiresAt es)" and "distinct (map ne_key es)"
    and "sn = map_of (map (\<lambda>e. (ne_key e, ne_expiresAt e)) es)"
  shows "\<exists>dead. es = dead @ fst (evict_loop now es sn) \<and>
           (\<forall>e \<in> set dead. ne_expiresAt e \<le> now) \<and>
           (\<forall>e \<in> set (fst (evict_loop now es sn)). now < ne_expiresAt e) \<and>
           snd (evict_loop now es sn) = map_of (map (\<lambda>e. (ne_key e, ne_expiresAt e)) (fst (evict_loop now es sn)))"
  using assms
proof (induction es arbitrary: sn)
  case Nil
  then show ?case by simp
next
  case (Cons e es)
  let ?m = "map_of (map (\<lambda>e. (ne_key e, ne_expiresAt e)) es)"
  show ?case
  proof (cases "now < ne_expiresAt e")
    case True
    with Cons.prems show ?thesis by force
  next
    case False
    have "?m (ne_key e) = None"
      using Cons.prems(2) by (auto simp: map_of_eq_None_iff image_iff)
    then have drop: "(if sn (ne_key e) = Some (ne_expiresAt e) then sn(ne_key e := None) else sn) = ?m"
      using Cons.prems(3) by (auto simp: fun_eq_iff)
    obtain dead where "es = dead @ fst (evict_loop now es ?m)" "\<forall>x \<in> set dead. ne_expiresAt x \<le> now"
        "\<forall>x \<in> set (fst (evict_loop now es ?m)). now < ne_expiresAt x"
        "snd (evict_loop now es ?m) =
           map_of (map (\<lambda>e. (ne_key e, ne_expiresAt e)) (fst (evict_loop now es ?m)))"
      using Cons.IH [OF _ _ refl] Cons.prems(1,2) by auto
    with False drop show ?thesis by (intro exI [of _ "e # dead"]) simp
  qed
qed

lemma evictExpiredLocked_inv:
  assumes inv: "nonce_inv now s" and t: "now \<le> t"
  shows "nonce_inv t (evictExpiredLocked s t)"
    and "\<forall>e \<in> set (ns_order (evictExpiredLocked s t)). t < ne_expiresAt e"
proof -
  from inv obtain dead where d: "ns_order s = dead @ ns_order (evictExpiredLocked s t)"
      "\<forall>e \<in> set (ns_order (evictExpiredLocked s t)). t < ne_expiresAt e"
      "ns_seen (evictExpiredLocked s t) =
         map_of (map (\<lambda>e. (ne_key e, ne_expiresAt e)) (ns_order (evictExpiredLocked s t)))"
    using evict_loop_sorted [of "ns_order s" "ns_seen s" t]
    by (auto simp: nonce_inv_def evictExpiredLocked_seen evictExpiredLocked_order)
  from d(2) show "\<forall>e \<in> set (ns_order (evictExpiredLocked s t)). t < ne_expiresAt e" .
  have "sorted (map ne_expiresAt (dead @ ns_order (evictExpiredLocked s t)))"
    "distinct (map ne_key (dead @ ns_order (evictExpiredLocked s t)))"
    "\<forall>e \<in> set (dead @ ns_order (evictExpiredLocked s t)). ne_expiresAt e \<le> now + ns_ttl s"
    using inv unfolding nonce_inv_def d(1) [symmetric] by auto
  then have "sorted (map ne_expiresAt (ns_order (evictExpiredLocked s t)))"
    "distinct (map ne_key (ns_order (evictExpiredLocked s t)))"
    "\<forall>e \<in> set (ns_order (evictExpiredLocked s t)). ne_expiresAt e \<le> now + ns_ttl s"
    by (simp_all add: sorted_append)
  with d(3) t show "nonce_inv t (evictExpiredLocked s t)"
    unfolding nonce_inv_def by force
qed

lemma Remember_inv:
  assumes inv: "nonce_inv now s" and t: "now \<le> t" and ttl: "0 \<le> ns_ttl s"
  shows "nonce_inv t (snd (Remember s k t))"
    and "0 < ns_ttl s \<Longrightarrow> \<forall>e \<in> set (ns_order (snd (Remember s k t))). t < ne_expiresAt e"
proof -
  let ?s = "evictExpiredLocked s t"
  note ev = evictExpiredLocked_inv [OF inv t]
  have fresh: "k \<notin> ne_key ` set (ns_order ?s)" if "\<not> (\<exists>e. ns_seen ?s k = Some e \<and> t < e)"
  proof
    assume "k \<in> ne_key ` set (ns_order ?s)"
    then have "k \<in> dom (ns_seen ?s)"
      using ev(1) by (auto simp: nonce_inv_def dom_map_of_conv_image_fst image_iff)
    then obtain e where e: "ns_seen ?s k = Some e" by auto
    then obtain x where "x \<in> set (ns_order ?s)" "ne_expiresAt x = e"
      using ev(1) map_of_fst_map [of ne_key ne_expiresAt] unfolding nonce_inv_def by metis
    with ev(2) e that show False by auto
  qed
  show "nonce_inv t (snd (Remember s k t))"
  proof (cases "\<exists>e. ns_seen ?s k = Some e \<and> t < e")
    case True
    with ev(1) show ?thesis by (auto simp: Remember_def Let_def)
  next
    case False
    then have r: "snd (Remember s k t) = ?s\<lparr>ns_seen := (ns_seen ?s)(k \<mapsto> t + ns_ttl s),
        ns_order := ns_order ?s @ [\<lparr>ne_key = k, ne_expiresAt = t + ns_ttl s\<rparr>]\<rparr>"
      by (auto simp: Remember_def Let_def split: option.splits)
    have "map_of (map (\<lambda>e. (ne_key e, ne_expiresAt e)) (ns_order ?s)) k = None"
      using fresh [OF False] by (auto simp: map_of_eq_None_iff image_iff)
    then have "(ns_seen ?s)(k \<mapsto> t + ns_ttl s) =
        map_of (map (\<lambda>e. (ne_key e, ne_expiresAt e)) (ns_order ?s @ [\<lparr>ne_key = k, ne_expiresAt = t + ns_ttl s\<rparr>]))"
      using ev(1) by (auto simp: nonce_inv_def fun_eq_iff map_add_def split: option.splits)
    with r ev(1) fresh [OF False] show ?thesis
      by (auto simp: nonce_inv_def sorted_append)
  qed
  show "\<forall>e \<in> set (ns_order (snd (Remember s k t))). t < ne_expiresAt e" if "0 < ns_ttl s"
    using ev(2) that by (auto simp: Remember_def Let_def)
qed

lemma remember_all_inv:
  assumes "nonce_inv now s" and "sorted (now # map snd cs)" and "0 < ns_ttl s"
  shows "nonce_inv (last (now # map snd cs)) (snd (remember_all Remember s cs))"
    and "cs \<noteq> [] \<Longrightarrow> \<forall>e \<in> set (ns_order (snd (remember_all Remember s cs))). last (map snd cs) < ne_expiresAt e"
  using assms
proof (induction cs arbitrary: now s)
  case (Cons c cs)
  obtain k t where c: "c = (k, t)" by (cases c)
  {
    case 1
    then have t: "now \<le> t" "sorted (t # map snd cs)" using c by auto
    note step = Remember_inv [OF 1(1) t(1), of k]
    from 1 step(1) t(2) Cons.IH(1) [of t "snd (Remember s k t)"] show ?case
      by (simp add: c remember_all_Cons)
  next
    case 2
    then have t: "now \<le> t" "sorted (t # map snd cs)" using c by auto
    note step = Remember_inv [OF 2(2) t(1), of k]
    from 2 step t(2) Cons.IH(2) [of t "snd (Remember s k t)"] show ?case
      by (cases "cs = []") (simp_all add: c remember_all_Cons)
  }
qed simp_all

lemma remember_all_ttl: "ns_ttl (snd (remember_all Remember s cs)) = ns_ttl s"
proof (induction cs arbitrary: s)
  case (Cons c cs)
  then show ?case by (cases c) (simp add: remember_all_Cons)
qed simp

section \<open>Properties\<close>

text \<open>
  C14. On calls whose times do not go back the nonce store answers exactly as its specification: a
  key is accepted when no call accepted for it before is less than the time to live old.
\<close>

theorem nonce_store_refines_history:
  assumes "0 \<le> ttl" and "sorted (map snd cs)"
  shows "fst (remember_all Remember (newNonceStore ttl) cs) = fst (remember_all (spec_remember ttl) [] cs)"
proof (cases cs)
  case Nil
  then show ?thesis by simp
next
  case (Cons c cs')
  have "nonce_sim (snd c) (newNonceStore ttl) []"
    by (simp add: nonce_sim_def newNonceStore_def)
  moreover have "sorted (snd c # map snd cs)" using assms(2) Cons by simp
  ultimately show ?thesis
    using remember_all_spec [of "snd c" "newNonceStore ttl" "[]" cs] assms(1)
    by (simp add: newNonceStore_def)
qed

theorem nonce_store_refines_history_witness:
  "fst (remember_all Remember (newNonceStore 60) [(''a'', 0), (''b'', 10), (''a'', 59), (''a'', 60)]) =
     [True, True, False, True]"
proof -
  have "sorted (map snd [(''a'', 0), (''b'', 10), (''a'', 59), (''a'', 60 :: int)])" by simp
  from nonce_store_refines_history [OF _ this, of 60] show ?thesis
    by (simp add: spec_remember_def remember_all_Cons)
qed

text \<open>
  The store does not grow without bound: after calls whose times do not go back it holds one
  entry per remembered key, all of them still live at the time of the last call, and the map and
  the queue agree.
\<close>

theorem nonce_store_only_live:
  assumes "0 < ttl" and "sorted (map snd cs)" and "cs \<noteq> []"
    and "s = snd (remember_all Remember (newNonceStore ttl) cs)"
  shows "(\<forall>e \<in> set (ns_order s). last (map snd cs) < ne_expiresAt e \<and> ne_expiresAt e \<le> last (map snd cs) + ttl) \<and>
         distinct (map ne_key (ns_order s)) \<and> dom (ns_seen s) = ne_key ` set (ns_order s)"
proof -
  have s0: "sorted (snd (hd cs) # map snd cs)" using assms(2,3) by (cases cs) auto
  have i0: "nonce_inv (snd (hd cs)) (newNonceStore ttl)" by (simp add: nonce_inv_def newNonceStore_def)
  have ttl: "0 < ns_ttl (newNonceStore ttl)" using assms(1) by (simp add: newNonceStore_def)
  have "ns_ttl s = ttl" using assms(4) by (simp add: remember_all_ttl newNonceStore_def)
  then show ?thesis
    using remember_all_inv [OF i0 s0 ttl] assms(3,4)
    by (auto simp: nonce_inv_def dom_map_of_conv_image_fst image_image)
qed

theorem nonce_store_only_live_witness:
  "dom (ns_seen (snd (remember_all Remember (newNonceStore 60) [(''a'', 0), (''b'', 61)]))) = {''b''}"
proof -
  let ?cs = "[(''a'', 0), (''b'', 61 :: int)]"
  have "dom (ns_seen (snd (remember_all Remember (newNonceStore 60) ?cs))) =
        ne_key ` set (ns_order (snd (remember_all Remember (newNonceStore 60) ?cs)))"
    using nonce_store_only_live [OF _ _ _ refl, of 60 ?cs] by simp
  then show ?thesis
    by (simp add: Remember_def newNonceStore_def evictExpiredLocked_def remember_all_Cons)
qed

end
