(* ===== verification/Auth_Request.thy ===== *)
theory Auth_Request
  imports Auth_Nonce Auth_Keys
begin

text \<open>
  The authentication of a request in \<open>route/auth/middleware.go\<close>: the canonical text that is signed,
  the checks of \<open>authenticateRequest\<close> in their order, and the middleware in front of every handler.
  The clock is an argument (nanoseconds since the epoch); the nonce store is the state.
\<close>

section \<open>Definitions\<close>

text \<open>
  What the middleware reads of \<open>http.Request\<close>: \<open>Header.Get\<close>, the method, the escaped path and the
  raw query of the URL, the body (\<open>None\<close> is a nil body, \<open>Inl\<close> an error while reading), and the answer
  of \<open>getRequestPrincipal\<close>.
\<close>

record request =
  rq_Header :: "string \<Rightarrow> string"
  rq_Method :: string
  rq_EscapedPath :: string
  rq_RawQuery :: string
  rq_Body :: "string option res"
  rq_principal :: "(string \<times> string) option res"

definition authVersionV2 :: string where "authVersionV2 = ''2''"
definition authVersionV3 :: string where "authVersionV3 = ''3''"

definition maxTimestampDriftV2 :: int where "maxTimestampDriftV2 = 30 * second"

definition requestNonceStore :: nonce_store where
  "requestNonceStore = newNonceStore (2 * maxTimestampDriftV2)"

text \<open>\<open>time.UnixMilli\<close>, and \<open>Time.Sub\<close>, which saturates at the range of a 64-bit duration.\<close>

definition UnixMilli :: "int \<Rightarrow> int" where "UnixMilli ts = ts * 1000000"

definition time_Sub :: "int \<Rightarrow> int \<Rightarrow> int" where
  "time_Sub t u = max (- (2 ^ 63)) (min (2 ^ 63 - 1) (t - u))"

definition hashRequestBody :: "'k crypto \<Rightarrow> request \<Rightarrow> string res" where
  "hashRequestBody C r =
     (case rq_Body r of
        Inl e \<Rightarrow> Inl (Wrapped ''Failed to read request body'' e)
      | Inr None \<Rightarrow> Inr (sha256_hex C [])
      | Inr (Some rawBody) \<Rightarrow> Inr (sha256_hex C rawBody))"

definition canonicalDomain :: "string \<Rightarrow> string res" where
  "canonicalDomain version =
     (if version = authVersionV2 then Inr ''SPARKLE-AUTH-V2''
      else if version = authVersionV3 then Inr ''KOKOROBOX-AUTH-V3''
      else Inl (Plainf ''Unsupported authentication version'' [version]))"

definition buildCanonicalRequest ::
  "unicode \<Rightarrow> request \<Rightarrow> string \<Rightarrow> string \<Rightarrow> string \<Rightarrow> string \<Rightarrow> string \<Rightarrow> string res" where
  "buildCanonicalRequest U r timestamp nonce keyID bodyHash version =
     (case canonicalDomain version of
        Inl e \<Rightarrow> Inl e
      | Inr domain \<Rightarrow>
          (case canonicalizeQuery (rq_RawQuery r) of
             Inl e \<Rightarrow> Inl (Wrapped ''Failed to normalize request parameters'' e)
           | Inr query \<Rightarrow>
               (let path = (if rq_EscapedPath r = [] then ''/'' else rq_EscapedPath r)
                in Inr (strings_Join [domain, timestamp, nonce, keyID, strings_ToUpper U (rq_Method r), path, query, bodyHash]
                          [CHR 0x0A]))))"

definition authenticateRequest ::
  "unicode \<Rightarrow> 'k crypto \<Rightarrow> 'k key_manager \<Rightarrow> int \<Rightarrow> request \<Rightarrow> string \<Rightarrow> nonce_store \<Rightarrow> err option \<times> nonce_store" where
  "authenticateRequest U C km now r version ns =
     (let timestamp = rq_Header r ''X-Timestamp'';
          keyID = rq_Header r ''X-Key-Id'';
          nonce = rq_Header r ''X-Nonce'';
          contentHash = strings_ToLower U (rq_Header r ''X-Content-SHA256'');
          signature = rq_Header r ''X-Signature''
      in if timestamp = [] \<or> keyID = [] \<or> nonce = [] \<or> contentHash = [] \<or> signature = []
         then (Some (HTTPError 401 ''Missing authentication information''), ns)
         else (case parse_int 64 timestamp of
             None \<Rightarrow> (Some (HTTPError 400 ''Invalid timestamp format''), ns)
           | Some ts \<Rightarrow>
               (let timeDiff = time_Sub now (UnixMilli ts)
                in if timeDiff < - maxTimestampDriftV2 \<or> timeDiff > maxTimestampDriftV2
                   then (Some (HTTPError 401 ''Request expired or timestamp is invalid''), ns)
                   else (case hashRequestBody C r of
                       Inl e \<Rightarrow> (Some e, ns)
                     | Inr bodyHash \<Rightarrow>
                         if bodyHash \<noteq> contentHash then (Some (HTTPError 401 ''Request body digest does not match''), ns)
                         else (case buildCanonicalRequest U r timestamp nonce keyID bodyHash version of
                             Inl e \<Rightarrow> (Some (HTTPErrorOf 400 e), ns)
                           | Inr canonical \<Rightarrow>
                               (case VerifySignature C km keyID canonical signature of
                                  Some e \<Rightarrow> (Some (HTTPErrorOf 401 e), ns)
                                | None \<Rightarrow>
                                    (let nonceKey = keyID @ '':'' @ timestamp @ '':'' @ nonce
                                     in case Remember ns nonceKey now of
                                          (False, ns') \<Rightarrow> (Some (HTTPError 409 ''Request has already been replayed''), ns')
                                        | (True, ns') \<Rightarrow> (None, ns'))))))))"

text \<open>The answer of the middleware: the error it sends, or \<open>None\<close> when the next handler runs.\<close>

definition AuthMiddleware ::
  "unicode \<Rightarrow> 'k crypto \<Rightarrow> 'k key_manager \<Rightarrow> int \<Rightarrow> request \<Rightarrow> nonce_store \<Rightarrow> err option \<times> nonce_store" where
  "AuthMiddleware U C km now r ns =
     (if \<not> IsInitialized km \<or> \<not> HasAuthorizedPrincipal km
      then (Some (HTTPError 503 ''Service is not initialized''), ns)
      else (case VerifyRequestPrincipal km (rq_principal r) of
          Some e \<Rightarrow> (Some (HTTPErrorOf 403 e), ns)
        | None \<Rightarrow>
            (let version = rq_Header r ''X-Auth-Version''
             in if version \<noteq> authVersionV2 \<and> version \<noteq> authVersionV3
                then (Some (HTTPError 401 ''Only Auth V2/V3 is supported''), ns)
                else authenticateRequest U C km now r version ns)))"

text \<open>A sequence of requests, each with the key manager and the clock at its time.\<close>

fun serve_all ::
  "unicode \<Rightarrow> 'k crypto \<Rightarrow> nonce_store \<Rightarrow> ('k key_manager \<times> int \<times> request) list \<Rightarrow> nonce_store" where
  "serve_all U C ns [] = ns"
| "serve_all U C ns ((km, now, r) # evs) = serve_all U C (snd (AuthMiddleware U C km now r ns)) evs"

definition nonce_key :: "request \<Rightarrow> string" where
  "nonce_key r = rq_Header r ''X-Key-Id'' @ '':'' @ rq_Header r ''X-Timestamp'' @ '':'' @ rq_Header r ''X-Nonce''"

section \<open>Lemmas\<close>

lemma time_Sub_within:
  "\<not> (time_Sub now t < - maxTimestampDriftV2 \<or> time_Sub now t > maxTimestampDriftV2) \<longleftrightarrow> \<bar>now - t\<bar> \<le> 30 * second"
  by (auto simp: time_Sub_def maxTimestampDriftV2_def second_def)

text \<open>What \<open>authenticateRequest\<close> requires before it looks at the nonce.\<close>

definition signed_request :: "unicode \<Rightarrow> 'k crypto \<Rightarrow> 'k key_manager \<Rightarrow> int \<Rightarrow> request \<Rightarrow> string \<Rightarrow> bool" where
  "signed_request U C km now r version \<longleftrightarrow>
     (\<forall>h \<in> {''X-Timestamp'', ''X-Key-Id'', ''X-Nonce'', ''X-Signature''}. rq_Header r h \<noteq> []) \<and>
     strings_ToLower U (rq_Header r ''X-Content-SHA256'') \<noteq> [] \<and>
     (\<exists>ts canonical.
        parse_int 64 (rq_Header r ''X-Timestamp'') = Some ts \<and> \<bar>now - UnixMilli ts\<bar> \<le> 30 * second \<and>
        hashRequestBody C r = Inr (strings_ToLower U (rq_Header r ''X-Content-SHA256'')) \<and>
        buildCanonicalRequest U r (rq_Header r ''X-Timestamp'') (rq_Header r ''X-Nonce'') (rq_Header r ''X-Key-Id'')
          (strings_ToLower U (rq_Header r ''X-Content-SHA256'')) version = Inr canonical \<and>
        VerifySignature C km (rq_Header r ''X-Key-Id'') canonical (rq_Header r ''X-Signature'') = None)"

lemma authenticateRequest_signed:
  assumes "signed_request U C km now r version"
  shows "authenticateRequest U C km now r version ns =
     (if fst (Remember ns (nonce_key r) now) then None else Some (HTTPError 409 ''Request has already been replayed''),
      snd (Remember ns (nonce_key r) now))"
proof -
  obtain ts canonical where *:
      "parse_int 64 (rq_Header r ''X-Timestamp'') = Some ts"
      "\<not> (time_Sub now (UnixMilli ts) < - maxTimestampDriftV2 \<or> time_Sub now (UnixMilli ts) > maxTimestampDriftV2)"
      "hashRequestBody C r = Inr (strings_ToLower U (rq_Header r ''X-Content-SHA256''))"
      "buildCanonicalRequest U r (rq_Header r ''X-Timestamp'') (rq_Header r ''X-Nonce'') (rq_Header r ''X-Key-Id'')
          (strings_ToLower U (rq_Header r ''X-Content-SHA256'')) version = Inr canonical"
      "VerifySignature C km (rq_Header r ''X-Key-Id'') canonical (rq_Header r ''X-Signature'') = None"
    using assms by (auto simp: signed_request_def simp flip: time_Sub_within)
  obtain b ns' where "Remember ns (nonce_key r) now = (b, ns')" by fastforce
  then show ?thesis
    using assms * by (cases b) (simp_all add: authenticateRequest_def Let_def nonce_key_def signed_request_def)
qed

lemma authenticateRequest_unsigned:
  assumes "\<not> signed_request U C km now r version"
  shows "snd (authenticateRequest U C km now r version ns) = ns \<and> fst (authenticateRequest U C km now r version ns) \<noteq> None"
proof -
  have if_drift: "\<bar>now - UnixMilli ts\<bar> \<le> 30 * second \<longleftrightarrow>
      \<not> (time_Sub now (UnixMilli ts) < - maxTimestampDriftV2 \<or> time_Sub now (UnixMilli ts) > maxTimestampDriftV2)" for ts
    by (simp only: time_Sub_within)
  show ?thesis
    using assms unfolding authenticateRequest_def signed_request_def if_drift
    by (auto simp add: Let_def split: option.splits sum.splits)
qed

text \<open>The requests that get past the checks of the middleware itself.\<close>

definition admitted :: "unicode \<Rightarrow> 'k crypto \<Rightarrow> 'k key_manager \<Rightarrow> int \<Rightarrow> request \<Rightarrow> bool" where
  "admitted U C km now r \<longleftrightarrow>
     IsInitialized km \<and> HasAuthorizedPrincipal km \<and> VerifyRequestPrincipal km (rq_principal r) = None \<and>
     rq_Header r ''X-Auth-Version'' \<in> {''2'', ''3''} \<and>
     signed_request U C km now r (rq_Header r ''X-Auth-Version'')"

lemma AuthMiddleware_admitted:
  "admitted U C km now r \<Longrightarrow> AuthMiddleware U C km now r ns =
     (if fst (Remember ns (nonce_key r) now) then None else Some (HTTPError 409 ''Request has already been replayed''),
      snd (Remember ns (nonce_key r) now))"
  by (auto simp: admitted_def AuthMiddleware_def authenticateRequest_signed Let_def authVersionV2_def authVersionV3_def)

lemma AuthMiddleware_refused:
  "\<not> admitted U C km now r \<Longrightarrow>
     snd (AuthMiddleware U C km now r ns) = ns \<and> fst (AuthMiddleware U C km now r ns) \<noteq> None"
  using authenticateRequest_unsigned [of U C km now r "rq_Header r ''X-Auth-Version''" ns]
  by (auto simp: admitted_def AuthMiddleware_def Let_def authVersionV2_def authVersionV3_def split: option.splits)

text \<open>What a run of requests does to the nonce store is a run of \<open>Remember\<close> at some of their times.\<close>

lemma serve_all_remember:
  "\<exists>cs. serve_all U C ns evs = snd (remember_all Remember ns cs) \<and>
        snd ` set cs \<subseteq> (\<lambda>(km, now, r). now) ` set evs"
proof (induction U C ns evs rule: serve_all.induct)
  case (1 U C ns)
  show ?case by (rule exI [of _ "[]"]) simp
next
  case (2 U C ns km now r evs)
  then obtain cs where cs: "serve_all U C (snd (AuthMiddleware U C km now r ns)) evs =
      snd (remember_all Remember (snd (AuthMiddleware U C km now r ns)) cs)"
    "snd ` set cs \<subseteq> (\<lambda>(km, now, r). now) ` set evs" by blast
  show ?case
  proof (cases "admitted U C km now r")
    case True
    with cs show ?thesis
      by (intro exI [of _ "(nonce_key r, now) # cs"]) (auto simp: AuthMiddleware_admitted remember_all_Cons)
  next
    case False
    with cs show ?thesis by (intro exI [of _ cs]) (auto simp: AuthMiddleware_refused)
  qed
qed

subsection \<open>The signed text\<close>

lemma newline_not_visible: "visible c \<Longrightarrow> c \<noteq> CHR 0x0A"
  by (auto simp: visible_def byte_val_def)

lemma canonicalizeQuery_no_newline:
  assumes "canonicalizeQuery q = Inr c"
  shows "CHR 0x0A \<notin> set c"
proof -
  have "visible x" if "x \<in> set (write_pair kv)" for x kv
    using that query_escape_visible by (cases kv) (auto simp: write_pair_def visible_def byte_val_def)
  then have "visible x" if "x \<in> set (canonical_pairs kvs)" for x kvs
    using that set_strings_Join [of "map write_pair (sorted_pairs kvs)" "''&''"]
    by (auto simp: canonical_pairs_def visible_def byte_val_def)
  then show ?thesis
    using assms newline_not_visible by (auto simp: canonicalizeQuery_def split: if_splits option.splits)
qed

lemma canonicalDomain_no_newline: "canonicalDomain v = Inr d \<Longrightarrow> CHR 0x0A \<notin> set d"
  by (auto simp: canonicalDomain_def split: if_splits)

lemma canonicalDomain_inj: "canonicalDomain v = Inr d \<Longrightarrow> canonicalDomain v' = Inr d \<Longrightarrow> v = v'"
  by (auto simp: canonicalDomain_def split: if_splits)

text \<open>A request that the middleware accepts over the concrete primitives.\<close>

definition toy_bound :: "string key_manager" where
  "toy_bound = snd (SetAuthorizedUID 1000 toy_km)"

definition toy_text :: string where
  "toy_text = strings_Join [''KOKOROBOX-AUTH-V3'', ''0'', ''n'', replicate 64 CHR ''a'', ''GET'', ''/core'', [],
     replicate 64 CHR ''c''] [CHR 0x0A]"

definition toy_request :: request where
  "toy_request =
     \<lparr>rq_Header = (\<lambda>h. if h = ''X-Timestamp'' then ''0'' else if h = ''X-Key-Id'' then replicate 64 CHR ''a''
        else if h = ''X-Nonce'' then ''n'' else if h = ''X-Content-SHA256'' then replicate 64 CHR ''c''
        else if h = ''X-Auth-Version'' then ''3''
        else if h = ''X-Signature'' then query_escape (''A'' @ toy_text) else []),
      rq_Method = ''GET'', rq_EscapedPath = ''/core'', rq_RawQuery = [], rq_Body = Inr None,
      rq_principal = getRequestPrincipal_linux (Some 1000)\<rparr>"

lemma toy_bound_ok:
  "km_publicKeys toy_bound = km_publicKeys toy_km" "IsInitialized toy_bound" "HasAuthorizedPrincipal toy_bound"
  "VerifyRequestPrincipal toy_bound (rq_principal toy_request) = None"
  using validate_uid [of 1000]
  by (simp_all add: toy_bound_def SetAuthorizedUID_def setAuthorizedPrincipal_def toy_km_eq sameAuthorizedPrincipal_def
      write_file_def IsInitialized_def HasAuthorizedPrincipal_def VerifyRequestPrincipal_def toy_request_def
      getRequestPrincipal_linux_def del: validate_uid)

lemma toy_canonical:
  "buildCanonicalRequest ascii_only toy_request ''0'' ''n'' (replicate 64 CHR ''a'') (replicate 64 CHR ''c'') ''3'' = Inr toy_text"
  by (simp add: buildCanonicalRequest_def canonicalDomain_def authVersionV2_def authVersionV3_def toy_request_def
      canonicalizeQuery_def toy_text_def Let_def strings_ToUpper_def is_ascii_def ascii_upper_def byte_val_def)

lemma toy_lower: "strings_ToLower ascii_only (replicate 64 CHR ''c'') = replicate 64 CHR ''c''"
  by (simp add: strings_ToLower_def is_ascii_def ascii_lower_def byte_val_def list_all_iff)

lemma toy_admitted:
  assumes "\<bar>now\<bar> \<le> 30 * second"
  shows "admitted ascii_only toy_crypto toy_bound now toy_request"
proof -
  have "VerifySignature toy_crypto toy_bound (replicate 64 CHR ''a'') toy_text (query_escape (''A'' @ toy_text)) = None"
    by (simp add: VerifySignature_def toy_bound_ok toy_km_eq) (simp add: toy_crypto_def)
  moreover have "parse_int 64 ''0'' = Some 0"
    by (simp add: parse_int_def is_digit_def digits_val_def digit_val_def byte_val_def)
  moreover have "hashRequestBody toy_crypto toy_request = Inr (replicate 64 CHR ''c'')"
    by (simp add: hashRequestBody_def toy_request_def toy_crypto_def)
  ultimately have "signed_request ascii_only toy_crypto toy_bound now toy_request ''3''"
    using assms toy_canonical toy_lower
    by (simp add: signed_request_def UnixMilli_def) (simp add: toy_request_def)
  then show ?thesis using toy_bound_ok by (simp add: admitted_def) (simp add: toy_request_def)
qed

section \<open>Properties\<close>

text \<open>
  C9. The next handler runs exactly for authentic requests: the service is initialised and bound, the
  peer is the bound user, the version is 2 or 3, all headers are there, the timestamp is within
  30 seconds of the clock, the body has the announced digest, the signature of the canonical request
  verifies under the named key, and the key, timestamp and nonce have no live entry in the nonce store.
\<close>

theorem AuthMiddleware_served_iff:
  "fst (AuthMiddleware U C km now r ns) = None \<longleftrightarrow>
     IsInitialized km \<and> HasAuthorizedPrincipal km \<and> VerifyRequestPrincipal km (rq_principal r) = None \<and>
     rq_Header r ''X-Auth-Version'' \<in> {''2'', ''3''} \<and>
     rq_Header r ''X-Timestamp'' \<noteq> [] \<and> rq_Header r ''X-Key-Id'' \<noteq> [] \<and> rq_Header r ''X-Nonce'' \<noteq> [] \<and>
     strings_ToLower U (rq_Header r ''X-Content-SHA256'') \<noteq> [] \<and> rq_Header r ''X-Signature'' \<noteq> [] \<and>
     (\<exists>ts canonical.
        parse_int 64 (rq_Header r ''X-Timestamp'') = Some ts \<and> \<bar>now - UnixMilli ts\<bar> \<le> 30 * second \<and>
        hashRequestBody C r = Inr (strings_ToLower U (rq_Header r ''X-Content-SHA256'')) \<and>
        buildCanonicalRequest U r (rq_Header r ''X-Timestamp'') (rq_Header r ''X-Nonce'') (rq_Header r ''X-Key-Id'')
          (strings_ToLower U (rq_Header r ''X-Content-SHA256'')) (rq_Header r ''X-Auth-Version'') = Inr canonical \<and>
        VerifySignature C km (rq_Header r ''X-Key-Id'') canonical (rq_Header r ''X-Signature'') = None) \<and>
     \<not> (\<exists>e > now. ns_seen ns (rq_Header r ''X-Key-Id'' @ '':'' @ rq_Header r ''X-Timestamp'' @ '':'' @ rq_Header r ''X-Nonce'') = Some e)"
proof (cases "admitted U C km now r")
  case True
  then show ?thesis
    using nonces.rem_iff [of ns "nonce_key r" now]
    by (auto simp: AuthMiddleware_admitted admitted_def signed_request_def nonce_key_def not_less)
next
  case False
  with AuthMiddleware_refused [OF False, of ns] show ?thesis
    by (auto simp: admitted_def signed_request_def)
qed

text \<open>
  C13. The signed text determines the request: two requests with the same canonical text have the same
  version, timestamp, nonce, key id, method, path, canonical query and body digest, as soon as the
  fields that HTTP keeps free of line breaks are so.
\<close>

theorem buildCanonicalRequest_inj:
  assumes "buildCanonicalRequest U r ts nc kid h v = Inr c" and "buildCanonicalRequest U r' ts' nc' kid' h' v' = Inr c"
    and "\<forall>s \<in> {ts, nc, kid, h, strings_ToUpper U (rq_Method r), rq_EscapedPath r}. CHR 0x0A \<notin> set s"
    and "\<forall>s \<in> {ts', nc', kid', h', strings_ToUpper U (rq_Method r'), rq_EscapedPath r'}. CHR 0x0A \<notin> set s"
  shows "(v, ts, nc, kid, h) = (v', ts', nc', kid', h') \<and>
     strings_ToUpper U (rq_Method r) = strings_ToUpper U (rq_Method r') \<and>
     (if rq_EscapedPath r = [] then ''/'' else rq_EscapedPath r) = (if rq_EscapedPath r' = [] then ''/'' else rq_EscapedPath r') \<and>
     canonicalizeQuery (rq_RawQuery r) = canonicalizeQuery (rq_RawQuery r')"
proof -
  obtain d q where 1: "canonicalDomain v = Inr d" "canonicalizeQuery (rq_RawQuery r) = Inr q"
      "c = strings_Join [d, ts, nc, kid, strings_ToUpper U (rq_Method r),
         if rq_EscapedPath r = [] then ''/'' else rq_EscapedPath r, q, h] [CHR 0x0A]"
    using assms(1) by (auto simp: buildCanonicalRequest_def Let_def split: sum.splits)
  obtain d' q' where 2: "canonicalDomain v' = Inr d'" "canonicalizeQuery (rq_RawQuery r') = Inr q'"
      "c = strings_Join [d', ts', nc', kid', strings_ToUpper U (rq_Method r'),
         if rq_EscapedPath r' = [] then ''/'' else rq_EscapedPath r', q', h'] [CHR 0x0A]"
    using assms(2) by (auto simp: buildCanonicalRequest_def Let_def split: sum.splits)
  note free = canonicalDomain_no_newline [OF 1(1)] canonicalDomain_no_newline [OF 2(1)]
    canonicalizeQuery_no_newline [OF 1(2)] canonicalizeQuery_no_newline [OF 2(2)]
  have "[d, ts, nc, kid, strings_ToUpper U (rq_Method r), if rq_EscapedPath r = [] then ''/'' else rq_EscapedPath r, q, h] =
    [d', ts', nc', kid', strings_ToUpper U (rq_Method r'), if rq_EscapedPath r' = [] then ''/'' else rq_EscapedPath r', q', h']"
    by (rule strings_Join_inj [OF trans [OF 1(3) [symmetric] 2(3)]]) (use assms(3,4) free in auto)
  with 1 2 canonicalDomain_inj [OF 1(1), of v'] show ?thesis by simp
qed

theorem buildCanonicalRequest_inj_witness:
  "strings_ToUpper ascii_only (rq_Method toy_request) = strings_ToUpper ascii_only (rq_Method (toy_request\<lparr>rq_Method := ''get''\<rparr>)) \<and>
   canonicalizeQuery (rq_RawQuery toy_request) = canonicalizeQuery (rq_RawQuery (toy_request\<lparr>rq_Method := ''get''\<rparr>))"
proof -
  have up: "strings_ToUpper ascii_only ''GET'' = ''GET''" "strings_ToUpper ascii_only ''get'' = ''GET''" by code_simp+
  let ?r = "toy_request\<lparr>rq_Method := ''get''\<rparr>"
  have free: "\<forall>s \<in> {''0'', ''n'', replicate 64 CHR ''a'', replicate 64 CHR ''c'',
      strings_ToUpper ascii_only (rq_Method r), rq_EscapedPath r}. CHR 0x0A \<notin> set s"
    if "r = toy_request \<or> r = ?r" for r
    using that by (auto simp: toy_request_def up)
  have same: "buildCanonicalRequest ascii_only ?r ''0'' ''n'' (replicate 64 CHR ''a'') (replicate 64 CHR ''c'') ''3'' = Inr toy_text"
    by (simp add: buildCanonicalRequest_def canonicalDomain_def authVersionV2_def authVersionV3_def toy_request_def
        canonicalizeQuery_def toy_text_def Let_def up)
  show ?thesis using buildCanonicalRequest_inj [OF toy_canonical same free free] by simp
qed

text \<open>
  Without a valid signature nothing is remembered: a request that is refused before its nonce is
  looked at leaves the nonce store as it was, so only holders of a key can make it grow; the only
  refusal after that point is the answer 409.
\<close>

theorem refused_keeps_nonces:
  assumes "fst (AuthMiddleware U C km now r ns) = Some e" and "e \<noteq> HTTPError 409 ''Request has already been replayed''"
  shows "snd (AuthMiddleware U C km now r ns) = ns"
  using assms AuthMiddleware_admitted [of U C km now r ns] AuthMiddleware_refused [of U C km now r ns]
  by (cases "admitted U C km now r") (auto split: if_splits)

theorem refused_keeps_nonces_witness:
  "snd (AuthMiddleware ascii_only toy_crypto toy_km 0 toy_request requestNonceStore) = requestNonceStore"
  by (rule refused_keeps_nonces [where e = "HTTPError 503 ''Service is not initialized''"])
    (simp_all add: AuthMiddleware_def toy_km_eq HasAuthorizedPrincipal_def)

text \<open>
  C10. A request is not served twice: once a request was served, every later request with the same key
  id, timestamp and nonce is refused, whatever was served in between and whatever keys were rotated,
  except in the single instant in which both are exactly 30 seconds away from the timestamp, the first
  before it and the second after it.
\<close>

theorem replay_refused:
  assumes "ns_ttl ns = ns_ttl requestNonceStore"
    and "fst (AuthMiddleware U C km now r ns) = None"
    and "\<forall>(km', t, r') \<in> set evs. t \<le> now'"
    and "nonce_key r' = nonce_key r" and "rq_Header r' ''X-Timestamp'' = rq_Header r ''X-Timestamp''"
    and "parse_int 64 (rq_Header r ''X-Timestamp'') = Some ts"
    and "\<not> (now = UnixMilli ts - 30 * second \<and> now' = UnixMilli ts + 30 * second)"
  shows "fst (AuthMiddleware U C km' now' r' (serve_all U C (snd (AuthMiddleware U C km now r ns)) evs)) \<noteq> None"
proof (cases "admitted U C km' now' r'")
  case True
  have adm: "admitted U C km now r" using assms(2) AuthMiddleware_refused by blast
  have near: "\<bar>now - UnixMilli ts\<bar> \<le> 30 * second" "\<bar>now' - UnixMilli ts\<bar> \<le> 30 * second"
    using adm True assms(5,6) by (auto simp: admitted_def signed_request_def)
  have ttl: "ns_ttl ns = 60 * second"
    using assms(1) by (simp add: requestNonceStore_def newNonceStore_def maxTimestampDriftV2_def)
  have soon: "now' < now + ns_ttl ns" using near assms(7) ttl by auto
  have rem: "fst (Remember ns (nonce_key r) now)"
    using assms(2) by (auto simp: AuthMiddleware_admitted [OF adm] split: if_splits)
  obtain cs where cs: "serve_all U C (snd (Remember ns (nonce_key r) now)) evs =
      snd (remember_all Remember (snd (Remember ns (nonce_key r) now)) cs)"
      "snd ` set cs \<subseteq> (\<lambda>(km, now, r). now) ` set evs"
    using serve_all_remember by blast
  have "\<forall>(k', t') \<in> set cs. t' < now + ns_ttl ns"
  proof safe
    fix k' t' assume "(k', t') \<in> set cs"
    then have "t' \<in> (\<lambda>(km, now, r). now) ` set evs" using cs(2) by force
    then show "t' < now + ns_ttl ns" using assms(3) soon by auto
  qed
  from nonces.no_replay [OF rem this soon] show ?thesis
    by (simp add: AuthMiddleware_admitted [OF adm] AuthMiddleware_admitted [OF True] cs assms(4))
qed (use AuthMiddleware_refused in blast)

theorem replay_refused_witness:
  "fst (AuthMiddleware ascii_only toy_crypto toy_bound 0 toy_request requestNonceStore) = None \<and>
   fst (AuthMiddleware ascii_only toy_crypto toy_bound 5 toy_request
     (serve_all ascii_only toy_crypto (snd (AuthMiddleware ascii_only toy_crypto toy_bound 0 toy_request requestNonceStore))
        [(toy_km, 3, toy_request)])) \<noteq> None"
proof -
  have adm: "admitted ascii_only toy_crypto toy_bound 0 toy_request"
    by (rule toy_admitted) (simp add: second_def)
  have served: "fst (AuthMiddleware ascii_only toy_crypto toy_bound 0 toy_request requestNonceStore) = None"
    by (simp add: AuthMiddleware_admitted [OF adm] nonces.rem_iff) (simp add: requestNonceStore_def newNonceStore_def)
  have ts: "parse_int 64 (rq_Header toy_request ''X-Timestamp'') = Some 0"
    by (simp add: toy_request_def parse_int_def is_digit_def digits_val_def digit_val_def byte_val_def)
  show ?thesis
    using replay_refused [OF refl served, of "[(toy_km, 3, toy_request)]" 5 toy_request 0 toy_bound] served ts
    by (simp add: second_def UnixMilli_def)
qed

text \<open>The instant that \<open>replay_refused\<close> leaves out is real: there the same request is served twice.\<close>

lemma replay_at_boundary:
  "let ns1 = snd (AuthMiddleware ascii_only toy_crypto toy_bound (- 30 * second) toy_request requestNonceStore)
   in fst (AuthMiddleware ascii_only toy_crypto toy_bound (- 30 * second) toy_request requestNonceStore) = None \<and>
      fst (AuthMiddleware ascii_only toy_crypto toy_bound (30 * second) toy_request ns1) = None"
proof -
  have adm: "admitted ascii_only toy_crypto toy_bound (- 30 * second) toy_request"
      "admitted ascii_only toy_crypto toy_bound (30 * second) toy_request"
    by (rule toy_admitted, simp add: second_def)+
  have first: "fst (Remember requestNonceStore (nonce_key toy_request) (- 30 * second))"
    by (simp add: nonces.rem_iff requestNonceStore_def newNonceStore_def)
  have "ns_seen (snd (Remember requestNonceStore (nonce_key toy_request) (- 30 * second))) (nonce_key toy_request) =
      Some (30 * second)"
    using nonces.rem_blocks [OF first] by (simp add: requestNonceStore_def newNonceStore_def maxTimestampDriftV2_def)
  with first show ?thesis
    unfolding Let_def AuthMiddleware_admitted [OF adm(1)] AuthMiddleware_admitted [OF adm(2)]
    by (simp add: nonces.rem_iff)
qed

end
