(* ===== verification/Sys_Dns.thy ===== *)
theory Sys_Dns
  imports Kokoro_Prelude
begin

text \<open>
  The DNS settings of macOS (\<open>sys/dns.go\<close>): which network service is active, what its DNS servers are
  and how they are set, read off the output of \<open>scutil\<close> and \<open>networksetup\<close>. The commands themselves
  are parameters: \<open>scutil key\<close> is what \<open>show key\<close> prints, or nothing when the command fails.
  \<open>net.ParseIP\<close> is written out.
\<close>

section \<open>Definitions\<close>

subsection \<open>Internet addresses (\<open>net.ParseIP\<close>)\<close>

definition octet :: "string \<Rightarrow> bool" where
  "octet s = (s \<noteq> [] \<and> list_all is_digit s \<and> (length s > 1 \<longrightarrow> hd s \<noteq> CHR ''0'') \<and> digits_val s \<le> 255)"

definition valid_ipv4 :: "string \<Rightarrow> bool" where
  "valid_ipv4 s = (let ps = split_at (CHR ''.'') s in length ps = 4 \<and> list_all octet ps)"

definition is_hex :: "char \<Rightarrow> bool" where
  "is_hex c = (is_digit c \<or> 97 \<le> byte_val c \<and> byte_val c \<le> 102 \<or> 65 \<le> byte_val c \<and> byte_val c \<le> 70)"

text \<open>
  The loop over the 16-bit fields: \<open>i\<close> bytes are filled, \<open>ell\<close> says whether \<open>::\<close> was seen. The result is
  the number of bytes filled, whether \<open>::\<close> was seen, and what is left of the string.
\<close>

function ipv6_loop :: "nat \<Rightarrow> bool \<Rightarrow> string \<Rightarrow> (nat \<times> bool \<times> string) option" where
  "ipv6_loop i ell s =
     (if i \<ge> 16 then Some (i, ell, s)
      else
        let h = takeWhile is_hex s; r = dropWhile is_hex s in
        if h = [] \<or> length h > 4 then None
        else if r \<noteq> [] \<and> hd r = CHR ''.'' then
          (if \<not> ell \<and> i \<noteq> 12 \<or> i + 4 > 16 \<or> \<not> valid_ipv4 s then None else Some (i + 4, ell, []))
        else if r = [] then Some (i + 2, ell, [])
        else if hd r \<noteq> CHR '':'' \<or> length r = 1 then None
        else if hd (tl r) = CHR '':'' then
          (if ell then None
           else if tl (tl r) = [] then Some (i + 2, True, [])
           else ipv6_loop (i + 2) True (tl (tl r)))
        else ipv6_loop (i + 2) ell (tl r))"
  by pat_completeness auto
termination by (relation "measure (\<lambda>(i, ell, s). 16 - i)") auto

declare ipv6_loop.simps [simp del]

definition valid_ipv6 :: "string \<Rightarrow> bool" where
  "valid_ipv6 s =
     (let ell = has_prefix s ''::''; r = (if ell then drop 2 s else s) in
      if ell \<and> r = [] then True
      else (case ipv6_loop 0 ell r of
          None \<Rightarrow> False
        | Some (i, e, rest) \<Rightarrow> rest = [] \<and> (if i < 16 then e else \<not> e)))"

text \<open>The first dot, colon or percent sign decides; an address with a zone is not accepted.\<close>

definition ParseIP :: "string \<Rightarrow> bool" where
  "ParseIP s =
     (case find (\<lambda>c. c \<in> {CHR ''.'', CHR '':'', CHR ''%''}) s of
        None \<Rightarrow> False
      | Some c \<Rightarrow>
          if c = CHR ''.'' then valid_ipv4 s
          else if c = CHR '':'' then CHR ''%'' \<notin> set s \<and> valid_ipv6 s
          else False)"

subsection \<open>The active network service\<close>

record dns_service =
  ds_ID :: string
  ds_Name :: string

fun scutil_lines :: "string \<Rightarrow> string list \<Rightarrow> string" where
  "scutil_lines key [] = []"
| "scutil_lines key (l # ls) =
     (case strings_Cut (trim_space l) (CHR '':'') of
        (name, val, ok) \<Rightarrow> if ok \<and> trim_space name = key then trim_space val else scutil_lines key ls)"

definition newline :: char where "newline = CHR 0x0A"

definition scutilValue :: "string \<Rightarrow> string \<Rightarrow> string" where
  "scutilValue output key = scutil_lines key (split_at newline output)"

definition global_keys :: "string list" where
  "global_keys = [''State:/Network/Global/IPv4'', ''State:/Network/Global/IPv6'']"

definition id_chars :: string where "id_chars = ''0123456789abcdefABCDEF-''"

fun active_loop :: "(string \<Rightarrow> string option) \<Rightarrow> string list \<Rightarrow> dns_service res" where
  "active_loop scutil [] = Inl (Plain ''no active network service'')"
| "active_loop scutil (key # keys) =
     (case scutil key of
        None \<Rightarrow> Inl SysErr
      | Some state \<Rightarrow>
          let i = scutilValue state ''PrimaryService'' in
          if i = [] then active_loop scutil keys
          else if \<not> list_all (\<lambda>c. c \<in> set id_chars) i then Inl (Plain ''invalid active network service identifier'')
          else (case scutil (''Setup:/Network/Service/'' @ i) of
              None \<Rightarrow> Inl SysErr
            | Some setup \<Rightarrow>
                let name = scutilValue setup ''UserDefinedName'' in
                if name = [] then Inl (Plain ''active network service has no name'')
                else Inr \<lparr>ds_ID = i, ds_Name = name\<rparr>))"

definition ActiveDNSService :: "string \<Rightarrow> (string \<Rightarrow> string option) \<Rightarrow> dns_service res" where
  "ActiveDNSService goos scutil =
     (if goos \<noteq> ''darwin'' then Inl (Plainf ''DNS service discovery is unsupported'' [goos])
      else active_loop scutil global_keys)"

text \<open>\<open>airport iface\<close> is what \<open>networksetup -getairportnetwork\<close> prints.\<close>

fun find_global :: "(string \<Rightarrow> string option) \<Rightarrow> string \<Rightarrow> string list \<Rightarrow> string res" where
  "find_global scutil i [] = Inr []"
| "find_global scutil i (key # keys) =
     (case scutil key of
        None \<Rightarrow> Inl SysErr
      | Some state \<Rightarrow> if scutilValue state ''PrimaryService'' = i then Inr state else find_global scutil i keys)"

definition ActiveNetworkSignature ::
  "string \<Rightarrow> (string \<Rightarrow> string option) \<Rightarrow> (string \<Rightarrow> string option) \<Rightarrow> string res" where
  "ActiveNetworkSignature goos scutil airport =
     (case ActiveDNSService goos scutil of
        Inl e \<Rightarrow> Inl e
      | Inr service \<Rightarrow>
          (case find_global scutil (ds_ID service) global_keys of
             Inl e \<Rightarrow> Inl e
           | Inr global \<Rightarrow>
               if global = [] then Inl (Plain ''active network service has no global state'')
               else
                 let iface = scutilValue global ''PrimaryInterface'';
                     parts = [ds_ID service, iface, scutilValue global ''Router''];
                     more = (if iface \<noteq> [] \<and> \<not> has_prefix iface ''-'' \<and>
                                \<not> contains_any iface [CHR 0x00, CHR 0x0D, CHR 0x0A, CHR ''/'']
                             then (case scutil (''State:/Network/Interface/'' @ iface @ ''/IPv4'') of
                                     None \<Rightarrow> [] | Some state \<Rightarrow> [state]) @
                                  (case airport iface of None \<Rightarrow> [] | Some network \<Rightarrow> [trim_space network])
                             else [])
                 in Inr (strings_Join (parts @ more) [CHR 0x00])))"

subsection \<open>Reading and setting the servers\<close>

text \<open>A Go slice that may be nil: \<open>reflect.DeepEqual\<close> tells nil from an empty slice.\<close>

type_synonym slice = "string list option"

definition no_servers_message :: string where
  "no_servers_message = ''There aren'' @ [CHR 0x27] @ ''t any DNS Servers set on''"

fun parse_lines :: "string list \<Rightarrow> string list \<Rightarrow> slice res" where
  "parse_lines servers [] = Inr (Some servers)"
| "parse_lines servers (l # ls) =
     (let v = trim_space l in
      if v = [] then parse_lines servers ls
      else if \<not> ParseIP v then
        (if servers = [] \<and> has_prefix v no_servers_message then Inr None
         else Inl (Plainf ''unrecognized networksetup DNS output'' [v]))
      else parse_lines (servers @ [v]) ls)"

definition parseDNSOutput :: "string \<Rightarrow> slice res" where
  "parseDNSOutput output = parse_lines [] (split_at newline (trim_space output))"

definition validateDNSServiceName :: "string \<Rightarrow> err option" where
  "validateDNSServiceName device =
     (if device = [] \<or> has_prefix device ''-'' \<or> contains_any device [CHR 0x00, CHR 0x0D, CHR 0x0A]
      then Some (Plain ''invalid network service name'') else None)"

text \<open>\<open>networksetup device\<close> is what \<open>networksetup -getdnsservers device\<close> prints.\<close>

definition GetDns :: "string \<Rightarrow> (string \<Rightarrow> string option) \<Rightarrow> string \<Rightarrow> slice res" where
  "GetDns goos networksetup device =
     (if goos \<noteq> ''darwin'' then Inl (Plainf ''DNS query is unsupported'' [goos])
      else (case validateDNSServiceName device of
          Some e \<Rightarrow> Inl e
        | None \<Rightarrow> (case networksetup device of None \<Rightarrow> Inl SysErr | Some output \<Rightarrow> parseDNSOutput output)))"

text \<open>
  \<open>SetDns\<close> runs two commands; \<open>run\<close> says which argument lists succeed. The result lists the commands
  that were run.
\<close>

definition SetDns :: "string \<Rightarrow> (string list \<Rightarrow> bool) \<Rightarrow> string \<Rightarrow> string list \<Rightarrow> err option \<times> string list list" where
  "SetDns goos run device servers =
     (if goos \<noteq> ''darwin'' then (Some (Plainf ''DNS mutation is unsupported'' [goos]), [])
      else (case validateDNSServiceName device of
          Some e \<Rightarrow> (Some e, [])
        | None \<Rightarrow>
            (case find (\<lambda>s. \<not> ParseIP s) servers of
               Some s \<Rightarrow> (Some (Plainf ''invalid DNS server address'' [s]), [])
             | None \<Rightarrow>
                 let set_cmd = [''networksetup'', ''-setdnsservers'', device] @ (if servers = [] then [''Empty''] else servers);
                     flush_cmd = [''dscacheutil'', ''-flushcache'']
                 in if \<not> run set_cmd then (Some (Wrapped ''set DNS'' SysErr), [set_cmd])
                    else if \<not> run flush_cmd then (Some (Wrapped ''flush DNS cache'' SysErr), [set_cmd, flush_cmd])
                    else (None, [set_cmd, flush_cmd]))))"

section \<open>Lemmas\<close>

lemma octet_chars: "octet s \<Longrightarrow> list_all visible s"
  by (auto simp: octet_def list_all_iff digit_visible)

lemma split_at_chars: "x \<in> set s \<Longrightarrow> x = c \<or> (\<exists>p \<in> set (split_at c s). x \<in> set p)"
proof (induction s)
  case (Cons y s)
  then show ?case by (cases "split_at c s") auto
qed simp

lemma valid_ipv4_chars: "valid_ipv4 s \<Longrightarrow> list_all (\<lambda>c. is_digit c \<or> c = CHR ''.'') s"
  using split_at_chars [of _ s "CHR ''.''"]
  by (fastforce simp: valid_ipv4_def Let_def list_all_iff octet_def)

definition ip_char :: "char \<Rightarrow> bool" where
  "ip_char c = (is_hex c \<or> c = CHR ''.'' \<or> c = CHR '':'')"

lemma ip_char_visible: "ip_char c \<Longrightarrow> visible c"
  by (auto simp: ip_char_def is_hex_def visible_def is_digit_def byte_val_def)

lemma ipv6_loop_chars: "ipv6_loop i ell s = Some (j, e, []) \<Longrightarrow> list_all ip_char s"
proof (induction i ell s rule: ipv6_loop.induct)
  case (1 i ell s)
  let ?h = "takeWhile is_hex s" and ?r = "dropWhile is_hex s"
  have h: "list_all ip_char ?h" by (auto simp: list_all_iff ip_char_def dest: set_takeWhileD)
  have s: "s = ?h @ ?r" by simp
  show ?case
  proof (cases "i \<ge> 16 \<or> ?h = [] \<or> length ?h > 4")
    case True
    then show ?thesis using "1.prems" by (auto simp: ipv6_loop.simps [of i] Let_def split: if_splits)
  next
    case False
    show ?thesis
    proof (cases "?r")
      case Nil
      then have "?h = s" using s by (metis append_Nil2)
      then show ?thesis using h by metis
    next
      case (Cons c r)
      show ?thesis
      proof (cases "c = CHR ''.''")
        case True
        then have "valid_ipv4 s" using "1.prems" False Cons by (auto simp: ipv6_loop.simps [of i] Let_def split: if_splits)
        then show ?thesis using valid_ipv4_chars by (auto simp: list_all_iff ip_char_def is_hex_def)
      next
        case dot: False
        then have c: "c = CHR '':''" "r \<noteq> []"
          using "1.prems" False Cons by (auto simp: ipv6_loop.simps [of i] Let_def split: if_splits)
        have "list_all ip_char r"
        proof (cases "hd r = CHR '':''")
          case True
          then obtain r' where r: "r = CHR '':'' # r'" using c by (cases r) auto
          have "list_all ip_char r'"
            using "1.IH"(1) [OF _ refl refl] "1.prems" False Cons c r
            by (cases r') (auto simp: ipv6_loop.simps [of i] Let_def split: if_splits)
          then show ?thesis using r by (simp add: ip_char_def)
        next
          case hd: False
          then show ?thesis
            using "1.IH"(2) [OF _ refl refl] "1.prems" False Cons c
            by (auto simp: ipv6_loop.simps [of i] Let_def split: if_splits)
        qed
        then show ?thesis using h s c Cons by (metis ip_char_def list.pred_inject(2) list_all_append)
      qed
    qed
  qed
qed

lemma valid_ipv6_chars: "valid_ipv6 s \<Longrightarrow> list_all ip_char s"
proof (cases "has_prefix s ''::''")
  case True
  assume v: "valid_ipv6 s"
  have s: "s = ''::'' @ drop 2 s" using True by (metis append_take_drop_id has_prefix_def length_Cons list.size(3) numeral_2_eq_2)
  have "list_all ip_char (drop 2 s)"
    using v True ipv6_loop_chars [of 0 True "drop 2 s"]
    by (auto simp: valid_ipv6_def Let_def split: if_splits option.splits)
  then show ?thesis by (subst s) (simp add: ip_char_def)
next
  case False
  assume "valid_ipv6 s"
  then show ?thesis
    using False ipv6_loop_chars [of 0 False s] by (auto simp: valid_ipv6_def Let_def split: if_splits option.splits)
qed

lemma ParseIP_chars:
  assumes "ParseIP s"
  shows "s \<noteq> [] \<and> list_all visible s"
proof -
  have "s \<noteq> []" and "valid_ipv4 s \<or> valid_ipv6 s"
    using assms by (auto simp: ParseIP_def split: option.splits if_splits)
  then have "list_all ip_char s"
    using valid_ipv4_chars [of s] valid_ipv6_chars [of s] by (auto simp: list_all_iff ip_char_def is_hex_def)
  then show ?thesis using \<open>s \<noteq> []\<close> ip_char_visible by (auto simp: list_all_iff)
qed

text \<open>What \<open>parseDNSOutput\<close> returns.\<close>

lemma parse_lines_valid: "parse_lines ss ls = Inr (Some out) \<Longrightarrow> list_all ParseIP ss \<Longrightarrow> list_all ParseIP out"
  by (induction ss ls rule: parse_lines.induct) (auto simp: Let_def split: if_splits)

lemma parse_lines_servers: "list_all ParseIP xs \<Longrightarrow> parse_lines ss xs = Inr (Some (ss @ xs))"
proof (induction xs arbitrary: ss)
  case (Cons x xs)
  then have "trim_space x = x" "x \<noteq> []" using ParseIP_chars trim_space_visible by auto
  then show ?case using Cons by simp
qed simp

lemma strip_hd:
  assumes "\<forall>e \<in> set encs. \<not> visible (hd e)" and "s \<noteq> []" and "visible (hd s)"
  shows "strip encs s = s"
proof -
  have "take (length e) s \<noteq> e" if e: "e \<in> set encs" "e \<noteq> []" for e
  proof
    assume t: "take (length e) s = e"
    have "hd (take (length e) s) = hd s" using e by simp
    then have "hd e = hd s" using t by simp
    then show False using e assms by metis
  qed
  then have "find (\<lambda>e. e \<noteq> [] \<and> take (length e) s = e) encs = None" by (auto simp: find_None_iff)
  then show ?thesis by (simp add: strip.simps [of encs s])
qed

lemma space_rune_ends: "\<forall>e \<in> set space_runes. \<not> visible (hd e)" "\<forall>e \<in> set (map rev space_runes). \<not> visible (hd e)"
  by (auto simp: space_runes_def visible_def byte_val_def)

lemma space_runes_start: "space_runes = [CHR 0x09] # [newline] # drop 2 space_runes"
  by (simp add: space_runes_def newline_def char_of_def bit_0)

lemma strip_newline: "strip (map rev space_runes) (newline # s) = strip (map rev space_runes) s"
proof -
  have "find (\<lambda>e. e \<noteq> [] \<and> take (length e) (newline # s) = e) (map rev space_runes) = Some [newline]"
    by (subst space_runes_start) (simp add: newline_def)
  then show ?thesis by (simp add: strip.simps [of _ "newline # s"])
qed

lemma trim_space_line:
  assumes "s \<noteq> []" and "visible (hd s)" and "visible (last s)"
  shows "trim_space (s @ [newline]) = s"
proof -
  have "strip space_runes (s @ [newline]) = s @ [newline]"
    using assms by (intro strip_hd) (auto simp: space_rune_ends)
  moreover have "strip (map rev space_runes) (rev s) = rev s"
    using assms by (intro strip_hd) (use space_rune_ends(2) in \<open>auto simp: hd_rev\<close>)
  ultimately show ?thesis by (simp add: trim_space_def strip_newline)
qed

lemma strings_Join_hd_last:
  "ss \<noteq> [] \<Longrightarrow> \<forall>s \<in> set ss. s \<noteq> [] \<Longrightarrow>
     strings_Join ss [c] \<noteq> [] \<and> hd (strings_Join ss [c]) = hd (hd ss) \<and> last (strings_Join ss [c]) = last (last ss)"
  by (induction ss rule: induct_list012) auto

section \<open>Properties\<close>

text \<open>
  The listing of \<open>networksetup\<close> is read back exactly: one server to a line gives the list of
  the servers, and whatever the listing says, only internet addresses come out of it.
\<close>

theorem parseDNSOutput_listing:
  assumes "servers \<noteq> []" and "list_all ParseIP servers"
  shows "parseDNSOutput (strings_Join servers [newline] @ [newline]) = Inr (Some servers) \<and>
     (\<forall>output out. parseDNSOutput output = Inr (Some out) \<longrightarrow> list_all ParseIP out)"
proof -
  have v: "\<forall>s \<in> set servers. s \<noteq> [] \<and> list_all visible s" using assms(2) ParseIP_chars by (auto simp: list_all_iff)
  have hl: "visible (hd (hd servers))" "visible (last (last servers))"
    using v assms(1) by (metis hd_in_set last_in_set list_all_iff)+
  have "trim_space (strings_Join servers [newline] @ [newline]) = strings_Join servers [newline]"
    using strings_Join_hd_last [of servers newline] assms(1) v hl by (intro trim_space_line) auto
  moreover have "\<not> visible newline" by (simp add: visible_def newline_def byte_val_def)
  then have "\<forall>s \<in> set servers. newline \<notin> set s" using v by (auto simp: list_all_iff)
  ultimately show ?thesis
    using assms parse_lines_servers [of servers "[]"] parse_lines_valid [of "[]"]
    by (auto simp: parseDNSOutput_def split_at_Join)
qed

theorem parseDNSOutput_listing_witness:
  "parseDNSOutput (''8.8.8.8'' @ [newline] @ ''fe80::1'' @ [newline]) = Inr (Some [''8.8.8.8'', ''fe80::1''])"
proof -
  have "ParseIP ''8.8.8.8''"
    by (simp add: ParseIP_def valid_ipv4_def octet_def is_digit_def byte_val_def digits_val_def digit_val_def)
  moreover have "ParseIP ''fe80::1''"
    by (simp add: ParseIP_def valid_ipv6_def ipv6_loop.simps has_prefix_def is_hex_def is_digit_def byte_val_def)
  ultimately show ?thesis
    using parseDNSOutput_listing [of "[''8.8.8.8'', ''fe80::1'']"] by simp
qed

end
