(* ===== verification/Client_Lease.thy ===== *)
theory Client_Lease
  imports Kokoro_Prelude
begin

text \<open>
  The contract of a lease that a client holds on a system setting: the service changes the setting for
  the client, the client renews within the duration of the lease, and a timer gives the setting back
  once the client is gone. The DNS lease and the system proxy lease are instances.
\<close>

datatype lease_event = Renewal int | Timer int

fun run_lease :: "(int \<Rightarrow> 's \<Rightarrow> 's) \<Rightarrow> (int \<Rightarrow> 's \<Rightarrow> 's) \<Rightarrow> lease_event list \<Rightarrow> 's \<Rightarrow> 's" where
  "run_lease renew expire [] s = s"
| "run_lease renew expire (Renewal now # evs) s = run_lease renew expire evs (renew now s)"
| "run_lease renew expire (Timer now # evs) s = run_lease renew expire evs (expire now s)"

text \<open>Every event comes before the deadline that the renewals so far have set.\<close>

fun prompt :: "int \<Rightarrow> int \<Rightarrow> lease_event list \<Rightarrow> bool" where
  "prompt duration deadline [] = True"
| "prompt duration deadline (Renewal now # evs) = (now < deadline \<and> prompt duration (now + duration) evs)"
| "prompt duration deadline (Timer now # evs) = (now < deadline \<and> prompt duration deadline evs)"

text \<open>
  \<open>good\<close> is a condition on the outside world (the setting can be read and changed) under which an
  expired lease is given up at once.
\<close>

locale client_lease =
  fixes held :: "'s \<Rightarrow> bool"
    and deadline :: "'s \<Rightarrow> int"
    and renew_at :: "int \<Rightarrow> 's \<Rightarrow> 's"
    and expire_at :: "int \<Rightarrow> 's \<Rightarrow> 's"
    and duration :: int
    and good :: "'s \<Rightarrow> bool"
  assumes renew_held: "held s \<Longrightarrow> held (renew_at now s) \<and> deadline (renew_at now s) = now + duration"
    and renew_lost: "\<not> held s \<Longrightarrow> \<not> held (renew_at now s)"
    and renew_good: "good s \<Longrightarrow> good (renew_at now s)"
    and expire_early: "held s \<Longrightarrow> now < deadline s \<Longrightarrow> held (expire_at now s) \<and> deadline (expire_at now s) = deadline s"
    and expire_late: "held s \<Longrightarrow> deadline s \<le> now \<Longrightarrow> good s \<Longrightarrow> \<not> held (expire_at now s)"
    and expire_lost: "\<not> held s \<Longrightarrow> \<not> held (expire_at now s)"
    and expire_good: "good s \<Longrightarrow> good (expire_at now s)"
begin

lemma prompt_keeps: "held s \<Longrightarrow> prompt duration (deadline s) evs \<Longrightarrow> held (run_lease renew_at expire_at evs s)"
proof (induction evs arbitrary: s)
  case (Cons ev evs)
  then show ?case
    by (cases ev) (auto simp: renew_held expire_early)
qed simp

lemma lost_stays: "\<not> held s \<Longrightarrow> \<not> held (run_lease renew_at expire_at evs s)"
proof (induction evs arbitrary: s)
  case (Cons ev evs)
  then show ?case by (cases ev) (auto simp: renew_lost expire_lost)
qed simp

lemma good_stays: "good s \<Longrightarrow> good (run_lease renew_at expire_at evs s)"
proof (induction evs arbitrary: s)
  case (Cons ev evs)
  then show ?case by (cases ev) (auto simp: renew_good expire_good)
qed simp

lemma run_append: "run_lease renew_at expire_at (xs @ ys) s = run_lease renew_at expire_at ys (run_lease renew_at expire_at xs s)"
proof (induction xs arbitrary: s)
  case (Cons ev evs)
  then show ?case by (cases ev) auto
qed simp

lemma abandoned_released:
  assumes "good s" and "held s \<Longrightarrow> deadline s \<le> now" and "good s"
  shows "\<not> held (run_lease renew_at expire_at (Timer now # evs) s)"
proof -
  have "\<not> held (expire_at now s)" using assms expire_late expire_lost by blast
  then show ?thesis using lost_stays by simp
qed

end

end
