(* ===== verification/Dns_Lease.thy ===== *)
theory Dns_Lease
  imports Sys_Dns Client_Lease
begin

text \<open>
  The DNS lease (\<open>route/dnsapi/lease.go\<close>, \<open>http.go\<close>): while a client holds the lease its servers are
  set on the active network service, a record on disk says what to restore, and the servers go back
  when the client lets go, disappears, or the service starts again after a crash. The mutex makes
  operations atomic, so they are functions on the record \<open>dns_manager\<close>; \<open>now\<close> is the clock of a call.
  The backend is the interface of the source: which service is active and which servers each service
  has (\<open>dm_active\<close>, \<open>dm_dns\<close>), with calls that fail as the script \<open>dm_io\<close> says.
\<close>

section \<open>Definitions\<close>

definition leaseDuration :: int where "leaseDuration = 60 * second"
definition retryInterval :: int where "retryInterval = 15 * second"
definition maxRecordSize :: nat where "maxRecordSize = 16 * 2 ^ 10"

record dns_entry =
  de_Service :: dns_service
  de_Original :: slice
  de_Desired :: slice
  de_Applied :: bool

record dns_lease =
  dl_Version :: int
  dl_Deadline :: int
  dl_Entries :: "dns_entry list"

text \<open>
  \<open>dm_timer\<close> is the time at which the pending timer fires, \<open>dm_watch\<close> says whether the network watcher
  runs. \<open>dm_owed\<close> is no state of the program: it records for each network service the servers that the
  lease has replaced and not yet put back, and is forgotten when somebody else changes the servers.
\<close>

record dns_manager =
  dm_configured :: bool
  dm_lease :: "dns_lease option"
  dm_timer :: "int option"
  dm_watch :: bool
  dm_disk :: "dns_lease store"
  dm_active :: dns_service
  dm_dns :: "string \<Rightarrow> slice"
  dm_owed :: "string \<Rightarrow> slice option"
  dm_io :: "io list"

definition index_panic :: err where "index_panic = Plain ''runtime error: index out of range''"

subsection \<open>The backend\<close>

definition dm_call :: "dns_manager \<Rightarrow> io \<times> dns_manager" where
  "dm_call m = (case next_io (dm_io m) of (r, ios) \<Rightarrow> (r, m\<lparr>dm_io := ios\<rparr>))"

definition backend_Active :: "dns_manager \<Rightarrow> dns_service res \<times> dns_manager" where
  "backend_Active m = (case dm_call m of (r, m') \<Rightarrow> (if r = Done then Inr (dm_active m') else Inl SysErr, m'))"

definition backend_GetDns :: "string \<Rightarrow> dns_manager \<Rightarrow> slice res \<times> dns_manager" where
  "backend_GetDns name m = (case dm_call m of (r, m') \<Rightarrow> (if r = Done then Inr (dm_dns m' name) else Inl SysErr, m'))"

text \<open>
  Setting the servers fails without effect, or (when the cache is not flushed) after it. \<open>owed\<close> is what
  the change leaves to be put back.
\<close>

definition backend_SetDns :: "string \<Rightarrow> slice \<Rightarrow> slice option \<Rightarrow> dns_manager \<Rightarrow> err option \<times> dns_manager" where
  "backend_SetDns name servers owed m =
     (case dm_call m of (r, m') \<Rightarrow>
        let changed = m'\<lparr>dm_dns := (dm_dns m')(name := (if servers = Some [] then None else servers)),
                         dm_owed := (dm_owed m')(name := owed)\<rparr>
        in case r of Done \<Rightarrow> (None, changed) | Partial \<Rightarrow> (Some SysErr, changed) | Fails \<Rightarrow> (Some SysErr, m'))"

subsection \<open>The record on disk\<close>

text \<open>
  \<open>persist\<close>: temporary file (create, permissions, write, sync, close), rename, then the sync of the
  directory, whose failure leaves the new record in place. \<open>json_len\<close> is the length of the record as
  \<open>json.Marshal\<close> writes it; a nil lease is written as \<open>null\<close> and read as the zero lease.
\<close>

definition marshalled :: "dns_manager \<Rightarrow> dns_lease" where
  "marshalled m = (case dm_lease m of Some l \<Rightarrow> l | None \<Rightarrow> \<lparr>dl_Version = 0, dl_Deadline = 0, dl_Entries = []\<rparr>)"

definition syncDirectory :: "dns_manager \<Rightarrow> err option \<times> dns_manager" where
  "syncDirectory m = (case run_ios 2 (dm_io m) of (ok, ios) \<Rightarrow> (if ok then None else Some SysErr, m\<lparr>dm_io := ios\<rparr>))"

definition persist :: "(dns_lease \<Rightarrow> nat) \<Rightarrow> dns_manager \<Rightarrow> err option \<times> dns_manager" where
  "persist json_len m =
     (if json_len (marshalled m) > maxRecordSize then (Some (Plain ''DNS lease record is too large''), m)
      else (case run_ios 6 (dm_io m) of
          (False, ios) \<Rightarrow> (Some SysErr, m\<lparr>dm_io := ios\<rparr>)
        | (True, ios) \<Rightarrow> syncDirectory (m\<lparr>dm_io := ios, dm_disk := Stored (marshalled m)\<rparr>)))"

definition removeRecord :: "dns_manager \<Rightarrow> err option \<times> dns_manager" where
  "removeRecord m =
     (if dm_disk m = Absent then (None, m)
      else (case dm_call m of (r, m') \<Rightarrow>
          if r = Done then syncDirectory (m'\<lparr>dm_disk := Absent\<rparr>) else (Some SysErr, m')))"

subsection \<open>Timers\<close>

definition schedule :: "dns_manager \<Rightarrow> dns_manager" where
  "schedule m = (case dm_lease m of None \<Rightarrow> m | Some l \<Rightarrow> m\<lparr>dm_timer := Some (dl_Deadline l), dm_watch := True\<rparr>)"

definition stopTimers :: "dns_manager \<Rightarrow> dns_manager" where
  "stopTimers m = m\<lparr>dm_timer := None, dm_watch := False\<rparr>"

subsection \<open>Taking, renewing and giving back\<close>

definition restore :: "dns_entry \<Rightarrow> dns_manager \<Rightarrow> err option \<times> dns_manager" where
  "restore item m =
     (case backend_GetDns (ds_Name (de_Service item)) m of
        (Inl e, m1) \<Rightarrow> (Some e, m1)
      | (Inr current, m1) \<Rightarrow>
          if current \<noteq> de_Desired item \<or> current = de_Original item then (None, m1)
          else backend_SetDns (ds_Name (de_Service item)) (de_Original item) None m1)"

fun restore_all :: "dns_entry list \<Rightarrow> dns_manager \<Rightarrow> dns_entry list \<times> dns_manager" where
  "restore_all [] m = ([], m)"
| "restore_all (item # items) m =
     (case restore item m of (e, m1) \<Rightarrow>
        case restore_all items m1 of (remaining, m2) \<Rightarrow> (if e = None then remaining else item # remaining, m2))"

definition release :: "(dns_lease \<Rightarrow> nat) \<Rightarrow> dns_manager \<Rightarrow> err option \<times> dns_manager" where
  "release json_len m =
     (case dm_lease m of
        None \<Rightarrow> (None, m)
      | Some l \<Rightarrow>
          (case restore_all (dl_Entries l) m of (remaining, m1) \<Rightarrow>
             if remaining \<noteq> [] then
               (Some (Plainf ''failed to restore DNS services'' [format_nat (length remaining)]),
                snd (persist json_len (m1\<lparr>dm_lease := Some (l\<lparr>dl_Entries := remaining\<rparr>)\<rparr>)))
             else removeRecord (stopTimers (m1\<lparr>dm_lease := None\<rparr>))))"

definition validateServers :: "string list \<Rightarrow> err option" where
  "validateServers servers =
     (if servers = [] \<or> length servers > 4 then Some (Plain ''DNS lease requires one to four servers'')
      else (case find (\<lambda>s. \<not> ParseIP s) servers of
          Some s \<Rightarrow> Some (Plainf ''invalid DNS server address'' [s])
        | None \<Rightarrow> None))"

definition renew :: "(dns_lease \<Rightarrow> nat) \<Rightarrow> int \<Rightarrow> dns_manager \<Rightarrow> err option \<times> dns_manager" where
  "renew json_len now m =
     (case dm_lease m of
        None \<Rightarrow> (Some (Plain ''No service-owned DNS lease to renew''), m)
      | Some l \<Rightarrow>
          (case persist json_len (m\<lparr>dm_lease := Some (l\<lparr>dl_Deadline := now + leaseDuration\<rparr>)\<rparr>) of
             (Some e, m1) \<Rightarrow> (Some e, m1)
           | (None, m1) \<Rightarrow> (None, schedule m1)))"

text \<open>What the lease leaves to be put back when it sets servers over \<open>original\<close>: nothing when they agree.\<close>

definition owes :: "slice \<Rightarrow> slice \<Rightarrow> slice option" where
  "owes original desired = (if original = desired then None else Some original)"

fun mark_first :: "string \<Rightarrow> dns_entry list \<Rightarrow> dns_entry list" where
  "mark_first i [] = []"
| "mark_first i (e # es) = (if ds_ID (de_Service e) = i then e\<lparr>de_Applied := True\<rparr> # es else e # mark_first i es)"

definition mark_applied :: "string \<Rightarrow> dns_manager \<Rightarrow> dns_manager" where
  "mark_applied i m =
     (case dm_lease m of
        None \<Rightarrow> m
      | Some l \<Rightarrow> m\<lparr>dm_lease := Some (l\<lparr>dl_Entries := mark_first i (dl_Entries l)\<rparr>)\<rparr>)"

definition copy_slice :: "string list \<Rightarrow> slice" where
  "copy_slice xs = (if xs = [] then None else Some xs)"

definition set_fresh :: "(dns_lease \<Rightarrow> nat) \<Rightarrow> int \<Rightarrow> string list \<Rightarrow> dns_manager \<Rightarrow> err option \<times> dns_manager" where
  "set_fresh json_len now servers m =
     (case backend_Active m of
        (Inl e, m1) \<Rightarrow> (Some e, m1)
      | (Inr service, m1) \<Rightarrow>
          (case backend_GetDns (ds_Name service) m1 of
             (Inl e, m2) \<Rightarrow> (Some e, m2)
           | (Inr original, m2) \<Rightarrow>
               let l = \<lparr>dl_Version = 1, dl_Deadline = now + leaseDuration,
                        dl_Entries = [\<lparr>de_Service = service, de_Original = original, de_Desired = copy_slice servers, de_Applied = False\<rparr>]\<rparr>
               in case persist json_len (m2\<lparr>dm_lease := Some l\<rparr>) of
                    (Some e, m3) \<Rightarrow> (Some e, m3\<lparr>dm_lease := None\<rparr>)
                  | (None, m3) \<Rightarrow>
                      (case backend_SetDns (ds_Name service) (Some servers) (owes original (Some servers)) m3 of
                         (Some e, m4) \<Rightarrow> (Some e, snd (release json_len m4))
                       | (None, m4) \<Rightarrow> persist json_len (schedule (mark_applied (ds_ID service) m4)))))"

definition set_servers :: "(dns_lease \<Rightarrow> nat) \<Rightarrow> int \<Rightarrow> string list \<Rightarrow> dns_manager \<Rightarrow> err option \<times> dns_manager" where
  "set_servers json_len now servers m =
     (if \<not> dm_configured m then (Some (Plain ''DNS lease recovery is not configured''), m)
      else (case dm_lease m of
          None \<Rightarrow> set_fresh json_len now servers m
        | Some l \<Rightarrow>
            (case dl_Entries l of
               [] \<Rightarrow> (Some index_panic, m)
             | e # _ \<Rightarrow>
                 if de_Desired e = Some servers then renew json_len now m
                 else (case release json_len m of
                     (Some x, m1) \<Rightarrow> (Some x, m1)
                   | (None, m1) \<Rightarrow> set_fresh json_len now servers m1))))"

definition expire :: "(dns_lease \<Rightarrow> nat) \<Rightarrow> int \<Rightarrow> dns_manager \<Rightarrow> dns_manager" where
  "expire json_len now m =
     (case dm_lease m of
        None \<Rightarrow> m
      | Some l \<Rightarrow>
          if dl_Deadline l > now then m\<lparr>dm_timer := Some (dl_Deadline l)\<rparr>
          else (case release json_len m of
              (Some _, m1) \<Rightarrow> m1\<lparr>dm_timer := Some (now + retryInterval)\<rparr>
            | (None, m1) \<Rightarrow> m1))"

subsection \<open>Following the network\<close>

text \<open>The entry of the active service: found, or added to the record before anything is changed.\<close>

definition track_active :: "(dns_lease \<Rightarrow> nat) \<Rightarrow> dns_service \<Rightarrow> dns_lease \<Rightarrow> dns_manager \<Rightarrow> (bool \<times> dns_entry) res \<times> dns_manager" where
  "track_active json_len active l m =
     (case find (\<lambda>e. ds_ID (de_Service e) = ds_ID active) (dl_Entries l) of
        Some e \<Rightarrow> (Inr (False, e), m)
      | None \<Rightarrow>
          if length (dl_Entries l) \<ge> 8 then (Inl (Plain ''too many DNS services awaiting restoration''), m)
          else (case backend_GetDns (ds_Name active) m of
              (Inl e, m1) \<Rightarrow> (Inl e, m1)
            | (Inr original, m1) \<Rightarrow>
                (case dl_Entries l of
                   [] \<Rightarrow> (Inl index_panic, m1)
                 | e0 # _ \<Rightarrow>
                     let desired = (case de_Desired e0 of None \<Rightarrow> None | Some xs \<Rightarrow> copy_slice xs);
                         item = \<lparr>de_Service = active, de_Original = original, de_Desired = desired, de_Applied = False\<rparr>
                     in case persist json_len (m1\<lparr>dm_lease := Some (l\<lparr>dl_Entries := dl_Entries l @ [item]\<rparr>)\<rparr>) of
                          (Some e, m2) \<Rightarrow> (Inl e, m2\<lparr>dm_lease := Some l\<rparr>)
                        | (None, m2) \<Rightarrow> (Inr (True, item), m2))))"

definition apply_entry :: "dns_entry \<Rightarrow> bool \<Rightarrow> dns_manager \<Rightarrow> bool res \<times> dns_manager" where
  "apply_entry item changed m =
     (case backend_GetDns (ds_Name (de_Service item)) m of
        (Inl e, m1) \<Rightarrow> (Inl e, m1)
      | (Inr current, m1) \<Rightarrow>
          if \<not> de_Applied item \<and> current = de_Original item \<and> current \<noteq> de_Desired item then
            (case backend_SetDns (ds_Name (de_Service item)) (de_Desired item) (owes current (de_Desired item)) m1 of
               (Some e, m2) \<Rightarrow> (Inl e, m2)
             | (None, m2) \<Rightarrow> (Inr True, mark_applied (ds_ID (de_Service item)) m2))
          else (Inr changed, m1))"

fun restore_others :: "string \<Rightarrow> dns_entry list \<Rightarrow> bool \<Rightarrow> dns_manager \<Rightarrow> dns_entry list \<times> bool \<times> dns_manager" where
  "restore_others i [] changed m = ([], changed, m)"
| "restore_others i (item # items) changed m =
     (if ds_ID (de_Service item) = i then
        (case restore_others i items changed m of (remaining, c, m1) \<Rightarrow> (item # remaining, c, m1))
      else (case restore item m of
          (Some _, m1) \<Rightarrow> (case restore_others i items changed m1 of (remaining, c, m2) \<Rightarrow> (item # remaining, c, m2))
        | (None, m1) \<Rightarrow> restore_others i items True m1))"

definition reconcile :: "(dns_lease \<Rightarrow> nat) \<Rightarrow> dns_manager \<Rightarrow> err option \<times> dns_manager" where
  "reconcile json_len m =
     (case (dm_lease m, backend_Active m) of
        (None, _) \<Rightarrow> (None, m)
      | (Some l, (Inl e, m1)) \<Rightarrow> (Some e, m1)
      | (Some l, (Inr active, m1)) \<Rightarrow>
          (case track_active json_len active l m1 of
             (Inl e, m2) \<Rightarrow> (Some e, m2)
           | (Inr (changed, item), m2) \<Rightarrow>
               (case apply_entry item changed m2 of
                  (Inl e, m3) \<Rightarrow> (Some e, m3)
                | (Inr changed', m3) \<Rightarrow>
                    let l3 = marshalled m3 in
                    (case restore_others (ds_ID active) (dl_Entries l3) changed' m3 of (remaining, changed'', m4) \<Rightarrow>
                       let m5 = m4\<lparr>dm_lease := Some (l3\<lparr>dl_Entries := remaining\<rparr>)\<rparr>
                       in if changed'' then persist json_len m5 else (None, m5)))))"

text \<open>One tick of \<open>watchNetwork\<close>; errors are only logged.\<close>

definition watch_tick :: "(dns_lease \<Rightarrow> nat) \<Rightarrow> dns_manager \<Rightarrow> dns_manager" where
  "watch_tick json_len m = (if dm_lease m \<noteq> None then snd (reconcile json_len m) else m)"

subsection \<open>Starting, recovering and stopping\<close>

definition bad_entry :: "dns_entry \<Rightarrow> bool" where
  "bad_entry item = (ds_ID (de_Service item) = [] \<or> ds_Name (de_Service item) = [] \<or>
     validateServers (case de_Desired item of None \<Rightarrow> [] | Some xs \<Rightarrow> xs) \<noteq> None)"

definition bad_original :: "dns_entry \<Rightarrow> bool" where
  "bad_original item = (\<not> list_all ParseIP (case de_Original item of None \<Rightarrow> [] | Some xs \<Rightarrow> xs))"

fun check_entries :: "dns_entry list \<Rightarrow> err option" where
  "check_entries [] = None"
| "check_entries (item # items) =
     (if bad_entry item then Some (Plain ''invalid DNS lease record entry'')
      else if bad_original item then Some (Plain ''invalid original DNS server in lease record'')
      else check_entries items)"

definition recover :: "(dns_lease \<Rightarrow> nat) \<Rightarrow> int \<Rightarrow> dns_manager \<Rightarrow> err option \<times> dns_manager" where
  "recover json_len now m =
     (if dm_disk m = Absent then (None, m)
      else (case run_ios 2 (dm_io m) of
          (False, ios) \<Rightarrow> (Some SysErr, m\<lparr>dm_io := ios\<rparr>)
        | (True, ios) \<Rightarrow>
            let m1 = m\<lparr>dm_io := ios\<rparr> in
            (case dm_disk m of
               Stored saved \<Rightarrow>
                 if json_len saved > maxRecordSize then (Some (Plain ''DNS lease record is too large''), m1)
                 else if dl_Version saved \<noteq> 1 \<or> dl_Entries saved = [] \<or> length (dl_Entries saved) > 8
                 then (Some (Plain ''invalid DNS lease record''), m1)
                 else (case check_entries (dl_Entries saved) of
                     Some e \<Rightarrow> (Some e, m1)
                   | None \<Rightarrow>
                       (case release json_len (m1\<lparr>dm_lease := Some saved\<rparr>) of
                          (Some e, m2) \<Rightarrow> (Some e, m2\<lparr>dm_timer := Some (now + retryInterval)\<rparr>)
                        | (None, m2) \<Rightarrow> (None, m2)))
             | _ \<Rightarrow> (Some SysErr, m1))))"

definition Configure :: "(dns_lease \<Rightarrow> nat) \<Rightarrow> int \<Rightarrow> dns_manager \<Rightarrow> err option \<times> dns_manager" where
  "Configure json_len now m =
     (case run_ios 2 (dm_io m) of
        (False, ios) \<Rightarrow> (Some SysErr, m\<lparr>dm_configured := True, dm_io := ios\<rparr>)
      | (True, ios) \<Rightarrow> recover json_len now (m\<lparr>dm_configured := True, dm_io := ios\<rparr>))"

definition Dns_Stop :: "(dns_lease \<Rightarrow> nat) \<Rightarrow> dns_manager \<Rightarrow> err option \<times> dns_manager" where
  "Dns_Stop json_len m = release json_len (stopTimers m)"

subsection \<open>Requests\<close>

text \<open>The body is nothing when it does not decode. No error means status 204.\<close>

definition createLease :: "(dns_lease \<Rightarrow> nat) \<Rightarrow> int \<Rightarrow> string list option \<Rightarrow> dns_manager \<Rightarrow> err option \<times> dns_manager" where
  "createLease json_len now body m =
     (case body of
        None \<Rightarrow> (Some (HTTPError 400 ''Invalid request body''), m)
      | Some servers \<Rightarrow>
          (case validateServers servers of
             Some e \<Rightarrow> (Some (HTTPErrorOf 400 e), m)
           | None \<Rightarrow> set_servers json_len now servers m))"

definition renewLease :: "(dns_lease \<Rightarrow> nat) \<Rightarrow> int \<Rightarrow> dns_manager \<Rightarrow> err option \<times> dns_manager" where
  "renewLease json_len now m =
     (case renew json_len now m of (Some e, m1) \<Rightarrow> (Some (HTTPErrorOf 409 e), m1) | (None, m1) \<Rightarrow> (None, m1))"

definition deleteLease :: "(dns_lease \<Rightarrow> nat) \<Rightarrow> dns_manager \<Rightarrow> err option \<times> dns_manager" where
  "deleteLease json_len m = release json_len m"

section \<open>Lemmas\<close>

subsection \<open>Calls\<close>

lemma dm_call_eq: "dm_call m = (fst (next_io (dm_io m)), m\<lparr>dm_io := snd (next_io (dm_io m))\<rparr>)"
  by (simp add: dm_call_def case_prod_unfold)

lemma backend_Active_eq:
  "backend_Active m = (if fst (next_io (dm_io m)) = Done then Inr (dm_active m) else Inl SysErr, m\<lparr>dm_io := snd (next_io (dm_io m))\<rparr>)"
  by (simp add: backend_Active_def dm_call_eq)

lemma backend_GetDns_eq:
  "backend_GetDns n m = (if fst (next_io (dm_io m)) = Done then Inr (dm_dns m n) else Inl SysErr, m\<lparr>dm_io := snd (next_io (dm_io m))\<rparr>)"
  by (simp add: backend_GetDns_def dm_call_eq)

lemma syncDirectory_frame: "\<exists>ios r. syncDirectory m = (r, m\<lparr>dm_io := ios\<rparr>)"
  by (auto simp: syncDirectory_def split: prod.split)

text \<open>A record is stored or the old one is still there, whatever \<open>persist\<close> returns.\<close>

lemma persist_cases:
  "(\<exists>ios e. persist J m = (Some e, m\<lparr>dm_io := ios\<rparr>)) \<or>
   J (marshalled m) \<le> maxRecordSize \<and> (\<exists>ios r. persist J m = (r, m\<lparr>dm_disk := Stored (marshalled m), dm_io := ios\<rparr>))"
proof (cases "J (marshalled m) > maxRecordSize")
  case True
  then show ?thesis by (intro disjI1 exI [of _ "dm_io m"]) (simp add: persist_def)
next
  case False
  obtain ok ios where r: "run_ios 6 (dm_io m) = (ok, ios)" by fastforce
  obtain ios' r' where "syncDirectory (m\<lparr>dm_io := ios, dm_disk := Stored (marshalled m)\<rparr>) =
      (r', m\<lparr>dm_io := ios, dm_disk := Stored (marshalled m)\<rparr>\<lparr>dm_io := ios'\<rparr>)"
    using syncDirectory_frame by blast
  then show ?thesis using r False by (cases ok) (auto simp: persist_def)
qed

lemma removeRecord_cases:
  "\<exists>ios r d. removeRecord m = (r, m\<lparr>dm_disk := d, dm_io := ios\<rparr>) \<and> (d = dm_disk m \<or> d = Absent)"
proof (cases "dm_disk m = Absent")
  case True
  then show ?thesis by (intro exI [of _ "dm_io m"] exI [of _ None] exI [of _ Absent]) (simp add: removeRecord_def)
next
  case False
  let ?m = "m\<lparr>dm_io := snd (next_io (dm_io m)), dm_disk := Absent\<rparr>"
  obtain ios r where s: "syncDirectory ?m = (r, ?m\<lparr>dm_io := ios\<rparr>)" using syncDirectory_frame by blast
  show ?thesis
  proof (cases "fst (next_io (dm_io m)) = Done")
    case True
    then show ?thesis using False s by (auto simp: removeRecord_def dm_call_eq)
  next
    case f: False
    then show ?thesis using False
      by (intro exI [of _ "snd (next_io (dm_io m))"] exI [of _ "Some SysErr"] exI [of _ "dm_disk m"]) (simp add: removeRecord_def dm_call_eq)
  qed
qed

subsection \<open>The invariant\<close>

definition slice_ok :: "slice \<Rightarrow> bool" where
  "slice_ok x = (case x of None \<Rightarrow> True | Some xs \<Rightarrow> xs \<noteq> [] \<and> list_all ParseIP xs)"

definition service_ok :: "(string \<Rightarrow> string) \<Rightarrow> dns_service \<Rightarrow> bool" where
  "service_ok N svc = (ds_ID svc \<noteq> [] \<and> ds_Name svc \<noteq> [] \<and> ds_Name svc = N (ds_ID svc))"

definition desired_ok :: "slice \<Rightarrow> bool" where
  "desired_ok x = (case x of None \<Rightarrow> False | Some xs \<Rightarrow> validateServers xs = None)"

definition entry_ok :: "(string \<Rightarrow> string) \<Rightarrow> dns_entry \<Rightarrow> bool" where
  "entry_ok N e = (service_ok N (de_Service e) \<and> desired_ok (de_Desired e) \<and> slice_ok (de_Original e))"

definition record_ok :: "(string \<Rightarrow> string) \<Rightarrow> dns_lease \<Rightarrow> bool" where
  "record_ok N l = (dl_Version l = 1 \<and> dl_Entries l \<noteq> [] \<and> length (dl_Entries l) \<le> 8 \<and>
     distinct (map (ds_ID \<circ> de_Service) (dl_Entries l)) \<and> list_all (entry_ok N) (dl_Entries l))"

definition world_ok :: "(string \<Rightarrow> string) \<Rightarrow> dns_manager \<Rightarrow> bool" where
  "world_ok N m = ((\<forall>n. slice_ok (dm_dns m n)) \<and> service_ok N (dm_active m))"

text \<open>\<open>covers es m\<close>: what is owed to a network service can be read off one of the entries.\<close>

definition pays :: "dns_entry \<Rightarrow> string \<Rightarrow> slice \<Rightarrow> dns_manager \<Rightarrow> bool" where
  "pays e n o' m = (ds_Name (de_Service e) = n \<and> de_Original e = o' \<and> de_Desired e = dm_dns m n \<and> o' \<noteq> dm_dns m n)"

definition covers :: "dns_entry set \<Rightarrow> dns_manager \<Rightarrow> bool" where
  "covers es m = (\<forall>n o'. dm_owed m n = Some o' \<longrightarrow> (\<exists>e \<in> es. pays e n o' m))"

definition same_entry :: "dns_entry \<Rightarrow> dns_entry \<Rightarrow> bool" where
  "same_entry e e' = (de_Service e = de_Service e' \<and> de_Original e = de_Original e' \<and> de_Desired e = de_Desired e')"

fun disk_entries :: "dns_lease store \<Rightarrow> dns_entry set" where
  "disk_entries (Stored r) = set (dl_Entries r)"
| "disk_entries _ = {}"

definition kept :: "dns_entry set \<Rightarrow> dns_manager \<Rightarrow> bool" where
  "kept es m = (\<forall>e \<in> es. \<exists>e' \<in> disk_entries (dm_disk m). same_entry e e')"

definition disk_ok :: "(dns_lease \<Rightarrow> nat) \<Rightarrow> (string \<Rightarrow> string) \<Rightarrow> dns_lease store \<Rightarrow> bool" where
  "disk_ok J N d = (case d of Absent \<Rightarrow> True | Garbage \<Rightarrow> False | Stored r \<Rightarrow> record_ok N r \<and> J r \<le> maxRecordSize)"

definition lease_entries :: "dns_manager \<Rightarrow> dns_entry list" where
  "lease_entries m = (case dm_lease m of None \<Rightarrow> [] | Some l \<Rightarrow> dl_Entries l)"

definition dns_inv :: "(dns_lease \<Rightarrow> nat) \<Rightarrow> (string \<Rightarrow> string) \<Rightarrow> dns_manager \<Rightarrow> bool" where
  "dns_inv J N m = (world_ok N m \<and> disk_ok J N (dm_disk m) \<and> (\<forall>l. dm_lease m = Some l \<longrightarrow> record_ok N l) \<and>
     covers (set (lease_entries m)) m \<and> kept (set (lease_entries m)) m)"

lemmas inv_defs = dns_inv_def world_ok_def disk_ok_def lease_entries_def

lemma pays_io [simp]: "pays e n o' (m\<lparr>dm_io := x\<rparr>) = pays e n o' m"
  by (simp add: pays_def)

lemma covers_io [simp]: "covers es (m\<lparr>dm_io := x\<rparr>) = covers es m"
  by (simp add: covers_def)

lemma covers_mono: "covers es m \<Longrightarrow> es \<subseteq> es' \<Longrightarrow> covers es' m"
  unfolding covers_def by blast

lemma kept_mono: "kept es m \<Longrightarrow> es' \<subseteq> es \<Longrightarrow> kept es' m"
  by (auto simp: kept_def)

lemma kept_disk: "kept (disk_entries (dm_disk m)) m"
  by (auto simp: kept_def same_entry_def)

lemma names_distinct:
  assumes "inj N" and "list_all (entry_ok N) es" and "distinct (map (ds_ID \<circ> de_Service) es)"
  shows "distinct (map (ds_Name \<circ> de_Service) es)"
proof -
  have "map (ds_Name \<circ> de_Service) es = map N (map (ds_ID \<circ> de_Service) es)"
    using assms(2) by (induction es) (auto simp: entry_ok_def service_ok_def)
  then show ?thesis using assms(1,3) by (metis distinct_map inj_on_subset subset_UNIV)
qed

subsection \<open>Restoring\<close>

text \<open>A step that changes at most the servers of \<open>n\<close>, to what is owed there, and settles what it changes.\<close>

lemma restore_step:
  assumes "covers (insert item es) m" and "ds_Name (de_Service item) \<notin> (ds_Name \<circ> de_Service) ` es"
  shows "covers (if fst (restore item m) = None then es else insert item es) (snd (restore item m))"
proof -
  let ?n = "ds_Name (de_Service item)"
  let ?m1 = "m\<lparr>dm_io := snd (next_io (dm_io m))\<rparr>"
  let ?ok = "fst (next_io (dm_io m)) = Done"
  let ?stop = "dm_dns m ?n \<noteq> de_Desired item \<or> dm_dns m ?n = de_Original item"
  consider "\<not> ?ok" | "?ok" "?stop" | "?ok" "\<not> ?stop" by blast
  then show ?thesis
  proof cases
    case 1
    then show ?thesis using assms(1) by (simp add: restore_def backend_GetDns_eq)
  next
    case 2
    then have "restore item m = (None, ?m1)" by (simp add: restore_def backend_GetDns_eq)
    moreover have "\<not> pays item n o' m" for n o' using 2 by (auto simp: pays_def)
    then have "covers es m" using assms(1) unfolding covers_def by blast
    ultimately show ?thesis by simp
  next
    case 3
    then have r: "restore item m = backend_SetDns ?n (de_Original item) None ?m1"
      by (auto simp: restore_def backend_GetDns_eq)
    have changed: "covers es (m'\<lparr>dm_dns := (dm_dns m)(?n := v), dm_owed := (dm_owed m)(?n := None)\<rparr>)" for m' v
      unfolding covers_def
    proof (intro allI impI)
      fix n o' assume "dm_owed (m'\<lparr>dm_dns := (dm_dns m)(?n := v), dm_owed := (dm_owed m)(?n := None)\<rparr>) n = Some o'"
      then have n: "n \<noteq> ?n" "dm_owed m n = Some o'" by (auto split: if_splits)
      then obtain e where "e \<in> insert item es" "pays e n o' m" using assms(1) by (auto simp: covers_def)
      then show "\<exists>e \<in> es. pays e n o' (m'\<lparr>dm_dns := (dm_dns m)(?n := v), dm_owed := (dm_owed m)(?n := None)\<rparr>)"
        using n by (auto simp: pays_def)
    qed
    then show ?thesis
      using assms(1) covers_mono [OF changed, of "insert item es"]
      by (auto simp: r backend_SetDns_def dm_call_eq Let_def split: io.split)
  qed
qed

lemma restore_keeps [simp]:
  "dm_lease (snd (restore item m)) = dm_lease m" "dm_disk (snd (restore item m)) = dm_disk m"
  "dm_active (snd (restore item m)) = dm_active m" "dm_configured (snd (restore item m)) = dm_configured m"
  "dm_timer (snd (restore item m)) = dm_timer m" "dm_watch (snd (restore item m)) = dm_watch m"
  by (simp_all add: restore_def backend_GetDns_eq backend_SetDns_def dm_call_eq Let_def split: io.split)

lemma restore_world: "world_ok N m \<Longrightarrow> slice_ok (de_Original item) \<Longrightarrow> world_ok N (snd (restore item m))"
  by (auto simp: world_ok_def slice_ok_def restore_def backend_GetDns_eq backend_SetDns_def dm_call_eq Let_def split: io.split option.splits)

lemma restore_all_keeps [simp]:
  "dm_lease (snd (restore_all items m)) = dm_lease m" "dm_disk (snd (restore_all items m)) = dm_disk m"
  "dm_active (snd (restore_all items m)) = dm_active m" "dm_configured (snd (restore_all items m)) = dm_configured m"
  "dm_timer (snd (restore_all items m)) = dm_timer m" "dm_watch (snd (restore_all items m)) = dm_watch m"
  by (induction items arbitrary: m) (simp_all add: case_prod_unfold)

lemma restore_all_world:
  "world_ok N m \<Longrightarrow> list_all (entry_ok N) items \<Longrightarrow> world_ok N (snd (restore_all items m))"
  by (induction items arbitrary: m) (simp_all add: case_prod_unfold entry_ok_def restore_world)

lemma restore_all_subset: "set (fst (restore_all items m)) \<subseteq> set items"
  by (induction items arbitrary: m) (auto simp: case_prod_unfold)

lemma restore_all_length: "length (fst (restore_all items m)) \<le> length items"
  by (induction items arbitrary: m) (auto simp: case_prod_unfold le_SucI)

lemma restore_all_distinct: "distinct (map g items) \<Longrightarrow> distinct (map g (fst (restore_all items m)))"
proof (induction items arbitrary: m)
  case (Cons item items)
  then show ?case using restore_all_subset [of items "snd (restore item m)"] by (auto simp: case_prod_unfold)
qed simp

abbreviation names :: "dns_entry set \<Rightarrow> string set" where "names es \<equiv> (ds_Name \<circ> de_Service) ` es"

lemma restore_all_covers:
  "covers (set items \<union> K) m \<Longrightarrow> distinct (map (ds_Name \<circ> de_Service) items) \<Longrightarrow> names (set items) \<inter> names K = {} \<Longrightarrow>
     covers (set (fst (restore_all items m)) \<union> K) (snd (restore_all items m))"
proof (induction items arbitrary: m K)
  case (Cons item items)
  let ?m1 = "snd (restore item m)" and ?e = "fst (restore item m)"
  have step: "covers (if ?e = None then set items \<union> K else insert item (set items \<union> K)) ?m1"
    by (rule restore_step) (use Cons.prems in auto)
  show ?case
  proof (cases ?e)
    case None
    then have "covers (set (fst (restore_all items ?m1)) \<union> K) (snd (restore_all items ?m1))"
      using step Cons.prems by (intro Cons.IH) auto
    then show ?thesis using None by (simp add: case_prod_unfold)
  next
    case (Some x)
    then have "covers (set (fst (restore_all items ?m1)) \<union> insert item K) (snd (restore_all items ?m1))"
      using step Cons.prems by (intro Cons.IH) auto
    then show ?thesis using Some by (simp add: case_prod_unfold)
  qed
qed simp

subsection \<open>The record and the invariant\<close>

lemma dns_persist_keeps [simp]:
  "dm_lease (snd (persist J m)) = dm_lease m" "dm_dns (snd (persist J m)) = dm_dns m" "dm_owed (snd (persist J m)) = dm_owed m"
  "dm_active (snd (persist J m)) = dm_active m" "dm_configured (snd (persist J m)) = dm_configured m"
  "dm_timer (snd (persist J m)) = dm_timer m" "dm_watch (snd (persist J m)) = dm_watch m"
  using persist_cases [of J m] by auto

lemma persist_world [simp]: "world_ok N (snd (persist J m)) = world_ok N m"
  by (simp add: world_ok_def)

lemma persist_covers [simp]: "covers es (snd (persist J m)) = covers es m"
  by (simp add: covers_def pays_def)

lemma persist_disk: "disk_ok J N (dm_disk m) \<Longrightarrow> record_ok N (marshalled m) \<Longrightarrow> disk_ok J N (dm_disk (snd (persist J m)))"
  using persist_cases [of J m] by (auto simp: disk_ok_def)

lemma persist_stored: "fst (persist J m) = None \<Longrightarrow> dm_disk (snd (persist J m)) = Stored (marshalled m)"
  using persist_cases [of J m] by auto

lemma persist_kept: "kept es m \<Longrightarrow> es \<subseteq> set (dl_Entries (marshalled m)) \<Longrightarrow> kept es (snd (persist J m))"
proof -
  assume "kept es m" "es \<subseteq> set (dl_Entries (marshalled m))"
  moreover have "same_entry e e" for e by (simp add: same_entry_def)
  ultimately show ?thesis using persist_cases [of J m] by (auto simp: kept_def, blast)
qed

lemma persist_inv:
  assumes "world_ok N m" and "disk_ok J N (dm_disk m)" and "dm_lease m = Some l" and "record_ok N l"
    and "covers (set (dl_Entries l)) m" and "kept (set (dl_Entries l)) m"
  shows "dns_inv J N (snd (persist J m))"
  using assms persist_disk [of J N m] persist_kept [of "set (dl_Entries l)" m J]
  by (simp add: dns_inv_def lease_entries_def marshalled_def)

lemma removeRecord_inv:
  assumes "world_ok N m" and "disk_ok J N (dm_disk m)" and "dm_lease m = None" and "covers {} m"
  shows "dns_inv J N (snd (removeRecord m))"
  using assms removeRecord_cases [of m]
  by (auto simp: dns_inv_def lease_entries_def world_ok_def disk_ok_def kept_def covers_def)

text \<open>Giving back: what could not be put back stays in the lease and in the record.\<close>

lemma release_inv:
  assumes "inj N" and inv: "dns_inv J N m"
  shows "dns_inv J N (snd (release J m)) \<and> (fst (release J m) = None \<longrightarrow> dm_lease (snd (release J m)) = None)"
proof (cases "dm_lease m")
  case None
  then show ?thesis using inv by (simp add: release_def)
next
  case (Some l)
  let ?m1 = "snd (restore_all (dl_Entries l) m)" and ?rem = "fst (restore_all (dl_Entries l) m)"
  have ok: "record_ok N l" "world_ok N m" "disk_ok J N (dm_disk m)" "covers (set (dl_Entries l)) m" "kept (set (dl_Entries l)) m"
    using inv Some by (auto simp: dns_inv_def lease_entries_def)
  have entries: "list_all (entry_ok N) (dl_Entries l)" "distinct (map (ds_ID \<circ> de_Service) (dl_Entries l))" "length (dl_Entries l) \<le> 8"
    using ok(1) by (auto simp: record_ok_def)
  have cov: "covers (set ?rem) ?m1"
    using restore_all_covers [of "dl_Entries l" "{}" m] ok(4) names_distinct [OF assms(1) entries(1,2)] by simp
  have world: "world_ok N ?m1" using restore_all_world ok(2) entries(1) by blast
  have sub: "set ?rem \<subseteq> set (dl_Entries l)" by (rule restore_all_subset)
  show ?thesis
  proof (cases "?rem = []")
    case True
    let ?m2 = "stopTimers (?m1\<lparr>dm_lease := None\<rparr>)"
    have "covers {} ?m2" "world_ok N ?m2"
      using cov world True by (auto simp: stopTimers_def covers_def pays_def world_ok_def)
    then have "dns_inv J N (snd (removeRecord ?m2))"
      using ok(3) by (intro removeRecord_inv) (simp_all add: stopTimers_def)
    moreover have "dm_lease (snd (removeRecord ?m2)) = None"
      using removeRecord_cases [of ?m2] by (auto simp: stopTimers_def)
    ultimately show ?thesis using Some True by (simp add: release_def case_prod_unfold)
  next
    case False
    let ?l2 = "l\<lparr>dl_Entries := ?rem\<rparr>"
    have "record_ok N ?l2"
      using ok(1) False sub restore_all_length [of "dl_Entries l" m] restore_all_distinct [OF entries(2), of m]
      by (auto simp: record_ok_def list_all_iff)
    moreover have "kept (set ?rem) (?m1\<lparr>dm_lease := Some ?l2\<rparr>)" using kept_mono [OF ok(5) sub] by (simp add: kept_def)
    ultimately have "dns_inv J N (snd (persist J (?m1\<lparr>dm_lease := Some ?l2\<rparr>)))"
      using world cov ok(3) by (intro persist_inv [of _ _ _ ?l2]) (simp_all add: world_ok_def covers_def pays_def)
    then show ?thesis using Some False by (simp add: release_def case_prod_unfold)
  qed
qed

subsection \<open>Every operation keeps the invariant\<close>

lemma inv_fields [simp]:
  "dns_inv J N (m\<lparr>dm_timer := t\<rparr>) = dns_inv J N m" "dns_inv J N (m\<lparr>dm_watch := w\<rparr>) = dns_inv J N m"
  "dns_inv J N (m\<lparr>dm_io := ios\<rparr>) = dns_inv J N m" "dns_inv J N (m\<lparr>dm_configured := c\<rparr>) = dns_inv J N m"
  by (simp_all add: dns_inv_def lease_entries_def world_ok_def covers_def pays_def kept_def)

lemma schedule_inv [simp]: "dns_inv J N (schedule m) = dns_inv J N m"
  by (simp add: schedule_def split: option.split)

lemma stopTimers_inv [simp]: "dns_inv J N (stopTimers m) = dns_inv J N m"
  by (simp add: stopTimers_def)

lemma inv_lease:
  assumes "dns_inv J N m" and "dm_lease m = Some l"
  shows "record_ok N l" "covers (set (dl_Entries l)) m" "kept (set (dl_Entries l)) m" "world_ok N m" "disk_ok J N (dm_disk m)"
  using assms by (auto simp: dns_inv_def lease_entries_def)

lemma inv_set_lease:
  assumes "dns_inv J N m" and "record_ok N l" and "covers (set (dl_Entries l)) m" and "kept (set (dl_Entries l)) m"
  shows "dns_inv J N (m\<lparr>dm_lease := Some l\<rparr>)"
  using assms by (simp add: dns_inv_def lease_entries_def world_ok_def covers_def pays_def kept_def)

lemma renew_inv: "dns_inv J N m \<Longrightarrow> dns_inv J N (snd (renew J now m))"
proof (cases "dm_lease m")
  case (Some l)
  assume inv: "dns_inv J N m"
  let ?l = "l\<lparr>dl_Deadline := now + leaseDuration\<rparr>"
  have "dns_inv J N (m\<lparr>dm_lease := Some ?l\<rparr>)"
    using inv_lease [OF inv Some] inv by (intro inv_set_lease) (simp_all add: record_ok_def)
  from inv_lease [OF this, of ?l] have "dns_inv J N (snd (persist J (m\<lparr>dm_lease := Some ?l\<rparr>)))"
    by (intro persist_inv [of _ _ _ ?l]) simp_all
  then show ?thesis using Some by (simp add: renew_def case_prod_unfold split: option.split)
qed (simp add: renew_def)

lemma SetDns_inv:
  assumes inv: "dns_inv J N m" and e: "e \<in> set (lease_entries m)"
    and now: "dm_dns m (ds_Name (de_Service e)) = de_Original e" and ok: "desired_ok (de_Desired e)"
  shows "dns_inv J N (snd (backend_SetDns (ds_Name (de_Service e)) (de_Desired e) (owes (de_Original e) (de_Desired e)) m))"
proof -
  let ?n = "ds_Name (de_Service e)"
  let ?m' = "m\<lparr>dm_dns := (dm_dns m)(?n := de_Desired e), dm_owed := (dm_owed m)(?n := owes (de_Original e) (de_Desired e))\<rparr>"
  have d: "de_Desired e \<noteq> Some []" "slice_ok (de_Desired e)"
    using ok by (auto simp: desired_ok_def slice_ok_def validateServers_def find_None_iff list_all_iff split: option.splits if_splits)
  have "covers (set (lease_entries m)) ?m'"
    unfolding covers_def
  proof (intro allI impI)
    fix n o' assume o: "dm_owed ?m' n = Some o'"
    show "\<exists>x \<in> set (lease_entries m). pays x n o' ?m'"
    proof (cases "n = ?n")
      case True
      then show ?thesis using o e by (intro bexI [of _ e]) (auto simp: pays_def owes_def split: if_splits)
    next
      case False
      then have "dm_owed m n = Some o'" using o by simp
      then obtain x where "x \<in> set (lease_entries m)" "pays x n o' m" using inv unfolding dns_inv_def covers_def by blast
      then show ?thesis using False by (auto simp: pays_def)
    qed
  qed
  then have "dns_inv J N ?m'"
    using inv d(2) by (simp add: dns_inv_def world_ok_def kept_def lease_entries_def)
  moreover have "dns_inv J N (m\<lparr>dm_io := ios, dm_dns := x, dm_owed := w\<rparr>) = dns_inv J N (m\<lparr>dm_dns := x, dm_owed := w\<rparr>)" for ios x w
    by (simp add: dns_inv_def lease_entries_def world_ok_def covers_def pays_def kept_def)
  ultimately show ?thesis using inv d(1) by (simp add: backend_SetDns_def dm_call_eq Let_def split: io.split)
qed

lemma SetDns_keeps [simp]: "dm_lease (snd (backend_SetDns n v w m)) = dm_lease m" "dm_disk (snd (backend_SetDns n v w m)) = dm_disk m"
  by (simp_all add: backend_SetDns_def dm_call_eq Let_def split: io.split)

lemma mark_first_set:
  "e \<in> set es \<Longrightarrow> \<exists>e' \<in> set (mark_first i es). same_entry e e'"
  "e' \<in> set (mark_first i es) \<Longrightarrow> \<exists>e \<in> set es. same_entry e' e"
  by (induction es) (auto simp: same_entry_def split: if_splits)

lemma mark_first_map [simp]: "map (ds_ID \<circ> de_Service) (mark_first i es) = map (ds_ID \<circ> de_Service) es"
  "length (mark_first i es) = length es" "mark_first i es = [] \<longleftrightarrow> es = []"
  "list_all (entry_ok N) (mark_first i es) = list_all (entry_ok N) es"
  by (induction es) (auto simp: entry_ok_def)

lemma same_entry_trans: "same_entry a b \<Longrightarrow> same_entry b c \<Longrightarrow> same_entry a c"
  by (simp add: same_entry_def)

lemma mark_applied_inv: "dns_inv J N m \<Longrightarrow> dns_inv J N (mark_applied i m)"
proof (cases "dm_lease m")
  case (Some l)
  assume inv: "dns_inv J N m"
  note ok = inv_lease [OF inv Some]
  let ?es = "mark_first i (dl_Entries l)"
  have "record_ok N (l\<lparr>dl_Entries := ?es\<rparr>)" using ok(1) by (simp add: record_ok_def)
  moreover have "covers (set ?es) m"
    unfolding covers_def
  proof (intro allI impI)
    fix n o' assume "dm_owed m n = Some o'"
    then obtain e where e: "e \<in> set (dl_Entries l)" "pays e n o' m" using ok(2) by (auto simp: covers_def)
    then obtain e' where "e' \<in> set ?es" "same_entry e e'" using mark_first_set(1) by blast
    then show "\<exists>e \<in> set ?es. pays e n o' m" using e(2) by (auto simp: pays_def same_entry_def)
  qed
  moreover have "kept (set ?es) m"
    using ok(3) mark_first_set(2) same_entry_trans unfolding kept_def by meson
  ultimately show ?thesis using inv_set_lease [OF inv, of "l\<lparr>dl_Entries := ?es\<rparr>"] Some by (simp add: mark_applied_def)
qed (simp add: mark_applied_def)

lemma desired_ok_copy: "validateServers xs = None \<Longrightarrow> copy_slice xs = Some xs \<and> desired_ok (Some xs)"
  by (auto simp: validateServers_def copy_slice_def desired_ok_def)

lemma persist_again:
  assumes "dns_inv J N m" and "dm_lease m \<noteq> None"
  shows "dns_inv J N (snd (persist J m))"
proof -
  obtain l where "dm_lease m = Some l" using assms(2) by blast
  with inv_lease [OF assms(1) this] show ?thesis by (intro persist_inv [of _ _ _ l])
qed

lemma schedule_lease [simp]: "dm_lease (schedule m) = dm_lease m"
  by (simp add: schedule_def split: option.split)

lemma mark_applied_lease: "dm_lease (mark_applied i m) = None \<longleftrightarrow> dm_lease m = None"
  by (simp add: mark_applied_def split: option.split)

lemma set_fresh_inv:
  assumes inj: "inj N" and inv: "dns_inv J N m" and none: "dm_lease m = None" and v: "validateServers servers = None"
  shows "dns_inv J N (snd (set_fresh J now servers m))"
proof (cases "fst (next_io (dm_io m)) = Done \<and> fst (next_io (snd (next_io (dm_io m)))) = Done")
  case False
  then show ?thesis using inv by (auto simp: set_fresh_def backend_Active_eq backend_GetDns_eq)
next
  case True
  let ?m2 = "m\<lparr>dm_io := snd (next_io (snd (next_io (dm_io m))))\<rparr>"
  let ?svc = "dm_active m"
  let ?e = "\<lparr>de_Service = ?svc, de_Original = dm_dns m (ds_Name ?svc), de_Desired = Some servers, de_Applied = False\<rparr>"
  let ?l = "\<lparr>dl_Version = 1, dl_Deadline = now + leaseDuration, dl_Entries = [?e]\<rparr>"
  let ?p = "persist J (?m2\<lparr>dm_lease := Some ?l\<rparr>)"
  have world: "world_ok N m" and disk: "disk_ok J N (dm_disk m)" and cov: "covers {} m"
    using inv none by (auto simp: dns_inv_def lease_entries_def)
  have rec: "record_ok N ?l" using world desired_ok_copy [OF v] by (simp add: record_ok_def entry_ok_def world_ok_def)
  have disk': "disk_ok J N (dm_disk (snd ?p))" using persist_disk [of J N "?m2\<lparr>dm_lease := Some ?l\<rparr>"] disk rec by (simp add: marshalled_def)
  have cov': "covers es (snd ?p)" for es using cov by (simp add: covers_def)
  have c: "copy_slice servers = Some servers" using desired_ok_copy [OF v] by simp
  show ?thesis
  proof (cases "fst ?p")
    case (Some x)
    have "dns_inv J N ((snd ?p)\<lparr>dm_lease := None\<rparr>)"
      using world disk' cov' [of "{}"] by (simp add: dns_inv_def lease_entries_def kept_def world_ok_def covers_def)
    then show ?thesis using Some True c
      by (simp add: set_fresh_def backend_Active_eq backend_GetDns_eq Let_def case_prod_unfold)
  next
    case None
    let ?s = "backend_SetDns (ds_Name ?svc) (Some servers) (owes (dm_dns m (ds_Name ?svc)) (Some servers)) (snd ?p)"
    have "kept (set (dl_Entries ?l)) (snd ?p)" using persist_stored [OF None] by (simp add: kept_def marshalled_def same_entry_def)
    then have inv3: "dns_inv J N (snd ?p)"
      using world disk' cov' rec by (simp add: dns_inv_def lease_entries_def world_ok_def)
    have inv4: "dns_inv J N (snd ?s)"
      using SetDns_inv [OF inv3, of ?e] desired_ok_copy [OF v] by (simp add: lease_entries_def)
    have "dns_inv J N (snd (persist J (schedule (mark_applied (ds_ID ?svc) (snd ?s)))))"
      by (intro persist_again) (simp_all add: mark_applied_inv [OF inv4] mark_applied_lease)
    moreover have "dns_inv J N (snd (release J (snd ?s)))" using release_inv [OF inj inv4] by blast
    ultimately show ?thesis using None True c
      by (simp add: set_fresh_def backend_Active_eq backend_GetDns_eq Let_def case_prod_unfold split: option.split)
  qed
qed

lemma set_servers_inv:
  assumes "inj N" and "dns_inv J N m" and "validateServers servers = None"
  shows "dns_inv J N (snd (set_servers J now servers m))"
proof (cases "dm_configured m")
  case True
  show ?thesis
  proof (cases "dm_lease m")
    case None
    then show ?thesis using True set_fresh_inv [OF assms(1,2) None assms(3)] by (simp add: set_servers_def)
  next
    case (Some l)
    note r = release_inv [OF assms(1,2)]
    have "fst (release J m) = None \<Longrightarrow> dns_inv J N (snd (set_fresh J now servers (snd (release J m))))"
      using set_fresh_inv [OF assms(1) _ _ assms(3)] r by blast
    then show ?thesis using True Some renew_inv [OF assms(2)] r assms(2)
      by (simp add: set_servers_def case_prod_unfold split: list.split option.split)
  qed
qed (simp add: set_servers_def assms)

lemma expire_inv: "inj N \<Longrightarrow> dns_inv J N m \<Longrightarrow> dns_inv J N (expire J now m)"
  using release_inv [of N J m] by (simp add: expire_def case_prod_unfold split: option.split)

subsection \<open>Following the network\<close>

lemma track_active_inv:
  assumes inj: "inj N" and inv: "dns_inv J N m" and l: "dm_lease m = Some l" and svc: "service_ok N active"
  shows "dns_inv J N (snd (track_active J active l m)) \<and>
     (\<forall>c e. fst (track_active J active l m) = Inr (c, e) \<longrightarrow>
        e \<in> set (lease_entries (snd (track_active J active l m))) \<and> ds_ID (de_Service e) = ds_ID active)"
proof (cases "find (\<lambda>e. ds_ID (de_Service e) = ds_ID active) (dl_Entries l)")
  case (Some e)
  then have "e \<in> set (dl_Entries l)" "ds_ID (de_Service e) = ds_ID active" by (auto simp: find_Some_iff)
  then show ?thesis using Some inv l by (simp add: track_active_def lease_entries_def)
next
  case none: None
  note ok = inv_lease [OF inv l]
  have ne: "dl_Entries l \<noteq> []" using ok(1) by (simp add: record_ok_def)
  let ?m1 = "m\<lparr>dm_io := snd (next_io (dm_io m))\<rparr>"
  show ?thesis
  proof (cases "length (dl_Entries l) \<ge> 8 \<or> fst (next_io (dm_io m)) \<noteq> Done")
    case True
    then show ?thesis using none inv by (auto simp: track_active_def backend_GetDns_eq)
  next
    case False
    obtain e0 es where es: "dl_Entries l = e0 # es" using ne by (cases "dl_Entries l") auto
    then have "desired_ok (de_Desired e0)" using ok(1) by (auto simp: record_ok_def entry_ok_def)
    then obtain xs where xs: "de_Desired e0 = Some xs" "validateServers xs = None" by (auto simp: desired_ok_def split: option.splits)
    let ?item = "\<lparr>de_Service = active, de_Original = dm_dns m (ds_Name active), de_Desired = Some xs, de_Applied = False\<rparr>"
    let ?l = "l\<lparr>dl_Entries := dl_Entries l @ [?item]\<rparr>"
    let ?p = "persist J (?m1\<lparr>dm_lease := Some ?l\<rparr>)"
    have item: "entry_ok N ?item"
      using svc desired_ok_copy [OF xs(2)] ok(4) by (simp add: entry_ok_def world_ok_def)
    have rec: "record_ok N ?l" using ok(1) item none False by (auto simp: record_ok_def find_None_iff)
    have disk: "disk_ok J N (dm_disk (snd ?p))" using persist_disk [of J N "?m1\<lparr>dm_lease := Some ?l\<rparr>"] ok(5) rec by (simp add: marshalled_def)
    have kept: "kept (set (dl_Entries l)) (snd ?p)"
      using persist_kept [of "set (dl_Entries l)" "?m1\<lparr>dm_lease := Some ?l\<rparr>" J] ok(3) by (auto simp: marshalled_def kept_def)
    have cov: "covers (set (dl_Entries l)) (snd ?p)" using ok(2) by (simp add: covers_def pays_def)
    have world: "world_ok N (snd ?p)" using ok(4) by (simp add: world_ok_def)
    show ?thesis
    proof (cases "fst ?p")
      case (Some x)
      have "dns_inv J N ((snd ?p)\<lparr>dm_lease := Some l\<rparr>)"
        using world disk kept cov ok(1) by (simp add: dns_inv_def lease_entries_def world_ok_def kept_def covers_def pays_def)
      then show ?thesis using Some none False es xs desired_ok_copy [OF xs(2)]
        by (simp add: track_active_def backend_GetDns_eq Let_def case_prod_unfold)
    next
      case None
      have "kept (set (dl_Entries ?l)) (snd ?p)" using persist_stored [OF None] by (auto simp: kept_def marshalled_def same_entry_def)
      then have "dns_inv J N (snd ?p)"
        using world disk rec covers_mono [OF cov, of "set (dl_Entries ?l)"] by (auto simp: dns_inv_def lease_entries_def)
      then show ?thesis using None none False es xs desired_ok_copy [OF xs(2)]
        by (simp add: track_active_def backend_GetDns_eq Let_def case_prod_unfold lease_entries_def)
    qed
  qed
qed

lemma apply_entry_inv:
  assumes inv: "dns_inv J N m" and e: "e \<in> set (lease_entries m)"
  shows "dns_inv J N (snd (apply_entry e c m)) \<and>
     map (ds_ID \<circ> de_Service) (lease_entries (snd (apply_entry e c m))) = map (ds_ID \<circ> de_Service) (lease_entries m)"
proof -
  have ok: "desired_ok (de_Desired e)"
    using inv e by (cases "dm_lease m") (auto simp: dns_inv_def lease_entries_def record_ok_def entry_ok_def list_all_iff)
  let ?m1 = "m\<lparr>dm_io := snd (next_io (dm_io m))\<rparr>"
  let ?n = "ds_Name (de_Service e)"
  let ?s = "backend_SetDns ?n (de_Desired e) (owes (de_Original e) (de_Desired e)) ?m1"
  have entries: "lease_entries ?m1 = lease_entries m" "lease_entries (snd ?s) = lease_entries m"
    by (simp_all add: lease_entries_def)
  have marked: "map (ds_ID \<circ> de_Service) (lease_entries (mark_applied i x)) = map (ds_ID \<circ> de_Service) (lease_entries x)" for i x
    by (simp add: lease_entries_def mark_applied_def del: map_map split: option.split)
  show ?thesis
  proof (cases "fst (next_io (dm_io m)) = Done \<and> \<not> de_Applied e \<and> dm_dns m ?n = de_Original e \<and> dm_dns m ?n \<noteq> de_Desired e")
    case True
    then have "dns_inv J N (snd ?s)" using SetDns_inv [of J N ?m1 e] inv e ok by (simp add: entries)
    then show ?thesis using True inv mark_applied_inv [of J N "snd ?s"] marked
      by (simp add: apply_entry_def backend_GetDns_eq case_prod_unfold entries del: map_map split: option.split)
  next
    case False
    then show ?thesis using inv by (auto simp: apply_entry_def backend_GetDns_eq entries)
  qed
qed

lemma restore_others_keeps [simp]:
  "dm_lease (snd (snd (restore_others i items c m))) = dm_lease m" "dm_disk (snd (snd (restore_others i items c m))) = dm_disk m"
  by (induction items arbitrary: c m) (simp_all add: case_prod_unfold split: option.split)

lemma restore_others_world:
  "world_ok N m \<Longrightarrow> list_all (entry_ok N) items \<Longrightarrow> world_ok N (snd (snd (restore_others i items c m)))"
proof (induction items arbitrary: c m)
  case (Cons item items)
  have "world_ok N (snd (restore item m))" using Cons.prems by (auto simp: entry_ok_def intro: restore_world)
  then show ?case using Cons by (auto simp: case_prod_unfold split: option.split prod.splits)
qed simp

lemma restore_others_subset: "set (fst (restore_others i items c m)) \<subseteq> set items"
  by (induction items arbitrary: c m) (auto simp: case_prod_unfold split: option.split)

lemma restore_others_active: "e \<in> set items \<Longrightarrow> ds_ID (de_Service e) = i \<Longrightarrow> e \<in> set (fst (restore_others i items c m))"
  by (induction items arbitrary: c m) (auto simp: case_prod_unfold split: option.split)

lemma restore_others_length: "length (fst (restore_others i items c m)) \<le> length items"
  by (induction items arbitrary: c m) (auto simp: case_prod_unfold le_SucI split: option.split)

lemma restore_others_distinct: "distinct (map g items) \<Longrightarrow> distinct (map g (fst (restore_others i items c m)))"
proof (induction items arbitrary: c m)
  case (Cons item items)
  have "set (fst (restore_others i items c' m')) \<subseteq> set items" for c' m' by (rule restore_others_subset)
  then have "g item \<notin> g ` set (fst (restore_others i items c' m'))" for c' m' using Cons.prems by auto
  then show ?case using Cons by (auto simp: case_prod_unfold split: option.split prod.splits)
qed simp

lemma restore_others_covers:
  "covers (set items \<union> K) m \<Longrightarrow> distinct (map (ds_Name \<circ> de_Service) items) \<Longrightarrow> names (set items) \<inter> names K = {} \<Longrightarrow>
     covers (set (fst (restore_others i items c m)) \<union> K) (snd (snd (restore_others i items c m)))"
proof (induction items arbitrary: c m K)
  case (Cons item items)
  let ?m1 = "snd (restore item m)" and ?e = "fst (restore item m)"
  have step: "covers (if ?e = None then set items \<union> K else insert item (set items \<union> K)) ?m1"
    by (rule restore_step) (use Cons.prems in auto)
  show ?case
  proof (cases "ds_ID (de_Service item) = i")
    case True
    have "covers (set (fst (restore_others i items c m)) \<union> insert item K) (snd (snd (restore_others i items c m)))"
      using Cons.prems by (intro Cons.IH) auto
    then show ?thesis using True by (simp add: case_prod_unfold)
  next
    case other: False
    show ?thesis
    proof (cases ?e)
      case None
      then have "covers (set (fst (restore_others i items True ?m1)) \<union> K) (snd (snd (restore_others i items True ?m1)))"
        using step Cons.prems by (intro Cons.IH) auto
      then show ?thesis using None other by (simp add: case_prod_unfold)
    next
      case (Some x)
      then have "covers (set (fst (restore_others i items c ?m1)) \<union> insert item K) (snd (snd (restore_others i items c ?m1)))"
        using step Cons.prems by (intro Cons.IH) auto
      then show ?thesis using Some other by (simp add: case_prod_unfold)
    qed
  qed
qed simp

lemma reconcile_end_inv:
  assumes inj: "inj N" and inv: "dns_inv J N m" and l: "dm_lease m = Some l"
    and e: "i \<in> (ds_ID \<circ> de_Service) ` set (dl_Entries l)"
  shows "dns_inv J N ((snd (snd (restore_others i (dl_Entries l) c m)))
           \<lparr>dm_lease := Some (l\<lparr>dl_Entries := fst (restore_others i (dl_Entries l) c m)\<rparr>)\<rparr>)"
proof -
  let ?r = "restore_others i (dl_Entries l) c m"
  note ok = inv_lease [OF inv l]
  have entries: "list_all (entry_ok N) (dl_Entries l)" "distinct (map (ds_ID \<circ> de_Service) (dl_Entries l))"
    using ok(1) by (auto simp: record_ok_def)
  have sub: "set (fst ?r) \<subseteq> set (dl_Entries l)" by (rule restore_others_subset)
  obtain e0 where "e0 \<in> set (dl_Entries l)" "ds_ID (de_Service e0) = i" using e by auto
  from restore_others_active [OF this, of c m] have ne: "fst ?r \<noteq> []" by auto
  have cov: "covers (set (fst ?r)) (snd (snd ?r))"
    using restore_others_covers [of "dl_Entries l" "{}" m i c] ok(2) names_distinct [OF inj entries] by simp
  have rec: "record_ok N (l\<lparr>dl_Entries := fst ?r\<rparr>)"
    using ok(1) ne sub restore_others_length [of i "dl_Entries l" c m] restore_others_distinct [OF entries(2), of i c m]
    by (auto simp: record_ok_def list_all_iff)
  have kept: "kept (set (fst ?r)) (snd (snd ?r))" using kept_mono [OF ok(3) sub] by (simp add: kept_def)
  have world: "world_ok N (snd (snd ?r))" by (rule restore_others_world [OF ok(4) entries(1)])
  show ?thesis
    using world ok(5) rec cov kept by (simp add: dns_inv_def lease_entries_def world_ok_def covers_def pays_def kept_def)
qed

lemma reconcile_inv:
  assumes inj: "inj N" and inv: "dns_inv J N m" and l: "dm_lease m = Some l"
  shows "dns_inv J N (snd (reconcile J m))"
proof (cases "fst (next_io (dm_io m)) = Done")
  case False
  then show ?thesis using inv l by (simp add: reconcile_def backend_Active_eq)
next
  case True
  let ?m1 = "m\<lparr>dm_io := snd (next_io (dm_io m))\<rparr>"
  let ?t = "track_active J (dm_active m) l ?m1"
  have "service_ok N (dm_active m)" using inv by (simp add: dns_inv_def world_ok_def)
  from track_active_inv [OF inj _ _ this, of J ?m1 l] inv l
  have t: "dns_inv J N (snd ?t)" "\<And>c e. fst ?t = Inr (c, e) \<Longrightarrow> e \<in> set (lease_entries (snd ?t)) \<and> ds_ID (de_Service e) = ds_ID (dm_active m)"
    by auto
  show ?thesis
  proof (cases "fst ?t")
    case (Inl x)
    then show ?thesis using True l t(1) by (simp add: reconcile_def backend_Active_eq case_prod_unfold)
  next
    case (Inr ce)
    obtain c e where ce: "ce = (c, e)" by fastforce
    note te = t(2) [OF Inr [unfolded ce]]
    let ?a = "apply_entry e c (snd ?t)"
    note a = apply_entry_inv [OF t(1) conjunct1 [OF te], of c]
    show ?thesis
    proof (cases "fst ?a")
      case (Inl x)
      then show ?thesis using True l Inr ce a by (simp add: reconcile_def backend_Active_eq case_prod_unfold)
    next
      case a': (Inr c')
      let ?m3 = "snd ?a"
      have ids: "ds_ID (dm_active m) \<in> (ds_ID \<circ> de_Service) ` set (lease_entries ?m3)"
        using a te by (metis comp_apply image_eqI list.set_map)
      then obtain l3 where l3: "dm_lease ?m3 = Some l3" by (cases "dm_lease ?m3") (auto simp: lease_entries_def)
      let ?r = "restore_others (ds_ID (dm_active m)) (dl_Entries l3) c' ?m3"
      let ?m5 = "(snd (snd ?r))\<lparr>dm_lease := Some (l3\<lparr>dl_Entries := fst ?r\<rparr>)\<rparr>"
      have "dns_inv J N ?m5"
        using reconcile_end_inv [OF inj conjunct1 [OF a] l3] ids l3 by (simp add: lease_entries_def)
      moreover from this have "dns_inv J N (snd (persist J ?m5))" by (intro persist_again) simp_all
      ultimately show ?thesis
        using True l Inr ce a' l3 by (simp add: reconcile_def backend_Active_eq case_prod_unfold Let_def marshalled_def)
    qed
  qed
qed

subsection \<open>Recovery\<close>

lemma entry_ok_checks: "entry_ok N e \<Longrightarrow> \<not> bad_entry e \<and> \<not> bad_original e"
  by (auto simp: entry_ok_def service_ok_def desired_ok_def slice_ok_def bad_entry_def bad_original_def split: option.splits)

lemma check_entries_ok: "list_all (entry_ok N) es \<Longrightarrow> check_entries es = None"
  by (induction es) (auto dest: entry_ok_checks)

lemma recover_inv:
  assumes inj: "inj N" and world: "world_ok N m" and disk: "disk_ok J N (dm_disk m)" and none: "dm_lease m = None"
    and cov: "covers (disk_entries (dm_disk m)) m" and readable: "dm_disk m = Absent \<or> fst (run_ios 2 (dm_io m))"
  shows "dns_inv J N (snd (recover J now m))"
proof (cases "dm_disk m")
  case Absent
  then show ?thesis using world none cov by (simp add: recover_def dns_inv_def disk_ok_def lease_entries_def kept_def)
next
  case Garbage
  then show ?thesis using disk by (simp add: disk_ok_def)
next
  case (Stored saved)
  obtain ios where io: "run_ios 2 (dm_io m) = (True, ios)" using readable Stored by (cases "run_ios 2 (dm_io m)") auto
  let ?m1 = "m\<lparr>dm_io := ios, dm_lease := Some saved\<rparr>"
  have rec: "record_ok N saved" "J saved \<le> maxRecordSize" using disk Stored by (auto simp: disk_ok_def)
  have "kept (disk_entries (dm_disk ?m1)) ?m1" by (rule kept_disk)
  then have "dns_inv J N ?m1"
    using world disk rec cov Stored by (simp add: dns_inv_def lease_entries_def world_ok_def covers_def pays_def)
  from release_inv [OF inj this] have "dns_inv J N (snd (release J ?m1))" ..
  moreover have "check_entries (dl_Entries saved) = None" using rec(1) by (intro check_entries_ok [of N]) (simp add: record_ok_def)
  ultimately show ?thesis
    using rec io Stored by (simp add: recover_def Let_def record_ok_def case_prod_unfold split: option.split)
qed

subsection \<open>Reachable states\<close>

text \<open>
  What can happen: a machine on which the service never ran; the service starts, after a crash at any
  point between two operations or for the first time, and can read its record; requests, timers and
  ticks of the watcher; somebody edits the servers; the active network service changes. \<open>N\<close> gives the
  name of a network service. Every step may come with a new script of failures.
\<close>

definition crash :: "io list \<Rightarrow> dns_manager \<Rightarrow> dns_manager" where
  "crash ios m = m\<lparr>dm_configured := False, dm_lease := None, dm_timer := None, dm_watch := False, dm_io := ios\<rparr>"

inductive dns_reach :: "(dns_lease \<Rightarrow> nat) \<Rightarrow> (string \<Rightarrow> string) \<Rightarrow> dns_manager \<Rightarrow> bool" for J N where
  fresh: "world_ok N m \<Longrightarrow> dm_lease m = None \<Longrightarrow> dm_disk m = Absent \<Longrightarrow> dm_owed m = (\<lambda>_. None) \<Longrightarrow> dns_reach J N m"
| restart: "dns_reach J N m \<Longrightarrow> fst (run_ios 4 ios) \<Longrightarrow> dns_reach J N (snd (Configure J now (crash ios m)))"
| create: "dns_reach J N m \<Longrightarrow> dns_reach J N (snd (createLease J now body m))"
| renew: "dns_reach J N m \<Longrightarrow> dns_reach J N (snd (renewLease J now m))"
| delete: "dns_reach J N m \<Longrightarrow> dns_reach J N (snd (deleteLease J m))"
| timer: "dns_reach J N m \<Longrightarrow> dns_reach J N (expire J now m)"
| tick: "dns_reach J N m \<Longrightarrow> dns_reach J N (watch_tick J m)"
| stop: "dns_reach J N m \<Longrightarrow> dns_reach J N (snd (Dns_Stop J m))"
| edit: "dns_reach J N m \<Longrightarrow> slice_ok v \<Longrightarrow>
    dns_reach J N (m\<lparr>dm_dns := (dm_dns m)(n := v), dm_owed := (dm_owed m)(n := None)\<rparr>)"
| network: "dns_reach J N m \<Longrightarrow> service_ok N svc \<Longrightarrow> dns_reach J N (m\<lparr>dm_active := svc\<rparr>)"
| script: "dns_reach J N m \<Longrightarrow> dns_reach J N (m\<lparr>dm_io := ios\<rparr>)"

lemma crash_covers: "dns_inv J N m \<Longrightarrow> covers (disk_entries (dm_disk m)) m"
proof -
  assume inv: "dns_inv J N m"
  show ?thesis unfolding covers_def
  proof (intro allI impI)
    fix n o' assume "dm_owed m n = Some o'"
    then obtain e where e: "e \<in> set (lease_entries m)" "pays e n o' m" using inv unfolding dns_inv_def covers_def by blast
    then obtain e' where "e' \<in> disk_entries (dm_disk m)" "same_entry e e'" using inv unfolding dns_inv_def kept_def by blast
    then show "\<exists>e \<in> disk_entries (dm_disk m). pays e n o' m" using e(2) by (auto simp: pays_def same_entry_def)
  qed
qed

lemma run_ios_split: "fst (run_ios (a + b) xs) \<Longrightarrow> fst (run_ios a xs) \<and> fst (run_ios b (snd (run_ios a xs)))"
  by (induction a arbitrary: xs) (auto simp: case_prod_unfold split: if_splits)

lemma restart_inv:
  assumes "inj N" and inv: "dns_inv J N m" and "fst (run_ios 4 ios)"
  shows "dns_inv J N (snd (Configure J now (crash ios m)))"
proof -
  have r: "fst (run_ios 2 ios)" "fst (run_ios 2 (snd (run_ios 2 ios)))" using assms(3) run_ios_split [of 2 2 ios] by simp_all
  let ?c = "(crash ios m)\<lparr>dm_configured := True, dm_io := snd (run_ios 2 ios)\<rparr>"
  have "dns_inv J N (snd (recover J now ?c))"
    using inv crash_covers [OF inv] r assms(1)
    by (intro recover_inv) (simp_all add: crash_def dns_inv_def world_ok_def covers_def pays_def)
  then show ?thesis using r by (simp add: Configure_def crash_def case_prod_unfold)
qed

lemma edit_inv:
  assumes "dns_inv J N m" and "slice_ok v"
  shows "dns_inv J N (m\<lparr>dm_dns := (dm_dns m)(n := v), dm_owed := (dm_owed m)(n := None)\<rparr>)"
  using assms by (auto simp: dns_inv_def lease_entries_def world_ok_def covers_def pays_def kept_def)

lemma dns_reach_inv:
  assumes "inj N" and "dns_reach J N m"
  shows "dns_inv J N m"
  using assms(2)
proof (induction rule: dns_reach.induct)
  case (fresh m)
  then show ?case by (simp add: dns_inv_def disk_ok_def lease_entries_def covers_def kept_def)
next
  case (create m now body)
  then show ?case using set_servers_inv [OF assms(1)]
    by (simp add: createLease_def split: option.split)
next
  case (renew m now)
  then show ?case using renew_inv [of J N m now] by (simp add: renewLease_def case_prod_unfold split: option.split)
next
  case (tick m)
  then show ?case using reconcile_inv [OF assms(1)] by (auto simp: watch_tick_def)
next
  case (stop m)
  then show ?case using release_inv [OF assms(1), of J "stopTimers m"] by (simp add: Dns_Stop_def)
next
  case (network m svc)
  then show ?case by (simp add: dns_inv_def lease_entries_def world_ok_def covers_def pays_def kept_def)
qed (use assms(1) restart_inv expire_inv release_inv edit_inv in \<open>auto simp: deleteLease_def\<close>)

subsection \<open>Giving back when every call succeeds\<close>

lemma restore_all_ok:
  assumes "dm_io m = []" and "distinct (map (ds_Name \<circ> de_Service) items)" and "\<forall>e \<in> set items. de_Original e \<noteq> Some []"
  shows "fst (restore_all items m) = [] \<and> dm_io (snd (restore_all items m)) = [] \<and>
     (\<forall>e \<in> set items. dm_dns (snd (restore_all items m)) (ds_Name (de_Service e)) =
        (if dm_dns m (ds_Name (de_Service e)) = de_Desired e then de_Original e else dm_dns m (ds_Name (de_Service e)))) \<and>
     (\<forall>n. n \<notin> names (set items) \<longrightarrow> dm_dns (snd (restore_all items m)) n = dm_dns m n)"
  using assms
proof (induction items arbitrary: m)
  case (Cons item items)
  let ?m1 = "snd (restore item m)" and ?n = "ds_Name (de_Service item)"
  have r: "fst (restore item m) = None" "dm_io ?m1 = []" "\<forall>n. n \<noteq> ?n \<longrightarrow> dm_dns ?m1 n = dm_dns m n"
    "dm_dns ?m1 ?n = (if dm_dns m ?n = de_Desired item then de_Original item else dm_dns m ?n)"
    using Cons.prems by (auto simp: restore_def backend_GetDns_eq backend_SetDns_def dm_call_eq)
  have IH: "fst (restore_all items ?m1) = [] \<and> dm_io (snd (restore_all items ?m1)) = [] \<and>
     (\<forall>e \<in> set items. dm_dns (snd (restore_all items ?m1)) (ds_Name (de_Service e)) =
        (if dm_dns ?m1 (ds_Name (de_Service e)) = de_Desired e then de_Original e else dm_dns ?m1 (ds_Name (de_Service e)))) \<and>
     (\<forall>n. n \<notin> names (set items) \<longrightarrow> dm_dns (snd (restore_all items ?m1)) n = dm_dns ?m1 n)"
    using Cons.prems r(2) by (intro Cons.IH) auto
  moreover have n: "?n \<notin> names (set items)" using Cons.prems by auto
  then have "\<forall>e \<in> set items. ds_Name (de_Service e) \<noteq> ?n" by (metis comp_apply image_eqI)
  moreover have "dm_dns (snd (restore_all items ?m1)) ?n = dm_dns ?m1 ?n" using IH n by blast
  ultimately show ?case using r by (simp add: case_prod_unfold)
qed simp

lemma removeRecord_ok: "dm_io m = [] \<Longrightarrow> removeRecord m = (None, m\<lparr>dm_disk := Absent\<rparr>)"
  by (auto simp: removeRecord_def syncDirectory_def dm_call_eq)

lemma release_ok:
  assumes "dm_lease m = Some l" and "dm_io m = []"
    and "distinct (map (ds_Name \<circ> de_Service) (dl_Entries l))" and "\<forall>e \<in> set (dl_Entries l). de_Original e \<noteq> Some []"
  shows "release J m = (None, stopTimers ((snd (restore_all (dl_Entries l) m))\<lparr>dm_lease := None, dm_disk := Absent\<rparr>))"
  using assms restore_all_ok [OF assms(2-4)]
  by (simp add: release_def case_prod_unfold removeRecord_ok stopTimers_def)

subsection \<open>The lease as a client lease\<close>

definition dns_held :: "dns_manager \<Rightarrow> bool" where
  "dns_held m = (dm_lease m \<noteq> None)"

definition dns_deadline :: "dns_manager \<Rightarrow> int" where
  "dns_deadline m = dl_Deadline (marshalled m)"

lemma restore_all_good: "dm_io m = [] \<Longrightarrow> fst (restore_all items m) = [] \<and> dm_io (snd (restore_all items m)) = []"
proof (induction items arbitrary: m)
  case (Cons item items)
  have "fst (restore item m) = None" "dm_io (snd (restore item m)) = []"
    using Cons.prems by (auto simp: restore_def backend_GetDns_eq backend_SetDns_def dm_call_eq)
  then show ?case using Cons.IH by (simp add: case_prod_unfold)
qed simp

lemma persist_good: "dm_io m = [] \<Longrightarrow> dm_io (snd (persist J m)) = []"
  by (simp add: persist_def syncDirectory_def)

lemma release_good:
  assumes "dm_io m = []"
  shows "fst (release J m) = None \<and> dm_lease (snd (release J m)) = None \<and> dm_io (snd (release J m)) = []"
proof (cases "dm_lease m")
  case (Some l)
  then show ?thesis using restore_all_good [OF assms, of "dl_Entries l"]
    by (simp add: release_def case_prod_unfold removeRecord_ok stopTimers_def)
qed (simp add: release_def assms)

lemma renew_fields: "dm_lease (snd (renew J now m)) = map_option (\<lambda>l. l\<lparr>dl_Deadline := now + leaseDuration\<rparr>) (dm_lease m)"
  by (simp add: renew_def case_prod_unfold split: option.split)

interpretation dns: client_lease dns_held dns_deadline "\<lambda>now m. snd (renewLease J now m)" "expire J" leaseDuration "\<lambda>m. dm_io m = []" for J
proof
  fix now and m :: dns_manager
  have r: "snd (renewLease J now m) = snd (renew J now m)" by (simp add: renewLease_def case_prod_unfold split: option.split)
  show "dns_held m \<Longrightarrow> dns_held (snd (renewLease J now m)) \<and> dns_deadline (snd (renewLease J now m)) = now + leaseDuration"
    by (auto simp: r dns_held_def dns_deadline_def marshalled_def renew_fields)
  show "\<not> dns_held m \<Longrightarrow> \<not> dns_held (snd (renewLease J now m))" by (simp add: r dns_held_def renew_fields)
  show "dm_io m = [] \<Longrightarrow> dm_io (snd (renewLease J now m)) = []"
    by (auto simp: r renew_def case_prod_unfold schedule_def persist_good split: option.split)
  show "dns_held m \<Longrightarrow> now < dns_deadline m \<Longrightarrow> dns_held (expire J now m) \<and> dns_deadline (expire J now m) = dns_deadline m"
    by (auto simp: dns_held_def dns_deadline_def marshalled_def expire_def)
  show "dns_held m \<Longrightarrow> dns_deadline m \<le> now \<Longrightarrow> dm_io m = [] \<Longrightarrow> \<not> dns_held (expire J now m)"
    using release_good [of m J] by (auto simp: dns_held_def dns_deadline_def marshalled_def expire_def case_prod_unfold)
  show "\<not> dns_held m \<Longrightarrow> \<not> dns_held (expire J now m)" by (simp add: dns_held_def expire_def)
  show "dm_io m = [] \<Longrightarrow> dm_io (expire J now m) = []"
    using release_good [of m J] by (simp add: expire_def case_prod_unfold split: option.split)
qed

subsection \<open>An example\<close>

definition toy_service :: dns_service where "toy_service = \<lparr>ds_ID = ''A'', ds_Name = ''A''\<rparr>"

definition toy_dns :: dns_manager where
  "toy_dns = \<lparr>dm_configured = True, dm_lease = None, dm_timer = None, dm_watch = False, dm_disk = Absent, dm_active = toy_service,
     dm_dns = (\<lambda>_. None), dm_owed = (\<lambda>_. None), dm_io = []\<rparr>"

definition toy_leased :: dns_manager where
  "toy_leased = snd (createLease (\<lambda>_. 0) 0 (Some [''8.8.8.8'']) toy_dns)"

lemma toy_valid: "validateServers [''8.8.8.8''] = None"
  by (simp add: validateServers_def ParseIP_def valid_ipv4_def octet_def is_digit_def byte_val_def digits_val_def digit_val_def)

lemma toy_leased_eq:
  "toy_leased = toy_dns\<lparr>dm_lease := Some \<lparr>dl_Version = 1, dl_Deadline = leaseDuration, dl_Entries =
       [\<lparr>de_Service = toy_service, de_Original = None, de_Desired = Some [''8.8.8.8''], de_Applied = True\<rparr>]\<rparr>,
     dm_timer := Some leaseDuration, dm_watch := True,
     dm_disk := Stored \<lparr>dl_Version = 1, dl_Deadline = leaseDuration, dl_Entries =
       [\<lparr>de_Service = toy_service, de_Original = None, de_Desired = Some [''8.8.8.8''], de_Applied = True\<rparr>]\<rparr>,
     dm_dns := (\<lambda>_. None)(''A'' := Some [''8.8.8.8'']), dm_owed := (\<lambda>_. None)(''A'' := Some None)\<rparr>"
  by (simp add: toy_leased_def createLease_def toy_valid toy_dns_def set_servers_def set_fresh_def backend_Active_eq backend_GetDns_eq
      copy_slice_def persist_def marshalled_def syncDirectory_def backend_SetDns_def dm_call_eq owes_def mark_applied_def schedule_def toy_service_def)

lemma toy_reach: "dns_reach (\<lambda>_. 0) id toy_leased"
  unfolding toy_leased_def
  by (rule dns_reach.create, rule dns_reach.fresh) (simp_all add: toy_dns_def world_ok_def slice_ok_def service_ok_def toy_service_def)

lemmas dns_eval = createLease_def toy_valid set_servers_def set_fresh_def backend_Active_eq backend_GetDns_eq copy_slice_def persist_def
  marshalled_def syncDirectory_def backend_SetDns_def dm_call_eq owes_def mark_applied_def schedule_def release_def restore_def
  removeRecord_def stopTimers_def deleteLease_def Configure_def recover_def crash_def eval_nat_numeral Let_def

text \<open>
  Two gaps. A start that cannot read the record only reports it, and the next lease overwrites the
  record: the servers of the first lease stay for good. And a lease whose servers could neither be set
  cleanly nor be put back is kept without a timer.
\<close>

lemma unread_record_lost:
  "dm_dns (snd (deleteLease (\<lambda>_. 0) (snd (createLease (\<lambda>_. 0) 0 (Some [''8.8.8.8''])
     (snd (Configure (\<lambda>_. 0) 0 (crash [Done, Done, Fails] toy_leased))))))) ''A'' = Some [''8.8.8.8'']"
  by (simp add: toy_leased_eq toy_dns_def dns_eval toy_service_def)

lemma kept_without_timer:
  "dm_lease (snd (createLease (\<lambda>_. 0) 0 (Some [''8.8.8.8'']) (toy_dns\<lparr>dm_io := replicate 10 Done @ [Partial, Fails]\<rparr>))) \<noteq> None \<and>
   dm_timer (snd (createLease (\<lambda>_. 0) 0 (Some [''8.8.8.8'']) (toy_dns\<lparr>dm_io := replicate 10 Done @ [Partial, Fails]\<rparr>))) = None"
  by (simp add: toy_dns_def dns_eval toy_service_def)

lemma dns_restart_good:
  assumes "inj N" and "dns_reach J N m"
  shows "fst (Configure J now (crash [] m)) = None \<and> dm_disk (snd (Configure J now (crash [] m))) = Absent \<and>
     (\<forall>n original. dm_owed m n = Some original \<longrightarrow> dm_dns (snd (Configure J now (crash [] m))) n = original)"
proof -
  have inv: "dns_inv J N m" using assms by (rule dns_reach_inv)
  let ?c = "(crash [] m)\<lparr>dm_configured := True, dm_io := []\<rparr>"
  have conf: "Configure J now (crash [] m) = recover J now ?c" by (simp add: Configure_def crash_def)
  show ?thesis
  proof (cases "dm_disk m")
    case Absent
    then have "dm_owed m n = None" for n using crash_covers [OF inv] by (cases "dm_owed m n") (auto simp: covers_def)
    then show ?thesis using Absent unfolding conf by (simp add: recover_def crash_def)
  next
    case Garbage
    then show ?thesis using inv by (simp add: dns_inv_def disk_ok_def)
  next
    case (Stored r)
    then have rec: "record_ok N r" "J r \<le> maxRecordSize" using inv by (auto simp: dns_inv_def disk_ok_def)
    have entries: "list_all (entry_ok N) (dl_Entries r)" "distinct (map (ds_ID \<circ> de_Service) (dl_Entries r))"
      using rec(1) by (auto simp: record_ok_def)
    let ?m1 = "?c\<lparr>dm_lease := Some r\<rparr>"
    have "\<forall>e \<in> set (dl_Entries r). de_Original e \<noteq> Some []"
      using entries(1) by (auto simp: list_all_iff entry_ok_def slice_ok_def)
    note rel = release_ok [of ?m1 r, OF _ _ names_distinct [OF assms(1) entries] this]
      and all = restore_all_ok [of ?m1 "dl_Entries r", OF _ names_distinct [OF assms(1) entries] this]
    have c: "check_entries (dl_Entries r) = None" using entries(1) by (rule check_entries_ok)
    have "recover J now ?c = release J ?m1"
      using Stored rec c rel by (simp add: recover_def Let_def record_ok_def crash_def)
    moreover have "dm_dns (snd (restore_all (dl_Entries r) ?m1)) n = original" if owed: "dm_owed m n = Some original" for n original
    proof -
      obtain e where "e \<in> set (dl_Entries r)" "pays e n original m"
        using crash_covers [OF inv] owed Stored unfolding covers_def by auto
      then show ?thesis using all by (auto simp: pays_def crash_def)
    qed
    ultimately show ?thesis using rel conf by (simp add: crash_def stopTimers_def)
  qed
qed

section \<open>Properties\<close>



text \<open>
  A restart after a crash puts everything back: when its calls succeed, the start of the service
  after a crash in any reachable state reports no error, gives every network service the servers that
  the lease had replaced, and leaves no record behind.
\<close>

theorem dns_restart_restores:
  assumes "inj N" and "dns_reach J N m"
  shows "fst (Configure J now (crash [] m)) = None \<and> dm_disk (snd (Configure J now (crash [] m))) = Absent \<and>
     (\<forall>n original. dm_owed m n = Some original \<longrightarrow> dm_dns (snd (Configure J now (crash [] m))) n = original)"
  using assms by (rule dns_restart_good)

theorem dns_restart_restores_witness:
  "dm_dns (snd (Configure (\<lambda>_. 0) 5 (crash [] toy_leased))) ''A'' = None \<and> dm_dns toy_leased ''A'' = Some [''8.8.8.8'']"
  using dns_restart_restores [OF inj_on_id toy_reach, of 5] by (simp add: toy_leased_eq)

text \<open>
  Giving up the lease undoes exactly the lease: when the calls succeed, every network service of the
  lease that still has the servers of the lease gets its own back, one that somebody has edited in the
  meantime keeps the edit, every other service is left alone, and no lease, timer or record remains.
\<close>

theorem dns_release_exact:
  assumes "inj N" and "dns_reach J N m" and "dm_lease m = Some l" and "dm_io m = []"
  shows "fst (deleteLease J m) = None \<and> dm_lease (snd (deleteLease J m)) = None \<and> dm_timer (snd (deleteLease J m)) = None \<and>
     dm_disk (snd (deleteLease J m)) = Absent \<and>
     (\<forall>e \<in> set (dl_Entries l). dm_dns (snd (deleteLease J m)) (ds_Name (de_Service e)) =
        (if dm_dns m (ds_Name (de_Service e)) = de_Desired e then de_Original e else dm_dns m (ds_Name (de_Service e)))) \<and>
     (\<forall>n. n \<notin> (ds_Name \<circ> de_Service) ` set (dl_Entries l) \<longrightarrow> dm_dns (snd (deleteLease J m)) n = dm_dns m n)"
proof -
  have rec: "record_ok N l" using dns_reach_inv [OF assms(1,2)] assms(3) by (simp add: dns_inv_def)
  have entries: "list_all (entry_ok N) (dl_Entries l)" "distinct (map (ds_ID \<circ> de_Service) (dl_Entries l))"
    using rec by (auto simp: record_ok_def)
  have o: "\<forall>e \<in> set (dl_Entries l). de_Original e \<noteq> Some []"
    using entries(1) by (auto simp: list_all_iff entry_ok_def slice_ok_def)
  note d = names_distinct [OF assms(1) entries]
  show ?thesis
    using release_ok [OF assms(3,4) d o, of J] restore_all_ok [OF assms(4) d o] by (simp add: deleteLease_def stopTimers_def)
qed

theorem dns_release_exact_witness:
  "dm_dns (snd (deleteLease (\<lambda>_. 0) toy_leased)) ''A'' = None"
  using dns_release_exact [OF inj_on_id toy_reach] by (simp add: toy_leased_eq toy_dns_def toy_service_def)

text \<open>
  The life of a lease: a client that renews before each deadline keeps its lease, whatever timers
  fire in between; once the deadline has passed and the calls succeed, the next timer ends the lease,
  and no later renewal brings it back.
\<close>

theorem dns_lease_life:
  assumes "dm_lease m = Some l"
  shows "(prompt leaseDuration (dl_Deadline l) evs \<longrightarrow>
       dm_lease (run_lease (\<lambda>now m. snd (renewLease J now m)) (expire J) evs m) \<noteq> None) \<and>
     (dm_io m = [] \<and> dl_Deadline l \<le> now \<longrightarrow>
       dm_lease (run_lease (\<lambda>now m. snd (renewLease J now m)) (expire J) (Timer now # evs) m) = None)"
  using assms dns.prompt_keeps [of m evs J] dns.abandoned_released [of m now J evs]
  by (simp add: dns_held_def dns_deadline_def marshalled_def)

theorem dns_lease_life_witness:
  "dm_lease (run_lease (\<lambda>now m. snd (renewLease (\<lambda>_. 0) now m)) (expire (\<lambda>_. 0)) [Timer leaseDuration, Renewal leaseDuration] toy_leased) = None"
proof -
  obtain l where l: "dm_lease toy_leased = Some l" "dl_Deadline l = leaseDuration" "dm_io toy_leased = []"
    by (simp add: toy_leased_eq toy_dns_def)
  show ?thesis using dns_lease_life [OF l(1), of "[Renewal leaseDuration]" "\<lambda>_. 0" leaseDuration] l(2,3) by simp
qed

end
