(* ===== verification/Sysproxy_Settings.thy ===== *)
theory Sysproxy_Settings
  imports Auth_Keys "HOL-Library.Finite_Map"
begin

text \<open>
  The settings of the system proxy (\<open>route/sysproxyapi/sysproxy_guard.go\<close>, \<open>sysproxy_options*.go\<close>,
  \<open>sysproxy_guard_runner_linux.go\<close>, \<open>sysproxy_lease_recovery_*.go\<close>, \<open>sysproxy_native_handoff.go\<close>): the
  snapshot of what the service has set, the comparison with what the system has now, the user session
  on whose behalf a setting is made, and the options that are written to disk. Types and calls of the
  package sysproxy-go are parameters; its structures are written out as the sources use them. The
  platforms are Linux and macOS.
\<close>

section \<open>Definitions\<close>

type_synonym string_map = "(string, string) fmap"

record proxy_options =
  po_Proxy :: string
  po_Bypass :: string
  po_PACURL :: string
  po_Device :: string
  po_OnlyActiveDevice :: bool
  po_UseRegistry :: bool
  po_UserSID :: string
  po_PeerPID :: int
  po_PeerUID :: "32 word"
  po_PeerGID :: "32 word"
  po_Environment :: "string list"

definition no_options :: proxy_options where
  "no_options = \<lparr>po_Proxy = [], po_Bypass = [], po_PACURL = [], po_Device = [], po_OnlyActiveDevice = False, po_UseRegistry = False,
     po_UserSID = [], po_PeerPID = 0, po_PeerUID = 0, po_PeerGID = 0, po_Environment = []\<rparr>"

record proxy_config =
  pg_Enable :: bool
  pg_SameForAll :: bool
  pg_Servers :: string_map
  pg_Bypass :: string
  pg_PACEnable :: bool
  pg_PACURL :: string

text \<open>The calls of sysproxy-go, on a state of the system of any type; failures come from the callers' scripts.\<close>

record 'w sysproxy_lib =
  lib_Query :: "proxy_options \<Rightarrow> 'w \<Rightarrow> proxy_config"
  lib_SetProxy :: "proxy_options \<Rightarrow> 'w \<Rightarrow> 'w"
  lib_SetPac :: "proxy_options \<Rightarrow> 'w \<Rightarrow> 'w"
  lib_Disable :: "proxy_options \<Rightarrow> 'w \<Rightarrow> 'w"

definition sysproxyGuardModeProxy :: string where "sysproxyGuardModeProxy = ''proxy''"
definition sysproxyGuardModePAC :: string where "sysproxyGuardModePAC = ''pac''"

subsection \<open>Snapshots\<close>

record guard_snapshot =
  sn_Mode :: string
  sn_ProxyEnable :: bool
  sn_ProxySameForAll :: bool
  sn_ProxyServers :: string_map
  sn_ProxyBypass :: string
  sn_ProxyPACConflict :: bool
  sn_PACEnable :: bool
  sn_PACURL :: string
  sn_PACProxyConflict :: bool

text \<open>\<open>copyStringMap\<close> never returns an empty map that is not nil, so nil is the empty map.\<close>

definition copyStringMap :: "string_map \<Rightarrow> string_map" where
  "copyStringMap src = fmfilter (\<lambda>k. fmlookup src k \<noteq> Some []) src"

definition newSysproxyGuardSnapshot :: "string \<Rightarrow> proxy_config option \<Rightarrow> guard_snapshot" where
  "newSysproxyGuardSnapshot mode config =
     (let snapshot = \<lparr>sn_Mode = mode, sn_ProxyEnable = False, sn_ProxySameForAll = False, sn_ProxyServers = fmempty, sn_ProxyBypass = [],
                      sn_ProxyPACConflict = False, sn_PACEnable = False, sn_PACURL = [], sn_PACProxyConflict = False\<rparr>
      in case config of
           None \<Rightarrow> snapshot
         | Some c \<Rightarrow>
             if mode = sysproxyGuardModeProxy then
               snapshot\<lparr>sn_ProxyEnable := pg_Enable c, sn_ProxySameForAll := pg_SameForAll c, sn_ProxyServers := copyStringMap (pg_Servers c),
                        sn_ProxyBypass := pg_Bypass c, sn_ProxyPACConflict := pg_PACEnable c\<rparr>
             else if mode = sysproxyGuardModePAC then
               snapshot\<lparr>sn_PACEnable := pg_PACEnable c, sn_PACURL := pg_PACURL c, sn_PACProxyConflict := pg_Enable c\<rparr>
             else snapshot)"

definition sysproxyGuardMatches :: "string \<Rightarrow> guard_snapshot \<Rightarrow> proxy_config option \<Rightarrow> bool" where
  "sysproxyGuardMatches mode expected current = (expected = newSysproxyGuardSnapshot mode current)"

fun firstNonEmpty :: "string list \<Rightarrow> string" where
  "firstNonEmpty [] = []"
| "firstNonEmpty (v # vs) = (if v \<noteq> [] then v else firstNonEmpty vs)"

definition lookup_or_empty :: "string_map \<Rightarrow> string \<Rightarrow> string" where
  "lookup_or_empty m k = (case fmlookup m k of None \<Rightarrow> [] | Some v \<Rightarrow> v)"

definition fillSysproxyGuardApplyOptions :: "string \<Rightarrow> proxy_options \<Rightarrow> guard_snapshot \<Rightarrow> proxy_options" where
  "fillSysproxyGuardApplyOptions mode opts expected =
     (if mode = sysproxyGuardModeProxy then
        opts\<lparr>po_Proxy := firstNonEmpty [lookup_or_empty (sn_ProxyServers expected) ''http_server'',
               lookup_or_empty (sn_ProxyServers expected) ''https_server'', lookup_or_empty (sn_ProxyServers expected) ''socks_server'', po_Proxy opts],
             po_Bypass := sn_ProxyBypass expected\<rparr>
      else if mode = sysproxyGuardModePAC then opts\<lparr>po_PACURL := sn_PACURL expected\<rparr>
      else opts)"

definition newSysproxyGuardWatchOptions :: "proxy_options \<Rightarrow> proxy_options" where
  "newSysproxyGuardWatchOptions opts =
     no_options\<lparr>po_Device := po_Device opts, po_OnlyActiveDevice := po_OnlyActiveDevice opts, po_UseRegistry := po_UseRegistry opts\<rparr>"

subsection \<open>The user's session\<close>

text \<open>
  What a request carries: the peer of the socket, the environment of its process as the kernel shows it
  (nothing when it cannot be read), and the session that the platform finds for the user, or its error.
\<close>

record unix_peer =
  up_PID :: int
  up_UID :: "32 word"
  up_GID :: "32 word"

record proxy_peer =
  pp_peer :: "unix_peer option"
  pp_environ :: "string option"
  pp_session :: "(32 word \<times> string list) res"

record guard_runner =
  ru_id :: nat
  ru_env :: "string list"
  ru_uid :: "32 word"
  ru_gid :: "32 word"

definition recoveryLinuxEnvKeys :: "string list" where
  "recoveryLinuxEnvKeys = [''HOME'', ''PATH'', ''XDG_CURRENT_DESKTOP'', ''XDG_RUNTIME_DIR'', ''XDG_CONFIG_HOME'', ''XDG_DATA_HOME'',
     ''DBUS_SESSION_BUS_ADDRESS'', ''KDE_SESSION_VERSION'']"

definition prepareSysproxyOptions :: "string \<Rightarrow> proxy_peer \<Rightarrow> proxy_options \<Rightarrow> proxy_options" where
  "prepareSysproxyOptions goos r opts =
     (case (goos = ''linux'', pp_peer r) of
        (True, Some p) \<Rightarrow> opts\<lparr>po_PeerPID := up_PID p, po_PeerUID := up_UID p, po_PeerGID := up_GID p\<rparr>
      | _ \<Rightarrow> opts)"

definition readLinuxProcessEnv :: "string option \<Rightarrow> string list res" where
  "readLinuxProcessEnv file0 =
     (case file0 of
        None \<Rightarrow> Inl SysErr
      | Some data \<Rightarrow> Inr (filter (\<lambda>item. item \<noteq> [] \<and> CHR ''='' \<in> set item) (split_at (CHR 0x00) data)))"

definition recoverable_item :: "string \<Rightarrow> bool" where
  "recoverable_item item = (case strings_Cut item (CHR ''='') of (key, val, ok) \<Rightarrow> ok \<and> val \<noteq> [] \<and> key \<in> set recoveryLinuxEnvKeys)"

definition captureLinuxSysproxyGuardRunner :: "nat \<Rightarrow> unix_peer \<Rightarrow> proxy_peer \<Rightarrow> guard_runner res" where
  "captureLinuxSysproxyGuardRunner i peer r =
     (case readLinuxProcessEnv (pp_environ r) of
        Inl e \<Rightarrow> Inl (Wrapped ''Failed to read connected process environment'' e)
      | Inr peerEnv \<Rightarrow>
          if list_ex recoverable_item peerEnv then Inr \<lparr>ru_id = i, ru_env = peerEnv, ru_uid = up_UID peer, ru_gid = up_GID peer\<rparr>
          else (case pp_session r of
              Inl e \<Rightarrow> Inl e
            | Inr (uid, env) \<Rightarrow>
                if uid \<noteq> up_UID peer then Inl (Plain ''resolved Linux session does not match its socket identity'')
                else Inr \<lparr>ru_id = i, ru_env = env, ru_uid = up_UID peer, ru_gid = up_GID peer\<rparr>))"

definition captureSysproxyGuardRunner :: "string \<Rightarrow> nat \<Rightarrow> proxy_peer \<Rightarrow> guard_runner res" where
  "captureSysproxyGuardRunner goos i r =
     (if goos = ''linux'' then
        (case pp_peer r of
           None \<Rightarrow> Inl (Plain ''system proxy request has no Linux user identity'')
         | Some peer \<Rightarrow> captureLinuxSysproxyGuardRunner i peer r)
      else Inr \<lparr>ru_id = i, ru_env = [], ru_uid = 0, ru_gid = 0\<rparr>)"

definition sessionOptions :: "string \<Rightarrow> guard_runner \<Rightarrow> proxy_options \<Rightarrow> proxy_options" where
  "sessionOptions goos r opts =
     (if goos = ''linux'' then opts\<lparr>po_Environment := ru_env r, po_PeerUID := ru_uid r, po_PeerGID := ru_gid r\<rparr> else opts)"

subsection \<open>What is written to disk\<close>

record managed_options =
  mo_Device :: string
  mo_OnlyActiveDevice :: bool
  mo_UseRegistry :: bool
  mo_UserSID :: string
  mo_PeerUID :: "32 word"
  mo_PeerGID :: "32 word"
  mo_Environment :: "string list"

record managed_record =
  mr_Version :: int
  mr_Mode :: string
  mr_Options :: managed_options
  mr_Expected :: guard_snapshot

definition managedProxyRecordVersion :: int where "managedProxyRecordVersion = 1"
definition maxManagedProxyRecordSize :: nat where "maxManagedProxyRecordSize = 32 * 2 ^ 10"

definition sysproxyOptions :: "managed_options \<Rightarrow> proxy_options" where
  "sysproxyOptions mo =
     no_options\<lparr>po_Device := mo_Device mo, po_OnlyActiveDevice := mo_OnlyActiveDevice mo, po_UseRegistry := mo_UseRegistry mo,
       po_UserSID := mo_UserSID mo, po_PeerUID := mo_PeerUID mo, po_PeerGID := mo_PeerGID mo, po_Environment := mo_Environment mo\<rparr>"

definition managedOptionsFromSysproxy :: "proxy_options \<Rightarrow> managed_options" where
  "managedOptionsFromSysproxy opts =
     \<lparr>mo_Device = po_Device opts, mo_OnlyActiveDevice = po_OnlyActiveDevice opts, mo_UseRegistry = po_UseRegistry opts,
      mo_UserSID = po_UserSID opts, mo_PeerUID = po_PeerUID opts, mo_PeerGID = po_PeerGID opts, mo_Environment = po_Environment opts\<rparr>"

definition recovery_env :: "string list \<Rightarrow> string list" where
  "recovery_env env = filter (\<lambda>item. case strings_Cut item (CHR ''='') of (key, _, ok) \<Rightarrow> ok \<and> key \<in> set recoveryLinuxEnvKeys) env"

definition recoverySysproxyOptions :: "string \<Rightarrow> proxy_options \<Rightarrow> guard_runner \<Rightarrow> proxy_options res" where
  "recoverySysproxyOptions goos opts r =
     (if goos = ''linux'' then
        let recovery = opts\<lparr>po_PeerPID := 0, po_PeerUID := ru_uid r, po_PeerGID := ru_gid r, po_Environment := recovery_env (ru_env r)\<rparr>
        in if po_Environment recovery = [] \<or> po_PeerUID recovery = 0
           then Inl (Plain ''managed system proxy has no recoverable Linux user session'') else Inr recovery
      else Inr opts)"

text \<open>\<open>bound\<close> is the user that the key manager is bound to.\<close>

definition validateManagedProxyRecoveryOptions :: "string \<Rightarrow> 32 word option \<Rightarrow> managed_options \<Rightarrow> err option" where
  "validateManagedProxyRecoveryOptions goos bound mo =
     (if goos = ''linux'' then
        (case bound of
           None \<Rightarrow> Some (Plain ''managed system proxy recovery user does not match the authorized Linux user'')
         | Some uid \<Rightarrow>
             if uid = 0 \<or> uid \<noteq> mo_PeerUID mo \<or> mo_Environment mo = []
             then Some (Plain ''managed system proxy recovery user does not match the authorized Linux user'') else None)
      else None)"

subsection \<open>Settings that the client made itself\<close>

text \<open>
  \<open>strings.FieldsFunc\<close> at semicolons and commas: the non-empty pieces between them.
\<close>

definition bypass_fields :: "string \<Rightarrow> string list" where
  "bypass_fields s = filter (\<lambda>p. p \<noteq> []) (concat (map (split_at (CHR '';'')) (split_at (CHR '','') s)))"

definition normalizedNativeBypass :: "unicode \<Rightarrow> string \<Rightarrow> string" where
  "normalizedNativeBypass U val =
     strings_Join (sort (map trim_space (bypass_fields (strings_ToLower U val)))) '';''"

definition native_matches :: "unicode \<Rightarrow> string \<Rightarrow> proxy_options \<Rightarrow> guard_snapshot \<Rightarrow> bool" where
  "native_matches U mode opts expected =
     (if mode = sysproxyGuardModePAC then sn_PACEnable expected \<and> \<not> sn_PACProxyConflict expected \<and> sn_PACURL expected = po_PACURL opts
      else
        let server = firstNonEmpty [lookup_or_empty (sn_ProxyServers expected) ''http_server'',
               lookup_or_empty (sn_ProxyServers expected) ''https_server'', lookup_or_empty (sn_ProxyServers expected) ''socks_server'']
        in sn_ProxyEnable expected \<and> \<not> sn_ProxyPACConflict expected \<and> server = po_Proxy opts \<and>
           normalizedNativeBypass U (sn_ProxyBypass expected) = normalizedNativeBypass U (po_Bypass opts) \<and>
           fmpred (\<lambda>_ address. address = [] \<or> address = po_Proxy opts) (sn_ProxyServers expected))"

fun splitBypassRules_loop :: "string list \<Rightarrow> string list" where
  "splitBypassRules_loop [] = []"
| "splitBypassRules_loop (p # ps) = (let r = trim_space p in if r \<noteq> [] then r # splitBypassRules_loop ps else splitBypassRules_loop ps)"

definition splitBypassRules :: "string \<Rightarrow> string list" where
  "splitBypassRules bypass = splitBypassRules_loop (split_at (CHR '','') bypass)"

section \<open>Lemmas\<close>

text \<open>A snapshot matches the settings it was taken from, and keeps what a comparison needs.\<close>

lemma snapshot_matches: "sysproxyGuardMatches mode (newSysproxyGuardSnapshot mode c) c"
  by (simp add: sysproxyGuardMatches_def)

lemma snapshot_pac_mode:
  "sysproxyGuardMatches sysproxyGuardModePAC (newSysproxyGuardSnapshot sysproxyGuardModePAC (Some a)) (Some b) \<longleftrightarrow>
     pg_PACEnable a = pg_PACEnable b \<and> pg_PACURL a = pg_PACURL b \<and> pg_Enable a = pg_Enable b"
  by (auto simp: sysproxyGuardMatches_def newSysproxyGuardSnapshot_def sysproxyGuardModePAC_def sysproxyGuardModeProxy_def)

text \<open>The options that are read from a record are those that were written.\<close>

lemma managed_options_roundtrip: "managedOptionsFromSysproxy (sysproxyOptions mo) = mo"
  by (simp add: managedOptionsFromSysproxy_def sysproxyOptions_def no_options_def)

lemma recovery_options_session:
  assumes "recoverySysproxyOptions ''linux'' opts r = Inr rec"
  shows "po_PeerUID rec = ru_uid r \<and> po_PeerGID rec = ru_gid r \<and> po_PeerPID rec = 0 \<and> set (po_Environment rec) \<subseteq> set (ru_env r)"
  using assms by (auto simp: recoverySysproxyOptions_def Let_def recovery_env_def split: if_splits)

end
