(* ===== verification/Sysproxy_Lease.thy ===== *)
theory Sysproxy_Lease
  imports Sysproxy_Settings Client_Lease
begin

text \<open>
  The system proxy on behalf of the client (\<open>route/sysproxyapi\<close>): the lease on the setting
  (\<open>sysproxy_lease.go\<close>), its record on disk and the recovery after a crash
  (\<open>sysproxy_lease_store.go\<close>), the guard that puts the setting back when somebody changes it
  (\<open>sysproxy_guard.go\<close>), the events it publishes (\<open>sysproxy_events.go\<close>), the handover to a client that
  sets the proxy itself (\<open>sysproxy_native_handoff.go\<close>), network changes (\<open>sysproxy_reconcile.go\<close>), the PAC
  server (\<open>pac_server.go\<close>) and the request handlers (\<open>sysproxy.go\<close>). One mutex serialises the mutations,
  so they are functions on the record \<open>sysproxy\<close>, whose parameter is the state of the system that the
  package sysproxy-go reads and writes. The record on disk is kept as a value, of which \<open>json_len\<close> is the
  length in JSON: its texts are taken to be valid UTF-8, which JSON gives back as they were.
\<close>

section \<open>Definitions\<close>

definition sysproxyLeaseDuration :: int where "sysproxyLeaseDuration = 60 * second"
definition sysproxyLeaseRetry :: int where "sysproxyLeaseRetry = 15 * second"
definition maxPACScriptBytes :: nat where "maxPACScriptBytes = 1024 * 1024"

record proxy_lease =
  pl_pacServer :: "string option"
  pl_mode :: string
  pl_opts :: proxy_options
  pl_expected :: guard_snapshot
  pl_runner :: guard_runner
  pl_deadline :: int
  pl_generation :: "64 word"
  pl_timer :: "int option"
  pl_reconcileTimer :: bool
  pl_networkSignature :: string

record guard_config =
  gc_mode :: string
  gc_opts :: proxy_options
  gc_watchOpts :: proxy_options
  gc_expected :: guard_snapshot
  gc_runner :: guard_runner

text \<open>A running goroutine of the guard, with its variable \<open>lastErr\<close>.\<close>

record guard_loop =
  gl_generation :: "64 word"
  gl_config :: guard_config
  gl_lastErr :: string

record proxy_event =
  pe_Seq :: "64 word"
  pe_Type :: string
  pe_Guard :: bool
  pe_Mode :: string
  pe_Message :: string
  pe_Error :: string

text \<open>A subscriber is its channel: a number, the capacity and what waits in it.\<close>

record event_hub =
  eh_subscribers :: "(nat \<times> nat \<times> proxy_event list) list"
  eh_last :: proxy_event
  eh_nextSeq :: "64 word"

record proxy_request =
  pr_Server :: string
  pr_Bypass :: string
  pr_Url :: string
  pr_Script :: "string option"
  pr_Device :: string
  pr_OnlyActiveDevice :: bool
  pr_UseRegistry :: bool
  pr_Guard :: bool

text \<open>
  \<open>sp_open\<close> are the numbers of the runners that have not been closed, \<open>sp_pacServers\<close> the addresses that
  are being served, \<open>sp_bound\<close> is the user of the key manager.
\<close>

record 'w sysproxy =
  sp_GOOS :: string
  sp_bound :: "32 word option"
  sp_configured :: bool
  sp_lease :: "proxy_lease option"
  sp_leaseGeneration :: "64 word"
  sp_recoveryTimer :: bool
  sp_recoveryGeneration :: "64 word"
  sp_guardGeneration :: "64 word"
  sp_guardCancel :: bool
  sp_loops :: "guard_loop list"
  sp_disk :: "managed_record store"
  sp_hub :: event_hub
  sp_open :: "nat list"
  sp_nextRunner :: nat
  sp_pacServers :: "string list"
  sp_world :: 'w
  sp_io :: "io list"

subsection \<open>Events\<close>

definition newSysproxyEvent :: "string \<Rightarrow> string \<Rightarrow> bool \<Rightarrow> string \<Rightarrow> err option \<Rightarrow> proxy_event" where
  "newSysproxyEvent eventType mode guard message e =
     \<lparr>pe_Seq = 0, pe_Type = eventType, pe_Guard = guard, pe_Mode = mode, pe_Message = message,
      pe_Error = (case e of None \<Rightarrow> [] | Some x \<Rightarrow> err_text x)\<rparr>"

definition deliver :: "proxy_event \<Rightarrow> nat \<times> nat \<times> proxy_event list \<Rightarrow> nat \<times> nat \<times> proxy_event list" where
  "deliver ev ch = (case ch of (i, cap, q) \<Rightarrow> (i, cap, if length q < cap then q @ [ev] else q))"

definition hub_publish :: "proxy_event \<Rightarrow> event_hub \<Rightarrow> event_hub" where
  "hub_publish ev h =
     (let ev' = ev\<lparr>pe_Seq := eh_nextSeq h + 1\<rparr>
      in h\<lparr>eh_nextSeq := eh_nextSeq h + 1, eh_last := ev', eh_subscribers := map (deliver ev') (eh_subscribers h)\<rparr>)"

definition publishSysproxyGuardEvent :: "string \<Rightarrow> string \<Rightarrow> bool \<Rightarrow> string \<Rightarrow> err option \<Rightarrow> 'w sysproxy \<Rightarrow> 'w sysproxy" where
  "publishSysproxyGuardEvent eventType mode guard message e s =
     s\<lparr>sp_hub := hub_publish (newSysproxyEvent eventType mode guard message e) (sp_hub s)\<rparr>"

definition subscribeSysproxyEvents :: "nat \<Rightarrow> nat \<Rightarrow> event_hub \<Rightarrow> event_hub" where
  "subscribeSysproxyEvents i buffer h =
     (let last0 = eh_last h;
          first = (if pe_Type last0 = [] then newSysproxyEvent ''guard_stopped'' [] False ''System proxy guard is not running'' None else last0)
      in h\<lparr>eh_subscribers := eh_subscribers h @ [(i, max 1 buffer, [first])]\<rparr>)"

definition unsubscribe_events :: "nat \<Rightarrow> event_hub \<Rightarrow> event_hub" where
  "unsubscribe_events i h = h\<lparr>eh_subscribers := filter (\<lambda>(j, _). j \<noteq> i) (eh_subscribers h)\<rparr>"

subsection \<open>Runners\<close>

definition sp_call :: "'w sysproxy \<Rightarrow> io \<times> 'w sysproxy" where
  "sp_call s = (case next_io (sp_io s) of (r, ios) \<Rightarrow> (r, s\<lparr>sp_io := ios\<rparr>))"

definition capture_runner :: "proxy_peer \<Rightarrow> 'w sysproxy \<Rightarrow> guard_runner res \<times> 'w sysproxy" where
  "capture_runner r s =
     (case captureSysproxyGuardRunner (sp_GOOS s) (sp_nextRunner s) r of
        Inl e \<Rightarrow> (Inl e, s)
      | Inr runner \<Rightarrow> (Inr runner, s\<lparr>sp_open := sp_open s @ [ru_id runner], sp_nextRunner := sp_nextRunner s + 1\<rparr>))"

definition runner_Query :: "'w sysproxy_lib \<Rightarrow> guard_runner \<Rightarrow> proxy_options \<Rightarrow> 'w sysproxy \<Rightarrow> proxy_config res \<times> 'w sysproxy" where
  "runner_Query L r opts s =
     (case sp_call s of (out, s') \<Rightarrow>
        (if out = Done then Inr (lib_Query L (sessionOptions (sp_GOOS s) r opts) (sp_world s')) else Inl SysErr, s'))"

definition change_world :: "('w \<Rightarrow> 'w) \<Rightarrow> 'w sysproxy \<Rightarrow> err option \<times> 'w sysproxy" where
  "change_world f s =
     (case sp_call s of (out, s') \<Rightarrow>
        (case out of Done \<Rightarrow> (None, s'\<lparr>sp_world := f (sp_world s')\<rparr>)
         | Partial \<Rightarrow> (Some SysErr, s'\<lparr>sp_world := f (sp_world s')\<rparr>)
         | Fails \<Rightarrow> (Some SysErr, s')))"

definition runner_Apply :: "'w sysproxy_lib \<Rightarrow> guard_runner \<Rightarrow> string \<Rightarrow> proxy_options \<Rightarrow> 'w sysproxy \<Rightarrow> err option \<times> 'w sysproxy" where
  "runner_Apply L r mode opts s =
     (if mode = sysproxyGuardModeProxy then change_world (lib_SetProxy L (sessionOptions (sp_GOOS s) r opts)) s
      else if mode = sysproxyGuardModePAC then change_world (lib_SetPac L (sessionOptions (sp_GOOS s) r opts)) s
      else (Some (Plainf ''Unknown system proxy guard mode'' [mode]), s))"

definition runner_Disable :: "'w sysproxy_lib \<Rightarrow> guard_runner \<Rightarrow> proxy_options \<Rightarrow> 'w sysproxy \<Rightarrow> err option \<times> 'w sysproxy" where
  "runner_Disable L r opts s = change_world (lib_Disable L (sessionOptions (sp_GOOS s) r opts)) s"

definition runner_Close :: "guard_runner \<Rightarrow> 'w sysproxy \<Rightarrow> 'w sysproxy" where
  "runner_Close r s = s\<lparr>sp_open := filter (\<lambda>i. i \<noteq> ru_id r) (sp_open s)\<rparr>"

subsection \<open>PAC server\<close>

definition startManagedPACServer :: "nat \<Rightarrow> string \<Rightarrow> 'w sysproxy \<Rightarrow> string res \<times> 'w sysproxy" where
  "startManagedPACServer port script s =
     (if script = [] \<or> length script > maxPACScriptBytes then (Inl (Plain ''PAC script must contain 1 to 1048576 bytes''), s)
      else (case sp_call s of (out, s') \<Rightarrow>
          if out \<noteq> Done then (Inl SysErr, s')
          else let url = ''http://127.0.0.1:'' @ format_nat port @ ''/pac''
               in (Inr url, s'\<lparr>sp_pacServers := sp_pacServers s' @ [url]\<rparr>)))"

definition pac_close :: "string option \<Rightarrow> 'w sysproxy \<Rightarrow> 'w sysproxy" where
  "pac_close p s = (case p of None \<Rightarrow> s | Some url \<Rightarrow> s\<lparr>sp_pacServers := remove1 url (sp_pacServers s)\<rparr>)"

subsection \<open>Guard: start and stop\<close>

definition guard_stop :: "'w sysproxy \<Rightarrow> 'w sysproxy" where
  "guard_stop s =
     (let s1 = s\<lparr>sp_guardGeneration := sp_guardGeneration s + 1, sp_guardCancel := False\<rparr>
      in if sp_guardCancel s then publishSysproxyGuardEvent ''guard_stopped'' [] False ''System proxy guard stopped'' None s1 else s1)"

definition StopGuard :: "'w sysproxy \<Rightarrow> 'w sysproxy" where "StopGuard s = guard_stop s"

definition guard_start :: "guard_config \<Rightarrow> 'w sysproxy \<Rightarrow> 'w sysproxy" where
  "guard_start config s =
     (let g = sp_guardGeneration s + 1;
          s1 = publishSysproxyGuardEvent ''guard_started'' (gc_mode config) True ''System proxy guard started'' None
                 (s\<lparr>sp_guardGeneration := g, sp_guardCancel := True\<rparr>)
      in s1\<lparr>sp_loops := sp_loops s1 @ [\<lparr>gl_generation = g, gl_config = config, gl_lastErr = []\<rparr>]\<rparr>)"

definition configureSysproxyGuard ::
  "'w sysproxy_lib \<Rightarrow> proxy_peer \<Rightarrow> bool \<Rightarrow> string \<Rightarrow> proxy_options \<Rightarrow> 'w sysproxy \<Rightarrow> err option \<times> 'w sysproxy" where
  "configureSysproxyGuard L r enabled mode opts s =
     (if \<not> enabled then (None, StopGuard s)
      else (case capture_runner r s of
          (Inl e, s1) \<Rightarrow> (Some (Wrapped ''Failed to initialize system proxy guard'' e), s1)
        | (Inr runner, s1) \<Rightarrow>
            (case runner_Query L runner opts s1 of
               (Inl e, s2) \<Rightarrow> (Some (Wrapped ''Failed to read system proxy guard target'' e), runner_Close runner s2)
             | (Inr current, s2) \<Rightarrow>
                 let expected = newSysproxyGuardSnapshot mode (Some current);
                     guardOpts = fillSysproxyGuardApplyOptions mode opts expected
                 in (None, guard_start \<lparr>gc_mode = mode, gc_opts = guardOpts, gc_watchOpts = newSysproxyGuardWatchOptions guardOpts,
                       gc_expected = expected, gc_runner = runner\<rparr> s2))))"

definition configureSysproxyGuardBestEffort ::
  "'w sysproxy_lib \<Rightarrow> proxy_peer \<Rightarrow> bool \<Rightarrow> string \<Rightarrow> proxy_options \<Rightarrow> 'w sysproxy \<Rightarrow> 'w sysproxy" where
  "configureSysproxyGuardBestEffort L r enabled mode opts s =
     (case configureSysproxyGuard L r enabled mode opts s of
        (Some e, s1) \<Rightarrow> publishSysproxyGuardEvent ''guard_watch_failed'' mode False ''Failed to start system proxy guard; it has stopped'' (Some e) s1
      | (None, s1) \<Rightarrow> s1)"

subsection \<open>The record on disk\<close>

definition removeManagedProxyRecord :: "'w sysproxy \<Rightarrow> err option \<times> 'w sysproxy" where
  "removeManagedProxyRecord s =
     (if \<not> sp_configured s \<or> sp_disk s = Absent then (None, s)
      else (case sp_call s of (out, s') \<Rightarrow> if out = Done then (None, s'\<lparr>sp_disk := Absent\<rparr>) else (Some SysErr, s')))"

text \<open>
  The directory is prepared (two calls), a temporary file is created, given its permissions, written,
  synced, closed and renamed; then the directory is synced, whose failure leaves the new record.
\<close>

definition writeManagedProxyRecord :: "(managed_record \<Rightarrow> nat) \<Rightarrow> managed_record \<Rightarrow> 'w sysproxy \<Rightarrow> err option \<times> 'w sysproxy" where
  "writeManagedProxyRecord json_len rec s =
     (if json_len rec > maxManagedProxyRecordSize then (Some (Plain ''managed system proxy record is too large''), s)
      else (case run_ios 8 (sp_io s) of
          (False, ios) \<Rightarrow> (Some SysErr, s\<lparr>sp_io := ios\<rparr>)
        | (True, ios) \<Rightarrow>
            (case run_ios 2 ios of (ok, ios') \<Rightarrow> (if ok then None else Some SysErr, s\<lparr>sp_disk := Stored rec, sp_io := ios'\<rparr>))))"

definition persistManagedProxy :: "(managed_record \<Rightarrow> nat) \<Rightarrow> proxy_lease \<Rightarrow> 'w sysproxy \<Rightarrow> err option \<times> 'w sysproxy" where
  "persistManagedProxy json_len l s =
     (if \<not> sp_configured s then (Some (Plain ''managed system proxy recovery is not configured''), s)
      else (case recoverySysproxyOptions (sp_GOOS s) (pl_opts l) (pl_runner l) of
          Inl e \<Rightarrow> (Some e, s)
        | Inr options \<Rightarrow>
            (case validateManagedProxyRecoveryOptions (sp_GOOS s) (sp_bound s) (managedOptionsFromSysproxy options) of
               Some e \<Rightarrow> (Some e, s)
             | None \<Rightarrow>
                 writeManagedProxyRecord json_len
                   \<lparr>mr_Version = managedProxyRecordVersion, mr_Mode = pl_mode l, mr_Options = managedOptionsFromSysproxy options,
                    mr_Expected = pl_expected l\<rparr> s)))"

definition stopManagedProxyRecovery :: "'w sysproxy \<Rightarrow> 'w sysproxy" where
  "stopManagedProxyRecovery s = s\<lparr>sp_recoveryGeneration := sp_recoveryGeneration s + 1, sp_recoveryTimer := False\<rparr>"

definition scheduleManagedProxyRecovery :: "'w sysproxy \<Rightarrow> 'w sysproxy" where
  "scheduleManagedProxyRecovery s = (stopManagedProxyRecovery s)\<lparr>sp_recoveryTimer := True\<rparr>"

definition recoverManagedProxyRecordWith :: "'w sysproxy_lib \<Rightarrow> managed_record \<Rightarrow> 'w sysproxy \<Rightarrow> err option \<times> 'w sysproxy" where
  "recoverManagedProxyRecordWith L rec s =
     (let opts = sysproxyOptions (mr_Options rec) in
      case sp_call s of (out, s1) \<Rightarrow>
        if out \<noteq> Done then (Some (Wrapped ''query managed system proxy during recovery'' SysErr), s1)
        else if \<not> sysproxyGuardMatches (mr_Mode rec) (mr_Expected rec) (Some (lib_Query L opts (sp_world s1))) then (None, s1)
        else (case change_world (lib_Disable L opts) s1 of
            (Some e, s2) \<Rightarrow> (Some (Wrapped ''disable stale managed system proxy'' e), s2)
          | (None, s2) \<Rightarrow> (None, s2)))"

definition recoverManagedProxyRecord :: "'w sysproxy_lib \<Rightarrow> managed_record \<Rightarrow> 'w sysproxy \<Rightarrow> err option \<times> 'w sysproxy" where
  "recoverManagedProxyRecord L rec s =
     (case validateManagedProxyRecoveryOptions (sp_GOOS s) (sp_bound s) (mr_Options rec) of
        Some e \<Rightarrow> (Some e, s)
      | None \<Rightarrow> recoverManagedProxyRecordWith L rec s)"

definition recoverManagedProxy :: "'w sysproxy_lib \<Rightarrow> (managed_record \<Rightarrow> nat) \<Rightarrow> 'w sysproxy \<Rightarrow> err option \<times> 'w sysproxy" where
  "recoverManagedProxy L json_len s =
     (if sp_disk s = Absent then (None, s)
      else (case run_ios 2 (sp_io s) of
          (False, ios) \<Rightarrow> (Some SysErr, s\<lparr>sp_io := ios\<rparr>)
        | (True, ios) \<Rightarrow>
            let s1 = s\<lparr>sp_io := ios\<rparr> in
            (case sp_disk s of
               Stored rec \<Rightarrow>
                 if json_len rec > maxManagedProxyRecordSize then (Some (Plain ''managed system proxy record is too large''), s1)
                 else if mr_Version rec \<noteq> managedProxyRecordVersion \<or> (mr_Mode rec \<noteq> sysproxyGuardModeProxy \<and> mr_Mode rec \<noteq> sysproxyGuardModePAC)
                 then (Some (Plain ''unsupported managed system proxy record''), s1)
                 else (case recoverManagedProxyRecord L rec s1 of
                     (Some e, s2) \<Rightarrow> (Some e, s2)
                   | (None, s2) \<Rightarrow> removeManagedProxyRecord s2)
             | _ \<Rightarrow> (Some (Wrapped ''decode managed system proxy record'' SysErr), s1))))"

definition ConfigureManagedProxyRecovery :: "'w sysproxy_lib \<Rightarrow> (managed_record \<Rightarrow> nat) \<Rightarrow> 'w sysproxy \<Rightarrow> err option \<times> 'w sysproxy" where
  "ConfigureManagedProxyRecovery L json_len s =
     (let s1 = (stopManagedProxyRecovery s)\<lparr>sp_configured := True\<rparr> in
      case run_ios 2 (sp_io s1) of
        (False, ios) \<Rightarrow> (Some SysErr, s1\<lparr>sp_io := ios\<rparr>)
      | (True, ios) \<Rightarrow>
          (case recoverManagedProxy L json_len (s1\<lparr>sp_io := ios\<rparr>) of
             (Some e, s2) \<Rightarrow> (Some e, scheduleManagedProxyRecovery s2)
           | (None, s2) \<Rightarrow> (None, s2)))"

text \<open>The function that the retry timer of generation \<open>g\<close> runs.\<close>

definition recovery_retry :: "'w sysproxy_lib \<Rightarrow> (managed_record \<Rightarrow> nat) \<Rightarrow> 64 word \<Rightarrow> 'w sysproxy \<Rightarrow> 'w sysproxy" where
  "recovery_retry L json_len g s =
     (if g \<noteq> sp_recoveryGeneration s \<or> sp_lease s \<noteq> None then s
      else (case recoverManagedProxy L json_len s of
          (Some _, s1) \<Rightarrow> scheduleManagedProxyRecovery s1
        | (None, s1) \<Rightarrow> s1))"

subsection \<open>The lease\<close>

definition captureSysproxyLease ::
  "'w sysproxy_lib \<Rightarrow> string \<Rightarrow> proxy_options \<Rightarrow> guard_runner \<Rightarrow> 'w sysproxy \<Rightarrow> proxy_lease res \<times> 'w sysproxy" where
  "captureSysproxyLease L mode opts runner s =
     (case runner_Query L runner opts s of
        (Inl e, s1) \<Rightarrow> (Inl (Wrapped ''query managed system proxy'' e), s1)
      | (Inr current, s1) \<Rightarrow>
          (Inr \<lparr>pl_pacServer = None, pl_mode = mode, pl_opts = opts, pl_expected = newSysproxyGuardSnapshot mode (Some current),
                pl_runner = runner, pl_deadline = 0, pl_generation = 0, pl_timer = None, pl_reconcileTimer = False, pl_networkSignature = []\<rparr>, s1))"

definition clearSysproxyLease :: "'w sysproxy \<Rightarrow> 'w sysproxy" where
  "clearSysproxyLease s =
     (case sp_lease s of
        None \<Rightarrow> s
      | Some l \<Rightarrow> runner_Close (pl_runner l) (pac_close (pl_pacServer l) (s\<lparr>sp_lease := None\<rparr>)))"

definition forgetSysproxyLease :: "'w sysproxy \<Rightarrow> 'w sysproxy" where
  "forgetSysproxyLease s = snd (removeManagedProxyRecord (clearSysproxyLease s))"

definition renewSysproxyLease :: "int \<Rightarrow> 'w sysproxy \<Rightarrow> bool \<times> 'w sysproxy" where
  "renewSysproxyLease now s =
     (case sp_lease s of
        None \<Rightarrow> (False, s)
      | Some l \<Rightarrow> (True, s\<lparr>sp_lease := Some (l\<lparr>pl_deadline := now + sysproxyLeaseDuration, pl_timer := Some (now + sysproxyLeaseDuration)\<rparr>)\<rparr>))"

definition scheduleSysproxyReconcile :: "'w sysproxy \<Rightarrow> 'w sysproxy" where
  "scheduleSysproxyReconcile s = s\<lparr>sp_lease := map_option (\<lambda>l. l\<lparr>pl_reconcileTimer := True\<rparr>) (sp_lease s)\<rparr>"

definition replaceSysproxyLease :: "int \<Rightarrow> proxy_lease \<Rightarrow> 'w sysproxy \<Rightarrow> 'w sysproxy" where
  "replaceSysproxyLease now l s =
     (let s1 = clearSysproxyLease (stopManagedProxyRecovery s);
          g = sp_leaseGeneration s1 + 1;
          s2 = s1\<lparr>sp_leaseGeneration := g, sp_lease := Some (l\<lparr>pl_generation := g\<rparr>)\<rparr>;
          s3 = snd (renewSysproxyLease now s2)
      in if sp_GOOS s = ''darwin'' then scheduleSysproxyReconcile s3 else s3)"

definition releaseSysproxyLease :: "'w sysproxy_lib \<Rightarrow> 'w sysproxy \<Rightarrow> err option \<times> 'w sysproxy" where
  "releaseSysproxyLease L s =
     (case sp_lease s of
        None \<Rightarrow> (None, s)
      | Some l \<Rightarrow>
          (case runner_Query L (pl_runner l) (pl_opts l) s of
             (Inl e, s1) \<Rightarrow> (Some (Wrapped ''query system proxy before cleanup'' e), s1)
           | (Inr current, s1) \<Rightarrow>
               if \<not> sysproxyGuardMatches (pl_mode l) (pl_expected l) (Some current) then (None, s1)
               else (case runner_Disable L (pl_runner l) (pl_opts l) s1 of
                   (Some e, s2) \<Rightarrow> (Some (Wrapped ''disable managed system proxy'' e), s2)
                 | (None, s2) \<Rightarrow> (None, s2))))"

definition set_timer :: "int \<Rightarrow> 'w sysproxy \<Rightarrow> 'w sysproxy" where
  "set_timer t s = s\<lparr>sp_lease := map_option (\<lambda>l. l\<lparr>pl_timer := Some t\<rparr>) (sp_lease s)\<rparr>"

definition expireSysproxyLease :: "'w sysproxy_lib \<Rightarrow> int \<Rightarrow> 64 word \<Rightarrow> 'w sysproxy \<Rightarrow> 'w sysproxy" where
  "expireSysproxyLease L now generation s =
     (case sp_lease s of
        None \<Rightarrow> s
      | Some l \<Rightarrow>
          if pl_generation l \<noteq> generation then s
          else if pl_deadline l > now then set_timer (pl_deadline l) s
          else (case releaseSysproxyLease L (StopGuard s) of
              (Some _, s1) \<Rightarrow> set_timer (now + sysproxyLeaseRetry) s1
            | (None, s1) \<Rightarrow> forgetSysproxyLease s1))"

definition StopManagedProxy :: "'w sysproxy_lib \<Rightarrow> 'w sysproxy \<Rightarrow> err option \<times> 'w sysproxy" where
  "StopManagedProxy L s =
     (let s1 = StopGuard (stopManagedProxyRecovery s) in
      if sp_lease s1 = None then (None, s1)
      else (case releaseSysproxyLease L s1 of
          (None, s2) \<Rightarrow> (None, forgetSysproxyLease s2)
        | (Some e, s2) \<Rightarrow> (Some e, clearSysproxyLease s2)))"

text \<open>What happens when the lease cannot be taken or recorded: the setting is taken down again.\<close>

definition abandon_proxy ::
  "'w sysproxy_lib \<Rightarrow> guard_runner \<Rightarrow> proxy_options \<Rightarrow> err \<Rightarrow> 'w sysproxy \<Rightarrow> err option \<times> 'w sysproxy" where
  "abandon_proxy L runner opts e s =
     (case runner_Disable L runner opts (clearSysproxyLease (StopGuard s)) of (disableErr, s1) \<Rightarrow>
        let s2 = runner_Close runner s1;
            s3 = (if disableErr = None then snd (removeManagedProxyRecord s2) else s2)
        in (errors_Join [Some e, disableErr], s3))"

definition beginManagedProxy ::
  "'w sysproxy_lib \<Rightarrow> (managed_record \<Rightarrow> nat) \<Rightarrow> int \<Rightarrow> guard_runner \<Rightarrow> string \<Rightarrow> proxy_options \<Rightarrow> 'w sysproxy \<Rightarrow> err option \<times> 'w sysproxy" where
  "beginManagedProxy L json_len now runner mode opts s =
     (case captureSysproxyLease L mode opts runner s of
        (Inl e, s1) \<Rightarrow> abandon_proxy L runner opts e s1
      | (Inr l, s1) \<Rightarrow>
          (case persistManagedProxy json_len l s1 of
             (Some e, s2) \<Rightarrow> abandon_proxy L runner opts e s2
           | (None, s2) \<Rightarrow> (None, replaceSysproxyLease now l s2)))"

subsection \<open>Network changes\<close>

definition reconcileNetwork :: "'w sysproxy_lib \<Rightarrow> string \<Rightarrow> proxy_lease \<Rightarrow> 'w sysproxy \<Rightarrow> err option \<times> 'w sysproxy" where
  "reconcileNetwork L signature l s =
     (let note_signature = (\<lambda>s. s\<lparr>sp_lease := Some (l\<lparr>pl_networkSignature := signature\<rparr>)\<rparr>) in
      if signature = [] then (None, s)
      else if pl_networkSignature l = [] \<or> pl_networkSignature l = signature then (None, note_signature s)
      else (case runner_Apply L (pl_runner l) (pl_mode l) (pl_opts l) s of
          (Some e, s1) \<Rightarrow> (Some (Wrapped ''apply system proxy after network change'' e), s1)
        | (None, s1) \<Rightarrow>
            (case runner_Query L (pl_runner l) (pl_opts l) s1 of
               (Inl e, s2) \<Rightarrow> (Some (Wrapped ''verify system proxy after network change'' e), s2)
             | (Inr current, s2) \<Rightarrow>
                 if \<not> sysproxyGuardMatches (pl_mode l) (pl_expected l) (Some current)
                 then (Some (Plain ''system proxy does not match its lease after network reconciliation''), s2)
                 else (None, note_signature s2))))"

text \<open>\<open>signature\<close> is the answer of \<open>sysproxyNetworkSignature\<close>.\<close>

definition reconcileSysproxyLease :: "'w sysproxy_lib \<Rightarrow> int \<Rightarrow> 64 word \<Rightarrow> string res \<Rightarrow> 'w sysproxy \<Rightarrow> 'w sysproxy" where
  "reconcileSysproxyLease L now generation signature s =
     (case sp_lease s of
        None \<Rightarrow> s
      | Some l \<Rightarrow>
          if pl_generation l \<noteq> generation \<or> \<not> now < pl_deadline l then s
          else scheduleSysproxyReconcile
                 (case signature of Inl _ \<Rightarrow> s | Inr sig \<Rightarrow> snd (reconcileNetwork L sig l s)))"

subsection \<open>The guard\<close>

definition guard_restore ::
  "'w sysproxy_lib \<Rightarrow> 64 word \<Rightarrow> guard_config \<Rightarrow> 'w sysproxy \<Rightarrow> (err option \<times> bool) \<times> 'w sysproxy" where
  "guard_restore L g c s =
     (if sp_guardGeneration s \<noteq> g then ((None, False), s)
      else
        let s0 = publishSysproxyGuardEvent ''guard_changed'' (gc_mode c) True ''System proxy guard detected proxy settings were changed'' None s in
        (case runner_Apply L (gc_runner c) (gc_mode c) (gc_opts c) s0 of
           (Some e, s1) \<Rightarrow> ((Some e, False), s1)
         | (None, s1) \<Rightarrow>
             (case runner_Query L (gc_runner c) (gc_opts c) s1 of
                (Inl e, s2) \<Rightarrow> ((Some (Wrapped ''Failed to verify system proxy settings after restoration'' e), False), s2)
              | (Inr current, s2) \<Rightarrow>
                  if \<not> sysproxyGuardMatches (gc_mode c) (gc_expected c) (Some current)
                  then ((Some (Plain ''System proxy settings still differ after restoration''), False), s2)
                  else ((None, True), s2))))"

definition set_last_error :: "64 word \<Rightarrow> string \<Rightarrow> 'w sysproxy \<Rightarrow> 'w sysproxy" where
  "set_last_error g t s = s\<lparr>sp_loops := map (\<lambda>gl. if gl_generation gl = g then gl\<lparr>gl_lastErr := t\<rparr> else gl) (sp_loops s)\<rparr>"

text \<open>An error is reported unless it is the one that was reported last.\<close>

definition guard_report :: "guard_loop \<Rightarrow> string \<Rightarrow> string \<Rightarrow> err \<Rightarrow> 'w sysproxy \<Rightarrow> 'w sysproxy" where
  "guard_report gl eventType message e s =
     (if err_text e = gl_lastErr gl then s
      else set_last_error (gl_generation gl) (err_text e)
             (publishSysproxyGuardEvent eventType (gc_mode (gl_config gl)) True message (Some e) s))"

text \<open>
  One round of the loop of the guard of generation \<open>g\<close>, from the check to the next change of the
  settings; \<open>watch\<close> is the error of the watcher. A loop whose context was cancelled ends and closes
  its runner.
\<close>

definition guard_watched :: "guard_loop \<Rightarrow> err option \<Rightarrow> 'w sysproxy \<Rightarrow> 'w sysproxy" where
  "guard_watched gl watch s =
     (let s1 = set_last_error (gl_generation gl) [] s in
      case watch of
        None \<Rightarrow> s1
      | Some e \<Rightarrow> guard_report (gl\<lparr>gl_lastErr := []\<rparr>) ''guard_watch_failed'' ''Failed to watch system proxy changes; retrying'' e s1)"

definition guard_round :: "'w sysproxy_lib \<Rightarrow> 64 word \<Rightarrow> err option \<Rightarrow> 'w sysproxy \<Rightarrow> 'w sysproxy" where
  "guard_round L g watch s =
     (case find (\<lambda>gl. gl_generation gl = g) (sp_loops s) of
        None \<Rightarrow> s
      | Some gl \<Rightarrow>
          let c = gl_config gl in
          if sp_guardGeneration s \<noteq> g then runner_Close (gc_runner c) (s\<lparr>sp_loops := remove1 gl (sp_loops s)\<rparr>)
          else (case runner_Query L (gc_runner c) (gc_opts c) s of
              (Inl e, s1) \<Rightarrow> guard_report gl ''guard_check_failed'' ''Failed to check system proxy guard'' e s1
            | (Inr current, s1) \<Rightarrow>
                if sysproxyGuardMatches (gc_mode c) (gc_expected c) (Some current) then guard_watched gl watch s1
                else (case guard_restore L g c s1 of
                    ((Some e, _), s2) \<Rightarrow> guard_report gl ''guard_restore_failed'' ''Failed to restore system proxy settings'' e s2
                  | ((None, restored), s2) \<Rightarrow>
                      guard_watched gl watch
                        (if restored then publishSysproxyGuardEvent ''guard_restored'' (gc_mode c) True ''System proxy guard restored proxy settings'' None s2
                         else s2))))"

subsection \<open>Requests\<close>

text \<open>The body is nothing when it does not decode; no error means success.\<close>

definition request_options :: "proxy_request \<Rightarrow> proxy_options" where
  "request_options req = no_options\<lparr>po_Device := pr_Device req, po_OnlyActiveDevice := pr_OnlyActiveDevice req, po_UseRegistry := pr_UseRegistry req\<rparr>"

definition invalid_body :: err where "invalid_body = HTTPError 400 ''Invalid request body''"

definition proxy_handler ::
  "'w sysproxy_lib \<Rightarrow> (managed_record \<Rightarrow> nat) \<Rightarrow> int \<Rightarrow> proxy_peer \<Rightarrow> proxy_request option \<Rightarrow> 'w sysproxy \<Rightarrow> err option \<times> 'w sysproxy" where
  "proxy_handler L json_len now r body s =
     (case body of
        None \<Rightarrow> (Some invalid_body, s)
      | Some req \<Rightarrow>
          let opts = prepareSysproxyOptions (sp_GOOS s) r ((request_options req)\<lparr>po_Proxy := pr_Server req, po_Bypass := pr_Bypass req\<rparr>) in
          (case capture_runner r s of
             (Inl e, s1) \<Rightarrow> (Some e, s1)
           | (Inr runner, s1) \<Rightarrow>
               (case runner_Apply L runner sysproxyGuardModeProxy opts s1 of
                  (Some e, s2) \<Rightarrow> (Some e, runner_Close runner s2)
                | (None, s2) \<Rightarrow>
                    (case beginManagedProxy L json_len now runner sysproxyGuardModeProxy opts s2 of
                       (Some e, s3) \<Rightarrow> (Some e, s3)
                     | (None, s3) \<Rightarrow>
                         (None, configureSysproxyGuardBestEffort L r (pr_Guard req) sysproxyGuardModeProxy opts (StopGuard s3))))))"

definition pac_mutation ::
  "'w sysproxy_lib \<Rightarrow> (managed_record \<Rightarrow> nat) \<Rightarrow> int \<Rightarrow> proxy_peer \<Rightarrow> proxy_request \<Rightarrow> guard_runner \<Rightarrow> string option \<Rightarrow> proxy_options \<Rightarrow>
     'w sysproxy \<Rightarrow> err option \<times> 'w sysproxy" where
  "pac_mutation L json_len now r req runner managed opts s =
     (case runner_Apply L runner sysproxyGuardModePAC opts s of
        (Some e, s2) \<Rightarrow> (Some e, pac_close managed (runner_Close runner s2))
      | (None, s2) \<Rightarrow>
          (case beginManagedProxy L json_len now runner sysproxyGuardModePAC opts s2 of
             (Some e, s3) \<Rightarrow> (Some e, pac_close managed s3)
           | (None, s3) \<Rightarrow>
               (None, configureSysproxyGuardBestEffort L r (pr_Guard req) sysproxyGuardModePAC opts
                  (StopGuard (s3\<lparr>sp_lease := map_option (\<lambda>l. l\<lparr>pl_pacServer := managed\<rparr>) (sp_lease s3)\<rparr>)))))"

definition pac_handler ::
  "'w sysproxy_lib \<Rightarrow> (managed_record \<Rightarrow> nat) \<Rightarrow> int \<Rightarrow> nat \<Rightarrow> proxy_peer \<Rightarrow> proxy_request option \<Rightarrow> 'w sysproxy \<Rightarrow> err option \<times> 'w sysproxy" where
  "pac_handler L json_len now port r body s =
     (case body of
        None \<Rightarrow> (Some invalid_body, s)
      | Some req \<Rightarrow>
          if (case pr_Script req of None \<Rightarrow> False | Some script \<Rightarrow> pr_Url req \<noteq> [] \<or> script = [] \<or> length script > maxPACScriptBytes)
          then (Some (HTTPError 400 ''Invalid PAC script or conflicting URL''), s)
          else
            let opts = prepareSysproxyOptions (sp_GOOS s) r ((request_options req)\<lparr>po_PACURL := pr_Url req\<rparr>) in
            (case capture_runner r s of
               (Inl e, s1) \<Rightarrow> (Some e, s1)
             | (Inr runner, s1) \<Rightarrow>
                 (case pr_Script req of
                    None \<Rightarrow> pac_mutation L json_len now r req runner None opts s1
                  | Some script \<Rightarrow>
                      (case startManagedPACServer port script s1 of
                         (Inl e, s2) \<Rightarrow> (Some e, runner_Close runner s2)
                       | (Inr url, s2) \<Rightarrow> pac_mutation L json_len now r req runner (Some url) (opts\<lparr>po_PACURL := url\<rparr>) s2))))"

definition disable_handler :: "'w sysproxy_lib \<Rightarrow> proxy_peer \<Rightarrow> proxy_request option \<Rightarrow> 'w sysproxy \<Rightarrow> err option \<times> 'w sysproxy" where
  "disable_handler L r body s =
     (case body of
        None \<Rightarrow> (Some invalid_body, s)
      | Some req \<Rightarrow>
          (case change_world (lib_Disable L (prepareSysproxyOptions (sp_GOOS s) r (request_options req))) s of
             (Some e, s1) \<Rightarrow> (Some e, s1)
           | (None, s1) \<Rightarrow> (None, forgetSysproxyLease (StopGuard s1))))"

definition renew_handler :: "int \<Rightarrow> 'w sysproxy \<Rightarrow> err option \<times> 'w sysproxy" where
  "renew_handler now s =
     (case renewSysproxyLease now s of
        (False, s1) \<Rightarrow> (Some (HTTPError 409 ''No service-owned system proxy to renew''), s1)
      | (True, s1) \<Rightarrow> (None, s1))"

definition prepareNativeProxy :: "'w sysproxy \<Rightarrow> err option \<times> 'w sysproxy" where
  "prepareNativeProxy s = (None, forgetSysproxyLease (StopGuard (stopManagedProxyRecovery s)))"

definition captureNativeProxyLease ::
  "unicode \<Rightarrow> 'w sysproxy_lib \<Rightarrow> string \<Rightarrow> proxy_options \<Rightarrow> guard_runner \<Rightarrow> 'w sysproxy \<Rightarrow> proxy_lease res \<times> 'w sysproxy" where
  "captureNativeProxyLease U L mode opts runner s =
     (case captureSysproxyLease L mode opts runner s of
        (Inl e, s1) \<Rightarrow> (Inl e, s1)
      | (Inr l, s1) \<Rightarrow>
          if \<not> native_matches U mode opts (pl_expected l) then (Inl (Plain ''Native proxy settings were not confirmed''), s1) else (Inr l, s1))"

definition adoptNativeProxy ::
  "unicode \<Rightarrow> 'w sysproxy_lib \<Rightarrow> (managed_record \<Rightarrow> nat) \<Rightarrow> int \<Rightarrow> proxy_peer \<Rightarrow> proxy_request option \<Rightarrow> 'w sysproxy \<Rightarrow> err option \<times> 'w sysproxy" where
  "adoptNativeProxy U L json_len now r body s =
     (case body of
        None \<Rightarrow> (Some (HTTPError 400 ''Invalid proxy lease''), s)
      | Some req \<Rightarrow>
          let mode = (if pr_Url req \<noteq> [] then sysproxyGuardModePAC else sysproxyGuardModeProxy);
              opts = prepareSysproxyOptions (sp_GOOS s) r
                (no_options\<lparr>po_Proxy := pr_Server req, po_Bypass := pr_Bypass req, po_PACURL := pr_Url req, po_OnlyActiveDevice := pr_OnlyActiveDevice req\<rparr>)
          in if pr_Server req = [] \<and> pr_Url req = [] then (Some (HTTPError 400 ''Missing proxy lease endpoint''), s)
             else (case capture_runner r s of
                 (Inl e, s1) \<Rightarrow> (Some e, s1)
               | (Inr runner, s1) \<Rightarrow>
                   (case captureNativeProxyLease U L mode opts runner s1 of
                      (Inl _, s2) \<Rightarrow> (Some (Plain ''Unable to confirm native proxy settings''), runner_Close runner s2)
                    | (Inr l, s2) \<Rightarrow>
                        (case persistManagedProxy json_len l s2 of
                           (Some _, s3) \<Rightarrow> (Some (Plain ''Unable to persist native proxy ownership''), runner_Close runner s3)
                         | (None, s3) \<Rightarrow>
                             (None, configureSysproxyGuardBestEffort L r (pr_Guard req) mode opts (replaceSysproxyLease now l s3))))))"

definition status_handler :: "'w sysproxy_lib \<Rightarrow> proxy_peer \<Rightarrow> 'w sysproxy \<Rightarrow> proxy_config res \<times> 'w sysproxy" where
  "status_handler L r s =
     (case sp_call s of (out, s1) \<Rightarrow>
        (if out = Done then Inr (lib_Query L (prepareSysproxyOptions (sp_GOOS s) r (no_options\<lparr>po_OnlyActiveDevice := True\<rparr>)) (sp_world s1))
         else Inl SysErr, s1))"

section \<open>Lemmas\<close>

subsection \<open>What the calls leave alone\<close>

text \<open>
  The part of the state that says who owns what: the lease, the loops' runners, the record, the open
  runners and PAC servers.
\<close>

definition loop_ids :: "'w sysproxy \<Rightarrow> nat list" where
  "loop_ids s = map (ru_id \<circ> gc_runner \<circ> gl_config) (sp_loops s)"

definition core :: "'w sysproxy \<Rightarrow> proxy_lease option \<times> 64 word \<times> nat list \<times> managed_record store \<times> nat list \<times> nat \<times> string list \<times> string \<times> bool" where
  "core s = (sp_lease s, sp_leaseGeneration s, loop_ids s, sp_disk s, sp_open s, sp_nextRunner s, sp_pacServers s, sp_GOOS s, sp_configured s)"

lemma coreD:
  assumes "core s = core t"
  shows "sp_lease s = sp_lease t" "sp_leaseGeneration s = sp_leaseGeneration t" "loop_ids s = loop_ids t" "sp_disk s = sp_disk t"
    "sp_open s = sp_open t" "sp_nextRunner s = sp_nextRunner t" "sp_pacServers s = sp_pacServers t" "sp_GOOS s = sp_GOOS t"
    "sp_configured s = sp_configured t"
  using assms by (simp_all add: core_def)

lemma sp_call_eq: "sp_call s = (fst (next_io (sp_io s)), s\<lparr>sp_io := snd (next_io (sp_io s))\<rparr>)"
  by (simp add: sp_call_def case_prod_unfold)

named_theorems core_simps \<open>operations that leave the ownership alone\<close>

lemma core_io [core_simps]: "core (s\<lparr>sp_io := ios\<rparr>) = core s"
  by (simp add: core_def loop_ids_def)

lemma core_publish [core_simps]: "core (publishSysproxyGuardEvent t md g msg e s) = core s"
  by (simp add: core_def loop_ids_def publishSysproxyGuardEvent_def)

lemma core_query [core_simps]: "core (snd (runner_Query L r opts s)) = core s"
  by (simp add: runner_Query_def sp_call_eq core_simps)

lemma core_change [core_simps]: "core (snd (change_world f s)) = core s"
  by (simp add: change_world_def sp_call_eq core_def loop_ids_def split: io.split)

lemma core_apply [core_simps]: "core (snd (runner_Apply L r md opts s)) = core s"
  by (simp add: runner_Apply_def core_simps)

lemma core_disable [core_simps]: "core (snd (runner_Disable L r opts s)) = core s"
  by (simp add: runner_Disable_def core_simps)

lemma core_StopGuard [core_simps]: "core (StopGuard s) = core s"
  by (simp add: StopGuard_def guard_stop_def Let_def core_def loop_ids_def publishSysproxyGuardEvent_def)

lemma core_stopRecovery [core_simps]: "core (stopManagedProxyRecovery s) = core s"
  by (simp add: stopManagedProxyRecovery_def core_def loop_ids_def)

lemma core_scheduleRecovery [core_simps]: "core (scheduleManagedProxyRecovery s) = core s"
  by (simp add: scheduleManagedProxyRecovery_def stopManagedProxyRecovery_def core_def loop_ids_def)

lemma core_release [core_simps]: "core (snd (releaseSysproxyLease L s)) = core s"
  by (simp add: releaseSysproxyLease_def case_prod_unfold core_simps split: option.split sum.split)

lemma core_capture [core_simps]: "core (snd (captureSysproxyLease L md opts r s)) = core s"
  by (simp add: captureSysproxyLease_def case_prod_unfold core_simps split: sum.split)

lemma core_captureNative [core_simps]: "core (snd (captureNativeProxyLease U L md opts r s)) = core s"
  by (simp add: captureNativeProxyLease_def case_prod_unfold core_simps split: sum.split)

lemma core_last_error [core_simps]: "core (set_last_error g t s) = core s"
  by (simp add: core_def loop_ids_def set_last_error_def comp_def if_distrib cong: if_cong)

lemma core_report [core_simps]: "core (guard_report gl t msg e s) = core s"
  by (simp add: guard_report_def core_simps)

lemma core_watched [core_simps]: "core (guard_watched gl w s) = core s"
  by (simp add: guard_watched_def Let_def core_simps split: option.split)

lemma core_restore [core_simps]: "core (snd (guard_restore L g c s)) = core s"
  by (simp add: guard_restore_def Let_def case_prod_unfold core_simps split: option.split sum.split)

lemma core_recoverWith [core_simps]: "core (snd (recoverManagedProxyRecord L rec s)) = core s"
  by (simp add: recoverManagedProxyRecord_def recoverManagedProxyRecordWith_def Let_def case_prod_unfold sp_call_eq core_simps split: option.split)

subsection \<open>Ownership\<close>

text \<open>
  \<open>owns xs ps s\<close>: the open runners are \<open>xs\<close>, that of the lease and those of the loops of the guard, each
  once; the PAC servers are \<open>ps\<close> and that of the lease.
\<close>

definition lease_ids :: "'w sysproxy \<Rightarrow> nat list" where
  "lease_ids s = (case sp_lease s of None \<Rightarrow> [] | Some l \<Rightarrow> [ru_id (pl_runner l)])"

definition lease_pacs :: "'w sysproxy \<Rightarrow> string list" where
  "lease_pacs s = (case sp_lease s of None \<Rightarrow> [] | Some l \<Rightarrow> (case pl_pacServer l of None \<Rightarrow> [] | Some url \<Rightarrow> [url]))"

definition owns :: "nat list \<Rightarrow> string list \<Rightarrow> 'w sysproxy \<Rightarrow> bool" where
  "owns xs ps s = (mset (sp_open s) = mset (xs @ lease_ids s @ loop_ids s) \<and> distinct (sp_open s) \<and>
     (\<forall>i \<in> set (sp_open s). i < sp_nextRunner s) \<and> mset (sp_pacServers s) = mset (ps @ lease_pacs s))"

text \<open>The record of a lease.\<close>

definition record_of :: "string \<Rightarrow> proxy_lease \<Rightarrow> managed_record option" where
  "record_of goos l =
     (case recoverySysproxyOptions goos (pl_opts l) (pl_runner l) of
        Inl _ \<Rightarrow> None
      | Inr o' \<Rightarrow> Some \<lparr>mr_Version = managedProxyRecordVersion, mr_Mode = pl_mode l, mr_Options = managedOptionsFromSysproxy o', mr_Expected = pl_expected l\<rparr>)"

definition recorded :: "(managed_record \<Rightarrow> nat) \<Rightarrow> 'w sysproxy \<Rightarrow> bool" where
  "recorded J s = (\<forall>l. sp_lease s = Some l \<longrightarrow>
     (\<exists>r. sp_disk s = Stored r \<and> record_of (sp_GOOS s) l = Some r \<and> J r \<le> maxManagedProxyRecordSize \<and>
        pl_mode l \<in> {sysproxyGuardModeProxy, sysproxyGuardModePAC}) \<and> pl_generation l = sp_leaseGeneration s \<and> sp_configured s)"

definition sp_inv :: "(managed_record \<Rightarrow> nat) \<Rightarrow> 'w sysproxy \<Rightarrow> bool" where
  "sp_inv J s = (owns [] [] s \<and> recorded J s)"

lemma owns_core: "core s = core t \<Longrightarrow> owns xs ps s = owns xs ps t"
  by (simp add: owns_def lease_ids_def lease_pacs_def coreD [of s t])

lemma recorded_core: "core s = core t \<Longrightarrow> recorded J s = recorded J t"
  by (simp add: recorded_def coreD [of s t])

lemma sp_inv_core: "core s = core t \<Longrightarrow> sp_inv J s = sp_inv J t"
  by (simp add: sp_inv_def owns_core [of s t] recorded_core [of s t])

lemma owns_capture:
  assumes "owns xs ps s" and "capture_runner r s = (Inr runner, s')"
  shows "owns (ru_id runner # xs) ps s' \<and> sp_lease s' = sp_lease s \<and> sp_disk s' = sp_disk s \<and> sp_GOOS s' = sp_GOOS s \<and>
    sp_configured s' = sp_configured s \<and> sp_leaseGeneration s' = sp_leaseGeneration s"
proof -
  have i: "ru_id runner = sp_nextRunner s"
    and s': "s' = s\<lparr>sp_open := sp_open s @ [ru_id runner], sp_nextRunner := sp_nextRunner s + 1\<rparr>"
    using assms(2)
    by (auto simp: capture_runner_def captureSysproxyGuardRunner_def captureLinuxSysproxyGuardRunner_def split: sum.splits if_splits option.splits)
  have "sp_nextRunner s \<notin> set (sp_open s)" using assms(1) by (auto simp: owns_def)
  then show ?thesis using assms(1) by (auto simp: owns_def s' i lease_ids_def lease_pacs_def loop_ids_def less_Suc_eq)
qed

lemma capture_error: "capture_runner r s = (Inl e, s') \<Longrightarrow> s' = s"
  by (auto simp: capture_runner_def split: sum.splits)

lemma filter_mset_distinct: "distinct xs \<Longrightarrow> mset (filter (\<lambda>i. i \<noteq> x) xs) = mset xs - {#x#}"
  by (induction xs) (auto simp: filter_id_conv)

lemma close_fields [simp]: "sp_lease (runner_Close r s) = sp_lease s" "loop_ids (runner_Close r s) = loop_ids s"
  "sp_pacServers (runner_Close r s) = sp_pacServers s" "sp_nextRunner (runner_Close r s) = sp_nextRunner s"
  "sp_disk (runner_Close r s) = sp_disk s" "sp_GOOS (runner_Close r s) = sp_GOOS s"
  "sp_leaseGeneration (runner_Close r s) = sp_leaseGeneration s" "sp_configured (runner_Close r s) = sp_configured s"
  by (simp_all add: runner_Close_def loop_ids_def)

lemma owns_close: "owns (ru_id r # xs) ps s \<Longrightarrow> owns xs ps (runner_Close r s)"
proof -
  assume o: "owns (ru_id r # xs) ps s"
  then have "mset (filter (\<lambda>i. i \<noteq> ru_id r) (sp_open s)) = mset (xs @ lease_ids s @ loop_ids s)"
    by (simp add: owns_def filter_mset_distinct del: mset_filter)
  then show ?thesis using o by (simp add: owns_def lease_ids_def lease_pacs_def runner_Close_def loop_ids_def)
qed

lemma clear_fields [simp]: "sp_lease (clearSysproxyLease s) = None" "sp_disk (clearSysproxyLease s) = sp_disk s"
  "sp_GOOS (clearSysproxyLease s) = sp_GOOS s" "sp_leaseGeneration (clearSysproxyLease s) = sp_leaseGeneration s"
  "sp_configured (clearSysproxyLease s) = sp_configured s" "sp_world (clearSysproxyLease s) = sp_world s"
  "sp_io (clearSysproxyLease s) = sp_io s"
  by (simp_all add: clearSysproxyLease_def runner_Close_def pac_close_def split: option.split)

lemma owns_clear: "owns xs ps s \<Longrightarrow> owns xs ps (clearSysproxyLease s)"
proof (cases "sp_lease s")
  case (Some l)
  assume o: "owns xs ps s"
  let ?s1 = "pac_close (pl_pacServer l) (s\<lparr>sp_lease := None\<rparr>)"
  have "owns (ru_id (pl_runner l) # xs) ps ?s1"
    using o Some by (auto simp: owns_def lease_ids_def lease_pacs_def pac_close_def loop_ids_def split: option.split)
  then show ?thesis using Some owns_close by (simp add: clearSysproxyLease_def)
qed (simp add: clearSysproxyLease_def)

lemma owns_pac_close: "owns xs (case p of None \<Rightarrow> [] | Some url \<Rightarrow> [url]) s \<Longrightarrow> owns xs [] (pac_close p s)"
  by (auto simp: owns_def lease_ids_def lease_pacs_def loop_ids_def pac_close_def split: option.splits)

lemma remove_record_fields [simp]:
  "sp_lease (snd (removeManagedProxyRecord s)) = sp_lease s" "sp_open (snd (removeManagedProxyRecord s)) = sp_open s"
  "loop_ids (snd (removeManagedProxyRecord s)) = loop_ids s" "sp_pacServers (snd (removeManagedProxyRecord s)) = sp_pacServers s"
  "sp_nextRunner (snd (removeManagedProxyRecord s)) = sp_nextRunner s" "sp_world (snd (removeManagedProxyRecord s)) = sp_world s"
  by (simp_all add: removeManagedProxyRecord_def sp_call_eq loop_ids_def)

lemma owns_remove: "owns xs ps (snd (removeManagedProxyRecord s)) = owns xs ps s"
  by (simp add: owns_def lease_ids_def lease_pacs_def)

lemma recorded_none: "sp_lease s = None \<Longrightarrow> recorded J s"
  by (simp add: recorded_def)

lemma forget_inv: "owns [] [] s \<Longrightarrow> sp_inv J (forgetSysproxyLease s)"
  using owns_clear [of "[]" "[]" s] by (simp add: forgetSysproxyLease_def sp_inv_def owns_remove recorded_none)

subsection \<open>Taking the lease\<close>

lemma recorded_cong:
  assumes "sp_lease s = sp_lease t" "sp_disk s = sp_disk t" "sp_GOOS s = sp_GOOS t" "sp_leaseGeneration s = sp_leaseGeneration t"
    "sp_configured s = sp_configured t"
  shows "recorded J s = recorded J t"
  using assms by (simp add: recorded_def)

lemma write_fields [simp]:
  "sp_lease (snd (writeManagedProxyRecord J r s)) = sp_lease s" "sp_open (snd (writeManagedProxyRecord J r s)) = sp_open s"
  "loop_ids (snd (writeManagedProxyRecord J r s)) = loop_ids s" "sp_pacServers (snd (writeManagedProxyRecord J r s)) = sp_pacServers s"
  "sp_nextRunner (snd (writeManagedProxyRecord J r s)) = sp_nextRunner s" "sp_GOOS (snd (writeManagedProxyRecord J r s)) = sp_GOOS s"
  "sp_leaseGeneration (snd (writeManagedProxyRecord J r s)) = sp_leaseGeneration s"
  "sp_configured (snd (writeManagedProxyRecord J r s)) = sp_configured s"
  by (simp_all add: writeManagedProxyRecord_def case_prod_unfold loop_ids_def split: bool.split)

lemma persist_fields [simp]:
  "sp_lease (snd (persistManagedProxy J l s)) = sp_lease s" "sp_open (snd (persistManagedProxy J l s)) = sp_open s"
  "loop_ids (snd (persistManagedProxy J l s)) = loop_ids s" "sp_pacServers (snd (persistManagedProxy J l s)) = sp_pacServers s"
  "sp_nextRunner (snd (persistManagedProxy J l s)) = sp_nextRunner s" "sp_GOOS (snd (persistManagedProxy J l s)) = sp_GOOS s"
  "sp_leaseGeneration (snd (persistManagedProxy J l s)) = sp_leaseGeneration s"
  "sp_configured (snd (persistManagedProxy J l s)) = sp_configured s"
  by (simp_all add: persistManagedProxy_def split: sum.split option.split)

lemma owns_persist: "owns xs ps (snd (persistManagedProxy J l s)) = owns xs ps s"
  by (simp add: owns_def lease_ids_def lease_pacs_def)

lemma persist_ok:
  assumes "fst (persistManagedProxy J l s) = None"
  shows "sp_configured s \<and> (\<exists>r. sp_disk (snd (persistManagedProxy J l s)) = Stored r \<and> record_of (sp_GOOS s) l = Some r \<and> J r \<le> maxManagedProxyRecordSize)"
  using assms
  by (auto simp: persistManagedProxy_def record_of_def writeManagedProxyRecord_def case_prod_unfold split: sum.splits option.splits if_splits bool.splits)

lemma record_of_timers [simp]:
  "record_of goos (l\<lparr>pl_generation := g\<rparr>) = record_of goos l" "record_of goos (l\<lparr>pl_deadline := d\<rparr>) = record_of goos l"
  "record_of goos (l\<lparr>pl_timer := t\<rparr>) = record_of goos l" "record_of goos (l\<lparr>pl_reconcileTimer := b\<rparr>) = record_of goos l"
  "record_of goos (l\<lparr>pl_pacServer := p\<rparr>) = record_of goos l" "record_of goos (l\<lparr>pl_networkSignature := n\<rparr>) = record_of goos l"
  by (simp_all add: record_of_def split: sum.split)

lemma replace_fields:
  "sp_disk (replaceSysproxyLease now l s) = sp_disk s" "sp_GOOS (replaceSysproxyLease now l s) = sp_GOOS s"
  "sp_configured (replaceSysproxyLease now l s) = sp_configured s" "sp_world (replaceSysproxyLease now l s) = sp_world s"
  "\<exists>b. sp_lease (replaceSysproxyLease now l s) = Some (l\<lparr>pl_generation := sp_leaseGeneration (replaceSysproxyLease now l s),
     pl_deadline := now + sysproxyLeaseDuration, pl_timer := Some (now + sysproxyLeaseDuration), pl_reconcileTimer := b\<rparr>)"
proof -
  have keep: "l\<lparr>pl_generation := g, pl_deadline := d, pl_timer := t\<rparr> = l\<lparr>pl_generation := g, pl_deadline := d, pl_timer := t, pl_reconcileTimer := pl_reconcileTimer l\<rparr>" for g d t
    by simp
  show "sp_disk (replaceSysproxyLease now l s) = sp_disk s" "sp_GOOS (replaceSysproxyLease now l s) = sp_GOOS s"
    "sp_configured (replaceSysproxyLease now l s) = sp_configured s" "sp_world (replaceSysproxyLease now l s) = sp_world s"
    by (simp_all add: replaceSysproxyLease_def Let_def renewSysproxyLease_def scheduleSysproxyReconcile_def stopManagedProxyRecovery_def)
  show "\<exists>b. sp_lease (replaceSysproxyLease now l s) = Some (l\<lparr>pl_generation := sp_leaseGeneration (replaceSysproxyLease now l s),
     pl_deadline := now + sysproxyLeaseDuration, pl_timer := Some (now + sysproxyLeaseDuration), pl_reconcileTimer := b\<rparr>)"
  proof (cases "sp_GOOS s = ''darwin''")
    case True
    then show ?thesis
      by (intro exI [of _ True]) (simp add: replaceSysproxyLease_def Let_def renewSysproxyLease_def scheduleSysproxyReconcile_def stopManagedProxyRecovery_def)
  next
    case False
    then show ?thesis
      by (intro exI [of _ "pl_reconcileTimer l"])
        (simp add: replaceSysproxyLease_def Let_def renewSysproxyLease_def scheduleSysproxyReconcile_def stopManagedProxyRecovery_def)
  qed
qed

lemma owns_replace:
  assumes "owns (ru_id (pl_runner l) # xs) ps s" and "pl_pacServer l = None"
  shows "owns xs ps (replaceSysproxyLease now l s)"
proof -
  let ?s1 = "clearSysproxyLease (stopManagedProxyRecovery s)"
  have "owns (ru_id (pl_runner l) # xs) ps ?s1"
    using assms(1) owns_core [OF core_stopRecovery [of s]] by (intro owns_clear) simp
  then show ?thesis using assms(2)
    by (auto simp: replaceSysproxyLease_def Let_def renewSysproxyLease_def scheduleSysproxyReconcile_def owns_def lease_ids_def lease_pacs_def loop_ids_def)
qed

lemma recorded_replace:
  assumes "sp_disk s = Stored r" "record_of (sp_GOOS s) l = Some r" "J r \<le> maxManagedProxyRecordSize" "sp_configured s"
    and "pl_mode l \<in> {sysproxyGuardModeProxy, sysproxyGuardModePAC}"
  shows "recorded J (replaceSysproxyLease now l s)"
proof -
  obtain b where "sp_lease (replaceSysproxyLease now l s) = Some (l\<lparr>pl_generation := sp_leaseGeneration (replaceSysproxyLease now l s),
     pl_deadline := now + sysproxyLeaseDuration, pl_timer := Some (now + sysproxyLeaseDuration), pl_reconcileTimer := b\<rparr>)"
    using replace_fields(5) by blast
  then show ?thesis using assms by (simp add: recorded_def replace_fields)
qed

lemma abandon_inv:
  assumes "owns (ru_id runner # []) ps s"
  shows "owns [] ps (snd (abandon_proxy L runner opts e s)) \<and> recorded J (snd (abandon_proxy L runner opts e s)) \<and>
    fst (abandon_proxy L runner opts e s) \<noteq> None"
proof -
  let ?s1 = "snd (runner_Disable L runner opts (clearSysproxyLease (StopGuard s)))"
  have c: "core ?s1 = core (clearSysproxyLease (StopGuard s))" by (rule core_disable)
  have "owns [ru_id runner] ps ?s1"
    using assms by (simp add: owns_core [OF c] owns_clear owns_core [OF core_StopGuard])
  then have "owns [] ps (runner_Close runner ?s1)" by (rule owns_close)
  moreover have "sp_lease ?s1 = None" using coreD(1) [OF c] by simp
  ultimately show ?thesis
    by (auto simp: abandon_proxy_def case_prod_unfold Let_def owns_remove recorded_none errors_Join_None_iff)
qed

lemma capture_lease_fields:
  assumes "fst (captureSysproxyLease L md opts runner s) = Inr l"
  shows "pl_mode l = md \<and> pl_runner l = runner \<and> pl_pacServer l = None \<and> pl_opts l = opts"
  using assms by (auto simp: captureSysproxyLease_def case_prod_unfold split: sum.splits)

lemma begin_inv:
  assumes o: "owns [ru_id runner] ps s" and md: "md \<in> {sysproxyGuardModeProxy, sysproxyGuardModePAC}"
  shows "owns [] ps (snd (beginManagedProxy L J now runner md opts s)) \<and> recorded J (snd (beginManagedProxy L J now runner md opts s)) \<and>
    (fst (beginManagedProxy L J now runner md opts s) = None \<longrightarrow>
       map_option pl_pacServer (sp_lease (snd (beginManagedProxy L J now runner md opts s))) = Some None)"
proof -
  let ?c = "captureSysproxyLease L md opts runner s"
  have o1: "owns [ru_id runner] ps (snd ?c)" using o owns_core [OF core_capture] by metis
  show ?thesis
  proof (cases "fst ?c")
    case (Inl e)
    then show ?thesis using abandon_inv [OF o1, of L opts e J] by (auto simp: beginManagedProxy_def case_prod_unfold)
  next
    case (Inr l)
    note f = capture_lease_fields [OF Inr]
    let ?p = "persistManagedProxy J l (snd ?c)"
    have o2: "owns [ru_id runner] ps (snd ?p)" using o1 owns_persist by metis
    show ?thesis
    proof (cases "fst ?p")
      case (Some e)
      then show ?thesis using Inr abandon_inv [OF o2, of L opts e J] by (auto simp: beginManagedProxy_def case_prod_unfold)
    next
      case None
      from persist_ok [OF None] obtain r where r: "sp_configured (snd ?c)" "sp_disk (snd ?p) = Stored r"
        "record_of (sp_GOOS (snd ?c)) l = Some r" "J r \<le> maxManagedProxyRecordSize" by blast
      have "recorded J (replaceSysproxyLease now l (snd ?p))"
        using r md f by (intro recorded_replace [of _ r]) simp_all
      moreover have "owns [] ps (replaceSysproxyLease now l (snd ?p))" using o2 f by (intro owns_replace) simp_all
      moreover have "map_option pl_pacServer (sp_lease (replaceSysproxyLease now l (snd ?p))) = Some None"
        using replace_fields(5) [of now l "snd ?p"] f by auto
      ultimately show ?thesis using Inr None by (simp add: beginManagedProxy_def case_prod_unfold)
    qed
  qed
qed

subsection \<open>The guard\<close>

lemma guard_start_fields [simp]:
  "sp_lease (guard_start c s) = sp_lease s" "sp_disk (guard_start c s) = sp_disk s" "sp_GOOS (guard_start c s) = sp_GOOS s"
  "sp_leaseGeneration (guard_start c s) = sp_leaseGeneration s" "sp_configured (guard_start c s) = sp_configured s"
  "loop_ids (guard_start c s) = loop_ids s @ [ru_id (gc_runner c)]" "sp_open (guard_start c s) = sp_open s"
  "sp_pacServers (guard_start c s) = sp_pacServers s" "sp_nextRunner (guard_start c s) = sp_nextRunner s" "sp_world (guard_start c s) = sp_world s"
  by (simp_all add: guard_start_def Let_def publishSysproxyGuardEvent_def loop_ids_def)

lemma owns_guard_start: "owns (ru_id (gc_runner c) # xs) ps s \<Longrightarrow> owns xs ps (guard_start c s)"
  by (simp add: owns_def lease_ids_def lease_pacs_def)

lemma configure_guard_inv:
  assumes "owns xs ps s"
  shows "owns xs ps (configureSysproxyGuardBestEffort L r en md opts s) \<and>
    recorded J (configureSysproxyGuardBestEffort L r en md opts s) = recorded J s"
proof -
  let ?g = "configureSysproxyGuard L r en md opts s"
  have "owns xs ps (snd ?g) \<and> recorded J (snd ?g) = recorded J s"
  proof (cases en)
    case False
    then show ?thesis using assms by (simp add: configureSysproxyGuard_def owns_core [OF core_StopGuard] recorded_core [OF core_StopGuard])
  next
    case True
    obtain res s1 where c: "capture_runner r s = (res, s1)" by fastforce
    show ?thesis
    proof (cases res)
      case (Inl e)
      then show ?thesis using c capture_error [of r s e s1] True assms by (simp add: configureSysproxyGuard_def)
    next
      case (Inr runner)
      note o = owns_capture [OF assms c [unfolded Inr]]
      let ?q = "runner_Query L runner opts s1"
      have q: "owns (ru_id runner # xs) ps (snd ?q)" "recorded J (snd ?q) = recorded J s"
        using o owns_core [OF core_query] recorded_core [OF core_query] recorded_cong [of s1 s J] by metis+
      then show ?thesis
        using c Inr True owns_close [OF q(1)]
        by (auto simp: configureSysproxyGuard_def case_prod_unfold Let_def intro!: owns_guard_start
            intro: recorded_cong [THEN iffD1] split: sum.split)
          (auto simp: recorded_def)
    qed
  qed
  then show ?thesis
    by (simp add: configureSysproxyGuardBestEffort_def case_prod_unfold owns_core [OF core_publish] recorded_core [OF core_publish]
        split: option.split)
qed

subsection \<open>The handlers keep the invariant\<close>

lemma recorded_close [simp]: "recorded J (runner_Close r s) = recorded J s"
  by (rule recorded_cong) simp_all

lemma recorded_pac_close [simp]: "recorded J (pac_close p s) = recorded J s"
  by (rule recorded_cong) (simp_all add: pac_close_def split: option.split)

lemma owns_pac_other: "owns xs ps s \<Longrightarrow> owns xs ps (s\<lparr>sp_world := w\<rparr>)"
  by (simp add: owns_def lease_ids_def lease_pacs_def loop_ids_def)

lemma guard_step_inv:
  "owns [] [] s \<Longrightarrow> recorded J s \<Longrightarrow> sp_inv J (configureSysproxyGuardBestEffort L r en md opts s)"
  using configure_guard_inv [of "[]" "[]" s L r en md opts J] by (simp add: sp_inv_def)

lemma capture_step:
  assumes "sp_inv J s" and "capture_runner r s = (Inr runner, s')"
  shows "owns [ru_id runner] [] s'" "recorded J s'"
  using owns_capture [of "[]" "[]" s r runner s'] assms recorded_cong [of s' s J] by (simp_all add: sp_inv_def)

lemma proxy_handler_inv:
  assumes "sp_inv J s"
  shows "sp_inv J (snd (proxy_handler L J now r body s))"
proof (cases body)
  case None
  then show ?thesis using assms by (simp add: proxy_handler_def)
next
  case (Some req)
  define opts where "opts = prepareSysproxyOptions (sp_GOOS s) r ((request_options req)\<lparr>po_Proxy := pr_Server req, po_Bypass := pr_Bypass req\<rparr>)"
  obtain res s1 where c: "capture_runner r s = (res, s1)" by fastforce
  show ?thesis
  proof (cases res)
    case (Inl e)
    then show ?thesis using c Some assms capture_error [of r s e s1] by (simp add: proxy_handler_def)
  next
    case (Inr runner)
    note o = capture_step [OF assms c [unfolded Inr]]
    let ?a = "runner_Apply L runner sysproxyGuardModeProxy opts s1"
    have a: "owns [ru_id runner] [] (snd ?a)" "recorded J (snd ?a)"
      using o by (simp_all add: owns_core [OF core_apply] recorded_core [OF core_apply])
    let ?b = "beginManagedProxy L J now runner sysproxyGuardModeProxy opts (snd ?a)"
    have b: "owns [] [] (snd ?b)" "recorded J (snd ?b)"
      using begin_inv [OF a(1), of sysproxyGuardModeProxy L J now opts] by simp_all
    have g: "sp_inv J (configureSysproxyGuardBestEffort L r (pr_Guard req) sysproxyGuardModeProxy opts (StopGuard (snd ?b)))"
      using b by (intro guard_step_inv) (simp_all add: owns_core [OF core_StopGuard] recorded_core [OF core_StopGuard])
    show ?thesis
      using Some c Inr a(2) b g owns_close [OF a(1)]
      by (simp add: proxy_handler_def case_prod_unfold sp_inv_def flip: opts_def split: option.split)
  qed
qed

lemma pac_lease_inv:
  assumes "owns [] (case p of None \<Rightarrow> [] | Some url \<Rightarrow> [url]) s" "recorded J s" "map_option pl_pacServer (sp_lease s) = Some None"
  shows "owns [] [] (s\<lparr>sp_lease := map_option (\<lambda>l. l\<lparr>pl_pacServer := p\<rparr>) (sp_lease s)\<rparr>)"
    "recorded J (s\<lparr>sp_lease := map_option (\<lambda>l. l\<lparr>pl_pacServer := p\<rparr>) (sp_lease s)\<rparr>)"
  using assms by (auto simp: owns_def lease_ids_def lease_pacs_def loop_ids_def recorded_def split: option.splits)

lemma pac_mutation_inv:
  assumes "owns [ru_id runner] (case p of None \<Rightarrow> [] | Some url \<Rightarrow> [url]) s" "recorded J s"
  shows "sp_inv J (snd (pac_mutation L J now r req runner p opts s))"
proof -
  let ?ps = "case p of None \<Rightarrow> [] | Some url \<Rightarrow> [url]"
  let ?a = "runner_Apply L runner sysproxyGuardModePAC opts s"
  have a: "owns [ru_id runner] ?ps (snd ?a)" "recorded J (snd ?a)"
    using assms by (simp_all add: owns_core [OF core_apply] recorded_core [OF core_apply])
  let ?b = "beginManagedProxy L J now runner sysproxyGuardModePAC opts (snd ?a)"
  have b: "owns [] ?ps (snd ?b)" "recorded J (snd ?b)"
    "fst ?b = None \<Longrightarrow> map_option pl_pacServer (sp_lease (snd ?b)) = Some None"
    using begin_inv [OF a(1), of sysproxyGuardModePAC L J now opts] by simp_all
  let ?t = "(snd ?b)\<lparr>sp_lease := map_option (\<lambda>l. l\<lparr>pl_pacServer := p\<rparr>) (sp_lease (snd ?b))\<rparr>"
  have g: "sp_inv J (configureSysproxyGuardBestEffort L r (pr_Guard req) sysproxyGuardModePAC opts (StopGuard ?t))" if "fst ?b = None"
    using pac_lease_inv [OF b(1,2) b(3) [OF that]]
    by (intro guard_step_inv) (simp_all add: owns_core [OF core_StopGuard] recorded_core [OF core_StopGuard])
  show ?thesis
    using a(2) b(2) g owns_pac_close [OF b(1)] owns_pac_close [OF owns_close [OF a(1)]]
    by (simp add: pac_mutation_def case_prod_unfold sp_inv_def split: option.split)
qed

lemma pac_start_inv:
  assumes "owns xs [] s" "recorded J s"
  shows "case startManagedPACServer port script s of (Inl e, s') \<Rightarrow> owns xs [] s' \<and> recorded J s'
    | (Inr url, s') \<Rightarrow> owns xs [url] s' \<and> recorded J s'"
  using assms
  by (auto simp: startManagedPACServer_def sp_call_eq Let_def owns_def lease_ids_def lease_pacs_def loop_ids_def recorded_def)

lemma pac_handler_inv:
  assumes "sp_inv J s"
  shows "sp_inv J (snd (pac_handler L J now port r body s))"
proof (cases body)
  case None
  then show ?thesis using assms by (simp add: pac_handler_def)
next
  case (Some req)
  obtain res s1 where c: "capture_runner r s = (res, s1)" by fastforce
  show ?thesis
  proof (cases res)
    case (Inl e)
    then show ?thesis using c Some assms capture_error [of r s e s1] by (simp add: pac_handler_def)
  next
    case (Inr runner)
    note o = capture_step [OF assms c [unfolded Inr]]
    show ?thesis
    proof (cases "pr_Script req")
      case None
      then show ?thesis using Some c Inr o pac_mutation_inv [of runner None s1 J] by (simp add: pac_handler_def Let_def)
    next
      case (Some script)
      obtain pr s2 where p: "startManagedPACServer port script s1 = (pr, s2)" by fastforce
      show ?thesis
        using \<open>body = Some req\<close> Some c Inr p assms pac_start_inv [OF o, of port script] pac_mutation_inv [of runner "Some _" s2 J] owns_close
        by (cases pr) (auto simp: pac_handler_def Let_def sp_inv_def)
    qed
  qed
qed

lemma disable_handler_inv: "sp_inv J s \<Longrightarrow> sp_inv J (snd (disable_handler L r body s))"
  by (auto simp: disable_handler_def case_prod_unfold sp_inv_core [OF core_change] sp_inv_def [of J s] owns_core [OF core_StopGuard]
      owns_core [OF core_change] intro!: forget_inv split: option.split)

lemma prepareNative_inv: "sp_inv J s \<Longrightarrow> sp_inv J (snd (prepareNativeProxy s))"
  by (auto simp: prepareNativeProxy_def sp_inv_def [of J s] owns_core [OF core_StopGuard] owns_core [OF core_stopRecovery] intro!: forget_inv)

lemma sp_inv_lease_timers:
  assumes "sp_inv J s" "sp_lease s = Some l" "record_of (sp_GOOS s) l' = record_of (sp_GOOS s) l" "pl_runner l' = pl_runner l"
    "pl_pacServer l' = pl_pacServer l" "pl_generation l' = pl_generation l" "pl_mode l' = pl_mode l"
  shows "sp_inv J (s\<lparr>sp_lease := Some l'\<rparr>)"
  using assms by (auto simp: sp_inv_def owns_def lease_ids_def lease_pacs_def loop_ids_def recorded_def)

lemma sp_renew_inv: "sp_inv J s \<Longrightarrow> sp_inv J (snd (renewSysproxyLease now s))"
  by (cases "sp_lease s") (auto simp: renewSysproxyLease_def intro!: sp_inv_lease_timers)

lemma renew_handler_inv: "sp_inv J s \<Longrightarrow> sp_inv J (snd (renew_handler now s))"
  using sp_renew_inv [of J s now] by (simp add: renew_handler_def case_prod_unfold split: bool.split)

lemma map_lease_inv:
  assumes "sp_inv J s" "\<And>l. record_of (sp_GOOS s) (f l) = record_of (sp_GOOS s) l \<and> pl_runner (f l) = pl_runner l \<and>
    pl_pacServer (f l) = pl_pacServer l \<and> pl_generation (f l) = pl_generation l \<and> pl_mode (f l) = pl_mode l"
  shows "sp_inv J (s\<lparr>sp_lease := map_option f (sp_lease s)\<rparr>)"
  using assms by (auto simp: sp_inv_def owns_def lease_ids_def lease_pacs_def loop_ids_def recorded_def split: option.split)

lemma set_timer_inv: "sp_inv J s \<Longrightarrow> sp_inv J (set_timer t s)"
  unfolding set_timer_def by (rule map_lease_inv) simp_all

lemma sp_schedule_inv: "sp_inv J s \<Longrightarrow> sp_inv J (scheduleSysproxyReconcile s)"
  unfolding scheduleSysproxyReconcile_def by (rule map_lease_inv) simp_all

lemma sp_expire_inv: "sp_inv J s \<Longrightarrow> sp_inv J (expireSysproxyLease L now g s)"
  by (auto simp: expireSysproxyLease_def case_prod_unfold sp_inv_core [OF core_release] sp_inv_core [OF core_StopGuard] sp_inv_def [of J s]
      owns_core [OF core_release] owns_core [OF core_StopGuard] recorded_core [OF core_StopGuard]
      intro!: set_timer_inv forget_inv split: option.split)

lemma clear_inv: "owns [] [] s \<Longrightarrow> sp_inv J (clearSysproxyLease s)"
  using owns_clear [of "[]" "[]" s] by (simp add: sp_inv_def recorded_none)

lemma stop_inv: "sp_inv J s \<Longrightarrow> sp_inv J (snd (StopManagedProxy L s))"
  by (auto simp: StopManagedProxy_def Let_def case_prod_unfold sp_inv_core [OF core_StopGuard] sp_inv_core [OF core_stopRecovery] sp_inv_def [of J s]
      owns_core [OF core_release] owns_core [OF core_StopGuard] owns_core [OF core_stopRecovery]
      intro!: clear_inv forget_inv split: option.split)

lemma sp_inv_note:
  assumes "sp_inv J s" "sp_lease s = Some l" "core t = core s"
  shows "sp_inv J (t\<lparr>sp_lease := Some (l\<lparr>pl_networkSignature := sig\<rparr>)\<rparr>)"
  using assms coreD [OF assms(3)] by (intro sp_inv_lease_timers [of J t l]) (simp_all add: sp_inv_core [OF assms(3)])

lemma reconcileNetwork_inv:
  assumes "sp_inv J s" "sp_lease s = Some l"
  shows "sp_inv J (snd (reconcileNetwork L sig l s))"
proof -
  note n = sp_inv_note [OF assms]
  show ?thesis using assms(1)
    by (auto simp: reconcileNetwork_def Let_def case_prod_unfold sp_inv_core [OF core_apply] sp_inv_core [OF core_query] core_simps
        intro!: n split: option.split sum.split)
qed

lemma sp_reconcile_inv: "sp_inv J s \<Longrightarrow> sp_inv J (reconcileSysproxyLease L now g sig s)"
  by (auto simp: reconcileSysproxyLease_def intro!: sp_schedule_inv reconcileNetwork_inv split: option.split sum.split)

lemma guard_exit_inv:
  assumes "sp_inv J s" "gl \<in> set (sp_loops s)"
  shows "sp_inv J (runner_Close (gc_runner (gl_config gl)) (s\<lparr>sp_loops := remove1 gl (sp_loops s)\<rparr>))"
proof -
  let ?t = "s\<lparr>sp_loops := remove1 gl (sp_loops s)\<rparr>" and ?i = "ru_id (gc_runner (gl_config gl))"
  have "mset (sp_loops s) = mset (gl # remove1 gl (sp_loops s))" using assms(2) by simp
  then have "image_mset (ru_id \<circ> gc_runner \<circ> gl_config) (mset (sp_loops s)) =
      image_mset (ru_id \<circ> gc_runner \<circ> gl_config) (mset (gl # remove1 gl (sp_loops s)))" by (rule arg_cong)
  then have "mset (loop_ids s) = mset (?i # loop_ids ?t)" by (simp add: loop_ids_def del: mset_remove1)
  then have "owns [?i] [] ?t" using assms(1) by (simp add: sp_inv_def owns_def lease_ids_def lease_pacs_def)
  moreover have "recorded J ?t = recorded J s" by (rule recorded_cong) simp_all
  ultimately show ?thesis using assms(1) owns_close by (simp add: sp_inv_def)
qed

lemma guard_round_inv: "sp_inv J s \<Longrightarrow> sp_inv J (guard_round L g watch s)"
proof (cases "find (\<lambda>gl. gl_generation gl = g) (sp_loops s)")
  case (Some gl)
  assume i: "sp_inv J s"
  have "gl \<in> set (sp_loops s)" using Some by (metis find_Some_iff nth_mem)
  then have "sp_inv J (runner_Close (gc_runner (gl_config gl)) (s\<lparr>sp_loops := remove1 gl (sp_loops s)\<rparr>))"
    using i by (rule guard_exit_inv [rotated])
  moreover have "core (guard_round L g watch s) = core s" if "sp_guardGeneration s = g"
    using Some that by (simp add: guard_round_def Let_def case_prod_unfold core_simps split: sum.split option.split)
  ultimately show ?thesis using i Some sp_inv_core [of "guard_round L g watch s" s J]
    by (cases "sp_guardGeneration s = g") (simp_all add: guard_round_def Let_def)
qed (simp add: guard_round_def)

lemma recover_fields [simp]:
  "sp_lease (snd (recoverManagedProxy L J s)) = sp_lease s" "owns xs ps (snd (recoverManagedProxy L J s)) = owns xs ps s"
proof -
  have c: "core (snd (recoverManagedProxyRecord L r (s\<lparr>sp_io := ios\<rparr>))) = core s" for r ios
    by (simp add: core_simps)
  have l: "sp_lease (snd (recoverManagedProxyRecord L r (s\<lparr>sp_io := ios\<rparr>))) = sp_lease s" for r ios
    using coreD(1) [OF c] .
  show "sp_lease (snd (recoverManagedProxy L J s)) = sp_lease s"
    by (simp add: recoverManagedProxy_def case_prod_unfold Let_def l split: store.split option.split bool.split)
  show "owns xs ps (snd (recoverManagedProxy L J s)) = owns xs ps s"
    by (simp add: recoverManagedProxy_def case_prod_unfold Let_def owns_remove owns_core [OF c] owns_core [OF core_io]
        split: store.split option.split bool.split)
qed

lemma recovery_retry_inv: "sp_inv J s \<Longrightarrow> sp_inv J (recovery_retry L J g s)"
  by (auto simp: recovery_retry_def case_prod_unfold owns_core [OF core_scheduleRecovery] recorded_core [OF core_scheduleRecovery] sp_inv_def
      recorded_none split: option.split)

lemma adopt_owns_recorded:
  assumes "sp_inv J s"
  shows "owns [] [] (snd (adoptNativeProxy U L J now r body s))"
    and "sp_lease s = None \<or> fst (adoptNativeProxy U L J now r body s) \<noteq> Some (Plain ''Unable to persist native proxy ownership'') \<Longrightarrow>
      recorded J (snd (adoptNativeProxy U L J now r body s))"
proof -
  have "owns [] [] (snd (adoptNativeProxy U L J now r body s)) \<and>
    (sp_lease s = None \<or> fst (adoptNativeProxy U L J now r body s) \<noteq> Some (Plain ''Unable to persist native proxy ownership'') \<longrightarrow>
      recorded J (snd (adoptNativeProxy U L J now r body s)))"
  proof (cases "\<exists>req runner s1. body = Some req \<and> \<not> (pr_Server req = [] \<and> pr_Url req = []) \<and> capture_runner r s = (Inr runner, s1)")
    case False
    then show ?thesis using assms capture_error [of r s]
      by (cases body; cases "fst (capture_runner r s)"; cases "capture_runner r s") (auto simp: adoptNativeProxy_def Let_def sp_inv_def)
  next
    case True
    then obtain req runner s1 where q: "body = Some req" "\<not> (pr_Server req = [] \<and> pr_Url req = [])" and c: "capture_runner r s = (Inr runner, s1)"
      by blast
    note o = capture_step [OF assms c]
    define md where "md = (if pr_Url req \<noteq> [] then sysproxyGuardModePAC else sysproxyGuardModeProxy)"
    define opts where "opts = prepareSysproxyOptions (sp_GOOS s) r
      (no_options\<lparr>po_Proxy := pr_Server req, po_Bypass := pr_Bypass req, po_PACURL := pr_Url req, po_OnlyActiveDevice := pr_OnlyActiveDevice req\<rparr>)"
    let ?n = "captureNativeProxyLease U L md opts runner s1"
    have n: "owns [ru_id runner] [] (snd ?n)" "recorded J (snd ?n)"
      using o by (simp_all add: owns_core [OF core_captureNative] recorded_core [OF core_captureNative])
    show ?thesis
    proof (cases "fst ?n")
      case (Inl e)
      then show ?thesis using n owns_close [OF n(1)] q c
        by (auto simp: adoptNativeProxy_def Let_def case_prod_unfold simp flip: opts_def md_def)
    next
      case (Inr l)
      have f: "pl_runner l = runner" "pl_pacServer l = None" "pl_mode l = md"
        using Inr by (auto simp: captureNativeProxyLease_def captureSysproxyLease_def case_prod_unfold split: sum.splits if_splits)
      let ?p = "persistManagedProxy J l (snd ?n)"
      have p: "owns [ru_id runner] [] (snd ?p)" using n owns_persist by metis
      show ?thesis
      proof (cases "fst ?p")
        case None
        from persist_ok [OF None] obtain rec where rec: "sp_configured (snd ?n)" "sp_disk (snd ?p) = Stored rec"
          "record_of (sp_GOOS (snd ?n)) l = Some rec" "J rec \<le> maxManagedProxyRecordSize" by blast
        have "md \<in> {sysproxyGuardModeProxy, sysproxyGuardModePAC}" by (simp add: md_def)
        then have "recorded J (replaceSysproxyLease now l (snd ?p))"
          using rec f by (intro recorded_replace [of _ rec]) simp_all
        moreover have "owns [] [] (replaceSysproxyLease now l (snd ?p))" using p f by (intro owns_replace) simp_all
        ultimately have "sp_inv J (configureSysproxyGuardBestEffort L r (pr_Guard req) md opts (replaceSysproxyLease now l (snd ?p)))"
          by (intro guard_step_inv)
        then show ?thesis using q c Inr None
          by (auto simp: adoptNativeProxy_def Let_def case_prod_unfold sp_inv_def simp flip: opts_def md_def)
      next
        case (Some e)
        have "sp_lease (snd ?n) = sp_lease s" using coreD(1) [OF core_captureNative [of U L md opts runner s1]] owns_capture [OF _ c, of "[]" "[]"] assms
          by (simp add: sp_inv_def)
        then show ?thesis using q c Inr Some owns_close [OF p]
          by (auto simp: adoptNativeProxy_def Let_def case_prod_unfold recorded_none simp flip: opts_def md_def)
      qed
    qed
  qed
  then show "owns [] [] (snd (adoptNativeProxy U L J now r body s))"
    and "sp_lease s = None \<or> fst (adoptNativeProxy U L J now r body s) \<noteq> Some (Plain ''Unable to persist native proxy ownership'') \<Longrightarrow>
      recorded J (snd (adoptNativeProxy U L J now r body s))" by blast+
qed

subsection \<open>Runs\<close>

text \<open>
  A service starts with what it finds on disk. \<open>UserAction\<close> is any change of the settings by somebody
  else. An adoption that reports that the record could not be written may have replaced the record of an
  earlier lease; such a step is only part of a run when there was no lease.
\<close>

definition fresh_sysproxy :: "string \<Rightarrow> 32 word option \<Rightarrow> managed_record store \<Rightarrow> 'w \<Rightarrow> io list \<Rightarrow> 'w sysproxy" where
  "fresh_sysproxy goos bound disk w ios =
     \<lparr>sp_GOOS = goos, sp_bound = bound, sp_configured = False, sp_lease = None, sp_leaseGeneration = 0, sp_recoveryTimer = False,
      sp_recoveryGeneration = 0, sp_guardGeneration = 0, sp_guardCancel = False, sp_loops = [], sp_disk = disk,
      sp_hub = \<lparr>eh_subscribers = [], eh_last = newSysproxyEvent [] [] False [] None, eh_nextSeq = 0\<rparr>,
      sp_open = [], sp_nextRunner = 0, sp_pacServers = [], sp_world = w, sp_io = ios\<rparr>"

definition sysproxy_start ::
  "'w sysproxy_lib \<Rightarrow> (managed_record \<Rightarrow> nat) \<Rightarrow> string \<Rightarrow> 32 word option \<Rightarrow> managed_record store \<Rightarrow> 'w \<Rightarrow> io list \<Rightarrow> 'w sysproxy" where
  "sysproxy_start L json_len goos bound disk w ios = snd (ConfigureManagedProxyRecovery L json_len (fresh_sysproxy goos bound disk w ios))"

inductive sp_reach :: "unicode \<Rightarrow> 'w sysproxy_lib \<Rightarrow> (managed_record \<Rightarrow> nat) \<Rightarrow> 'w sysproxy \<Rightarrow> bool"
  for U :: unicode and L :: "'w sysproxy_lib" and J :: "managed_record \<Rightarrow> nat" where
  Started: "sp_reach U L J (sysproxy_start L J goos bound disk w ios)"
| Retried: "sp_reach U L J s \<Longrightarrow> sp_reach U L J (recovery_retry L J g s)"
| Proxied: "sp_reach U L J s \<Longrightarrow> sp_reach U L J (snd (proxy_handler L J now r body s))"
| Pacced: "sp_reach U L J s \<Longrightarrow> sp_reach U L J (snd (pac_handler L J now port r body s))"
| Disabled: "sp_reach U L J s \<Longrightarrow> sp_reach U L J (snd (disable_handler L r body s))"
| Renewed: "sp_reach U L J s \<Longrightarrow> sp_reach U L J (snd (renew_handler now s))"
| Prepared: "sp_reach U L J s \<Longrightarrow> sp_reach U L J (snd (prepareNativeProxy s))"
| Adopted: "sp_reach U L J s \<Longrightarrow>
    sp_lease s = None \<or> fst (adoptNativeProxy U L J now r body s) \<noteq> Some (Plain ''Unable to persist native proxy ownership'') \<Longrightarrow>
    sp_reach U L J (snd (adoptNativeProxy U L J now r body s))"
| Expired: "sp_reach U L J s \<Longrightarrow> sp_reach U L J (expireSysproxyLease L now g s)"
| Stopped: "sp_reach U L J s \<Longrightarrow> sp_reach U L J (snd (StopManagedProxy L s))"
| Reconciled: "sp_reach U L J s \<Longrightarrow> sp_reach U L J (reconcileSysproxyLease L now g sig s)"
| Guarded: "sp_reach U L J s \<Longrightarrow> sp_reach U L J (guard_round L g watch s)"
| UserAction: "sp_reach U L J s \<Longrightarrow> sp_reach U L J (s\<lparr>sp_world := w, sp_io := ios, sp_bound := bound\<rparr>)"

lemma start_inv: "sp_inv J (sysproxy_start L J goos bound disk w ios)"
proof -
  have f: "owns [] [] (fresh_sysproxy goos bound disk w ios :: 'a sysproxy)" "sp_lease (fresh_sysproxy goos bound disk w ios :: 'a sysproxy) = None"
    by (simp_all add: fresh_sysproxy_def owns_def lease_ids_def lease_pacs_def loop_ids_def)
  have u: "owns [] [] (s\<lparr>sp_configured := b, sp_io := ios\<rparr>) = owns [] [] s" for b ios and s :: "'a sysproxy"
    by (simp add: owns_def lease_ids_def lease_pacs_def loop_ids_def)
  have c: "owns [] [] (snd (ConfigureManagedProxyRecovery L J s)) = owns [] [] s" "sp_lease (snd (ConfigureManagedProxyRecovery L J s)) = sp_lease s"
    for s :: "'a sysproxy"
    by (simp_all add: ConfigureManagedProxyRecovery_def Let_def case_prod_unfold owns_core [OF core_scheduleRecovery] coreD(1) [OF core_scheduleRecovery]
        coreD(1) [OF core_stopRecovery] u owns_core [OF core_stopRecovery] split: bool.split option.split)
  show ?thesis using f by (simp add: sysproxy_start_def sp_inv_def c recorded_none)
qed

lemma reach_inv: "sp_reach U L J s \<Longrightarrow> sp_inv J s"
proof (induction rule: sp_reach.induct)
  case (Adopted s now r body)
  then show ?case using adopt_owns_recorded [OF Adopted.IH] by (simp add: sp_inv_def)
next
  case (UserAction s w ios bound)
  then show ?case by (simp add: sp_inv_def owns_def lease_ids_def lease_pacs_def loop_ids_def recorded_def)
qed (simp_all add: start_inv recovery_retry_inv proxy_handler_inv pac_handler_inv disable_handler_inv renew_handler_inv prepareNative_inv
    sp_expire_inv stop_inv sp_reconcile_inv guard_round_inv)

subsection \<open>Settings that are not the service's\<close>

text \<open>What the system shows for the lease, and for the record after a restart.\<close>

definition lease_matches :: "'w sysproxy_lib \<Rightarrow> 'w sysproxy \<Rightarrow> proxy_lease \<Rightarrow> bool" where
  "lease_matches L s l = sysproxyGuardMatches (pl_mode l) (pl_expected l)
     (Some (lib_Query L (sessionOptions (sp_GOOS s) (pl_runner l) (pl_opts l)) (sp_world s)))"

definition record_matches :: "'w sysproxy_lib \<Rightarrow> 'w \<Rightarrow> managed_record \<Rightarrow> bool" where
  "record_matches L w r = sysproxyGuardMatches (mr_Mode r) (mr_Expected r) (Some (lib_Query L (sysproxyOptions (mr_Options r)) w))"

lemma world_StopGuard [simp]: "sp_world (StopGuard s) = sp_world s" "sp_GOOS (StopGuard s) = sp_GOOS s" "sp_lease (StopGuard s) = sp_lease s"
  "sp_io (StopGuard s) = sp_io s" "sp_disk (StopGuard s) = sp_disk s"
  by (simp_all add: StopGuard_def guard_stop_def Let_def publishSysproxyGuardEvent_def)

lemma world_stopRecovery [simp]: "sp_world (stopManagedProxyRecovery s) = sp_world s" "sp_GOOS (stopManagedProxyRecovery s) = sp_GOOS s"
  "sp_lease (stopManagedProxyRecovery s) = sp_lease s" "sp_io (stopManagedProxyRecovery s) = sp_io s" "sp_disk (stopManagedProxyRecovery s) = sp_disk s"
  "sp_bound (stopManagedProxyRecovery s) = sp_bound s"
  by (simp_all add: stopManagedProxyRecovery_def)

lemma world_forget [simp]: "sp_world (forgetSysproxyLease s) = sp_world s"
  by (simp add: forgetSysproxyLease_def)

lemma world_timer [simp]: "sp_world (set_timer t s) = sp_world s"
  by (simp add: set_timer_def)

lemma release_foreign:
  assumes "sp_lease s = Some l" "\<not> lease_matches L s l"
  shows "sp_world (snd (releaseSysproxyLease L s)) = sp_world s"
  using assms by (simp add: releaseSysproxyLease_def runner_Query_def sp_call_eq lease_matches_def)

lemma release_ours:
  assumes "sp_lease s = Some l" "sp_world (snd (releaseSysproxyLease L s)) \<noteq> sp_world s"
  shows "lease_matches L s l \<and> sp_world (snd (releaseSysproxyLease L s)) = lib_Disable L (sessionOptions (sp_GOOS s) (pl_runner l) (pl_opts l)) (sp_world s)"
  using assms
  by (auto simp: releaseSysproxyLease_def runner_Query_def runner_Disable_def change_world_def sp_call_eq case_prod_unfold lease_matches_def
      split: sum.splits option.splits io.splits if_splits)

lemma recoverWith_foreign: "\<not> record_matches L (sp_world s) r \<Longrightarrow> sp_world (snd (recoverManagedProxyRecordWith L r s)) = sp_world s"
  by (simp add: recoverManagedProxyRecordWith_def Let_def sp_call_eq record_matches_def)

lemma recover_foreign:
  assumes "\<And>r. sp_disk s = Stored r \<Longrightarrow> \<not> record_matches L (sp_world s) r"
  shows "sp_world (snd (recoverManagedProxy L J s)) = sp_world s"
  using assms
  by (auto simp: recoverManagedProxy_def recoverManagedProxyRecord_def Let_def case_prod_unfold recoverWith_foreign split: store.split option.split bool.split)

lemma world_schedule [simp]: "sp_world (scheduleManagedProxyRecovery s) = sp_world s" "sp_disk (scheduleManagedProxyRecovery s) = sp_disk s"
  by (simp_all add: scheduleManagedProxyRecovery_def stopManagedProxyRecovery_def)

lemma fresh_fields [simp]:
  "sp_world (fresh_sysproxy goos bound disk w ios) = w" "sp_disk (fresh_sysproxy goos bound disk w ios) = disk"
  "sp_io (fresh_sysproxy goos bound disk w ios) = ios" "sp_GOOS (fresh_sysproxy goos bound disk w ios) = goos"
  "sp_bound (fresh_sysproxy goos bound disk w ios) = bound" "sp_lease (fresh_sysproxy goos bound disk w ios) = None"
  by (simp_all add: fresh_sysproxy_def)

lemma start_foreign:
  assumes "\<And>r. disk = Stored r \<Longrightarrow> \<not> record_matches L w r"
  shows "sp_world (sysproxy_start L J goos bound disk w ios) = w"
proof -
  let ?s = "\<lambda>ios'. (stopManagedProxyRecovery (fresh_sysproxy goos bound disk w ios))\<lparr>sp_configured := True, sp_io := ios'\<rparr>"
  have "sp_world (snd (recoverManagedProxy L J (?s ios'))) = sp_world (?s ios')" for ios'
    using assms by (intro recover_foreign) simp
  then have "sp_world (snd (recoverManagedProxy L J (?s ios'))) = w" for ios' by simp
  then show ?thesis
    by (auto simp: sysproxy_start_def ConfigureManagedProxyRecovery_def Let_def case_prod_unfold split: bool.split option.split)
qed

lemma retry_foreign:
  assumes "\<And>r. sp_disk s = Stored r \<Longrightarrow> \<not> record_matches L (sp_world s) r"
  shows "sp_world (recovery_retry L J g s) = sp_world s"
  using recover_foreign [OF assms] by (simp add: recovery_retry_def case_prod_unfold split: option.split)

subsection \<open>Recovery\<close>

lemma recover_good:
  assumes "sp_disk s = Stored r" "J r \<le> maxManagedProxyRecordSize" "mr_Version r = managedProxyRecordVersion"
    "mr_Mode r \<in> {sysproxyGuardModeProxy, sysproxyGuardModePAC}" "sp_io s = []" "sp_configured s"
    "validateManagedProxyRecoveryOptions (sp_GOOS s) (sp_bound s) (mr_Options r) = None"
  shows "fst (recoverManagedProxy L J s) = None \<and> sp_disk (snd (recoverManagedProxy L J s)) = Absent \<and>
    sp_world (snd (recoverManagedProxy L J s)) =
      (if record_matches L (sp_world s) r then lib_Disable L (sysproxyOptions (mr_Options r)) (sp_world s) else sp_world s)"
  using assms
  by (auto simp: recoverManagedProxy_def recoverManagedProxyRecord_def recoverManagedProxyRecordWith_def removeManagedProxyRecord_def Let_def
      change_world_def sp_call_eq record_matches_def)

lemma start_good:
  assumes "disk = Stored r" "J r \<le> maxManagedProxyRecordSize" "mr_Version r = managedProxyRecordVersion"
    "mr_Mode r \<in> {sysproxyGuardModeProxy, sysproxyGuardModePAC}" "validateManagedProxyRecoveryOptions goos bound (mr_Options r) = None"
  shows "sp_disk (sysproxy_start L J goos bound disk w []) = Absent \<and>
    sp_world (sysproxy_start L J goos bound disk w []) = (if record_matches L w r then lib_Disable L (sysproxyOptions (mr_Options r)) w else w)"
proof -
  let ?s = "(stopManagedProxyRecovery (fresh_sysproxy goos bound disk w []))\<lparr>sp_configured := True, sp_io := []\<rparr>"
  have "fst (recoverManagedProxy L J ?s) = None \<and> sp_disk (snd (recoverManagedProxy L J ?s)) = Absent \<and>
    sp_world (snd (recoverManagedProxy L J ?s)) = (if record_matches L (sp_world ?s) r then lib_Disable L (sysproxyOptions (mr_Options r)) (sp_world ?s) else sp_world ?s)"
    by (rule recover_good) (use assms in simp_all)
  then show ?thesis by (simp add: sysproxy_start_def ConfigureManagedProxyRecovery_def Let_def case_prod_unfold)
qed

lemma record_of_fields: "record_of goos l = Some r \<Longrightarrow> mr_Version r = managedProxyRecordVersion \<and> mr_Mode r = pl_mode l \<and> mr_Expected r = pl_expected l"
  by (auto simp: record_of_def split: sum.splits)

subsection \<open>A request that succeeds\<close>

lemma world_query [simp]: "sp_world (snd (runner_Query L r opts s)) = sp_world s" "sp_GOOS (snd (runner_Query L r opts s)) = sp_GOOS s"
  by (simp_all add: runner_Query_def sp_call_eq)

lemma world_capture [simp]: "sp_world (snd (capture_runner r s)) = sp_world s" "sp_lease (snd (capture_runner r s)) = sp_lease s"
  "sp_GOOS (snd (capture_runner r s)) = sp_GOOS s" "sp_disk (snd (capture_runner r s)) = sp_disk s"
  by (simp_all add: capture_runner_def split: sum.split)

lemma world_close [simp]: "sp_world (runner_Close r s) = sp_world s"
  by (simp add: runner_Close_def)

lemma guard_keeps [simp]:
  "sp_world (configureSysproxyGuardBestEffort L r en md opts s) = sp_world s"
  "sp_lease (configureSysproxyGuardBestEffort L r en md opts s) = sp_lease s"
  "sp_GOOS (configureSysproxyGuardBestEffort L r en md opts s) = sp_GOOS s"
  "sp_disk (configureSysproxyGuardBestEffort L r en md opts s) = sp_disk s"
proof -
  have q: "sp_lease (snd (runner_Query L ru opts t)) = sp_lease t" "sp_disk (snd (runner_Query L ru opts t)) = sp_disk t" for ru t
    by (simp_all add: runner_Query_def sp_call_eq)
  have "sp_world (snd (configureSysproxyGuard L r en md opts s)) = sp_world s \<and> sp_lease (snd (configureSysproxyGuard L r en md opts s)) = sp_lease s \<and>
    sp_GOOS (snd (configureSysproxyGuard L r en md opts s)) = sp_GOOS s \<and> sp_disk (snd (configureSysproxyGuard L r en md opts s)) = sp_disk s"
    by (simp add: configureSysproxyGuard_def case_prod_unfold Let_def q split: sum.split)
  then show "sp_world (configureSysproxyGuardBestEffort L r en md opts s) = sp_world s"
    "sp_lease (configureSysproxyGuardBestEffort L r en md opts s) = sp_lease s"
    "sp_GOOS (configureSysproxyGuardBestEffort L r en md opts s) = sp_GOOS s"
    "sp_disk (configureSysproxyGuardBestEffort L r en md opts s) = sp_disk s"
    by (simp_all add: configureSysproxyGuardBestEffort_def case_prod_unfold publishSysproxyGuardEvent_def split: option.split)
qed

lemma world_persist [simp]: "sp_world (snd (persistManagedProxy J l s)) = sp_world s"
  by (simp add: persistManagedProxy_def writeManagedProxyRecord_def case_prod_unfold split: sum.split option.split bool.split)

lemma begin_ok:
  assumes "fst (beginManagedProxy L J now runner md opts s) = None"
  shows "\<exists>l r. sp_lease (snd (beginManagedProxy L J now runner md opts s)) = Some l \<and> sp_world (snd (beginManagedProxy L J now runner md opts s)) = sp_world s \<and>
    lease_matches L (snd (beginManagedProxy L J now runner md opts s)) l \<and> pl_mode l = md \<and> pl_opts l = opts \<and> pl_runner l = runner \<and>
    pl_deadline l = now + sysproxyLeaseDuration \<and> pl_timer l = Some (now + sysproxyLeaseDuration) \<and>
    sp_disk (snd (beginManagedProxy L J now runner md opts s)) = Stored r \<and> record_of (sp_GOOS s) l = Some r \<and>
    sp_GOOS (snd (beginManagedProxy L J now runner md opts s)) = sp_GOOS s"
proof -
  let ?c = "captureSysproxyLease L md opts runner s"
  from assms abandon_proxy_def obtain l where l: "fst ?c = Inr l"
    by (cases "fst ?c") (auto simp: beginManagedProxy_def case_prod_unfold abandon_proxy_def Let_def errors_Join_None_iff)
  let ?p = "persistManagedProxy J l (snd ?c)"
  have p: "fst ?p = None"
    using assms l by (cases "fst ?p") (auto simp: beginManagedProxy_def case_prod_unfold abandon_proxy_def Let_def errors_Join_None_iff)
  have b: "beginManagedProxy L J now runner md opts s = (None, replaceSysproxyLease now l (snd ?p))"
    using l p by (simp add: beginManagedProxy_def case_prod_unfold)
  have c: "sp_world (snd ?c) = sp_world s" "sp_GOOS (snd ?c) = sp_GOOS s"
    "pl_expected l = newSysproxyGuardSnapshot md (Some (lib_Query L (sessionOptions (sp_GOOS s) runner opts) (sp_world s)))"
    using l by (auto simp: captureSysproxyLease_def runner_Query_def sp_call_eq case_prod_unfold split: sum.splits if_splits)
  show ?thesis
    using capture_lease_fields [OF l] persist_ok [OF p] replace_fields [of now l "snd ?p"] c
    by (auto simp: b lease_matches_def snapshot_matches)
qed

subsection \<open>The guard's loops\<close>

lemma stale_round:
  assumes "g \<noteq> sp_guardGeneration s"
  shows "sp_world (guard_round L g watch s) = sp_world s \<and> sp_hub (guard_round L g watch s) = sp_hub s \<and> sp_lease (guard_round L g watch s) = sp_lease s"
  using assms by (simp add: guard_round_def Let_def runner_Close_def split: option.split)

lemma StopGuard_generation: "sp_guardGeneration (StopGuard s) = sp_guardGeneration s + 1"
  by (simp add: StopGuard_def guard_stop_def Let_def publishSysproxyGuardEvent_def)

lemma restore_verified:
  assumes "fst (guard_restore L g c s) = (e, True)"
  shows "e = None \<and> g = sp_guardGeneration s \<and> sysproxyGuardMatches (gc_mode c) (gc_expected c)
    (Some (lib_Query L (sessionOptions (sp_GOOS s) (gc_runner c) (gc_opts c)) (sp_world (snd (guard_restore L g c s)))))"
proof -
  let ?s0 = "publishSysproxyGuardEvent ''guard_changed'' (gc_mode c) True ''System proxy guard detected proxy settings were changed'' None s"
  have g: "sp_GOOS (snd (runner_Apply L (gc_runner c) (gc_mode c) (gc_opts c) ?s0)) = sp_GOOS s"
    using coreD(8) [OF core_apply [of L "gc_runner c" "gc_mode c" "gc_opts c" ?s0]] by (simp add: publishSysproxyGuardEvent_def)
  show ?thesis using assms g
    by (auto simp: guard_restore_def Let_def case_prod_unfold runner_Query_def sp_call_eq split: option.splits sum.splits if_splits)
qed

subsection \<open>The lease as the client sees it\<close>

definition sp_held :: "'w sysproxy \<Rightarrow> bool" where "sp_held s = (sp_lease s \<noteq> None)"
definition sp_deadline :: "'w sysproxy \<Rightarrow> int" where "sp_deadline s = (case sp_lease s of None \<Rightarrow> 0 | Some l \<Rightarrow> pl_deadline l)"

text \<open>The timer of the current lease.\<close>

definition sp_timer_fires :: "'w sysproxy_lib \<Rightarrow> int \<Rightarrow> 'w sysproxy \<Rightarrow> 'w sysproxy" where
  "sp_timer_fires L now s = (case sp_lease s of None \<Rightarrow> s | Some l \<Rightarrow> expireSysproxyLease L now (pl_generation l) s)"

lemma renew_handler_eq: "snd (renew_handler now s) = snd (renewSysproxyLease now s)"
  by (simp add: renew_handler_def case_prod_unfold split: bool.split)

lemma release_good_calls: "sp_io s = [] \<Longrightarrow> fst (releaseSysproxyLease L s) = None \<and> sp_io (snd (releaseSysproxyLease L s)) = []"
  by (auto simp: releaseSysproxyLease_def runner_Query_def runner_Disable_def change_world_def sp_call_eq split: option.split)

lemma forget_good_calls: "sp_lease (forgetSysproxyLease s) = None" "sp_io s = [] \<Longrightarrow> sp_io (forgetSysproxyLease s) = []"
  by (simp_all add: forgetSysproxyLease_def removeManagedProxyRecord_def sp_call_eq)

interpretation spx: client_lease sp_held sp_deadline "\<lambda>now s. snd (renew_handler now s)" "sp_timer_fires L" sysproxyLeaseDuration "\<lambda>s. sp_io s = []" for L
proof
  fix now and s :: "'a sysproxy"
  show "sp_held s \<Longrightarrow> sp_held (snd (renew_handler now s)) \<and> sp_deadline (snd (renew_handler now s)) = now + sysproxyLeaseDuration"
    by (auto simp: renew_handler_eq renewSysproxyLease_def sp_held_def sp_deadline_def)
  show "\<not> sp_held s \<Longrightarrow> \<not> sp_held (snd (renew_handler now s))"
    by (simp add: renew_handler_eq renewSysproxyLease_def sp_held_def)
  show "sp_io s = [] \<Longrightarrow> sp_io (snd (renew_handler now s)) = []"
    by (simp add: renew_handler_eq renewSysproxyLease_def split: option.split)
  show "sp_held s \<Longrightarrow> now < sp_deadline s \<Longrightarrow> sp_held (sp_timer_fires L now s) \<and> sp_deadline (sp_timer_fires L now s) = sp_deadline s"
    by (auto simp: sp_timer_fires_def expireSysproxyLease_def set_timer_def sp_held_def sp_deadline_def)
  have r: "fst (releaseSysproxyLease L (StopGuard s)) = None" "sp_io (snd (releaseSysproxyLease L (StopGuard s))) = []" if "sp_io s = []"
    using release_good_calls [of "StopGuard s" L] that by simp_all
  show "sp_held s \<Longrightarrow> sp_deadline s \<le> now \<Longrightarrow> sp_io s = [] \<Longrightarrow> \<not> sp_held (sp_timer_fires L now s)"
    by (auto simp: sp_timer_fires_def expireSysproxyLease_def sp_held_def sp_deadline_def case_prod_unfold r forget_good_calls)
  show "\<not> sp_held s \<Longrightarrow> \<not> sp_held (sp_timer_fires L now s)"
    by (simp add: sp_timer_fires_def sp_held_def)
  show "sp_io s = [] \<Longrightarrow> sp_io (sp_timer_fires L now s) = []"
    by (auto simp: sp_timer_fires_def expireSysproxyLease_def set_timer_def case_prod_unfold r forget_good_calls split: option.split)
qed

section \<open>An example\<close>

text \<open>A system whose settings are one configuration, on macOS, and a client that sets its proxy.\<close>

definition toy_lib :: "proxy_config sysproxy_lib" where
  "toy_lib = \<lparr>lib_Query = (\<lambda>_ w. w), lib_SetProxy = (\<lambda>opts w. w\<lparr>pg_Enable := True, pg_Servers := fmupd ''http_server'' (po_Proxy opts) fmempty, pg_PACEnable := False\<rparr>),
     lib_SetPac = (\<lambda>opts w. w\<lparr>pg_Enable := False, pg_PACEnable := True, pg_PACURL := po_PACURL opts\<rparr>),
     lib_Disable = (\<lambda>_ w. w\<lparr>pg_Enable := False, pg_PACEnable := False\<rparr>)\<rparr>"

definition toy_settings :: "bool \<Rightarrow> proxy_config" where
  "toy_settings b = \<lparr>pg_Enable = b, pg_SameForAll = True, pg_Servers = fmempty, pg_Bypass = [], pg_PACEnable = False, pg_PACURL = []\<rparr>"

definition toy_req :: proxy_request where
  "toy_req = \<lparr>pr_Server = ''127.0.0.1:7890'', pr_Bypass = [], pr_Url = [], pr_Script = None, pr_Device = [], pr_OnlyActiveDevice = True,
     pr_UseRegistry = False, pr_Guard = True\<rparr>"

definition toy_proxy_peer :: proxy_peer where "toy_proxy_peer = \<lparr>pp_peer = None, pp_environ = None, pp_session = Inl SysErr\<rparr>"

definition toy_start :: "proxy_config sysproxy" where
  "toy_start = sysproxy_start toy_lib (\<lambda>_. 0) ''darwin'' None Absent (toy_settings False) []"

abbreviation toy_proxied :: "err option \<times> proxy_config sysproxy" where
  "toy_proxied \<equiv> proxy_handler toy_lib (\<lambda>_. 0) 0 toy_proxy_peer (Some toy_req) toy_start"

lemma toy_accepted: "fst toy_proxied = None"
  by (simp add: toy_start_def sysproxy_start_def ConfigureManagedProxyRecovery_def fresh_sysproxy_def stopManagedProxyRecovery_def recoverManagedProxy_def
      proxy_handler_def toy_req_def capture_runner_def captureSysproxyGuardRunner_def runner_Apply_def change_world_def sp_call_eq
      beginManagedProxy_def captureSysproxyLease_def runner_Query_def persistManagedProxy_def recoverySysproxyOptions_def
      validateManagedProxyRecoveryOptions_def writeManagedProxyRecord_def maxManagedProxyRecordSize_def case_prod_unfold Let_def)

lemma toy_proxy_reach: "sp_reach U toy_lib (\<lambda>_. 0) (snd toy_proxied)"
  unfolding toy_start_def by (intro Proxied Started)

lemma toy_start_fields: "sp_world toy_start = toy_settings False" "sp_GOOS toy_start = ''darwin''"
  by (simp_all add: toy_start_def sysproxy_start_def ConfigureManagedProxyRecovery_def fresh_sysproxy_def stopManagedProxyRecovery_def recoverManagedProxy_def Let_def)

lemma proxy_success:
  assumes "fst (proxy_handler L J now r (Some req) s) = None"
  shows "\<exists>l rec. sp_lease (snd (proxy_handler L J now r (Some req) s)) = Some l \<and>
     lease_matches L (snd (proxy_handler L J now r (Some req) s)) l \<and> pl_mode l = sysproxyGuardModeProxy \<and>
     sp_world (snd (proxy_handler L J now r (Some req) s)) = lib_SetProxy L (sessionOptions (sp_GOOS s) (pl_runner l) (pl_opts l)) (sp_world s) \<and>
     po_Proxy (pl_opts l) = pr_Server req \<and> po_Bypass (pl_opts l) = pr_Bypass req \<and>
     pl_deadline l = now + sysproxyLeaseDuration \<and> pl_timer l = Some (now + sysproxyLeaseDuration) \<and>
     sp_disk (snd (proxy_handler L J now r (Some req) s)) = Stored rec \<and> record_of (sp_GOOS s) l = Some rec \<and>
     sp_GOOS (snd (proxy_handler L J now r (Some req) s)) = sp_GOOS s"
proof -
  define opts where "opts = prepareSysproxyOptions (sp_GOOS s) r ((request_options req)\<lparr>po_Proxy := pr_Server req, po_Bypass := pr_Bypass req\<rparr>)"
  have opts: "po_Proxy opts = pr_Server req" "po_Bypass opts = pr_Bypass req"
    by (simp_all add: opts_def prepareSysproxyOptions_def split: option.split bool.split)
  obtain runner s1 where c: "capture_runner r s = (Inr runner, s1)"
    using assms by (cases "capture_runner r s"; cases "fst (capture_runner r s)") (auto simp: proxy_handler_def Let_def)
  have s1: "sp_world s1 = sp_world s" "sp_GOOS s1 = sp_GOOS s" using world_capture [of r s] c by simp_all
  let ?a = "runner_Apply L runner sysproxyGuardModeProxy opts s1"
  let ?b = "beginManagedProxy L J now runner sysproxyGuardModeProxy opts (snd ?a)"
  have a: "fst ?a = None" and b: "fst ?b = None"
    using assms c by (auto simp: proxy_handler_def Let_def case_prod_unfold opts_def split: option.splits)
  have h: "proxy_handler L J now r (Some req) s =
      (None, configureSysproxyGuardBestEffort L r (pr_Guard req) sysproxyGuardModeProxy opts (StopGuard (snd ?b)))"
    using c a b by (simp add: proxy_handler_def Let_def case_prod_unfold opts_def)
  have w: "sp_world (snd ?a) = lib_SetProxy L (sessionOptions (sp_GOOS s) runner opts) (sp_world s)"
    using a s1 by (auto simp: runner_Apply_def change_world_def sp_call_eq split: io.splits)
  have g: "sp_GOOS (snd ?a) = sp_GOOS s" using coreD(8) [OF core_apply] s1 by metis
  show ?thesis using begin_ok [OF b] w g opts by (auto simp: h lease_matches_def)
qed

section \<open>Properties\<close>



text \<open>
  A request that is answered with success has set the proxy, through the session of the user who
  asked, holds a lease whose snapshot matches the settings, whose timer is at the deadline, and whose
  record is on disk.
\<close>

theorem sysproxy_request_leased:
  assumes "fst (proxy_handler L J now r (Some req) s) = None"
  shows "\<exists>l rec. sp_lease (snd (proxy_handler L J now r (Some req) s)) = Some l \<and>
     lease_matches L (snd (proxy_handler L J now r (Some req) s)) l \<and>
     sp_world (snd (proxy_handler L J now r (Some req) s)) = lib_SetProxy L (sessionOptions (sp_GOOS s) (pl_runner l) (pl_opts l)) (sp_world s) \<and>
     po_Proxy (pl_opts l) = pr_Server req \<and> pl_deadline l = now + sysproxyLeaseDuration \<and> pl_timer l = Some (now + sysproxyLeaseDuration) \<and>
     sp_disk (snd (proxy_handler L J now r (Some req) s)) = Stored rec \<and> record_of (sp_GOOS s) l = Some rec"
  using proxy_success [OF assms] by blast

theorem sysproxy_request_leased_witness: "\<exists>l. sp_lease (snd toy_proxied) = Some l \<and> pl_deadline l = sysproxyLeaseDuration"
  using sysproxy_request_leased [OF toy_accepted] by auto

text \<open>
  C25. Settings that are not the service's are left alone: when the system shows something else than what
  the lease (or the record, after a restart) says, neither the expiry of the lease, nor the stop of the
  service, nor a restart, nor a retry of the recovery changes them.
\<close>

theorem sysproxy_foreign_kept:
  "((\<forall>l. sp_lease s = Some l \<longrightarrow> \<not> lease_matches L s l) \<longrightarrow>
      sp_world (expireSysproxyLease L now g s) = sp_world s \<and> sp_world (snd (StopManagedProxy L s)) = sp_world s) \<and>
   ((\<forall>r. sp_disk s = Stored r \<longrightarrow> \<not> record_matches L (sp_world s) r) \<longrightarrow>
      sp_world (sysproxy_start L J goos bound (sp_disk s) (sp_world s) ios) = sp_world s \<and> sp_world (recovery_retry L J g s) = sp_world s)"
proof (intro conjI impI)
  assume a: "\<forall>l. sp_lease s = Some l \<longrightarrow> \<not> lease_matches L s l"
  have r: "sp_world (snd (releaseSysproxyLease L t)) = sp_world s" if "sp_lease t = sp_lease s" "sp_world t = sp_world s" "sp_GOOS t = sp_GOOS s" for t
  proof (cases "sp_lease s")
    case (Some l)
    then have "\<not> lease_matches L t l" using a that by (simp add: lease_matches_def)
    then show ?thesis using release_foreign [of t l L] that Some by simp
  qed (simp add: releaseSysproxyLease_def that)
  show "sp_world (expireSysproxyLease L now g s) = sp_world s"
    by (auto simp: expireSysproxyLease_def case_prod_unfold r split: option.split)
  show "sp_world (snd (StopManagedProxy L s)) = sp_world s"
    by (auto simp: StopManagedProxy_def Let_def case_prod_unfold r split: option.split)
next
  assume a: "\<forall>r. sp_disk s = Stored r \<longrightarrow> \<not> record_matches L (sp_world s) r"
  then show "sp_world (sysproxy_start L J goos bound (sp_disk s) (sp_world s) ios) = sp_world s" by (intro start_foreign) simp
  show "sp_world (recovery_retry L J g s) = sp_world s" using a by (intro retry_foreign) simp
qed

theorem sysproxy_foreign_kept_witness:
  "sp_world (expireSysproxyLease toy_lib sysproxyLeaseDuration 1 ((snd toy_proxied)\<lparr>sp_world := toy_settings False\<rparr>)) = toy_settings False"
proof -
  obtain l where l: "sp_lease (snd toy_proxied) = Some l" "lease_matches toy_lib (snd toy_proxied) l" "pl_mode l = sysproxyGuardModeProxy"
    "sp_world (snd toy_proxied) = lib_SetProxy toy_lib (sessionOptions (sp_GOOS toy_start) (pl_runner l) (pl_opts l)) (sp_world toy_start)"
    using proxy_success [OF toy_accepted] by blast
  have "pl_expected l = newSysproxyGuardSnapshot sysproxyGuardModeProxy (Some (sp_world (snd toy_proxied)))"
    using l(2,3) by (simp add: lease_matches_def sysproxyGuardMatches_def toy_lib_def)
  then have "sn_ProxyEnable (pl_expected l)" using l(4) by (simp add: toy_lib_def newSysproxyGuardSnapshot_def Let_def)
  then have "\<not> lease_matches toy_lib ((snd toy_proxied)\<lparr>sp_world := toy_settings False\<rparr>) l"
    using l(3) by (auto simp: lease_matches_def sysproxyGuardMatches_def toy_lib_def newSysproxyGuardSnapshot_def toy_settings_def Let_def)
  then show ?thesis using sysproxy_foreign_kept [of "(snd toy_proxied)\<lparr>sp_world := toy_settings False\<rparr>" toy_lib sysproxyLeaseDuration 1] l(1) by simp
qed

text \<open>
  A crash is recovered from: when the service dies at any point of a run while it holds a lease, and
  is started again by a user whom the record names, with its calls succeeding, the stale setting is
  taken down if it is still there, other settings are left alone, and the record is gone.
\<close>

theorem sysproxy_crash_recovery:
  assumes "sp_reach U L J s" "sp_lease s = Some l" "record_of (sp_GOOS s) l = Some r"
    and "validateManagedProxyRecoveryOptions (sp_GOOS s) bound (mr_Options r) = None"
  shows "sp_disk (sysproxy_start L J (sp_GOOS s) bound (sp_disk s) w []) = Absent \<and>
    sp_world (sysproxy_start L J (sp_GOOS s) bound (sp_disk s) w []) =
      (if record_matches L w r then lib_Disable L (sysproxyOptions (mr_Options r)) w else w)"
proof -
  have "recorded J s" using reach_inv [OF assms(1)] by (simp add: sp_inv_def)
  then show ?thesis using assms(2-4) record_of_fields [OF assms(3)] by (intro start_good) (auto simp: recorded_def)
qed

theorem sysproxy_crash_recovery_witness: "sp_disk (sysproxy_start toy_lib (\<lambda>_. 0) (sp_GOOS (snd toy_proxied)) None (sp_disk (snd toy_proxied)) (toy_settings True) []) = Absent"
proof -
  obtain l r where l: "sp_lease (snd toy_proxied) = Some l" "record_of (sp_GOOS (snd toy_proxied)) l = Some r" "sp_GOOS (snd toy_proxied) = ''darwin''"
    using proxy_success [OF toy_accepted] toy_start_fields(2) by auto
  have "validateManagedProxyRecoveryOptions (sp_GOOS (snd toy_proxied)) None (mr_Options r) = None"
    using l(3) by (simp add: validateManagedProxyRecoveryOptions_def)
  from sysproxy_crash_recovery [OF toy_proxy_reach l(1,2) this] show ?thesis by blast
qed

text \<open>
  The life of the lease: a client that renews before each deadline keeps it, whatever timers fire in
  between; once the deadline has passed and the calls succeed, the timer ends it, and no later renewal
  brings it back.
\<close>

theorem sysproxy_lease_life:
  assumes "sp_lease s = Some l"
  shows "(prompt sysproxyLeaseDuration (pl_deadline l) evs \<longrightarrow>
       sp_lease (run_lease (\<lambda>now s. snd (renew_handler now s)) (sp_timer_fires L) evs s) \<noteq> None) \<and>
     (sp_io s = [] \<and> pl_deadline l \<le> now \<longrightarrow>
       sp_lease (run_lease (\<lambda>now s. snd (renew_handler now s)) (sp_timer_fires L) (Timer now # evs) s) = None)"
  using assms spx.prompt_keeps [of s evs L] spx.abandoned_released [of s now L evs]
  by (simp add: sp_held_def sp_deadline_def)

theorem sysproxy_lease_life_witness:
  "sp_lease (run_lease (\<lambda>now s. snd (renew_handler now s)) (sp_timer_fires toy_lib) [Renewal (30 * second), Timer (60 * second)] (snd toy_proxied)) \<noteq> None"
proof -
  obtain l where l: "sp_lease (snd toy_proxied) = Some l" "pl_deadline l = 60 * second"
    using proxy_success [OF toy_accepted] by (auto simp: sysproxyLeaseDuration_def)
  then show ?thesis
    using sysproxy_lease_life [OF l(1), of "[Renewal (30 * second), Timer (60 * second)]" toy_lib 0] by (simp add: sysproxyLeaseDuration_def second_def)
qed

text \<open>
  The guard: a loop that was stopped or replaced neither changes the settings nor reports anything in
  its later rounds, and a restoration that is reported has been verified against the settings that the
  client asked for.
\<close>

theorem sysproxy_guard_sound:
  "sp_world (guard_round L (sp_guardGeneration s) watch (StopGuard s)) = sp_world s \<and>
   sp_hub (guard_round L (sp_guardGeneration s) watch (StopGuard s)) = sp_hub (StopGuard s) \<and>
   sp_world (guard_round L (sp_guardGeneration s) watch (guard_start c s)) = sp_world s \<and>
   (fst (guard_restore L g c s) = (e, True) \<longrightarrow>
      sysproxyGuardMatches (gc_mode c) (gc_expected c)
        (Some (lib_Query L (sessionOptions (sp_GOOS s) (gc_runner c) (gc_opts c)) (sp_world (snd (guard_restore L g c s))))))"
proof -
  have "sp_guardGeneration (guard_start c s) = sp_guardGeneration s + 1"
    by (simp add: guard_start_def Let_def publishSysproxyGuardEvent_def)
  then show ?thesis
    using stale_round [of "sp_guardGeneration s" "StopGuard s" L watch] stale_round [of "sp_guardGeneration s" "guard_start c s" L watch]
      restore_verified [of L g c s e] by (simp add: StopGuard_generation)
qed

definition toy_guard :: guard_config where
  "toy_guard = (let w = lib_SetPac toy_lib (no_options\<lparr>po_PACURL := ''http://p''\<rparr>) (toy_settings False) in
     \<lparr>gc_mode = sysproxyGuardModePAC, gc_opts = no_options\<lparr>po_PACURL := ''http://p''\<rparr>, gc_watchOpts = no_options,
      gc_expected = newSysproxyGuardSnapshot sysproxyGuardModePAC (Some w), gc_runner = \<lparr>ru_id = 0, ru_env = [], ru_uid = 0, ru_gid = 0\<rparr>\<rparr>)"

definition toy_changed :: "proxy_config sysproxy" where
  "toy_changed = fresh_sysproxy ''darwin'' None Absent (toy_settings False) []"

theorem sysproxy_guard_sound_witness: "pg_PACURL (sp_world (snd (guard_restore toy_lib 0 toy_guard toy_changed))) = ''http://p''"
proof -
  have "fst (guard_restore toy_lib 0 toy_guard toy_changed) = (None, True)"
    by (simp add: guard_restore_def toy_changed_def fresh_sysproxy_def toy_guard_def Let_def publishSysproxyGuardEvent_def runner_Apply_def change_world_def
        sp_call_eq runner_Query_def sysproxyGuardModePAC_def sysproxyGuardModeProxy_def sessionOptions_def sysproxyGuardMatches_def toy_lib_def)
  then have "sysproxyGuardMatches (gc_mode toy_guard) (gc_expected toy_guard)
      (Some (lib_Query toy_lib (sessionOptions (sp_GOOS toy_changed) (gc_runner toy_guard) (gc_opts toy_guard)) (sp_world (snd (guard_restore toy_lib 0 toy_guard toy_changed)))))"
    using sysproxy_guard_sound [of toy_lib toy_changed None toy_guard 0 None] by blast
  then show ?thesis by (auto simp: toy_guard_def toy_lib_def Let_def snapshot_pac_mode)
qed

end
