(* ===== verification/Core_Desired.thy ===== *)
theory Core_Desired
  imports Core_Manager
begin

text \<open>
  The requests of the core's API and the state the client wants the core to be in
  (\<open>route/coreapi/core.go\<close>, \<open>desired.go\<close>, \<open>core_launch_options_linux.go\<close>), on top of the core manager. A request that works in two locked
  parts is two steps here, so that other requests and the watcher can come between them.
\<close>

section \<open>Definitions\<close>

subsection \<open>State\<close>

record desired_state =
  ds_Version :: int
  ds_Running :: bool
  ds_LogGroup :: "32 word option"

text \<open>What is left of a request that has set the desired state.\<close>

datatype pending =
    StartLeft "launch_profile option" "32 word option"
  | StopLeft
  | RestartLeft "launch_profile option" "32 word option"

text \<open>
  \<open>ap_stop\<close> is the open channel of the watcher, \<open>ap_watchers\<close> are the goroutines that tick, each with its channel, \<open>ap_boot\<close>
  counts the reconciliations that \<open>ConfigureDesiredCore\<close> has started and that have not run.
\<close>

record core_api =
  ap_core :: core_manager
  ap_path :: string
  ap_running :: bool
  ap_logGroup :: "32 word option"
  ap_managed :: bool
  ap_stop :: "nat option"
  ap_watchers :: "nat list"
  ap_boot :: nat
  ap_next :: nat
  ap_left :: "pending list"
  ap_disk :: "desired_state store"
  ap_io :: "io list"

definition api_call :: "core_api \<Rightarrow> io \<times> core_api" where
  "api_call a = (case next_io (ap_io a) of (out, ios) \<Rightarrow> (out, a\<lparr>ap_io := ios\<rparr>))"

text \<open>A service that starts: nothing but the file is left of the run before.\<close>

definition new_api :: "core_manager \<Rightarrow> desired_state store \<Rightarrow> io list \<Rightarrow> core_api" where
  "new_api core disk ios =
     \<lparr>ap_core = core, ap_path = [], ap_running = False, ap_logGroup = None, ap_managed = False, ap_stop = None, ap_watchers = [], ap_boot = 0, ap_next = 0,
      ap_left = [], ap_disk = disk, ap_io = ios\<rparr>"

subsection \<open>The desired state\<close>

definition desired_load :: "core_api \<Rightarrow> err option \<times> core_api" where
  "desired_load a =
     (let a0 = a\<lparr>ap_running := False, ap_logGroup := None\<rparr> in
      if ap_disk a = Absent then (None, a0)
      else (case api_call a0 of (out, a1) \<Rightarrow>
          if out \<noteq> Done then (Some (Wrapped ''read desired core state'' SysErr), a1)
          else (case ap_disk a of
              Stored st \<Rightarrow> if ds_Version st = 1 then (None, a1\<lparr>ap_running := ds_Running st, ap_logGroup := ds_LogGroup st\<rparr>)
                            else (Some (Plain ''invalid desired core state''), a1)
            | _ \<Rightarrow> (Some (Plain ''invalid desired core state''), a1))))"

text \<open>
  Six calls make the temporary file (directory, file, permissions, contents, sync, close), then it takes the place of the record; the
  directory is opened and synced after that.
\<close>

definition desired_set :: "bool \<Rightarrow> 32 word option \<Rightarrow> core_api \<Rightarrow> err option \<times> core_api" where
  "desired_set running logGroup a =
     (if ap_path a = [] then (Some (Plain ''desired core state is not configured''), a)
      else
        let grp = (if running \<and> logGroup = None then ap_logGroup a else logGroup) in
        (case run_ios 6 (ap_io a) of
           (False, ios) \<Rightarrow> (Some SysErr, a\<lparr>ap_io := ios\<rparr>)
         | (True, ios) \<Rightarrow>
             (case next_io ios of (out, ios1) \<Rightarrow>
                let disk = (if out = Fails then ap_disk a else Stored \<lparr>ds_Version = 1, ds_Running = running, ds_LogGroup = grp\<rparr>) in
                if out \<noteq> Done then (Some SysErr, a\<lparr>ap_io := ios1, ap_disk := disk\<rparr>)
                else (case run_ios 2 ios1 of
                    (False, ios2) \<Rightarrow> (Some SysErr, a\<lparr>ap_io := ios2, ap_disk := disk\<rparr>)
                  | (True, ios2) \<Rightarrow> (None, a\<lparr>ap_io := ios2, ap_disk := disk, ap_running := running, ap_logGroup := grp\<rparr>)))))"

definition launch_access :: "32 word option \<Rightarrow> file_access" where
  "launch_access grp = (case grp of None \<Rightarrow> \<lparr>fa_groupID = 0, fa_ok = False\<rparr> | Some g \<Rightarrow> \<lparr>fa_groupID = g, fa_ok = True\<rparr>)"

definition StartCoreWithProfile :: "unicode \<Rightarrow> launch_profile option \<Rightarrow> 32 word option \<Rightarrow> start_input \<Rightarrow> core_api \<Rightarrow> err option \<times> core_api" where
  "StartCoreWithProfile U profile grp inp a =
     (case startCoreLocked U profile (inp\<lparr>si_access := launch_access grp\<rparr>) (ap_core a) of (r, s) \<Rightarrow> (r, a\<lparr>ap_core := s\<rparr>))"

text \<open>\<open>proc\<close> is whether the process of the core can be looked at.\<close>

definition desired_reconcile :: "unicode \<Rightarrow> bool \<Rightarrow> start_input \<Rightarrow> core_api \<Rightarrow> core_api" where
  "desired_reconcile U proc inp a =
     (if \<not> ap_running a \<or> \<not> ap_managed a then a
      else (case GetProcessInfo proc (ap_core a) of
          Inr _ \<Rightarrow> a
        | Inl _ \<Rightarrow> snd (StartCoreWithProfile U None (ap_logGroup a) inp a)))"

definition stopWatching :: "core_api \<Rightarrow> core_api" where
  "stopWatching a = a\<lparr>ap_stop := None\<rparr>"

definition ConfigureDesiredCore :: "string \<Rightarrow> core_api \<Rightarrow> err option \<times> core_api" where
  "ConfigureDesiredCore dataDir a =
     (case desired_load ((stopWatching a)\<lparr>ap_path := dataDir @ ''/core/desired_state.json'', ap_managed := True\<rparr>) of
        (Some e, a1) \<Rightarrow> (Some e, a1)
      | (None, a1) \<Rightarrow>
          (None, a1\<lparr>ap_stop := Some (ap_next a1), ap_watchers := ap_watchers a1 @ [ap_next a1], ap_next := ap_next a1 + 1,
                     ap_boot := ap_boot a1 + (if ap_running a1 then 1 else 0)\<rparr>))"

text \<open>
  A step of the watcher in place \<open>i\<close>: a tick, or the end once its channel is closed; when both are there either may be
  chosen.
\<close>

definition watch_step :: "unicode \<Rightarrow> bool \<Rightarrow> bool \<Rightarrow> start_input \<Rightarrow> nat \<Rightarrow> core_api \<Rightarrow> core_api" where
  "watch_step U sees_stop proc inp i a =
     (if length (ap_watchers a) \<le> i then a
      else if sees_stop \<and> ap_stop a \<noteq> Some (ap_watchers a ! i) then a\<lparr>ap_watchers := take i (ap_watchers a) @ drop (Suc i) (ap_watchers a)\<rparr>
      else desired_reconcile U proc inp a)"

definition boot_step :: "unicode \<Rightarrow> bool \<Rightarrow> start_input \<Rightarrow> core_api \<Rightarrow> core_api" where
  "boot_step U proc inp a = (if ap_boot a = 0 then a else desired_reconcile U proc inp (a\<lparr>ap_boot := ap_boot a - 1\<rparr>))"

subsection \<open>Requests\<close>

text \<open>The body of a request: absent, not parsable, or decoded. A response is its code, its message, and the
  process of the core where the status is part of it.\<close>

datatype 'a body = NoBody | BadBody string | Body 'a

type_synonym response = "nat \<times> string \<times> int option"

definition SendError :: "err \<Rightarrow> response" where
  "SendError e = (case e of HTTPError code m \<Rightarrow> (code, m, None) | HTTPErrorOf code e' \<Rightarrow> (code, err_text e', None) | _ \<Rightarrow> (500, err_text e, None))"

definition coreDesiredStatus :: "core_api \<Rightarrow> response" where
  "coreDesiredStatus a = (200, if ap_running a then ''running'' else ''stopped'', None)"

definition coreStatus :: "bool \<Rightarrow> core_api \<Rightarrow> response" where
  "coreStatus proc a = (case GetProcessInfo proc (ap_core a) of Inl e \<Rightarrow> SendError e | Inr pid \<Rightarrow> (200, [], Some pid))"

definition on_world :: "(launch_world \<Rightarrow> 'a \<times> launch_world) \<Rightarrow> core_api \<Rightarrow> 'a \<times> core_api" where
  "on_world f a = (case f (cm_world (ap_core a)) of (r, w) \<Rightarrow> (r, a\<lparr>ap_core := (ap_core a)\<lparr>cm_world := w\<rparr>\<rparr>))"

definition coreProfile :: "unicode \<Rightarrow> core_api \<Rightarrow> (response + launch_profile) \<times> core_api" where
  "coreProfile U a =
     (case on_world (LoadLaunchProfile U) a of
        (Inl e, a1) \<Rightarrow> (Inl (SendError e), a1)
      | (Inr p, a1) \<Rightarrow> (Inr p, a1))"

definition bad_request :: "err \<Rightarrow> response" where
  "bad_request e = SendError (HTTPErrorOf 400 e)"

definition coreSaveProfile :: "unicode \<Rightarrow> launch_profile body \<Rightarrow> 32 word option \<Rightarrow> core_api \<Rightarrow> response \<times> core_api" where
  "coreSaveProfile U b grp a =
     (case b of
        BadBody m \<Rightarrow> (SendError (HTTPError 400 m), a)
      | _ \<Rightarrow>
          (case on_world (SaveLaunchProfile U (case b of Body p \<Rightarrow> p | _ \<Rightarrow> zero_profile)) a of
             (Some e, a1) \<Rightarrow> (bad_request e, a1)
           | (None, a1) \<Rightarrow>
               (case on_world (LoadLaunchProfile U) a1 of
                  (Inl e, a2) \<Rightarrow> (bad_request e, a2)
                | (Inr p, a2) \<Rightarrow> ((200, ''Core launch configuration updated'', None), a2\<lparr>ap_core := ApplyLaunchProfile p (launch_access grp) (ap_core a2)\<rparr>))))"

definition corePatchProfile :: "unicode \<Rightarrow> launch_patch body \<Rightarrow> 32 word option \<Rightarrow> core_api \<Rightarrow> response \<times> core_api" where
  "corePatchProfile U b grp a =
     (case b of
        BadBody m \<Rightarrow> (SendError (HTTPError 400 m), a)
      | _ \<Rightarrow>
          (case on_world (PatchLaunchProfile U (case b of Body p \<Rightarrow> p | _ \<Rightarrow> \<lparr>pa_Mode = None, pa_LogPath = None, pa_SaveLogs = None, pa_MaxLogFileSizeMB = None\<rparr>)) a of
             (Inl e, a1) \<Rightarrow> (bad_request e, a1)
           | (Inr p, a1) \<Rightarrow> ((200, ''Core launch configuration updated'', None), a1\<lparr>ap_core := ApplyLaunchProfile p (launch_access grp) (ap_core a1)\<rparr>)))"

text \<open>
  The first part of \<open>coreStart\<close> and of \<open>coreRestart\<close>: the profile is saved and the desired state is set; what is left goes to
  \<open>ap_left\<close>.
\<close>

definition begin_run :: "unicode \<Rightarrow> bool \<Rightarrow> launch_profile body \<Rightarrow> 32 word option \<Rightarrow> core_api \<Rightarrow> response option \<times> core_api" where
  "begin_run U restart b grp a =
     (case b of
        BadBody m \<Rightarrow> (Some (SendError (HTTPError 400 m)), a)
      | _ \<Rightarrow>
          (case (case b of Body p \<Rightarrow> on_world (SaveLaunchProfile U p) a | _ \<Rightarrow> (None, a)) of
             (Some e, a1) \<Rightarrow> (Some (bad_request e), a1)
           | (None, a1) \<Rightarrow>
               (case desired_set True grp a1 of
                  (Some e, a2) \<Rightarrow> (Some (SendError e), a2)
                | (None, a2) \<Rightarrow>
                    let p = (case b of Body p \<Rightarrow> Some p | _ \<Rightarrow> None)
                    in (None, a2\<lparr>ap_left := ap_left a2 @ [if restart then RestartLeft p grp else StartLeft p grp]\<rparr>))))"

definition coreStop :: "core_api \<Rightarrow> response option \<times> core_api" where
  "coreStop a =
     (case desired_set False None a of
        (Some e, a1) \<Rightarrow> (Some (SendError e), a1)
      | (None, a1) \<Rightarrow> (None, a1\<lparr>ap_left := ap_left a1 @ [StopLeft]\<rparr>))"

definition sendCoreReady :: "bool \<Rightarrow> string \<Rightarrow> core_api \<Rightarrow> response" where
  "sendCoreReady proc message a = (200, message, (case GetProcessInfo proc (ap_core a) of Inl _ \<Rightarrow> None | Inr pid \<Rightarrow> Some pid))"

text \<open>The second part, for the request in place \<open>i\<close>.\<close>

definition finish_request :: "unicode \<Rightarrow> bool \<Rightarrow> start_input \<Rightarrow> pending \<Rightarrow> core_api \<Rightarrow> response \<times> core_api" where
  "finish_request U proc inp p a =
     (case p of
        StartLeft profile grp \<Rightarrow>
          (case GetProcessInfo proc (ap_core a) of
             Inr _ \<Rightarrow> (sendCoreReady proc ''Core started successfully'' a, a)
           | Inl _ \<Rightarrow>
               (case StartCoreWithProfile U profile grp inp a of
                  (Some e, a1) \<Rightarrow> (SendError e, a1)
                | (None, a1) \<Rightarrow> (sendCoreReady proc ''Core started successfully'' a1, a1)))
      | StopLeft \<Rightarrow>
          (case stopCoreLocked (ap_core a) of
             (Some e, s) \<Rightarrow> (SendError e, a\<lparr>ap_core := s\<rparr>)
           | (None, s) \<Rightarrow> ((200, ''Core stopped successfully'', None), a\<lparr>ap_core := s\<rparr>))
      | RestartLeft profile grp \<Rightarrow>
          (case RestartCoreWithProfile U profile (inp\<lparr>si_access := launch_access grp\<rparr>) (ap_core a) of
             (Some e, s) \<Rightarrow> (SendError e, a\<lparr>ap_core := s\<rparr>)
           | (None, s) \<Rightarrow> (sendCoreReady proc ''Core restarted successfully'' (a\<lparr>ap_core := s\<rparr>), a\<lparr>ap_core := s\<rparr>)))"

definition finish :: "unicode \<Rightarrow> bool \<Rightarrow> start_input \<Rightarrow> nat \<Rightarrow> core_api \<Rightarrow> core_api" where
  "finish U proc inp i a =
     (if length (ap_left a) \<le> i then a
      else snd (finish_request U proc inp (ap_left a ! i) (a\<lparr>ap_left := take i (ap_left a) @ drop (Suc i) (ap_left a)\<rparr>)))"

text \<open>The end of the service.\<close>

definition api_Stop :: "core_api \<Rightarrow> err option \<times> core_api" where
  "api_Stop a = (case stopCoreLocked (ap_core a) of (r, s) \<Rightarrow> (r, (stopWatching a)\<lparr>ap_core := s\<rparr>))"

subsection \<open>Runs\<close>

text \<open>Steps that no request asks for: the watcher, the start at boot, the goroutines of the core manager, and the outside.\<close>

inductive background :: "unicode \<Rightarrow> core_api \<Rightarrow> core_api \<Rightarrow> bool" for U :: unicode where
  Watch: "0 < si_pid inp \<Longrightarrow> background U a (watch_step U sees proc inp i a)"
| Boot: "0 < si_pid inp \<Longrightarrow> background U a (boot_step U proc inp a)"
| Thread: "background U a (a\<lparr>ap_core := run_thread U inp' se i (ap_core a)\<rparr>)"
| Prints: "background U a (a\<lparr>ap_core := core_prints p (ap_core a)\<rparr>)"
| Dies: "background U a (a\<lparr>ap_core := process_dies pid (ap_core a)\<rparr>)"
| Appears: "background U a (a\<lparr>ap_core := process_appears pid (ap_core a)\<rparr>)"

inductive api_reach :: "unicode \<Rightarrow> core_api \<Rightarrow> bool" for U :: unicode where
  New: "core_reach U core \<Longrightarrow> api_reach U (new_api core disk ios)"
| Configure: "api_reach U a \<Longrightarrow> api_reach U (snd (ConfigureDesiredCore dataDir a))"
| Background: "api_reach U a \<Longrightarrow> background U a b \<Longrightarrow> api_reach U b"
| Begin: "api_reach U a \<Longrightarrow> api_reach U (snd (begin_run U restart b grp a))"
| Stop: "api_reach U a \<Longrightarrow> api_reach U (snd (coreStop a))"
| Finish: "api_reach U a \<Longrightarrow> 0 < si_pid inp \<Longrightarrow> api_reach U (finish U proc inp i a)"
| Save: "api_reach U a \<Longrightarrow> api_reach U (snd (coreSaveProfile U b grp a))"
| Patch: "api_reach U a \<Longrightarrow> api_reach U (snd (corePatchProfile U b' grp a))"
| Profile: "api_reach U a \<Longrightarrow> api_reach U (snd (coreProfile U a))"
| End: "api_reach U a \<Longrightarrow> api_reach U (snd (api_Stop a))"

section \<open>Interface\<close>

text \<open>
  What the watcher relies on of the core (\<open>coreLifecycle\<close>): starting keeps the core whole, a core that was started is up, a start of a
  core that is up changes nothing, and a start that fails leaves it down.
\<close>

locale core_lifecycle =
  fixes whole :: "'s \<Rightarrow> bool" and up :: "'s \<Rightarrow> bool" and good :: "'i \<Rightarrow> bool" and start :: "'i \<Rightarrow> 's \<Rightarrow> err option \<times> 's"
  assumes start_whole: "whole s \<Longrightarrow> good i \<Longrightarrow> whole (snd (start i s))"
    and start_up: "whole s \<Longrightarrow> good i \<Longrightarrow> \<not> up s \<Longrightarrow> up (snd (start i s)) = (fst (start i s) = None)"
    and start_busy: "up s \<Longrightarrow> start i s = (Some (Plain ''Core process is already running''), s)"
begin

lemma ticks_whole: "whole s \<Longrightarrow> \<forall>i \<in> set is. good i \<Longrightarrow> whole (fold (\<lambda>i s. snd (start i s)) is s)"
  by (induction "is" arbitrary: s) (simp_all add: start_whole)

lemma ticks_up: "up s \<Longrightarrow> fold (\<lambda>i s. snd (start i s)) is s = s"
  by (induction "is") (simp_all add: start_busy)

text \<open>After any number of ticks the core is up exactly if it was up before or one of the starts succeeded.\<close>

lemma ticks_up_iff:
  assumes "whole s" "\<forall>i \<in> set is. good i"
  shows "up (fold (\<lambda>i s. snd (start i s)) is s) = (up s \<or> (\<exists>k < length is. fst (start (is ! k) (fold (\<lambda>i s. snd (start i s)) (take k is) s)) = None))"
  using assms
proof (induction "is" arbitrary: s)
  case (Cons j js)
  let ?s = "snd (start j s)"
  have "whole ?s" using start_whole Cons.prems by simp
  with Cons.IH Cons.prems have ih: "up (fold (\<lambda>i s. snd (start i s)) js ?s) = (up ?s \<or> (\<exists>k < length js. fst (start (js ! k) (fold (\<lambda>i s. snd (start i s)) (take k js) ?s)) = None))" by simp
  have s: "up ?s = (up s \<or> fst (start j s) = None)" using Cons.prems start_up [of s j] start_busy [of s j] by (cases "up s") auto
  have "(\<exists>k < Suc (length js). P k) = (P 0 \<or> (\<exists>k < length js. P (Suc k)))" for P by (auto simp: less_Suc_eq_0_disj)
  then show ?case using ih s by simp
qed simp

end

interpretation core_life: core_lifecycle core_inv cm_isRunning "\<lambda>inp. 0 < si_pid inp" "startCoreLocked U profile" for U profile
proof unfold_locales
  show "core_inv s \<Longrightarrow> 0 < si_pid i \<Longrightarrow> core_inv (snd (startCoreLocked U profile i s))" for s i by (rule core_start_inv)
  show "cm_isRunning s \<Longrightarrow> startCoreLocked U profile i s = (Some (Plain ''Core process is already running''), s)" for s i by (simp add: startCoreLocked_def)
  fix s and i :: start_input assume "core_inv s" "0 < si_pid i" "\<not> cm_isRunning s"
  from start_ends_core [OF this(1,3,2), of U profile] show "cm_isRunning (snd (startCoreLocked U profile i s)) = (fst (startCoreLocked U profile i s) = None)"
    by (auto simp: start_ends_def core_on_def core_off_def core_held_def split: prod.splits option.splits)
qed

section \<open>Lemmas\<close>

subsection \<open>The core under the API\<close>

lemma start_core: "ap_core (snd (StartCoreWithProfile U profile grp inp a)) = snd (startCoreLocked U profile (inp\<lparr>si_access := launch_access grp\<rparr>) (ap_core a))"
  "fst (StartCoreWithProfile U profile grp inp a) = fst (startCoreLocked U profile (inp\<lparr>si_access := launch_access grp\<rparr>) (ap_core a))"
  by (simp_all add: StartCoreWithProfile_def case_prod_unfold)

lemma start_api: "snd (StartCoreWithProfile U profile grp inp a) = a\<lparr>ap_core := snd (startCoreLocked U profile (inp\<lparr>si_access := launch_access grp\<rparr>) (ap_core a))\<rparr>"
  by (simp add: StartCoreWithProfile_def case_prod_unfold)

lemma info_off: "\<not> cm_isRunning s \<Longrightarrow> GetProcessInfo proc s = Inl (Plain ''Process is not running'')"
  by (simp add: GetProcessInfo_def)

text \<open>A reconciliation leaves everything but the core alone, and starts the core exactly when it is down and should be up.\<close>

lemma reconcile_core:
  "desired_reconcile U proc inp a = a\<lparr>ap_core := (if ap_running a \<and> ap_managed a \<and> \<not> cm_isRunning (ap_core a)
      then snd (startCoreLocked U None (inp\<lparr>si_access := launch_access (ap_logGroup a)\<rparr>) (ap_core a)) else ap_core a)\<rparr>"
proof (cases "cm_isRunning (ap_core a)")
  case True
  then show ?thesis using core_life.start_busy by (simp add: desired_reconcile_def start_api split: sum.split)
qed (simp add: desired_reconcile_def start_api info_off)

lemma set_core [simp]: "ap_core (snd (desired_set r g a)) = ap_core a" "ap_watchers (snd (desired_set r g a)) = ap_watchers a" "ap_stop (snd (desired_set r g a)) = ap_stop a"
  "ap_next (snd (desired_set r g a)) = ap_next a" "ap_left (snd (desired_set r g a)) = ap_left a" "ap_managed (snd (desired_set r g a)) = ap_managed a"
  by (simp_all add: desired_set_def Let_def split: prod.split bool.split)

lemma load_core [simp]: "ap_core (snd (desired_load a)) = ap_core a" "ap_watchers (snd (desired_load a)) = ap_watchers a" "ap_stop (snd (desired_load a)) = ap_stop a"
  "ap_next (snd (desired_load a)) = ap_next a" "ap_left (snd (desired_load a)) = ap_left a" "ap_managed (snd (desired_load a)) = ap_managed a"
  by (simp_all add: desired_load_def api_call_def Let_def case_prod_unfold split: store.split)

lemma world_rest [simp]: "ap_watchers (snd (on_world f a)) = ap_watchers a" "ap_stop (snd (on_world f a)) = ap_stop a" "ap_next (snd (on_world f a)) = ap_next a"
  "ap_left (snd (on_world f a)) = ap_left a"
  by (simp_all add: on_world_def case_prod_unfold)

definition keeps_dirs :: "(launch_world \<Rightarrow> 'a \<times> launch_world) \<Rightarrow> bool" where
  "keeps_dirs f = (\<forall>w. lw_dirs (snd (f w)) = lw_dirs w \<and> lw_nextDir (snd (f w)) = lw_nextDir w)"

lemma world_reach: "keeps_dirs f \<Longrightarrow> core_reach U (ap_core a) \<Longrightarrow> core_reach U (ap_core (snd (on_world f a)))"
  by (simp add: on_world_def case_prod_unfold keeps_dirs_def core_reach.World)

lemma save_dirs: "keeps_dirs (SaveLaunchProfile U p)"
  by (simp add: keeps_dirs_def SaveLaunchProfile_def case_prod_unfold split: sum.split bool.split)

lemma load_dirs: "keeps_dirs (LoadLaunchProfile U)"
  by (simp add: keeps_dirs_def)

lemma patch_dirs: "keeps_dirs (PatchLaunchProfile U patch)"
  using save_dirs [of U] by (simp add: keeps_dirs_def PatchLaunchProfile_def case_prod_unfold split: sum.split option.split)

lemma core_stop_reach: "core_reach U (ap_core a) \<Longrightarrow> core_reach U (snd (stopCoreLocked (ap_core a)))"
  by (rule core_reach.Stop)

lemma reconcile_reach: "core_reach U (ap_core a) \<Longrightarrow> 0 < si_pid inp \<Longrightarrow> core_reach U (ap_core (desired_reconcile U proc inp a))"
  by (simp add: reconcile_core core_reach.Start)

lemma finish_reach:
  assumes "core_reach U (ap_core a)" "0 < si_pid inp"
  shows "core_reach U (ap_core (snd (finish_request U proc inp p a)))"
proof (cases p)
  case (StartLeft profile grp)
  then show ?thesis using assms by (simp add: finish_request_def StartCoreWithProfile_def case_prod_unfold core_reach.Start split: sum.split option.split)
next
  case StopLeft
  then show ?thesis using assms by (simp add: finish_request_def case_prod_unfold core_reach.Stop split: option.split)
next
  case (RestartLeft profile grp)
  then show ?thesis using assms by (simp add: finish_request_def case_prod_unfold core_reach.Restart split: option.split)
qed

lemma save_reach: "core_reach U (ap_core a) \<Longrightarrow> core_reach U (ap_core (snd (coreSaveProfile U b grp a)))"
  using world_reach [OF save_dirs] world_reach [OF load_dirs]
  by (auto simp: coreSaveProfile_def case_prod_unfold intro: core_reach.Apply split: body.split option.split sum.split)

lemma patch_reach: "core_reach U (ap_core a) \<Longrightarrow> core_reach U (ap_core (snd (corePatchProfile U b grp a)))"
  using world_reach [OF patch_dirs]
  by (auto simp: corePatchProfile_def case_prod_unfold intro: core_reach.Apply split: body.split option.split sum.split)

lemma begin_reach: "core_reach U (ap_core a) \<Longrightarrow> core_reach U (ap_core (snd (begin_run U restart b grp a)))"
  using world_reach [OF save_dirs] by (auto simp: begin_run_def case_prod_unfold Let_def split: body.split option.split)

lemma background_reach: "background U a b \<Longrightarrow> core_reach U (ap_core a) \<Longrightarrow> core_reach U (ap_core b)"
  by (induction rule: background.induct)
    (auto simp: watch_step_def boot_step_def intro: reconcile_reach core_reach.Thread core_reach.Prints core_reach.Dies core_reach.Appears)

lemma api_core_reach: "api_reach U a \<Longrightarrow> core_reach U (ap_core a)"
proof (induction rule: api_reach.induct)
  case (Configure a dataDir)
  then show ?case by (simp add: ConfigureDesiredCore_def stopWatching_def case_prod_unfold split: option.split)
next
  case (Finish a inp proc i)
  then show ?case by (simp add: finish_def finish_reach)
next
  case (Stop a)
  then show ?case by (simp add: coreStop_def case_prod_unfold split: option.split)
next
  case (Profile a)
  then show ?case using world_reach [OF load_dirs] by (simp add: coreProfile_def case_prod_unfold split: sum.split)
next
  case (End a)
  then show ?case by (simp add: api_Stop_def case_prod_unfold core_reach.Stop)
qed (simp_all add: new_api_def background_reach begin_reach save_reach patch_reach)

text \<open>Without a request, a core that is down stays down while nobody wants it up.\<close>

lemma thread_off:
  assumes "core_off s"
  shows "core_off (snd (thread_step U inp se t s))"
proof (cases t)
  case (NotifyFound oldPID ctl lid c)
  let ?s1 = "s\<lparr>cm_world := snd (SecureBinary (se_executablePath se) (cm_world s))\<rparr>"
  have "same_core s ?s1" by (simp add: same_core_def)
  then have "same_core s (snd (hardenLaunchControllerEndpoint ?s1))" using same_core_trans harden_same by blast
  then have "core_off (snd (hardenLaunchControllerEndpoint ?s1))" "\<not> cm_monitoring (snd (hardenLaunchControllerEndpoint ?s1))"
    using assms same_coreD by (auto simp: same_core_def core_off_def)
  then show ?thesis using NotifyFound by (simp add: thread_step_def notify_found_def Let_def)
next
  case (Found oldPID c lid deadline after)
  obtain r s1 where s1: "secure_session se s = (r, s1)" by fastforce
  have "same_core s s1" using secure_same [of s se] s1 by simp
  then have "core_off s1" "\<not> cm_monitoring s1" using assms same_coreD by (auto simp: same_core_def core_off_def)
  then show ?thesis using assms Found s1 same_coreD(1) [OF stop_same] by (simp add: thread_step_def found_def split: option.split)
qed (use assms wait_exit_same in \<open>auto simp: thread_step_def poll_step_def notify_step_def exiting_def exit_cleanup_def core_idle_def core_off_def same_core_def split: option.split\<close>)

lemma run_thread_off: "core_off s \<Longrightarrow> core_off (run_thread U inp se i s)"
  using thread_off [of s U inp se "cm_threads s ! i"] by (auto simp: run_thread_def core_off_def split: prod.split option.split)

lemma outside_off: "core_off s \<Longrightarrow> core_off (core_prints p s)" "core_off (process_dies pid s) = core_off s" "core_off (process_appears pid s) = core_off s"
  by (simp_all add: core_prints_def process_dies_def process_appears_def core_off_def)

lemma background_off:
  assumes "background U a b" "\<not> ap_running a" "core_off (ap_core a)"
  shows "\<not> ap_running b \<and> core_off (ap_core b)"
  using assms
  by (induction rule: background.induct)
    (auto simp: watch_step_def boot_step_def reconcile_core run_thread_off outside_off)

text \<open>The watchers: one goroutine listens to the open channel, every other one to a channel that is closed.\<close>

definition watch_ok :: "core_api \<Rightarrow> bool" where
  "watch_ok a = (distinct (ap_watchers a) \<and> (\<forall>c \<in> set (ap_watchers a). c < ap_next a) \<and> (\<forall>c. ap_stop a = Some c \<longrightarrow> c \<in> set (ap_watchers a)))"

definition watch_part :: "core_api \<Rightarrow> nat list \<times> nat \<times> nat option" where
  "watch_part a = (ap_watchers a, ap_next a, ap_stop a)"

lemma watch_same: "watch_part b = watch_part a \<Longrightarrow> watch_ok b = watch_ok a"
  by (simp add: watch_part_def watch_ok_def)

lemma watch_parts [simp]: "watch_part (snd (desired_set r g a)) = watch_part a" "watch_part (snd (on_world f a)) = watch_part a" "watch_part (desired_reconcile U proc inp a) = watch_part a"
  "watch_part (a\<lparr>ap_core := c\<rparr>) = watch_part a" "watch_part (a\<lparr>ap_left := l\<rparr>) = watch_part a" "watch_part (a\<lparr>ap_boot := n\<rparr>) = watch_part a"
  by (simp_all add: watch_part_def reconcile_core)

lemma watch_requests [simp]: "watch_part (snd (begin_run U restart b grp a)) = watch_part a" "watch_part (snd (coreStop a)) = watch_part a"
  "watch_part (snd (coreSaveProfile U b grp a)) = watch_part a" "watch_part (snd (corePatchProfile U b' grp a)) = watch_part a" "watch_part (snd (coreProfile U a)) = watch_part a"
  by (simp_all add: begin_run_def coreStop_def coreSaveProfile_def corePatchProfile_def coreProfile_def case_prod_unfold Let_def split: body.split option.split sum.split)

lemma watch_finish [simp]: "watch_part (finish U proc inp i a) = watch_part a"
  by (simp add: finish_def finish_request_def StartCoreWithProfile_def case_prod_unfold split: pending.split sum.split option.split)

lemma watch_step_ok: "watch_ok a \<Longrightarrow> watch_ok (watch_step U sees proc inp i a)"
proof (cases "i < length (ap_watchers a) \<and> sees \<and> ap_stop a \<noteq> Some (ap_watchers a ! i)")
  case True
  assume ok: "watch_ok a"
  let ?w = "take i (ap_watchers a) @ drop (Suc i) (ap_watchers a)"
  have split: "ap_watchers a = take i (ap_watchers a) @ ap_watchers a ! i # drop (Suc i) (ap_watchers a)" using True by (simp add: id_take_nth_drop)
  then have "distinct (take i (ap_watchers a) @ ap_watchers a ! i # drop (Suc i) (ap_watchers a))" using ok by (simp add: watch_ok_def)
  moreover have "set (ap_watchers a) = insert (ap_watchers a ! i) (set ?w)" using arg_cong [OF split, of set] by auto
  ultimately show ?thesis using ok True by (auto simp: watch_ok_def watch_step_def)
next
  case False
  then have "watch_part (watch_step U sees proc inp i a) = watch_part a" by (auto simp: watch_step_def)
  then show "watch_ok a \<Longrightarrow> ?thesis" using watch_same by blast
qed

lemma background_watch: "background U a b \<Longrightarrow> watch_ok a \<Longrightarrow> watch_ok b"
  by (induction rule: background.induct) (auto simp: watch_step_ok boot_step_def watch_same [OF watch_parts(3)] watch_same [OF watch_parts(4)] watch_same [OF watch_parts(6)])

lemma api_watch: "api_reach U a \<Longrightarrow> watch_ok a"
proof (induction rule: api_reach.induct)
  case (Configure a dataDir)
  then show ?case by (auto simp: ConfigureDesiredCore_def stopWatching_def watch_ok_def case_prod_unfold less_Suc_eq split: option.split)
next
  case (Background a b)
  then show ?case using background_watch by blast
next
  case (End a)
  then show ?case by (simp add: api_Stop_def stopWatching_def watch_ok_def case_prod_unfold)
qed (simp_all add: watch_same [OF watch_requests(1)] watch_same [OF watch_requests(2)] watch_same [OF watch_requests(3)] watch_same [OF watch_requests(4)]
      watch_same [OF watch_requests(5)] watch_same [OF watch_finish], simp add: new_api_def watch_ok_def)

text \<open>The ticks of the watcher are starts of the core.\<close>

lemma ticks_core:
  assumes "ap_running a" "ap_managed a"
  shows "fold (\<lambda>(proc, inp). desired_reconcile U proc inp) ticks a =
    a\<lparr>ap_core := fold (\<lambda>inp s. snd (startCoreLocked U None inp s)) (map (\<lambda>(proc, inp). inp\<lparr>si_access := launch_access (ap_logGroup a)\<rparr>) ticks) (ap_core a)\<rparr>"
  using assms
proof (induction ticks arbitrary: a)
  case (Cons t ticks)
  obtain proc inp where t: "t = (proc, inp)" by fastforce
  let ?s = "snd (startCoreLocked U None (inp\<lparr>si_access := launch_access (ap_logGroup a)\<rparr>) (ap_core a))"
  have "desired_reconcile U proc inp a = a\<lparr>ap_core := ?s\<rparr>" using Cons.prems core_life.start_busy by (simp add: reconcile_core)
  then show ?case using Cons.IH [of "a\<lparr>ap_core := ?s\<rparr>"] Cons.prems t by simp
qed simp

subsection \<open>An example\<close>

definition toy_stored_core :: core_manager where
  "toy_stored_core = toy_core\<lparr>cm_world := toy_launch_world\<lparr>lw_profile := Stored toy_profile\<rparr>\<rparr>"

definition toy_api :: "desired_state store \<Rightarrow> core_api" where
  "toy_api disk = snd (ConfigureDesiredCore ''/d'' (new_api toy_stored_core disk []))"

definition toy_wish :: "desired_state store" where
  "toy_wish = Stored \<lparr>ds_Version = 1, ds_Running = True, ds_LogGroup = Some 5\<rparr>"

lemma toy_stored_reach: "core_reach ascii_only toy_stored_core"
  unfolding toy_stored_core_def by (rule core_reach.World [OF toy_core_reach]) (simp_all add: toy_core_def NewCoreManager_def)

lemma toy_api_reach: "api_reach ascii_only (toy_api disk)"
  unfolding toy_api_def by (intro api_reach.Configure api_reach.New toy_stored_reach)

lemma toy_stored_off: "core_off toy_stored_core"
  by (simp add: core_off_def toy_stored_core_def toy_core_def NewCoreManager_def toy_launcher_def toy_sandbox_def la_open_def toy_launch_world_def)

lemma toy_stored_alive: "cm_alive toy_stored_core = []"
  by (simp add: toy_stored_core_def)

lemma toy_stored_stop: "stopCoreLocked toy_stored_core = (None, toy_stored_core)"
  using toy_stored_off by (simp add: stopCoreLocked_def core_idle_def core_off_def)

lemma toy_stored_starts: "\<exists>s. startCoreLocked ascii_only None ((toy_core_start 7)\<lparr>si_access := access\<rparr>) toy_stored_core = (None, s) \<and> cm_alive s = [7]"
proof -
  let ?w = "toy_launch_world\<lparr>lw_profile := Stored toy_profile\<rparr>"
  have "resolveLaunchProfile ascii_only None ?w = (Inr (toy_profile\<lparr>lp_Mode := ''auto''\<rparr>), ?w)" by (rule toy_resolves(2)) simp_all
  then show ?thesis using toy_starts [where s = toy_stored_core and po = None and pid = 7 and access = access]
    by (auto simp: toy_stored_core_def)
qed

text \<open>
  The end of the service races with the watcher: a tick that is already there when the channel is closed may
  be taken first, and then the core is started after it was stopped.
\<close>

lemma start_after_stop:
  "\<exists>a. api_reach ascii_only a \<and> fst (api_Stop a) = None \<and> core_off (ap_core (snd (api_Stop a))) \<and>
     cm_alive (ap_core (watch_step ascii_only False True (toy_core_start 7) 0 (snd (api_Stop a)))) = [7]"
proof (intro exI conjI)
  let ?a = "toy_api toy_wish"
  have core: "ap_core ?a = toy_stored_core" and a: "ap_running ?a" "ap_managed ?a" "ap_watchers ?a = [0]"
    by (simp_all add: toy_api_def ConfigureDesiredCore_def desired_load_def new_api_def stopWatching_def toy_wish_def api_call_def)
  have stop: "api_Stop ?a = (None, stopWatching ?a)" by (simp add: api_Stop_def core toy_stored_stop stopWatching_def)
  show "api_reach ascii_only ?a" by (rule toy_api_reach)
  show "fst (api_Stop ?a) = None" "core_off (ap_core (snd (api_Stop ?a)))" using stop toy_stored_off by (simp_all add: stopWatching_def core)
  have "\<not> cm_isRunning toy_stored_core" using toy_stored_off by (simp add: core_off_def)
  moreover obtain s where "startCoreLocked ascii_only None ((toy_core_start 7)\<lparr>si_access := launch_access (ap_logGroup ?a)\<rparr>) toy_stored_core = (None, s)" "cm_alive s = [7]"
    using toy_stored_starts by blast
  ultimately show "cm_alive (ap_core (watch_step ascii_only False True (toy_core_start 7) 0 (snd (api_Stop ?a)))) = [7]"
    using stop a core by (simp add: watch_step_def reconcile_core stopWatching_def)
qed

text \<open>
  A start that has set the desired state and then waits is not told of a stop that comes in between: the core runs although
  it is wanted stopped.
\<close>

lemma start_overtaken:
  "\<exists>a. api_reach ascii_only a \<and> \<not> ap_running a \<and> ap_left a = [] \<and> cm_alive (ap_core a) = [7]"
proof (intro exI conjI)
  let ?a0 = "toy_api Absent"
  let ?a1 = "snd (begin_run ascii_only False NoBody None ?a0)"
  let ?a2 = "snd (coreStop ?a1)"
  let ?a3 = "finish ascii_only True (toy_core_start 7) 1 ?a2"
  let ?a4 = "finish ascii_only True (toy_core_start 7) 0 ?a3"
  have pid: "0 < si_pid (toy_core_start 7)" by (simp add: toy_core_start_def)
  show "api_reach ascii_only ?a4" by (intro api_reach.Finish api_reach.Stop api_reach.Begin toy_api_reach pid)
  have a0: "ap_core ?a0 = toy_stored_core" "ap_path ?a0 \<noteq> []" "ap_io ?a0 = []" "ap_left ?a0 = []"
    by (simp_all add: toy_api_def ConfigureDesiredCore_def desired_load_def new_api_def stopWatching_def)
  have a1: "ap_core ?a1 = toy_stored_core" "ap_path ?a1 \<noteq> []" "ap_io ?a1 = []" "ap_left ?a1 = [StartLeft None None]"
    using a0 by (simp_all add: begin_run_def desired_set_def Let_def)
  have a2: "ap_core ?a2 = toy_stored_core" "ap_left ?a2 = [StartLeft None None, StopLeft]" "\<not> ap_running ?a2"
    using a1 by (simp_all add: coreStop_def desired_set_def Let_def)
  have a3: "?a3 = ?a2\<lparr>ap_left := [StartLeft None None]\<rparr>" using a2 by (simp add: finish_def finish_request_def toy_stored_stop)
  have "\<not> cm_isRunning toy_stored_core" using toy_stored_off by (simp add: core_off_def)
  moreover obtain s where s: "startCoreLocked ascii_only None ((toy_core_start 7)\<lparr>si_access := launch_access None\<rparr>) toy_stored_core = (None, s)" "cm_alive s = [7]"
    using toy_stored_starts by blast
  ultimately have a4: "?a4 = ?a2\<lparr>ap_left := [], ap_core := s\<rparr>"
    unfolding a3 using a2 s by (simp add: finish_def finish_request_def StartCoreWithProfile_def info_off)
  show "\<not> ap_running ?a4" "ap_left ?a4 = []" "cm_alive (ap_core ?a4) = [7]" using a4 a2 s(2) by simp_all
qed

section \<open>Properties\<close>

text \<open>
  The core is whole under its API: in every order of requests, of their parts, of ticks of the watcher and of what happens to
  the processes, either nothing is held or all of it belongs to one running core; and of the watchers exactly the one of the
  latest configuration goes on.
\<close>

theorem desired_invariant:
  assumes "api_reach U a"
  shows "(core_on (ap_core a) \<or> core_off (ap_core a)) \<and> watch_ok a"
  using core_reach_inv [OF api_core_reach [OF assms]] api_watch [OF assms] by (simp add: core_inv_def)

theorem desired_invariant_witness: "(core_on (ap_core (toy_api toy_wish)) \<or> core_off (ap_core (toy_api toy_wish))) \<and> watch_ok (toy_api toy_wish)"
  using desired_invariant [OF toy_api_reach] .



text \<open>
  The watcher brings the core back. While the core should run, it runs after any number of ticks exactly if it ran before or
  one of the starts in between succeeded; every start uses the stored profile and the group for the log that the
  client asked for, and a start that fails leaves nothing behind.
\<close>

theorem desired_recovers:
  assumes "api_reach U a" "ap_running a" "ap_managed a" "\<forall>(proc, inp) \<in> set ticks. 0 < si_pid inp"
  shows "core_on (ap_core (fold (\<lambda>(proc, inp). desired_reconcile U proc inp) ticks a)) =
      (core_on (ap_core a) \<or>
       (\<exists>k < length ticks. fst (startCoreLocked U None ((snd (ticks ! k))\<lparr>si_access := launch_access (ap_logGroup a)\<rparr>)
          (ap_core (fold (\<lambda>(proc, inp). desired_reconcile U proc inp) (take k ticks) a))) = None)) \<and>
    (\<not> core_on (ap_core (fold (\<lambda>(proc, inp). desired_reconcile U proc inp) ticks a)) \<longrightarrow> core_off (ap_core (fold (\<lambda>(proc, inp). desired_reconcile U proc inp) ticks a)))"
proof -
  let ?is = "map (\<lambda>(proc, inp). inp\<lparr>si_access := launch_access (ap_logGroup a)\<rparr>) ticks"
  let ?run = "\<lambda>is s. fold (\<lambda>inp s. snd (startCoreLocked U None inp s)) is s"
  have i: "core_inv (ap_core a)" using core_reach_inv [OF api_core_reach [OF assms(1)]] .
  have g: "\<forall>i \<in> set ?is. 0 < si_pid i" using assms(4) by auto
  have on: "core_on s = cm_isRunning s" "\<not> core_on s \<longrightarrow> core_off s" if "core_inv s" for s using inv_running [OF that] by auto
  have "core_inv (?run ?is (ap_core a))" using core_life.ticks_whole [OF i g] .
  moreover have "?is ! k = (snd (ticks ! k))\<lparr>si_access := launch_access (ap_logGroup a)\<rparr>" if "k < length ticks" for k using that by (simp add: case_prod_unfold)
  ultimately show ?thesis
    using core_life.ticks_up_iff [OF i g, of U None] on i by (simp add: ticks_core [OF assms(2,3)] take_map cong: conj_cong)
qed

theorem desired_recovers_witness: "core_on (ap_core (desired_reconcile ascii_only True (toy_core_start 7) (toy_api toy_wish)))"
proof -
  have a: "ap_core (toy_api toy_wish) = toy_stored_core" "ap_running (toy_api toy_wish)" "ap_managed (toy_api toy_wish)"
    by (simp_all add: toy_api_def ConfigureDesiredCore_def desired_load_def new_api_def stopWatching_def toy_wish_def api_call_def)
  have g: "\<forall>(proc, inp) \<in> set [(True, toy_core_start 7)]. 0 < si_pid inp" by (simp add: toy_core_start_def)
  obtain s where "startCoreLocked ascii_only None ((toy_core_start 7)\<lparr>si_access := launch_access (ap_logGroup (toy_api toy_wish))\<rparr>) toy_stored_core = (None, s)"
    using toy_stored_starts by blast
  then show ?thesis using desired_recovers [OF toy_api_reach a(2,3) g] a(1) by simp
qed

text \<open>
  The wish survives the service. When a request to set the desired state succeeds, a service that starts later on what is on the disk
  wants the same, with the same group for the log, and starts the core once if it should run; when the request fails, the
  running service keeps its state, and the disk holds the old record or the new one.
\<close>

theorem desired_survives:
  "case desired_set running grp a of
     (None, a1) \<Rightarrow> ap_running a1 = running \<and>
       (\<exists>b. ConfigureDesiredCore dataDir (new_api core (ap_disk a1) []) = (None, b) \<and> ap_running b = running \<and> ap_logGroup b = ap_logGroup a1 \<and>
         ap_core b = core \<and> ap_boot b = (if running then 1 else 0))
   | (Some e, a1) \<Rightarrow> ap_running a1 = ap_running a \<and> ap_logGroup a1 = ap_logGroup a \<and>
       (ap_disk a1 = ap_disk a \<or> (\<exists>g. ap_disk a1 = Stored \<lparr>ds_Version = 1, ds_Running = running, ds_LogGroup = g\<rparr>))"
  by (simp add: desired_set_def Let_def ConfigureDesiredCore_def desired_load_def new_api_def stopWatching_def api_call_def split: prod.split bool.split)

end
