(* ===== verification/Http_Socket.thy ===== *)
theory Http_Socket
  imports Kokoro_Prelude
begin

text \<open>
  The WebSocket side of the HTTP helpers (\<open>route/httphelper/websocket.go\<close>): the handshake, the frames, and the
  loop that reads the frames of a client of the event streams (\<open>route/coreapi/core_events.go\<close>,
  \<open>route/sysproxyapi/sysproxy_events.go\<close>). Bytes on the wire are 8-bit words.
\<close>

unbundle bit_operations_syntax

section \<open>Definitions\<close>

type_synonym byte = "8 word"
type_synonym bytes = "byte list"

text \<open>Big endian numbers (\<open>encoding/binary\<close>) of \<open>k\<close> bytes; a \<open>uint64\<close> is a natural number below \<open>2 ^ 64\<close>.\<close>

fun put_be :: "nat \<Rightarrow> nat \<Rightarrow> bytes" where
  "put_be 0 n = []"
| "put_be (Suc k) n = put_be k (n div 256) @ [of_nat n]"

definition get_be :: "bytes \<Rightarrow> nat" where
  "get_be bs = foldl (\<lambda>n b. 256 * n + unat b) 0 bs"

text \<open>\<open>io.ReadFull\<close> on what the peer sends before the connection ends.\<close>

definition io_ReadFull :: "nat \<Rightarrow> bytes \<Rightarrow> (bytes \<times> bytes) res" where
  "io_ReadFull n s = (if n \<le> length s then Inr (take n s, drop n s) else Inl SysErr)"

text \<open>
  The sending side of a connection: what was sent, and a script in which \<open>Some n\<close> is a write that fails after \<open>n\<close>
  bytes.
\<close>

record wire =
  wi_sent :: bytes
  wi_faults :: "nat option list"

definition wire_Write :: "bytes \<Rightarrow> wire \<Rightarrow> err option \<times> wire" where
  "wire_Write d w =
     (case wi_faults w of
        Some n # fs \<Rightarrow> (Some SysErr, w\<lparr>wi_sent := wi_sent w @ take n d, wi_faults := fs\<rparr>)
      | None # fs \<Rightarrow> (None, w\<lparr>wi_sent := wi_sent w @ d, wi_faults := fs\<rparr>)
      | [] \<Rightarrow> (None, w\<lparr>wi_sent := wi_sent w @ d\<rparr>))"

subsection \<open>Frames\<close>

definition webSocketMaxPayload :: nat where "webSocketMaxPayload = 2 ^ 20"
definition WebSocketOpText :: byte where "WebSocketOpText = 0x1"
definition WebSocketOpClose :: byte where "WebSocketOpClose = 0x8"
definition WebSocketOpPing :: byte where "WebSocketOpPing = 0x9"
definition WebSocketOpPong :: byte where "WebSocketOpPong = 0xA"

definition frame_header :: "byte \<Rightarrow> nat \<Rightarrow> bytes" where
  "frame_header opcode payloadLen =
     (0x80 OR opcode) #
     (if payloadLen \<le> 125 then [of_nat payloadLen]
      else if payloadLen \<le> 0xffff then [126, of_nat (payloadLen div 256), of_nat payloadLen]
      else 127 # put_be 8 payloadLen)"

definition WriteWebSocketFrame :: "byte \<Rightarrow> bytes \<Rightarrow> wire \<Rightarrow> err option \<times> wire" where
  "WriteWebSocketFrame opcode payload w =
     (case wire_Write (frame_header opcode (length payload)) w of
        (Some e, w1) \<Rightarrow> (Some e, w1)
      | (None, w1) \<Rightarrow> wire_Write payload w1)"

text \<open>The length of the payload, with what follows it.\<close>

definition read_length :: "byte \<Rightarrow> bytes \<Rightarrow> (nat \<times> bytes) res" where
  "read_length b1 s =
     (let payloadLen = unat (b1 AND 0x7f) in
      if payloadLen = 126 then (case io_ReadFull 2 s of Inl e \<Rightarrow> Inl e | Inr (buf, s') \<Rightarrow> Inr (get_be buf, s'))
      else if payloadLen = 127 then (case io_ReadFull 8 s of Inl e \<Rightarrow> Inl e | Inr (buf, s') \<Rightarrow> Inr (get_be buf, s'))
      else Inr (payloadLen, s))"

definition unmask :: "bytes \<Rightarrow> bytes \<Rightarrow> bytes" where
  "unmask maskKey payload = map (\<lambda>i. payload ! i XOR maskKey ! (i mod 4)) [0..<length payload]"

definition ReadWebSocketFrame :: "bytes \<Rightarrow> (byte \<times> bytes \<times> bytes) res" where
  "ReadWebSocketFrame r =
     (case io_ReadFull 2 r of
        Inl e \<Rightarrow> Inl e
      | Inr (header, r1) \<Rightarrow>
          if header ! 0 AND 0x80 = 0 then Inl (Plain ''WebSocket does not support fragmented frames'')
          else if header ! 1 AND 0x80 = 0 then Inl (Plain ''WebSocket client frames must be masked'')
          else (case read_length (header ! 1) r1 of
              Inl e \<Rightarrow> Inl e
            | Inr (payloadLen, r2) \<Rightarrow>
                if webSocketMaxPayload < payloadLen then Inl (Plain ''WebSocket payload is too large'')
                else (case io_ReadFull 4 r2 of
                    Inl e \<Rightarrow> Inl e
                  | Inr (maskKey, r3) \<Rightarrow>
                      (case io_ReadFull payloadLen r3 of
                         Inl e \<Rightarrow> Inl e
                       | Inr (payload, r4) \<Rightarrow> Inr (header ! 0 AND 0x0f, unmask maskKey payload, r4)))))"

subsection \<open>The handshake\<close>

text \<open>
  The values of a header by name, and the functions of \<open>crypto/sha1\<close> and \<open>encoding/base64\<close>, which are parameters.
\<close>

record ws_request =
  ws_Method :: string
  ws_Header :: "string \<Rightarrow> string list"

record ws_codec =
  ws_sha1 :: "string \<Rightarrow> string"
  ws_encode :: "string \<Rightarrow> string"
  ws_decode :: "string \<Rightarrow> string option"

definition header_Get :: "ws_request \<Rightarrow> string \<Rightarrow> string" where
  "header_Get r name = (case ws_Header r name of [] \<Rightarrow> [] | v # _ \<Rightarrow> v)"

definition headerContainsToken :: "unicode \<Rightarrow> ws_request \<Rightarrow> string \<Rightarrow> string \<Rightarrow> bool" where
  "headerContainsToken U r name token =
     list_ex (\<lambda>value. list_ex (\<lambda>part. strings_EqualFold U (trim_space part) token) (split_at (CHR '','') value)) (ws_Header r name)"

definition webSocketGUID :: string where "webSocketGUID = ''258EAFA5-E914-47DA-95CA-C5AB0DC85B11''"

definition webSocketAccept :: "ws_codec \<Rightarrow> string \<Rightarrow> string" where
  "webSocketAccept C key = ws_encode C (ws_sha1 C (key @ webSocketGUID))"

definition crlf :: string where "crlf = [char_of (13 :: nat), char_of (10 :: nat)]"

text \<open>
  A connection is taken over from the server and then answered; the two outcomes are the hijack and the
  write with its flush. The result is the answer that was sent; a connection that could not be answered is closed.
\<close>

record handshake =
  hs_hijacked :: bool
  hs_closed :: bool

definition AcceptWebSocket :: "unicode \<Rightarrow> ws_codec \<Rightarrow> bool \<Rightarrow> io list \<Rightarrow> ws_request \<Rightarrow> string res \<times> handshake" where
  "AcceptWebSocket U C hijacker ios r =
     (let none = \<lparr>hs_hijacked = False, hs_closed = False\<rparr>;
          key = trim_space (header_Get r ''Sec-WebSocket-Key'') in
      if ws_Method r \<noteq> ''GET'' then (Inl (HTTPError 400 ''WebSocket only supports GET''), none)
      else if \<not> headerContainsToken U r ''Connection'' ''upgrade'' \<or> \<not> strings_EqualFold U (header_Get r ''Upgrade'') ''websocket''
      then (Inl (HTTPError 400 ''Missing WebSocket upgrade request header''), none)
      else if header_Get r ''Sec-WebSocket-Version'' \<noteq> ''13'' then (Inl (HTTPError 400 ''Unsupported WebSocket version''), none)
      else if key = [] then (Inl (HTTPError 400 ''Missing Sec-WebSocket-Key''), none)
      else if (case ws_decode C key of None \<Rightarrow> True | Some decoded \<Rightarrow> length decoded \<noteq> 16)
      then (Inl (HTTPError 400 ''Invalid Sec-WebSocket-Key''), none)
      else if \<not> hijacker then (Inl (Plain ''Current connection does not support WebSocket''), none)
      else (case next_io ios of (o1, ios1) \<Rightarrow>
          if o1 \<noteq> Done then (Inl SysErr, none)
          else (case next_io ios1 of (o2, ios2) \<Rightarrow>
              if o2 \<noteq> Done then (Inl SysErr, \<lparr>hs_hijacked = True, hs_closed = True\<rparr>)
              else (case next_io ios2 of (o3, _) \<Rightarrow>
                  if o3 \<noteq> Done then (Inl SysErr, \<lparr>hs_hijacked = True, hs_closed = True\<rparr>)
                  else (Inr (''HTTP/1.1 101 Switching Protocols'' @ crlf @ ''Upgrade: websocket'' @ crlf @ ''Connection: Upgrade'' @ crlf @
                          ''Sec-WebSocket-Accept: '' @ webSocketAccept C key @ crlf @ crlf),
                        \<lparr>hs_hijacked = True, hs_closed = False\<rparr>)))))"

subsection \<open>The client of an event stream\<close>

text \<open>
  The goroutine that reads the frames of a client of the core's or the system proxy's events. It ends when the
  client closes or when a frame cannot be read. Every frame has at least six bytes, so it ends.
\<close>

lemma read_full_rest: "io_ReadFull n s = Inr (b, s') \<Longrightarrow> length s = n + length s' \<and> length b = n \<and> s = b @ s'"
  by (auto simp: io_ReadFull_def split: if_splits)

lemma read_length_rest: "read_length b s = Inr (n, s') \<Longrightarrow> \<exists>l. s = l @ s'"
  by (auto simp: read_length_def Let_def dest!: read_full_rest split: if_splits sum.splits)

lemma read_frame_parts:
  assumes "ReadWebSocketFrame s = Inr (oc, d, s')"
  shows "\<exists>b0 b1 l key p. s = b0 # b1 # l @ key @ p @ s' \<and> oc = b0 AND 0x0f \<and> b0 AND 0x80 \<noteq> 0 \<and> b1 AND 0x80 \<noteq> 0 \<and>
    length key = 4 \<and> length p \<le> webSocketMaxPayload \<and> d = unmask key p"
proof -
  from assms obtain header r1 n r2 maskKey r3 payload where
    r: "io_ReadFull 2 s = Inr (header, r1)" "read_length (header ! 1) r1 = Inr (n, r2)" "n \<le> webSocketMaxPayload"
      "io_ReadFull 4 r2 = Inr (maskKey, r3)" "io_ReadFull n r3 = Inr (payload, s')" "d = unmask maskKey payload"
      "oc = header ! 0 AND 0x0f" "header ! 0 AND 0x80 \<noteq> 0" "header ! 1 AND 0x80 \<noteq> 0"
    by (auto simp: ReadWebSocketFrame_def split: sum.splits if_splits)
  obtain b0 b1 where "header = [b0, b1]" using read_full_rest [OF r(1)] by (auto simp: numeral_2_eq_2 length_Suc_conv)
  moreover obtain l where "r1 = l @ r2" using read_length_rest [OF r(2)] by blast
  ultimately show ?thesis using read_full_rest [OF r(1)] read_full_rest [OF r(4)] read_full_rest [OF r(5)] r(3,6-9) by auto
qed

lemma read_frame_rest: "ReadWebSocketFrame s = Inr (oc, d, s') \<Longrightarrow> length s' < length s"
  by (auto dest!: read_frame_parts)

function events_reader :: "bytes \<Rightarrow> wire \<Rightarrow> wire" where
  "events_reader s w =
     (case ReadWebSocketFrame s of
        Inl e \<Rightarrow> w
      | Inr (opcode, payload, s') \<Rightarrow>
          if opcode = WebSocketOpClose then snd (WriteWebSocketFrame WebSocketOpClose [] w)
          else events_reader s' (if opcode = WebSocketOpPing then snd (WriteWebSocketFrame WebSocketOpPong payload w) else w))"
  by pat_completeness auto
termination
  by (relation "measure (\<lambda>(s, w). length s)") (auto dest!: read_frame_rest)

declare events_reader.simps [simp del]

section \<open>Lemmas\<close>

lemma get_be_snoc [simp]: "get_be (bs @ [b]) = 256 * get_be bs + unat b"
  by (simp add: get_be_def)

lemma get_be_Nil [simp]: "get_be [] = 0"
  by (simp add: get_be_def)

lemma length_put_be [simp]: "length (put_be k n) = k"
  by (induction k arbitrary: n) simp_all

lemma unat_byte [simp]: "unat (of_nat n :: byte) = n mod 256"
  by (simp add: unat_of_nat)

lemma get_put_be: "get_be (put_be k n) = n mod 256 ^ k"
  by (induction k arbitrary: n) (simp_all add: mod_mult2_eq)

lemma get_be_bound: "get_be bs < 256 ^ length bs"
proof (induction bs rule: rev_induct)
  case (snoc b bs)
  have "unat b < 256" using unsigned_less [of b] by simp
  then show ?case using snoc by simp
qed simp

text \<open>The two bits of the header that are looked at, and the seven below.\<close>

lemma high_bit [simp]: "(0x80 OR b) AND 0x80 \<noteq> (0 :: byte)"
  using word_ao_absorbs(2) [of "0x80" b] by (simp add: word_ao_absorbs)

lemma low_take: "(0x80 OR b) AND 0x7f = take_bit 7 (b :: byte)" "(0x80 OR b) AND 0x0f = take_bit 4 (b :: byte)" "b AND 0x7f = take_bit 7 b"
proof -
  have m: "(0x7f :: byte) = mask 7" "(0x0f :: byte) = mask 4" by (simp_all add: mask_eq_exp_minus_1)
  have t: "take_bit 7 (0x80 :: byte) = 0" "take_bit 4 (0x80 :: byte) = 0" by simp_all
  show "(0x80 OR b) AND 0x7f = take_bit 7 (b :: byte)" "(0x80 OR b) AND 0x0f = take_bit 4 (b :: byte)" "b AND 0x7f = take_bit 7 b"
    unfolding m by (simp_all only: take_bit_or t or.left_neutral flip: take_bit_eq_mask)
qed

lemma unat_take: "unat (take_bit k b) = unat b mod 2 ^ k"
  by (simp add: unsigned_take_bit_eq take_bit_nat_def)

lemma low_nibble: "unat b < 16 \<Longrightarrow> (0x80 OR b) AND 0x0f = (b :: byte)"
  unfolding low_take by (rule unsigned_word_eqI [where ?'a = nat]) (simp add: unat_take)

lemma nibble_bound: "unat (b AND 0x0f :: byte) < 16"
  by (rule le_less_trans [OF word_and_le1 [THEN word_le_nat_alt [THEN iffD1]]]) simp

lemma low_bits: "unat ((0x80 OR b) AND 0x7f) = unat b mod 128" for b :: byte
  by (simp add: low_take unat_take)

lemma low_plain: "unat (b AND 0x7f) = unat b mod 128" for b :: byte
  by (simp add: low_take unat_take)

text \<open>A frame as a client has to send it (RFC 6455, section 5.2): final, masked, with the shortest length.\<close>

definition client_frame :: "byte \<Rightarrow> bytes \<Rightarrow> bytes \<Rightarrow> bytes" where
  "client_frame opcode key payload =
     (0x80 OR opcode) #
     (if length payload \<le> 125 then [0x80 OR of_nat (length payload)]
      else if length payload \<le> 0xffff then (0x80 OR 126) # put_be 2 (length payload)
      else (0x80 OR 127) # put_be 8 (length payload)) @
     key @ unmask key payload"

lemma length_unmask [simp]: "length (unmask key p) = length p"
  by (simp add: unmask_def)

lemma unmask_unmask [simp]: "unmask key (unmask key p) = p"
  by (rule nth_equalityI) (simp_all add: unmask_def xor.assoc)

lemma read_full_append [simp]: "length b = n \<Longrightarrow> io_ReadFull n (b @ s) = Inr (b, s)"
  by (auto simp: io_ReadFull_def)

lemma read_two [simp]: "io_ReadFull 2 (a # b # s) = Inr ([a, b], s)"
  by (simp add: io_ReadFull_def)

lemma read_client_frame:
  assumes "unat opcode < 16" "length key = 4" "length payload \<le> webSocketMaxPayload"
  shows "ReadWebSocketFrame (client_frame opcode key payload @ s) = Inr (opcode, payload, s)"
proof -
  let ?n = "length payload"
  let ?b = "if ?n \<le> 125 then of_nat ?n else if ?n \<le> 0xffff then 126 else 127 :: byte"
  let ?l = "if ?n \<le> 125 then [] else if ?n \<le> 0xffff then put_be 2 ?n else put_be 8 ?n"
  have c: "client_frame opcode key payload @ s = (0x80 OR opcode) # (0x80 OR ?b) # ?l @ key @ unmask key payload @ s"
    by (simp add: client_frame_def)
  have l: "read_length (0x80 OR ?b) (?l @ r) = Inr (?n, r)" for r
    using assms(3) by (simp add: read_length_def Let_def low_bits get_put_be webSocketMaxPayload_def del: put_be.simps)
  show ?thesis
    using assms unfolding c by (simp add: ReadWebSocketFrame_def l low_nibble)
qed

text \<open>What the other side reads: the frames of the service are not masked.\<close>

definition server_frame :: "bytes \<Rightarrow> (byte \<times> bytes \<times> bytes) res" where
  "server_frame r =
     (case io_ReadFull 2 r of
        Inl e \<Rightarrow> Inl e
      | Inr (header, r1) \<Rightarrow>
          if header ! 0 AND 0x80 = 0 \<or> header ! 1 AND 0x80 \<noteq> 0 then Inl (Plain ''invalid frame'')
          else (case read_length (header ! 1) r1 of
              Inl e \<Rightarrow> Inl e
            | Inr (n, r2) \<Rightarrow> (case io_ReadFull n r2 of Inl e \<Rightarrow> Inl e | Inr (d, r3) \<Rightarrow> Inr (header ! 0 AND 0x0f, d, r3))))"

lemma unmasked: "unat b < 128 \<Longrightarrow> b AND 0x80 = (0 :: byte)"
proof -
  assume "unat b < 128"
  then have "take_bit 7 b = b" by (intro unsigned_word_eqI [where ?'a = nat]) (simp add: unat_take)
  then have "b AND 0x80 = (b AND 0x7f) AND 0x80" by (simp add: low_take)
  then show ?thesis by (simp add: word_bw_assocs)
qed

lemma server_frame_header:
  assumes "unat opcode < 16" "length payload < 2 ^ 64"
  shows "server_frame (frame_header opcode (length payload) @ payload @ s) = Inr (opcode, payload, s)"
proof -
  let ?n = "length payload"
  let ?b = "if ?n \<le> 125 then of_nat ?n else if ?n \<le> 0xffff then 126 else 127 :: byte"
  let ?l = "if ?n \<le> 125 then [] else if ?n \<le> 0xffff then put_be 2 ?n else put_be 8 ?n"
  have c: "frame_header opcode ?n @ payload @ s = (0x80 OR opcode) # ?b # ?l @ payload @ s"
    by (simp add: frame_header_def numeral_2_eq_2)
  have b: "?b AND 0x80 = 0" by (rule unmasked) simp
  have l: "read_length ?b (?l @ r) = Inr (?n, r)" for r
    using assms(2) by (simp add: read_length_def Let_def low_plain get_put_be del: put_be.simps)
  show ?thesis
    using assms(1) unfolding c by (simp only: server_frame_def read_two sum.case prod.case nth_Cons_0 nth_Cons_Suc One_nat_def b l high_bit) (simp add: l low_nibble)
qed

lemma write_good: "wi_faults w = [] \<Longrightarrow> WriteWebSocketFrame opcode payload w = (None, w\<lparr>wi_sent := wi_sent w @ frame_header opcode (length payload) @ payload\<rparr>)"
  by (simp add: WriteWebSocketFrame_def wire_Write_def)

text \<open>What the reader answers to a frame.\<close>

definition answer :: "byte \<times> bytes \<times> bytes \<Rightarrow> wire \<Rightarrow> wire" where
  "answer f w = (if fst f = WebSocketOpPing then snd (WriteWebSocketFrame WebSocketOpPong (snd (snd f)) w) else w)"

definition client_ok :: "byte \<times> bytes \<times> bytes \<Rightarrow> bool" where
  "client_ok f = (unat (fst f) < 16 \<and> length (fst (snd f)) = 4 \<and> length (snd (snd f)) \<le> webSocketMaxPayload)"

definition encode_frame :: "byte \<times> bytes \<times> bytes \<Rightarrow> bytes" where
  "encode_frame f = client_frame (fst f) (fst (snd f)) (snd (snd f))"

lemma read_encode: "client_ok f \<Longrightarrow> ReadWebSocketFrame (encode_frame f @ s) = Inr (fst f, snd (snd f), s)"
  by (simp add: encode_frame_def client_ok_def read_client_frame)

lemma reader_frames:
  assumes "\<forall>f \<in> set fs. client_ok f \<and> fst f \<noteq> WebSocketOpClose"
  shows "events_reader (concat (map encode_frame fs) @ s) w = events_reader s (fold answer fs w)"
  using assms
proof (induction fs arbitrary: w)
  case (Cons f fs)
  then show ?case by (simp add: events_reader.simps [of "encode_frame f @ _"] read_encode answer_def)
qed simp

lemma reader_close:
  assumes "client_ok f" "fst f = WebSocketOpClose"
  shows "events_reader (encode_frame f @ s) w = snd (WriteWebSocketFrame WebSocketOpClose [] w)"
  using assms by (simp add: events_reader.simps [of "encode_frame f @ _"] read_encode)

section \<open>Properties\<close>

text \<open>
  C35. Frames come through. A frame that a client sends as the protocol asks, with any payload up to the limit of a
  megabyte, is read back exactly, and nothing of the next frame is consumed; a frame that the service writes is
  read back exactly by the other side.
\<close>

theorem websocket_roundtrip:
  assumes "unat opcode < 16" "length key = 4" "length payload \<le> webSocketMaxPayload" "wi_faults w = []"
  shows "ReadWebSocketFrame (client_frame opcode key payload @ s) = Inr (opcode, payload, s) \<and>
    (\<exists>f. WriteWebSocketFrame opcode payload w = (None, w\<lparr>wi_sent := wi_sent w @ f\<rparr>) \<and> server_frame (f @ s) = Inr (opcode, payload, s))"
proof -
  have "length payload < 2 ^ 64" using assms(3) by (simp add: webSocketMaxPayload_def)
  then show ?thesis
    using read_client_frame [OF assms(1-3)] write_good [OF assms(4)] server_frame_header [OF assms(1), of payload s] by auto
qed

theorem websocket_roundtrip_witness:
  "ReadWebSocketFrame (client_frame 9 [1, 2, 3, 4] [7, 8, 9, 10, 11] @ [5]) = Inr (9, [7, 8, 9, 10, 11], [5])"
  using websocket_roundtrip [of 9 "[1, 2, 3, 4]" "[7, 8, 9, 10, 11]" "\<lparr>wi_sent = [], wi_faults = []\<rparr>" "[5]"] by (simp add: webSocketMaxPayload_def)

text \<open>
  What a client can make the service hold is bounded: whatever bytes arrive, the frame that is read has at most a
  megabyte, comes from a final masked frame, and consumes its header, its key and its payload.
\<close>

theorem websocket_bounded:
  assumes "ReadWebSocketFrame s = Inr (opcode, payload, rest)"
  shows "length payload \<le> 1048576 \<and> unat opcode < 16 \<and> s ! 0 AND 0x80 \<noteq> 0 \<and> s ! 1 AND 0x80 \<noteq> 0 \<and>
    (\<exists>used. s = used @ rest \<and> length payload + 6 \<le> length used)"
proof -
  obtain b0 b1 l key p where r: "s = b0 # b1 # l @ key @ p @ rest" "opcode = b0 AND 0x0f" "b0 AND 0x80 \<noteq> 0" "b1 AND 0x80 \<noteq> 0" "length key = 4"
    "length p \<le> webSocketMaxPayload" "payload = unmask key p" using read_frame_parts [OF assms] by blast
  have "s = (b0 # b1 # l @ key @ p) @ rest" "length payload + 6 \<le> length (b0 # b1 # l @ key @ p)" using r by simp_all
  then show ?thesis using r by (auto simp: nibble_bound webSocketMaxPayload_def)
qed

theorem websocket_bounded_witness:
  "length [7 :: byte] \<le> 1048576 \<and> (\<exists>used. client_frame 9 [1, 2, 3, 4] [7] @ [5] = used @ [5] \<and> length [7 :: byte] + 6 \<le> length used)"
proof -
  have "ReadWebSocketFrame (client_frame 9 [1, 2, 3, 4] [7] @ [5]) = Inr (9, [7], [5])" by (rule read_client_frame) (simp_all add: webSocketMaxPayload_def)
  from websocket_bounded [OF this] show ?thesis by blast
qed

text \<open>
  C36. The goroutine that serves the frames of a client ends on every input, with the answers it owes: a ping is answered
  by a pong with the same payload, in order, frames of other kinds are passed over, a close is answered and
  ends it, and so does anything that is not a frame; what comes after a close is not looked at. This holds
  whichever of the writes fail.
\<close>

theorem events_reader_ends:
  assumes "\<forall>f \<in> set fs. client_ok f \<and> fst f \<noteq> WebSocketOpClose"
  shows "(client_ok c \<and> fst c = WebSocketOpClose \<longrightarrow>
      events_reader (concat (map encode_frame fs) @ encode_frame c @ s) w = snd (WriteWebSocketFrame WebSocketOpClose [] (fold answer fs w))) \<and>
    (ReadWebSocketFrame s = Inl e \<longrightarrow> events_reader (concat (map encode_frame fs) @ s) w = fold answer fs w)"
  using reader_frames [OF assms] reader_close by (simp add: events_reader.simps [of s])

theorem events_reader_ends_witness:
  "events_reader (encode_frame (9, [1, 2, 3, 4], [7]) @ encode_frame (8, [1, 2, 3, 4], []) @ [5]) \<lparr>wi_sent = [], wi_faults = []\<rparr> =
     \<lparr>wi_sent = [0x8A, 1, 7, 0x88, 0], wi_faults = []\<rparr>"
proof -
  have c: "\<forall>f \<in> set [(9, [1, 2, 3, 4], [7])]. client_ok f \<and> fst f \<noteq> WebSocketOpClose" "client_ok (8, [1, 2, 3, 4], []) \<and> fst (8, [1, 2, 3, 4], []) = WebSocketOpClose"
    by (simp_all add: client_ok_def webSocketMaxPayload_def WebSocketOpClose_def)
  show ?thesis
    using events_reader_ends [OF c(1), of "(8, [1, 2, 3, 4], [])" "[5]"] c(2)
    by (simp add: answer_def WebSocketOpPing_def WebSocketOpPong_def WebSocketOpClose_def write_good frame_header_def)
qed

text \<open>
  The handshake: a connection is taken over only for a proper request, its answer proves that the key was read,
  and a connection that was taken over and could not be answered is closed.
\<close>

theorem websocket_handshake:
  "case AcceptWebSocket U C hijacker ios r of
     (Inr a, h) \<Rightarrow> ws_Method r = ''GET'' \<and> headerContainsToken U r ''Connection'' ''upgrade'' \<and> header_Get r ''Sec-WebSocket-Version'' = ''13'' \<and>
       (\<exists>k. ws_decode C (trim_space (header_Get r ''Sec-WebSocket-Key'')) = Some k \<and> length k = 16) \<and>
       (\<exists>pre. a = pre @ webSocketAccept C (trim_space (header_Get r ''Sec-WebSocket-Key'')) @ crlf @ crlf) \<and> hs_hijacked h \<and> \<not> hs_closed h
   | (Inl e, h) \<Rightarrow> hs_hijacked h = hs_closed h"
  by (simp add: AcceptWebSocket_def Let_def split: prod.split option.split)

end
