(* ===== verification/Router_Api.thy ===== *)
theory Router_Api
  imports Router_Manager Http_Socket
begin

text \<open>
  The requests of the process router (\<open>route/processrouterapi/process_router.go\<close>) and the stream of its status
  (\<open>events.go\<close>), whose client keeps the router's lease alive with pings.
\<close>

section \<open>Definitions\<close>

subsection \<open>Requests\<close>

datatype router_response = RouterStatus status | NoContent | RouterError nat err | Entries "diagnostic_entry list"

text \<open>\<open>httphelper.SendError\<close>: the code of an HTTP error, and 500 for every other one.\<close>

definition send_error :: "err \<Rightarrow> router_response" where
  "send_error e = RouterError (case e of HTTPError code m \<Rightarrow> code | HTTPErrorOf code e' \<Rightarrow> code | _ \<Rightarrow> 500) e"

text \<open>\<open>validation\<close> is whether the error is a \<open>ValidationError\<close>, the type of the errors of \<open>normalizeRulesRequest\<close>.\<close>

definition sendManagerError :: "bool \<Rightarrow> err \<Rightarrow> router_response" where
  "sendManagerError validation e =
     (if validation then send_error (HTTPErrorOf 400 e)
      else if e = ErrUnsupported then send_error (HTTPErrorOf 501 e)
      else send_error e)"

definition start_request :: "unicode \<Rightarrow> int \<Rightarrow> manager \<Rightarrow> router_response \<times> manager" where
  "start_request U now m =
     (case Enable U now m of
        (Some e, m1) \<Rightarrow> (sendManagerError False e, m1)
      | (None, m1) \<Rightarrow> (RouterStatus (Status m1), m1))"

definition stop_request :: "manager \<Rightarrow> router_response \<times> manager" where
  "stop_request m = (case Disable m of (Some e, m1) \<Rightarrow> (send_error e, m1) | (None, m1) \<Rightarrow> (NoContent, m1))"

text \<open>The body of the request, or the error of its decoding; an absent body is an empty request.\<close>

definition replaceRules :: "unicode \<Rightarrow> int \<Rightarrow> rules_request res \<Rightarrow> manager \<Rightarrow> router_response \<times> manager" where
  "replaceRules U now body m =
     (case body of
        Inl e \<Rightarrow> (send_error (HTTPErrorOf 400 e), m)
      | Inr request \<Rightarrow>
          (case ReplaceRules U now request m of
             (Some e, m1) \<Rightarrow> (sendManagerError (case normalizeRulesRequest U (m_GOOS m) request of Inl _ \<Rightarrow> True | Inr _ \<Rightarrow> False) e, m1)
           | (None, m1) \<Rightarrow> (RouterStatus (Status m1), m1)))"

definition status_request :: "int \<Rightarrow> manager \<Rightarrow> router_response \<times> manager" where
  "status_request now m = (let m1 = RenewLease now m in (RouterStatus (Status m1), m1))"

definition repairFirewall_request :: "int \<Rightarrow> manager \<Rightarrow> router_response \<times> manager" where
  "repairFirewall_request now m =
     (case RepairFirewall now m of
        (Some e, m1) \<Rightarrow> (sendManagerError False e, m1)
      | (None, m1) \<Rightarrow> (RouterStatus (Status m1), m1))"

definition cleanup_request :: "manager \<Rightarrow> router_response \<times> manager" where
  "cleanup_request m = (case Cleanup m of (Some e, m1) \<Rightarrow> (send_error e, m1) | (None, m1) \<Rightarrow> (NoContent, m1))"

subsection \<open>The stream of the status\<close>

text \<open>
  A connection: the bytes that the client sends and that are not yet read, the sending side, whether the
  reading goroutine has ended, whether the connection is closed, and the status that was sent last.
\<close>

record status_stream =
  es_in :: bytes
  es_wire :: wire
  es_done :: bool
  es_closed :: bool
  es_previous :: bytes

definition open_stream :: "int \<Rightarrow> bytes \<Rightarrow> wire \<Rightarrow> manager \<Rightarrow> status_stream \<times> manager" where
  "open_stream now input w m = (\<lparr>es_in = input, es_wire = w, es_done = False, es_closed = False, es_previous = []\<rparr>, RenewLease now m)"

text \<open>One round of the reading goroutine, at the time \<open>now\<close>.\<close>

definition reader_step :: "int \<Rightarrow> status_stream \<times> manager \<Rightarrow> status_stream \<times> manager" where
  "reader_step now cm =
     (case cm of (c, m) \<Rightarrow>
        if es_done c then (c, m)
        else (case ReadWebSocketFrame (es_in c) of
            Inl e \<Rightarrow> (c\<lparr>es_done := True\<rparr>, m)
          | Inr (opcode, data, rest) \<Rightarrow>
              if opcode = WebSocketOpPing then
                (case WriteWebSocketFrame WebSocketOpPong data (es_wire c) of (e, w) \<Rightarrow>
                   (c\<lparr>es_in := rest, es_wire := w, es_done := e \<noteq> None\<rparr>, RenewLease now m))
              else (c\<lparr>es_in := rest, es_done := opcode = WebSocketOpClose\<rparr>, m)))"

text \<open>
  One round of the sending loop: the status is sent when it differs from the last one; the loop and with it the
  connection end when a write fails, or when the reading goroutine has ended. \<open>marshal\<close> is \<open>json.Marshal\<close>.
\<close>

definition sender_step :: "(status \<Rightarrow> bytes) \<Rightarrow> status_stream \<times> manager \<Rightarrow> status_stream \<times> manager" where
  "sender_step marshal cm =
     (case cm of (c, m) \<Rightarrow>
        if es_closed c then (c, m)
        else (let data = marshal (Status m) in
          if data \<noteq> es_previous c then
            (case WriteWebSocketFrame WebSocketOpText data (es_wire c) of (e, w) \<Rightarrow>
               (c\<lparr>es_wire := w, es_closed := (e \<noteq> None \<or> es_done c), es_previous := (if e = None then data else es_previous c)\<rparr>, m))
          else (c\<lparr>es_closed := es_done c\<rparr>, m)))"

section \<open>Lemmas\<close>

text \<open>The time of the latest ping among frames that are read at the given times.\<close>

definition last_ping :: "(int \<times> byte \<times> bytes \<times> bytes) list \<Rightarrow> int option \<Rightarrow> int option" where
  "last_ping tfs t0 = fold (\<lambda>(t, f) acc. if fst f = WebSocketOpPing then Some t else acc) tfs t0"

lemma ping_not_close: "WebSocketOpPing \<noteq> WebSocketOpClose"
  by (simp add: WebSocketOpPing_def WebSocketOpClose_def)

lemma answer_faults: "wi_faults w = [] \<Longrightarrow> wi_faults (answer f w) = []"
  by (simp add: answer_def write_good)

lemma reader_one:
  assumes "client_ok f" "fst f \<noteq> WebSocketOpClose" "wi_faults (es_wire c) = []" "\<not> es_done c" "es_in c = encode_frame f @ s"
  shows "reader_step t (c, m) = (c\<lparr>es_in := s, es_wire := answer f (es_wire c)\<rparr>, if fst f = WebSocketOpPing then RenewLease t m else m)"
  using assms read_encode [OF assms(1), of s] by (simp add: reader_step_def answer_def write_good)

lemma reader_all:
  assumes "\<forall>(t, f) \<in> set tfs. client_ok f \<and> fst f \<noteq> WebSocketOpClose" "wi_faults (es_wire c) = []" "\<not> es_done c" "m_desired m"
    and "es_in c = concat (map (\<lambda>(t, f). encode_frame f) tfs) @ s"
  shows "fold (\<lambda>(t, f). reader_step t) tfs (c, m) = (c\<lparr>es_in := s, es_wire := fold answer (map snd tfs) (es_wire c)\<rparr>, m\<lparr>m_lastContact := last_ping tfs (m_lastContact m)\<rparr>)"
  using assms
proof (induction tfs arbitrary: c m)
  case (Cons tf tfs)
  obtain t f where tf: "tf = (t, f)" by (rule prod.exhaust)
  let ?c = "c\<lparr>es_in := concat (map (\<lambda>(t, f). encode_frame f) tfs) @ s, es_wire := answer f (es_wire c)\<rparr>"
  let ?m = "if fst f = WebSocketOpPing then RenewLease t m else m"
  have 1: "reader_step t (c, m) = (?c, ?m)" using Cons.prems tf by (intro reader_one) auto
  have "m_desired ?m" "wi_faults (es_wire ?c) = []" "\<not> es_done ?c" using Cons.prems answer_faults by (simp_all add: RenewLease_def)
  with Cons.IH [of ?c ?m] Cons.prems have "fold (\<lambda>(t, f). reader_step t) tfs (?c, ?m) =
    (?c\<lparr>es_in := s, es_wire := fold answer (map snd tfs) (es_wire ?c)\<rparr>, ?m\<lparr>m_lastContact := last_ping tfs (m_lastContact ?m)\<rparr>)" by simp
  then show ?case using Cons.prems(4) by (simp add: tf 1 last_ping_def RenewLease_def)
qed (simp add: last_ping_def)

section \<open>Properties\<close>

text \<open>
  A client that pings keeps its router. While the router is wanted, every ping renews the lease at its time and is answered with its
  own payload, frames of other kinds renew nothing; so the lease is active as long as the last ping is not older
  than twenty seconds, and the manager is otherwise untouched.
\<close>

theorem status_stream_lease:
  assumes "\<forall>(t, f) \<in> set tfs. client_ok f \<and> fst f \<noteq> WebSocketOpClose" "wi_faults (es_wire c) = []" "\<not> es_done c" "m_desired m"
    and "es_in c = concat (map (\<lambda>(t, f). encode_frame f) tfs) @ s" "last_ping tfs (m_lastContact m) = Some t" "t \<le> now" "now - t \<le> 20 * second"
  shows "\<exists>c' m'. fold (\<lambda>(t, f). reader_step t) tfs (c, m) = (c', m') \<and> es_wire c' = fold answer (map snd tfs) (es_wire c) \<and> es_in c' = s \<and>
    leaseActiveLocked now m' \<and> m' = m\<lparr>m_lastContact := Some t\<rparr>"
  using reader_all [OF assms(1-5)] assms(6-8) by (simp add: leaseActiveLocked_def clientLease_def)

definition toy_stream :: status_stream where
  "toy_stream = fst (open_stream 0 (encode_frame (9, [1, 2, 3, 4], [7]) @ encode_frame (1, [1, 2, 3, 4], [8])) \<lparr>wi_sent = [], wi_faults = []\<rparr> (toy_manager []))"

theorem status_stream_lease_witness:
  "\<exists>c' m'. fold (\<lambda>(t, f). reader_step t) [(5, 9, [1, 2, 3, 4], [7]), (6, 1, [1, 2, 3, 4], [8])] (toy_stream, (toy_manager [])\<lparr>m_desired := True\<rparr>) = (c', m') \<and>
     leaseActiveLocked (5 + 20 * second) m'"
proof -
  let ?tfs = "[(5, 9, [1, 2, 3, 4], [7]), (6, 1, [1, 2, 3, 4], [8])] :: (int \<times> byte \<times> bytes \<times> bytes) list"
  have 1: "\<forall>(t, f) \<in> set ?tfs. client_ok f \<and> fst f \<noteq> WebSocketOpClose"
    by (simp add: client_ok_def webSocketMaxPayload_def WebSocketOpClose_def)
  have 2: "wi_faults (es_wire toy_stream) = []" "\<not> es_done toy_stream" "m_desired ((toy_manager [])\<lparr>m_desired := True\<rparr>)"
    "es_in toy_stream = concat (map (\<lambda>(t, f). encode_frame f) ?tfs) @ []" by (simp_all add: toy_stream_def open_stream_def)
  have 3: "last_ping ?tfs x = Some 5" for x by (simp add: last_ping_def WebSocketOpPing_def)
  from status_stream_lease [OF 1 2 3, of "5 + 20 * second"] show ?thesis by (auto simp: second_def)
qed

text \<open>The status is sent when it is new and only then, and a stream whose client is gone is closed.\<close>

theorem status_stream_news:
  assumes "sender_step marshal (c, m) = (c', m')" "\<not> es_closed c" "wi_faults (es_wire c) = []"
  shows "m' = m \<and> es_previous c' = marshal (Status m) \<and> es_closed c' = es_done c \<and>
    (wi_sent (es_wire c') = wi_sent (es_wire c)) = (marshal (Status m) = es_previous c)"
  using assms by (auto simp: sender_step_def Let_def write_good frame_header_def split: if_splits)

end
