(* ===== verification/Service_Run.thy ===== *)
theory Service_Run
  imports Service_Boot Auth_Request Dns_Lease Sysproxy_Lease Core_Desired Router_Api
begin

text \<open>
  The whole service (\<open>route/server.go\<close>, \<open>route/route.go\<close>, the routers of the APIs and \<open>route/serviceapi\<close>): all components in one
  state, how it starts and stops, the table of its routes, and what a request does. A request that reaches a
  handler has passed the middleware of the authentication.
\<close>

section \<open>Definitions\<close>

subsection \<open>The state\<close>

record ('k, 'w) service =
  sv_env :: "string \<rightharpoonup> string"
  sv_data :: "nat data_root"
  sv_boot :: "'k boot_state"
  sv_nonces :: nonce_store
  sv_proxy :: "'w sysproxy"
  sv_dns :: dns_manager
  sv_router :: manager
  sv_core :: core_api
  sv_control :: "string list"

text \<open>What the code depends on that is not in the repository, as one argument.\<close>

record ('k, 'w) platform =
  pf_U :: unicode
  pf_C :: "'k crypto"
  pf_L :: "'w sysproxy_lib"
  pf_proxyLen :: "managed_record \<Rightarrow> nat"
  pf_dnsLen :: "dns_lease \<Rightarrow> nat"

abbreviation sv_keys :: "('k, 'w) service \<Rightarrow> 'k key_manager" where "sv_keys s \<equiv> bo_keys (sv_boot s)"
abbreviation sv_net :: "('k, 'w) service \<Rightarrow> service_net" where "sv_net s \<equiv> bo_net (sv_boot s)"

definition set_net :: "service_net \<Rightarrow> ('k, 'w) service \<Rightarrow> ('k, 'w) service" where
  "set_net n s = s\<lparr>sv_boot := (sv_boot s)\<lparr>bo_net := n\<rparr>\<rparr>"

subsection \<open>Start and stop\<close>

text \<open>The listener of the platform, for whoever is bound.\<close>

definition start_function :: "('k, 'w) service \<Rightarrow> string \<Rightarrow> service_net \<Rightarrow> err option \<times> service_net" where
  "start_function s =
     (if sn_goos (sv_net s) = ''windows'' then StartPipe (sv_env s) (GetAuthorizedSID (sv_keys s)) else StartUnix (GetAuthorizedUID (sv_keys s)))"

definition service_recover :: "('k, 'w) platform \<Rightarrow> int \<Rightarrow> ('k, 'w) service \<Rightarrow> ('k, 'w) service" where
  "service_recover P now s =
     (let km = snd (InitKeyManager (pf_C P) (sv_keys s)) in
      s\<lparr>sv_boot := (sv_boot s)\<lparr>bo_keys := km\<rparr>,
        sv_proxy := snd (ConfigureManagedProxyRecovery (pf_L P) (pf_proxyLen P) ((sv_proxy s)\<lparr>sp_bound := GetAuthorizedUID km\<rparr>)),
        sv_dns := snd (Configure (pf_dnsLen P) now (sv_dns s))\<rparr>)"

text \<open>
  No error means that the service serves. The router is restored when its routes are built, which is when the
  listener is there.
\<close>

definition service_Start :: "('k, 'w) platform \<Rightarrow> int \<Rightarrow> string \<Rightarrow> ('k, 'w) service \<Rightarrow> err option \<times> ('k, 'w) service" where
  "service_Start P now addr s =
     (case DataDirectory (GetConfigDir (sn_goos (sv_net s)) (sv_env s)) (sv_data s) of
        (Inl e, d) \<Rightarrow> (Some (Wrapped ''prepare service data directory'' e), s\<lparr>sv_data := d\<rparr>)
      | (Inr dataDir, d) \<Rightarrow>
          (let s1 = service_recover P now (s\<lparr>sv_data := d\<rparr>) in
           case ConfigureDesiredCore dataDir (sv_core s1) of
             (Some e, a) \<Rightarrow> (Some (Wrapped ''recover desired core state'' e), s1\<lparr>sv_core := a\<rparr>)
           | (None, a) \<Rightarrow>
               (case startServer addr (start_function s1) (sv_net s1) of
                  (Some e, n) \<Rightarrow> (Some e, set_net n (s1\<lparr>sv_core := a\<rparr>))
                | (None, n) \<Rightarrow>
                    (None, set_net n (s1\<lparr>sv_core := a, sv_router := (if addr = [] then sv_router s1 else snd (Restore (pf_U P) now (sv_router s1)))\<rparr>)))))"

definition service_Stop :: "('k, 'w) platform \<Rightarrow> ('k, 'w) service \<Rightarrow> err option \<times> ('k, 'w) service" where
  "service_Stop P s =
     (case StopManagedProxy (pf_L P) (sv_proxy s) of (e1, p) \<Rightarrow>
      case Dns_Stop (pf_dnsLen P) (sv_dns s) of (e2, d) \<Rightarrow>
      case Close (sv_router s) of (e3, m) \<Rightarrow>
      case api_Stop (sv_core s) of (e4, a) \<Rightarrow>
      case closeServers (sv_net s) of (e5, n) \<Rightarrow>
        (errors_Join
           [map_option (Wrapped ''Failed to clean up system proxy settings'') e1, map_option (Wrapped ''Failed to clean up DNS settings'') e2,
            map_option (Wrapped ''Failed to stop process router'') e3, map_option (Wrapped ''Failed to stop core'') e4, e5],
         set_net n (s\<lparr>sv_proxy := p, sv_dns := d, sv_router := m, sv_core := a\<rparr>)))"

subsection \<open>Control of the service\<close>

datatype service_status = StatusRunning | StatusStoppedService | StatusUnknown

text \<open>The action that is done after the answer is put into \<open>sv_control\<close>.\<close>

definition controlServiceAsync :: "string \<Rightarrow> string \<Rightarrow> service_status res \<Rightarrow> ('k, 'w) service \<Rightarrow> response \<times> ('k, 'w) service" where
  "controlServiceAsync action message st s =
     (case st of
        Inl e \<Rightarrow> (SendError e, s)
      | Inr status \<Rightarrow>
          if action = ''stop'' \<and> status = StatusStoppedService then ((200, ''Service is stopped'', None), s)
          else if action = ''restart'' \<and> status = StatusStoppedService then (SendError (HTTPError 409 ''Service is not running''), s)
          else ((202, message, None), s\<lparr>sv_control := sv_control s @ [action]\<rparr>))"

subsection \<open>Routes\<close>

text \<open>
  The handlers that change state, with what they read of the request and of the system, and the routes that
  lead to them.
\<close>

datatype api =
    ApiServiceStop "service_status res" | ApiServiceRestart "service_status res"
  | ApiProxyStatus proxy_peer | ApiProxyPac nat proxy_peer "proxy_request option" | ApiProxySet proxy_peer "proxy_request option"
  | ApiProxyDisable proxy_peer "proxy_request option" | ApiProxyRenew | ApiProxyPrepare | ApiProxyAdopt proxy_peer "proxy_request option"
  | ApiDnsCreate "string list option" | ApiDnsRenew | ApiDnsDelete
  | ApiCoreProfile | ApiCoreSave "launch_profile body" "32 word option" | ApiCorePatch "launch_patch body" "32 word option"
  | ApiCoreStart "launch_profile body" "32 word option" | ApiCoreStop | ApiCoreRestart "launch_profile body" "32 word option"
  | ApiRouterStart | ApiRouterStop | ApiRouterRules "rules_request res" | ApiRouterStatus | ApiRouterRepair | ApiRouterCleanup

fun api_route :: "api \<Rightarrow> string \<times> string" where
  "api_route (ApiServiceStop _) = (''POST'', ''/service/stop'')"
| "api_route (ApiServiceRestart _) = (''POST'', ''/service/restart'')"
| "api_route (ApiProxyStatus _) = (''GET'', ''/sysproxy/status'')"
| "api_route (ApiProxyPac _ _ _) = (''POST'', ''/sysproxy/pac'')"
| "api_route (ApiProxySet _ _) = (''POST'', ''/sysproxy/proxy'')"
| "api_route (ApiProxyDisable _ _) = (''POST'', ''/sysproxy/disable'')"
| "api_route ApiProxyRenew = (''POST'', ''/sysproxy/renew'')"
| "api_route ApiProxyPrepare = (''POST'', ''/sysproxy/native/prepare'')"
| "api_route (ApiProxyAdopt _ _) = (''POST'', ''/sysproxy/native/adopt'')"
| "api_route (ApiDnsCreate _) = (''POST'', ''/network/dns/lease'')"
| "api_route ApiDnsRenew = (''POST'', ''/network/dns/renew'')"
| "api_route ApiDnsDelete = (''DELETE'', ''/network/dns/lease'')"
| "api_route ApiCoreProfile = (''GET'', ''/core/profile'')"
| "api_route (ApiCoreSave _ _) = (''POST'', ''/core/profile'')"
| "api_route (ApiCorePatch _ _) = (''PATCH'', ''/core/profile'')"
| "api_route (ApiCoreStart _ _) = (''POST'', ''/core/start'')"
| "api_route ApiCoreStop = (''POST'', ''/core/stop'')"
| "api_route (ApiCoreRestart _ _) = (''POST'', ''/core/restart'')"
| "api_route ApiRouterStart = (''POST'', ''/process-router/start'')"
| "api_route ApiRouterStop = (''POST'', ''/process-router/stop'')"
| "api_route (ApiRouterRules _) = (''PUT'', ''/process-router/rules'')"
| "api_route ApiRouterStatus = (''GET'', ''/process-router/status'')"
| "api_route ApiRouterRepair = (''POST'', ''/process-router/firewall/repair'')"
| "api_route ApiRouterCleanup = (''POST'', ''/process-router/cleanup'')"

fun run_api :: "('k, 'w) platform \<Rightarrow> int \<Rightarrow> api \<Rightarrow> ('k, 'w) service \<Rightarrow> ('k, 'w) service" where
  "run_api P now (ApiServiceStop st) s = snd (controlServiceAsync ''stop'' ''Service is stopping...'' st s)"
| "run_api P now (ApiServiceRestart st) s = snd (controlServiceAsync ''restart'' ''Service is restarting...'' st s)"
| "run_api P now (ApiProxyStatus r) s = s\<lparr>sv_proxy := snd (status_handler (pf_L P) r (sv_proxy s))\<rparr>"
| "run_api P now (ApiProxyPac port r b) s = s\<lparr>sv_proxy := snd (pac_handler (pf_L P) (pf_proxyLen P) now port r b (sv_proxy s))\<rparr>"
| "run_api P now (ApiProxySet r b) s = s\<lparr>sv_proxy := snd (proxy_handler (pf_L P) (pf_proxyLen P) now r b (sv_proxy s))\<rparr>"
| "run_api P now (ApiProxyDisable r b) s = s\<lparr>sv_proxy := snd (disable_handler (pf_L P) r b (sv_proxy s))\<rparr>"
| "run_api P now ApiProxyRenew s = s\<lparr>sv_proxy := snd (renew_handler now (sv_proxy s))\<rparr>"
| "run_api P now ApiProxyPrepare s = s\<lparr>sv_proxy := snd (prepareNativeProxy (sv_proxy s))\<rparr>"
| "run_api P now (ApiProxyAdopt r b) s = s\<lparr>sv_proxy := snd (adoptNativeProxy (pf_U P) (pf_L P) (pf_proxyLen P) now r b (sv_proxy s))\<rparr>"
| "run_api P now (ApiDnsCreate b) s = s\<lparr>sv_dns := snd (createLease (pf_dnsLen P) now b (sv_dns s))\<rparr>"
| "run_api P now ApiDnsRenew s = s\<lparr>sv_dns := snd (renewLease (pf_dnsLen P) now (sv_dns s))\<rparr>"
| "run_api P now ApiDnsDelete s = s\<lparr>sv_dns := snd (deleteLease (pf_dnsLen P) (sv_dns s))\<rparr>"
| "run_api P now ApiCoreProfile s = s\<lparr>sv_core := snd (coreProfile (pf_U P) (sv_core s))\<rparr>"
| "run_api P now (ApiCoreSave b g) s = s\<lparr>sv_core := snd (coreSaveProfile (pf_U P) b g (sv_core s))\<rparr>"
| "run_api P now (ApiCorePatch b g) s = s\<lparr>sv_core := snd (corePatchProfile (pf_U P) b g (sv_core s))\<rparr>"
| "run_api P now (ApiCoreStart b g) s = s\<lparr>sv_core := snd (begin_run (pf_U P) False b g (sv_core s))\<rparr>"
| "run_api P now ApiCoreStop s = s\<lparr>sv_core := snd (coreStop (sv_core s))\<rparr>"
| "run_api P now (ApiCoreRestart b g) s = s\<lparr>sv_core := snd (begin_run (pf_U P) True b g (sv_core s))\<rparr>"
| "run_api P now ApiRouterStart s = s\<lparr>sv_router := snd (start_request (pf_U P) now (sv_router s))\<rparr>"
| "run_api P now ApiRouterStop s = s\<lparr>sv_router := snd (stop_request (sv_router s))\<rparr>"
| "run_api P now (ApiRouterRules b) s = s\<lparr>sv_router := snd (replaceRules (pf_U P) now b (sv_router s))\<rparr>"
| "run_api P now ApiRouterStatus s = s\<lparr>sv_router := snd (status_request now (sv_router s))\<rparr>"
| "run_api P now ApiRouterRepair s = s\<lparr>sv_router := snd (repairFirewall_request now (sv_router s))\<rparr>"
| "run_api P now ApiRouterCleanup s = s\<lparr>sv_router := snd (cleanup_request (sv_router s))\<rparr>"

text \<open>A request that leads to a handler: the route is found, then the middleware decides.\<close>

definition serve :: "('k, 'w) platform \<Rightarrow> int \<Rightarrow> request \<Rightarrow> api \<Rightarrow> ('k, 'w) service \<Rightarrow> err option \<times> ('k, 'w) service" where
  "serve P now r call' s =
     (if (rq_Method r, rq_EscapedPath r) \<noteq> api_route call' then (Some (HTTPError 404 ''404 page not found''), s)
      else (case AuthMiddleware (pf_U P) (pf_C P) (sv_keys s) now r (sv_nonces s) of
          (Some e, ns) \<Rightarrow> (Some e, s\<lparr>sv_nonces := ns\<rparr>)
        | (None, ns) \<Rightarrow> (None, run_api P now call' (s\<lparr>sv_nonces := ns\<rparr>))))"

text \<open>
  Steps of the service: requests, the second parts of requests to the core, timers, watchers and goroutines of
  the components, and what users and the system do. A handover of the proxy whose record cannot be written while a
  lease is held is left out.
\<close>

inductive sv_step :: "('k, 'w) platform \<Rightarrow> ('k, 'w) service \<Rightarrow> ('k, 'w) service \<Rightarrow> bool" for P :: "('k, 'w) platform" where
  Request: "(\<And>r' b. call' = ApiProxyAdopt r' b \<Longrightarrow> sp_lease (sv_proxy s) = None \<or>
      fst (adoptNativeProxy (pf_U P) (pf_L P) (pf_proxyLen P) now r' b (sv_proxy s)) \<noteq> Some (Plain ''Unable to persist native proxy ownership'')) \<Longrightarrow>
    sv_step P s (snd (serve P now r call' s))"
| Core_rest: "0 < si_pid inp \<Longrightarrow> sv_step P s (s\<lparr>sv_core := finish (pf_U P) proc inp i (sv_core s)\<rparr>)"
| Core_background: "background (pf_U P) (sv_core s) a \<Longrightarrow> sv_step P s (s\<lparr>sv_core := a\<rparr>)"
| Dns_timer: "sv_step P s (s\<lparr>sv_dns := expire (pf_dnsLen P) now (sv_dns s)\<rparr>)"
| Dns_watch: "sv_step P s (s\<lparr>sv_dns := watch_tick (pf_dnsLen P) (sv_dns s)\<rparr>)"
| Dns_edit: "slice_ok v \<Longrightarrow> sv_step P s (s\<lparr>sv_dns := (sv_dns s)\<lparr>dm_dns := (dm_dns (sv_dns s))(n := v), dm_owed := (dm_owed (sv_dns s))(n := None)\<rparr>\<rparr>)"
| Dns_script: "sv_step P s (s\<lparr>sv_dns := (sv_dns s)\<lparr>dm_io := ios\<rparr>\<rparr>)"
| Proxy_retry: "sv_step P s (s\<lparr>sv_proxy := recovery_retry (pf_L P) (pf_proxyLen P) g (sv_proxy s)\<rparr>)"
| Proxy_timer: "sv_step P s (s\<lparr>sv_proxy := expireSysproxyLease (pf_L P) now g (sv_proxy s)\<rparr>)"
| Proxy_network: "sv_step P s (s\<lparr>sv_proxy := reconcileSysproxyLease (pf_L P) now g sig (sv_proxy s)\<rparr>)"
| Proxy_guard: "sv_step P s (s\<lparr>sv_proxy := guard_round (pf_L P) g watch (sv_proxy s)\<rparr>)"
| Proxy_edit: "sv_step P s (s\<lparr>sv_proxy := (sv_proxy s)\<lparr>sp_world := w, sp_io := ios, sp_bound := bound\<rparr>\<rparr>)"
| Router_tick: "sv_step P s (s\<lparr>sv_router := snd (Reconcile (pf_U P) now (sv_router s))\<rparr>)"
| Router_died: "m_process (sv_router s) = Some p \<Longrightarrow> sv_step P s (s\<lparr>sv_router := (sv_router s)\<lparr>m_process := Some (p\<lparr>nt_Alive := False\<rparr>)\<rparr>\<rparr>)"

text \<open>What is left of a service that crashes: the files, the settings of the system, and a core manager with nothing.\<close>

definition service_crash :: "core_manager \<Rightarrow> ('k, 'w) service \<Rightarrow> ('k, 'w) service" where
  "service_crash c s =
     s\<lparr>sv_data := (sv_data s)\<lparr>dr_io := []\<rparr>,
       sv_boot := \<lparr>bo_keys = GetKeyManager (km_keyRingFile (sv_keys s)) (km_legacyKeyFile (sv_keys s)) (km_principalFile (sv_keys s)) [],
                   bo_net = (sv_net s)\<lparr>sn_listeners := [], sn_unix := None, sn_pipe := None, sn_io := []\<rparr>\<rparr>,
       sv_nonces := requestNonceStore,
       sv_proxy := fresh_sysproxy (sp_GOOS (sv_proxy s)) None (sp_disk (sv_proxy s)) (sp_world (sv_proxy s)) [],
       sv_dns := crash [] (sv_dns s),
       sv_router := newManager (m_GOOS (sv_router s)) (m_GOARCH (sv_router s)) (m_bundle (sv_router s)) (m_configFile (sv_router s)) [] [] [],
       sv_core := new_api c (ap_disk (sv_core s)) [],
       sv_control := []\<rparr>"

section \<open>Lemmas\<close>

lemma set_net_fields [simp]:
  "sv_env (set_net n s) = sv_env s" "sv_data (set_net n s) = sv_data s" "sv_keys (set_net n s) = sv_keys s" "sv_net (set_net n s) = n"
  "sv_nonces (set_net n s) = sv_nonces s" "sv_proxy (set_net n s) = sv_proxy s" "sv_dns (set_net n s) = sv_dns s"
  "sv_router (set_net n s) = sv_router s" "sv_core (set_net n s) = sv_core s" "sv_control (set_net n s) = sv_control s"
  by (simp_all add: set_net_def)

text \<open>Which part of the state a handler changes.\<close>

lemma run_api_keeps [simp]:
  "sv_boot (run_api P now call' s) = sv_boot s" "sv_nonces (run_api P now call' s) = sv_nonces s" "sv_data (run_api P now call' s) = sv_data s"
  "sv_env (run_api P now call' s) = sv_env s"
  by (cases call'; simp add: controlServiceAsync_def split: sum.split)+

subsection \<open>Requests that are not admitted\<close>

lemma serve_refused:
  assumes "\<not> admitted (pf_U P) (pf_C P) (sv_keys s) now r"
  shows "fst (serve P now r call' s) \<noteq> None \<and> snd (serve P now r call' s) = s"
proof -
  have "snd (AuthMiddleware (pf_U P) (pf_C P) (sv_keys s) now r (sv_nonces s)) = sv_nonces s" "fst (AuthMiddleware (pf_U P) (pf_C P) (sv_keys s) now r (sv_nonces s)) \<noteq> None"
    using AuthMiddleware_refused [OF assms] by blast+
  then show ?thesis by (cases "AuthMiddleware (pf_U P) (pf_C P) (sv_keys s) now r (sv_nonces s)") (auto simp: serve_def)
qed

lemma serve_keeps_boot [simp]: "sv_boot (snd (serve P now r call' s)) = sv_boot s"
  by (simp add: serve_def case_prod_unfold split: option.split)

subsection \<open>The components under the service\<close>

definition sv_ok :: "('k, 'w) platform \<Rightarrow> (string \<Rightarrow> string) \<Rightarrow> ('k, 'w) service \<Rightarrow> bool" where
  "sv_ok P N s =
     (sp_reach (pf_U P) (pf_L P) (pf_proxyLen P) (sv_proxy s) \<and> dns_reach (pf_dnsLen P) N (sv_dns s) \<and>
      m_reach (pf_U P) (sv_router s) \<and> api_reach (pf_U P) (sv_core s))"

lemma status_reach: "sp_reach U L J s \<Longrightarrow> sp_reach U L J (snd (status_handler L r s))"
  using sp_reach.UserAction [where U = U and L = L and J = J and s = s and w = "sp_world s" and ios = "snd (next_io (sp_io s))" and bound = "sp_bound s"] by (simp add: status_handler_def sp_call_def case_prod_unfold)

lemma router_requests_reach:
  assumes "m_reach U m"
  shows "m_reach U (snd (start_request U now m))" "m_reach U (snd (stop_request m))" "m_reach U (snd (replaceRules U now b m))"
    "m_reach U (snd (status_request now m))" "m_reach U (snd (repairFirewall_request now m))" "m_reach U (snd (cleanup_request m))"
proof -
  note r = m_reach.enable [OF assms] m_reach.disable [OF assms] m_reach.rules [OF assms] m_reach.renew [OF assms] m_reach.repair [OF assms] m_reach.cleanup [OF assms]
  show "m_reach U (snd (start_request U now m))" using r(1) [of now] by (simp add: start_request_def case_prod_unfold split: option.split)
  show "m_reach U (snd (stop_request m))" using r(2) by (simp add: stop_request_def case_prod_unfold split: option.split)
  show "m_reach U (snd (replaceRules U now b m))" using r(3) [of now] assms by (simp add: replaceRules_def case_prod_unfold split: option.split sum.split)
  show "m_reach U (snd (status_request now m))" using r(4) by (simp add: status_request_def Let_def)
  show "m_reach U (snd (repairFirewall_request now m))" using r(5) [of now] by (simp add: repairFirewall_request_def case_prod_unfold split: option.split)
  show "m_reach U (snd (cleanup_request m))" using r(6) by (simp add: cleanup_request_def case_prod_unfold split: option.split)
qed

lemma run_api_ok:
  assumes "sv_ok P N s"
    and "\<And>r b. call' = ApiProxyAdopt r b \<Longrightarrow> sp_lease (sv_proxy s) = None \<or>
      fst (adoptNativeProxy (pf_U P) (pf_L P) (pf_proxyLen P) now r b (sv_proxy s)) \<noteq> Some (Plain ''Unable to persist native proxy ownership'')"
  shows "sv_ok P N (run_api P now call' s)"
  using assms by (cases call')
    (simp_all add: sv_ok_def controlServiceAsync_def status_reach router_requests_reach sp_reach.intros dns_reach.intros api_reach.intros split: sum.split)

lemma sv_step_ok:
  assumes "sv_step P s s'" "sv_ok P N s"
  shows "sv_ok P N s'"
  using assms
proof (induction rule: sv_step.induct)
  case (Request call' s now r)
  have n: "sv_ok P N (s\<lparr>sv_nonces := ns\<rparr>)" for ns using Request.prems by (simp add: sv_ok_def)
  then show ?case using run_api_ok [OF n, where call' = call' and now = now] Request.hyps Request.prems by (simp add: serve_def case_prod_unfold split: option.split)
qed (auto simp: sv_ok_def intro: sp_reach.intros dns_reach.intros m_reach.intros api_reach.intros)


lemma sv_run_ok: "(sv_step P)\<^sup>*\<^sup>* s s' \<Longrightarrow> sv_ok P N s \<Longrightarrow> sv_ok P N s'"
  by (induction rule: rtranclp_induct) (use sv_step_ok in blast)+

subsection \<open>Stopping\<close>

lemma release_none:
  assumes "fst (release J m) = None"
  shows "dm_lease (snd (release J m)) = None"
  using assms by (auto simp: release_def case_prod_unfold removeRecord_def stopTimers_def Let_def syncDirectory_def dm_call_def split: option.splits if_splits)

lemma dns_no_lease: "dns_inv J N m \<Longrightarrow> dm_lease m = None \<Longrightarrow> dm_owed m n = None"
  by (cases "dm_owed m n") (auto simp: dns_inv_def covers_def lease_entries_def)

lemma Close_stops: "m_process (snd (Close m)) = None" "m_monitoring (snd (Close m)) = False"
  by (simp_all add: Close_def stopProcessLocked_def removeFirewallLocked_def call_def case_prod_unfold Let_def split: option.split)

lemma StopManaged_lease: "sp_lease (snd (StopManagedProxy L s)) = None"
  by (simp add: StopManagedProxy_def Let_def case_prod_unfold forgetSysproxyLease_def clearSysproxyLease_def pac_close_def split: option.split)


lemma service_Stop_fields:
  "sv_proxy (snd (service_Stop P s)) = snd (StopManagedProxy (pf_L P) (sv_proxy s))" "sv_dns (snd (service_Stop P s)) = snd (Dns_Stop (pf_dnsLen P) (sv_dns s))"
  "sv_router (snd (service_Stop P s)) = snd (Close (sv_router s))" "sv_core (snd (service_Stop P s)) = snd (api_Stop (sv_core s))"
  "sv_net (snd (service_Stop P s)) = snd (closeServers (sv_net s))"
  by (simp_all add: service_Stop_def case_prod_unfold)

lemma service_Stop_error:
  "fst (service_Stop P s) = None \<longleftrightarrow>
     fst (StopManagedProxy (pf_L P) (sv_proxy s)) = None \<and> fst (Dns_Stop (pf_dnsLen P) (sv_dns s)) = None \<and> fst (Close (sv_router s)) = None \<and>
     fst (api_Stop (sv_core s)) = None \<and> fst (closeServers (sv_net s)) = None"
  by (simp add: service_Stop_def case_prod_unfold errors_Join_None_iff)

lemma Dns_Stop_done:
  assumes "inj N" "dns_reach J N m" "fst (Dns_Stop J m) = None"
  shows "dm_lease (snd (Dns_Stop J m)) = None \<and> (\<forall>n. dm_owed (snd (Dns_Stop J m)) n = None)"
proof -
  have l: "dm_lease (snd (Dns_Stop J m)) = None" using assms(3) release_none [of J "stopTimers m"] by (simp add: Dns_Stop_def)
  have "dns_inv J N (snd (Dns_Stop J m))" using dns_reach.stop [OF assms(2)] by (rule dns_reach_inv [OF assms(1)])
  with l show ?thesis using dns_no_lease by blast
qed

lemma api_Stop_off: "api_reach U a \<Longrightarrow> core_off (ap_core (snd (api_Stop a))) \<and> ap_stop (snd (api_Stop a)) = None"
  using stop_off [OF core_reach_inv [OF api_core_reach]] by (simp add: api_Stop_def case_prod_unfold stopWatching_def)

subsection \<open>Starting again\<close>

lemma startServer_good:
  assumes "sn_io n = []" "sn_listeners n = []" "sn_unix n = None" "sn_pipe n = None" "addr \<noteq> []" "sn_goos n \<noteq> ''windows''"
  shows "fst (startServer addr (StartUnix bound) n) = None \<and>
    (\<exists>f l. sn_files (snd (startServer addr (StartUnix bound) n)) addr = Some f \<and> sn_listeners (snd (startServer addr (StartUnix bound) n)) = [l] \<and> li_addr l = addr \<and>
      sf_mode f = (if bound = None \<and> sn_goos n = ''darwin'' then open_mode else private_mode) \<and> sf_owner f = (case bound of None \<Rightarrow> 0 | Some u \<Rightarrow> u))"
proof -
  have c: "closeServers n = (None, n)"
    using assms by (simp add: closeServers_def opt_list_def errors_Join_def map_filter_simps)
  define n1 where "n1 = (if path_Dir addr \<in> set (sn_dirs n) then n else n\<lparr>sn_dirs := path_Dir addr # sn_dirs n\<rparr>)"
  define n2 where "n2 = n1\<lparr>sn_files := (sn_files n1)(addr := None)\<rparr>"
  have "ensureDirExists (path_Dir addr) n = (None, n1)" using assms(1) by (simp add: ensureDirExists_def net_call_eq n1_def)
  moreover have "unlink_socket addr n1 = (None, n2)" using assms(1) by (simp add: unlink_socket_def net_call_eq n1_def n2_def)
  ultimately have s: "startServer addr (StartUnix bound) n = StartUnix bound addr n2" using assms by (simp add: startServer_def c)
  have n2: "sn_io n2 = []" "sn_files n2 addr = None" "sn_listeners n2 = []" "sn_goos n2 = sn_goos n" using assms by (simp_all add: n2_def n1_def)
  then have ok: "fst (StartUnix bound addr n2) = None"
    by (simp add: StartUnix_def net_Listen_def net_call_eq socket_permissions_def os_Chown_def os_Chmod_def split: option.split)
  from StartUnix_ok [OF ok] n2 show ?thesis unfolding s ok by auto
qed

lemma DataDirectory_good: "dr_io d = [] \<Longrightarrow> \<exists>p d'. DataDirectory root d = (Inr p, d')"
  by (simp add: DataDirectory_def dr_call_eq Let_def)

lemma ConfigureDesired_good:
  assumes "case disk of Absent \<Rightarrow> True | Garbage \<Rightarrow> False | Stored st \<Rightarrow> ds_Version st = 1"
  shows "fst (ConfigureDesiredCore dir (new_api c disk [])) = None \<and> ap_core (snd (ConfigureDesiredCore dir (new_api c disk []))) = c \<and>
    ap_running (snd (ConfigureDesiredCore dir (new_api c disk []))) = (case disk of Stored st \<Rightarrow> ds_Running st | _ \<Rightarrow> False) \<and>
    ap_boot (snd (ConfigureDesiredCore dir (new_api c disk []))) = (case disk of Stored st \<Rightarrow> if ds_Running st then 1 else 0 | _ \<Rightarrow> 0)"
  using assms by (cases disk) (simp_all add: ConfigureDesiredCore_def desired_load_def new_api_def stopWatching_def api_call_def Let_def)

text \<open>Whom the keys on the disk bind.\<close>

definition bound_after :: "('k, 'w) platform \<Rightarrow> ('k, 'w) service \<Rightarrow> 32 word option" where
  "bound_after P s = GetAuthorizedUID (snd (InitKeyManager (pf_C P) (GetKeyManager (km_keyRingFile (sv_keys s)) (km_legacyKeyFile (sv_keys s)) (km_principalFile (sv_keys s)) [])))"

lemma service_restart:
  assumes "addr \<noteq> []" "sn_goos (sv_net s) \<noteq> ''windows''"
    and "case ap_disk (sv_core s) of Absent \<Rightarrow> True | Garbage \<Rightarrow> False | Stored st \<Rightarrow> ds_Version st = 1"
  shows "let r = service_Start P now addr (service_crash c s) in
    fst r = None \<and> sv_dns (snd r) = snd (Configure (pf_dnsLen P) now (crash [] (sv_dns s))) \<and>
    sv_proxy (snd r) = sysproxy_start (pf_L P) (pf_proxyLen P) (sp_GOOS (sv_proxy s)) (bound_after P s) (sp_disk (sv_proxy s)) (sp_world (sv_proxy s)) [] \<and>
    ap_core (sv_core (snd r)) = c \<and> ap_running (sv_core (snd r)) = (case ap_disk (sv_core s) of Stored st \<Rightarrow> ds_Running st | _ \<Rightarrow> False) \<and>
    ap_boot (sv_core (snd r)) = (case ap_disk (sv_core s) of Stored st \<Rightarrow> if ds_Running st then 1 else 0 | _ \<Rightarrow> 0) \<and>
    (\<exists>f l. sn_files (sv_net (snd r)) addr = Some f \<and> sn_listeners (sv_net (snd r)) = [l] \<and> li_addr l = addr \<and>
      sf_mode f = (if bound_after P s = None \<and> sn_goos (sv_net s) = ''darwin'' then open_mode else private_mode) \<and>
      sf_owner f = (case bound_after P s of None \<Rightarrow> 0 | Some u \<Rightarrow> u))"
proof -
  let ?s = "service_crash c s"
  obtain p d where d: "DataDirectory (GetConfigDir (sn_goos (sv_net ?s)) (sv_env ?s)) (sv_data ?s) = (Inr p, d)"
    using DataDirectory_good [of "sv_data ?s" "GetConfigDir (sn_goos (sv_net ?s)) (sv_env ?s)"] by (auto simp: service_crash_def)
  let ?s1 = "service_recover P now (?s\<lparr>sv_data := d\<rparr>)"
  have keys: "sv_keys ?s1 = snd (InitKeyManager (pf_C P) (GetKeyManager (km_keyRingFile (sv_keys s)) (km_legacyKeyFile (sv_keys s)) (km_principalFile (sv_keys s)) []))" by (simp add: service_recover_def service_crash_def Let_def)
  have proxy: "sv_proxy ?s1 = sysproxy_start (pf_L P) (pf_proxyLen P) (sp_GOOS (sv_proxy s)) (bound_after P s) (sp_disk (sv_proxy s)) (sp_world (sv_proxy s)) []"
    using keys by (simp add: service_recover_def service_crash_def Let_def sysproxy_start_def fresh_sysproxy_def bound_after_def)
  have dns: "sv_dns ?s1 = snd (Configure (pf_dnsLen P) now (crash [] (sv_dns s)))" by (simp add: service_recover_def service_crash_def Let_def)
  have core: "sv_core ?s1 = new_api c (ap_disk (sv_core s)) []" by (simp add: service_recover_def service_crash_def Let_def)
  have net: "sn_io (sv_net ?s1) = []" "sn_listeners (sv_net ?s1) = []" "sn_unix (sv_net ?s1) = None" "sn_pipe (sv_net ?s1) = None" "sn_goos (sv_net ?s1) = sn_goos (sv_net s)"
    by (simp_all add: service_recover_def service_crash_def Let_def)
  have f: "start_function ?s1 = StartUnix (bound_after P s)" using net(5) assms(2) keys by (simp add: start_function_def bound_after_def)
  obtain a where a: "ConfigureDesiredCore p (sv_core ?s1) = (None, a)" using ConfigureDesired_good [OF assms(3), of p c] core
    by (cases "ConfigureDesiredCore p (sv_core ?s1)") simp
  obtain n where n: "startServer addr (StartUnix (bound_after P s)) (sv_net ?s1) = (None, n)"
    using startServer_good [OF net(1-4) assms(1), of "bound_after P s"] net(5) assms(2) by (cases "startServer addr (StartUnix (bound_after P s)) (sv_net ?s1)") simp
  have start: "service_Start P now addr ?s = (None, set_net n (?s1\<lparr>sv_core := a, sv_router := snd (Restore (pf_U P) now (sv_router ?s1))\<rparr>))"
    unfolding service_Start_def d using a n f assms(1) by (simp add: Let_def)
  show ?thesis
    unfolding start Let_def
    using proxy dns ConfigureDesired_good [OF assms(3), of p c] a core startServer_good [OF net(1-4) assms(1), of "bound_after P s"] n net(5) assms(2)
    by simp
qed


text \<open>No request changes who is paired.\<close>

lemma sv_step_boot: "sv_step P s s' \<Longrightarrow> sv_boot s' = sv_boot s"
  by (induction rule: sv_step.induct) simp_all

lemma sv_run_boot: "(sv_step P)\<^sup>*\<^sup>* s s' \<Longrightarrow> sv_boot s' = sv_boot s"
  by (induction rule: rtranclp_induct) (simp_all add: sv_step_boot)

lemma dns_covered:
  assumes "inj N" "dns_reach J N m" "dm_owed m n = Some original"
  shows "\<exists>r e. dm_disk m = Stored r \<and> e \<in> set (dl_Entries r) \<and> ds_Name (de_Service e) = n \<and> de_Original e = original"
proof -
  from crash_covers [OF dns_reach_inv [OF assms(1,2)]] assms(3) obtain e
    where "e \<in> disk_entries (dm_disk m)" "pays e n original m" by (auto simp: covers_def)
  then show ?thesis by (cases "dm_disk m") (auto simp: pays_def)
qed

lemma sysproxy_restart_good:
  assumes "sp_reach U L J s" "sp_lease s = Some l" "record_of (sp_GOOS s) l = Some r"
    and "validateManagedProxyRecoveryOptions (sp_GOOS s) bound (mr_Options r) = None"
  shows "sp_disk (sysproxy_start L J (sp_GOOS s) bound (sp_disk s) w []) = Absent \<and>
    sp_world (sysproxy_start L J (sp_GOOS s) bound (sp_disk s) w []) = (if record_matches L w r then lib_Disable L (sysproxyOptions (mr_Options r)) w else w)"
proof -
  have "recorded J s" using reach_inv [OF assms(1)] by (simp add: sp_inv_def)
  then show ?thesis using assms(2-4) record_of_fields [OF assms(3)] by (intro start_good) (auto simp: recorded_def)
qed

section \<open>A small example\<close>

definition toy_platform :: "(string, proxy_config) platform" where
  "toy_platform = \<lparr>pf_U = ascii_only, pf_C = toy_crypto, pf_L = toy_lib, pf_proxyLen = (\<lambda>_. 0), pf_dnsLen = (\<lambda>_. 0)\<rparr>"

text \<open>An unpaired macOS service with a proxy and DNS servers set and a core that should run.\<close>

definition toy_service_state :: "(string, proxy_config) service" where
  "toy_service_state =
     \<lparr>sv_env = Map.empty, sv_data = \<lparr>dr_tree = Map.empty, dr_io = []\<rparr>, sv_boot = toy_listening, sv_nonces = requestNonceStore,
      sv_proxy = snd toy_proxied, sv_dns = toy_leased, sv_router = toy_manager [], sv_core = toy_api toy_wish, sv_control = []\<rparr>"

lemma toy_service_ok: "sv_ok toy_platform id toy_service_state"
  using toy_proxy_reach toy_reach toy_manager_reach toy_api_reach by (simp add: sv_ok_def toy_platform_def toy_service_state_def)

definition toy_http :: request where
  "toy_http = \<lparr>rq_Header = (\<lambda>_. []), rq_Method = ''POST'', rq_EscapedPath = ''/core/stop'', rq_RawQuery = [], rq_Body = Inr None, rq_principal = Inr None\<rparr>"

lemma toy_http_refused: "\<not> admitted (pf_U toy_platform) (pf_C toy_platform) (sv_keys toy_service_state) now toy_http"
  by (simp add: admitted_def toy_service_state_def toy_listening_keys GetKeyManager_def IsInitialized_def)

lemma toy_wish_kept: "ap_disk (toy_api disk) = disk"
  by (cases disk) (simp_all add: toy_api_def ConfigureDesiredCore_def desired_load_def new_api_def stopWatching_def api_call_def Let_def)

end
