(* ===== verification/Service_Command.thy ===== *)
theory Service_Command
  imports Service_Staging Service_Run
begin

text \<open>
  The commands that manage the service (\<open>cmd/cmd_service.go\<close>, \<open>service/\<close>, the registration in
  \<open>cmd/service_install_windows.go\<close>): how its state is queried and controlled on each platform, how a registration is
  replaced, and how \<open>service init\<close> changes the keys of a service that may be running. The service manager of the
  platform is an argument; what is documented of it is a hypothesis of the theorems that use it.
\<close>

section \<open>Definitions\<close>

subsection \<open>The state of the service, as each platform tells it\<close>

datatype kstatus = KRunning | KStopped | KUnknown

fun errors_Is :: "err \<Rightarrow> err \<Rightarrow> bool" where
  "errors_Is (Wrapped m e) target \<longleftrightarrow> Wrapped m e = target \<or> errors_Is e target"
| "errors_Is (Joined es) target \<longleftrightarrow> Joined es = target \<or> list_ex (\<lambda>e. errors_Is e target) es"
| "errors_Is e target \<longleftrightarrow> e = target"

text \<open>\<open>ni\<close> is \<open>kservice.ErrNotInstalled\<close>. The output of \<open>launchctl\<close> comes with the error of a non-zero exit.\<close>

definition parseLaunchctlPrint :: "unicode \<Rightarrow> err \<Rightarrow> string \<Rightarrow> err option \<Rightarrow> kstatus res" where
  "parseLaunchctlPrint u ni output e =
     (case e of
        None \<Rightarrow>
          if strings_Contains output ''state = running'' \<or> strings_Contains output ([CHR 0x0A, CHR 0x09] @ ''pid = '') then Inr KRunning
          else Inr KStopped
      | Some e \<Rightarrow>
          (let lower = strings_ToLower u (output @ '' '' @ err_text e) in
           if strings_Contains lower ''could not find service'' \<or> strings_Contains lower ''service not found'' then Inl ni
           else Inl e))"

text \<open>The run of a command: its output, and whether it could not be run or exited with an error.\<close>

datatype command_end = ExitOk | ExitError err | NotRun err

definition queryServiceStatus_darwin :: "unicode \<Rightarrow> err \<Rightarrow> string \<times> command_end \<Rightarrow> kstatus res" where
  "queryServiceStatus_darwin u ni run =
     (case run of
        (output, NotRun e) \<Rightarrow> Inl e
      | (output, ExitError e) \<Rightarrow> parseLaunchctlPrint u ni output (Some e)
      | (output, ExitOk) \<Rightarrow> parseLaunchctlPrint u ni output None)"

definition runLaunchctl :: "string \<Rightarrow> string \<times> command_end \<Rightarrow> err option" where
  "runLaunchctl argument run =
     (case run of
        (output, ExitOk) \<Rightarrow> None
      | (output, ExitError e) \<Rightarrow> Some (Wrapped (''launchctl '' @ argument @ '' failed: '' @ output) e)
      | (output, NotRun e) \<Rightarrow> Some (Wrapped (''launchctl '' @ argument @ '' failed: '' @ output) e))"

text \<open>
  On Windows the service control manager is asked with rights to query only. \<open>sq_open\<close> is \<open>Inl True\<close> when the service
  does not exist. The result names the handles that were opened and the ones that were closed.
\<close>

datatype scm_handle = ManagerHandle | ServiceHandle

record scm_query =
  sq_manager :: bool
  sq_name :: bool
  sq_open :: "bool option"
  sq_state :: "32 word option"

definition windows_state :: "32 word \<Rightarrow> kstatus" where
  "windows_state s =
     (if s = 2 \<or> s = 4 then KRunning
      else if s = 6 \<or> s = 7 \<or> s = 5 \<or> s = 3 \<or> s = 1 then KStopped
      else KUnknown)"

definition queryServiceStatus_windows :: "err \<Rightarrow> scm_query \<Rightarrow> kstatus res \<times> scm_handle list \<times> scm_handle list" where
  "queryServiceStatus_windows ni q =
     (if \<not> sq_manager q then (Inl SysErr, [], [])
      else if \<not> sq_name q then (Inl SysErr, [ManagerHandle], [ManagerHandle])
      else (case sq_open q of
          Some missing \<Rightarrow> (Inl (if missing then ni else SysErr), [ManagerHandle], [ManagerHandle])
        | None \<Rightarrow>
            (case sq_state q of
               None \<Rightarrow> (Inl SysErr, [ManagerHandle, ServiceHandle], [ServiceHandle, ManagerHandle])
             | Some s \<Rightarrow> (Inr (windows_state s), [ManagerHandle, ServiceHandle], [ServiceHandle, ManagerHandle]))))"

definition Controller_Status :: "kstatus res \<Rightarrow> service_status res" where
  "Controller_Status r =
     (case r of
        Inl e \<Rightarrow> Inl (Wrapped ''Failed to query service status'' e)
      | Inr KRunning \<Rightarrow> Inr StatusRunning
      | Inr KStopped \<Rightarrow> Inr StatusStoppedService
      | Inr KUnknown \<Rightarrow> Inr StatusUnknown)"

subsection \<open>What the commands report\<close>

record service_command_status =
  cs_Action :: string
  cs_State :: string
  cs_Success :: bool
  cs_Changed :: bool
  cs_Error :: string

definition serviceErrorState :: "unicode \<Rightarrow> err \<Rightarrow> err \<Rightarrow> string" where
  "serviceErrorState u ni e =
     (if errors_Is e ni \<or> strings_Contains (strings_ToLower u (err_text e)) ''service is not installed'' then ''not-installed'' else [])"

definition command_result :: "string \<Rightarrow> string \<Rightarrow> bool \<Rightarrow> service_command_status" where
  "command_result action state changed = \<lparr>cs_Action = action, cs_State = state, cs_Success = True, cs_Changed = changed, cs_Error = []\<rparr>"

definition command_error :: "unicode \<Rightarrow> err \<Rightarrow> string \<Rightarrow> err \<Rightarrow> service_command_status" where
  "command_error u ni action e =
     \<lparr>cs_Action = action, cs_State = serviceErrorState u ni e, cs_Success = False, cs_Changed = False, cs_Error = err_text e\<rparr>"

definition status_string :: "service_status \<Rightarrow> string" where
  "status_string s = (case s of StatusRunning \<Rightarrow> ''running'' | StatusStoppedService \<Rightarrow> ''stopped'' | StatusUnknown \<Rightarrow> ''unknown'')"

definition serviceStatusMessage :: "string \<Rightarrow> string" where
  "serviceStatusMessage state =
     (if state = ''running'' then ''Service status: running''
      else if state = ''stopped'' then ''Service status: stopped''
      else ''Service status: unknown'')"

subsection \<open>Registration on Windows\<close>

text \<open>
  The calls to the service manager, with their answers in the order in which they are made. What it answers to a call,
  and how long it takes, may depend on everything that happened before: that is \<open>env\<close>.
\<close>

datatype sm_call = CStatus | CStop | CUninstall | CInstall string | CStart | CFirewall
datatype sm_answer = AnsOk | AnsState kstatus | AnsErr err

type_synonym sm_trace = "(sm_call \<times> sm_answer) list"
type_synonym sm_env = "sm_trace \<Rightarrow> sm_call \<Rightarrow> sm_answer \<times> nat"

record sm_world =
  sw_trace :: sm_trace
  sw_now :: int

definition sm_do :: "sm_env \<Rightarrow> sm_call \<Rightarrow> sm_world \<Rightarrow> sm_answer \<times> sm_world" where
  "sm_do env c w =
     (case env (sw_trace w) c of (a, d) \<Rightarrow> (a, \<lparr>sw_trace = sw_trace w @ [(c, a)], sw_now = sw_now w + int d\<rparr>))"

definition status_of :: "sm_answer \<Rightarrow> kstatus res" where
  "status_of a = (case a of AnsState s \<Rightarrow> Inr s | AnsOk \<Rightarrow> Inr KUnknown | AnsErr e \<Rightarrow> Inl e)"

definition error_of :: "sm_answer \<Rightarrow> err option" where
  "error_of a = (case a of AnsErr e \<Rightarrow> Some e | _ \<Rightarrow> None)"

definition sleep_250ms :: "sm_world \<Rightarrow> sm_world" where
  "sleep_250ms w = w\<lparr>sw_now := sw_now w + 250000000\<rparr>"

lemma sm_do_now: "sm_do env c w = (a, w') \<Longrightarrow> sw_now w \<le> sw_now w' \<and> sw_trace w' = sw_trace w @ [(c, a)]"
  by (auto simp: sm_do_def split: prod.splits)

function waitForServiceStatus :: "sm_env \<Rightarrow> err \<Rightarrow> kstatus \<Rightarrow> int \<Rightarrow> sm_world \<Rightarrow> err option \<times> sm_world" where
  "waitForServiceStatus env ni expected deadline w =
     (if sw_now w < deadline then
        (case sm_do env CStatus w of (a, w1) \<Rightarrow>
          (case status_of a of
             Inr s \<Rightarrow> if s = expected then (None, w1) else waitForServiceStatus env ni expected deadline (sleep_250ms w1)
           | Inl e \<Rightarrow>
               if \<not> errors_Is e ni then (Some (Wrapped ''query service while waiting for state change'' e), w1)
               else waitForServiceStatus env ni expected deadline (sleep_250ms w1)))
      else (Some (Plain ''timed out waiting for service state''), w))"
  by pat_completeness auto
termination
  by (relation "measure (\<lambda>(env, ni, expected, deadline, w). nat (deadline - sw_now w))")
    (auto simp: sleep_250ms_def dest!: sm_do_now [OF sym])

function waitForServiceRemoval :: "sm_env \<Rightarrow> err \<Rightarrow> int \<Rightarrow> sm_world \<Rightarrow> err option \<times> sm_world" where
  "waitForServiceRemoval env ni deadline w =
     (if sw_now w < deadline then
        (case sm_do env CStatus w of (a, w1) \<Rightarrow>
          (case status_of a of
             Inl e \<Rightarrow> if errors_Is e ni then (None, w1) else (Some (Wrapped ''query service while waiting for removal'' e), w1)
           | Inr s \<Rightarrow> waitForServiceRemoval env ni deadline (sleep_250ms w1)))
      else (Some (Plain ''timed out waiting for service removal''), w))"
  by pat_completeness auto
termination
  by (relation "measure (\<lambda>(env, ni, deadline, w). nat (deadline - sw_now w))")
    (auto simp: sleep_250ms_def dest!: sm_do_now [OF sym])

declare waitForServiceStatus.simps [simp del] waitForServiceRemoval.simps [simp del]

definition twenty_seconds :: int where "twenty_seconds = 20 * second"

text \<open>\<open>installServiceRegistration\<close>; \<open>exe\<close> is the executable of the configuration that \<open>s.Install\<close> registers.\<close>

definition installServiceRegistration :: "sm_env \<Rightarrow> err \<Rightarrow> string \<Rightarrow> sm_world \<Rightarrow> err option \<times> sm_world" where
  "installServiceRegistration env ni exe w =
     (case sm_do env CStatus w of (a, w1) \<Rightarrow>
       (case status_of a of
          Inl e \<Rightarrow>
            if errors_Is e ni then (case sm_do env (CInstall exe) w1 of (b, w2) \<Rightarrow> (error_of b, w2))
            else (Some (Wrapped ''query existing service'' e), w1)
        | Inr status \<Rightarrow>
            (case (if status = KStopped then (None, w1)
                   else (case sm_do env CStop w1 of (b, w2) \<Rightarrow>
                     (case error_of b of
                        Some e \<Rightarrow> (Some (Wrapped ''stop existing service'' e), w2)
                      | None \<Rightarrow> waitForServiceStatus env ni KStopped (sw_now w2 + twenty_seconds) w2))) of
               (Some e, w3) \<Rightarrow> (Some e, w3)
             | (None, w3) \<Rightarrow>
                 (case sm_do env CUninstall w3 of (c, w4) \<Rightarrow>
                    (case error_of c of
                       Some e \<Rightarrow> (Some (Wrapped ''remove existing service registration'' e), w4)
                     | None \<Rightarrow>
                         (case waitForServiceRemoval env ni (sw_now w4 + twenty_seconds) w4 of
                            (Some e, w5) \<Rightarrow> (Some e, w5)
                          | (None, w5) \<Rightarrow>
                              (case sm_do env (CInstall exe) w5 of (d, w6) \<Rightarrow>
                                 (map_option (Wrapped ''register protected service executable'') (error_of d), w6))))))))"

text \<open>
  The commands \<open>install\<close> on Windows and \<open>uninstall\<close>. \<open>executable\<close> is the answer of \<open>os.Executable\<close>, \<open>created\<close> that of
  \<open>kservice.New\<close>; the answer to \<open>CFirewall\<close> is that of \<open>RemoveFirewallRules\<close>.
\<close>

definition serviceInstallCmd_windows ::
  "(string \<Rightarrow> string) \<Rightarrow> (string \<Rightarrow> integrity_manifest store) \<Rightarrow> string option \<Rightarrow> (nat \<Rightarrow> install_source) \<Rightarrow> runtime_dir option \<Rightarrow>
   sm_env \<Rightarrow> err \<Rightarrow> bool \<Rightarrow> err option \<Rightarrow> runtime_root \<times> sm_world \<Rightarrow> err option \<times> runtime_root \<times> sm_world" where
  "serviceInstallCmd_windows sha decode pf src rival env ni executable created st =
     (case st of (rr, w) \<Rightarrow>
      if \<not> executable then (Some SysErr, rr, w)
      else (case prepareServiceInstallExecutable sha decode pf src rival rr of
          (Inl e, rr1) \<Rightarrow> (Some e, rr1, w)
        | (Inr exe, rr1) \<Rightarrow>
            if created \<noteq> None then (created, rr1, w)
            else (case installServiceRegistration env ni exe w of
                (Some e, w1) \<Rightarrow> (Some e, rr1, w1)
              | (None, w1) \<Rightarrow> (case sm_do env CStart w1 of (a, w2) \<Rightarrow> (error_of a, rr1, w2)))))"

definition serviceUninstallCmd :: "sm_env \<Rightarrow> err option \<Rightarrow> sm_world \<Rightarrow> err option \<times> sm_world" where
  "serviceUninstallCmd env created w =
     (if created \<noteq> None then (created, w)
      else (case sm_do env CStop w of (a, w1) \<Rightarrow>
        if error_of a \<noteq> None then (error_of a, w1)
        else (case sm_do env CFirewall w1 of (b, w2) \<Rightarrow>
          if error_of b \<noteq> None then (error_of b, w2)
          else (case sm_do env CUninstall w2 of (c, w3) \<Rightarrow> (error_of c, w3)))))"

subsection \<open>Initialisation\<close>

text \<open>
  The files of the keys, and the running service, if there is one, with the keys it has in memory. The commands of the
  controller work on this state.
\<close>

record 'k host =
  ho_ring :: "key_ring store"
  ho_legacy :: "string option"
  ho_prin :: "authorized_principal store"
  ho_io :: "io list"
  ho_service :: "'k key_manager option"

text \<open>The service manager of the platform, and the controllers that are built on it.\<close>

record 'k service_manager =
  ks_New :: "'k host \<Rightarrow> err option"
  ks_Status :: "'k host \<Rightarrow> kstatus res"
  ks_Start :: "'k host \<Rightarrow> err option \<times> 'k host"
  ks_Stop :: "'k host \<Rightarrow> err option \<times> 'k host"
  ks_Restart :: "'k host \<Rightarrow> err option \<times> 'k host"

record 'k controller =
  ct_Status :: "'k host \<Rightarrow> service_status res"
  ct_Start :: "'k host \<Rightarrow> err option \<times> 'k host"
  ct_Stop :: "'k host \<Rightarrow> err option \<times> 'k host"
  ct_Restart :: "'k host \<Rightarrow> err option \<times> 'k host"

definition newControlService :: "'k service_manager \<Rightarrow> 'k host \<Rightarrow> err option" where
  "newControlService K h = map_option (Wrapped ''Failed to create service'') (ks_New K h)"

definition with_service :: "'k service_manager \<Rightarrow> ('k host \<Rightarrow> err option \<times> 'k host) \<Rightarrow> 'k host \<Rightarrow> err option \<times> 'k host" where
  "with_service K act h = (case newControlService K h of Some e \<Rightarrow> (Some e, h) | None \<Rightarrow> act h)"

definition queryServiceStatus_other :: "'k service_manager \<Rightarrow> 'k host \<Rightarrow> kstatus res" where
  "queryServiceStatus_other K h = (case newControlService K h of Some e \<Rightarrow> Inl e | None \<Rightarrow> ks_Status K h)"

definition controller_other :: "'k service_manager \<Rightarrow> 'k controller" where
  "controller_other K =
     \<lparr>ct_Status = (\<lambda>h. Controller_Status (queryServiceStatus_other K h)), ct_Start = with_service K (ks_Start K),
      ct_Stop = with_service K (ks_Stop K), ct_Restart = with_service K (ks_Restart K)\<rparr>"

text \<open>\<open>launchctl\<close> with its arguments.\<close>

type_synonym 'k launchctl = "string list \<Rightarrow> 'k host \<Rightarrow> (string \<times> command_end) \<times> 'k host"

definition launchctlServiceTarget :: string where "launchctlServiceTarget = ''system/KokoroBoxService''"

definition launchctl_run :: "'k launchctl \<Rightarrow> string list \<Rightarrow> 'k host \<Rightarrow> err option \<times> 'k host" where
  "launchctl_run L arguments h = (case L arguments h of (run, h') \<Rightarrow> (runLaunchctl (hd arguments) run, h'))"

definition controller_darwin :: "unicode \<Rightarrow> err \<Rightarrow> 'k launchctl \<Rightarrow> 'k controller" where
  "controller_darwin u ni L =
     \<lparr>ct_Status = (\<lambda>h. Controller_Status (queryServiceStatus_darwin u ni (fst (L [''print'', launchctlServiceTarget] h)))),
      ct_Start = launchctl_run L [''kickstart'', launchctlServiceTarget],
      ct_Stop = launchctl_run L [''kill'', ''SIGTERM'', launchctlServiceTarget],
      ct_Restart = launchctl_run L [''kickstart'', ''-k'', launchctlServiceTarget]\<rparr>"

datatype init_transition = serviceInitNoAction | serviceInitStart | serviceInitRestart

definition serviceInitNextTransition :: "service_status \<Rightarrow> bool \<Rightarrow> bool \<Rightarrow> init_transition" where
  "serviceInitNextTransition status changed ensureRunning =
     (if status = StatusRunning then (if changed then serviceInitRestart else serviceInitNoAction)
      else if ensureRunning then serviceInitStart
      else serviceInitNoAction)"

text \<open>The flags of the command; \<open>fl_uid\<close> is there when the flag was given.\<close>

record init_flags =
  fl_publicKey :: string
  fl_sid :: string
  fl_uid :: "32 word option"
  fl_ensure :: bool

definition host_keys :: "'k crypto \<Rightarrow> 'k host \<Rightarrow> 'k key_manager" where
  "host_keys C h = snd (InitKeyManager C (GetKeyManager (ho_ring h) (ho_legacy h) (ho_prin h) (ho_io h)))"

definition put_keys :: "'k key_manager \<Rightarrow> 'k host \<Rightarrow> 'k host" where
  "put_keys km h = h\<lparr>ho_ring := km_keyRingFile km, ho_prin := km_principalFile km, ho_io := km_io km\<rparr>"

text \<open>The part of the command that changes the files; the answer is whether anything changed.\<close>

definition init_configure :: "'k crypto \<Rightarrow> init_flags \<Rightarrow> 'k host \<Rightarrow> bool res \<times> 'k host" where
  "init_configure C fl h =
     (case SetPublicKey C (fl_publicKey fl) (host_keys C h) of
        (Inl e, km1) \<Rightarrow> (Inl e, put_keys km1 h)
      | (Inr keyChanged, km1) \<Rightarrow>
          (case (if fl_sid fl \<noteq> [] then SetAuthorizedSID (fl_sid fl) km1
                 else (case fl_uid fl of Some uid \<Rightarrow> SetAuthorizedUID uid km1 | None \<Rightarrow> (Inr False, km1))) of
             (Inl e, km2) \<Rightarrow> (Inl e, put_keys km2 h)
           | (Inr principalChanged, km2) \<Rightarrow> (Inr (keyChanged \<or> principalChanged), put_keys km2 h)))"

text \<open>\<open>dataDir\<close> is the error of \<open>GetServiceDataDir\<close>. The result is the error, the reports and the state.\<close>

definition serviceInitCmd ::
  "unicode \<Rightarrow> err \<Rightarrow> 'k crypto \<Rightarrow> 'k controller \<Rightarrow> err option \<Rightarrow> init_flags \<Rightarrow> 'k host \<Rightarrow>
   err option \<times> service_command_status list \<times> 'k host" where
  "serviceInitCmd u ni C ct dataDir fl h =
     (let failed = (\<lambda>action e reports h. (Some e, reports @ [command_error u ni action e], h)) in
      if fl_publicKey fl = [] then failed ''init'' (Plain ''A public key must be provided with --public-key'') [] h
      else if fl_sid fl = [] \<and> fl_uid fl = None then
        failed ''init'' (Plain ''An authorized user identity must be bound with --authorized-sid or --authorized-uid'') [] h
      else (case dataDir of
          Some e \<Rightarrow> failed ''init'' e [] h
        | None \<Rightarrow>
          (case init_configure C fl h of
             (Inl e, h1) \<Rightarrow> failed ''init'' e [] h1
           | (Inr changed, h1) \<Rightarrow>
             (let reports = [command_result ''init'' [] changed] in
              case ct_Status ct h1 of
                Inl e \<Rightarrow> failed ''status'' e reports h1
              | Inr status \<Rightarrow>
                (let state = status_string status in
                 case serviceInitNextTransition status changed (fl_ensure fl) of
                   serviceInitRestart \<Rightarrow>
                     (case ct_Restart ct h1 of
                        (Some e, h2) \<Rightarrow> failed ''restart'' e (reports @ [command_result ''restart'' state False]) h2
                      | (None, h2) \<Rightarrow>
                          (None, reports @ [command_result ''restart'' state False, command_result ''restart'' ''running'' False], h2))
                 | serviceInitStart \<Rightarrow>
                     (case ct_Start ct h1 of
                        (Some e, h2) \<Rightarrow> failed ''start'' e (reports @ [command_result ''start'' state False]) h2
                      | (None, h2) \<Rightarrow>
                          (None, reports @ [command_result ''start'' state False, command_result ''start'' ''running'' changed], h2))
                 | serviceInitNoAction \<Rightarrow>
                     (None, reports @ [command_result ''init'' state (changed \<and> status \<noteq> StatusRunning)], h1))))))"

text \<open>The other commands on the controller.\<close>

definition control_command :: "unicode \<Rightarrow> err \<Rightarrow> string \<Rightarrow> string \<Rightarrow> ('k host \<Rightarrow> err option \<times> 'k host) \<Rightarrow> 'k host \<Rightarrow> err option \<times> service_command_status \<times> 'k host" where
  "control_command u ni action state act h =
     (case act h of
        (Some e, h') \<Rightarrow> (Some e, command_error u ni action e, h')
      | (None, h') \<Rightarrow> (None, command_result action state False, h'))"

definition serviceStartCmd :: "unicode \<Rightarrow> err \<Rightarrow> 'k controller \<Rightarrow> 'k host \<Rightarrow> err option \<times> service_command_status \<times> 'k host" where
  "serviceStartCmd u ni ct = control_command u ni ''start'' ''running'' (ct_Start ct)"
definition serviceStopCmd :: "unicode \<Rightarrow> err \<Rightarrow> 'k controller \<Rightarrow> 'k host \<Rightarrow> err option \<times> service_command_status \<times> 'k host" where
  "serviceStopCmd u ni ct = control_command u ni ''stop'' ''stopped'' (ct_Stop ct)"
definition serviceRestartCmd :: "unicode \<Rightarrow> err \<Rightarrow> 'k controller \<Rightarrow> 'k host \<Rightarrow> err option \<times> service_command_status \<times> 'k host" where
  "serviceRestartCmd u ni ct = control_command u ni ''restart'' ''running'' (ct_Restart ct)"

definition serviceStatusCmd :: "unicode \<Rightarrow> err \<Rightarrow> 'k controller \<Rightarrow> 'k host \<Rightarrow> err option \<times> service_command_status \<times> string" where
  "serviceStatusCmd u ni ct h =
     (case ct_Status ct h of
        Inl e \<Rightarrow> (Some e, command_error u ni ''status'' e, ''Failed to query service status'')
      | Inr status \<Rightarrow> (None, command_result ''status'' (status_string status) False, serviceStatusMessage (status_string status)))"

section \<open>Lemmas\<close>

subsection \<open>Replacing a registration\<close>

text \<open>
  A sequence of calls is guarded if a registration is removed only when the answer last seen is that the service has
  stopped, and one is added only when it is that there is none.
\<close>

fun guarded :: "err \<Rightarrow> sm_answer option \<Rightarrow> sm_trace \<Rightarrow> bool" where
  "guarded ni seen [] \<longleftrightarrow> True"
| "guarded ni seen ((c, a) # tr) \<longleftrightarrow>
     (case c of
        CUninstall \<Rightarrow> seen = Some (AnsState KStopped)
      | CInstall _ \<Rightarrow> (case seen of Some (AnsErr e) \<Rightarrow> errors_Is e ni | _ \<Rightarrow> False)
      | _ \<Rightarrow> True) \<and> guarded ni (if c = CStatus then Some a else seen) tr"

fun last_seen :: "sm_answer option \<Rightarrow> sm_trace \<Rightarrow> sm_answer option" where
  "last_seen seen [] = seen"
| "last_seen seen ((c, a) # tr) = last_seen (if c = CStatus then Some a else seen) tr"

lemma guarded_append [simp]: "guarded ni seen (xs @ ys) \<longleftrightarrow> guarded ni seen xs \<and> guarded ni (last_seen seen xs) ys"
  by (induction ni seen xs rule: guarded.induct) auto

lemma last_seen_append [simp]: "last_seen seen (xs @ ys) = last_seen (last_seen seen xs) ys"
  by (induction seen xs rule: last_seen.induct) auto

text \<open>What the two loops do: they only ask, at most every 250 ms, until the deadline.\<close>

definition polls :: "int \<Rightarrow> sm_world \<Rightarrow> sm_trace \<Rightarrow> sm_world \<Rightarrow> bool" where
  "polls deadline w tr w' \<longleftrightarrow> sw_trace w' = sw_trace w @ tr \<and> list_all (\<lambda>x. fst x = CStatus) tr \<and>
     (tr \<noteq> [] \<longrightarrow> int (length tr - 1) * 250000000 < deadline - sw_now w)"

lemma polls_guarded: "list_all (\<lambda>x. fst x = CStatus) tr \<Longrightarrow> guarded ni seen tr"
  by (induction ni seen tr rule: guarded.induct) auto

lemma polls_one:
  assumes "sm_do env CStatus w = (a, w')" and "sw_now w < deadline"
  shows "polls deadline w [(CStatus, a)] w'"
  using sm_do_now [OF assms(1)] assms(2) by (simp add: polls_def)

lemma polls_more:
  assumes "sm_do env CStatus w = (a, w1)" and "sw_now w < deadline" and "polls deadline (sleep_250ms w1) tr w'"
  shows "polls deadline w ((CStatus, a) # tr) w'"
  using sm_do_now [OF assms(1)] assms(2,3) by (cases tr) (auto simp: polls_def sleep_250ms_def algebra_simps)

lemma status_of_iff [simp]: "status_of a = Inl e \<longleftrightarrow> a = AnsErr e" "status_of a = Inr KStopped \<longleftrightarrow> a = AnsState KStopped"
  by (auto simp: status_of_def split: sm_answer.splits)

lemma later_poll:
  assumes "sm_do env CStatus w = (a, w1)" and "sw_now w < deadline"
  shows "nat (deadline - sw_now (sleep_250ms w1)) < nat (deadline - sw_now w)"
  using sm_do_now [OF assms(1)] assms(2) by (simp add: sleep_250ms_def)

lemma wait_status:
  assumes "waitForServiceStatus env ni KStopped deadline w = (e, w')"
  shows "\<exists>tr. polls deadline w tr w' \<and> (e = None \<longrightarrow> (\<forall>seen. last_seen seen tr = Some (AnsState KStopped)))"
  using assms
proof (induction "nat (deadline - sw_now w)" arbitrary: w rule: less_induct)
  case less
  obtain a w1 where d: "sm_do env CStatus w = (a, w1)" by fastforce
  note unfold = less.prems [unfolded waitForServiceStatus.simps [of _ _ _ _ w]]
  consider "deadline \<le> sw_now w" | "sw_now w < deadline" "a = AnsState KStopped" | x where "sw_now w < deadline" "a = AnsErr x" "\<not> errors_Is x ni"
    | "sw_now w < deadline" "waitForServiceStatus env ni KStopped deadline (sleep_250ms w1) = (e, w')"
    using unfold d by (cases a) (auto simp: status_of_def split: if_splits)
  then show ?case
  proof cases
    case 1
    then show ?thesis using unfold by (intro exI [of _ "[]"]) (auto simp: polls_def)
  next
    case 2
    then show ?thesis using unfold d polls_one [OF d] by (intro exI [of _ "[(CStatus, a)]"]) (auto simp: status_of_def)
  next
    case 3
    then show ?thesis using unfold d polls_one [OF d] by (intro exI [of _ "[(CStatus, a)]"]) (auto simp: status_of_def)
  next
    case 4
    then show ?thesis using less.hyps [OF later_poll [OF d]] polls_more [OF d] by (metis last_seen.simps(2))
  qed
qed

lemma wait_removal:
  assumes "waitForServiceRemoval env ni deadline w = (e, w')"
  shows "\<exists>tr. polls deadline w tr w' \<and> (e = None \<longrightarrow> (\<exists>x. errors_Is x ni \<and> (\<forall>seen. last_seen seen tr = Some (AnsErr x))))"
  using assms
proof (induction "nat (deadline - sw_now w)" arbitrary: w rule: less_induct)
  case less
  obtain a w1 where d: "sm_do env CStatus w = (a, w1)" by fastforce
  note unfold = less.prems [unfolded waitForServiceRemoval.simps [of _ _ _ w]]
  consider "deadline \<le> sw_now w" | x where "sw_now w < deadline" "a = AnsErr x"
    | "sw_now w < deadline" "waitForServiceRemoval env ni deadline (sleep_250ms w1) = (e, w')"
    using unfold d by (cases a) (auto simp: status_of_def split: if_splits)
  then show ?case
  proof cases
    case 1
    then show ?thesis using unfold by (intro exI [of _ "[]"]) (auto simp: polls_def)
  next
    case 2
    then show ?thesis using unfold d polls_one [OF d] by (intro exI [of _ "[(CStatus, a)]"]) (auto simp: status_of_def split: if_splits)
  next
    case 3
    then show ?thesis using less.hyps [OF later_poll [OF d]] polls_more [OF d] by (metis last_seen.simps(2))
  qed
qed

lemma polls_length: "polls (sw_now w + twenty_seconds) w tr w' \<Longrightarrow> length tr \<le> 80"
  by (cases tr) (auto simp: polls_def twenty_seconds_def second_def)

text \<open>The effect of an installation on the trace.\<close>

definition installs :: "err \<Rightarrow> string \<Rightarrow> sm_world \<Rightarrow> err option \<Rightarrow> sm_world \<Rightarrow> bool" where
  "installs ni exe w r w' \<longleftrightarrow> (\<exists>tr. sw_trace w' = sw_trace w @ tr \<and> guarded ni None tr \<and> length tr \<le> 164 \<and>
     (r = None \<longrightarrow> tr \<noteq> [] \<and> fst (List.last tr) = CInstall exe \<and> error_of (snd (List.last tr)) = None))"

lemma do_trace: "sm_do env c w = (a, w') \<Longrightarrow> sw_trace w' = sw_trace w @ [(c, a)]"
  by (simp add: sm_do_now)

text \<open>From the removal of a stopped service on.\<close>

lemma replace_stopped:
  assumes tr: "sw_trace w3 = sw_trace w @ tr" "guarded ni None tr" "last_seen None tr = Some (AnsState KStopped)" "length tr \<le> 82"
    and c4: "sm_do env CUninstall w3 = (c, w4)"
    and c5: "waitForServiceRemoval env ni (sw_now w4 + twenty_seconds) w4 = (e5, w5)"
    and c6: "sm_do env (CInstall exe) w5 = (d, w6)"
  shows "installs ni exe w (Some x) w4" "installs ni exe w (Some x) w5" "e5 = None \<Longrightarrow> installs ni exe w (map_option f (error_of d)) w6"
proof -
  obtain t2 where t2: "polls (sw_now w4 + twenty_seconds) w4 t2 w5"
      "e5 = None \<longrightarrow> (\<exists>x. errors_Is x ni \<and> (\<forall>seen. last_seen seen t2 = Some (AnsErr x)))"
    using wait_removal [OF c5] by blast
  have g: "guarded ni seen t2" for seen using t2(1) polls_guarded by (auto simp: polls_def)
  note len = polls_length [OF t2(1)]
  have w4: "sw_trace w4 = sw_trace w @ tr @ [(CUninstall, c)]" using tr(1) do_trace [OF c4] by simp
  have w5: "sw_trace w5 = sw_trace w @ tr @ (CUninstall, c) # t2" using w4 t2(1) by (simp add: polls_def)
  have w6: "sw_trace w6 = sw_trace w @ tr @ (CUninstall, c) # t2 @ [(CInstall exe, d)]" using w5 do_trace [OF c6] by simp
  show "installs ni exe w (Some x) w4" unfolding installs_def w4 using tr by auto
  show "installs ni exe w (Some x) w5" unfolding installs_def w5 using tr g len by auto
  show "installs ni exe w (map_option f (error_of d)) w6" if "e5 = None"
    unfolding installs_def w6 using tr g len t2(2) that by (intro exI [of _ "tr @ (CUninstall, c) # t2 @ [(CInstall exe, d)]"]) auto
qed

lemma registration_installs:
  assumes "installServiceRegistration env ni exe w = (r, w')"
  shows "installs ni exe w r w'"
proof -
  obtain a w1 where c1: "sm_do env CStatus w = (a, w1)" by fastforce
  obtain b w2 where c2: "sm_do env CStop w1 = (b, w2)" by fastforce
  obtain es ws where cw: "waitForServiceStatus env ni KStopped (sw_now w2 + twenty_seconds) w2 = (es, ws)" by fastforce
  obtain c i1 where ci: "sm_do env (CInstall exe) w1 = (c, i1)" by fastforce
  note t1 = do_trace [OF c1]
  obtain tp where tp: "polls (sw_now w2 + twenty_seconds) w2 tp ws" "es = None \<longrightarrow> last_seen (Some a) tp = Some (AnsState KStopped)"
    using wait_status [OF cw] by blast
  have ts: "sw_trace ws = sw_trace w @ (CStatus, a) # (CStop, b) # tp" using tp(1) t1 do_trace [OF c2] by (simp add: polls_def)
  have gp: "guarded ni seen tp" for seen using tp(1) polls_guarded by (auto simp: polls_def)
  have failed: "installs ni exe w (Some x) w1" "installs ni exe w (Some x) w2" "installs ni exe w (Some x) ws" for x
    using t1 do_trace [OF c2] ts gp polls_length [OF tp(1)] by (auto simp: installs_def)
  have replaced: "installs ni exe w r w'"
    if "sw_trace w3 = sw_trace w @ tr" "guarded ni None tr" "last_seen None tr = Some (AnsState KStopped)" "length tr \<le> 82"
      and run: "(case sm_do env CUninstall w3 of (c, w4) \<Rightarrow>
          (case error_of c of
             Some e \<Rightarrow> (Some (Wrapped ''remove existing service registration'' e), w4)
           | None \<Rightarrow>
               (case waitForServiceRemoval env ni (sw_now w4 + twenty_seconds) w4 of
                  (Some e, w5) \<Rightarrow> (Some e, w5)
                | (None, w5) \<Rightarrow>
                    (case sm_do env (CInstall exe) w5 of (d, w6) \<Rightarrow>
                       (map_option (Wrapped ''register protected service executable'') (error_of d), w6))))) = (r, w')" for w3 tr
  proof -
    obtain c w4 where c4: "sm_do env CUninstall w3 = (c, w4)" by fastforce
    obtain e5 w5 where c5: "waitForServiceRemoval env ni (sw_now w4 + twenty_seconds) w4 = (e5, w5)" by fastforce
    obtain d w6 where c6: "sm_do env (CInstall exe) w5 = (d, w6)" by fastforce
    show ?thesis using replace_stopped [OF that(1-4) c4 c5 c6] run by (auto simp: c4 c5 c6 split: option.splits)
  qed
  note run = assms [unfolded installServiceRegistration_def c1, simplified]
  consider e where "a = AnsErr e" | "a = AnsState KStopped" | s where "status_of a = Inr s" "s \<noteq> KStopped"
    by (metis old.sum.exhaust status_of_iff)
  then show ?thesis
  proof cases
    case 1
    then show ?thesis using run ci do_trace [OF ci] t1 failed by (auto simp: installs_def status_of_def split: if_splits)
  next
    case 2
    then show ?thesis using run t1 by (intro replaced [of w1 "[(CStatus, a)]"]) (auto simp: status_of_def)
  next
    case 3
    show ?thesis
    proof (cases "error_of b = None \<and> es = None")
      case True
      then show ?thesis
        using run 3 c2 cw ts gp tp polls_length [OF tp(1)] by (intro replaced [of ws "(CStatus, a) # (CStop, b) # tp"]) auto
    next
      case False
      then show ?thesis using run 3 c2 cw failed by (auto split: option.splits)
    qed
  qed
qed

subsection \<open>The keys of the running service and the files\<close>

definition clean_files :: "'k key_manager \<Rightarrow> 'k key_manager" where
  "clean_files km = GetKeyManager (km_keyRingFile km) (km_legacyKeyFile km) (km_principalFile km) []"

lemma clean_files_eqs [simp]:
  "(clean_files km)\<lparr>km_io := []\<rparr> = clean_files km" "km_io (clean_files km) = []" "km_keyRingFile (clean_files km) = km_keyRingFile km"
  "(clean_files km)\<lparr>km_legacyKeyFile := km_legacyKeyFile km\<rparr> = clean_files km" "km_authorizedPrincipal (clean_files km) = None"
  "km_principalFile (clean_files km) = km_principalFile km"
  by (simp_all add: clean_files_def GetKeyManager_def)

lemma refresh_current [simp]: "km_currentKey (snd (refreshPublicKeysLocked C km)) = km_currentKey km"
  by (simp add: refreshPublicKeysLocked_def split: sum.splits)

lemma refresh_files [simp]:
  "km_keyRingFile (snd (refreshPublicKeysLocked C km)) = km_keyRingFile km" "km_legacyKeyFile (snd (refreshPublicKeysLocked C km)) = km_legacyKeyFile km"
  "km_principalFile (snd (refreshPublicKeysLocked C km)) = km_principalFile km"
  "km_authorizedPrincipal (snd (refreshPublicKeysLocked C km)) = km_authorizedPrincipal km"
  by (simp_all add: refreshPublicKeysLocked_def split: sum.splits)

lemma legacy_files:
  assumes "loadLegacyPublicKeyLocked C km = (r, km')"
  shows "\<exists>ios. km' = km\<lparr>km_io := ios\<rparr>"
  using assms by (auto simp: loadLegacyPublicKeyLocked_def Let_def split: prod.splits if_splits option.splits sum.splits)

lemma load_files:
  assumes "loadPublicKeys C km = (e, km')"
  shows "km_keyRingFile km' = km_keyRingFile km \<and> km_legacyKeyFile km' = km_legacyKeyFile km \<and> km_principalFile km' = km_principalFile km \<and>
    km_authorizedPrincipal km' = km_authorizedPrincipal km"
proof -
  have r: "refreshPublicKeysLocked C x = (e, km') \<Longrightarrow> km_keyRingFile km' = km_keyRingFile x \<and> km_legacyKeyFile km' = km_legacyKeyFile x \<and>
      km_principalFile km' = km_principalFile x \<and> km_authorizedPrincipal km' = km_authorizedPrincipal x" for x
    using refresh_files [of C x] by simp
  show ?thesis using assms
    by (auto simp: loadPublicKeys_def Let_def split: prod.splits if_splits store.splits sum.splits option.splits dest!: r legacy_files)
qed

lemma principal_files:
  assumes "loadAuthorizedPrincipal km = (e, km')"
  shows "km_keyRingFile km' = km_keyRingFile km \<and> km_legacyKeyFile km' = km_legacyKeyFile km \<and> km_principalFile km' = km_principalFile km \<and>
    km_currentKey km' = km_currentKey km"
  using assms by (auto simp: loadAuthorizedPrincipal_def Let_def split: prod.splits if_splits store.splits sum.splits)

text \<open>A key that was read once, while some calls may have failed, is read again when none fails.\<close>

lemma legacy_again:
  assumes "loadLegacyPublicKeyLocked C km = (Inr k, km')" and "km_io km2 = []" and "km_legacyKeyFile km2 = km_legacyKeyFile km"
  shows "\<exists>km''. loadLegacyPublicKeyLocked C km2 = (Inr k, km'')"
  using assms by (auto simp: loadLegacyPublicKeyLocked_def Let_def split: prod.splits if_splits option.splits sum.splits)

lemma load_again:
  assumes l: "loadPublicKeys C km = (e, km')" and "km_currentKey km = None" and k: "km_currentKey km' = Some k"
    and c: "km_io c = []" "km_keyRingFile c = km_keyRingFile km" "km_legacyKeyFile c = km_legacyKeyFile km"
  shows "km_currentKey (snd (loadPublicKeys C c)) = Some k"
proof -
  have r: "refreshPublicKeysLocked C x = (e, km') \<Longrightarrow> km_currentKey km' = km_currentKey x" for x using refresh_current [of C x] by simp
  show ?thesis
  proof (cases "km_keyRingFile km")
    case Absent
    obtain out x where n: "next_io (km_io km) = (out, x)" by fastforce
    obtain q y where q: "loadLegacyPublicKeyLocked C (km\<lparr>km_io := x\<rparr>) = (q, y)" by fastforce
    have "km_currentKey y = None" using legacy_files [OF q] assms(2) by auto
    then have x: "loadLegacyPublicKeyLocked C (km\<lparr>km_io := x\<rparr>) = (Inr k, y)"
      using l k assms(2) Absent n q by (auto simp: loadPublicKeys_def Let_def split: if_splits sum.splits dest!: r)
    obtain z where "loadLegacyPublicKeyLocked C (c\<lparr>km_io := []\<rparr>) = (Inr k, z)"
      using legacy_again [OF x, of "c\<lparr>km_io := []\<rparr>"] c by auto
    then show ?thesis using Absent c by (simp add: loadPublicKeys_def Let_def)
  next
    case Garbage
    then show ?thesis using l k assms(2) by (auto simp: loadPublicKeys_def Let_def split: prod.splits if_splits)
  next
    case (Stored ks)
    then show ?thesis using l k assms(2) c
      by (auto simp: loadPublicKeys_def Let_def split: prod.splits if_splits sum.splits option.splits dest!: r)
  qed
qed

text \<open>What a restarted service finds.\<close>

definition reload :: "'k crypto \<Rightarrow> 'k key_manager \<Rightarrow> 'k key_manager" where
  "reload C km = snd (InitKeyManager C (clean_files km))"

lemma reload_current: "km_currentKey (reload C km) = km_currentKey (snd (loadPublicKeys C (clean_files km)))"
  using principal_files [OF prod.collapse [symmetric], of "snd (loadPublicKeys C (clean_files km))"]
  by (simp add: reload_def InitKeyManager_def Let_def case_prod_unfold)

definition stored_principal :: "authorized_principal store \<Rightarrow> authorized_principal option" where
  "stored_principal f = (case f of Stored p \<Rightarrow> (case validateAuthorizedPrincipal p of Inr q \<Rightarrow> Some q | Inl _ \<Rightarrow> None) | _ \<Rightarrow> None)"

lemma load_io_clean: "km_io km = [] \<Longrightarrow> loadPublicKeys C km = (e, km') \<Longrightarrow> km_io km' = []"
proof -
  assume io: "km_io km = []" and l: "loadPublicKeys C km = (e, km')"
  have r: "refreshPublicKeysLocked C x = (e, km') \<Longrightarrow> km_io km' = km_io x" for x by (auto simp: refreshPublicKeysLocked_def split: sum.splits)
  have g: "loadLegacyPublicKeyLocked C x = (a, y) \<Longrightarrow> km_io x = [] \<Longrightarrow> km_io y = []" for x a y
    by (auto simp: loadLegacyPublicKeyLocked_def Let_def split: if_splits option.splits sum.splits)
  show ?thesis using io l by (auto simp: loadPublicKeys_def Let_def split: if_splits store.splits sum.splits option.splits prod.splits dest!: r dest: g)
qed

lemma reload_principal: "km_authorizedPrincipal (reload C km) = stored_principal (km_principalFile km)"
proof -
  let ?c = "clean_files km"
  obtain e km1 where l: "loadPublicKeys C ?c = (e, km1)" by fastforce
  show ?thesis using load_files [OF l] load_io_clean [OF _ l] l
    by (auto simp: reload_def InitKeyManager_def loadAuthorizedPrincipal_def stored_principal_def Let_def split: store.splits sum.splits)
qed

text \<open>The keys in memory are those in the files.\<close>

definition persisted :: "'k crypto \<Rightarrow> 'k key_manager \<Rightarrow> bool" where
  "persisted C km \<longleftrightarrow> (\<forall>k. km_currentKey km = Some k \<longrightarrow> km_currentKey (reload C km) = Some k) \<and>
     (\<forall>p. km_authorizedPrincipal km = Some p \<longrightarrow> km_authorizedPrincipal (reload C km) = Some p)"

lemma host_keys_files:
  "km_keyRingFile (host_keys C h) = ho_ring h \<and> km_legacyKeyFile (host_keys C h) = ho_legacy h \<and> km_principalFile (host_keys C h) = ho_prin h"
proof -
  let ?k = "(GetKeyManager (ho_ring h) (ho_legacy h) (ho_prin h) (ho_io h))\<lparr>km_io := snd (next_io (ho_io h))\<rparr>"
  obtain e km1 where l: "loadPublicKeys C ?k = (e, km1)" by fastforce
  obtain e2 km2 where p: "loadAuthorizedPrincipal km1 = (e2, km2)" by fastforce
  show ?thesis using load_files [OF l] principal_files [OF p] l p
    by (auto simp: host_keys_def InitKeyManager_def Let_def case_prod_unfold GetKeyManager_def)
qed

lemma reload_current_files:
  assumes "km_currentKey (reload C km) = Some k" and "km_keyRingFile km2 = km_keyRingFile km" and "km_legacyKeyFile km2 = km_legacyKeyFile km"
  shows "km_currentKey (reload C km2) = Some k"
proof -
  obtain e km1 where l: "loadPublicKeys C (clean_files km) = (e, km1)" by fastforce
  have c: "km_currentKey (clean_files km) = None" "km_legacyKeyFile (clean_files x) = km_legacyKeyFile x" for x
    by (simp_all add: clean_files_def GetKeyManager_def)
  show ?thesis using load_again [OF l c(1), of k "clean_files km2"] assms l unfolding reload_current by (simp add: c)
qed

lemma host_keys_persisted: "persisted C (host_keys C h)"
proof -
  let ?k = "(GetKeyManager (ho_ring h) (ho_legacy h) (ho_prin h) (ho_io h))\<lparr>km_io := snd (next_io (ho_io h))\<rparr>"
  obtain e km1 where l: "loadPublicKeys C ?k = (e, km1)" by fastforce
  obtain e2 km2 where p: "loadAuthorizedPrincipal km1 = (e2, km2)" by fastforce
  show ?thesis
  proof (cases "fst (next_io (ho_io h)) = Done")
    case True
    then have h: "host_keys C h = km2" using l p by (simp add: host_keys_def InitKeyManager_def Let_def case_prod_unfold GetKeyManager_def)
    have cur: "km_currentKey (reload C km2) = Some k" if "km_currentKey km2 = Some k" for k
      unfolding reload_current
      by (rule load_again [OF l]) (use that load_files [OF l] principal_files [OF p] in \<open>auto simp: GetKeyManager_def clean_files_def\<close>)
    have "km_authorizedPrincipal km2 = Some q \<Longrightarrow> stored_principal (km_principalFile km2) = Some q" for q
      using p load_files [OF l]
      by (auto simp: loadAuthorizedPrincipal_def Let_def stored_principal_def GetKeyManager_def split: prod.splits if_splits store.splits sum.splits)
    then show ?thesis using cur h by (simp add: persisted_def reload_principal)
  next
    case False
    then show ?thesis
      by (simp add: persisted_def host_keys_def InitKeyManager_def Let_def case_prod_unfold GetKeyManager_def)
  qed
qed

lemma SetPublicKey_persisted:
  assumes ok: "crypto_ok C" and inv: "km_inv C km" and per: "persisted C km" and set: "SetPublicKey C s km = (Inr changed, km')"
  shows "(\<exists>k p. parsePublicKey C s = Inr (spk_PublicKey k, p) \<and> km_currentKey km' = Some k) \<and> persisted C km' \<and> (\<not> changed \<longrightarrow> km' = km) \<and>
     km_legacyKeyFile km' = km_legacyKeyFile km"
  using inv
proof (cases rule: SetPublicKey_cases [of _ _ s])
  case (Changed k p m r)
  have inv': "km_inv C km'" using SetPublicKey_inv [OF inv, of s] set by simp
  have f: "km_keyRingFile km' = Stored \<lparr>kr_Current = km_currentKey km', kr_Previous = km_previousKey km'\<rparr>" "km_currentKey km' = Some k"
      "km_authorizedPrincipal km' = km_authorizedPrincipal km" "km_principalFile km' = km_principalFile km"
    using Changed(5) set by auto
  have "km_currentKey (reload C km') = Some k"
    using loadPublicKeys_saved [OF ok inv' f(2), of "clean_files km'"] f(1,2) by (simp add: reload_current)
  then show ?thesis using Changed set per f by (auto simp: persisted_def reload_principal)
qed (use set per in auto)

lemma setAuthorizedPrincipal_persisted:
  assumes "setAuthorizedPrincipal p km = (Inr changed, km')" and "persisted C km"
  shows "(\<exists>q. validateAuthorizedPrincipal p = Inr q \<and> km_authorizedPrincipal km' = Some q) \<and> persisted C km' \<and> (\<not> changed \<longrightarrow> km' = km) \<and>
     km_currentKey km' = km_currentKey km \<and> km_legacyKeyFile km' = km_legacyKeyFile km"
proof -
  obtain q where q: "validateAuthorizedPrincipal p = Inr q" using assms(1) by (auto simp: setAuthorizedPrincipal_def split: sum.splits)
  show ?thesis
  proof (cases "km_authorizedPrincipal km = Some q")
    case True
    then show ?thesis using assms q by (simp add: setAuthorizedPrincipal_def sameAuthorizedPrincipal_def)
  next
    case False
    then have ns: "\<not> sameAuthorizedPrincipal (km_authorizedPrincipal km) (Some q)"
      by (auto simp: sameAuthorizedPrincipal_def split: option.splits)
    then obtain r where km': "changed" "km' = km\<lparr>km_principalFile := Stored q, km_io := r, km_authorizedPrincipal := Some q\<rparr>"
      using assms(1) q by (auto simp: setAuthorizedPrincipal_def write_file_def split: prod.splits io.splits)
    have "validateAuthorizedPrincipal q = Inr q" using validateAuthorizedPrincipal_normal [OF q] by simp
    then have "stored_principal (km_principalFile km') = Some q" using km' by (simp add: stored_principal_def)
    moreover have "km_currentKey (reload C km') = Some k" if "km_currentKey km = Some k" for k
    proof -
      have "km_currentKey (reload C km) = Some k" using assms(2) that by (simp add: persisted_def)
      then show ?thesis by (rule reload_current_files) (simp_all add: km'(2))
    qed
    ultimately show ?thesis using q km' by (auto simp: persisted_def reload_principal)
  qed
qed

text \<open>
  What the keys of a started service are, and that a service has the keys of the files: then a request is judged by
  the configuration on disk.
\<close>

definition same_keys :: "'k key_manager \<Rightarrow> 'k key_manager \<Rightarrow> bool" where
  "same_keys a b \<longleftrightarrow> km_currentKey a = km_currentKey b \<and> km_previousKey a = km_previousKey b \<and> km_publicKeys a = km_publicKeys b \<and>
     km_authorizedPrincipal a = km_authorizedPrincipal b"

definition loaded :: "'k crypto \<Rightarrow> 'k host \<Rightarrow> 'k key_manager" where
  "loaded C h = snd (InitKeyManager C (GetKeyManager (ho_ring h) (ho_legacy h) (ho_prin h) []))"

definition synced :: "'k crypto \<Rightarrow> 'k host \<Rightarrow> bool" where
  "synced C h \<longleftrightarrow> (\<forall>km. ho_service h = Some km \<longrightarrow> same_keys km (loaded C h))"

text \<open>
  What is documented of a controller: it tells whether the service runs, and starting a service that does not run, or
  restarting it, gives a service that has read its files.
\<close>

definition started :: "'k crypto \<Rightarrow> 'k host \<Rightarrow> 'k host \<Rightarrow> bool" where
  "started C h h' \<longleftrightarrow> (\<exists>km. h' = h\<lparr>ho_service := Some km\<rparr> \<and> same_keys km (loaded C h))"

definition control_laws :: "'k crypto \<Rightarrow> 'k controller \<Rightarrow> bool" where
  "control_laws C ct \<longleftrightarrow>
     (\<forall>h s. ct_Status ct h = Inr s \<longrightarrow> (s = StatusRunning \<longleftrightarrow> ho_service h \<noteq> None)) \<and>
     (\<forall>h h'. ct_Start ct h = (None, h') \<longrightarrow> ho_service h = None \<longrightarrow> started C h h') \<and>
     (\<forall>h h'. ct_Restart ct h = (None, h') \<longrightarrow> started C h h')"

text \<open>The same of the service managers; both controllers keep it.\<close>

definition service_manager_ok :: "'k crypto \<Rightarrow> 'k service_manager \<Rightarrow> bool" where
  "service_manager_ok C K \<longleftrightarrow>
     (\<forall>h s. ks_Status K h = Inr s \<longrightarrow> (s = KRunning \<longleftrightarrow> ho_service h \<noteq> None)) \<and>
     (\<forall>h h'. ks_Start K h = (None, h') \<longrightarrow> ho_service h = None \<longrightarrow> started C h h') \<and>
     (\<forall>h h'. ks_Restart K h = (None, h') \<longrightarrow> started C h h')"

definition shows_running :: "string \<Rightarrow> bool" where
  "shows_running output \<longleftrightarrow> strings_Contains output ''state = running'' \<or> strings_Contains output ([CHR 0x0A, CHR 0x09] @ ''pid = '')"

definition launchctl_ok :: "'k crypto \<Rightarrow> 'k launchctl \<Rightarrow> bool" where
  "launchctl_ok C L \<longleftrightarrow>
     (\<forall>h output h'. L [''print'', launchctlServiceTarget] h = ((output, ExitOk), h') \<longrightarrow> (shows_running output \<longleftrightarrow> ho_service h \<noteq> None)) \<and>
     (\<forall>h output h'. L [''kickstart'', launchctlServiceTarget] h = ((output, ExitOk), h') \<longrightarrow> ho_service h = None \<longrightarrow> started C h h') \<and>
     (\<forall>h output h'. L [''kickstart'', ''-k'', launchctlServiceTarget] h = ((output, ExitOk), h') \<longrightarrow> started C h h')"

lemma Controller_Status_Inr: "Controller_Status r = Inr s \<longleftrightarrow> (\<exists>k. r = Inr k \<and> (s = StatusRunning \<longleftrightarrow> k = KRunning) \<and>
    (s = StatusStoppedService \<longleftrightarrow> k = KStopped))"
  by (cases s) (auto simp: Controller_Status_def split: sum.splits kstatus.splits)

lemma controller_other_ok: "service_manager_ok C K \<Longrightarrow> control_laws C (controller_other K)"
  by (auto simp: control_laws_def service_manager_ok_def controller_other_def with_service_def queryServiceStatus_other_def
      Controller_Status_Inr split: option.splits)

lemma launchctl_print_running:
  "queryServiceStatus_darwin u ni run = Inr k \<Longrightarrow> \<exists>output. run = (output, ExitOk) \<and> (k = KRunning \<longleftrightarrow> shows_running output)"
  by (auto simp: queryServiceStatus_darwin_def parseLaunchctlPrint_def Let_def shows_running_def split: prod.splits command_end.splits if_splits)

lemma launchctl_run_None: "launchctl_run L as h = (None, h') \<Longrightarrow> \<exists>output. L as h = ((output, ExitOk), h')"
  by (auto simp: launchctl_run_def runLaunchctl_def split: prod.splits command_end.splits)

lemma controller_darwin_ok:
  assumes "launchctl_ok C L"
  shows "control_laws C (controller_darwin u ni L)"
  unfolding control_laws_def
proof (intro conjI allI impI)
  fix h :: "'a host" and s
  assume "ct_Status (controller_darwin u ni L) h = Inr s"
  then obtain k where k: "queryServiceStatus_darwin u ni (fst (L [''print'', launchctlServiceTarget] h)) = Inr k" "s = StatusRunning \<longleftrightarrow> k = KRunning"
    by (auto simp: controller_darwin_def Controller_Status_Inr)
  obtain shown where o1: "fst (L [''print'', launchctlServiceTarget] h) = (shown, ExitOk)" "k = KRunning \<longleftrightarrow> shows_running shown"
    using launchctl_print_running [OF k(1)] by blast
  then have "L [''print'', launchctlServiceTarget] h = ((shown, ExitOk), snd (L [''print'', launchctlServiceTarget] h))" by (metis prod.collapse)
  then show "s = StatusRunning \<longleftrightarrow> ho_service h \<noteq> None" using assms o1(2) k(2) unfolding launchctl_ok_def by blast
qed (use assms in \<open>auto simp: controller_darwin_def launchctl_ok_def dest!: launchctl_run_None\<close>)

definition flag_principal :: "init_flags \<Rightarrow> authorized_principal option" where
  "flag_principal fl =
     (if fl_sid fl \<noteq> [] then Some \<lparr>ap_Type = ''sid'', ap_Value = trim_space (fl_sid fl)\<rparr>
      else map_option (\<lambda>uid. \<lparr>ap_Type = ''uid'', ap_Value = format_nat (unat uid)\<rparr>) (fl_uid fl))"

lemma loaded_reload:
  "ho_ring h = km_keyRingFile km \<Longrightarrow> ho_legacy h = km_legacyKeyFile km \<Longrightarrow> ho_prin h = km_principalFile km \<Longrightarrow> loaded C h = reload C km"
  by (simp add: loaded_def reload_def clean_files_def)

text \<open>The part of the command that changes files, when it succeeds.\<close>

lemma init_configure_ok:
  assumes ok: "crypto_ok C" "legacy_ok C (ho_legacy h)" and fl: "flag_principal fl = Some f" and run: "init_configure C fl h = (Inr changed, h1)"
  shows "ho_service h1 = ho_service h \<and> (\<not> changed \<longrightarrow> loaded C h1 = loaded C h) \<and>
    (\<exists>k p. parsePublicKey C (fl_publicKey fl) = Inr (spk_PublicKey k, p) \<and> km_currentKey (loaded C h1) = Some k) \<and>
    (\<exists>q. validateAuthorizedPrincipal f = Inr q \<and> km_authorizedPrincipal (loaded C h1) = Some q)"
proof -
  let ?km = "host_keys C h"
  have inv: "km_inv C ?km" unfolding host_keys_def by (rule InitKeyManager_inv [OF ok])
  note files = host_keys_files [of C h]
  obtain kc km1 where s: "SetPublicKey C (fl_publicKey fl) ?km = (Inr kc, km1)"
    using run by (auto simp: init_configure_def split: prod.splits sum.splits)
  note s1 = SetPublicKey_persisted [OF ok(1) inv host_keys_persisted s]
  obtain pc km2 where p: "setAuthorizedPrincipal f km1 = (Inr pc, km2)" and r: "changed = (kc \<or> pc)" "h1 = put_keys km2 h"
    using run s fl by (auto simp: init_configure_def flag_principal_def SetAuthorizedSID_def SetAuthorizedUID_def split: prod.splits sum.splits if_splits option.splits)
  note p1 = setAuthorizedPrincipal_persisted [OF p, of C]
  have l: "loaded C h1 = reload C km2"
    using s1 p1 files by (intro loaded_reload) (auto simp: r put_keys_def)
  have "loaded C h = reload C ?km" using files by (intro loaded_reload) auto
  then have "\<not> changed \<longrightarrow> loaded C h1 = loaded C h" using l r(1) s1 p1 by auto
  moreover have "persisted C km2" using s1 p1 by blast
  ultimately show ?thesis using s1 p1 l r(2) unfolding persisted_def by (auto simp: put_keys_def)
qed

lemma init_effect:
  assumes ok: "crypto_ok C" "legacy_ok C (ho_legacy h)" "control_laws C ct" and sync: "synced C h"
    and run: "serviceInitCmd u ni C ct dataDir fl h = (None, reports, h')"
  shows "synced C h' \<and> (fl_ensure fl \<longrightarrow> ho_service h' \<noteq> None) \<and>
    (\<exists>k p. parsePublicKey C (fl_publicKey fl) = Inr (spk_PublicKey k, p) \<and> km_currentKey (loaded C h') = Some k) \<and>
    (\<exists>f q. flag_principal fl = Some f \<and> validateAuthorizedPrincipal f = Inr q \<and> km_authorizedPrincipal (loaded C h') = Some q)"
proof -
  obtain changed h1 where c: "init_configure C fl h = (Inr changed, h1)"
    using run by (auto simp: serviceInitCmd_def Let_def split: if_splits option.splits prod.splits sum.splits)
  obtain f where f: "flag_principal fl = Some f"
  proof -
    have "fl_sid fl \<noteq> [] \<or> fl_uid fl \<noteq> None" using run by (auto simp: serviceInitCmd_def Let_def split: if_splits)
    then have "flag_principal fl \<noteq> None" by (auto simp: flag_principal_def)
    then show thesis using that by auto
  qed
  obtain s where s: "ct_Status ct h1 = Inr s"
    using run c by (auto simp: serviceInitCmd_def Let_def split: if_splits option.splits sum.splits)
  note conf = init_configure_ok [OF ok(1,2) f c]
  have live: "s = StatusRunning \<longleftrightarrow> ho_service h1 \<noteq> None" using ok(3) s by (simp add: control_laws_def)
  note tail = run [unfolded serviceInitCmd_def Let_def c, simplified]
  have st: "loaded C h' = loaded C h1 \<and> synced C h' \<and> ho_service h' \<noteq> None" if "started C h1 h'"
    using that by (auto simp: started_def loaded_def synced_def)
  have "(loaded C h' = loaded C h1 \<and> synced C h' \<and> ho_service h' \<noteq> None) \<or> h' = h1 \<and> serviceInitNextTransition s changed (fl_ensure fl) = serviceInitNoAction"
  proof (cases "serviceInitNextTransition s changed (fl_ensure fl)")
    case serviceInitNoAction
    then show ?thesis using tail by (auto simp: s split: if_splits option.splits)
  next
    case serviceInitStart
    then have "ct_Start ct h1 = (None, h')" "ho_service h1 = None"
      using tail live by (auto simp: s serviceInitNextTransition_def split: if_splits option.splits prod.splits)
    then show ?thesis using ok(3) st by (simp add: control_laws_def)
  next
    case serviceInitRestart
    then have "ct_Restart ct h1 = (None, h')" using tail by (auto simp: s split: if_splits option.splits prod.splits)
    then show ?thesis using ok(3) st by (simp add: control_laws_def)
  qed
  then show ?thesis
  proof
    assume "h' = h1 \<and> serviceInitNextTransition s changed (fl_ensure fl) = serviceInitNoAction"
    then have n: "h' = h1" "s = StatusRunning \<and> \<not> changed \<or> s \<noteq> StatusRunning \<and> \<not> fl_ensure fl"
      by (auto simp: serviceInitNextTransition_def split: if_splits)
    then have "synced C h1" "fl_ensure fl \<longrightarrow> ho_service h1 \<noteq> None" using live conf sync by (auto simp: synced_def)
    then show ?thesis using conf n f by auto
  qed (use conf f in auto)
qed

subsection \<open>Values for the examples\<close>

definition toy_started :: "string host \<Rightarrow> err option \<times> string host" where
  "toy_started h = (None, h\<lparr>ho_service := Some (loaded toy_crypto h)\<rparr>)"

definition toy_sm :: "string service_manager" where
  "toy_sm = \<lparr>ks_New = (\<lambda>h. None), ks_Status = (\<lambda>h. Inr (if ho_service h = None then KStopped else KRunning)),
     ks_Start = toy_started, ks_Stop = (\<lambda>h. (None, h\<lparr>ho_service := None\<rparr>)), ks_Restart = toy_started\<rparr>"

lemma toy_sm_ok: "control_laws toy_crypto (controller_other toy_sm)"
  by (rule controller_other_ok) (auto simp: service_manager_ok_def toy_sm_def toy_started_def started_def same_keys_def)

definition toy_fresh :: "string host" where
  "toy_fresh = \<lparr>ho_ring = Absent, ho_legacy = None, ho_prin = Absent, ho_io = [], ho_service = None\<rparr>"

definition toy_flags :: "string \<Rightarrow> string \<Rightarrow> init_flags" where
  "toy_flags key sid = \<lparr>fl_publicKey = key, fl_sid = sid, fl_uid = Some 1000, fl_ensure = True\<rparr>"

definition toy_init :: "init_flags \<Rightarrow> string host \<Rightarrow> err option \<times> service_command_status list \<times> string host" where
  "toy_init = serviceInitCmd ascii_only (Plain ''the service is not installed'') toy_crypto (controller_other toy_sm) None"

abbreviation toy_key :: "char \<Rightarrow> string \<Rightarrow> stored_public_key" where
  "toy_key i key \<equiv> \<lparr>spk_KeyID = replicate 64 i, spk_PublicKey = key\<rparr>"

abbreviation toy_uid :: authorized_principal where
  "toy_uid \<equiv> \<lparr>ap_Type = ''uid'', ap_Value = format_nat (unat (1000 :: 32 word))\<rparr>"

definition toy_files :: "key_ring store \<Rightarrow> authorized_principal store \<Rightarrow> string host" where
  "toy_files ring prin = toy_fresh\<lparr>ho_ring := ring, ho_prin := prin\<rparr>"

lemma toy_ring_normal [simp]:
  "normalizeStoredPublicKey toy_crypto (Some (toy_key CHR ''a'' ''A'')) = Inr (Some (toy_key CHR ''a'' ''A''))"
  "normalizeStoredPublicKey toy_crypto (Some (toy_key CHR ''b'' ''B'')) = Inr (Some (toy_key CHR ''b'' ''B''))"
  by (intro normalizeStoredPublicKey_id [OF toy_crypto_ok]; simp add: key_wf_def)+

lemma toy_first: "fst (toy_init (toy_flags ''A'' []) toy_fresh) = None"
  using validate_uid [of 1000]
  by (simp add: toy_init_def serviceInitCmd_def toy_flags_def toy_fresh_def init_configure_def host_keys_def InitKeyManager_def GetKeyManager_def
      loadPublicKeys_def loadLegacyPublicKeyLocked_def loadAuthorizedPrincipal_def SetPublicKey_def refreshPublicKeysLocked_def ring_keys_def
      savePublicKeysLocked_def write_file_def Let_def SetAuthorizedUID_def setAuthorizedPrincipal_def sameAuthorizedPrincipal_def put_keys_def
      controller_other_def queryServiceStatus_other_def newControlService_def toy_sm_def Controller_Status_def serviceInitNextTransition_def
      with_service_def toy_started_def del: validate_uid)

text \<open>
  An initialisation that fails after it has stored the key leaves the running service with the old one; when it is
  repeated with a user that is bound already, nothing is left to change, it succeeds, reports that nothing has
  changed, and does not restart the service.
\<close>

definition toy_paired :: "string host" where
  "toy_paired = toy_files (Stored \<lparr>kr_Current = Some (toy_key CHR ''a'' ''A''), kr_Previous = None\<rparr>) (Stored toy_uid)"

definition toy_rotated :: "string host" where
  "toy_rotated = toy_files (Stored \<lparr>kr_Current = Some (toy_key CHR ''b'' ''B''), kr_Previous = Some (toy_key CHR ''a'' ''A'')\<rparr>) (Stored toy_uid)"

lemma toy_uid_valid [simp]:
  "validateAuthorizedPrincipal \<lparr>ap_Type = ''uid'', ap_Value = format_nat 1000\<rparr> = Inr \<lparr>ap_Type = ''uid'', ap_Value = format_nat 1000\<rparr>"
  using validate_uid [of 1000] by simp

lemma toy_paired_keys:
  "host_keys toy_crypto (toy_paired\<lparr>ho_service := s\<rparr>) =
     \<lparr>km_publicKeys = [replicate 64 CHR ''a'' \<mapsto> ''A''], km_currentKey = Some (toy_key CHR ''a'' ''A''), km_previousKey = None,
      km_authorizedPrincipal = Some toy_uid, km_keyRingFile = Stored \<lparr>kr_Current = Some (toy_key CHR ''a'' ''A''), kr_Previous = None\<rparr>,
      km_legacyKeyFile = None, km_principalFile = Stored toy_uid, km_io = []\<rparr>"
  by (simp add: host_keys_def toy_paired_def toy_files_def toy_fresh_def InitKeyManager_def GetKeyManager_def loadPublicKeys_def
      loadAuthorizedPrincipal_def refreshPublicKeysLocked_def ring_keys_def Let_def normalizeStoredPublicKey_def [of _ None])

lemma toy_rotated_keys:
  "host_keys toy_crypto (toy_rotated\<lparr>ho_service := s\<rparr>) =
     \<lparr>km_publicKeys = [replicate 64 CHR ''b'' \<mapsto> ''B'', replicate 64 CHR ''a'' \<mapsto> ''A''], km_currentKey = Some (toy_key CHR ''b'' ''B''),
      km_previousKey = Some (toy_key CHR ''a'' ''A''), km_authorizedPrincipal = Some toy_uid,
      km_keyRingFile = Stored \<lparr>kr_Current = Some (toy_key CHR ''b'' ''B''), kr_Previous = Some (toy_key CHR ''a'' ''A'')\<rparr>,
      km_legacyKeyFile = None, km_principalFile = Stored toy_uid, km_io = []\<rparr>"
  by (simp add: host_keys_def toy_rotated_def toy_files_def toy_fresh_def InitKeyManager_def GetKeyManager_def loadPublicKeys_def
      loadAuthorizedPrincipal_def refreshPublicKeysLocked_def ring_keys_def Let_def)

lemma toy_bad_sid: "SetAuthorizedSID ''x'' km = (Inl (Plain ''Invalid SID format''), km)"
  using trim_space_visible [of "''x''"]
  by (simp add: SetAuthorizedSID_def setAuthorizedPrincipal_def validateAuthorizedPrincipal_def Let_def has_prefix_def visible_def byte_val_def)

lemma init_half_done:
  assumes "h = toy_paired\<lparr>ho_service := Some (loaded toy_crypto toy_paired)\<rparr>"
  shows "synced toy_crypto h \<and>
    (let (e1, reports1, h1) = toy_init (toy_flags ''B'' ''x'') h; (e2, reports2, h2) = toy_init (toy_flags ''B'' []) h1
     in e1 \<noteq> None \<and> e2 = None \<and> \<not> list_ex cs_Changed reports2 \<and> \<not> list_ex (\<lambda>r. cs_Action r = ''restart'') reports2 \<and> \<not> synced toy_crypto h2)"
proof -
  let ?s = "Some (loaded toy_crypto toy_paired)"
  have l: "loaded toy_crypto toy_paired = host_keys toy_crypto toy_paired" "loaded toy_crypto toy_rotated = host_keys toy_crypto toy_rotated"
    by (simp_all add: loaded_def host_keys_def toy_paired_def toy_rotated_def toy_files_def toy_fresh_def)
  have n: "toy_paired\<lparr>ho_service := None\<rparr> = toy_paired" "toy_rotated\<lparr>ho_service := None\<rparr> = toy_rotated"
    by (simp_all add: toy_paired_def toy_rotated_def toy_files_def toy_fresh_def)
  have k: "km_currentKey (loaded toy_crypto toy_paired) \<noteq> km_currentKey (loaded toy_crypto toy_rotated)"
    using toy_paired_keys [of None] toy_rotated_keys [of None] by (simp add: l n)
  have 1: "init_configure toy_crypto (toy_flags ''B'' ''x'') h = (Inl (Plain ''Invalid SID format''), toy_rotated\<lparr>ho_service := ?s\<rparr>)"
    unfolding init_configure_def assms toy_paired_keys
    by (simp add: toy_flags_def toy_bad_sid SetPublicKey_def refreshPublicKeysLocked_def ring_keys_def savePublicKeysLocked_def write_file_def Let_def
        put_keys_def toy_paired_def toy_rotated_def toy_files_def toy_fresh_def)
  have 2: "init_configure toy_crypto (toy_flags ''B'' []) (toy_rotated\<lparr>ho_service := ?s\<rparr>) = (Inr False, toy_rotated\<lparr>ho_service := ?s\<rparr>)"
    unfolding init_configure_def toy_rotated_keys
    by (simp add: toy_flags_def SetPublicKey_def Let_def SetAuthorizedUID_def setAuthorizedPrincipal_def sameAuthorizedPrincipal_def
        put_keys_def toy_rotated_def toy_files_def toy_fresh_def)
  have r1: "toy_init (toy_flags ''B'' ''x'') h = (Some (Plain ''Invalid SID format''),
      [command_error ascii_only (Plain ''the service is not installed'') ''init'' (Plain ''Invalid SID format'')], toy_rotated\<lparr>ho_service := ?s\<rparr>)"
    using 1 by (simp add: toy_init_def serviceInitCmd_def toy_flags_def Let_def)
  have r2: "toy_init (toy_flags ''B'' []) (toy_rotated\<lparr>ho_service := ?s\<rparr>) = (None,
      [command_result ''init'' [] False, command_result ''init'' ''running'' False], toy_rotated\<lparr>ho_service := ?s\<rparr>)"
    using 2 by (simp add: toy_init_def serviceInitCmd_def toy_flags_def Let_def controller_other_def queryServiceStatus_other_def
      newControlService_def toy_sm_def Controller_Status_def serviceInitNextTransition_def status_string_def)
  have u: "loaded toy_crypto (x\<lparr>ho_service := s\<rparr>) = loaded toy_crypto x" for x s by (simp add: loaded_def)
  show ?thesis using k by (auto simp: assms r1 [unfolded assms] r2 command_result_def synced_def same_keys_def u)
qed

definition toy_ni :: err where "toy_ni = Plain ''the service is not installed''"

definition toy_scm :: sm_env where
  "toy_scm tr c =
     (if c = CStatus then
        (if (CUninstall, AnsOk) \<in> set tr then AnsErr toy_ni else if (CStop, AnsOk) \<in> set tr then AnsState KStopped else AnsState KRunning, 0)
      else (AnsOk, 0))"

definition toy_calls :: "string \<Rightarrow> sm_trace" where
  "toy_calls exe = [(CStatus, AnsState KRunning), (CStop, AnsOk), (CStatus, AnsState KStopped), (CUninstall, AnsOk), (CStatus, AnsErr toy_ni),
     (CInstall exe, AnsOk)]"

lemma toy_registration:
  "installServiceRegistration toy_scm toy_ni exe \<lparr>sw_trace = [], sw_now = 0\<rparr> = (None, \<lparr>sw_trace = toy_calls exe, sw_now = 0\<rparr>)"
  by (simp add: installServiceRegistration_def sm_do_def toy_scm_def status_of_def error_of_def waitForServiceStatus.simps
      waitForServiceRemoval.simps twenty_seconds_def second_def toy_ni_def toy_calls_def)

lemma toy_install:
  "\<exists>rr' w'. serviceInstallCmd_windows toy_sha toy_decode (Some ''C:'') (\<lambda>k. toy_source ''A'') None toy_scm toy_ni True None
     (toy_root, \<lparr>sw_trace = [], sw_now = 0\<rparr>) = (None, rr', w')"
  using toy_prepare [of "''A''"] by (simp add: serviceInstallCmd_windows_def toy_registration sm_do_def toy_scm_def error_of_def)

section \<open>Properties\<close>

text \<open>
  Replacing a registration is safe, whatever the service manager answers and however long it takes: the
  old registration is removed only after it was seen that the service has stopped, the new one is made only after it
  was seen that there is none, a success means that the given executable was registered last, and the service manager
  is called at most 164 times.
\<close>

theorem registration_replaced:
  "case installServiceRegistration env ni exe w of (r, w') \<Rightarrow>
     \<exists>tr. sw_trace w' = sw_trace w @ tr \<and> guarded ni None tr \<and> length tr \<le> 164 \<and>
       (r = None \<longrightarrow> tr \<noteq> [] \<and> fst (List.last tr) = CInstall exe \<and> error_of (snd (List.last tr)) = None)"
  using registration_installs [of env ni exe w] by (auto simp: installs_def split: prod.splits)

theorem registration_replaced_witness:
  "\<exists>w' tr. installServiceRegistration toy_scm toy_ni ''x'' \<lparr>sw_trace = [], sw_now = 0\<rparr> = (None, w') \<and> sw_trace w' = tr \<and>
     guarded toy_ni None tr \<and> fst (List.last tr) = CInstall ''x''"
  using registration_replaced [where env = toy_scm and ni = toy_ni and exe = "''x''" and w = "\<lparr>sw_trace = [], sw_now = 0\<rparr>"] by (auto simp: toy_registration)

text \<open>
  C8. When the installation on Windows succeeds, what was registered and then started is the service of a protected
  directory: one with the digest of the installed service when it was hashed, and with a router that passes its
  integrity check if there was one.
\<close>

theorem install_runs_protected:
  assumes "serviceInstallCmd_windows sha decode pf src rival env ni executable created (rr, w) = (None, rr', w')" and "\<And>c. sha c \<noteq> []"
  shows "\<exists>tr q i d a b. sw_trace w' = sw_trace w @ tr @ [(CInstall (windows_target q i), a), (CStart, b)] \<and> error_of a = None \<and> error_of b = None \<and>
     guarded ni None (tr @ [(CInstall (windows_target q i), a)]) \<and> rr_dirs rr' i = Some d \<and>
     map_option sha (rd_service d) = map_option sha (is_service (src 0)) \<and>
     (is_router (src 1) \<noteq> None \<longrightarrow> VerifyIntegrity sha decode (rd_router d) = None)"
proof -
  obtain exe where p: "prepareServiceInstallExecutable sha decode pf src rival rr = (Inr exe, rr')"
    using assms(1) by (auto simp: serviceInstallCmd_windows_def split: if_splits prod.splits sum.splits option.splits)
  obtain w1 b where r: "installServiceRegistration env ni exe w = (None, w1)" and c: "sm_do env CStart w1 = (b, w')" "error_of b = None"
    using assms(1) p by (auto simp: serviceInstallCmd_windows_def split: if_splits prod.splits option.splits)
  obtain tr where tr: "sw_trace w1 = sw_trace w @ tr" "guarded ni None tr" "tr \<noteq> []" "fst (List.last tr) = CInstall exe" "error_of (snd (List.last tr)) = None"
    using registration_installs [OF r] by (auto simp: installs_def)
  obtain a where a: "tr = butlast tr @ [(CInstall exe, a)]" "error_of a = None" using tr(3-5) by (metis append_butlast_last_id prod.collapse)
  obtain q i d where d: "exe = windows_target q i" "rr_dirs rr' i = Some d" "map_option sha (rd_service d) = map_option sha (is_service (src 0))"
      "is_router (src 1) \<noteq> None \<longrightarrow> VerifyIntegrity sha decode (rd_router d) = None"
    using prepared_directory [OF p assms(2)] by blast
  have "sw_trace w' = sw_trace w @ butlast tr @ [(CInstall exe, a), (CStart, b)]" using do_trace [OF c(1)] tr(1) a(1) by (metis append.assoc append_Cons append_Nil)
  then show ?thesis using a c(2) tr(2) d by metis
qed

theorem install_runs_protected_witness:
  "\<exists>rr' w' tr q i d a b. serviceInstallCmd_windows toy_sha toy_decode (Some ''C:'') (\<lambda>k. toy_source ''A'') None toy_scm toy_ni True None
     (toy_root, \<lparr>sw_trace = [], sw_now = 0\<rparr>) = (None, rr', w') \<and>
     sw_trace w' = tr @ [(CInstall (windows_target q i), a), (CStart, b)] \<and> rr_dirs rr' i = Some d \<and>
     VerifyIntegrity toy_sha toy_decode (rd_router d) = None"
proof -
  obtain rr' w' where r: "serviceInstallCmd_windows toy_sha toy_decode (Some ''C:'') (\<lambda>k. toy_source ''A'') None toy_scm toy_ni True None
     (toy_root, \<lparr>sw_trace = [], sw_now = 0\<rparr>) = (None, rr', w')" using toy_install by blast
  have "toy_sha c \<noteq> []" for c by (simp add: toy_sha_def)
  from install_runs_protected [OF r this] obtain tr q i d a b where
      "sw_trace w' = tr @ [(CInstall (windows_target q i), a), (CStart, b)]" "rr_dirs rr' i = Some d"
      "VerifyIntegrity toy_sha toy_decode (rd_router d) = None"
    by (auto simp: toy_source_def)
  with r show ?thesis by blast
qed

text \<open>
  C7. If the running service has the keys of the files, \<open>service init\<close> that succeeds leaves it so, and the current key
  in the files is the given one, for the given user; with \<open>--ensure-running\<close> the service runs afterwards. This is for any
  controller that does what is documented, and whichever accesses to the files failed.
\<close>

theorem init_effective:
  assumes "crypto_ok C" and "legacy_ok C (ho_legacy h)" and "control_laws C ct" and "synced C h"
    and "serviceInitCmd u ni C ct dataDir fl h = (None, reports, h')"
  shows "synced C h' \<and> (fl_ensure fl \<longrightarrow> ho_service h' \<noteq> None) \<and>
    (\<exists>k p. parsePublicKey C (fl_publicKey fl) = Inr (spk_PublicKey k, p) \<and> km_currentKey (loaded C h') = Some k) \<and>
    (\<exists>f q. flag_principal fl = Some f \<and> validateAuthorizedPrincipal f = Inr q \<and> km_authorizedPrincipal (loaded C h') = Some q)"
  by (rule init_effect [OF assms])

theorem init_effective_witness:
  "\<exists>reports h'. toy_init (toy_flags ''A'' []) toy_fresh = (None, reports, h') \<and> synced toy_crypto h' \<and> ho_service h' \<noteq> None"
proof -
  obtain reports h' where r: "toy_init (toy_flags ''A'' []) toy_fresh = (None, reports, h')" using toy_first by (metis prod.collapse)
  show ?thesis
    using init_effective [OF toy_crypto_ok _ toy_sm_ok _ r [unfolded toy_init_def]] r
    by (simp add: toy_fresh_def legacy_ok_def synced_def toy_flags_def)
qed

text \<open>
  The commands to the service manager come in one order, the first that fails is the last one made, and the
  registration is removed only when the service was stopped and its firewall rules are gone.
\<close>

theorem uninstall_ordered:
  assumes "serviceUninstallCmd env created w = (r, w')"
  shows "\<exists>n tr. sw_trace w' = sw_trace w @ tr \<and> map fst tr = take n [CStop, CFirewall, CUninstall] \<and>
     (\<forall>x \<in> set (butlast tr). error_of (snd x) = None) \<and>
     (r = None \<longleftrightarrow> created = None \<and> n = 3 \<and> (\<forall>x \<in> set tr. error_of (snd x) = None))"
proof -
  obtain a w1 where c1: "sm_do env CStop w = (a, w1)" by fastforce
  obtain b w2 where c2: "sm_do env CFirewall w1 = (b, w2)" by fastforce
  obtain c w3 where c3: "sm_do env CUninstall w2 = (c, w3)" by fastforce
  note t = do_trace [OF c1] do_trace [OF c2] do_trace [OF c3]
  consider "created \<noteq> None" | "created = None" "error_of a \<noteq> None" | "created = None" "error_of a = None" "error_of b \<noteq> None"
    | "created = None" "error_of a = None" "error_of b = None" by blast
  then show ?thesis
  proof cases
    case 1
    then show ?thesis using assms by (intro exI [of _ 0] exI [of _ "[]"]) (auto simp: serviceUninstallCmd_def)
  next
    case 2
    then show ?thesis using assms t by (intro exI [of _ 1] exI [of _ "[(CStop, a)]"]) (auto simp: serviceUninstallCmd_def c1)
  next
    case 3
    then show ?thesis using assms t
      by (intro exI [of _ 2] exI [of _ "[(CStop, a), (CFirewall, b)]"]) (auto simp: serviceUninstallCmd_def c1 c2 numeral_2_eq_2)
  next
    case 4
    then show ?thesis using assms t
      by (intro exI [of _ 3] exI [of _ "[(CStop, a), (CFirewall, b), (CUninstall, c)]"]) (auto simp: serviceUninstallCmd_def c1 c2 c3 numeral_3_eq_3)
  qed
qed

text \<open>
  Asking for the state on Windows gives back every handle it opened, the service before the manager, and calls a
  service running exactly if it is starting or running.
\<close>

theorem windows_query_clean:
  assumes "queryServiceStatus_windows ni q = (r, opened, closed)"
  shows "closed = rev opened \<and> (r = Inr KRunning \<longleftrightarrow> sq_manager q \<and> sq_name q \<and> sq_open q = None \<and> (sq_state q = Some 2 \<or> sq_state q = Some 4))"
  using assms by (auto simp: queryServiceStatus_windows_def windows_state_def split: if_splits option.splits)

end
