(* ===== verification/Core_Diagnostics.thy ===== *)
theory Core_Diagnostics
  imports Core_Manager Sys_Dns Auth_Query
begin

text \<open>
  The diagnostics of the running core and the way to its controller (\<open>route/coreapi/proxy_diagnostics.go\<close>,
  \<open>dns_diagnostics.go\<close>, \<open>core_controller_proxy.go\<close> and \<open>core_controller_dial_unix.go\<close>): which probes are made, what their
  outcomes are called, and the cache of the transport to the controller, which the requests share.
\<close>

section \<open>Definitions\<close>

subsection \<open>Errors of the network\<close>

text \<open>What \<open>errors.Is\<close> and \<open>errors.As\<close> can find in an error: an ended deadline, \<open>Timeout()\<close>, a refused connection, a
  missing file, the operation of a \<open>net.OpError\<close>, a certificate that is not accepted; and its text.\<close>

record net_error =
  ne_deadline :: bool
  ne_timeout :: bool
  ne_refused :: bool
  ne_missing :: bool
  ne_op :: "string option"
  ne_certificate :: bool
  ne_text :: string

definition plain_error :: "string \<Rightarrow> net_error" where
  "plain_error s = \<lparr>ne_deadline = False, ne_timeout = False, ne_refused = False, ne_missing = False, ne_op = None, ne_certificate = False, ne_text = s\<rparr>"

definition networkErrorCode :: "net_error \<Rightarrow> string" where
  "networkErrorCode e =
     (if ne_deadline e \<or> ne_timeout e then ''timeout''
      else if ne_refused e then ''connection-refused''
      else if strings_Contains (ne_text e) ''proxy-authentication'' then ''proxy-authentication''
      else if strings_Contains (ne_text e) ''tunnel-rejected'' then ''tunnel-rejected''
      else if ne_certificate e then ''tls-failed''
      else ''network-error'')"

subsection \<open>The answers of the controller\<close>

text \<open>
  The status of an answer and what \<open>encoding/json\<close> decodes from the beginning of its body: the two ports of the
  configuration, or the message of a query with the status, the text and the records of type and data.
\<close>

record dns_message =
  dm_Status :: "int option"
  dm_Message :: string
  dm_Answer :: "(int \<times> string) list"

record core_response =
  cr_status :: int
  cr_ports :: "(int \<times> int) option"
  cr_dns :: "dns_message option"

text \<open>The sixteen bytes of an IPv6 address, and whether an address is one of IPv4 (\<open>ip.To4() != nil\<close>).\<close>

definition hex_digit :: "char \<Rightarrow> nat" where
  "hex_digit c = (if is_digit c then byte_val c - 48 else if byte_val c \<ge> 97 then byte_val c - 87 else byte_val c - 55)"

definition hex_value :: "string \<Rightarrow> nat" where
  "hex_value s = foldl (\<lambda>n c. 16 * n + hex_digit c) 0 s"

definition field_bytes :: "string \<Rightarrow> nat list" where
  "field_bytes f =
     (if f = [] then [] else if CHR ''.'' \<in> set f then map digits_val (split_at (CHR ''.'') f)
      else [hex_value f div 256, hex_value f mod 256])"

fun cut_ellipsis :: "string \<Rightarrow> string \<times> string option" where
  "cut_ellipsis [] = ([], None)"
| "cut_ellipsis (c # s) =
     (if has_prefix (c # s) ''::'' then ([], Some (tl s)) else (case cut_ellipsis s of (a, b) \<Rightarrow> (c # a, b)))"

definition ipv6_bytes :: "string \<Rightarrow> nat list" where
  "ipv6_bytes s =
     (case cut_ellipsis s of (a, b) \<Rightarrow>
        (let l = concat (map field_bytes (split_at (CHR '':'') a));
             r = (case b of None \<Rightarrow> [] | Some t \<Rightarrow> concat (map field_bytes (split_at (CHR '':'') t)))
         in l @ replicate (16 - (length l + length r)) 0 @ r))"

definition is_To4 :: "string \<Rightarrow> bool" where
  "is_To4 s = (CHR '':'' \<notin> set s \<or> take 12 (ipv6_bytes s) = replicate 10 0 @ [255, 255])"

definition right_answer :: "string \<Rightarrow> int \<times> string \<Rightarrow> bool" where
  "right_answer kind a =
     (case a of (t, d) \<Rightarrow> ParseIP d \<and> (kind = ''A'' \<and> t = 1 \<and> is_To4 d \<or> kind = ''AAAA'' \<and> t = 28 \<and> \<not> is_To4 d))"

definition classifyDNSResponse :: "net_error + core_response option \<Rightarrow> string \<Rightarrow> string" where
  "classifyDNSResponse response kind =
     (case response of
        Inl e \<Rightarrow> if ne_timeout e then ''failed'' else ''unavailable''
      | Inr None \<Rightarrow> ''unavailable''
      | Inr (Some r) \<Rightarrow>
          (case cr_dns r of
             None \<Rightarrow> ''unavailable''
           | Some m \<Rightarrow>
               if cr_status r = 500 \<and> dm_Message m \<noteq> [] \<and> dm_Message m \<noteq> ''DNS section is disabled'' then ''failed''
               else if cr_status r \<noteq> 200 then ''unavailable''
               else (case dm_Status m of
                   None \<Rightarrow> ''unavailable''
                 | Some st \<Rightarrow> if st \<noteq> 0 then ''failed'' else if list_ex (right_answer kind) (dm_Answer m) then ''success'' else ''failed'')))"

definition diagnosticDNSDomains :: "string list" where
  "diagnosticDNSDomains = [''www.gstatic.com'', ''example.com'']"

definition query_path :: "string \<Rightarrow> string \<Rightarrow> string" where
  "query_path domain kind = ''/dns/query?name='' @ domain @ ''&type='' @ kind"

text \<open>One domain: both types are asked at the same time; the outcome is computed when both are there.\<close>

definition domain_outcome :: "(string \<Rightarrow> net_error + core_response option) \<Rightarrow> string \<Rightarrow> string" where
  "domain_outcome request domain =
     (let outcomes = map (\<lambda>kind. classifyDNSResponse (request (query_path domain kind)) kind) [''A'', ''AAAA''];
          outcome = foldl (\<lambda>o' v. if v = ''failed'' then ''failed'' else o') ''unavailable'' outcomes
      in if outcomes ! 0 = ''success'' \<or> outcomes ! 1 = ''success'' then ''success'' else outcome)"

fun overall :: "string \<Rightarrow> (string \<times> string) list \<Rightarrow> string" where
  "overall acc [] = acc"
| "overall acc ((d, outcome) # qs) =
     (if outcome = ''failed'' then ''failed'' else if outcome = ''unavailable'' then overall ''unavailable'' qs else overall acc qs)"

record dns_state =
  dn_Outcome :: string
  dn_Queries :: "(string \<times> string) list"

definition probeCoreDNS :: "(string \<Rightarrow> net_error + core_response option) \<Rightarrow> dns_state" where
  "probeCoreDNS request =
     (let queries = map (\<lambda>d. (d, domain_outcome request d)) diagnosticDNSDomains
      in \<lparr>dn_Outcome = overall ''success'' queries, dn_Queries = queries\<rparr>)"

subsection \<open>The runtime of the proxy\<close>

record core_state =
  rc_Running :: "bool option"
  rc_Ready :: bool
  rc_ErrorCode :: string

record listener_state =
  rl_Available :: bool
  rl_ErrorCode :: string

record connectivity_state =
  rn_Available :: bool
  rn_Outcome :: string
  rn_ErrorCode :: string
  rn_LatencyMs :: "int option"

record runtime_diagnostics =
  rd_DNS :: "dns_state option"
  rd_Core :: core_state
  rd_Host :: string
  rd_Port :: "int option"
  rd_Listener :: listener_state
  rd_Connectivity :: connectivity_state

text \<open>What a diagnosis does: a request to the controller, a connection to the local endpoint, the public request through it, a line of the log.\<close>

datatype probe = Controller string | Listener string | Public string | Logged string

definition with_port :: "int \<Rightarrow> string" where "with_port port = ''127.0.0.1:'' @ format_int port"

definition controller_failure :: "string \<Rightarrow> bool \<Rightarrow> net_error \<Rightarrow> core_state \<Rightarrow> core_state" where
  "controller_failure lastError direct e c =
     (let code = (if ne_deadline e \<or> ne_timeout e then ''timeout'' else ''core-config-unavailable'')
      in c\<lparr>rc_ErrorCode := (if lastError \<noteq> [] then lastError else code),
           rc_Running := (if direct \<and> (ne_refused e \<or> ne_missing e) then Some False else rc_Running c)\<rparr>)"

definition runtime_port :: "int \<times> int \<Rightarrow> int" where
  "runtime_port ports = (case ports of (mixed, http) \<Rightarrow> if mixed \<le> 0 then http else mixed)"

definition collectProxyRuntimeDiagnostics ::
  "bool \<Rightarrow> string \<Rightarrow> bool \<Rightarrow> net_error + core_response \<Rightarrow> (string \<Rightarrow> listener_state) \<Rightarrow> (string \<Rightarrow> connectivity_state \<times> probe list) \<Rightarrow> runtime_diagnostics \<times> probe list" where
  "collectProxyRuntimeDiagnostics running lastError direct config listener connectivity =
     (let core0 = \<lparr>rc_Running = (if direct then None else Some running), rc_Ready = False, rc_ErrorCode = lastError\<rparr>;
          r0 = \<lparr>rd_DNS = None, rd_Core = core0, rd_Host = ''127.0.0.1'', rd_Port = None,
                rd_Listener = \<lparr>rl_Available = False, rl_ErrorCode = ''runtime-port-unavailable''\<rparr>,
                rd_Connectivity = \<lparr>rn_Available = False, rn_Outcome = ''unreachable'', rn_ErrorCode = ''runtime-port-unavailable'', rn_LatencyMs = None\<rparr>\<rparr>
      in case config of
           Inl e \<Rightarrow>
             (let c = controller_failure lastError direct e core0
              in (r0\<lparr>rd_Core := c\<rparr>, [Controller ''/configs'', Logged (''[ProxyRuntime] Configuration unavailable: '' @ rc_ErrorCode c)]))
         | Inr response \<Rightarrow>
             (let loaded = core0\<lparr>rc_Running := Some True\<rparr>
              in case (if cr_status response = 200 then cr_ports response else None) of
                   None \<Rightarrow> (r0\<lparr>rd_Core := loaded\<lparr>rc_ErrorCode := ''core-config-failed''\<rparr>\<rparr>, [Controller ''/configs''])
                 | Some ports \<Rightarrow>
                     (let port = runtime_port ports
                      in if port \<le> 0 \<or> 65535 < port
                         then (r0\<lparr>rd_Core := loaded\<lparr>rc_ErrorCode := ''runtime-port-unavailable''\<rparr>\<rparr>, [Controller ''/configs''])
                         else
                           (let endpoint = with_port port; l = listener endpoint;
                                r1 = r0\<lparr>rd_Core := loaded\<lparr>rc_Ready := True, rc_ErrorCode := []\<rparr>, rd_Port := Some port, rd_Listener := l\<rparr>;
                                ps = [Controller ''/configs'', Logged (''[ProxyRuntime] Core running; runtime endpoint: '' @ endpoint), Listener endpoint,
                                      Logged (''[ProxyRuntime] Listener reachable: '' @ (if rl_Available l then ''true'' else ''false''))]
                            in if \<not> rl_Available l
                               then (r1\<lparr>rd_Connectivity := (rd_Connectivity r1)\<lparr>rn_ErrorCode := rl_ErrorCode l\<rparr>\<rparr>, ps)
                               else (case connectivity endpoint of (c, cs) \<Rightarrow>
                                   (r1\<lparr>rd_Connectivity := c\<rparr>,
                                    ps @ cs @ [Logged (if rn_Available c then ''[ProxyRuntime] Connectivity successful''
                                                       else ''[ProxyRuntime] Connectivity test failed: '' @ rn_ErrorCode c)]))))))"

definition probeLocalProxyListener :: "net_error option \<Rightarrow> listener_state" where
  "probeLocalProxyListener dial =
     (case dial of
        Some e \<Rightarrow> \<lparr>rl_Available = False, rl_ErrorCode = networkErrorCode e\<rparr>
      | None \<Rightarrow> \<lparr>rl_Available = True, rl_ErrorCode = []\<rparr>)"

text \<open>\<open>OnProxyConnectResponse\<close>: the answer of the proxy to \<open>CONNECT\<close>.\<close>

definition connect_response :: "int \<Rightarrow> net_error option" where
  "connect_response status =
     (if status = 407 then Some (plain_error ''proxy-authentication'')
      else if status \<noteq> 200 then Some (plain_error ''tunnel-rejected'')
      else None)"

text \<open>The answer is an error or a status; \<open>ms\<close> is the time it took.\<close>

definition requestProxyConnectivity :: "net_error + int \<Rightarrow> int \<Rightarrow> connectivity_state" where
  "requestProxyConnectivity response ms =
     (case response of
        Inl e \<Rightarrow>
          \<lparr>rn_Available = False, rn_Outcome = (if ne_op e = Some ''dial'' \<or> ne_op e = Some ''proxyconnect'' then ''unreachable'' else ''outbound-failed''),
           rn_ErrorCode = networkErrorCode e, rn_LatencyMs = None\<rparr>
      | Inr status \<Rightarrow>
          if status \<noteq> 204 then \<lparr>rn_Available = False, rn_Outcome = ''outbound-failed'', rn_ErrorCode = ''unexpected-response'', rn_LatencyMs = None\<rparr>
          else \<lparr>rn_Available = True, rn_Outcome = ''success'', rn_ErrorCode = [], rn_LatencyMs = Some ms\<rparr>)"

subsection \<open>The controller\<close>

definition RuntimeDiagnosticState :: "core_manager \<Rightarrow> bool \<times> string" where
  "RuntimeDiagnosticState s =
     (let t = ce_Type (hb_last (cm_hub s))
      in (cm_isRunning s \<and> 0 < cm_pid s,
          if t = ''failed'' then ''core-start-failed'' else if t = ''restart_failed'' then ''core-restart-failed''
          else if t = ''exited'' then ''core-exited'' else []))"

text \<open>
  The sockets: the outcome of a connection to an address, whether the request has ended after that attempt, the answers of
  the controller behind an address, a connection to a local endpoint, and the public request through one with its time.
\<close>

record core_net =
  cn_dial :: "string \<Rightarrow> net_error option"
  cn_ended :: "string \<Rightarrow> bool"
  cn_answer :: "string \<Rightarrow> string \<Rightarrow> net_error + core_response"
  cn_local :: "string \<Rightarrow> net_error option"
  cn_public :: "string \<Rightarrow> (net_error + int) \<times> int"

definition dialCoreController :: "core_net \<Rightarrow> string \<Rightarrow> string \<Rightarrow> net_error + string" where
  "dialCoreController N network address =
     (if network \<noteq> ''unix'' then Inl (plain_error ''Unix core controller only supports Unix sockets'')
      else (case cn_dial N address of Some e \<Rightarrow> Inl e | None \<Rightarrow> Inr address))"

definition directCoreControllerEndpoints :: "string list" where
  "directCoreControllerEndpoints = [''/tmp/kokorobox-mihomo-api.sock'', ''/tmp/kokorobox-mihomo-api-noperm.sock'', ''/tmp/kokorobox-mihomo-external.sock'']"

fun dial_fixed :: "core_net \<Rightarrow> net_error option \<Rightarrow> net_error option \<Rightarrow> string list \<Rightarrow> net_error option + string" where
  "dial_fixed N lastError inspectionError [] = Inl (if inspectionError \<noteq> None then inspectionError else lastError)"
| "dial_fixed N lastError inspectionError (a # as) =
     (case dialCoreController N ''unix'' a of
        Inr conn \<Rightarrow> Inr conn
      | Inl e \<Rightarrow>
          (let inspectionError' = (if \<not> ne_missing e \<and> \<not> ne_refused e then Some e else inspectionError)
           in if cn_ended N a then Inl (if inspectionError' \<noteq> None then inspectionError' else Some e)
              else dial_fixed N (Some e) inspectionError' as))"

definition dialFixedDirectControllers :: "core_net \<Rightarrow> net_error + string" where
  "dialFixedDirectControllers N =
     (case dial_fixed N None None directCoreControllerEndpoints of
        Inr conn \<Rightarrow> Inr conn
      | Inl (Some e) \<Rightarrow> Inl e
      | Inl None \<Rightarrow> Inl (plain_error []))"

definition controller_request :: "core_net \<Rightarrow> bool \<Rightarrow> string \<Rightarrow> string \<Rightarrow> string \<Rightarrow> net_error + core_response" where
  "controller_request N direct network address path =
     (if address = [] then Inl (plain_error ''controller-unavailable'')
      else (case (if direct then dialFixedDirectControllers N else dialCoreController N network address) of
          Inl e \<Rightarrow> Inl e
        | Inr conn \<Rightarrow> cn_answer N conn path))"

text \<open>The public probe and the queries for names, unless the parameter \<open>probe\<close> switches them off.\<close>

definition public_probe :: "core_net \<Rightarrow> string \<Rightarrow> string \<Rightarrow> connectivity_state \<times> probe list" where
  "public_probe N pp endpoint =
     (if pp = ''false'' then (\<lparr>rn_Available = False, rn_Outcome = ''unreachable'', rn_ErrorCode = ''not-tested'', rn_LatencyMs = None\<rparr>, [])
      else (case cn_public N endpoint of (answer, ms) \<Rightarrow> (requestProxyConnectivity answer ms, [Public endpoint])))"

definition name_probes :: "string \<Rightarrow> probe list" where
  "name_probes pp = (if pp = ''false'' then [] else map Controller (concat (map (\<lambda>d. map (query_path d) [''A'', ''AAAA'']) diagnosticDNSDomains)))"

text \<open>\<open>probe\<close> is what the parameter of that name says. The queries for names run beside the other probes.\<close>

definition coreProxyDiagnostics :: "core_net \<Rightarrow> string \<Rightarrow> string \<Rightarrow> core_manager \<Rightarrow> runtime_diagnostics \<times> probe list" where
  "coreProxyDiagnostics N direct_param probe_param s =
     (let direct = (direct_param = ''true'');
          (running, lastError) = RuntimeDiagnosticState s;
          (network, address) = (if direct then (''unix'', hd directCoreControllerEndpoints)
                                else (case ControllerEndpoint s of Inl e \<Rightarrow> ([], []) | Inr na \<Rightarrow> na));
          request = controller_request N direct network address;
          (result, ps) = collectProxyRuntimeDiagnostics running lastError direct (request ''/configs'')
             (\<lambda>endpoint. probeLocalProxyListener (cn_local N endpoint))
             (public_probe N probe_param)
      in if probe_param = ''false'' then (result, ps)
         else (result\<lparr>rd_DNS := Some (probeCoreDNS (\<lambda>p. map_sum id Some (request p)))\<rparr>, ps @ name_probes probe_param))"

subsection \<open>Forwarding to the controller\<close>

definition strings_CutPrefix :: "string \<Rightarrow> string \<Rightarrow> string option" where
  "strings_CutPrefix s p = (if has_prefix s p then Some (drop (length p) s) else None)"

definition stripCoreControllerPrefix :: "string \<Rightarrow> string" where
  "stripCoreControllerPrefix path =
     (case strings_CutPrefix path ''/core/controller'' of
        Some after \<Rightarrow> if after = [] then ''/'' else after
      | None \<Rightarrow>
          (case strings_CutPrefix path ''/controller'' of
             Some after \<Rightarrow> if after = [] then ''/'' else after
           | None \<Rightarrow> path))"

text \<open>
  The rewriting of a request: the path of its target is decoded by \<open>net/url\<close>, the prefix is taken off, and the escaped form is
  dropped, so that the path is written out from its decoded form.
\<close>

fun path_unescape :: "string \<Rightarrow> string option" where
  "path_unescape [] = Some []"
| "path_unescape (c # s) =
     (if c = CHR ''%'' then
        (case s of
           a # b # r \<Rightarrow>
             (case (unhex a, unhex b) of
                (Some x, Some y) \<Rightarrow> map_option (\<lambda>t. char_of (16 * x + y) # t) (path_unescape r)
              | _ \<Rightarrow> None)
         | _ \<Rightarrow> None)
      else map_option ((#) c) (path_unescape s))"

definition forward_path :: "string \<Rightarrow> string option" where
  "forward_path target = map_option stripCoreControllerPrefix (path_unescape target)"

text \<open>
  The cache and the requests that use it. A transport is known by its number and always dials the endpoint it was
  made for; \<open>tc_idle\<close> are the transports that hold idle connections. A request is served with a transport, then looks whether this is still the
  current one; closing the idle connections of a transport happens after the lock was released.
\<close>

datatype phase = Serving | Served

record request_run =
  rr_endpoint :: "string \<times> string"
  rr_transport :: nat
  rr_phase :: phase

record transport_cache =
  tc_current :: "(string \<times> string \<times> nat) option"
  tc_made :: "(string \<times> string) list"
  tc_idle :: "nat set"
  tc_closing :: "nat list"
  tc_runs :: "request_run list"

definition cache_get :: "string \<Rightarrow> string \<Rightarrow> transport_cache \<Rightarrow> nat \<times> transport_cache" where
  "cache_get network address c =
     (case tc_current c of
        Some (n, a, t) \<Rightarrow>
          if n = network \<and> a = address then (t, c)
          else (let t' = length (tc_made c)
                in (t', c\<lparr>tc_current := Some (network, address, t'), tc_made := tc_made c @ [(network, address)], tc_closing := t # tc_closing c\<rparr>))
      | None \<Rightarrow>
          (let t' = length (tc_made c) in (t', c\<lparr>tc_current := Some (network, address, t'), tc_made := tc_made c @ [(network, address)]\<rparr>)))"

definition is_stale :: "nat \<Rightarrow> transport_cache \<Rightarrow> bool" where
  "is_stale t c = (case tc_current c of Some (_, _, t') \<Rightarrow> t' \<noteq> t | None \<Rightarrow> True)"

definition closeIfStale :: "nat \<Rightarrow> transport_cache \<Rightarrow> transport_cache" where
  "closeIfStale t c = (if is_stale t c then c\<lparr>tc_closing := t # tc_closing c\<rparr> else c)"

text \<open>A request comes; an answer is finished and may leave its connection idle; the request looks at its transport; idle connections are closed.\<close>

inductive cache_step :: "transport_cache \<Rightarrow> transport_cache \<Rightarrow> bool" where
  comes: "cache_get network address c = (t, c') \<Longrightarrow>
    cache_step c (c'\<lparr>tc_runs := \<lparr>rr_endpoint = (network, address), rr_transport = t, rr_phase = Serving\<rparr> # tc_runs c'\<rparr>)"
| answered: "i < length (tc_runs c) \<Longrightarrow> rr_phase (tc_runs c ! i) = Serving \<Longrightarrow> idle \<in> {tc_idle c, insert (rr_transport (tc_runs c ! i)) (tc_idle c)} \<Longrightarrow>
    cache_step c (c\<lparr>tc_idle := idle, tc_runs := (tc_runs c)[i := (tc_runs c ! i)\<lparr>rr_phase := Served\<rparr>]\<rparr>)"
| leaves: "tc_runs c = before @ r # after \<Longrightarrow> rr_phase r = Served \<Longrightarrow>
    cache_step c (closeIfStale (rr_transport r) (c\<lparr>tc_runs := before @ after\<rparr>))"
| closes: "tc_closing c = before @ t # after \<Longrightarrow>
    cache_step c (c\<lparr>tc_idle := tc_idle c - {t}, tc_closing := before @ after\<rparr>)"

definition empty_cache :: transport_cache where
  "empty_cache = \<lparr>tc_current = None, tc_made = [], tc_idle = {}, tc_closing = [], tc_runs = []\<rparr>"

section \<open>Lemmas\<close>

lemma network_codes: "networkErrorCode e \<in> {''timeout'', ''connection-refused'', ''proxy-authentication'', ''tunnel-rejected'', ''tls-failed'', ''network-error''}"
  by (simp add: networkErrorCode_def)

lemma network_code_ne: "networkErrorCode e \<noteq> []"
  using network_codes [of e] by auto

subsection \<open>Names\<close>

lemma classify_three: "classifyDNSResponse r k \<in> {''success'', ''failed'', ''unavailable''}"
  by (auto simp: classifyDNSResponse_def split: sum.splits option.splits)

text \<open>What the outcomes mean: a domain works when one of the types does, and fails when none does and one fails; all together are as
  bad as the worst.\<close>

definition name_outcome :: "(string \<Rightarrow> net_error + core_response option) \<Rightarrow> string \<Rightarrow> string" where
  "name_outcome request d =
     (let os = (\<lambda>k. classifyDNSResponse (request (query_path d k)) k) ` {''A'', ''AAAA''}
      in if ''success'' \<in> os then ''success'' else if ''failed'' \<in> os then ''failed'' else ''unavailable'')"

definition worst :: "string set \<Rightarrow> string" where
  "worst os = (if ''failed'' \<in> os then ''failed'' else if ''unavailable'' \<in> os then ''unavailable'' else ''success'')"

lemma domain_reference: "domain_outcome request = name_outcome request"
  by (rule ext) (simp add: domain_outcome_def name_outcome_def)

lemma domain_three: "domain_outcome request d \<in> {''success'', ''failed'', ''unavailable''}"
  by (auto simp: domain_reference name_outcome_def Let_def)

lemma overall_reference:
  "acc \<in> {''success'', ''unavailable''} \<Longrightarrow> snd ` set qs \<subseteq> {''success'', ''failed'', ''unavailable''} \<Longrightarrow>
     overall acc qs = (if ''failed'' \<in> snd ` set qs then ''failed'' else if ''unavailable'' \<in> insert acc (snd ` set qs) then ''unavailable'' else ''success'')"
  by (induction acc qs rule: overall.induct) auto

subsection \<open>The runtime\<close>

definition endpoint_probe :: "probe \<Rightarrow> string option" where
  "endpoint_probe p = (case p of Listener e \<Rightarrow> Some e | Public e \<Rightarrow> Some e | _ \<Rightarrow> None)"

text \<open>The three ways a diagnosis of the runtime ends without looking at the endpoint, and the two ways after it.\<close>

lemma collect_cases:
  assumes "collectProxyRuntimeDiagnostics running lastError direct config listener connectivity = (d, ps)"
  obtains (no_config) e where "config = Inl e" "\<not> rc_Ready (rd_Core d)" "rc_ErrorCode (rd_Core d) = (if lastError \<noteq> [] then lastError else if ne_deadline e \<or> ne_timeout e then ''timeout'' else ''core-config-unavailable'')"
      "rc_Running (rd_Core d) = (if direct then (if ne_refused e \<or> ne_missing e then Some False else None) else Some running)" "rd_Port d = None" "rd_Listener d = \<lparr>rl_Available = False, rl_ErrorCode = ''runtime-port-unavailable''\<rparr>" "\<not> rn_Available (rd_Connectivity d)"
      "ps = [Controller ''/configs'', Logged (''[ProxyRuntime] Configuration unavailable: '' @ rc_ErrorCode (rd_Core d))]"
  | (no_port) r where "config = Inr r" "\<not> rc_Ready (rd_Core d)" "rc_ErrorCode (rd_Core d) \<in> {''core-config-failed'', ''runtime-port-unavailable''}" "rc_Running (rd_Core d) = Some True"
      "rd_Port d = None" "rd_Listener d = \<lparr>rl_Available = False, rl_ErrorCode = ''runtime-port-unavailable''\<rparr>" "\<not> rn_Available (rd_Connectivity d)" "ps = [Controller ''/configs'']"
  | (port) r ports port where "config = Inr r" "cr_status r = 200" "cr_ports r = Some ports" "port = runtime_port ports" "1 \<le> port" "port \<le> 65535"
      "rd_Core d = \<lparr>rc_Running = Some True, rc_Ready = True, rc_ErrorCode = []\<rparr>" "rd_Port d = Some port" "rd_Listener d = listener (with_port port)"
      "if rl_Available (rd_Listener d) then
         rd_Connectivity d = fst (connectivity (with_port port)) \<and>
         (\<exists>a b c. ps = [Controller ''/configs'', Logged a, Listener (with_port port), Logged b] @ snd (connectivity (with_port port)) @ [Logged c])
       else \<not> rn_Available (rd_Connectivity d) \<and> rn_ErrorCode (rd_Connectivity d) = rl_ErrorCode (rd_Listener d) \<and>
         (\<exists>a b. ps = [Controller ''/configs'', Logged a, Listener (with_port port), Logged b])"
proof -
  show thesis
  proof (cases config)
    case (Inl e)
    show thesis
      by (rule no_config [OF Inl]) (use assms in \<open>auto simp: collectProxyRuntimeDiagnostics_def controller_failure_def Inl Let_def\<close>)
  next
    case (Inr r)
    show thesis
    proof (cases "\<exists>ports. cr_status r = 200 \<and> cr_ports r = Some ports \<and> 1 \<le> runtime_port ports \<and> runtime_port ports \<le> 65535")
      case False
      show thesis
        by (rule no_port [OF Inr]) (use assms False in \<open>auto simp: collectProxyRuntimeDiagnostics_def Inr Let_def split: if_splits option.splits\<close>)
    next
      case True
      then obtain ports where p: "cr_status r = 200" "cr_ports r = Some ports" "1 \<le> runtime_port ports" "runtime_port ports \<le> 65535" by blast
      obtain cc cs where c: "connectivity (with_port (runtime_port ports)) = (cc, cs)" by fastforce
      show thesis
        by (rule port [OF Inr p(1,2) refl p(3,4)])
          (use assms p in \<open>auto simp: collectProxyRuntimeDiagnostics_def Inr c Let_def split: if_splits\<close>)
    qed
  qed
qed

subsection \<open>The fixed endpoints\<close>

text \<open>The answer comes from the first address that is there; an error that is more than an absent controller is not hidden.\<close>

lemma dial_fixed_connects: "dial_fixed N l i as = Inr a \<Longrightarrow> a \<in> set as \<and> cn_dial N a = None"
  by (induction N l i as rule: dial_fixed.induct) (auto simp: dialCoreController_def Let_def split: option.splits sum.splits if_splits)

definition absent :: "net_error \<Rightarrow> bool" where
  "absent e \<longleftrightarrow> ne_missing e \<or> ne_refused e"

lemma dial_fixed_fails:
  "dial_fixed N l i as = Inl (Some e) \<Longrightarrow> \<forall>b \<in> set as. \<not> cn_ended N b \<Longrightarrow> \<forall>y. i = Some y \<longrightarrow> \<not> absent y \<Longrightarrow>
     i \<noteq> None \<or> (\<exists>a \<in> set as. \<exists>y. cn_dial N a = Some y \<and> \<not> absent y) \<Longrightarrow> \<not> absent e"
proof (induction as arbitrary: l i)
  case (Cons a as)
  obtain y where y: "cn_dial N a = Some y" using Cons.prems(1) by (cases "cn_dial N a") (auto simp: dialCoreController_def)
  let ?i = "if \<not> absent y then Some y else i"
  have "dial_fixed N (Some y) ?i as = Inl (Some e)" using Cons.prems(1,2) by (auto simp: dialCoreController_def y absent_def Let_def split: if_splits)
  moreover have "\<forall>b \<in> set as. \<not> cn_ended N b" using Cons.prems(2) by simp
  moreover have "\<forall>z. ?i = Some z \<longrightarrow> \<not> absent z" using Cons.prems(3) by simp
  moreover have "?i \<noteq> None \<or> (\<exists>a \<in> set as. \<exists>y. cn_dial N a = Some y \<and> \<not> absent y)" using Cons.prems(4) y by auto
  ultimately show ?case by (rule Cons.IH)
qed auto

subsection \<open>The transports\<close>

definition cache_inv :: "transport_cache \<Rightarrow> bool" where
  "cache_inv c \<longleftrightarrow>
     (\<forall>n a t. tc_current c = Some (n, a, t) \<longrightarrow> t < length (tc_made c) \<and> tc_made c ! t = (n, a)) \<and>
     (\<forall>r \<in> set (tc_runs c). rr_transport r < length (tc_made c) \<and> tc_made c ! rr_transport r = rr_endpoint r) \<and>
     (\<forall>t \<in> tc_idle c. \<not> is_stale t c \<or> t \<in> set (tc_closing c) \<or> t \<in> rr_transport ` set (tc_runs c))"

lemma cache_get_inv:
  assumes "cache_inv c" "cache_get network address c = (t, c')"
  shows "cache_inv c' \<and> t < length (tc_made c') \<and> tc_made c' ! t = (network, address) \<and> tc_runs c' = tc_runs c"
proof (cases "\<exists>t. tc_current c = Some (network, address, t)")
  case True
  then show ?thesis using assms by (auto simp: cache_get_def cache_inv_def)
next
  case False
  have old: "\<forall>r \<in> set (tc_runs c). (tc_made c @ [(network, address)]) ! rr_transport r = rr_endpoint r" using assms(1) by (auto simp: cache_inv_def nth_append)
  show ?thesis
  proof (cases "tc_current c")
    case None
    then show ?thesis using assms old by (auto simp: cache_get_def cache_inv_def is_stale_def Let_def less_SucI)
  next
    case (Some nat)
    then obtain n a t0 where s: "tc_current c = Some (n, a, t0)" by (cases nat) auto
    then show ?thesis using assms old False by (auto simp: cache_get_def cache_inv_def is_stale_def Let_def less_SucI) metis+
  qed
qed

lemma cache_inv_step: "cache_step c c' \<Longrightarrow> cache_inv c \<Longrightarrow> cache_inv c'"
proof (induction rule: cache_step.induct)
  case (comes network address c t c')
  then show ?case using cache_get_inv [OF comes(2,1)] by (auto simp: cache_inv_def is_stale_def)
next
  case (answered i c idle)
  let ?rs = "(tc_runs c)[i := (tc_runs c ! i)\<lparr>rr_phase := Served\<rparr>]"
  have m: "rr_transport (tc_runs c ! i) \<in> rr_transport ` set (tc_runs c)" using answered(1) by simp
  have t: "map rr_transport ?rs = map rr_transport (tc_runs c)" "map rr_endpoint ?rs = map rr_endpoint (tc_runs c)"
    using answered(1) by (auto intro: nth_equalityI simp: nth_list_update)
  then have s: "rr_transport ` set ?rs = rr_transport ` set (tc_runs c)" by (metis list.set_map)
  have r: "\<exists>q \<in> set (tc_runs c). rr_transport q = rr_transport r \<and> rr_endpoint q = rr_endpoint r" if "r \<in> set ?rs" for r
    using set_update_subset_insert [of "tc_runs c" i] that answered(1) by fastforce
  let ?c = "c\<lparr>tc_idle := idle, tc_runs := ?rs\<rparr>"
  have "is_stale u ?c = is_stale u c" for u by (simp add: is_stale_def)
  moreover have "idle \<subseteq> insert (rr_transport (tc_runs c ! i)) (tc_idle c)" using answered(3) by auto
  ultimately have "\<forall>u \<in> tc_idle ?c. \<not> is_stale u ?c \<or> u \<in> set (tc_closing ?c) \<or> u \<in> rr_transport ` set (tc_runs ?c)"
    using answered(4) m unfolding cache_inv_def by (simp add: s) blast
  moreover have "\<forall>q \<in> set (tc_runs ?c). rr_transport q < length (tc_made ?c) \<and> tc_made ?c ! rr_transport q = rr_endpoint q"
  proof
    fix q
    assume "q \<in> set (tc_runs ?c)"
    then obtain q' where "q' \<in> set (tc_runs c)" "rr_transport q' = rr_transport q" "rr_endpoint q' = rr_endpoint q" using r by auto
    then show "rr_transport q < length (tc_made ?c) \<and> tc_made ?c ! rr_transport q = rr_endpoint q"
      using answered(4) by (fastforce simp: cache_inv_def)
  qed
  ultimately show ?case using answered(4) by (simp add: cache_inv_def)
next
  case (leaves c before r after)
  then show ?case by (auto simp: cache_inv_def closeIfStale_def is_stale_def split: option.splits)
next
  case (closes c before t after)
  then show ?case by (auto simp: cache_inv_def is_stale_def split: option.splits)
qed

lemma cache_reach_inv: "cache_step\<^sup>*\<^sup>* empty_cache c \<Longrightarrow> cache_inv c"
proof (induction rule: rtranclp_induct)
  case base
  show ?case by (simp add: cache_inv_def empty_cache_def)
qed (rule cache_inv_step)

text \<open>An escaped slash in the name of a proxy is forwarded as a slash, so the core sees another path.\<close>

lemma escaped_slash_lost:
  "forward_path ''/core/controller/p/a%2Fb'' = Some ''/p/a/b''"
  by (simp add: forward_path_def unhex_def byte_val_def char_of_def bit_0 stripCoreControllerPrefix_def strings_CutPrefix_def has_prefix_def)

section \<open>An example\<close>

text \<open>A core of the desktop that answers, with a proxy on port 7890 and names that are resolved.\<close>

definition toy_answers :: core_net where
  "toy_answers = \<lparr>cn_dial = (\<lambda>a. None), cn_ended = (\<lambda>a. False),
     cn_answer = (\<lambda>a path. Inr \<lparr>cr_status = 200, cr_ports = Some (0, 7890), cr_dns = Some \<lparr>dm_Status = Some 0, dm_Message = [], dm_Answer = [(1, ''1.2.3.4'')]\<rparr>\<rparr>),
     cn_local = (\<lambda>e. None), cn_public = (\<lambda>e. (Inr 204, 7))\<rparr>"

lemma diagnostics_collects:
  assumes "coreProxyDiagnostics N dp pp s = (d, ps)"
  obtains running lastError direct config d0 qs where
    "collectProxyRuntimeDiagnostics running lastError direct config (\<lambda>endpoint. probeLocalProxyListener (cn_local N endpoint)) (public_probe N pp) = (d0, qs)"
    "ps = qs @ name_probes pp" "rd_Port d = rd_Port d0" "rd_Core d = rd_Core d0" "rd_Listener d = rd_Listener d0" "rd_Connectivity d = rd_Connectivity d0"
proof -
  obtain running lastError where st: "RuntimeDiagnosticState s = (running, lastError)" by fastforce
  let ?direct = "dp = ''true''"
  obtain network address where na: "(if ?direct then (''unix'', hd directCoreControllerEndpoints) else (case ControllerEndpoint s of Inl e \<Rightarrow> ([], []) | Inr na \<Rightarrow> na)) = (network, address)"
    by fastforce
  obtain d0 qs where c: "collectProxyRuntimeDiagnostics running lastError ?direct (controller_request N ?direct network address ''/configs'')
      (\<lambda>endpoint. probeLocalProxyListener (cn_local N endpoint)) (public_probe N pp) = (d0, qs)" by fastforce
  show thesis
    by (rule that [OF c]) (use assms in \<open>auto simp: coreProxyDiagnostics_def st na c name_probes_def split: if_splits\<close>)
qed

lemma probed_public: "snd (public_probe N pp e) = (if pp = ''false'' then [] else [Public e])"
  by (simp add: public_probe_def case_prod_unfold)

lemma probed_available: "rn_Available (fst (public_probe N pp e)) \<Longrightarrow> fst (cn_public N e) = Inr 204"
  by (auto simp: public_probe_def requestProxyConnectivity_def case_prod_unfold split: if_splits sum.splits)

lemma listener_available: "rl_Available (probeLocalProxyListener r) \<longleftrightarrow> r = None"
  by (simp add: probeLocalProxyListener_def split: option.splits)

lemma names_probed:
  "set (name_probes pp) = (if pp = ''false'' then {} else (\<lambda>(dom, kind). Controller (query_path dom kind)) ` ({''www.gstatic.com'', ''example.com''} \<times> {''A'', ''AAAA''}))"
  "filter (\<lambda>p. \<exists>e. p = Public e) (name_probes pp) = []"
  by (auto simp: name_probes_def diagnosticDNSDomains_def)

section \<open>Properties\<close>

text \<open>
  Diagnostics stay within bounds: whatever the core answers, connections are made only to the loopback endpoint whose
  port the live core reported, this port is a valid one, the public request is made at most once, only after the endpoint has accepted a
  connection and not when probing is switched off, and the controller is asked for nothing but its
  configuration and the fixed names.
\<close>

theorem diagnostics_bounded:
  assumes "coreProxyDiagnostics N dp pp s = (d, ps)"
  shows "(\<forall>e. Listener e \<in> set ps \<or> Public e \<in> set ps \<longrightarrow>
       (\<exists>port. 1 \<le> port \<and> port \<le> 65535 \<and> rd_Port d = Some port \<and> rc_Ready (rd_Core d) \<and> e = ''127.0.0.1:'' @ format_int port)) \<and>
     (\<forall>e. Public e \<in> set ps \<longrightarrow> rl_Available (rd_Listener d) \<and> cn_local N e = None \<and> pp \<noteq> ''false'') \<and>
     length (filter (\<lambda>p. \<exists>e. p = Public e) ps) \<le> 1 \<and>
     (\<forall>path. Controller path \<in> set ps \<longrightarrow> path = ''/configs'' \<or>
       pp \<noteq> ''false'' \<and> (\<exists>dom \<in> {''www.gstatic.com'', ''example.com''}. \<exists>kind \<in> {''A'', ''AAAA''}. path = query_path dom kind))"
proof -
  obtain running lastError direct config d0 qs where
    k: "collectProxyRuntimeDiagnostics running lastError direct config (\<lambda>endpoint. probeLocalProxyListener (cn_local N endpoint)) (public_probe N pp) = (d0, qs)"
    "ps = qs @ name_probes pp" "rd_Port d = rd_Port d0" "rd_Core d = rd_Core d0" "rd_Listener d = rd_Listener d0"
    using diagnostics_collects [OF assms] .
  from k(1) show ?thesis
  proof (cases rule: collect_cases)
    case (no_config e)
    then show ?thesis by (auto simp: k names_probed split: if_splits)
  next
    case (no_port r)
    then show ?thesis by (auto simp: k names_probed split: if_splits)
  next
    case (port r ports port)
    then show ?thesis by (auto simp: k names_probed probed_public listener_available with_port_def split: if_splits)
  qed
qed

theorem diagnostics_bounded_witness:
  "\<forall>e. Public e \<notin> set (snd (coreProxyDiagnostics toy_answers ''true'' ''false'' toy_core))"
  using diagnostics_bounded [of toy_answers "''true''" "''false''" toy_core, OF prod.collapse [symmetric]] by simp

text \<open>
  Names are judged as documented: a name works when the core resolved it to an address of the asked type for one of the types, it fails
  when the core answered and neither worked, and the overall outcome is the worst of the names, in whatever order they are answered.
\<close>

theorem dns_outcome_worst:
  "probeCoreDNS request =
     \<lparr>dn_Outcome = worst (name_outcome request ` set diagnosticDNSDomains),
      dn_Queries = map (\<lambda>d. (d, name_outcome request d)) diagnosticDNSDomains\<rparr>"
proof -
  let ?qs = "map (\<lambda>d. (d, domain_outcome request d)) diagnosticDNSDomains"
  have "snd ` set ?qs \<subseteq> {''success'', ''failed'', ''unavailable''}" using domain_three [of request] by (simp add: image_subset_iff)
  from overall_reference [OF _ this, of "''success''"] have "overall ''success'' ?qs = worst (domain_outcome request ` set diagnosticDNSDomains)"
    by (simp add: image_image worst_def)
  then show ?thesis by (simp add: probeCoreDNS_def domain_reference)
qed

text \<open>
  The report tells the truth: the core is called ready exactly when there is no error code, it is called running when its
  configuration was read, connectivity is reported only for an answer 204 through the proxy, and the codes of the
  network are fixed words, never the text of an error.
\<close>

theorem diagnostics_truthful:
  assumes "coreProxyDiagnostics N dp pp s = (d, ps)"
  shows "(rc_Ready (rd_Core d) \<longleftrightarrow> rc_ErrorCode (rd_Core d) = []) \<and> (rc_Ready (rd_Core d) \<longrightarrow> rc_Running (rd_Core d) = Some True) \<and>
     (rn_Available (rd_Connectivity d) \<longrightarrow> (\<exists>port. rd_Port d = Some port \<and> fst (cn_public N (with_port port)) = Inr 204 \<and> cn_local N (with_port port) = None)) \<and>
     rl_ErrorCode (rd_Listener d) \<in> {[], ''runtime-port-unavailable'', ''timeout'', ''connection-refused'', ''proxy-authentication'', ''tunnel-rejected'', ''tls-failed'', ''network-error''}"
proof -
  obtain running lastError direct config d0 qs where
    k: "collectProxyRuntimeDiagnostics running lastError direct config (\<lambda>endpoint. probeLocalProxyListener (cn_local N endpoint)) (public_probe N pp) = (d0, qs)"
    "rd_Port d = rd_Port d0" "rd_Core d = rd_Core d0" "rd_Listener d = rd_Listener d0" "rd_Connectivity d = rd_Connectivity d0"
    using diagnostics_collects [OF assms] .
  from k(1) show ?thesis
  proof (cases rule: collect_cases)
    case (no_config e)
    then show ?thesis by (auto simp: k(2-))
  next
    case (no_port r)
    then show ?thesis by (auto simp: k(2-))
  next
    case (port r ports port)
    then show ?thesis using network_codes probed_available [of N pp "with_port port"]
      by (auto simp: k(2-) listener_available probeLocalProxyListener_def split: if_splits option.splits)
  qed
qed


theorem diagnostics_truthful_witness:
  "rc_Ready (rd_Core (fst (coreProxyDiagnostics toy_answers ''true'' ''false'' toy_core)))"
proof -
  let ?d = "fst (coreProxyDiagnostics toy_answers ''true'' ''false'' toy_core)"
  have "rc_ErrorCode (rd_Core ?d) = []"
    by (simp add: coreProxyDiagnostics_def collectProxyRuntimeDiagnostics_def controller_request_def dialFixedDirectControllers_def directCoreControllerEndpoints_def
        dialCoreController_def toy_answers_def runtime_port_def probeLocalProxyListener_def Let_def case_prod_unfold)
  then show ?thesis using diagnostics_truthful [of toy_answers "''true''" "''false''" toy_core, OF prod.collapse [symmetric]] by simp
qed

text \<open>
  C39. Requests reach the core they are meant for: in every interleaving of requests, of changes of the controller's endpoint and of the closing
  of connections, the transport a request uses dials the endpoint the request was given; and when no request and no
  closing is under way, only the current transport holds connections, so nothing is kept open to an earlier core.
\<close>

theorem controller_transport:
  assumes "cache_step\<^sup>*\<^sup>* empty_cache c"
  shows "list_all (\<lambda>r. rr_transport r < length (tc_made c) \<and> tc_made c ! rr_transport r = rr_endpoint r) (tc_runs c) \<and>
     (tc_runs c = [] \<and> tc_closing c = [] \<longrightarrow> tc_idle c \<subseteq> {t. \<exists>n a. tc_current c = Some (n, a, t)})"
  using cache_reach_inv [OF assms] by (fastforce simp: cache_inv_def list_all_iff is_stale_def split: option.splits)

theorem controller_transport_witness:
  "\<exists>c. cache_step\<^sup>*\<^sup>* empty_cache c \<and> length (tc_runs c) = 1 \<and> tc_made c ! rr_transport (hd (tc_runs c)) = (''unix'', ''/s'')"
proof -
  let ?c = "empty_cache\<lparr>tc_current := Some (''unix'', ''/s'', 0), tc_made := [(''unix'', ''/s'')], tc_runs := [\<lparr>rr_endpoint = (''unix'', ''/s''), rr_transport = 0, rr_phase = Serving\<rparr>]\<rparr>"
  have "cache_step empty_cache ?c"
    using cache_step.comes [of "''unix''" "''/s''" empty_cache 0 "empty_cache\<lparr>tc_current := Some (''unix'', ''/s'', 0), tc_made := [(''unix'', ''/s'')]\<rparr>"]
    by (simp add: cache_get_def empty_cache_def)
  then have r: "cache_step\<^sup>*\<^sup>* empty_cache ?c" by blast
  show ?thesis using controller_transport [OF r] r by (intro exI [of _ ?c]) simp
qed

text \<open>
  The desktop's core is reported as stopped only when it is absent: a failure that looks like a missing or refusing controller means that
  every one of the fixed endpoints was missing or refused, and a connection is always one to a fixed endpoint.
\<close>

theorem direct_dial_sound:
  assumes "\<forall>a \<in> set directCoreControllerEndpoints. \<not> cn_ended N a"
  shows "case dialFixedDirectControllers N of
      Inr a \<Rightarrow> a \<in> set directCoreControllerEndpoints \<and> cn_dial N a = None
    | Inl e \<Rightarrow> absent e \<longrightarrow> (\<forall>a \<in> set directCoreControllerEndpoints. \<exists>y. cn_dial N a = Some y \<and> absent y)"
proof (cases "dial_fixed N None None directCoreControllerEndpoints")
  case (Inr a)
  then show ?thesis using dial_fixed_connects [OF Inr] by (simp add: dialFixedDirectControllers_def)
next
  case (Inl r)
  have none: "dial_fixed N l i as = Inl q \<Longrightarrow> \<forall>a \<in> set as. \<exists>y. cn_dial N a = Some y" if "\<forall>a \<in> set as. \<not> cn_ended N a" for l i as q
    using that by (induction as arbitrary: l i) (auto simp: dialCoreController_def Let_def split: option.splits if_splits)
  have all: "\<forall>a \<in> set directCoreControllerEndpoints. \<exists>y. cn_dial N a = Some y" by (rule none [OF assms Inl])
  show ?thesis
  proof (cases r)
    case None
    then show ?thesis using Inl by (simp add: dialFixedDirectControllers_def absent_def plain_error_def)
  next
    case (Some e)
    have "\<not> absent e" if "\<exists>a \<in> set directCoreControllerEndpoints. \<exists>y. cn_dial N a = Some y \<and> \<not> absent y"
      using dial_fixed_fails [of N None None directCoreControllerEndpoints e] Inl Some assms that by simp
    then show ?thesis using Inl Some all by (fastforce simp: dialFixedDirectControllers_def)
  qed
qed

theorem direct_dial_sound_witness:
  "dialFixedDirectControllers toy_answers = Inr ''/tmp/kokorobox-mihomo-api.sock''"
  using direct_dial_sound [of toy_answers]
  by (simp add: toy_answers_def dialFixedDirectControllers_def directCoreControllerEndpoints_def dialCoreController_def)

text \<open>
  A forwarded path is the one behind the prefix, and always absolute, for the paths that the router hands to the proxy.
\<close>

theorem controller_path:
  "stripCoreControllerPrefix (''/core/controller'' @ rest) = (if rest = [] then ''/'' else rest)"
  by (simp add: stripCoreControllerPrefix_def strings_CutPrefix_def has_prefix_def)

end
