(* ===== verification/Http_Helpers.thy ===== *)
theory Http_Helpers
  imports Http_Socket Router_Diagnostics "HOL-Library.Multiset"
begin

text \<open>
  The helpers of the handlers (\<open>route/httphelper/utils.go\<close>), the translation of their messages (\<open>i18n/i18n.go\<close>) and
  the log of the service (\<open>log/log.go\<close>, \<open>log/tail.go\<close>). The catalogs of the translations are arguments.
\<close>

section \<open>Definitions\<close>

subsection \<open>Languages\<close>

type_synonym lang = string

definition English :: lang where "English = ''en''"
definition SimplifiedChinese :: lang where "SimplifiedChinese = ''zh-CN''"
definition TraditionalChinese :: lang where "TraditionalChinese = ''zh-TW''"

definition dashes :: "string \<Rightarrow> string" where
  "dashes s = map (\<lambda>c. if c = CHR ''_'' then CHR ''-'' else c) s"

definition Normalize :: "unicode \<Rightarrow> string \<Rightarrow> lang" where
  "Normalize U s =
     (let v = dashes (strings_ToLower U (trim_space (hd (split_at (CHR '','') s)))) in
      if v = ''zh-cn'' \<or> v = ''zh-hans'' \<or> has_prefix v ''zh-hans-'' then SimplifiedChinese
      else if v = ''zh-tw'' \<or> v = ''zh-hant'' \<or> has_prefix v ''zh-hant-'' then TraditionalChinese
      else English)"

definition language_tag :: "unicode \<Rightarrow> string \<Rightarrow> lang option" where
  "language_tag U part =
     (let tag = trim_space (hd (split_at (CHR '';'') part)) in
      if tag = [] then None
      else if Normalize U tag = SimplifiedChinese \<or> Normalize U tag = TraditionalChinese \<or> has_prefix (strings_ToLower U tag) ''en''
      then Some (Normalize U tag) else None)"

definition FromAcceptLanguage :: "unicode \<Rightarrow> lang \<Rightarrow> string \<Rightarrow> lang" where
  "FromAcceptLanguage U dflt s =
     (case List.map_filter (language_tag U) (split_at (CHR '','') s) of l # _ \<Rightarrow> l | [] \<Rightarrow> dflt)"

definition SetDefault :: "unicode \<Rightarrow> string \<Rightarrow> lang" where "SetDefault U s = Normalize U s"

text \<open>
  The catalogs: the source terms come in the order of the iteration over the map, which is not fixed. \<open>strings.NewReplacer\<close> takes at
  every place the first of its words that matches there.
\<close>

fun buildSimplifiedCatalog :: "(string \<times> string) list \<Rightarrow> string \<rightharpoonup> string" where
  "buildSimplifiedCatalog [] = Map.empty"
| "buildSimplifiedCatalog ((simplified, english) # terms) =
     (\<lambda>e. case buildSimplifiedCatalog terms e of Some t \<Rightarrow> Some t | None \<Rightarrow> if e = english then Some simplified else None)"

function replacer :: "(string \<times> string) list \<Rightarrow> string \<Rightarrow> string" where
  "replacer pairs [] = []"
| "replacer pairs (c # s) =
     (case find (\<lambda>(old, new). old \<noteq> [] \<and> has_prefix (c # s) old) pairs of
        Some (old, new) \<Rightarrow> new @ replacer pairs (drop (length old - 1) s)
      | None \<Rightarrow> c # replacer pairs s)"
  by pat_completeness auto
termination by (relation "measure (\<lambda>(pairs, s). length s)") auto

definition traditional_term :: "(string \<rightharpoonup> string) \<Rightarrow> (string \<times> string) list \<Rightarrow> string \<Rightarrow> string" where
  "traditional_term terms characters simplified = (case terms simplified of Some t \<Rightarrow> t | None \<Rightarrow> replacer characters simplified)"

definition buildTraditionalCatalog :: "(string \<rightharpoonup> string) \<Rightarrow> (string \<times> string) list \<Rightarrow> (string \<times> string) list \<Rightarrow> string \<rightharpoonup> string" where
  "buildTraditionalCatalog terms characters source =
     buildSimplifiedCatalog (map (\<lambda>(simplified, english). (traditional_term terms characters simplified, english)) source)"

record catalogs =
  ct_simplified :: "string \<rightharpoonup> string"
  ct_traditional :: "string \<rightharpoonup> string"

definition build_catalogs :: "(string \<rightharpoonup> string) \<Rightarrow> (string \<times> string) list \<Rightarrow> (string \<times> string) list \<Rightarrow> catalogs" where
  "build_catalogs terms characters source =
     \<lparr>ct_simplified = buildSimplifiedCatalog source, ct_traditional = buildTraditionalCatalog terms characters source\<rparr>"

definition Text :: "unicode \<Rightarrow> catalogs \<Rightarrow> lang \<Rightarrow> string \<Rightarrow> string" where
  "Text U K l message =
     (if Normalize U l = SimplifiedChinese then (case ct_simplified K message of Some t \<Rightarrow> t | None \<Rightarrow> message)
      else if Normalize U l = TraditionalChinese then (case ct_traditional K message of Some t \<Rightarrow> t | None \<Rightarrow> message)
      else message)"

subsection \<open>Answers\<close>

text \<open>An answer: its status, the header \<open>Content-Language\<close>, and the status and message of its body.\<close>

record json_answer =
  ja_code :: int
  ja_language :: string
  ja_status :: string
  ja_message :: string

definition LocaleMiddleware :: "unicode \<Rightarrow> lang \<Rightarrow> string \<Rightarrow> (string \<Rightarrow> 'a) \<Rightarrow> 'a" where
  "LocaleMiddleware U dflt accept next = next (FromAcceptLanguage U dflt accept)"

definition SendJSONWithStatus :: "unicode \<Rightarrow> catalogs \<Rightarrow> lang \<Rightarrow> int \<Rightarrow> string \<Rightarrow> string \<Rightarrow> string \<Rightarrow> json_answer" where
  "SendJSONWithStatus U K dflt code status message header =
     (let l = (if header \<noteq> [] then Normalize U header else dflt)
      in \<lparr>ja_code = code, ja_language = l, ja_status = status, ja_message = Text U K l message\<rparr>)"

text \<open>Reading a body: whether there is one, and what the decoder says of it.\<close>

datatype 'a decoded = EmptyBody | NotJSON | Decoded 'a

definition DecodeOptionalRequest :: "bool \<Rightarrow> int \<Rightarrow> 'a decoded \<Rightarrow> 'a \<Rightarrow> (bool \<times> 'a) res" where
  "DecodeOptionalRequest nobody contentLength body v =
     (if nobody \<or> contentLength = 0 then Inr (False, v)
      else (case body of EmptyBody \<Rightarrow> Inr (False, v) | NotJSON \<Rightarrow> Inl SysErr | Decoded x \<Rightarrow> Inr (True, x)))"

definition DecodeRequest :: "bool \<Rightarrow> int \<Rightarrow> 'a decoded \<Rightarrow> 'a \<Rightarrow> 'a res" where
  "DecodeRequest nobody contentLength body v =
     (case DecodeOptionalRequest nobody contentLength body v of Inl e \<Rightarrow> Inl e | Inr (_, x) \<Rightarrow> Inr x)"

subsection \<open>The log of the requests\<close>

record logged_request = ws_request +
  lq_Path :: string

datatype level = Debug | Info | Warn | Error

definition isCoreControllerRequest :: "string \<Rightarrow> bool" where
  "isCoreControllerRequest path = (path = ''/core/controller'' \<or> has_prefix path ''/core/controller/'')"

definition shouldLogRequest :: "unicode \<Rightarrow> logged_request \<Rightarrow> bool" where
  "shouldLogRequest U r =
     (if isCoreControllerRequest (lq_Path r) then False
      else if header_Get (ws_request.truncate r) ''Upgrade'' \<noteq> [] \<or> headerContainsToken U (ws_request.truncate r) ''Connection'' ''upgrade'' then False
      else \<not> headerContainsToken U (ws_request.truncate r) ''Accept'' ''text/event-stream'')"

definition shouldLogResponse :: "logged_request \<Rightarrow> int \<Rightarrow> bool" where
  "shouldLogResponse r status = (ws_Method r \<noteq> ''GET'' \<or> lq_Path r \<noteq> ''/service/logs'' \<or> 400 \<le> status)"

definition isPollingRequest :: "logged_request \<Rightarrow> bool" where
  "isPollingRequest r =
     (ws_Method r = ''GET'' \<and>
      lq_Path r \<in> {''/ping'', ''/test'', ''/meta'', ''/core/status'', ''/process-router/status'', ''/process-router/logs''})"

text \<open>The entry for a request whose handler sent \<open>contentType\<close> and wrote the status, 0 when it wrote none.\<close>

definition RequestLogger :: "unicode \<Rightarrow> logged_request \<Rightarrow> string \<Rightarrow> int \<Rightarrow> (level \<times> int) option" where
  "RequestLogger U r contentType written =
     (let status = (if written = 0 then 200 else written) in
      if \<not> shouldLogRequest U r then None
      else if has_prefix contentType ''text/event-stream'' then None
      else if \<not> shouldLogResponse r status then None
      else Some (if 500 \<le> status then Error else if 400 \<le> status then Warn else if isPollingRequest r then Debug else Info, status))"

definition SetLevel :: "string \<Rightarrow> level \<Rightarrow> err option \<times> level" where
  "SetLevel s l =
     (let v = (if s = ''warning'' then ''warn'' else s) in
      if v = ''debug'' then (None, Debug) else if v = ''info'' then (None, Info)
      else if v = ''warn'' then (None, Warn) else if v = ''error'' then (None, Error)
      else (Some (Plainf ''Invalid log level: expected debug, info, warn, or error'' [s]), l))"

text \<open>An entry is written when its level is at least the threshold.\<close>

fun level_rank :: "level \<Rightarrow> nat" where
  "level_rank Debug = 0" | "level_rank Info = 1" | "level_rank Warn = 2" | "level_rank Error = 3"

subsection \<open>The files of the log\<close>

record log_files =
  lf_current :: "string option"
  lf_previous :: "string option"

text \<open>The outcomes of \<open>Remove\<close>, \<open>Rename\<close> and \<open>OpenFile\<close>; a file that is not there is no error.\<close>

definition rotateLogFiles :: "io \<Rightarrow> io \<Rightarrow> log_files \<Rightarrow> err option \<times> log_files" where
  "rotateLogFiles removed renamed f =
     (if lf_previous f \<noteq> None \<and> removed \<noteq> Done then (Some SysErr, if removed = Partial then f\<lparr>lf_previous := None\<rparr> else f)
      else (let f1 = f\<lparr>lf_previous := None\<rparr> in
        if lf_current f1 = None then (None, f1)
        else if renamed = Done then (None, \<lparr>lf_current = None, lf_previous = lf_current f1\<rparr>)
        else (Some SysErr, if renamed = Partial then \<lparr>lf_current = None, lf_previous = lf_current f1\<rparr> else f1)))"

definition InitLogging :: "io \<Rightarrow> io \<Rightarrow> io \<Rightarrow> log_files \<Rightarrow> err option \<times> log_files" where
  "InitLogging removed renamed opened f =
     (case rotateLogFiles removed renamed f of
        (Some e, f1) \<Rightarrow> (Some e, f1)
      | (None, f1) \<Rightarrow> (if opened = Done then None else Some SysErr, if opened = Fails then f1 else f1\<lparr>lf_current := Some []\<rparr>))"

definition maxLogTailBytes :: int where "maxLogTailBytes = 512 * 1024"

record snapshot =
  sn_Offset :: int
  sn_End :: int
  sn_Content :: string

text \<open>
  The file as \<open>Stat\<close> sees it, of which only the size counts, and as it is read then, or that there is none; \<open>failed\<close> is an error other than the end of the file.
\<close>

definition readSnapshot :: "bool \<Rightarrow> (nat \<times> string) option \<Rightarrow> snapshot res" where
  "readSnapshot failed f =
     (case f of
        None \<Rightarrow> Inr \<lparr>sn_Offset = 0, sn_End = 0, sn_Content = []\<rparr>
      | Some (sz, content) \<Rightarrow>
          if failed then Inl SysErr
          else (let off = max 0 (int sz - maxLogTailBytes);
                    data = take (sz - nat off) (drop (nat off) content);
                    start = length (takeWhile cont data)
                in Inr \<lparr>sn_Offset = off + int start, sn_End = off + int (length data), sn_Content = drop start data\<rparr>))"

section \<open>Lemmas\<close>

subsection \<open>Languages\<close>

definition supported :: "lang set" where "supported = {English, SimplifiedChinese, TraditionalChinese}"

lemma Normalize_supported: "Normalize U s \<in> supported"
  by (simp add: Normalize_def supported_def Let_def)

lemma normal_tags: "Normalize U English = English" "Normalize U SimplifiedChinese = SimplifiedChinese" "Normalize U TraditionalChinese = TraditionalChinese"
  by (simp_all add: Normalize_def English_def SimplifiedChinese_def TraditionalChinese_def trim_space_visible visible_def strings_ToLower_def is_ascii_def byte_val_def
      dashes_def ascii_lower_def has_prefix_def char_of_def bit_0)

lemma Normalize_idem: "l \<in> supported \<Longrightarrow> Normalize U l = l"
  using normal_tags by (auto simp: supported_def)

lemma language_tag_supported: "language_tag U part = Some l \<Longrightarrow> l \<in> supported"
  using Normalize_supported by (auto simp: language_tag_def Let_def split: if_splits)

lemma From_supported: "dflt \<in> supported \<Longrightarrow> FromAcceptLanguage U dflt s \<in> supported"
proof -
  assume d: "dflt \<in> supported"
  have "set (List.map_filter (language_tag U) ps) \<subseteq> supported" for ps
    by (induction ps) (auto simp: List.map_filter_simps dest: language_tag_supported split: option.splits)
  then show ?thesis using d by (auto simp: FromAcceptLanguage_def split: list.splits) (metis list.set_intros(1) subsetD)
qed

lemma catalog_lookup: "distinct (map snd src) \<Longrightarrow> buildSimplifiedCatalog src e = map_of (map prod.swap src) e"
proof (induction src)
  case (Cons t src)
  obtain a b where t: "t = (a, b)" by (cases t)
  have "b \<notin> snd ` set src" "distinct (map snd src)" using Cons.prems by (auto simp: t)
  then have "map_of (map prod.swap src) b = None" by (force simp: map_of_eq_None_iff)
  then show ?case using Cons.IH [OF \<open>distinct (map snd src)\<close>] by (auto simp: t split: option.splits)
qed simp

lemma catalog_perm:
  assumes "distinct (map snd src)" "mset src' = mset src"
  shows "buildSimplifiedCatalog src' = buildSimplifiedCatalog src"
proof -
  have d: "distinct (map snd src')" using assms by (metis mset_eq_imp_distinct_iff mset_map)
  have "map_of (map prod.swap src') = map_of (map prod.swap src)"
    by (intro map_of_eqI) (use assms(1) d mset_eq_setD [OF assms(2)] map_of_is_SomeI in \<open>auto simp: comp_def\<close>)
  then show ?thesis using catalog_lookup [OF d] catalog_lookup [OF assms(1)] by auto
qed

text \<open>Words that start with a byte outside ASCII leave ASCII text as it is.\<close>

lemma replacer_ascii:
  assumes "\<forall>(old, new) \<in> set pairs. old \<noteq> [] \<longrightarrow> 128 \<le> byte_val (hd old)" "list_all (\<lambda>c. byte_val c < 128) s"
  shows "replacer pairs s = s"
  using assms(2)
proof (induction s)
  case (Cons c s)
  have "find (\<lambda>(old, new). old \<noteq> [] \<and> has_prefix (c # s) old) pairs = None"
    using assms(1) Cons.prems by (fastforce simp: find_None_iff has_prefix_def neq_Nil_conv)
  then show ?case using Cons by simp
qed simp

subsection \<open>The tail of the log\<close>

lemma second_cont: "second_byte a b \<Longrightarrow> cont b"
  by (auto simp: second_byte_def cont_def byte_in_def Let_def split: if_splits)

lemma rune_shape:
  assumes "rune_len s \<noteq> 0"
  obtains a cs r where "s = a # cs @ r" "rune_len s = Suc (length cs)" "\<not> cont a" "list_all cont cs"
  using assms
proof (cases rule: rune_len_cases)
  case (one a r)
  then show ?thesis using that [of a "[]" r] by (simp add: cont_def)
next
  case (two a b r)
  then show ?thesis using that [of a "[b]" r] by (simp add: cont_def)
next
  case (three a b c r)
  then show ?thesis using that [of a "[b, c]" r] second_cont [of a b] by (simp add: cont_def)
next
  case (four a b c d r)
  then show ?thesis using that [of a "[b, c, d]" r] second_cont [of a b] by (simp add: cont_def)
qed

text \<open>A valid text that is cut anywhere becomes valid again when at most three bytes are skipped.\<close>

lemma align_valid:
  "utf8_valid s \<Longrightarrow> n \<le> length s \<Longrightarrow> utf8_valid (dropWhile cont (drop n s)) \<and> length (takeWhile cont (drop n s)) \<le> 3"
proof (induction s arbitrary: n rule: utf8_valid.induct)
  case (1 s)
  show ?case
  proof (cases "s = []")
    case True
    then show ?thesis by (simp add: utf8_valid.simps [of "[]"])
  next
    case False
    have r: "rune_len s \<noteq> 0" "utf8_valid (drop (rune_len s) s)" using "1.prems"(1) False utf8_valid.simps [of s] by (auto split: if_splits)
    obtain a cs t where s: "s = a # cs @ t" "rune_len s = Suc (length cs)" "\<not> cont a" "list_all cont cs" using rune_shape [OF r(1)] .
    have t: "utf8_valid t" "t = drop (rune_len s) s" using r(2) s by simp_all
    have ends: "dropWhile cont t = t" "takeWhile cont t = []"
    proof -
      show "dropWhile cont t = t"
      proof (cases t)
        case (Cons x xs)
        then have "rune_len t \<noteq> 0" using t(1) utf8_valid.simps [of t] by (auto split: if_splits)
        then show ?thesis using rune_shape [of t] by (metis Cons dropWhile.simps(2) list.inject)
      qed simp
      then show "takeWhile cont t = []" by (metis append_same_eq append_self_conv2 takeWhile_dropWhile_id)
    qed
    consider "n = 0" | "0 < n" "n \<le> length cs" | "rune_len s \<le> n" using s(2) by linarith
    then show ?thesis
    proof cases
      case 1
      then show ?thesis using "1.prems"(1) s by simp
    next
      case 2
      then have d: "drop n s = drop (n - 1) cs @ t" using s(1) by (simp add: drop_Cons')
      have c: "list_all cont (drop (n - 1) cs)" using s(4) by (auto simp: list_all_iff dest: in_set_dropD)
      have "length cs \<le> 3" using rune_len_le_4 [of s] s(2) by simp
      moreover have "dropWhile cont (drop n s) = t" "takeWhile cont (drop n s) = drop (n - 1) cs"
        using c ends by (simp_all add: d list_all_iff dropWhile_append takeWhile_append)
      ultimately show ?thesis using t(1) 2 by simp
    next
      case 3
      then have "drop n s = drop (n - rune_len s) t" using t(2) by simp
      moreover have "n - rune_len s \<le> length t" using "1.prems"(2) s 3 by simp
      ultimately show ?thesis using "1.IH" [OF False r(1,2), of "n - rune_len s"] t(2) by simp
    qed
  qed
qed

section \<open>An example\<close>

definition toy_terms :: "(string \<times> string) list" where
  "toy_terms = [(''a'', ''Core started''), (''b'', ''Core stopped'')]"

section \<open>Properties\<close>

text \<open>
  An answer is in the language that the request asked for: the first of its languages that is supported, or else the one of the
  service; the header names it, and the message is the translation of the catalog or the English source.
\<close>

theorem answer_language:
  assumes "dflt \<in> supported"
  shows "LocaleMiddleware U dflt accept (SendJSONWithStatus U K dflt code status message) =
     \<lparr>ja_code = code, ja_language = FromAcceptLanguage U dflt accept, ja_status = status, ja_message = Text U K (FromAcceptLanguage U dflt accept) message\<rparr>"
proof -
  let ?l = "FromAcceptLanguage U dflt accept"
  have s: "?l \<in> supported" using From_supported [OF assms] .
  then have "?l \<noteq> []" by (auto simp: supported_def English_def SimplifiedChinese_def TraditionalChinese_def)
  then show ?thesis using Normalize_idem [OF s] by (simp add: LocaleMiddleware_def SendJSONWithStatus_def Let_def)
qed

theorem answer_language_witness:
  "ja_language (LocaleMiddleware ascii_only English [] (SendJSONWithStatus ascii_only (build_catalogs Map.empty [] toy_terms) English 200 ''ok'' ''Core started'')) = English"
proof -
  have "FromAcceptLanguage ascii_only English [] = English"
    by (simp add: FromAcceptLanguage_def language_tag_def List.map_filter_simps)
  then show ?thesis using answer_language [of English ascii_only "[]" "build_catalogs Map.empty [] toy_terms" 200 "''ok''" "''Core started''"]
    by (simp add: supported_def)
qed

text \<open>
  The catalogs do not depend on the order in which the map of the source terms is walked, as long as no English message occurs twice, and
  every source term is found again: its English message is shown as the term, or for the other script as its own term or the one made of it by the characters.
\<close>

theorem catalogs_well_defined:
  assumes "distinct (map snd src)" "mset src' = mset src" "(simplified, english) \<in> set src"
  shows "build_catalogs terms characters src' = build_catalogs terms characters src \<and>
     Text U (build_catalogs terms characters src) SimplifiedChinese english = simplified \<and>
     Text U (build_catalogs terms characters src) TraditionalChinese english =
       (case terms simplified of Some t \<Rightarrow> t | None \<Rightarrow> replacer characters simplified) \<and>
     Text U (build_catalogs terms characters src) English english = english"
proof -
  let ?f = "\<lambda>(simplified, english). (traditional_term terms characters simplified, english)"
  have snd_f: "map snd (map ?f xs) = map snd xs" for xs :: "(string \<times> string) list" by (induction xs) auto
  have d: "distinct (map snd (map ?f src))" using assms(1) by (simp only: snd_f)
  have m: "mset (map ?f src') = mset (map ?f src)" using assms(2) by simp
  have o: "build_catalogs terms characters src' = build_catalogs terms characters src"
    unfolding build_catalogs_def buildTraditionalCatalog_def catalog_perm [OF assms(1,2)] catalog_perm [OF d m] by (rule refl)
  have "(english, simplified) \<in> set (map prod.swap src)" using assms(3) by force
  moreover have "(english, traditional_term terms characters simplified) \<in> set (map prod.swap (map ?f src))" using assms(3) by force
  moreover have "distinct (map fst (map prod.swap xs))" if "distinct (map snd xs)" for xs :: "(string \<times> string) list" using that by (simp add: comp_def)
  ultimately have "buildSimplifiedCatalog src english = Some simplified"
    "buildSimplifiedCatalog (map ?f src) english = Some (traditional_term terms characters simplified)"
    using catalog_lookup [OF assms(1)] catalog_lookup [OF d] assms(1) d map_of_is_SomeI by metis+
  moreover have "SimplifiedChinese \<noteq> TraditionalChinese" "English \<noteq> SimplifiedChinese" "English \<noteq> TraditionalChinese"
    by (simp_all add: SimplifiedChinese_def TraditionalChinese_def English_def)
  ultimately show ?thesis using o
    by (simp add: Text_def normal_tags build_catalogs_def buildTraditionalCatalog_def traditional_term_def)
qed

theorem catalogs_well_defined_witness:
  "Text ascii_only (build_catalogs Map.empty [] toy_terms) SimplifiedChinese ''Core stopped'' = ''b''"
  using catalogs_well_defined [of toy_terms "rev toy_terms" "''b''" "''Core stopped''" Map.empty "[]" ascii_only] by (simp add: toy_terms_def)

text \<open>
  The log of the requests is complete and quiet: a request that fails leaves an entry of level warning or error unless it is a
  stream or goes to the core's controller; reading the log successfully never adds to it, and a successful poll is recorded for debugging only.
\<close>

theorem request_log_audit:
  "(case RequestLogger U r contentType written of
      None \<Rightarrow> 400 \<le> written \<longrightarrow> \<not> shouldLogRequest U r \<or> has_prefix contentType ''text/event-stream''
    | Some (l, status) \<Rightarrow>
        \<not> isCoreControllerRequest (lq_Path r) \<and> (400 \<le> status \<longleftrightarrow> l \<in> {Warn, Error}) \<and>
        (ws_Method r = ''GET'' \<and> lq_Path r = ''/service/logs'' \<longrightarrow> 400 \<le> status) \<and> (isPollingRequest r \<and> status < 400 \<longrightarrow> l = Debug))"
  by (auto simp: RequestLogger_def shouldLogRequest_def shouldLogResponse_def Let_def split: option.splits if_splits)

theorem request_log_audit_witness:
  "\<not> isCoreControllerRequest ''/ping''"
  using request_log_audit [where U = ascii_only and written = 0 and contentType = "[]" and r = "\<lparr>ws_Method = ''GET'', ws_Header = (\<lambda>n. []), lq_Path = ''/ping''\<rparr>"]
  by (simp add: RequestLogger_def shouldLogRequest_def shouldLogResponse_def isCoreControllerRequest_def header_Get_def headerContainsToken_def ws_request.defs has_prefix_def)

text \<open>
  The log of the last run is not lost: whichever of the calls fails when logging starts, the entries of the run before are in the
  current or in the previous file; after a success they are in the previous file and the current one is empty.
\<close>

theorem log_rotation_safe:
  assumes "lf_current f = Some entries"
  shows "case InitLogging removed renamed opened f of
      (None, f') \<Rightarrow> f' = \<lparr>lf_current = Some [], lf_previous = Some entries\<rparr>
    | (Some e, f') \<Rightarrow> lf_current f' = Some entries \<or> lf_previous f' = Some entries"
  using assms by (cases removed; cases renamed; cases opened) (auto simp: InitLogging_def rotateLogFiles_def Let_def)

theorem log_rotation_safe_witness:
  "snd (InitLogging Done Done Done \<lparr>lf_current = Some ''a'', lf_previous = Some ''b''\<rparr>) = \<lparr>lf_current = Some [], lf_previous = Some ''a''\<rparr>"
  using log_rotation_safe [of "\<lparr>lf_current = Some ''a'', lf_previous = Some ''b''\<rparr>" "''a''" Done Done Done]
  by (simp add: InitLogging_def rotateLogFiles_def)



text \<open>A threshold is taken over only when its name is known, and is otherwise left alone.\<close>

theorem log_level_set:
  "(case SetLevel s l of
      (None, l') \<Rightarrow> s \<in> {''debug'', ''info'', ''warn'', ''warning'', ''error''} \<and> level_rank l' = (if s = ''debug'' then 0 else if s = ''info'' then 1 else if s = ''error'' then 3 else 2)
    | (Some e, l') \<Rightarrow> s \<notin> {''debug'', ''info'', ''warn'', ''warning'', ''error''} \<and> l' = l)"
  by (simp add: SetLevel_def Let_def)

end
