(* ===== verification/Named_Pipe.thy ===== *)
theory Named_Pipe
  imports Kokoro_Prelude
begin

text \<open>
  The named pipes of Windows (\<open>listen/namedpipe/file.go\<close>, \<open>listen/namedpipe/namedpipe.go\<close>): operations on a handle that run beside its
  closing, deadlines, the byte stream over a pipe of messages, dialling, and the listener. What runs concurrently is a step
  relation; the answers of Windows are arguments.
\<close>

section \<open>Definitions\<close>

datatype pipe_error = Aborted | FileClosed | DeadlineExceeded | BrokenPipe | MoreData | NoData | PipeConnected | PipeBusy | EOF | ClosedPipe | NetClosed | AccessDenied | Cancelled | Windows nat

subsection \<open>Operations and closing\<close>

text \<open>
  An operation is prepared, was handed to Windows and is pending, waits for its completion, or is finished; it counts in the wait group from
  its preparation until it is gone. \<open>op_cancelled\<close> is whether \<open>CancelIoEx\<close> was called for it.
\<close>

datatype op_phase = Prepared | Pending | Waiting | Finished

record pipe_op =
  op_phase :: op_phase
  op_cancelled :: bool

text \<open>The one closer that sets the flag: it cancels, waits for the wait group, and closes the handle.\<close>

datatype closer = NoCloser | Cancelling | WaitingGroup | HandleClosed

record pipe_file =
  pf_open :: bool
  pf_closing :: bool
  pf_ops :: "pipe_op list"
  pf_closer :: closer
  pf_closes :: nat

definition make_file :: pipe_file where
  "make_file = \<lparr>pf_open = True, pf_closing = False, pf_ops = [], pf_closer = NoCloser, pf_closes = 0\<rparr>"

definition prepareIo :: "pipe_file \<Rightarrow> pipe_error option \<times> pipe_file" where
  "prepareIo f =
     (if pf_closing f then (Some FileClosed, f)
      else (None, f\<lparr>pf_ops := pf_ops f @ [\<lparr>op_phase = Prepared, op_cancelled = False\<rparr>]\<rparr>))"

text \<open>\<open>closeHandle\<close>: the flag under the lock, the cancellation of what Windows knows, the closing when the group is empty.\<close>

definition close_begin :: "pipe_file \<Rightarrow> pipe_file" where
  "close_begin f = (if pf_closing f then f else f\<lparr>pf_closing := True, pf_closer := Cancelling\<rparr>)"

definition cancel_op :: "pipe_op \<Rightarrow> pipe_op" where
  "cancel_op p = (if op_phase p = Pending \<or> op_phase p = Waiting then p\<lparr>op_cancelled := True\<rparr> else p)"

definition close_cancel :: "pipe_file \<Rightarrow> pipe_file" where
  "close_cancel f = f\<lparr>pf_ops := map cancel_op (pf_ops f), pf_closer := WaitingGroup\<rparr>"

definition close_finish :: "pipe_file \<Rightarrow> pipe_file" where
  "close_finish f = f\<lparr>pf_open := False, pf_closer := HandleClosed, pf_closes := pf_closes f + 1\<rparr>"

text \<open>The steps of an operation; \<open>file_own\<close> are the ones that need nothing from the other end of the pipe.\<close>

definition op_set :: "nat \<Rightarrow> pipe_op \<Rightarrow> pipe_file \<Rightarrow> pipe_file" where
  "op_set i p f = f\<lparr>pf_ops := (pf_ops f)[i := p]\<rparr>"

inductive file_own :: "pipe_file \<Rightarrow> pipe_file \<Rightarrow> bool" where
  submitted: "i < length (pf_ops f) \<Longrightarrow> op_phase (pf_ops f ! i) = Prepared \<Longrightarrow> ph \<in> {Pending, Finished} \<Longrightarrow>
     file_own f (op_set i ((pf_ops f ! i)\<lparr>op_phase := ph\<rparr>) f)"
| looked: "i < length (pf_ops f) \<Longrightarrow> op_phase (pf_ops f ! i) = Pending \<Longrightarrow>
     file_own f (op_set i \<lparr>op_phase = Waiting, op_cancelled = (pf_closing f \<or> op_cancelled (pf_ops f ! i))\<rparr> f)"
| aborted: "i < length (pf_ops f) \<Longrightarrow> op_phase (pf_ops f ! i) = Waiting \<Longrightarrow> op_cancelled (pf_ops f ! i) \<Longrightarrow>
     file_own f (op_set i ((pf_ops f ! i)\<lparr>op_phase := Finished\<rparr>) f)"
| gone: "pf_ops f = before @ p # after \<Longrightarrow> op_phase p = Finished \<Longrightarrow> file_own f (f\<lparr>pf_ops := before @ after\<rparr>)"
| cancelled: "pf_closer f = Cancelling \<Longrightarrow> file_own f (close_cancel f)"
| closed: "pf_closer f = WaitingGroup \<Longrightarrow> pf_ops f = [] \<Longrightarrow> file_own f (close_finish f)"

inductive file_step :: "pipe_file \<Rightarrow> pipe_file \<Rightarrow> bool" where
  own: "file_own f f' \<Longrightarrow> file_step f f'"
| prepared: "file_step f (snd (prepareIo f))"
| completed: "i < length (pf_ops f) \<Longrightarrow> op_phase (pf_ops f ! i) = Waiting \<Longrightarrow> file_step f (op_set i ((pf_ops f ! i)\<lparr>op_phase := Finished\<rparr>) f)"
| timed_out: "i < length (pf_ops f) \<Longrightarrow> op_phase (pf_ops f ! i) = Waiting \<Longrightarrow> file_step f (op_set i ((pf_ops f ! i)\<lparr>op_cancelled := True\<rparr>) f)"
| close: "file_step f (close_begin f)"

text \<open>
  What an operation returns: the bytes and error of its submission, \<open>None\<close> when it is pending; the bytes and error of its completion,
  and whether the deadline came first.
\<close>

definition asyncIo :: "bool \<Rightarrow> (nat \<times> pipe_error option) option \<Rightarrow> bool \<Rightarrow> nat \<times> pipe_error option \<Rightarrow> nat \<times> pipe_error option" where
  "asyncIo closing submission timeout completion =
     (case submission of
        Some r \<Rightarrow> r
      | None \<Rightarrow>
          (case completion of (n, err) \<Rightarrow>
             if timeout then (n, if err = Some Aborted then Some DeadlineExceeded else err)
             else (n, if err = Some Aborted \<and> closing then Some FileClosed else err)))"

definition file_Read :: "bool \<Rightarrow> nat \<Rightarrow> bool \<Rightarrow> (nat \<times> pipe_error option) option \<Rightarrow> bool \<Rightarrow> nat \<times> pipe_error option \<Rightarrow> nat \<times> pipe_error option" where
  "file_Read timedout len closing submission timeout completion =
     (if timedout then (0, Some DeadlineExceeded)
      else (case asyncIo closing submission timeout completion of (n, err) \<Rightarrow>
          if err = None \<and> n = 0 \<and> len \<noteq> 0 then (0, Some EOF)
          else if err = Some BrokenPipe then (0, Some EOF)
          else (n, err)))"

definition file_Write :: "bool \<Rightarrow> bool \<Rightarrow> (nat \<times> pipe_error option) option \<Rightarrow> bool \<Rightarrow> nat \<times> pipe_error option \<Rightarrow> nat \<times> pipe_error option" where
  "file_Write timedout closing submission timeout completion =
     (if timedout then (0, Some DeadlineExceeded) else asyncIo closing submission timeout completion)"

definition connectPipe :: "bool \<Rightarrow> (nat \<times> pipe_error option) option \<Rightarrow> nat \<times> pipe_error option \<Rightarrow> pipe_error option" where
  "connectPipe closing submission completion =
     (case snd (asyncIo closing submission False completion) of
        None \<Rightarrow> None
      | Some e \<Rightarrow> if e = PipeConnected then None else Some e)"

subsection \<open>Deadlines\<close>

text \<open>
  The timer is set, its function runs, has stored the flag, or is over; setting a deadline runs under a lock and goes through
  the phases below. Closing a closed channel is a panic, recorded in \<open>dl_panic\<close>.
\<close>

datatype timer = NoTimer | Armed | Running | Marked | Over

datatype setter = Idle | Waits | Clears | Renews | Sets | Closes

datatype moment = Never | Past | Future

record deadline =
  dl_timer :: timer
  dl_timedout :: bool
  dl_closed :: bool
  dl_setter :: setter
  dl_when :: moment
  dl_panic :: bool

definition new_deadline :: deadline where
  "new_deadline = \<lparr>dl_timer = NoTimer, dl_timedout = False, dl_closed = False, dl_setter = Idle, dl_when = Never, dl_panic = False\<rparr>"

definition close_channel :: "deadline \<Rightarrow> deadline" where
  "close_channel d = d\<lparr>dl_panic := (dl_panic d \<or> dl_closed d), dl_closed := True\<rparr>"

inductive deadline_step :: "deadline \<Rightarrow> deadline \<Rightarrow> bool" where
  set_none: "dl_setter d = Idle \<Longrightarrow> dl_timer d = NoTimer \<Longrightarrow> deadline_step d (d\<lparr>dl_setter := Clears, dl_when := w\<rparr>)"
| set_stop: "dl_setter d = Idle \<Longrightarrow> dl_timer d = Armed \<Longrightarrow> deadline_step d (d\<lparr>dl_timer := NoTimer, dl_setter := Clears, dl_when := w\<rparr>)"
| set_late: "dl_setter d = Idle \<Longrightarrow> dl_timer d \<in> {Running, Marked, Over} \<Longrightarrow> deadline_step d (d\<lparr>dl_setter := Waits, dl_when := w\<rparr>)"
| waited: "dl_setter d = Waits \<Longrightarrow> dl_closed d \<Longrightarrow> deadline_step d (d\<lparr>dl_timer := NoTimer, dl_setter := Clears\<rparr>)"
| cleared: "dl_setter d = Clears \<Longrightarrow> deadline_step d (d\<lparr>dl_timedout := False, dl_setter := Renews\<rparr>)"
| renewed: "dl_setter d = Renews \<Longrightarrow> deadline_step d (d\<lparr>dl_closed := False, dl_setter := Sets\<rparr>)"
| set_never: "dl_setter d = Sets \<Longrightarrow> dl_when d = Never \<Longrightarrow> deadline_step d (d\<lparr>dl_setter := Idle\<rparr>)"
| set_future: "dl_setter d = Sets \<Longrightarrow> dl_when d = Future \<Longrightarrow> deadline_step d (d\<lparr>dl_timer := Armed, dl_setter := Idle\<rparr>)"
| set_past: "dl_setter d = Sets \<Longrightarrow> dl_when d = Past \<Longrightarrow> deadline_step d (d\<lparr>dl_timedout := True, dl_setter := Closes\<rparr>)"
| fired_past: "dl_setter d = Closes \<Longrightarrow> deadline_step d (close_channel (d\<lparr>dl_setter := Idle\<rparr>))"
| fires: "dl_timer d = Armed \<Longrightarrow> deadline_step d (d\<lparr>dl_timer := Running\<rparr>)"
| stores: "dl_timer d = Running \<Longrightarrow> deadline_step d (d\<lparr>dl_timer := Marked, dl_timedout := True\<rparr>)"
| closes: "dl_timer d = Marked \<Longrightarrow> deadline_step d (close_channel (d\<lparr>dl_timer := Over\<rparr>))"

subsection \<open>The byte stream over messages\<close>

text \<open>One direction of a pipe of messages, with the flags of its two ends.\<close>

record message_pipe =
  mp_messages :: "string list"
  mp_writeClosed :: bool
  mp_readEOF :: bool

definition pipe_Write :: "bool \<Rightarrow> string \<Rightarrow> message_pipe \<Rightarrow> (nat \<times> pipe_error option) \<times> message_pipe" where
  "pipe_Write ok b p =
     (if mp_writeClosed p then ((0, Some ClosedPipe), p)
      else if b = [] then ((0, None), p)
      else if ok then ((length b, None), p\<lparr>mp_messages := mp_messages p @ [b]\<rparr>)
      else ((0, Some BrokenPipe), p))"

text \<open>The outcomes of the flush and of the write of an empty message.\<close>

definition CloseWrite :: "bool \<Rightarrow> bool \<Rightarrow> message_pipe \<Rightarrow> pipe_error option \<times> message_pipe" where
  "CloseWrite flushed written p =
     (if mp_writeClosed p then (Some ClosedPipe, p)
      else if \<not> flushed then (Some BrokenPipe, p)
      else if \<not> written then (Some BrokenPipe, p)
      else (None, p\<lparr>mp_writeClosed := True, mp_messages := mp_messages p @ [[]]\<rparr>))"

text \<open>
  Reading into a buffer of \<open>n\<close> bytes: a message that does not fit is read in parts, with \<open>ERROR_MORE_DATA\<close>. There is a message to read.
\<close>

definition read_message :: "nat \<Rightarrow> string list \<Rightarrow> (string \<times> pipe_error option) \<times> string list" where
  "read_message n ms =
     (case ms of
        [] \<Rightarrow> (([], Some BrokenPipe), [])
      | m # ms' \<Rightarrow> if length m \<le> n then ((m, None), ms') else ((take n m, Some MoreData), drop n m # ms'))"

definition pipe_Read :: "nat \<Rightarrow> message_pipe \<Rightarrow> (string \<times> pipe_error option) \<times> message_pipe" where
  "pipe_Read n p =
     (if mp_readEOF p then (([], Some EOF), p)
      else (case read_message n (mp_messages p) of ((b, err), ms) \<Rightarrow>
          (let err' = snd (file_Read False n False (Some (length b, err)) False (0, None));
               p' = p\<lparr>mp_messages := ms\<rparr>
           in if err' = Some EOF then (([], Some EOF), p'\<lparr>mp_readEOF := True\<rparr>)
              else if err' = Some MoreData then ((b, None), p')
              else ((b, err'), p'))))"

subsection \<open>Dialling\<close>

text \<open>One turn of the loop: the context has ended, or the outcome of \<open>CreateFile\<close>.\<close>

datatype dial_turn = Ended pipe_error | Opened | Refused pipe_error

fun tryDialPipe :: "dial_turn list \<Rightarrow> pipe_error option option" where
  "tryDialPipe [] = None"
| "tryDialPipe (Ended e # ts) = Some (Some e)"
| "tryDialPipe (Opened # ts) = Some None"
| "tryDialPipe (Refused e # ts) = (if e = PipeBusy then tryDialPipe ts else Some (Some e))"

text \<open>
  What Windows says of an open handle: its owner, its flags, and whether it can be used for completions. The second component counts the handles that
  are left open.
\<close>

record pipe_info =
  pi_owner :: "string option"
  pi_flags :: "bool option"
  pi_file :: bool

datatype conn = PipeConn | MessageConn

definition pipe_DialContext :: "string option \<Rightarrow> dial_turn list \<Rightarrow> pipe_info \<Rightarrow> ((pipe_error + conn) \<times> nat) option" where
  "pipe_DialContext expectedOwner turns i =
     (case tryDialPipe turns of
        None \<Rightarrow> None
      | Some (Some e) \<Rightarrow> Some (Inl e, 0)
      | Some None \<Rightarrow>
          Some (if expectedOwner \<noteq> None \<and> pi_owner i = None then (Inl (Windows 1), 0)
                else if expectedOwner \<noteq> None \<and> pi_owner i \<noteq> expectedOwner then (Inl AccessDenied, 0)
                else (case pi_flags i of
                    None \<Rightarrow> (Inl (Windows 2), 0)
                  | Some message \<Rightarrow> if \<not> pi_file i then (Inl (Windows 3), 0) else (Inr (if message then MessageConn else PipeConn), 1))))"

definition DialTimeout :: "string option \<Rightarrow> dial_turn list \<Rightarrow> pipe_info \<Rightarrow> ((pipe_error + conn) \<times> nat) option" where
  "DialTimeout expectedOwner turns i =
     map_option (\<lambda>(r, k). (if r = Inl Cancelled then Inl DeadlineExceeded else r, k)) (pipe_DialContext expectedOwner turns i)"

subsection \<open>The listener\<close>

text \<open>How a server handle is created.\<close>

record pipe_create =
  pc_path :: string
  pc_descriptor :: "string option"
  pc_readWrite :: bool
  pc_create :: bool
  pc_message :: bool
  pc_rejectRemote :: bool

definition makeServerPipeHandle :: "string \<Rightarrow> string option \<Rightarrow> string option \<Rightarrow> bool \<Rightarrow> bool \<Rightarrow> pipe_create option" where
  "makeServerPipeHandle path sd defaultAcl messageMode isFirstPipe =
     (if isFirstPipe \<and> sd = None \<and> defaultAcl = None then None
      else Some \<lparr>pc_path = path, pc_descriptor = (if \<not> isFirstPipe then None else if sd \<noteq> None then sd else defaultAcl),
                 pc_readWrite = (\<not> isFirstPipe), pc_create = isFirstPipe, pc_message = messageMode, pc_rejectRemote = True\<rparr>)"

text \<open>
  The goroutine of the listener waits for a request, connects a pipe for one (with the error that its connect has come back with), or answers; callers of
  \<open>Accept\<close> wait for their turn, for their answer, or have it; callers of \<open>Close\<close> wait to be heard, wait for the end, or have
  returned. \<open>ln_pipe\<close> is whether the pipe being connected is open.
\<close>

datatype routine = Listening | Connecting nat "pipe_error option option" | Answering nat "pipe_error option" | Ending | RoutineOver

datatype acceptor = Asking | Asked | Accepted | AcceptError pipe_error

datatype closing = Offering | Heard | Returned

record pipe_listener =
  ln_first :: bool
  ln_pipe :: bool
  ln_routine :: routine
  ln_done :: bool
  ln_acceptors :: "acceptor list"
  ln_closers :: "closing list"

definition new_listener :: pipe_listener where
  "new_listener = \<lparr>ln_first = True, ln_pipe = False, ln_routine = Listening, ln_done = False, ln_acceptors = [], ln_closers = []\<rparr>"

text \<open>The error after the pipe was closed because of \<open>Close\<close>, and what the loop makes of a result.\<close>

definition close_error :: "pipe_error option \<Rightarrow> pipe_error" where
  "close_error err = (case err of None \<Rightarrow> NetClosed | Some e \<Rightarrow> if e = FileClosed then NetClosed else e)"

definition result_of :: "nat \<Rightarrow> pipe_error option \<Rightarrow> pipe_listener \<Rightarrow> pipe_listener" where
  "result_of i err l =
     (if err = Some NoData then l\<lparr>ln_routine := Connecting i None, ln_pipe := True\<rparr>
      else l\<lparr>ln_routine := Answering i err\<rparr>)"

inductive listener_step :: "pipe_listener \<Rightarrow> pipe_listener \<Rightarrow> bool" where
  accept: "listener_step l (l\<lparr>ln_acceptors := ln_acceptors l @ [Asking]\<rparr>)"
| close: "listener_step l (l\<lparr>ln_closers := ln_closers l @ [Offering]\<rparr>)"
| taken: "ln_routine l = Listening \<Longrightarrow> i < length (ln_acceptors l) \<Longrightarrow> ln_acceptors l ! i = Asking \<Longrightarrow>
     listener_step l (l\<lparr>ln_routine := Connecting i None, ln_pipe := True, ln_acceptors := (ln_acceptors l)[i := Asked]\<rparr>)"
| not_made: "ln_routine l = Connecting i None \<Longrightarrow> e \<notin> {NoData, NetClosed} \<Longrightarrow> listener_step l (result_of i (Some e) (l\<lparr>ln_pipe := False\<rparr>))"
| connect: "ln_routine l = Connecting i None \<Longrightarrow> err \<notin> {Some FileClosed, Some NetClosed} \<Longrightarrow>
     listener_step l (l\<lparr>ln_routine := Connecting i (Some err)\<rparr>)"
| connected: "ln_routine l = Connecting i (Some None) \<Longrightarrow> listener_step l (result_of i None (l\<lparr>ln_pipe := False\<rparr>))"
| refused: "ln_routine l = Connecting i (Some (Some e)) \<Longrightarrow> listener_step l (result_of i (Some e) (l\<lparr>ln_pipe := False\<rparr>))"
| closed_waiting: "ln_routine l = Connecting i None \<Longrightarrow> j < length (ln_closers l) \<Longrightarrow> ln_closers l ! j = Offering \<Longrightarrow> err \<in> {None, Some FileClosed} \<Longrightarrow>
     listener_step l (result_of i (Some (close_error err)) (l\<lparr>ln_pipe := False, ln_closers := (ln_closers l)[j := Heard]\<rparr>))"
| closed_connected: "ln_routine l = Connecting i (Some err) \<Longrightarrow> j < length (ln_closers l) \<Longrightarrow> ln_closers l ! j = Offering \<Longrightarrow>
     listener_step l (result_of i (Some (close_error err)) (l\<lparr>ln_pipe := False, ln_closers := (ln_closers l)[j := Heard]\<rparr>))"
| answered: "ln_routine l = Answering i err \<Longrightarrow>
     listener_step l (l\<lparr>ln_routine := (if err = Some NetClosed then Ending else Listening),
        ln_acceptors := (ln_acceptors l)[i := (case err of None \<Rightarrow> Accepted | Some e \<Rightarrow> AcceptError e)]\<rparr>)"
| closed_idle: "ln_routine l = Listening \<Longrightarrow> j < length (ln_closers l) \<Longrightarrow> ln_closers l ! j = Offering \<Longrightarrow>
     listener_step l (l\<lparr>ln_routine := Ending, ln_closers := (ln_closers l)[j := Heard]\<rparr>)"
| ended: "ln_routine l = Ending \<Longrightarrow> listener_step l (l\<lparr>ln_routine := RoutineOver, ln_first := False, ln_done := True\<rparr>)"
| close_returns: "ln_done l \<Longrightarrow> j < length (ln_closers l) \<Longrightarrow> ln_closers l ! j \<in> {Offering, Heard} \<Longrightarrow>
     listener_step l (l\<lparr>ln_closers := (ln_closers l)[j := Returned]\<rparr>)"
| accept_closed: "ln_done l \<Longrightarrow> i < length (ln_acceptors l) \<Longrightarrow> ln_acceptors l ! i = Asking \<Longrightarrow>
     listener_step l (l\<lparr>ln_acceptors := (ln_acceptors l)[i := AcceptError NetClosed]\<rparr>)"

section \<open>Lemmas\<close>

subsection \<open>Operations and closing\<close>

definition file_inv :: "pipe_file \<Rightarrow> bool" where
  "file_inv f \<longleftrightarrow>
     (pf_ops f \<noteq> [] \<longrightarrow> pf_open f) \<and> (pf_open f \<longleftrightarrow> pf_closer f \<noteq> HandleClosed) \<and> (pf_closing f \<longleftrightarrow> pf_closer f \<noteq> NoCloser) \<and>
     pf_closes f = (if pf_open f then 0 else 1) \<and>
     (pf_closer f = WaitingGroup \<longrightarrow> (\<forall>p \<in> set (pf_ops f). op_phase p = Waiting \<longrightarrow> op_cancelled p))"

lemma op_set_fields [simp]:
  "pf_open (op_set i p f) = pf_open f" "pf_closing (op_set i p f) = pf_closing f" "pf_closer (op_set i p f) = pf_closer f"
  "pf_closes (op_set i p f) = pf_closes f" "pf_ops (op_set i p f) = (pf_ops f)[i := p]"
  by (simp_all add: op_set_def)

lemma op_set_inv:
  assumes "file_inv f" "pf_closing f \<and> op_phase p = Waiting \<longrightarrow> op_cancelled p"
  shows "file_inv (op_set i p f)"
proof -
  have "op_phase q = Waiting \<longrightarrow> op_cancelled q" if "q \<in> set ((pf_ops f)[i := p])" "pf_closer f = WaitingGroup" for q
    using set_update_subset_insert [of "pf_ops f" i p] that assms by (auto simp: file_inv_def)
  then show ?thesis using assms(1) by (auto simp: file_inv_def)
qed

lemma file_own_inv: "file_own f f' \<Longrightarrow> file_inv f \<Longrightarrow> file_inv f'"
proof (induction rule: file_own.induct)
  case (gone f before p after)
  then show ?case by (auto simp: file_inv_def)
next
  case (cancelled f)
  then show ?case by (auto simp: file_inv_def close_cancel_def cancel_op_def)
next
  case (closed f)
  then show ?case by (auto simp: file_inv_def close_finish_def)
qed (auto intro: op_set_inv)

lemma waiting_cancelled: "file_inv f \<Longrightarrow> pf_closer f = WaitingGroup \<Longrightarrow> i < length (pf_ops f) \<Longrightarrow> op_phase (pf_ops f ! i) = Waiting \<Longrightarrow> op_cancelled (pf_ops f ! i)"
  by (auto simp: file_inv_def)

lemma file_step_inv: "file_step f f' \<Longrightarrow> file_inv f \<Longrightarrow> file_inv f'"
proof (induction rule: file_step.induct)
  case (prepared f)
  then show ?case by (auto simp: file_inv_def prepareIo_def)
next
  case (close f)
  then show ?case by (auto simp: file_inv_def close_begin_def)
next
  case (timed_out i f)
  then show ?case by (auto intro: op_set_inv)
next
  case (completed i f)
  then show ?case by (auto intro: op_set_inv)
qed (rule file_own_inv)

lemma file_reach_inv: "file_step\<^sup>*\<^sup>* make_file f \<Longrightarrow> file_inv f"
proof (induction rule: rtranclp_induct)
  case base
  show ?case by (simp add: file_inv_def make_file_def)
qed (rule file_step_inv)

text \<open>Closing comes to an end without the other side: every operation that is left can take a step of its own.\<close>

fun op_rank :: "op_phase \<Rightarrow> nat" where
  "op_rank Prepared = 4" | "op_rank Pending = 3" | "op_rank Waiting = 2" | "op_rank Finished = 1"

lemma closing_drains:
  "file_inv f \<Longrightarrow> pf_closer f = WaitingGroup \<Longrightarrow> \<exists>f'. file_own\<^sup>*\<^sup>* f f' \<and> pf_closer f' = HandleClosed"
proof (induction "sum_list (map (op_rank \<circ> op_phase) (pf_ops f))" arbitrary: f rule: less_induct)
  case less
  show ?case
  proof (cases "pf_ops f")
    case Nil
    then have "file_own f (close_finish f)" using less.prems by (intro file_own.closed)
    then show ?thesis by (intro exI [of _ "close_finish f"]) (auto simp: close_finish_def)
  next
    case (Cons p ps)
    have go: ?thesis if "file_own f g" "pf_closer g = WaitingGroup" "sum_list (map (op_rank \<circ> op_phase) (pf_ops g)) < sum_list (map (op_rank \<circ> op_phase) (pf_ops f))" for g
      using less.hyps [OF that(3) file_own_inv [OF that(1) less.prems(1)] that(2)] that(1) by (meson converse_rtranclp_into_rtranclp)
    show ?thesis
    proof (cases "op_phase p")
      case Prepared
      then show ?thesis using go [OF file_own.submitted [of 0 f Pending]] Cons less.prems by simp
    next
      case Pending
      then show ?thesis using go [OF file_own.looked [of 0 f]] Cons less.prems by simp
    next
      case Waiting
      then show ?thesis using go [OF file_own.aborted [of 0 f]] waiting_cancelled [OF less.prems, of 0] Cons less.prems by simp
    next
      case Finished
      then show ?thesis using go [OF file_own.gone [of f "[]" p ps]] Cons less.prems by simp
    qed
  qed
qed

lemma closing_completes:
  assumes "file_inv f" "pf_closing f"
  shows "\<exists>f'. file_own\<^sup>*\<^sup>* f f' \<and> pf_closer f' = HandleClosed"
proof (cases "pf_closer f")
  case Cancelling
  then have s: "file_own f (close_cancel f)" by (rule file_own.cancelled)
  have "\<exists>f'. file_own\<^sup>*\<^sup>* (close_cancel f) f' \<and> pf_closer f' = HandleClosed"
    using file_own_inv [OF s assms(1)] by (intro closing_drains) (simp_all add: close_cancel_def)
  then show ?thesis using s by (meson converse_rtranclp_into_rtranclp)
next
  case WaitingGroup
  then show ?thesis using closing_drains assms by blast
next
  case HandleClosed
  then show ?thesis by blast
qed (use assms in \<open>auto simp: file_inv_def\<close>)

subsection \<open>Deadlines\<close>

definition deadline_inv :: "deadline \<Rightarrow> bool" where
  "deadline_inv d \<longleftrightarrow> \<not> dl_panic d \<and>
     (dl_timer d \<in> {Armed, Running, Marked} \<longrightarrow> \<not> dl_closed d) \<and> (dl_timer d = Over \<longrightarrow> dl_closed d) \<and>
     (dl_timer d \<in> {Marked, Over} \<longrightarrow> dl_timedout d) \<and> (dl_timer d \<in> {Armed, Running} \<longrightarrow> \<not> dl_timedout d) \<and>
     (dl_setter d \<in> {Clears, Renews, Sets, Closes} \<longrightarrow> dl_timer d = NoTimer) \<and> (dl_setter d \<in> {Sets, Closes} \<longrightarrow> \<not> dl_closed d) \<and>
     (dl_setter d = Waits \<longrightarrow> dl_timer d \<in> {Running, Marked, Over}) \<and>
     (dl_setter d \<in> {Renews, Sets} \<longrightarrow> \<not> dl_timedout d) \<and> (dl_setter d = Closes \<longrightarrow> dl_timedout d) \<and>
     (dl_setter d = Idle \<and> dl_timer d = NoTimer \<longrightarrow> dl_closed d = dl_timedout d)"

lemma deadline_step_inv: "deadline_step d d' \<Longrightarrow> deadline_inv d \<Longrightarrow> deadline_inv d'"
  by (induction rule: deadline_step.induct) (auto simp: deadline_inv_def close_channel_def)

lemma deadline_reach_inv: "deadline_step\<^sup>*\<^sup>* new_deadline d \<Longrightarrow> deadline_inv d"
proof (induction rule: rtranclp_induct)
  case base
  show ?case by (simp add: deadline_inv_def new_deadline_def)
qed (rule deadline_step_inv)

subsection \<open>The byte stream\<close>

definition empty_pipe :: message_pipe where
  "empty_pipe = \<lparr>mp_messages = [], mp_writeClosed = False, mp_readEOF = False\<rparr>"

definition write_each :: "string list \<Rightarrow> message_pipe \<Rightarrow> message_pipe" where
  "write_each bs p = foldl (\<lambda>p b. snd (pipe_Write True b p)) p bs"

text \<open>Reading with buffers of the given sizes until an error comes: the bytes and the error.\<close>

fun drain :: "nat list \<Rightarrow> message_pipe \<Rightarrow> string \<times> pipe_error option \<times> message_pipe" where
  "drain [] p = ([], None, p)"
| "drain (n # ns) p =
     (case pipe_Read n p of
        ((b, None), p1) \<Rightarrow> (case drain ns p1 of (bs, e, p2) \<Rightarrow> (b @ bs, e, p2))
      | ((b, Some e), p1) \<Rightarrow> ([], Some e, p1))"

lemma write_each_messages: "\<not> mp_writeClosed p \<Longrightarrow> mp_messages (write_each bs p) = mp_messages p @ filter (\<lambda>b. b \<noteq> []) bs \<and>
    \<not> mp_writeClosed (write_each bs p) \<and> mp_readEOF (write_each bs p) = mp_readEOF p"
  unfolding write_each_def by (induction bs arbitrary: p) (auto simp: pipe_Write_def)

lemma read_part:
  assumes "\<not> mp_readEOF p" "mp_messages p = m # ms" "m \<noteq> []" "0 < n"
  shows "pipe_Read n p = ((take n m, None), p\<lparr>mp_messages := (if length m \<le> n then ms else drop n m # ms)\<rparr>)"
  using assms by (auto simp: pipe_Read_def read_message_def file_Read_def asyncIo_def Let_def)

lemma read_end:
  assumes "\<not> mp_readEOF p" "mp_messages p = [] # ms" "0 < n"
  shows "pipe_Read n p = (([], Some EOF), p\<lparr>mp_messages := ms, mp_readEOF := True\<rparr>)"
  using assms by (simp add: pipe_Read_def read_message_def file_Read_def asyncIo_def Let_def)

lemma drain_all:
  "list_all (\<lambda>n. 0 < n) ns \<Longrightarrow> length (concat ms) < length ns \<Longrightarrow> \<forall>m \<in> set ms. m \<noteq> [] \<Longrightarrow> mp_messages p = ms @ [[]] \<Longrightarrow> \<not> mp_readEOF p \<Longrightarrow>
     fst (drain ns p) = concat ms \<and> fst (snd (drain ns p)) = Some EOF \<and> mp_readEOF (snd (snd (drain ns p)))"
proof (induction ns arbitrary: ms p)
  case (Cons n ns)
  show ?case
  proof (cases ms)
    case Nil
    then show ?thesis using Cons.prems read_end [of p "[]" n] by simp
  next
    case (Cons m ms')
    let ?ms = "if length m \<le> n then ms' else drop n m # ms'" and ?p = "p\<lparr>mp_messages := (if length m \<le> n then ms' @ [[]] else drop n m # ms' @ [[]])\<rparr>"
    have n: "0 < n" "m \<noteq> []" using Cons.prems Cons by auto
    have r: "pipe_Read n p = ((take n m, None), ?p)" using read_part [of p m "ms' @ [[]]" n] Cons.prems Cons n by simp
    have c: "concat ms = take n m @ concat ?ms" using Cons by simp
    have "length (take n m) > 0" using n by simp
    then have "length (concat ?ms) < length ns" using Cons.prems(2) c by (auto simp del: length_take length_greater_0_conv)
    moreover have "\<forall>m \<in> set ?ms. m \<noteq> []" using Cons.prems(3) Cons by auto
    moreover have "mp_messages ?p = ?ms @ [[]]" by simp
    ultimately have IH: "fst (drain ns ?p) = concat ?ms \<and> fst (snd (drain ns ?p)) = Some EOF \<and> mp_readEOF (snd (snd (drain ns ?p)))"
      using Cons.IH [of ?ms ?p] Cons.prems by simp
    have "drain (n # ns) p = (take n m @ fst (drain ns ?p), snd (drain ns ?p))" by (simp add: r case_prod_unfold)
    then show ?thesis using IH c by simp
  qed
qed simp

subsection \<open>The listener\<close>

definition serves :: "pipe_listener \<Rightarrow> nat option" where
  "serves l = (case ln_routine l of Connecting i _ \<Rightarrow> Some i | Answering i _ \<Rightarrow> Some i | _ \<Rightarrow> None)"

definition listener_inv :: "pipe_listener \<Rightarrow> bool" where
  "listener_inv l \<longleftrightarrow>
     (ln_done l \<longleftrightarrow> ln_routine l = RoutineOver) \<and> (ln_first l \<longleftrightarrow> \<not> ln_done l) \<and>
     (ln_pipe l \<longrightarrow> (\<exists>i e. ln_routine l = Connecting i e)) \<and>
     (\<forall>i < length (ln_acceptors l). ln_acceptors l ! i = Asked \<longleftrightarrow> serves l = Some i) \<and> (\<forall>i. serves l = Some i \<longrightarrow> i < length (ln_acceptors l)) \<and>
     (Returned \<in> set (ln_closers l) \<longrightarrow> ln_done l)"

lemma listener_step_inv: "listener_step l l' \<Longrightarrow> listener_inv l \<Longrightarrow> listener_inv l'"
proof (induction rule: listener_step.induct)
  case (accept l)
  then show ?case by (auto simp: listener_inv_def serves_def nth_append less_Suc_eq)
next
  case (answered l i err)
  then show ?case by (auto simp: listener_inv_def serves_def nth_list_update split: option.splits)
next
  case (taken l i)
  then show ?case by (auto simp: listener_inv_def serves_def nth_list_update)
next
  case (accept_closed l i)
  then show ?case by (auto simp: listener_inv_def serves_def nth_list_update)
next
  case (closed_waiting l i j err)
  then show ?case using set_update_subset_insert [of "ln_closers l" j Heard] by (auto simp: listener_inv_def serves_def result_of_def close_error_def split: option.splits)
next
  case (closed_connected l i err j)
  then show ?case using set_update_subset_insert [of "ln_closers l" j Heard] by (auto simp: listener_inv_def serves_def result_of_def close_error_def split: option.splits)
next
  case (closed_idle l j)
  then show ?case using set_update_subset_insert [of "ln_closers l" j Heard] by (auto simp: listener_inv_def serves_def)
qed (auto simp: listener_inv_def serves_def result_of_def)

lemma listener_reach_inv: "listener_step\<^sup>*\<^sup>* new_listener l \<Longrightarrow> listener_inv l"
proof (induction rule: rtranclp_induct)
  case base
  show ?case by (simp add: listener_inv_def new_listener_def serves_def)
qed (rule listener_step_inv)

text \<open>
  A client that goes away while the listener is closed: the connect comes back with \<open>ERROR_NO_DATA\<close>, the request to close is heard at
  the same moment, and the loop tries again. The caller of \<open>Close\<close> then waits for an end that no one asks for any more.
\<close>

lemma close_lost:
  "\<exists>l. listener_step\<^sup>*\<^sup>* new_listener l \<and> ln_routine l = Connecting 0 None \<and> ln_closers l = [Heard] \<and> ln_acceptors l = [Asked] \<and> \<not> ln_done l"
proof -
  let ?l1 = "new_listener\<lparr>ln_acceptors := [Asking]\<rparr>" and ?l2 = "new_listener\<lparr>ln_acceptors := [Asking], ln_closers := [Offering]\<rparr>"
  let ?l3 = "new_listener\<lparr>ln_acceptors := [Asked], ln_closers := [Offering], ln_routine := Connecting 0 None, ln_pipe := True\<rparr>"
  let ?l4 = "?l3\<lparr>ln_routine := Connecting 0 (Some (Some NoData))\<rparr>"
  let ?l5 = "?l3\<lparr>ln_closers := [Heard]\<rparr>"
  have s: "listener_step new_listener ?l1" "listener_step ?l1 ?l2" "listener_step ?l2 ?l3" "listener_step ?l3 ?l4" "listener_step ?l4 ?l5"
    using listener_step.accept [of new_listener] listener_step.close [of ?l1] listener_step.taken [of ?l2 0] listener_step.connect [of ?l3 0 "Some NoData"]
      listener_step.closed_connected [of ?l4 0 "Some NoData" 0]
    by (simp_all add: new_listener_def result_of_def close_error_def)
  have "listener_step\<^sup>*\<^sup>* new_listener ?l5"
    by (rule rtranclp_trans [OF _ r_into_rtranclp [of listener_step, OF s(5)]], rule rtranclp_trans [OF _ r_into_rtranclp [of listener_step, OF s(4)]],
        rule rtranclp_trans [OF _ r_into_rtranclp [of listener_step, OF s(3)]], rule rtranclp_trans [OF r_into_rtranclp [of listener_step, OF s(1)] r_into_rtranclp [of listener_step, OF s(2)]])
  then show ?thesis by (intro exI [of _ ?l5]) (simp add: new_listener_def)
qed

section \<open>Properties\<close>

text \<open>
  C37. A handle is used only while it is open: in every interleaving of reads, writes, timeouts and closings, an operation that is under way finds the handle
  open, the handle is closed once at most, no operation starts after the closing has begun, and the closing always comes to an
  end, by steps that need nothing from the other side of the pipe.
\<close>

theorem pipe_close_safe:
  assumes "file_step\<^sup>*\<^sup>* make_file f"
  shows "(pf_ops f \<noteq> [] \<longrightarrow> pf_open f) \<and> pf_closes f \<le> 1 \<and> (pf_closing f \<longrightarrow> prepareIo f = (Some FileClosed, f)) \<and>
     (pf_closing f \<longrightarrow> (\<exists>f'. file_own\<^sup>*\<^sup>* f f' \<and> pf_closer f' = HandleClosed \<and> \<not> pf_open f' \<and> pf_ops f' = []))"
proof -
  have i: "file_inv f" using file_reach_inv [OF assms] .
  have inv: "file_own\<^sup>*\<^sup>* f g \<Longrightarrow> file_inv g" for g by (induction rule: rtranclp_induct) (use i file_own_inv in blast)+
  have "\<exists>f'. file_own\<^sup>*\<^sup>* f f' \<and> pf_closer f' = HandleClosed \<and> \<not> pf_open f' \<and> pf_ops f' = []" if cl: "pf_closing f"
  proof -
    obtain g where g: "file_own\<^sup>*\<^sup>* f g" "pf_closer g = HandleClosed" using closing_completes [OF i cl] by blast
    then have "\<not> pf_open g \<and> pf_ops g = []" using inv [OF g(1)] by (auto simp: file_inv_def)
    then show ?thesis using g by blast
  qed
  moreover have "(pf_ops f \<noteq> [] \<longrightarrow> pf_open f) \<and> pf_closes f \<le> 1 \<and> (pf_closing f \<longrightarrow> prepareIo f = (Some FileClosed, f))"
    using i by (auto simp: file_inv_def prepareIo_def)
  ultimately show ?thesis by blast
qed

theorem pipe_close_safe_witness:
  "\<exists>f'. file_own\<^sup>*\<^sup>* (close_begin (snd (prepareIo make_file))) f' \<and> pf_closer f' = HandleClosed"
proof -
  have "file_step\<^sup>*\<^sup>* make_file (close_begin (snd (prepareIo make_file)))"
    using file_step.prepared [of make_file] file_step.close [of "snd (prepareIo make_file)"] by (meson converse_rtranclp_into_rtranclp r_into_rtranclp)
  from pipe_close_safe [OF this] show ?thesis by (auto simp: close_begin_def prepareIo_def make_file_def)
qed

text \<open>
  Deadlines are consistent: however the setting of deadlines and the timer interleave, no channel is closed twice, and when no
  deadline is being set and no timer runs, operations time out exactly when the channel is closed; an armed timer has an open channel.
\<close>

theorem deadline_consistent:
  assumes "deadline_step\<^sup>*\<^sup>* new_deadline d"
  shows "\<not> dl_panic d \<and> (dl_setter d = Idle \<and> dl_timer d \<in> {NoTimer, Over} \<longrightarrow> dl_closed d = dl_timedout d) \<and>
     (dl_timer d = Armed \<longrightarrow> \<not> dl_closed d \<and> \<not> dl_timedout d)"
  using deadline_reach_inv [OF assms] by (auto simp: deadline_inv_def)

theorem deadline_consistent_witness: "\<not> dl_panic (new_deadline\<lparr>dl_setter := Clears, dl_when := Past\<rparr>)"
  using deadline_consistent [of "new_deadline\<lparr>dl_setter := Clears, dl_when := Past\<rparr>", OF r_into_rtranclp [of deadline_step, OF deadline_step.set_none]]
  by (simp add: new_deadline_def)



text \<open>
  A listener whose \<open>Close\<close> has returned holds nothing: its handles are closed, its goroutine has ended and no caller of \<open>Accept\<close> is left without an
  answer; until then an accepted request is answered once.
\<close>

theorem listener_closed_clean:
  assumes "listener_step\<^sup>*\<^sup>* new_listener l" and "Returned \<in> set (ln_closers l)"
  shows "\<not> ln_first l \<and> \<not> ln_pipe l \<and> ln_routine l = RoutineOver \<and> Asked \<notin> set (ln_acceptors l)"
  using listener_reach_inv [OF assms(1)] assms(2) by (auto simp: listener_inv_def serves_def in_set_conv_nth)

theorem listener_closed_clean_witness:
  "\<exists>l. listener_step\<^sup>*\<^sup>* new_listener l \<and> ln_closers l = [Returned] \<and> \<not> ln_first l"
proof -
  let ?l1 = "new_listener\<lparr>ln_closers := [Offering]\<rparr>" and ?l2 = "new_listener\<lparr>ln_closers := [Heard], ln_routine := Ending\<rparr>"
  let ?l3 = "new_listener\<lparr>ln_closers := [Heard], ln_routine := RoutineOver, ln_first := False, ln_done := True\<rparr>"
  let ?l4 = "?l3\<lparr>ln_closers := [Returned]\<rparr>"
  have s: "listener_step new_listener ?l1" "listener_step ?l1 ?l2" "listener_step ?l2 ?l3" "listener_step ?l3 ?l4"
    using listener_step.close [of new_listener] listener_step.closed_idle [of ?l1 0] listener_step.ended [of ?l2] listener_step.close_returns [of ?l3 0]
    by (simp_all add: new_listener_def)
  have r: "listener_step\<^sup>*\<^sup>* new_listener ?l4"
    by (rule rtranclp_trans [OF _ r_into_rtranclp [of listener_step, OF s(4)]], rule rtranclp_trans [OF _ r_into_rtranclp [of listener_step, OF s(3)]],
        rule rtranclp_trans [OF r_into_rtranclp [of listener_step, OF s(1)] r_into_rtranclp [of listener_step, OF s(2)]])
  show ?thesis using listener_closed_clean [OF r] r by (intro exI [of _ ?l4]) simp
qed

text \<open>
  A dialled pipe is the expected one and nothing leaks: a connection is handed out only when the owner is the expected one, and every failure after the
  pipe was opened closes its handle; the loop ends only with an answer, and waits only while the pipe is busy.
\<close>

theorem dial_checked:
  "(case pipe_DialContext expectedOwner turns i of
      None \<Rightarrow> list_all (\<lambda>t. t = Refused PipeBusy) turns
    | Some (Inl e, k) \<Rightarrow> k = 0
    | Some (Inr c, k) \<Rightarrow> k = 1 \<and> (expectedOwner = None \<or> pi_owner i = expectedOwner) \<and> pi_flags i = Some (c = MessageConn))"
proof -
  have "tryDialPipe turns = None \<Longrightarrow> list_all (\<lambda>t. t = Refused PipeBusy) turns" by (induction turns rule: tryDialPipe.induct) (auto split: if_splits)
  then show ?thesis by (auto simp: pipe_DialContext_def split: option.splits)
qed

text \<open>Every server handle refuses clients of other machines, and the first one, which creates the pipe, carries the descriptor that was asked for and accepts no client.\<close>

theorem server_pipe_local:
  "(case makeServerPipeHandle path sd defaultAcl messageMode isFirst of
      None \<Rightarrow> isFirst \<and> sd = None
    | Some c \<Rightarrow> pc_rejectRemote c \<and> (isFirst \<longrightarrow> pc_create c \<and> \<not> pc_readWrite c \<and> pc_descriptor c \<noteq> None \<and> (sd \<noteq> None \<longrightarrow> pc_descriptor c = sd)))"
  by (auto simp: makeServerPipeHandle_def)

theorem server_pipe_local_witness:
  "pc_descriptor (the (makeServerPipeHandle ''p'' (Some ''D:'') None False True)) = Some ''D:''"
  using server_pipe_local [where path = "''p''" and sd = "Some ''D:''" and defaultAcl = None and messageMode = False and isFirst = True] by (simp add: makeServerPipeHandle_def)

end
