(* ===== verification/Win_Router.thy ===== *)
theory Win_Router
  imports Linux_Cgroup
begin

text \<open>
  The native router on Windows (\<open>processrouter/process_windows.go\<close>): a program of its own that reads commands and writes events, kept in a job
  object so that it ends with the service. The calls of Windows are a script of outcomes.
\<close>

section \<open>Definitions\<close>

text \<open>
  The system: whether the program runs, whether it was put into the job, whether the job ends its processes when its last handle is closed, the open
  handles of the job and of the process, what was written to the program, and the outcomes of the calls to come.
\<close>

record win_world =
  ww_alive :: bool
  ww_inJob :: bool
  ww_kills :: bool
  ww_job :: bool
  ww_handle :: bool
  ww_sent :: "string list"
  ww_io :: "io list"

definition win_call :: "win_world \<Rightarrow> bool \<times> win_world" where
  "win_call w = (case next_io (ww_io w) of (r, ios) \<Rightarrow> (r = Done, w\<lparr>ww_io := ios\<rparr>))"

text \<open>Closing the last handle of the job ends the program in it when the job was configured so.\<close>

definition close_job_handle :: "win_world \<Rightarrow> bool \<times> win_world" where
  "close_job_handle w =
     (case win_call w of (ok, w1) \<Rightarrow>
        (ok, if ok then w1\<lparr>ww_job := False, ww_alive := (ww_alive w1 \<and> \<not> (ww_job w1 \<and> ww_inJob w1 \<and> ww_kills w1)), ww_inJob := False\<rparr> else w1))"

definition attachProcessJob :: "win_world \<Rightarrow> err option \<times> win_world" where
  "attachProcessJob w =
     (case win_call w of
        (False, w1) \<Rightarrow> (Some (Wrapped ''create process router job object'' SysErr), w1)
      | (True, w1) \<Rightarrow>
          (case win_call (w1\<lparr>ww_job := True\<rparr>) of
             (False, w2) \<Rightarrow> (Some (Wrapped ''configure process router job object'' SysErr), snd (close_job_handle w2))
           | (True, w2) \<Rightarrow>
               (case win_call (w2\<lparr>ww_kills := True\<rparr>) of
                  (False, w3) \<Rightarrow> (Some (Wrapped ''open process router handle'' SysErr), snd (close_job_handle w3))
                | (True, w3) \<Rightarrow>
                    (case win_call (w3\<lparr>ww_handle := True\<rparr>) of
                       (False, w4) \<Rightarrow>
                         (Some (Wrapped ''attach process router to job object'' SysErr), (snd (close_job_handle w4))\<lparr>ww_handle := False\<rparr>)
                     | (True, w4) \<Rightarrow> (None, w4\<lparr>ww_inJob := True, ww_handle := False\<rparr>)))))"

text \<open>
  The process as the manager holds it: \<open>wp_job\<close> is whether it has a handle of the job.
\<close>

record win_process =
  wp_job :: bool
  wp_world :: win_world

definition win_Alive :: "win_process \<Rightarrow> bool" where "win_Alive p = ww_alive (wp_world p)"

definition FirewallReady :: "win_process \<Rightarrow> bool" where "FirewallReady p = win_Alive p"

definition win_Send :: "string \<Rightarrow> win_process \<Rightarrow> err option \<times> win_process" where
  "win_Send payload p =
     (if \<not> win_Alive p then (Some (Plain ''native process router is not running''), p)
      else (case win_call (wp_world p) of (ok, w1) \<Rightarrow>
          (if ok then None else Some SysErr, p\<lparr>wp_world := (if ok then w1\<lparr>ww_sent := ww_sent w1 @ [payload]\<rparr> else w1)\<rparr>)))"

definition closeJob :: "win_process \<Rightarrow> err option \<times> win_process" where
  "closeJob p =
     (if \<not> wp_job p then (None, p)
      else (case close_job_handle (wp_world p) of (ok, w1) \<Rightarrow> (if ok then None else Some SysErr, p\<lparr>wp_job := False, wp_world := w1\<rparr>)))"

text \<open>
  Stopping: \<open>obeys\<close> is whether the program ends within half a second of the command, and \<open>ended\<close> whether the context ends before the end of
  the program was seen.
\<close>

definition shutdown_command :: string where
  "shutdown_command = [CHR ''{'', CHR 0x22] @ ''version'' @ [CHR 0x22] @ '':1,'' @ [CHR 0x22] @ ''command'' @ [CHR 0x22, CHR '':'', CHR 0x22] @ ''shutdown'' @ [CHR 0x22, CHR ''}'', CHR 0x0A]"

definition win_Stop :: "bool \<Rightarrow> bool \<Rightarrow> win_process \<Rightarrow> err option \<times> win_process" where
  "win_Stop obeys ended p =
     (if \<not> win_Alive p then closeJob p
      else (case win_Send shutdown_command p of (e, p1) \<Rightarrow>
          if obeys then closeJob (p1\<lparr>wp_world := (wp_world p1)\<lparr>ww_alive := False\<rparr>\<rparr>)
          else (case closeJob p1 of
              (Some e, p2) \<Rightarrow> (Some e, p2)
            | (None, p2) \<Rightarrow>
                if win_Alive p2
                then (Some (Plain (if ended then ''context deadline exceeded'' else ''timed out while stopping native process router'')), p2)
                else closeJob p2)))"

text \<open>
  The start: three pipes and the program, the job, and then the events until the program is ready. What comes from the channel is an event or that it
  was closed; when nothing comes, the time runs out.
\<close>

datatype startup = Got router_event | ChannelClosed

fun await_ready :: "startup list \<Rightarrow> bool \<Rightarrow> win_process \<Rightarrow> err option \<times> win_process" where
  "await_ready [] obeys p = (Some (Plain ''native process router did not become ready''), snd (win_Stop obeys False p))"
| "await_ready (ChannelClosed # es) obeys p = (Some (Plain ''native process router exited during startup''), p)"
| "await_ready (Got ev # es) obeys p =
     (if ev_Version ev \<noteq> ProtocolVersion then (Some (Plain ''unsupported native router protocol version''), snd (win_Stop obeys False p))
      else if ev_Event ev = ''ready'' then (None, p)
      else if ev_Event ev = ''error'' then (Some (Plainf ''native process router startup failed'' [ev_Message ev]), snd (win_Stop obeys False p))
      else await_ready es obeys p)"

fun calls_ok :: "nat \<Rightarrow> win_world \<Rightarrow> bool \<times> win_world" where
  "calls_ok 0 w = (True, w)"
| "calls_ok (Suc n) w = (case win_call w of (False, w1) \<Rightarrow> (False, w1) | (True, w1) \<Rightarrow> calls_ok n w1)"

definition startNativeProcess_windows :: "startup list \<Rightarrow> bool \<Rightarrow> win_world \<Rightarrow> err option \<times> win_process" where
  "startNativeProcess_windows events obeys w =
     (case calls_ok 4 w of
        (False, w1) \<Rightarrow> (Some SysErr, \<lparr>wp_job = False, wp_world = w1\<rparr>)
      | (True, w1) \<Rightarrow>
          (case attachProcessJob (w1\<lparr>ww_alive := True\<rparr>) of
             (Some e, w2) \<Rightarrow> (Some e, \<lparr>wp_job = False, wp_world = w2\<lparr>ww_alive := False\<rparr>\<rparr>)
           | (None, w2) \<Rightarrow> await_ready events obeys \<lparr>wp_job = True, wp_world = w2\<rparr>))"

text \<open>
  Reading what the program writes: the events of the lines that can be decoded, in order, a diagnostic for each that cannot, and one when a line is too long.
  \<open>decode\<close> is \<open>json.Unmarshal\<close>.
\<close>

fun read_event_lines :: "string \<Rightarrow> (string \<Rightarrow> router_event option) \<Rightarrow> string list \<Rightarrow> diagnostics \<Rightarrow> router_event list \<times> diagnostics" where
  "read_event_lines now decode [] d = ([], d)"
| "read_event_lines now decode (l # ls) d =
     (case decode l of
        None \<Rightarrow> read_event_lines now decode ls (recordDiagnosticAt now ''warning'' ''Invalid process router output'' d)
      | Some ev \<Rightarrow> (case read_event_lines now decode ls d of (evs, d') \<Rightarrow> (ev # evs, d')))"

definition readEvents :: "string \<Rightarrow> (string \<Rightarrow> router_event option) \<Rightarrow> string \<Rightarrow> diagnostics \<Rightarrow> startup list \<times> diagnostics" where
  "readEvents now decode output d =
     (case scanner_lines output of (ls, tooLong) \<Rightarrow>
        (case read_event_lines now decode ls d of (evs, d') \<Rightarrow>
           (map Got evs @ [ChannelClosed], if tooLong then recordDiagnosticAt now ''error'' ''Failed to read process router events'' d' else d')))"

definition readErrors :: "unicode \<Rightarrow> string \<Rightarrow> string \<Rightarrow> diagnostics \<Rightarrow> diagnostics" where
  "readErrors U now output d =
     (case scanner_lines output of (ls, tooLong) \<Rightarrow>
        (let d' = foldl (\<lambda>d l. recordNativeDiagnostic U now l d) d ls
         in if tooLong then recordDiagnosticAt now ''error'' ''Failed to read process router diagnostics'' d' else d'))"

text \<open>\<open>hardenProcessRouterPaths\<close>: the outcomes of the two functions of the package \<open>security\<close> and of \<open>Stat\<close>, which may find no file.\<close>

datatype stat_result = Present | Missing | Unreadable

definition harden_windows :: "bool \<Rightarrow> stat_result \<Rightarrow> bool \<Rightarrow> err option" where
  "harden_windows restricted stat secured =
     (if \<not> restricted then Some SysErr
      else (case stat of Missing \<Rightarrow> None | Unreadable \<Rightarrow> Some SysErr | Present \<Rightarrow> if secured then None else Some SysErr))"

section \<open>Lemmas\<close>

text \<open>The program is in a job that ends it, and the process holds the handle.\<close>

definition contained :: "win_process \<Rightarrow> bool" where
  "contained p \<longleftrightarrow> ww_job (wp_world p) \<and> ww_inJob (wp_world p) \<and> ww_kills (wp_world p)"

lemma win_call_fields:
  assumes "win_call w = (ok, w')"
  shows "ww_alive w' = ww_alive w \<and> ww_inJob w' = ww_inJob w \<and> ww_kills w' = ww_kills w \<and> ww_job w' = ww_job w \<and> ww_handle w' = ww_handle w"
  using assms by (auto simp: win_call_def split: prod.splits)

lemma calls_ok_fields: "calls_ok n w = (ok, w') \<Longrightarrow> ww_alive w' = ww_alive w \<and> ww_inJob w' = ww_inJob w \<and> ww_kills w' = ww_kills w \<and> ww_job w' = ww_job w \<and> ww_handle w' = ww_handle w"
  by (induction n arbitrary: w) (fastforce split: prod.splits bool.splits dest!: win_call_fields)+

lemma close_job_fields:
  assumes "close_job_handle w = (ok, w')"
  shows "ok \<Longrightarrow> \<not> ww_job w'" "ok \<Longrightarrow> ww_job w \<and> ww_inJob w \<and> ww_kills w \<Longrightarrow> \<not> ww_alive w'" "\<not> ok \<Longrightarrow> ww_job w' = ww_job w" "ww_alive w' \<Longrightarrow> ww_alive w"
    "ww_handle w' = ww_handle w"
  using assms by (auto simp: close_job_handle_def split: prod.splits if_splits dest!: win_call_fields)

lemma attach_cases:
  assumes "attachProcessJob w = (e, w')"
  shows "e = None \<Longrightarrow> ww_job w' \<and> ww_inJob w' \<and> ww_kills w' \<and> ww_alive w' = ww_alive w" "\<not> ww_handle w \<Longrightarrow> \<not> ww_handle w'"
proof -
  obtain b1 w1 where c1: "win_call w = (b1, w1)" by fastforce
  obtain b2 w2 where c2: "win_call (w1\<lparr>ww_job := True\<rparr>) = (b2, w2)" by fastforce
  obtain b3 w3 where c3: "win_call (w2\<lparr>ww_kills := True\<rparr>) = (b3, w3)" by fastforce
  obtain b4 w4 where c4: "win_call (w3\<lparr>ww_handle := True\<rparr>) = (b4, w4)" by fastforce
  note f = win_call_fields [OF c1] win_call_fields [OF c2] win_call_fields [OF c3] win_call_fields [OF c4]
  have h: "ww_handle (snd (close_job_handle v)) = ww_handle v" for v by (rule close_job_fields(5) [OF prod.collapse [symmetric]])
  have r: "(e, w') = (if \<not> b1 then (Some (Wrapped ''create process router job object'' SysErr), w1)
      else if \<not> b2 then (Some (Wrapped ''configure process router job object'' SysErr), snd (close_job_handle w2))
      else if \<not> b3 then (Some (Wrapped ''open process router handle'' SysErr), snd (close_job_handle w3))
      else if \<not> b4 then (Some (Wrapped ''attach process router to job object'' SysErr), (snd (close_job_handle w4))\<lparr>ww_handle := False\<rparr>)
      else (None, w4\<lparr>ww_inJob := True, ww_handle := False\<rparr>))"
    using assms unfolding attachProcessJob_def c1 by (cases b1; cases b2; cases b3; cases b4) (simp_all add: c2 c3 c4)
  show "e = None \<Longrightarrow> ww_job w' \<and> ww_inJob w' \<and> ww_kills w' \<and> ww_alive w' = ww_alive w" using r f by (simp split: if_splits)
  show "\<not> ww_handle w \<Longrightarrow> \<not> ww_handle w'" using r f by (auto simp: h split: if_splits)
qed

lemma send_fields:
  assumes "win_Send payload p = (e, p')"
  shows "wp_job p' = wp_job p" "contained p' = contained p" "win_Alive p' = win_Alive p" "ww_job (wp_world p') = ww_job (wp_world p)"
  using assms by (auto simp: win_Send_def win_Alive_def contained_def split: prod.splits if_splits dest!: win_call_fields)

lemma closeJob_fields:
  assumes "closeJob p = (e, p')"
  shows "\<not> wp_job p'" "win_Alive p' \<Longrightarrow> win_Alive p" "wp_job p \<Longrightarrow> e = None \<Longrightarrow> \<not> ww_job (wp_world p')"
    "wp_job p \<Longrightarrow> contained p \<Longrightarrow> e = None \<Longrightarrow> \<not> win_Alive p'" "wp_job p \<Longrightarrow> e \<noteq> None \<Longrightarrow> ww_job (wp_world p') = ww_job (wp_world p)" "\<not> wp_job p \<Longrightarrow> p' = p \<and> e = None"
  using assms by (auto simp: closeJob_def win_Alive_def contained_def split: prod.splits if_splits dest: close_job_fields)

lemma stop_cases:
  assumes "win_Stop obeys ended p = (e, p')"
  shows "e = None \<Longrightarrow> \<not> win_Alive p'" "wp_job p \<Longrightarrow> e = None \<Longrightarrow> \<not> ww_job (wp_world p')" "wp_job p \<Longrightarrow> contained p \<Longrightarrow> win_Alive p' \<Longrightarrow> ww_job (wp_world p')" "\<not> wp_job p'"
proof -
  obtain e1 p1 where s: "win_Send shutdown_command p = (e1, p1)" by fastforce
  note f = send_fields [OF s]
  let ?q = "p1\<lparr>wp_world := (wp_world p1)\<lparr>ww_alive := False\<rparr>\<rparr>"
  obtain e2 p2 where c: "closeJob p1 = (e2, p2)" by fastforce
  obtain e3 p3 where d: "closeJob ?q = (e3, p3)" by fastforce
  obtain e0 p0 where c0: "closeJob p = (e0, p0)" by fastforce
  note g = closeJob_fields [OF c] and h = closeJob_fields [OF d] and k = closeJob_fields [OF c0]
  have q: "\<not> win_Alive ?q" "wp_job ?q = wp_job p" by (simp_all add: win_Alive_def f)
  have again: "closeJob p2 = (None, p2)" using g(1) by (simp add: closeJob_def)
  consider "\<not> win_Alive p" "e = e0" "p' = p0" | "win_Alive p" "obeys" "e = e3" "p' = p3" | "win_Alive p" "\<not> obeys" "e2 \<noteq> None" "e = e2" "p' = p2"
    | "win_Alive p" "\<not> obeys" "e2 = None" "p' = p2" "e = None \<longleftrightarrow> \<not> win_Alive p2"
    using assms by (auto simp: win_Stop_def s c d c0 again split: if_splits option.splits)
  then have "(e = None \<longrightarrow> \<not> win_Alive p') \<and> (wp_job p \<and> e = None \<longrightarrow> \<not> ww_job (wp_world p')) \<and> (wp_job p \<and> contained p \<and> win_Alive p' \<longrightarrow> ww_job (wp_world p')) \<and> \<not> wp_job p'"
  proof cases
    case 1
    then show ?thesis using k by auto
  next
    case 2
    then show ?thesis using h q by auto
  next
    case 3
    then show ?thesis using g f by (auto simp: contained_def)
  next
    case 4
    then show ?thesis using g f by auto
  qed
  then show "e = None \<Longrightarrow> \<not> win_Alive p'" "wp_job p \<Longrightarrow> e = None \<Longrightarrow> \<not> ww_job (wp_world p')" "wp_job p \<Longrightarrow> contained p \<Longrightarrow> win_Alive p' \<Longrightarrow> ww_job (wp_world p')" "\<not> wp_job p'" by blast+
qed

lemma await_cases:
  "await_ready es obeys p = (e, p') \<Longrightarrow> wp_job p \<Longrightarrow> contained p \<Longrightarrow>
     (e = None \<longrightarrow> p' = p) \<and> (e \<noteq> None \<and> win_Alive p' \<longrightarrow> ChannelClosed \<in> set es \<or> ww_job (wp_world p'))"
proof (induction es obeys p rule: await_ready.induct)
  case (1 obeys p)
  then show ?case using stop_cases(3) [of obeys False p "fst (win_Stop obeys False p)" p'] by auto
next
  case (3 ev es obeys p)
  then show ?case using stop_cases(3) [of obeys False p "fst (win_Stop obeys False p)" p'] by (auto split: if_splits)
qed auto

lemma start_cases:
  assumes "startNativeProcess_windows events obeys w = (e, p)" "\<not> ww_alive w"
  shows "e = None \<Longrightarrow> win_Alive p \<and> wp_job p \<and> contained p" "e \<noteq> None \<Longrightarrow> win_Alive p \<Longrightarrow> ChannelClosed \<in> set events \<or> ww_job (wp_world p)"
proof -
  obtain ok w1 where c: "calls_ok 4 w = (ok, w1)" by fastforce
  obtain e2 w2 where a: "attachProcessJob (w1\<lparr>ww_alive := True\<rparr>) = (e2, w2)" by fastforce
  let ?p = "\<lparr>wp_job = True, wp_world = w2\<rparr>"
  note f = calls_ok_fields [OF c] attach_cases(1) [OF a]
  consider "\<not> ok" | "ok" "e2 \<noteq> None" | "ok" "e2 = None" by blast
  then have "(e = None \<longrightarrow> win_Alive p \<and> wp_job p \<and> contained p) \<and> (e \<noteq> None \<and> win_Alive p \<longrightarrow> ChannelClosed \<in> set events \<or> ww_job (wp_world p))"
  proof cases
    case 1
    then show ?thesis using assms f by (auto simp: startNativeProcess_windows_def c win_Alive_def)
  next
    case 2
    then show ?thesis using assms by (auto simp: startNativeProcess_windows_def c a win_Alive_def)
  next
    case 3
    then have s: "await_ready events obeys ?p = (e, p)" using assms by (simp add: startNativeProcess_windows_def c a)
    have k: "wp_job ?p" "contained ?p" "win_Alive ?p" using f(2) 3 by (simp_all add: contained_def win_Alive_def)
    show ?thesis using await_cases [OF s k(1,2)] k by auto
  qed
  then show "e = None \<Longrightarrow> win_Alive p \<and> wp_job p \<and> contained p" "e \<noteq> None \<Longrightarrow> win_Alive p \<Longrightarrow> ChannelClosed \<in> set events \<or> ww_job (wp_world p)" by blast+
qed

lemma read_lines_decoded: "\<forall>ev \<in> set evs. decode (enc ev) = Some ev \<Longrightarrow> read_event_lines now decode (map enc evs) d = (evs, d)"
  by (induction evs) auto

section \<open>An example\<close>

definition toy_windows :: win_world where
  "toy_windows = \<lparr>ww_alive = False, ww_inJob = False, ww_kills = False, ww_job = False, ww_handle = False, ww_sent = [], ww_io = []\<rparr>"

definition toy_ready :: router_event where
  "toy_ready = \<lparr>ev_Version = 1, ev_Event = ''ready'', ev_Message = []\<rparr>"

lemmas win_start_defs = startNativeProcess_windows_def attachProcessJob_def win_call_def toy_windows_def numeral_eq_Suc

lemma toy_win_starts: "fst (startNativeProcess_windows [Got toy_ready] True toy_windows) = None"
  by (simp add: win_start_defs toy_ready_def ProtocolVersion_def)

text \<open>
  When the output of the program ends before it was ready, for instance with a line that is too long, the start is given up but the program is left
  running, and with it the handle of its job, which nobody has any more.
\<close>

lemma startup_orphan:
  "\<exists>p. startNativeProcess_windows [ChannelClosed] True toy_windows = (Some (Plain ''native process router exited during startup''), p) \<and> win_Alive p \<and> ww_job (wp_world p)"
  by (simp add: win_start_defs win_Alive_def)

section \<open>Properties\<close>

text \<open>
  The router of Windows does not outlive the service: once it was started it is in a job that ends it with the last handle, whatever the order of its events; and when
  the start fails it does not run on, unless its output ended first or the handle of the job could not be closed.
\<close>

theorem win_router_contained:
  assumes "startNativeProcess_windows events obeys w = (e, p)" and "\<not> ww_alive w"
  shows "(e = None \<longrightarrow> win_Alive p \<and> (\<forall>w'. close_job_handle (wp_world p) = (True, w') \<longrightarrow> \<not> ww_alive w')) \<and>
     (e \<noteq> None \<and> win_Alive p \<longrightarrow> ChannelClosed \<in> set events \<or> ww_job (wp_world p))"
  using start_cases [OF assms] close_job_fields(2) by (auto simp: contained_def)

theorem win_router_contained_witness:
  "win_Alive (snd (startNativeProcess_windows [Got toy_ready] True toy_windows))"
  using win_router_contained [of "[Got toy_ready]" True toy_windows, OF prod.collapse [symmetric]] toy_win_starts by (simp add: toy_windows_def)

text \<open>
  A stop that succeeds has stopped the router: afterwards the program does not run, whether it obeyed or not, and the handle of its job is closed; a second stop does nothing.
\<close>

theorem win_stop_sound:
  assumes "win_Stop obeys ended p = (None, p')"
  shows "\<not> win_Alive p' \<and> (wp_job p \<longrightarrow> \<not> ww_job (wp_world p')) \<and> win_Stop obeys' ended' p' = (None, p')"
  using stop_cases [OF assms] by (auto simp: win_Stop_def closeJob_def)

theorem win_stop_sound_witness:
  "\<not> win_Alive (snd (win_Stop False False \<lparr>wp_job = True, wp_world = toy_windows\<lparr>ww_alive := True, ww_inJob := True, ww_kills := True, ww_job := True\<rparr>\<rparr>))"
proof -
  let ?p = "\<lparr>wp_job = True, wp_world = toy_windows\<lparr>ww_alive := True, ww_inJob := True, ww_kills := True, ww_job := True\<rparr>\<rparr>"
  have "fst (win_Stop False False ?p) = None"
    by (simp add: win_Stop_def win_Alive_def win_Send_def win_call_def closeJob_def close_job_handle_def toy_windows_def)
  then have "win_Stop False False ?p = (None, snd (win_Stop False False ?p))" by (simp add: prod_eq_iff)
  from win_stop_sound [OF this] show ?thesis by blast
qed

text \<open>The events of the program are handed on as it wrote them: in their order, and none is lost or added, when each is a line that is not too long.\<close>

theorem win_events_in_order:
  assumes "\<forall>ev \<in> set evs. decode (enc ev) = Some ev \<and> short_line (enc ev)"
  shows "readEvents now decode (unlines (map enc evs)) d = (map Got evs @ [ChannelClosed], d)"
proof -
  have "scanner_lines (unlines (map enc evs)) = (map enc evs, False)" by (rule scan_unlines) (use assms in \<open>auto simp: list_all_iff\<close>)
  then show ?thesis using read_lines_decoded [of evs decode enc now d] assms by (simp add: readEvents_def)
qed

theorem win_events_in_order_witness:
  "fst (readEvents [] (\<lambda>l. if l = ''r'' then Some toy_ready else None) (unlines [''r'']) no_diagnostics) = [Got toy_ready, ChannelClosed]"
  using win_events_in_order [of "[toy_ready]" "\<lambda>l. if l = ''r'' then Some toy_ready else None" "\<lambda>ev. ''r''" "[]" no_diagnostics]
  by (simp add: short_line_def MaxScanTokenSize_def)

end
