(* ===== verification/Spec2Isabelle.thy ===== *)
theory Spec2Isabelle
  imports Linux_Cgroup Core_Validation Win_Firewall Service_Command Core_Diagnostics Http_Helpers Named_Pipe Win_Router
begin

text \<open>
  A verification of the core of kokorobox-service, the privileged helper of the KokoroBox desktop
  client (\<open>src/\<close>, Go). The service runs as root (or as the local system) and listens on a local socket;
  the client asks it to run the proxy core, to route single processes, and to change the system proxy
  and the DNS servers. Whoever can make the service act has the rights of root, and what the service
  changes outlives a client that crashes. The development is about these two concerns: who is listened
  to, and that what was changed is put back.

  \<^bold>\<open>How the parts interact.\<close> Every request passes \<open>AuthMiddleware\<close>, which asks the key manager whether the
  request is signed by the paired client and comes from the bound user of the system, and the nonce
  store whether it is new. A request that is served reaches a handler of the core, of the process router,
  of the DNS lease or of the system proxy. The core manager runs the proxy core under a launch profile that
  the client supplies and the service completes. The router's manager keeps a native router in step with the rules and
  the health of the proxy; on Linux the native router is part of the service and works with iptables
  and cgroups. The two leases share a contract with the client: the client renews, and a timer gives
  back what was taken once it stops. The recovery of the system proxy asks the key manager for the bound
  user.

  \<^bold>\<open>Conventions.\<close> A Go string is a list of bytes. A Go error is a value of \<open>err\<close>, a fallible result is
  \<open>err + 'a\<close> or \<open>err option\<close>. A component whose operations run under a mutex is a record, and its operations are
  functions on that record. Calls to the operating system take their outcomes from a script in the
  state, a list of \<open>Done\<close>, \<open>Fails\<close> (without effect) and \<open>Partial\<close> (with its effect, but reported as failed); an empty
  script answers \<open>Done\<close>. Theorems without a hypothesis on the script hold for every failure at every
  call. A file that the service writes holds a marshalled value (\<open>'a store\<close>): absent, unreadable, or the
  value. The clock is an argument. Code that is not in the repository (cryptography, Unicode case tables,
  sysproxy-go, the output of system commands) is an argument too. Loops are structurally recursive or
  have a termination proof; no definition uses fuel. Runs of a component are an inductive predicate whose
  rules are the operations, in any order and with any arguments.

  \<^bold>\<open>Theories.\<close>

  \<^item> \<open>Kokoro_Prelude\<close>: errors, scripts, files, and the functions of Go's packages \<open>strings\<close>, \<open>strconv\<close> and \<open>sort\<close>.

  \<^item> \<open>Auth_Nonce\<close> (\<open>route/auth/middleware.go\<close>, \<open>requestNonceStore\<close>): the store refines the history of the calls
    it accepted, and holds live entries only. The locale \<open>replay_guard\<close> is what the middleware relies on.

  \<^item> \<open>Auth_Query\<close> (\<open>canonicalizeQuery\<close> and the functions of \<open>net/url\<close>): canonical queries are equal exactly for
    equal parameters.

  \<^item> \<open>Auth_Keys\<close> (\<open>route/auth/auth.go\<close>): the ring of the current and the previous key, the bound user, their
    files; every operation with all its failures and roll-backs. The ring's invariant, what a signature is
    checked against, what a restart loads.

  \<^item> \<open>Auth_Request\<close> (\<open>route/auth/middleware.go\<close>): exactly the requests that pass every check are served; the
    signed text determines the request; a replay is refused.

  \<^item> \<open>Router_Rules\<close> (\<open>processrouter/types.go\<close>): what an accepted set of rules looks like, the wildcard matcher
    against its specification, protected programs, and that the command blocks while the proxy is down.

  \<^item> \<open>Router_Diagnostics\<close> (\<open>processrouter/diagnostics.go\<close>): the bounded log.

  \<^item> \<open>Router_Manager\<close> (\<open>processrouter/manager.go\<close>, \<open>process.go\<close>, \<open>proxy_health.go\<close>, \<open>integrity.go\<close>): the state machine
    of the router, its invariant over all runs, and what reconciliation, expiry and disabling establish.

  \<^item> \<open>Linux_Plan\<close> (\<open>processrouter/linux_plan.go\<close>): the commands of the firewall; the cleanup undoes the setup.

  \<^item> \<open>Linux_Process\<close> (\<open>processrouter/process_linux.go\<close>): scans, moves of processes between cgroups, rebuilding the
    firewall, stopping; moved processes are remembered and go back.

  \<^item> \<open>Linux_Cgroup\<close> (the rest of \<open>process_linux.go\<close>): what is read from \<open>/proc\<close>, which commands are trusted, and how the cgroups
    are found, made and taken down. Only files of root are executed, a start that fails leaves nothing, a start
    that succeeds gives a router for the invariant of \<open>Linux_Process\<close>. The locale \<open>cgroup_steps\<close> carries what every
    step respects.

  \<^item> \<open>Win_Router\<close> (\<open>processrouter/process_windows.go\<close>): the native router of Windows in its job object: it does not outlive the
    service, a stop that succeeds has stopped it, its events keep their order.

  \<^item> \<open>Sys_Dns\<close> (\<open>sys/dns.go\<close>): the output of \<open>scutil\<close> and \<open>networksetup\<close>.

  \<^item> \<open>Client_Lease\<close>: the locale \<open>client_lease\<close>, the contract of a lease, with the life of a lease proved once.

  \<^item> \<open>Dns_Lease\<close> (\<open>route/dnsapi\<close>) interprets it: the record on disk always suffices to restore the servers,
    a restart restores them, a release restores exactly them.

  \<^item> \<open>Sysproxy_Settings\<close>, \<open>Sysproxy_Lease\<close> (\<open>route/sysproxyapi\<close>) interpret it too: snapshots and their
    comparison; the lease, its record, the recovery, the guard, the events, the PAC server and the
    handlers. Nothing leaks in any run, settings of the user are left alone, a crash is recovered from.

  \<^item> \<open>Core_Launch\<close> (\<open>core/launch.go\<close>, \<open>core/security\<close>, \<open>core/controller\<close>, \<open>core/startup_notify*.go\<close>): the launch profile
    and its file; the arguments, the environment and the temporary directories of a session. The client
    cannot displace what the service puts there, and a session that fails leaves nothing.

  \<^item> \<open>Core_Output\<close>, \<open>Core_Log\<close> (\<open>core/manager.go\<close>, \<open>core/log_writer.go\<close>): what the core prints: the bounded buffer, the
    watchers for fatal and other lines, the log file and its limit.

  \<^item> \<open>Core_Sandbox\<close> (\<open>core/sandbox/sandbox_linux.go\<close>): the list of mounts of the sandbox, and the root that is built
    from it, with every system call failing or not. The core can write only where it is meant to, a root
    that cannot be built is taken down, roots of living services are told from stale ones.

  \<^item> \<open>Core_Launcher\<close> (\<open>core/launcher*.go\<close> and the rest of \<open>core/sandbox\<close>): the command that re-executes the service,
    the probe, the choice between sandbox and direct start, and the fallback. A forced sandbox is never
    left, and no start leaks a file, a root or a process.

  \<^item> \<open>Core_Manager\<close> (\<open>core/manager.go\<close>, \<open>core/events.go\<close>, \<open>core/process_control_other.go\<close>): starting, stopping and restarting
    the core, and the goroutines that watch it, in any interleaving. The state is always whole, a start is
    all or nothing, a stop and a crash leave nothing.

  \<^item> \<open>Core_Desired\<close> (\<open>route/coreapi/desired.go\<close>, \<open>core.go\<close>): the record of whether the core should run, the watcher and
    the request handlers around the core manager, with their interleavings. The state stays whole, a stop is
    final once it is through, a core that should run and does not is started again. The locale
    \<open>core_lifecycle\<close> is what this part relies on.

  \<^item> \<open>Core_Validation\<close> (\<open>core/profile_validation.go\<close>): trying a profile does not disturb the core that runs, and the
    verdict is the one of the tried process.

  \<^item> \<open>Http_Socket\<close> (\<open>route/httphelper/websocket.go\<close> and the readers of the event streams): the frames of the
    WebSocket on 8-bit words. What is written is read, a frame has a bounded size, every reader ends.

  \<^item> \<open>Router_Api\<close> (\<open>route/processrouterapi\<close>): the request handlers of the router and the stream of its status, which
    renews the lease.

  \<^item> \<open>Win_Firewall\<close> (\<open>internal/winfirewall\<close>, the rules of \<open>processrouter\<close> and \<open>core/firewall\<close>): the reconciliation of the
    rules of the Windows firewall, with failing COM calls. Rules of others are kept, success means that the
    wanted rules are there, and what is missing or stale is repaired.

  \<^item> \<open>Core_Diagnostics\<close> (\<open>route/coreapi/proxy_diagnostics.go\<close>, \<open>dns_diagnostics.go\<close>, \<open>core_controller_proxy.go\<close>): the probes of the
    running core stay within bounds and are judged as documented; requests that are forwarded to the core's
    controller reach the core they are meant for, in any interleaving.

  \<^item> \<open>Http_Helpers\<close> (\<open>route/httphelper/utils.go\<close>, \<open>i18n/i18n.go\<close>, \<open>log\<close>): the language of an answer, the catalogs, which
    requests are logged, the rotation of the log and its tail.

  \<^item> \<open>Named_Pipe\<close> (\<open>listen/namedpipe\<close>): operations on a pipe beside its closing, deadlines, the byte stream over
    messages, dialling and the listener, as step relations.

  \<^item> \<open>Service_Boot\<close> (\<open>route/server.go\<close>, \<open>route/pipectx\<close>, \<open>route/bootstrap\<close>, \<open>identity\<close>): the data directory, the sockets and their
    permissions, the identity of a peer, and the pairing of a first client.

  \<^item> \<open>Service_Run\<close> (\<open>route/server.go\<close>, \<open>route/route.go\<close>): the whole service, a record of all parts, its start, its stop, the routes
    to the handlers that change state, and the steps of all parts in any order. The properties below are about it.
  \<^item> \<open>Service_Staging\<close> (\<open>cmd/service_runtime_linux.go\<close>, \<open>cmd/service_install_windows.go\<close>): the copies of the executable that the
    service runs from. On Linux a copy stands under its digest as long as the source does not change while it is copied, and
    the chain of executed copies ends exactly unless the variable that marks it was set otherwise; on Windows what is staged has
    the digest of the source and a router that passes its check, and directories in use are kept.
  \<^item> \<open>Service_Command\<close> (\<open>cmd/cmd_service.go\<close>, \<open>service/\<close>): the commands that install, remove, control and initialise the service.
    The service manager is an argument that may answer anything at any time, or, where the theorem needs it, what is documented
    of it; a registration is replaced only when that is safe, within a bounded number of calls, and after a successful
    initialisation the running service has the keys that are in the files.

  \<^bold>\<open>Not modelled.\<close> The parsing of the command line, the encoder of the log
  lines for the logging library, the tables of translations, the routes of requests that only read, and \<open>StartHTTP\<close>, the
  listener of the development server. On Windows and macOS, the parts that only call the platform (the token of a named pipe's client, the
  attributes of files, the guard of the registry) are left out; the Linux code of the same parts is modelled.
\<close>

section \<open>Properties that span components\<close>









end
